(* ===== verification/Prelude.thy ===== *)
theory Prelude
  imports Main "HOL-Library.Word" "HOL-Library.Signed_Division" "HOL-Library.Multiset"
begin

text \<open>
  Shared vocabulary of the development: the machine integer types of the RV32 target, the C
  operators whose HOL counterparts differ (signed comparison, truncating division), the named
  theorem collections, and generic lemmas on words and lists that the components use.
\<close>

unbundle bit_operations_syntax

text \<open>Tiles are coordinate pairs; quantifiers over them stay quantifiers over one variable.\<close>

declare split_paired_All [simp del] split_paired_Ex [simp del]

section \<open>Machine integers\<close>

text \<open>
  On the manycore tile \<open>char\<close> is 8, \<open>short\<close> 16, and \<open>int\<close>, \<open>long\<close> and pointers are 32 bits
  wide. A value of type \<open>int\<close> is a word read by \<^const>\<open>sint\<close>, one of type \<open>unsigned\<close> a word
  read by \<^const>\<open>uint\<close>; addition and subtraction wrap (the target is two's complement).
\<close>

type_synonym u8 = "8 word"
type_synonym u16 = "16 word"
type_synonym u32 = "32 word"

named_theorems arch_simps \<open>unfolding of the address and field constants\<close>
named_theorems proc_simps \<open>one-step execution of tile programs\<close>
named_theorems mem_simps \<open>reading back stores to the byte memory\<close>

section \<open>Signed comparisons and small values\<close>

text \<open>Signed \<open>a < b\<close> and \<open>a \<le> b\<close> of C on \<open>int\<close>.\<close>

definition slt :: "u32 \<Rightarrow> u32 \<Rightarrow> bool" where
  "slt a b \<longleftrightarrow> sint a < sint b"

definition sle :: "u32 \<Rightarrow> u32 \<Rightarrow> bool" where
  "sle a b \<longleftrightarrow> sint a \<le> sint b"

lemma sint_small:
  fixes w :: u32
  assumes "uint w < 2 ^ 31"
  shows "sint w = uint w"
proof -
  have "sint w = signed_take_bit 31 (uint w)"
    by (simp add: sint_uint)
  also have "\<dots> = uint w"
    using assms uint_ge_0 [of w] by (intro signed_take_bit_int_eq_self) linarith+
  finally show ?thesis .
qed

lemma sint_of_int_small:
  fixes k :: int
  assumes "- (2 ^ 31) \<le> k" and "k < 2 ^ 31"
  shows "sint (word_of_int k :: u32) = k"
  using assms by (simp add: sint_sbintrunc' signed_take_bit_int_eq_self)

text \<open>
  Differences of free-running counters: as long as the true difference fits in an \<open>int\<close>, the
  signed difference of the wrapped counters is the true one.
\<close>

lemma sint_diff_counters:
  fixes a b :: int
  assumes "- (2 ^ 31) \<le> a - b" and "a - b < 2 ^ 31"
  shows "sint (word_of_int a - word_of_int b :: u32) = a - b"
  using sint_of_int_small [OF assms] by (simp add: wi_hom_syms)

section \<open>Truncating division\<close>

text \<open>
  C's \<open>/\<close> and \<open>%\<close> on \<open>int\<close>, as the RV32M instructions compute them: the quotient truncates
  towards zero; dividing by zero yields all ones and leaves the dividend as the remainder.
\<close>

definition c_div :: "u32 \<Rightarrow> u32 \<Rightarrow> u32" where
  "c_div a b = (if b = 0 then - 1 else word_of_int (sint a sdiv sint b))"

definition c_rem :: "u32 \<Rightarrow> u32 \<Rightarrow> u32" where
  "c_rem a b = (if b = 0 then a else word_of_int (sint a smod sint b))"

lemma c_div_nonneg:
  assumes "uint a < 2 ^ 31" and "uint b < 2 ^ 31" and "b \<noteq> 0"
  shows "c_div a b = a div b"
  using assms by (simp add: c_div_def sint_small signed_divide_int_def word_div_def)

lemma c_rem_nonneg:
  assumes "uint a < 2 ^ 31" and "uint b < 2 ^ 31" and "b \<noteq> 0"
  shows "c_rem a b = a mod b"
  using assms
  by (simp add: c_rem_def sint_small signed_modulo_int_def signed_divide_int_def word_mod_def
        minus_div_mult_eq_mod)

text \<open>The same facts for values read as naturals, the form the index computations need.\<close>

lemma unat_of_nat_lt: "n < 2 ^ 32 \<Longrightarrow> unat (of_nat n :: u32) = n"
  by (simp add: unat_of_nat)

lemma unat_lt32: "unat (w :: u32) < 2 ^ 32"
  using unsigned_less [where 'a = nat, of w] by simp

lemma unat_plus_le: "unat (a + b :: u32) \<le> unat a + unat b"
  by (simp add: unat_word_ariths)

lemma unat_times_of_nat_le: "unat (a * of_nat n :: u32) \<le> unat a * n"
proof -
  have "unat (a * of_nat n :: u32) \<le> unat a * unat (of_nat n :: u32)"
    by (simp add: unat_word_ariths)
  also have "\<dots> \<le> unat a * n"
    by (simp add: unat_of_nat)
  finally show ?thesis .
qed

lemma uint_lt_unat:
  assumes "unat (w :: u32) < 2 ^ 31"
  shows "uint w < 2 ^ 31"
proof -
  have "int (unat w) < int (2 ^ 31)" using assms by (rule of_nat_less_iff [THEN iffD2])
  then show ?thesis by simp
qed

lemma unat_c_div:
  assumes "unat a < 2 ^ 31" and "unat b < 2 ^ 31" and "0 < unat b"
  shows "unat (c_div a b) = unat a div unat b"
proof -
  have "b \<noteq> 0" using assms(3) by auto
  then show ?thesis
    using c_div_nonneg [OF uint_lt_unat uint_lt_unat] assms by (simp add: unat_div)
qed

lemma unat_c_rem:
  assumes "unat a < 2 ^ 31" and "unat b < 2 ^ 31" and "0 < unat b"
  shows "unat (c_rem a b) = unat a mod unat b"
proof -
  have "b \<noteq> 0" using assms(3) by auto
  then show ?thesis
    using c_rem_nonneg [OF uint_lt_unat uint_lt_unat] assms by (simp add: unat_mod)
qed

section \<open>Bit fields\<close>

text \<open>
  A value that fits in \<open>n\<close> bits has no bit at or above position \<open>n\<close>; this is how the range
  conditions on coordinates and addresses enter the bit-level proofs.
\<close>

lemma take_bit_unat_lt:
  fixes x :: "'a::len word"
  assumes "unat x < 2 ^ n"
  shows "take_bit n x = x"
  using assms by (simp add: word_unat_eq_iff unsigned_take_bit_eq take_bit_nat_eq_self)

lemma bit_field_False:
  fixes x :: "'a::len word"
  assumes "unat x < 2 ^ n" and "n \<le> m"
  shows "\<not> bit x m"
  using take_bit_unat_lt [OF assms(1)] assms(2) by (metis bit_take_bit_iff leD)

end
