(* ===== verification/MCS_Queue.thy ===== *)
theory MCS_Queue
  imports Prelude
begin

text \<open>
  The queue that the MCS lock of \<open>bsg_mcs_mutex.hpp\<close> builds, without memory and program counters: who is in it, which
  links are written, who has been told to go on. The releasing tile that takes the whole queue off the lock for a
  moment, and puts it back behind the tiles that came in between, is what makes it different from the usual lock with
  compare-and-swap. \<open>MCS_Mutex\<close> shows that the code takes the steps of this system.
\<close>

section \<open>State and steps\<close>

text \<open>
  The role of a tile: it has swapped itself in behind \<open>p\<close> and not told it yet (\<open>Joined\<close>); it waits for its
  flag; it has the lock or is about to find out that nobody follows (\<open>Owner\<close>); it has taken the queue that ends in
  \<open>v\<close> off the lock (\<open>Detached\<close>); it has put it back, and must hand on the lock itself (\<open>Granter\<close>) or append
  its followers to \<open>u\<close>, which came in between (\<open>Relinker\<close>).
\<close>

datatype 'a role = Idle | Joined 'a | Waiting | Owner | Detached 'a | Granter | Relinker 'a

record 'a mcs =
  lock_tail :: "'a option"
  succ_of :: "'a \<Rightarrow> 'a option"
  told :: "'a \<Rightarrow> bool"
  role :: "'a \<Rightarrow> 'a role"

inductive mcs_step :: "'a mcs \<Rightarrow> 'a mcs \<Rightarrow> bool" where
  prepare: "role s t = Idle \<Longrightarrow> mcs_step s (s\<lparr>succ_of := (succ_of s)(t := x), told := (told s)(t := y)\<rparr>)"
| enter: "role s t = Idle \<Longrightarrow> succ_of s t = None \<Longrightarrow> \<not> told s t \<Longrightarrow>
    mcs_step s (s\<lparr>lock_tail := Some t,
      role := (role s)(t := case lock_tail s of None \<Rightarrow> Owner | Some p \<Rightarrow> Joined p)\<rparr>)"
| link: "role s t = Joined p \<Longrightarrow>
    mcs_step s (s\<lparr>succ_of := (succ_of s)(p := Some t), role := (role s)(t := Waiting)\<rparr>)"
| granted: "role s t = Waiting \<Longrightarrow> told s t \<Longrightarrow> mcs_step s (s\<lparr>role := (role s)(t := Owner)\<rparr>)"
| pass: "role s t = Owner \<or> role s t = Granter \<Longrightarrow> succ_of s t = Some b \<Longrightarrow>
    mcs_step s (s\<lparr>told := (told s)(b := True), role := (role s)(t := Idle)\<rparr>)"
| detach: "role s t = Owner \<Longrightarrow>
    mcs_step s (s\<lparr>lock_tail := None,
      role := (role s)(t := if lock_tail s = Some t then Idle else Detached (the (lock_tail s)))\<rparr>)"
| attach: "role s t = Detached v \<Longrightarrow>
    mcs_step s (s\<lparr>lock_tail := Some v,
      role := (role s)(t := case lock_tail s of None \<Rightarrow> Granter | Some u \<Rightarrow> Relinker u)\<rparr>)"
| relink: "role s t = Relinker u \<Longrightarrow> succ_of s t = Some b \<Longrightarrow>
    mcs_step s (s\<lparr>succ_of := (succ_of s)(u := Some b), role := (role s)(t := Idle)\<rparr>)"

section \<open>The invariant\<close>

text \<open>
  The tiles that are not idle form chains: the queue of the lock (\<open>None\<close>), and the queue of every tile that has
  taken one off. A relinking tile stands between the tile it appends to and its followers.
\<close>

definition linked :: "'a mcs \<Rightarrow> 'a \<Rightarrow> 'a \<Rightarrow> bool" where
  "linked s a b \<longleftrightarrow> (case role s b of
      Joined p \<Rightarrow> p = a \<and> succ_of s a = None \<and> \<not> told s b
    | Waiting \<Rightarrow> succ_of s a = Some b \<and> \<not> told s b
    | Relinker u \<Rightarrow> u = a \<and> succ_of s a = None
    | _ \<Rightarrow> False)"

definition last_ok :: "'a mcs \<Rightarrow> 'a \<Rightarrow> bool" where
  "last_ok s a \<longleftrightarrow> succ_of s a = None \<and> (case role s a of Joined p \<Rightarrow> True | Waiting \<Rightarrow> True | Owner \<Rightarrow> True | _ \<Rightarrow> False)"

definition head_ok :: "'a mcs \<Rightarrow> 'a \<Rightarrow> bool" where
  "head_ok s a \<longleftrightarrow> role s a = Owner \<or> role s a = Granter \<or> role s a = Waiting \<and> told s a"

definition chain :: "'a mcs \<Rightarrow> 'a list \<Rightarrow> bool" where
  "chain s xs \<longleftrightarrow> successively (linked s) xs \<and> distinct xs \<and> (xs \<noteq> [] \<longrightarrow> last_ok s (last xs))"

definition queues :: "'a mcs \<Rightarrow> ('a option \<Rightarrow> 'a list) \<Rightarrow> bool" where
  "queues s ch \<longleftrightarrow> (\<forall>k. chain s (ch k)) \<and> (\<forall>k k'. k \<noteq> k' \<longrightarrow> set (ch k) \<inter> set (ch k') = {})
     \<and> (\<forall>t. role s t \<noteq> Idle \<longleftrightarrow> (\<exists>k. t \<in> set (ch k)))
     \<and> lock_tail s = (if ch None = [] then None else Some (last (ch None)))
     \<and> (ch None \<noteq> [] \<longrightarrow> head_ok s (hd (ch None)))
     \<and> (\<forall>r v. role s r = Detached v \<longrightarrow> ch (Some r) \<noteq> [] \<and> hd (ch (Some r)) = r \<and> last (ch (Some r)) = v)
     \<and> (\<forall>r. (\<forall>v. role s r \<noteq> Detached v) \<longrightarrow> ch (Some r) = [])"

definition mcs_inv :: "'a mcs \<Rightarrow> bool" where
  "mcs_inv s \<longleftrightarrow> (\<exists>ch. queues s ch)"

lemma queuesI:
  assumes "\<And>k. chain s (ch k)" and "\<And>k k'. k \<noteq> k' \<Longrightarrow> set (ch k) \<inter> set (ch k') = {}"
    and "\<And>t. role s t \<noteq> Idle \<longleftrightarrow> (\<exists>k. t \<in> set (ch k))"
    and "lock_tail s = (if ch None = [] then None else Some (last (ch None)))"
    and "ch None \<noteq> [] \<Longrightarrow> head_ok s (hd (ch None))"
    and "\<And>r v. role s r = Detached v \<Longrightarrow> ch (Some r) \<noteq> [] \<and> hd (ch (Some r)) = r \<and> last (ch (Some r)) = v"
    and "\<And>r. (\<And>v. role s r \<noteq> Detached v) \<Longrightarrow> ch (Some r) = []"
  shows "queues s ch"
  using assms unfolding queues_def by blast

lemma successively_adjacent:
  assumes "successively P xs" and "\<And>us a b vs. xs = us @ a # b # vs \<Longrightarrow> P a b \<Longrightarrow> Q a b"
  shows "successively Q xs"
  using assms
proof (induction xs rule: induct_list012)
  case (3 x y zs)
  have "successively Q (y # zs)"
    using 3(2) [of] 3(3) 3(4) [of "x # us" for us] by (metis append_Cons successively.simps(3))
  then show ?case using 3(3) 3(4) [of "[]"] by auto
qed auto

lemma adjacent_unique:
  assumes "distinct xs" and "xs = us @ p # t # vs" and "xs = us' @ a # b # vs'"
  shows "a = p \<longleftrightarrow> b = t"
proof -
  have d: "distinct (us @ p # t # vs)" using assms by simp
  have "a = p \<Longrightarrow> b = t" using assms(2,3) d append_Cons_eq_iff [of p us "t # vs" us' "b # vs'"] by auto
  moreover have "b = t \<Longrightarrow> a = p"
    using assms(2,3) d append_Cons_eq_iff [of t "us @ [p]" vs "us' @ [a]" vs'] by auto
  ultimately show ?thesis by blast
qed

lemma linked_cong:
  "succ_of s' a = succ_of s a \<Longrightarrow> role s' b = role s b \<Longrightarrow> told s' b = told s b \<Longrightarrow> linked s' a b = linked s a b"
  by (auto simp: linked_def split: role.splits)

text \<open>A chain keeps its links when what they depend on has not changed, the link from \<open>p\<close> to \<open>t\<close> apart.\<close>

lemma chain_other:
  assumes "chain s xs" and "\<And>a. a \<in> set xs \<Longrightarrow> succ_of s' a = succ_of s a \<and> role s' a = role s a \<and> told s' a = told s a"
  shows "chain s' xs"
proof -
  have "successively (linked s') xs"
  proof (rule successively_adjacent [of "linked s"])
    show "successively (linked s) xs" using assms(1) by (simp add: chain_def)
    show "linked s' a b" if "xs = us @ a # b # vs" "linked s a b" for us a b vs
      using assms(2) [of a] assms(2) [of b] that linked_cong [of s' a s b] by simp
  qed
  then show ?thesis using assms last_in_set [of xs] by (auto simp: chain_def last_ok_def)
qed

text \<open>The role of its head does not matter to a chain of two or more.\<close>

lemma chain_head:
  assumes c: "chain s (x # xs)" and "\<And>a. a \<in> set (x # xs) \<Longrightarrow> succ_of s' a = succ_of s a"
    and "\<And>a. a \<in> set xs \<Longrightarrow> role s' a = role s a \<and> told s' a = told s a" and "xs = [] \<Longrightarrow> last_ok s' x"
  shows "chain s' (x # xs)"
proof -
  have "successively (linked s') (x # xs)"
  proof (rule successively_adjacent [of "linked s"])
    show "successively (linked s) (x # xs)" using c by (simp add: chain_def)
    fix us a b vs
    assume ab: "x # xs = us @ a # b # vs" "linked s a b"
    then have "b \<in> set xs" "a \<in> set (x # xs)" by (cases us; auto)+
    then show "linked s' a b" using assms(2,3) ab(2) linked_cong [of s' a s b] by simp
  qed
  moreover have "last_ok s' (last (x # xs))"
    using c assms(2) [of "last xs"] assms(3) [of "last xs"] assms(4) by (cases "xs = []") (simp_all add: chain_def last_ok_def)
  ultimately show ?thesis using c by (simp add: chain_def)
qed

lemma chain_tl: "chain s (t # x # xs) \<Longrightarrow> chain s (x # xs)"
  by (simp add: chain_def)

section \<open>Where a tile stands\<close>

lemma queuesD:
  assumes "queues s ch"
  shows "chain s (ch k)" and "k \<noteq> k' \<Longrightarrow> a \<in> set (ch k) \<Longrightarrow> a \<notin> set (ch k')"
    and "role s t \<noteq> Idle \<Longrightarrow> \<exists>k. t \<in> set (ch k)" and "t \<in> set (ch k) \<Longrightarrow> role s t \<noteq> Idle"
    and "lock_tail s = (if ch None = [] then None else Some (last (ch None)))"
    and "ch None \<noteq> [] \<Longrightarrow> head_ok s (hd (ch None))"
    and "role s r = Detached v \<Longrightarrow> ch (Some r) \<noteq> [] \<and> hd (ch (Some r)) = r \<and> last (ch (Some r)) = v"
    and "(\<And>v. role s r \<noteq> Detached v) \<Longrightarrow> ch (Some r) = []"
  using assms unfolding queues_def by blast+

lemma chain_head_or_linked:
  assumes "chain s xs" and "t \<in> set xs"
  shows "t = hd xs \<or> (\<exists>us p vs. xs = us @ p # t # vs \<and> linked s p t)"
proof -
  obtain us vs where "xs = us @ t # vs" using assms(2) by (meson split_list)
  then show ?thesis
    using assms(1) by (cases us rule: rev_cases) (auto simp: chain_def successively_append_iff)
qed

lemma lock_head:
  assumes Q: "queues s ch" and "role s t = Owner \<or> role s t = Granter \<or> role s t = Waiting \<and> told s t"
  obtains vs where "ch None = t # vs" and "t \<notin> set vs" and "\<And>k. t \<in> set (ch k) \<Longrightarrow> k = None"
proof -
  obtain k where k: "t \<in> set (ch k)" using queuesD(3) [OF Q, of t] assms(2) by auto
  have h: "t = hd (ch k)"
    using chain_head_or_linked [OF queuesD(1) [OF Q] k] assms(2) by (auto simp: linked_def)
  have "k = None"
  proof (rule ccontr)
    assume "k \<noteq> None"
    then obtain r where r: "k = Some r" by blast
    then obtain v where "role s r = Detached v" using queuesD(8) [OF Q, of r] k by fastforce
    then have "r = t" using queuesD(7) [OF Q] r h by auto
    then show False using \<open>role s r = Detached v\<close> assms(2) by auto
  qed
  then obtain vs where vs: "ch None = t # vs" using h k by (cases "ch None") auto
  moreover have "t \<notin> set vs" using queuesD(1) [OF Q, of None] vs by (auto simp: chain_def)
  moreover have "k' = None" if "t \<in> set (ch k')" for k'
    using queuesD(2) [OF Q, of None k' t] that vs by (cases "k' = None") auto
  ultimately show thesis using that by blast
qed

lemma follower_place:
  assumes Q: "queues s ch" and "role s t = Joined p \<or> role s t = Relinker p"
  obtains k us vs where "ch k = us @ p # t # vs" and "succ_of s p = None" and "linked s p t" and "distinct (us @ p # t # vs)"
    and "\<And>k'. k' \<noteq> k \<Longrightarrow> p \<notin> set (ch k') \<and> t \<notin> set (ch k')"
proof -
  obtain k where k: "t \<in> set (ch k)" using queuesD(3) [OF Q, of t] assms(2) by auto
  have "t \<noteq> hd (ch k)"
  proof
    assume h: "t = hd (ch k)"
    show False
    proof (cases k)
      case None
      then have "ch None \<noteq> []" using k by auto
      then show False using queuesD(6) [OF Q] h None assms(2) by (auto simp: head_ok_def)
    next
      case (Some r)
      then obtain v where "role s r = Detached v" using queuesD(8) [OF Q, of r] k by fastforce
      then show False using queuesD(7) [OF Q, of r v] h Some assms(2) by auto
    qed
  qed
  then obtain us p' vs where x: "ch k = us @ p' # t # vs" "linked s p' t"
    using chain_head_or_linked [OF queuesD(1) [OF Q] k] by blast
  then have p: "p' = p" "succ_of s p = None" using assms(2) by (auto simp: linked_def)
  have "distinct (us @ p # t # vs)" using queuesD(1) [OF Q, of k] x p by (simp add: chain_def)
  moreover have "p \<notin> set (ch k') \<and> t \<notin> set (ch k')" if "k' \<noteq> k" for k'
    using queuesD(2) [OF Q, of k k' p] queuesD(2) [OF Q, of k k' t] x p that by auto
  ultimately show thesis using that x p by blast
qed

section \<open>Every step keeps the invariant\<close>

lemma in_queues: "(\<exists>k. a \<in> set (ch k)) \<longleftrightarrow> a \<in> set (ch j) \<or> (\<exists>k. k \<noteq> j \<and> a \<in> set (ch k))"
  by auto

lemma in_queues_upd: "(\<exists>k. a \<in> set ((ch(j := xs)) k)) \<longleftrightarrow> a \<in> set xs \<or> (\<exists>k. k \<noteq> j \<and> a \<in> set (ch k))"
  by (auto split: if_splits)

lemma covered: "queues s ch \<Longrightarrow> role s a \<noteq> Idle \<longleftrightarrow> a \<in> set (ch j) \<or> (\<exists>k. k \<noteq> j \<and> a \<in> set (ch k))"
  unfolding in_queues [symmetric] using queuesD(3,4) by metis

lemma in_queues_upd2: "i \<noteq> j \<Longrightarrow> (\<exists>k. a \<in> set ((ch(i := xs, j := ys)) k)) \<longleftrightarrow>
    a \<in> set xs \<or> a \<in> set ys \<or> (\<exists>k. k \<noteq> i \<and> k \<noteq> j \<and> a \<in> set (ch k))"
  unfolding in_queues_upd by (auto split: if_splits)

lemma covered2: "queues s ch \<Longrightarrow> role s a \<noteq> Idle \<longleftrightarrow>
    a \<in> set (ch i) \<or> a \<in> set (ch j) \<or> (\<exists>k. k \<noteq> i \<and> k \<noteq> j \<and> a \<in> set (ch k))"
  using covered [of s ch a i] by auto

lemma queues_disjoint: "queues s ch \<Longrightarrow> k \<noteq> k' \<Longrightarrow> set (ch k) \<inter> set (ch k') = {}"
  using queuesD(2) by fastforce

lemma queues_same:
  assumes Q: "queues s ch" and "\<And>k. chain s' (ch k)" and "\<And>t. role s' t = Idle \<longleftrightarrow> role s t = Idle"
    and "lock_tail s' = lock_tail s" and "ch None \<noteq> [] \<Longrightarrow> head_ok s' (hd (ch None))"
    and "\<And>r v. role s' r = Detached v \<longleftrightarrow> role s r = Detached v"
  shows "queues s' ch"
proof (rule queuesI)
  show "chain s' (ch k)" for k by (rule assms(2))
  show "set (ch k) \<inter> set (ch k') = {}" if "k \<noteq> k'" for k k' using queuesD(2) [OF Q that] by auto
  show "role s' t \<noteq> Idle \<longleftrightarrow> (\<exists>k. t \<in> set (ch k))" for t using queuesD(3,4) [OF Q] assms(3) by blast
  show "lock_tail s' = (if ch None = [] then None else Some (last (ch None)))" using queuesD(5) [OF Q] assms(4) by simp
  show "head_ok s' (hd (ch None))" if "ch None \<noteq> []" by (rule assms(5) [OF that])
  show "ch (Some r) \<noteq> [] \<and> hd (ch (Some r)) = r \<and> last (ch (Some r)) = v" if "role s' r = Detached v" for r v
    using queuesD(7) [OF Q] that assms(6) by blast
  show "ch (Some r) = []" if "\<And>v. role s' r \<noteq> Detached v" for r
    using queuesD(8) [OF Q] that assms(6) by blast
qed

lemma queues_kept:
  assumes Q: "queues s ch" and "lock_tail s' = lock_tail s" and "role s' = role s"
    and "\<And>a. role s a \<noteq> Idle \<Longrightarrow> succ_of s' a = succ_of s a \<and> told s' a = told s a"
  shows "queues s' ch"
proof (rule queues_same [OF Q])
  show "chain s' (ch k)" for k
  proof (rule chain_other [OF queuesD(1) [OF Q]])
    show "succ_of s' a = succ_of s a \<and> role s' a = role s a \<and> told s' a = told s a" if "a \<in> set (ch k)" for a
      using assms(3) assms(4) [OF queuesD(4) [OF Q that]] by simp
  qed
  show "head_ok s' (hd (ch None))" if "ch None \<noteq> []"
    using queuesD(6) [OF Q that] assms(3) assms(4) [of "hd (ch None)"] by (auto simp: head_ok_def)
qed (use assms in simp_all)

lemma queues_enter:
  assumes Q: "queues s ch" and t: "role s t = Idle" "succ_of s t = None" "\<not> told s t"
    and s': "s' = s\<lparr>lock_tail := Some t, role := (role s)(t := case lock_tail s of None \<Rightarrow> Owner | Some p \<Rightarrow> Joined p)\<rparr>"
  shows "queues s' (ch(None := ch None @ [t]))"
proof (rule queuesI)
  let ?L = "ch None"
  have nt: "t \<notin> set (ch k)" for k using queuesD(4) [OF Q, of t k] t by auto
  have "succ_of s' a = succ_of s a \<and> role s' a = role s a \<and> told s' a = told s a" if "a \<in> set (ch k)" for a k
    using that nt [of k] unfolding s' by auto
  then have c: "chain s' (ch k)" for k using chain_other [OF queuesD(1) [OF Q]] by blast
  have tl: "lock_tail s = (if ?L = [] then None else Some (last ?L))" by (rule queuesD(5) [OF Q])
  have "linked s' (last ?L) t" if "?L \<noteq> []"
    using that queuesD(1) [OF Q, of None] t tl unfolding s' by (auto simp: linked_def chain_def last_ok_def)
  moreover have "last_ok s' t" using t tl unfolding s' by (simp add: last_ok_def)
  ultimately have "chain s' (?L @ [t])"
    using c [of None] nt [of None] by (auto simp: chain_def successively_append_iff)
  then show "chain s' ((ch(None := ?L @ [t])) k)" for k using c by simp
  show "set ((ch(None := ?L @ [t])) k) \<inter> set ((ch(None := ?L @ [t])) k') = {}" if "k \<noteq> k'" for k k'
    using queuesD(2) [OF Q that] nt that by (cases "k = None"; cases "k' = None") auto
  show "role s' a \<noteq> Idle \<longleftrightarrow> (\<exists>k. a \<in> set ((ch(None := ?L @ [t])) k))" for a
    unfolding in_queues_upd using covered [OF Q, of a None] unfolding s' by (auto split: option.split)
  show "head_ok s' (hd ((ch(None := ?L @ [t])) None))"
    using queuesD(6) [OF Q] nt [of None] tl unfolding s' by (cases ?L) (auto simp: head_ok_def)
  have d: "role s' r = Detached v \<longleftrightarrow> role s r = Detached v" for r v using t(1) unfolding s' by (auto split: option.split)
  show "(ch(None := ?L @ [t])) (Some r) \<noteq> [] \<and> hd ((ch(None := ?L @ [t])) (Some r)) = r \<and> last ((ch(None := ?L @ [t])) (Some r)) = v"
    if "role s' r = Detached v" for r v using queuesD(7) [OF Q] that d by simp
  show "(ch(None := ?L @ [t])) (Some r) = []" if "\<And>v. role s' r \<noteq> Detached v" for r
    using queuesD(8) [OF Q, of r] that d by simp
qed (simp add: s')

lemma queues_link:
  assumes Q: "queues s ch" and t: "role s t = Joined p"
    and s': "s' = s\<lparr>succ_of := (succ_of s)(p := Some t), role := (role s)(t := Waiting)\<rparr>"
  shows "queues s' ch"
proof -
  obtain k us vs where x: "ch k = us @ p # t # vs" "succ_of s p = None" "linked s p t" "distinct (us @ p # t # vs)"
    and o: "\<And>k'. k' \<noteq> k \<Longrightarrow> p \<notin> set (ch k') \<and> t \<notin> set (ch k')"
    by (rule follower_place [OF Q disjI1 [OF t]]) blast
  have nt: "\<not> told s t" using x(3) t by (simp add: linked_def)
  have "successively (linked s') (ch k)"
  proof (rule successively_adjacent)
    show "successively (linked s) (ch k)" using queuesD(1) [OF Q] by (simp add: chain_def)
    fix us' a b vs'
    assume ab: "ch k = us' @ a # b # vs'" "linked s a b"
    have "a = p \<longleftrightarrow> b = t" using adjacent_unique [OF _ x(1) ab(1)] x(1,4) by simp
    then show "linked s' a b" using ab(2) nt linked_cong [of s' a s b] unfolding s' by (auto simp: linked_def)
  qed
  moreover have "last_ok s' (last (ch k))"
    using queuesD(1) [OF Q, of k] x unfolding s' chain_def by (cases vs rule: rev_cases) (auto simp: last_ok_def)
  ultimately have "chain s' (ch k)" using queuesD(1) [OF Q, of k] by (simp add: chain_def)
  moreover have "chain s' (ch k')" if "k' \<noteq> k" for k'
    using o [OF that] by (intro chain_other [OF queuesD(1) [OF Q, of k']]) (auto simp: s')
  ultimately have c: "chain s' (ch k')" for k' by (cases "k' = k") auto
  have h: "hd (ch None) \<noteq> t" if "ch None \<noteq> []"
    using x(1,4) o [of None] hd_in_set [OF that] by (cases "k = None") (auto simp: hd_append)
  show ?thesis
  proof (rule queues_same [OF Q c])
    show "head_ok s' (hd (ch None))" if "ch None \<noteq> []"
      using queuesD(6) [OF Q that] h [OF that] unfolding s' by (simp add: head_ok_def)
  qed (use t in \<open>auto simp: s'\<close>)
qed

lemma queues_granted:
  assumes Q: "queues s ch" and t: "role s t = Waiting" "told s t" and s': "s' = s\<lparr>role := (role s)(t := Owner)\<rparr>"
  shows "queues s' ch"
proof -
  obtain vs where L: "ch None = t # vs" "t \<notin> set vs" "\<And>k. t \<in> set (ch k) \<Longrightarrow> k = None"
    using lock_head [OF Q] t by blast
  have c: "chain s (t # vs)" using queuesD(1) [OF Q, of None] L(1) by simp
  have "chain s' (t # vs)"
    by (rule chain_head [OF c]) (use L(2) c in \<open>auto simp: s' chain_def last_ok_def\<close>)
  then have "chain s' (ch None)" using L(1) by simp
  moreover have "chain s' (ch k)" if "k \<noteq> None" for k
    using L(3) [of k] that by (intro chain_other [OF queuesD(1) [OF Q]]) (auto simp: s')
  ultimately have "chain s' (ch k)" for k by (cases "k = None") auto
  then show ?thesis
    by (rule queues_same [OF Q]) (use L(1) t in \<open>auto simp: s' head_ok_def\<close>)
qed

text \<open>A step that changes the queues: the new queues are given, with what has to be shown of them.\<close>

lemma queues_pass:
  assumes Q: "queues s ch" and t: "role s t = Owner \<or> role s t = Granter" "succ_of s t = Some b"
    and s': "s' = s\<lparr>told := (told s)(b := True), role := (role s)(t := Idle)\<rparr>"
  shows "queues s' (ch(None := tl (ch None)))" and "role s b = Waiting" and "b \<noteq> t"
proof -
  obtain vs' where L: "ch None = t # vs'" "t \<notin> set vs'" "\<And>k. t \<in> set (ch k) \<Longrightarrow> k = None"
    using lock_head [OF Q] t by blast
  have c: "chain s (t # vs')" using queuesD(1) [OF Q, of None] L by simp
  then obtain b' vs where v: "vs' = b' # vs" using t(2) by (cases vs') (auto simp: chain_def last_ok_def)
  then have "linked s t b'" using c by (simp add: chain_def)
  then have b: "b' = b" "role s b = Waiting" using t(2) by (auto simp: linked_def split: role.splits)
  have bt: "b \<noteq> t" using L(2) unfolding v b(1) by auto
  show "role s b = Waiting" "b \<noteq> t" by (rule b(2), rule bt)
  have e1: "ch None = t # b # vs" using L(1) v b by simp
  have d: "distinct (t # b # vs)" using c v b by (simp add: chain_def)
  have ob: "b \<notin> set (ch k)" if "k \<noteq> None" for k using queuesD(2) [OF Q, of None k b] that L v b by auto
  have "last_ok s b" if "vs = []" using c that v b(1) by (simp add: chain_def)
  then have cb: "chain s' (b # vs)"
    using d by (intro chain_head [OF chain_tl [OF c [unfolded v b(1)]]]) (auto simp: s' last_ok_def)
  have co: "chain s' (ch k)" if "k \<noteq> None" for k
    using L(3) [of k] ob that by (intro chain_other [OF queuesD(1) [OF Q]]) (auto simp: s')
  have e: "ch(None := tl (ch None)) = ch(None := b # vs)" using L v b by simp
  show "queues s' (ch(None := tl (ch None)))" unfolding e
  proof (rule queuesI)
    show "chain s' ((ch(None := b # vs)) k)" for k using cb co by simp
    show "set ((ch(None := b # vs)) k) \<inter> set ((ch(None := b # vs)) k') = {}" if "k \<noteq> k'" for k k'
      using queues_disjoint [OF Q that] that e1 by (cases "k = None"; cases "k' = None") auto
    have no: "t \<notin> set (ch k)" if "k \<noteq> None" for k using L(3) that by blast
    show "role s' a \<noteq> Idle \<longleftrightarrow> (\<exists>k. a \<in> set ((ch(None := b # vs)) k))" for a
    proof (cases "a = t")
      case True
      then show ?thesis unfolding in_queues_upd using no d by (auto simp: s')
    next
      case False
      then show ?thesis unfolding in_queues_upd using covered [OF Q, of a None] e1 by (simp add: s')
    qed
    show "lock_tail s' = (if (ch(None := b # vs)) None = [] then None else Some (last ((ch(None := b # vs)) None)))"
      using queuesD(5) [OF Q] L v b unfolding s' by simp
    show "head_ok s' (hd ((ch(None := b # vs)) None))" using b(2) bt unfolding s' by (simp add: head_ok_def)
    have r: "role s' r = Detached v \<longleftrightarrow> role s r = Detached v" for r v using t(1) unfolding s' by auto
    show "(ch(None := b # vs)) (Some r) \<noteq> [] \<and> hd ((ch(None := b # vs)) (Some r)) = r \<and> last ((ch(None := b # vs)) (Some r)) = v"
      if "role s' r = Detached v" for r v using queuesD(7) [OF Q] that r by simp
    show "(ch(None := b # vs)) (Some r) = []" if "\<And>v. role s' r \<noteq> Detached v" for r
      using queuesD(8) [OF Q, of r] that r by simp
  qed
qed

lemma queues_detach:
  assumes Q: "queues s ch" and t: "role s t = Owner"
    and s': "s' = s\<lparr>lock_tail := None, role := (role s)(t := if lock_tail s = Some t then Idle else Detached (the (lock_tail s)))\<rparr>"
  shows "queues s' (ch(None := [], Some t := if lock_tail s = Some t then [] else ch None))" (is "queues s' ?ch")
proof -
  obtain vs where L: "ch None = t # vs" "t \<notin> set vs" "\<And>k. t \<in> set (ch k) \<Longrightarrow> k = None"
    using lock_head [OF Q] t by blast
  have c: "chain s (t # vs)" using queuesD(1) [OF Q, of None] L(1) by simp
  have no: "t \<notin> set (ch k)" if "k \<noteq> None" for k using L(3) that by blast
  have tl: "lock_tail s = Some (last (t # vs))" using queuesD(5) [OF Q] L(1) by simp
  have alone: "lock_tail s = Some t \<longleftrightarrow> vs = []" using tl L(2) by auto
  have et: "ch (Some t) = []" using queuesD(8) [OF Q, of t] t by simp
  have "chain s' (t # vs)" if "vs \<noteq> []"
    by (rule chain_head [OF c]) (use L(2) that in \<open>auto simp: s'\<close>)
  moreover have co: "chain s' (ch k)" if "k \<noteq> None" for k
    using no [OF that] by (intro chain_other [OF queuesD(1) [OF Q]]) (auto simp: s')
  moreover have "chain s' []" by (simp add: chain_def)
  ultimately have cs: "chain s' (?ch k)" for k using L(1) alone by (cases "k = None") auto
  show ?thesis
  proof (rule queuesI)
    show "set (?ch k) \<inter> set (?ch k') = {}" if "k \<noteq> k'" for k k'
      using queuesD(2) [OF Q, of None k] queuesD(2) [OF Q, of None k'] queuesD(2) [OF Q that] that by auto
    show "role s' a \<noteq> Idle \<longleftrightarrow> (\<exists>k. a \<in> set (?ch k))" for a
      unfolding in_queues_upd2 [OF option.distinct(1)] using covered2 [OF Q, of a None "Some t"] no et alone L(1)
      by (cases "a = t") (auto simp: s')
    show "lock_tail s' = (if ?ch None = [] then None else Some (last (?ch None)))" by (simp add: s')
    show "?ch (Some r) \<noteq> [] \<and> hd (?ch (Some r)) = r \<and> last (?ch (Some r)) = v" if "role s' r = Detached v" for r v
      using queuesD(7) [OF Q, of r v] that tl L(1) unfolding s' by (cases "r = t") (auto split: if_splits)
    show "?ch (Some r) = []" if "\<And>v. role s' r \<noteq> Detached v" for r
    proof (cases "r = t")
      case True
      then have "lock_tail s = Some t" using that [of "the (lock_tail s)"] unfolding s' by (auto split: if_splits)
      then show ?thesis using True by simp
    next
      case False
      then show ?thesis using queuesD(8) [OF Q, of r] that unfolding s' by auto
    qed
  qed (use cs in auto)
qed

lemma queues_attach:
  assumes Q: "queues s ch" and t: "role s t = Detached v"
    and s': "s' = s\<lparr>lock_tail := Some v, role := (role s)(t := case lock_tail s of None \<Rightarrow> Granter | Some u \<Rightarrow> Relinker u)\<rparr>"
  shows "queues s' (ch(None := ch None @ ch (Some t), Some t := []))" (is "queues s' ?ch")
proof -
  let ?L = "ch None"
  obtain vs where D: "ch (Some t) = t # vs" "last (t # vs) = v" using queuesD(7) [OF Q t] by (cases "ch (Some t)") auto
  have c: "chain s (t # vs)" using queuesD(1) [OF Q, of "Some t"] D(1) by simp
  have vs: "vs \<noteq> []" "t \<notin> set vs" using c t by (auto simp: chain_def last_ok_def)
  have no: "t \<notin> set (ch k)" if "k \<noteq> Some t" for k using queuesD(2) [OF Q, of "Some t" k] D(1) that by auto
  have tl: "lock_tail s = (if ?L = [] then None else Some (last ?L))" by (rule queuesD(5) [OF Q])
  have cD: "chain s' (t # vs)"
    by (rule chain_head [OF c]) (use vs in \<open>auto simp: s'\<close>)
  have co: "chain s' (ch k)" if "k \<noteq> Some t" for k
    using no [OF that] by (intro chain_other [OF queuesD(1) [OF Q]]) (auto simp: s')
  have "linked s' (last ?L) t" if "?L \<noteq> []"
    using queuesD(1) [OF Q, of None] that tl unfolding s' by (simp add: linked_def chain_def last_ok_def)
  moreover have "set ?L \<inter> set (t # vs) = {}" using queuesD(2) [OF Q, of None "Some t"] D(1) by auto
  ultimately have "chain s' (?L @ t # vs)"
    using co [of None] cD by (auto simp: chain_def successively_append_iff)
  then have cs: "chain s' (?ch k)" for k using co D(1) by (cases "k = Some t") (auto simp: chain_def)
  show ?thesis
  proof (rule queuesI)
    show "set (?ch k) \<inter> set (?ch k') = {}" if "k \<noteq> k'" for k k'
      using queuesD(2) [OF Q, of None k] queuesD(2) [OF Q, of None k'] queuesD(2) [OF Q, of "Some t" k]
        queuesD(2) [OF Q, of "Some t" k'] queuesD(2) [OF Q that] that by auto
    show "role s' a \<noteq> Idle \<longleftrightarrow> (\<exists>k. a \<in> set (?ch k))" for a
      unfolding in_queues_upd2 [OF option.distinct(1)] using covered2 [OF Q, of a None "Some t"] t
      by (cases "a = t") (auto simp: s' split: option.splits)
    show "lock_tail s' = (if ?ch None = [] then None else Some (last (?ch None)))" using D by (simp add: s')
    show "head_ok s' (hd (?ch None))"
      using queuesD(6) [OF Q] no [of None] D(1) tl unfolding s' by (cases ?L) (auto simp: head_ok_def)
    show "?ch (Some r) \<noteq> [] \<and> hd (?ch (Some r)) = r \<and> last (?ch (Some r)) = v" if "role s' r = Detached v" for r v
      using queuesD(7) [OF Q, of r v] that unfolding s' by (cases "r = t") (auto split: option.splits)
    show "?ch (Some r) = []" if "\<And>v. role s' r \<noteq> Detached v" for r
      using queuesD(8) [OF Q, of r] that unfolding s' by (cases "r = t") auto
  qed (use cs in auto)
qed

lemma queues_relink:
  assumes Q: "queues s ch" and t: "role s t = Relinker u" "succ_of s t = Some b"
    and s': "s' = s\<lparr>succ_of := (succ_of s)(u := Some b), role := (role s)(t := Idle)\<rparr>"
  shows "\<exists>ch'. queues s' ch'"
proof -
  obtain k us vs' where x: "ch k = us @ u # t # vs'" "succ_of s u = None" "linked s u t" "distinct (us @ u # t # vs')"
    and o: "\<And>k'. k' \<noteq> k \<Longrightarrow> u \<notin> set (ch k') \<and> t \<notin> set (ch k')"
    by (rule follower_place [OF Q disjI2 [OF t(1)]]) blast
  have c: "chain s (us @ u # t # vs')" using queuesD(1) [OF Q, of k] x(1) by simp
  then obtain b' vs where v: "vs' = b' # vs" using t(2) by (cases vs') (auto simp: chain_def last_ok_def)
  have "linked s t b'" using c unfolding v chain_def by (simp add: successively_append_iff)
  then have b: "b' = b" and w: "role s b = Waiting" "\<not> told s b" using t(2) by (auto simp: linked_def split: role.splits)
  have ck: "ch k = us @ u # t # b # vs" using x(1) v b by simp
  have d: "distinct (us @ u # t # b # vs)" using x(4) v b by simp
  have cc: "chain s (us @ u # t # b # vs)" using c v b by simp
  let ?xs = "us @ u # b # vs"
  let ?ch = "ch(k := ?xs)"
  have "successively (linked s') (us @ [u])"
  proof (rule successively_adjacent [of "linked s"])
    show "successively (linked s) (us @ [u])" using cc by (simp add: chain_def successively_append_iff)
    fix us' a z vs'
    assume az: "us @ [u] = us' @ a # z # vs'" "linked s a z"
    then have "a \<noteq> u" "z \<in> set (us @ [u])"
      using d by (metis adjacent_unique append.assoc append_Cons append_Nil distinct_append distinct_length_2_or_more
          in_set_conv_decomp not_distinct_conv_prefix, simp)
    moreover have "z \<noteq> t" using calculation(2) d by auto
    ultimately show "linked s' a z" using az(2) linked_cong [of s' a s z] by (simp add: s')
  qed
  moreover have "chain s' (b # vs)"
  proof (rule chain_other [of s])
    show "chain s (b # vs)" using cc unfolding chain_def by (simp add: successively_append_iff)
  qed (use d in \<open>auto simp: s'\<close>)
  moreover have "linked s' u b" using w d unfolding s' by (auto simp: linked_def)
  ultimately have "chain s' ?xs" using d by (auto simp: chain_def successively_append_iff)
  moreover have "chain s' (ch k')" if "k' \<noteq> k" for k'
    using o [OF that] by (intro chain_other [OF queuesD(1) [OF Q]]) (auto simp: s')
  ultimately have cs: "chain s' (?ch k')" for k' by simp
  have ends: "hd ?xs = hd (ch k)" "last ?xs = last (ch k)" "?xs \<noteq> []" "ch k \<noteq> []" unfolding ck by (simp_all add: hd_append)
  have hl: "?ch j = [] \<longleftrightarrow> ch j = []" "hd (?ch j) = hd (ch j)" "last (?ch j) = last (ch j)" for j
    using ends by (cases "j = k"; simp)+
  have r: "role s' r = Detached w \<longleftrightarrow> role s r = Detached w" for r w using t unfolding s' by auto
  have "queues s' ?ch"
  proof (rule queuesI)
    show "chain s' (?ch j)" for j by (rule cs)
    show "set (?ch i) \<inter> set (?ch j) = {}" if "i \<noteq> j" for i j
      using queues_disjoint [OF Q that] that ck by (cases "i = k"; cases "j = k") auto
    show "role s' a \<noteq> Idle \<longleftrightarrow> (\<exists>j. a \<in> set (?ch j))" for a
    proof (cases "a = t")
      case True
      then show ?thesis unfolding in_queues_upd using o d by (auto simp: s')
    next
      case False
      then show ?thesis unfolding in_queues_upd using covered [OF Q, of a k] ck by (simp add: s')
    qed
    show "lock_tail s' = (if ?ch None = [] then None else Some (last (?ch None)))"
      unfolding hl using queuesD(5) [OF Q] by (simp add: s')
    show "head_ok s' (hd (?ch None))" if "?ch None \<noteq> []"
    proof -
      have h: "head_ok s (hd (ch None))" using queuesD(6) [OF Q] that hl by simp
      then have "hd (ch None) \<noteq> t" using t by (auto simp: head_ok_def)
      then show ?thesis using h unfolding hl by (simp add: s' head_ok_def)
    qed
    show "?ch (Some a) \<noteq> [] \<and> hd (?ch (Some a)) = a \<and> last (?ch (Some a)) = w" if "role s' a = Detached w" for a w
      using queuesD(7) [OF Q] that unfolding r hl by blast
    show "?ch (Some a) = []" if "\<And>w. role s' a \<noteq> Detached w" for a
      using queuesD(8) [OF Q, of a] that unfolding r hl by blast
  qed
  then show ?thesis by blast
qed

lemma mcs_step_inv:
  assumes "mcs_step s s'" and "mcs_inv s"
  shows "mcs_inv s'"
proof -
  obtain ch where Q: "queues s ch" using assms(2) unfolding mcs_inv_def by blast
  from assms(1) show ?thesis unfolding mcs_inv_def
  proof cases
    case (prepare t x y)
    have "queues s' ch" by (rule queues_kept [OF Q]) (use prepare in auto)
    then show "\<exists>ch. queues s' ch" by blast
  next
    case (enter t)
    from queues_enter [OF Q enter(2-4) enter(1)] show "\<exists>ch. queues s' ch" by blast
  next
    case (link t p)
    from queues_link [OF Q link(2,1)] show "\<exists>ch. queues s' ch" by blast
  next
    case (granted t)
    from queues_granted [OF Q granted(2,3,1)] show "\<exists>ch. queues s' ch" by blast
  next
    case (pass t b)
    from queues_pass(1) [OF Q pass(2,3,1)] show "\<exists>ch. queues s' ch" by blast
  next
    case (detach t)
    from queues_detach [OF Q detach(2,1)] show "\<exists>ch. queues s' ch" by blast
  next
    case (attach t v)
    from queues_attach [OF Q attach(2,1)] show "\<exists>ch. queues s' ch" by blast
  next
    case (relink t u b)
    from queues_relink [OF Q relink(2,3,1)] show "\<exists>ch. queues s' ch" .
  qed
qed

section \<open>What the invariant gives\<close>

lemma mcs_inv_start: "lock_tail s = None \<Longrightarrow> (\<And>t. role s t = Idle) \<Longrightarrow> mcs_inv s"
  unfolding mcs_inv_def by (rule exI [of _ "\<lambda>_. []"]) (auto intro!: queuesI simp: chain_def)

lemma one_owner:
  assumes "mcs_inv s" and "role s t = Owner" and "role s t' = Owner"
  shows "t = t'"
proof -
  obtain ch where Q: "queues s ch" using assms(1) unfolding mcs_inv_def by blast
  obtain vs vs' where "ch None = t # vs" "ch None = t' # vs'"
    using lock_head [OF Q disjI1 [OF assms(2)]] lock_head [OF Q disjI1 [OF assms(3)]] by metis
  then show ?thesis by simp
qed

lemma link_target_free:
  assumes "mcs_inv s" and "role s t = Joined p \<or> role s t = Relinker p"
  shows "succ_of s p = None" and "role s p \<noteq> Idle"
proof -
  obtain ch where Q: "queues s ch" using assms(1) unfolding mcs_inv_def by blast
  obtain k us vs where x: "ch k = us @ p # t # vs" "succ_of s p = None"
    by (rule follower_place [OF Q assms(2)]) blast
  then show "succ_of s p = None" "role s p \<noteq> Idle" using queuesD(4) [OF Q, of p k] by auto
qed

lemma owner_tail: "mcs_inv s \<Longrightarrow> role s t = Owner \<Longrightarrow> lock_tail s \<noteq> None"
proof -
  assume "mcs_inv s" and o: "role s t = Owner"
  then obtain ch where Q: "queues s ch" unfolding mcs_inv_def by blast
  obtain vs where "ch None = t # vs" using lock_head [OF Q disjI1 [OF o]] by metis
  then show "lock_tail s \<noteq> None" using queuesD(5) [OF Q] by simp
qed

lemma pass_target:
  assumes "mcs_inv s" and "role s t = Owner \<or> role s t = Granter" and "succ_of s t = Some b"
  shows "role s b = Waiting"
proof -
  obtain ch where Q: "queues s ch" using assms(1) unfolding mcs_inv_def by blast
  show ?thesis using queues_pass(2) [OF Q assms(2,3) refl] .
qed

lemma no_tail_idle: "mcs_inv s \<Longrightarrow> (\<And>t. role s t = Idle) \<Longrightarrow> lock_tail s = None"
proof -
  assume "mcs_inv s" and i: "\<And>t. role s t = Idle"
  then obtain ch where Q: "queues s ch" unfolding mcs_inv_def by blast
  have "ch None = []" using queuesD(4) [OF Q, of "hd (ch None)" None] i by (cases "ch None") auto
  then show "lock_tail s = None" using queuesD(5) [OF Q] by simp
qed

text \<open>A tile that can go on without waiting for another.\<close>

definition enabled :: "'a mcs \<Rightarrow> 'a \<Rightarrow> bool" where
  "enabled s t \<longleftrightarrow> (case role s t of Idle \<Rightarrow> False | Waiting \<Rightarrow> told s t | Granter \<Rightarrow> succ_of s t \<noteq> None
      | Relinker u \<Rightarrow> succ_of s t \<noteq> None | _ \<Rightarrow> True)"

lemma chain_enabled:
  assumes "successively (linked s) (x # xs)" and "last_ok s (last (x # xs))"
    and "role s x = Granter \<or> (\<exists>u. role s x = Relinker u)"
  shows "\<exists>t. enabled s t"
  using assms
proof (induction xs arbitrary: x)
  case Nil
  then show ?case by (auto simp: last_ok_def)
next
  case (Cons y ys)
  then have l: "linked s x y" by simp
  show ?case
  proof (cases "succ_of s x")
    case None
    then consider p where "role s y = Joined p" | u where "role s y = Relinker u"
      using l by (auto simp: linked_def split: role.splits)
    then show ?thesis
    proof cases
      case 1
      then show ?thesis by (auto simp: enabled_def intro!: exI [of _ y])
    next
      case 2
      then show ?thesis using Cons.IH [of y] Cons.prems by simp
    qed
  next
    case (Some b)
    then show ?thesis using Cons.prems(3) by (intro exI [of _ x]) (auto simp: enabled_def)
  qed
qed

lemma someone_enabled:
  assumes "mcs_inv s" and "role s t \<noteq> Idle"
  shows "\<exists>t. enabled s t"
proof -
  obtain ch where Q: "queues s ch" using assms(1) unfolding mcs_inv_def by blast
  obtain k where k: "t \<in> set (ch k)" using queuesD(3) [OF Q assms(2)] by blast
  show ?thesis
  proof (cases k)
    case (Some r)
    then obtain v where "role s r = Detached v" using queuesD(8) [OF Q, of r] k by fastforce
    then show ?thesis by (intro exI [of _ r]) (simp add: enabled_def)
  next
    case None
    then obtain x xs where L: "ch None = x # xs" using k by (cases "ch None") auto
    have c: "chain s (x # xs)" using queuesD(1) [OF Q, of None] L by simp
    have "head_ok s x" using queuesD(6) [OF Q] L by simp
    then consider "role s x = Owner" | "role s x = Granter" | "role s x = Waiting" "told s x" by (auto simp: head_ok_def)
    then show ?thesis
    proof cases
      case 2
      then show ?thesis using chain_enabled [of s x xs] c by (simp add: chain_def)
    qed (auto simp: enabled_def intro!: exI [of _ x])
  qed
qed

end
