(* ===== verification/Arch.thy ===== *)
theory Arch
  imports Prelude
begin

text \<open>
  The address map of the manycore (\<open>bsg_manycore_arch.h\<close>, \<open>bsg_manycore_asm.h\<close>): the pointer
  macros that build 32-bit endpoint virtual addresses (EVA), and the translation of an EVA to a
  network physical address (NPA) performed by \<open>bsg_manycore_eva_to_npa.sv\<close>. The lemmas show
  that every pointer macro reaches the endpoint and the offset its arguments name.
\<close>

section \<open>Build configuration\<close>

text \<open>
  The macros that the build defines on the command line (\<open>bsg_tiles_X\<close>, \<open>IO_X_INDEX\<close>, \<dots>), and
  the state of the network interface that the address translation reads: the pod coordinates,
  the tile-group origin and the widths of the subcoordinates within a pod.
\<close>

record cfg =
  bsg_tiles_X :: u32
  bsg_tiles_Y :: u32
  bsg_global_X :: u32
  bsg_global_Y :: u32
  IO_X_INDEX :: u32
  IO_Y_INDEX :: u32
  x_subcord_width :: nat
  y_subcord_width :: nat
  pod_x :: u32
  pod_y :: u32
  tgo_x :: u32
  tgo_y :: u32

section \<open>EVA format constants\<close>

definition GLOBAL_EPA_WIDTH :: nat where [arch_simps]: "GLOBAL_EPA_WIDTH = 16"
definition GLOBAL_X_CORD_WIDTH :: nat where [arch_simps]: "GLOBAL_X_CORD_WIDTH = 7"
definition GLOBAL_Y_CORD_WIDTH :: nat where [arch_simps]: "GLOBAL_Y_CORD_WIDTH = 7"
definition GLOBAL_X_CORD_SHIFT :: nat where [arch_simps]: "GLOBAL_X_CORD_SHIFT = GLOBAL_EPA_WIDTH"
definition GLOBAL_Y_CORD_SHIFT :: nat where [arch_simps]: "GLOBAL_Y_CORD_SHIFT = GLOBAL_X_CORD_SHIFT + GLOBAL_X_CORD_WIDTH"
definition GLOBAL_PREFIX_SHIFT :: nat where [arch_simps]: "GLOBAL_PREFIX_SHIFT = GLOBAL_Y_CORD_SHIFT + GLOBAL_Y_CORD_WIDTH"

definition REMOTE_EPA_WIDTH :: nat where [arch_simps]: "REMOTE_EPA_WIDTH = 18"
definition REMOTE_X_CORD_WIDTH :: nat where [arch_simps]: "REMOTE_X_CORD_WIDTH = 6"
definition REMOTE_Y_CORD_WIDTH :: nat where [arch_simps]: "REMOTE_Y_CORD_WIDTH = 5"
definition REMOTE_X_CORD_SHIFT :: nat where [arch_simps]: "REMOTE_X_CORD_SHIFT = REMOTE_EPA_WIDTH"
definition REMOTE_Y_CORD_SHIFT :: nat where [arch_simps]: "REMOTE_Y_CORD_SHIFT = REMOTE_X_CORD_SHIFT + REMOTE_X_CORD_WIDTH"
definition REMOTE_PREFIX_SHIFT :: nat where [arch_simps]: "REMOTE_PREFIX_SHIFT = REMOTE_Y_CORD_SHIFT + REMOTE_Y_CORD_WIDTH"

definition DRAM_PREFIX_SHIFT :: nat where [arch_simps]: "DRAM_PREFIX_SHIFT = 31"

definition CSR_BASE_ADDR :: u32 where [arch_simps]: "CSR_BASE_ADDR = push_bit (REMOTE_EPA_WIDTH - 1) 1"
definition CSR_FREEZE :: u32 where [arch_simps]: "CSR_FREEZE = 0"
definition CSR_TGO_X :: u32 where [arch_simps]: "CSR_TGO_X = 4"
definition CSR_TGO_Y :: u32 where [arch_simps]: "CSR_TGO_Y = 8"

section \<open>Pointer macros\<close>

text \<open>
  The typed variants (\<open>bsg_remote_flt_ptr\<close>, \<open>bsg_tile_group_remote_ptr\<close>, \<open>bsg_global_float_ptr\<close>)
  differ only in the pointer type they cast to, so they denote the same address.
\<close>

definition bsg_remote_ptr :: "u32 \<Rightarrow> u32 \<Rightarrow> u32 \<Rightarrow> u32" where
  "bsg_remote_ptr x y local_addr =
     push_bit REMOTE_PREFIX_SHIFT 1 OR push_bit REMOTE_Y_CORD_SHIFT y
       OR push_bit REMOTE_X_CORD_SHIFT x OR local_addr"

definition bsg_remote_flt_ptr :: "u32 \<Rightarrow> u32 \<Rightarrow> u32 \<Rightarrow> u32" where
  "bsg_remote_flt_ptr x y local_addr =
     push_bit REMOTE_PREFIX_SHIFT 1 OR push_bit REMOTE_Y_CORD_SHIFT y
       OR push_bit REMOTE_X_CORD_SHIFT x OR local_addr"

definition bsg_tile_group_remote_ptr :: "u32 \<Rightarrow> u32 \<Rightarrow> u32 \<Rightarrow> u32" where
  "bsg_tile_group_remote_ptr x y local_addr =
     push_bit REMOTE_PREFIX_SHIFT 1 OR push_bit REMOTE_Y_CORD_SHIFT y
       OR push_bit REMOTE_X_CORD_SHIFT x OR local_addr"

definition bsg_global_ptr :: "u32 \<Rightarrow> u32 \<Rightarrow> u32 \<Rightarrow> u32" where
  "bsg_global_ptr x y local_addr =
     push_bit GLOBAL_PREFIX_SHIFT 1 OR push_bit GLOBAL_Y_CORD_SHIFT y
       OR push_bit GLOBAL_X_CORD_SHIFT x OR local_addr"

definition bsg_global_float_ptr :: "u32 \<Rightarrow> u32 \<Rightarrow> u32 \<Rightarrow> u32" where
  "bsg_global_float_ptr x y local_addr =
     push_bit GLOBAL_PREFIX_SHIFT 1 OR push_bit GLOBAL_Y_CORD_SHIFT y
       OR push_bit GLOBAL_X_CORD_SHIFT x OR local_addr"

definition bsg_global_pod_ptr :: "cfg \<Rightarrow> u32 \<Rightarrow> u32 \<Rightarrow> u32 \<Rightarrow> u32 \<Rightarrow> u32 \<Rightarrow> u32" where
  "bsg_global_pod_ptr c px py x y local_addr =
     push_bit GLOBAL_PREFIX_SHIFT 1
       OR push_bit GLOBAL_Y_CORD_SHIFT ((1 + py * 2) * bsg_global_Y c + y)
       OR push_bit GLOBAL_X_CORD_SHIFT ((px + 1) * bsg_global_X c + x) OR local_addr"

definition bsg_global_physical_pod_ptr :: "cfg \<Rightarrow> u32 \<Rightarrow> u32 \<Rightarrow> u32 \<Rightarrow> u32 \<Rightarrow> u32 \<Rightarrow> u32" where
  "bsg_global_physical_pod_ptr c px py x y local_addr =
     push_bit GLOBAL_PREFIX_SHIFT 1
       OR push_bit GLOBAL_Y_CORD_SHIFT (py * bsg_global_Y c + y)
       OR push_bit GLOBAL_X_CORD_SHIFT (px * bsg_global_X c + x) OR local_addr"

definition bsg_dram_ptr :: "u32 \<Rightarrow> u32" where
  "bsg_dram_ptr local_addr = push_bit DRAM_PREFIX_SHIFT 1 OR local_addr"

definition bsg_host_dram_ptr :: "u32 \<Rightarrow> u32" where
  "bsg_host_dram_ptr addr = push_bit 30 3 OR addr"

definition bsg_local_ptr :: "u32 \<Rightarrow> u32" where
  "bsg_local_ptr remote_addr = remote_addr AND (push_bit REMOTE_EPA_WIDTH 1 - 1)"

text \<open>
  A tile-group shared array is dealt out word by word over the tiles of the group: element
  \<open>index\<close> is in the tile \<open>(index % X, index / X % Y)\<close>, at element \<open>index / (X * Y)\<close> of that
  tile's own array. The element size scales the local index (\<open>&lc_sh[i]\<close>). The index is an
  \<open>int\<close>; the macro's divisions are the signed ones.
\<close>

definition bsg_tile_group_shared_ptr :: "cfg \<Rightarrow> u32 \<Rightarrow> u32 \<Rightarrow> u32 \<Rightarrow> u32" where
  "bsg_tile_group_shared_ptr c elem_size lc_sh index =
     bsg_tile_group_remote_ptr (c_rem index (bsg_tiles_X c))
       (c_rem (c_div index (bsg_tiles_X c)) (bsg_tiles_Y c))
       (lc_sh + elem_size * c_div index (bsg_tiles_X c * bsg_tiles_Y c))"

definition bsg_tile_group_shared_mem_len :: "cfg \<Rightarrow> u32 \<Rightarrow> u32" where
  "bsg_tile_group_shared_mem_len c n =
     c_div (n + (bsg_tiles_X c * bsg_tiles_Y c - 1)) (bsg_tiles_X c * bsg_tiles_Y c)"

definition bsg_io_mutex_ptr :: "cfg \<Rightarrow> u32 \<Rightarrow> u32" where
  "bsg_io_mutex_ptr c local_addr = bsg_global_ptr (IO_X_INDEX c) (IO_Y_INDEX c) local_addr"

definition bsg_remote_ptr_control :: "u32 \<Rightarrow> u32 \<Rightarrow> u32 \<Rightarrow> u32" where
  "bsg_remote_ptr_control x y CSR_offset = bsg_remote_ptr x y (CSR_BASE_ADDR + CSR_offset)"

definition bsg_remote_ptr_io :: "cfg \<Rightarrow> u32 \<Rightarrow> u32 \<Rightarrow> u32" where
  "bsg_remote_ptr_io c x local_addr = bsg_global_ptr x (IO_Y_INDEX c) local_addr"

text \<open>The assembly versions of the two pointer macros.\<close>

definition bsg_asm_remote_ptr :: "u32 \<Rightarrow> u32 \<Rightarrow> u32 \<Rightarrow> u32" where
  "bsg_asm_remote_ptr x y local_addr =
     push_bit REMOTE_PREFIX_SHIFT 1 OR push_bit REMOTE_Y_CORD_SHIFT y
       OR push_bit REMOTE_X_CORD_SHIFT x OR local_addr"

definition bsg_asm_global_ptr :: "u32 \<Rightarrow> u32 \<Rightarrow> u32 \<Rightarrow> u32" where
  "bsg_asm_global_ptr x y local_addr =
     push_bit GLOBAL_PREFIX_SHIFT 1 OR push_bit GLOBAL_Y_CORD_SHIFT y
       OR push_bit GLOBAL_X_CORD_SHIFT x OR local_addr"

definition bsg_global_remote_interrupt_ptr :: "u32 \<Rightarrow> u32 \<Rightarrow> u32" where
  "bsg_global_remote_interrupt_ptr x y = bsg_asm_global_ptr x y 0xfffc"

definition bsg_tile_group_remote_interrupt_ptr :: "u32 \<Rightarrow> u32 \<Rightarrow> u32" where
  "bsg_tile_group_remote_interrupt_ptr x y = bsg_asm_remote_ptr x y 0xfffc"

section \<open>Address translation\<close>

text \<open>
  A physical address is a byte of DRAM or a byte of an endpoint given by its global coordinates.
  The hardware spreads DRAM over the caches by a hash of the EVA; the model keeps the 31-bit DRAM
  address itself. An EVA below the three remote regions is an address of the tile's own memory.
\<close>

datatype npa = Dram u32 | Endpoint u32 u32 u32

type_synonym tile = "u32 \<times> u32"

definition cord_x :: "cfg \<Rightarrow> u32 \<Rightarrow> u32" where
  "cord_x c x = push_bit (x_subcord_width c) (pod_x c) OR take_bit (x_subcord_width c) (x + tgo_x c)"

definition cord_y :: "cfg \<Rightarrow> u32 \<Rightarrow> u32" where
  "cord_y c y = push_bit (y_subcord_width c) (pod_y c) OR take_bit (y_subcord_width c) (y + tgo_y c)"

definition tile_npa :: "cfg \<Rightarrow> tile \<Rightarrow> u32 \<Rightarrow> npa" where
  "tile_npa c t a = Endpoint (cord_x c (fst t)) (cord_y c (snd t)) a"

definition eva_to_npa :: "cfg \<Rightarrow> tile \<Rightarrow> u32 \<Rightarrow> npa" where
  "eva_to_npa c t eva =
     (if bit eva 31 then Dram (take_bit 31 eva)
      else if drop_bit 30 eva = 1 then
        Endpoint (take_bit 7 (drop_bit 16 eva)) (take_bit 7 (drop_bit 23 eva)) (take_bit 16 eva)
      else if drop_bit 29 eva = 1 then
        tile_npa c (take_bit 6 (drop_bit 18 eva), take_bit 5 (drop_bit 24 eva)) (take_bit 18 eva)
      else tile_npa c t eva)"

section \<open>The fields of an address\<close>

lemma bit_eva:
  fixes x y a :: u32
  shows "bit (push_bit s 1 OR push_bit sy y OR push_bit sx x OR a) n \<longleftrightarrow>
    n < 32 \<and> (n = s \<or> sy \<le> n \<and> bit y (n - sy) \<or> sx \<le> n \<and> bit x (n - sx) \<or> bit a n)"
  using bit_imp_le_length [of a n] by (auto simp: bit_simps)

lemma eva_fields:
  fixes x y a :: u32
  assumes "unat x < 2 ^ wx" and "unat y < 2 ^ wy" and "unat a < 2 ^ sx"
    and "sy = sx + wx" and "s = sy + wy" and "s < 32"
  defines "p \<equiv> push_bit s 1 OR push_bit sy y OR push_bit sx x OR a"
  shows "drop_bit s p = 1" and "take_bit wx (drop_bit sx p) = x"
    and "take_bit wy (drop_bit sy p) = y" and "take_bit sx p = a"
proof -
  have fx: "n < wx" if "bit x n" for n using bit_field_False [OF assms(1), of n] that by fastforce
  have fy: "n < wy" if "bit y n" for n using bit_field_False [OF assms(2), of n] that by fastforce
  have fa: "n < sx" if "bit a n" for n using bit_field_False [OF assms(3), of n] that by fastforce
  have b: "bit p n \<longleftrightarrow>
    n < 32 \<and> (n = s \<or> sy \<le> n \<and> bit y (n - sy) \<or> sx \<le> n \<and> bit x (n - sx) \<or> bit a n)" for n
    unfolding p_def by (rule bit_eva)
  note sh = assms(4-6)
  show "drop_bit s p = 1"
    by (rule bit_word_eqI) (use sh in \<open>fastforce simp: bit_simps b dest: fx fy fa\<close>)
  show "take_bit wx (drop_bit sx p) = x"
    by (rule bit_word_eqI) (use sh in \<open>fastforce simp: bit_simps b dest: fx fy fa\<close>)
  show "take_bit wy (drop_bit sy p) = y"
    by (rule bit_word_eqI) (use sh in \<open>fastforce simp: bit_simps b dest: fx fy fa\<close>)
  show "take_bit sx p = a"
    by (rule bit_word_eqI) (use sh in \<open>fastforce simp: bit_simps b dest: fx fy fa\<close>)
qed

lemma drop_bit_one_above:
  fixes p :: u32
  assumes "drop_bit s p = 1" and "s < m"
  shows "\<not> bit p m" and "drop_bit m p = 0"
proof -
  have d: "drop_bit m p = drop_bit (m - s) (drop_bit s p)"
    using assms(2) by (simp add: drop_bit_drop_bit)
  then show "drop_bit m p = 0"
    using assms by (simp add: drop_bit_of_1)
  then show "\<not> bit p m"
    by (simp add: bit_iff_odd_drop_bit)
qed

lemma bsg_remote_ptr_shape:
  "bsg_remote_ptr x y a = push_bit 29 1 OR push_bit 24 y OR push_bit 18 x OR a"
  unfolding bsg_remote_ptr_def by (simp only: arch_simps, simp)

lemma bsg_global_ptr_shape:
  "bsg_global_ptr x y a = push_bit 30 1 OR push_bit 23 y OR push_bit 16 x OR a"
  unfolding bsg_global_ptr_def by (simp only: arch_simps, simp)

lemma bsg_remote_ptr_plus:
  assumes "unat a < 2 ^ 18"
  shows "bsg_remote_ptr x y a = bsg_remote_ptr x y 0 + a"
proof -
  have fa: "n < 18" if "bit a n" for n using bit_field_False [OF assms, of n] that by fastforce
  have "bsg_remote_ptr x y 0 + a = bsg_remote_ptr x y 0 OR a"
  proof (rule disjunctive_add)
    show "\<not> bit (bsg_remote_ptr x y 0) n \<or> \<not> bit a n" for n
      unfolding bsg_remote_ptr_shape bit_eva using fa [of n] by auto
  qed
  then show ?thesis by (simp add: bsg_remote_ptr_shape or.assoc)
qed

lemma bsg_remote_ptr_offset:
  assumes "unat a + unat k < 2 ^ 18"
  shows "bsg_remote_ptr x y a + k = bsg_remote_ptr x y (a + k)"
proof -
  have "unat (a + k) < 2 ^ 18" "unat a < 2 ^ 18"
    using assms unat_plus_le [of a k] by linarith+
  then show ?thesis
    using bsg_remote_ptr_plus [of a x y] bsg_remote_ptr_plus [of "a + k" x y] by simp
qed

lemma eva_remote:
  assumes "unat x < 64" "unat y < 32" "unat a < 2 ^ 18"
  shows "eva_to_npa c t (bsg_remote_ptr x y a) = tile_npa c (x, y) a"
proof -
  note f = eva_fields [of x 6 y 5 a 18 24 29, folded bsg_remote_ptr_shape]
  have 1: "drop_bit 29 (bsg_remote_ptr x y a) = 1"
    using f assms by simp
  show ?thesis
    using f assms drop_bit_one_above [OF 1] unfolding eva_to_npa_def by simp
qed

lemma eva_global:
  assumes "unat x < 128" "unat y < 128" "unat a < 2 ^ 16"
  shows "eva_to_npa c t (bsg_global_ptr x y a) = Endpoint x y a"
proof -
  note f = eva_fields [of x 7 y 7 a 16 23 30, folded bsg_global_ptr_shape]
  have 1: "drop_bit 30 (bsg_global_ptr x y a) = 1"
    using f assms by simp
  show ?thesis
    using f assms drop_bit_one_above [OF 1] unfolding eva_to_npa_def by simp
qed

lemma eva_dram:
  assumes "unat a < 2 ^ 31"
  shows "eva_to_npa c t (bsg_dram_ptr a) = Dram a"
proof -
  have a: "take_bit 31 a = a" by (rule take_bit_unat_lt [OF assms])
  have "take_bit 31 (push_bit 31 1 OR a) = a"
    by (subst take_bit_or) (simp add: a)
  moreover have "bit (push_bit 31 1 OR a) 31" by (simp add: bit_simps)
  ultimately show ?thesis by (simp add: eva_to_npa_def bsg_dram_ptr_def arch_simps)
qed

lemma eva_local:
  assumes "unat a < 2 ^ 29"
  shows "eva_to_npa c t a = tile_npa c t a"
proof -
  have "drop_bit 29 a = 0"
    by (rule bit_word_eqI) (simp add: bit_simps bit_field_False [OF assms])
  moreover have "drop_bit 30 a = 0"
    by (rule bit_word_eqI) (simp add: bit_simps bit_field_False [OF assms])
  moreover have "\<not> bit a 31"
    using bit_field_False [OF assms, of 31] by simp
  ultimately show ?thesis by (simp add: eva_to_npa_def)
qed

lemma bsg_local_ptr_remote:
  assumes "unat a < 2 ^ 18"
  shows "bsg_local_ptr (bsg_remote_ptr x y a) = a"
proof -
  have "bsg_local_ptr (bsg_remote_ptr x y a) = take_bit 18 (bsg_remote_ptr x y a)"
    by (simp add: bsg_local_ptr_def arch_simps take_bit_eq_mask mask_eq_exp_minus_1)
  also have "\<dots> = a"
    using take_bit_unat_lt [OF assms]
    by (simp add: bsg_remote_ptr_def arch_simps take_bit_or take_bit_push_bit)
  finally show ?thesis .
qed
section \<open>Tiles of a group\<close>

text \<open>
  The tiles of a group of \<open>bsg_tiles_X\<close> by \<open>bsg_tiles_Y\<close>. A group that fits in its pod (the
  subcoordinates do not wrap) and in the coordinate fields of a tile-group EVA has one endpoint
  per tile.
\<close>

definition in_group :: "cfg \<Rightarrow> tile \<Rightarrow> bool" where
  "in_group c t \<longleftrightarrow> fst t < bsg_tiles_X c \<and> snd t < bsg_tiles_Y c"

definition group_fits :: "cfg \<Rightarrow> bool" where
  "group_fits c \<longleftrightarrow>
     0 < bsg_tiles_X c \<and> unat (bsg_tiles_X c) \<le> 64 \<and> 0 < bsg_tiles_Y c \<and> unat (bsg_tiles_Y c) \<le> 32
     \<and> x_subcord_width c < 32 \<and> unat (tgo_x c) + unat (bsg_tiles_X c) \<le> 2 ^ x_subcord_width c
     \<and> y_subcord_width c < 32 \<and> unat (tgo_y c) + unat (bsg_tiles_Y c) \<le> 2 ^ y_subcord_width c"

lemma subcord_inj:
  fixes p x x' orig n :: u32
  assumes "push_bit w p OR take_bit w (x + orig) = push_bit w p OR take_bit w (x' + orig)"
    and "x < n" and "x' < n" and "unat orig + unat n \<le> 2 ^ w" and "w < 32"
  shows "x = x'"
proof -
  have fits: "unat (z + orig) < 2 ^ w" if "z < n" for z
  proof -
    have "(2::nat) ^ w < 2 ^ 32" using assms(5) by (intro power_strict_increasing) auto
    moreover have "unat z + unat orig < 2 ^ w" 
      using that assms(4) by (simp add: word_less_nat_alt)
    ultimately show ?thesis by (simp add: unat_word_ariths)
  qed
  have "take_bit w (push_bit w p OR take_bit w (x + orig)) = take_bit w (push_bit w p OR take_bit w (x' + orig))"
    using assms(1) by simp
  then have "take_bit w (x + orig) = take_bit w (x' + orig)"
    by (simp add: take_bit_or take_bit_push_bit)
  then show ?thesis
    using take_bit_unat_lt [OF fits [OF assms(2)]] take_bit_unat_lt [OF fits [OF assms(3)]] by simp
qed

lemma tile_npa_inj:
  assumes "group_fits c" and "in_group c t" and "in_group c t'"
  shows "tile_npa c t a = tile_npa c t' a' \<longleftrightarrow> t = t' \<and> a = a'"
proof -
  have "fst t = fst t'" if "cord_x c (fst t) = cord_x c (fst t')"
    using that assms subcord_inj [of "x_subcord_width c" "pod_x c" "fst t" "tgo_x c" "fst t'" "bsg_tiles_X c"]
    by (simp add: cord_x_def in_group_def group_fits_def)
  moreover have "snd t = snd t'" if "cord_y c (snd t) = cord_y c (snd t')"
    using that assms subcord_inj [of "y_subcord_width c" "pod_y c" "snd t" "tgo_y c" "snd t'" "bsg_tiles_Y c"]
    by (simp add: cord_y_def in_group_def group_fits_def)
  ultimately show ?thesis by (auto simp: tile_npa_def prod_eq_iff)
qed

lemma eva_remote_group:
  assumes "group_fits c" and "in_group c (x, y)" and "unat a < 2 ^ 18"
  shows "eva_to_npa c t (bsg_remote_ptr x y a) = tile_npa c (x, y) a"
  using assms by (intro eva_remote) (auto simp: group_fits_def in_group_def word_less_nat_alt)

lemma eva_self:
  assumes "group_fits c" and "in_group c t" and "unat a < 2 ^ 18"
  shows "eva_to_npa c t (bsg_remote_ptr (fst t) (snd t) a) = eva_to_npa c t a"
  using eva_remote_group [of c "fst t" "snd t" a t] eva_local [of a c t] assms by simp

text \<open>The typed pointer macros denote the same addresses as the plain ones.\<close>

lemma typed_ptr_eq:
  "bsg_tile_group_remote_ptr = bsg_remote_ptr" "bsg_remote_flt_ptr = bsg_remote_ptr"
  "bsg_asm_remote_ptr = bsg_remote_ptr" "bsg_global_float_ptr = bsg_global_ptr"
  "bsg_asm_global_ptr = bsg_global_ptr"
  by (intro ext, simp add: bsg_tile_group_remote_ptr_def bsg_remote_flt_ptr_def bsg_asm_remote_ptr_def
        bsg_remote_ptr_def bsg_global_float_ptr_def bsg_asm_global_ptr_def bsg_global_ptr_def)+

section \<open>Shared arrays of a tile group\<close>

definition shared_slot :: "cfg \<Rightarrow> nat \<Rightarrow> tile \<times> nat" where
  "shared_slot c i = (let X = unat (bsg_tiles_X c); Y = unat (bsg_tiles_Y c)
     in ((of_nat (i mod X), of_nat (i div X mod Y)), i div (X * Y)))"

lemma group_fits_nat:
  assumes "group_fits c"
  shows "0 < unat (bsg_tiles_X c)" "unat (bsg_tiles_X c) \<le> 64"
    "0 < unat (bsg_tiles_Y c)" "unat (bsg_tiles_Y c) \<le> 32"
  using assms by (auto simp: group_fits_def word_less_nat_alt)

lemma unat_shared_slot:
  assumes "group_fits c"
  shows "unat (fst (fst (shared_slot c i))) = i mod unat (bsg_tiles_X c)"
    and "unat (snd (fst (shared_slot c i))) = i div unat (bsg_tiles_X c) mod unat (bsg_tiles_Y c)"
proof -
  note g = group_fits_nat [OF assms]
  have "i mod unat (bsg_tiles_X c) < 64" "i div unat (bsg_tiles_X c) mod unat (bsg_tiles_Y c) < 32"
    using g mod_less_divisor [OF g(1), of i] mod_less_divisor [OF g(3), of "i div unat (bsg_tiles_X c)"]
    by linarith+
  then show "unat (fst (fst (shared_slot c i))) = i mod unat (bsg_tiles_X c)"
    and "unat (snd (fst (shared_slot c i))) = i div unat (bsg_tiles_X c) mod unat (bsg_tiles_Y c)"
    by (simp_all add: shared_slot_def Let_def unat_of_nat_lt)
qed

lemma shared_slot_in_group:
  assumes "group_fits c"
  shows "in_group c (fst (shared_slot c i))"
  using group_fits_nat [OF assms] by (simp add: in_group_def word_less_nat_alt unat_shared_slot [OF assms])

lemma shared_slot_inj:
  assumes "group_fits c" and "shared_slot c i = shared_slot c j"
  shows "i = j"
proof -
  let ?X = "unat (bsg_tiles_X c)" and ?Y = "unat (bsg_tiles_Y c)"
  have "i mod ?X = j mod ?X" "i div ?X mod ?Y = j div ?X mod ?Y"
    using assms(2) unat_shared_slot [OF assms(1), of i] unat_shared_slot [OF assms(1), of j] by simp_all
  moreover have "i div ?X div ?Y = j div ?X div ?Y"
    using assms(2) by (simp add: shared_slot_def Let_def div_mult2_eq)
  ultimately show ?thesis
    by (metis div_mult_mod_eq)
qed

lemma shared_ptr_slot:
  assumes "group_fits c" and "i < 2 ^ 31"
    and "unat lc_sh + unat es * snd (shared_slot c i) < 2 ^ 18"
  shows "eva_to_npa c t (bsg_tile_group_shared_ptr c es lc_sh (of_nat i)) =
    tile_npa c (fst (shared_slot c i)) (lc_sh + es * of_nat (snd (shared_slot c i)))"
proof -
  let ?X = "unat (bsg_tiles_X c)" and ?Y = "unat (bsg_tiles_Y c)" and ?s = "shared_slot c i"
  note g = group_fits_nat [OF assms(1)]
  have ui: "unat (of_nat i :: u32) = i" using assms(2) by (simp add: unat_of_nat)
  have XY: "unat (bsg_tiles_X c * bsg_tiles_Y c) = ?X * ?Y" "?X * ?Y \<le> 2048"
    using mult_le_mono [OF g(2) g(4)] by (simp_all add: unat_word_ariths)
  have q: "i div ?X \<le> i" by simp
  have x: "c_rem (of_nat i) (bsg_tiles_X c) = fst (fst ?s)"
    using g ui assms(2) by (simp add: word_unat_eq_iff unat_c_rem unat_shared_slot [OF assms(1)])
  have y: "c_rem (c_div (of_nat i) (bsg_tiles_X c)) (bsg_tiles_Y c) = snd (fst ?s)"
    using g ui assms(2) order_le_less_trans [OF q assms(2)]
    by (simp add: word_unat_eq_iff unat_c_rem unat_c_div unat_shared_slot [OF assms(1)])
  have k: "c_div (of_nat i) (bsg_tiles_X c * bsg_tiles_Y c) = of_nat (snd ?s)"
    using g ui assms(2) XY order_le_less_trans [OF div_le_dividend assms(2), of "?X * ?Y"]
    by (simp add: word_unat_eq_iff unat_c_div shared_slot_def Let_def unat_of_nat_lt)
  have a: "unat (lc_sh + es * of_nat (snd ?s)) < 2 ^ 18"
    using unat_plus_le [of lc_sh "es * of_nat (snd ?s)"] unat_times_of_nat_le [of es "snd ?s"] assms(3)
    by linarith
  show ?thesis
    using eva_remote_group [OF assms(1) _ a, of "fst (fst ?s)" "snd (fst ?s)" t] shared_slot_in_group [OF assms(1), of i]
    by (simp add: bsg_tile_group_shared_ptr_def typed_ptr_eq x y k)
qed
section \<open>Pod pointers\<close>

text \<open>
  Compute pods occupy every second band of \<open>bsg_global_Y\<close> rows; the pointer macro reaches the
  tile \<open>(x, y)\<close> of pod \<open>(px, py)\<close>, and the pod and the tile can be read back from the coordinates.
\<close>

lemma unat_pod_cord:
  fixes p x n :: u32
  assumes "unat p * unat n + unat x < 2 ^ 32"
  shows "unat (p * n + x) = unat p * unat n + unat x"
  using assms by (simp add: unat_word_ariths)

lemma pod_cord_decode:
  fixes p x n :: u32
  assumes "x < n" and "unat p * unat n + unat x < 2 ^ 32"
  shows "(p * n + x) div n = p" and "(p * n + x) mod n = x"
  using assms
  by (simp_all add: word_unat_eq_iff unat_div unat_mod unat_pod_cord word_less_nat_alt)

lemma pod_cord_bound:
  fixes p x n :: u32
  assumes "x < n" and "(unat p + 1) * unat n \<le> 128"
  shows "unat p * unat n + unat x < 128"
  using assms by (simp add: word_less_nat_alt algebra_simps)

lemma pod_ptr_endpoint:
  assumes "x < bsg_global_X c" and "y < bsg_global_Y c" and "unat a < 2 ^ 16"
    and "(unat px + 2) * unat (bsg_global_X c) \<le> 128" and "(2 * unat py + 2) * unat (bsg_global_Y c) \<le> 128"
  shows "\<exists>gx gy. eva_to_npa c t (bsg_global_pod_ptr c px py x y a) = Endpoint gx gy a
    \<and> gx div bsg_global_X c = px + 1 \<and> gx mod bsg_global_X c = x
    \<and> gy div bsg_global_Y c = 1 + py * 2 \<and> gy mod bsg_global_Y c = y"
proof -
  let ?X = "unat (bsg_global_X c)" and ?Y = "unat (bsg_global_Y c)"
  have pos: "1 \<le> ?X" "1 \<le> ?Y" using assms(1,2) by (auto simp: word_less_nat_alt)
  have px: "unat px + 2 \<le> 128" and py: "2 * unat py + 2 \<le> 128"
    using order_trans [OF mult_le_mono2 [OF pos(1)] assms(4)] order_trans [OF mult_le_mono2 [OF pos(2)] assms(5)]
    by simp_all
  have p: "unat (px + 1) = unat px + 1" and q: "unat (1 + py * 2) = 2 * unat py + 1"
    using px py by (simp_all add: unat_word_ariths)
  have bx: "unat (px + 1) * ?X + unat x < 128"
    using assms(4) by (intro pod_cord_bound [OF assms(1)]) (simp add: p)
  have byy: "unat (1 + py * 2) * ?Y + unat y < 128"
    using assms(5) by (intro pod_cord_bound [OF assms(2)]) (simp add: q)
  let ?gx = "(px + 1) * bsg_global_X c + x" and ?gy = "(1 + py * 2) * bsg_global_Y c + y"
  have "unat ?gx < 128" "unat ?gy < 128"
    using bx byy unat_pod_cord [OF less_trans [OF bx]] unat_pod_cord [OF less_trans [OF byy]] by simp_all
  then have "eva_to_npa c t (bsg_global_pod_ptr c px py x y a) = Endpoint ?gx ?gy a"
    using eva_global [of ?gx ?gy a c t] assms(3) by (simp add: bsg_global_pod_ptr_def bsg_global_ptr_def)
  then show ?thesis
    using pod_cord_decode [OF assms(1), of "px + 1"] pod_cord_decode [OF assms(2), of "1 + py * 2"] bx byy
    by (intro exI [of _ ?gx] exI [of _ ?gy]) simp
qed
end
