(* ===== verification/Machine.thy ===== *)
theory Machine
  imports Arch
begin

text \<open>
  The execution model: a byte memory addressed by physical addresses, the memory instructions a
  tile issues, tile programs as resumable processes, and the interleaving of the tiles of a group.
  Code that communicates is translated to a \<open>proc\<close>; the same term is run alone (\<open>eval\<close>) and
  interleaved with the programs of the other tiles (\<open>sys_step\<close>).
\<close>

section \<open>Memory\<close>

text \<open>
  \<open>mem\<close> is the contents of every byte of the system; \<open>io\<close> lists, oldest first, the stores that
  reached the row of host interfaces (\<open>IO_Y_INDEX\<close>): the column, the offset and the value.
\<close>

record machine =
  mem :: "npa \<Rightarrow> u8"
  io :: "(u32 \<times> u32 \<times> u32) list"

primrec npa_off :: "npa \<Rightarrow> u32 \<Rightarrow> npa" where
  "npa_off (Dram a) k = Dram (a + k)"
| "npa_off (Endpoint x y a) k = Endpoint x y (a + k)"

definition load8 :: "(npa \<Rightarrow> u8) \<Rightarrow> npa \<Rightarrow> u8" where
  "load8 m p = m p"

definition load16 :: "(npa \<Rightarrow> u8) \<Rightarrow> npa \<Rightarrow> u16" where
  "load16 m p = ucast (m p) OR push_bit 8 (ucast (m (npa_off p 1)))"

definition load32 :: "(npa \<Rightarrow> u8) \<Rightarrow> npa \<Rightarrow> u32" where
  "load32 m p = ucast (m p) OR push_bit 8 (ucast (m (npa_off p 1)))
     OR push_bit 16 (ucast (m (npa_off p 2))) OR push_bit 24 (ucast (m (npa_off p 3)))"

definition store8 :: "(npa \<Rightarrow> u8) \<Rightarrow> npa \<Rightarrow> u8 \<Rightarrow> (npa \<Rightarrow> u8)" where
  "store8 m p v = m(p := v)"

definition store16 :: "(npa \<Rightarrow> u8) \<Rightarrow> npa \<Rightarrow> u16 \<Rightarrow> (npa \<Rightarrow> u8)" where
  "store16 m p v = m(p := ucast v, npa_off p 1 := ucast (drop_bit 8 v))"

definition store32 :: "(npa \<Rightarrow> u8) \<Rightarrow> npa \<Rightarrow> u32 \<Rightarrow> (npa \<Rightarrow> u8)" where
  "store32 m p v = m(p := ucast v, npa_off p 1 := ucast (drop_bit 8 v),
     npa_off p 2 := ucast (drop_bit 16 v), npa_off p 3 := ucast (drop_bit 24 v))"

section \<open>Memory instructions\<close>

text \<open>
  Loads return the value zero-extended to a register. \<open>Lr\<close> and \<open>Lr_aq\<close> read like \<open>Load32\<close>: the
  second stalls until the reservation of the first is lost, and then reads; since a reservation
  may also be lost to a context switch, the model lets it read at any later point. A fence orders
  the tile's own accesses, which the interleaving already performs in program order.
\<close>

datatype memop =
  Load8 u32 | Load16 u32 | Load32 u32 | Lr u32 | Lr_aq u32
  | Store8 u32 u8 | Store16 u32 u16 | Store32 u32 u32
  | AmoSwap u32 u32 | AmoOr u32 u32 | AmoAdd u32 u32
  | Fence

definition io_log :: "cfg \<Rightarrow> npa \<Rightarrow> u32 \<Rightarrow> (u32 \<times> u32 \<times> u32) list" where
  "io_log c p v = (case p of Endpoint x y a \<Rightarrow> if y = IO_Y_INDEX c then [(x, a, v)] else [] | Dram _ \<Rightarrow> [])"

definition put32 :: "cfg \<Rightarrow> npa \<Rightarrow> u32 \<Rightarrow> machine \<Rightarrow> machine" where
  "put32 c p v m = m\<lparr>mem := store32 (mem m) p v, io := io m @ io_log c p v\<rparr>"

fun exec :: "cfg \<Rightarrow> tile \<Rightarrow> memop \<Rightarrow> machine \<Rightarrow> u32 \<times> machine" where
  "exec c t (Load8 a) m = (ucast (load8 (mem m) (eva_to_npa c t a)), m)"
| "exec c t (Load16 a) m = (ucast (load16 (mem m) (eva_to_npa c t a)), m)"
| "exec c t (Load32 a) m = (load32 (mem m) (eva_to_npa c t a), m)"
| "exec c t (Lr a) m = (load32 (mem m) (eva_to_npa c t a), m)"
| "exec c t (Lr_aq a) m = (load32 (mem m) (eva_to_npa c t a), m)"
| "exec c t (Store8 a v) m =
     (0, let p = eva_to_npa c t a in m\<lparr>mem := store8 (mem m) p v, io := io m @ io_log c p (ucast v)\<rparr>)"
| "exec c t (Store16 a v) m =
     (0, let p = eva_to_npa c t a in m\<lparr>mem := store16 (mem m) p v, io := io m @ io_log c p (ucast v)\<rparr>)"
| "exec c t (Store32 a v) m = (0, put32 c (eva_to_npa c t a) v m)"
| "exec c t (AmoSwap a v) m =
     (let p = eva_to_npa c t a in (load32 (mem m) p, put32 c p v m))"
| "exec c t (AmoOr a v) m =
     (let p = eva_to_npa c t a; old = load32 (mem m) p in (old, put32 c p (old OR v) m))"
| "exec c t (AmoAdd a v) m =
     (let p = eva_to_npa c t a; old = load32 (mem m) p in (old, put32 c p (old + v) m))"
| "exec c t Fence m = (0, m)"

section \<open>Tile programs\<close>

text \<open>
  \<open>Ret v\<close> has returned \<open>v\<close>; \<open>Act op k\<close> issues \<open>op\<close> and continues with its result; \<open>Loop b e k\<close>
  repeats the body \<open>b\<close> until its result satisfies the exit test \<open>e\<close>, and continues with it. C
  locals that stay in registers or on the stack are ordinary HOL variables of the continuations.
\<close>

datatype proc = Ret u32 | Act memop "u32 \<Rightarrow> proc" | Loop proc "u32 \<Rightarrow> bool" "u32 \<Rightarrow> proc"

primrec bind :: "proc \<Rightarrow> (u32 \<Rightarrow> proc) \<Rightarrow> proc" where
  "bind (Ret v) f = f v"
| "bind (Act a k) f = Act a (\<lambda>v. bind (k v) f)"
| "bind (Loop b e k) f = Loop b e (\<lambda>v. bind (k v) f)"

abbreviation seq :: "proc \<Rightarrow> proc \<Rightarrow> proc" where
  "seq p q \<equiv> bind p (\<lambda>_. q)"

primrec for_each :: "'a list \<Rightarrow> ('a \<Rightarrow> proc) \<Rightarrow> proc" where
  "for_each [] f = Ret 0"
| "for_each (x # xs) f = seq (f x) (for_each xs f)"

text \<open>A loop that carries a value from one iteration to the next.\<close>

primrec for_fold :: "'a list \<Rightarrow> ('a \<Rightarrow> u32 \<Rightarrow> proc) \<Rightarrow> u32 \<Rightarrow> proc" where
  "for_fold [] f s = Ret s"
| "for_fold (x # xs) f s = bind (f x s) (for_fold xs f)"

definition spin_forever :: proc where
  "spin_forever = Loop (Ret 0) (\<lambda>_. False) Ret"

fun pstep :: "cfg \<Rightarrow> tile \<Rightarrow> proc \<times> machine \<Rightarrow> proc \<times> machine" where
  "pstep c t (Ret v, m) = (Ret v, m)"
| "pstep c t (Act a k, m) = (k (fst (exec c t a m)), snd (exec c t a m))"
| "pstep c t (Loop b e k, m) = (bind b (\<lambda>v. if e v then k v else Loop b e k), m)"

text \<open>A program run alone, with a bound on the number of steps; \<open>None\<close> when the bound is hit.\<close>

fun eval :: "nat \<Rightarrow> cfg \<Rightarrow> tile \<Rightarrow> proc \<Rightarrow> machine \<Rightarrow> (u32 \<times> machine) option" where
  "eval 0 c t p m = None"
| "eval (Suc n) c t (Ret v) m = Some (v, m)"
| "eval (Suc n) c t (Act a k) m = eval n c t (k (fst (exec c t a m))) (snd (exec c t a m))"
| "eval (Suc n) c t (Loop b e k) m = eval n c t (bind b (\<lambda>v. if e v then k v else Loop b e k)) m"

section \<open>Interleaving\<close>

text \<open>One step of the group: some tile of the group takes one step of its program.\<close>

type_synonym sys = "(tile \<Rightarrow> proc) \<times> machine"

inductive sys_step :: "cfg \<Rightarrow> sys \<Rightarrow> sys \<Rightarrow> bool" for c where
  tile_step: "in_group c t \<Longrightarrow> pstep c t (ps t, m) = (p', m') \<Longrightarrow> sys_step c (ps, m) (ps(t := p'), m')"

inductive reachable :: "cfg \<Rightarrow> sys \<Rightarrow> sys \<Rightarrow> bool" for c s0 where
  reach_start: "reachable c s0 s0"
| reach_step: "reachable c s0 s \<Longrightarrow> sys_step c s s' \<Longrightarrow> reachable c s0 s'"

section \<open>Reading back stores\<close>

text \<open>The four bytes of a word; words with disjoint bytes do not interfere.\<close>

definition span4 :: "npa \<Rightarrow> npa set" where
  "span4 p = {p, npa_off p 1, npa_off p 2, npa_off p 3}"

definition rd :: "machine \<Rightarrow> npa \<Rightarrow> u32" where
  "rd m p = load32 (mem m) p"

lemma npa_off_neq:
  "npa_off p 1 \<noteq> p" "npa_off p 2 \<noteq> p" "npa_off p 3 \<noteq> p" "npa_off p 1 \<noteq> npa_off p 2"
  "npa_off p 1 \<noteq> npa_off p 3" "npa_off p 2 \<noteq> npa_off p 3"
  by (cases p; simp)+

lemma bytes_of_word:
  "(ucast (ucast w :: u8) OR push_bit 8 (ucast (ucast (drop_bit 8 w) :: u8))
     OR push_bit 16 (ucast (ucast (drop_bit 16 w) :: u8))
     OR push_bit 24 (ucast (ucast (drop_bit 24 w) :: u8)) :: u32) = w"
proof (rule bit_word_eqI)
  fix n :: nat
  assume "n < LENGTH(32)"
  then consider "n < 8" | "8 \<le> n" "n < 16" | "16 \<le> n" "n < 24" | "24 \<le> n" "n < 32"
    by fastforce
  then show "bit (ucast (ucast w :: u8) OR push_bit 8 (ucast (ucast (drop_bit 8 w) :: u8))
     OR push_bit 16 (ucast (ucast (drop_bit 16 w) :: u8))
     OR push_bit 24 (ucast (ucast (drop_bit 24 w) :: u8)) :: u32) n = bit w n"
    by cases (auto simp: bit_simps)
qed

lemma load32_store32_same [mem_simps]: "load32 (store32 m p w) p = w"
  using bytes_of_word [of w] by (simp add: load32_def store32_def npa_off_neq npa_off_neq [symmetric])

lemma load32_store32_other:
  assumes "span4 p \<inter> span4 q = {}"
  shows "load32 (store32 m q w) p = load32 m p"
proof -
  have "store32 m q w r = m r" if "r \<notin> span4 q" for r
    using that by (auto simp: store32_def span4_def)
  moreover have "p \<notin> span4 q" "npa_off p 1 \<notin> span4 q" "npa_off p 2 \<notin> span4 q" "npa_off p 3 \<notin> span4 q"
    using assms by (auto simp: span4_def)
  ultimately show ?thesis by (simp add: load32_def)
qed

lemma load8_store8 [mem_simps]: "load8 (store8 m p w) q = (if q = p then w else load8 m q)"
  by (simp add: load8_def store8_def)

lemma load32_store8_other: "q \<notin> span4 p \<Longrightarrow> load32 (store8 m q w) p = load32 m p"
  by (auto simp: load32_def store8_def span4_def)

lemma load8_store32_other: "p \<notin> span4 q \<Longrightarrow> load8 (store32 m q w) p = load8 m p"
  by (auto simp: load8_def store32_def span4_def)

lemma rd_put32_same [simp]: "rd (put32 c p v m) p = v"
  by (simp add: rd_def put32_def mem_simps)

lemma rd_put32_other [simp]: "span4 p \<inter> span4 q = {} \<Longrightarrow> rd (put32 c q v m) p = rd m p"
  by (simp add: rd_def put32_def load32_store32_other)

text \<open>Words of different tiles are disjoint; so are words of one tile four or more bytes apart.\<close>

definition sep4 :: "u32 \<Rightarrow> u32 \<Rightarrow> bool" where
  "sep4 a b \<longleftrightarrow> (\<forall>i \<in> {0, 1, 2, 3}. \<forall>j \<in> {0, 1, 2, 3}. a + i \<noteq> b + j)"

lemma sep4_sym: "sep4 a b \<longleftrightarrow> sep4 b a"
  by (auto simp: sep4_def)

lemma sep4_far:
  assumes "unat a + 4 \<le> unat b \<or> unat b + 4 \<le> unat a" and "unat a + 4 \<le> 2 ^ 32" and "unat b + 4 \<le> 2 ^ 32"
  shows "sep4 a b"
proof -
  have u: "unat (w + i) = unat w + unat i" if "unat w + 4 \<le> 2 ^ 32" "i \<in> {0, 1, 2, 3}" for w i :: u32
    using that by (auto simp: unat_word_ariths)
  have v: "unat i < 4" if "i \<in> {0, 1, 2, 3}" for i :: u32
    using that by auto
  have "a + i \<noteq> b + j" if "i \<in> {0, 1, 2, 3}" "j \<in> {0, 1, 2, 3}" for i j
    using u [OF assms(2) that(1)] u [OF assms(3) that(2)] v [OF that(1)] v [OF that(2)] assms(1)
    by (intro notI) (drule arg_cong [of _ _ unat], linarith)
  then show ?thesis unfolding sep4_def by blast
qed

lemma sep4_of_nat:
  assumes "a + 4 \<le> b \<or> b + 4 \<le> a" and "a + 4 \<le> 2 ^ 32" and "b + 4 \<le> 2 ^ 32"
  shows "sep4 (of_nat a) (of_nat b)"
proof -
  have "unat (of_nat a :: u32) = a" "unat (of_nat b :: u32) = b"
    using assms by (simp_all add: unat_of_nat_lt)
  then show ?thesis using assms sep4_far [of "of_nat a" "of_nat b"] by simp
qed

lemma npa_off_tile [simp]: "npa_off (tile_npa c t a) k = tile_npa c t (a + k)"
  by (simp add: tile_npa_def)

lemma span4_tile_disjoint:
  assumes "group_fits c" and "in_group c t" and "in_group c t'" and "t \<noteq> t' \<or> sep4 a b"
  shows "span4 (tile_npa c t a) \<inter> span4 (tile_npa c t' b) = {}"
  using assms(4) by (auto simp: span4_def tile_npa_inj [OF assms(1-3)] sep4_def)

section \<open>Words apart from the host row, and families of disjoint words\<close>

definition off_io :: "cfg \<Rightarrow> npa \<Rightarrow> bool" where
  "off_io c p \<longleftrightarrow> (case p of Endpoint x y a \<Rightarrow> y \<noteq> IO_Y_INDEX c | Dram _ \<Rightarrow> True)"

lemma io_log_off [simp]: "off_io c p \<Longrightarrow> io_log c p v = []"
  by (cases p) (auto simp: off_io_def io_log_def)

lemma io_put32 [simp]: "io (put32 c p v m) = io m @ io_log c p v"
  by (simp add: put32_def)

lemma rd_put32_io [simp]:
  "off_io c p \<Longrightarrow> rd (put32 c (Endpoint x (IO_Y_INDEX c) a) v m) p = rd m p"
  by (rule rd_put32_other) (cases p; auto simp: off_io_def span4_def)

definition disjoint_cells :: "('l \<Rightarrow> npa) \<Rightarrow> 'l set \<Rightarrow> bool" where
  "disjoint_cells loc V \<longleftrightarrow> (\<forall>a \<in> V. \<forall>b \<in> V. a \<noteq> b \<longrightarrow> span4 (loc a) \<inter> span4 (loc b) = {})"

lemma rd_put_cell:
  assumes "disjoint_cells loc V" and "a \<in> V" and "b \<in> V"
  shows "rd (put32 c (loc a) v m) (loc b) = (if b = a then v else rd m (loc b))"
  using assms by (auto simp: disjoint_cells_def)

lemma disjoint_tile_cells:
  assumes "group_fits c"
    and "\<And>a. a \<in> V \<Longrightarrow> in_group c (tile a) \<and> loc a = tile_npa c (tile a) (of_nat (off a)) \<and> off a + 4 \<le> 2 ^ 32"
    and "\<And>a b. a \<in> V \<Longrightarrow> b \<in> V \<Longrightarrow> a \<noteq> b \<Longrightarrow> tile a = tile b \<Longrightarrow> off a + 4 \<le> off b \<or> off b + 4 \<le> off a"
  shows "disjoint_cells loc V"
proof (unfold disjoint_cells_def, intro ballI impI)
  fix x y
  assume xy: "x \<in> V" "y \<in> V" "x \<noteq> y"
  note px = assms(2) [OF xy(1)] and py = assms(2) [OF xy(2)]
  have "tile x \<noteq> tile y \<or> sep4 (of_nat (off x)) (of_nat (off y))"
    using sep4_of_nat [OF assms(3) [OF xy]] px py by fastforce
  then show "span4 (loc x) \<inter> span4 (loc y) = {}"
    using span4_tile_disjoint [OF assms(1), of "tile x" "tile y"] px py by auto
qed

section \<open>Composition of runs\<close>

lemma bind_Ret [simp]: "bind p Ret = p"
  by (induction p) auto

lemma bind_assoc [simp]: "bind (bind p f) g = bind p (\<lambda>v. bind (f v) g)"
  by (induction p) auto

lemma for_each_append: "for_each (xs @ ys) f = seq (for_each xs f) (for_each ys f)"
  by (induction xs) auto

lemma for_each_map: "for_each (map g xs) f = for_each xs (\<lambda>x. f (g x))"
  by (induction xs) auto

lemma for_each_cong: "(\<And>x. x \<in> set xs \<Longrightarrow> f x = g x) \<Longrightarrow> for_each xs f = for_each xs g"
  by (induction xs) auto

lemma for_each_pairs: "for_each [0..<2 * n] f = for_each [0..<n] (\<lambda>k. seq (f (2 * k)) (f (2 * k + 1)))"
  by (induction n) (auto simp: for_each_append)

lemma eval_more: "eval n c t p m = Some r \<Longrightarrow> n \<le> n' \<Longrightarrow> eval n' c t p m = Some r"
proof (induction n c t p m arbitrary: n' rule: eval.induct)
  case (2 n c t v m) then show ?case by (cases n') auto
next
  case (3 n c t a k m) then show ?case by (cases n') auto
next
  case (4 n c t b e k m) then show ?case by (cases n') auto
qed simp

lemma eval_bind:
  "eval n c t p m = Some (v, m1) \<Longrightarrow> eval n' c t (f v) m1 = Some r \<Longrightarrow>
   eval (n + n') c t (bind p f) m = Some r"
proof (induction n c t p m arbitrary: f rule: eval.induct)
  case (2 n c t v m) then show ?case using eval_more [of n' c t "f v" m r "Suc n + n'"] by auto
next
  case (3 n c t a k m) then show ?case by simp
next
  case (4 n c t b e k m)
  have "(\<lambda>v. bind (if e v then k v else Loop b e k) f) =
        (\<lambda>v. if e v then bind (k v) f else Loop b e (\<lambda>v. bind (k v) f))"
    by auto
  moreover have "eval (n + n') c t (bind (bind b (\<lambda>v. if e v then k v else Loop b e k)) f) m = Some r"
    using 4 by simp
  ultimately show ?case by simp
qed simp

lemma reachable_trans: "reachable c b d \<Longrightarrow> reachable c a b \<Longrightarrow> reachable c a d"
  by (induction rule: reachable.induct) (auto intro: reachable.intros)

lemma sys_step_reachable: "sys_step c a b \<Longrightarrow> reachable c a b"
  by (blast intro: reachable.intros)

lemma reachable_tile_steps:
  assumes "in_group c t"
  shows "reachable c (ps, m) (ps(t := fst ((pstep c t ^^ k) (ps t, m))), snd ((pstep c t ^^ k) (ps t, m)))"
proof (induction k)
  case 0
  then show ?case by (simp add: reach_start)
next
  case (Suc k)
  let ?s = "(pstep c t ^^ k) (ps t, m)"
  have "pstep c t ((ps(t := fst ?s)) t, snd ?s) = (fst (pstep c t ?s), snd (pstep c t ?s))" by simp
  then have "sys_step c (ps(t := fst ?s), snd ?s) ((ps(t := fst ?s))(t := fst (pstep c t ?s)), snd (pstep c t ?s))"
    by (rule tile_step [OF assms])
  from reach_step [OF Suc.IH this] show ?case by (simp del: fun_upd_apply)
qed

text \<open>Only the programs of the group's tiles matter.\<close>

lemma reachable_agree:
  assumes "reachable c (ps, m) s" and "\<forall>t. in_group c t \<longrightarrow> ps t = ps' t"
  shows "\<exists>s'. reachable c (ps', m) s' \<and> snd s' = snd s \<and> (\<forall>t. in_group c t \<longrightarrow> fst s t = fst s' t)"
  using assms(1)
proof (induction rule: reachable.induct)
  case reach_start
  show ?case using assms(2) by (intro exI [of _ "(ps', m)"]) (auto intro: reachable.intros)
next
  case (reach_step s s'')
  then obtain s' where s': "reachable c (ps', m) s'" "snd s' = snd s" "\<forall>t. in_group c t \<longrightarrow> fst s t = fst s' t"
    by blast
  from reach_step.hyps(2) show ?case
  proof cases
    case (tile_step t qs n p' n')
    then have "sys_step c s' ((fst s')(t := p'), n')"
      using s' sys_step.tile_step [of c t "fst s'" "snd s'" p' n'] by (cases s') simp
    then have "reachable c (ps', m) ((fst s')(t := p'), n')" using s'(1) by (blast intro: reachable.intros)
    then show ?thesis using tile_step s' by (intro exI [of _ "((fst s')(t := p'), n')"]) auto
  qed
qed

section \<open>A small instance\<close>

text \<open>A two by two group at the origin of pod (0,0), all memory zero: the instance the examples use.\<close>

definition small_cfg :: cfg where
  "small_cfg = \<lparr>bsg_tiles_X = 2, bsg_tiles_Y = 2, bsg_global_X = 4, bsg_global_Y = 4,
     IO_X_INDEX = 0, IO_Y_INDEX = 100, x_subcord_width = 4, y_subcord_width = 4,
     pod_x = 0, pod_y = 0, tgo_x = 0, tgo_y = 0\<rparr>"

definition zero_machine :: machine where
  "zero_machine = \<lparr>mem = (\<lambda>_. 0), io = []\<rparr>"

lemma small_cfg_fits [simp]: "group_fits small_cfg"
  by (simp add: group_fits_def small_cfg_def)

lemma small_cfg_row: "cord_y small_cfg y \<noteq> IO_Y_INDEX small_cfg"
proof -
  have "cord_y small_cfg y = take_bit 4 y" by (simp add: cord_y_def small_cfg_def)
  then have "unat (cord_y small_cfg y) < 16"
    by (simp add: unsigned_take_bit_eq take_bit_nat_less_exp [of 4, simplified])
  then show ?thesis by (auto simp: small_cfg_def)
qed

lemma rd_zero_machine [simp]: "rd zero_machine p = 0"
  by (simp add: rd_def zero_machine_def load32_def)

section \<open>Invariants of interleaved programs\<close>

text \<open>
  The proof method for concurrent code. The points a tile's program can be at are named by control
  states: \<open>prog t q\<close> is the rest of the program of tile \<open>t\<close> at control state \<open>q\<close>. The first law
  says that one step of the code is one step \<open>cnext\<close> between control states, the second that such
  a step keeps the invariant. Every reachable state of the code is then at control states that
  satisfy the invariant.
\<close>

locale control_points =
  fixes c :: cfg
    and prog :: "tile \<Rightarrow> 'q \<Rightarrow> proc"
    and cnext :: "tile \<Rightarrow> 'q \<Rightarrow> machine \<Rightarrow> 'q \<times> machine"
    and inv :: "(tile \<Rightarrow> 'q) \<Rightarrow> machine \<Rightarrow> bool"
  assumes code_step: "in_group c t \<Longrightarrow> inv qs m \<Longrightarrow>
      pstep c t (prog t (qs t), m) = (prog t (fst (cnext t (qs t) m)), snd (cnext t (qs t) m))"
    and inv_step: "in_group c t \<Longrightarrow> inv qs m \<Longrightarrow> cnext t (qs t) m = (q', m') \<Longrightarrow> inv (qs(t := q')) m'"
begin

lemma reachable_inv:
  assumes "reachable c (\<lambda>t. prog t (qs0 t), m0) s" and "inv qs0 m0"
  shows "\<exists>qs. fst s = (\<lambda>t. prog t (qs t)) \<and> inv qs (snd s)"
  using assms(1)
proof (induction rule: reachable.induct)
  case reach_start
  then show ?case using assms(2) by auto
next
  case (reach_step s s')
  then obtain qs where qs: "fst s = (\<lambda>t. prog t (qs t))" "inv qs (snd s)" by blast
  from reach_step.hyps(2) show ?case
  proof cases
    case (tile_step t ps m p' m')
    let ?n = "cnext t (qs t) m"
    have p: "p' = prog t (fst ?n)" "m' = snd ?n"
      using code_step [OF tile_step(3), of qs m] qs tile_step by auto
    have "inv (qs(t := fst ?n)) m'"
      using inv_step [OF tile_step(3), of qs m "fst ?n" m'] qs tile_step p by simp
    then show ?thesis
      using qs tile_step p by (intro exI [of _ "qs(t := fst ?n)"]) (auto simp: fun_upd_def)
  qed
qed

text \<open>
  Progress: when, short of the goal, some tile of the group has a step that lowers a rank, the
  goal can be reached from every state of the invariant.
\<close>

lemma can_reach:
  fixes rank :: "(tile \<Rightarrow> 'q) \<Rightarrow> nat"
  assumes "inv qs m"
    and progress: "\<And>qs m. inv qs m \<Longrightarrow> \<not> goal qs \<Longrightarrow>
      \<exists>t. in_group c t \<and> rank (qs(t := fst (cnext t (qs t) m))) < rank qs"
  shows "\<exists>qs' m'. reachable c (\<lambda>t. prog t (qs t), m) (\<lambda>t. prog t (qs' t), m') \<and> inv qs' m' \<and> goal qs'"
  using assms(1)
proof (induction "rank qs" arbitrary: qs m rule: less_induct)
  case less
  show ?case
  proof (cases "goal qs")
    case True
    then show ?thesis using less.prems by (blast intro: reachable.intros)
  next
    case False
    obtain t where t: "in_group c t" "rank (qs(t := fst (cnext t (qs t) m))) < rank qs"
      using progress [OF less.prems False] by blast
    let ?q = "fst (cnext t (qs t) m)" and ?m = "snd (cnext t (qs t) m)"
    have "sys_step c (\<lambda>t. prog t (qs t), m) ((\<lambda>t. prog t (qs t))(t := prog t ?q), ?m)"
      using tile_step [OF t(1), of "\<lambda>t. prog t (qs t)"] code_step [OF t(1) less.prems] by blast
    moreover have "(\<lambda>t. prog t (qs t))(t := prog t ?q) = (\<lambda>u. prog u ((qs(t := ?q)) u))" by auto
    ultimately have st: "reachable c (\<lambda>t. prog t (qs t), m) (\<lambda>u. prog u ((qs(t := ?q)) u), ?m)"
      by (simp add: sys_step_reachable)
    have "inv (qs(t := ?q)) ?m" using inv_step [OF t(1) less.prems, of ?q ?m] by simp
    from less.hyps [OF t(2) this] show ?thesis using reachable_trans [OF _ st] by blast
  qed
qed

end

end
