(* ===== verification/Manycore.thy ===== *)
theory Manycore
  imports Machine
begin

text \<open>
  \<open>bsg_manycore.h\<close> and \<open>bsg_manycore_atomic.h\<close>: remote loads and stores, the host interface
  (finish, fail, console, statistics), tile numbering, and the instructions the headers wrap in
  inline assembly. A macro that performs an access is the tile program of that access.
\<close>

section \<open>Loads and stores\<close>

text \<open>A \<open>float\<close> is carried as its 32-bit representation.\<close>

definition bsg_remote_flt_store :: "u32 \<Rightarrow> u32 \<Rightarrow> u32 \<Rightarrow> u32 \<Rightarrow> proc" where
  "bsg_remote_flt_store x y local_addr v = Act (Store32 (bsg_remote_flt_ptr x y local_addr) v) Ret"

definition bsg_remote_flt_load :: "u32 \<Rightarrow> u32 \<Rightarrow> u32 \<Rightarrow> proc" where
  "bsg_remote_flt_load x y local_addr = Act (Load32 (bsg_remote_flt_ptr x y local_addr)) Ret"

definition bsg_remote_store :: "u32 \<Rightarrow> u32 \<Rightarrow> u32 \<Rightarrow> u32 \<Rightarrow> proc" where
  "bsg_remote_store x y local_addr v = Act (Store32 (bsg_remote_ptr x y local_addr) v) Ret"

definition bsg_remote_load :: "u32 \<Rightarrow> u32 \<Rightarrow> u32 \<Rightarrow> proc" where
  "bsg_remote_load x y local_addr = Act (Load32 (bsg_remote_ptr x y local_addr)) Ret"

definition bsg_global_store :: "u32 \<Rightarrow> u32 \<Rightarrow> u32 \<Rightarrow> u32 \<Rightarrow> proc" where
  "bsg_global_store x y local_addr v = Act (Store32 (bsg_global_ptr x y local_addr) v) Ret"

definition bsg_global_load :: "u32 \<Rightarrow> u32 \<Rightarrow> u32 \<Rightarrow> proc" where
  "bsg_global_load x y local_addr = Act (Load32 (bsg_global_ptr x y local_addr)) Ret"

definition bsg_global_float_store :: "u32 \<Rightarrow> u32 \<Rightarrow> u32 \<Rightarrow> u32 \<Rightarrow> proc" where
  "bsg_global_float_store x y local_addr v = Act (Store32 (bsg_global_float_ptr x y local_addr) v) Ret"

definition bsg_global_float_load :: "u32 \<Rightarrow> u32 \<Rightarrow> u32 \<Rightarrow> proc" where
  "bsg_global_float_load x y local_addr = Act (Load32 (bsg_global_float_ptr x y local_addr)) Ret"

definition bsg_global_pod_store :: "cfg \<Rightarrow> u32 \<Rightarrow> u32 \<Rightarrow> u32 \<Rightarrow> u32 \<Rightarrow> u32 \<Rightarrow> u32 \<Rightarrow> proc" where
  "bsg_global_pod_store c px py x y local_addr v =
     Act (Store32 (bsg_global_pod_ptr c px py x y local_addr) v) Ret"

definition bsg_global_pod_load :: "cfg \<Rightarrow> u32 \<Rightarrow> u32 \<Rightarrow> u32 \<Rightarrow> u32 \<Rightarrow> u32 \<Rightarrow> proc" where
  "bsg_global_pod_load c px py x y local_addr =
     Act (Load32 (bsg_global_pod_ptr c px py x y local_addr)) Ret"

definition bsg_dram_store :: "u32 \<Rightarrow> u32 \<Rightarrow> proc" where
  "bsg_dram_store dram_addr v = Act (Store32 (bsg_dram_ptr dram_addr) v) Ret"

definition bsg_dram_load :: "u32 \<Rightarrow> proc" where
  "bsg_dram_load dram_addr = Act (Load32 (bsg_dram_ptr dram_addr)) Ret"

definition bsg_host_dram_store :: "u32 \<Rightarrow> u32 \<Rightarrow> proc" where
  "bsg_host_dram_store addr v = Act (Store32 (bsg_host_dram_ptr addr) v) Ret"

definition bsg_host_dram_load :: "u32 \<Rightarrow> proc" where
  "bsg_host_dram_load addr = Act (Load32 (bsg_host_dram_ptr addr)) Ret"

text \<open>Shared arrays of four-byte elements.\<close>

definition bsg_tile_group_shared_load :: "cfg \<Rightarrow> u32 \<Rightarrow> u32 \<Rightarrow> proc" where
  "bsg_tile_group_shared_load c lc_sh index = Act (Load32 (bsg_tile_group_shared_ptr c 4 lc_sh index)) Ret"

definition bsg_tile_group_shared_store :: "cfg \<Rightarrow> u32 \<Rightarrow> u32 \<Rightarrow> u32 \<Rightarrow> proc" where
  "bsg_tile_group_shared_store c lc_sh index v =
     Act (Store32 (bsg_tile_group_shared_ptr c 4 lc_sh index) v) Ret"

definition bsg_remote_store_uint8 :: "u32 \<Rightarrow> u32 \<Rightarrow> u32 \<Rightarrow> u32 \<Rightarrow> proc" where
  "bsg_remote_store_uint8 x y local_addr v = Act (Store8 (bsg_remote_ptr x y local_addr) (ucast v)) Ret"

definition bsg_remote_store_uint16 :: "u32 \<Rightarrow> u32 \<Rightarrow> u32 \<Rightarrow> u32 \<Rightarrow> proc" where
  "bsg_remote_store_uint16 x y local_addr v = Act (Store16 (bsg_remote_ptr x y local_addr) (ucast v)) Ret"

definition bsg_remote_ptr_io_store :: "cfg \<Rightarrow> u32 \<Rightarrow> u32 \<Rightarrow> u32 \<Rightarrow> proc" where
  "bsg_remote_ptr_io_store c x local_addr v = Act (Store32 (bsg_remote_ptr_io c x local_addr) v) Ret"

definition bsg_remote_ptr_io_load :: "cfg \<Rightarrow> u32 \<Rightarrow> u32 \<Rightarrow> proc" where
  "bsg_remote_ptr_io_load c x local_addr = Act (Load32 (bsg_remote_ptr_io c x local_addr)) Ret"

section \<open>Host interface\<close>

text \<open>
  The word \<open>finish\<close>, \<open>fail\<close> and \<open>print_time\<close> send is \<open>(bsg_y << 16) + bsg_x\<close>. The argument
  \<open>(bsg_x, bsg_y)\<close> stands for the per-tile variables set by \<open>bsg_set_tile_x_y\<close>.
\<close>

definition tile_word :: "tile \<Rightarrow> u32" where
  "tile_word t = push_bit 16 (snd t) + fst t"

definition bsg_finish :: "cfg \<Rightarrow> tile \<Rightarrow> proc" where
  "bsg_finish c t = Act (Store32 (bsg_remote_ptr_io c (IO_X_INDEX c) 0xEAD0) (tile_word t)) (\<lambda>_. spin_forever)"

definition bsg_finish_x :: "cfg \<Rightarrow> tile \<Rightarrow> u32 \<Rightarrow> proc" where
  "bsg_finish_x c t x = Act (Store32 (bsg_remote_ptr_io c x 0xEAD0) (tile_word t)) (\<lambda>_. spin_forever)"

definition bsg_fail :: "cfg \<Rightarrow> tile \<Rightarrow> proc" where
  "bsg_fail c t = Act (Store32 (bsg_remote_ptr_io c (IO_X_INDEX c) 0xEAD8) (tile_word t)) (\<lambda>_. spin_forever)"

definition bsg_fail_x :: "cfg \<Rightarrow> tile \<Rightarrow> u32 \<Rightarrow> proc" where
  "bsg_fail_x c t x = Act (Store32 (bsg_remote_ptr_io c x 0xEAD8) (tile_word t)) (\<lambda>_. spin_forever)"

definition bsg_print_time :: "cfg \<Rightarrow> tile \<Rightarrow> proc" where
  "bsg_print_time c t = Act (Store32 (bsg_remote_ptr_io c (IO_X_INDEX c) 0xEAD4) (tile_word t)) Ret"

definition bsg_putchar :: "cfg \<Rightarrow> u8 \<Rightarrow> proc" where
  "bsg_putchar c ch = Act (Store8 (bsg_remote_ptr_io c (IO_X_INDEX c) 0xEADC) ch) Ret"

definition bsg_putchar_err :: "cfg \<Rightarrow> u8 \<Rightarrow> proc" where
  "bsg_putchar_err c ch = Act (Store8 (bsg_remote_ptr_io c (IO_X_INDEX c) 0xEEE0) ch) Ret"

definition bsg_heartbeat_init :: "cfg \<Rightarrow> proc" where
  "bsg_heartbeat_init c = Act (Store32 (bsg_remote_ptr_io c (IO_X_INDEX c) 0xBEA0) 0) Ret"

definition bsg_heartbeat_iter :: "cfg \<Rightarrow> u32 \<Rightarrow> proc" where
  "bsg_heartbeat_iter c itr = Act (Store32 (bsg_remote_ptr_io c (IO_X_INDEX c) 0xBEA4) itr) Ret"

definition bsg_heartbeat_end :: "cfg \<Rightarrow> proc" where
  "bsg_heartbeat_end c = Act (Store32 (bsg_remote_ptr_io c (IO_X_INDEX c) 0xBEA8) 0) Ret"

definition bsg_print_int :: "cfg \<Rightarrow> u32 \<Rightarrow> proc" where
  "bsg_print_int c i = Act (Store32 (bsg_remote_ptr_io c (IO_X_INDEX c) 0xEAE0) i) Ret"

definition bsg_print_unsigned :: "cfg \<Rightarrow> u32 \<Rightarrow> proc" where
  "bsg_print_unsigned c u = Act (Store32 (bsg_remote_ptr_io c (IO_X_INDEX c) 0xEAE4) u) Ret"

definition bsg_print_hexadecimal :: "cfg \<Rightarrow> u32 \<Rightarrow> proc" where
  "bsg_print_hexadecimal c u = Act (Store32 (bsg_remote_ptr_io c (IO_X_INDEX c) 0xEAE8) u) Ret"

definition bsg_print_float :: "cfg \<Rightarrow> u32 \<Rightarrow> proc" where
  "bsg_print_float c f = Act (Store32 (bsg_remote_ptr_io c (IO_X_INDEX c) 0xEAEC) f) Ret"

definition bsg_print_float_scientific :: "cfg \<Rightarrow> u32 \<Rightarrow> proc" where
  "bsg_print_float_scientific c f = Act (Store32 (bsg_remote_ptr_io c (IO_X_INDEX c) 0xEAF0) f) Ret"

definition bsg_saif_start :: "cfg \<Rightarrow> proc" where
  "bsg_saif_start c = bsg_global_store (IO_X_INDEX c) (IO_Y_INDEX c) 0xFFF0 0"

definition bsg_saif_end :: "cfg \<Rightarrow> proc" where
  "bsg_saif_end c = bsg_global_store (IO_X_INDEX c) (IO_Y_INDEX c) 0xFFF4 0"

definition bsg_print_stat :: "cfg \<Rightarrow> u32 \<Rightarrow> proc" where
  "bsg_print_stat c tag = Act (Store32 (bsg_remote_ptr_io c (IO_X_INDEX c) 0xd0c) tag) Ret"

section \<open>Tile numbering\<close>

definition bsg_id_to_x :: "cfg \<Rightarrow> u32 \<Rightarrow> u32" where
  "bsg_id_to_x c tid = c_rem tid (bsg_tiles_X c)"

definition bsg_id_to_y :: "cfg \<Rightarrow> u32 \<Rightarrow> u32" where
  "bsg_id_to_y c tid = c_div tid (bsg_tiles_X c)"

definition bsg_x_y_to_id :: "cfg \<Rightarrow> u32 \<Rightarrow> u32 \<Rightarrow> u32" where
  "bsg_x_y_to_id c x y = bsg_tiles_X c * y + x"

definition bsg_num_tiles :: "cfg \<Rightarrow> u32" where
  "bsg_num_tiles c = bsg_tiles_X c * bsg_tiles_Y c"

section \<open>Wrapped instructions\<close>

definition bsg_lr :: "u32 \<Rightarrow> proc" where
  "bsg_lr p = Act (Lr p) Ret"

definition bsg_lr_aq :: "u32 \<Rightarrow> proc" where
  "bsg_lr_aq p = Act (Lr_aq p) Ret"

definition bsg_li :: "u32 \<Rightarrow> u32" where
  "bsg_li constant_val = constant_val"

text \<open>The \<open>divu\<close> instruction: unsigned, with an all-ones quotient for a zero divisor.\<close>

definition bsg_div :: "u32 \<Rightarrow> u32 \<Rightarrow> u32" where
  "bsg_div a b = (if b = 0 then - 1 else a div b)"

definition bsg_mulu :: "u32 \<Rightarrow> u32 \<Rightarrow> u32" where
  "bsg_mulu a b = a * b"

definition bsg_fence :: proc where
  "bsg_fence = Act Fence Ret"

definition bsg_commit_stores :: proc where
  "bsg_commit_stores = bsg_fence"

definition bsg_amo_prefetch :: "u32 \<Rightarrow> proc" where
  "bsg_amo_prefetch ptr = Act (AmoOr ptr 0) (\<lambda>_. Ret 0)"

definition bsg_lw_prefetch :: "u32 \<Rightarrow> proc" where
  "bsg_lw_prefetch ptr = Act (Load32 ptr) (\<lambda>_. Ret 0)"

text \<open>The interrupt-enable CSRs \<open>mie\<close> and \<open>mstatus\<close> that the profiler switches.\<close>

record csrs =
  mie :: u32
  mstatus :: u32

definition bsg_pc_profiler_start :: "csrs \<Rightarrow> csrs" where
  "bsg_pc_profiler_start r = r\<lparr>mie := mie r OR 0x20000, mstatus := mstatus r OR 0x8\<rparr>"

definition bsg_pc_profiler_end :: "csrs \<Rightarrow> csrs" where
  "bsg_pc_profiler_end r = r\<lparr>mie := mie r AND NOT 0x20000\<rparr>"

section \<open>Atomic memory operations\<close>

text \<open>
  The acquire and release variants order the tile's other accesses around the atomic; in the
  interleaving they perform the same read-modify-write.
\<close>

definition bsg_amoswap :: "u32 \<Rightarrow> u32 \<Rightarrow> proc" where
  "bsg_amoswap p v = Act (AmoSwap p v) Ret"
definition bsg_amoswap_aq :: "u32 \<Rightarrow> u32 \<Rightarrow> proc" where
  "bsg_amoswap_aq p v = Act (AmoSwap p v) Ret"
definition bsg_amoswap_rl :: "u32 \<Rightarrow> u32 \<Rightarrow> proc" where
  "bsg_amoswap_rl p v = Act (AmoSwap p v) Ret"
definition bsg_amoswap_aqrl :: "u32 \<Rightarrow> u32 \<Rightarrow> proc" where
  "bsg_amoswap_aqrl p v = Act (AmoSwap p v) Ret"
definition bsg_amoor :: "u32 \<Rightarrow> u32 \<Rightarrow> proc" where
  "bsg_amoor p v = Act (AmoOr p v) Ret"
definition bsg_amoor_aq :: "u32 \<Rightarrow> u32 \<Rightarrow> proc" where
  "bsg_amoor_aq p v = Act (AmoOr p v) Ret"
definition bsg_amoor_rl :: "u32 \<Rightarrow> u32 \<Rightarrow> proc" where
  "bsg_amoor_rl p v = Act (AmoOr p v) Ret"
definition bsg_amoor_aqrl :: "u32 \<Rightarrow> u32 \<Rightarrow> proc" where
  "bsg_amoor_aqrl p v = Act (AmoOr p v) Ret"
definition bsg_amoadd :: "u32 \<Rightarrow> u32 \<Rightarrow> proc" where
  "bsg_amoadd p v = Act (AmoAdd p v) Ret"
definition bsg_amoadd_aq :: "u32 \<Rightarrow> u32 \<Rightarrow> proc" where
  "bsg_amoadd_aq p v = Act (AmoAdd p v) Ret"
definition bsg_amoadd_rl :: "u32 \<Rightarrow> u32 \<Rightarrow> proc" where
  "bsg_amoadd_rl p v = Act (AmoAdd p v) Ret"
definition bsg_amoadd_aqrl :: "u32 \<Rightarrow> u32 \<Rightarrow> proc" where
  "bsg_amoadd_aqrl p v = Act (AmoAdd p v) Ret"

section \<open>Statistics\<close>

datatype stat_type = ID_START | ID_END | ID_KERNEL_START | ID_KERNEL_END

fun stat_id :: "stat_type \<Rightarrow> u32" where
  "stat_id ID_START = 0"
| "stat_id ID_END = 1"
| "stat_id ID_KERNEL_START = 2"
| "stat_id ID_KERNEL_END = 3"

text \<open>
  The word of \<open>bsg_cuda_print_stat_type\<close>: type, global y, global x, tile-group id and tag, from
  the high bits down, each masked to its width.
\<close>

definition cuda_stat_word :: "u32 \<Rightarrow> u32 \<Rightarrow> u32 \<Rightarrow> u32 \<Rightarrow> u32 \<Rightarrow> u32" where
  "cuda_stat_word stat gy gx tg_id tag =
     push_bit 30 stat OR push_bit 24 (gy AND mask 6) OR push_bit 18 (gx AND mask 6)
       OR push_bit 4 (tg_id AND mask 14) OR (tag AND mask 4)"

record tile_vars =
  bsg_x' :: u32
  bsg_y' :: u32
  bsg_id' :: u32
  bsg_grp_org_x :: u32
  bsg_grp_org_y :: u32
  bsg_grid_dim_x :: u32
  bsg_grid_dim_y :: u32
  bsg_tile_group_id_x :: u32
  bsg_tile_group_id_y :: u32
  bsg_tile_group_id :: u32

definition tile_vars_init :: tile_vars where
  "tile_vars_init = \<lparr>bsg_x' = - 1, bsg_y' = - 1, bsg_id' = - 1, bsg_grp_org_x = - 1, bsg_grp_org_y = - 1,
     bsg_grid_dim_x = - 1, bsg_grid_dim_y = - 1, bsg_tile_group_id_x = - 1, bsg_tile_group_id_y = - 1,
     bsg_tile_group_id = - 1\<rparr>"

definition bsg_cuda_print_stat_type :: "cfg \<Rightarrow> tile_vars \<Rightarrow> u32 \<Rightarrow> u32 \<Rightarrow> proc" where
  "bsg_cuda_print_stat_type c g tag stat =
     bsg_print_stat c (cuda_stat_word stat (bsg_grp_org_y g + bsg_y' g) (bsg_grp_org_x g + bsg_x' g)
       (bsg_tile_group_id g) tag)"

definition bsg_cuda_print_stat_start :: "cfg \<Rightarrow> tile_vars \<Rightarrow> u32 \<Rightarrow> proc" where
  "bsg_cuda_print_stat_start c g tag = bsg_cuda_print_stat_type c g tag (stat_id ID_START)"

definition bsg_cuda_print_stat_end :: "cfg \<Rightarrow> tile_vars \<Rightarrow> u32 \<Rightarrow> proc" where
  "bsg_cuda_print_stat_end c g tag = bsg_cuda_print_stat_type c g tag (stat_id ID_END)"

definition bsg_cuda_print_stat_kernel_start :: "cfg \<Rightarrow> tile_vars \<Rightarrow> proc" where
  "bsg_cuda_print_stat_kernel_start c g = bsg_cuda_print_stat_type c g 0 (stat_id ID_KERNEL_START)"

definition bsg_cuda_print_stat_kernel_end :: "cfg \<Rightarrow> tile_vars \<Rightarrow> proc" where
  "bsg_cuda_print_stat_kernel_end c g = bsg_cuda_print_stat_type c g 0 (stat_id ID_KERNEL_END)"

section \<open>Fields and numbering\<close>

lemma bit_stat_word:
  "bit (cuda_stat_word st gy gx tg tag) n \<longleftrightarrow> n < 32 \<and>
    (30 \<le> n \<and> bit st (n - 30) \<or> 24 \<le> n \<and> n < 30 \<and> bit gy (n - 24) \<or> 18 \<le> n \<and> n < 24 \<and> bit gx (n - 18)
     \<or> 4 \<le> n \<and> n < 18 \<and> bit tg (n - 4) \<or> n < 4 \<and> bit tag n)"
proof (cases "n < 32")
  case True
  then consider "n < 4" | "4 \<le> n" "n < 18" | "18 \<le> n" "n < 24" | "24 \<le> n" "n < 30" | "30 \<le> n" "n < 32"
    by fastforce
  then show ?thesis
    by cases (simp_all add: cuda_stat_word_def bit_simps less_diff_conv2)
qed (auto dest: bit_imp_le_length)

lemma cuda_stat_word_fields:
  assumes "unat st < 4"
  shows "drop_bit 30 (cuda_stat_word st gy gx tg tag) = st
    \<and> take_bit 6 (drop_bit 24 (cuda_stat_word st gy gx tg tag)) = take_bit 6 gy
    \<and> take_bit 6 (drop_bit 18 (cuda_stat_word st gy gx tg tag)) = take_bit 6 gx
    \<and> take_bit 14 (drop_bit 4 (cuda_stat_word st gy gx tg tag)) = take_bit 14 tg
    \<and> take_bit 4 (cuda_stat_word st gy gx tg tag) = take_bit 4 tag"
proof -
  have f: "n < 2" if "bit st n" for n
    using bit_field_False [of st 2 n] assms that by fastforce
  show ?thesis
    by (intro conjI bit_word_eqI; (auto simp: bit_simps bit_stat_word dest: f))
qed

lemma tile_id_roundtrip:
  assumes "group_fits c" and "in_group c (x, y)"
  shows "bsg_id_to_x c (bsg_x_y_to_id c x y) = x \<and> bsg_id_to_y c (bsg_x_y_to_id c x y) = y
    \<and> bsg_x_y_to_id c x y < bsg_num_tiles c"
proof -
  let ?X = "unat (bsg_tiles_X c)" and ?Y = "unat (bsg_tiles_Y c)"
  note g = group_fits_nat [OF assms(1)]
  have xy: "unat x < ?X" "unat y < ?Y" using assms(2) by (auto simp: in_group_def word_less_nat_alt)
  have le: "?X * unat y + unat x < ?X * ?Y"
  proof -
    have "?X * unat y + unat x < ?X * unat y + ?X" using xy by simp
    also have "\<dots> = ?X * Suc (unat y)" by simp
    also have "\<dots> \<le> ?X * ?Y" using xy by (intro mult_le_mono) auto
    finally show ?thesis .
  qed
  moreover have "?X * ?Y \<le> 2048" using mult_le_mono [OF g(2) g(4)] by simp
  ultimately have i: "unat (bsg_x_y_to_id c x y) = ?X * unat y + unat x"
    and n: "unat (bsg_num_tiles c) = ?X * ?Y"
    by (simp_all add: bsg_x_y_to_id_def bsg_num_tiles_def unat_word_ariths)
  have b: "unat (bsg_x_y_to_id c x y) < 2 ^ 31" using i le \<open>?X * ?Y \<le> 2048\<close> by simp
  show ?thesis
    using g xy i n le b
    by (simp add: word_unat_eq_iff word_less_nat_alt bsg_id_to_x_def bsg_id_to_y_def unat_c_rem unat_c_div)
qed

section \<open>Reports to the host\<close>

definition io_fits :: "cfg \<Rightarrow> bool" where
  "io_fits c \<longleftrightarrow> unat (IO_X_INDEX c) < 128 \<and> unat (IO_Y_INDEX c) < 128"

lemma eval_spin_forever: "eval n c t spin_forever m = None"
  by (induction n) (auto simp: spin_forever_def)

lemma eva_io:
  assumes "io_fits c" and "unat a < 2 ^ 16"
  shows "eva_to_npa c t (bsg_remote_ptr_io c (IO_X_INDEX c) a) = Endpoint (IO_X_INDEX c) (IO_Y_INDEX c) a"
  using assms eva_global by (simp add: bsg_remote_ptr_io_def io_fits_def)

lemma bsg_finish_reports:
  assumes "io_fits c"
  shows "io (snd (pstep c t (bsg_finish c t, m))) = io m @ [(IO_X_INDEX c, 0xEAD0, tile_word t)]
    \<and> (\<forall>n. eval n c t (bsg_finish c t) m = None)"
proof -
  have "eval n c t (bsg_finish c t) m = None" for n
    by (cases n) (auto simp: bsg_finish_def eval_spin_forever)
  then show ?thesis
    by (simp add: bsg_finish_def put32_def eva_io [OF assms] io_log_def)
qed

lemma tile_word_decode:
  assumes "unat (fst t) < 2 ^ 16" and "unat (snd t) < 2 ^ 16"
  shows "take_bit 16 (tile_word t) = fst t \<and> drop_bit 16 (tile_word t) = snd t"
proof -
  have f: "n < 16" if "bit (fst t) n" for n
    using bit_field_False [OF assms(1), of n] that by fastforce
  have d: "tile_word t = push_bit 16 (snd t) OR fst t"
    unfolding tile_word_def by (intro disjunctive_add) (auto simp: bit_simps dest: f)
  have g: "n < 16" if "bit (snd t) n" for n
    using bit_field_False [OF assms(2), of n] that by fastforce
  show ?thesis
    unfolding d by (intro conjI bit_word_eqI; (fastforce simp: bit_simps dest: f g))
qed

section \<open>Shared arrays\<close>

text \<open>Element \<open>i\<close> of a shared word array at local address \<open>lc\<close> is inside every tile's 18-bit space.\<close>

definition shared_fits :: "cfg \<Rightarrow> u32 \<Rightarrow> nat \<Rightarrow> bool" where
  "shared_fits c lc i \<longleftrightarrow> i < 2 ^ 31 \<and> unat lc + 4 * snd (shared_slot c i) + 4 \<le> 2 ^ 18"

lemma shared_ptr_word:
  assumes "group_fits c" and "shared_fits c lc i"
  shows "eva_to_npa c t (bsg_tile_group_shared_ptr c 4 lc (of_nat i))
    = tile_npa c (fst (shared_slot c i)) (lc + 4 * of_nat (snd (shared_slot c i)))"
  using shared_ptr_slot [OF assms(1), of i lc 4 t] assms(2) by (simp add: shared_fits_def)

lemma shared_words_disjoint:
  assumes "group_fits c" and "shared_fits c lc i" and "shared_fits c lc j" and "i \<noteq> j"
  shows "span4 (tile_npa c (fst (shared_slot c i)) (lc + 4 * of_nat (snd (shared_slot c i))))
    \<inter> span4 (tile_npa c (fst (shared_slot c j)) (lc + 4 * of_nat (snd (shared_slot c j)))) = {}"
proof (rule span4_tile_disjoint [OF assms(1) shared_slot_in_group shared_slot_in_group, OF assms(1) assms(1)])
  let ?a = "\<lambda>i. lc + 4 * of_nat (snd (shared_slot c i))"
  show "fst (shared_slot c i) \<noteq> fst (shared_slot c j) \<or> sep4 (?a i) (?a j)"
  proof (cases "fst (shared_slot c i) = fst (shared_slot c j)")
    case True
    then have "snd (shared_slot c i) \<noteq> snd (shared_slot c j)"
      using shared_slot_inj [OF assms(1), of i j] assms(4) by (auto simp: prod_eq_iff)
    then have "4 * snd (shared_slot c i) + 4 \<le> 4 * snd (shared_slot c j)
      \<or> 4 * snd (shared_slot c j) + 4 \<le> 4 * snd (shared_slot c i)" by linarith
    moreover have "unat (?a i) = unat lc + 4 * snd (shared_slot c i)" "unat (?a j) = unat lc + 4 * snd (shared_slot c j)"
      using assms(2,3) by (simp_all add: shared_fits_def unat_word_ariths unat_of_nat)
    moreover have "unat lc + 4 * snd (shared_slot c i) + 4 \<le> 2 ^ 32" "unat lc + 4 * snd (shared_slot c j) + 4 \<le> 2 ^ 32"
      using assms(2,3) by (simp_all add: shared_fits_def)
    ultimately show ?thesis by - (rule disjI2, rule sep4_far, linarith+)
  qed simp
qed

text \<open>
  C4: element \<open>i\<close> of a tile-group shared array, stored by any tile, is read back by every tile,
  and the store changes no other element.
\<close>

lemma shared_store_load:
  assumes "group_fits c" and "shared_fits c lc i" and "shared_fits c lc j" and "i \<noteq> j"
  shows "\<exists>m'. eval 2 c t (bsg_tile_group_shared_store c lc (of_nat i) v) m = Some (0, m')
    \<and> eval 2 c t' (bsg_tile_group_shared_load c lc (of_nat i)) m' = Some (v, m')
    \<and> map_option fst (eval 2 c t' (bsg_tile_group_shared_load c lc (of_nat j)) m')
      = map_option fst (eval 2 c t' (bsg_tile_group_shared_load c lc (of_nat j)) m)"
  using shared_words_disjoint [OF assms(1,3,2)] assms(4)
  by (simp add: numeral_2_eq_2 bsg_tile_group_shared_store_def bsg_tile_group_shared_load_def
      shared_ptr_word [OF assms(1,2)] shared_ptr_word [OF assms(1,3)] flip: rd_def)

lemma shared_store_load_witness:
  "\<exists>m'. eval 2 small_cfg (0, 0) (bsg_tile_group_shared_store small_cfg 64 3 7) zero_machine = Some (0, m')
    \<and> eval 2 small_cfg (1, 1) (bsg_tile_group_shared_load small_cfg 64 3) m' = Some (7, m')"
proof -
  have s: "shared_fits small_cfg 64 3" "shared_fits small_cfg 64 4"
    by (simp_all add: shared_fits_def shared_slot_def small_cfg_def)
  show ?thesis
    using shared_store_load [OF small_cfg_fits s, of "(0, 0)" 7 zero_machine "(1, 1)"] by auto
qed

text \<open>
  Every tile's part of a shared array of \<open>n\<close> elements, \<open>bsg_tile_group_shared_mem\<close>, holds all
  the elements the index arithmetic places in it.
\<close>

lemma shared_index_in_part:
  assumes "group_fits c" and "unat n < 2 ^ 30" and "i < unat n"
  shows "snd (shared_slot c i) < unat (bsg_tile_group_shared_mem_len c n)"
proof -
  let ?N = "unat (bsg_tiles_X c) * unat (bsg_tiles_Y c)"
  note g = group_fits_nat [OF assms(1)]
  have N: "?N \<le> 2048" "0 < ?N" using mult_le_mono [OF g(2) g(4)] g by simp_all
  then have u: "unat (bsg_tiles_X c * bsg_tiles_Y c) = ?N" by (simp add: unat_word_ariths)
  have "1 \<le> bsg_tiles_X c * bsg_tiles_Y c" using u N by (simp add: word_le_nat_alt)
  then have "unat (bsg_tiles_X c * bsg_tiles_Y c - 1) = ?N - 1" by (simp add: unat_sub u)
  then have s: "unat (n + (bsg_tiles_X c * bsg_tiles_Y c - 1)) = unat n + (?N - 1)"
    using assms(2) N by (simp add: unat_word_ariths)
  have "unat (bsg_tile_group_shared_mem_len c n) = (unat n + (?N - 1)) div ?N"
    using s u N assms(2) by (simp add: bsg_tile_group_shared_mem_len_def unat_c_div)
  moreover have "Suc (i div ?N) = (i + ?N) div ?N" using N(2) div_add_self2 [of ?N i] by linarith
  moreover have "(i + ?N) div ?N \<le> (unat n + (?N - 1)) div ?N"
    using assms(3) N by (intro div_le_mono) simp
  ultimately show ?thesis by (simp add: shared_slot_def Let_def)
qed

lemma shared_index_in_part_witness:
  "snd (shared_slot small_cfg 9) < unat (bsg_tile_group_shared_mem_len small_cfg 10)"
  by (rule shared_index_in_part) simp_all

end
