(* ===== verification/Mutex.thy ===== *)
theory Mutex
  imports Manycore
begin

text \<open>
  \<open>bsg_mutex.h\<close>: the spin lock on an atomic swap, the wait on a local word, and the locked
  increment. Interleaved on any number of tiles, at most one tile is between lock and unlock, and
  no increment is lost.
\<close>

section \<open>The code\<close>

definition bsg_mutex_lock_fail :: u32 where "bsg_mutex_lock_fail = 1"
definition bsg_mutex_lock_success :: u32 where "bsg_mutex_lock_success = 0"

definition bsg_wait_local_int :: "u32 \<Rightarrow> u32 \<Rightarrow> proc" where
  "bsg_wait_local_int ptr cond =
     Loop (bind (bsg_lr ptr) (\<lambda>tmp. if tmp = cond then Ret tmp else bsg_lr_aq ptr))
       (\<lambda>tmp. tmp = cond) Ret"

definition bsg_mutex_try_lock :: "u32 \<Rightarrow> proc" where
  "bsg_mutex_try_lock p_mutex = Act (AmoSwap p_mutex 1) Ret"

definition bsg_mutex_lock :: "u32 \<Rightarrow> proc" where
  "bsg_mutex_lock p_mutex =
     Loop (bsg_mutex_try_lock p_mutex) (\<lambda>result. result \<noteq> bsg_mutex_lock_fail) (\<lambda>_. Ret 0)"

definition bsg_mutex_unlock :: "u32 \<Rightarrow> proc" where
  "bsg_mutex_unlock p_mutex = Act (AmoSwap p_mutex 0) (\<lambda>_. Ret 0)"

definition bsg_atomic_inc :: "u32 \<Rightarrow> u32 \<Rightarrow> proc" where
  "bsg_atomic_inc p_mutex p_value =
     seq (bsg_mutex_lock p_mutex)
       (Act (Load32 p_value) (\<lambda>value.
         seq (Act (Store32 p_value (value + 1)) Ret) (bsg_mutex_unlock p_mutex)))"

section \<open>One tile\<close>

lemma bsg_mutex_lock_free:
  assumes "rd m (eva_to_npa c t p) = 0"
  shows "eval 3 c t (bsg_mutex_lock p) m = Some (0, put32 c (eva_to_npa c t p) 1 m)"
  using assms
  by (simp add: numeral_3_eq_3 bsg_mutex_lock_def bsg_mutex_try_lock_def bsg_mutex_lock_fail_def Let_def
      flip: rd_def)

text \<open>While another tile holds the lock, a round of the spin loop leaves it as it was.\<close>

lemma bsg_mutex_lock_busy:
  assumes "rd m (eva_to_npa c t p) = 1"
  shows "\<exists>m'. (pstep c t ^^ 2) (bsg_mutex_lock p, m) = (bsg_mutex_lock p, m')
    \<and> rd m' (eva_to_npa c t p) = 1"
  using assms
  by (simp add: numeral_2_eq_2 bsg_mutex_lock_def bsg_mutex_try_lock_def bsg_mutex_lock_fail_def Let_def
      flip: rd_def)

lemma bsg_wait_local_int_ready:
  assumes "rd m (eva_to_npa c t p) = cond"
  shows "eval 3 c t (bsg_wait_local_int p cond) m = Some (cond, m)"
  using assms by (simp add: numeral_3_eq_3 bsg_wait_local_int_def bsg_lr_def flip: rd_def)

section \<open>Many tiles: control states\<close>

text \<open>
  The workload: tile \<open>t\<close> calls \<open>bsg_atomic_inc\<close> on the shared counter \<open>n t\<close> times.
\<close>

definition inc_times :: "u32 \<Rightarrow> u32 \<Rightarrow> nat \<Rightarrow> proc" where
  "inc_times p v k = for_each (replicate k ()) (\<lambda>_. bsg_atomic_inc p v)"

text \<open>
  \<open>Enter k\<close>: before the lock with \<open>k\<close> increments to do; \<open>Swap k\<close>: about to swap, \<open>k\<close> more after
  this one; \<open>Read\<close>, \<open>Write\<close>, \<open>Unlock\<close>: inside the critical section.
\<close>

datatype inc_state = Enter nat | Swap nat | Read nat | Write nat u32 | Unlock nat

fun inc_prog :: "u32 \<Rightarrow> u32 \<Rightarrow> inc_state \<Rightarrow> proc" where
  "inc_prog p v (Enter k) = inc_times p v k"
| "inc_prog p v (Unlock k) = Act (AmoSwap p 0) (\<lambda>_. inc_times p v k)"
| "inc_prog p v (Write k x) = Act (Store32 v (x + 1)) (\<lambda>_. Act (AmoSwap p 0) (\<lambda>_. inc_times p v k))"
| "inc_prog p v (Read k) =
     Act (Load32 v) (\<lambda>x. Act (Store32 v (x + 1)) (\<lambda>_. Act (AmoSwap p 0) (\<lambda>_. inc_times p v k)))"
| "inc_prog p v (Swap k) =
     Act (AmoSwap p 1) (\<lambda>r. if r \<noteq> 1 then
       Act (Load32 v) (\<lambda>x. Act (Store32 v (x + 1)) (\<lambda>_. Act (AmoSwap p 0) (\<lambda>_. inc_times p v k)))
       else inc_times p v (Suc k))"

fun inc_next :: "cfg \<Rightarrow> npa \<Rightarrow> npa \<Rightarrow> inc_state \<Rightarrow> machine \<Rightarrow> inc_state \<times> machine" where
  "inc_next c P V (Enter 0) m = (Enter 0, m)"
| "inc_next c P V (Enter (Suc k)) m = (Swap k, m)"
| "inc_next c P V (Swap k) m = (if rd m P \<noteq> 1 then Read k else Enter (Suc k), put32 c P 1 m)"
| "inc_next c P V (Read k) m = (Write k (rd m V), m)"
| "inc_next c P V (Write k x) m = (Unlock k, put32 c V (x + 1) m)"
| "inc_next c P V (Unlock k) m = (Enter k, put32 c P 0 m)"

fun in_crit :: "inc_state \<Rightarrow> bool" where
  "in_crit (Enter k) = False"
| "in_crit (Swap k) = False"
| "in_crit (Read k) = True"
| "in_crit (Write k x) = True"
| "in_crit (Unlock k) = True"

fun inc_left :: "inc_state \<Rightarrow> nat" where
  "inc_left (Enter k) = k"
| "inc_left (Swap k) = Suc k"
| "inc_left (Read k) = Suc k"
| "inc_left (Write k x) = Suc k"
| "inc_left (Unlock k) = k"

definition group_tiles :: "cfg \<Rightarrow> tile set" where
  "group_tiles c = {t. in_group c t}"

definition work_left :: "cfg \<Rightarrow> (tile \<Rightarrow> inc_state) \<Rightarrow> nat" where
  "work_left c qs = (\<Sum>t \<in> group_tiles c. inc_left (qs t))"

definition shared_at :: "cfg \<Rightarrow> u32 \<Rightarrow> npa \<Rightarrow> bool" where
  "shared_at c p P \<longleftrightarrow> (\<forall>t. in_group c t \<longrightarrow> eva_to_npa c t p = P)"

definition crit_set :: "cfg \<Rightarrow> (tile \<Rightarrow> inc_state) \<Rightarrow> tile set" where
  "crit_set c qs = {t. in_group c t \<and> in_crit (qs t)}"

definition inc_inv :: "cfg \<Rightarrow> u32 \<Rightarrow> u32 \<Rightarrow> npa \<Rightarrow> npa \<Rightarrow> u32 \<Rightarrow> (tile \<Rightarrow> inc_state) \<Rightarrow> machine \<Rightarrow> bool" where
  "inc_inv c p v P V tot qs m \<longleftrightarrow>
     shared_at c p P \<and> shared_at c v V \<and> span4 P \<inter> span4 V = {}
     \<and> (rd m P = 0 \<and> crit_set c qs = {} \<or> rd m P = 1 \<and> (\<exists>h. crit_set c qs = {h}))
     \<and> (\<forall>t \<in> crit_set c qs. \<forall>k x. qs t = Write k x \<longrightarrow> rd m V = x)
     \<and> rd m V + of_nat (work_left c qs) = tot"

lemma finite_group_tiles [simp]: "finite (group_tiles c)"
  by (rule finite_subset [of _ UNIV]) auto

lemma sum_fun_upd:
  fixes f :: "'q \<Rightarrow> nat"
  assumes "finite A" and "t \<in> A"
  shows "(\<Sum>x \<in> A. f ((qs(t := q)) x)) + f (qs t) = (\<Sum>x \<in> A. f (qs x)) + f q"
proof -
  have "(\<Sum>x \<in> A - {t}. f ((qs(t := q)) x)) = (\<Sum>x \<in> A - {t}. f (qs x))"
    by (rule sum.cong) auto
  then show ?thesis
    using assms by (simp add: sum.remove [OF assms])
qed

lemma work_left_upd:
  "in_group c t \<Longrightarrow> work_left c (qs(t := q)) + inc_left (qs t) = work_left c qs + inc_left q"
  unfolding work_left_def by (rule sum_fun_upd) (auto simp: group_tiles_def)

lemma crit_set_upd:
  "in_group c t \<Longrightarrow> crit_set c (qs(t := q)) = (if in_crit q then insert t (crit_set c qs) else crit_set c qs - {t})"
  by (auto simp: crit_set_def)

lemma inc_times_0: "inc_times p v 0 = Ret 0"
  by (simp add: inc_times_def)

lemma inc_times_Suc:
  "inc_times p v (Suc k) = Loop (Act (AmoSwap p 1) Ret) (\<lambda>r. r \<noteq> 1)
     (\<lambda>_. Act (Load32 v) (\<lambda>x. Act (Store32 v (x + 1)) (\<lambda>_. Act (AmoSwap p 0) (\<lambda>_. inc_times p v k))))"
  by (simp add: inc_times_def bsg_atomic_inc_def bsg_mutex_lock_def bsg_mutex_try_lock_def
      bsg_mutex_unlock_def bsg_mutex_lock_fail_def)

lemma inc_code_step:
  assumes "in_group c t" and "shared_at c p P" and "shared_at c v V"
  shows "pstep c t (inc_prog p v q, m) = (inc_prog p v (fst (inc_next c P V q m)), snd (inc_next c P V q m))"
proof -
  have e: "eva_to_npa c t p = P" "eva_to_npa c t v = V"
    using assms by (simp_all add: shared_at_def)
  show ?thesis
  proof (cases q)
    case (Enter k)
    then show ?thesis
      by (cases k) (auto simp: fun_eq_iff inc_times_Suc inc_times_0)
  qed (simp_all add: e Let_def rd_def inc_times_Suc)
qed

lemma inc_inv_step:
  assumes t: "in_group c t" and I: "inc_inv c p v P V tot qs m" and n: "inc_next c P V (qs t) m = (q', m')"
  shows "inc_inv c p v P V tot (qs(t := q')) m'"
proof -
  note w = work_left_upd [OF t, of qs q'] and cs = crit_set_upd [OF t, of qs q']
  have ct: "t \<in> crit_set c qs \<longleftrightarrow> in_crit (qs t)" using t by (simp add: crit_set_def)
  show ?thesis
  proof (cases "qs t")
    case (Enter k)
    have q: "inc_left q' = k \<and> \<not> in_crit q' \<and> m' = m"
      using n unfolding Enter by (cases k) auto
    then have "work_left c (qs(t := q')) = work_left c qs" "crit_set c (qs(t := q')) = crit_set c qs"
      using w cs ct Enter by auto
    with q show ?thesis using I ct Enter unfolding inc_inv_def by auto
  next
    case (Swap k)
    then have q: "q' = (if rd m P \<noteq> 1 then Read k else Enter (Suc k))" "m' = put32 c P 1 m"
      using n by auto
    then have "work_left c (qs(t := q')) = work_left c qs" using w Swap by auto
    with q show ?thesis using I ct Swap unfolding inc_inv_def cs by (auto simp: Int_commute)
  next
    case (Read k)
    then have q: "q' = Write k (rd m V)" "m' = m" using n by auto
    then have "work_left c (qs(t := q')) = work_left c qs" using w Read by auto
    with q show ?thesis using I ct Read unfolding inc_inv_def cs by auto
  next
    case (Write k x)
    then have q: "q' = Unlock k" "m' = put32 c V (x + 1) m" using n by auto
    then have e: "work_left c qs = work_left c (qs(t := q')) + 1" using w Write by auto
    with q show ?thesis using I ct Write unfolding inc_inv_def cs by auto
  next
    case (Unlock k)
    then have q: "q' = Enter k" "m' = put32 c P 0 m" using n by auto
    then have "work_left c (qs(t := q')) = work_left c qs" using w Unlock by auto
    with q show ?thesis using I ct Unlock unfolding inc_inv_def cs by (auto simp: Int_commute)
  qed
qed

interpretation inc: control_points c "\<lambda>t. inc_prog p v" "\<lambda>t. inc_next c P V" "inc_inv c p v P V tot"
  for c p v P V tot
proof unfold_locales
  fix t qs m
  assume "in_group c t" "inc_inv c p v P V tot qs m"
  then show "pstep c t (inc_prog p v (qs t), m)
    = (inc_prog p v (fst (inc_next c P V (qs t) m)), snd (inc_next c P V (qs t) m))"
    by (intro inc_code_step) (auto simp: inc_inv_def)
qed (rule inc_inv_step)

lemma inc_inv_start:
  assumes "shared_at c p P" and "shared_at c v V" and "span4 P \<inter> span4 V = {}" and "rd m0 P = 0"
  shows "inc_inv c p v P V (rd m0 V + of_nat (\<Sum>t \<in> group_tiles c. n t)) (\<lambda>t. Enter (n t)) m0"
  using assms by (simp add: inc_inv_def crit_set_def work_left_def)

lemma inc_reachable:
  assumes "shared_at c p P" and "shared_at c v V" and "span4 P \<inter> span4 V = {}" and "rd m0 P = 0"
    and "reachable c (\<lambda>t. inc_times p v (n t), m0) s"
  obtains qs where "fst s = (\<lambda>t. inc_prog p v (qs t))"
    and "inc_inv c p v P V (rd m0 V + of_nat (\<Sum>t \<in> group_tiles c. n t)) qs (snd s)"
  using inc.reachable_inv [of c p v "\<lambda>t. Enter (n t)" m0 s P V] inc_inv_start [OF assms(1-4)] assms(5)
  by auto

section \<open>Mutual exclusion and the counter\<close>

text \<open>A tile is in the critical section when its next instruction is one that the lock protects.\<close>

definition next_op :: "proc \<Rightarrow> memop option" where
  "next_op pr = (case pr of Act a k \<Rightarrow> Some a | _ \<Rightarrow> None)"

definition in_critical :: "u32 \<Rightarrow> u32 \<Rightarrow> proc \<Rightarrow> bool" where
  "in_critical p v pr \<longleftrightarrow> next_op pr = Some (Load32 v) \<or> (\<exists>w. next_op pr = Some (Store32 v w))
     \<or> next_op pr = Some (AmoSwap p 0)"

definition finished :: "cfg \<Rightarrow> sys \<Rightarrow> bool" where
  "finished c s \<longleftrightarrow> (\<forall>t. in_group c t \<longrightarrow> (\<exists>r. fst s t = Ret r))"

lemma in_critical_prog: "in_critical p v (inc_prog p v q) \<longleftrightarrow> in_crit q"
proof (cases q)
  case (Enter k)
  then show ?thesis by (cases k) (auto simp: in_critical_def next_op_def inc_times_0 inc_times_Suc)
qed (auto simp: in_critical_def next_op_def)

lemma inc_prog_Ret: "inc_prog p v q = Ret r \<Longrightarrow> q = Enter 0"
proof (cases q)
  case (Enter k)
  then show "inc_prog p v q = Ret r \<Longrightarrow> q = Enter 0" by (cases k) (auto simp: inc_times_Suc)
qed auto

text \<open>
  C1: at most one tile is inside the critical section of \<open>bsg_atomic_inc\<close>, however many tiles run
  it, however often, and however their steps interleave.
\<close>

lemma mutual_exclusion:
  assumes "shared_at c p P" and "shared_at c v V" and "span4 P \<inter> span4 V = {}" and "rd m0 P = 0"
    and "reachable c (\<lambda>t. inc_times p v (n t), m0) s"
    and "in_group c t" and "in_critical p v (fst s t)" and "in_group c t'" and "in_critical p v (fst s t')"
  shows "t = t'"
proof -
  obtain qs where "fst s = (\<lambda>t. inc_prog p v (qs t))"
    and I: "inc_inv c p v P V (rd m0 V + of_nat (\<Sum>t \<in> group_tiles c. n t)) qs (snd s)"
    using inc_reachable [OF assms(1-5)] .
  then have "t \<in> crit_set c qs" "t' \<in> crit_set c qs"
    using assms(6-9) by (auto simp: crit_set_def in_critical_prog)
  then show ?thesis using I by (auto simp: inc_inv_def)
qed

text \<open>
  C2: when all tiles have returned, the counter has advanced by the number of calls made (modulo
  \<open>2\<^sup>3\<^sup>2\<close>), and the lock is free.
\<close>

lemma no_lost_increment:
  assumes "shared_at c p P" and "shared_at c v V" and "span4 P \<inter> span4 V = {}" and "rd m0 P = 0"
    and "reachable c (\<lambda>t. inc_times p v (n t), m0) s" and "finished c s"
  shows "rd (snd s) V = rd m0 V + of_nat (\<Sum>t \<in> group_tiles c. n t) \<and> rd (snd s) P = 0"
proof -
  obtain qs where p: "fst s = (\<lambda>t. inc_prog p v (qs t))"
    and I: "inc_inv c p v P V (rd m0 V + of_nat (\<Sum>t \<in> group_tiles c. n t)) qs (snd s)"
    using inc_reachable [OF assms(1-5)] .
  then have q: "qs t = Enter 0" if "in_group c t" for t
    using assms(6) that unfolding finished_def by (metis inc_prog_Ret)
  then have "crit_set c qs = {}" "work_left c qs = 0"
    by (auto simp: crit_set_def work_left_def group_tiles_def)
  then show ?thesis using I by (auto simp: inc_inv_def)
qed

section \<open>No deadlock\<close>

fun inc_rank :: "inc_state \<Rightarrow> nat" where
  "inc_rank (Enter k) = 6 * k"
| "inc_rank (Swap k) = 6 * k + 5"
| "inc_rank (Read k) = 6 * k + 4"
| "inc_rank (Write k x) = 6 * k + 3"
| "inc_rank (Unlock k) = 6 * k + 2"

lemma inc_progress_tile:
  assumes "inc_inv c p v P V tot qs m" and "in_group c t0" and "qs t0 \<noteq> Enter 0"
  shows "\<exists>t. in_group c t \<and> inc_rank (fst (inc_next c P V (qs t) m)) < inc_rank (qs t)"
proof (cases "crit_set c qs = {}")
  case True
  then have "\<not> in_crit (qs t0)" "rd m P = 0" using assms by (auto simp: crit_set_def inc_inv_def)
  then have "inc_rank (fst (inc_next c P V (qs t0) m)) < inc_rank (qs t0)"
    using assms(3) by (cases "qs t0") (auto simp: gr0_conv_Suc elim: inc_next.elims split: nat.splits)
  then show ?thesis using assms(2) by blast
next
  case False
  then obtain t where "in_group c t" "in_crit (qs t)" by (auto simp: crit_set_def)
  then show ?thesis by (intro exI [of _ t]) (cases "qs t"; auto)
qed

definition rank_sum :: "cfg \<Rightarrow> (tile \<Rightarrow> inc_state) \<Rightarrow> nat" where
  "rank_sum c qs = (\<Sum>t \<in> group_tiles c. inc_rank (qs t))"

lemma rank_sum_less:
  assumes "in_group c t" and "inc_rank q < inc_rank (qs t)"
  shows "rank_sum c (qs(t := q)) < rank_sum c qs"
  using sum_fun_upd [of "group_tiles c" t inc_rank qs q] assms by (simp add: rank_sum_def group_tiles_def)

lemma inc_can_finish:
  assumes "inc_inv c p v P V tot qs m"
  shows "\<exists>s'. reachable c (\<lambda>t. inc_prog p v (qs t), m) s' \<and> finished c s'"
proof -
  have "\<exists>qs' m'. reachable c (\<lambda>t. inc_prog p v (qs t), m) (\<lambda>t. inc_prog p v (qs' t), m')
    \<and> inc_inv c p v P V tot qs' m' \<and> (\<forall>t. in_group c t \<longrightarrow> qs' t = Enter 0)"
  proof (rule inc.can_reach [OF assms, where rank = "rank_sum c"])
    fix qs m
    assume "inc_inv c p v P V tot qs m" "\<not> (\<forall>t. in_group c t \<longrightarrow> qs t = Enter 0)"
    then show "\<exists>t. in_group c t \<and> rank_sum c (qs(t := fst (inc_next c P V (qs t) m))) < rank_sum c qs"
      using inc_progress_tile rank_sum_less by blast
  qed
  then obtain qs' m' where r: "reachable c (\<lambda>t. inc_prog p v (qs t), m) (\<lambda>t. inc_prog p v (qs' t), m')"
    and "\<forall>t. in_group c t \<longrightarrow> qs' t = Enter 0" by blast
  then have "finished c (\<lambda>t. inc_prog p v (qs' t), m')" by (auto simp: finished_def inc_times_0)
  then show ?thesis using r by blast
qed

text \<open>C3: the lock never blocks all tiles: from every reachable state the workload can be completed.\<close>

lemma no_deadlock:
  assumes "shared_at c p P" and "shared_at c v V" and "span4 P \<inter> span4 V = {}" and "rd m0 P = 0"
    and "reachable c (\<lambda>t. inc_times p v (n t), m0) s"
  shows "\<exists>s'. reachable c s s' \<and> finished c s'"
proof -
  obtain qs where p: "fst s = (\<lambda>t. inc_prog p v (qs t))"
    and I: "inc_inv c p v P V (rd m0 V + of_nat (\<Sum>t \<in> group_tiles c. n t)) qs (snd s)"
    using inc_reachable [OF assms] .
  obtain ps m where s: "s = (ps, m)" by (cases s)
  show ?thesis using inc_can_finish [OF I] p unfolding s by simp
qed

section \<open>An instance\<close>

definition ex_mutex :: u32 where "ex_mutex = bsg_dram_ptr 0"
definition ex_count :: u32 where "ex_count = bsg_dram_ptr 4"

lemma ex_shared: "shared_at small_cfg ex_mutex (Dram 0)" "shared_at small_cfg ex_count (Dram 4)"
  "span4 (Dram 0) \<inter> span4 (Dram 4) = {}"
  by (simp_all add: shared_at_def ex_mutex_def ex_count_def eva_dram span4_def)

text \<open>Tile (0,0) has taken the lock; tile (1,0) is then not in the critical section.\<close>

lemma mutual_exclusion_witness:
  "\<exists>s. reachable small_cfg (\<lambda>t. inc_times ex_mutex ex_count 1, zero_machine) s
     \<and> in_critical ex_mutex ex_count (fst s (0, 0)) \<and> \<not> in_critical ex_mutex ex_count (fst s (1, 0))"
proof -
  let ?ps = "\<lambda>t :: tile. inc_times ex_mutex ex_count 1"
  let ?r = "(pstep small_cfg (0, 0) ^^ 2) (?ps (0, 0), zero_machine)"
  let ?s = "(?ps((0, 0) := fst ?r), snd ?r)"
  have g: "in_group small_cfg (0, 0)" "in_group small_cfg (1, 0)"
    by (simp_all add: in_group_def small_cfg_def)
  have r: "reachable small_cfg (?ps, zero_machine) ?s"
    by (rule reachable_tile_steps [OF g(1)])
  have i: "in_critical ex_mutex ex_count (fst ?s (0, 0))"
    by (simp add: numeral_2_eq_2 inc_times_Suc [of _ _ 0, simplified] in_critical_def next_op_def Let_def
        flip: rd_def)
  have "\<not> in_critical ex_mutex ex_count (fst ?s (1, 0))"
    using mutual_exclusion [OF ex_shared, of zero_machine "\<lambda>_. 1" ?s "(0, 0)" "(1, 0)"] r i g by auto
  then show ?thesis using r i by blast
qed

definition one_inc :: "tile \<Rightarrow> nat" where "one_inc t = (if t = (0, 0) then 1 else 0)"

lemma no_lost_increment_witness:
  "\<exists>s. reachable small_cfg (\<lambda>t. inc_times ex_mutex ex_count (one_inc t), zero_machine) s
     \<and> finished small_cfg s \<and> rd (snd s) (Dram 4) = 1"
proof -
  let ?ps = "\<lambda>t. inc_times ex_mutex ex_count (one_inc t)"
  let ?r = "(pstep small_cfg (0, 0) ^^ 5) (?ps (0, 0), zero_machine)"
  let ?s = "(?ps((0, 0) := fst ?r), snd ?r)"
  have g: "in_group small_cfg (0, 0)" by (simp add: in_group_def small_cfg_def)
  have r: "reachable small_cfg (?ps, zero_machine) ?s"
    by (rule reachable_tile_steps [OF g])
  have "fst ?r = Ret 0"
    by (simp add: eval_nat_numeral one_inc_def inc_times_Suc inc_times_0 Let_def flip: rd_def)
  then have f: "finished small_cfg ?s" by (auto simp: finished_def one_inc_def inc_times_0)
  have "(\<Sum>t \<in> group_tiles small_cfg. one_inc t) = 1"
    using g unfolding one_inc_def by (simp add: group_tiles_def)
  then have "rd (snd ?s) (Dram 4) = 1"
    using no_lost_increment [OF ex_shared rd_zero_machine r f] by simp
  then show ?thesis using r f by blast
qed

lemma no_deadlock_witness:
  "\<exists>s'. reachable small_cfg (\<lambda>t. inc_times ex_mutex ex_count 3, zero_machine) s' \<and> finished small_cfg s'"
  using no_deadlock [OF ex_shared rd_zero_machine reach_start, where n = "\<lambda>_. 3"] by blast

end
