(* ===== verification/Barrier.thy ===== *)
theory Barrier
  imports Mutex
begin

text \<open>
  \<open>bsg_barrier.h\<close>: a centralised barrier on a lock-protected counter in the chief tile. Each tile
  increments the counter and waits for its alert word; the chief waits until the counter reaches
  the number of tiles, alerts every tile while holding the lock, and resets the counter. The
  theory proves, for the chief \<open>(0, 0)\<close> and any number of rounds, that no tile leaves a round before
  every tile has entered it, and that all can leave. Other chiefs are the subject of \<open>Barrier_Chief\<close>.
\<close>

section \<open>The code\<close>

text \<open>
  The fields of \<open>bsg_barrier\<close>: \<open>_mutex\<close> at 0, \<open>_joined_count\<close> at 4, the four 8-bit coordinates in
  the word at 8, \<open>_local_alert\<close> at 12.
\<close>

definition alert_init :: u32 where "alert_init = 0"
definition alert_signaled :: u32 where "alert_signaled = 1"

definition bar_x_cord_start :: "u32 \<Rightarrow> u32" where "bar_x_cord_start w = take_bit 8 w"
definition bar_x_cord_end :: "u32 \<Rightarrow> u32" where "bar_x_cord_end w = take_bit 8 (drop_bit 8 w)"
definition bar_y_cord_start :: "u32 \<Rightarrow> u32" where "bar_y_cord_start w = take_bit 8 (drop_bit 16 w)"
definition bar_y_cord_end :: "u32 \<Rightarrow> u32" where "bar_y_cord_end w = take_bit 8 (drop_bit 24 w)"

text \<open>The words of \<open>BSG_BARRIER_INIT\<close>.\<close>

definition BSG_BARRIER_INIT :: "u32 \<Rightarrow> u32 \<Rightarrow> u32 \<Rightarrow> u32 \<Rightarrow> u32 list" where
  "BSG_BARRIER_INIT x_cord_start x_cord_end y_cord_start y_cord_end =
     [0, 0, take_bit 8 x_cord_start OR push_bit 8 (take_bit 8 x_cord_end)
        OR push_bit 16 (take_bit 8 y_cord_start) OR push_bit 24 (take_bit 8 y_cord_end), alert_init]"

text \<open>The tiles between two corners, in the order of the two nested loops.\<close>

definition cord_range :: "u32 \<Rightarrow> u32 \<Rightarrow> u32 list" where
  "cord_range a b = map of_nat [unat a..<Suc (unat b)]"

definition bar_tiles :: "u32 \<Rightarrow> tile list" where
  "bar_tiles w = List.product (cord_range (bar_x_cord_start w) (bar_x_cord_end w))
     (cord_range (bar_y_cord_start w) (bar_y_cord_end w))"

definition bar_num_threads :: "u32 \<Rightarrow> u32" where
  "bar_num_threads w = (bar_x_cord_end w - bar_x_cord_start w + 1) * (bar_y_cord_end w - bar_y_cord_start w + 1)"

text \<open>
  \<open>t\<close> is \<open>(bsg_x, bsg_y)\<close>. The coordinate fields are read where the code first needs them; they
  are not volatile and nothing writes them.
\<close>

definition bsg_barrier_wait :: "tile \<Rightarrow> u32 \<Rightarrow> u32 \<Rightarrow> u32 \<Rightarrow> proc" where
  "bsg_barrier_wait t p_local_barrier barrier_x_cord barrier_y_cord =
     (let p_remote = bsg_remote_ptr barrier_x_cord barrier_y_cord p_local_barrier in
      seq (bsg_atomic_inc p_remote (p_remote + 4))
        (if fst t = barrier_x_cord \<and> snd t = barrier_y_cord then
           Act (Load32 (p_remote + 8)) (\<lambda>w.
             seq (bsg_wait_local_int (bsg_local_ptr (p_remote + 4)) (bar_num_threads w))
               (seq (bsg_mutex_lock p_remote)
                 (Act (Load32 (p_remote + 8)) (\<lambda>w.
                   seq (for_each (bar_tiles w) (\<lambda>u. bsg_remote_store (fst u) (snd u) (p_remote + 12) alert_signaled))
                     (seq (bsg_remote_store barrier_x_cord barrier_y_cord (p_remote + 4) 0)
                       (bsg_mutex_unlock p_remote))))))
         else
           seq (bsg_wait_local_int (bsg_local_ptr (p_remote + 12)) alert_signaled)
             (Act (Store32 (bsg_local_ptr (p_remote + 12)) alert_init) (\<lambda>_. Ret 0))))"

section \<open>Many rounds on all tiles\<close>

text \<open>
  The workload: in round \<open>r\<close> each tile stores \<open>r + 1\<close> in a word of its own and then waits at the
  barrier of chief \<open>(0, 0)\<close>. A tile that has left round \<open>r\<close> must find \<open>r + 1\<close> or more everywhere.
\<close>

definition bar_rounds :: "u32 \<Rightarrow> u32 \<Rightarrow> nat \<Rightarrow> tile \<Rightarrow> nat \<Rightarrow> proc" where
  "bar_rounds b ph n t r = for_each [r..<n] (\<lambda>r.
     seq (Act (Store32 ph (of_nat (Suc r))) Ret) (bsg_barrier_wait t b 0 0))"

datatype bar_state =
  BPh nat | BLock nat | BSwap nat | BRd nat | BWr nat u32 | BUnl nat
  | BWait nat | BLr nat | BLra nat | BClr nat
  | CNum nat | CWait nat | CLr nat | CLra nat | CLock nat | CSwap nat | CCoord nat | CAlert nat nat | CUnl nat

definition bar_coords :: "cfg \<Rightarrow> u32" where
  "bar_coords c = BSG_BARRIER_INIT 0 (bsg_tiles_X c - 1) 0 (bsg_tiles_Y c - 1) ! 2"

abbreviation bar_rp :: "u32 \<Rightarrow> u32" where "bar_rp b \<equiv> bsg_remote_ptr 0 0 b"

definition bar_exit :: "u32 \<Rightarrow> u32 \<Rightarrow> nat \<Rightarrow> nat \<Rightarrow> proc" where
  "bar_exit b ph n r = Act (AmoSwap (bar_rp b) 0) (\<lambda>_. bar_rounds b ph n (0, 0) (Suc r))"

definition bar_alerts :: "u32 \<Rightarrow> u32 \<Rightarrow> nat \<Rightarrow> nat \<Rightarrow> tile list \<Rightarrow> proc" where
  "bar_alerts b ph n r ts =
     seq (for_each ts (\<lambda>u. bsg_remote_store (fst u) (snd u) (bar_rp b + 12) alert_signaled))
       (seq (bsg_remote_store 0 0 (bar_rp b + 4) 0) (bar_exit b ph n r))"

definition bar_locked :: "u32 \<Rightarrow> u32 \<Rightarrow> nat \<Rightarrow> nat \<Rightarrow> proc" where
  "bar_locked b ph n r = Act (Load32 (bar_rp b + 8)) (\<lambda>w. bar_alerts b ph n r (bar_tiles w))"

definition bar_lock :: "u32 \<Rightarrow> u32 \<Rightarrow> nat \<Rightarrow> nat \<Rightarrow> proc" where
  "bar_lock b ph n r = Loop (Act (AmoSwap (bar_rp b) 1) Ret) (\<lambda>v. v \<noteq> 1) (\<lambda>_. bar_locked b ph n r)"

definition wait_then :: "u32 \<Rightarrow> u32 \<Rightarrow> proc \<Rightarrow> proc" where
  "wait_then a cond k = Loop (Act (Lr a) (\<lambda>v. if v = cond then Ret v else Act (Lr_aq a) Ret)) (\<lambda>v. v = cond) (\<lambda>_. k)"

definition bar_leave :: "u32 \<Rightarrow> u32 \<Rightarrow> nat \<Rightarrow> tile \<Rightarrow> nat \<Rightarrow> proc" where
  "bar_leave b ph n t r = Act (Store32 (bsg_local_ptr (bar_rp b + 12)) 0) (\<lambda>_. bar_rounds b ph n t (Suc r))"

definition bar_joined :: "u32 \<Rightarrow> u32 \<Rightarrow> nat \<Rightarrow> tile \<Rightarrow> nat \<Rightarrow> proc" where
  "bar_joined b ph n t r =
     (if t = (0, 0)
      then Act (Load32 (bar_rp b + 8)) (\<lambda>w. wait_then (bsg_local_ptr (bar_rp b + 4)) (bar_num_threads w) (bar_lock b ph n r))
      else wait_then (bsg_local_ptr (bar_rp b + 12)) 1 (bar_leave b ph n t r))"

definition bar_write :: "u32 \<Rightarrow> u32 \<Rightarrow> nat \<Rightarrow> tile \<Rightarrow> nat \<Rightarrow> u32 \<Rightarrow> proc" where
  "bar_write b ph n t r v = Act (Store32 (bar_rp b + 4) (v + 1)) (\<lambda>_. Act (AmoSwap (bar_rp b) 0) (\<lambda>_. bar_joined b ph n t r))"

definition bar_enter :: "u32 \<Rightarrow> u32 \<Rightarrow> nat \<Rightarrow> tile \<Rightarrow> nat \<Rightarrow> proc" where
  "bar_enter b ph n t r =
     Loop (Act (AmoSwap (bar_rp b) 1) Ret) (\<lambda>v. v \<noteq> 1) (\<lambda>_. Act (Load32 (bar_rp b + 4)) (bar_write b ph n t r))"

fun bar_prog :: "cfg \<Rightarrow> u32 \<Rightarrow> u32 \<Rightarrow> nat \<Rightarrow> tile \<Rightarrow> bar_state \<Rightarrow> proc" where
  "bar_prog c b ph n t (BPh r) = bar_rounds b ph n t r"
| "bar_prog c b ph n t (BLock r) = bar_enter b ph n t r"
| "bar_prog c b ph n t (BSwap r) = Act (AmoSwap (bar_rp b) 1) (\<lambda>v. if v \<noteq> 1
     then Act (Load32 (bar_rp b + 4)) (bar_write b ph n t r) else bar_enter b ph n t r)"
| "bar_prog c b ph n t (BRd r) = Act (Load32 (bar_rp b + 4)) (bar_write b ph n t r)"
| "bar_prog c b ph n t (BWr r v) = bar_write b ph n t r v"
| "bar_prog c b ph n t (BUnl r) = Act (AmoSwap (bar_rp b) 0) (\<lambda>_. bar_joined b ph n t r)"
| "bar_prog c b ph n t (BWait r) = wait_then (bsg_local_ptr (bar_rp b + 12)) 1 (bar_leave b ph n t r)"
| "bar_prog c b ph n t (BLr r) = Act (Lr (bsg_local_ptr (bar_rp b + 12))) (\<lambda>v. if v = 1 then bar_leave b ph n t r
     else Act (Lr_aq (bsg_local_ptr (bar_rp b + 12))) (\<lambda>v. if v = 1 then bar_leave b ph n t r
       else wait_then (bsg_local_ptr (bar_rp b + 12)) 1 (bar_leave b ph n t r)))"
| "bar_prog c b ph n t (BLra r) = Act (Lr_aq (bsg_local_ptr (bar_rp b + 12))) (\<lambda>v. if v = 1 then bar_leave b ph n t r
       else wait_then (bsg_local_ptr (bar_rp b + 12)) 1 (bar_leave b ph n t r))"
| "bar_prog c b ph n t (BClr r) = bar_leave b ph n t r"
| "bar_prog c b ph n t (CNum r) = bar_joined b ph n (0, 0) r"
| "bar_prog c b ph n t (CWait r) = wait_then (bsg_local_ptr (bar_rp b + 4)) (bar_num_threads (bar_coords c)) (bar_lock b ph n r)"
| "bar_prog c b ph n t (CLr r) = Act (Lr (bsg_local_ptr (bar_rp b + 4))) (\<lambda>v. if v = bar_num_threads (bar_coords c)
     then bar_lock b ph n r
     else Act (Lr_aq (bsg_local_ptr (bar_rp b + 4))) (\<lambda>v. if v = bar_num_threads (bar_coords c) then bar_lock b ph n r
       else wait_then (bsg_local_ptr (bar_rp b + 4)) (bar_num_threads (bar_coords c)) (bar_lock b ph n r)))"
| "bar_prog c b ph n t (CLra r) = Act (Lr_aq (bsg_local_ptr (bar_rp b + 4))) (\<lambda>v. if v = bar_num_threads (bar_coords c)
     then bar_lock b ph n r
       else wait_then (bsg_local_ptr (bar_rp b + 4)) (bar_num_threads (bar_coords c)) (bar_lock b ph n r))"
| "bar_prog c b ph n t (CLock r) = bar_lock b ph n r"
| "bar_prog c b ph n t (CSwap r) = Act (AmoSwap (bar_rp b) 1) (\<lambda>v. if v \<noteq> 1 then bar_locked b ph n r else bar_lock b ph n r)"
| "bar_prog c b ph n t (CCoord r) = bar_locked b ph n r"
| "bar_prog c b ph n t (CAlert r k) = bar_alerts b ph n r (drop k (bar_tiles (bar_coords c)))"
| "bar_prog c b ph n t (CUnl r) = bar_exit b ph n r"

datatype bar_cell = BMutex | BCount | BCoord | BAlert tile | BPhase tile

fun bar_loc :: "cfg \<Rightarrow> u32 \<Rightarrow> u32 \<Rightarrow> bar_cell \<Rightarrow> npa" where
  "bar_loc c b ph BMutex = tile_npa c (0, 0) b"
| "bar_loc c b ph BCount = tile_npa c (0, 0) (b + 4)"
| "bar_loc c b ph BCoord = tile_npa c (0, 0) (b + 8)"
| "bar_loc c b ph (BAlert t) = tile_npa c t (b + 12)"
| "bar_loc c b ph (BPhase t) = tile_npa c t ph"

definition bar_cells :: "cfg \<Rightarrow> bar_cell set" where
  "bar_cells c = {BMutex, BCount, BCoord} \<union> BAlert ` group_tiles c \<union> BPhase ` group_tiles c"

definition bar_layout :: "cfg \<Rightarrow> u32 \<Rightarrow> u32 \<Rightarrow> bool" where
  "bar_layout c b ph \<longleftrightarrow> group_fits c \<and> unat b + 16 \<le> 2 ^ 18 \<and> unat ph + 4 \<le> 2 ^ 18
     \<and> (unat b + 16 \<le> unat ph \<or> unat ph + 4 \<le> unat b)"

fun bar_next :: "cfg \<Rightarrow> u32 \<Rightarrow> u32 \<Rightarrow> nat \<Rightarrow> tile \<Rightarrow> bar_state \<Rightarrow> machine \<Rightarrow> bar_state \<times> machine" where
  "bar_next c b ph n t (BPh r) m =
     (if r < n then (BLock r, put32 c (bar_loc c b ph (BPhase t)) (of_nat (Suc r)) m) else (BPh r, m))"
| "bar_next c b ph n t (BLock r) m = (BSwap r, m)"
| "bar_next c b ph n t (BSwap r) m =
     (if rd m (bar_loc c b ph BMutex) \<noteq> 1 then BRd r else BLock r, put32 c (bar_loc c b ph BMutex) 1 m)"
| "bar_next c b ph n t (BRd r) m = (BWr r (rd m (bar_loc c b ph BCount)), m)"
| "bar_next c b ph n t (BWr r v) m = (BUnl r, put32 c (bar_loc c b ph BCount) (v + 1) m)"
| "bar_next c b ph n t (BUnl r) m = (if t = (0, 0) then CNum r else BWait r, put32 c (bar_loc c b ph BMutex) 0 m)"
| "bar_next c b ph n t (BWait r) m = (BLr r, m)"
| "bar_next c b ph n t (BLr r) m = (if rd m (bar_loc c b ph (BAlert t)) = 1 then BClr r else BLra r, m)"
| "bar_next c b ph n t (BLra r) m = (if rd m (bar_loc c b ph (BAlert t)) = 1 then BClr r else BWait r, m)"
| "bar_next c b ph n t (BClr r) m = (BPh (Suc r), put32 c (bar_loc c b ph (BAlert t)) 0 m)"
| "bar_next c b ph n t (CNum r) m = (CWait r, m)"
| "bar_next c b ph n t (CWait r) m = (CLr r, m)"
| "bar_next c b ph n t (CLr r) m =
     (if rd m (bar_loc c b ph BCount) = bar_num_threads (bar_coords c) then CLock r else CLra r, m)"
| "bar_next c b ph n t (CLra r) m =
     (if rd m (bar_loc c b ph BCount) = bar_num_threads (bar_coords c) then CLock r else CWait r, m)"
| "bar_next c b ph n t (CLock r) m = (CSwap r, m)"
| "bar_next c b ph n t (CSwap r) m =
     (if rd m (bar_loc c b ph BMutex) \<noteq> 1 then CCoord r else CLock r, put32 c (bar_loc c b ph BMutex) 1 m)"
| "bar_next c b ph n t (CCoord r) m = (CAlert r 0, m)"
| "bar_next c b ph n t (CAlert r k) m =
     (if k < length (bar_tiles (bar_coords c))
      then (CAlert r (Suc k), put32 c (bar_loc c b ph (BAlert (bar_tiles (bar_coords c) ! k))) 1 m)
      else (CUnl r, put32 c (bar_loc c b ph BCount) 0 m))"
| "bar_next c b ph n t (CUnl r) m = (BPh (Suc r), put32 c (bar_loc c b ph BMutex) 0 m)"

section \<open>The tiles of the barrier\<close>

lemma init_fields:
  assumes "unat xs < 256" "unat xe < 256" "unat ys < 256" "unat ye < 256"
  shows "bar_x_cord_start (BSG_BARRIER_INIT xs xe ys ye ! 2) = xs" "bar_x_cord_end (BSG_BARRIER_INIT xs xe ys ye ! 2) = xe"
    "bar_y_cord_start (BSG_BARRIER_INIT xs xe ys ye ! 2) = ys" "bar_y_cord_end (BSG_BARRIER_INIT xs xe ys ye ! 2) = ye"
proof -
  have t: "take_bit 8 xs = xs" "take_bit 8 xe = xe" "take_bit 8 ys = ys" "take_bit 8 ye = ye"
    using assms by (simp_all add: take_bit_unat_lt)
  have f: "bit xs n \<Longrightarrow> n < 8" "bit xe n \<Longrightarrow> n < 8" "bit ys n \<Longrightarrow> n < 8" "bit ye n \<Longrightarrow> n < 8" for n
    using assms bit_field_False [of _ 8 n] by fastforce+
  have b: "bit (BSG_BARRIER_INIT xs xe ys ye ! 2) n \<longleftrightarrow> n < 32 \<and> (bit xs n \<or> 8 \<le> n \<and> bit xe (n - 8) \<or> 16 \<le> n \<and> bit ys (n - 16)
    \<or> 24 \<le> n \<and> bit ye (n - 24))" for n
    using bit_imp_le_length [of xs n] by (auto simp: BSG_BARRIER_INIT_def t bit_simps)
  show "bar_x_cord_start (BSG_BARRIER_INIT xs xe ys ye ! 2) = xs" "bar_x_cord_end (BSG_BARRIER_INIT xs xe ys ye ! 2) = xe"
    "bar_y_cord_start (BSG_BARRIER_INIT xs xe ys ye ! 2) = ys" "bar_y_cord_end (BSG_BARRIER_INIT xs xe ys ye ! 2) = ye"
    unfolding bar_x_cord_start_def bar_x_cord_end_def bar_y_cord_start_def bar_y_cord_end_def
    by - (rule bit_word_eqI, fastforce simp: bit_simps b dest: f)+
qed

lemma unat_less_pred:
  fixes x n :: u32
  assumes "0 < n"
  shows "Suc (unat (n - 1)) = unat n"
proof -
  have "1 \<le> n" using assms by (simp add: word_le_nat_alt word_less_nat_alt Suc_le_eq)
  then show ?thesis using assms by (simp add: unat_sub word_less_nat_alt)
qed

lemma bar_coords_fields:
  assumes "group_fits c"
  shows "bar_x_cord_start (bar_coords c) = 0" "bar_x_cord_end (bar_coords c) = bsg_tiles_X c - 1"
    "bar_y_cord_start (bar_coords c) = 0" "bar_y_cord_end (bar_coords c) = bsg_tiles_Y c - 1"
proof -
  have "Suc (unat (bsg_tiles_X c - 1)) = unat (bsg_tiles_X c)" "Suc (unat (bsg_tiles_Y c - 1)) = unat (bsg_tiles_Y c)"
    using assms by (simp_all add: group_fits_def unat_less_pred)
  then have "unat (bsg_tiles_X c - 1) < 256" "unat (bsg_tiles_Y c - 1) < 256"
    using group_fits_nat [OF assms] by linarith+
  then show "bar_x_cord_start (bar_coords c) = 0" "bar_x_cord_end (bar_coords c) = bsg_tiles_X c - 1"
    "bar_y_cord_start (bar_coords c) = 0" "bar_y_cord_end (bar_coords c) = bsg_tiles_Y c - 1"
    by (simp_all add: bar_coords_def init_fields)
qed

lemma cord_range_all: "0 < n \<Longrightarrow> cord_range 0 (n - 1) = map of_nat [0..<unat n]"
  by (simp add: cord_range_def unat_less_pred del: upt_Suc)

lemma set_cord_range: "0 < n \<Longrightarrow> set (cord_range 0 (n - 1)) = {x. x < n}"
proof -
  assume "0 < n"
  moreover have "x \<in> of_nat ` {0..<unat n}" if "x < n" for x
    using that by (intro image_eqI [of _ _ "unat x"]) (auto simp: word_less_nat_alt)
  moreover have "(of_nat k :: u32) < n" if "k < unat n" for k
    using that unat_lt32 [of n] by (simp add: word_less_nat_alt unat_of_nat_lt)
  ultimately show ?thesis by (auto simp: cord_range_all)
qed

lemma distinct_cord_range: "0 < n \<Longrightarrow> distinct (cord_range 0 (n - 1))"
proof -
  assume "0 < n"
  have "inj_on (of_nat :: nat \<Rightarrow> u32) {0..<unat n}"
  proof (rule inj_onI)
    fix j k assume jk: "j \<in> {0..<unat n}" "k \<in> {0..<unat n}" "(of_nat j :: u32) = of_nat k"
    have "j < 2 ^ 32" "k < 2 ^ 32" using jk unat_lt32 [of n] by auto
    then show "j = k" using jk(3) by (metis unat_of_nat_lt)
  qed
  then show ?thesis using \<open>0 < n\<close> by (simp add: cord_range_all distinct_map)
qed

lemma bar_tiles_group:
  assumes "group_fits c"
  shows "set (bar_tiles (bar_coords c)) = group_tiles c" and "distinct (bar_tiles (bar_coords c))"
proof -
  have p: "0 < bsg_tiles_X c" "0 < bsg_tiles_Y c" using assms by (simp_all add: group_fits_def)
  show "set (bar_tiles (bar_coords c)) = group_tiles c"
    using p by (auto simp: bar_tiles_def bar_coords_fields [OF assms] set_cord_range group_tiles_def in_group_def)
  show "distinct (bar_tiles (bar_coords c))"
    using p by (simp add: bar_tiles_def bar_coords_fields [OF assms] distinct_product distinct_cord_range)
qed

lemma card_group:
  assumes "group_fits c"
  shows "card (group_tiles c) = unat (bsg_tiles_X c) * unat (bsg_tiles_Y c)" "card (group_tiles c) \<le> 2048"
proof -
  have p: "0 < bsg_tiles_X c" "0 < bsg_tiles_Y c" using assms by (simp_all add: group_fits_def)
  have "card (group_tiles c) = length (bar_tiles (bar_coords c))"
    using bar_tiles_group [OF assms] distinct_card by metis
  also have "\<dots> = unat (bsg_tiles_X c) * unat (bsg_tiles_Y c)"
    using p by (simp add: bar_tiles_def bar_coords_fields [OF assms] cord_range_all)
  finally show "card (group_tiles c) = unat (bsg_tiles_X c) * unat (bsg_tiles_Y c)" .
  then show "card (group_tiles c) \<le> 2048"
    using mult_le_mono [OF group_fits_nat(2,4) [OF assms]] by simp
qed

lemma bar_num_group:
  assumes "group_fits c"
  shows "bar_num_threads (bar_coords c) = of_nat (card (group_tiles c))"
  by (simp add: bar_num_threads_def bar_coords_fields [OF assms] card_group [OF assms])

section \<open>Addresses\<close>

lemma bar_offsets:
  assumes "bar_layout c b ph"
  shows "bar_rp b + 4 = bar_rp (b + 4)" "bar_rp b + 8 = bar_rp (b + 8)" "bar_rp b + 12 = bar_rp (b + 12)"
    and "unat b < 2 ^ 18" "unat ph < 2 ^ 18"
    and "unat (b + 4) = unat b + 4" "unat (b + 8) = unat b + 8" "unat (b + 12) = unat b + 12"
  using assms by (auto simp: bar_layout_def unat_word_ariths intro!: bsg_remote_ptr_offset)

lemma bar_eva:
  assumes L: "bar_layout c b ph" and t: "in_group c t"
  shows "eva_to_npa c t (bar_rp b) = bar_loc c b ph BMutex" "eva_to_npa c t (bar_rp b + 4) = bar_loc c b ph BCount"
    "eva_to_npa c t (bar_rp b + 8) = bar_loc c b ph BCoord"
    "eva_to_npa c t ph = bar_loc c b ph (BPhase t)"
    "eva_to_npa c t (bsg_local_ptr (bar_rp b + 12)) = bar_loc c b ph (BAlert t)"
    "eva_to_npa c (0, 0) (bsg_local_ptr (bar_rp b + 4)) = bar_loc c b ph BCount"
    "in_group c u \<Longrightarrow> eva_to_npa c t (bsg_remote_ptr (fst u) (snd u) (bar_rp b + 12)) = bar_loc c b ph (BAlert u)"
    "eva_to_npa c t (bsg_remote_ptr 0 0 (bar_rp b + 4)) = bar_loc c b ph BCount"
proof -
  have g: "group_fits c" "in_group c (0, 0)" using L t by (auto simp: bar_layout_def in_group_def group_fits_def)
  have lt: "unat (b + 4) < 2 ^ 18" "unat (b + 8) < 2 ^ 18" "unat (b + 12) < 2 ^ 18"
    using bar_offsets [OF L] L unfolding bar_layout_def by linarith+
  note e = eva_remote_group [OF g] and o = bar_offsets [OF L]
  have rp0: "bsg_remote_ptr i j (bsg_remote_ptr 0 0 a) = bsg_remote_ptr i j a" for i j a
    by (simp add: bsg_remote_ptr_shape or.assoc or.left_commute ac_simps)
  show "eva_to_npa c t (bar_rp b) = bar_loc c b ph BMutex" "eva_to_npa c t (bar_rp b + 4) = bar_loc c b ph BCount"
    "eva_to_npa c t (bar_rp b + 8) = bar_loc c b ph BCoord" "eva_to_npa c t ph = bar_loc c b ph (BPhase t)"
    using e lt o eva_local [of ph c t] by simp_all
  show "eva_to_npa c t (bsg_local_ptr (bar_rp b + 12)) = bar_loc c b ph (BAlert t)"
    "eva_to_npa c (0, 0) (bsg_local_ptr (bar_rp b + 4)) = bar_loc c b ph BCount"
    using o lt bsg_local_ptr_remote eva_local [of "b + 12" c t] eva_local [of "b + 4" c "(0, 0)"] by simp_all
  show "eva_to_npa c t (bsg_remote_ptr (fst u) (snd u) (bar_rp b + 12)) = bar_loc c b ph (BAlert u)" if "in_group c u"
    using eva_remote_group [OF g(1), of "fst u" "snd u"] that lt by (simp add: o(3) rp0)
  show "eva_to_npa c t (bsg_remote_ptr 0 0 (bar_rp b + 4)) = bar_loc c b ph BCount"
    using e lt by (simp add: o(1) rp0)
qed

lemma bar_rounds_end: "\<not> r < n \<Longrightarrow> bar_rounds b ph n t r = Ret 0"
  by (simp add: bar_rounds_def)

lemma wait_then_int: "seq (bsg_wait_local_int a k) p = wait_then a k p"
  by (simp add: bsg_wait_local_int_def wait_then_def bsg_lr_def bsg_lr_aq_def if_distrib [of "\<lambda>x. bind x _"] cong: if_cong)

lemma bind_wait_then [simp]: "bind (wait_then a k p) f = wait_then a k (bind p f)"
  by (simp add: wait_then_def)

lemma bar_rounds_step:
  assumes "r < n"
  shows "bar_rounds b ph n t r = Act (Store32 ph (of_nat (Suc r))) (\<lambda>_. bar_enter b ph n t r)"
proof -
  have z: "fst t = 0 \<and> snd t = 0 \<longleftrightarrow> t = (0, 0)" by (auto simp: prod_eq_iff)
  have "seq (bsg_barrier_wait t b 0 0) (bar_rounds b ph n t (Suc r)) = bar_enter b ph n t r"
    by (cases "t = (0, 0)") (auto simp: bsg_barrier_wait_def Let_def bsg_atomic_inc_def bsg_mutex_lock_def bsg_mutex_try_lock_def
        bsg_mutex_unlock_def bsg_mutex_lock_fail_def bar_enter_def bar_write_def bar_joined_def bar_lock_def
        bar_locked_def bar_alerts_def bar_exit_def bar_leave_def wait_then_int alert_signaled_def alert_init_def
        bsg_remote_store_def z fun_eq_iff)
  then show ?thesis
    using assms by (simp add: bar_rounds_def upt_conv_Cons)
qed

lemma wait_then_step:
  "pstep c t (wait_then a k p, m) = (Act (Lr a) (\<lambda>v. if v = k then p
     else Act (Lr_aq a) (\<lambda>v. if v = k then p else wait_then a k p)), m)"
  by (auto simp: wait_then_def fun_eq_iff)

lemma bar_alerts_step:
  "bar_alerts b ph n r (u # ts) = Act (Store32 (bsg_remote_ptr (fst u) (snd u) (bar_rp b + 12)) 1) (\<lambda>_. bar_alerts b ph n r ts)"
  "bar_alerts b ph n r [] = Act (Store32 (bsg_remote_ptr 0 0 (bar_rp b + 4)) 0) (\<lambda>_. bar_exit b ph n r)"
  by (simp_all add: bar_alerts_def bsg_remote_store_def alert_signaled_def)

fun chief_only :: "bar_state \<Rightarrow> bool" where
  "chief_only (CNum r) = True" | "chief_only (CWait r) = True" | "chief_only (CLr r) = True" | "chief_only (CLra r) = True"
| "chief_only (CLock r) = True" | "chief_only (CSwap r) = True" | "chief_only (CCoord r) = True"
| "chief_only (CAlert r k) = True" | "chief_only (CUnl r) = True" | "chief_only q = False"

fun member_only :: "bar_state \<Rightarrow> bool" where
  "member_only (BWait r) = True" | "member_only (BLr r) = True" | "member_only (BLra r) = True"
| "member_only (BClr r) = True" | "member_only q = False"

definition bar_role :: "tile \<Rightarrow> bar_state \<Rightarrow> bool" where
  "bar_role t q \<longleftrightarrow> (if t = (0, 0) then \<not> member_only q else \<not> chief_only q)"

lemma bar_code_step:
  assumes L: "bar_layout c b ph" and t: "in_group c t" and r: "bar_role t q" and w: "rd m (bar_loc c b ph BCoord) = bar_coords c"
  shows "pstep c t (bar_prog c b ph n t q, m)
    = (bar_prog c b ph n t (fst (bar_next c b ph n t q m)), snd (bar_next c b ph n t q m))"
proof -
  have g0: "in_group c (0, 0)" using L by (auto simp: bar_layout_def in_group_def group_fits_def)
  note e = bar_eva [OF L t] bar_eva [OF L g0]
  have chief: "t = (0, 0)" if "chief_only q" using r that by (auto simp: bar_role_def split: if_splits)
  have g: "set (bar_tiles (bar_coords c)) = group_tiles c" using L by (simp add: bar_layout_def bar_tiles_group)
  show ?thesis
  proof (cases q)
    case (BPh r)
    then show ?thesis by (cases "r < n") (simp_all add: bar_rounds_step bar_rounds_end e del: bar_loc.simps)
  next
    case (CAlert r k)
    show ?thesis
    proof (cases "k < length (bar_tiles (bar_coords c))")
      case True
      then have "in_group c (bar_tiles (bar_coords c) ! k)" using g nth_mem by (auto simp: group_tiles_def)
      then show ?thesis using True CAlert e(7)
        by (simp add: bar_alerts_step flip: Cons_nth_drop_Suc del: bar_loc.simps)
    next
      case False
      then show ?thesis using CAlert by (simp add: bar_alerts_step e del: bar_loc.simps)
    qed
  qed (use chief in \<open>auto simp: e w bar_enter_def bar_write_def bar_joined_def bar_lock_def bar_locked_def bar_exit_def
      bar_leave_def wait_then_step Let_def fun_eq_iff simp del: bar_loc.simps simp flip: rd_def\<close>)
qed


section \<open>The invariant\<close>

fun rnd :: "bar_state \<Rightarrow> nat" where
  "rnd (BPh r) = r" | "rnd (BLock r) = r" | "rnd (BSwap r) = r" | "rnd (BRd r) = r" | "rnd (BWr r v) = r"
| "rnd (BUnl r) = r" | "rnd (BWait r) = r" | "rnd (BLr r) = r" | "rnd (BLra r) = r" | "rnd (BClr r) = r"
| "rnd (CNum r) = r" | "rnd (CWait r) = r" | "rnd (CLr r) = r" | "rnd (CLra r) = r" | "rnd (CLock r) = r"
| "rnd (CSwap r) = r" | "rnd (CCoord r) = r" | "rnd (CAlert r k) = r" | "rnd (CUnl r) = r"

text \<open>Rounds joined, rounds announced in the tile's own word, counter resets, and rounds released for a tile.\<close>

fun joins :: "bar_state \<Rightarrow> nat" where
  "joins (BPh r) = r" | "joins (BLock r) = r" | "joins (BSwap r) = r" | "joins (BRd r) = r" | "joins (BWr r v) = r"
| "joins q = Suc (rnd q)"

fun announced :: "bar_state \<Rightarrow> nat" where
  "announced (BPh r) = r" | "announced q = Suc (rnd q)"

fun resets :: "bar_state \<Rightarrow> nat" where
  "resets (CUnl r) = Suc r" | "resets q = rnd q"

fun released :: "cfg \<Rightarrow> tile \<Rightarrow> bar_state \<Rightarrow> nat" where
  "released c t (CUnl r) = Suc r"
| "released c t (CAlert r k) = (if t \<in> set (take k (bar_tiles (bar_coords c))) then Suc r else r)"
| "released c t q = rnd q"

fun gathered :: "bar_state \<Rightarrow> bool" where
  "gathered (CLock r) = True" | "gathered (CSwap r) = True" | "gathered (CCoord r) = True"
| "gathered (CAlert r k) = True" | "gathered (CUnl r) = True" | "gathered q = False"

fun holds_lock :: "bar_state \<Rightarrow> bool" where
  "holds_lock (BRd r) = True" | "holds_lock (BWr r v) = True" | "holds_lock (BUnl r) = True"
| "holds_lock (CCoord r) = True" | "holds_lock (CAlert r k) = True" | "holds_lock (CUnl r) = True"
| "holds_lock q = False"

definition holders :: "cfg \<Rightarrow> (tile \<Rightarrow> bar_state) \<Rightarrow> tile set" where
  "holders c qs = {t. in_group c t \<and> holds_lock (qs t)}"

definition joined_set :: "cfg \<Rightarrow> (tile \<Rightarrow> bar_state) \<Rightarrow> tile set" where
  "joined_set c qs = {t. in_group c t \<and> resets (qs (0, 0)) < joins (qs t)}"

text \<open>The state of one member tile \<open>q\<close> relative to its alert word and the number of rounds released for it.\<close>

definition member_ok :: "nat \<Rightarrow> u32 \<Rightarrow> bar_state \<Rightarrow> bool" where
  "member_ok A al q \<longleftrightarrow> (A = rnd q \<and> al = 0 \<and> (\<forall>r. q \<noteq> BClr r)) \<or> (A = Suc (rnd q) \<and> al = 1 \<and> member_only q)"

definition bar_inv :: "cfg \<Rightarrow> u32 \<Rightarrow> u32 \<Rightarrow> nat \<Rightarrow> (tile \<Rightarrow> bar_state) \<Rightarrow> machine \<Rightarrow> bool" where
  "bar_inv c b ph n qs m \<longleftrightarrow>
     bar_layout c b ph \<and> (\<forall>t. in_group c t \<longrightarrow> bar_role t (qs t) \<and> announced (qs t) \<le> n)
     \<and> rd m (bar_loc c b ph BCoord) = bar_coords c
     \<and> (rd m (bar_loc c b ph BMutex) = 0 \<and> holders c qs = {} \<or> rd m (bar_loc c b ph BMutex) = 1 \<and> (\<exists>h. holders c qs = {h}))
     \<and> rd m (bar_loc c b ph BCount) = of_nat (card (joined_set c qs))
     \<and> (\<forall>t \<in> holders c qs. \<forall>r v. qs t = BWr r v \<longrightarrow> v = rd m (bar_loc c b ph BCount))
     \<and> (\<forall>t. in_group c t \<longrightarrow> t \<noteq> (0, 0) \<longrightarrow> member_ok (released c t (qs (0, 0))) (rd m (bar_loc c b ph (BAlert t))) (qs t))
     \<and> (\<forall>t. in_group c t \<longrightarrow> joins (qs t) \<le> Suc (resets (qs (0, 0))))
     \<and> (gathered (qs (0, 0)) \<longrightarrow> (\<forall>t. in_group c t \<longrightarrow> rnd (qs (0, 0)) < joins (qs t)))
     \<and> (\<forall>t. in_group c t \<longrightarrow> rd m (bar_loc c b ph (BPhase t)) = of_nat (announced (qs t)))"

fun bar_cell_tile :: "bar_cell \<Rightarrow> tile" where
  "bar_cell_tile (BAlert t) = t" | "bar_cell_tile (BPhase t) = t" | "bar_cell_tile a = (0, 0)"

fun bar_cell_off :: "nat \<Rightarrow> nat \<Rightarrow> bar_cell \<Rightarrow> nat" where
  "bar_cell_off b ph BMutex = b" | "bar_cell_off b ph BCount = b + 4" | "bar_cell_off b ph BCoord = b + 8"
| "bar_cell_off b ph (BAlert t) = b + 12" | "bar_cell_off b ph (BPhase t) = ph"

lemma bar_disjoint:
  assumes L: "bar_layout c b ph"
  shows "disjoint_cells (bar_loc c b ph) (bar_cells c)"
proof (rule disjoint_tile_cells [where tile = bar_cell_tile and off = "bar_cell_off (unat b) (unat ph)"])
  have g: "group_fits c" "in_group c (0, 0)" using L by (auto simp: bar_layout_def in_group_def group_fits_def)
  then show "group_fits c" by simp
  show "in_group c (bar_cell_tile a) \<and> bar_loc c b ph a = tile_npa c (bar_cell_tile a) (of_nat (bar_cell_off (unat b) (unat ph) a))
    \<and> bar_cell_off (unat b) (unat ph) a + 4 \<le> 2 ^ 32" if "a \<in> bar_cells c" for a
    using that g L by (cases a) (auto simp: bar_cells_def group_tiles_def bar_layout_def)
  show "bar_cell_off (unat b) (unat ph) x + 4 \<le> bar_cell_off (unat b) (unat ph) y
    \<or> bar_cell_off (unat b) (unat ph) y + 4 \<le> bar_cell_off (unat b) (unat ph) x"
    if "x \<noteq> y" "bar_cell_tile x = bar_cell_tile y" for x y
    using that L by (cases x; cases y) (auto simp: bar_layout_def)
qed

lemma bar_cells_mem [simp]:
  "BMutex \<in> bar_cells c" "BCount \<in> bar_cells c" "BCoord \<in> bar_cells c"
  "BAlert t \<in> bar_cells c \<longleftrightarrow> in_group c t" "BPhase t \<in> bar_cells c \<longleftrightarrow> in_group c t"
  by (auto simp: bar_cells_def group_tiles_def)

lemma bar_rd_put:
  assumes "bar_layout c b ph" and "x \<in> bar_cells c" and "y \<in> bar_cells c"
  shows "rd (put32 c (bar_loc c b ph x) v m) (bar_loc c b ph y) = (if y = x then v else rd m (bar_loc c b ph y))"
  by (rule rd_put_cell [OF bar_disjoint [OF assms(1)] assms(2,3)])

declare bar_loc.simps [simp del]

lemma holders_upd:
  "in_group c t \<Longrightarrow> holders c (qs(t := q)) = (if holds_lock q then insert t (holders c qs) else holders c qs - {t})"
  by (auto simp: holders_def)

lemma joined_set_upd:
  assumes "in_group c t" and "t = (0, 0) \<Longrightarrow> resets q = resets (qs (0, 0))"
  shows "joined_set c (qs(t := q)) = (if resets (qs (0, 0)) < joins q then insert t (joined_set c qs) else joined_set c qs - {t})"
  using assms by (auto simp: joined_set_def)

lemma joined_set_same:
  assumes "in_group c t" and "joins q = joins (qs t)" and "t = (0, 0) \<Longrightarrow> resets q = resets (qs (0, 0))"
  shows "joined_set c (qs(t := q)) = joined_set c qs"
  using assms by (auto simp: joined_set_def)

lemma member_ok_simps [simp]:
  "member_ok A al (BPh r) \<longleftrightarrow> A = r \<and> al = 0" "member_ok A al (BLock r) \<longleftrightarrow> A = r \<and> al = 0"
  "member_ok A al (BSwap r) \<longleftrightarrow> A = r \<and> al = 0" "member_ok A al (BRd r) \<longleftrightarrow> A = r \<and> al = 0"
  "member_ok A al (BWr r v) \<longleftrightarrow> A = r \<and> al = 0" "member_ok A al (BUnl r) \<longleftrightarrow> A = r \<and> al = 0"
  "member_ok A al (BWait r) \<longleftrightarrow> A = r \<and> al = 0 \<or> A = Suc r \<and> al = 1"
  "member_ok A al (BLr r) \<longleftrightarrow> A = r \<and> al = 0 \<or> A = Suc r \<and> al = 1"
  "member_ok A al (BLra r) \<longleftrightarrow> A = r \<and> al = 0 \<or> A = Suc r \<and> al = 1"
  "member_ok A al (BClr r) \<longleftrightarrow> A = Suc r \<and> al = 1"
  by (auto simp: member_ok_def)

lemma finite_joined [simp]: "finite (joined_set c qs)"
  by (rule finite_subset [of _ UNIV]) auto

lemma bar_invD:
  assumes "bar_inv c b ph n qs m"
  shows "bar_layout c b ph" "\<And>t. in_group c t \<Longrightarrow> bar_role t (qs t)" "\<And>t. in_group c t \<Longrightarrow> announced (qs t) \<le> n"
    "rd m (bar_loc c b ph BCoord) = bar_coords c"
    "rd m (bar_loc c b ph BMutex) = 0 \<and> holders c qs = {} \<or> rd m (bar_loc c b ph BMutex) = 1 \<and> (\<exists>h. holders c qs = {h})"
    "rd m (bar_loc c b ph BCount) = of_nat (card (joined_set c qs))"
    "\<And>t r v. t \<in> holders c qs \<Longrightarrow> qs t = BWr r v \<Longrightarrow> v = rd m (bar_loc c b ph BCount)"
    "\<And>t. in_group c t \<Longrightarrow> t \<noteq> (0, 0) \<Longrightarrow> member_ok (released c t (qs (0, 0))) (rd m (bar_loc c b ph (BAlert t))) (qs t)"
    "\<And>t. in_group c t \<Longrightarrow> joins (qs t) \<le> Suc (resets (qs (0, 0)))"
    "\<And>t. gathered (qs (0, 0)) \<Longrightarrow> in_group c t \<Longrightarrow> rnd (qs (0, 0)) < joins (qs t)"
    "\<And>t. in_group c t \<Longrightarrow> rd m (bar_loc c b ph (BPhase t)) = of_nat (announced (qs t))"
  using assms by (auto simp: bar_inv_def)

text \<open>While a member holds the lock the chief does not, so it has neither released nor reset this round.\<close>

lemma released_free:
  assumes "\<not> holds_lock q"
  shows "released c t q = rnd q" "resets q = rnd q"
  using assms by (cases q; simp)+

text \<open>What a step of a member tile has to establish.\<close>

lemma member_inv_upd:
  assumes t: "in_group c t" "t \<noteq> (0, 0)" and I: "bar_inv c b ph n qs m"
    and role: "\<not> chief_only q'" "announced q' \<le> n"
    and coord: "rd m' (bar_loc c b ph BCoord) = rd m (bar_loc c b ph BCoord)"
    and alert: "\<And>u. in_group c u \<Longrightarrow> u \<noteq> t \<Longrightarrow> rd m' (bar_loc c b ph (BAlert u)) = rd m (bar_loc c b ph (BAlert u))"
    and phase: "\<And>u. in_group c u \<Longrightarrow> u \<noteq> t \<Longrightarrow> rd m' (bar_loc c b ph (BPhase u)) = rd m (bar_loc c b ph (BPhase u))"
    and lock: "rd m' (bar_loc c b ph BMutex) = 0 \<and> holders c (qs(t := q')) = {}
      \<or> rd m' (bar_loc c b ph BMutex) = 1 \<and> (\<exists>h. holders c (qs(t := q')) = {h})"
    and count: "rd m' (bar_loc c b ph BCount) = of_nat (card (joined_set c (qs(t := q'))))"
    and wrote: "\<And>u r v. u \<in> holders c (qs(t := q')) \<Longrightarrow> (qs(t := q')) u = BWr r v \<Longrightarrow> v = rd m' (bar_loc c b ph BCount)"
    and ok: "member_ok (released c t (qs (0, 0))) (rd m' (bar_loc c b ph (BAlert t))) q'"
    and joins: "joins q' \<le> Suc (resets (qs (0, 0)))" "gathered (qs (0, 0)) \<Longrightarrow> rnd (qs (0, 0)) < joins q'"
    and ann: "rd m' (bar_loc c b ph (BPhase t)) = of_nat (announced q')"
  shows "bar_inv c b ph n (qs(t := q')) m'"
proof -
  have z: "(qs(t := q')) (0, 0) = qs (0, 0)" using t(2) by auto
  note D = bar_invD [OF I]
  have "bar_role u ((qs(t := q')) u) \<and> announced ((qs(t := q')) u) \<le> n" if "in_group c u" for u
    using D(2,3) [OF that] role t(2) by (auto simp: bar_role_def)
  moreover have "member_ok (released c u (qs (0, 0))) (rd m' (bar_loc c b ph (BAlert u))) ((qs(t := q')) u)"
    if "in_group c u" "u \<noteq> (0, 0)" for u
    using D(8) [OF that] alert [OF that(1)] ok by (cases "u = t") auto
  moreover have "joins ((qs(t := q')) u) \<le> Suc (resets (qs (0, 0)))" if "in_group c u" for u
    using D(9) [OF that] joins by auto
  moreover have "gathered (qs (0, 0)) \<longrightarrow> rnd (qs (0, 0)) < joins ((qs(t := q')) u)" if "in_group c u" for u
    using D(10) [OF _ that] joins by auto
  moreover have "rd m' (bar_loc c b ph (BPhase u)) = of_nat (announced ((qs(t := q')) u))" if "in_group c u" for u
    using D(11) [OF that] phase [OF that] ann by (cases "u = t") auto
  ultimately show ?thesis
    unfolding bar_inv_def z using D(1,4) coord lock count wrote
    by - (intro conjI allI impI ballI; (assumption | simp | blast))
qed

lemma member_step:
  assumes t: "in_group c t" "t \<noteq> (0, 0)" and I: "bar_inv c b ph n qs m" and n: "bar_next c b ph n t (qs t) m = (q', m')"
  shows "bar_inv c b ph n (qs(t := q')) m'"
proof -
  note D = bar_invD [OF I]
  note put = bar_rd_put [OF D(1)] and hu = holders_upd [OF t(1)]
  have ht: "t \<in> holders c qs \<longleftrightarrow> holds_lock (qs t)" using t by (simp add: holders_def)
  have h0: "\<not> holds_lock (qs (0, 0))" if "holds_lock (qs t)"
  proof
    assume "holds_lock (qs (0, 0))"
    then have "(0, 0) \<in> holders c qs" "t \<in> holders c qs"
      using that t D(1) by (auto simp: holders_def bar_layout_def in_group_def group_fits_def)
    then show False using D(5) t(2) by fastforce
  qed
  have hs: "holders c qs = {t}" if "holds_lock (qs t)" using that ht D(5) by auto
  have mo: "member_ok (released c t (qs (0, 0))) (rd m (bar_loc c b ph (BAlert t))) (qs t)" using D(8) t by blast
  have same: "joined_set c (qs(t := q')) = joined_set c qs" if "joins q' = joins (qs t)"
    using joined_set_same [of c t q' qs] t that by blast
  have wr: "v = rd m (bar_loc c b ph BCount)" if "u \<in> holders c qs" "qs u = BWr r v" for u r v
    using D(7) that by blast
  note F = mo t ht D(3) [of t] D(4,5,6) D(9) [of t] D(10) [of t] D(11) [of t]
  show ?thesis
  proof (cases "qs t")
    case (BPh r)
    show ?thesis
    proof (cases "r < n")
      case True
      with BPh n have q: "q' = BLock r" "m' = put32 c (bar_loc c b ph (BPhase t)) (of_nat (Suc r)) m" by auto
      have j: "joined_set c (qs(t := q')) = joined_set c qs" using same q BPh by simp
      show ?thesis
        by (rule member_inv_upd [OF t I]) (use F hs wr BPh q True in \<open>auto simp: put hu j [unfolded q] split: if_splits\<close>)
    next
      case False
      then show ?thesis using BPh n I by (simp add: fun_upd_idem)
    qed
  next
    case (BLock r)
    with n have q: "q' = BSwap r" "m' = m" by auto
    have j: "joined_set c (qs(t := q')) = joined_set c qs" using same q BLock by simp
    show ?thesis
      by (rule member_inv_upd [OF t I]) (use F hs wr BLock q in \<open>auto simp: put hu j [unfolded q] split: if_splits\<close>)
  next
    case (BSwap r)
    with n have q: "q' = (if rd m (bar_loc c b ph BMutex) \<noteq> 1 then BRd r else BLock r)" "m' = put32 c (bar_loc c b ph BMutex) 1 m" by auto
    have j: "joined_set c (qs(t := q')) = joined_set c qs" using same q BSwap by simp
    show ?thesis
      by (rule member_inv_upd [OF t I]) (use F hs wr BSwap q in \<open>auto simp: put hu j [unfolded q] split: if_splits\<close>)
  next
    case (BRd r)
    with n have q: "q' = BWr r (rd m (bar_loc c b ph BCount))" "m' = m" by auto
    have j: "joined_set c (qs(t := q')) = joined_set c qs" using same q BRd by simp
    show ?thesis
      by (rule member_inv_upd [OF t I]) (use F hs wr BRd q j [unfolded q D(6)] in \<open>auto simp: put hu split: if_splits\<close>)
  next
    case (BWr r v)
    with n have q: "q' = BUnl r" "m' = put32 c (bar_loc c b ph BCount) (v + 1) m" by auto
    have R: "rnd (qs (0, 0)) = r" "resets (qs (0, 0)) = r"
      using mo BWr h0 by (auto simp: released_free)
    have "t \<notin> joined_set c qs" using R BWr by (simp add: joined_set_def)
    moreover have "joined_set c (qs(t := q')) = insert t (joined_set c qs)"
      using joined_set_upd [of c t q' qs] t q R by simp
    ultimately have j: "card (joined_set c (qs(t := q'))) = Suc (card (joined_set c qs))" by simp
    show ?thesis
      by (rule member_inv_upd [OF t I]) (use F hs wr [of t] BWr q R in \<open>auto simp: put hu j [unfolded q] split: if_splits\<close>)
  next
    case (BUnl r)
    with n t(2) have q: "q' = BWait r" "m' = put32 c (bar_loc c b ph BMutex) 0 m" by auto
    have j: "joined_set c (qs(t := q')) = joined_set c qs" using same q BUnl by simp
    show ?thesis
      by (rule member_inv_upd [OF t I]) (use F hs wr BUnl q in \<open>auto simp: put hu j [unfolded q] split: if_splits\<close>)
  next
    case (BWait r)
    with n have q: "q' = BLr r" "m' = m" by auto
    have j: "joined_set c (qs(t := q')) = joined_set c qs" using same q BWait by simp
    show ?thesis
      by (rule member_inv_upd [OF t I]) (use F hs wr BWait q in \<open>auto simp: put hu j [unfolded q] split: if_splits\<close>)
  next
    case (BLr r)
    with n have q: "q' = (if rd m (bar_loc c b ph (BAlert t)) = 1 then BClr r else BLra r)" "m' = m" by auto
    have j: "joined_set c (qs(t := q')) = joined_set c qs" using same q BLr by simp
    show ?thesis
      by (rule member_inv_upd [OF t I]) (use F hs wr BLr q in \<open>auto simp: put hu j [unfolded q] split: if_splits\<close>)
  next
    case (BLra r)
    with n have q: "q' = (if rd m (bar_loc c b ph (BAlert t)) = 1 then BClr r else BWait r)" "m' = m" by auto
    have j: "joined_set c (qs(t := q')) = joined_set c qs" using same q BLra by simp
    show ?thesis
      by (rule member_inv_upd [OF t I]) (use F hs wr BLra q in \<open>auto simp: put hu j [unfolded q] split: if_splits\<close>)
  next
    case (BClr r)
    with n have q: "q' = BPh (Suc r)" "m' = put32 c (bar_loc c b ph (BAlert t)) 0 m" by auto
    have j: "joined_set c (qs(t := q')) = joined_set c qs" using same q BClr by simp
    show ?thesis
      by (rule member_inv_upd [OF t I]) (use F hs wr BClr q in \<open>auto simp: put hu j [unfolded q] split: if_splits\<close>)
  qed (use D(2) [OF t(1)] t(2) in \<open>simp_all add: bar_role_def\<close>)
qed


text \<open>What a step of the chief has to establish.\<close>

lemma chief_inv_upd:
  assumes I: "bar_inv c b ph n qs m"
    and role: "\<not> member_only q'" "announced q' \<le> n"
    and coord: "rd m' (bar_loc c b ph BCoord) = rd m (bar_loc c b ph BCoord)"
    and phase: "\<And>u. in_group c u \<Longrightarrow> u \<noteq> (0, 0) \<Longrightarrow> rd m' (bar_loc c b ph (BPhase u)) = rd m (bar_loc c b ph (BPhase u))"
    and lock: "rd m' (bar_loc c b ph BMutex) = 0 \<and> holders c (qs((0, 0) := q')) = {}
      \<or> rd m' (bar_loc c b ph BMutex) = 1 \<and> (\<exists>h. holders c (qs((0, 0) := q')) = {h})"
    and count: "rd m' (bar_loc c b ph BCount) = of_nat (card (joined_set c (qs((0, 0) := q'))))"
    and wrote: "\<And>u r v. u \<in> holders c (qs((0, 0) := q')) \<Longrightarrow> (qs((0, 0) := q')) u = BWr r v \<Longrightarrow> v = rd m' (bar_loc c b ph BCount)"
    and ok: "\<And>u. in_group c u \<Longrightarrow> u \<noteq> (0, 0) \<Longrightarrow> member_ok (released c u q') (rd m' (bar_loc c b ph (BAlert u))) (qs u)"
    and joins: "joins q' \<le> Suc (resets q')" "resets (qs (0, 0)) \<le> resets q'"
    and gath: "\<And>u. gathered q' \<Longrightarrow> in_group c u \<Longrightarrow> rnd q' < joins ((qs((0, 0) := q')) u)"
    and ann: "rd m' (bar_loc c b ph (BPhase (0, 0))) = of_nat (announced q')"
  shows "bar_inv c b ph n (qs((0, 0) := q')) m'"
proof -
  let ?qs = "qs((0, 0) := q')"
  have z: "?qs (0, 0) = q'" by simp
  note D = bar_invD [OF I]
  have "bar_role u (?qs u) \<and> announced (?qs u) \<le> n" if "in_group c u" for u
    using D(2,3) [OF that] role by (auto simp: bar_role_def)
  moreover have "member_ok (released c u q') (rd m' (bar_loc c b ph (BAlert u))) (?qs u)"
    if "in_group c u" "u \<noteq> (0, 0)" for u
    using ok [OF that] that by auto
  moreover have "joins (?qs u) \<le> Suc (resets q')" if "in_group c u" for u
    using D(9) [OF that] joins by (cases "u = (0, 0)") auto
  moreover have "rd m' (bar_loc c b ph (BPhase u)) = of_nat (announced (?qs u))" if "in_group c u" for u
    using D(11) [OF that] phase [OF that] ann by (cases "u = (0, 0)") auto
  ultimately show ?thesis
    unfolding bar_inv_def z using D(1,4) coord lock count wrote gath
    by - (intro conjI allI impI ballI; (assumption | simp | blast))
qed


lemma joined_all:
  assumes L: "bar_layout c b ph" and "of_nat (card (joined_set c qs)) = bar_num_threads (bar_coords c)" and "in_group c u"
  shows "resets (qs (0, 0)) < joins (qs u)"
proof -
  have g: "group_fits c" using L by (simp add: bar_layout_def)
  have sub: "joined_set c qs \<subseteq> group_tiles c" by (auto simp: joined_set_def group_tiles_def)
  have "card (joined_set c qs) \<le> card (group_tiles c)" using sub by (simp add: card_mono)
  then have "card (joined_set c qs) < 2 ^ 32" "card (group_tiles c) < 2 ^ 32" using card_group(2) [OF g] by simp_all
  moreover have "(of_nat (card (joined_set c qs)) :: u32) = of_nat (card (group_tiles c))"
    using assms(2) bar_num_group [OF g] by metis
  ultimately have "card (joined_set c qs) = card (group_tiles c)"
    by (metis unat_of_nat_lt)
  then have "joined_set c qs = group_tiles c" using sub by (simp add: card_subset_eq)
  then show ?thesis using assms(3) by (auto simp: joined_set_def group_tiles_def)
qed

lemma member_alert:
  assumes "member_ok r al q" and "r < joins q" and "\<not> holds_lock q" and "\<not> chief_only q"
  shows "member_ok (Suc r) 1 q"
  using assms by (cases q) auto

lemma chief_step:
  assumes I: "bar_inv c b ph n qs m" and n: "bar_next c b ph n (0, 0) (qs (0, 0)) m = (q', m')"
  shows "bar_inv c b ph n (qs((0, 0) := q')) m'"
proof -
  note D = bar_invD [OF I]
  have t: "in_group c (0, 0)" using D(1) by (auto simp: bar_layout_def in_group_def group_fits_def)
  note put = bar_rd_put [OF D(1)] and hu = holders_upd [OF t]
  have ht: "(0, 0) \<in> holders c qs \<longleftrightarrow> holds_lock (qs (0, 0))" using t by (simp add: holders_def)
  have hs: "holders c qs = {(0, 0)}" if "holds_lock (qs (0, 0))" using that ht D(5) by auto
  have same: "joined_set c (qs((0, 0) := q')) = joined_set c qs"
    if "joins q' = joins (qs (0, 0))" "resets q' = resets (qs (0, 0))"
    using joined_set_same [of c "(0, 0)" q' qs] t that by blast
  have wr: "v = rd m (bar_loc c b ph BCount)" if "u \<in> holders c qs" "qs u = BWr r v" for u r v
    using D(7) that by blast
  have all: "resets (qs (0, 0)) < joins (qs u)" if "rd m (bar_loc c b ph BCount) = bar_num_threads (bar_coords c)" "in_group c u" for u
    using joined_all [OF D(1) _ that(2)] that(1) D(6) by simp
  note F = t ht hs D(3) [OF t] D(4,5,6,8) D(9) [OF t] D(10) D(11) [OF t]
  show ?thesis
  proof (cases "qs (0, 0)")
    case (BPh r)
    show ?thesis
    proof (cases "r < n")
      case True
      with BPh n have q: "q' = BLock r" "m' = put32 c (bar_loc c b ph (BPhase (0, 0))) (of_nat (Suc r)) m" by auto
      have j: "joined_set c (qs((0, 0) := q')) = joined_set c qs" using same q BPh by simp
      show ?thesis
        by (rule chief_inv_upd [OF I]) (use F wr BPh q j [unfolded q D(6)] True in \<open>auto simp: put hu split: if_splits\<close>)
    next
      case False
      then show ?thesis using BPh n I by (simp add: fun_upd_idem)
    qed
  next
    case (BLock r)
    with n have q: "q' = BSwap r" "m' = m" by auto
    have j: "joined_set c (qs((0, 0) := q')) = joined_set c qs" using same q BLock by simp
    show ?thesis
      by (rule chief_inv_upd [OF I]) (use F wr BLock q j [unfolded q D(6)]  in \<open>auto simp: put hu split: if_splits\<close>)
  next
    case (BSwap r)
    with n have q: "q' = (if rd m (bar_loc c b ph BMutex) \<noteq> 1 then BRd r else BLock r)" "m' = put32 c (bar_loc c b ph BMutex) 1 m" by auto
    have j: "joined_set c (qs((0, 0) := q')) = joined_set c qs" using same q BSwap by simp
    show ?thesis
      by (rule chief_inv_upd [OF I]) (use F wr BSwap q j [unfolded q D(6)]  in \<open>auto simp: put hu split: if_splits\<close>)
  next
    case (BRd r)
    with n have q: "q' = BWr r (rd m (bar_loc c b ph BCount))" "m' = m" by auto
    have j: "joined_set c (qs((0, 0) := q')) = joined_set c qs" using same q BRd by simp
    show ?thesis
      by (rule chief_inv_upd [OF I]) (use F wr BRd q j [unfolded q D(6)]  in \<open>auto simp: put hu split: if_splits\<close>)
  next
    case (BWr r v)
    with n have q: "q' = BUnl r" "m' = put32 c (bar_loc c b ph BCount) (v + 1) m" by auto
    have "(0, 0) \<notin> joined_set c qs" using BWr by (simp add: joined_set_def)
    moreover have "joined_set c (qs((0, 0) := q')) = insert (0, 0) (joined_set c qs)"
      using joined_set_upd [of c "(0, 0)" q' qs] t q BWr by simp
    ultimately have j: "card (joined_set c (qs((0, 0) := q'))) = Suc (card (joined_set c qs))" by simp
    show ?thesis
      by (rule chief_inv_upd [OF I]) (use F wr [of "(0, 0)"] BWr q j [unfolded q] in \<open>auto simp: put hu split: if_splits\<close>)
  next
    case (BUnl r)
    with n have q: "q' = CNum r" "m' = put32 c (bar_loc c b ph BMutex) 0 m" by auto
    have j: "joined_set c (qs((0, 0) := q')) = joined_set c qs" using same q BUnl by simp
    show ?thesis
      by (rule chief_inv_upd [OF I]) (use F wr BUnl q j [unfolded q D(6)]  in \<open>auto simp: put hu split: if_splits\<close>)
  next
    case (CNum r)
    with n have q: "q' = CWait r" "m' = m" by auto
    have j: "joined_set c (qs((0, 0) := q')) = joined_set c qs" using same q CNum by simp
    show ?thesis
      by (rule chief_inv_upd [OF I]) (use F wr CNum q j [unfolded q D(6)]  in \<open>auto simp: put hu split: if_splits\<close>)
  next
    case (CWait r)
    with n have q: "q' = CLr r" "m' = m" by auto
    have j: "joined_set c (qs((0, 0) := q')) = joined_set c qs" using same q CWait by simp
    show ?thesis
      by (rule chief_inv_upd [OF I]) (use F wr CWait q j [unfolded q D(6)]  in \<open>auto simp: put hu split: if_splits\<close>)
  next
    case (CLr r)
    with n have q: "q' = (if rd m (bar_loc c b ph BCount) = bar_num_threads (bar_coords c) then CLock r else CLra r)" "m' = m" by auto
    have j: "joined_set c (qs((0, 0) := q')) = joined_set c qs" using same q CLr by simp
    show ?thesis
      by (rule chief_inv_upd [OF I]) (use F wr CLr q j [unfolded q D(6)] all in \<open>auto simp: put hu split: if_splits\<close>)
  next
    case (CLra r)
    with n have q: "q' = (if rd m (bar_loc c b ph BCount) = bar_num_threads (bar_coords c) then CLock r else CWait r)" "m' = m" by auto
    have j: "joined_set c (qs((0, 0) := q')) = joined_set c qs" using same q CLra by simp
    show ?thesis
      by (rule chief_inv_upd [OF I]) (use F wr CLra q j [unfolded q D(6)] all in \<open>auto simp: put hu split: if_splits\<close>)
  next
    case (CLock r)
    with n have q: "q' = CSwap r" "m' = m" by auto
    have j: "joined_set c (qs((0, 0) := q')) = joined_set c qs" using same q CLock by simp
    show ?thesis
      by (rule chief_inv_upd [OF I]) (use F wr CLock q j [unfolded q D(6)]  in \<open>auto simp: put hu split: if_splits\<close>)
  next
    case (CSwap r)
    with n have q: "q' = (if rd m (bar_loc c b ph BMutex) \<noteq> 1 then CCoord r else CLock r)" "m' = put32 c (bar_loc c b ph BMutex) 1 m" by auto
    have j: "joined_set c (qs((0, 0) := q')) = joined_set c qs" using same q CSwap by simp
    show ?thesis
      by (rule chief_inv_upd [OF I]) (use F wr CSwap q j [unfolded q D(6)]  in \<open>auto simp: put hu split: if_splits\<close>)
  next
    case (CCoord r)
    with n have q: "q' = CAlert r 0" "m' = m" by auto
    have j: "joined_set c (qs((0, 0) := q')) = joined_set c qs" using same q CCoord by simp
    show ?thesis
      by (rule chief_inv_upd [OF I]) (use F wr CCoord q j [unfolded q D(6)]  in \<open>auto simp: put hu split: if_splits\<close>)
  next
    case (CAlert r k)
    let ?ts = "bar_tiles (bar_coords c)"
    have ts: "set ?ts = group_tiles c" "distinct ?ts" using D(1) bar_tiles_group by (auto simp: bar_layout_def)
    show ?thesis
    proof (cases "k < length ?ts")
      case True
      with CAlert n have q: "q' = CAlert r (Suc k)" "m' = put32 c (bar_loc c b ph (BAlert (?ts ! k))) 1 m" by auto
      have j: "joined_set c (qs((0, 0) := q')) = joined_set c qs" using same q CAlert by simp
      have g: "in_group c (?ts ! k)" using ts True nth_mem by (auto simp: group_tiles_def)
      have tk: "u \<in> set (take (Suc k) ?ts) \<longleftrightarrow> u = ?ts ! k \<or> u \<in> set (take k ?ts)" for u
        using True by (auto simp: take_Suc_conv_app_nth)
      have nk: "?ts ! k \<notin> set (take k ?ts)"
        using ts(2) True by (metis Cons_nth_drop_Suc append_take_drop_id distinct_append disjoint_iff list.set_intros(1))
      have ok: "member_ok (released c u q') (rd m' (bar_loc c b ph (BAlert u))) (qs u)" if u: "in_group c u" "u \<noteq> (0, 0)" for u
      proof (cases "u = ?ts ! k")
        case True
        have "member_ok r (rd m (bar_loc c b ph (BAlert u))) (qs u)" using D(8) [OF u] CAlert nk True by simp
        moreover have "\<not> holds_lock (qs u)" using hs u CAlert by (auto simp: holders_def)
        moreover have "\<not> chief_only (qs u)" using D(2) [OF u(1)] u(2) by (simp add: bar_role_def)
        ultimately have "member_ok (Suc r) 1 (qs u)" using member_alert D(10) [OF _ u(1)] CAlert by simp
        then show ?thesis using q u g True by (simp add: put tk)
      next
        case False
        then show ?thesis using D(8) [OF u] CAlert q u g by (simp add: put tk)
      qed
      show ?thesis
        by (rule chief_inv_upd [OF I]) (use F wr CAlert q j [unfolded q D(6)] g ok in \<open>auto simp: put hu split: if_splits\<close>)
    next
      case False
      with CAlert n have q: "q' = CUnl r" "m' = put32 c (bar_loc c b ph BCount) 0 m" by auto
      have "\<not> Suc r < joins ((qs((0, 0) := q')) u)" if "in_group c u" for u
        using D(9) [OF that] CAlert q by auto
      then have j: "joined_set c (qs((0, 0) := q')) = {}" using q by (auto simp: joined_set_def)
      have ok: "member_ok (released c u q') (rd m' (bar_loc c b ph (BAlert u))) (qs u)" if u: "in_group c u" "u \<noteq> (0, 0)" for u
        using D(8) [OF u] CAlert q u ts(1) False by (simp add: put group_tiles_def)
      show ?thesis
        by (rule chief_inv_upd [OF I]) (use F CAlert q j [unfolded q] ok D(10) in \<open>auto simp: put hu split: if_splits\<close>)
    qed
  next
    case (CUnl r)
    with n have q: "q' = BPh (Suc r)" "m' = put32 c (bar_loc c b ph BMutex) 0 m" by auto
    have j: "joined_set c (qs((0, 0) := q')) = joined_set c qs" using same q CUnl by simp
    show ?thesis
      by (rule chief_inv_upd [OF I]) (use F wr CUnl q j [unfolded q D(6)]  in \<open>auto simp: put hu split: if_splits\<close>)
  qed (use D(2) [OF t] in \<open>simp_all add: bar_role_def\<close>)
qed

lemma bar_inv_step:
  assumes "in_group c t" and "bar_inv c b ph n qs m" and "bar_next c b ph n t (qs t) m = (q', m')"
  shows "bar_inv c b ph n (qs(t := q')) m'"
proof (cases "t = (0, 0)")
  case True
  then show ?thesis using chief_step assms by blast
next
  case False
  then show ?thesis using member_step assms by blast
qed

interpretation bar: control_points c "bar_prog c b ph n" "bar_next c b ph n" "bar_inv c b ph n" for c b ph n
proof unfold_locales
  fix t qs m
  assume "in_group c t" "bar_inv c b ph n qs m"
  then show "pstep c t (bar_prog c b ph n t (qs t), m)
    = (bar_prog c b ph n t (fst (bar_next c b ph n t (qs t) m)), snd (bar_next c b ph n t (qs t) m))"
    by (intro bar_code_step) (auto dest: bar_invD)
qed (rule bar_inv_step)

text \<open>The state in which the rounds start: the initialiser of the barrier in memory, own words zero.\<close>

definition bar_start :: "cfg \<Rightarrow> u32 \<Rightarrow> u32 \<Rightarrow> machine \<Rightarrow> bool" where
  "bar_start c b ph m \<longleftrightarrow>
     (\<forall>t. in_group c t \<longrightarrow> rd m (tile_npa c t ph) = 0 \<and>
        (\<forall>k < 4. rd m (tile_npa c t (b + 4 * of_nat k)) = BSG_BARRIER_INIT 0 (bsg_tiles_X c - 1) 0 (bsg_tiles_Y c - 1) ! k))"

lemma bar_inv_start:
  assumes "bar_layout c b ph" and "bar_start c b ph m"
  shows "bar_inv c b ph n (\<lambda>t. BPh 0) m"
proof -
  have g: "in_group c (0, 0)" using assms(1) by (auto simp: bar_layout_def in_group_def group_fits_def)
  let ?I = "BSG_BARRIER_INIT 0 (bsg_tiles_X c - 1) 0 (bsg_tiles_Y c - 1)"
  have w: "rd m (tile_npa c t (b + 4 * of_nat k)) = ?I ! k" if "in_group c t" "k < 4" for t k
    using assms(2) that by (auto simp: bar_start_def)
  have "rd m (tile_npa c (0, 0) b) = 0" "rd m (tile_npa c (0, 0) (b + 4)) = 0" "rd m (tile_npa c (0, 0) (b + 8)) = bar_coords c"
    using w [OF g, of 0] w [OF g, of 1] w [OF g, of 2] by (simp_all add: BSG_BARRIER_INIT_def bar_coords_def)
  moreover have "rd m (tile_npa c t (b + 12)) = 0" if "in_group c t" for t
    using w [OF that, of 3] by (simp add: BSG_BARRIER_INIT_def alert_init_def)
  ultimately show ?thesis
    using assms by (auto simp: bar_inv_def bar_role_def holders_def joined_set_def bar_loc.simps bar_start_def)
qed

lemma bar_reachable:
  assumes "bar_layout c b ph" and "bar_start c b ph m0" and "reachable c (\<lambda>t. bar_rounds b ph n t 0, m0) s"
  obtains qs where "fst s = (\<lambda>t. bar_prog c b ph n t (qs t))" and "bar_inv c b ph n qs (snd s)"
  using bar.reachable_inv [of c b ph n "\<lambda>t. BPh 0" m0 s] bar_inv_start [OF assms(1,2)] assms(3) by auto

section \<open>Nobody leaves early\<close>

text \<open>A tile has left \<open>r\<close> rounds when it is about to announce the next one, or has returned after the last.\<close>

definition has_left :: "u32 \<Rightarrow> nat \<Rightarrow> proc \<Rightarrow> nat \<Rightarrow> bool" where
  "has_left ph n pr r \<longleftrightarrow> r < n \<and> next_op pr = Some (Store32 ph (of_nat (Suc r))) \<or> r = n \<and> (\<exists>v. pr = Ret v)"

lemma released_joined:
  assumes I: "bar_inv c b ph n qs m" and "in_group c t" and "in_group c u"
  shows "rnd (qs t) \<le> joins (qs u)"
proof -
  note D = bar_invD [OF I]
  let ?R = "rnd (qs (0, 0))"
  have g: "in_group c (0, 0)" using D(1) by (auto simp: bar_layout_def in_group_def group_fits_def)
  have j: "?R \<le> joins (qs u)"
  proof (cases "u = (0, 0)")
    case True
    then show ?thesis by (cases "qs (0, 0)") auto
  next
    case False
    have "?R \<le> released c u (qs (0, 0))" by (cases "qs (0, 0)") auto
    also have "\<dots> \<le> joins (qs u)"
      using D(8) [OF assms(3) False] by (cases "qs u") (auto simp: member_ok_def)
    finally show ?thesis .
  qed
  show ?thesis
  proof (cases "t = (0, 0)")
    case True
    then show ?thesis using j by simp
  next
    case False
    have r: "rnd (qs t) \<le> released c t (qs (0, 0))" using D(8) [OF assms(2) False] by (auto simp: member_ok_def)
    show ?thesis
    proof (cases "gathered (qs (0, 0))")
      case True
      have "released c t (qs (0, 0)) \<le> Suc ?R" by (cases "qs (0, 0)") auto
      then show ?thesis using D(10) [OF True assms(3)] r by simp
    next
      case False
      then have "released c t (qs (0, 0)) = ?R" by (cases "qs (0, 0)") auto
      then show ?thesis using j r by simp
    qed
  qed
qed

lemma has_left_rnd:
  assumes L: "bar_layout c b ph" and n: "n < 2 ^ 32" and a: "announced q \<le> n" and r: "bar_role t q"
    and h: "has_left ph n (bar_prog c b ph n t q) r"
  shows "rnd q = r"
proof -
  note o = bar_offsets [OF L]
  have ph: "ph \<noteq> bar_rp b + 4" "ph \<noteq> bsg_local_ptr (bar_rp b + 12)" "ph \<noteq> bsg_remote_ptr x y (bar_rp b + 12)"
    "ph \<noteq> bar_rp (bar_rp b + 4)" for x y
  proof -
    have rem: "ph \<noteq> bsg_remote_ptr x y a" for x y a
      using bit_field_False [OF o(5), of 29] bit_eva [of 29 24 y 18 x a 29] unfolding bsg_remote_ptr_shape by auto
    have "unat (b + 12) < 2 ^ 18" using o(8) L unfolding bar_layout_def by linarith
    then have "bsg_local_ptr (bar_rp b + 12) = b + 12" unfolding o(3) by (rule bsg_local_ptr_remote)
    moreover have "unat ph \<noteq> unat (b + 12)" using o(8) L unfolding bar_layout_def by linarith
    ultimately show "ph \<noteq> bar_rp b + 4" "ph \<noteq> bsg_local_ptr (bar_rp b + 12)" "ph \<noteq> bsg_remote_ptr x y (bar_rp b + 12)"
      "ph \<noteq> bar_rp (bar_rp b + 4)" for x y
      using rem by (auto simp: o(1))
  qed
  show ?thesis
  proof (cases q)
    case (BPh r')
    then show ?thesis
    proof (cases "r' < n")
      case True
      then have "(of_nat (Suc r') :: u32) = of_nat (Suc r)" "r < n"
        using h BPh by (auto simp: has_left_def bar_rounds_step next_op_def)
      moreover have "unat (of_nat (Suc r') :: u32) = Suc r'" "unat (of_nat (Suc r) :: u32) = Suc r"
        using True \<open>r < n\<close> n by (intro unat_of_nat_lt, simp)+
      ultimately have "Suc r' = Suc r" by metis
      then show ?thesis using BPh by simp
    next
      case False
      then show ?thesis using h a BPh by (auto simp: has_left_def bar_rounds_end next_op_def)
    qed
  next
    case (CAlert r k)
    then show ?thesis using h ph
      by (cases "drop k (bar_tiles (bar_coords c))") (auto simp: has_left_def next_op_def bar_alerts_step)
  qed (use h in \<open>auto simp: has_left_def next_op_def bar_enter_def bar_write_def bar_joined_def bar_lock_def bar_locked_def bar_exit_def
      bar_leave_def wait_then_def ph split: if_splits\<close>)
qed

text \<open>
  C16: with the chief \<open>(0, 0)\<close>, when a tile has left \<open>r\<close> rounds of the barrier, every tile has announced at least \<open>r\<close>
  rounds, so all of them have arrived at the rounds it left; for any number of tiles and rounds
  and in every interleaving.
\<close>

lemma barrier_safety:
  assumes "bar_layout c b ph" and "bar_start c b ph m0" and "n < 2 ^ 32"
    and "reachable c (\<lambda>t. bar_rounds b ph n t 0, m0) s"
    and "in_group c t" and "has_left ph n (fst s t) r" and "in_group c u"
  shows "r \<le> unat (rd (snd s) (tile_npa c u ph))"
proof -
  obtain qs where f: "fst s = (\<lambda>t. bar_prog c b ph n t (qs t))" and I: "bar_inv c b ph n qs (snd s)"
    using bar_reachable [OF assms(1,2,4)] .
  note D = bar_invD [OF I]
  have "rnd (qs t) = r"
    using has_left_rnd [OF assms(1,3) D(3) [OF assms(5)] D(2) [OF assms(5)]] assms(6) f by simp
  then have "r \<le> joins (qs u)" using released_joined [OF I assms(5,7)] by simp
  also have "\<dots> \<le> announced (qs u)" by (cases "qs u") auto
  also have "\<dots> = unat (rd (snd s) (tile_npa c u ph))"
    using D(11) [OF assms(7)] D(3) [OF assms(7)] assms(3) by (simp add: bar_loc.simps unat_of_nat_lt)
  finally show ?thesis .
qed

section \<open>Everybody leaves\<close>

fun bar_rank :: "nat \<Rightarrow> nat \<Rightarrow> bar_state \<Rightarrow> nat" where
  "bar_rank L n (BPh r) = (n - r) * (L + 40)"
| "bar_rank L n (BLock r) = (n - Suc r) * (L + 40) + L + 30"
| "bar_rank L n (BSwap r) = (n - Suc r) * (L + 40) + L + 29"
| "bar_rank L n (BRd r) = (n - Suc r) * (L + 40) + L + 28"
| "bar_rank L n (BWr r v) = (n - Suc r) * (L + 40) + L + 27"
| "bar_rank L n (BUnl r) = (n - Suc r) * (L + 40) + L + 26"
| "bar_rank L n (BWait r) = (n - Suc r) * (L + 40) + 10"
| "bar_rank L n (BLr r) = (n - Suc r) * (L + 40) + 9"
| "bar_rank L n (BLra r) = (n - Suc r) * (L + 40) + 8"
| "bar_rank L n (BClr r) = (n - Suc r) * (L + 40) + 7"
| "bar_rank L n (CNum r) = (n - Suc r) * (L + 40) + L + 20"
| "bar_rank L n (CWait r) = (n - Suc r) * (L + 40) + L + 19"
| "bar_rank L n (CLr r) = (n - Suc r) * (L + 40) + L + 18"
| "bar_rank L n (CLra r) = (n - Suc r) * (L + 40) + L + 17"
| "bar_rank L n (CLock r) = (n - Suc r) * (L + 40) + L + 16"
| "bar_rank L n (CSwap r) = (n - Suc r) * (L + 40) + L + 15"
| "bar_rank L n (CCoord r) = (n - Suc r) * (L + 40) + L + 14"
| "bar_rank L n (CAlert r k) = (n - Suc r) * (L + 40) + (L - k) + 10"
| "bar_rank L n (CUnl r) = (n - Suc r) * (L + 40) + 5"

definition bar_ranks :: "cfg \<Rightarrow> nat \<Rightarrow> (tile \<Rightarrow> bar_state) \<Rightarrow> nat" where
  "bar_ranks c n qs = (\<Sum>t \<in> group_tiles c. bar_rank (length (bar_tiles (bar_coords c))) n (qs t))"

text \<open>When a tile's next step is not a retry.\<close>

fun bar_moves :: "cfg \<Rightarrow> u32 \<Rightarrow> u32 \<Rightarrow> nat \<Rightarrow> tile \<Rightarrow> bar_state \<Rightarrow> machine \<Rightarrow> bool" where
  "bar_moves c b ph n t (BPh r) m \<longleftrightarrow> r < n"
| "bar_moves c b ph n t (BSwap r) m \<longleftrightarrow> rd m (bar_loc c b ph BMutex) \<noteq> 1"
| "bar_moves c b ph n t (CSwap r) m \<longleftrightarrow> rd m (bar_loc c b ph BMutex) \<noteq> 1"
| "bar_moves c b ph n t (BWait r) m \<longleftrightarrow> rd m (bar_loc c b ph (BAlert t)) = 1"
| "bar_moves c b ph n t (BLr r) m \<longleftrightarrow> rd m (bar_loc c b ph (BAlert t)) = 1"
| "bar_moves c b ph n t (BLra r) m \<longleftrightarrow> rd m (bar_loc c b ph (BAlert t)) = 1"
| "bar_moves c b ph n t (CWait r) m \<longleftrightarrow> rd m (bar_loc c b ph BCount) = bar_num_threads (bar_coords c)"
| "bar_moves c b ph n t (CLr r) m \<longleftrightarrow> rd m (bar_loc c b ph BCount) = bar_num_threads (bar_coords c)"
| "bar_moves c b ph n t (CLra r) m \<longleftrightarrow> rd m (bar_loc c b ph BCount) = bar_num_threads (bar_coords c)"
| "bar_moves c b ph n t q m \<longleftrightarrow> True"

lemma bar_rank_round: "r < n \<Longrightarrow> (n - r) * k = (n - Suc r) * k + (k :: nat)"
proof -
  assume "r < n"
  then have e: "n - r = Suc (n - Suc r)" by simp
  show ?thesis unfolding e by simp
qed

lemma bar_rank_step:
  assumes "bar_moves c b ph n t q m"
  shows "bar_rank (length (bar_tiles (bar_coords c))) n (fst (bar_next c b ph n t q m))
    < bar_rank (length (bar_tiles (bar_coords c))) n q"
  using assms by (cases q) (auto simp: bar_rank_round)

lemma bar_someone_moves:
  assumes I: "bar_inv c b ph n qs m" and "\<not> (\<forall>t. in_group c t \<longrightarrow> qs t = BPh n)"
  shows "\<exists>t. in_group c t \<and> bar_moves c b ph n t (qs t) m"
proof (rule ccontr)
  assume N: "\<not> ?thesis"
  note D = bar_invD [OF I]
  have g: "in_group c (0, 0)" and gf: "group_fits c" using D(1) by (auto simp: bar_layout_def in_group_def group_fits_def)
  have nm: "\<not> bar_moves c b ph n t (qs t) m" if "in_group c t" for t using N that by blast
  have "holders c qs = {}"
  proof -
    have "\<not> holds_lock (qs t)" if "in_group c t" for t using nm [OF that] by (cases "qs t") auto
    then show ?thesis by (auto simp: holders_def)
  qed
  then have free: "rd m (bar_loc c b ph BMutex) = 0" "\<not> holds_lock (qs (0, 0))" using D(5) g by (auto simp: holders_def)
  have mem: "qs t = BPh n \<or> (rnd (qs t) = rnd (qs (0, 0)) \<and> joins (qs t) = Suc (rnd (qs t)) \<and> rnd (qs t) < n)"
    if t: "in_group c t" "t \<noteq> (0, 0)" for t
    using nm [OF t(1)] D(8) [OF t] D(3) [OF t(1)] D(2) [OF t(1)] t(2) free
    by (cases "qs t") (auto simp: released_free bar_role_def)
  have ch: "qs (0, 0) = BPh n \<or> (rnd (qs (0, 0)) < n \<and> joins (qs (0, 0)) = Suc (rnd (qs (0, 0)))
      \<and> rd m (bar_loc c b ph BCount) \<noteq> bar_num_threads (bar_coords c))"
    using nm [OF g] D(3) [OF g] D(2) [OF g] free by (cases "qs (0, 0)") (auto simp: bar_role_def)
  have rel: "rnd (qs t) = rnd (qs (0, 0))" if "in_group c t" "t \<noteq> (0, 0)" "qs t = BPh n" for t
    using D(8) [OF that(1,2)] that(3) free by (simp add: released_free)
  show False
  proof (cases "qs (0, 0) = BPh n")
    case True
    then have "qs t = BPh n" if "in_group c t" for t
      using mem [OF that] by (cases "t = (0, 0)") auto
    then show False using assms(2) by blast
  next
    case False
    then have c1: "rnd (qs (0, 0)) < n" "joins (qs (0, 0)) = Suc (rnd (qs (0, 0)))"
      "rd m (bar_loc c b ph BCount) \<noteq> bar_num_threads (bar_coords c)" using ch by auto
    have "rnd (qs (0, 0)) < joins (qs t)" if "in_group c t" for t
      using mem [OF that] rel [OF that] c1 by (cases "t = (0, 0)") auto
    then have "joined_set c qs = group_tiles c" using free by (auto simp: joined_set_def group_tiles_def released_free)
    then show False using c1(3) D(6) bar_num_group [OF gf] by simp
  qed
qed

lemma bar_can_leave:
  assumes "bar_layout c b ph" and "bar_start c b ph m0" and "reachable c (\<lambda>t. bar_rounds b ph n t 0, m0) s"
  shows "\<exists>s'. reachable c s s' \<and> (\<forall>t. in_group c t \<longrightarrow> fst s' t = Ret 0)"
proof -
  obtain qs where f: "fst s = (\<lambda>t. bar_prog c b ph n t (qs t))" and I: "bar_inv c b ph n qs (snd s)"
    using bar_reachable [OF assms] .
  have "\<exists>qs' m'. reachable c (\<lambda>t. bar_prog c b ph n t (qs t), snd s) (\<lambda>t. bar_prog c b ph n t (qs' t), m')
      \<and> bar_inv c b ph n qs' m' \<and> (\<forall>t. in_group c t \<longrightarrow> qs' t = BPh n)"
  proof (rule bar.can_reach [OF I, where rank = "bar_ranks c n"])
    fix qs m
    assume "bar_inv c b ph n qs m" "\<not> (\<forall>t. in_group c t \<longrightarrow> qs t = BPh n)"
    then obtain t where t: "in_group c t" "bar_moves c b ph n t (qs t) m" using bar_someone_moves by blast
    let ?q = "fst (bar_next c b ph n t (qs t) m)" and ?L = "length (bar_tiles (bar_coords c))"
    have "bar_ranks c n (qs(t := ?q)) + bar_rank ?L n (qs t) = bar_ranks c n qs + bar_rank ?L n ?q"
      unfolding bar_ranks_def by (rule sum_fun_upd) (use t in \<open>auto simp: group_tiles_def\<close>)
    then show "\<exists>t. in_group c t \<and> bar_ranks c n (qs(t := fst (bar_next c b ph n t (qs t) m))) < bar_ranks c n qs"
      using t bar_rank_step [OF t(2)] by (intro exI [of _ t]) linarith
  qed
  then obtain qs' m' where r: "reachable c (\<lambda>t. bar_prog c b ph n t (qs t), snd s) (\<lambda>t. bar_prog c b ph n t (qs' t), m')"
    and "\<forall>t. in_group c t \<longrightarrow> qs' t = BPh n" by blast
  then have "\<forall>t. in_group c t \<longrightarrow> fst (\<lambda>t. bar_prog c b ph n t (qs' t), m') t = Ret 0" by (auto simp: bar_rounds_end)
  moreover have "s = (\<lambda>t. bar_prog c b ph n t (qs t), snd s)" using f by (cases s) simp
  ultimately show ?thesis using r by metis
qed

text \<open>
  C17: with the chief \<open>(0, 0)\<close>, from every reachable state all tiles can still leave all rounds: the barrier never blocks for
  good.
\<close>

lemma barrier_no_deadlock:
  assumes "bar_layout c b ph" and "bar_start c b ph m0" and "reachable c (\<lambda>t. bar_rounds b ph n t 0, m0) s"
  shows "\<exists>s'. reachable c s s' \<and> finished c s'"
  using bar_can_leave [OF assms] by (auto simp: finished_def)

section \<open>An instance\<close>

text \<open>The barrier at address 64 and the own words at address 32 of a two by two group.\<close>

definition small_barrier :: machine where
  "small_barrier = \<lparr>mem = (\<lambda>p. case p of Endpoint x y a \<Rightarrow> if a = 73 \<or> a = 75 then 1 else 0 | Dram a \<Rightarrow> 0), io = []\<rparr>"

lemma small_bar_layout: "bar_layout small_cfg 64 32"
  by (simp add: bar_layout_def)

lemma small_bar_start: "bar_start small_cfg 64 32 small_barrier"
proof -
  have w: "rd small_barrier (tile_npa small_cfg t 72) = 0x01000100" "rd small_barrier (tile_npa small_cfg t 32) = 0"
    "rd small_barrier (tile_npa small_cfg t 64) = 0" "rd small_barrier (tile_npa small_cfg t 68) = 0"
    "rd small_barrier (tile_npa small_cfg t 76) = 0" for t
    by (simp_all add: rd_def small_barrier_def load32_def tile_npa_def)
  have i: "BSG_BARRIER_INIT 0 (bsg_tiles_X small_cfg - 1) 0 (bsg_tiles_Y small_cfg - 1) = [0, 0, 0x01000100, 0]"
    by (simp add: BSG_BARRIER_INIT_def small_cfg_def alert_init_def)
  have k: "k < 4 \<Longrightarrow> k = 0 \<or> k = 1 \<or> k = 2 \<or> k = 3" for k :: nat by auto
  show ?thesis
    unfolding bar_start_def i by (auto dest!: k simp: w numeral_3_eq_3 numeral_2_eq_2)
qed

lemma small_bar_left:
  obtains s where "reachable small_cfg (\<lambda>t. bar_rounds 64 32 3 t 0, small_barrier) s" "fst s (0, 0) = Ret 0"
proof -
  obtain s where "reachable small_cfg (\<lambda>t. bar_rounds 64 32 3 t 0, small_barrier) s"
      "\<forall>t. in_group small_cfg t \<longrightarrow> fst s t = Ret 0"
    using bar_can_leave [OF small_bar_layout small_bar_start reach_start] by blast
  moreover have "in_group small_cfg (0, 0)" by (simp add: in_group_def small_cfg_def)
  ultimately show ?thesis using that by blast
qed

text \<open>Tile \<open>(0, 0)\<close> has left three rounds, so all tiles have announced three.\<close>

lemma barrier_safety_witness:
  "\<exists>s. reachable small_cfg (\<lambda>t. bar_rounds 64 32 3 t 0, small_barrier) s
    \<and> (\<forall>u. in_group small_cfg u \<longrightarrow> 3 \<le> unat (rd (snd s) (tile_npa small_cfg u 32)))"
proof -
  obtain s where s: "reachable small_cfg (\<lambda>t. bar_rounds 64 32 3 t 0, small_barrier) s" "fst s (0, 0) = Ret 0"
    by (rule small_bar_left)
  have h: "has_left 32 3 (fst s (0, 0)) 3" by (simp add: has_left_def s(2))
  have g: "in_group small_cfg (0, 0)" by (simp add: in_group_def small_cfg_def)
  show ?thesis using barrier_safety [OF small_bar_layout small_bar_start _ s(1) g h] s(1) by auto
qed

lemma barrier_no_deadlock_witness:
  "\<exists>s. reachable small_cfg (\<lambda>t. bar_rounds 64 32 3 t 0, small_barrier) s \<and> finished small_cfg s"
  using barrier_no_deadlock [OF small_bar_layout small_bar_start reach_start] .

end
