(* ===== verification/Handshake.thy ===== *)
theory Handshake
  imports Barrier
begin

text \<open>
  Two-way handshakes between tiles, the pattern of the tree barriers. On an edge a child sets a byte
  at its parent (\<open>Ask\<close>), the parent polls the bytes of several edges (\<open>Gather\<close>), clears them
  (\<open>Drop\<close>), and later sets a word at the child (\<open>Grant\<close>), which the child waits for (\<open>Await\<close>) and
  clears (\<open>Ack\<close>). Every tile repeats a fixed sequence of such operations. If the operations of each
  edge come in this order in both sequences, no signal is lost or overwritten in any interleaving,
  and a child passes \<open>Await\<close> only after its parent passed \<open>Gather\<close> of the same round.
\<close>

section \<open>Polling a list of bytes\<close>

text \<open>One pass over the bytes: the index of the first zero, or the length.\<close>

primrec poll_scan :: "u32 list \<Rightarrow> u32 \<Rightarrow> proc" where
  "poll_scan [] i = Ret i"
| "poll_scan (p # ps) i = Act (Load8 p) (\<lambda>v. if v = 0 then Ret i else poll_scan ps (i + 1))"

section \<open>Operations and their programs\<close>

text \<open>
  \<open>Mark\<close> stores the number of the round in a word of the tile, by which the theorems observe that
  a tile has arrived. \<open>Zero\<close> is a redundant clearing of the word by the parent.
\<close>

datatype 'e hop = Mark | Ask 'e | Gather "'e list" | Drop 'e | Grant 'e | Await 'e | Ack 'e | Zero 'e

record 'e links =
  dask :: "'e \<Rightarrow> u32"
  dloc :: "'e \<Rightarrow> u32"
  agrant :: "'e \<Rightarrow> u32"
  aloc :: "'e \<Rightarrow> u32"
  phase :: u32
  stop :: "'e list \<Rightarrow> u32 \<Rightarrow> bool"

primrec hcode :: "'e links \<Rightarrow> nat \<Rightarrow> 'e hop \<Rightarrow> proc" where
  "hcode L r Mark = Act (Store32 (phase L) (of_nat (Suc r))) Ret"
| "hcode L r (Ask e) = Act (Store8 (dask L e) 1) Ret"
| "hcode L r (Gather es) = Loop (poll_scan (map (dloc L) es) 0) (stop L es) (\<lambda>_. Ret 0)"
| "hcode L r (Drop e) = Act (Store8 (dloc L e) 0) Ret"
| "hcode L r (Grant e) = Act (Store32 (agrant L e) 1) Ret"
| "hcode L r (Await e) = bsg_wait_local_int (aloc L e) 1"
| "hcode L r (Ack e) = Act (Store32 (aloc L e) 0) Ret"
| "hcode L r (Zero e) = Act (Store32 (aloc L e) 0) Ret"

definition hrounds :: "'e links \<Rightarrow> nat \<Rightarrow> 'e hop list \<Rightarrow> nat \<Rightarrow> proc" where
  "hrounds L n xs r = for_each [r..<n] (\<lambda>r. for_each xs (hcode L r))"

section \<open>Control states\<close>

datatype hsub = Start | Scan nat | Lr1 | Lr2

type_synonym hstate = "nat \<times> nat \<times> hsub"

definition hrest :: "'e links \<Rightarrow> nat \<Rightarrow> 'e hop list \<Rightarrow> nat \<Rightarrow> nat \<Rightarrow> proc" where
  "hrest L n xs r i = seq (for_each (drop i xs) (hcode L r)) (hrounds L n xs (Suc r))"

definition after_lr2 :: "u32 \<Rightarrow> proc \<Rightarrow> proc" where
  "after_lr2 a k = Act (Lr_aq a) (\<lambda>v. if v = 1 then k else wait_then a 1 k)"

definition after_lr1 :: "u32 \<Rightarrow> proc \<Rightarrow> proc" where
  "after_lr1 a k = Act (Lr a) (\<lambda>v. if v = 1 then k else after_lr2 a k)"

fun hprog :: "'e links \<Rightarrow> nat \<Rightarrow> 'e hop list \<Rightarrow> hstate \<Rightarrow> proc" where
  "hprog L n xs (r, i, Start) = (if r < n then hrest L n xs r i else Ret 0)"
| "hprog L n xs (r, i, Scan j) = (case xs ! i of
     Gather es \<Rightarrow> bind (poll_scan (map (dloc L) (drop j es)) (of_nat j))
       (\<lambda>v. if stop L es v then hrest L n xs r (Suc i)
            else Loop (poll_scan (map (dloc L) es) 0) (stop L es) (\<lambda>_. hrest L n xs r (Suc i)))
   | _ \<Rightarrow> Ret 0)"
| "hprog L n xs (r, i, Lr1) = (case xs ! i of Await e \<Rightarrow> after_lr1 (aloc L e) (hrest L n xs r (Suc i)) | _ \<Rightarrow> Ret 0)"
| "hprog L n xs (r, i, Lr2) = (case xs ! i of Await e \<Rightarrow> after_lr2 (aloc L e) (hrest L n xs r (Suc i)) | _ \<Rightarrow> Ret 0)"

datatype 'e hcell = DoneC 'e | AlertC 'e | PhaseC tile

definition put8 :: "cfg \<Rightarrow> npa \<Rightarrow> u8 \<Rightarrow> machine \<Rightarrow> machine" where
  "put8 c p v m = m\<lparr>mem := store8 (mem m) p v, io := io m @ io_log c p (ucast v)\<rparr>"

definition rd8 :: "machine \<Rightarrow> npa \<Rightarrow> u8" where
  "rd8 m p = load8 (mem m) p"

definition hadv :: "nat \<Rightarrow> nat \<Rightarrow> nat \<Rightarrow> hstate" where
  "hadv len r i = (if Suc i < len then (r, Suc i, Start) else (Suc r, 0, Start))"

fun hop_next :: "cfg \<Rightarrow> ('e hcell \<Rightarrow> npa) \<Rightarrow> nat \<Rightarrow> tile \<Rightarrow> nat \<Rightarrow> nat \<Rightarrow> hsub \<Rightarrow> 'e hop \<Rightarrow> machine \<Rightarrow> hstate \<times> machine" where
  "hop_next c loc len t r i s Mark m = (hadv len r i, put32 c (loc (PhaseC t)) (of_nat (Suc r)) m)"
| "hop_next c loc len t r i s (Ask e) m = (hadv len r i, put8 c (loc (DoneC e)) 1 m)"
| "hop_next c loc len t r i s (Drop e) m = (hadv len r i, put8 c (loc (DoneC e)) 0 m)"
| "hop_next c loc len t r i s (Grant e) m = (hadv len r i, put32 c (loc (AlertC e)) 1 m)"
| "hop_next c loc len t r i s (Ack e) m = (hadv len r i, put32 c (loc (AlertC e)) 0 m)"
| "hop_next c loc len t r i s (Zero e) m = (hadv len r i, put32 c (loc (AlertC e)) 0 m)"
| "hop_next c loc len t r i s (Gather es) m =
     (case s of Scan j \<Rightarrow>
        if rd8 m (loc (DoneC (es ! j))) = 0 then (r, i, Start)
        else if Suc j < length es then (r, i, Scan (Suc j)) else hadv len r i
      | _ \<Rightarrow> (r, i, Scan 0), m)"
| "hop_next c loc len t r i s (Await e) m =
     (case s of
        Lr1 \<Rightarrow> if rd m (loc (AlertC e)) = 1 then hadv len r i else (r, i, Lr2)
      | Lr2 \<Rightarrow> if rd m (loc (AlertC e)) = 1 then hadv len r i else (r, i, Start)
      | _ \<Rightarrow> (r, i, Lr1), m)"

definition hnext :: "cfg \<Rightarrow> ('e hcell \<Rightarrow> npa) \<Rightarrow> nat \<Rightarrow> (tile \<Rightarrow> 'e hop list) \<Rightarrow> tile \<Rightarrow> hstate \<Rightarrow> machine \<Rightarrow> hstate \<times> machine" where
  "hnext c loc n sc t q m = (case q of (r, i, s) \<Rightarrow>
     if r < n then hop_next c loc (length (sc t)) t r i s (sc t ! i) m else (q, m))"

section \<open>Counting operations\<close>

definition pcount :: "('e hop \<Rightarrow> bool) \<Rightarrow> 'e hop list \<Rightarrow> hstate \<Rightarrow> nat" where
  "pcount P xs q = fst q + (if \<exists>a \<in> set (take (fst (snd q)) xs). P a then 1 else 0)"

definition once :: "('a \<Rightarrow> bool) \<Rightarrow> 'a list \<Rightarrow> bool" where
  "once P xs \<longleftrightarrow> (\<exists>us a vs. xs = us @ a # vs \<and> P a \<and> (\<forall>x \<in> set us \<union> set vs. \<not> P x))"

definition precedes :: "('a \<Rightarrow> bool) \<Rightarrow> ('a \<Rightarrow> bool) \<Rightarrow> 'a list \<Rightarrow> bool" where
  "precedes P Q xs \<longleftrightarrow> (\<exists>us vs. xs = us @ vs \<and> (\<exists>a \<in> set us. P a) \<and> (\<forall>a \<in> set us. \<not> Q a))"

abbreviation gathers :: "'e \<Rightarrow> 'e hop \<Rightarrow> bool" where
  "gathers e a \<equiv> (\<exists>es. a = Gather es \<and> e \<in> set es)"

lemma once_at: "once P xs \<Longrightarrow> i < length xs \<Longrightarrow> P (xs ! i) \<Longrightarrow> a \<in> set (take i xs) \<Longrightarrow> \<not> P a"
proof -
  assume "once P xs" and i: "i < length xs" "P (xs ! i)" "a \<in> set (take i xs)"
  then obtain us b vs where x: "xs = us @ b # vs" "P b" "\<forall>x \<in> set us \<union> set vs. \<not> P x" by (auto simp: once_def)
  have "i = length us"
  proof (rule linorder_cases)
    assume "i < length us"
    then have "xs ! i \<in> set us" by (simp add: x(1) nth_append)
    then show ?thesis using x(3) i(2) by blast
  next
    assume "length us < i"
    then have "xs ! i \<in> set vs" using i(1) by (auto simp: x(1) nth_append nth_Cons split: nat.split)
    then show ?thesis using x(3) i(2) by blast
  qed
  then show ?thesis using x i(3) by auto
qed

lemma pcount_adv:
  assumes "once P xs" and "i < length xs"
  shows "pcount P xs (hadv (length xs) r i) = pcount P xs (r, i, s) + (if P (xs ! i) then 1 else 0)"
proof (cases "Suc i < length xs")
  case True
  then show ?thesis
    using once_at [OF assms] assms(2) by (auto simp: pcount_def hadv_def take_Suc_conv_app_nth)
next
  case False
  then have l: "length xs = Suc i" using assms(2) by simp
  have "\<exists>a \<in> set xs. P a" using assms(1) by (auto simp: once_def)
  moreover have "set xs = insert (xs ! i) (set (take i xs))"
    using take_Suc_conv_app_nth [OF assms(2)] l by (metis Un_insert_right list.set(1) list.set(2) set_append sup_bot.right_neutral take_all order_refl)
  ultimately show ?thesis
    using once_at [OF assms] l by (auto simp: pcount_def hadv_def)
qed

lemma pcount_order:
  assumes "precedes P Q xs" and "once P xs"
  shows "pcount Q xs q \<le> pcount P xs q" and "pcount P xs q \<le> Suc (pcount Q xs q)"
proof -
  obtain us vs where x: "xs = us @ vs" "\<exists>a \<in> set us. P a" "\<forall>a \<in> set us. \<not> Q a"
    using assms(1) by (auto simp: precedes_def)
  have "\<exists>a \<in> set (take i xs). P a" if "a \<in> set (take i xs)" "Q a" for a i
  proof (cases "i \<le> length us")
    case True
    then show ?thesis using that x by (auto dest: in_set_takeD)
  next
    case False
    then show ?thesis using x by auto
  qed
  then show "pcount Q xs q \<le> pcount P xs q" "pcount P xs q \<le> Suc (pcount Q xs q)"
    by (auto simp: pcount_def)
qed

lemma pcount_sub [simp]: "pcount P xs (r, i, Scan j) = pcount P xs (r, i, Start)"
  "pcount P xs (r, i, Lr1) = pcount P xs (r, i, Start)" "pcount P xs (r, i, Lr2) = pcount P xs (r, i, Start)"
  by (simp_all add: pcount_def)

lemma pcount_range: "fst q \<le> pcount P xs q" "pcount P xs q \<le> Suc (fst q)"
  by (simp_all add: pcount_def)

section \<open>Reading back bytes and words\<close>

lemma rd8_put8: "rd8 (put8 c p v m) q = (if q = p then v else rd8 m q)"
  by (simp add: rd8_def put8_def mem_simps)

lemma rd8_put32: "p \<notin> span4 q \<Longrightarrow> rd8 (put32 c q v m) p = rd8 m p"
  by (simp add: rd8_def put32_def load8_store32_other)

lemma rd_put8: "q \<notin> span4 p \<Longrightarrow> rd (put8 c q v m) p = rd m p"
  by (simp add: rd_def put8_def load32_store8_other)

definition hspan :: "('e hcell \<Rightarrow> npa) \<Rightarrow> 'e hcell \<Rightarrow> npa set" where
  "hspan loc k = (case k of DoneC e \<Rightarrow> {loc k} | _ \<Rightarrow> span4 (loc k))"

definition hcells_apart :: "('e hcell \<Rightarrow> npa) \<Rightarrow> 'e hcell set \<Rightarrow> bool" where
  "hcells_apart loc V \<longleftrightarrow> (\<forall>a \<in> V. \<forall>b \<in> V. a \<noteq> b \<longrightarrow> hspan loc a \<inter> hspan loc b = {})"

lemma hcells_apartD: "hcells_apart loc V \<Longrightarrow> a \<in> V \<Longrightarrow> b \<in> V \<Longrightarrow> a \<noteq> b \<Longrightarrow> hspan loc a \<inter> hspan loc b = {}"
  by (auto simp: hcells_apart_def)

lemma put_done:
  assumes "hcells_apart loc V" and "DoneC f \<in> V"
  shows "DoneC e \<in> V \<Longrightarrow> rd8 (put8 c (loc (DoneC f)) b m) (loc (DoneC e)) = (if e = f then b else rd8 m (loc (DoneC e)))"
    and "AlertC e \<in> V \<Longrightarrow> rd (put8 c (loc (DoneC f)) b m) (loc (AlertC e)) = rd m (loc (AlertC e))"
    and "PhaseC u \<in> V \<Longrightarrow> rd (put8 c (loc (DoneC f)) b m) (loc (PhaseC u)) = rd m (loc (PhaseC u))"
  using hcells_apartD [OF assms(1), of "DoneC e" "DoneC f"] hcells_apartD [OF assms(1), of "AlertC e" "DoneC f"]
    hcells_apartD [OF assms(1), of "PhaseC u" "DoneC f"] assms(2)
  by (auto simp: hspan_def rd8_put8 rd_put8)

lemma put_alert:
  assumes "hcells_apart loc V" and "AlertC f \<in> V"
  shows "DoneC e \<in> V \<Longrightarrow> rd8 (put32 c (loc (AlertC f)) v m) (loc (DoneC e)) = rd8 m (loc (DoneC e))"
    and "AlertC e \<in> V \<Longrightarrow> rd (put32 c (loc (AlertC f)) v m) (loc (AlertC e)) = (if e = f then v else rd m (loc (AlertC e)))"
    and "PhaseC u \<in> V \<Longrightarrow> rd (put32 c (loc (AlertC f)) v m) (loc (PhaseC u)) = rd m (loc (PhaseC u))"
  using hcells_apartD [OF assms(1), of "DoneC e" "AlertC f"] hcells_apartD [OF assms(1), of "AlertC e" "AlertC f"]
    hcells_apartD [OF assms(1), of "PhaseC u" "AlertC f"] assms(2)
  by (auto simp: hspan_def rd8_put32)

lemma put_phase:
  assumes "hcells_apart loc V" and "PhaseC t \<in> V"
  shows "DoneC e \<in> V \<Longrightarrow> rd8 (put32 c (loc (PhaseC t)) v m) (loc (DoneC e)) = rd8 m (loc (DoneC e))"
    and "AlertC e \<in> V \<Longrightarrow> rd (put32 c (loc (PhaseC t)) v m) (loc (AlertC e)) = rd m (loc (AlertC e))"
    and "PhaseC u \<in> V \<Longrightarrow> rd (put32 c (loc (PhaseC t)) v m) (loc (PhaseC u)) = (if u = t then v else rd m (loc (PhaseC u)))"
  using hcells_apartD [OF assms(1), of "DoneC e" "PhaseC t"] hcells_apartD [OF assms(1), of "AlertC e" "PhaseC t"]
    hcells_apartD [OF assms(1), of "PhaseC u" "PhaseC t"] assms(2)
  by (auto simp: hspan_def rd8_put32)

section \<open>Steps of the programs\<close>

lemma hrounds_unfold: "hrounds L n xs r = (if r < n then hrest L n xs r 0 else Ret 0)"
  by (simp add: hrounds_def hrest_def upt_conv_Cons)

lemma hrest_unfold: "i < length xs \<Longrightarrow> hrest L n xs r i = seq (hcode L r (xs ! i)) (hrest L n xs r (Suc i))"
  by (simp add: hrest_def Cons_nth_drop_Suc [symmetric])

lemma hprog_adv: "i < length xs \<Longrightarrow> r < n \<Longrightarrow> hprog L n xs (hadv (length xs) r i) = hrest L n xs r (Suc i)"
  using hrounds_unfold [of L n xs "Suc r"] by (auto simp: hadv_def hrest_def)

lemma poll_scan_at:
  "j < length es \<Longrightarrow> poll_scan (map f (drop j es)) (of_nat j) =
     Act (Load8 (f (es ! j))) (\<lambda>v. if v = 0 then Ret (of_nat j) else poll_scan (map f (drop (Suc j) es)) (of_nat (Suc j)))"
  by (auto simp: Cons_nth_drop_Suc [symmetric] fun_eq_iff ac_simps)

lemma ucast_byte_zero [simp]: "(ucast (b :: u8) = (0 :: u32)) \<longleftrightarrow> b = 0"
proof
  assume z: "ucast b = (0 :: u32)"
  have "b = ucast (ucast b :: u32)" by (rule bit_word_eqI) (simp add: bit_simps)
  then show "b = 0" using z by simp
qed simp

lemma pstep_wait: "pstep c t (wait_then a 1 k, m) = (after_lr1 a k, m)"
  by (auto simp: wait_then_def after_lr1_def after_lr2_def fun_eq_iff)

section \<open>The contract of an edge\<close>

fun hop_ok :: "'e set \<Rightarrow> ('e \<Rightarrow> tile) \<Rightarrow> ('e \<Rightarrow> tile) \<Rightarrow> tile \<Rightarrow> 'e hop \<Rightarrow> bool" where
  "hop_ok E child parent t Mark = True"
| "hop_ok E child parent t (Ask e) = (e \<in> E \<and> child e = t)"
| "hop_ok E child parent t (Await e) = (e \<in> E \<and> child e = t)"
| "hop_ok E child parent t (Ack e) = (e \<in> E \<and> child e = t)"
| "hop_ok E child parent t (Drop e) = (e \<in> E \<and> parent e = t)"
| "hop_ok E child parent t (Grant e) = (e \<in> E \<and> parent e = t)"
| "hop_ok E child parent t (Zero e) = (e \<in> E \<and> parent e = t \<and> child e = t)"
| "hop_ok E child parent t (Gather es) = (es \<noteq> [] \<and> (\<forall>e \<in> set es. e \<in> E \<and> parent e = t))"

definition hs_ok :: "'e hop list \<Rightarrow> nat \<Rightarrow> hstate \<Rightarrow> bool" where
  "hs_ok xs n q = (case q of (r, i, s) \<Rightarrow> i < length xs \<and> (if r < n
     then (case s of Start \<Rightarrow> True | Scan j \<Rightarrow> (\<exists>es. xs ! i = Gather es \<and> j < length es) | _ \<Rightarrow> (\<exists>e. xs ! i = Await e))
     else r = n \<and> i = 0 \<and> s = Start))"

locale handshake =
  fixes c :: cfg and n :: nat and sc :: "tile \<Rightarrow> 'e hop list" and E :: "'e set"
    and child :: "'e \<Rightarrow> tile" and parent :: "'e \<Rightarrow> tile" and L :: "'e links" and loc :: "'e hcell \<Rightarrow> npa"
  assumes tiles: "e \<in> E \<Longrightarrow> in_group c (child e) \<and> in_group c (parent e)"
    and ops: "in_group c t \<Longrightarrow> a \<in> set (sc t) \<Longrightarrow> hop_ok E child parent t a"
    and marked: "in_group c t \<Longrightarrow> sc t \<noteq> [] \<and> sc t ! 0 = Mark \<and> once (\<lambda>a. a = Mark) (sc t)"
    and child_once: "e \<in> E \<Longrightarrow> once (\<lambda>a. a = Ask e) (sc (child e)) \<and> once (\<lambda>a. a = Await e) (sc (child e))
      \<and> once (\<lambda>a. a = Ack e) (sc (child e))"
    and child_order: "e \<in> E \<Longrightarrow> precedes (\<lambda>a. a = Ask e) (\<lambda>a. a = Await e) (sc (child e))
      \<and> precedes (\<lambda>a. a = Await e) (\<lambda>a. a = Ack e) (sc (child e)) \<and> precedes (\<lambda>a. a = Ask e) (\<lambda>a. a = Ack e) (sc (child e))"
    and parent_once: "e \<in> E \<Longrightarrow> once (gathers e) (sc (parent e)) \<and> once (\<lambda>a. a = Drop e) (sc (parent e))
      \<and> once (\<lambda>a. a = Grant e) (sc (parent e))"
    and parent_order: "e \<in> E \<Longrightarrow> precedes (gathers e) (\<lambda>a. a = Drop e) (sc (parent e))
      \<and> precedes (\<lambda>a. a = Drop e) (\<lambda>a. a = Grant e) (sc (parent e)) \<and> precedes (gathers e) (\<lambda>a. a = Grant e) (sc (parent e))"
    and zero_order: "in_group c t \<Longrightarrow> Zero e \<in> set (sc t) \<Longrightarrow> once (\<lambda>a. a = Zero e) (sc t)
      \<and> precedes (gathers e) (\<lambda>a. a = Zero e) (sc t) \<and> precedes (\<lambda>a. a = Zero e) (\<lambda>a. a = Grant e) (sc t)"
    and addr: "e \<in> E \<Longrightarrow> eva_to_npa c (child e) (dask L e) = loc (DoneC e) \<and> eva_to_npa c (parent e) (dloc L e) = loc (DoneC e)
      \<and> eva_to_npa c (parent e) (agrant L e) = loc (AlertC e) \<and> eva_to_npa c (child e) (aloc L e) = loc (AlertC e)"
    and addr_phase: "in_group c t \<Longrightarrow> eva_to_npa c t (phase L) = loc (PhaseC t)"
    and phase_own: "e \<in> E \<Longrightarrow> aloc L e \<noteq> phase L \<and> agrant L e \<noteq> phase L"
    and apart: "hcells_apart loc (DoneC ` E \<union> AlertC ` E \<union> PhaseC ` group_tiles c)"
    and stops: "in_group c t \<Longrightarrow> Gather es \<in> set (sc t) \<Longrightarrow> i \<le> length es \<Longrightarrow> stop L es (of_nat i) \<longleftrightarrow> i = length es"
begin

abbreviation "asked qs e \<equiv> pcount (\<lambda>a. a = Ask e) (sc (child e)) (qs (child e))"
abbreviation "awaited qs e \<equiv> pcount (\<lambda>a. a = Await e) (sc (child e)) (qs (child e))"
abbreviation "acked qs e \<equiv> pcount (\<lambda>a. a = Ack e) (sc (child e)) (qs (child e))"
abbreviation "heard qs e \<equiv> pcount (gathers e) (sc (parent e)) (qs (parent e))"
abbreviation "dropped qs e \<equiv> pcount (\<lambda>a. a = Drop e) (sc (parent e)) (qs (parent e))"
abbreviation "granted qs e \<equiv> pcount (\<lambda>a. a = Grant e) (sc (parent e)) (qs (parent e))"

lemma child_counts:
  assumes "e \<in> E"
  shows "acked qs e \<le> awaited qs e" "awaited qs e \<le> asked qs e" "asked qs e \<le> Suc (acked qs e)"
  using child_once [OF assms] child_order [OF assms] pcount_order by blast+

lemma parent_counts:
  assumes "e \<in> E"
  shows "granted qs e \<le> dropped qs e" "dropped qs e \<le> heard qs e" "heard qs e \<le> Suc (granted qs e)"
  using parent_once [OF assms] parent_order [OF assms] pcount_order by blast+

definition hinv :: "(tile \<Rightarrow> hstate) \<Rightarrow> machine \<Rightarrow> bool" where
  "hinv qs m \<longleftrightarrow>
     (\<forall>t. in_group c t \<longrightarrow> hs_ok (sc t) n (qs t)
        \<and> rd m (loc (PhaseC t)) = of_nat (pcount (\<lambda>a. a = Mark) (sc t) (qs t))
        \<and> (\<forall>r i j es. qs t = (r, i, Scan j) \<and> sc t ! i = Gather es \<longrightarrow> (\<forall>k < j. dropped qs (es ! k) < asked qs (es ! k))))
     \<and> (\<forall>e \<in> E. awaited qs e \<le> granted qs e \<and> heard qs e \<le> asked qs e
        \<and> rd8 m (loc (DoneC e)) = (if dropped qs e < asked qs e then 1 else 0)
        \<and> rd m (loc (AlertC e)) = (if acked qs e < granted qs e then 1 else 0))"

lemma hinvD:
  assumes "hinv qs m"
  shows "in_group c t \<Longrightarrow> hs_ok (sc t) n (qs t)"
    and "in_group c t \<Longrightarrow> rd m (loc (PhaseC t)) = of_nat (pcount (\<lambda>a. a = Mark) (sc t) (qs t))"
    and "in_group c t \<Longrightarrow> qs t = (r, i, Scan j) \<Longrightarrow> sc t ! i = Gather es \<Longrightarrow> k < j \<Longrightarrow> dropped qs (es ! k) < asked qs (es ! k)"
    and "e \<in> E \<Longrightarrow> awaited qs e \<le> granted qs e"
    and "e \<in> E \<Longrightarrow> heard qs e \<le> asked qs e"
    and "e \<in> E \<Longrightarrow> rd8 m (loc (DoneC e)) = (if dropped qs e < asked qs e then 1 else 0)"
    and "e \<in> E \<Longrightarrow> rd m (loc (AlertC e)) = (if acked qs e < granted qs e then 1 else 0)"
  using assms unfolding hinv_def by blast+

lemma hs_okD: "hs_ok xs n (r, i, s) \<Longrightarrow> i < length xs"
  by (auto simp: hs_ok_def)

lemma count_step:
  assumes "qs t = (r, i, s)" and "i < length (sc t)" and "once P (sc u)"
  shows "pcount P (sc u) ((qs(t := hadv (length (sc t)) r i)) u)
    = pcount P (sc u) (qs u) + (if u = t \<and> P (sc t ! i) then 1 else 0)"
  using pcount_adv [of P "sc t" i r s] assms by auto

lemma counts_step:
  assumes "in_group c t" and "qs t = (r, i, s)" and "i < length (sc t)" and "e \<in> E"
  defines "qs' \<equiv> qs(t := hadv (length (sc t)) r i)" and "a \<equiv> sc t ! i"
  shows "asked qs' e = asked qs e + (if a = Ask e then 1 else 0)"
    and "awaited qs' e = awaited qs e + (if a = Await e then 1 else 0)"
    and "acked qs' e = acked qs e + (if a = Ack e then 1 else 0)"
    and "heard qs' e = heard qs e + (if gathers e a then 1 else 0)"
    and "dropped qs' e = dropped qs e + (if a = Drop e then 1 else 0)"
    and "granted qs' e = granted qs e + (if a = Grant e then 1 else 0)"
proof -
  have o: "hop_ok E child parent t a" using ops [OF assms(1)] assms(3) by (simp add: a_def)
  note s = count_step [of qs t r i s, OF assms(2,3), folded qs'_def]
  note co = child_once [OF assms(4)] and po = parent_once [OF assms(4)]
  show "asked qs' e = asked qs e + (if a = Ask e then 1 else 0)"
    "awaited qs' e = awaited qs e + (if a = Await e then 1 else 0)"
    "acked qs' e = acked qs e + (if a = Ack e then 1 else 0)"
    using s [of "\<lambda>a. a = Ask e" "child e"] s [of "\<lambda>a. a = Await e" "child e"] s [of "\<lambda>a. a = Ack e" "child e"] co o
    by (auto simp: a_def)
  show "heard qs' e = heard qs e + (if gathers e a then 1 else 0)"
    "dropped qs' e = dropped qs e + (if a = Drop e then 1 else 0)"
    "granted qs' e = granted qs e + (if a = Grant e then 1 else 0)"
    using s [of "gathers e" "parent e"] s [of "\<lambda>a. a = Drop e" "parent e"] s [of "\<lambda>a. a = Grant e" "parent e"] po o
    by (auto simp: a_def)
qed

lemma zero_step:
  assumes "in_group c t" and "qs t = (r, i, s)" and "i < length (sc t)" and "sc t ! i = Zero e"
  shows "granted qs e < heard qs e"
proof -
  let ?qs = "qs(t := hadv (length (sc t)) r i)" and ?z = "\<lambda>qs. pcount (\<lambda>a. a = Zero e) (sc t) (qs t)"
  have m: "Zero e \<in> set (sc t)" using assms(3,4) by (metis nth_mem)
  then have e: "e \<in> E" "parent e = t" using ops [OF assms(1) m] by auto
  note z = zero_order [OF assms(1) m]
  have "?z ?qs = Suc (?z qs)" using count_step [of qs t r i s, OF assms(2,3), of "\<lambda>a. a = Zero e" t] z assms(4) by simp
  moreover have "?z ?qs \<le> heard ?qs e" using pcount_order(1) [of "gathers e" "\<lambda>a. a = Zero e" "sc t" "?qs t"] z parent_once [OF e(1)] e(2) by simp
  moreover have "heard ?qs e = heard qs e" using counts_step(4) [of t qs r i s, OF assms(1-3) e(1)] assms(4) by simp
  moreover have "granted qs e \<le> ?z qs" using pcount_order(1) [of "\<lambda>a. a = Zero e" "\<lambda>a. a = Grant e" "sc t" "qs t"] z e(2) by simp
  ultimately show ?thesis by simp
qed

lemma edge_step:
  assumes I: "hinv qs m" and t: "in_group c t" "qs t = (r, i, s)" and e: "e \<in> E"
    and D: "rd8 m' (loc (DoneC e)) = (if sc t ! i = Ask e then 1 else if sc t ! i = Drop e then 0 else rd8 m (loc (DoneC e)))"
    and A: "rd m' (loc (AlertC e)) = (if sc t ! i = Grant e then 1 else if sc t ! i = Ack e \<or> sc t ! i = Zero e then 0
      else rd m (loc (AlertC e)))"
    and w: "sc t ! i = Await e \<Longrightarrow> acked qs e < granted qs e"
    and g: "gathers e (sc t ! i) \<Longrightarrow> dropped qs e < asked qs e"
  defines "qs' \<equiv> qs(t := hadv (length (sc t)) r i)"
  shows "awaited qs' e \<le> granted qs' e \<and> heard qs' e \<le> asked qs' e
    \<and> rd8 m' (loc (DoneC e)) = (if dropped qs' e < asked qs' e then 1 else 0)
    \<and> rd m' (loc (AlertC e)) = (if acked qs' e < granted qs' e then 1 else 0)"
proof -
  have i: "i < length (sc t)" using hinvD(1) [OF I t(1)] t(2) hs_okD by metis
  note n = counts_step [of t qs r i s, OF t i e, folded qs'_def]
  note o = child_counts [OF e, of qs] parent_counts [OF e, of qs] hinvD(4-7) [OF I e]
  note o' = child_counts [OF e, of qs'] parent_counts [OF e, of qs']
  have 1: "awaited qs' e \<le> granted qs' e"
    using o o' w n by (cases "sc t ! i = Await e") auto
  have 2: "heard qs' e \<le> asked qs' e"
    using o o' g n by (cases "gathers e (sc t ! i)") auto
  have 3: "rd8 m' (loc (DoneC e)) = (if dropped qs' e < asked qs' e then 1 else 0)"
    using o D n by (cases "sc t ! i = Ask e"; cases "sc t ! i = Drop e") auto
  have "rd m' (loc (AlertC e)) = (if acked qs' e < granted qs' e then 1 else 0)"
  proof (cases "sc t ! i = Zero e")
    case True
    then show ?thesis using zero_step [of t qs r i s, OF t i True] o A n by auto
  next
    case False
    then show ?thesis using o A n by (cases "sc t ! i = Grant e"; cases "sc t ! i = Ack e") auto
  qed
  then show ?thesis using 1 2 3 by simp
qed

lemma hinv_complete:
  assumes I: "hinv qs m" and t: "in_group c t" "qs t = (r, i, s)" "r < n"
    and D: "\<And>e. e \<in> E \<Longrightarrow> rd8 m' (loc (DoneC e))
      = (if sc t ! i = Ask e then 1 else if sc t ! i = Drop e then 0 else rd8 m (loc (DoneC e)))"
    and A: "\<And>e. e \<in> E \<Longrightarrow> rd m' (loc (AlertC e)) = (if sc t ! i = Grant e then 1
      else if sc t ! i = Ack e \<or> sc t ! i = Zero e then 0 else rd m (loc (AlertC e)))"
    and P: "\<And>u. in_group c u \<Longrightarrow> rd m' (loc (PhaseC u))
      = (if u = t \<and> sc t ! i = Mark then of_nat (Suc r) else rd m (loc (PhaseC u)))"
    and w: "\<And>e. sc t ! i = Await e \<Longrightarrow> acked qs e < granted qs e"
    and g: "\<And>e. gathers e (sc t ! i) \<Longrightarrow> dropped qs e < asked qs e"
  shows "hinv (qs(t := hadv (length (sc t)) r i)) m'"
proof -
  let ?qs = "qs(t := hadv (length (sc t)) r i)"
  have i: "i < length (sc t)" using hinvD(1) [OF I t(1)] t(2) hs_okD by metis
  have ok: "hs_ok (sc u) n (?qs u)" if "in_group c u" for u
    using hinvD(1) [OF I that] t i by (auto simp: hs_ok_def hadv_def)
  have ph: "rd m' (loc (PhaseC u)) = of_nat (pcount (\<lambda>a. a = Mark) (sc u) (?qs u))" if u: "in_group c u" for u
  proof -
    have o: "once (\<lambda>a. a = Mark) (sc u)" using marked [OF u] by blast
    have "pcount (\<lambda>a. a = Mark) (sc t) (qs t) = r" if "sc t ! i = Mark"
      using once_at [of "\<lambda>a. a = Mark" "sc t" i] marked [OF t(1)] i that t(2) by (auto simp: pcount_def)
    then show ?thesis
      using count_step [of qs t r i s, OF t(2) i o] P [OF u] hinvD(2) [OF I u] by (auto simp: ac_simps)
  qed
  have sn: "dropped ?qs (es ! k) < asked ?qs (es ! k)"
    if u: "in_group c u" "?qs u = (r', i', Scan j)" "sc u ! i' = Gather es" "k < j" for u r' i' j es k
  proof -
    have ut: "u \<noteq> t" using u(2) by (auto simp: hadv_def split: if_splits)
    then have q: "qs u = (r', i', Scan j)" using u(2) by simp
    have h: "hs_ok (sc u) n (qs u)" using hinvD(1) [OF I u(1)] .
    then have "es ! k \<in> set es" "Gather es \<in> set (sc u)"
      using q u(3,4) by (auto simp: hs_ok_def split: if_splits intro: nth_mem) (metis nth_mem)
    then have k: "es ! k \<in> E" "parent (es ! k) = u" using ops [OF u(1)] by fastforce+
    then have "sc t ! i \<noteq> Drop (es ! k)" using ops [OF t(1)] i ut by (metis hop_ok.simps(5) nth_mem)
    then show ?thesis
      using hinvD(3) [OF I u(1) q u(3,4)] counts_step(1,5) [of t qs r i s, OF t(1,2) i k(1)] by simp
  qed
  show ?thesis
    unfolding hinv_def using ok ph sn edge_step [of qs m t r i s, OF I t(1,2) _ D A w g] by blast
qed

lemma hop_step:
  assumes t: "in_group c t" and i: "i < length (sc t)" and r: "r < n" and a: "sc t ! i = a"
    and s: "hs_ok (sc t) n (r, i, s)"
  shows "pstep c t (hprog L n (sc t) (r, i, s), m)
    = (hprog L n (sc t) (fst (hop_next c loc (length (sc t)) t r i s a m)), snd (hop_next c loc (length (sc t)) t r i s a m))"
proof -
  have o: "hop_ok E child parent t a" "a \<in> set (sc t)" using ops [OF t] i a by auto
  note u = hrest_unfold [OF i, of L n r, unfolded a] and v = hprog_adv [OF i r, of L]
  note rd8_def [simp] rd_def [simp] put8_def [simp]
  have z: "s = Start" if "\<nexists>es. a = Gather es" "\<nexists>e. a = Await e"
    using s r a that by (cases s) (auto simp: hs_ok_def)
  show ?thesis
  proof (cases a)
    case Mark
    then show ?thesis using z u v r addr_phase [OF t] by simp
  next
    case (Ask e)
    then show ?thesis using z u v r o addr [of e] by (simp add: Let_def)
  next
    case (Drop e)
    then show ?thesis using z u v r o addr [of e] by (simp add: Let_def)
  next
    case (Grant e)
    then show ?thesis using z u v r o addr [of e] by simp
  next
    case (Ack e)
    then show ?thesis using z u v r o addr [of e] by simp
  next
    case (Zero e)
    then show ?thesis using z u v r o addr [of e] by simp
  next
    case (Await e)
    have e: "eva_to_npa c t (aloc L e) = loc (AlertC e)" using Await o addr [of e] by auto
    have w: "hprog L n (sc t) (r, i, Start) = wait_then (aloc L e) 1 (hrest L n (sc t) r (Suc i))"
      using u r Await by (simp add: wait_then_int)
    show ?thesis
    proof (cases s)
      case Start
      then show ?thesis using Await a w by (simp add: pstep_wait del: hprog.simps(1))
    next
      case (Scan j)
      then show ?thesis using s r a Await by (auto simp: hs_ok_def)
    next
      case Lr1
      then show ?thesis using Await a v e by (simp add: after_lr1_def del: hprog.simps(1))
    next
      case Lr2
      then show ?thesis using Await a v e w by (simp add: after_lr2_def del: hprog.simps(1))
    qed
  next
    case (Gather es)
    let ?K = "\<lambda>v. if stop L es v then hrest L n (sc t) r (Suc i)
      else Loop (poll_scan (map (dloc L) es) 0) (stop L es) (\<lambda>_. hrest L n (sc t) r (Suc i))"
    have st: "stop L es (of_nat k) \<longleftrightarrow> k = length es" if "k \<le> length es" for k
      using stops [OF t, of es k] o Gather that by simp
    have w: "hprog L n (sc t) (r, i, Start) = Loop (poll_scan (map (dloc L) es) 0) (stop L es) (\<lambda>_. hrest L n (sc t) r (Suc i))"
      using u r Gather by simp
    show ?thesis
    proof (cases s)
      case (Scan j)
      have j: "j < length es" using s r a Gather Scan by (auto simp: hs_ok_def)
      then have "es ! j \<in> set es" by simp
      then have e: "eva_to_npa c t (dloc L (es ! j)) = loc (DoneC (es ! j))" using o Gather addr [of "es ! j"] by auto
      have k: "?K (of_nat j) = hprog L n (sc t) (r, i, Start)" using st [of j] j w by simp
      show ?thesis
      proof (cases "Suc j < length es")
        case True
        then show ?thesis using Scan j e k a Gather by (simp add: poll_scan_at del: hprog.simps(1) of_nat_Suc)
      next
        case False
        then have l: "Suc j = length es" using j by simp
        have "?K (of_nat (Suc j)) = hrest L n (sc t) r (Suc i)" using st [of "Suc j"] l by simp
        then show ?thesis using Scan j e k a Gather l v by (simp add: poll_scan_at del: hprog.simps(1) of_nat_Suc)
      qed
    qed (use s r a Gather w in \<open>auto simp: hs_ok_def simp del: hprog.simps(1)\<close>)
  qed
qed

lemma hcode_step:
  assumes "in_group c t" and "hinv qs m"
  shows "pstep c t (hprog L n (sc t) (qs t), m)
    = (hprog L n (sc t) (fst (hnext c loc n sc t (qs t) m)), snd (hnext c loc n sc t (qs t) m))"
proof -
  obtain r i s where q: "qs t = (r, i, s)" by (cases "qs t") auto
  have h: "hs_ok (sc t) n (r, i, s)" using hinvD(1) [OF assms(2,1)] q by simp
  show ?thesis
  proof (cases "r < n")
    case True
    then show ?thesis using hop_step [OF assms(1) hs_okD [OF h] True refl h] q by (simp add: hnext_def)
  next
    case False
    then show ?thesis using h q by (simp add: hnext_def hs_ok_def)
  qed
qed

lemma hinv_sub:
  assumes I: "hinv qs m" and t: "in_group c t" "qs t = (r, i, s)"
    and ok: "hs_ok (sc t) n (r, i, s')"
    and k: "\<And>j es k. s' = Scan j \<Longrightarrow> sc t ! i = Gather es \<Longrightarrow> k < j \<Longrightarrow> dropped qs (es ! k) < asked qs (es ! k)"
  shows "hinv (qs(t := (r, i, s'))) m"
proof -
  let ?qs = "qs(t := (r, i, s'))"
  have p: "pcount P (sc u) (?qs u) = pcount P (sc u) (qs u)" for P u
    using t(2) by (simp add: pcount_def)
  have "hs_ok (sc u) n (?qs u)" if "in_group c u" for u
    using hinvD(1) [OF I that] ok by simp
  moreover have "dropped qs (es ! k) < asked qs (es ! k)"
    if "in_group c u" "?qs u = (r', i', Scan j)" "sc u ! i' = Gather es" "k < j" for u r' i' j es k
    using that hinvD(3) [OF I that(1), of r' i' j es k] k [of j es k] by (cases "u = t") auto
  ultimately show ?thesis
    unfolding hinv_def p using hinvD [OF I] by blast
qed

lemma cell_mem:
  "e \<in> E \<Longrightarrow> DoneC e \<in> DoneC ` E \<union> AlertC ` E \<union> PhaseC ` group_tiles c"
  "e \<in> E \<Longrightarrow> AlertC e \<in> DoneC ` E \<union> AlertC ` E \<union> PhaseC ` group_tiles c"
  "in_group c t \<Longrightarrow> PhaseC t \<in> DoneC ` E \<union> AlertC ` E \<union> PhaseC ` group_tiles c"
  by (auto simp: group_tiles_def)

lemma put_cells:
  "e \<in> E \<Longrightarrow> f \<in> E \<Longrightarrow> rd8 (put8 c (loc (DoneC f)) b m) (loc (DoneC e)) = (if e = f then b else rd8 m (loc (DoneC e)))"
  "e \<in> E \<Longrightarrow> f \<in> E \<Longrightarrow> rd (put8 c (loc (DoneC f)) b m) (loc (AlertC e)) = rd m (loc (AlertC e))"
  "in_group c u \<Longrightarrow> f \<in> E \<Longrightarrow> rd (put8 c (loc (DoneC f)) b m) (loc (PhaseC u)) = rd m (loc (PhaseC u))"
  "e \<in> E \<Longrightarrow> f \<in> E \<Longrightarrow> rd8 (put32 c (loc (AlertC f)) v m) (loc (DoneC e)) = rd8 m (loc (DoneC e))"
  "e \<in> E \<Longrightarrow> f \<in> E \<Longrightarrow> rd (put32 c (loc (AlertC f)) v m) (loc (AlertC e)) = (if e = f then v else rd m (loc (AlertC e)))"
  "in_group c u \<Longrightarrow> f \<in> E \<Longrightarrow> rd (put32 c (loc (AlertC f)) v m) (loc (PhaseC u)) = rd m (loc (PhaseC u))"
  "e \<in> E \<Longrightarrow> in_group c t \<Longrightarrow> rd8 (put32 c (loc (PhaseC t)) v m) (loc (DoneC e)) = rd8 m (loc (DoneC e))"
  "e \<in> E \<Longrightarrow> in_group c t \<Longrightarrow> rd (put32 c (loc (PhaseC t)) v m) (loc (AlertC e)) = rd m (loc (AlertC e))"
  "in_group c u \<Longrightarrow> in_group c t \<Longrightarrow> rd (put32 c (loc (PhaseC t)) v m) (loc (PhaseC u)) = (if u = t then v else rd m (loc (PhaseC u)))"
  by (intro put_done [OF apart] put_alert [OF apart] put_phase [OF apart] cell_mem; assumption)+

lemma hop_inv:
  assumes I: "hinv qs m" and t: "in_group c t" and q: "qs t = (r, i, s)" and r: "r < n"
    and st: "hop_next c loc (length (sc t)) t r i s (sc t ! i) m = (q', m')"
  shows "hinv (qs(t := q')) m'"
proof -
  have h: "hs_ok (sc t) n (r, i, s)" using hinvD(1) [OF I t] q by simp
  have i: "i < length (sc t)" using hs_okD [OF h] .
  have o: "hop_ok E child parent t (sc t ! i)" using ops [OF t] i by simp
  note complete = hinv_complete [of qs m t r i s, OF I t q r]
  show ?thesis
  proof (cases "sc t ! i")
    case Mark
    then have "q' = hadv (length (sc t)) r i" "m' = put32 c (loc (PhaseC t)) (of_nat (Suc r)) m" using st by auto
    then show ?thesis by (simp only:) (rule complete, use Mark t in \<open>auto simp: put_cells\<close>)
  next
    case (Ask e)
    then have "q' = hadv (length (sc t)) r i" "m' = put8 c (loc (DoneC e)) 1 m" using st by auto
    then show ?thesis by (simp only:) (rule complete, use Ask o in \<open>auto simp: put_cells\<close>)
  next
    case (Drop e)
    then have "q' = hadv (length (sc t)) r i" "m' = put8 c (loc (DoneC e)) 0 m" using st by auto
    then show ?thesis by (simp only:) (rule complete, use Drop o in \<open>auto simp: put_cells\<close>)
  next
    case (Grant e)
    then have "q' = hadv (length (sc t)) r i" "m' = put32 c (loc (AlertC e)) 1 m" using st by auto
    then show ?thesis by (simp only:) (rule complete, use Grant o in \<open>auto simp: put_cells\<close>)
  next
    case (Ack e)
    then have "q' = hadv (length (sc t)) r i" "m' = put32 c (loc (AlertC e)) 0 m" using st by auto
    then show ?thesis by (simp only:) (rule complete, use Ack o in \<open>auto simp: put_cells\<close>)
  next
    case (Zero e)
    then have "q' = hadv (length (sc t)) r i" "m' = put32 c (loc (AlertC e)) 0 m" using st by auto
    then show ?thesis by (simp only:) (rule complete, use Zero o in \<open>auto simp: put_cells\<close>)
  next
    case (Await e)
    have go: "hinv (qs(t := hadv (length (sc t)) r i)) m" if "rd m (loc (AlertC e)) = 1"
      by (rule complete) (use that Await o hinvD(7) [OF I, of e] in \<open>auto split: if_splits\<close>)
    have sub: "hinv (qs(t := (r, i, s'))) m" if "s' = Start \<or> s' = Lr1 \<or> s' = Lr2" for s'
      using hinv_sub [OF I t q, of s'] that Await i r by (auto simp: hs_ok_def)
    show ?thesis
      using st Await go sub by (cases s) (auto split: if_splits)
  next
    case (Gather es)
    have sub: "hinv (qs(t := (r, i, s'))) m" if "s' = Start \<or> s' = Scan 0" for s'
      using hinv_sub [OF I t q, of s'] that Gather i r o by (auto simp: hs_ok_def)
    show ?thesis
    proof (cases s)
      case (Scan j)
      have j: "j < length es" using h Scan Gather r by (auto simp: hs_ok_def)
      have known: "dropped qs (es ! k) < asked qs (es ! k)"
        if "k < Suc j" "rd8 m (loc (DoneC (es ! j))) \<noteq> 0" for k
      proof (cases "k = j")
        case True
        have "es ! j \<in> E" using o Gather j by auto
        then show ?thesis using hinvD(6) [OF I, of "es ! j"] that True by (auto split: if_splits)
      next
        case False
        then show ?thesis using hinvD(3) [OF I t] q Scan Gather that by auto
      qed
      show ?thesis
      proof (cases "rd8 m (loc (DoneC (es ! j))) = 0")
        case True
        then show ?thesis using st Gather Scan sub by auto
      next
        case nz: False
        show ?thesis
        proof (cases "Suc j < length es")
          case True
          have "hinv (qs(t := (r, i, Scan (Suc j)))) m"
            using hinv_sub [OF I t q, of "Scan (Suc j)"] Gather i r True known nz by (auto simp: hs_ok_def)
          then show ?thesis using st Gather Scan nz True by auto
        next
          case False
          then have "Suc j = length es" using j by simp
          then have "dropped qs e < asked qs e" if "e \<in> set es" for e
            using that known nz by (metis in_set_conv_nth)
          then have "hinv (qs(t := hadv (length (sc t)) r i)) m"
            by (intro complete) (use Gather in auto)
          then show ?thesis using st Gather Scan nz False by auto
        qed
      qed
    qed (use st Gather sub in auto)
  qed
qed

lemma hinv_step:
  assumes "in_group c t" and "hinv qs m" and "hnext c loc n sc t (qs t) m = (q', m')"
  shows "hinv (qs(t := q')) m'"
proof -
  obtain r i s where q: "qs t = (r, i, s)" by (cases "qs t") auto
  show ?thesis
  proof (cases "r < n")
    case True
    then show ?thesis using hop_inv [OF assms(2,1) q True] assms(3) q by (simp add: hnext_def)
  next
    case False
    then have "q' = qs t" "m' = m" using assms(3) q by (auto simp: hnext_def)
    then show ?thesis using assms(2) by simp
  qed
qed

end

sublocale handshake \<subseteq> points: control_points c "\<lambda>t q. hprog L n (sc t) q" "hnext c loc n sc" hinv
  by unfold_locales (simp_all add: hcode_step hinv_step)

section \<open>Reachable states and what a tile can observe\<close>

context handshake begin

definition hzero :: "machine \<Rightarrow> bool" where
  "hzero m \<longleftrightarrow> (\<forall>e \<in> E. rd8 m (loc (DoneC e)) = 0 \<and> rd m (loc (AlertC e)) = 0) \<and> (\<forall>t. in_group c t \<longrightarrow> rd m (loc (PhaseC t)) = 0)"

lemma hinv_start: "hzero m \<Longrightarrow> hinv (\<lambda>t. (0, 0, Start)) m"
  using marked by (auto simp: hzero_def hinv_def hs_ok_def pcount_def)

lemma reachable_hinv:
  assumes "hzero m0" and "reachable c (\<lambda>t. hrounds L n (sc t) 0, m0) s"
  obtains qs where "fst s = (\<lambda>t. hprog L n (sc t) (qs t))" and "hinv qs (snd s)"
proof -
  have "(\<lambda>t. hrounds L n (sc t) 0) = (\<lambda>t. hprog L n (sc t) (0, 0, Start))"
    by (auto simp: hrounds_unfold)
  then show ?thesis
    using points.reachable_inv [of "\<lambda>t. (0, 0, Start)" m0 s] hinv_start [OF assms(1)] assms(2) that by metis
qed

lemma mark_first:
  assumes "in_group c t" and "i < length (sc t)"
  shows "pcount P (sc t) (r, i, s) \<le> pcount (\<lambda>a. a = Mark) (sc t) (r, i, s)"
proof (cases i)
  case 0
  then show ?thesis by (simp add: pcount_def)
next
  case (Suc k)
  have "Mark = sc t ! 0" using marked [OF assms(1)] by simp
  then have "Mark \<in> set (take i (sc t))" using Suc assms(2) by (force simp: in_set_conv_nth)
  then show ?thesis by (auto simp: pcount_def)
qed

lemma hs_ok_fst: "hs_ok xs k q \<Longrightarrow> fst q \<le> k"
  by (cases q) (auto simp: hs_ok_def split: if_splits)

lemma hprog_next:
  assumes t: "in_group c t" and q: "hs_ok (sc t) n (r, i, s)" and r: "r < n"
  shows "\<nexists>v. hprog L n (sc t) (r, i, s) = Ret v"
    and "next_op (hprog L n (sc t) (r, i, s)) = Some (Store32 (phase L) v) \<Longrightarrow> v = of_nat (Suc r)"
proof -
  have i: "i < length (sc t)" using hs_okD [OF q] .
  have o: "hop_ok E child parent t (sc t ! i)" using ops [OF t] i by simp
  have "(\<nexists>v. hprog L n (sc t) (r, i, s) = Ret v)
    \<and> (next_op (hprog L n (sc t) (r, i, s)) = Some (Store32 (phase L) v) \<longrightarrow> v = of_nat (Suc r))"
  proof (cases s)
    case Start
    then show ?thesis
      using r hrest_unfold [OF i, of L n r] o phase_own
      by (cases "sc t ! i") (auto simp: next_op_def bsg_wait_local_int_def)
  next
    case (Scan j)
    then obtain es where "sc t ! i = Gather es" "j < length es" using q r by (auto simp: hs_ok_def)
    then show ?thesis using Scan by (simp add: poll_scan_at next_op_def del: of_nat_Suc)
  next
    case Lr1
    then show ?thesis using q r by (auto simp: hs_ok_def next_op_def after_lr1_def)
  next
    case Lr2
    then show ?thesis using q r by (auto simp: hs_ok_def next_op_def after_lr2_def)
  qed
  then show "\<nexists>v. hprog L n (sc t) (r, i, s) = Ret v"
    "next_op (hprog L n (sc t) (r, i, s)) = Some (Store32 (phase L) v) \<Longrightarrow> v = of_nat (Suc r)" by auto
qed

lemma left_round:
  assumes t: "in_group c t" and q: "hs_ok (sc t) n q" and n: "n < 2 ^ 32"
    and h: "has_left (phase L) n (hprog L n (sc t) q) r"
  shows "fst q = r"
proof -
  obtain r' i s where qq: "q = (r', i, s)" by (cases q) auto
  show ?thesis
  proof (cases "r' < n")
    case True
    note x = hprog_next [OF t q [unfolded qq] True]
    have r: "r < n" and e: "of_nat (Suc r) = (of_nat (Suc r') :: u32)"
      using h x(1) x(2) [of "of_nat (Suc r)"] by (auto simp: has_left_def qq simp del: of_nat_Suc)
    have "unat (of_nat (Suc r) :: u32) = Suc r" "unat (of_nat (Suc r') :: u32) = Suc r'"
      using r True n by (intro unat_of_nat_lt, simp)+
    then have "Suc r = Suc r'" using e by metis
    then show ?thesis using qq by simp
  next
    case False
    then have "hprog L n (sc t) q = Ret 0" "r' = n" using q qq by (auto simp: hs_ok_def)
    then show ?thesis using h qq by (auto simp: has_left_def next_op_def)
  qed
qed

lemma phase_value:
  assumes I: "hinv qs m" and t: "in_group c t" and n: "n < 2 ^ 32"
  shows "pcount P (sc t) (qs t) \<le> unat (rd m (loc (PhaseC t)))"
proof -
  obtain r i s where q: "qs t = (r, i, s)" by (cases "qs t") auto
  let ?k = "pcount (\<lambda>a. a = Mark) (sc t) (qs t)"
  have h: "hs_ok (sc t) n (r, i, s)" using hinvD(1) [OF I t] q by simp
  then have "?k < 2 ^ 32" using n q by (auto simp: hs_ok_def pcount_def split: if_splits)
  then have "unat (rd m (loc (PhaseC t))) = ?k" using hinvD(2) [OF I t] by (simp add: unat_of_nat_lt)
  then show ?thesis using mark_first [OF t hs_okD [OF h], of P r s] q by simp
qed

text \<open>What a passed \<open>Await\<close> tells about the parent, and a passed \<open>Gather\<close> about the children.\<close>

lemma await_heard: "hinv qs m \<Longrightarrow> e \<in> E \<Longrightarrow> awaited qs e \<le> granted qs e"
  by (rule hinvD(4))

lemma heard_asked: "hinv qs m \<Longrightarrow> e \<in> E \<Longrightarrow> heard qs e \<le> asked qs e"
  by (rule hinvD(5))

end

section \<open>Progress\<close>

text \<open>
  Levels that grow along every sequence of operations and from the signal to the wait exclude
  circular waiting.
\<close>

locale handshake_levels = handshake c n sc E child parent L loc
  for c :: cfg and n :: nat and sc :: "tile \<Rightarrow> 'e hop list" and E :: "'e set"
    and child :: "'e \<Rightarrow> tile" and parent :: "'e \<Rightarrow> tile" and L :: "'e links" and loc :: "'e hcell \<Rightarrow> npa" +
  fixes lev :: "'e hop \<Rightarrow> nat"
  assumes lev_sorted: "in_group c t \<Longrightarrow> sorted (map lev (sc t))"
    and lev_ask: "e \<in> E \<Longrightarrow> e \<in> set es \<Longrightarrow> lev (Ask e) < lev (Gather es)"
    and lev_grant: "e \<in> E \<Longrightarrow> lev (Grant e) < lev (Await e)"
begin

definition hfree :: "(tile \<Rightarrow> hstate) \<Rightarrow> tile \<Rightarrow> bool" where
  "hfree qs t = (case qs t of (r, i, s) \<Rightarrow> r < n \<and> (case sc t ! i of
     Await e \<Rightarrow> acked qs e < granted qs e | Gather es \<Rightarrow> \<forall>e \<in> set es. dropped qs e < asked qs e | _ \<Rightarrow> True))"

lemma still_ahead:
  assumes "once P xs" and "pcount P xs (r, i, s) \<le> r" and "i < length xs"
  shows "\<exists>k. i \<le> k \<and> k < length xs \<and> P (xs ! k)"
proof -
  have "\<exists>a \<in> set xs. P a" using assms(1) by (auto simp: once_def)
  then obtain a where a: "a \<in> set xs" "P a" by blast
  then have "a \<notin> set (take i xs)" using assms(2) by (auto simp: pcount_def split: if_splits)
  then have "a \<in> set (drop i xs)" using a(1) by (metis Un_iff append_take_drop_id set_append)
  then obtain j where "j < length (drop i xs)" "drop i xs ! j = a" by (auto simp: in_set_conv_nth)
  then show ?thesis using a(2) by (intro exI [of _ "i + j"]) auto
qed

lemma not_done_yet: "once P xs \<Longrightarrow> i < length xs \<Longrightarrow> P (xs ! i) \<Longrightarrow> pcount P xs (r, i, s) = r"
  using once_at by (fastforce simp: pcount_def)

text \<open>A tile that has not passed \<open>P\<close> of round \<open>r\<close> is at or before it.\<close>

lemma behind:
  assumes I: "hinv qs m" and u: "in_group c u" and o: "once P (sc u)" and p: "pcount P (sc u) (qs u) \<le> r" and r: "r < n"
    and l: "\<And>a. P a \<Longrightarrow> lev a = l"
  shows "fst (qs u) \<le> r" and "fst (qs u) = r \<Longrightarrow> lev (sc u ! fst (snd (qs u))) \<le> l"
proof -
  obtain r' i s where q: "qs u = (r', i, s)" by (cases "qs u") auto
  show le: "fst (qs u) \<le> r" using pcount_range(1) [of "qs u" P "sc u"] p by simp
  have i: "i < length (sc u)" using hinvD(1) [OF I u] q hs_okD by metis
  assume "fst (qs u) = r"
  then have "r' = r" using q by simp
  then obtain k where k: "i \<le> k" "k < length (sc u)" "P (sc u ! k)"
    using still_ahead [OF o, of r i s] p q i by auto
  then have "map lev (sc u) ! i \<le> map lev (sc u) ! k" by (intro sorted_nth_mono lev_sorted [OF u]) auto
  then show "lev (sc u ! fst (snd (qs u))) \<le> l" using k l [OF k(3)] q i by simp
qed

lemma someone_free:
  assumes I: "hinv qs m" and u: "in_group c u" "fst (qs u) \<noteq> n"
  shows "\<exists>t. in_group c t \<and> hfree qs t"
proof -
  have lt: "fst (qs t) \<le> n" if "in_group c t" for t using hinvD(1) [OF I that] by (rule hs_ok_fst)
  let ?T = "\<lambda>t. in_group c t \<and> fst (qs t) < n" and ?l = "\<lambda>t. lev (sc t ! fst (snd (qs t)))"
  have "?T u" using u lt [OF u(1)] by simp
  then obtain t0 where t0: "?T t0" "\<And>v. ?T v \<Longrightarrow> fst (qs t0) \<le> fst (qs v)"
    using ex_has_least_nat [of ?T u "\<lambda>t. fst (qs t)"] by auto
  obtain t where t: "?T t \<and> fst (qs t) = fst (qs t0)" "\<And>v. ?T v \<and> fst (qs v) = fst (qs t0) \<Longrightarrow> ?l t \<le> ?l v"
    using ex_has_least_nat [of "\<lambda>v. ?T v \<and> fst (qs v) = fst (qs t0)" t0 ?l] t0(1) by auto
  obtain r i s where q: "qs t = (r, i, s)" by (cases "qs t") auto
  have r: "r < n" "r = fst (qs t0)" using t(1) q by auto
  have i: "i < length (sc t)" using hinvD(1) [OF I] t(1) q hs_okD by metis
  have o: "hop_ok E child parent t (sc t ! i)" using ops i t(1) by simp
  have no: False if "in_group c v" "once P (sc v)" "pcount P (sc v) (qs v) \<le> r" "\<And>a. P a \<Longrightarrow> lev a = l" "l < lev (sc t ! i)"
    for P v l
  proof -
    note b = behind [OF I that(1-3) r(1), of l, OF that(4)]
    have e: "fst (qs v) = r" using b(1) t0(2) [of v] that(1) r by auto
    then have "?l t \<le> ?l v" using t(2) [of v] that(1) r by auto
    then show False using b(2) [OF _ e] that(4,5) q by auto
  qed
  have "hfree qs t"
  proof (cases "sc t ! i")
    case (Await e)
    then have e: "e \<in> E" "child e = t" using o by auto
    have "awaited qs e = r" using not_done_yet [of "\<lambda>a. a = Await e" "sc t" i r s] child_once [OF e(1)] e(2) i Await q by simp
    then have a: "acked qs e \<le> r" using child_counts(1) [OF e(1), of qs] by simp
    have "acked qs e < granted qs e"
    proof (rule ccontr)
      assume "\<not> acked qs e < granted qs e"
      then have "granted qs e \<le> r" using a by simp
      then show False
        using no [of "parent e" "\<lambda>a. a = Grant e" "lev (Grant e)"] tiles [OF e(1)] parent_once [OF e(1)] lev_grant [OF e(1)] Await
        by auto
    qed
    then show ?thesis using q r Await by (simp add: hfree_def)
  next
    case (Gather es)
    have "dropped qs e < asked qs e" if e: "e \<in> set es" for e
    proof (rule ccontr)
      assume x: "\<not> dropped qs e < asked qs e"
      have E: "e \<in> E" "parent e = t" using o Gather e by auto
      have "heard qs e = r" using not_done_yet [of "gathers e" "sc t" i r s] parent_once [OF E(1)] E(2) i Gather e q by simp
      then have "asked qs e \<le> r" using parent_counts(2) [OF E(1), of qs] x by simp
      then show False
        using no [of "child e" "\<lambda>a. a = Ask e" "lev (Ask e)"] tiles [OF E(1)] child_once [OF E(1)] lev_ask [OF E(1) e] Gather
        by auto
    qed
    then show ?thesis using q r Gather by (simp add: hfree_def)
  qed (use q r in \<open>simp_all add: hfree_def\<close>)
  then show ?thesis using t(1) by blast
qed

fun glen :: "'e hop \<Rightarrow> nat" where
  "glen (Gather es) = length es" | "glen _ = 0"

definition hdepth :: "tile \<Rightarrow> nat" where
  "hdepth t = 2 + sum_list (map glen (sc t))"

fun hsub_rank :: "nat \<Rightarrow> hsub \<Rightarrow> nat" where
  "hsub_rank d Start = d" | "hsub_rank d (Scan j) = d - Suc j" | "hsub_rank d Lr1 = 1" | "hsub_rank d Lr2 = 0"

definition hrank :: "tile \<Rightarrow> hstate \<Rightarrow> nat" where
  "hrank t q = (case q of (r, i, s) \<Rightarrow> ((n - r) * length (sc t) - i) * Suc (hdepth t) + hsub_rank (hdepth t) s)"

lemma hrank_adv:
  assumes "i < length (sc t)" and "r < n"
  shows "hrank t (hadv (length (sc t)) r i) < hrank t (r, i, s)"
proof -
  let ?l = "length (sc t)" and ?d = "hdepth t"
  obtain k where k: "n - r = Suc k" using assms(2) by (metis Suc_diff_Suc)
  define A where "A = (n - r) * ?l - Suc i"
  have "hrank t (hadv ?l r i) = A * Suc ?d + ?d"
  proof (cases "Suc i < ?l")
    case True
    then show ?thesis by (simp add: hadv_def hrank_def A_def)
  next
    case False
    then have "Suc i = ?l" using assms(1) by simp
    moreover have "n - Suc r = k" using k by simp
    ultimately show ?thesis using k by (simp add: hadv_def hrank_def A_def)
  qed
  moreover have "(n - r) * ?l - i = Suc A" using assms(1) k by (simp add: A_def)
  then have "hrank t (r, i, s) = Suc A * Suc ?d + hsub_rank ?d s" by (simp only: hrank_def prod.case)
  ultimately show ?thesis by (simp only:) simp
qed

lemma free_step:
  assumes I: "hinv qs m" and t: "in_group c t" and f: "hfree qs t"
  shows "hrank t (fst (hnext c loc n sc t (qs t) m)) < hrank t (qs t)"
proof -
  obtain r i s where q: "qs t = (r, i, s)" by (cases "qs t") auto
  have h: "hs_ok (sc t) n (r, i, s)" using hinvD(1) [OF I t] q by simp
  have i: "i < length (sc t)" using hs_okD [OF h] .
  have r: "r < n" using f q by (auto simp: hfree_def)
  have o: "hop_ok E child parent t (sc t ! i)" using ops [OF t] i by simp
  note adv = hrank_adv [of i t r, OF i r]
  have sub: "hrank t (r, i, s') < hrank t (r, i, s)" if "hsub_rank (hdepth t) s' < hsub_rank (hdepth t) s" for s'
    using that by (simp add: hrank_def)
  show ?thesis
  proof (cases "sc t ! i")
    case (Await e)
    then have one: "rd m (loc (AlertC e)) = 1" using f q o hinvD(7) [OF I, of e] by (auto simp: hfree_def)
    show ?thesis
    proof (cases s)
      case Start
      have "hrank t (r, i, Lr1) < hrank t (r, i, s)" by (rule sub) (simp add: Start hdepth_def)
      then show ?thesis using Await Start q r by (simp add: hnext_def)
    next
      case (Scan j)
      then show ?thesis using h Await r by (auto simp: hs_ok_def)
    next
      case Lr1
      then show ?thesis using Await q r one adv [of Lr1] by (simp add: hnext_def)
    next
      case Lr2
      then show ?thesis using Await q r one adv [of Lr2] by (simp add: hnext_def)
    qed
  next
    case (Gather es)
    have "sc t ! i \<in> set (sc t)" using i by simp
    then have "glen (sc t ! i) \<in> set (map glen (sc t))" by simp
    then have d: "length es \<le> sum_list (map glen (sc t))" using member_le_sum_list Gather by fastforce
    show ?thesis
    proof (cases s)
      case (Scan j)
      then have j: "j < length es" using h Gather r by (auto simp: hs_ok_def)
      then have "es ! j \<in> set es" by simp
      then have "rd8 m (loc (DoneC (es ! j))) = 1"
        using f q Gather o hinvD(6) [OF I, of "es ! j"] by (auto simp: hfree_def)
      moreover have "hrank t (r, i, Scan (Suc j)) < hrank t (r, i, s)" if "Suc j < length es"
        by (rule sub) (use that Scan d in \<open>simp add: hdepth_def\<close>)
      ultimately show ?thesis using Gather Scan q r j adv [of "Scan j"] by (simp add: hnext_def)
    next
      case Start
      have "hrank t (r, i, Scan 0) < hrank t (r, i, s)" by (rule sub) (simp add: Start hdepth_def)
      then show ?thesis using Gather Start q r by (simp add: hnext_def)
    qed (use Gather h r in \<open>auto simp: hs_ok_def\<close>)
  qed (use q r adv [of s] in \<open>simp_all add: hnext_def\<close>)
qed

lemma can_finish:
  assumes "hzero m0" and "reachable c (\<lambda>t. hrounds L n (sc t) 0, m0) s"
  shows "\<exists>s'. reachable c s s' \<and> finished c s'"
proof -
  obtain qs where f: "fst s = (\<lambda>t. hprog L n (sc t) (qs t))" and I: "hinv qs (snd s)"
    using reachable_hinv [OF assms] .
  let ?goal = "\<lambda>qs :: tile \<Rightarrow> hstate. \<forall>t. in_group c t \<longrightarrow> fst (qs t) = n"
  have "\<exists>qs' m'. reachable c (\<lambda>t. hprog L n (sc t) (qs t), snd s) (\<lambda>t. hprog L n (sc t) (qs' t), m') \<and> hinv qs' m' \<and> ?goal qs'"
  proof (rule points.can_reach [OF I, where rank = "\<lambda>qs. \<Sum>t \<in> group_tiles c. hrank t (qs t)"])
    fix qs m
    assume I: "hinv qs m" and g: "\<not> ?goal qs"
    then obtain t where t: "in_group c t" "hfree qs t" using someone_free by blast
    let ?q = "fst (hnext c loc n sc t (qs t) m)"
    have "(\<Sum>u \<in> group_tiles c. hrank u ((qs(t := ?q)) u)) < (\<Sum>u \<in> group_tiles c. hrank u (qs u))"
    proof (rule sum_strict_mono_ex1)
      have "hrank u ((qs(t := ?q)) u) \<le> hrank u (qs u)" for u using free_step [OF I t] by (cases "u = t") simp_all
      then show "\<forall>u \<in> group_tiles c. hrank u ((qs(t := ?q)) u) \<le> hrank u (qs u)" by blast
      show "\<exists>u \<in> group_tiles c. hrank u ((qs(t := ?q)) u) < hrank u (qs u)"
        using free_step [OF I t] t(1) by (intro bexI [of _ t]) (simp_all add: group_tiles_def)
    qed simp
    then show "\<exists>t. in_group c t \<and> (\<Sum>u \<in> group_tiles c. hrank u ((qs(t := fst (hnext c loc n sc t (qs t) m))) u))
        < (\<Sum>u \<in> group_tiles c. hrank u (qs u))"
      using t(1) by blast
  qed
  then obtain qs' m' where r: "reachable c (\<lambda>t. hprog L n (sc t) (qs t), snd s) (\<lambda>t. hprog L n (sc t) (qs' t), m')"
    and I': "hinv qs' m'" and g: "?goal qs'" by blast
  have "hprog L n (sc t) (qs' t) = Ret 0" if "in_group c t" for t
  proof -
    have "fst (qs' t) = n" using g that by blast
    then obtain i s where q: "qs' t = (n, i, s)" by (cases "qs' t") simp
    then have "s = Start" using hinvD(1) [OF I' that] by (simp add: hs_ok_def)
    then show ?thesis using q by simp
  qed
  then have "finished c (\<lambda>t. hprog L n (sc t) (qs' t), m')" by (auto simp: finished_def)
  moreover have "s = (\<lambda>t. hprog L n (sc t) (qs t), snd s)" using f by (cases s) simp
  ultimately show ?thesis using r by metis
qed

end

end
