(* ===== verification/Tree_Barrier.thy ===== *)
theory Tree_Barrier
  imports Handshake
begin

text \<open>
  The tree that both tile-group barriers use: every tile of a row signals the centre tile of the
  row, the centre tiles signal the centre of the column, and the alerts go back the same way. The
  operations of a tile are a sequence of handshake operations on these edges; \<open>reset_alert\<close> is the
  variant of the C++ classes, which also clear the alert word when they reset a done list.
\<close>

section \<open>Edges and sequences\<close>

datatype tedge = RowE tile | ColE u32

definition group_xs :: "cfg \<Rightarrow> u32 list" where
  "group_xs c = cord_range 0 (bsg_tiles_X c - 1)"

definition group_ys :: "cfg \<Rightarrow> u32 list" where
  "group_ys c = cord_range 0 (bsg_tiles_Y c - 1)"

definition centre_x :: "cfg \<Rightarrow> u32" where
  "centre_x c = of_nat ((unat (bsg_tiles_X c) - 1) div 2)"

definition centre_y :: "cfg \<Rightarrow> u32" where
  "centre_y c = of_nat ((unat (bsg_tiles_Y c) - 1) div 2)"

definition tree_edges :: "cfg \<Rightarrow> tedge set" where
  "tree_edges c = RowE ` group_tiles c \<union> ColE ` {y. y < bsg_tiles_Y c}"

primrec tree_child :: "cfg \<Rightarrow> tedge \<Rightarrow> tile" where
  "tree_child c (RowE t) = t"
| "tree_child c (ColE y) = (centre_x c, y)"

primrec tree_parent :: "cfg \<Rightarrow> tedge \<Rightarrow> tile" where
  "tree_parent c (RowE t) = (centre_x c, snd t)"
| "tree_parent c (ColE y) = (centre_x c, centre_y c)"

definition row_edges :: "cfg \<Rightarrow> u32 \<Rightarrow> tedge list" where
  "row_edges c y = map (\<lambda>x. RowE (x, y)) (group_xs c)"

definition col_edges :: "cfg \<Rightarrow> tedge list" where
  "col_edges c = map ColE (group_ys c)"

text \<open>The five parts of a round: enter, gather the row, gather and release the column, release the row, leave.\<close>

definition part1 :: "tile \<Rightarrow> tedge hop list" where
  "part1 t = [Mark, Ask (RowE t)]"

definition part2 :: "cfg \<Rightarrow> tile \<Rightarrow> tedge hop list" where
  "part2 c t = (if fst t = centre_x c then [Gather (row_edges c (snd t)), Ask (ColE (snd t))] else [])"

definition part3 :: "bool \<Rightarrow> cfg \<Rightarrow> tile \<Rightarrow> tedge hop list" where
  "part3 reset_alert c t = (if fst t = centre_x c \<and> snd t = centre_y c
     then Gather (col_edges c) # map Drop (col_edges c) @ (if reset_alert then [Zero (ColE (snd t))] else [])
       @ map Grant (col_edges c)
     else [])"

definition part4 :: "bool \<Rightarrow> cfg \<Rightarrow> tile \<Rightarrow> tedge hop list" where
  "part4 reset_alert c t = (if fst t = centre_x c
     then Await (ColE (snd t)) # (if reset_alert then Ack (ColE (snd t)) # map Drop (row_edges c (snd t)) @ [Zero (RowE t)]
         else map Drop (row_edges c (snd t)) @ [Ack (ColE (snd t))])
       @ map Grant (row_edges c (snd t))
     else [])"

definition part5 :: "tile \<Rightarrow> tedge hop list" where
  "part5 t = [Await (RowE t), Ack (RowE t)]"

definition tree_ops :: "bool \<Rightarrow> cfg \<Rightarrow> tile \<Rightarrow> tedge hop list" where
  "tree_ops v c t = part1 t @ part2 c t @ part3 v c t @ part4 v c t @ part5 t"

lemmas part_defs = part1_def part2_def part3_def part4_def part5_def

fun tree_level :: "tedge hop \<Rightarrow> nat" where
  "tree_level Mark = 0"
| "tree_level (Ask (RowE t)) = 1"
| "tree_level (Gather es) = (if \<exists>y. ColE y \<in> set es then 4 else 2)"
| "tree_level (Ask (ColE y)) = 3"
| "tree_level (Drop (ColE y)) = 5"
| "tree_level (Zero (ColE y)) = 5"
| "tree_level (Grant (ColE y)) = 6"
| "tree_level (Await (ColE y)) = 7"
| "tree_level (Ack (ColE y)) = 8"
| "tree_level (Drop (RowE t)) = 8"
| "tree_level (Zero (RowE t)) = 8"
| "tree_level (Grant (RowE t)) = 9"
| "tree_level (Await (RowE t)) = 10"
| "tree_level (Ack (RowE t)) = 11"

section \<open>Every operation occurs once, in order\<close>

lemma once_simps:
  "once P [] \<longleftrightarrow> False"
  "once P (x # xs) \<longleftrightarrow> (if P x then \<forall>y \<in> set xs. \<not> P y else once P xs)"
proof -
  have 1: "once P (x # xs) \<longleftrightarrow> (\<forall>y \<in> set xs. \<not> P y)" if "P x"
  proof
    assume "once P (x # xs)"
    then obtain us a vs where u: "x # xs = us @ a # vs" "P a" "\<forall>y \<in> set us \<union> set vs. \<not> P y" by (auto simp: once_def)
    then have "us = []" using that by (cases us) auto
    then show "\<forall>y \<in> set xs. \<not> P y" using u by auto
  next
    assume "\<forall>y \<in> set xs. \<not> P y"
    then show "once P (x # xs)" unfolding once_def using that by (intro exI [of _ "[]"] exI [of _ x] exI [of _ xs]) auto
  qed
  have 2: "once P (x # xs) \<longleftrightarrow> once P xs" if np: "\<not> P x"
  proof
    assume "once P (x # xs)"
    then obtain us a vs where u: "x # xs = us @ a # vs" "P a" "\<forall>y \<in> set us \<union> set vs. \<not> P y" by (auto simp: once_def)
    then obtain us' where "us = x # us'" using np by (cases us) auto
    then show "once P xs" using u unfolding once_def by auto
  next
    assume "once P xs"
    then obtain us a vs where u: "xs = us @ a # vs" "P a" "\<forall>y \<in> set us \<union> set vs. \<not> P y" by (auto simp: once_def)
    then show "once P (x # xs)"
      unfolding once_def using that by (intro exI [of _ "x # us"] exI [of _ a] exI [of _ vs]) auto
  qed
  show "once P [] \<longleftrightarrow> False" by (simp add: once_def)
  show "once P (x # xs) \<longleftrightarrow> (if P x then \<forall>y \<in> set xs. \<not> P y else once P xs)" using 1 2 by auto
qed

lemma once_append: "once P (xs @ ys) \<longleftrightarrow> (if \<exists>x \<in> set xs. P x then once P xs \<and> (\<forall>y \<in> set ys. \<not> P y) else once P ys)"
  by (induction xs) (auto simp: once_simps)

lemma once_map: "distinct xs \<Longrightarrow> inj f \<Longrightarrow> k \<in> set xs \<Longrightarrow> once (\<lambda>a. a = f k) (map f xs)"
  by (induction xs) (auto simp: once_simps inj_eq)

lemma precedesI: "xs = us @ vs \<Longrightarrow> \<exists>a \<in> set us. P a \<Longrightarrow> \<forall>a \<in> set us. \<not> Q a \<Longrightarrow> precedes P Q xs"
  by (auto simp: precedes_def)

lemma set_group_xs: "group_fits c \<Longrightarrow> set (group_xs c) = {x. x < bsg_tiles_X c}"
  by (simp add: group_xs_def set_cord_range group_fits_def)

lemma set_group_ys: "group_fits c \<Longrightarrow> set (group_ys c) = {y. y < bsg_tiles_Y c}"
  by (simp add: group_ys_def set_cord_range group_fits_def)

lemma distinct_edges: "group_fits c \<Longrightarrow> distinct (row_edges c y)" "group_fits c \<Longrightarrow> distinct (col_edges c)"
  by (auto simp: row_edges_def col_edges_def group_xs_def group_ys_def distinct_map distinct_cord_range group_fits_def inj_on_def)

lemma set_row_edges: "group_fits c \<Longrightarrow> e \<in> set (row_edges c y) \<longleftrightarrow> (\<exists>x. e = RowE (x, y) \<and> x < bsg_tiles_X c)"
  by (auto simp: row_edges_def set_group_xs)

lemma set_col_edges: "group_fits c \<Longrightarrow> e \<in> set (col_edges c) \<longleftrightarrow> (\<exists>y. e = ColE y \<and> y < bsg_tiles_Y c)"
  by (auto simp: col_edges_def set_group_ys)

lemma centre_less:
  assumes "group_fits c"
  shows "centre_x c < bsg_tiles_X c" "centre_y c < bsg_tiles_Y c"
proof -
  have "0 < unat (bsg_tiles_X c)" "0 < unat (bsg_tiles_Y c)"
    using assms by (simp_all add: group_fits_def word_less_nat_alt)
  then show "centre_x c < bsg_tiles_X c" "centre_y c < bsg_tiles_Y c"
    using unat_lt32 [of "bsg_tiles_X c"] unat_lt32 [of "bsg_tiles_Y c"]
    by (simp_all add: centre_x_def centre_y_def word_less_nat_alt unat_of_nat_lt)
qed

lemma mem_tree_edges [simp]:
  "RowE t \<in> tree_edges c \<longleftrightarrow> in_group c t" "ColE y \<in> tree_edges c \<longleftrightarrow> y < bsg_tiles_Y c"
  by (auto simp: tree_edges_def group_tiles_def)

lemma tree_tiles:
  assumes "group_fits c" and "e \<in> tree_edges c"
  shows "in_group c (tree_child c e) \<and> in_group c (tree_parent c e)"
  using assms centre_less [OF assms(1)] by (auto simp: tree_edges_def group_tiles_def in_group_def)

lemma tree_ops_ok:
  assumes "group_fits c" and "in_group c t" and "a \<in> set (tree_ops v c t)"
  shows "hop_ok (tree_edges c) (tree_child c) (tree_parent c) t a"
proof -
  have n: "row_edges c y \<noteq> []" "col_edges c \<noteq> []" for y
    using set_row_edges [OF assms(1), of "RowE (0, y)" y] set_col_edges [OF assms(1), of "ColE 0"] assms(1)
    by (auto simp: group_fits_def)
  have t: "fst t < bsg_tiles_X c" "snd t < bsg_tiles_Y c" "(fst t, snd t) = t" using assms(2) by (auto simp: in_group_def)
  show ?thesis
    using assms(3) t n
    by (auto simp: tree_ops_def part_defs set_row_edges [OF assms(1)] set_col_edges [OF assms(1)]
        in_group_def prod_eq_iff split: if_splits)
qed


lemma tree_once_row:
  fixes v :: bool
  assumes "group_fits c" and "in_group c t"
  defines "xs \<equiv> tree_ops v c t"
  shows "once (\<lambda>a. a = Mark) xs" "once (\<lambda>a. a = Ask (RowE t)) xs" "once (\<lambda>a. a = Await (RowE t)) xs"
    "once (\<lambda>a. a = Ack (RowE t)) xs"
  unfolding xs_def tree_ops_def part_defs
  by (auto simp: once_append once_simps set_row_edges [OF assms(1)] set_col_edges [OF assms(1)])

lemma once_mapped:
  assumes "distinct es" and "e \<in> set es"
  shows "once (\<lambda>a. a = Drop e) (map Drop es)" "once (\<lambda>a. a = Grant e) (map Grant es)"
  using once_map [OF assms(1), of Drop e] once_map [OF assms(1), of Grant e] assms(2) by (auto simp: inj_on_def)

lemma tree_once_centre:
  fixes v :: bool
  assumes "group_fits c" and "x < bsg_tiles_X c" and "y < bsg_tiles_Y c"
  defines "xs \<equiv> tree_ops v c (centre_x c, y)" and "e \<equiv> RowE (x, y)"
  shows "once (gathers e) xs" "once (\<lambda>a. a = Drop e) xs" "once (\<lambda>a. a = Grant e) xs"
    "once (\<lambda>a. a = Ask (ColE y)) xs" "once (\<lambda>a. a = Await (ColE y)) xs" "once (\<lambda>a. a = Ack (ColE y)) xs"
proof -
  have m: "e \<in> set (row_edges c y)" using assms(2) by (simp add: set_row_edges [OF assms(1)] e_def)
  note o = once_mapped [OF distinct_edges(1) [OF assms(1)] m]
  have x: "Drop e \<in> Drop ` set (row_edges c y)" "Grant e \<in> Grant ` set (row_edges c y)" using m by auto
  note s = once_append once_simps set_row_edges [OF assms(1)] set_col_edges [OF assms(1)]
  show "once (gathers e) xs" "once (\<lambda>a. a = Ask (ColE y)) xs" "once (\<lambda>a. a = Await (ColE y)) xs"
    "once (\<lambda>a. a = Ack (ColE y)) xs"
    unfolding xs_def tree_ops_def part_defs using assms(2) by (auto simp: s e_def)
  show "once (\<lambda>a. a = Drop e) xs" "once (\<lambda>a. a = Grant e) xs"
    unfolding xs_def tree_ops_def part_defs using o x by (auto simp: once_append once_simps image_iff)
      (auto simp: e_def set_col_edges [OF assms(1)])
qed

lemma tree_once_root:
  fixes v :: bool
  assumes "group_fits c" and "y < bsg_tiles_Y c"
  defines "xs \<equiv> tree_ops v c (centre_x c, centre_y c)" and "e \<equiv> ColE y"
  shows "once (gathers e) xs" "once (\<lambda>a. a = Drop e) xs" "once (\<lambda>a. a = Grant e) xs"
proof -
  have m: "e \<in> set (col_edges c)" using assms(2) by (simp add: set_col_edges [OF assms(1)] e_def)
  note o = once_mapped [OF distinct_edges(2) [OF assms(1)] m]
  have x: "Drop e \<in> Drop ` set (col_edges c)" "Grant e \<in> Grant ` set (col_edges c)" using m by auto
  note s = once_append once_simps set_row_edges [OF assms(1)] set_col_edges [OF assms(1)]
  show "once (gathers e) xs"
    unfolding xs_def tree_ops_def part_defs using assms(2) by (auto simp: s e_def)
  show "once (\<lambda>a. a = Drop e) xs" "once (\<lambda>a. a = Grant e) xs"
    unfolding xs_def tree_ops_def part_defs using o x by (auto simp: once_append once_simps image_iff)
      (auto simp: e_def set_row_edges [OF assms(1)])
qed

lemma tree_zero:
  assumes "group_fits c" and "Zero e \<in> set (tree_ops v c t)" and "in_group c t"
  shows "once (\<lambda>a. a = Zero e) (tree_ops v c t) \<and> precedes (gathers e) (\<lambda>a. a = Zero e) (tree_ops v c t)
    \<and> precedes (\<lambda>a. a = Zero e) (\<lambda>a. a = Grant e) (tree_ops v c t)"
proof -
  note s = set_row_edges [OF assms(1)] set_col_edges [OF assms(1)]
  have v: v and x: "fst t = centre_x c" and e: "e = RowE t \<or> e = ColE (snd t) \<and> snd t = centre_y c"
    using assms(2) by (auto simp: tree_ops_def part_defs s split: if_splits)
  have m: "RowE t \<in> set (row_edges c (snd t))" "ColE (snd t) \<in> set (col_edges c)"
    using assms(3) by (auto simp: s in_group_def intro: exI [of _ "fst t"])
  have 1: "once (\<lambda>a. a = Zero e) (tree_ops v c t)"
    using e v x unfolding tree_ops_def part_defs by (auto simp: once_append once_simps s)
  show ?thesis
  proof (cases "e = RowE t")
    case True
    have "precedes (gathers e) (\<lambda>a. a = Zero e) (tree_ops v c t)"
      by (rule precedesI [of _ "part1 t @ part2 c t" "part3 v c t @ part4 v c t @ part5 t"])
        (use True x m in \<open>auto simp: tree_ops_def part1_def part2_def\<close>)
    moreover have "precedes (\<lambda>a. a = Zero e) (\<lambda>a. a = Grant e) (tree_ops v c t)"
      by (rule precedesI [of _ "part1 t @ part2 c t @ part3 v c t @ Await (ColE (snd t)) # Ack (ColE (snd t))
          # map Drop (row_edges c (snd t)) @ [Zero (RowE t)]" "map Grant (row_edges c (snd t)) @ part5 t"])
        (use True x v in \<open>auto simp: tree_ops_def part_defs s\<close>)
    ultimately show ?thesis using 1 by blast
  next
    case False
    then have e': "e = ColE (snd t)" "snd t = centre_y c" using e by auto
    have "precedes (gathers e) (\<lambda>a. a = Zero e) (tree_ops v c t)"
      by (rule precedesI [of _ "part1 t @ part2 c t @ [Gather (col_edges c)]" "map Drop (col_edges c) @ [Zero (ColE (snd t))]
          @ map Grant (col_edges c) @ part4 v c t @ part5 t"])
        (use e' x v m in \<open>auto simp: tree_ops_def part1_def part2_def part3_def\<close>)
    moreover have "precedes (\<lambda>a. a = Zero e) (\<lambda>a. a = Grant e) (tree_ops v c t)"
      by (rule precedesI [of _ "part1 t @ part2 c t @ Gather (col_edges c) # map Drop (col_edges c) @ [Zero (ColE (snd t))]"
          "map Grant (col_edges c) @ part4 v c t @ part5 t"])
        (use e' x v in \<open>auto simp: tree_ops_def part1_def part2_def part3_def s\<close>)
    ultimately show ?thesis using 1 by blast
  qed
qed

lemma tree_order_row:
  assumes "group_fits c"
  shows "precedes (\<lambda>a. a = Ask (RowE t)) (\<lambda>a. a = Await (RowE t)) (tree_ops v c t)"
    "precedes (\<lambda>a. a = Await (RowE t)) (\<lambda>a. a = Ack (RowE t)) (tree_ops v c t)"
    "precedes (\<lambda>a. a = Ask (RowE t)) (\<lambda>a. a = Ack (RowE t)) (tree_ops v c t)"
proof -
  note s = set_row_edges [OF assms] set_col_edges [OF assms]
  show "precedes (\<lambda>a. a = Ask (RowE t)) (\<lambda>a. a = Await (RowE t)) (tree_ops v c t)"
    "precedes (\<lambda>a. a = Ask (RowE t)) (\<lambda>a. a = Ack (RowE t)) (tree_ops v c t)"
    by (rule precedesI [of _ "part1 t" "part2 c t @ part3 v c t @ part4 v c t @ part5 t"], auto simp: tree_ops_def part1_def)+
  show "precedes (\<lambda>a. a = Await (RowE t)) (\<lambda>a. a = Ack (RowE t)) (tree_ops v c t)"
    by (rule precedesI [of _ "part1 t @ part2 c t @ part3 v c t @ part4 v c t @ [Await (RowE t)]" "[Ack (RowE t)]"])
      (auto simp: tree_ops_def part_defs s)
qed

lemma tree_order_centre:
  fixes v :: bool
  assumes "group_fits c" and "x < bsg_tiles_X c" and "y < bsg_tiles_Y c"
  defines "t \<equiv> (centre_x c, y)" and "e \<equiv> RowE (x, y)"
  shows "precedes (gathers e) (\<lambda>a. a = Drop e) (tree_ops v c t)" "precedes (\<lambda>a. a = Drop e) (\<lambda>a. a = Grant e) (tree_ops v c t)"
    "precedes (gathers e) (\<lambda>a. a = Grant e) (tree_ops v c t)"
    "precedes (gathers e) (\<lambda>a. a = Ask (ColE y)) (tree_ops v c t)"
    "precedes (\<lambda>a. a = Await (ColE y)) (\<lambda>a. a = Grant e) (tree_ops v c t)"
    "precedes (\<lambda>a. a = Ask (ColE y)) (\<lambda>a. a = Await (ColE y)) (tree_ops v c t)"
    "precedes (\<lambda>a. a = Await (ColE y)) (\<lambda>a. a = Ack (ColE y)) (tree_ops v c t)"
    "precedes (\<lambda>a. a = Ask (ColE y)) (\<lambda>a. a = Ack (ColE y)) (tree_ops v c t)"
proof -
  note s = set_row_edges [OF assms(1)] set_col_edges [OF assms(1)]
  have m: "e \<in> set (row_edges c y)" using assms(2) by (simp add: s e_def)
  have 12: "tree_ops v c t = (part1 t @ part2 c t) @ part3 v c t @ part4 v c t @ part5 t" by (simp add: tree_ops_def)
  have 2: "tree_ops v c t = (part1 t @ [Gather (row_edges c y)]) @ Ask (ColE y) # part3 v c t @ part4 v c t @ part5 t"
    by (simp add: tree_ops_def part2_def t_def)
  have 4: "tree_ops v c t = (part1 t @ part2 c t @ part3 v c t @ [Await (ColE y)]) @
      ((if v then Ack (ColE y) # map Drop (row_edges c y) @ [Zero (RowE t)] else map Drop (row_edges c y) @ [Ack (ColE y)])
       @ map Grant (row_edges c y) @ part5 t)"
    by (simp add: tree_ops_def part4_def t_def)
  have 5: "tree_ops v c t = (part1 t @ part2 c t @ part3 v c t @ Await (ColE y) #
      (if v then Ack (ColE y) # map Drop (row_edges c y) @ [Zero (RowE t)] else map Drop (row_edges c y) @ [Ack (ColE y)]))
       @ map Grant (row_edges c y) @ part5 t"
    by (simp add: tree_ops_def part4_def t_def)
  show "precedes (gathers e) (\<lambda>a. a = Drop e) (tree_ops v c t)"
    by (rule precedesI [OF 12]) (use m in \<open>auto simp: part1_def part2_def t_def\<close>)
  show "precedes (gathers e) (\<lambda>a. a = Grant e) (tree_ops v c t)"
    by (rule precedesI [OF 12]) (use m in \<open>auto simp: part1_def part2_def t_def\<close>)
  show "precedes (\<lambda>a. a = Ask (ColE y)) (\<lambda>a. a = Await (ColE y)) (tree_ops v c t)"
    by (rule precedesI [OF 12]) (auto simp: part1_def part2_def t_def)
  show "precedes (\<lambda>a. a = Ask (ColE y)) (\<lambda>a. a = Ack (ColE y)) (tree_ops v c t)"
    by (rule precedesI [OF 12]) (auto simp: part1_def part2_def t_def)
  show "precedes (gathers e) (\<lambda>a. a = Ask (ColE y)) (tree_ops v c t)"
    by (rule precedesI [OF 2]) (use m in \<open>auto simp: part1_def\<close>)
  show "precedes (\<lambda>a. a = Await (ColE y)) (\<lambda>a. a = Grant e) (tree_ops v c t)"
    "precedes (\<lambda>a. a = Await (ColE y)) (\<lambda>a. a = Ack (ColE y)) (tree_ops v c t)"
    by (rule precedesI [OF 4], auto simp: part1_def part2_def part3_def e_def s)+
  show "precedes (\<lambda>a. a = Drop e) (\<lambda>a. a = Grant e) (tree_ops v c t)"
    by (rule precedesI [OF 5]) (use m in \<open>auto simp: part1_def part2_def part3_def e_def s\<close>)
qed

lemma tree_order_root:
  fixes v :: bool
  assumes "group_fits c" and "y < bsg_tiles_Y c"
  defines "t \<equiv> (centre_x c, centre_y c)" and "e \<equiv> ColE y"
  shows "precedes (gathers e) (\<lambda>a. a = Drop e) (tree_ops v c t)" "precedes (\<lambda>a. a = Drop e) (\<lambda>a. a = Grant e) (tree_ops v c t)"
    "precedes (gathers e) (\<lambda>a. a = Grant e) (tree_ops v c t)"
    "\<And>y'. y' < bsg_tiles_Y c \<Longrightarrow> precedes (gathers (ColE y')) (\<lambda>a. a = Grant e) (tree_ops v c t)"
proof -
  note s = set_row_edges [OF assms(1)] set_col_edges [OF assms(1)]
  have m: "e \<in> set (col_edges c)" using assms(2) by (simp add: s e_def)
  have 3: "tree_ops v c t = (part1 t @ part2 c t @ [Gather (col_edges c)]) @ map Drop (col_edges c)
      @ (if v then [Zero (ColE (snd t))] else []) @ map Grant (col_edges c) @ part4 v c t @ part5 t"
    by (simp add: tree_ops_def part3_def t_def)
  have 4: "tree_ops v c t = (part1 t @ part2 c t @ Gather (col_edges c) # map Drop (col_edges c)
      @ (if v then [Zero (ColE (snd t))] else [])) @ map Grant (col_edges c) @ part4 v c t @ part5 t"
    by (simp add: tree_ops_def part3_def t_def)
  show "precedes (gathers e) (\<lambda>a. a = Drop e) (tree_ops v c t)" "precedes (gathers e) (\<lambda>a. a = Grant e) (tree_ops v c t)"
    by (rule precedesI [OF 3], use m in \<open>auto simp: part1_def part2_def\<close>)+
  show "precedes (gathers (ColE y')) (\<lambda>a. a = Grant e) (tree_ops v c t)" if "y' < bsg_tiles_Y c" for y'
    by (rule precedesI [OF 3]) (use that in \<open>auto simp: part1_def part2_def s\<close>)
  show "precedes (\<lambda>a. a = Drop e) (\<lambda>a. a = Grant e) (tree_ops v c t)"
    by (rule precedesI [OF 4]) (use m in \<open>auto simp: part1_def part2_def e_def s\<close>)
qed

lemma tree_levels_sorted:
  assumes "group_fits c"
  shows "sorted (map tree_level (tree_ops v c t))"
proof -
  note s = set_row_edges [OF assms] set_col_edges [OF assms]
  have g: "tree_level (Gather (row_edges c y)) = 2" "tree_level (Gather (col_edges c)) = 4" for y
    using centre_less(2) [OF assms] by (auto simp: s)
  have m: "e \<in> set (row_edges c y) \<Longrightarrow> tree_level (Drop e) = 8" "e \<in> set (row_edges c y) \<Longrightarrow> tree_level (Grant e) = 9"
    "e \<in> set (col_edges c) \<Longrightarrow> tree_level (Drop e) = 5" "e \<in> set (col_edges c) \<Longrightarrow> tree_level (Grant e) = 6" for e y
    by (auto simp: s)
  have eq: "sorted (map (\<lambda>_. k :: nat) xs)" for k and xs :: "tedge list" by (induction xs) auto
  have "map (\<lambda>e. tree_level (Drop e)) (row_edges c y) = map (\<lambda>_. 8) (row_edges c y)"
    "map (\<lambda>e. tree_level (Grant e)) (row_edges c y) = map (\<lambda>_. 9) (row_edges c y)"
    "map (\<lambda>e. tree_level (Drop e)) (col_edges c) = map (\<lambda>_. 5) (col_edges c)"
    "map (\<lambda>e. tree_level (Grant e)) (col_edges c) = map (\<lambda>_. 6) (col_edges c)" for y
    by (auto simp: m)
  then have o: "sorted (map (\<lambda>e. tree_level (Drop e)) (row_edges c y))" "sorted (map (\<lambda>e. tree_level (Grant e)) (row_edges c y))"
    "sorted (map (\<lambda>e. tree_level (Drop e)) (col_edges c))" "sorted (map (\<lambda>e. tree_level (Grant e)) (col_edges c))" for y
    by (simp_all only: eq)
  show ?thesis
    unfolding tree_ops_def part_defs
    by (auto simp: g m o comp_def sorted_append simp del: tree_level.simps(3))
qed

section \<open>Where the signals are\<close>

text \<open>
  The local addresses of the two done lists, the two alert words and the word that announces
  rounds. They are the same on all tiles.
\<close>

record tree_addr =
  rdone :: nat
  ralert :: nat
  cdone :: nat
  calert :: nat
  own :: nat

definition intervals_apart :: "(nat \<times> nat) list \<Rightarrow> bool" where
  "intervals_apart = sorted_wrt (\<lambda>(a, k) (b, l). a + k \<le> b \<or> b + l \<le> a)"

definition tree_ok :: "cfg \<Rightarrow> tree_addr \<Rightarrow> bool" where
  "tree_ok c a \<longleftrightarrow> group_fits c
     \<and> rdone a + unat (bsg_tiles_X c) \<le> 2 ^ 18 \<and> ralert a + 4 \<le> 2 ^ 18
     \<and> cdone a + unat (bsg_tiles_Y c) \<le> 2 ^ 18 \<and> calert a + 4 \<le> 2 ^ 18 \<and> own a + 4 \<le> 2 ^ 18
     \<and> intervals_apart [(rdone a, unat (bsg_tiles_X c)), (ralert a, 4), (cdone a, unat (bsg_tiles_Y c)), (calert a, 4), (own a, 4)]"

fun tree_cell_tile :: "cfg \<Rightarrow> tedge hcell \<Rightarrow> tile" where
  "tree_cell_tile c (DoneC e) = tree_parent c e"
| "tree_cell_tile c (AlertC e) = tree_child c e"
| "tree_cell_tile c (PhaseC t) = t"

fun tree_cell_off :: "tree_addr \<Rightarrow> tedge hcell \<Rightarrow> nat" where
  "tree_cell_off a (DoneC (RowE t)) = rdone a + unat (fst t)"
| "tree_cell_off a (DoneC (ColE y)) = cdone a + unat y"
| "tree_cell_off a (AlertC (RowE t)) = ralert a"
| "tree_cell_off a (AlertC (ColE y)) = calert a"
| "tree_cell_off a (PhaseC t) = own a"

definition tree_loc :: "cfg \<Rightarrow> tree_addr \<Rightarrow> tedge hcell \<Rightarrow> npa" where
  "tree_loc c a k = tile_npa c (tree_cell_tile c k) (of_nat (tree_cell_off a k))"

definition tree_links :: "bool \<Rightarrow> cfg \<Rightarrow> tree_addr \<Rightarrow> tedge links" where
  "tree_links v c a = \<lparr>
     dask = \<lambda>e. bsg_remote_ptr (fst (tree_parent c e)) (snd (tree_parent c e)) (of_nat (tree_cell_off a (DoneC e))),
     dloc = \<lambda>e. of_nat (tree_cell_off a (DoneC e)),
     agrant = \<lambda>e. bsg_remote_ptr (fst (tree_child c e)) (snd (tree_child c e)) (of_nat (tree_cell_off a (AlertC e))),
     aloc = \<lambda>e. of_nat (tree_cell_off a (AlertC e)),
     phase = of_nat (own a),
     stop = \<lambda>es i. if v then \<not> slt i (of_nat (length es)) else \<not> sle i (of_nat (length es) - 1)\<rparr>"

definition hwidth :: "'e hcell \<Rightarrow> nat" where
  "hwidth k = (case k of DoneC e \<Rightarrow> 1 | _ \<Rightarrow> 4)"

lemma hspan_offsets:
  assumes "loc k = tile_npa c t (of_nat b)"
  shows "hspan loc k = (\<lambda>j. tile_npa c t (of_nat (b + j))) ` {0..<hwidth k}"
proof -
  have "{0..<4 :: nat} = {0, 1, 2, 3}" by auto
  moreover have "{0..<1 :: nat} = {0}" by auto
  ultimately show ?thesis
    using assms by (cases k) (auto simp: hspan_def hwidth_def span4_def algebra_simps)
qed

lemma hcells_apartI:
  assumes "group_fits c" and loc: "\<And>k. k \<in> V \<Longrightarrow> in_group c (ti k) \<and> loc k = tile_npa c (ti k) (of_nat (off k)) \<and> off k + hwidth k \<le> 2 ^ 18"
    and sep: "\<And>j k. j \<in> V \<Longrightarrow> k \<in> V \<Longrightarrow> j \<noteq> k \<Longrightarrow> ti j = ti k \<Longrightarrow> off j + hwidth j \<le> off k \<or> off k + hwidth k \<le> off j"
  shows "hcells_apart loc V"
  unfolding hcells_apart_def
proof (intro ballI impI)
  fix j k
  assume jk: "j \<in> V" "k \<in> V" "j \<noteq> k"
  have False if ab: "a < hwidth j" "b < hwidth k" "tile_npa c (ti j) (of_nat (off j + a)) = tile_npa c (ti k) (of_nat (off k + b))" for a b
  proof -
    have t: "ti j = ti k" and e: "(of_nat (off j + a) :: u32) = of_nat (off k + b)"
      using ab(3) tile_npa_inj [OF assms(1)] loc jk by blast+
    have "off j + a < 2 ^ 18" "off k + b < 2 ^ 18" using loc [OF jk(1)] loc [OF jk(2)] ab by simp_all
    then have "off j + a = off k + b" 
      using e unat_of_nat_lt [of "off j + a"] unat_of_nat_lt [of "off k + b"] by simp
    then show False using sep [OF jk t] ab by linarith
  qed
  then show "hspan loc j \<inter> hspan loc k = {}"
    using loc [OF jk(1)] loc [OF jk(2)] by (auto simp: hspan_offsets [of loc j] hspan_offsets [of loc k])
qed

definition tree_regions :: "cfg \<Rightarrow> tree_addr \<Rightarrow> (nat \<times> nat) list" where
  "tree_regions c a =
     [(rdone a, unat (bsg_tiles_X c)), (ralert a, 4), (cdone a, unat (bsg_tiles_Y c)), (calert a, 4), (own a, 4)]"

fun tree_region :: "tedge hcell \<Rightarrow> nat" where
  "tree_region (DoneC (RowE t)) = 0"
| "tree_region (AlertC (RowE t)) = 1"
| "tree_region (DoneC (ColE y)) = 2"
| "tree_region (AlertC (ColE y)) = 3"
| "tree_region (PhaseC t) = 4"

lemma intervals_apart_nth:
  assumes "intervals_apart xs" and "i < length xs" and "j < length xs" and "i \<noteq> j"
    and "xs ! i = (a, k)" and "xs ! j = (b, l)"
  shows "a + k \<le> b \<or> b + l \<le> a"
proof (cases "i < j")
  case True
  then show ?thesis using assms by (fastforce simp: intervals_apart_def sorted_wrt_iff_nth_less)
next
  case False
  then have "j < i" using assms(4) by simp
  then show ?thesis using assms by (fastforce simp: intervals_apart_def sorted_wrt_iff_nth_less)
qed

lemma tree_cell_region:
  assumes "k \<in> DoneC ` tree_edges c \<union> AlertC ` tree_edges c \<union> PhaseC ` group_tiles c"
    and "tree_regions c a ! tree_region k = (b, l)"
  shows "tree_region k < 5" "b \<le> tree_cell_off a k" "tree_cell_off a k + hwidth k \<le> b + l"
proof -
  have "tree_region k < 5 \<and> b \<le> tree_cell_off a k \<and> tree_cell_off a k + hwidth k \<le> b + l"
  proof (cases k)
    case (DoneC e)
    then have "e \<in> tree_edges c" using assms(1) by auto
    then show ?thesis using DoneC assms(2)
      by (cases e) (auto simp: tree_regions_def hwidth_def in_group_def word_less_nat_alt numeral_2_eq_2)
  next
    case (AlertC e)
    then show ?thesis using assms(2)
      by (cases e) (auto simp: tree_regions_def hwidth_def numeral_3_eq_3)
  qed (use assms(2) in \<open>auto simp: tree_regions_def hwidth_def eval_nat_numeral\<close>)
  then show "tree_region k < 5" "b \<le> tree_cell_off a k" "tree_cell_off a k + hwidth k \<le> b + l" by auto
qed

lemma same_region:
  assumes "tree_region j = tree_region k" and "tree_cell_tile c j = tree_cell_tile c k" and "j \<noteq> k"
  shows "tree_cell_off a j + hwidth j \<le> tree_cell_off a k \<or> tree_cell_off a k + hwidth k \<le> tree_cell_off a j"
proof (cases j)
  case (DoneC e)
  then obtain f where f: "k = DoneC f" using assms(1) by (cases e; cases k rule: tree_region.cases) auto
  show ?thesis
  proof (cases e)
    case (RowE t)
    then obtain u where "f = RowE u" using assms(1) DoneC f by (cases f) auto
    then have "fst t \<noteq> fst u" using assms(2,3) DoneC f RowE by (auto simp: prod_eq_iff)
    then have "unat (fst t) \<noteq> unat (fst u)" by (simp add: word_unat_eq_iff)
    then show ?thesis using DoneC f RowE \<open>f = RowE u\<close> by (auto simp: hwidth_def)
  next
    case (ColE y)
    then obtain z where "f = ColE z" using assms(1) DoneC f by (cases f) auto
    then have "y \<noteq> z" using assms(3) DoneC f ColE by auto
    then have "unat y \<noteq> unat z" by (simp add: word_unat_eq_iff)
    then show ?thesis using DoneC f ColE \<open>f = ColE z\<close> by (auto simp: hwidth_def)
  qed
next
  case (AlertC e)
  then have False using assms by (cases e; cases k rule: tree_region.cases) auto
  then show ?thesis ..
next
  case (PhaseC t)
  then have False using assms by (cases k rule: tree_region.cases) auto
  then show ?thesis ..
qed

lemma tree_apart:
  assumes "tree_ok c a"
  shows "hcells_apart (tree_loc c a) (DoneC ` tree_edges c \<union> AlertC ` tree_edges c \<union> PhaseC ` group_tiles c)" (is "hcells_apart _ ?V")
proof (rule hcells_apartI [where ti = "tree_cell_tile c" and off = "tree_cell_off a"])
  show g: "group_fits c" using assms by (simp add: tree_ok_def)
  show "in_group c (tree_cell_tile c k) \<and> tree_loc c a k = tile_npa c (tree_cell_tile c k) (of_nat (tree_cell_off a k))
      \<and> tree_cell_off a k + hwidth k \<le> 2 ^ 18" if "k \<in> ?V" for k
    using that assms centre_less [OF g]
    by (auto simp: tree_loc_def tree_ok_def hwidth_def tree_edges_def group_tiles_def in_group_def word_less_nat_alt)
  show "tree_cell_off a j + hwidth j \<le> tree_cell_off a k \<or> tree_cell_off a k + hwidth k \<le> tree_cell_off a j"
    if jk: "j \<in> ?V" "k \<in> ?V" "j \<noteq> k" "tree_cell_tile c j = tree_cell_tile c k" for j k
  proof (cases "tree_region j = tree_region k")
    case True
    then show ?thesis using same_region jk by blast
  next
    case False
    obtain b l b' l' where r: "tree_regions c a ! tree_region j = (b, l)" "tree_regions c a ! tree_region k = (b', l')"
      by (cases "tree_regions c a ! tree_region j"; cases "tree_regions c a ! tree_region k") auto
    note rj = tree_cell_region [OF jk(1) r(1)] and rk = tree_cell_region [OF jk(2) r(2)]
    have "intervals_apart (tree_regions c a)" "length (tree_regions c a) = 5"
      using assms by (simp_all add: tree_ok_def tree_regions_def)
    then have "b + l \<le> b' \<or> b' + l' \<le> b" using intervals_apart_nth [OF _ _ _ False r] rj(1) rk(1) by simp
    then show ?thesis using rj rk by linarith
  qed
qed

section \<open>The barrier is a handshake\<close>

text \<open>
  The contract of both headers: \<open>code\<close> is what tile \<open>t\<close> executes in one round, the store of the
  round number included, and it is the sequence of the tree's operations.
\<close>

locale tree_barrier =
  fixes c :: cfg and n :: nat and a :: tree_addr and v :: bool and code :: "nat \<Rightarrow> tile \<Rightarrow> proc"
  assumes ok: "tree_ok c a"
    and code_ops: "in_group c t \<Longrightarrow> seq (code r t) p = seq (for_each (tree_ops v c t) (hcode (tree_links v c a) r)) p"
begin

lemma fits: "group_fits c"
  using ok by (simp add: tree_ok_def)

lemma addr_bounds: "e \<in> tree_edges c \<Longrightarrow> tree_cell_off a (DoneC e) < 2 ^ 18" "tree_cell_off a (AlertC e) < 2 ^ 18" "own a < 2 ^ 18"
  using ok by (cases e; auto simp: tree_ok_def tree_edges_def group_tiles_def in_group_def word_less_nat_alt)+

lemma stop_at:
  assumes "length es < 2 ^ 31" and "es \<noteq> []" and "i \<le> length es"
  shows "stop (tree_links v c a) es (of_nat i) \<longleftrightarrow> i = length es"
proof -
  have s: "sint (of_nat k :: u32) = int k" if "k < 2 ^ 31" for k
    using sint_of_int_small [of "int k"] that by simp
  have p: "of_nat (length es) - (1 :: u32) = of_nat (length es - 1)" using assms(2) by (cases es) auto
  have 1: "sint (of_nat i :: u32) = int i" "sint (of_nat (length es) :: u32) = int (length es)"
    "sint (of_nat (length es - 1) :: u32) = int (length es - 1)"
    using assms by (intro s; linarith)+
  have 2: "0 < length es" using assms(2) by simp
  show ?thesis
  proof (cases v)
    case True
    then have "stop (tree_links v c a) es (of_nat i) \<longleftrightarrow> \<not> slt (of_nat i) (of_nat (length es))" by (simp add: tree_links_def)
    then show ?thesis unfolding slt_def 1 using assms(3) by linarith
  next
    case False
    then have "stop (tree_links v c a) es (of_nat i) \<longleftrightarrow> \<not> sle (of_nat i) (of_nat (length es) - 1)" by (simp add: tree_links_def)
    then show ?thesis unfolding p sle_def 1 using assms(3) 2 by linarith
  qed
qed

lemma own_local: "aloc (tree_links v c a) e \<noteq> phase (tree_links v c a)"
proof -
  have "tree_cell_off a (AlertC e) \<noteq> own a"
  proof -
    have "intervals_apart (tree_regions c a)" using ok by (simp add: tree_ok_def tree_regions_def)
    from intervals_apart_nth [OF this, of 1 4 "ralert a" 4 "own a" 4] intervals_apart_nth [OF this, of 3 4 "calert a" 4 "own a" 4]
    show ?thesis by (cases e) (auto simp: tree_regions_def)
  qed
  moreover have "own a < 2 ^ 32" "tree_cell_off a (AlertC e) < 2 ^ 32" using addr_bounds(2) [of e] addr_bounds(3) by simp_all
  ultimately show ?thesis
    using unat_of_nat_lt [of "own a"] unat_of_nat_lt [of "tree_cell_off a (AlertC e)"] by (auto simp: tree_links_def)
qed

lemma own_remote: "agrant (tree_links v c a) e \<noteq> phase (tree_links v c a)"
proof -
  have "unat (of_nat (own a) :: u32) < 2 ^ 18" using addr_bounds(3) by (simp add: unat_of_nat_lt)
  then have "\<not> bit (of_nat (own a) :: u32) 29" by (rule bit_field_False) simp
  moreover have "bit (bsg_remote_ptr x y b) 29" for x y b
    using bit_eva [of 29 24 y 18 x b 29] unfolding bsg_remote_ptr_shape by simp
  ultimately have "agrant (tree_links v c a) e \<noteq> of_nat (own a)"
    unfolding tree_links_def links.simps by metis
  then show ?thesis by (simp add: tree_links_def)
qed

end

sublocale tree_barrier \<subseteq> tree: handshake_levels c n "tree_ops v c" "tree_edges c" "tree_child c" "tree_parent c"
  "tree_links v c a" "tree_loc c a" tree_level
proof (unfold_locales, goal_cases)
  case (1 e)
  then show ?case by (rule tree_tiles [OF fits])
next
  case (2 t b)
  then show ?case by (rule tree_ops_ok [OF fits])
next
  case (3 t)
  then show ?case using tree_once_row(1) [OF fits 3] by (simp add: tree_ops_def part1_def)
next
  case (4 e)
  then show ?case
    using tree_once_row(2-) [OF fits, of _ v] tree_once_centre(4-) [OF fits centre_less(1) [OF fits], of _ v]
    by (cases e) auto
next
  case (5 e)
  then show ?case
    using tree_order_row [OF fits, of _ v] tree_order_centre(6-) [OF fits centre_less(1) [OF fits], of _ v]
    by (cases e) auto
next
  case (6 e)
  then show ?case
    using tree_once_centre(1-3) [OF fits, of _ _ v] tree_once_root [OF fits, of _ v]
    by (cases e) (auto simp: in_group_def)
next
  case (7 e)
  then show ?case
    using tree_order_centre(1-3) [OF fits, of _ _ v] tree_order_root(1-3) [OF fits, of _ v]
    by (cases e) (auto simp: in_group_def)
next
  case (8 t e)
  then show ?case using tree_zero [OF fits] by blast
next
  case (9 e)
  have g: "in_group c (tree_child c e)" "in_group c (tree_parent c e)" using tree_tiles [OF fits 9] by auto
  have b: "unat (of_nat (tree_cell_off a (DoneC e)) :: u32) < 2 ^ 18" "unat (of_nat (tree_cell_off a (AlertC e)) :: u32) < 2 ^ 18"
    using addr_bounds(1) [OF 9] addr_bounds(2) [of e] by (simp_all add: unat_of_nat_lt)
  have l: "unat (w :: u32) < 2 ^ 29" if "unat w < 2 ^ 18" for w using that by simp
  show ?case
    using eva_remote_group [OF fits _ b(1)] eva_remote_group [OF fits _ b(2)] eva_local [OF l [OF b(1)]] eva_local [OF l [OF b(2)]] g
    by (simp add: tree_links_def tree_loc_def)
next
  case (10 t)
  have "unat (of_nat (own a) :: u32) < 2 ^ 29" using addr_bounds(3) by (simp add: unat_of_nat_lt)
  then show ?case by (simp add: tree_links_def tree_loc_def eva_local)
next
  case (11 e)
  then show ?case using own_local own_remote by blast
next
  case 12
  then show ?case by (rule tree_apart [OF ok])
next
  case (13 t es i)
  have "es = row_edges c (snd t) \<or> es = col_edges c"
    using 13(2) by (auto simp: tree_ops_def part_defs split: if_splits)
  moreover have "length (row_edges c y) < 2 ^ 31" "length (col_edges c) < 2 ^ 31" for y
    using group_fits_nat [OF fits] fits
    by (simp_all add: row_edges_def col_edges_def group_xs_def group_ys_def cord_range_all group_fits_def)
  moreover have "es \<noteq> []" using tree_ops_ok [OF fits 13(1,2)] by simp
  ultimately show ?case using stop_at [OF _ _ 13(3)] by blast
next
  case (14 t)
  show ?case by (rule tree_levels_sorted [OF fits])
next
  case (15 e es)
  then show ?case by (cases e) auto
next
  case (16 e)
  then show ?case by (cases e) auto
qed

section \<open>Nobody leaves early, everybody can leave\<close>

definition tree_zero_mem :: "cfg \<Rightarrow> tree_addr \<Rightarrow> machine \<Rightarrow> bool" where
  "tree_zero_mem c a m \<longleftrightarrow> (\<forall>t. in_group c t \<longrightarrow>
     (\<forall>i < unat (bsg_tiles_X c). rd8 m (tile_npa c t (of_nat (rdone a + i))) = 0)
     \<and> (\<forall>i < unat (bsg_tiles_Y c). rd8 m (tile_npa c t (of_nat (cdone a + i))) = 0)
     \<and> rd m (tile_npa c t (of_nat (ralert a))) = 0 \<and> rd m (tile_npa c t (of_nat (calert a))) = 0
     \<and> rd m (tile_npa c t (of_nat (own a))) = 0)"

context tree_barrier begin

lemma rounds_ops:
  assumes "in_group c t"
  shows "for_each rs (\<lambda>r. code r t) = for_each rs (\<lambda>r. for_each (tree_ops v c t) (hcode (tree_links v c a) r))"
  by (induction rs) (simp_all add: code_ops [OF assms])

lemma zero_start:
  assumes "tree_zero_mem c a m"
  shows "tree.hzero m"
proof -
  have "rd8 m (tree_loc c a (DoneC e)) = 0 \<and> rd m (tree_loc c a (AlertC e)) = 0" if e: "e \<in> tree_edges c" for e
  proof -
    have g: "in_group c (tree_child c e)" "in_group c (tree_parent c e)" using tree_tiles [OF fits e] by auto
    show ?thesis
      using assms g e unfolding tree_zero_mem_def tree_loc_def
      by (cases e) (auto simp: in_group_def word_less_nat_alt simp del: of_nat_add)
  qed
  then show ?thesis
    using assms unfolding tree.hzero_def by (auto simp: tree_zero_mem_def tree_loc_def)
qed

lemma passed_entered:
  assumes I: "tree.hinv qs m" and t: "in_group c t" and u: "in_group c u" and r: "fst (qs t) = r"
  shows "r \<le> pcount (\<lambda>b. b = Ask (RowE u)) (tree_ops v c u) (qs u)"
proof -
  obtain x y x' y' where tu: "t = (x, y)" "u = (x', y')" by (cases t; cases u) auto
  have y: "x < bsg_tiles_X c" "y < bsg_tiles_Y c" "x' < bsg_tiles_X c" "y' < bsg_tiles_Y c"
    using t u tu by (auto simp: in_group_def)
  have e: "RowE t \<in> tree_edges c" "RowE u \<in> tree_edges c" "ColE y \<in> tree_edges c" "ColE y' \<in> tree_edges c"
    using t u y by simp_all
  let ?n = "\<lambda>P t. pcount P (tree_ops v c t) (qs t)" and ?cy = "(centre_x c, y)" and ?cy' = "(centre_x c, y')"
    and ?root = "(centre_x c, centre_y c)"
  have "r \<le> ?n (\<lambda>b. b = Await (RowE t)) t" using pcount_range(1) [of "qs t"] r by simp
  also have "\<dots> \<le> ?n (\<lambda>b. b = Grant (RowE t)) ?cy" using tree.await_heard [OF I e(1)] tu by simp
  also have "\<dots> \<le> ?n (\<lambda>b. b = Await (ColE y)) ?cy"
    using tree_order_centre(5) [OF fits y(1,2), of v] tree_once_centre(5) [OF fits y(1,2), of v] tu by (simp add: pcount_order(1))
  also have "\<dots> \<le> ?n (\<lambda>b. b = Grant (ColE y)) ?root" using tree.await_heard [OF I e(3)] by simp
  also have "\<dots> \<le> ?n (gathers (ColE y')) ?root"
    using tree_order_root(4) [OF fits y(2,4), of v] tree_once_root(1) [OF fits y(4), of v] by (simp add: pcount_order(1))
  also have "\<dots> \<le> ?n (\<lambda>b. b = Ask (ColE y')) ?cy'" using tree.heard_asked [OF I e(4)] by simp
  also have "\<dots> \<le> ?n (gathers (RowE u)) ?cy'"
    using tree_order_centre(4) [OF fits y(3,4), of v] tree_once_centre(1) [OF fits y(3,4), of v] tu by (simp add: pcount_order(1))
  also have "\<dots> \<le> ?n (\<lambda>b. b = Ask (RowE u)) u" using tree.heard_asked [OF I e(2)] tu by simp
  finally show ?thesis .
qed

lemma code_reachable:
  assumes "reachable c (\<lambda>t. for_each [0..<n] (\<lambda>r. code r t), m0) s"
  obtains s' where "reachable c (\<lambda>t. hrounds (tree_links v c a) n (tree_ops v c t) 0, m0) s'" "snd s' = snd s"
    "\<And>t. in_group c t \<Longrightarrow> fst s' t = fst s t"
proof -
  have "\<forall>t. in_group c t \<longrightarrow> for_each [0..<n] (\<lambda>r. code r t) = hrounds (tree_links v c a) n (tree_ops v c t) 0"
    using rounds_ops by (simp add: hrounds_def)
  from reachable_agree [OF assms this] show ?thesis using that by metis
qed

lemma nobody_early:
  assumes "tree_zero_mem c a m0" and "n < 2 ^ 32" and "reachable c (\<lambda>t. for_each [0..<n] (\<lambda>r. code r t), m0) s"
    and "in_group c t" and "has_left (of_nat (own a)) n (fst s t) r" and "in_group c u"
  shows "r \<le> unat (rd (snd s) (tile_npa c u (of_nat (own a))))"
proof -
  obtain s' where s': "reachable c (\<lambda>t. hrounds (tree_links v c a) n (tree_ops v c t) 0, m0) s'" "snd s' = snd s"
    "fst s' t = fst s t"
    using code_reachable [OF assms(3)] assms(4) by metis
  obtain qs where f: "fst s' = (\<lambda>t. hprog (tree_links v c a) n (tree_ops v c t) (qs t))" and I: "tree.hinv qs (snd s')"
    using tree.reachable_hinv [OF zero_start [OF assms(1)] s'(1)] .
  have p: "phase (tree_links v c a) = of_nat (own a)" by (simp add: tree_links_def)
  have "fst (qs t) = r"
    using tree.left_round [OF assms(4) tree.hinvD(1) [OF I assms(4)] assms(2)] assms(5) f s'(3) p by metis
  then have "r \<le> pcount (\<lambda>b. b = Ask (RowE u)) (tree_ops v c u) (qs u)" using passed_entered [OF I assms(4,6)] by simp
  also have "\<dots> \<le> unat (rd (snd s') (tree_loc c a (PhaseC u)))" using tree.phase_value [OF I assms(6,2)] .
  finally show ?thesis by (simp add: s'(2) tree_loc_def)
qed

lemma everybody_can_leave:
  assumes "tree_zero_mem c a m0" and "reachable c (\<lambda>t. for_each [0..<n] (\<lambda>r. code r t), m0) s"
  shows "\<exists>s'. reachable c s s' \<and> finished c s'"
proof -
  obtain s1 where s1: "reachable c (\<lambda>t. hrounds (tree_links v c a) n (tree_ops v c t) 0, m0) s1" "snd s1 = snd s"
    "\<And>t. in_group c t \<Longrightarrow> fst s1 t = fst s t"
    using code_reachable [OF assms(2)] by metis
  obtain s2 where s2: "reachable c s1 s2" "finished c s2"
    using tree.can_finish [OF zero_start [OF assms(1)] s1(1)] by blast
  have "reachable c (fst s1, snd s1) s2" using s2(1) by simp
  from reachable_agree [OF this, of "fst s"] s1(3)
  obtain s3 where "reachable c (fst s, snd s1) s3" "\<forall>t. in_group c t \<longrightarrow> fst s2 t = fst s3 t" by metis
  then show ?thesis using s2(2) s1(2) by (intro exI [of _ s3]) (auto simp: finished_def)
qed

end

end
