(* ===== verification/Tile_Group_Barrier.thy ===== *)
theory Tile_Group_Barrier
  imports Tree_Barrier
begin

text \<open>
  \<open>bsg_tile_group_barrier.h\<close>: the barrier over a group of tiles that synchronises first the rows
  and then the centre column, without atomic operations. It is an instance of the tree of
  handshakes: no tile leaves a round before every tile has entered it, and no state is stuck.
\<close>

section \<open>The barrier records\<close>

text \<open>
  A record is given by its local address and its two coordinate fields, which only the initialiser
  writes. \<open>_done_list\<close> is at offset 2 and \<open>_local_alert\<close> at the next multiple of four after it.
\<close>

record bsg_row_barrier =
  row_barrier :: u32
  x_cord_start :: u32
  x_cord_end :: u32

record bsg_col_barrier =
  col_barrier :: u32
  y_cord_start :: u32
  y_cord_end :: u32

definition done_list_off :: u32 where "done_list_off = 2"

definition local_alert_off :: "nat \<Rightarrow> u32" where
  "local_alert_off dim = of_nat (4 * ((dim + 5) div 4))"

definition INIT_TILE_GROUP_BARRIER :: "u32 \<Rightarrow> u32 \<Rightarrow> u32 \<Rightarrow> u32 \<Rightarrow> u32 \<Rightarrow> u32 \<Rightarrow> bsg_row_barrier \<times> bsg_col_barrier" where
  "INIT_TILE_GROUP_BARRIER row col x_start x_end y_start y_end =
     (\<lparr>row_barrier = row, x_cord_start = take_bit 8 x_start, x_cord_end = take_bit 8 x_end\<rparr>,
      \<lparr>col_barrier = col, y_cord_start = take_bit 8 y_start, y_cord_end = take_bit 8 y_end\<rparr>)"

section \<open>Helper functions\<close>

text \<open>The values of \<open>for (i = 0; i <= rng; i++)\<close>.\<close>

definition upto_range :: "u32 \<Rightarrow> u32 list" where
  "upto_range rng = map of_nat [0..<nat (sint rng + 1)]"

definition poll_range :: "u32 \<Rightarrow> u32 \<Rightarrow> proc" where
  "poll_range rng p = Loop (poll_scan (map (\<lambda>i. p + i) (upto_range rng)) 0) (\<lambda>i. \<not> sle i rng) (\<lambda>_. Ret 0)"

definition alert_col :: "nat \<Rightarrow> tile \<Rightarrow> bsg_col_barrier \<Rightarrow> proc" where
  "alert_col ydim t p_col_b = for_each (cord_range (y_cord_start p_col_b) (y_cord_end p_col_b)) (\<lambda>i.
     Act (Store32 (bsg_remote_ptr (fst t) i (col_barrier p_col_b) + local_alert_off ydim) 1) Ret)"

definition alert_row :: "nat \<Rightarrow> tile \<Rightarrow> bsg_row_barrier \<Rightarrow> proc" where
  "alert_row xdim t p_row_b = for_each (cord_range (x_cord_start p_row_b) (x_cord_end p_row_b)) (\<lambda>i.
     Act (Store32 (bsg_remote_ptr i (snd t) (row_barrier p_row_b) + local_alert_off xdim) 1) Ret)"

section \<open>The barrier\<close>

text \<open>\<open>t\<close> is \<open>(bsg_x, bsg_y)\<close>; \<open>xdim\<close> and \<open>ydim\<close> are \<open>BSG_TILE_GROUP_X_DIM\<close> and \<open>BSG_TILE_GROUP_Y_DIM\<close>.\<close>

definition bsg_row_barrier_sync :: "tile \<Rightarrow> bsg_row_barrier \<Rightarrow> u32 \<Rightarrow> proc" where
  "bsg_row_barrier_sync t p_row_b center_x_cord =
     Act (Store8 (bsg_remote_ptr center_x_cord (snd t) (row_barrier p_row_b) + done_list_off + (fst t - x_cord_start p_row_b)) 1) Ret"

definition bsg_col_barrier_sync :: "tile \<Rightarrow> bsg_row_barrier \<Rightarrow> bsg_col_barrier \<Rightarrow> u32 \<Rightarrow> u32 \<Rightarrow> proc" where
  "bsg_col_barrier_sync t p_row_b p_col_b center_x_cord center_y_cord =
     seq (poll_range (x_cord_end p_row_b - x_cord_start p_row_b) (row_barrier p_row_b + done_list_off))
       (Act (Store8 (bsg_remote_ptr center_x_cord center_y_cord (col_barrier p_col_b) + done_list_off
          + (snd t - y_cord_start p_col_b)) 1) Ret)"

definition bsg_col_barrier_alert :: "nat \<Rightarrow> tile \<Rightarrow> bsg_col_barrier \<Rightarrow> proc" where
  "bsg_col_barrier_alert ydim t p_col_b =
     (let y_range = y_cord_end p_col_b - y_cord_start p_col_b; done_list = col_barrier p_col_b + done_list_off in
      seq (poll_range y_range done_list)
        (seq (for_each (upto_range y_range) (\<lambda>i. Act (Store8 (done_list + i) 0) Ret)) (alert_col ydim t p_col_b)))"

definition bsg_row_barrier_alert :: "nat \<Rightarrow> nat \<Rightarrow> tile \<Rightarrow> bsg_row_barrier \<Rightarrow> bsg_col_barrier \<Rightarrow> proc" where
  "bsg_row_barrier_alert xdim ydim t p_row_b p_col_b =
     (let x_range = x_cord_end p_row_b - x_cord_start p_row_b; done_list = row_barrier p_row_b + done_list_off;
          col_alert = col_barrier p_col_b + local_alert_off ydim in
      seq (bsg_wait_local_int col_alert 1)
        (seq (for_each (upto_range x_range) (\<lambda>i. Act (Store8 (done_list + i) 0) Ret))
          (seq (Act (Store32 col_alert 0) Ret) (alert_row xdim t p_row_b))))"

definition bsg_tile_wait :: "nat \<Rightarrow> bsg_row_barrier \<Rightarrow> proc" where
  "bsg_tile_wait xdim p_row_b =
     (let local_alert = row_barrier p_row_b + local_alert_off xdim in
      seq (bsg_wait_local_int local_alert 1) (Act (Store32 local_alert 0) Ret))"

definition bsg_tile_group_barrier :: "nat \<Rightarrow> nat \<Rightarrow> tile \<Rightarrow> bsg_row_barrier \<Rightarrow> bsg_col_barrier \<Rightarrow> proc" where
  "bsg_tile_group_barrier xdim ydim t p_row_b p_col_b =
     (let center_x_cord = c_div (x_cord_start p_row_b + x_cord_end p_row_b) 2;
          center_y_cord = c_div (y_cord_start p_col_b + y_cord_end p_col_b) 2 in
      seq (bsg_row_barrier_sync t p_row_b center_x_cord)
        (seq (if fst t = center_x_cord then bsg_col_barrier_sync t p_row_b p_col_b center_x_cord center_y_cord else Ret 0)
          (seq (if fst t = center_x_cord \<and> snd t = center_y_cord then bsg_col_barrier_alert ydim t p_col_b else Ret 0)
            (seq (if fst t = center_x_cord then bsg_row_barrier_alert xdim ydim t p_row_b p_col_b else Ret 0)
              (bsg_tile_wait xdim p_row_b)))))"

section \<open>Waiting in assembly\<close>

definition bsg_wait_local_int_asm :: "u32 \<Rightarrow> u32 \<Rightarrow> proc" where
  "bsg_wait_local_int_asm ptr cond =
     Loop (Act (Lr ptr) (\<lambda>tmp. if tmp = cond then Ret tmp else Act (Lr_aq ptr) Ret)) (\<lambda>tmp. tmp = cond) Ret"

text \<open>The variant that trusts the next value to be the right one.\<close>

definition bsg_wait_local_int_asm_blind :: "u32 \<Rightarrow> u32 \<Rightarrow> proc" where
  "bsg_wait_local_int_asm_blind ptr cond = Act (Lr ptr) (\<lambda>tmp. if tmp = cond then Ret tmp else Act (Lr_aq ptr) Ret)"

text \<open>One pass over two words: \<open>1\<close> when both are \<open>cond\<close>.\<close>

definition join_pass :: "u32 \<Rightarrow> u32 \<Rightarrow> proc" where
  "join_pass p cond = Act (Load32 p) (\<lambda>tmp. Act (Load32 (p + 4)) (\<lambda>tmp2. Ret (if tmp = cond \<and> tmp2 = cond then 1 else 0)))"

definition bsg_join4_relay :: "u32 \<Rightarrow> u32 \<Rightarrow> u32 \<Rightarrow> proc" where
  "bsg_join4_relay ptr_in cond ptr_out =
     Loop (join_pass ptr_in cond) (\<lambda>b. b = 1) (\<lambda>_.
       Loop (join_pass (ptr_in + 8) cond) (\<lambda>b. b = 1) (\<lambda>_. Act (Store8 ptr_out (ucast cond)) (\<lambda>_. Ret cond)))"

definition bsg_join2 :: "u32 \<Rightarrow> u32 \<Rightarrow> proc" where
  "bsg_join2 ptr_in cond = Loop (join_pass ptr_in cond) (\<lambda>b. b = 1) (\<lambda>_. Ret cond)"

text \<open>The assembly loop is the C loop.\<close>

lemma wait_local_int_asm: "bsg_wait_local_int_asm ptr cond = bsg_wait_local_int ptr cond"
  by (simp add: bsg_wait_local_int_asm_def bsg_wait_local_int_def bsg_lr_def bsg_lr_aq_def if_distrib cong: if_cong)

section \<open>The code is the sequence of tree operations\<close>

definition tgb_code :: "cfg \<Rightarrow> nat \<Rightarrow> nat \<Rightarrow> nat \<Rightarrow> nat \<Rightarrow> tile \<Rightarrow> proc" where
  "tgb_code c row col ph r t =
     (let (p_row_b, p_col_b) = INIT_TILE_GROUP_BARRIER (of_nat row) (of_nat col) 0 (bsg_tiles_X c - 1) 0 (bsg_tiles_Y c - 1) in
      seq (Act (Store32 (of_nat ph) (of_nat (Suc r))) Ret)
        (bsg_tile_group_barrier (unat (bsg_tiles_X c)) (unat (bsg_tiles_Y c)) t p_row_b p_col_b))"

definition tgb_addr :: "cfg \<Rightarrow> nat \<Rightarrow> nat \<Rightarrow> nat \<Rightarrow> tree_addr" where
  "tgb_addr c row col ph = \<lparr>rdone = row + 2, ralert = row + 4 * ((unat (bsg_tiles_X c) + 5) div 4),
     cdone = col + 2, calert = col + 4 * ((unat (bsg_tiles_Y c) + 5) div 4), own = ph\<rparr>"

definition tgb_layout :: "cfg \<Rightarrow> nat \<Rightarrow> nat \<Rightarrow> nat \<Rightarrow> bool" where
  "tgb_layout c row col ph \<longleftrightarrow> group_fits c
     \<and> (let rw = 4 * ((unat (bsg_tiles_X c) + 5) div 4) + 4; cw = 4 * ((unat (bsg_tiles_Y c) + 5) div 4) + 4 in
        row + rw \<le> 2 ^ 18 \<and> col + cw \<le> 2 ^ 18 \<and> ph + 4 \<le> 2 ^ 18
        \<and> intervals_apart [(row, rw), (col, cw), (ph, 4)])"

lemma tgb_tree_ok: "tgb_layout c row col ph \<Longrightarrow> tree_ok c (tgb_addr c row col ph)"
proof -
  assume l: "tgb_layout c row col ph"
  define X where "X = unat (bsg_tiles_X c)"
  define Y where "Y = unat (bsg_tiles_Y c)"
  have d: "X + 2 \<le> 4 * ((X + 5) div 4)" "Y + 2 \<le> 4 * ((Y + 5) div 4)" by presburger+
  show ?thesis
    using l d unfolding tgb_layout_def tree_ok_def tgb_addr_def intervals_apart_def Let_def X_def [symmetric] Y_def [symmetric]
    by auto
qed

lemma remote_plus:
  assumes "b + k < 2 ^ 18"
  shows "bsg_remote_ptr x y (of_nat b) + of_nat k = bsg_remote_ptr x y (of_nat (b + k))"
  using bsg_remote_ptr_offset [of "of_nat b" "of_nat k" x y] assms by (simp add: unat_of_nat_lt)

lemma group_pred:
  assumes "group_fits c"
  shows "take_bit 8 (bsg_tiles_X c - 1) = bsg_tiles_X c - 1" "take_bit 8 (bsg_tiles_Y c - 1) = bsg_tiles_Y c - 1"
    "sint (bsg_tiles_X c - 1) + 1 = int (unat (bsg_tiles_X c))" "sint (bsg_tiles_Y c - 1) + 1 = int (unat (bsg_tiles_Y c))"
    "c_div (bsg_tiles_X c - 1) 2 = centre_x c" "c_div (bsg_tiles_Y c - 1) 2 = centre_y c"
proof -
  have x: "take_bit 8 (n - 1) = n - 1 \<and> sint (n - 1) + 1 = int (unat n) \<and> c_div (n - 1) 2 = of_nat ((unat n - 1) div 2)"
    if "0 < n" "unat n \<le> 64" for n :: u32
  proof -
    have u: "unat (n - 1) = unat n - 1" "0 < unat n" using unat_less_pred [OF that(1)] that(1) by (auto simp: word_less_nat_alt)
    have 1: "take_bit 8 (n - 1) = n - 1" using u that(2) by (intro take_bit_unat_lt) simp
    have "uint (n - 1) < 2 ^ 31" using u that(2) by (intro uint_lt_unat) simp
    then have "sint (n - 1) = int (unat (n - 1))" by (simp add: sint_small)
    then have 2: "sint (n - 1) + 1 = int (unat n)" using u by simp
    have "unat (c_div (n - 1) 2) = (unat n - 1) div 2" using u that(2) by (subst unat_c_div) simp_all
    moreover have "c_div (n - 1) 2 = of_nat (unat (c_div (n - 1) 2))" by simp
    ultimately have 3: "c_div (n - 1) 2 = of_nat ((unat n - 1) div 2)" by metis
    show ?thesis using 1 2 3 by simp
  qed
  have "0 < bsg_tiles_X c" "0 < bsg_tiles_Y c" using assms by (simp_all add: group_fits_def)
  moreover have "unat (bsg_tiles_X c) \<le> 64" "unat (bsg_tiles_Y c) \<le> 64" using group_fits_nat [OF assms] by linarith+
  ultimately show "take_bit 8 (bsg_tiles_X c - 1) = bsg_tiles_X c - 1" "take_bit 8 (bsg_tiles_Y c - 1) = bsg_tiles_Y c - 1"
    "sint (bsg_tiles_X c - 1) + 1 = int (unat (bsg_tiles_X c))" "sint (bsg_tiles_Y c - 1) + 1 = int (unat (bsg_tiles_Y c))"
    "c_div (bsg_tiles_X c - 1) 2 = centre_x c" "c_div (bsg_tiles_Y c - 1) 2 = centre_y c"
    using x by (auto simp: centre_x_def centre_y_def)
qed

lemma upto_group:
  assumes "group_fits c"
  shows "upto_range (bsg_tiles_X c - 1) = group_xs c" "upto_range (bsg_tiles_Y c - 1) = group_ys c"
  using assms group_pred(3,4) [OF assms]
  by (simp_all add: upto_range_def group_xs_def group_ys_def cord_range_all group_fits_def)

lemma length_edges:
  assumes "group_fits c"
  shows "length (row_edges c y) = unat (bsg_tiles_X c)" "length (col_edges c) = unat (bsg_tiles_Y c)"
  using assms by (simp_all add: row_edges_def col_edges_def group_xs_def group_ys_def cord_range_all group_fits_def)

lemma tgb_code_ops:
  assumes l: "tgb_layout c row col ph" and t: "in_group c t"
  shows "seq (tgb_code c row col ph r t) p
    = seq (for_each (tree_ops False c t) (hcode (tree_links False c (tgb_addr c row col ph)) r)) p"
proof -
  let ?X = "bsg_tiles_X c" and ?Y = "bsg_tiles_Y c" and ?L = "tree_links False c (tgb_addr c row col ph)"
  have g: "group_fits c" using l by (simp add: tgb_layout_def)
  obtain R C where RC: "INIT_TILE_GROUP_BARRIER (of_nat row) (of_nat col) 0 (?X - 1) 0 (?Y - 1) = (R, C)" by force
  then have R: "row_barrier R = of_nat row" "x_cord_start R = 0" "x_cord_end R = ?X - 1"
    and C: "col_barrier C = of_nat col" "y_cord_start C = 0" "y_cord_end C = ?Y - 1"
    using group_pred(1,2) [OF g] by (auto simp: INIT_TILE_GROUP_BARRIER_def)
  define xo where "xo = 4 * ((unat ?X + 5) div 4)"
  define yo where "yo = 4 * ((unat ?Y + 5) div 4)"
  have d: "unat ?X + 2 \<le> xo" "unat ?Y + 2 \<le> yo" by (simp_all add: xo_def yo_def)
  have b: "row + xo + 4 \<le> 2 ^ 18" "col + yo + 4 \<le> 2 ^ 18"
    using l by (simp_all add: tgb_layout_def Let_def xo_def yo_def)
  have o: "local_alert_off (unat ?X) = of_nat xo" "local_alert_off (unat ?Y) = of_nat yo" "done_list_off = of_nat 2"
    by (simp_all add: local_alert_off_def done_list_off_def xo_def yo_def)
  have tx: "unat (fst t) < unat ?X" "unat (snd t) < unat ?Y" using t by (auto simp: in_group_def word_less_nat_alt)
  define RD where "RD = (of_nat (row + 2) :: u32)"
  define CD where "CD = (of_nat (col + 2) :: u32)"
  define RA where "RA = (of_nat (row + xo) :: u32)"
  define CA where "CA = (of_nat (col + yo) :: u32)"
  note defs = RD_def CD_def RA_def CA_def
  have L: "dask ?L (RowE (x, y)) = bsg_remote_ptr (centre_x c) y (of_nat (row + 2 + unat x))"
    "dask ?L (ColE y) = bsg_remote_ptr (centre_x c) (centre_y c) (of_nat (col + 2 + unat y))"
    "dloc ?L (RowE (x, y)) = RD + x" "dloc ?L (ColE y) = CD + y"
    "agrant ?L (RowE (x, y)) = bsg_remote_ptr x y RA"
    "agrant ?L (ColE y) = bsg_remote_ptr (centre_x c) y CA"
    "aloc ?L (RowE u) = RA" "aloc ?L (ColE y) = CA" "phase ?L = of_nat ph" for x y u
    by (simp_all add: tree_links_def tgb_addr_def xo_def yo_def defs)
  have rem: "bsg_remote_ptr x y (of_nat row) + of_nat xo = bsg_remote_ptr x y RA"
    "bsg_remote_ptr x y (of_nat col) + of_nat yo = bsg_remote_ptr x y CA"
    "bsg_remote_ptr x y (of_nat row) + done_list_off + fst t = bsg_remote_ptr x y (of_nat (row + 2 + unat (fst t)))"
    "bsg_remote_ptr x y (of_nat col) + done_list_off + snd t = bsg_remote_ptr x y (of_nat (col + 2 + unat (snd t)))" for x y
    using remote_plus [of row xo x y] remote_plus [of col yo x y] remote_plus [of row "2 + unat (fst t)" x y]
      remote_plus [of col "2 + unat (snd t)" x y] b d tx
    by (simp_all add: add.assoc o defs)
  have st: "stop ?L es = (\<lambda>i. \<not> sle i (of_nat (length es) - 1))" for es by (simp add: tree_links_def)
  have poll: "poll_range (?X - 1) RD = hcode ?L r (Gather (row_edges c (snd t)))"
    "poll_range (?Y - 1) CD = hcode ?L r (Gather (col_edges c))"
    by (simp_all add: poll_range_def upto_group [OF g] st length_edges [OF g] comp_def L row_edges_def [symmetric] del: of_nat_add)
      (simp_all add: row_edges_def col_edges_def comp_def L del: of_nat_add)
  have resets: "for_each (group_xs c) (\<lambda>i. Act (Store8 (RD + i) 0) Ret) = for_each (map Drop (row_edges c (snd t))) (hcode ?L r)"
    "for_each (group_ys c) (\<lambda>i. Act (Store8 (CD + i) 0) Ret) = for_each (map Drop (col_edges c)) (hcode ?L r)"
    by (simp_all add: for_each_map row_edges_def col_edges_def L del: of_nat_add)
  have alerts: "alert_row (unat ?X) t R = for_each (map Grant (row_edges c (snd t))) (hcode ?L r)"
    "fst t = centre_x c \<Longrightarrow> alert_col (unat ?Y) t C = for_each (map Grant (col_edges c)) (hcode ?L r)"
    by (simp_all add: alert_row_def alert_col_def R C o rem for_each_map row_edges_def col_edges_def group_xs_def group_ys_def L
        del: of_nat_add)
  have ro: "of_nat row + done_list_off = RD" "of_nat col + done_list_off = CD"
    "of_nat row + local_alert_off (unat ?X) = RA" "of_nat col + local_alert_off (unat ?Y) = CA"
    by (simp_all add: o defs)
  have cd: "c_div (0 + (?X - 1)) 2 = centre_x c" "c_div (0 + (?Y - 1)) 2 = centre_y c"
    using group_pred(5,6) [OF g] by simp_all
  have p1: "seq (Act (Store32 (of_nat ph) (of_nat (Suc r))) Ret) (seq (bsg_row_barrier_sync t R (centre_x c)) q)
      = seq (for_each (part1 t) (hcode ?L r)) q" for q
    using rem(3) L(1) [of "fst t" "snd t"] by (simp add: bsg_row_barrier_sync_def part1_def R L(9) del: of_nat_add)
  have rp: "poll_range (x_cord_end R - x_cord_start R) (row_barrier R + done_list_off) = hcode ?L r (Gather (row_edges c (snd t)))"
    using poll(1) by (simp only: R ro diff_zero)
  have p2: "seq (if fst t = centre_x c then bsg_col_barrier_sync t R C (centre_x c) (centre_y c) else Ret 0) q
      = seq (for_each (part2 c t) (hcode ?L r)) q" for q
    using rem(4) by (simp add: bsg_col_barrier_sync_def part2_def rp C L del: of_nat_add hcode.simps(3))
  have p3: "seq (if fst t = centre_x c \<and> snd t = centre_y c then bsg_col_barrier_alert (unat ?Y) t C else Ret 0) q
      = seq (for_each (part3 False c t) (hcode ?L r)) q" for q
    by (simp add: bsg_col_barrier_alert_def part3_def C ro poll resets alerts upto_group [OF g] Let_def for_each_append
        del: of_nat_add hcode.simps(3))
  have p4: "seq (if fst t = centre_x c then bsg_row_barrier_alert (unat ?X) (unat ?Y) t R C else Ret 0) q
      = seq (for_each (part4 False c t) (hcode ?L r)) q" for q
    by (simp add: bsg_row_barrier_alert_def part4_def R C ro resets alerts upto_group [OF g] Let_def for_each_append L
        del: of_nat_add)
  have p5: "seq (bsg_tile_wait (unat ?X) R) q = seq (for_each (part5 t) (hcode ?L r)) q" for q
    by (simp add: bsg_tile_wait_def part5_def R ro L Let_def del: of_nat_add)
  show ?thesis
    by (simp only: tgb_code_def RC prod.case bsg_tile_group_barrier_def Let_def R C cd bind_assoc tree_ops_def for_each_append
        p1 p2 p3 p4 p5)
qed

section \<open>Correctness\<close>

lemma tgb_tree: "tgb_layout c row col ph \<Longrightarrow> tree_barrier c (tgb_addr c row col ph) False (tgb_code c row col ph)"
  by (simp add: tree_barrier_def tgb_tree_ok tgb_code_ops)

lemma small_tgb_layout: "tgb_layout small_cfg 64 80 32"
  by (simp add: tgb_layout_def intervals_apart_def small_cfg_def group_fits_def)

interpretation small_tgb: tree_barrier small_cfg n "tgb_addr small_cfg 64 80 32" False "tgb_code small_cfg 64 80 32" for n
  by (rule tgb_tree [OF small_tgb_layout])

text \<open>
  C29: no tile leaves a round of \<open>bsg_tile_group_barrier\<close> before every tile has entered it. When the
  program of a tile has come to round \<open>r\<close>, the word that every other tile writes before calling the
  barrier is at least \<open>r\<close>; for any group, any number of rounds and every interleaving.
\<close>

theorem tile_group_barrier_safety:
  assumes "tgb_layout c row col ph" and "tree_zero_mem c (tgb_addr c row col ph) m0" and "n < 2 ^ 32"
    and "reachable c (\<lambda>t. for_each [0..<n] (\<lambda>r. tgb_code c row col ph r t), m0) s"
    and "in_group c t" and "has_left (of_nat ph) n (fst s t) r" and "in_group c u"
  shows "r \<le> unat (rd (snd s) (tile_npa c u (of_nat ph)))"
  using tree_barrier.nobody_early [OF tgb_tree [OF assms(1)], of m0 n s t r u] assms(2-) by (simp add: tgb_addr_def)

text \<open>C30: from every reachable state of the repeated barrier all tiles can still complete all rounds.\<close>

theorem tile_group_barrier_no_deadlock:
  assumes "tgb_layout c row col ph" and "tree_zero_mem c (tgb_addr c row col ph) m0"
    and "reachable c (\<lambda>t. for_each [0..<n] (\<lambda>r. tgb_code c row col ph r t), m0) s"
  shows "\<exists>s'. reachable c s s' \<and> finished c s'"
  by (rule tree_barrier.everybody_can_leave [OF tgb_tree [OF assms(1)] assms(2,3)])

lemma rd8_zero_machine [simp]: "rd8 zero_machine p = 0"
  by (simp add: rd8_def zero_machine_def load8_def)

lemma tree_zero_machine: "tree_zero_mem c a zero_machine"
  by (simp add: tree_zero_mem_def)

text \<open>A state in which tile \<open>(1, 0)\<close> has left three rounds.\<close>

lemma tile_group_barrier_safety_witness:
  "\<exists>s. reachable small_cfg (\<lambda>t. for_each [0..<3] (\<lambda>r. tgb_code small_cfg 64 80 32 r t), zero_machine) s
    \<and> (\<forall>u. in_group small_cfg u \<longrightarrow> 3 \<le> unat (rd (snd s) (tile_npa small_cfg u 32)))"
proof -
  obtain s where s: "reachable small_cfg (\<lambda>t. for_each [0..<3] (\<lambda>r. tgb_code small_cfg 64 80 32 r t), zero_machine) s" "finished small_cfg s"
    using tree_barrier.everybody_can_leave [OF tgb_tree [OF small_tgb_layout] tree_zero_machine reach_start] by blast
  have g: "in_group small_cfg (1, 0)" by (simp add: in_group_def small_cfg_def)
  then have h: "has_left (of_nat 32) 3 (fst s (1, 0)) 3" using s(2) by (simp add: has_left_def finished_def)
  show ?thesis using tile_group_barrier_safety [OF small_tgb_layout tree_zero_machine _ s(1) g h] s(1) by auto
qed

lemma tile_group_barrier_no_deadlock_witness:
  "\<exists>s. reachable small_cfg (\<lambda>t. for_each [0..<3] (\<lambda>r. tgb_code small_cfg 64 80 32 r t), zero_machine) s \<and> finished small_cfg s"
  using tile_group_barrier_no_deadlock [OF small_tgb_layout tree_zero_machine reach_start] .

end
