(* ===== verification/Printf.thy ===== *)
theory Printf
  imports Mutex "HOL-Library.Sublist"
begin

text \<open>
  \<open>bsg_printf.c\<close>: number and address formatting, the format interpreter \<open>ee_vsprintf\<close>, and
  \<open>bsg_printf\<close>, which sends the text to the host under the I/O lock. Text is a list of characters;
  a routine that stores through \<open>str\<close> and returns the advanced pointer is a function that returns
  the characters stored. The arguments of a variadic call are a list of typed values, and reading
  past its end or at the wrong type is an error.
\<close>

section \<open>Flags and digits\<close>

definition ZEROPAD :: u32 where "ZEROPAD = push_bit 0 1"
definition SIGN :: u32 where "SIGN = push_bit 1 1"
definition PLUS :: u32 where "PLUS = push_bit 2 1"
definition SPACE :: u32 where "SPACE = push_bit 3 1"
definition LEFT :: u32 where "LEFT = push_bit 4 1"
definition HEX_PREP :: u32 where "HEX_PREP = push_bit 5 1"
definition UPPERCASE :: u32 where "UPPERCASE = push_bit 6 1"

definition is_digit :: "char \<Rightarrow> bool" where
  "is_digit c \<longleftrightarrow> of_char c \<ge> (of_char CHR ''0'' :: nat) \<and> of_char c \<le> (of_char CHR ''9'' :: nat)"

definition digits :: string where "digits = ''0123456789abcdefghijklmnopqrstuvwxyz''"
definition upper_digits :: string where "upper_digits = ''0123456789ABCDEFGHIJKLMNOPQRSTUVWXYZ''"

abbreviation flag :: "u32 \<Rightarrow> u32 \<Rightarrow> bool" where "flag type f \<equiv> type AND f \<noteq> 0"

section \<open>Helpers\<close>

text \<open>\<open>count--\<close> on a negative \<open>count\<close> never reaches zero, so a negative count is no limit.\<close>

fun strnlen :: "string \<Rightarrow> int \<Rightarrow> nat" where
  "strnlen [] cnt = 0"
| "strnlen (ch # s) cnt = (if cnt = 0 then 0 else Suc (strnlen s (cnt - 1)))"

fun skip_atoi_from :: "u32 \<Rightarrow> string \<Rightarrow> u32 \<times> string" where
  "skip_atoi_from i [] = (i, [])"
| "skip_atoi_from i (ch # s) =
     (if is_digit ch then skip_atoi_from (i * 10 + of_char ch - of_char CHR ''0'') s else (i, ch # s))"

definition skip_atoi :: "string \<Rightarrow> u32 \<times> string" where
  "skip_atoi s = skip_atoi_from 0 s"

text \<open>\<open>while (sz-- > 0) *str++ = c\<close>: the characters stored and the final \<open>sz\<close>.\<close>

function pad_loop :: "int \<Rightarrow> char \<Rightarrow> string \<times> int" where
  "pad_loop sz ch = (if sz > 0 then let (s, z) = pad_loop (sz - 1) ch in (ch # s, z) else ([], sz - 1))"
  by auto
termination by (relation "measure (\<lambda>(sz, ch). nat sz)") auto

declare pad_loop.simps [simp del]

text \<open>\<open>while (len < sz--) *str++ = c\<close>, and \<open>while (--sz > 0) *str++ = c\<close>.\<close>

definition pad_len_loop :: "int \<Rightarrow> int \<Rightarrow> char \<Rightarrow> string \<times> int" where
  "pad_len_loop len sz ch = (let (s, z) = pad_loop (sz - len) ch in (s, z + len))"

definition pad_pre_loop :: "int \<Rightarrow> char \<Rightarrow> string \<times> int" where
  "pad_pre_loop sz ch = (let (s, z) = pad_loop (sz - 1) ch in (s, z + 1))"

section \<open>Numbers\<close>

fun num_tmp :: "string \<Rightarrow> nat \<Rightarrow> nat \<Rightarrow> string" where
  "num_tmp dig base num =
     (if num = 0 \<or> base < 2 then [] else dig ! (num mod base) # num_tmp dig base (num div base))"

declare num_tmp.simps [simp del]

definition num_sign :: "u32 \<Rightarrow> u32 \<Rightarrow> string" where
  "num_sign num type =
     (if flag type SIGN then
        if slt num 0 then ''-'' else if flag type PLUS then ''+'' else if flag type SPACE then '' '' else ''''
      else '''')"

definition num_prefix :: "int \<Rightarrow> u32 \<Rightarrow> string" where
  "num_prefix base type =
     (if flag type HEX_PREP then
        if base = 8 then ''0'' else if base = 16 then [CHR ''0'', digits ! 33] else ''''
      else '''')"

text \<open>From \<open>if (i > precision)\<close> to the end: padding, sign, prefix, zeros, digits, padding.\<close>

definition num_emit :: "char \<Rightarrow> string \<Rightarrow> string \<Rightarrow> string \<Rightarrow> int \<Rightarrow> int \<Rightarrow> u32 \<Rightarrow> string" where
  "num_emit c sign pfx tmp sz precision type =
     (let i = int (length tmp);
          precision = (if i > precision then i else precision);
          sz = sz - precision;
          (pad1, sz) = (if \<not> flag type (ZEROPAD OR LEFT) then pad_loop sz CHR '' '' else ([], sz));
          (pad2, sz) = (if \<not> flag type LEFT then pad_loop sz c else ([], sz));
          zeros = replicate (nat (precision - i)) CHR ''0'';
          (pad3, sz) = pad_loop sz CHR '' ''
      in pad1 @ sign @ pfx @ pad2 @ zeros @ rev tmp @ pad3)"

definition num_prefix_size :: "int \<Rightarrow> u32 \<Rightarrow> int" where
  "num_prefix_size base type = (if flag type HEX_PREP then if base = 16 then 2 else if base = 8 then 1 else 0 else 0)"

text \<open>\<open>None\<close> is the null pointer returned for a base outside 2..36.\<close>

definition number :: "u32 \<Rightarrow> int \<Rightarrow> int \<Rightarrow> int \<Rightarrow> u32 \<Rightarrow> string option" where
  "number num base sz precision type =
     (let dig = if flag type UPPERCASE then upper_digits else digits;
          type = if flag type LEFT then type AND NOT ZEROPAD else type in
      if base < 2 \<or> base > 36 then None else
      (let c = if flag type ZEROPAD then CHR ''0'' else CHR '' '';
           sign = num_sign num type;
           num = if flag type SIGN \<and> slt num 0 then - num else num;
           sz = sz - int (length sign);
           sz = sz - num_prefix_size base type;
           tmp = (if num = 0 then ''0'' else num_tmp dig (nat base) (unat num))
       in Some (num_emit c sign (num_prefix base type) tmp sz precision type)))"

section \<open>Ethernet and internet addresses\<close>

definition eaddr_tmp :: "string \<Rightarrow> u8 list \<Rightarrow> string" where
  "eaddr_tmp dig addr = concat (map (\<lambda>i. (if i \<noteq> 0 then '':'' else '''')
     @ [dig ! unat (drop_bit 4 (addr ! i)), dig ! unat (addr ! i AND 0x0F)]) [0..<6])"

definition addr_field :: "string \<Rightarrow> int \<Rightarrow> u32 \<Rightarrow> string" where
  "addr_field tmp sz type =
     (let len = int (length tmp);
          (pad1, sz) = (if \<not> flag type LEFT then pad_len_loop len sz CHR '' '' else ([], sz));
          (pad2, sz) = pad_len_loop len sz CHR '' ''
      in pad1 @ tmp @ pad2)"

definition eaddr :: "u8 list \<Rightarrow> int \<Rightarrow> int \<Rightarrow> u32 \<Rightarrow> string" where
  "eaddr addr sz precision type =
     addr_field (eaddr_tmp (if flag type UPPERCASE then upper_digits else digits) addr) sz type"

definition iaddr_byte :: "nat \<Rightarrow> string" where
  "iaddr_byte n =
     (if n = 0 then [digits ! 0]
      else if n \<ge> 100 then [digits ! (n div 100), digits ! (n mod 100 div 10), digits ! (n mod 100 mod 10)]
      else if n \<ge> 10 then [digits ! (n div 10), digits ! (n mod 10)]
      else [digits ! n])"

definition iaddr_tmp :: "u8 list \<Rightarrow> string" where
  "iaddr_tmp addr = concat (map (\<lambda>i. (if i \<noteq> 0 then ''.'' else '''') @ iaddr_byte (unat (addr ! i))) [0..<4])"

definition iaddr :: "u8 list \<Rightarrow> int \<Rightarrow> int \<Rightarrow> u32 \<Rightarrow> string" where
  "iaddr addr sz precision type = addr_field (iaddr_tmp addr) sz type"

section \<open>The format interpreter\<close>

text \<open>
  \<open>Word\<close>: an \<open>int\<close>, \<open>unsigned\<close>, \<open>long\<close> or pointer printed as a number; \<open>Text\<close>: a string, \<open>None\<close>
  being the null pointer; \<open>Bytes\<close>: an address in memory.
\<close>

datatype varg = Word u32 | Text "string option" | Bytes "u8 list"

datatype fmt_error = No_Argument | Wrong_Argument | Buffer_Overrun

fun va_word :: "varg list \<Rightarrow> fmt_error + u32 \<times> varg list" where
  "va_word [] = Inl No_Argument"
| "va_word (Word w # args) = Inr (w, args)"
| "va_word (_ # args) = Inl Wrong_Argument"

fun va_text :: "varg list \<Rightarrow> fmt_error + string option \<times> varg list" where
  "va_text [] = Inl No_Argument"
| "va_text (Text s # args) = Inr (s, args)"
| "va_text (_ # args) = Inl Wrong_Argument"

fun va_bytes :: "nat \<Rightarrow> varg list \<Rightarrow> fmt_error + u8 list \<times> varg list" where
  "va_bytes n [] = Inl No_Argument"
| "va_bytes n (Bytes a # args) = (if length a < n then Inl Wrong_Argument else Inr (a, args))"
| "va_bytes n (_ # args) = Inl Wrong_Argument"

text \<open>\<open>*fmt\<close>, with the terminating null at the end.\<close>

definition peek :: "string \<Rightarrow> char" where
  "peek s = (case s of [] \<Rightarrow> CHR 0x00 | ch # _ \<Rightarrow> ch)"

fun fmt_flags :: "u32 \<Rightarrow> string \<Rightarrow> u32 \<times> string" where
  "fmt_flags flags [] = (flags, [])"
| "fmt_flags flags (ch # s) =
     (if ch = CHR ''-'' then fmt_flags (flags OR LEFT) s
      else if ch = CHR ''+'' then fmt_flags (flags OR PLUS) s
      else if ch = CHR '' '' then fmt_flags (flags OR SPACE) s
      else if ch = CHR ''#'' then fmt_flags (flags OR HEX_PREP) s
      else if ch = CHR ''0'' then fmt_flags (flags OR ZEROPAD) s
      else (flags, ch # s))"

definition fmt_width :: "u32 \<Rightarrow> string \<Rightarrow> varg list \<Rightarrow> fmt_error + int \<times> u32 \<times> string \<times> varg list" where
  "fmt_width flags fmt args =
     (if is_digit (peek fmt) then
        let (w, fmt) = skip_atoi fmt in Inr (sint w, flags, fmt, args)
      else if peek fmt = CHR ''*'' then
        case va_word args of Inl e \<Rightarrow> Inl e
        | Inr (w, args) \<Rightarrow>
            if sint w < 0 then Inr (- sint w, flags OR LEFT, List.tl fmt, args) else Inr (sint w, flags, List.tl fmt, args)
      else Inr (- 1, flags, fmt, args))"

definition fmt_precision :: "string \<Rightarrow> varg list \<Rightarrow> fmt_error + int \<times> string \<times> varg list" where
  "fmt_precision fmt args =
     (if peek fmt = CHR ''.'' then
        let fmt = List.tl fmt in
        if is_digit (peek fmt) then
          let (p, fmt) = skip_atoi fmt in Inr (if sint p < 0 then 0 else sint p, fmt, args)
        else if peek fmt = CHR ''*'' then
          case va_word args of Inl e \<Rightarrow> Inl e
          | Inr (p, args) \<Rightarrow> Inr (if sint p < 0 then 0 else sint p, List.tl fmt, args)
        else Inr (0, fmt, args)
      else Inr (- 1, fmt, args))"

definition fmt_qualifier :: "string \<Rightarrow> char option \<times> string" where
  "fmt_qualifier fmt =
     (if peek fmt = CHR ''l'' \<or> peek fmt = CHR ''L'' then (Some (peek fmt), List.tl fmt) else (None, fmt))"

definition fmt_char :: "u32 \<Rightarrow> int \<Rightarrow> u32 \<Rightarrow> string" where
  "fmt_char flags field_width w =
     (let (pad1, field_width) =
            (if \<not> flag flags LEFT then pad_pre_loop field_width CHR '' '' else ([], field_width));
          (pad2, field_width) = pad_pre_loop field_width CHR '' ''
      in pad1 @ [char_of (unat (ucast w :: u8))] @ pad2)"

definition fmt_string :: "u32 \<Rightarrow> int \<Rightarrow> int \<Rightarrow> string option \<Rightarrow> string" where
  "fmt_string flags field_width precision s =
     (let s = (case s of None \<Rightarrow> ''<NULL>'' | Some s \<Rightarrow> s);
          len = strnlen s precision;
          (pad1, field_width) =
            (if \<not> flag flags LEFT then pad_len_loop (int len) field_width CHR '' '' else ([], field_width));
          (pad2, field_width) = pad_len_loop (int len) field_width CHR '' ''
      in pad1 @ take len s @ pad2)"

text \<open>The integer conversions: the flags and the base that the \<open>switch\<close> sets, \<open>None\<close> for any other letter.\<close>

definition fmt_integer :: "char \<Rightarrow> u32 \<Rightarrow> (u32 \<times> int) option" where
  "fmt_integer ch flags =
     (if ch = CHR ''o'' then Some (flags, 8)
      else if ch = CHR ''X'' then Some (flags OR UPPERCASE, 16)
      else if ch = CHR ''x'' then Some (flags, 16)
      else if ch = CHR ''d'' \<or> ch = CHR ''i'' then Some (flags OR SIGN, 10)
      else if ch = CHR ''u'' then Some (flags, 10)
      else None)"

text \<open>
  One conversion, after the flags, width, precision and qualifier: the text, the rest of the
  arguments. \<open>int\<close>, \<open>unsigned\<close> and \<open>long\<close> are all 32 bits wide. The base is always valid, so
  \<open>number\<close> returns text.
\<close>

definition fmt_convert :: "char \<Rightarrow> u32 \<Rightarrow> int \<Rightarrow> int \<Rightarrow> char option \<Rightarrow> varg list \<Rightarrow> fmt_error + string \<times> varg list" where
  "fmt_convert ch flags field_width precision qualifier args =
     (if ch = CHR ''c'' then
        case va_word args of Inl e \<Rightarrow> Inl e | Inr (w, args) \<Rightarrow> Inr (fmt_char flags field_width w, args)
      else if ch = CHR ''s'' then
        case va_text args of Inl e \<Rightarrow> Inl e | Inr (s, args) \<Rightarrow> Inr (fmt_string flags field_width precision s, args)
      else if ch = CHR ''p'' then
        case va_word args of Inl e \<Rightarrow> Inl e | Inr (w, args) \<Rightarrow>
          let (field_width, flags) = (if field_width = - 1 then (2 * 4, flags OR ZEROPAD) else (field_width, flags))
          in Inr (the (number w 16 field_width precision flags), args)
      else if ch = CHR ''A'' \<or> ch = CHR ''a'' then
        let flags = (if ch = CHR ''A'' then flags OR UPPERCASE else flags) in
        if qualifier = Some CHR ''l'' then
          case va_bytes 6 args of Inl e \<Rightarrow> Inl e | Inr (a, args) \<Rightarrow> Inr (eaddr a field_width precision flags, args)
        else
          case va_bytes 4 args of Inl e \<Rightarrow> Inl e | Inr (a, args) \<Rightarrow> Inr (iaddr a field_width precision flags, args)
      else case fmt_integer ch flags of
          Some (flags, base) \<Rightarrow>
            (case va_word args of Inl e \<Rightarrow> Inl e
             | Inr (num, args) \<Rightarrow> Inr (the (number num base field_width precision flags), args))
        | None \<Rightarrow> Inr ((if ch \<noteq> CHR ''%'' then ''%'' else '''') @ (if ch \<noteq> CHR 0x00 then [ch] else ''''), args))"

text \<open>One \<open>%\<close> conversion: the text, the rest of the format (at the null, \<open>--fmt\<close> keeps it there) and of the arguments.\<close>

definition fmt_directive :: "string \<Rightarrow> varg list \<Rightarrow> fmt_error + string \<times> string \<times> varg list" where
  "fmt_directive fmt args =
     (let (flags, fmt) = fmt_flags 0 fmt in
      case fmt_width flags fmt args of Inl e \<Rightarrow> Inl e | Inr (field_width, flags, fmt, args) \<Rightarrow>
      case fmt_precision fmt args of Inl e \<Rightarrow> Inl e | Inr (precision, fmt, args) \<Rightarrow>
      let (qualifier, fmt) = fmt_qualifier fmt in
      case fmt_convert (peek fmt) flags field_width precision qualifier args of Inl e \<Rightarrow> Inl e
      | Inr (s, args) \<Rightarrow> Inr (s, List.tl fmt, args))"


lemma skip_atoi_length: "length (snd (skip_atoi_from i s)) \<le> length s"
  by (induction i s rule: skip_atoi_from.induct) auto

lemma fmt_flags_length: "length (snd (fmt_flags f s)) \<le> length s"
  by (induction f s rule: fmt_flags.induct) auto

lemma fmt_width_length: "fmt_width f s as = Inr (w, f', s', as') \<Longrightarrow> length s' \<le> length s"
  using skip_atoi_length [of 0 s]
  by (auto simp: fmt_width_def skip_atoi_def split: if_splits sum.splits prod.splits)

lemma fmt_precision_length: "fmt_precision s as = Inr (p, s', as') \<Longrightarrow> length s' \<le> length s"
  using skip_atoi_length [of 0 "List.tl s"]
  by (auto simp: fmt_precision_def skip_atoi_def Let_def split: if_splits sum.splits prod.splits)

lemma fmt_directive_length: "fmt_directive s as = Inr (t, s', as') \<Longrightarrow> length s' \<le> length s"
  using fmt_flags_length [of 0 s]
  by (auto simp: fmt_directive_def fmt_qualifier_def Let_def split: if_splits sum.splits prod.splits
      dest!: fmt_width_length fmt_precision_length)

text \<open>The main loop; the text is the string stored at \<open>buf\<close> without its terminator.\<close>

function ee_vsprintf :: "string \<Rightarrow> varg list \<Rightarrow> fmt_error + string" where
  "ee_vsprintf [] args = Inr []"
| "ee_vsprintf (ch # fmt) args =
     (if ch \<noteq> CHR ''%'' then map_sum id ((#) ch) (ee_vsprintf fmt args)
      else case fmt_directive fmt args of Inl e \<Rightarrow> Inl e
      | Inr (s, fmt', args') \<Rightarrow> map_sum id ((@) s) (ee_vsprintf fmt' args'))"
  by pat_completeness auto
termination
  by (relation "measure (\<lambda>(fmt, args). length fmt)") (auto dest!: fmt_directive_length)

section \<open>Output\<close>

definition uart_send_char :: "cfg \<Rightarrow> char \<Rightarrow> proc" where
  "uart_send_char c ch = bsg_putchar c (of_nat (of_char ch))"

definition io_mutex_ptr :: "cfg \<Rightarrow> u32" where
  "io_mutex_ptr c = bsg_io_mutex_ptr c 0"

text \<open>\<open>while (*p)\<close>: the text up to the first null character.\<close>

definition c_string :: "string \<Rightarrow> string" where
  "c_string s = takeWhile (\<lambda>ch. ch \<noteq> CHR 0x00) s"

definition send_locked :: "cfg \<Rightarrow> string \<Rightarrow> proc" where
  "send_locked c s =
     seq (bsg_mutex_lock (io_mutex_ptr c))
       (seq (for_each s (uart_send_char c))
         (seq (bsg_mutex_unlock (io_mutex_ptr c)) (Ret (of_nat (length s)))))"

text \<open>
  \<open>char buf[256]\<close> holds the text and its terminator, and \<open>ee_vsprintf\<close> does not check: a call whose text has 256 or more
  characters overruns the stack. The result of such a call is the error \<open>Buffer_Overrun\<close>.
\<close>

definition bsg_printf :: "cfg \<Rightarrow> string \<Rightarrow> varg list \<Rightarrow> fmt_error + proc" where
  "bsg_printf c fmt args = (case ee_vsprintf fmt args of Inl e \<Rightarrow> Inl e
     | Inr s \<Rightarrow> if length s + 1 \<le> 256 then Inr (send_locked c (c_string s)) else Inl Buffer_Overrun)"

lemma abs_sint: "int (unat (if sint w < 0 then - w else w :: u32)) = \<bar>sint w\<bar>"
proof -
  have r: "- (2 ^ 31) \<le> sint w" "sint w < 2 ^ 31" using sint_greater_eq [of w] sint_less [of w] by simp_all
  have w: "w = word_of_int (sint w)" "- w = word_of_int (- sint w)" by simp_all
  show ?thesis
  proof (cases "sint w < 0")
    case True
    have "uint (word_of_int (- sint w) :: u32) = - sint w" using r True by (simp only: uint_word_of_int) simp
    then show ?thesis using True by simp
  next
    case False
    have "uint (word_of_int (sint w) :: u32) = sint w" using r False by (simp only: uint_word_of_int) simp
    then show ?thesis using False by simp
  qed
qed

section \<open>Padding\<close>

lemma pad_loop_eq: "pad_loop sz ch = (replicate (nat sz) ch, min sz 0 - 1)"
proof (induction sz ch rule: pad_loop.induct)
  case (1 sz ch)
  show ?case
  proof (cases "sz > 0")
    case True
    then have "nat sz = Suc (nat (sz - 1))" by simp
    then show ?thesis using 1 True by (subst pad_loop.simps) simp
  next
    case False
    then show ?thesis by (subst pad_loop.simps) simp
  qed
qed

lemma flag_bits:
  "flag t ZEROPAD \<longleftrightarrow> bit t 0" "flag t SIGN \<longleftrightarrow> bit t 1" "flag t PLUS \<longleftrightarrow> bit t 2" "flag t SPACE \<longleftrightarrow> bit t 3"
  "flag t LEFT \<longleftrightarrow> bit t 4" "flag t HEX_PREP \<longleftrightarrow> bit t 5" "flag t UPPERCASE \<longleftrightarrow> bit t 6"
  by (simp_all add: ZEROPAD_def SIGN_def PLUS_def SPACE_def LEFT_def HEX_PREP_def UPPERCASE_def bit_iff_and_push_bit_not_eq_0)

lemma flag_pad: "flag t (ZEROPAD OR LEFT) \<longleftrightarrow> bit t 0 \<or> bit t 4"
  using flag_bits(1,5) [of t] by (simp add: bit.conj_disj_distrib or_eq_0_iff)

text \<open>\<open>LEFT\<close> overrides \<open>ZEROPAD\<close>.\<close>

definition eff_flags :: "u32 \<Rightarrow> u32" where
  "eff_flags t = (if flag t LEFT then t AND NOT ZEROPAD else t)"

lemma eff_flags_bit: "bit (eff_flags t) n \<longleftrightarrow> bit t n \<and> (n = 0 \<longrightarrow> \<not> bit t 4)"
  by (cases "n < 32") (auto simp: eff_flags_def flag_bits ZEROPAD_def bit_simps dest: bit_imp_le_length)


section \<open>Numbers\<close>

text \<open>The digits that \<open>number\<close> prints, the magnitude they stand for, and the width they need.\<close>

definition num_magnitude :: "u32 \<Rightarrow> u32 \<Rightarrow> u32" where
  "num_magnitude num t = (if bit t 1 \<and> slt num 0 then - num else num)"

definition num_text :: "string \<Rightarrow> nat \<Rightarrow> nat \<Rightarrow> string" where
  "num_text dig base n = (if n = 0 then ''0'' else rev (num_tmp dig base n))"

definition num_head :: "u32 \<Rightarrow> int \<Rightarrow> u32 \<Rightarrow> string" where
  "num_head num base t = num_sign num (eff_flags t) @ num_prefix base (eff_flags t)"

definition num_body :: "u32 \<Rightarrow> int \<Rightarrow> int \<Rightarrow> u32 \<Rightarrow> string" where
  "num_body num base precision t =
     (let d = num_text (if flag t UPPERCASE then upper_digits else digits) (nat base) (unat (num_magnitude num t))
      in replicate (nat (precision - int (length d))) CHR ''0'' @ d)"

definition num_gap :: "u32 \<Rightarrow> int \<Rightarrow> int \<Rightarrow> int \<Rightarrow> u32 \<Rightarrow> nat" where
  "num_gap num base sz pr t = nat (sz - int (length (num_head num base t)) - int (length (num_body num base pr t)))"

lemma num_emit_layout:
  fixes tmp :: string and pr :: int
  defines "B \<equiv> replicate (nat (pr - int (length tmp))) CHR ''0'' @ rev tmp"
  shows "num_emit c sign pfx tmp sz pr t =
    (if bit t 4 then sign @ pfx @ B @ replicate (nat (sz - int (length B))) CHR '' ''
     else if bit t 0 then sign @ pfx @ replicate (nat (sz - int (length B))) c @ B
     else replicate (nat (sz - int (length B))) CHR '' '' @ sign @ pfx @ B)"
proof -
  have p: "sz - (if int (length tmp) > pr then int (length tmp) else pr) = sz - int (length B)"
    "nat ((if int (length tmp) > pr then int (length tmp) else pr) - int (length tmp)) = nat (pr - int (length tmp))"
    by (simp_all add: B_def)
  show ?thesis
    unfolding num_emit_def Let_def p by (simp add: pad_loop_eq flag_bits flag_pad) (simp add: B_def)
qed

lemma number_layout:
  assumes "2 \<le> base" and "base \<le> 36"
  shows "number num base sz pr t = Some (
    if bit t 4 then num_head num base t @ num_body num base pr t @ replicate (num_gap num base sz pr t) CHR '' ''
    else if bit t 0 then num_head num base t @ replicate (num_gap num base sz pr t) CHR ''0'' @ num_body num base pr t
    else replicate (num_gap num base sz pr t) CHR '' '' @ num_head num base t @ num_body num base pr t)"
proof -
  let ?dig = "if flag t UPPERCASE then upper_digits else digits"
  define tmp where "tmp = (if num_magnitude num t = 0 then ''0'' else num_tmp ?dig (nat base) (unat (num_magnitude num t)))"
  have d: "rev tmp = num_text ?dig (nat base) (unat (num_magnitude num t))" by (simp add: tmp_def num_text_def unat_eq_zero)
  have bd: "num_body num base pr t = replicate (nat (pr - int (length tmp))) CHR ''0'' @ rev tmp"
    unfolding num_body_def Let_def d [symmetric] by simp
  have mag: "(if flag (eff_flags t) SIGN \<and> slt num 0 then - num else num) = num_magnitude num t"
    by (simp add: num_magnitude_def flag_bits eff_flags_bit)
  have pre: "num_prefix_size base u = int (length (num_prefix base u))" for u
    by (simp add: num_prefix_size_def num_prefix_def)
  have "number num base sz pr t = Some (num_emit (if flag (eff_flags t) ZEROPAD then CHR ''0'' else CHR '' '')
      (num_sign num (eff_flags t)) (num_prefix base (eff_flags t)) tmp
      (sz - int (length (num_head num base t))) pr (eff_flags t))"
    using assms unfolding number_def eff_flags_def [symmetric] Let_def mag tmp_def
    by (simp add: pre num_head_def diff_diff_eq)
  then show ?thesis
    by (simp add: num_emit_layout eff_flags_bit num_head_def bd [symmetric] num_gap_def flag_bits)
qed

text \<open>The text of a number is as wide as the field width asks for, and never truncated.\<close>

lemma number_width:
  assumes "2 \<le> base" and "base \<le> 36"
  shows "map_option length (number num base sz pr t)
    = Some (max (nat sz) (length (num_head num base t) + length (num_body num base pr t)))"
proof -
  have "num_gap num base sz pr t + (length (num_head num base t) + length (num_body num base pr t))
    = max (nat sz) (length (num_head num base t) + length (num_body num base pr t))"
    unfolding num_gap_def by arith
  then show ?thesis by (auto simp: number_layout [OF assms])
qed

lemma number_width_witness: "map_option length (number 42 10 8 (- 1) 0) = Some 8"
proof -
  have "length (num_head 42 10 0) + length (num_body 42 10 (- 1) 0) = 2"
    by (simp add: num_head_def num_body_def num_sign_def num_prefix_def Let_def eff_flags_def num_text_def num_magnitude_def
        num_tmp.simps [of _ _ 42] num_tmp.simps [of _ _ 4] num_tmp.simps [of _ _ 0])
  then show ?thesis using number_width [of 10 42 8 "- 1" 0] by simp
qed

text \<open>The value of a digit string.\<close>

definition digit_val :: "char \<Rightarrow> nat" where
  "digit_val ch = (let k = of_char ch in
     if is_digit ch then k - of_char CHR ''0'' else if k \<ge> of_char CHR ''a'' then k - of_char CHR ''a'' + 10 else k - of_char CHR ''A'' + 10)"

definition digits_value :: "nat \<Rightarrow> string \<Rightarrow> nat" where
  "digits_value base s = foldl (\<lambda>a ch. a * base + digit_val ch) 0 s"

lemma digit_val_digits:
  assumes "n < 36"
  shows "digit_val (digits ! n) = n" "digit_val (upper_digits ! n) = n"
proof -
  have "map digit_val digits = [0..<36]" "map digit_val upper_digits = [0..<36]"
    by (simp_all add: digits_def upper_digits_def digit_val_def is_digit_def Let_def upt_conv_Cons)
  moreover have "length digits = 36" "length upper_digits = 36" by (simp_all add: digits_def upper_digits_def)
  ultimately show "digit_val (digits ! n) = n" "digit_val (upper_digits ! n) = n"
    using assms by (metis nth_map nth_upt add_0)+
qed

lemma digits_value_snoc: "digits_value base (s @ [ch]) = digits_value base s * base + digit_val ch"
  by (simp add: digits_value_def)

lemma digits_value_zeros: "digits_value base (replicate k CHR ''0'' @ s) = digits_value base s"
  by (induction k) (simp_all add: digits_value_def digit_val_def is_digit_def)

lemma num_tmp_value:
  assumes "2 \<le> base" and "base \<le> 36" and "dig = digits \<or> dig = upper_digits"
  shows "digits_value base (rev (num_tmp dig base n)) = n"
proof (induction n rule: less_induct)
  case (less n)
  show ?case
  proof (cases "n = 0")
    case True
    then show ?thesis by (simp add: num_tmp.simps digits_value_def)
  next
    case False
    have "n mod base < 36" using assms mod_less_divisor [of base n] by linarith
    moreover have "n div base < n" using False assms by simp
    ultimately show ?thesis
      using less [of "n div base"] False assms digit_val_digits [of "n mod base"]
      by (subst num_tmp.simps) (auto simp: digits_value_snoc)
  qed
qed

text \<open>
  C20: in every base from 2 to 36 \<open>number\<close> prints the sign and base prefix, padding, and a body of
  at least \<open>precision\<close> digits that stands for the magnitude of the argument, also for the most
  negative \<open>int\<close>; the padding is spaces on the right (\<open>LEFT\<close>), zeros after the prefix
  (\<open>ZEROPAD\<close>), or spaces on the left.
\<close>

lemma number_value:
  assumes "2 \<le> base" and "base \<le> 36"
  shows "\<exists>body k. digits_value (nat base) body = unat (num_magnitude num t) \<and> pr \<le> int (length body)
    \<and> (bit t 1 \<longrightarrow> int (unat (num_magnitude num t)) = \<bar>sint num\<bar>)
    \<and> number num base sz pr t = Some (
      if flag t LEFT then num_head num base t @ body @ replicate k CHR '' ''
      else if flag t ZEROPAD then num_head num base t @ replicate k CHR ''0'' @ body
      else replicate k CHR '' '' @ num_head num base t @ body)"
proof -
  have "digits_value (nat base) (num_text dig (nat base) n) = n" if "dig = digits \<or> dig = upper_digits" for dig n
    using num_tmp_value [of "nat base" dig n] assms that
    by (auto simp: num_text_def digits_value_def digit_val_def is_digit_def)
  then have "digits_value (nat base) (num_body num base pr t) = unat (num_magnitude num t)"
    by (simp add: num_body_def Let_def digits_value_zeros)
  moreover have "int (unat (num_magnitude num t)) = \<bar>sint num\<bar>" if "bit t 1"
    using that abs_sint by (simp add: num_magnitude_def slt_def)
  moreover have "pr \<le> int (length (num_body num base pr t))"
    by (simp add: num_body_def Let_def)
  ultimately show ?thesis
    using number_layout [OF assms, of num sz pr t] unfolding flag_bits by blast
qed

lemma number_value_witness:
  "\<exists>body k. digits_value 10 body = 2147483648
    \<and> number (- 0x80000000) 10 12 (- 1) SIGN = Some (replicate k CHR '' '' @ ''-'' @ body)"
proof -
  obtain body k where b: "digits_value (nat 10) body = unat (num_magnitude (- 0x80000000) SIGN)"
      "bit SIGN 1 \<longrightarrow> int (unat (num_magnitude (- 0x80000000) SIGN)) = \<bar>sint (- 0x80000000 :: u32)\<bar>"
      "number (- 0x80000000) 10 12 (- 1) SIGN = Some (
      if flag SIGN LEFT then num_head (- 0x80000000) 10 SIGN @ body @ replicate k CHR '' ''
      else if flag SIGN ZEROPAD then num_head (- 0x80000000) 10 SIGN @ replicate k CHR ''0'' @ body
      else replicate k CHR '' '' @ num_head (- 0x80000000) 10 SIGN @ body)"
    using number_value [of 10 "- 0x80000000" SIGN "- 1" 12] by auto
  have c: "bit SIGN 1" "\<bar>sint (- 0x80000000 :: u32)\<bar> = 2147483648" "\<not> flag SIGN LEFT" "\<not> flag SIGN ZEROPAD"
    "num_head (- 0x80000000) 10 SIGN = ''-''"
    by code_simp+
  have "int (digits_value (nat 10) body) = 2147483648" using b(2) c(1,2) unfolding b(1) by simp
  then have "digits_value 10 body = 2147483648" by simp
  then show ?thesis using b(3) c by auto
qed

section \<open>Decimal text\<close>

text \<open>The decimal numeral of a natural number, the reference for \<open>%d\<close> and \<open>%u\<close>.\<close>

fun decimal :: "nat \<Rightarrow> string" where
  "decimal n = (if n < 10 then [char_of (48 + n)] else decimal (n div 10) @ [char_of (48 + n mod 10)])"

declare decimal.simps [simp del]

lemma digits_decimal:
  assumes "n < 10"
  shows "digits ! n = char_of (48 + n)"
proof -
  have "map (\<lambda>n. char_of (48 + n)) [0..<10] = take 10 digits" by code_simp
  then have "map (\<lambda>n. char_of (48 + n)) [0..<10] ! n = take 10 digits ! n" by simp
  then show ?thesis using assms by simp
qed

lemma num_tmp_decimal: "0 < n \<Longrightarrow> rev (num_tmp digits 10 n) = decimal n"
proof (induction n rule: less_induct)
  case (less n)
  show ?case
  proof (cases "n < 10")
    case True
    then show ?thesis using less.prems
      by (simp add: num_tmp.simps [of _ _ n] num_tmp.simps [of _ _ 0] decimal.simps [of n] digits_decimal)
  next
    case False
    then have "rev (num_tmp digits 10 (n div 10)) = decimal (n div 10)" using less.IH [of "n div 10"] by simp
    then show ?thesis using False
      by (simp add: num_tmp.simps [of _ _ n] decimal.simps [of n] digits_decimal)
  qed
qed

lemma num_text_decimal: "num_text digits 10 n = decimal n"
proof (cases "n = 0")
  case True
  have "decimal 0 = ''0''" by code_simp
  then show ?thesis using True by (simp add: num_text_def)
qed (simp add: num_text_def num_tmp_decimal)

lemma number_decimal:
  "number w 10 (- 1) (- 1) 0 = Some (decimal (unat w))"
  "number w 10 (- 1) (- 1) SIGN = Some ((if sint w < 0 then ''-'' else '''') @ decimal (nat \<bar>sint w\<bar>))"
proof -
  have S: "\<not> bit SIGN 0" "\<not> bit SIGN 2" "\<not> bit SIGN 3" "\<not> bit SIGN 4" "\<not> bit SIGN 5" "\<not> bit SIGN 6" "bit SIGN 1"
    by (simp_all add: SIGN_def bit_simps)
  have "num_magnitude w SIGN = (if sint w < 0 then - w else w)" using S(7) by (simp add: num_magnitude_def slt_def)
  then have u: "unat (num_magnitude w SIGN) = nat \<bar>sint w\<bar>"
    using arg_cong [OF abs_sint [of w], of nat] by (simp only: nat_int)
  show "number w 10 (- 1) (- 1) 0 = Some (decimal (unat w))"
    by (simp add: number_layout num_head_def num_body_def num_sign_def num_prefix_def Let_def num_gap_def
        eff_flags_def num_magnitude_def num_text_decimal)
  show "number w 10 (- 1) (- 1) SIGN = Some ((if sint w < 0 then ''-'' else '''') @ decimal (nat \<bar>sint w\<bar>))"
    using S by (simp add: number_layout num_head_def num_body_def num_sign_def num_prefix_def Let_def num_gap_def
        flag_bits eff_flags_bit num_text_decimal u slt_def)
qed

lemma skip_atoi_app:
  assumes "\<forall>ch \<in> set s. is_digit ch"
  shows "skip_atoi_from i (s @ rest) = skip_atoi_from (fst (skip_atoi_from i s)) rest"
  using assms by (induction s arbitrary: i) auto

lemma decimal_digit: "k < 10 \<Longrightarrow> is_digit (char_of (48 + k)) \<and> (of_char (char_of (48 + k)) :: nat) = 48 + k"
  by (auto simp: is_digit_def of_char_of)

lemma decimal_is_digits: "\<forall>ch \<in> set (decimal n). is_digit ch"
proof (induction n rule: decimal.induct)
  case (1 n)
  then show ?case by (cases "n < 10") (auto simp: decimal.simps [of n] decimal_digit)
qed

lemma of_char_u32: "k < 10 \<Longrightarrow> (of_char (char_of (48 + k)) :: u32) = 48 + of_nat k"
  using decimal_digit [of k] of_nat_of_char [of "char_of (48 + k)", where 'a = u32] by simp

lemma skip_decimal: "skip_atoi_from 0 (decimal n) = (of_nat n, [])"
proof (induction n rule: decimal.induct)
  case (1 n)
  show ?case
  proof (cases "n < 10")
    case True
    then show ?thesis by (simp add: decimal.simps [of n] decimal_digit of_char_u32)
  next
    case False
    then have IH: "skip_atoi_from 0 (decimal (n div 10)) = (of_nat (n div 10), [])" using 1 by blast
    have "(of_nat (n div 10) :: u32) * 10 + of_nat (n mod 10) = of_nat (n div 10 * 10 + n mod 10)"
      by (simp only: of_nat_add of_nat_mult of_nat_numeral)
    then have "(of_nat (n div 10) :: u32) * 10 + of_nat (n mod 10) = of_nat n" by simp
    then show ?thesis
      using IH False skip_atoi_app [OF decimal_is_digits, of 0 "n div 10" "[char_of (48 + n mod 10)]"]
      by (simp add: decimal.simps [of n] decimal_digit of_char_u32 algebra_simps)
  qed
qed

lemma decimal_head: "0 < n \<Longrightarrow> \<exists>(k :: nat) s. 0 < k \<and> k < 10 \<and> decimal n = char_of (48 + k) # s"
proof (induction n rule: decimal.induct)
  case (1 n)
  show ?case
  proof (cases "n < 10")
    case True
    then show ?thesis using 1 by (auto simp: decimal.simps [of n])
  next
    case False
    then have "0 < n div 10" by simp
    then show ?thesis using 1 False by (fastforce simp: decimal.simps [of n])
  qed
qed

lemma fmt_flags_stop:
  fixes k :: nat
  assumes "0 < k" and "k < 10"
  shows "fmt_flags f (char_of (48 + k) # s) = (f, char_of (48 + k) # s)"
proof -
  define ch :: char where "ch = char_of (48 + k)"
  have "(of_char ch :: nat) = 48 + k" unfolding ch_def using decimal_digit assms by blast
  then have "ch \<noteq> CHR ''-''" "ch \<noteq> CHR ''+''" "ch \<noteq> CHR '' ''" "ch \<noteq> CHR ''#''" "ch \<noteq> CHR ''0''"
    using assms by auto
  then show ?thesis unfolding ch_def [symmetric] by simp
qed

lemma skip_decimal_rest:
  assumes "\<not> is_digit (peek rest)"
  shows "skip_atoi (decimal n @ rest) = (of_nat n, rest)"
proof -
  have "skip_atoi_from i rest = (i, rest)" for i using assms by (cases rest) (simp_all add: peek_def)
  then show ?thesis by (simp add: skip_atoi_def skip_atoi_app [OF decimal_is_digits] skip_decimal)
qed

lemma sint_of_nat_small: "n < 2 ^ 31 \<Longrightarrow> sint (of_nat n :: u32) = int n"
  by (simp add: signed_of_nat signed_take_bit_int_eq_self)

lemma fmt_convert_decimal:
  "fmt_convert CHR ''d'' 0 wd pr q (Word w # args) = Inr (the (number w 10 wd pr SIGN), args)"
  "fmt_convert CHR ''u'' 0 wd pr q (Word w # args) = Inr (the (number w 10 wd pr 0), args)"
  by (simp_all add: fmt_convert_def fmt_integer_def)

lemma fmt_directive_width:
  assumes "0 < n" and "n < 2 ^ 31" and "ch = CHR ''d'' \<or> ch = CHR ''u''"
  shows "fmt_directive (decimal n @ ch # rest) (Word w # args)
    = Inr (the (number w 10 (int n) (- 1) (if ch = CHR ''d'' then SIGN else 0)), rest, args)"
proof -
  obtain k :: nat and s where k: "0 < k" "k < 10" "decimal n = char_of (48 + k) # s" using decimal_head assms(1) by blast
  have f: "fmt_flags 0 (decimal n @ ch # rest) = (0, decimal n @ ch # rest)"
    by (simp only: k(3) append_Cons fmt_flags_stop [OF k(1,2)])
  have d: "is_digit (peek (decimal n @ ch # rest))"
    unfolding k(3) peek_def using decimal_digit [OF k(2)] by (simp only: append_Cons list.case)
  have "\<not> is_digit (peek (ch # rest))" using assms(3) by (auto simp: peek_def is_digit_def)
  then have a: "skip_atoi (decimal n @ ch # rest) = (of_nat n, ch # rest)" by (rule skip_decimal_rest)
  have w: "fmt_width 0 (decimal n @ ch # rest) (Word w # args) = Inr (int n, 0, ch # rest, Word w # args)"
    unfolding fmt_width_def a Let_def prod.case sint_of_nat_small [OF assms(2)] by (simp only: d if_True)
  have "peek (ch # rest) = ch" by (simp add: peek_def)
  then have p: "fmt_precision (ch # rest) (Word w # args) = Inr (- 1, ch # rest, Word w # args)"
    and q: "fmt_qualifier (ch # rest) = (None, ch # rest)"
    and v: "fmt_convert (peek (ch # rest)) 0 (int n) (- 1) None (Word w # args)
      = Inr (the (number w 10 (int n) (- 1) (if ch = CHR ''d'' then SIGN else 0)), args)"
    using assms(3) by (auto simp: fmt_precision_def fmt_qualifier_def fmt_convert_decimal)
  show ?thesis unfolding fmt_directive_def f Let_def prod.case w sum.case p q v by simp
qed

lemma number_decimal_width:
  "number w 10 sz (- 1) t = Some (let s = the (number w 10 (- 1) (- 1) t) in replicate (nat sz - length s) CHR '' '' @ s)"
  if "t = 0 \<or> t = SIGN"
proof -
  have S: "\<not> bit SIGN 0" "\<not> bit SIGN 4" by (simp_all add: SIGN_def bit_simps)
  have "number w 10 z (- 1) t = Some (replicate (num_gap w 10 z (- 1) t) CHR '' '' @ num_head w 10 t @ num_body w 10 (- 1) t)" for z
    using that S by (auto simp: number_layout)
  moreover have "num_gap w 10 (- 1) (- 1) t = 0" by (simp add: num_gap_def)
  moreover have "num_gap w 10 sz (- 1) t = nat sz - length (num_head w 10 t @ num_body w 10 (- 1) t)"
    by (simp add: num_gap_def)
  ultimately show ?thesis by simp
qed

lemma prepend_prepend: "map_sum id ((@) s) (map_sum id ((@) t) r) = map_sum id ((@) (s @ t)) r"
  by (cases r) simp_all

lemma literal_text:
  assumes "CHR ''%'' \<notin> set s"
  shows "ee_vsprintf (s @ fmt) args = map_sum id ((@) s) (ee_vsprintf fmt args)"
  using assms
proof (induction s)
  case Nil
  show ?case by (cases "ee_vsprintf fmt args") simp_all
next
  case (Cons ch s)
  then show ?case by (cases "ee_vsprintf fmt args") auto
qed

text \<open>
  C19: a format that asks for a decimal field of width \<open>n\<close> prints the text before it as it is,
  then the signed (\<open>%d\<close>) or unsigned (\<open>%u\<close>) decimal numeral of the argument, right-justified in
  \<open>n\<close> columns and never cut, and goes on with the next argument. The width written in the format
  is read back as the number it denotes.
\<close>

lemma ee_vsprintf_decimal:
  assumes "CHR ''%'' \<notin> set s" and "0 < n" and "n < 2 ^ 31"
  shows "ee_vsprintf (s @ ''%'' @ decimal n @ ''d'' @ rest) (Word w # args)
      = map_sum id ((@) (s @ (let num = (if sint w < 0 then ''-'' else '''') @ decimal (nat \<bar>sint w\<bar>)
          in replicate (n - length num) CHR '' '' @ num))) (ee_vsprintf rest args)
    \<and> ee_vsprintf (s @ ''%'' @ decimal n @ ''u'' @ rest) (Word w # args)
      = map_sum id ((@) (s @ (let num = decimal (unat w)
          in replicate (n - length num) CHR '' '' @ num))) (ee_vsprintf rest args)"
  using assms
  by (simp add: literal_text fmt_directive_width number_decimal_width [of SIGN] number_decimal_width [of 0] number_decimal
      Let_def prepend_prepend)

lemma ee_vsprintf_decimal_witness:
  "ee_vsprintf (''x = '' @ ''%'' @ decimal 5 @ ''d'' @ '''') [Word (- 42)] = Inr (''x = '' @ ''  -42'')
   \<and> ee_vsprintf (''x = '' @ ''%'' @ decimal 5 @ ''u'' @ '''') [Word 42] = Inr (''x = '' @ ''   42'')"
proof -
  have d: "decimal (nat \<bar>sint (- 42 :: u32)\<bar>) = ''42''" "decimal (unat (42 :: u32)) = ''42''" "sint (- 42 :: u32) < 0"
    by code_simp+
  have r: "replicate (5 - length ''-42'') CHR '' '' @ ''-42'' = ''  -42''"
    "replicate (5 - length ''42'') CHR '' '' @ ''42'' = ''   42''" by code_simp+
  have p: "CHR ''%'' \<notin> set ''x = ''" by simp
  show ?thesis
    using conjunct1 [OF ee_vsprintf_decimal [OF p, of 5 "''''" "- 42" "[]"]]
      conjunct2 [OF ee_vsprintf_decimal [OF p, of 5 "''''" 42 "[]"]]
    unfolding d Let_def by (simp only: d(3) r if_True append_Cons append_Nil) simp
qed

section \<open>Messages of several tiles\<close>

text \<open>
  The workload: each tile makes a list of \<open>bsg_printf\<close> calls. When the arguments of a call do not fit its format, or the
  text does not fit the buffer, C defines no behaviour for the program, and its result is the error of that call. The console
  of the host shows the characters stored at its print address.
\<close>

primrec printf_calls :: "cfg \<Rightarrow> (string \<times> varg list) list \<Rightarrow> fmt_error + proc" where
  "printf_calls c [] = Inr (Ret 0)"
| "printf_calls c (x # xs) = (case bsg_printf c (fst x) (snd x) of Inl e \<Rightarrow> Inl e
     | Inr p \<Rightarrow> map_sum id (seq p) (printf_calls c xs))"

definition call_text :: "string \<times> varg list \<Rightarrow> string" where
  "call_text x = (case ee_vsprintf (fst x) (snd x) of Inl e \<Rightarrow> [] | Inr s \<Rightarrow> c_string s)"

definition texts :: "(string \<times> varg list) list \<Rightarrow> string list" where
  "texts calls = map call_text calls"

definition console :: "cfg \<Rightarrow> machine \<Rightarrow> u32 list" where
  "console c m = map (\<lambda>(x, a, v). v) (filter (\<lambda>(x, a, v). x = IO_X_INDEX c \<and> a = 0xEADC) (io m))"

definition codes :: "string \<Rightarrow> u32 list" where
  "codes s = map (\<lambda>ch. ucast (of_nat (of_char ch) :: u8)) s"

text \<open>
  The control states: before the lock, at the swap, and inside with the characters still to send;
  each with the messages that follow.
\<close>

datatype pr_state = PEnter "string list" | PSwap string "string list" | PSend string "string list"

definition send_all :: "cfg \<Rightarrow> string list \<Rightarrow> proc" where
  "send_all c ms = for_each ms (send_locked c)"

definition send_rest :: "cfg \<Rightarrow> string \<Rightarrow> string list \<Rightarrow> proc" where
  "send_rest c s ms = seq (for_each s (uart_send_char c)) (Act (AmoSwap (io_mutex_ptr c) 0) (\<lambda>_. send_all c ms))"

fun pr_prog :: "cfg \<Rightarrow> pr_state \<Rightarrow> proc" where
  "pr_prog c (PEnter ms) = send_all c ms"
| "pr_prog c (PSwap s ms) =
     Act (AmoSwap (io_mutex_ptr c) 1) (\<lambda>r. if r \<noteq> 1 then send_rest c s ms else send_all c (s # ms))"
| "pr_prog c (PSend s ms) = send_rest c s ms"

definition lock_npa :: "cfg \<Rightarrow> npa" where
  "lock_npa c = Endpoint (IO_X_INDEX c) (IO_Y_INDEX c) 0"

definition put_char :: "cfg \<Rightarrow> char \<Rightarrow> machine \<Rightarrow> machine" where
  "put_char c ch m = (let p = Endpoint (IO_X_INDEX c) (IO_Y_INDEX c) 0xEADC; v = of_nat (of_char ch) in
     m\<lparr>mem := store8 (mem m) p v, io := io m @ io_log c p (ucast v)\<rparr>)"

fun pr_next :: "cfg \<Rightarrow> pr_state \<Rightarrow> machine \<Rightarrow> pr_state \<times> machine" where
  "pr_next c (PEnter []) m = (PEnter [], m)"
| "pr_next c (PEnter (s # ms)) m = (PSwap s ms, m)"
| "pr_next c (PSwap s ms) m =
     (if rd m (lock_npa c) \<noteq> 1 then PSend s ms else PEnter (s # ms), put32 c (lock_npa c) 1 m)"
| "pr_next c (PSend [] ms) m = (PEnter ms, put32 c (lock_npa c) 0 m)"
| "pr_next c (PSend (ch # s) ms) m = (PSend s ms, put_char c ch m)"

lemma console_put:
  assumes "io_fits c"
  shows "console c (put32 c (lock_npa c) v m) = console c m"
    and "console c (put_char c ch m) = console c m @ codes [ch]"
    and "rd (put_char c ch m) (lock_npa c) = rd m (lock_npa c)"
  using assms
  by (auto simp: console_def lock_npa_def put_char_def io_log_def codes_def rd_def load32_store8_other span4_def Let_def)

lemma codes_append [simp]: "codes (s @ t) = codes s @ codes t"
  by (simp add: codes_def)

lemma send_all_Cons:
  "send_all c (s # ms) = Loop (Act (AmoSwap (io_mutex_ptr c) 1) Ret) (\<lambda>r. r \<noteq> 1) (\<lambda>_. send_rest c s ms)"
  by (simp add: send_all_def send_rest_def send_locked_def bsg_mutex_lock_def bsg_mutex_try_lock_def bsg_mutex_unlock_def
      bsg_mutex_lock_fail_def)

lemma send_rest_Cons: "send_rest c (ch # s) ms =
    Act (Store8 (bsg_remote_ptr_io c (IO_X_INDEX c) 0xEADC) (of_nat (of_char ch))) (\<lambda>_. send_rest c s ms)"
  by (simp add: send_rest_def uart_send_char_def bsg_putchar_def)

lemma send_rest_Nil: "send_rest c [] ms = Act (AmoSwap (io_mutex_ptr c) 0) (\<lambda>_. send_all c ms)"
  by (simp add: send_rest_def)

lemma eva_lock: "io_fits c \<Longrightarrow> eva_to_npa c t (io_mutex_ptr c) = lock_npa c"
  by (simp add: io_mutex_ptr_def bsg_io_mutex_ptr_def lock_npa_def io_fits_def eva_global)

lemma pr_code_step:
  assumes "io_fits c"
  shows "pstep c t (pr_prog c q, m) = (pr_prog c (fst (pr_next c q m)), snd (pr_next c q m))"
proof (cases q)
  case (PEnter ms)
  then show ?thesis by (cases ms) (auto simp: send_all_Cons fun_eq_iff, simp_all add: send_all_def)
next
  case (PSend s ms)
  then show ?thesis
    by (cases s) (simp_all add: send_rest_Cons eva_io [OF assms] put_char_def Let_def, simp add: send_rest_def eva_lock [OF assms] Let_def)
qed (simp add: eva_lock [OF assms] Let_def flip: rd_def)

fun pr_left :: "pr_state \<Rightarrow> string list" where
  "pr_left (PEnter ms) = ms"
| "pr_left (PSwap s ms) = s # ms"
| "pr_left (PSend s ms) = ms"

fun sending :: "pr_state \<Rightarrow> bool" where
  "sending (PSend s ms) = True"
| "sending q = False"

fun pr_unsent :: "pr_state \<Rightarrow> string" where
  "pr_unsent (PSend s ms) = s"
| "pr_unsent q = []"

text \<open>\<open>order\<close> lists the messages in the order of their locks, \<open>by_tile\<close> those of one tile.\<close>

definition by_tile :: "tile \<Rightarrow> (tile \<times> string) list \<Rightarrow> string list" where
  "by_tile t order = map snd (filter (\<lambda>e. fst e = t) order)"

definition shown :: "(tile \<times> string) list \<Rightarrow> u32 list" where
  "shown order = concat (map (\<lambda>e. codes (snd e)) order)"

lemma by_tile_snoc [simp]: "by_tile t (order @ [(u, s)]) = by_tile t order @ (if u = t then [s] else [])"
  by (simp add: by_tile_def)

lemma shown_snoc [simp]: "shown (order @ [e]) = shown order @ codes (snd e)"
  by (simp add: shown_def)

definition senders :: "cfg \<Rightarrow> (tile \<Rightarrow> pr_state) \<Rightarrow> tile set" where
  "senders c qs = {t. in_group c t \<and> sending (qs t)}"

definition pr_inv :: "cfg \<Rightarrow> u32 list \<Rightarrow> (tile \<Rightarrow> string list) \<Rightarrow> (tile \<Rightarrow> pr_state) \<Rightarrow> machine \<Rightarrow> bool" where
  "pr_inv c old ms qs m \<longleftrightarrow> io_fits c \<and> (\<exists>order.
     (\<forall>t. in_group c t \<longrightarrow> by_tile t order @ pr_left (qs t) = ms t)
     \<and> (rd m (lock_npa c) = 0 \<and> senders c qs = {} \<and> console c m = old @ shown order
        \<or> rd m (lock_npa c) = 1 \<and> (\<exists>h. senders c qs = {h} \<and> console c m @ codes (pr_unsent (qs h)) = old @ shown order
          \<and> order \<noteq> [] \<and> suffix (pr_unsent (qs h)) (snd (last order)))))"

lemma senders_upd:
  "in_group c t \<Longrightarrow> senders c (qs(t := q)) = (if sending q then insert t (senders c qs) else senders c qs - {t})"
  by (auto simp: senders_def)

lemma pr_inv_step:
  assumes t: "in_group c t" and I: "pr_inv c old ms qs m" and n: "pr_next c (qs t) m = (q', m')"
  shows "pr_inv c old ms (qs(t := q')) m'"
proof -
  have f: "io_fits c" using I by (simp add: pr_inv_def)
  note up = senders_upd [OF t, of qs q'] and put = console_put [OF f]
  obtain order where o: "\<forall>u. in_group c u \<longrightarrow> by_tile u order @ pr_left (qs u) = ms u"
    and L: "rd m (lock_npa c) = 0 \<and> senders c qs = {} \<and> console c m = old @ shown order
        \<or> rd m (lock_npa c) = 1 \<and> (\<exists>h. senders c qs = {h} \<and> console c m @ codes (pr_unsent (qs h)) = old @ shown order
          \<and> order \<noteq> [] \<and> suffix (pr_unsent (qs h)) (snd (last order)))"
    using I unfolding pr_inv_def by blast
  have st: "t \<in> senders c qs \<longleftrightarrow> sending (qs t)" using t by (simp add: senders_def)
  consider (quiet) "pr_left q' = pr_left (qs t)" "\<not> sending q'" "\<not> sending (qs t)"
      "m' = m \<or> rd m (lock_npa c) = 1 \<and> m' = put32 c (lock_npa c) 1 m"
    | (take) s ss where "qs t = PSwap s ss" "q' = PSend s ss" "rd m (lock_npa c) \<noteq> 1" "m' = put32 c (lock_npa c) 1 m"
    | (char) ch s ss where "qs t = PSend (ch # s) ss" "q' = PSend s ss" "m' = put_char c ch m"
    | (leave) ss where "qs t = PSend [] ss" "q' = PEnter ss" "m' = put32 c (lock_npa c) 0 m"
    using n by (elim pr_next.elims) (auto split: if_splits)
  then show ?thesis
  proof cases
    case quiet
    then have "senders c (qs(t := q')) = senders c qs" using up st by auto
    moreover have "rd m' (lock_npa c) = rd m (lock_npa c)" "console c m' = console c m" using quiet(4) put by auto
    moreover have "pr_unsent ((qs(t := q')) h) = pr_unsent (qs h)" for h
      using quiet(2,3) by (cases q'; cases "qs t") auto
    ultimately show ?thesis unfolding pr_inv_def using f o L quiet(1) t by (intro conjI exI [of _ order]) (auto simp del: split_paired_All split_paired_Ex)
  next
    case take
    then have "rd m (lock_npa c) = 0" "senders c qs = {}" "console c m = old @ shown order" using L by auto
    then show ?thesis unfolding pr_inv_def using f o t take put up by (intro conjI exI [of _ "order @ [(t, s)]"]) (auto simp del: split_paired_All split_paired_Ex)
  next
    case char
    then have s: "senders c qs = {t}" using L st by auto
    then have "rd m (lock_npa c) = 1" "console c m @ codes (ch # s) = old @ shown order"
      "order \<noteq> []" "suffix s (snd (last order))" using L char by (auto dest: suffix_ConsD)
    then show ?thesis unfolding pr_inv_def using f o t char put up s codes_append [of "[ch]" s]
      by (intro conjI exI [of _ order]) (auto simp del: split_paired_All split_paired_Ex)
  next
    case leave
    then have s: "senders c qs = {t}" using L st by auto
    then have "console c m = old @ shown order" using L leave by (auto simp: codes_def)
    then show ?thesis unfolding pr_inv_def using f o t leave put up s by (intro conjI exI [of _ order]) (auto simp del: split_paired_All split_paired_Ex)
  qed
qed

interpretation pr: control_points c "\<lambda>t. pr_prog c" "\<lambda>t. pr_next c" "pr_inv c old ms"
  for c old ms
proof unfold_locales
  fix t qs m
  assume "in_group c t" "pr_inv c old ms qs m"
  then show "pstep c t (pr_prog c (qs t), m) = (pr_prog c (fst (pr_next c (qs t) m)), snd (pr_next c (qs t) m))"
    by (intro pr_code_step) (simp add: pr_inv_def)
qed (rule pr_inv_step)

lemma printf_calls_texts: "printf_calls c calls = Inr p \<Longrightarrow> p = send_all c (texts calls)"
proof (induction calls arbitrary: p)
  case Nil
  then show ?case by (simp add: send_all_def texts_def)
next
  case (Cons x xs)
  then obtain q r where q: "bsg_printf c (fst x) (snd x) = Inr q" "printf_calls c xs = Inr r" "p = seq q r"
    by (cases "printf_calls c xs") (auto split: sum.splits)
  then have "q = send_locked c (call_text x)" by (auto simp: bsg_printf_def call_text_def split: sum.splits if_splits)
  then show ?case using Cons.IH [OF q(2)] q(3) by (simp add: send_all_def texts_def)
qed

lemma pr_reachable:
  assumes "io_fits c" and "rd m0 (lock_npa c) = 0" and "\<And>t. printf_calls c (calls t) = Inr (ps t)" and "reachable c (ps, m0) s"
  obtains qs where "fst s = (\<lambda>t. pr_prog c (qs t))" and "pr_inv c (console c m0) (\<lambda>t. texts (calls t)) qs (snd s)"
proof -
  have "pr_inv c (console c m0) (\<lambda>t. texts (calls t)) (\<lambda>t. PEnter (texts (calls t))) m0"
    unfolding pr_inv_def using assms(1,2)
    by (intro conjI exI [of _ "[]"]) (auto simp: by_tile_def shown_def senders_def)
  moreover have "ps = (\<lambda>t. pr_prog c (PEnter (texts (calls t))))" using printf_calls_texts [OF assms(3)] by (intro ext) simp
  ultimately show thesis
    using pr.reachable_inv [of c "\<lambda>t. PEnter (texts (calls t))" m0 s "console c m0" "\<lambda>t. texts (calls t)"] assms(4) that
    by auto
qed

lemma pr_prog_Ret: "pr_prog c q = Ret r \<Longrightarrow> q = PEnter []"
proof (cases q)
  case (PEnter ms)
  then show "pr_prog c q = Ret r \<Longrightarrow> q = PEnter []" by (cases ms) (auto simp: send_all_Cons)
next
  case (PSend s ms)
  then show "pr_prog c q = Ret r \<Longrightarrow> q = PEnter []" by (cases s) (auto simp: send_rest_Cons, simp add: send_rest_def)
qed auto

text \<open>
  C18: messages printed by different tiles are never mixed, when every call has arguments that fit its format and a text that
  fits its buffer. At every moment the host console shows
  whole messages, in some order that keeps the order of each tile, of which the last may be
  incomplete; when all tiles have returned, it shows every message of every tile in full.
\<close>

lemma printf_atomic:
  assumes "io_fits c" and "rd m0 (lock_npa c) = 0" and "\<And>t. printf_calls c (calls t) = Inr (ps t)" and "reachable c (ps, m0) s"
  shows "\<exists>order unsent. console c (snd s) @ unsent = console c m0 @ shown order
    \<and> (\<forall>t. in_group c t \<longrightarrow> prefix (by_tile t order) (texts (calls t)))
    \<and> (order = [] \<longrightarrow> unsent = []) \<and> (order \<noteq> [] \<longrightarrow> suffix unsent (codes (snd (last order))))
    \<and> (finished c s \<longrightarrow> unsent = [] \<and> (\<forall>t. in_group c t \<longrightarrow> by_tile t order = texts (calls t)))"
proof -
  obtain qs where ps: "fst s = (\<lambda>t. pr_prog c (qs t))" and I: "pr_inv c (console c m0) (\<lambda>t. texts (calls t)) qs (snd s)"
    using pr_reachable [OF assms] .
  obtain order where o: "\<forall>u. in_group c u \<longrightarrow> by_tile u order @ pr_left (qs u) = texts (calls u)"
    and L: "senders c qs = {} \<and> console c (snd s) = console c m0 @ shown order
        \<or> (\<exists>h. senders c qs = {h} \<and> console c (snd s) @ codes (pr_unsent (qs h)) = console c m0 @ shown order
            \<and> order \<noteq> [] \<and> suffix (pr_unsent (qs h)) (snd (last order)))"
    using I unfolding pr_inv_def by blast
  have p: "\<forall>t. in_group c t \<longrightarrow> prefix (by_tile t order) (texts (calls t))" using o unfolding prefix_def by metis
  have q: "qs t = PEnter []" if "finished c s" "in_group c t" for t
    using that ps unfolding finished_def by (metis pr_prog_Ret)
  then have fin: "senders c qs = {}" "\<forall>t. in_group c t \<longrightarrow> by_tile t order = texts (calls t)" if "finished c s"
    using that o by (auto simp: senders_def)
  show ?thesis
  proof (cases "senders c qs = {}")
    case True
    then show ?thesis using L p fin(2) by (intro exI [of _ order] exI [of _ "[]"]) auto
  next
    case False
    then obtain h where h: "console c (snd s) @ codes (pr_unsent (qs h)) = console c m0 @ shown order"
        "order \<noteq> []" "suffix (pr_unsent (qs h)) (snd (last order))" using L by auto
    have "suffix (codes (pr_unsent (qs h))) (codes (snd (last order)))"
      using h(3) by (auto simp: suffix_def)
    then show ?thesis using h(1,2) p fin False by (intro exI [of _ order] exI [of _ "codes (pr_unsent (qs h))"]) auto
  qed
qed

text \<open>Two tiles print a word each, one after the other.\<close>

definition ex_calls :: "tile \<Rightarrow> (string \<times> varg list) list" where
  "ex_calls t = (if t = (0, 0) then [(''a'', [])] else if t = (1, 0) then [(''%d'', [Word 7])] else [])"

lemma send_one:
  assumes "io_fits c" and "rd m (lock_npa c) = 0"
  shows "(pstep c t ^^ 4) (send_all c [[ch]], m)
    = (Ret 0, put32 c (lock_npa c) 0 (put_char c ch (put32 c (lock_npa c) 1 m)))"
proof -
  have "send_all c [[ch]] = pr_prog c (PEnter [[ch]])" and "Ret 0 = pr_prog c (PEnter [])" by (simp_all add: send_all_def)
  then show ?thesis using assms(2) by (simp add: eval_nat_numeral pr_code_step [OF assms(1)] del: pr_prog.simps)
qed

lemma printf_atomic_witness:
  "\<exists>ps s. (\<forall>t. printf_calls small_cfg (ex_calls t) = Inr (ps t)) \<and> reachable small_cfg (ps, zero_machine) s \<and> finished small_cfg s
     \<and> (\<exists>order. console small_cfg (snd s) = console small_cfg zero_machine @ shown order
       \<and> by_tile (0, 0) order = [''a''] \<and> by_tile (1, 0) order = [''7''])"
proof -
  let ?ps = "\<lambda>t. send_all small_cfg (texts (ex_calls t))"
  let ?put = "\<lambda>ch m. put32 small_cfg (lock_npa small_cfg) 0 (put_char small_cfg ch (put32 small_cfg (lock_npa small_cfg) 1 m))"
  let ?m1 = "?put CHR ''a'' zero_machine"
  let ?m2 = "?put CHR ''7'' ?m1"
  let ?p1 = "?ps((0, 0) := Ret 0)"
  let ?s = "(?p1((1, 0) := Ret 0), ?m2)"
  have v: "ee_vsprintf ''a'' [] = Inr ''a''" "ee_vsprintf ''%d'' [Word 7] = Inr ''7''" by code_simp+
  have tx: "texts (ex_calls (0, 0)) = [''a'']" "texts (ex_calls (1, 0)) = [''7'']" "t \<noteq> (0, 0) \<Longrightarrow> t \<noteq> (1, 0) \<Longrightarrow> texts (ex_calls t) = []" for t
    by (simp_all add: ex_calls_def texts_def call_text_def c_string_def v del: ee_vsprintf.simps)
  have ps: "printf_calls small_cfg (ex_calls t) = Inr (?ps t)" for t
    by (simp add: ex_calls_def texts_def call_text_def bsg_printf_def c_string_def v send_all_def del: ee_vsprintf.simps)
  have g: "in_group small_cfg (0, 0)" "in_group small_cfg (1, 0)" by (simp_all add: in_group_def small_cfg_def)
  have f: "io_fits small_cfg" by (simp add: io_fits_def small_cfg_def)
  have "reachable small_cfg (?ps, zero_machine) (?p1, ?m1)"
    using reachable_tile_steps [OF g(1), of ?ps zero_machine 4] by (simp add: tx send_one [OF f rd_zero_machine])
  moreover have "reachable small_cfg (?p1, ?m1) ?s"
    using reachable_tile_steps [OF g(2), of ?p1 ?m1 4] by (simp add: tx send_one [OF f rd_put32_same])
  ultimately have r: "reachable small_cfg (?ps, zero_machine) ?s" by (rule reachable_trans [rotated])
  have fin: "finished small_cfg ?s" using tx(3) by (auto simp: finished_def send_all_def)
  show ?thesis
    using printf_atomic [OF f rd_zero_machine ps r] r fin g tx ps by (intro exI [of _ ?ps] exI [of _ ?s]) auto
qed

end
