(* ===== verification/Programs.thy ===== *)
theory Programs
  imports Printf
begin

text \<open>
  Running the program of one tile up to its report to the host: the vocabulary of the test
  programs. A program that succeeds ends in \<open>bsg_finish\<close>, one that detects an error in
  \<open>bsg_fail\<close>; both store a word that the host reads and then spin.
\<close>

section \<open>Runs\<close>

definition runs :: "cfg \<Rightarrow> tile \<Rightarrow> proc \<times> machine \<Rightarrow> proc \<times> machine \<Rightarrow> bool" where
  "runs c t s s' \<longleftrightarrow> (\<exists>n. (pstep c t ^^ n) s = s')"

lemma runs_refl [simp]: "runs c t s s"
  unfolding runs_def by (intro exI [of _ 0]) simp

lemma runs_trans: "runs c t s s' \<Longrightarrow> runs c t s' s'' \<Longrightarrow> runs c t s s''"
  unfolding runs_def using funpow_add [of _ _ "pstep c t"] by (metis comp_apply)

lemma runs_step: "runs c t (pstep c t s) s' \<Longrightarrow> runs c t s s'"
  unfolding runs_def by (metis funpow_Suc_right comp_apply)

lemma runs_Act: "runs c t (k (fst (exec c t a m)), snd (exec c t a m)) s \<Longrightarrow> runs c t (Act a k, m) s"
  by (rule runs_step) simp

lemma runs_Loop: "runs c t (bind b (\<lambda>v. if e v then k v else Loop b e k), m) s \<Longrightarrow> runs c t (Loop b e k, m) s"
  by (rule runs_step) simp

text \<open>A part that returns is followed by the rest of the program.\<close>

lemma runs_bind: "eval n c t p m = Some (v, m') \<Longrightarrow> runs c t (bind p f, m) (f v, m')"
proof (induction n c t p m arbitrary: f rule: eval.induct)
  case (3 n c t a k m)
  then show ?case by (auto intro: runs_Act)
next
  case (4 n c t b e k m)
  have e: "(\<lambda>v. bind (if e v then k v else Loop b e k) f) = (\<lambda>v. if e v then bind (k v) f else Loop b e (\<lambda>v. bind (k v) f))"
    by auto
  have "runs c t (bind b (\<lambda>v. bind (if e v then k v else Loop b e k) f), m) (f v, m')"
    using 4 by (simp only: eval.simps bind_assoc)
  then have "runs c t (Loop b e (\<lambda>v. bind (k v) f), m) (f v, m')" unfolding e by (rule runs_Loop)
  then show ?case by simp
qed auto

text \<open>A run of one tile is an interleaving in which only this tile moves.\<close>

lemma runs_reachable:
  assumes "in_group c t" and "runs c t (ps t, m) (p', m')"
  shows "reachable c (ps, m) (ps(t := p'), m')"
proof -
  obtain n where "(pstep c t ^^ n) (ps t, m) = (p', m')" using assms(2) unfolding runs_def by blast
  then show ?thesis using reachable_tile_steps [OF assms(1), of ps m n] by simp
qed

text \<open>Loads of several words into a local array.\<close>

primrec load_list :: "u32 list \<Rightarrow> (u32 list \<Rightarrow> proc) \<Rightarrow> proc" where
  "load_list [] k = k []"
| "load_list (p # ps) k = Act (Load32 p) (\<lambda>v. load_list ps (\<lambda>vs. k (v # vs)))"

lemma load_list_run: "runs c t (load_list ps k, m) (k (map (\<lambda>p. rd m (eva_to_npa c t p)) ps), m)"
proof (induction ps arbitrary: k)
  case (Cons p ps)
  then show ?case using Cons [of "\<lambda>vs. k (rd m (eva_to_npa c t p) # vs)"]
    unfolding load_list.simps by (intro runs_Act) (simp add: rd_def)
qed simp

lemma bind_load_list: "bind (load_list ps k) f = load_list ps (\<lambda>vs. bind (k vs) f)"
  by (induction ps arbitrary: k) auto

section \<open>Reports\<close>

definition passes :: "cfg \<Rightarrow> tile \<Rightarrow> proc \<Rightarrow> machine \<Rightarrow> bool" where
  "passes c t p m \<longleftrightarrow> (\<exists>m' rest. runs c t (p, m) (bind spin_forever rest, m') \<and> io m' \<noteq> []
     \<and> last (io m') = (IO_X_INDEX c, 0xEAD0, tile_word t))"

definition fails :: "cfg \<Rightarrow> tile \<Rightarrow> proc \<Rightarrow> machine \<Rightarrow> bool" where
  "fails c t p m \<longleftrightarrow> (\<exists>m' rest. runs c t (p, m) (bind spin_forever rest, m') \<and> io m' \<noteq> []
     \<and> last (io m') = (IO_X_INDEX c, 0xEAD8, tile_word t))"

lemma passes_finish: "io_fits c \<Longrightarrow> passes c t (seq (bsg_finish c t) p) m"
  unfolding passes_def bsg_finish_def
  by (rule exI, rule exI [of _ "\<lambda>_. p"], rule conjI, simp, rule runs_Act, simp, rule runs_refl)
    (simp add: eva_io io_log_def)

lemma fails_fail: "io_fits c \<Longrightarrow> fails c t (seq (bsg_fail c t) p) m"
  unfolding fails_def bsg_fail_def
  by (rule exI, rule exI [of _ "\<lambda>_. p"], rule conjI, simp, rule runs_Act, simp, rule runs_refl)
    (simp add: eva_io io_log_def)

lemma passes_runs: "runs c t (p, m) (p', m') \<Longrightarrow> passes c t p' m' \<Longrightarrow> passes c t p m"
  unfolding passes_def by (blast intro: runs_trans)

lemma fails_runs: "runs c t (p, m) (p', m') \<Longrightarrow> fails c t p' m' \<Longrightarrow> fails c t p m"
  unfolding fails_def by (blast intro: runs_trans)

section \<open>Printing\<close>

text \<open>
  A call of \<open>bsg_printf\<close> as a statement. Where the call has no defined behaviour (arguments that do not fit the format, a text
  that overruns the buffer), the program never comes to an end in the model, so that nothing is proved of what follows the call.
\<close>

definition do_printf :: "cfg \<Rightarrow> string \<Rightarrow> varg list \<Rightarrow> proc" where
  "do_printf c fmt args = (case bsg_printf c fmt args of Inl _ \<Rightarrow> spin_forever | Inr p \<Rightarrow> p)"

lemma send_chars_run:
  assumes "io_fits c"
  shows "\<exists>n m'. eval n c t (for_each s (uart_send_char c)) m = Some (0, m') \<and> console c m' = console c m @ codes s
    \<and> rd m' (lock_npa c) = rd m (lock_npa c)"
proof (induction s arbitrary: m)
  case Nil
  show ?case by (intro exI [of _ "Suc 0"]) (simp add: codes_def)
next
  case (Cons ch s)
  obtain n m' where "eval n c t (for_each s (uart_send_char c)) (put_char c ch m) = Some (0, m')"
    "console c m' = console c (put_char c ch m) @ codes s" "rd m' (lock_npa c) = rd (put_char c ch m) (lock_npa c)"
    using Cons.IH by blast
  moreover have "exec c t (Store8 (bsg_remote_ptr_io c (IO_X_INDEX c) 0xEADC) (of_nat (of_char ch))) m = (0, put_char c ch m)"
    by (simp add: eva_io [OF assms] put_char_def Let_def)
  then have "eval (Suc n) c t (for_each (ch # s) (uart_send_char c)) m
    = eval n c t (for_each s (uart_send_char c)) (put_char c ch m)"
    by (simp add: uart_send_char_def bsg_putchar_def del: exec.simps)
  ultimately show ?case
    using console_put(2,3) [OF assms] codes_append [of "[ch]" s] by (intro exI [of _ "Suc n"] exI [of _ m']) simp
qed

text \<open>With the I/O lock free, a tile that runs alone prints its text and frees the lock.\<close>

lemma send_locked_run:
  assumes "io_fits c" and "rd m (lock_npa c) = 0"
  shows "\<exists>n m'. eval n c t (send_locked c s) m = Some (of_nat (length s), m')
    \<and> console c m' = console c m @ codes s \<and> rd m' (lock_npa c) = 0"
proof -
  let ?m1 = "put32 c (lock_npa c) 1 m"
  have 1: "eval 3 c t (bsg_mutex_lock (io_mutex_ptr c)) m = Some (0, ?m1)"
    using bsg_mutex_lock_free [of m c t "io_mutex_ptr c"] assms by (simp add: eva_lock)
  obtain n m2 where 2: "eval n c t (for_each s (uart_send_char c)) ?m1 = Some (0, m2)"
    "console c m2 = console c ?m1 @ codes s"
    using send_chars_run [OF assms(1)] by blast
  have 3: "eval 2 c t (bsg_mutex_unlock (io_mutex_ptr c)) m2 = Some (0, put32 c (lock_npa c) 0 m2)"
    by (simp add: bsg_mutex_unlock_def numeral_2_eq_2 Let_def eva_lock [OF assms(1)])
  have "eval (Suc 0) c t (Ret (of_nat (length s))) (put32 c (lock_npa c) 0 m2)
    = Some (of_nat (length s), put32 c (lock_npa c) 0 m2)" by simp
  from eval_bind [OF 1 eval_bind [OF 2(1) eval_bind [OF 3 this]]]
  have "eval (3 + (n + (2 + Suc 0))) c t (send_locked c s) m = Some (of_nat (length s), put32 c (lock_npa c) 0 m2)"
    unfolding send_locked_def .
  then show ?thesis using 2(2) console_put(1) [OF assms(1)] by (intro exI [of _ "3 + (n + (2 + Suc 0))"] exI) auto
qed

lemma do_printf_run:
  assumes "io_fits c" and "rd m (lock_npa c) = 0" and "ee_vsprintf fmt args = Inr s" and "length s < 256"
  shows "\<exists>m'. runs c t (seq (do_printf c fmt args) p, m) (p, m') \<and> console c m' = console c m @ codes (c_string s)
    \<and> rd m' (lock_npa c) = 0"
  using send_locked_run [OF assms(1,2), of t "c_string s"] assms(3,4) runs_bind [where f = "\<lambda>_. p"]
  by (fastforce simp: do_printf_def bsg_printf_def)

end
