(* ===== verification/MCS_Mutex.thy ===== *)
theory MCS_Mutex
  imports MCS_Queue Tile_Group_Barrier Programs
begin

text \<open>
  \<open>bsg_mcs_mutex.hpp\<close>: the queue lock, and \<open>spmd/bsg_mcs_mutex_test\<close>, in which every tile increments a shared
  counter under it. Every memory operation of the code is a step of the system of \<open>MCS_Queue\<close>, or does not concern
  the queue; mutual exclusion, the count and progress follow for any number of tiles and rounds.
\<close>

section \<open>The code\<close>

text \<open>
  \<open>bsg_mcs_mutex_node\<close>: \<open>unlocked\<close> is the first word, \<open>next\<close> the second. \<open>std::atomic::exchange\<close> is an
  \<open>amoswap\<close>; its memory order has no meaning in an interleaving of memory operations.
\<close>

definition node_unlocked :: "u32 \<Rightarrow> u32" where "node_unlocked p = p"
definition node_next :: "u32 \<Rightarrow> u32" where "node_next p = p + 4"

definition bsg_mcs_mutex_acquire :: "u32 \<Rightarrow> u32 \<Rightarrow> u32 \<Rightarrow> proc" where
  "bsg_mcs_mutex_acquire mtx lcl lcl_as_glbl =
     Act (Store32 (node_next lcl) 0) (\<lambda>_. Act (Store32 (node_unlocked lcl) 0) (\<lambda>_.
       Act (AmoSwap mtx lcl_as_glbl) (\<lambda>pred.
         if pred \<noteq> 0 then
           Act (Store32 (node_next pred) lcl_as_glbl) (\<lambda>_. bsg_wait_local_int_asm (node_unlocked lcl) 1)
         else Ret 0)))"

definition bsg_mcs_mutex_release :: "u32 \<Rightarrow> u32 \<Rightarrow> u32 \<Rightarrow> proc" where
  "bsg_mcs_mutex_release mtx lcl lcl_as_glbl =
     Act (Load32 (node_next lcl)) (\<lambda>nxt. if nxt \<noteq> 0 then
         Act Fence (\<lambda>_. Act (Load32 (node_next lcl)) (\<lambda>n. Act (Store32 (node_unlocked n) 1) (\<lambda>_. Ret 0)))
       else Act (AmoSwap mtx 0) (\<lambda>vic_tail. if vic_tail = lcl_as_glbl then Ret 0
         else Act (AmoSwap mtx vic_tail) (\<lambda>usurper.
           Loop (Act (Load32 (node_next lcl)) Ret) (\<lambda>n. n \<noteq> 0) (\<lambda>_.
             if usurper = 0 then Act (Load32 (node_next lcl)) (\<lambda>n. Act (Store32 (node_unlocked n) 1) (\<lambda>_. Ret 0))
             else Act (Load32 (node_next lcl)) (\<lambda>n. Act (Store32 (node_next usurper) n) (\<lambda>_. Ret 0))))))"

text \<open>The loop of \<open>main\<close>; \<open>lcl\<close> is the address of the node on the stack, the same on every tile.\<close>

definition lcl_as_glbl :: "u32 \<Rightarrow> tile \<Rightarrow> u32" where
  "lcl_as_glbl lcl t = bsg_tile_group_remote_ptr (fst t) (snd t) lcl"

definition mcs_round :: "u32 \<Rightarrow> u32 \<Rightarrow> u32 \<Rightarrow> tile \<Rightarrow> proc" where
  "mcs_round mtx dat lcl t =
     seq (bsg_mcs_mutex_acquire mtx lcl (lcl_as_glbl lcl t))
       (Act (Load32 dat) (\<lambda>v. Act (Store32 dat (v + 1)) (\<lambda>_.
         bsg_mcs_mutex_release mtx lcl (lcl_as_glbl lcl t))))"

definition mcs_loop :: "u32 \<Rightarrow> u32 \<Rightarrow> u32 \<Rightarrow> tile \<Rightarrow> nat \<Rightarrow> proc" where
  "mcs_loop mtx dat lcl t iters = for_each (replicate iters ()) (\<lambda>_. mcs_round mtx dat lcl t)"

definition mcs_test_report :: "cfg \<Rightarrow> tile \<Rightarrow> u32 \<Rightarrow> nat \<Rightarrow> proc" where
  "mcs_test_report c t dat iters =
     (if fst t = 0 \<and> snd t = 0 then
        Act (Load32 dat) (\<lambda>v. seq (bsg_print_int c v) (Act (Load32 dat) (\<lambda>v.
          if v \<noteq> of_nat iters * bsg_tiles_X c * bsg_tiles_Y c then bsg_fail c t else bsg_finish c t)))
      else Ret 0)"

definition mcs_test_main :: "cfg \<Rightarrow> tile \<Rightarrow> bsg_row_barrier \<Rightarrow> bsg_col_barrier \<Rightarrow> u32 \<Rightarrow> u32 \<Rightarrow> u32 \<Rightarrow> nat \<Rightarrow> proc" where
  "mcs_test_main c t r_barrier c_barrier mtx dat lcl iters =
     seq (mcs_loop mtx dat lcl t iters)
       (seq (bsg_tile_group_barrier (unat (bsg_tiles_X c)) (unat (bsg_tiles_Y c)) t r_barrier c_barrier)
         (seq (mcs_test_report c t dat iters) spin_forever))"

section \<open>Control states\<close>

text \<open>
  \<open>Todo k\<close>: \<open>k\<close> rounds to go; in the other states the first number is the rounds after this one, and the
  tiles are the owners of the nodes that the program's pointers point to.
\<close>

datatype mcs_state = Todo nat | Clear nat | Join nat | Tell nat tile | Sleep nat | Look nat | Look_aq nat
  | Rd nat | Wr nat u32 | Rel nat | Fenced nat | Get nat | Give nat tile | Close nat | Open nat tile
  | Await nat "tile option" | Poll nat "tile option" | Fetch nat "tile option" | Hand nat "tile option" tile

definition node_ptr :: "u32 \<Rightarrow> tile option \<Rightarrow> u32" where
  "node_ptr lcl w = (case w of None \<Rightarrow> 0 | Some t \<Rightarrow> lcl_as_glbl lcl t)"

definition node_owner :: "u32 \<Rightarrow> tile option" where
  "node_owner w = (if w = 0 then None else Some (take_bit 6 (drop_bit 18 w), take_bit 5 (drop_bit 24 w)))"

text \<open>The rests of the two functions, from each point on, with what follows them.\<close>

definition mcs_hand :: "u32 \<Rightarrow> u32 \<Rightarrow> proc \<Rightarrow> proc" where
  "mcs_hand usurper n k = Act (if usurper = 0 then Store32 n 1 else Store32 (usurper + 4) n) (\<lambda>_. k)"

definition mcs_fetch :: "u32 \<Rightarrow> u32 \<Rightarrow> proc \<Rightarrow> proc" where
  "mcs_fetch lcl usurper k = Act (Load32 (lcl + 4)) (\<lambda>n. mcs_hand usurper n k)"

definition mcs_await :: "u32 \<Rightarrow> u32 \<Rightarrow> proc \<Rightarrow> proc" where
  "mcs_await lcl usurper k = Loop (Act (Load32 (lcl + 4)) Ret) (\<lambda>n. n \<noteq> 0) (\<lambda>_. mcs_fetch lcl usurper k)"

definition mcs_open :: "u32 \<Rightarrow> u32 \<Rightarrow> u32 \<Rightarrow> proc \<Rightarrow> proc" where
  "mcs_open mtx lcl vic k = Act (AmoSwap mtx vic) (\<lambda>usurper. mcs_await lcl usurper k)"

definition mcs_close :: "u32 \<Rightarrow> u32 \<Rightarrow> u32 \<Rightarrow> proc \<Rightarrow> proc" where
  "mcs_close mtx lcl g k = Act (AmoSwap mtx 0) (\<lambda>vic. if vic = g then k else mcs_open mtx lcl vic k)"

definition mcs_get :: "u32 \<Rightarrow> proc \<Rightarrow> proc" where
  "mcs_get lcl k = Act (Load32 (lcl + 4)) (\<lambda>n. Act (Store32 n 1) (\<lambda>_. k))"

definition mcs_rel :: "u32 \<Rightarrow> u32 \<Rightarrow> u32 \<Rightarrow> proc \<Rightarrow> proc" where
  "mcs_rel mtx lcl g k = Act (Load32 (lcl + 4))
     (\<lambda>nxt. if nxt \<noteq> 0 then Act Fence (\<lambda>_. mcs_get lcl k) else mcs_close mtx lcl g k)"

definition mcs_crit :: "u32 \<Rightarrow> u32 \<Rightarrow> u32 \<Rightarrow> u32 \<Rightarrow> proc \<Rightarrow> proc" where
  "mcs_crit mtx dat lcl g k = Act (Load32 dat) (\<lambda>v. Act (Store32 dat (v + 1)) (\<lambda>_. mcs_rel mtx lcl g k))"

definition mcs_join :: "u32 \<Rightarrow> u32 \<Rightarrow> u32 \<Rightarrow> u32 \<Rightarrow> proc \<Rightarrow> proc" where
  "mcs_join mtx dat lcl g k = Act (AmoSwap mtx g) (\<lambda>pred. if pred \<noteq> 0
     then Act (Store32 (pred + 4) g) (\<lambda>_. wait_then lcl 1 (mcs_crit mtx dat lcl g k)) else mcs_crit mtx dat lcl g k)"

fun mcs_prog :: "u32 \<Rightarrow> u32 \<Rightarrow> u32 \<Rightarrow> tile \<Rightarrow> mcs_state \<Rightarrow> proc" where
  "mcs_prog mtx dat lcl t (Todo k) = mcs_loop mtx dat lcl t k"
| "mcs_prog mtx dat lcl t (Clear j) =
     Act (Store32 lcl 0) (\<lambda>_. mcs_join mtx dat lcl (lcl_as_glbl lcl t) (mcs_loop mtx dat lcl t j))"
| "mcs_prog mtx dat lcl t (Join j) = mcs_join mtx dat lcl (lcl_as_glbl lcl t) (mcs_loop mtx dat lcl t j)"
| "mcs_prog mtx dat lcl t (Tell j p) = Act (Store32 (lcl_as_glbl lcl p + 4) (lcl_as_glbl lcl t))
     (\<lambda>_. wait_then lcl 1 (mcs_crit mtx dat lcl (lcl_as_glbl lcl t) (mcs_loop mtx dat lcl t j)))"
| "mcs_prog mtx dat lcl t (Sleep j) = wait_then lcl 1 (mcs_crit mtx dat lcl (lcl_as_glbl lcl t) (mcs_loop mtx dat lcl t j))"
| "mcs_prog mtx dat lcl t (Look j) = Act (Lr lcl) (\<lambda>v. if v = 1
     then mcs_crit mtx dat lcl (lcl_as_glbl lcl t) (mcs_loop mtx dat lcl t j)
     else Act (Lr_aq lcl) (\<lambda>v. if v = 1
       then mcs_crit mtx dat lcl (lcl_as_glbl lcl t) (mcs_loop mtx dat lcl t j)
       else wait_then lcl 1 (mcs_crit mtx dat lcl (lcl_as_glbl lcl t) (mcs_loop mtx dat lcl t j))))"
| "mcs_prog mtx dat lcl t (Look_aq j) = Act (Lr_aq lcl) (\<lambda>v. if v = 1
     then mcs_crit mtx dat lcl (lcl_as_glbl lcl t) (mcs_loop mtx dat lcl t j)
     else wait_then lcl 1 (mcs_crit mtx dat lcl (lcl_as_glbl lcl t) (mcs_loop mtx dat lcl t j)))"
| "mcs_prog mtx dat lcl t (Rd j) = mcs_crit mtx dat lcl (lcl_as_glbl lcl t) (mcs_loop mtx dat lcl t j)"
| "mcs_prog mtx dat lcl t (Wr j v) =
     Act (Store32 dat (v + 1)) (\<lambda>_. mcs_rel mtx lcl (lcl_as_glbl lcl t) (mcs_loop mtx dat lcl t j))"
| "mcs_prog mtx dat lcl t (Rel j) = mcs_rel mtx lcl (lcl_as_glbl lcl t) (mcs_loop mtx dat lcl t j)"
| "mcs_prog mtx dat lcl t (Fenced j) = Act Fence (\<lambda>_. mcs_get lcl (mcs_loop mtx dat lcl t j))"
| "mcs_prog mtx dat lcl t (Get j) = mcs_get lcl (mcs_loop mtx dat lcl t j)"
| "mcs_prog mtx dat lcl t (Give j n) = Act (Store32 (lcl_as_glbl lcl n) 1) (\<lambda>_. mcs_loop mtx dat lcl t j)"
| "mcs_prog mtx dat lcl t (Close j) = mcs_close mtx lcl (lcl_as_glbl lcl t) (mcs_loop mtx dat lcl t j)"
| "mcs_prog mtx dat lcl t (Open j v) = mcs_open mtx lcl (lcl_as_glbl lcl v) (mcs_loop mtx dat lcl t j)"
| "mcs_prog mtx dat lcl t (Await j u) = mcs_await lcl (node_ptr lcl u) (mcs_loop mtx dat lcl t j)"
| "mcs_prog mtx dat lcl t (Poll j u) = Act (Load32 (lcl + 4)) (\<lambda>n. if n \<noteq> 0
     then mcs_fetch lcl (node_ptr lcl u) (mcs_loop mtx dat lcl t j)
     else mcs_await lcl (node_ptr lcl u) (mcs_loop mtx dat lcl t j))"
| "mcs_prog mtx dat lcl t (Fetch j u) = mcs_fetch lcl (node_ptr lcl u) (mcs_loop mtx dat lcl t j)"
| "mcs_prog mtx dat lcl t (Hand j u n) = mcs_hand (node_ptr lcl u) (lcl_as_glbl lcl n) (mcs_loop mtx dat lcl t j)"

datatype mcs_cell = MTail | MData | MFlag tile | MNext tile

fun mcs_loc :: "cfg \<Rightarrow> u32 \<Rightarrow> u32 \<Rightarrow> u32 \<Rightarrow> mcs_cell \<Rightarrow> npa" where
  "mcs_loc c a d lcl MTail = Dram a"
| "mcs_loc c a d lcl MData = Dram d"
| "mcs_loc c a d lcl (MFlag t) = tile_npa c t lcl"
| "mcs_loc c a d lcl (MNext t) = tile_npa c t (lcl + 4)"

definition mcs_cells :: "cfg \<Rightarrow> mcs_cell set" where
  "mcs_cells c = {MTail, MData} \<union> MFlag ` group_tiles c \<union> MNext ` group_tiles c"

text \<open>The lock at offset \<open>a\<close> of the DRAM, the counter at \<open>d\<close>, the node at \<open>lcl\<close> on every tile.\<close>

definition mcs_layout :: "cfg \<Rightarrow> u32 \<Rightarrow> u32 \<Rightarrow> u32 \<Rightarrow> bool" where
  "mcs_layout c a d lcl \<longleftrightarrow> group_fits c \<and> unat lcl + 8 \<le> 2 ^ 18 \<and> unat a + 4 \<le> 2 ^ 31 \<and> unat d + 4 \<le> 2 ^ 31
     \<and> (unat a + 4 \<le> unat d \<or> unat d + 4 \<le> unat a)"

fun mcs_next :: "cfg \<Rightarrow> u32 \<Rightarrow> u32 \<Rightarrow> u32 \<Rightarrow> tile \<Rightarrow> mcs_state \<Rightarrow> machine \<Rightarrow> mcs_state \<times> machine" where
  "mcs_next c a d lcl t (Todo 0) m = (Todo 0, m)"
| "mcs_next c a d lcl t (Todo (Suc j)) m = (Clear j, put32 c (mcs_loc c a d lcl (MNext t)) 0 m)"
| "mcs_next c a d lcl t (Clear j) m = (Join j, put32 c (mcs_loc c a d lcl (MFlag t)) 0 m)"
| "mcs_next c a d lcl t (Join j) m =
     (case node_owner (rd m (mcs_loc c a d lcl MTail)) of None \<Rightarrow> Rd j | Some p \<Rightarrow> Tell j p,
      put32 c (mcs_loc c a d lcl MTail) (lcl_as_glbl lcl t) m)"
| "mcs_next c a d lcl t (Tell j p) m = (Sleep j, put32 c (mcs_loc c a d lcl (MNext p)) (lcl_as_glbl lcl t) m)"
| "mcs_next c a d lcl t (Sleep j) m = (Look j, m)"
| "mcs_next c a d lcl t (Look j) m = (if rd m (mcs_loc c a d lcl (MFlag t)) = 1 then Rd j else Look_aq j, m)"
| "mcs_next c a d lcl t (Look_aq j) m = (if rd m (mcs_loc c a d lcl (MFlag t)) = 1 then Rd j else Sleep j, m)"
| "mcs_next c a d lcl t (Rd j) m = (Wr j (rd m (mcs_loc c a d lcl MData)), m)"
| "mcs_next c a d lcl t (Wr j v) m = (Rel j, put32 c (mcs_loc c a d lcl MData) (v + 1) m)"
| "mcs_next c a d lcl t (Rel j) m = (if rd m (mcs_loc c a d lcl (MNext t)) \<noteq> 0 then Fenced j else Close j, m)"
| "mcs_next c a d lcl t (Fenced j) m = (Get j, m)"
| "mcs_next c a d lcl t (Get j) m = (Give j (the (node_owner (rd m (mcs_loc c a d lcl (MNext t))))), m)"
| "mcs_next c a d lcl t (Give j n) m = (Todo j, put32 c (mcs_loc c a d lcl (MFlag n)) 1 m)"
| "mcs_next c a d lcl t (Close j) m =
     (if rd m (mcs_loc c a d lcl MTail) = lcl_as_glbl lcl t then Todo j
      else Open j (the (node_owner (rd m (mcs_loc c a d lcl MTail)))), put32 c (mcs_loc c a d lcl MTail) 0 m)"
| "mcs_next c a d lcl t (Open j v) m =
     (Await j (node_owner (rd m (mcs_loc c a d lcl MTail))), put32 c (mcs_loc c a d lcl MTail) (lcl_as_glbl lcl v) m)"
| "mcs_next c a d lcl t (Await j u) m = (Poll j u, m)"
| "mcs_next c a d lcl t (Poll j u) m = (if rd m (mcs_loc c a d lcl (MNext t)) \<noteq> 0 then Fetch j u else Await j u, m)"
| "mcs_next c a d lcl t (Fetch j u) m = (Hand j u (the (node_owner (rd m (mcs_loc c a d lcl (MNext t))))), m)"
| "mcs_next c a d lcl t (Hand j u n) m = (Todo j, case u of
      None \<Rightarrow> put32 c (mcs_loc c a d lcl (MFlag n)) 1 m
    | Some p \<Rightarrow> put32 c (mcs_loc c a d lcl (MNext p)) (lcl_as_glbl lcl n) m)"

section \<open>Pointers to nodes\<close>

lemma lcl_as_glbl_shape: "lcl_as_glbl lcl t = bsg_remote_ptr (fst t) (snd t) lcl"
  by (simp add: lcl_as_glbl_def bsg_tile_group_remote_ptr_def bsg_remote_ptr_def)

lemma node_owner_ptr:
  assumes "mcs_layout c a d lcl" and "in_group c t"
  shows "node_owner (lcl_as_glbl lcl t) = Some t" and "lcl_as_glbl lcl t \<noteq> 0"
proof -
  have b: "unat (fst t) < 64" "unat (snd t) < 32" "unat lcl < 2 ^ 18"
    using assms by (auto simp: mcs_layout_def group_fits_def in_group_def word_less_nat_alt)
  note f = eva_fields [of "fst t" 6 "snd t" 5 lcl 18 24 29, folded bsg_remote_ptr_shape lcl_as_glbl_shape]
  have "drop_bit 29 (lcl_as_glbl lcl t) = 1" using f b by (simp add: lcl_as_glbl_shape)
  then show "lcl_as_glbl lcl t \<noteq> 0" by auto
  then show "node_owner (lcl_as_glbl lcl t) = Some t" using f b unfolding node_owner_def by (simp add: lcl_as_glbl_shape)
qed

lemma node_owner_0 [simp]: "node_owner 0 = None" "node_owner w = None \<longleftrightarrow> w = 0"
  by (simp_all add: node_owner_def)

lemma mcs_eva:
  assumes L: "mcs_layout c a d lcl" and t: "in_group c t"
  shows "eva_to_npa c t (bsg_dram_ptr a) = mcs_loc c a d lcl MTail"
    and "eva_to_npa c t (bsg_dram_ptr d) = mcs_loc c a d lcl MData"
    and "eva_to_npa c t lcl = mcs_loc c a d lcl (MFlag t)"
    and "eva_to_npa c t (lcl + 4) = mcs_loc c a d lcl (MNext t)"
    and "in_group c u \<Longrightarrow> eva_to_npa c t (lcl_as_glbl lcl u) = mcs_loc c a d lcl (MFlag u)"
    and "in_group c u \<Longrightarrow> eva_to_npa c t (lcl_as_glbl lcl u + 4) = mcs_loc c a d lcl (MNext u)"
proof -
  have b: "unat a < 2 ^ 31" "unat d < 2 ^ 31" "unat lcl < 2 ^ 18" "unat (lcl + 4) < 2 ^ 18" "group_fits c"
    "unat lcl + unat (4 :: u32) < 2 ^ 18"
    using L by (auto simp: mcs_layout_def unat_word_ariths)
  show "eva_to_npa c t (bsg_dram_ptr a) = mcs_loc c a d lcl MTail" "eva_to_npa c t (bsg_dram_ptr d) = mcs_loc c a d lcl MData"
    "eva_to_npa c t lcl = mcs_loc c a d lcl (MFlag t)" "eva_to_npa c t (lcl + 4) = mcs_loc c a d lcl (MNext t)"
    using b eva_dram [of a c t] eva_dram [of d c t] eva_local [of lcl c t] eva_local [of "lcl + 4" c t] by simp_all
  show "eva_to_npa c t (lcl_as_glbl lcl u) = mcs_loc c a d lcl (MFlag u)"
    "eva_to_npa c t (lcl_as_glbl lcl u + 4) = mcs_loc c a d lcl (MNext u)" if "in_group c u"
    using b that eva_remote_group [of c "fst u" "snd u"]
    by (simp_all add: lcl_as_glbl_shape bsg_remote_ptr_offset)
qed

lemma mcs_loop_0: "mcs_loop mtx dat lcl t 0 = Ret 0"
  by (simp add: mcs_loop_def)

lemma mcs_loop_Suc:
  "mcs_loop mtx dat lcl t (Suc j) = Act (Store32 (lcl + 4) 0) (\<lambda>_. Act (Store32 lcl 0) (\<lambda>_.
     mcs_join mtx dat lcl (lcl_as_glbl lcl t) (mcs_loop mtx dat lcl t j)))"
proof -
  have "seq (bsg_mcs_mutex_release mtx lcl g) k = mcs_rel mtx lcl g k" for g k
    by (auto simp: bsg_mcs_mutex_release_def mcs_rel_def mcs_get_def mcs_close_def mcs_open_def mcs_await_def mcs_fetch_def
        mcs_hand_def node_next_def node_unlocked_def fun_eq_iff)
  then show ?thesis
    by (auto simp: mcs_loop_def mcs_round_def bsg_mcs_mutex_acquire_def mcs_join_def mcs_crit_def node_next_def
        node_unlocked_def bsg_wait_local_int_asm_def wait_then_def fun_eq_iff)
qed

section \<open>The code takes the steps\<close>

definition node_valid :: "cfg \<Rightarrow> u32 \<Rightarrow> u32 \<Rightarrow> bool" where
  "node_valid c lcl w \<longleftrightarrow> (\<forall>u. node_owner w = Some u \<longrightarrow> in_group c u \<and> w = lcl_as_glbl lcl u)"

text \<open>What a control state says of the tile's own node and of the counter: \<open>nx\<close>, \<open>fl\<close>, \<open>dv\<close> are their values.\<close>

fun mcs_ctl :: "cfg \<Rightarrow> u32 \<Rightarrow> u32 \<Rightarrow> u32 \<Rightarrow> u32 \<Rightarrow> mcs_state \<Rightarrow> bool" where
  "mcs_ctl c lcl nx fl dv (Todo k) \<longleftrightarrow> True"
| "mcs_ctl c lcl nx fl dv (Clear j) \<longleftrightarrow> nx = 0"
| "mcs_ctl c lcl nx fl dv (Join j) \<longleftrightarrow> nx = 0 \<and> fl = 0"
| "mcs_ctl c lcl nx fl dv (Tell j p) \<longleftrightarrow> node_valid c lcl nx \<and> in_group c p"
| "mcs_ctl c lcl nx fl dv (Wr j v) \<longleftrightarrow> node_valid c lcl nx \<and> v = dv"
| "mcs_ctl c lcl nx fl dv (Fenced j) \<longleftrightarrow> node_valid c lcl nx \<and> nx \<noteq> 0"
| "mcs_ctl c lcl nx fl dv (Get j) \<longleftrightarrow> node_valid c lcl nx \<and> nx \<noteq> 0"
| "mcs_ctl c lcl nx fl dv (Give j n) \<longleftrightarrow> in_group c n \<and> nx = lcl_as_glbl lcl n"
| "mcs_ctl c lcl nx fl dv (Open j v) \<longleftrightarrow> node_valid c lcl nx \<and> in_group c v"
| "mcs_ctl c lcl nx fl dv (Await j u) \<longleftrightarrow> node_valid c lcl nx \<and> (\<forall>x. u = Some x \<longrightarrow> in_group c x)"
| "mcs_ctl c lcl nx fl dv (Poll j u) \<longleftrightarrow> node_valid c lcl nx \<and> (\<forall>x. u = Some x \<longrightarrow> in_group c x)"
| "mcs_ctl c lcl nx fl dv (Fetch j u) \<longleftrightarrow> node_valid c lcl nx \<and> (\<forall>x. u = Some x \<longrightarrow> in_group c x) \<and> nx \<noteq> 0"
| "mcs_ctl c lcl nx fl dv (Hand j u n) \<longleftrightarrow> in_group c n \<and> nx = lcl_as_glbl lcl n \<and> (\<forall>x. u = Some x \<longrightarrow> in_group c x)"
| "mcs_ctl c lcl nx fl dv q \<longleftrightarrow> node_valid c lcl nx"

lemma valid_owner:
  assumes "node_valid c lcl w" and "w \<noteq> 0"
  obtains u where "node_owner w = Some u" and "in_group c u" and "w = lcl_as_glbl lcl u"
  using assms by (cases "node_owner w") (auto simp: node_valid_def)

lemma valid_ptr: "mcs_layout c a d lcl \<Longrightarrow> in_group c t \<Longrightarrow> node_valid c lcl (lcl_as_glbl lcl t)"
  using node_owner_ptr by (simp add: node_valid_def)

lemma valid_0 [simp]: "node_valid c lcl 0"
  by (simp add: node_valid_def)

lemmas mcs_parts = mcs_join_def mcs_crit_def mcs_rel_def mcs_get_def mcs_close_def mcs_open_def mcs_fetch_def mcs_hand_def

lemma mcs_code_step:
  assumes L: "mcs_layout c a d lcl" and t: "in_group c t" and V: "node_valid c lcl (rd m (mcs_loc c a d lcl MTail))"
    and C: "mcs_ctl c lcl (rd m (mcs_loc c a d lcl (MNext t))) (rd m (mcs_loc c a d lcl (MFlag t))) dv q"
    and T: "\<And>j. q = Close j \<Longrightarrow> rd m (mcs_loc c a d lcl MTail) \<noteq> 0"
  shows "pstep c t (mcs_prog (bsg_dram_ptr a) (bsg_dram_ptr d) lcl t q, m)
    = (mcs_prog (bsg_dram_ptr a) (bsg_dram_ptr d) lcl t (fst (mcs_next c a d lcl t q m)), snd (mcs_next c a d lcl t q m))"
proof -
  note e = mcs_eva [OF L t] and p = node_owner_ptr [OF L]
  have ld: "load32 (mem m) P = rd m P" for P by (simp add: rd_def)
  show ?thesis
  proof (cases q)
    case (Todo k)
    then show ?thesis using e by (cases k) (simp_all add: mcs_loop_0 mcs_loop_Suc)
  next
    case (Join j)
    then show ?thesis using e V p
      by (cases "node_owner (rd m (mcs_loc c a d lcl MTail))")
        (auto simp: mcs_join_def Let_def ld node_valid_def)
  next
    case (Close j)
    show ?thesis
    proof (cases "rd m (mcs_loc c a d lcl MTail) = lcl_as_glbl lcl t")
      case True
      then show ?thesis using Close e by (simp add: mcs_close_def Let_def ld)
    next
      case False
      then show ?thesis using Close e V T
        by (cases "node_owner (rd m (mcs_loc c a d lcl MTail))") (auto simp: mcs_close_def Let_def ld node_valid_def)
    qed
  next
    case (Open j v)
    then show ?thesis using e V
      by (cases "node_owner (rd m (mcs_loc c a d lcl MTail))")
        (auto simp: mcs_open_def Let_def ld node_valid_def node_ptr_def)
  next
    case (Get j)
    then have "node_valid c lcl (rd m (mcs_loc c a d lcl (MNext t)))" "rd m (mcs_loc c a d lcl (MNext t)) \<noteq> 0" using C by auto
    then obtain u where "node_owner (rd m (mcs_loc c a d lcl (MNext t))) = Some u" "rd m (mcs_loc c a d lcl (MNext t)) = lcl_as_glbl lcl u"
      by (rule valid_owner)
    then show ?thesis using Get e by (simp add: mcs_get_def ld)
  next
    case (Fetch j u)
    then have "node_valid c lcl (rd m (mcs_loc c a d lcl (MNext t)))" "rd m (mcs_loc c a d lcl (MNext t)) \<noteq> 0" using C by auto
    then obtain u where "node_owner (rd m (mcs_loc c a d lcl (MNext t))) = Some u" "rd m (mcs_loc c a d lcl (MNext t)) = lcl_as_glbl lcl u"
      by (rule valid_owner)
    then show ?thesis using Fetch e by (simp add: mcs_fetch_def ld)
  next
    case (Hand j u n)
    then show ?thesis using e C p by (cases u) (auto simp: mcs_hand_def node_ptr_def)
  next
    case (Await j u)
    then show ?thesis by (auto simp: mcs_await_def fun_eq_iff)
  next
    case (Sleep j)
    then show ?thesis by (simp add: wait_then_step)
  next
    case (Tell j p)
    then show ?thesis using e C by simp
  next
    case (Give j n)
    then show ?thesis using e C by simp
  next
    case (Rel j)
    then show ?thesis using e by (simp add: mcs_rel_def ld)
  next
    case (Rd j)
    then show ?thesis using e by (simp add: mcs_crit_def ld)
  qed (use e in \<open>simp_all add: ld\<close>)
qed

section \<open>The code and the queue\<close>

fun mcs_role :: "mcs_state \<Rightarrow> tile role" where
  "mcs_role (Todo k) = Idle" | "mcs_role (Clear j) = Idle" | "mcs_role (Join j) = Idle"
| "mcs_role (Tell j p) = Joined p"
| "mcs_role (Sleep j) = Waiting" | "mcs_role (Look j) = Waiting" | "mcs_role (Look_aq j) = Waiting"
| "mcs_role (Rd j) = Owner" | "mcs_role (Wr j v) = Owner" | "mcs_role (Rel j) = Owner" | "mcs_role (Fenced j) = Owner"
| "mcs_role (Get j) = Owner" | "mcs_role (Give j n) = Owner" | "mcs_role (Close j) = Owner"
| "mcs_role (Open j v) = Detached v"
| "mcs_role (Await j u) = (case u of None \<Rightarrow> Granter | Some x \<Rightarrow> Relinker x)"
| "mcs_role (Poll j u) = (case u of None \<Rightarrow> Granter | Some x \<Rightarrow> Relinker x)"
| "mcs_role (Fetch j u) = (case u of None \<Rightarrow> Granter | Some x \<Rightarrow> Relinker x)"
| "mcs_role (Hand j u n) = (case u of None \<Rightarrow> Granter | Some x \<Rightarrow> Relinker x)"

declare mcs_loc.simps [simp del]

text \<open>The queue that the memory and the control states stand for.\<close>

definition mcs_abs :: "cfg \<Rightarrow> (mcs_cell \<Rightarrow> npa) \<Rightarrow> (tile \<Rightarrow> mcs_state) \<Rightarrow> machine \<Rightarrow> tile mcs" where
  "mcs_abs c loc qs m = \<lparr>lock_tail = node_owner (rd m (loc MTail)),
     succ_of = (\<lambda>t. if in_group c t then node_owner (rd m (loc (MNext t))) else None),
     told = (\<lambda>t. in_group c t \<and> rd m (loc (MFlag t)) = 1),
     role = (\<lambda>t. if in_group c t then mcs_role (qs t) else Idle)\<rparr>"

lemma mcs_disjoint:
  assumes "mcs_layout c a d lcl"
  shows "disjoint_cells (mcs_loc c a d lcl) (mcs_cells c)"
proof -
  let ?loc = "mcs_loc c a d lcl"
  have g: "group_fits c" using assms by (simp add: mcs_layout_def)
  have b: "unat lcl + 8 \<le> 2 ^ 32" using assms by (simp add: mcs_layout_def)
  have o: "sep4 lcl (lcl + 4)" using b by (intro sep4_far) (auto simp: unat_word_ariths)
  have "sep4 a d" using assms by (intro sep4_far) (auto simp: mcs_layout_def)
  then have ad: "span4 (Dram a) \<inter> span4 (Dram d) = {}" by (auto simp: span4_def sep4_def)
  have de: "span4 (Dram x) \<inter> span4 (tile_npa c t y) = {}" for x t y by (auto simp: span4_def tile_npa_def)
  have ad': "span4 (Dram d) \<inter> span4 (Dram a) = {}" and de': "span4 (tile_npa c t y) \<inter> span4 (Dram x) = {}" for x t y
    using ad de [of x t y] by (simp_all add: Int_commute)
  have tt: "span4 (tile_npa c t x) \<inter> span4 (tile_npa c u y) = {}"
    if "in_group c t" "in_group c u" "t \<noteq> u \<or> sep4 x y" for t u x y using span4_tile_disjoint [OF g that] .
  have "span4 (?loc x) \<inter> span4 (?loc y) = {}" if "x \<in> mcs_cells c" "y \<in> mcs_cells c" "x \<noteq> y" for x y
    using that o sep4_sym [of lcl "lcl + 4"]
    by (cases x; cases y) (simp_all add: mcs_cells_def group_tiles_def image_iff mcs_loc.simps ad ad' de de' tt)
  then show ?thesis by (simp add: disjoint_cells_def)
qed

lemma mcs_cells_mem [simp]:
  "MTail \<in> mcs_cells c" "MData \<in> mcs_cells c" "MFlag t \<in> mcs_cells c \<longleftrightarrow> in_group c t" "MNext t \<in> mcs_cells c \<longleftrightarrow> in_group c t"
  by (auto simp: mcs_cells_def group_tiles_def)

lemma mcs_put:
  "mcs_layout c a d lcl \<Longrightarrow> x \<in> mcs_cells c \<Longrightarrow> y \<in> mcs_cells c \<Longrightarrow>
   rd (put32 c (mcs_loc c a d lcl x) v m) (mcs_loc c a d lcl y) = (if y = x then v else rd m (mcs_loc c a d lcl y))"
  using rd_put_cell [OF mcs_disjoint] by blast

lemma mcs_abs_put:
  assumes "mcs_layout c a d lcl"
  defines "loc \<equiv> mcs_loc c a d lcl"
  shows "mcs_abs c loc qs (put32 c (loc MTail) w m) = (mcs_abs c loc qs m)\<lparr>lock_tail := node_owner w\<rparr>"
    and "mcs_abs c loc qs (put32 c (loc MData) w m) = mcs_abs c loc qs m"
    and "in_group c p \<Longrightarrow> mcs_abs c loc qs (put32 c (loc (MNext p)) w m) =
      (mcs_abs c loc qs m)\<lparr>succ_of := (succ_of (mcs_abs c loc qs m))(p := node_owner w)\<rparr>"
    and "in_group c p \<Longrightarrow> mcs_abs c loc qs (put32 c (loc (MFlag p)) w m) =
      (mcs_abs c loc qs m)\<lparr>told := (told (mcs_abs c loc qs m))(p := (w = 1))\<rparr>"
  unfolding loc_def mcs_abs_def by (simp_all add: mcs_put [OF assms(1)] fun_eq_iff cong: conj_cong del: split_paired_All)

lemma mcs_abs_role:
  "in_group c t \<Longrightarrow> mcs_abs c loc (qs(t := q)) m = (mcs_abs c loc qs m)\<lparr>role := (role (mcs_abs c loc qs m))(t := mcs_role q)\<rparr>"
  by (auto simp: mcs_abs_def fun_eq_iff)

lemma mcs_abs_sel:
  "lock_tail (mcs_abs c loc qs m) = node_owner (rd m (loc MTail))"
  "in_group c t \<Longrightarrow> succ_of (mcs_abs c loc qs m) t = node_owner (rd m (loc (MNext t)))"
  "in_group c t \<Longrightarrow> told (mcs_abs c loc qs m) t \<longleftrightarrow> rd m (loc (MFlag t)) = 1"
  "in_group c t \<Longrightarrow> role (mcs_abs c loc qs m) t = mcs_role (qs t)"
  by (simp_all add: mcs_abs_def)

text \<open>Every memory operation is a step of the queue or leaves it as it is.\<close>

lemma mcs_abs_step:
  assumes L: "mcs_layout c a d lcl" and t: "in_group c t"
    and V: "node_valid c lcl (rd m (mcs_loc c a d lcl MTail))"
    and C: "mcs_ctl c lcl (rd m (mcs_loc c a d lcl (MNext t))) (rd m (mcs_loc c a d lcl (MFlag t))) dv (qs t)"
    and n: "mcs_next c a d lcl t (qs t) m = (q', m')"
  defines "s \<equiv> mcs_abs c (mcs_loc c a d lcl) qs m" and "s' \<equiv> mcs_abs c (mcs_loc c a d lcl) (qs(t := q')) m'"
  shows "s' = s \<or> mcs_step s s'"
proof -
  let ?loc = "mcs_loc c a d lcl"
  note put = mcs_abs_put [OF L] and p = node_owner_ptr [OF L]
  have s': "s' = (mcs_abs c ?loc qs m')\<lparr>role := (role (mcs_abs c ?loc qs m'))(t := mcs_role q')\<rparr>"
    unfolding s'_def by (rule mcs_abs_role [OF t])
  have r: "role s t = mcs_role (qs t)" and nx: "succ_of s t = node_owner (rd m (?loc (MNext t)))"
    and fl: "told s t \<longleftrightarrow> rd m (?loc (MFlag t)) = 1" and tl: "lock_tail s = node_owner (rd m (?loc MTail))"
    unfolding s_def by (simp_all only: mcs_abs_sel t)
  have same: "s' = s" if "m' = m" "mcs_role q' = mcs_role (qs t)"
    unfolding s' that r [symmetric] s_def [symmetric] by simp
  show ?thesis
  proof (cases "qs t")
    case (Todo k)
    show ?thesis
    proof (cases k)
      case 0
      then have "q' = Todo 0" "m' = m" using n Todo by auto
      then show ?thesis using same Todo by simp
    next
      case (Suc j)
      then have "s' = s\<lparr>succ_of := (succ_of s)(t := None), told := (told s)(t := told s t)\<rparr>"
        using n Todo r unfolding s' s_def by (auto simp: put t fun_upd_idem)
      then show ?thesis using prepare [of s t "told s t" None] r Todo by simp
    qed
  next
    case (Clear j)
    then have "s' = s\<lparr>succ_of := (succ_of s)(t := succ_of s t), told := (told s)(t := False)\<rparr>"
      using n r Clear unfolding s' s_def by (auto simp: put t fun_upd_idem)
    then show ?thesis using prepare [of s t False "succ_of s t"] r Clear by simp
  next
    case (Join j)
    then have "s' = s\<lparr>lock_tail := Some t, role := (role s)(t := case lock_tail s of None \<Rightarrow> Owner | Some p \<Rightarrow> Joined p)\<rparr>"
      using n p(1) [OF t] tl unfolding s' s_def by (auto simp: put split: option.splits)
    then show ?thesis using enter [of s t] r nx fl C Join by simp
  next
    case (Tell j p')
    then have "s' = s\<lparr>succ_of := (succ_of s)(p' := Some t), role := (role s)(t := Waiting)\<rparr>"
      using n p(1) [OF t] C unfolding s' s_def by (auto simp: put)
    then show ?thesis using link [of s t p'] r Tell by simp
  next
    case (Look j)
    show ?thesis
    proof (cases "told s t")
      case True
      then have "s' = s\<lparr>role := (role s)(t := Owner)\<rparr>" using n Look fl unfolding s' s_def by auto
      then show ?thesis using granted [of s t] r Look True by simp
    next
      case False
      then show ?thesis using same n Look fl by auto
    qed
  next
    case (Look_aq j)
    show ?thesis
    proof (cases "told s t")
      case True
      then have "s' = s\<lparr>role := (role s)(t := Owner)\<rparr>" using n Look_aq fl unfolding s' s_def by auto
      then show ?thesis using granted [of s t] r Look_aq True by simp
    next
      case False
      then show ?thesis using same n Look_aq fl by auto
    qed
  next
    case (Wr j v)
    then have "s' = s" using n r Wr unfolding s' s_def by (auto simp: put fun_upd_idem)
    then show ?thesis by simp
  next
    case (Rel j)
    then show ?thesis using same n by (auto split: if_splits)
  next
    case (Give j b)
    then have "s' = s\<lparr>told := (told s)(b := True), role := (role s)(t := Idle)\<rparr>"
      using n C unfolding s' s_def by (auto simp: put)
    then show ?thesis using pass [of s t b] r nx p(1) C Give by simp
  next
    case (Close j)
    have w: "lock_tail s = Some t \<longleftrightarrow> rd m (?loc MTail) = lcl_as_glbl lcl t"
      using V p(1) [OF t] unfolding tl node_valid_def by metis
    then have "s' = s\<lparr>lock_tail := None, role := (role s)(t := if lock_tail s = Some t then Idle else Detached (the (lock_tail s)))\<rparr>"
      using n Close tl unfolding s' s_def by (auto simp: put)
    then show ?thesis using detach [of s t] r Close by simp
  next
    case (Open j v)
    then have "s' = s\<lparr>lock_tail := Some v, role := (role s)(t := case lock_tail s of None \<Rightarrow> Granter | Some u \<Rightarrow> Relinker u)\<rparr>"
      using n p(1) [of v] C tl unfolding s' s_def by (auto simp: put)
    then show ?thesis using attach [of s t v] r Open by simp
  next
    case (Hand j u b)
    show ?thesis
    proof (cases u)
      case None
      then have "s' = s\<lparr>told := (told s)(b := True), role := (role s)(t := Idle)\<rparr>"
        using n C Hand unfolding s' s_def by (auto simp: put)
      then show ?thesis using pass [of s t b] r nx p(1) C Hand None by simp
    next
      case (Some x)
      then have "s' = s\<lparr>succ_of := (succ_of s)(x := Some b), role := (role s)(t := Idle)\<rparr>"
        using n C Hand p(1) [of b] unfolding s' s_def by (auto simp: put)
      then show ?thesis using relink [of s t x b] r nx p(1) C Hand Some by simp
    qed
  qed (use same n in \<open>auto split: if_splits\<close>)
qed

section \<open>The invariant of the code\<close>

fun mcs_left :: "mcs_state \<Rightarrow> nat" where
  "mcs_left (Todo k) = k" | "mcs_left (Clear j) = Suc j" | "mcs_left (Join j) = Suc j" | "mcs_left (Tell j p) = Suc j"
| "mcs_left (Sleep j) = Suc j" | "mcs_left (Look j) = Suc j" | "mcs_left (Look_aq j) = Suc j" | "mcs_left (Rd j) = Suc j"
| "mcs_left (Wr j v) = Suc j" | "mcs_left (Rel j) = j" | "mcs_left (Fenced j) = j" | "mcs_left (Get j) = j"
| "mcs_left (Give j n) = j" | "mcs_left (Close j) = j" | "mcs_left (Open j v) = j" | "mcs_left (Await j u) = j"
| "mcs_left (Poll j u) = j" | "mcs_left (Fetch j u) = j" | "mcs_left (Hand j u n) = j"

definition mcs_todo :: "cfg \<Rightarrow> (tile \<Rightarrow> mcs_state) \<Rightarrow> nat" where
  "mcs_todo c qs = (\<Sum>t \<in> group_tiles c. mcs_left (qs t))"

definition mcs_own :: "cfg \<Rightarrow> u32 \<Rightarrow> u32 \<Rightarrow> u32 \<Rightarrow> machine \<Rightarrow> tile \<Rightarrow> mcs_state \<Rightarrow> bool" where
  "mcs_own c a d lcl m t q \<longleftrightarrow> mcs_ctl c lcl (rd m (mcs_loc c a d lcl (MNext t))) (rd m (mcs_loc c a d lcl (MFlag t)))
     (rd m (mcs_loc c a d lcl MData)) q"

definition mcs_ok :: "cfg \<Rightarrow> u32 \<Rightarrow> u32 \<Rightarrow> u32 \<Rightarrow> u32 \<Rightarrow> (tile \<Rightarrow> mcs_state) \<Rightarrow> machine \<Rightarrow> bool" where
  "mcs_ok c a d lcl tot qs m \<longleftrightarrow> mcs_layout c a d lcl
     \<and> mcs_inv (mcs_abs c (mcs_loc c a d lcl) qs m)
     \<and> node_valid c lcl (rd m (mcs_loc c a d lcl MTail))
     \<and> (\<forall>t. in_group c t \<longrightarrow> mcs_own c a d lcl m t (qs t))
     \<and> rd m (mcs_loc c a d lcl MData) + of_nat (mcs_todo c qs) = tot"

lemma mcs_todo_upd:
  "in_group c t \<Longrightarrow> mcs_todo c (qs(t := q)) + mcs_left (qs t) = mcs_todo c qs + mcs_left q"
  unfolding mcs_todo_def by (rule sum_fun_upd) (auto simp: group_tiles_def)

lemma ctl_valid: "mcs_ctl c lcl nx fl dv q \<Longrightarrow> mcs_layout c a d lcl \<Longrightarrow> mcs_role q \<noteq> Idle \<Longrightarrow> node_valid c lcl nx"
  by (cases q) (auto simp: valid_ptr)

lemma ctl_linked:
  "mcs_ctl c lcl 0 fl dv q \<Longrightarrow> mcs_layout c a d lcl \<Longrightarrow> mcs_role q \<noteq> Idle \<Longrightarrow> in_group c n \<Longrightarrow>
   mcs_ctl c lcl (lcl_as_glbl lcl n) fl dv q"
  by (cases q) (auto simp: valid_ptr node_owner_ptr(2) dest: node_owner_ptr(2) [THEN not_sym])

lemma ctl_flagged: "mcs_ctl c lcl nx fl dv q \<Longrightarrow> mcs_role q \<noteq> Idle \<Longrightarrow> mcs_ctl c lcl nx fl' dv q"
  by (cases q) auto

lemma ctl_data: "mcs_ctl c lcl nx fl dv q \<Longrightarrow> mcs_role q \<noteq> Owner \<Longrightarrow> mcs_ctl c lcl nx fl dv' q"
  by (cases q) auto

lemma mcs_own_next:
  assumes L: "mcs_layout c a d lcl" and g: "in_group c t" "in_group c q'" "in_group c t'"
    and t: "mcs_own c a d lcl m t' q" and "t' = q' \<Longrightarrow> rd m (mcs_loc c a d lcl (MNext q')) = 0 \<and> mcs_role q \<noteq> Idle"
    and n: "in_group c n"
  shows "mcs_own c a d lcl (put32 c (mcs_loc c a d lcl (MNext q')) (lcl_as_glbl lcl n) m) t' q"
  using t assms(6) g ctl_linked [OF _ L _ n, of _ _ q] unfolding mcs_own_def by (auto simp: mcs_put [OF L])

lemma mcs_own_flag:
  assumes L: "mcs_layout c a d lcl" and g: "in_group c b" "in_group c t'"
    and t: "mcs_own c a d lcl m t' q" and "t' = b \<Longrightarrow> mcs_role q \<noteq> Idle"
  shows "mcs_own c a d lcl (put32 c (mcs_loc c a d lcl (MFlag b)) w m) t' q"
  using t assms(5) g ctl_flagged [of c lcl _ _ _ q w] unfolding mcs_own_def by (auto simp: mcs_put [OF L])

lemma mcs_own_tail:
  assumes L: "mcs_layout c a d lcl" and "in_group c t'"
  shows "mcs_own c a d lcl (put32 c (mcs_loc c a d lcl MTail) w m) t' q = mcs_own c a d lcl m t' q"
  using assms(2) unfolding mcs_own_def by (simp add: mcs_put [OF L])

lemma mcs_own_data:
  assumes L: "mcs_layout c a d lcl" and "in_group c t'" and "mcs_own c a d lcl m t' q" and "mcs_role q \<noteq> Owner"
  shows "mcs_own c a d lcl (put32 c (mcs_loc c a d lcl MData) w m) t' q"
  using assms(2-4) ctl_data [of c lcl _ _ _ q] unfolding mcs_own_def by (simp add: mcs_put [OF L])

lemma mcs_own_other:
  assumes L: "mcs_layout c a d lcl" and "in_group c u" "in_group c t" "u \<noteq> t"
  shows "mcs_own c a d lcl (put32 c (mcs_loc c a d lcl (MNext t)) w m) u q = mcs_own c a d lcl m u q"
    and "mcs_own c a d lcl (put32 c (mcs_loc c a d lcl (MFlag t)) w m) u q = mcs_own c a d lcl m u q"
  using assms(2-4) unfolding mcs_own_def by (simp_all add: mcs_put [OF L])

lemma mcs_okD:
  assumes "mcs_ok c a d lcl tot qs m"
  shows "mcs_layout c a d lcl" and "mcs_inv (mcs_abs c (mcs_loc c a d lcl) qs m)"
    and "node_valid c lcl (rd m (mcs_loc c a d lcl MTail))"
    and "in_group c t \<Longrightarrow> mcs_own c a d lcl m t (qs t)"
    and "rd m (mcs_loc c a d lcl MData) + of_nat (mcs_todo c qs) = tot"
  using assms unfolding mcs_ok_def by blast+

lemma mcs_link_target:
  assumes I: "mcs_ok c a d lcl tot qs m" and t: "in_group c t" and p: "in_group c p"
    and r: "mcs_role (qs t) = Joined p \<or> mcs_role (qs t) = Relinker p"
  shows "rd m (mcs_loc c a d lcl (MNext p)) = 0" and "mcs_role (qs p) \<noteq> Idle"
  using link_target_free [OF mcs_okD(2) [OF I], of t p] r t p by (simp_all add: mcs_abs_sel)

lemma mcs_pass_target:
  assumes I: "mcs_ok c a d lcl tot qs m" and t: "in_group c t" and b: "in_group c b"
    and r: "mcs_role (qs t) = Owner \<or> mcs_role (qs t) = Granter" and n: "rd m (mcs_loc c a d lcl (MNext t)) = lcl_as_glbl lcl b"
  shows "mcs_role (qs b) = Waiting"
  using pass_target [OF mcs_okD(2) [OF I], of t b] r t b n node_owner_ptr(1) [OF mcs_okD(1) [OF I] b] by (simp add: mcs_abs_sel)

lemma mcs_one_owner:
  assumes I: "mcs_ok c a d lcl tot qs m" and "in_group c t" "in_group c u" "mcs_role (qs t) = Owner" "mcs_role (qs u) = Owner"
  shows "t = u"
  using one_owner [OF mcs_okD(2) [OF I], of t u] assms(2-5) by (simp add: mcs_abs_sel)

lemma mcs_owner_tail:
  assumes I: "mcs_ok c a d lcl tot qs m" and "in_group c t" "mcs_role (qs t) = Owner"
  shows "rd m (mcs_loc c a d lcl MTail) \<noteq> 0"
  using owner_tail [OF mcs_okD(2) [OF I], of t] assms(2,3) by (simp add: mcs_abs_sel)

lemma mcs_others:
  assumes I: "mcs_ok c a d lcl tot qs m" and t: "in_group c t" and n: "mcs_next c a d lcl t (qs t) m = (q', m')"
    and u: "in_group c u" "u \<noteq> t"
  shows "mcs_own c a d lcl m' u (qs u)"
proof -
  note L = mcs_okD(1) [OF I]
  have o: "mcs_own c a d lcl m u (qs u)" and C: "mcs_own c a d lcl m t (qs t)" using mcs_okD(4) [OF I] u t by blast+
  note C' = C [unfolded mcs_own_def]
  show ?thesis
  proof (cases "qs t")
    case (Todo k)
    then show ?thesis using n o mcs_own_other [OF L u(1) t u(2)] by (cases k) auto
  next
    case (Tell j p)
    then have "in_group c p" using C' by simp
    then show ?thesis
      using n Tell mcs_own_next [OF L t _ u(1) o _ t, of p] mcs_link_target [OF I t, of p] by auto
  next
    case (Wr j v)
    have "mcs_role (qs u) \<noteq> Owner" using mcs_one_owner [OF I t u(1)] u(2) Wr by auto
    then show ?thesis using n Wr mcs_own_data [OF L u(1) o] by auto
  next
    case (Give j b)
    then have "in_group c b" "rd m (mcs_loc c a d lcl (MNext t)) = lcl_as_glbl lcl b" using C' by simp_all
    then show ?thesis using n Give mcs_own_flag [OF L _ u(1) o, of b] mcs_pass_target [OF I t, of b] by auto
  next
    case (Hand j x b)
    then have b: "in_group c b" "rd m (mcs_loc c a d lcl (MNext t)) = lcl_as_glbl lcl b" using C' by simp_all
    show ?thesis
    proof (cases x)
      case None
      then show ?thesis using n Hand mcs_own_flag [OF L b(1) u(1) o] mcs_pass_target [OF I t b(1)] b(2) by auto
    next
      case (Some p)
      then have "in_group c p" using C' Hand by simp
      then show ?thesis using n Hand Some mcs_own_next [OF L t _ u(1) o _ b(1), of p] mcs_link_target [OF I t, of p] by auto
    qed
  qed (use n o mcs_own_other [OF L u(1) t u(2)] mcs_own_tail [OF L u(1)] in \<open>auto split: if_splits\<close>)
qed

lemma mcs_self:
  assumes I: "mcs_ok c a d lcl tot qs m" and t: "in_group c t" and n: "mcs_next c a d lcl t (qs t) m = (q', m')"
  shows "mcs_own c a d lcl m' t q'"
proof -
  note L = mcs_okD(1) [OF I] and V = mcs_okD(3) [OF I]
  note C = mcs_okD(4) [OF I t, unfolded mcs_own_def]
  note put = mcs_put [OF L]
  have VT: "in_group c x" if "node_owner (rd m (mcs_loc c a d lcl MTail)) = Some x" for x
    using V that by (simp add: node_valid_def)
  show ?thesis
  proof (cases "qs t")
    case (Todo k)
    then show ?thesis using n t unfolding Todo by (cases k) (auto simp: mcs_own_def put)
  next
    case (Join j)
    then show ?thesis using n t C VT by (auto simp: mcs_own_def put split: option.splits)
  next
    case (Tell j p)
    then show ?thesis using n t C valid_ptr [OF L t] by (auto simp: mcs_own_def put)
  next
    case (Get j)
    then have "node_valid c lcl (rd m (mcs_loc c a d lcl (MNext t)))" "rd m (mcs_loc c a d lcl (MNext t)) \<noteq> 0" using C by auto
    then obtain x where "node_owner (rd m (mcs_loc c a d lcl (MNext t))) = Some x" "in_group c x"
        "rd m (mcs_loc c a d lcl (MNext t)) = lcl_as_glbl lcl x"
      by (rule valid_owner)
    then show ?thesis using n Get by (auto simp: mcs_own_def)
  next
    case (Close j)
    have "rd m (mcs_loc c a d lcl MTail) \<noteq> 0" using mcs_owner_tail [OF I t] Close by simp
    then obtain x where "node_owner (rd m (mcs_loc c a d lcl MTail)) = Some x" by (metis node_owner_0(2) option.exhaust)
    then show ?thesis using n Close C VT t by (auto simp: mcs_own_def put split: if_splits)
  next
    case (Open j v)
    then show ?thesis using n t C VT by (auto simp: mcs_own_def put)
  next
    case (Fetch j x)
    then have "node_valid c lcl (rd m (mcs_loc c a d lcl (MNext t)))" "rd m (mcs_loc c a d lcl (MNext t)) \<noteq> 0" using C by auto
    then obtain z where "node_owner (rd m (mcs_loc c a d lcl (MNext t))) = Some z" "in_group c z"
        "rd m (mcs_loc c a d lcl (MNext t)) = lcl_as_glbl lcl z"
      by (rule valid_owner)
    then show ?thesis using n Fetch C by (auto simp: mcs_own_def)
  qed (use n t C in \<open>auto simp: mcs_own_def put split: if_splits\<close>)
qed

lemma mcs_tail_valid:
  assumes I: "mcs_ok c a d lcl tot qs m" and t: "in_group c t" and n: "mcs_next c a d lcl t (qs t) m = (q', m')"
  shows "node_valid c lcl (rd m' (mcs_loc c a d lcl MTail))"
proof -
  note L = mcs_okD(1) [OF I] and V = mcs_okD(3) [OF I]
  note C = mcs_okD(4) [OF I t, unfolded mcs_own_def]
  show ?thesis
  proof (cases "qs t")
    case (Todo k)
    then show ?thesis using n t V by (cases k) (auto simp: mcs_put [OF L])
  next
    case (Hand j x b)
    then show ?thesis using n t V C by (cases x) (auto simp: mcs_put [OF L])
  next
    case (Join j)
    then show ?thesis using n valid_ptr [OF L t] by (auto simp: mcs_put [OF L])
  next
    case (Open j v)
    then show ?thesis using n C valid_ptr [OF L, of v] by (auto simp: mcs_put [OF L])
  qed (use n t V C in \<open>auto simp: mcs_put [OF L]\<close>)
qed

lemma mcs_counter:
  assumes I: "mcs_ok c a d lcl tot qs m" and t: "in_group c t" and n: "mcs_next c a d lcl t (qs t) m = (q', m')"
  shows "rd m' (mcs_loc c a d lcl MData) + of_nat (mcs_todo c (qs(t := q'))) = tot"
proof -
  note L = mcs_okD(1) [OF I] and w = mcs_todo_upd [OF t, of qs q'] and T = mcs_okD(5) [OF I]
  note C = mcs_okD(4) [OF I t, unfolded mcs_own_def]
  show ?thesis
  proof (cases "\<exists>j v. qs t = Wr j v")
    case True
    then obtain j v where "qs t = Wr j v" by blast
    then have "mcs_todo c qs = mcs_todo c (qs(t := q')) + 1" "rd m' (mcs_loc c a d lcl MData) = rd m (mcs_loc c a d lcl MData) + 1"
      using n w C by (auto simp: mcs_put [OF L])
    then show ?thesis using T by (simp add: ac_simps)
  next
    case False
    have "mcs_left q' = mcs_left (qs t)"
      using n False by (cases "(c, a, d, lcl, t, qs t, m)" rule: mcs_next.cases) (auto split: if_splits option.splits)
    moreover have "rd m' (mcs_loc c a d lcl MData) = rd m (mcs_loc c a d lcl MData)"
      using n False C t by (cases "(c, a, d, lcl, t, qs t, m)" rule: mcs_next.cases) (auto simp: mcs_put [OF L] split: if_splits option.splits)
    ultimately show ?thesis using w T by simp
  qed
qed

lemma mcs_ok_step:
  assumes t: "in_group c t" and I: "mcs_ok c a d lcl tot qs m" and n: "mcs_next c a d lcl t (qs t) m = (q', m')"
  shows "mcs_ok c a d lcl tot (qs(t := q')) m'"
proof -
  have "mcs_inv (mcs_abs c (mcs_loc c a d lcl) (qs(t := q')) m')"
    using mcs_abs_step [where qs = qs, OF mcs_okD(1) [OF I] t mcs_okD(3) [OF I] mcs_okD(4) [OF I t, unfolded mcs_own_def] n]
      mcs_step_inv mcs_okD(2) [OF I] by fastforce
  moreover have "mcs_own c a d lcl m' u ((qs(t := q')) u)" if "in_group c u" for u
    using mcs_others [OF I t n that] mcs_self [OF I t n] by (cases "u = t") auto
  ultimately show ?thesis
    using mcs_okD(1) [OF I] mcs_tail_valid [OF I t n] mcs_counter [OF I t n] unfolding mcs_ok_def by blast
qed

interpretation mcs: control_points c "\<lambda>t. mcs_prog (bsg_dram_ptr a) (bsg_dram_ptr d) lcl t" "mcs_next c a d lcl"
    "mcs_ok c a d lcl tot"
  for c a d lcl tot
proof unfold_locales
  fix t qs m
  assume t: "in_group c t" and I: "mcs_ok c a d lcl tot qs m"
  show "pstep c t (mcs_prog (bsg_dram_ptr a) (bsg_dram_ptr d) lcl t (qs t), m)
    = (mcs_prog (bsg_dram_ptr a) (bsg_dram_ptr d) lcl t (fst (mcs_next c a d lcl t (qs t) m)), snd (mcs_next c a d lcl t (qs t) m))"
    using mcs_code_step [OF mcs_okD(1) [OF I] t mcs_okD(3) [OF I] mcs_okD(4) [OF I t, unfolded mcs_own_def]]
      mcs_owner_tail [OF I t] by simp
qed (rule mcs_ok_step)

text \<open>The same with the run of the queue that the run of the code stands for.\<close>

definition mcs_refined :: "cfg \<Rightarrow> u32 \<Rightarrow> u32 \<Rightarrow> u32 \<Rightarrow> u32 \<Rightarrow> tile mcs \<Rightarrow> (tile \<Rightarrow> mcs_state) \<Rightarrow> machine \<Rightarrow> bool" where
  "mcs_refined c a d lcl tot s0 qs m \<longleftrightarrow>
     mcs_ok c a d lcl tot qs m \<and> mcs_step\<^sup>*\<^sup>* s0 (mcs_abs c (mcs_loc c a d lcl) qs m)"

interpretation mcsr: control_points c "\<lambda>t. mcs_prog (bsg_dram_ptr a) (bsg_dram_ptr d) lcl t" "mcs_next c a d lcl"
    "mcs_refined c a d lcl tot s0"
  for c a d lcl tot s0
proof unfold_locales
  fix t qs m
  assume t: "in_group c t" and I: "mcs_refined c a d lcl tot s0 qs m"
  then show "pstep c t (mcs_prog (bsg_dram_ptr a) (bsg_dram_ptr d) lcl t (qs t), m)
    = (mcs_prog (bsg_dram_ptr a) (bsg_dram_ptr d) lcl t (fst (mcs_next c a d lcl t (qs t) m)), snd (mcs_next c a d lcl t (qs t) m))"
    using mcs.code_step unfolding mcs_refined_def by blast
  fix q' m'
  assume n: "mcs_next c a d lcl t (qs t) m = (q', m')"
  have J: "mcs_ok c a d lcl tot qs m" using I by (simp add: mcs_refined_def)
  from mcs_abs_step [where qs = qs, OF mcs_okD(1) [OF J] t mcs_okD(3) [OF J] mcs_okD(4) [OF J t, unfolded mcs_own_def] n]
  show "mcs_refined c a d lcl tot s0 (qs(t := q')) m'"
    using I mcs_ok_step [OF t J n] unfolding mcs_refined_def by (auto intro: rtranclp.rtrancl_into_rtrancl)
qed

lemma mcs_ok_start:
  assumes "mcs_layout c a d lcl" and "rd m0 (Dram a) = 0"
  shows "mcs_ok c a d lcl (rd m0 (Dram d) + of_nat (iters * card (group_tiles c))) (\<lambda>t. Todo iters) m0"
proof -
  have "mcs_inv (mcs_abs c (mcs_loc c a d lcl) (\<lambda>t. Todo iters) m0)"
    by (rule mcs_inv_start) (use assms(2) in \<open>simp_all add: mcs_abs_def mcs_loc.simps\<close>)
  then show ?thesis using assms by (simp add: mcs_ok_def mcs_own_def mcs_loc.simps mcs_todo_def)
qed

lemma mcs_reachable:
  assumes "mcs_layout c a d lcl" and "rd m0 (Dram a) = 0"
    and "reachable c (\<lambda>t. mcs_loop (bsg_dram_ptr a) (bsg_dram_ptr d) lcl t iters, m0) s"
  obtains qs where "fst s = (\<lambda>t. mcs_prog (bsg_dram_ptr a) (bsg_dram_ptr d) lcl t (qs t))"
    and "mcs_refined c a d lcl (rd m0 (Dram d) + of_nat (iters * card (group_tiles c)))
      (mcs_abs c (mcs_loc c a d lcl) (\<lambda>t. Todo iters) m0) qs (snd s)"
proof -
  let ?s0 = "mcs_abs c (mcs_loc c a d lcl) (\<lambda>t. Todo iters) m0"
  let ?tot = "rd m0 (Dram d) + of_nat (iters * card (group_tiles c))"
  have i: "mcs_refined c a d lcl ?tot ?s0 (\<lambda>t. Todo iters) m0"
    using mcs_ok_start [OF assms(1,2)] unfolding mcs_refined_def by blast
  have r: "reachable c (\<lambda>t. mcs_prog (bsg_dram_ptr a) (bsg_dram_ptr d) lcl t (Todo iters), m0) s"
    using assms(3) by simp
  obtain qs where "fst s = (\<lambda>t. mcs_prog (bsg_dram_ptr a) (bsg_dram_ptr d) lcl t (qs t)) \<and> mcs_refined c a d lcl ?tot ?s0 qs (snd s)"
    using mcsr.reachable_inv [where ?qs0.0 = "\<lambda>t. Todo iters", OF r i] by blast
  then show thesis using that by blast
qed

section \<open>Mutual exclusion, refinement, and the count\<close>

text \<open>A tile is in the critical section when its next operation is one on the counter.\<close>

definition uses_word :: "u32 \<Rightarrow> proc \<Rightarrow> bool" where
  "uses_word p pr \<longleftrightarrow> next_op pr = Some (Load32 p) \<or> (\<exists>w. next_op pr = Some (Store32 p w))"

lemma mcs_critical:
  assumes L: "mcs_layout c a d lcl" and t: "in_group c t" and o: "mcs_own c a d lcl m t q"
    and u: "uses_word (bsg_dram_ptr d) (mcs_prog (bsg_dram_ptr a) (bsg_dram_ptr d) lcl t q)"
  shows "mcs_role q = Owner"
proof -
  note e = mcs_eva [OF L t] and p = node_owner_ptr(2) [OF L]
  have de: "Dram d \<noteq> tile_npa c x y" for x y by (simp add: tile_npa_def)
  have n: "bsg_dram_ptr d \<noteq> lcl" "bsg_dram_ptr d \<noteq> lcl + 4"
    "in_group c x \<Longrightarrow> bsg_dram_ptr d \<noteq> lcl_as_glbl lcl x" "in_group c x \<Longrightarrow> bsg_dram_ptr d \<noteq> lcl_as_glbl lcl x + 4" for x
    using e de unfolding mcs_loc.simps by metis+
  note ud = uses_word_def next_op_def
  show ?thesis
  proof (cases q)
    case (Todo k)
    then show ?thesis using u n by (cases k) (auto simp: ud mcs_loop_0 mcs_loop_Suc)
  next
    case (Tell j x)
    then show ?thesis using u n(4) [of x] o by (simp add: ud mcs_own_def)
  next
    case (Hand j x b)
    then show ?thesis
      using u n(4) [of "the x"] n(3) [of b] o p by (cases x) (auto simp: ud mcs_own_def mcs_hand_def node_ptr_def)
  qed (use u n in \<open>auto simp: ud wait_then_def mcs_parts mcs_await_def\<close>)
qed

text \<open>
  C6: at most one tile is between acquiring and releasing the queue lock, however many tiles run the test, for
  however many rounds, and however their operations interleave.
\<close>

lemma mcs_mutual_exclusion:
  assumes "mcs_layout c a d lcl" and "rd m0 (Dram a) = 0"
    and "reachable c (\<lambda>t. mcs_loop (bsg_dram_ptr a) (bsg_dram_ptr d) lcl t iters, m0) s"
    and "in_group c t" and "uses_word (bsg_dram_ptr d) (fst s t)"
    and "in_group c t'" and "uses_word (bsg_dram_ptr d) (fst s t')"
  shows "t = t'"
proof -
  obtain qs where p: "fst s = (\<lambda>t. mcs_prog (bsg_dram_ptr a) (bsg_dram_ptr d) lcl t (qs t))"
    and "mcs_refined c a d lcl (rd m0 (Dram d) + of_nat (iters * card (group_tiles c)))
      (mcs_abs c (mcs_loc c a d lcl) (\<lambda>t. Todo iters) m0) qs (snd s)"
    using mcs_reachable [OF assms(1-3)] .
  then have I: "mcs_ok c a d lcl (rd m0 (Dram d) + of_nat (iters * card (group_tiles c))) qs (snd s)"
    by (simp add: mcs_refined_def)
  have "mcs_role (qs t) = Owner" "mcs_role (qs t') = Owner"
    using mcs_critical [OF assms(1,4) mcs_okD(4) [OF I assms(4)]] mcs_critical [OF assms(1,6) mcs_okD(4) [OF I assms(6)]]
      assms(5,7) p by simp_all
  then show ?thesis using mcs_one_owner [OF I assms(4,6)] by blast
qed

text \<open>
  C7: the code refines the queue of \<open>MCS_Queue\<close>: every reachable state of the test stands for a state that the queue
  reaches from the free lock, with the lock's word pointing to the last node, the \<open>next\<close> words of the queued tiles
  holding their successors, and only the owner of the lock at the counter.
\<close>

lemma mcs_refinement:
  assumes "mcs_layout c a d lcl" and "rd m0 (Dram a) = 0"
    and "reachable c (\<lambda>t. mcs_loop (bsg_dram_ptr a) (bsg_dram_ptr d) lcl t iters, m0) s"
  shows "\<exists>s0 s1. lock_tail s0 = None \<and> (\<forall>t. role s0 t = Idle) \<and> mcs_step\<^sup>*\<^sup>* s0 s1
    \<and> rd (snd s) (Dram a) = node_ptr lcl (lock_tail s1)
    \<and> (\<forall>t. in_group c t \<and> role s1 t \<noteq> Idle \<longrightarrow> rd (snd s) (tile_npa c t (lcl + 4)) = node_ptr lcl (succ_of s1 t))
    \<and> (\<forall>t. in_group c t \<and> uses_word (bsg_dram_ptr d) (fst s t) \<longrightarrow> role s1 t = Owner)"
proof -
  let ?loc = "mcs_loc c a d lcl"
  let ?s0 = "mcs_abs c ?loc (\<lambda>t. Todo iters) m0"
  obtain qs where p: "fst s = (\<lambda>t. mcs_prog (bsg_dram_ptr a) (bsg_dram_ptr d) lcl t (qs t))"
    and R: "mcs_refined c a d lcl (rd m0 (Dram d) + of_nat (iters * card (group_tiles c))) ?s0 qs (snd s)"
    using mcs_reachable [OF assms] .
  let ?s1 = "mcs_abs c ?loc qs (snd s)"
  have I: "mcs_ok c a d lcl (rd m0 (Dram d) + of_nat (iters * card (group_tiles c))) qs (snd s)"
    using R by (simp add: mcs_refined_def)
  have ptr: "w = node_ptr lcl (node_owner w)" if "node_valid c lcl w" for w
    using that by (cases "node_owner w") (auto simp: node_valid_def node_ptr_def)
  have "rd (snd s) (Dram a) = node_ptr lcl (lock_tail ?s1)"
    using ptr [OF mcs_okD(3) [OF I]] by (simp add: mcs_abs_sel mcs_loc.simps)
  moreover have "rd (snd s) (tile_npa c t (lcl + 4)) = node_ptr lcl (succ_of ?s1 t)"
    if "in_group c t" "role ?s1 t \<noteq> Idle" for t
    using ptr [OF ctl_valid [OF mcs_okD(4) [OF I that(1), unfolded mcs_own_def] assms(1)]] that
    by (simp add: mcs_abs_sel mcs_loc.simps)
  moreover have "role ?s1 t = Owner" if "in_group c t" "uses_word (bsg_dram_ptr d) (fst s t)" for t
    using mcs_critical [OF assms(1) that(1) mcs_okD(4) [OF I that(1)]] that p by (simp add: mcs_abs_sel)
  moreover have "lock_tail ?s0 = None" "role ?s0 t = Idle" for t using assms(2) by (simp_all add: mcs_abs_def mcs_loc.simps)
  moreover have "mcs_step\<^sup>*\<^sup>* ?s0 ?s1" using R by (simp add: mcs_refined_def)
  ultimately show ?thesis by blast
qed

section \<open>The end of the test\<close>

fun mcs_rank :: "mcs_state \<Rightarrow> nat" where
  "mcs_rank (Todo k) = 32 * k" | "mcs_rank (Clear j) = 32 * j + 31" | "mcs_rank (Join j) = 32 * j + 30"
| "mcs_rank (Tell j p) = 32 * j + 29" | "mcs_rank (Sleep j) = 32 * j + 28" | "mcs_rank (Look j) = 32 * j + 27"
| "mcs_rank (Look_aq j) = 32 * j + 26" | "mcs_rank (Rd j) = 32 * j + 25" | "mcs_rank (Wr j v) = 32 * j + 24"
| "mcs_rank (Rel j) = 32 * j + 23" | "mcs_rank (Fenced j) = 32 * j + 22" | "mcs_rank (Get j) = 32 * j + 21"
| "mcs_rank (Give j n) = 32 * j + 20" | "mcs_rank (Close j) = 32 * j + 19" | "mcs_rank (Open j v) = 32 * j + 18"
| "mcs_rank (Await j u) = 32 * j + 17" | "mcs_rank (Poll j u) = 32 * j + 16" | "mcs_rank (Fetch j u) = 32 * j + 15"
| "mcs_rank (Hand j u n) = 32 * j + 14"

lemma mcs_moves:
  assumes "in_group c t" and "enabled (mcs_abs c (mcs_loc c a d lcl) qs m) t"
  shows "mcs_rank (fst (mcs_next c a d lcl t (qs t) m)) < mcs_rank (qs t)"
  using assms by (cases "qs t") (auto simp: enabled_def mcs_abs_sel split: option.splits)

lemma mcs_moves_idle:
  "mcs_role q = Idle \<Longrightarrow> q \<noteq> Todo 0 \<Longrightarrow> mcs_rank (fst (mcs_next c a d lcl t q m)) < mcs_rank q"
  by (cases "(c, a, d, lcl, t, q, m)" rule: mcs_next.cases) (auto split: option.splits)

lemma mcs_someone_moves:
  assumes I: "mcs_ok c a d lcl tot qs m" and "in_group c t0" "qs t0 \<noteq> Todo 0"
  shows "\<exists>t. in_group c t \<and> mcs_rank (fst (mcs_next c a d lcl t (qs t) m)) < mcs_rank (qs t)"
proof (cases "mcs_role (qs t0) = Idle")
  case True
  then show ?thesis using mcs_moves_idle assms(2,3) by blast
next
  case False
  let ?s = "mcs_abs c (mcs_loc c a d lcl) qs m"
  have "role ?s t0 \<noteq> Idle" using False assms(2) by (simp add: mcs_abs_sel)
  then obtain t where t: "enabled ?s t" using someone_enabled [OF mcs_okD(2) [OF I]] by blast
  then have "in_group c t" by (cases "in_group c t") (auto simp: enabled_def mcs_abs_def)
  then show ?thesis using mcs_moves t by blast
qed

lemma mcs_can_finish:
  assumes I: "mcs_ok c a d lcl tot qs m"
  shows "\<exists>s'. reachable c (\<lambda>t. mcs_prog (bsg_dram_ptr a) (bsg_dram_ptr d) lcl t (qs t), m) s' \<and> finished c s'"
proof -
  let ?rank = "\<lambda>qs. \<Sum>t \<in> group_tiles c. mcs_rank (qs t)"
  have "\<exists>qs' m'. reachable c (\<lambda>t. mcs_prog (bsg_dram_ptr a) (bsg_dram_ptr d) lcl t (qs t), m)
      (\<lambda>t. mcs_prog (bsg_dram_ptr a) (bsg_dram_ptr d) lcl t (qs' t), m')
    \<and> mcs_ok c a d lcl tot qs' m' \<and> (\<forall>t. in_group c t \<longrightarrow> qs' t = Todo 0)"
  proof (rule mcs.can_reach [OF I, where rank = ?rank])
    fix qs m
    assume J: "mcs_ok c a d lcl tot qs m" and "\<not> (\<forall>t. in_group c t \<longrightarrow> qs t = Todo 0)"
    then obtain t where t: "in_group c t" "mcs_rank (fst (mcs_next c a d lcl t (qs t) m)) < mcs_rank (qs t)"
      using mcs_someone_moves by blast
    then have "?rank (qs(t := fst (mcs_next c a d lcl t (qs t) m))) < ?rank qs"
      using sum_fun_upd [of "group_tiles c" t mcs_rank qs "fst (mcs_next c a d lcl t (qs t) m)"] by (simp add: group_tiles_def)
    then show "\<exists>t. in_group c t \<and> ?rank (qs(t := fst (mcs_next c a d lcl t (qs t) m))) < ?rank qs" using t(1) by blast
  qed
  then obtain qs' m' where r: "reachable c (\<lambda>t. mcs_prog (bsg_dram_ptr a) (bsg_dram_ptr d) lcl t (qs t), m)
      (\<lambda>t. mcs_prog (bsg_dram_ptr a) (bsg_dram_ptr d) lcl t (qs' t), m')" and "\<forall>t. in_group c t \<longrightarrow> qs' t = Todo 0" by blast
  then have "finished c (\<lambda>t. mcs_prog (bsg_dram_ptr a) (bsg_dram_ptr d) lcl t (qs' t), m')"
    by (auto simp: finished_def mcs_loop_0)
  then show ?thesis using r by blast
qed

lemma mcs_prog_Ret: "mcs_prog mtx dat lcl t q = Ret r \<Longrightarrow> q = Todo 0"
proof (cases q)
  case (Todo k)
  then show "mcs_prog mtx dat lcl t q = Ret r \<Longrightarrow> q = Todo 0" by (cases k) (auto simp: mcs_loop_Suc)
qed (auto simp: wait_then_def mcs_parts mcs_await_def)

lemma mcs_report_run:
  assumes L: "mcs_layout c a d lcl" and io: "io_fits c" and "rd m (Dram d) = of_nat (iters * card (group_tiles c))"
  shows "passes c (0, 0) (seq (mcs_test_report c (0, 0) (bsg_dram_ptr d) iters) spin_forever) m"
proof -
  have g: "in_group c (0, 0)" using L by (auto simp: mcs_layout_def in_group_def group_fits_def)
  have e: "eva_to_npa c (0, 0) (bsg_dram_ptr d) = Dram d" using mcs_eva(2) [OF L g] by (simp add: mcs_loc.simps)
  let ?m = "put32 c (Endpoint (IO_X_INDEX c) (IO_Y_INDEX c) 0xEAE0) (rd m (Dram d)) m"
  have "rd ?m (Dram d) = rd m (Dram d)" by (rule rd_put32_io) (simp add: off_io_def)
  moreover have "of_nat iters * bsg_tiles_X c * bsg_tiles_Y c = rd m (Dram d)"
    using assms(3) L card_group [of c] by (simp add: mcs_layout_def)
  ultimately have "runs c (0, 0) (seq (mcs_test_report c (0, 0) (bsg_dram_ptr d) iters) spin_forever, m) (seq (bsg_finish c (0, 0)) spin_forever, ?m)"
    unfolding mcs_test_report_def bsg_print_int_def
    by (simp, intro runs_Act) (simp add: e eva_io [OF io] flip: rd_def)
  then show ?thesis by (rule passes_runs) (rule passes_finish [OF io])
qed

text \<open>
  C8: from every reachable state of the test all tiles can finish their rounds; whenever they have, the counter has
  grown by the number of rounds of all tiles, the lock is free, and the check of tile (0,0) reports success.
\<close>

lemma mcs_test_counts:
  assumes "mcs_layout c a d lcl" and "io_fits c" and "rd m0 (Dram a) = 0" and "rd m0 (Dram d) = 0"
    and "reachable c (\<lambda>t. mcs_loop (bsg_dram_ptr a) (bsg_dram_ptr d) lcl t iters, m0) s"
  shows "(\<exists>s'. reachable c s s' \<and> finished c s')
    \<and> (finished c s \<longrightarrow> rd (snd s) (Dram d) = of_nat iters * bsg_tiles_X c * bsg_tiles_Y c \<and> rd (snd s) (Dram a) = 0
        \<and> passes c (0, 0) (seq (mcs_test_report c (0, 0) (bsg_dram_ptr d) iters) spin_forever) (snd s))"
proof -
  obtain qs where p: "fst s = (\<lambda>t. mcs_prog (bsg_dram_ptr a) (bsg_dram_ptr d) lcl t (qs t))"
    and "mcs_refined c a d lcl (rd m0 (Dram d) + of_nat (iters * card (group_tiles c)))
      (mcs_abs c (mcs_loc c a d lcl) (\<lambda>t. Todo iters) m0) qs (snd s)"
    using mcs_reachable [OF assms(1,3,5)] .
  then have I: "mcs_ok c a d lcl (of_nat (iters * card (group_tiles c))) qs (snd s)"
    using assms(4) by (simp add: mcs_refined_def)
  have done_qs: "qs t = Todo 0" if "finished c s" "in_group c t" for t
    using that p mcs_prog_Ret unfolding finished_def by metis
  have "rd (snd s) (Dram d) = of_nat (iters * card (group_tiles c))" if "finished c s"
    using mcs_okD(5) [OF I] done_qs [OF that] by (simp add: mcs_todo_def group_tiles_def mcs_loc.simps)
  moreover have "rd (snd s) (Dram a) = 0" if "finished c s"
  proof -
    have "role (mcs_abs c (mcs_loc c a d lcl) qs (snd s)) t = Idle" for t using done_qs [OF that] by (simp add: mcs_abs_def)
    then have "lock_tail (mcs_abs c (mcs_loc c a d lcl) qs (snd s)) = None" by (rule no_tail_idle [OF mcs_okD(2) [OF I]])
    then show ?thesis by (simp add: mcs_abs_sel mcs_loc.simps)
  qed
  moreover have "of_nat (iters * card (group_tiles c)) = of_nat iters * bsg_tiles_X c * bsg_tiles_Y c"
    using assms(1) card_group [of c] by (simp add: mcs_layout_def)
  moreover obtain ps m where "s = (ps, m)" by (cases s)
  ultimately show ?thesis using mcs_can_finish [OF I] mcs_report_run [OF assms(1,2)] p by auto
qed

section \<open>An instance\<close>

lemma small_mcs_layout: "mcs_layout small_cfg 0 4 64"
  by (simp add: mcs_layout_def)

lemma small_mcs_io: "io_fits small_cfg"
  by (simp add: io_fits_def small_cfg_def)

lemma group_00: "in_group small_cfg (0, 0)" "in_group small_cfg (1, 0)"
  by (simp_all add: in_group_def small_cfg_def)

abbreviation small_mcs :: "nat \<Rightarrow> sys" where
  "small_mcs iters \<equiv> (\<lambda>t. mcs_loop (bsg_dram_ptr 0) (bsg_dram_ptr 4) 64 t iters, zero_machine)"

text \<open>Tile (0,0) has taken the lock after three operations.\<close>

lemma small_mcs_entered: "\<exists>s. reachable small_cfg (small_mcs 1) s \<and> uses_word (bsg_dram_ptr 4) (fst s (0, 0))"
proof -
  let ?ps = "\<lambda>t. mcs_loop (bsg_dram_ptr 0) (bsg_dram_ptr 4) 64 t 1"
  let ?r = "(pstep small_cfg (0, 0) ^^ 3) (?ps (0, 0), zero_machine)"
  let ?s = "(?ps((0, 0) := fst ?r), snd ?r)"
  have r: "reachable small_cfg (small_mcs 1) ?s" by (rule reachable_tile_steps [OF group_00(1)])
  have z: "load32 (mem (put32 small_cfg (tile_npa small_cfg (0, 0) 64) 0 (put32 small_cfg (tile_npa small_cfg (0, 0) 68) 0 zero_machine))) (Dram 0) = 0"
    by (simp add: span4_def tile_npa_def flip: rd_def)
  have "uses_word (bsg_dram_ptr 4) (fst ?r)"
    using mcs_eva [OF small_mcs_layout group_00(1)] z
    by (simp add: numeral_3_eq_3 mcs_loop_Suc [of _ _ _ _ 0, simplified] mcs_loc.simps mcs_parts Let_def uses_word_def next_op_def)
  then have u: "uses_word (bsg_dram_ptr 4) (fst ?s (0, 0))" by simp
  show ?thesis by (rule exI [of _ ?s], rule conjI, rule r, rule u)
qed

lemma mcs_mutual_exclusion_witness:
  "\<exists>s. reachable small_cfg (small_mcs 1) s \<and> uses_word (bsg_dram_ptr 4) (fst s (0, 0))
     \<and> \<not> uses_word (bsg_dram_ptr 4) (fst s (1, 0))"
proof -
  obtain s where s: "reachable small_cfg (small_mcs 1) s" "uses_word (bsg_dram_ptr 4) (fst s (0, 0))"
    using small_mcs_entered by blast
  have z: "rd zero_machine (Dram 0) = 0" by simp
  have "\<not> uses_word (bsg_dram_ptr 4) (fst s (1, 0))"
    using mcs_mutual_exclusion [OF small_mcs_layout z s(1) group_00(1) s(2) group_00(2)] by fastforce
  then show ?thesis using s by blast
qed

lemma mcs_refinement_witness:
  "\<exists>s0 s1. mcs_step\<^sup>*\<^sup>* s0 s1 \<and> lock_tail s0 = None \<and> role s1 (0 :: u32, 0 :: u32) = Owner"
proof -
  obtain s where s: "reachable small_cfg (small_mcs 1) s" "uses_word (bsg_dram_ptr 4) (fst s (0, 0))"
    using small_mcs_entered by blast
  have z: "rd zero_machine (Dram 0) = 0" by simp
  obtain s0 s1 where "lock_tail s0 = None" "mcs_step\<^sup>*\<^sup>* s0 s1"
    and o: "\<forall>t. in_group small_cfg t \<and> uses_word (bsg_dram_ptr 4) (fst s t) \<longrightarrow> role s1 t = Owner"
    using mcs_refinement [OF small_mcs_layout z s(1)] by (elim exE conjE) (rule that)
  moreover have "role s1 (0, 0) = Owner" using o s(2) group_00(1) by blast
  ultimately show ?thesis by blast
qed

lemma mcs_test_counts_witness:
  "\<exists>s. reachable small_cfg (small_mcs 3) s \<and> finished small_cfg s \<and> rd (snd s) (Dram 4) = 12"
proof -
  note A = small_mcs_layout and io = small_mcs_io
  have z: "rd zero_machine (Dram 0) = 0" "rd zero_machine (Dram 4) = 0" by simp_all
  obtain s where s: "reachable small_cfg (small_mcs 3) s" "finished small_cfg s"
    using mcs_test_counts [OF A io z reach_start] by blast
  then have "rd (snd s) (Dram 4) = of_nat 3 * bsg_tiles_X small_cfg * bsg_tiles_Y small_cfg"
    using mcs_test_counts [OF A io z s(1)] by blast
  then have "rd (snd s) (Dram 4) = 12" by (simp add: small_cfg_def)
  then show ?thesis using s by blast
qed

end
