(* ===== verification/Token_Queue.thy ===== *)
theory Token_Queue
  imports Mutex
begin

text \<open>
  \<open>bsg_token_queue.h\<close>: credit-based circular buffers between two tiles. Each side keeps a pair of
  free-running counters, elements sent and elements received; it advances its own counter locally
  and in the partner's copy. The theory proves that a sender and a receiver that follow the
  confirm/transfer and confirm/release protocol never touch the same window of the buffer, and
  that the receiver sees the blocks in the order sent, for any number of blocks (the counters
  wrap). It also translates the test program \<open>spmd/bsg_token_queue\<close> on top of it.
\<close>

section \<open>The code\<close>

text \<open>
  A \<open>bsg_token_pair_t\<close> at address \<open>p\<close> has \<open>send\<close> at \<open>p\<close> and \<open>receive\<close> at \<open>p + 4\<close>; a token array
  is indexed \<open>[x][y]\<close> with rows of \<open>bsg_tiles_Y\<close> pairs.
\<close>

record bsg_token_connection =
  local_ptr :: u32
  remote_ptr :: u32

definition token_pair_send :: "u32 \<Rightarrow> u32" where "token_pair_send p = p"
definition token_pair_receive :: "u32 \<Rightarrow> u32" where "token_pair_receive p = p + 4"

definition token_array_elem :: "cfg \<Rightarrow> u32 \<Rightarrow> u32 \<Rightarrow> u32 \<Rightarrow> u32" where
  "token_array_elem c token_array x y = token_array + 8 * (x * bsg_tiles_Y c + y)"

definition bsg_tq_send_connection :: "cfg \<Rightarrow> tile \<Rightarrow> u32 \<Rightarrow> u32 \<Rightarrow> u32 \<Rightarrow> bsg_token_connection" where
  "bsg_tq_send_connection c t token_array x y =
     \<lparr>local_ptr = token_array_elem c token_array x y,
      remote_ptr = bsg_remote_ptr x y (token_pair_send (token_array_elem c token_array (fst t) (snd t)))\<rparr>"

definition bsg_tq_receive_connection :: "cfg \<Rightarrow> tile \<Rightarrow> u32 \<Rightarrow> u32 \<Rightarrow> u32 \<Rightarrow> bsg_token_connection" where
  "bsg_tq_receive_connection c t token_array x y =
     \<lparr>local_ptr = token_array_elem c token_array x y,
      remote_ptr = bsg_remote_ptr x y (token_pair_receive (token_array_elem c token_array (fst t) (snd t)))\<rparr>"

text \<open>\<open>bsg_wait_while(a && b)\<close>: the second operand is evaluated only when the first holds.\<close>

definition bsg_tq_sender_confirm :: "bsg_token_connection \<Rightarrow> u32 \<Rightarrow> u32 \<Rightarrow> proc" where
  "bsg_tq_sender_confirm conn max_els depth =
     Act (Load32 (token_pair_send (local_ptr conn))) (\<lambda>i.
       let tmp = - max_els + depth + i in
       Loop (bind (bsg_lr (token_pair_receive (local_ptr conn))) (\<lambda>r.
               if slt 0 (tmp - r)
               then bind (bsg_lr_aq (token_pair_receive (local_ptr conn))) (\<lambda>r.
                      Ret (if slt 0 (tmp - r) then 1 else 0))
               else Ret 0))
         (\<lambda>cond. cond = 0) (\<lambda>_. Ret i))"

definition bsg_tq_sender_xfer :: "bsg_token_connection \<Rightarrow> u32 \<Rightarrow> u32 \<Rightarrow> proc" where
  "bsg_tq_sender_xfer conn max_els depth =
     Act (Load32 (token_pair_send (local_ptr conn))) (\<lambda>s.
       let i = s + depth in
       seq bsg_commit_stores
         (Act (Store32 (token_pair_send (local_ptr conn)) i) (\<lambda>_.
          Act (Store32 (remote_ptr conn) i) (\<lambda>_. Ret i))))"

definition bsg_tq_receiver_confirm :: "bsg_token_connection \<Rightarrow> u32 \<Rightarrow> proc" where
  "bsg_tq_receiver_confirm conn depth =
     Act (Load32 (token_pair_receive (local_ptr conn))) (\<lambda>i.
       let tmp = depth + i in
       Loop (bind (bsg_lr (token_pair_send (local_ptr conn))) (\<lambda>s.
               if slt (s - tmp) 0
               then bind (bsg_lr_aq (token_pair_send (local_ptr conn))) (\<lambda>s.
                      Ret (if slt (s - tmp) 0 then 1 else 0))
               else Ret 0))
         (\<lambda>cond. cond = 0) (\<lambda>_. Ret i))"

definition bsg_tq_receiver_release :: "bsg_token_connection \<Rightarrow> u32 \<Rightarrow> proc" where
  "bsg_tq_receiver_release conn depth =
     Act (Load32 (token_pair_receive (local_ptr conn))) (\<lambda>r.
       let i = r + depth in
       Act (Store32 (token_pair_receive (local_ptr conn)) i) (\<lambda>_.
       Act (Store32 (remote_ptr conn) i) (\<lambda>_. Ret 0)))"

section \<open>The variant with 16-bit counters\<close>

text \<open>
  With \<open>BSG_TOKEN_QUEUE_SHORT\<close> the pair is two \<open>short\<close>s read together as one word. Loads of a
  \<open>short\<close> sign-extend; \<open>>> 16\<close> on \<open>int\<close> is arithmetic.
\<close>

definition sext16 :: "u32 \<Rightarrow> u32" where
  "sext16 w = signed_take_bit 15 w"

definition BSG_TOKEN_QUEUE_SHORT_RECEIVE :: "u32 \<Rightarrow> u32" where
  "BSG_TOKEN_QUEUE_SHORT_RECEIVE x = signed_drop_bit 16 x"

definition BSG_TOKEN_QUEUE_SHORT_SEND :: "u32 \<Rightarrow> u32" where
  "BSG_TOKEN_QUEUE_SHORT_SEND x = x AND 0xFFFF"

definition bsg_tq_sender_confirm_short :: "bsg_token_connection \<Rightarrow> u32 \<Rightarrow> u32 \<Rightarrow> proc" where
  "bsg_tq_sender_confirm_short conn max_els depth =
     Act (Load16 (local_ptr conn)) (\<lambda>s.
       let i = sext16 s; tmp = - max_els + depth + i in
       Loop (bind (bsg_lr (local_ptr conn)) (\<lambda>x.
               if sle (tmp - BSG_TOKEN_QUEUE_SHORT_RECEIVE x) 0 then Ret 1
               else bind (bsg_lr_aq (local_ptr conn)) (\<lambda>x.
                 Ret (if sle (tmp - BSG_TOKEN_QUEUE_SHORT_RECEIVE x) 0 then 1 else 0))))
         (\<lambda>break. break = 1) (\<lambda>_. Ret i))"

definition bsg_tq_receiver_confirm_short :: "bsg_token_connection \<Rightarrow> u32 \<Rightarrow> proc" where
  "bsg_tq_receiver_confirm_short conn depth =
     Act (Load16 (local_ptr conn + 2)) (\<lambda>r.
       let i = sext16 r; tmp = depth + i in
       Loop (bind (bsg_lr (local_ptr conn)) (\<lambda>x.
               if sle 0 (BSG_TOKEN_QUEUE_SHORT_SEND x - tmp) then Ret 1
               else bind (bsg_lr_aq (local_ptr conn)) (\<lambda>x.
                 Ret (if sle 0 (BSG_TOKEN_QUEUE_SHORT_SEND x - tmp) then 1 else 0))))
         (\<lambda>break. break = 1) (\<lambda>_. Ret i))"

section \<open>A producer and a consumer\<close>

text \<open>
  The way the queue is used: the sender confirms one of \<open>win\<close> windows, fills it with the
  \<open>blk_len\<close> words of the next block through remote stores and transfers it; the receiver confirms
  a block, folds its words into an accumulator, reports the accumulator to the host and releases
  the window. The parameters are the two tiles, their connections, the buffer as each of them
  addresses it, the blocks and the folding function.
\<close>

record tq_client =
  snd_t :: tile
  rcv_t :: tile
  sconn :: bsg_token_connection
  rconn :: bsg_token_connection
  sbuf :: u32
  rbuf :: u32
  win :: nat
  blk_len :: nat
  blocks :: nat
  blk :: "nat \<Rightarrow> nat \<Rightarrow> u32"
  upd :: "u32 \<Rightarrow> u32 \<Rightarrow> u32"

definition slot :: "tq_client \<Rightarrow> nat \<Rightarrow> nat \<Rightarrow> nat" where
  "slot p i j = i mod win p * blk_len p + j"

definition put_word :: "tq_client \<Rightarrow> nat \<Rightarrow> nat \<Rightarrow> proc" where
  "put_word p i j = Act (Store32 (sbuf p + 4 * of_nat (slot p i j)) (blk p i j)) Ret"

definition get_word :: "tq_client \<Rightarrow> nat \<Rightarrow> nat \<Rightarrow> u32 \<Rightarrow> proc" where
  "get_word p i j acc = Act (Load32 (rbuf p + 4 * of_nat (slot p i j))) (\<lambda>v. Ret (upd p acc v))"

definition send_block :: "tq_client \<Rightarrow> nat \<Rightarrow> proc" where
  "send_block p i =
     seq (bsg_tq_sender_confirm (sconn p) (of_nat (win p)) 1)
       (seq (for_each [0..<blk_len p] (put_word p i))
         (bsg_tq_sender_xfer (sconn p) (of_nat (win p)) 1))"

definition out_ptr :: "cfg \<Rightarrow> u32" where
  "out_ptr c = bsg_remote_ptr_io c (IO_X_INDEX c) 0xCAB0"

definition receive_block :: "cfg \<Rightarrow> tq_client \<Rightarrow> nat \<Rightarrow> u32 \<Rightarrow> proc" where
  "receive_block c p i acc =
     seq (bsg_tq_receiver_confirm (rconn p) 1)
       (bind (for_fold [0..<blk_len p] (get_word p i) acc) (\<lambda>acc.
         seq (Act (Store32 (out_ptr c) acc) Ret)
           (seq (bsg_tq_receiver_release (rconn p) 1) (Ret acc))))"

definition producer :: "tq_client \<Rightarrow> nat \<Rightarrow> proc" where
  "producer p i = seq (for_each [i..<blocks p] (send_block p)) spin_forever"

definition consumer :: "cfg \<Rightarrow> tq_client \<Rightarrow> nat \<Rightarrow> u32 \<Rightarrow> proc" where
  "consumer c p i acc =
     bind (for_fold [i..<blocks p] (receive_block c p) acc) (\<lambda>_. bsg_finish c (rcv_t p))"

text \<open>All tiles first report the time, as the test program does; tiles that are neither end idle.\<close>

definition tq_program :: "cfg \<Rightarrow> tq_client \<Rightarrow> tile \<Rightarrow> proc" where
  "tq_program c p t =
     seq (bsg_print_time c t)
       (if t = snd_t p then seq (bsg_print_time c t) (producer p 0)
        else if t = rcv_t p then consumer c p 0 0
        else spin_forever)"

section \<open>Control states\<close>

datatype tq_state =
  Pre2 | Pre1 | Idle
  | SConf nat | SLoop nat u32 | SLr nat u32 | SLra nat u32 | SPut nat nat | SFence nat u32 | SSt nat u32 | SRem nat u32
  | RConf nat u32 | RLoop nat u32 u32 | RLr nat u32 u32 | RLra nat u32 u32 | RGet nat nat u32
  | RRel nat u32 | RSt nat u32 u32 | RRem nat u32 u32 | RFin

definition sender_wait :: "tq_client \<Rightarrow> u32 \<Rightarrow> proc" where
  "sender_wait p i =
     Loop (bind (bsg_lr (token_pair_receive (local_ptr (sconn p)))) (\<lambda>r.
             if slt 0 (- of_nat (win p) + 1 + i - r)
             then bind (bsg_lr_aq (token_pair_receive (local_ptr (sconn p)))) (\<lambda>r.
                    Ret (if slt 0 (- of_nat (win p) + 1 + i - r) then 1 else 0))
             else Ret 0))
       (\<lambda>cond. cond = 0) (\<lambda>_. Ret i)"

definition receiver_wait :: "tq_client \<Rightarrow> u32 \<Rightarrow> proc" where
  "receiver_wait p i =
     Loop (bind (bsg_lr (token_pair_send (local_ptr (rconn p)))) (\<lambda>s.
             if slt (s - (1 + i)) 0
             then bind (bsg_lr_aq (token_pair_send (local_ptr (rconn p)))) (\<lambda>s.
                    Ret (if slt (s - (1 + i)) 0 then 1 else 0))
             else Ret 0))
       (\<lambda>cond. cond = 0) (\<lambda>_. Ret i)"

definition fill_rest :: "tq_client \<Rightarrow> nat \<Rightarrow> nat \<Rightarrow> proc" where
  "fill_rest p i j = seq (for_each [j..<blk_len p] (put_word p i))
     (seq (bsg_tq_sender_xfer (sconn p) (of_nat (win p)) 1) (producer p (Suc i)))"

definition drain_rest :: "cfg \<Rightarrow> tq_client \<Rightarrow> nat \<Rightarrow> nat \<Rightarrow> u32 \<Rightarrow> proc" where
  "drain_rest c p i j acc = bind (for_fold [j..<blk_len p] (get_word p i) acc) (\<lambda>acc.
     Act (Store32 (out_ptr c) acc) (\<lambda>_.
       seq (bsg_tq_receiver_release (rconn p) 1) (consumer c p (Suc i) acc)))"

definition tq_start :: "tq_client \<Rightarrow> tile \<Rightarrow> tq_state" where
  "tq_start p t = (if t = snd_t p then SConf 0 else if t = rcv_t p then RConf 0 0 else Idle)"

definition print_then :: "cfg \<Rightarrow> tile \<Rightarrow> proc \<Rightarrow> proc" where
  "print_then c t k = Act (Store32 (bsg_remote_ptr_io c (IO_X_INDEX c) 0xEAD4) (tile_word t)) (\<lambda>_. k)"

fun tq_body :: "cfg \<Rightarrow> tq_client \<Rightarrow> tq_state \<Rightarrow> proc" where
  "tq_body c p (SConf i) = producer p i"
| "tq_body c p (SLoop i s) = seq (sender_wait p s) (fill_rest p i 0)"
| "tq_body c p (SLr i s) = Act (Lr (token_pair_receive (local_ptr (sconn p)))) (\<lambda>r.
     if slt 0 (- of_nat (win p) + 1 + s - r)
     then Act (Lr_aq (token_pair_receive (local_ptr (sconn p)))) (\<lambda>r.
            if slt 0 (- of_nat (win p) + 1 + s - r) then seq (sender_wait p s) (fill_rest p i 0) else fill_rest p i 0)
     else fill_rest p i 0)"
| "tq_body c p (SLra i s) = Act (Lr_aq (token_pair_receive (local_ptr (sconn p)))) (\<lambda>r.
     if slt 0 (- of_nat (win p) + 1 + s - r) then seq (sender_wait p s) (fill_rest p i 0) else fill_rest p i 0)"
| "tq_body c p (SPut i j) = fill_rest p i j"
| "tq_body c p (SFence i s) = Act Fence (\<lambda>_. Act (Store32 (token_pair_send (local_ptr (sconn p))) s) (\<lambda>_.
     Act (Store32 (remote_ptr (sconn p)) s) (\<lambda>_. producer p (Suc i))))"
| "tq_body c p (SSt i s) = Act (Store32 (token_pair_send (local_ptr (sconn p))) s) (\<lambda>_.
     Act (Store32 (remote_ptr (sconn p)) s) (\<lambda>_. producer p (Suc i)))"
| "tq_body c p (SRem i s) = Act (Store32 (remote_ptr (sconn p)) s) (\<lambda>_. producer p (Suc i))"
| "tq_body c p (RConf i acc) = consumer c p i acc"
| "tq_body c p (RLoop i acc s) = seq (receiver_wait p s) (drain_rest c p i 0 acc)"
| "tq_body c p (RLr i acc r) = Act (Lr (token_pair_send (local_ptr (rconn p)))) (\<lambda>s.
     if slt (s - (1 + r)) 0
     then Act (Lr_aq (token_pair_send (local_ptr (rconn p)))) (\<lambda>s.
            if slt (s - (1 + r)) 0 then seq (receiver_wait p r) (drain_rest c p i 0 acc) else drain_rest c p i 0 acc)
     else drain_rest c p i 0 acc)"
| "tq_body c p (RLra i acc r) = Act (Lr_aq (token_pair_send (local_ptr (rconn p)))) (\<lambda>s.
     if slt (s - (1 + r)) 0 then seq (receiver_wait p r) (drain_rest c p i 0 acc) else drain_rest c p i 0 acc)"
| "tq_body c p (RGet i j acc) = drain_rest c p i j acc"
| "tq_body c p (RRel i acc) = seq (bsg_tq_receiver_release (rconn p) 1) (consumer c p (Suc i) acc)"
| "tq_body c p (RSt i acc r) = Act (Store32 (token_pair_receive (local_ptr (rconn p))) r) (\<lambda>_.
     Act (Store32 (remote_ptr (rconn p)) r) (\<lambda>_. consumer c p (Suc i) acc))"
| "tq_body c p (RRem i acc r) = Act (Store32 (remote_ptr (rconn p)) r) (\<lambda>_. consumer c p (Suc i) acc)"
| "tq_body c p _ = spin_forever"

definition tq_prog :: "cfg \<Rightarrow> tq_client \<Rightarrow> tile \<Rightarrow> tq_state \<Rightarrow> proc" where
  "tq_prog c p t q = (case q of
     Pre2 \<Rightarrow> print_then c t (print_then c t (tq_body c p (tq_start p t)))
   | Pre1 \<Rightarrow> print_then c t (tq_body c p (tq_start p t))
   | _ \<Rightarrow> tq_body c p q)"

section \<open>The words of the protocol\<close>

datatype tq_cell = SendS | RecvS | SendR | RecvR | Buf nat

fun tq_loc :: "cfg \<Rightarrow> tq_client \<Rightarrow> tq_cell \<Rightarrow> npa" where
  "tq_loc c p SendS = eva_to_npa c (snd_t p) (token_pair_send (local_ptr (sconn p)))"
| "tq_loc c p RecvS = eva_to_npa c (snd_t p) (token_pair_receive (local_ptr (sconn p)))"
| "tq_loc c p SendR = eva_to_npa c (rcv_t p) (token_pair_send (local_ptr (rconn p)))"
| "tq_loc c p RecvR = eva_to_npa c (rcv_t p) (token_pair_receive (local_ptr (rconn p)))"
| "tq_loc c p (Buf k) = eva_to_npa c (rcv_t p) (rbuf p + 4 * of_nat k)"

definition tq_cells :: "tq_client \<Rightarrow> tq_cell set" where
  "tq_cells p = {SendS, RecvS, SendR, RecvR} \<union> Buf ` {..<win p * blk_len p}"

definition tq_layout :: "cfg \<Rightarrow> tq_client \<Rightarrow> bool" where
  "tq_layout c p \<longleftrightarrow>
     in_group c (snd_t p) \<and> in_group c (rcv_t p) \<and> snd_t p \<noteq> rcv_t p \<and> io_fits c \<and> win p < 2 ^ 31
     \<and> disjoint_cells (tq_loc c p) (tq_cells p) \<and> (\<forall>a \<in> tq_cells p. off_io c (tq_loc c p a))
     \<and> eva_to_npa c (snd_t p) (remote_ptr (sconn p)) = tq_loc c p SendR
     \<and> eva_to_npa c (rcv_t p) (remote_ptr (rconn p)) = tq_loc c p RecvS
     \<and> (\<forall>k < win p * blk_len p. eva_to_npa c (snd_t p) (sbuf p + 4 * of_nat k) = tq_loc c p (Buf k))"

fun tq_next :: "cfg \<Rightarrow> tq_client \<Rightarrow> tile \<Rightarrow> tq_state \<Rightarrow> machine \<Rightarrow> tq_state \<times> machine" where
  "tq_next c p t Pre2 m = (Pre1, put32 c (Endpoint (IO_X_INDEX c) (IO_Y_INDEX c) 0xEAD4) (tile_word t) m)"
| "tq_next c p t Pre1 m = (tq_start p t, put32 c (Endpoint (IO_X_INDEX c) (IO_Y_INDEX c) 0xEAD4) (tile_word t) m)"
| "tq_next c p t Idle m = (Idle, m)"
| "tq_next c p t (SConf i) m = (if i < blocks p then SLoop i (rd m (tq_loc c p SendS)) else SConf i, m)"
| "tq_next c p t (SLoop i s) m = (SLr i s, m)"
| "tq_next c p t (SLr i s) m =
     (if slt 0 (- of_nat (win p) + 1 + s - rd m (tq_loc c p RecvS)) then SLra i s else SPut i 0, m)"
| "tq_next c p t (SLra i s) m =
     (if slt 0 (- of_nat (win p) + 1 + s - rd m (tq_loc c p RecvS)) then SLoop i s else SPut i 0, m)"
| "tq_next c p t (SPut i j) m =
     (if j < blk_len p then (SPut i (Suc j), put32 c (tq_loc c p (Buf (slot p i j))) (blk p i j) m)
      else (SFence i (rd m (tq_loc c p SendS) + 1), m))"
| "tq_next c p t (SFence i s) m = (SSt i s, m)"
| "tq_next c p t (SSt i s) m = (SRem i s, put32 c (tq_loc c p SendS) s m)"
| "tq_next c p t (SRem i s) m = (SConf (Suc i), put32 c (tq_loc c p SendR) s m)"
| "tq_next c p t (RConf i acc) m =
     (if i < blocks p then (RLoop i acc (rd m (tq_loc c p RecvR)), m)
      else (RFin, put32 c (Endpoint (IO_X_INDEX c) (IO_Y_INDEX c) 0xEAD0) (tile_word (rcv_t p)) m))"
| "tq_next c p t (RLoop i acc r) m = (RLr i acc r, m)"
| "tq_next c p t (RLr i acc r) m =
     (if slt (rd m (tq_loc c p SendR) - (1 + r)) 0 then RLra i acc r else RGet i 0 acc, m)"
| "tq_next c p t (RLra i acc r) m =
     (if slt (rd m (tq_loc c p SendR) - (1 + r)) 0 then RLoop i acc r else RGet i 0 acc, m)"
| "tq_next c p t (RGet i j acc) m =
     (if j < blk_len p then (RGet i (Suc j) (upd p acc (rd m (tq_loc c p (Buf (slot p i j))))), m)
      else (RRel i acc, put32 c (Endpoint (IO_X_INDEX c) (IO_Y_INDEX c) 0xCAB0) acc m))"
| "tq_next c p t (RRel i acc) m = (RSt i acc (rd m (tq_loc c p RecvR) + 1), m)"
| "tq_next c p t (RSt i acc r) m = (RRem i acc r, put32 c (tq_loc c p RecvR) r m)"
| "tq_next c p t (RRem i acc r) m = (RConf (Suc i) acc, put32 c (tq_loc c p RecvS) r m)"
| "tq_next c p t RFin m = (RFin, m)"

text \<open>Which states belong to which tile.\<close>

fun sender_state :: "tq_state \<Rightarrow> bool" where
  "sender_state (SConf i) = True" | "sender_state (SLoop i s) = True" | "sender_state (SLr i s) = True"
| "sender_state (SLra i s) = True" | "sender_state (SPut i j) = True" | "sender_state (SFence i s) = True"
| "sender_state (SSt i s) = True" | "sender_state (SRem i s) = True" | "sender_state Pre2 = True"
| "sender_state Pre1 = True" | "sender_state q = False"

fun receiver_state :: "tq_state \<Rightarrow> bool" where
  "receiver_state (RConf i a) = True" | "receiver_state (RLoop i a s) = True" | "receiver_state (RLr i a s) = True"
| "receiver_state (RLra i a s) = True" | "receiver_state (RGet i j a) = True" | "receiver_state (RRel i a) = True"
| "receiver_state (RSt i a s) = True" | "receiver_state (RRem i a s) = True" | "receiver_state RFin = True"
| "receiver_state Pre1 = True" | "receiver_state q = False"

definition role_ok :: "tq_client \<Rightarrow> tile \<Rightarrow> tq_state \<Rightarrow> bool" where
  "role_ok p t q \<longleftrightarrow> (if t = snd_t p then sender_state q else if t = rcv_t p then receiver_state q
     else q = Idle \<or> q = Pre1)"

lemma slot_less:
  assumes "j < blk_len p" and "0 < win p"
  shows "slot p i j < win p * blk_len p"
proof -
  have "slot p i j < (i mod win p + 1) * blk_len p" using assms(1) by (simp add: slot_def)
  also have "\<dots> \<le> win p * blk_len p" using assms(2) by (intro mult_le_mono1) (simp add: Suc_leI)
  finally show ?thesis .
qed

lemma slot_inj:
  assumes "slot p i j = slot p i' j'" and "j < blk_len p" and "j' < blk_len p"
  shows "i mod win p = i' mod win p \<and> j = j'"
proof -
  have "i mod win p = slot p i j div blk_len p" "i' mod win p = slot p i' j' div blk_len p"
    "j = slot p i j mod blk_len p" "j' = slot p i' j' mod blk_len p"
    using assms(2,3) by (simp_all add: slot_def)
  then show ?thesis using assms(1) by metis
qed

lemma producer_step: "i < blocks p \<Longrightarrow> producer p i
   = Act (Load32 (token_pair_send (local_ptr (sconn p)))) (\<lambda>s. seq (sender_wait p s) (fill_rest p i 0))"
  by (simp add: producer_def send_block_def upt_conv_Cons bsg_tq_sender_confirm_def sender_wait_def fill_rest_def Let_def
      cong: if_cong)

lemma producer_end: "\<not> i < blocks p \<Longrightarrow> producer p i = spin_forever"
  by (simp add: producer_def)

lemma consumer_step: "i < blocks p \<Longrightarrow> consumer c p i acc
   = Act (Load32 (token_pair_receive (local_ptr (rconn p)))) (\<lambda>r. seq (receiver_wait p r) (drain_rest c p i 0 acc))"
  by (simp add: consumer_def receive_block_def upt_conv_Cons bsg_tq_receiver_confirm_def receiver_wait_def
      drain_rest_def Let_def)

lemma consumer_end: "\<not> i < blocks p \<Longrightarrow> consumer c p i acc = bsg_finish c (rcv_t p)"
  by (simp add: consumer_def)

lemma pstep_spin [simp]: "pstep c t (spin_forever, m) = (spin_forever, m)"
  by (simp add: spin_forever_def)

lemma fill_rest_step:
  "j < blk_len p \<Longrightarrow> fill_rest p i j
     = Act (Store32 (sbuf p + 4 * of_nat (slot p i j)) (blk p i j)) (\<lambda>_. fill_rest p i (Suc j))"
  "\<not> j < blk_len p \<Longrightarrow> fill_rest p i j
     = Act (Load32 (token_pair_send (local_ptr (sconn p)))) (\<lambda>s.
       Act Fence (\<lambda>_. Act (Store32 (token_pair_send (local_ptr (sconn p))) (s + 1)) (\<lambda>_.
       Act (Store32 (remote_ptr (sconn p)) (s + 1)) (\<lambda>_. producer p (Suc i)))))"
  by (simp_all add: fill_rest_def upt_conv_Cons put_word_def bsg_tq_sender_xfer_def bsg_commit_stores_def bsg_fence_def Let_def)

lemma drain_rest_step:
  "j < blk_len p \<Longrightarrow> drain_rest c p i j acc
     = Act (Load32 (rbuf p + 4 * of_nat (slot p i j))) (\<lambda>v. drain_rest c p i (Suc j) (upd p acc v))"
  "\<not> j < blk_len p \<Longrightarrow> drain_rest c p i j acc = Act (Store32 (out_ptr c) acc) (\<lambda>_.
       seq (bsg_tq_receiver_release (rconn p) 1) (consumer c p (Suc i) acc))"
  by (simp_all add: drain_rest_def upt_conv_Cons get_word_def)

lemma sender_wait_step:
  "pstep c t (seq (sender_wait p s) (fill_rest p i 0), m) = (tq_body c p (SLr i s), m)"
  by (auto simp: sender_wait_def bsg_lr_def bsg_lr_aq_def fun_eq_iff)

lemma receiver_wait_step:
  "pstep c t (seq (receiver_wait p s) (drain_rest c p i 0 acc), m) = (tq_body c p (RLr i acc s), m)"
  by (auto simp: receiver_wait_def bsg_lr_def bsg_lr_aq_def fun_eq_iff)

lemma tq_prog_simps:
  "tq_prog c p t Pre2 = print_then c t (tq_prog c p t Pre1)"
  "tq_prog c p t Pre1 = print_then c t (tq_prog c p t (tq_start p t))"
  "q \<noteq> Pre2 \<Longrightarrow> q \<noteq> Pre1 \<Longrightarrow> tq_prog c p t q = tq_body c p q"
  by (auto simp: tq_prog_def tq_start_def split: tq_state.split)

lemma tq_code_step:
  assumes L: "tq_layout c p" and r: "role_ok p t q" and w: "0 < win p"
  shows "pstep c t (tq_prog c p t q, m) = (tq_prog c p t (fst (tq_next c p t q m)), snd (tq_next c p t q m))"
proof -
  have io: "eva_to_npa c u (bsg_remote_ptr_io c (IO_X_INDEX c) a) = Endpoint (IO_X_INDEX c) (IO_Y_INDEX c) a"
    if "unat a < 2 ^ 16" for u a
    using L that by (intro eva_io) (auto simp: tq_layout_def)
  have e: "eva_to_npa c (snd_t p) (remote_ptr (sconn p)) = tq_loc c p SendR"
    "eva_to_npa c (rcv_t p) (remote_ptr (rconn p)) = tq_loc c p RecvS"
    and ne: "snd_t p \<noteq> rcv_t p" using L by (simp_all add: tq_layout_def)
  have b: "eva_to_npa c (snd_t p) (sbuf p + 4 * of_nat (slot p i j)) = tq_loc c p (Buf (slot p i j))"
    if "j < blk_len p" for i j
    using L slot_less [OF that w] by (simp add: tq_layout_def)
  consider "t = snd_t p" "sender_state q" | "t = rcv_t p" "receiver_state q" | "q = Idle" | "q = Pre1"
    using r by (auto simp: role_ok_def split: if_splits)
  then show ?thesis
  proof cases
    case 1
    then show ?thesis
      by (cases q)
        (simp_all add: tq_prog_simps print_then_def io producer_step producer_end fill_rest_step b e
          sender_wait_step flip: rd_def)
  next
    case 2
    then show ?thesis
      by (cases q)
        (simp_all add: tq_prog_simps print_then_def io consumer_step consumer_end drain_rest_step e ne
          bsg_finish_def out_ptr_def receiver_wait_step bsg_tq_receiver_release_def Let_def flip: rd_def)
  next
    case 3
    then show ?thesis by (simp add: tq_prog_simps)
  next
    case 4
    then show ?thesis by (simp add: tq_prog_simps(2) print_then_def io)
  qed
qed

section \<open>The invariant\<close>

text \<open>
  \<open>s_idx\<close> and \<open>r_idx\<close> are the blocks the partner knows to be sent and released, \<open>s_done\<close> and
  \<open>r_done\<close> the local counts; \<open>written q k j\<close> holds when word \<open>j\<close> of block \<open>k\<close> is in the buffer.
\<close>

fun s_idx :: "tq_state \<Rightarrow> nat" where
  "s_idx (SConf i) = i" | "s_idx (SLoop i s) = i" | "s_idx (SLr i s) = i" | "s_idx (SLra i s) = i"
| "s_idx (SPut i j) = i" | "s_idx (SFence i s) = i" | "s_idx (SSt i s) = i" | "s_idx (SRem i s) = i"
| "s_idx q = 0"

fun s_done :: "tq_state \<Rightarrow> nat" where
  "s_done (SRem i s) = Suc i" | "s_done q = s_idx q"

fun s_conf :: "tq_state \<Rightarrow> nat" where
  "s_conf (SPut i j) = 1" | "s_conf (SFence i s) = 1" | "s_conf (SSt i s) = 1" | "s_conf (SRem i s) = 1"
| "s_conf q = 0"

fun written :: "tq_state \<Rightarrow> nat \<Rightarrow> nat \<Rightarrow> bool" where
  "written (SPut i j') k j \<longleftrightarrow> k < i \<or> k = i \<and> j < j'"
| "written (SFence i s) k j \<longleftrightarrow> k \<le> i" | "written (SSt i s) k j \<longleftrightarrow> k \<le> i"
| "written (SRem i s) k j \<longleftrightarrow> k \<le> i" | "written q k j \<longleftrightarrow> k < s_idx q"

fun s_ok :: "tq_state \<Rightarrow> bool" where
  "s_ok (SLoop i s) \<longleftrightarrow> s = of_nat i" | "s_ok (SLr i s) \<longleftrightarrow> s = of_nat i" | "s_ok (SLra i s) \<longleftrightarrow> s = of_nat i"
| "s_ok (SFence i s) \<longleftrightarrow> s = of_nat (Suc i)" | "s_ok (SSt i s) \<longleftrightarrow> s = of_nat (Suc i)"
| "s_ok (SRem i s) \<longleftrightarrow> s = of_nat (Suc i)" | "s_ok q \<longleftrightarrow> True"

fun r_idx :: "tq_client \<Rightarrow> tq_state \<Rightarrow> nat" where
  "r_idx p (RConf i a) = i" | "r_idx p (RLoop i a r) = i" | "r_idx p (RLr i a r) = i" | "r_idx p (RLra i a r) = i"
| "r_idx p (RGet i j a) = i" | "r_idx p (RRel i a) = i" | "r_idx p (RSt i a r) = i" | "r_idx p (RRem i a r) = i"
| "r_idx p RFin = blocks p" | "r_idx p q = 0"

fun r_done :: "tq_client \<Rightarrow> tq_state \<Rightarrow> nat" where
  "r_done p (RRem i a r) = Suc i" | "r_done p q = r_idx p q"

fun r_conf :: "tq_state \<Rightarrow> nat" where
  "r_conf (RGet i j a) = 1" | "r_conf (RRel i a) = 1" | "r_conf (RSt i a r) = 1" | "r_conf (RRem i a r) = 1"
| "r_conf q = 0"

fun r_out :: "tq_client \<Rightarrow> tq_state \<Rightarrow> nat" where
  "r_out p (RRel i a) = Suc i" | "r_out p (RSt i a r) = Suc i" | "r_out p (RRem i a r) = Suc i"
| "r_out p q = r_idx p q"

text \<open>The accumulator after the first \<open>i\<close> blocks, the specification of what is reported.\<close>

definition block :: "tq_client \<Rightarrow> nat \<Rightarrow> u32 list" where
  "block p i = map (blk p i) [0..<blk_len p]"

definition total :: "tq_client \<Rightarrow> nat \<Rightarrow> u32" where
  "total p i = foldl (upd p) 0 (concat (map (block p) [0..<i]))"

fun r_ok :: "tq_client \<Rightarrow> tq_state \<Rightarrow> bool" where
  "r_ok p (RConf i a) \<longleftrightarrow> i \<le> blocks p \<and> a = total p i"
| "r_ok p (RLoop i a r) \<longleftrightarrow> i < blocks p \<and> a = total p i \<and> r = of_nat i"
| "r_ok p (RLr i a r) \<longleftrightarrow> i < blocks p \<and> a = total p i \<and> r = of_nat i"
| "r_ok p (RLra i a r) \<longleftrightarrow> i < blocks p \<and> a = total p i \<and> r = of_nat i"
| "r_ok p (RGet i j a) \<longleftrightarrow> i < blocks p \<and> j \<le> blk_len p \<and> a = foldl (upd p) (total p i) (map (blk p i) [0..<j])"
| "r_ok p (RRel i a) \<longleftrightarrow> i < blocks p \<and> a = total p (Suc i)"
| "r_ok p (RSt i a r) \<longleftrightarrow> i < blocks p \<and> a = total p (Suc i) \<and> r = of_nat (Suc i)"
| "r_ok p (RRem i a r) \<longleftrightarrow> i < blocks p \<and> a = total p (Suc i) \<and> r = of_nat (Suc i)"
| "r_ok p q \<longleftrightarrow> True"

definition outs :: "cfg \<Rightarrow> machine \<Rightarrow> (u32 \<times> u32 \<times> u32) list" where
  "outs c m = filter (\<lambda>e. fst (snd e) = 0xCAB0) (io m)"

definition report :: "cfg \<Rightarrow> tq_client \<Rightarrow> nat \<Rightarrow> u32 \<times> u32 \<times> u32" where
  "report c p k = (IO_X_INDEX c, 0xCAB0, total p (Suc k))"

definition tq_pair :: "cfg \<Rightarrow> tq_client \<Rightarrow> (u32 \<times> u32 \<times> u32) list \<Rightarrow> tq_state \<Rightarrow> tq_state \<Rightarrow> machine \<Rightarrow> bool" where
  "tq_pair c p log q r m \<longleftrightarrow>
     s_ok q \<and> r_ok p r
     \<and> rd m (tq_loc c p SendS) = of_nat (s_done q) \<and> rd m (tq_loc c p SendR) = of_nat (s_idx q)
     \<and> rd m (tq_loc c p RecvR) = of_nat (r_done p r) \<and> rd m (tq_loc c p RecvS) = of_nat (r_idx p r)
     \<and> s_idx q + s_conf q \<le> r_idx p r + win p \<and> r_idx p r + r_conf r \<le> s_idx q
     \<and> (\<forall>k j. r_idx p r \<le> k \<longrightarrow> j < blk_len p \<longrightarrow> written q k j \<longrightarrow> rd m (tq_loc c p (Buf (slot p k j))) = blk p k j)
     \<and> outs c m = log @ map (report c p) [0..<r_out p r]"

lemma tq_cell_simps:
  assumes "tq_layout c p" and "a \<in> tq_cells p" and "b \<in> tq_cells p"
  shows "rd (put32 c (tq_loc c p a) v m) (tq_loc c p b) = (if b = a then v else rd m (tq_loc c p b))"
  using assms rd_put_cell [of "tq_loc c p" "tq_cells p" a b c v m]
  by (simp add: tq_layout_def del: tq_loc.simps)

lemma tq_io_simps:
  assumes "tq_layout c p" and "a \<in> tq_cells p"
  shows "io_log c (tq_loc c p a) v = []"
    and "rd (put32 c (Endpoint x (IO_Y_INDEX c) z) v m) (tq_loc c p a) = rd m (tq_loc c p a)"
  using assms by (simp_all add: tq_layout_def del: tq_loc.simps)

lemma tq_cells_mem [simp]:
  "SendS \<in> tq_cells p" "RecvS \<in> tq_cells p" "SendR \<in> tq_cells p" "RecvR \<in> tq_cells p"
  "Buf k \<in> tq_cells p \<longleftrightarrow> k < win p * blk_len p"
  by (auto simp: tq_cells_def)

lemma sender_window:
  assumes "r \<le> i" and "i \<le> r + n" and "n < 2 ^ 31"
  shows "slt 0 (- of_nat n + 1 + of_nat i - of_nat r :: u32) \<longleftrightarrow> r + n < Suc i"
proof -
  have "sint (word_of_int (int i + 1) - word_of_int (int r + int n) :: u32) = int i + 1 - (int r + int n)"
    using assms by (intro sint_diff_counters) auto
  moreover have e: "(- of_nat n + 1 + of_nat i - of_nat r :: u32) = word_of_int (int i + 1) - word_of_int (int r + int n)"
    by (simp add: algebra_simps)
  ultimately show ?thesis unfolding slt_def e by (simp, arith)
qed

lemma receiver_window:
  assumes "r \<le> s" and "s \<le> r + n" and "n < 2 ^ 31"
  shows "slt (of_nat s - (1 + of_nat r) :: u32) 0 \<longleftrightarrow> s < Suc r"
proof -
  have "sint (word_of_int (int s) - word_of_int (int r + 1) :: u32) = int s - (int r + 1)"
    using assms by (intro sint_diff_counters) auto
  moreover have e: "(of_nat s - (1 + of_nat r) :: u32) = word_of_int (int s) - word_of_int (int r + 1)"
    by (simp add: algebra_simps)
  ultimately show ?thesis unfolding slt_def e by (simp, arith)
qed

lemma window_apart:
  assumes "k < i" and "i < k + n" 
  shows "i mod n \<noteq> k mod (n::nat)"
proof
  assume "i mod n = k mod n"
  then have "n dvd i - k" using assms(1) by (simp add: mod_eq_dvd_iff_nat)
  then show False using assms by (auto dest!: dvd_imp_le)
qed

lemma total_Suc: "total p (Suc i) = foldl (upd p) (total p i) (block p i)"
  by (simp add: total_def)


lemma buf_mem [simp]: "0 < win p \<Longrightarrow> j < blk_len p \<Longrightarrow> Buf (slot p i j) \<in> tq_cells p"
  by (simp add: slot_less)

declare tq_loc.simps [simp del]

lemma tq_pair_buf:
  "tq_pair c p log q r m \<Longrightarrow> r_idx p r \<le> k \<Longrightarrow> j < blk_len p \<Longrightarrow> written q k j \<Longrightarrow>
   rd m (tq_loc c p (Buf (slot p k j))) = blk p k j"
  by (simp add: tq_pair_def)

lemma sender_pair:
  assumes L: "tq_layout c p" and w: "0 < win p" and P: "tq_pair c p log q r m"
    and q: "sender_state q" and n: "tq_next c p (snd_t p) q m = (q', m')"
  shows "tq_pair c p log q' r m' \<and> sender_state q'"
proof -
  note cs = tq_cell_simps [OF L] tq_io_simps [OF L] and W = w L [unfolded tq_layout_def]
  have rs: "r_idx p r \<le> s_idx q" "s_idx q \<le> r_idx p r + win p" using P by (auto simp: tq_pair_def)
  have win: "win p < 2 ^ 31" using L by (simp add: tq_layout_def)
  note sw = sender_window [OF rs win]
  show ?thesis
  proof (cases q)
    case Pre2
    then show ?thesis using n P by (auto simp: tq_pair_def cs outs_def io_log_def slot_less w)
  next
    case Pre1
    then show ?thesis using n P by (auto simp: tq_pair_def cs outs_def io_log_def slot_less w tq_start_def)
  next
    case (SConf i)
    then show ?thesis using n P by (auto simp: tq_pair_def split: if_splits)
  next
    case (SLoop i s)
    then show ?thesis using n P by (auto simp: tq_pair_def split: if_splits)
  next
    case (SLr i s)
    then show ?thesis using n P sw by (auto simp: tq_pair_def split: if_splits)
  next
    case (SLra i s)
    then show ?thesis using n P sw by (auto simp: tq_pair_def split: if_splits)
  next
    case (SPut i j)
    show ?thesis
    proof (cases "j < blk_len p")
      case True
      have d: "slot p k l \<noteq> slot p i j" if "r_idx p r \<le> k" "k < i" "l < blk_len p" for k l
        using slot_inj [of p k l i j] window_apart [of k i "win p"] that True P SPut by (auto simp: tq_pair_def)
      have "slot p i l \<noteq> slot p i j" if "l < j" "l < blk_len p" for l
        using slot_inj [of p i l i j] that True by auto
      moreover have "rd m (tq_loc c p (Buf (slot p i l))) = blk p i l" if "l < j" for l
        using tq_pair_buf [OF P, of i l] rs SPut that True by simp
      ultimately show ?thesis using n P SPut True d
        by (auto simp: tq_pair_def cs outs_def slot_less w less_Suc_eq)
    next
      case False
      have "rd m (tq_loc c p (Buf (slot p k l))) = blk p k l" if "r_idx p r \<le> k" "l < blk_len p" "k \<le> i" for k l
        using that SPut False by (intro tq_pair_buf [OF P]) auto
      then show ?thesis using n P SPut False by (auto simp: tq_pair_def)
    qed
  next
    case (SFence i s)
    then show ?thesis using n P by (auto simp: tq_pair_def)
  next
    case (SSt i s)
    then show ?thesis using n P by (auto simp: tq_pair_def cs outs_def slot_less w)
  next
    case (SRem i s)
    then show ?thesis using n P by (auto simp: tq_pair_def cs outs_def slot_less w)
  qed (use q in simp_all)
qed


lemma r_pair_mono:
  assumes "tq_pair c p log q r m" and "r_conf r = 1"
  shows "written q (r_idx p r) j"
  using assms by (cases q) (auto simp: tq_pair_def)

lemma receiver_pair:
  assumes L: "tq_layout c p" and w: "0 < win p" and P: "tq_pair c p log q r m"
    and r: "receiver_state r" and n: "tq_next c p (rcv_t p) r m = (r', m')"
  shows "tq_pair c p log q r' m' \<and> receiver_state r'"
proof -
  note cs = tq_cell_simps [OF L] tq_io_simps [OF L]
  have rs: "r_idx p r \<le> s_idx q" "s_idx q \<le> r_idx p r + win p" using P by (auto simp: tq_pair_def)
  have win: "win p < 2 ^ 31" and ne: "rcv_t p \<noteq> snd_t p" using L by (auto simp: tq_layout_def)
  note rw = receiver_window [OF rs win]
  show ?thesis
  proof (cases r)
    case Pre1
    then show ?thesis using n P ne by (auto simp: tq_pair_def cs outs_def io_log_def slot_less w tq_start_def total_def)
  next
    case (RConf i a)
    then show ?thesis using n P by (auto simp: tq_pair_def cs outs_def io_log_def slot_less w split: if_splits)
  next
    case (RLoop i a s)
    then show ?thesis using n P by (auto simp: tq_pair_def)
  next
    case (RLr i a s)
    then show ?thesis using n P rw by (auto simp: tq_pair_def split: if_splits)
  next
    case (RLra i a s)
    then show ?thesis using n P rw by (auto simp: tq_pair_def split: if_splits)
  next
    case (RGet i j a)
    show ?thesis
    proof (cases "j < blk_len p")
      case True
      then have "rd m (tq_loc c p (Buf (slot p i j))) = blk p i j"
        using tq_pair_buf [OF P, of i j] r_pair_mono [OF P, of j] RGet by simp
      then show ?thesis using n P RGet True by (auto simp: tq_pair_def)
    next
      case False
      then have "j = blk_len p" using P RGet by (auto simp: tq_pair_def)
      then show ?thesis using n P RGet
        by (auto simp: tq_pair_def cs outs_def slot_less w io_log_def report_def total_Suc block_def)
    qed
  next
    case (RRel i a)
    then show ?thesis using n P by (auto simp: tq_pair_def)
  next
    case (RSt i a s)
    then show ?thesis using n P by (auto simp: tq_pair_def cs outs_def slot_less w)
  next
    case (RRem i a s)
    then show ?thesis using n P by (auto simp: tq_pair_def cs outs_def slot_less w)
  next
    case RFin
    then show ?thesis using n P by (auto simp: tq_pair_def)
  qed (use r in simp_all)
qed

section \<open>All interleavings\<close>

definition tq_inv :: "cfg \<Rightarrow> tq_client \<Rightarrow> (u32 \<times> u32 \<times> u32) list \<Rightarrow> (tile \<Rightarrow> tq_state) \<Rightarrow> machine \<Rightarrow> bool" where
  "tq_inv c p log qs m \<longleftrightarrow> tq_layout c p \<and> 0 < win p \<and> (\<forall>t. in_group c t \<longrightarrow> role_ok p t (qs t))
     \<and> tq_pair c p log (qs (snd_t p)) (qs (rcv_t p)) m"

lemma idle_pair:
  assumes L: "tq_layout c p" and w: "0 < win p" and P: "tq_pair c p log q r m"
    and i: "i = Idle \<or> i = Pre1" and t: "t \<noteq> snd_t p" "t \<noteq> rcv_t p" and n: "tq_next c p t i m = (i', m')"
  shows "tq_pair c p log q r m' \<and> i' = Idle"
  using i n t P tq_io_simps [OF L]
  by (auto simp: tq_pair_def outs_def io_log_def slot_less w tq_start_def)

lemma tq_inv_step:
  assumes t: "in_group c t" and I: "tq_inv c p log qs m" and n: "tq_next c p t (qs t) m = (q', m')"
  shows "tq_inv c p log (qs(t := q')) m'"
proof -
  have L: "tq_layout c p" and w: "0 < win p" and R: "role_ok p t (qs t)"
    and P: "tq_pair c p log (qs (snd_t p)) (qs (rcv_t p)) m"
    using I t by (auto simp: tq_inv_def)
  have ne: "snd_t p \<noteq> rcv_t p" using L by (simp add: tq_layout_def)
  consider "t = snd_t p" | "t = rcv_t p" | "t \<noteq> snd_t p" "t \<noteq> rcv_t p" by blast
  then show ?thesis
  proof cases
    case 1
    then show ?thesis
      using sender_pair [OF L w P, of q' m'] R n I ne by (auto simp: role_ok_def tq_inv_def)
  next
    case 2
    then show ?thesis
      using receiver_pair [OF L w P, of q' m'] R n I ne by (auto simp: role_ok_def tq_inv_def)
  next
    case 3
    then show ?thesis
      using idle_pair [OF L w P _ 3 n] R I by (auto simp: role_ok_def tq_inv_def)
  qed
qed

interpretation tq: control_points c "tq_prog c p" "tq_next c p" "tq_inv c p log" for c p log
proof unfold_locales
  fix t qs m
  assume "in_group c t" "tq_inv c p log qs m"
  then show "pstep c t (tq_prog c p t (qs t), m)
    = (tq_prog c p t (fst (tq_next c p t (qs t) m)), snd (tq_next c p t (qs t) m))"
    by (intro tq_code_step) (auto simp: tq_inv_def)
qed (rule tq_inv_step)

definition tq_entry :: "tq_client \<Rightarrow> tile \<Rightarrow> tq_state" where
  "tq_entry p t = (if t = snd_t p then Pre2 else Pre1)"

definition tq_empty :: "cfg \<Rightarrow> tq_client \<Rightarrow> machine \<Rightarrow> bool" where
  "tq_empty c p m \<longleftrightarrow> (\<forall>a \<in> {SendS, RecvS, SendR, RecvR}. rd m (tq_loc c p a) = 0)"

lemma tq_program_entry: "tq_layout c p \<Longrightarrow> tq_program c p = (\<lambda>t. tq_prog c p t (tq_entry p t))"
  by (rule ext) (auto simp: tq_program_def tq_entry_def tq_prog_simps tq_start_def print_then_def bsg_print_time_def)

lemma tq_reachable:
  assumes "tq_layout c p" and "0 < win p" and "tq_empty c p m0" and "reachable c (tq_program c p, m0) s"
  obtains qs where "fst s = (\<lambda>t. tq_prog c p t (qs t))" and "tq_inv c p (outs c m0) qs (snd s)"
proof -
  have "tq_inv c p (outs c m0) (tq_entry p) m0"
    using assms by (auto simp: tq_inv_def tq_pair_def tq_empty_def tq_entry_def role_ok_def tq_layout_def)
  then show ?thesis
    using tq.reachable_inv [of c p "tq_entry p" m0 s "outs c m0"] assms that tq_program_entry by auto
qed
section \<open>Order, exclusion and progress\<close>

lemma tq_body_spin: "receiver_state r \<Longrightarrow> r \<noteq> Pre1 \<Longrightarrow> tq_body c p r = spin_forever \<Longrightarrow> r = RFin"
proof (cases r)
  case (RConf i a)
  then show "tq_body c p r = spin_forever \<Longrightarrow> r = RFin"
    by (cases "i < blocks p") (auto simp: consumer_step consumer_end bsg_finish_def spin_forever_def)
next
  case (RGet i j a)
  then show "tq_body c p r = spin_forever \<Longrightarrow> r = RFin"
    by (cases "j < blk_len p") (auto simp: drain_rest_step spin_forever_def)
qed (auto simp: spin_forever_def receiver_wait_def bsg_lr_def bsg_tq_receiver_release_def)

lemma tq_receiver_done:
  assumes "tq_inv c p log qs m" and "tq_prog c p (rcv_t p) (qs (rcv_t p)) = spin_forever"
  shows "qs (rcv_t p) = RFin"
proof -
  have r: "receiver_state (qs (rcv_t p))"
    using assms(1) by (auto simp: tq_inv_def role_ok_def tq_layout_def split: if_splits)
  moreover have "qs (rcv_t p) \<noteq> Pre1" "qs (rcv_t p) \<noteq> Pre2"
    using assms(2) r by (auto simp: tq_prog_simps print_then_def spin_forever_def)
  ultimately show ?thesis using assms(2) tq_body_spin by (simp add: tq_prog_simps)
qed

lemma tq_reports:
  assumes "tq_inv c p log qs m"
  shows "\<exists>n k. n \<le> k \<and> k \<le> n + win p \<and> n \<le> blocks p \<and> rd m (tq_loc c p SendR) = of_nat k
    \<and> outs c m = log @ map (report c p) [0..<n]
    \<and> (tq_prog c p (rcv_t p) (qs (rcv_t p)) = spin_forever \<longrightarrow> n = blocks p)"
proof -
  let ?r = "qs (rcv_t p)" and ?q = "qs (snd_t p)"
  have P: "rd m (tq_loc c p SendR) = of_nat (s_idx ?q)" "s_idx ?q + s_conf ?q \<le> r_idx p ?r + win p"
    "r_idx p ?r + r_conf ?r \<le> s_idx ?q" "outs c m = log @ map (report c p) [0..<r_out p ?r]" "r_ok p ?r"
    using assms by (auto simp: tq_inv_def tq_pair_def)
  have "r_out p ?r \<le> blocks p" using P(5) by (cases ?r) auto
  moreover have "r_idx p ?r \<le> r_out p ?r" "r_out p ?r \<le> r_idx p ?r + r_conf ?r" by (cases ?r; simp)+
  then have "r_out p ?r \<le> s_idx ?q" "s_idx ?q \<le> r_out p ?r + win p" using P(2,3) by linarith+
  ultimately show ?thesis using P(1,4) tq_receiver_done [OF assms] by (intro exI [of _ "r_out p ?r"] exI [of _ "s_idx ?q"]) auto
qed

text \<open>
  C13: in every interleaving the receiver has reported the first \<open>n\<close> blocks in the order sent, where \<open>n\<close> is at most the
  number \<open>k\<close> of blocks the sender has transferred (modulo \<open>2\<^sup>3\<^sup>2\<close> the counter \<open>send\<close> in the receiver's memory), and at
  most the window size behind it. When the receiver has finished, \<open>n\<close> is the number of all blocks. That number is arbitrary,
  so the counters may wrap any number of times.
\<close>

lemma tq_fifo:
  assumes "tq_layout c p" and "0 < win p" and "tq_empty c p m0" and "reachable c (tq_program c p, m0) s"
  shows "\<exists>n k. n \<le> k \<and> k \<le> n + win p \<and> n \<le> blocks p \<and> rd (snd s) (tq_loc c p SendR) = of_nat k
    \<and> outs c (snd s) = outs c m0 @ map (report c p) [0..<n]
    \<and> (fst s (rcv_t p) = spin_forever \<longrightarrow> n = blocks p)"
proof -
  obtain qs where f: "fst s = (\<lambda>t. tq_prog c p t (qs t))" and I: "tq_inv c p (outs c m0) qs (snd s)"
    using tq_reachable [OF assms] .
  show ?thesis using tq_reports [OF I] f by simp
qed

definition next_store :: "proc \<Rightarrow> u32 option" where
  "next_store pr = (case next_op pr of Some (Store32 a v) \<Rightarrow> Some a | _ \<Rightarrow> None)"

definition next_load :: "proc \<Rightarrow> u32 option" where
  "next_load pr = (case next_op pr of Some (Load32 a) \<Rightarrow> Some a | _ \<Rightarrow> None)"

lemmas next_simps = next_store_def next_load_def next_op_def

text \<open>The words each side loads and stores with plain accesses, by control state.\<close>

lemma sender_store:
  assumes "tq_inv c p log qs m" and "next_store (tq_prog c p (snd_t p) (qs (snd_t p))) = Some a"
  shows "(\<exists>x z. eva_to_npa c (snd_t p) a = Endpoint x (IO_Y_INDEX c) z)
    \<or> (\<exists>k \<in> {SendS, SendR}. eva_to_npa c (snd_t p) a = tq_loc c p k)
    \<or> (\<exists>i j. qs (snd_t p) = SPut i j \<and> j < blk_len p \<and> eva_to_npa c (snd_t p) a = tq_loc c p (Buf (slot p i j)))"
proof -
  have L: "tq_layout c p" and w: "0 < win p" and q: "sender_state (qs (snd_t p))"
    using assms(1) by (auto simp: tq_inv_def role_ok_def tq_layout_def)
  have io: "eva_to_npa c (snd_t p) (bsg_remote_ptr_io c (IO_X_INDEX c) 0xEAD4) = Endpoint (IO_X_INDEX c) (IO_Y_INDEX c) 0xEAD4"
    using L by (intro eva_io) (auto simp: tq_layout_def)
  show ?thesis
  proof (cases "qs (snd_t p)")
    case (SConf i)
    then show ?thesis using assms(2)
      by (cases "i < blocks p") (auto simp: tq_prog_simps producer_step producer_end next_simps spin_forever_def)
  next
    case (SPut i j)
    then show ?thesis using assms(2) L slot_less [OF _ w, of j i]
      by (cases "j < blk_len p") (auto simp: tq_prog_simps fill_rest_step next_simps tq_layout_def)
  qed (use assms(2) q L io in \<open>auto simp: tq_prog_simps print_then_def next_simps sender_wait_def tq_layout_def tq_loc.simps\<close>)
qed

lemma receiver_load:
  assumes "tq_inv c p log qs m" and "next_load (tq_prog c p (rcv_t p) (qs (rcv_t p))) = Some a"
  shows "eva_to_npa c (rcv_t p) a = tq_loc c p RecvR
    \<or> (\<exists>i j acc. qs (rcv_t p) = RGet i j acc \<and> j < blk_len p \<and> eva_to_npa c (rcv_t p) a = tq_loc c p (Buf (slot p i j)))"
proof -
  have q: "receiver_state (qs (rcv_t p))"
    using assms(1) by (auto simp: tq_inv_def role_ok_def tq_layout_def split: if_splits)
  show ?thesis
  proof (cases "qs (rcv_t p)")
    case (RConf i a)
    then show ?thesis using assms(2)
      by (cases "i < blocks p") (auto simp: tq_prog_simps consumer_step consumer_end next_simps bsg_finish_def tq_loc.simps)
  next
    case (RGet i j a)
    then show ?thesis using assms(2)
      by (cases "j < blk_len p") (auto simp: tq_prog_simps drain_rest_step next_simps tq_loc.simps)
  qed (use assms(2) q in \<open>auto simp: tq_prog_simps print_then_def next_simps receiver_wait_def spin_forever_def
        bsg_tq_receiver_release_def tq_loc.simps\<close>)
qed

text \<open>
  C14: the sender never stores a word that the receiver is about to load: the window being filled
  and the window being drained are different whenever both are in use.
\<close>

lemma tq_race_free:
  assumes "tq_layout c p" and "0 < win p" and "tq_empty c p m0" and "reachable c (tq_program c p, m0) s"
    and "next_store (fst s (snd_t p)) = Some a" and "next_load (fst s (rcv_t p)) = Some b"
  shows "span4 (eva_to_npa c (snd_t p) a) \<inter> span4 (eva_to_npa c (rcv_t p) b) = {}"
proof -
  obtain qs where f: "fst s = (\<lambda>t. tq_prog c p t (qs t))" and I: "tq_inv c p (outs c m0) qs (snd s)"
    using tq_reachable [OF assms(1-4)] .
  have P: "tq_pair c p (outs c m0) (qs (snd_t p)) (qs (rcv_t p)) (snd s)" using I by (simp add: tq_inv_def)
  have d: "span4 (tq_loc c p k) \<inter> span4 (tq_loc c p l) = {}" if "k \<in> tq_cells p" "l \<in> tq_cells p" "k \<noteq> l" for k l
    using assms(1) that by (simp add: tq_layout_def disjoint_cells_def)
  have o: "span4 (Endpoint x (IO_Y_INDEX c) z) \<inter> span4 (tq_loc c p l) = {}" if "l \<in> tq_cells p" for x z l
  proof -
    have "off_io c (tq_loc c p l)" using assms(1) that by (simp add: tq_layout_def)
    then show ?thesis by (cases "tq_loc c p l") (auto simp: off_io_def span4_def)
  qed
  note st = sender_store [OF I, unfolded f [THEN fun_cong, symmetric], OF assms(5)]
  note ld = receiver_load [OF I, unfolded f [THEN fun_cong, symmetric], OF assms(6)]
  have w: "slot p i j \<noteq> slot p k l"
    if "qs (snd_t p) = SPut i j" "qs (rcv_t p) = RGet k l acc" "j < blk_len p" "l < blk_len p" for i j k l acc
    using P that slot_inj [of p i j k l] window_apart [of k i "win p"] by (auto simp: tq_pair_def)
  obtain l where l: "l \<in> tq_cells p" "eva_to_npa c (rcv_t p) b = tq_loc c p l"
    and lk: "l = RecvR \<or> (\<exists>k j acc. qs (rcv_t p) = RGet k j acc \<and> j < blk_len p \<and> l = Buf (slot p k j))"
    using ld slot_less [OF _ assms(2)] by (metis tq_cells_mem(4,5))
  from st consider (io) x z where "eva_to_npa c (snd_t p) a = Endpoint x (IO_Y_INDEX c) z"
    | (cell) k where "k \<in> tq_cells p" "eva_to_npa c (snd_t p) a = tq_loc c p k" "k \<noteq> l"
  proof (elim disjE)
    assume "\<exists>k \<in> {SendS, SendR}. eva_to_npa c (snd_t p) a = tq_loc c p k"
    then show thesis using cell [of SendS] cell [of SendR] lk by auto
  next
    assume "\<exists>i j. qs (snd_t p) = SPut i j \<and> j < blk_len p \<and> eva_to_npa c (snd_t p) a = tq_loc c p (Buf (slot p i j))"
    then obtain i j where "qs (snd_t p) = SPut i j" "j < blk_len p" "eva_to_npa c (snd_t p) a = tq_loc c p (Buf (slot p i j))"
      by blast
    then show thesis using cell [of "Buf (slot p i j)"] lk w [of i j] slot_less [OF _ assms(2), of j i] by auto
  qed (use io in blast)
  then show ?thesis by cases (simp_all add: l o d)
qed

text \<open>Progress: the two sides never wait for each other.\<close>

fun s_rank :: "tq_client \<Rightarrow> tq_state \<Rightarrow> nat" where
  "s_rank p Pre2 = blocks p * (blk_len p + 9) + 2"
| "s_rank p Pre1 = blocks p * (blk_len p + 9) + 1"
| "s_rank p (SConf i) = (blocks p - i) * (blk_len p + 9)"
| "s_rank p (SLoop i s) = (blocks p - Suc i) * (blk_len p + 9) + blk_len p + 8"
| "s_rank p (SLr i s) = (blocks p - Suc i) * (blk_len p + 9) + blk_len p + 7"
| "s_rank p (SLra i s) = (blocks p - Suc i) * (blk_len p + 9) + blk_len p + 6"
| "s_rank p (SPut i j) = (blocks p - Suc i) * (blk_len p + 9) + (blk_len p - j) + 5"
| "s_rank p (SFence i s) = (blocks p - Suc i) * (blk_len p + 9) + 4"
| "s_rank p (SSt i s) = (blocks p - Suc i) * (blk_len p + 9) + 3"
| "s_rank p (SRem i s) = (blocks p - Suc i) * (blk_len p + 9) + 2"
| "s_rank p q = 0"

fun r_rank :: "tq_client \<Rightarrow> tq_state \<Rightarrow> nat" where
  "r_rank p Pre1 = blocks p * (blk_len p + 9) + 2"
| "r_rank p (RConf i a) = (blocks p - i) * (blk_len p + 9) + 1"
| "r_rank p (RLoop i a s) = (blocks p - Suc i) * (blk_len p + 9) + blk_len p + 8"
| "r_rank p (RLr i a s) = (blocks p - Suc i) * (blk_len p + 9) + blk_len p + 7"
| "r_rank p (RLra i a s) = (blocks p - Suc i) * (blk_len p + 9) + blk_len p + 6"
| "r_rank p (RGet i j a) = (blocks p - Suc i) * (blk_len p + 9) + (blk_len p - j) + 5"
| "r_rank p (RRel i a) = (blocks p - Suc i) * (blk_len p + 9) + 4"
| "r_rank p (RSt i a s) = (blocks p - Suc i) * (blk_len p + 9) + 3"
| "r_rank p (RRem i a s) = (blocks p - Suc i) * (blk_len p + 9) + 2"
| "r_rank p q = 0"

definition tq_rank :: "tq_client \<Rightarrow> (tile \<Rightarrow> tq_state) \<Rightarrow> nat" where
  "tq_rank p qs = s_rank p (qs (snd_t p)) + r_rank p (qs (rcv_t p))"

lemma rank_block: "i < B \<Longrightarrow> (B - i) * (k + 9) = (B - Suc i) * (k + 9) + k + (9::nat)"
proof -
  assume "i < B"
  then have e: "B - i = Suc (B - Suc i)" by simp
  show ?thesis unfolding e by simp
qed

lemma receiver_progress:
  assumes "tq_layout c p" and P: "tq_pair c p log q r m" and "receiver_state r" and "r \<noteq> RFin"
    and "r_conf r = 1 \<or> r_idx p r < s_idx q \<or> r_idx p r = blocks p"
  shows "r_rank p (fst (tq_next c p (rcv_t p) r m)) < r_rank p r"
proof -
  have ne: "rcv_t p \<noteq> snd_t p" and win: "win p < 2 ^ 31" using assms(1) by (auto simp: tq_layout_def)
  have rs: "r_idx p r \<le> s_idx q" "s_idx q \<le> r_idx p r + win p" using P by (auto simp: tq_pair_def)
  note rw = receiver_window [OF rs win]
  show ?thesis
    using assms(2-5) rw ne
    by (cases r) (auto simp: tq_start_def tq_pair_def rank_block)
qed

lemma sender_progress:
  assumes "tq_layout c p" and P: "tq_pair c p log q r m" and "sender_state q"
    and "s_idx q < blocks p" and "s_conf q = 1 \<or> s_idx q < r_idx p r + win p"
  shows "s_rank p (fst (tq_next c p (snd_t p) q m)) < s_rank p q"
proof -
  have win: "win p < 2 ^ 31" using assms(1) by (auto simp: tq_layout_def)
  have rs: "r_idx p r \<le> s_idx q" "s_idx q \<le> r_idx p r + win p" using P by (auto simp: tq_pair_def)
  note sw = sender_window [OF rs win]
  show ?thesis
    using assms(2-5) sw
    by (cases q) (auto simp: tq_start_def tq_pair_def rank_block)
qed


lemma tq_progress:
  assumes I: "tq_inv c p log qs m" and "qs (rcv_t p) \<noteq> RFin"
  shows "\<exists>t. in_group c t \<and> tq_rank p (qs(t := fst (tq_next c p t (qs t) m))) < tq_rank p qs"
proof -
  have L: "tq_layout c p" and w: "0 < win p" and P: "tq_pair c p log (qs (snd_t p)) (qs (rcv_t p)) m"
    using I by (auto simp: tq_inv_def)
  then have g: "in_group c (snd_t p)" "in_group c (rcv_t p)" and ne: "snd_t p \<noteq> rcv_t p" by (auto simp: tq_layout_def)
  have role: "sender_state (qs (snd_t p))" "receiver_state (qs (rcv_t p))"
    using I g ne by (auto simp: tq_inv_def role_ok_def split: if_splits)
  show ?thesis
  proof (cases "r_conf (qs (rcv_t p)) = 1 \<or> r_idx p (qs (rcv_t p)) < s_idx (qs (snd_t p)) \<or> r_idx p (qs (rcv_t p)) = blocks p")
    case True
    then show ?thesis
      using receiver_progress [OF L P role(2) assms(2)] g ne by (intro exI [of _ "rcv_t p"]) (simp add: tq_rank_def)
  next
    case False
    have "r_ok p (qs (rcv_t p))" using P by (simp add: tq_pair_def)
    then have "r_idx p (qs (rcv_t p)) \<le> blocks p" using role(2) by (cases "qs (rcv_t p)") auto
    then have "s_idx (qs (snd_t p)) < blocks p" "s_idx (qs (snd_t p)) < r_idx p (qs (rcv_t p)) + win p"
      using False P w by (auto simp: tq_pair_def)
    then show ?thesis
      using sender_progress [OF L P role(1)] g ne by (intro exI [of _ "snd_t p"]) (simp add: tq_rank_def)
  qed
qed

lemma tq_can_finish:
  assumes "tq_layout c p" and "0 < win p" and "tq_empty c p m0" and "reachable c (tq_program c p, m0) s"
  shows "\<exists>s'. reachable c s s' \<and> fst s' (rcv_t p) = spin_forever \<and> outs c (snd s') = outs c m0 @ map (report c p) [0..<blocks p]"
proof -
  obtain qs where f: "fst s = (\<lambda>t. tq_prog c p t (qs t))" and I: "tq_inv c p (outs c m0) qs (snd s)"
    using tq_reachable [OF assms] .
  obtain qs' m' where r: "reachable c (\<lambda>t. tq_prog c p t (qs t), snd s) (\<lambda>t. tq_prog c p t (qs' t), m')"
    and fin: "tq_inv c p (outs c m0) qs' m'" "qs' (rcv_t p) = RFin"
    using tq.can_reach [where goal = "\<lambda>qs. qs (rcv_t p) = RFin" and rank = "tq_rank p", OF I] tq_progress by blast
  then have "outs c m' = outs c m0 @ map (report c p) [0..<blocks p]" by (simp add: tq_inv_def tq_pair_def)
  moreover have "tq_prog c p (rcv_t p) (qs' (rcv_t p)) = spin_forever"
    using fin assms(1) by (auto simp: tq_prog_simps tq_layout_def)
  moreover have "s = (\<lambda>t. tq_prog c p t (qs t), snd s)" using f by (cases s) simp
  ultimately show ?thesis using r by (intro exI [of _ "(\<lambda>t. tq_prog c p t (qs' t), m')"]) simp
qed

text \<open>
  C15: the sender and the receiver never block each other for good: from every reachable state the
  receiver can still get all blocks.
\<close>

lemma tq_no_deadlock:
  assumes "tq_layout c p" and "0 < win p" and "tq_empty c p m0" and "reachable c (tq_program c p, m0) s"
  shows "\<exists>s'. reachable c s s' \<and> outs c (snd s') = outs c m0 @ map (report c p) [0..<blocks p]"
  using tq_can_finish [OF assms] by blast

end
