(* ===== verification/Token_Queue_Test.thy ===== *)
theory Token_Queue_Test
  imports Token_Queue
begin

text \<open>
  The test program \<open>spmd/bsg_token_queue/main.c\<close>: tile 0 sends 100 blocks of 100 words to tile 1
  through a double buffer, tile 1 reports the running sum after each block. The program is an
  instance of the producer and consumer of \<open>Token_Queue\<close>, so its reports are determined in every
  interleaving. The last section exhibits the wrap-around error of the 16-bit variant.
\<close>

section \<open>The program\<close>

definition kBufferWindows :: nat where "kBufferWindows = 2"
definition kTransmitSize :: nat where "kTransmitSize = 100"
definition kBufferSize :: nat where "kBufferSize = kTransmitSize * kBufferWindows"
definition kBlocks :: nat where "kBlocks = 100"

definition source_process :: "u32 \<Rightarrow> proc" where
  "source_process ptr = for_each (map (\<lambda>k. 2 * k) [0..<kTransmitSize div 2]) (\<lambda>j.
     seq (Act (Store32 (ptr + 4 * of_nat j) (of_nat j)) Ret)
         (Act (Store32 (ptr + 4 * of_nat (j + 1)) (of_nat j)) Ret))"

definition dest_process :: "u32 \<Rightarrow> u32 \<Rightarrow> u32 \<Rightarrow> proc" where
  "dest_process acc ptr io_ptr =
     bind (for_fold [0..<kTransmitSize] (\<lambda>i acc. Act (Load32 (ptr + 4 * of_nat i)) (\<lambda>v. Ret (acc + v))) acc)
       (\<lambda>acc. seq (Act (Store32 io_ptr acc) Ret) (Ret acc))"

definition next_index :: "u32 \<Rightarrow> u32" where
  "next_index bufIndex = (if bufIndex + of_nat kTransmitSize = of_nat kBufferSize then 0 else bufIndex + of_nat kTransmitSize)"

primrec source_loop :: "bsg_token_connection \<Rightarrow> u32 \<Rightarrow> nat \<Rightarrow> u32 \<Rightarrow> proc" where
  "source_loop conn ptr 0 bufIndex = Ret 0"
| "source_loop conn ptr (Suc n) bufIndex =
     seq (bsg_tq_sender_confirm conn (of_nat kBufferWindows) 1)
       (seq (source_process (ptr + 4 * bufIndex))
         (seq (bsg_tq_sender_xfer conn (of_nat kBufferWindows) 1)
           (source_loop conn ptr n (next_index bufIndex))))"

primrec dest_loop :: "bsg_token_connection \<Rightarrow> u32 \<Rightarrow> u32 \<Rightarrow> nat \<Rightarrow> u32 \<Rightarrow> u32 \<Rightarrow> proc" where
  "dest_loop conn ptr io_ptr 0 bufIndex acc = Ret acc"
| "dest_loop conn ptr io_ptr (Suc n) bufIndex acc =
     seq (bsg_tq_receiver_confirm conn 1)
       (bind (dest_process acc (ptr + 4 * bufIndex) io_ptr) (\<lambda>acc.
         seq (bsg_tq_receiver_release conn 1)
           (dest_loop conn ptr io_ptr n (next_index bufIndex) acc)))"

text \<open>
  \<open>t\<close> is the pair \<open>(bsg_x, bsg_y)\<close> that \<open>bsg_set_tile_x_y\<close> has stored; \<open>tq\<close> and \<open>buffer\<close> are the
  addresses of the globals of these names. \<open>bsg_finish\<close> does not return.
\<close>

definition tq_main :: "cfg \<Rightarrow> u32 \<Rightarrow> u32 \<Rightarrow> tile \<Rightarrow> proc" where
  "tq_main c tq buffer t =
     (let id = bsg_x_y_to_id c (fst t) (snd t); ptr = bsg_remote_ptr 1 0 buffer in
      seq (bsg_print_time c t)
        (if id = 0 then
           seq (bsg_print_time c t)
             (seq (source_loop (bsg_tq_send_connection c t tq 1 0) ptr kBlocks 0) spin_forever)
         else if id = 1 then
           seq (dest_loop (bsg_tq_receive_connection c t tq 0 0) buffer
                  (bsg_remote_ptr_io c (IO_X_INDEX c) 0xCAB0) kBlocks 0 0)
             (bsg_finish c t)
         else spin_forever))"

section \<open>The program is a client of the queue\<close>

definition tq_test_client :: "cfg \<Rightarrow> u32 \<Rightarrow> u32 \<Rightarrow> tq_client" where
  "tq_test_client c tq buffer =
     \<lparr>snd_t = (0, 0), rcv_t = (1, 0),
      sconn = bsg_tq_send_connection c (0, 0) tq 1 0, rconn = bsg_tq_receive_connection c (1, 0) tq 0 0,
      sbuf = bsg_remote_ptr 1 0 buffer, rbuf = buffer,
      win = kBufferWindows, blk_len = kTransmitSize, blocks = kBlocks,
      blk = (\<lambda>i j. of_nat (2 * (j div 2))), upd = (+)\<rparr>"

lemmas k_defs = kBufferWindows_def kTransmitSize_def kBufferSize_def kBlocks_def

lemma tq_test_client_simps [simp]:
  "snd_t (tq_test_client c tq buffer) = (0, 0)" "rcv_t (tq_test_client c tq buffer) = (1, 0)"
  "sconn (tq_test_client c tq buffer) = bsg_tq_send_connection c (0, 0) tq 1 0"
  "rconn (tq_test_client c tq buffer) = bsg_tq_receive_connection c (1, 0) tq 0 0"
  "sbuf (tq_test_client c tq buffer) = bsg_remote_ptr 1 0 buffer" "rbuf (tq_test_client c tq buffer) = buffer"
  "win (tq_test_client c tq buffer) = kBufferWindows" "blk_len (tq_test_client c tq buffer) = kTransmitSize"
  "blocks (tq_test_client c tq buffer) = kBlocks"
  "blk (tq_test_client c tq buffer) i j = of_nat (2 * (j div 2))" "upd (tq_test_client c tq buffer) = (+)"
  by (simp_all add: tq_test_client_def)

lemma next_index_mod:
  "next_index (of_nat (i mod kBufferWindows * kTransmitSize)) = of_nat (Suc i mod kBufferWindows * kTransmitSize)"
  by (cases "even i") (auto simp: next_index_def k_defs even_iff_mod_2_eq_zero odd_iff_mod_2_eq_one mod_Suc)

lemma kTransmitSize_even: "2 * (kTransmitSize div 2) = kTransmitSize"
  by (simp add: k_defs)

lemma source_process_put:
  "source_process (ptr + 4 * of_nat k) = for_each [0..<kTransmitSize]
     (\<lambda>j. Act (Store32 (ptr + 4 * of_nat (k + j)) (of_nat (2 * (j div 2)))) Ret)"
proof -
  have "source_process (ptr + 4 * of_nat k) = for_each [0..<kTransmitSize div 2] (\<lambda>l.
     seq (Act (Store32 (ptr + 4 * of_nat (k + 2 * l)) (of_nat (2 * (2 * l div 2)))) Ret)
         (Act (Store32 (ptr + 4 * of_nat (k + (2 * l + 1))) (of_nat (2 * ((2 * l + 1) div 2)))) Ret))"
    unfolding source_process_def for_each_map by (rule for_each_cong) (simp add: algebra_simps)
  then show ?thesis
    using for_each_pairs [of "kTransmitSize div 2"
        "\<lambda>j. Act (Store32 (ptr + 4 * of_nat (k + j)) (of_nat (2 * (j div 2)))) Ret"]
    unfolding kTransmitSize_even by simp
qed

lemma source_loop_client:
  "i \<le> kBlocks \<Longrightarrow>
   source_loop (bsg_tq_send_connection c (0, 0) tq 1 0) (bsg_remote_ptr 1 0 b) (kBlocks - i)
       (of_nat (i mod kBufferWindows * kTransmitSize))
     = for_each [i..<kBlocks] (send_block (tq_test_client c tq b))"
proof (induction "kBlocks - i" arbitrary: i)
  case 0
  then show ?case by simp
next
  case (Suc n)
  then have i: "i < kBlocks" "kBlocks - i = Suc (kBlocks - Suc i)" "n = kBlocks - Suc i" by simp_all
  show ?case
    using Suc(1) [of "Suc i"] i
    by (simp add: upt_conv_Cons send_block_def put_word_def [abs_def] slot_def next_index_mod source_process_put
        del: of_nat_mult of_nat_add)
qed

lemma dest_process_get:
  "dest_process acc (ptr + 4 * of_nat k) io_ptr = bind (for_fold [0..<kTransmitSize]
     (\<lambda>j acc. Act (Load32 (ptr + 4 * of_nat (k + j))) (\<lambda>v. Ret (acc + v))) acc)
       (\<lambda>acc. Act (Store32 io_ptr acc) (\<lambda>_. Ret acc))"
  by (simp add: dest_process_def algebra_simps)

lemma dest_loop_client:
  "i \<le> kBlocks \<Longrightarrow>
   dest_loop (bsg_tq_receive_connection c (1, 0) tq 0 0) b (out_ptr c) (kBlocks - i)
       (of_nat (i mod kBufferWindows * kTransmitSize)) acc
     = for_fold [i..<kBlocks] (receive_block c (tq_test_client c tq b)) acc"
proof (induction "kBlocks - i" arbitrary: i acc)
  case 0
  then show ?case by simp
next
  case (Suc n)
  then have i: "i < kBlocks" "kBlocks - i = Suc (kBlocks - Suc i)" "n = kBlocks - Suc i" by simp_all
  show ?case
    using Suc(1) [of "Suc i"] i
    by (simp add: upt_conv_Cons receive_block_def get_word_def [abs_def] slot_def next_index_mod dest_process_get
        del: of_nat_mult of_nat_add)
qed

lemma tile_id_01:
  assumes "group_fits c" and "1 < bsg_tiles_X c" and "in_group c t"
  shows "bsg_x_y_to_id c (fst t) (snd t) = 0 \<longleftrightarrow> t = (0, 0)" "bsg_x_y_to_id c (fst t) (snd t) = 1 \<longleftrightarrow> t = (1, 0)"
proof -
  have g: "in_group c (0, 0)" "in_group c (1, 0)" using assms by (auto simp: in_group_def group_fits_def)
  have i: "bsg_id_to_x c (bsg_x_y_to_id c (fst t) (snd t)) = fst t" "bsg_id_to_y c (bsg_x_y_to_id c (fst t) (snd t)) = snd t"
    using tile_id_roundtrip [of c "fst t" "snd t"] assms by simp_all
  have z: "bsg_id_to_x c 0 = 0 \<and> bsg_id_to_y c 0 = 0" "bsg_id_to_x c 1 = 1 \<and> bsg_id_to_y c 1 = 0"
    using tile_id_roundtrip [OF assms(1) g(1)] tile_id_roundtrip [OF assms(1) g(2)] by (simp_all add: bsg_x_y_to_id_def)
  show "bsg_x_y_to_id c (fst t) (snd t) = 0 \<longleftrightarrow> t = (0, 0)" "bsg_x_y_to_id c (fst t) (snd t) = 1 \<longleftrightarrow> t = (1, 0)"
    using i z by (auto simp: bsg_x_y_to_id_def prod_eq_iff)
qed

lemma tq_main_client:
  assumes "group_fits c" and "1 < bsg_tiles_X c" and "in_group c t"
  shows "tq_main c tq b t = tq_program c (tq_test_client c tq b) t"
  using tile_id_01 [OF assms] source_loop_client [of 0 c tq b] dest_loop_client [of 0 c tq b 0]
  by (auto simp: tq_main_def tq_program_def Let_def producer_def consumer_def out_ptr_def)

section \<open>The layout of its memory\<close>

definition tq_test_layout :: "cfg \<Rightarrow> u32 \<Rightarrow> u32 \<Rightarrow> bool" where
  "tq_test_layout c tq buffer \<longleftrightarrow>
     group_fits c \<and> 1 < bsg_tiles_X c \<and> io_fits c \<and> (\<forall>y < bsg_tiles_Y c. cord_y c y \<noteq> IO_Y_INDEX c)
     \<and> unat tq + 8 * (unat (bsg_tiles_X c) * unat (bsg_tiles_Y c)) \<le> 2 ^ 18
     \<and> unat buffer + 4 * (kBufferSize + 10) \<le> 2 ^ 18
     \<and> (unat tq + 8 * (unat (bsg_tiles_X c) * unat (bsg_tiles_Y c)) \<le> unat buffer
        \<or> unat buffer + 4 * (kBufferSize + 10) \<le> unat tq)"


fun cell_tile :: "tq_cell \<Rightarrow> tile" where
  "cell_tile SendS = (0, 0)" | "cell_tile RecvS = (0, 0)" | "cell_tile a = (1, 0)"

fun cell_off :: "cfg \<Rightarrow> nat \<Rightarrow> nat \<Rightarrow> tq_cell \<Rightarrow> nat" where
  "cell_off c tq b SendS = tq + 8 * unat (bsg_tiles_Y c)"
| "cell_off c tq b RecvS = tq + 8 * unat (bsg_tiles_Y c) + 4"
| "cell_off c tq b SendR = tq"
| "cell_off c tq b RecvR = tq + 4"
| "cell_off c tq b (Buf k) = b + 4 * k"

lemma tq_test_nat:
  assumes "tq_test_layout c tq b"
  shows "8 * unat (bsg_tiles_Y c) + 8 \<le> 8 * (unat (bsg_tiles_X c) * unat (bsg_tiles_Y c))"
    and "0 < unat (bsg_tiles_Y c)"
proof -
  have g: "2 \<le> unat (bsg_tiles_X c)" "0 < unat (bsg_tiles_Y c)"
    using assms group_fits_nat [of c] by (auto simp: tq_test_layout_def word_less_nat_alt)
  then show "0 < unat (bsg_tiles_Y c)" by simp
  have "2 * unat (bsg_tiles_Y c) \<le> unat (bsg_tiles_X c) * unat (bsg_tiles_Y c)"
    using g by (intro mult_le_mono1)
  then show "8 * unat (bsg_tiles_Y c) + 8 \<le> 8 * (unat (bsg_tiles_X c) * unat (bsg_tiles_Y c))"
    using g by linarith
qed

lemma cell_off_bound:
  assumes "tq_test_layout c tq b" and "a \<in> tq_cells (tq_test_client c tq b)"
  shows "cell_off c (unat tq) (unat b) a + 4 \<le> 2 ^ 18"
  using assms(2) tq_test_nat [OF assms(1)] assms(1)
  by (cases a) (auto simp: tq_test_layout_def k_defs)

lemma cell_off_apart:
  assumes "tq_test_layout c tq b" and "x \<in> tq_cells (tq_test_client c tq b)" and "y \<in> tq_cells (tq_test_client c tq b)"
    and "x \<noteq> y" and "cell_tile x = cell_tile y"
  shows "cell_off c (unat tq) (unat b) x + 4 \<le> cell_off c (unat tq) (unat b) y
    \<or> cell_off c (unat tq) (unat b) y + 4 \<le> cell_off c (unat tq) (unat b) x"
  using assms(2-) tq_test_nat [OF assms(1)] assms(1)
  by (cases x; cases y) (auto simp: tq_test_layout_def k_defs)

lemma tq_test_group:
  assumes "tq_test_layout c tq b"
  shows "in_group c (0, 0)" "in_group c (1, 0)" "group_fits c"
  using assms by (auto simp: tq_test_layout_def in_group_def group_fits_def)

lemma cell_tile_group: "tq_test_layout c tq b \<Longrightarrow> in_group c (cell_tile a)"
  using tq_test_group by (cases a) auto

lemma unat_of_cell:
  assumes "tq_test_layout c tq b" and "a \<in> tq_cells (tq_test_client c tq b)"
  shows "unat (of_nat (cell_off c (unat tq) (unat b) a) :: u32) = cell_off c (unat tq) (unat b) a"
  using cell_off_bound [OF assms] by (intro unat_of_nat_lt) simp

lemma tq_test_loc:
  assumes "tq_test_layout c tq b" and "a \<in> tq_cells (tq_test_client c tq b)"
  shows "tq_loc c (tq_test_client c tq b) a
    = tile_npa c (cell_tile a) (of_nat (cell_off c (unat tq) (unat b) a))"
proof -
  have lt: "unat (of_nat (cell_off c (unat tq) (unat b) a) :: u32) < 2 ^ 29"
    unfolding unat_of_cell [OF assms] using cell_off_bound [OF assms] by simp
  show ?thesis
    using eva_local [OF lt, of c "cell_tile a"]
    by (cases a) (simp_all add: tq_loc.simps bsg_tq_send_connection_def bsg_tq_receive_connection_def
        token_array_elem_def token_pair_send_def token_pair_receive_def)
qed

lemma tq_test_client_layout:
  assumes T: "tq_test_layout c tq b"
  shows "tq_layout c (tq_test_client c tq b)"
proof -
  let ?p = "tq_test_client c tq b" and ?o = "\<lambda>a. of_nat (cell_off c (unat tq) (unat b) a) :: u32"
  note loc = tq_test_loc [OF T] and bd = cell_off_bound [OF T] and un = unat_of_cell [OF T]
    and g = tq_test_group [OF T]
  have "disjoint_cells (tq_loc c ?p) (tq_cells ?p)"
  proof (unfold disjoint_cells_def, intro ballI impI)
    fix x y
    assume xy: "x \<in> tq_cells ?p" "y \<in> tq_cells ?p" "x \<noteq> y"
    have "cell_tile x \<noteq> cell_tile y \<or> sep4 (?o x) (?o y)"
      using sep4_of_nat [OF cell_off_apart [OF T xy]] bd [OF xy(1)] bd [OF xy(2)] by fastforce
    then show "span4 (tq_loc c ?p x) \<inter> span4 (tq_loc c ?p y) = {}"
      unfolding loc [OF xy(1)] loc [OF xy(2)]
      by (rule span4_tile_disjoint [OF g(3) cell_tile_group [OF T] cell_tile_group [OF T]])
  qed
  moreover have "off_io c (tq_loc c ?p a)" if "a \<in> tq_cells ?p" for a
    using T cell_tile_group [OF T, of a] unfolding loc [OF that]
    by (auto simp: off_io_def tile_npa_def tq_test_layout_def in_group_def)
  moreover have r: "eva_to_npa c t (bsg_remote_ptr (fst (cell_tile a)) (snd (cell_tile a)) (?o a)) = tq_loc c ?p a"
    if "a \<in> tq_cells ?p" for a t
    using eva_remote_group [OF g(3), of "fst (cell_tile a)" "snd (cell_tile a)" "?o a" t] cell_tile_group [OF T, of a]
      loc [OF that] un [OF that] bd [OF that] by simp
  moreover have "eva_to_npa c (0, 0) (remote_ptr (sconn ?p)) = tq_loc c ?p SendR"
    using r [of SendR "(0, 0)"] by (simp add: bsg_tq_send_connection_def token_array_elem_def token_pair_send_def)
  moreover have "eva_to_npa c (1, 0) (remote_ptr (rconn ?p)) = tq_loc c ?p RecvS"
    using r [of RecvS "(1, 0)"]
    by (simp add: bsg_tq_receive_connection_def token_array_elem_def token_pair_receive_def)
  moreover have "eva_to_npa c (0, 0) (sbuf ?p + 4 * of_nat k) = tq_loc c ?p (Buf k)" if "k < win ?p * blk_len ?p" for k
  proof -
    have k: "Buf k \<in> tq_cells ?p" using that by simp
    have "unat b + unat (4 * of_nat k :: u32) < 2 ^ 18"
      using bd [OF k] unat_times_of_nat_le [of 4 k] by simp
    then show ?thesis using r [OF k, of "(0, 0)"] by (simp add: bsg_remote_ptr_offset)
  qed
  ultimately show ?thesis
    using T g by (simp add: tq_layout_def tq_test_layout_def k_defs)
qed


section \<open>What the program reports\<close>

lemma foldl_plus_word: "foldl (+) (a :: u32) xs = a + sum_list xs"
  by (induction xs arbitrary: a) (auto simp: algebra_simps)

lemma source_sum: "sum_list (map (\<lambda>j. of_nat (2 * (j div 2)) :: u32) [0..<kTransmitSize]) = 4900"
  unfolding k_defs by code_simp

lemma tq_test_total: "total (tq_test_client c tq b) i = 4900 * of_nat i"
proof (induction i)
  case 0
  then show ?case by (simp add: total_def)
next
  case (Suc i)
  have "blk (tq_test_client c tq b) i = (\<lambda>j. of_nat (2 * (j div 2)))" by (rule ext) simp
  then show ?case
    using Suc source_sum by (simp add: total_Suc block_def foldl_plus_word algebra_simps del: of_nat_mult)
qed

text \<open>
  C21: in every interleaving of the tiles of the test program, the words written to the host's
  \<open>0xCAB0\<close> register are the running sums 4900, 9800, \<open>...\<close>, in order, at most 100 of them, and
  all 100 once the receiving tile is in its final loop.
\<close>

lemma tq_main_reports:
  assumes "tq_test_layout c tq buffer" and "tq_empty c (tq_test_client c tq buffer) m0"
    and "reachable c (tq_main c tq buffer, m0) s"
  shows "\<exists>n \<le> 100. outs c (snd s) = outs c m0 @ map (\<lambda>k. (IO_X_INDEX c, 0xCAB0, of_nat (4900 * (k + 1)))) [0..<n]
    \<and> (fst s (1, 0) = spin_forever \<longrightarrow> n = 100)"
proof -
  let ?p = "tq_test_client c tq buffer"
  have g: "group_fits c" "1 < bsg_tiles_X c" "in_group c (1, 0)"
    using assms(1) tq_test_group [OF assms(1)] by (auto simp: tq_test_layout_def)
  obtain s' where s': "reachable c (tq_program c ?p, m0) s'" "snd s' = snd s" "fst s (1, 0) = fst s' (1, 0)"
    using reachable_agree [OF assms(3), of "tq_program c ?p"] tq_main_client [OF g(1,2)] g(3) by auto
  have r: "report c ?p = (\<lambda>k. (IO_X_INDEX c, 0xCAB0, of_nat (4900 * (k + 1))))"
    by (rule ext) (simp add: report_def tq_test_total)
  obtain qs where f: "fst s' = (\<lambda>t. tq_prog c ?p t (qs t))" and I: "tq_inv c ?p (outs c m0) qs (snd s')"
    using tq_reachable [OF tq_test_client_layout [OF assms(1)] _ assms(2) s'(1)] by (auto simp: k_defs)
  show ?thesis
    using tq_reports [OF I] s' f by (auto simp: r k_defs)
qed

lemma small_tq_layout: "tq_test_layout small_cfg 0 1024"
  using small_cfg_row by (simp add: tq_test_layout_def small_cfg_def k_defs io_fits_def group_fits_def)

lemma small_tq_empty: "tq_empty small_cfg p zero_machine"
  by (simp add: tq_empty_def)

text \<open>A state of the queue program, and one of the test program, in which the receiver has finished.\<close>

lemma small_tq_finished:
  obtains s where "reachable small_cfg (tq_program small_cfg (tq_test_client small_cfg 0 1024), zero_machine) s"
    "fst s (1, 0) = spin_forever"
  using tq_can_finish [OF tq_test_client_layout [OF small_tq_layout] _ small_tq_empty reach_start]
  by (auto simp: k_defs)

lemma small_tq_main_finished:
  obtains s where "reachable small_cfg (tq_main small_cfg 0 1024, zero_machine) s" "fst s (1, 0) = spin_forever"
proof -
  have g: "group_fits small_cfg" "1 < bsg_tiles_X small_cfg" "in_group small_cfg (1, 0)"
    using small_tq_layout tq_test_group [OF small_tq_layout] by (auto simp: tq_test_layout_def)
  obtain s where s: "reachable small_cfg (tq_program small_cfg (tq_test_client small_cfg 0 1024), zero_machine) s"
      "fst s (1, 0) = spin_forever" by (rule small_tq_finished)
  obtain s' where "reachable small_cfg (tq_main small_cfg 0 1024, zero_machine) s'" "fst s (1, 0) = fst s' (1, 0)"
    using reachable_agree [OF s(1), of "tq_main small_cfg 0 1024"] tq_main_client [OF g(1,2)] g(3) by auto
  then show ?thesis using s(2) that by simp
qed

lemma tq_main_reports_witness:
  "\<exists>s. reachable small_cfg (tq_main small_cfg 0 1024, zero_machine) s
    \<and> outs small_cfg (snd s) = map (\<lambda>k. (IO_X_INDEX small_cfg, 0xCAB0, of_nat (4900 * (k + 1)))) [0..<100]"
proof -
  obtain s where s: "reachable small_cfg (tq_main small_cfg 0 1024, zero_machine) s" "fst s (1, 0) = spin_forever"
    by (rule small_tq_main_finished)
  have o: "outs small_cfg zero_machine = []" by (simp add: outs_def zero_machine_def)
  obtain n where "n = 100"
    "outs small_cfg (snd s) = map (\<lambda>k. (IO_X_INDEX small_cfg, 0xCAB0, of_nat (4900 * (k + 1)))) [0..<n]"
    using tq_main_reports [OF small_tq_layout small_tq_empty s(1)] s(2) unfolding o by auto
  then show ?thesis using s(1) by blast
qed

text \<open>The properties of the queue at this client.\<close>

lemma tq_fifo_witness:
  "\<exists>s. reachable small_cfg (tq_program small_cfg (tq_test_client small_cfg 0 1024), zero_machine) s
    \<and> outs small_cfg (snd s) = map (report small_cfg (tq_test_client small_cfg 0 1024)) [0..<100]"
proof -
  obtain s where s: "reachable small_cfg (tq_program small_cfg (tq_test_client small_cfg 0 1024), zero_machine) s"
      "fst s (1, 0) = spin_forever" by (rule small_tq_finished)
  have o: "outs small_cfg zero_machine = []" by (simp add: outs_def zero_machine_def)
  have w: "0 < win (tq_test_client small_cfg 0 1024)" by (simp add: k_defs)
  obtain n where "n = blocks (tq_test_client small_cfg 0 1024)"
    "outs small_cfg (snd s) = map (report small_cfg (tq_test_client small_cfg 0 1024)) [0..<n]"
    using tq_fifo [OF tq_test_client_layout [OF small_tq_layout] w small_tq_empty s(1)] s(2) unfolding o by auto
  then show ?thesis using s(1) by (auto simp: k_defs)
qed

lemma tq_no_deadlock_witness:
  "\<exists>s. reachable small_cfg (tq_program small_cfg (tq_test_client small_cfg 0 1024), zero_machine) s
    \<and> length (outs small_cfg (snd s)) = 100"
proof -
  obtain s where "reachable small_cfg (tq_program small_cfg (tq_test_client small_cfg 0 1024), zero_machine) s"
    "outs small_cfg (snd s) = map (report small_cfg (tq_test_client small_cfg 0 1024)) [0..<100]"
    using tq_no_deadlock [OF tq_test_client_layout [OF small_tq_layout] _ small_tq_empty reach_start]
    by (auto simp: outs_def zero_machine_def k_defs)
  then show ?thesis by (intro exI [of _ s]) simp
qed

text \<open>The receiving tile has taken one step and is about to load its counter, the sender to report the time.\<close>

lemma tq_race_free_witness:
  "\<exists>a b. span4 (eva_to_npa small_cfg (0, 0) a) \<inter> span4 (eva_to_npa small_cfg (1, 0) b) = {}
    \<and> a = bsg_remote_ptr_io small_cfg (IO_X_INDEX small_cfg) 0xEAD4 \<and> b = 4"
proof -
  let ?p = "tq_test_client small_cfg 0 1024"
  let ?ps = "tq_program small_cfg ?p"
  let ?r = "(pstep small_cfg (1, 0) ^^ 1) (?ps (1, 0), zero_machine)"
  let ?s = "(?ps((1, 0) := fst ?r), snd ?r)"
  have r: "reachable small_cfg (?ps, zero_machine) ?s"
    by (rule reachable_tile_steps) (simp add: in_group_def small_cfg_def)
  have st: "next_store (fst ?s (snd_t ?p)) = Some (bsg_remote_ptr_io small_cfg (IO_X_INDEX small_cfg) 0xEAD4)"
    by (simp add: tq_program_def bsg_print_time_def next_store_def next_op_def)
  have "0 < kBlocks" by (simp add: k_defs)
  then have ld: "next_load (fst ?s (rcv_t ?p)) = Some 4"
    by (simp add: tq_program_def bsg_print_time_def next_load_def next_op_def consumer_step
        bsg_tq_receive_connection_def token_array_elem_def token_pair_receive_def)
  show ?thesis
    using tq_race_free [OF tq_test_client_layout [OF small_tq_layout] _ small_tq_empty r st ld]
    by (simp add: k_defs)
qed

section \<open>Wrap-around of the 16-bit counters\<close>

text \<open>
  An empty queue has two equal counters \<open>h\<close> in one word. The receiver sign-extends its own count and zero-extends the
  sender's, which differ by \<open>2\<^sup>1\<^sup>6\<close> when \<open>h\<close> has its upper bit.
\<close>

definition equal_counters :: "cfg \<Rightarrow> tile \<Rightarrow> bsg_token_connection \<Rightarrow> u16 \<Rightarrow> machine \<Rightarrow> bool" where
  "equal_counters c t conn h m \<longleftrightarrow> load16 (mem m) (eva_to_npa c t (local_ptr conn + 2)) = h
     \<and> load32 (mem m) (eva_to_npa c t (local_ptr conn)) = push_bit 16 (ucast h) OR ucast h"

lemma equal_counters_send: "BSG_TOKEN_QUEUE_SHORT_SEND (push_bit 16 (ucast h) OR ucast h) = ucast (h :: u16)"
proof -
  have "(0xFFFF :: u32) = mask 16" by (simp add: mask_eq_exp_minus_1)
  then have "BSG_TOKEN_QUEUE_SHORT_SEND (push_bit 16 (ucast h) OR ucast h) = take_bit 16 (push_bit 16 (ucast h) OR ucast h)"
    unfolding BSG_TOKEN_QUEUE_SHORT_SEND_def take_bit_eq_mask by simp
  also have "\<dots> = ucast h" by (rule bit_word_eqI) (auto simp: bit_simps dest: bit_imp_le_length)
  finally show ?thesis .
qed

lemma sext16_word:
  assumes "0 \<le> k" and "k < 2 ^ 16"
  shows "sext16 (word_of_int k) = word_of_int (if k < 2 ^ 15 then k else k - 2 ^ 16)"
proof -
  have w: "sext16 (word_of_int k) = word_of_int (signed_take_bit 15 k)"
    unfolding sext16_def by (rule bit_word_eqI) (auto simp: bit_simps bit_signed_take_bit_iff)
  have "take_bit (Suc 15) k = take_bit (Suc 15) (k - 2 ^ 16)"
    unfolding take_bit_eq_mod using minus_mod_self2 [of k "2 ^ 16"] by simp
  then have "signed_take_bit 15 k = signed_take_bit 15 (k - 2 ^ 16)" by (simp only: signed_take_bit_eq_iff_take_bit_eq)
  then show ?thesis unfolding w using assms by (auto simp: signed_take_bit_int_eq_self)
qed

lemma short_difference:
  assumes "1 \<le> unat d" and "unat d \<le> 2 ^ 16"
  shows "sle 0 (ucast h - (d + sext16 (ucast (h :: u16)))) \<longleftrightarrow> 2 ^ 15 \<le> unat h"
proof -
  let ?h = "uint h" and ?d = "uint d"
  have h: "0 \<le> ?h" "?h < 2 ^ 16" using unsigned_less [where 'a = int, of h] by simp_all
  have i: "int (unat d) = ?d" "int (unat h) = ?h" by simp_all
  have "int 1 \<le> int (unat d)" "int (unat d) \<le> int (2 ^ 16)" using assms unfolding of_nat_le_iff .
  then have d: "1 \<le> ?d" "?d \<le> 2 ^ 16" unfolding i by simp_all
  have w: "(ucast h :: u32) = word_of_int ?h" "d = word_of_int ?d" by simp_all
  have e: "ucast h - (d + sext16 (ucast h)) = word_of_int (?h - (?d + (if ?h < 2 ^ 15 then ?h else ?h - 2 ^ 16)))"
    unfolding w(1) sext16_word [OF h] by (subst w(2)) (simp only: wi_hom_syms)
  have "sint (ucast h - (d + sext16 (ucast h))) = ?h - (?d + (if ?h < 2 ^ 15 then ?h else ?h - 2 ^ 16))"
    unfolding e using h d by (intro sint_of_int_small) (simp_all split: if_splits)
  moreover have "2 ^ 15 \<le> unat h \<longleftrightarrow> int (2 ^ 15) \<le> int (unat h)" by (rule of_nat_le_iff [symmetric])
  then have "2 ^ 15 \<le> unat h \<longleftrightarrow> 2 ^ 15 \<le> ?h" unfolding i(2) by simp
  ultimately show ?thesis using d by (auto simp: sle_def)
qed

text \<open>A wait whose condition never holds does not return, whatever the number of steps.\<close>

lemma short_wait_stuck:
  assumes "\<not> sle 0 (BSG_TOKEN_QUEUE_SHORT_SEND (load32 (mem m) (eva_to_npa c t a)) - tmp)"
  shows "eval n c t (Loop (bind (bsg_lr a) (\<lambda>x. if sle 0 (BSG_TOKEN_QUEUE_SHORT_SEND x - tmp) then Ret 1
      else bind (bsg_lr_aq a) (\<lambda>x. Ret (if sle 0 (BSG_TOKEN_QUEUE_SHORT_SEND x - tmp) then 1 else 0))))
      (\<lambda>break. break = 1) (\<lambda>_. Ret i)) m = None"
proof (induction n rule: less_induct)
  case (less n)
  show ?case
  proof (cases "3 \<le> n")
    case True
    then obtain k where "n = Suc (Suc (Suc k))" by (auto simp: le_iff_add numeral_3_eq_3)
    then show ?thesis using less [of k] assms by (simp add: bsg_lr_def bsg_lr_aq_def)
  next
    case False
    then have "n = 0 \<or> n = Suc 0 \<or> n = Suc (Suc 0)" by linarith
    then show ?thesis using assms by (auto simp: bsg_lr_def bsg_lr_aq_def)
  qed
qed

text \<open>
  C22: with \<open>BSG_TOKEN_QUEUE_SHORT\<close>, on an empty queue whose counters have any value \<open>h\<close> and that nobody writes to,
  \<open>bsg_tq_receiver_confirm\<close> of any number of elements from 1 to \<open>2\<^sup>1\<^sup>6\<close> returns exactly when \<open>h\<close> is at least
  \<open>2\<^sup>1\<^sup>5\<close>: then it reports elements that were never sent, and otherwise it waits.
\<close>

lemma short_receiver_underflow:
  assumes "equal_counters c t conn h m" and "1 \<le> unat depth" and "unat depth \<le> 2 ^ 16"
  shows "((\<exists>n r. eval n c t (bsg_tq_receiver_confirm_short conn depth) m = Some r) \<longleftrightarrow> 2 ^ 15 \<le> unat h)
    \<and> (2 ^ 15 \<le> unat h \<longrightarrow> eval 4 c t (bsg_tq_receiver_confirm_short conn depth) m = Some (sext16 (ucast h), m))"
proof -
  let ?a = "local_ptr conn" and ?tmp = "depth + sext16 (ucast h)"
  have l: "load16 (mem m) (eva_to_npa c t (?a + 2)) = h"
    and s: "BSG_TOKEN_QUEUE_SHORT_SEND (load32 (mem m) (eva_to_npa c t ?a)) = ucast h"
    using assms(1) by (simp_all add: equal_counters_def equal_counters_send)
  note diff = short_difference [OF assms(2,3), of h]
  have pass: "eval 4 c t (bsg_tq_receiver_confirm_short conn depth) m = Some (sext16 (ucast h), m)" if "2 ^ 15 \<le> unat h"
  proof -
    have "sle 0 (ucast h - ?tmp)" using that diff by simp
    then have "eval (Suc (Suc (Suc (Suc 0)))) c t (bsg_tq_receiver_confirm_short conn depth) m = Some (sext16 (ucast h), m)"
      unfolding bsg_tq_receiver_confirm_short_def bsg_lr_def Let_def
      by (simp only: eval.simps exec.simps l s fst_conv snd_conv bind.simps if_True simp_thms)
    then show ?thesis by (simp only: numeral_eq_Suc pred_numeral_simps BitM.simps)
  qed
  have "2 ^ 15 \<le> unat h" if e: "eval n c t (bsg_tq_receiver_confirm_short conn depth) m = Some r" for n r
  proof (rule ccontr)
    assume "\<not> 2 ^ 15 \<le> unat h"
    then have "\<not> sle 0 (BSG_TOKEN_QUEUE_SHORT_SEND (load32 (mem m) (eva_to_npa c t ?a)) - ?tmp)" unfolding s diff .
    note short_wait_stuck [OF this, of "n - 1"]
    then show False using e l by (cases n) (simp_all add: bsg_tq_receiver_confirm_short_def Let_def cong: if_cong)
  qed
  then show ?thesis using pass by blast
qed

definition wrapped_pair :: machine where
  "wrapped_pair = \<lparr>mem = (\<lambda>p. case p of Endpoint x y a \<Rightarrow> if odd a then 0xC0 else 0 | Dram a \<Rightarrow> 0), io = []\<rparr>"

lemma short_receiver_underflow_witness:
  "eval 4 small_cfg (0, 0) (bsg_tq_receiver_confirm_short \<lparr>local_ptr = 0, remote_ptr = 0\<rparr> 5) wrapped_pair
    = Some (sext16 0xC000, wrapped_pair)"
proof -
  have "equal_counters small_cfg (0, 0) \<lparr>local_ptr = 0, remote_ptr = 0\<rparr> 0xC000 wrapped_pair"
    by (simp add: equal_counters_def eva_local wrapped_pair_def load16_def load32_def tile_npa_def)
  from short_receiver_underflow [OF this, of 5] show ?thesis by simp
qed

end
