(* ===== verification/Crc.thy ===== *)
theory Crc
  imports Crc_Data Programs
begin

text \<open>
  \<open>spmd/crc32/main.c\<close>: the program that checks the CRC of its data, and
  \<open>spmd/remote_load_crc/main.c\<close>, which compares checksums of vectors loaded from all tiles.
\<close>

section \<open>The table-driven loop\<close>

text \<open>\<open>main\<close>.\<close>

definition crc_main :: "cfg \<Rightarrow> tile \<Rightarrow> proc" where
  "crc_main c t =
     seq (if t = (0, 0) then
            let crc = crc_result crc_data in
            if crc = ANSWER then
              seq (do_printf c (''crc: %X [PASSED]'' @ [CHR 0x0A]) [Word crc]) (bsg_finish c t)
            else
              seq (do_printf c (''crc: %X [FAILED]'' @ [CHR 0x0A]) [Word crc]) (bsg_fail c t)
          else Ret 0)
       spin_forever"

text \<open>A turn of the loop is eight steps of the polynomial division, for any state and byte.\<close>

lemma crc_step_bits: "crc_step c b = crc_byte c b"
proof -
  let ?x = "c XOR ucast b :: u32" and ?hi = "push_bit 8 (drop_bit 8 c)"
  have lo: "?x AND 0xff = take_bit 8 ?x" by (simp add: take_bit_eq_mask mask_eq_exp_minus_1)
  have x: "?x = take_bit 8 ?x XOR ?hi"
    by (rule bit_word_eqI) (auto simp: bit_simps not_less dest: bit_imp_le_length)
  have l: "(crc_bit ^^ 8) ?hi = drop_bit 8 ?hi"
    by (rule crc_bits_high) (simp add: bit_simps)
  have d: "drop_bit 8 ?hi = drop_bit 8 c"
    by (rule bit_word_eqI) (auto simp: bit_simps dest: bit_imp_le_length)
  have "uint (take_bit 8 ?x) = take_bit 8 (uint ?x)" by (rule unsigned_take_bit_eq)
  then have "uint (take_bit 8 ?x) < 256" "0 \<le> uint (take_bit 8 ?x)"
    using take_bit_int_less_exp [of 8 "uint ?x"] by simp_all
  then have "uint (table ! unat (take_bit 8 ?x)) = uint ((crc_bit ^^ 8) (take_bit 8 ?x))"
    using table_crc_bits [of "uint (take_bit 8 ?x)"] by (simp only: uint_crc_bits table_int_def unat_eq_nat_uint)
  then have t: "table ! unat (take_bit 8 ?x) = (crc_bit ^^ 8) (take_bit 8 ?x)" by (rule word_uint_eqI)
  have "(crc_bit ^^ 8) ?x = table ! unat (take_bit 8 ?x) XOR drop_bit 8 c"
    by (subst x) (simp only: crc_bits_xor l d t)
  then show ?thesis by (simp only: crc_step_def crc_byte_def Let_def lo xor.commute)
qed

text \<open>
  C24: on any input the table-driven loop computes the CRC-32 of the reflected polynomial
  \<open>0xEDB88320\<close> bit by bit.
\<close>

lemma crc_bitwise: "crc_result bs = foldl crc_byte 0xffffffff bs XOR 0xffffffff"
proof -
  have "crc_step = crc_byte" by (intro ext) (rule crc_step_bits)
  then show ?thesis by (simp add: crc_result_def crc_loop_def)
qed

lemma crc_message:
  "ee_vsprintf (''crc: %X [PASSED]'' @ [CHR 0x0A]) [Word ANSWER] = Inr (''crc: 59123CD1 [PASSED]'' @ [CHR 0x0A])"
proof -
  have t: "num_tmp upper_digits 16 0x59123CD1 = rev ''59123CD1''"
    by (simp add: num_tmp.simps [of _ _ "numeral k" for k] num_tmp.simps [of _ _ 0] upper_digits_def)
  have "fmt_directive (''X [PASSED]'' @ [CHR 0x0A]) [Word ANSWER]
    = Inr (the (number ANSWER 16 (- 1) (- 1) UPPERCASE), '' [PASSED]'' @ [CHR 0x0A], [])"
    by (simp add: fmt_directive_def fmt_width_def fmt_precision_def fmt_qualifier_def fmt_convert_def fmt_integer_def peek_def is_digit_def)
  moreover have "number ANSWER 16 (- 1) (- 1) UPPERCASE = Some ''59123CD1''"
    by (simp add: number_layout num_head_def num_body_def num_sign_def num_prefix_def Let_def num_gap_def flag_bits
        eff_flags_bit num_magnitude_def num_text_def ANSWER_def t) (simp add: UPPERCASE_def bit_simps)
  ultimately show ?thesis by simp
qed

text \<open>The test program finds the checksum it expects and reports success to the host.\<close>

lemma crc_main_passes:
  assumes "io_fits c" and "rd m (lock_npa c) = 0"
  shows "passes c (0, 0) (crc_main c (0, 0)) m"
proof -
  have "ee_vsprintf (''crc: %X [PASSED]'' @ [CHR 0x0A]) [Word ANSWER] = Inr (''crc: 59123CD1 [PASSED]'' @ [CHR 0x0A])"
    by (rule crc_message)
  then obtain m' where "runs c (0, 0) (seq (do_printf c (''crc: %X [PASSED]'' @ [CHR 0x0A]) [Word ANSWER])
      (seq (bsg_finish c (0, 0)) spin_forever), m) (seq (bsg_finish c (0, 0)) spin_forever, m')"
    using do_printf_run [OF assms] by fastforce
  moreover have "crc_main c (0, 0) = seq (do_printf c (''crc: %X [PASSED]'' @ [CHR 0x0A]) [Word ANSWER])
      (seq (bsg_finish c (0, 0)) spin_forever)"
    by (simp only: crc_main_def crc_data_answer Let_def if_True simp_thms bind_assoc)
  ultimately show ?thesis using passes_finish [OF assms(1)] passes_runs by simp
qed

lemma crc_main_passes_witness: "passes small_cfg (0, 0) (crc_main small_cfg (0, 0)) zero_machine"
  by (rule crc_main_passes) (simp_all add: io_fits_def small_cfg_def)

section \<open>The remote-load test\<close>

definition CRC_32_POLY :: u32 where "CRC_32_POLY = 0xEDB88320"
definition VEC_LEN :: nat where "VEC_LEN = 32"

definition XY_ID :: "cfg \<Rightarrow> u32 \<Rightarrow> u32 \<Rightarrow> u32" where
  "XY_ID c x y = push_bit 24 (x + y * bsg_tiles_X c)"

definition NODE_VEC :: "cfg \<Rightarrow> u32 \<Rightarrow> u32 \<Rightarrow> u32 list" where
  "NODE_VEC c x y = map (\<lambda>i. of_nat i OR XY_ID c x y) [0..<VEC_LEN]"

text \<open>
  One turn of the inner loop: \<open>crc\<close> is a signed \<open>int\<close>, so the shift copies the sign bit. The outer
  loop tests and advances the variable \<open>i\<close> that the inner loop leaves at 32; it may not end.
\<close>

definition crc32_bit :: "u32 \<Rightarrow> u32" where
  "crc32_bit crc = (if crc AND 1 \<noteq> 0 then signed_drop_bit 1 crc XOR CRC_32_POLY else signed_drop_bit 1 crc)"

partial_function (option) crc32_from :: "(nat \<Rightarrow> u32) \<Rightarrow> nat \<Rightarrow> nat \<Rightarrow> nat \<Rightarrow> u32 \<Rightarrow> u32 option" where
  "crc32_from addr k sz i crc =
     (if i < sz then
        let crc = crc XOR addr k; crc = (crc32_bit ^^ 32) crc; i = 32
        in crc32_from addr (k + 1) sz (i + 1) crc
      else Some crc)"

definition crc32 :: "(nat \<Rightarrow> u32) \<Rightarrow> nat \<Rightarrow> u32 option" where
  "crc32 addr sz = crc32_from addr 0 sz 0 0xffffffff"

definition data_addr :: "u32 \<Rightarrow> nat \<Rightarrow> nat \<Rightarrow> nat \<Rightarrow> u32" where
  "data_addr d y x i = d + 4 * of_nat ((y * 4 + x) * VEC_LEN + i)"

text \<open>The body of the loop over the tiles; \<open>check_sum0\<close> is carried from one tile to the next.\<close>

definition check_tile :: "cfg \<Rightarrow> tile \<Rightarrow> u32 \<Rightarrow> nat \<times> nat \<Rightarrow> u32 \<Rightarrow> proc" where
  "check_tile c t d = (\<lambda>(y, x) check_sum0.
     load_list (map (\<lambda>i. bsg_remote_ptr (of_nat x) (of_nat y) (data_addr d y x i)) [0..<VEC_LEN]) (\<lambda>vs.
       let data_vec = map (\<lambda>v. v XOR XY_ID c (of_nat x) (of_nat y)) vs in
       case crc32 ((!) data_vec) VEC_LEN of None \<Rightarrow> spin_forever
       | Some check_sum \<Rightarrow>
           seq (bsg_remote_ptr_io_store c (IO_X_INDEX c) 0 check_sum)
             (if x = 0 \<and> y = 0 then Ret check_sum
              else if check_sum \<noteq> check_sum0 then seq (bsg_fail c t) (Ret check_sum0)
              else Ret check_sum0)))"

definition load_crc_proc0 :: "cfg \<Rightarrow> tile \<Rightarrow> u32 \<Rightarrow> proc" where
  "load_crc_proc0 c t d =
     seq (for_fold (concat (map (\<lambda>y. map (Pair y) [0..<4]) [0..<4])) (check_tile c t d) 0) (bsg_finish c t)"

definition load_crc_main :: "cfg \<Rightarrow> tile \<Rightarrow> u32 \<Rightarrow> proc" where
  "load_crc_main c t d = seq (if bsg_x_y_to_id c (fst t) (snd t) = 0 then load_crc_proc0 c t d else Ret 0) spin_forever"


lemma crc32_diverges:
  assumes "crc32_from addr k sz i crc = Some v"
  shows "33 < sz \<longrightarrow> 33 < i"
proof (rule crc32_from.raw_induct [where P = "\<lambda>addr k sz i crc v. 33 < sz \<longrightarrow> 33 < i", OF _ assms])
  fix f addr k and sz i :: nat and crc v
  assume IH: "\<And>addr k (sz :: nat) (i :: nat) crc v. f addr k sz i crc = Some v \<Longrightarrow> 33 < sz \<longrightarrow> 33 < i"
    and "(if i < sz then let crc = crc XOR addr k; crc = (crc32_bit ^^ 32) crc; i = 32
       in f addr (k + 1) sz (i + 1) crc else Some crc) = Some v"
  then show "33 < sz \<longrightarrow> 33 < i"
    using IH [of addr "k + 1" sz "32 + 1"] by (cases "i < sz") (auto simp: Let_def)
qed

text \<open>
  C26: the inner loop of \<open>crc32\<close> reuses the counter of the outer one: the checksum of a vector of 1 to
  33 words depends on its first word only, and for longer vectors the routine does not return.
\<close>

lemma crc32_first_word:
  shows "(0 < sz \<and> sz \<le> 33 \<longrightarrow> crc32 addr sz = Some ((crc32_bit ^^ 32) (0xffffffff XOR addr 0)))
    \<and> (33 < sz \<longrightarrow> crc32 addr sz = None)"
proof -
  define v where "v = (crc32_bit ^^ 32) (0xffffffff XOR addr 0)"
  have u: "crc32 addr sz = (if 0 < sz then crc32_from addr 1 sz 33 v else Some 0xffffffff)"
    unfolding crc32_def v_def by (subst crc32_from.simps) (simp add: Let_def)
  have "crc32_from addr 1 sz 33 v = Some v" if "sz \<le> 33" using that by (subst crc32_from.simps) simp
  moreover have "crc32_from addr 1 sz 33 v = None" if "33 < sz"
    using that crc32_diverges [of addr 1 sz 33 v] by (cases "crc32_from addr 1 sz 33 v") auto
  ultimately show ?thesis unfolding u v_def by auto
qed

lemma crc32_first_word_witness:
  "crc32 (\<lambda>k. 0) 32 = crc32 (\<lambda>k. of_nat k) 32 \<and> crc32 (\<lambda>k. 0) 34 = None"
  using crc32_first_word [of 32 "\<lambda>k. 0"] crc32_first_word [of 32 of_nat] crc32_first_word [of 34 "\<lambda>k. 0"]
  by (simp del: funpow.simps)

text \<open>What the test looks at: the first word of each tile's vector.\<close>

definition first_words :: "cfg \<Rightarrow> u32 \<Rightarrow> machine \<Rightarrow> bool" where
  "first_words c d m \<longleftrightarrow> (\<forall>x < 4. \<forall>y < 4.
     rd m (tile_npa c (of_nat x, of_nat y) (data_addr d y x 0)) = XY_ID c (of_nat x) (of_nat y)
     \<and> off_io c (tile_npa c (of_nat x, of_nat y) (data_addr d y x 0)))"

lemma data_addr_small:
  assumes "unat d + 2048 \<le> 2 ^ 18" and "x < 4" and "y < 4"
  shows "unat (data_addr d y x 0) < 2 ^ 18"
proof -
  let ?k = "4 * ((y * 4 + x) * 32)"
  have k: "?k < 2048" using assms(2,3) by simp
  have "data_addr d y x 0 = of_nat (unat d + ?k)" by (simp add: data_addr_def VEC_LEN_def)
  moreover have "unat (of_nat (unat d + ?k) :: u32) = unat d + ?k" using k assms by (intro unat_of_nat_lt) simp
  ultimately show ?thesis using k assms by simp
qed

lemma check_tile_run:
  assumes "io_fits c" and "unat d + 2048 \<le> 2 ^ 18" and "first_words c d m" and "x < 4" and "y < 4"
    and "x = 0 \<and> y = 0 \<or> cs0 = (crc32_bit ^^ 32) 0xffffffff"
  shows "\<exists>m'. runs c t (bind (check_tile c t d (y, x) cs0) f, m) (f ((crc32_bit ^^ 32) 0xffffffff), m') \<and> first_words c d m'"
proof -
  let ?K = "(crc32_bit ^^ 32) 0xffffffff" and ?x = "of_nat x :: u32" and ?y = "of_nat y :: u32"
  let ?ps = "map (\<lambda>i. bsg_remote_ptr ?x ?y (data_addr d y x i)) [0..<VEC_LEN]"
  let ?vs = "map (\<lambda>p. rd m (eva_to_npa c t p)) ?ps"
  let ?m' = "put32 c (Endpoint (IO_X_INDEX c) (IO_Y_INDEX c) 0) ?K m"
  have "eva_to_npa c t (bsg_remote_ptr ?x ?y (data_addr d y x 0)) = tile_npa c (?x, ?y) (data_addr d y x 0)"
    using assms(4,5) data_addr_small [OF assms(2,4,5)] by (intro eva_remote) (simp_all add: unat_of_nat_lt)
  then have "map (\<lambda>v. v XOR XY_ID c ?x ?y) ?vs ! 0 = 0"
    using assms(3-5) by (simp add: first_words_def VEC_LEN_def del: upt_Suc)
  then have "crc32 ((!) (map (\<lambda>v. v XOR XY_ID c ?x ?y) ?vs)) VEC_LEN = Some ?K"
    by (subst crc32_first_word [THEN conjunct1, rule_format]) (simp_all add: VEC_LEN_def del: list.map(2) map_map)
  note K = this
  define F where "F vs = bind (let data_vec = map (\<lambda>v. v XOR XY_ID c ?x ?y) vs in
       case crc32 ((!) data_vec) VEC_LEN of None \<Rightarrow> spin_forever
       | Some check_sum \<Rightarrow>
           seq (bsg_remote_ptr_io_store c (IO_X_INDEX c) 0 check_sum)
             (if x = 0 \<and> y = 0 then Ret check_sum
              else if check_sum \<noteq> cs0 then seq (bsg_fail c t) (Ret cs0)
              else Ret cs0)) f" for vs
  have "F ?vs = bind (seq (bsg_remote_ptr_io_store c (IO_X_INDEX c) 0 ?K)
       (if x = 0 \<and> y = 0 then Ret ?K else if ?K \<noteq> cs0 then seq (bsg_fail c t) (Ret cs0) else Ret cs0)) f"
    unfolding F_def Let_def K option.case ..
  moreover have "bind (check_tile c t d (y, x) cs0) f = load_list ?ps F"
    unfolding check_tile_def prod.case bind_load_list F_def ..
  ultimately have "runs c t (bind (check_tile c t d (y, x) cs0) f, m)
    (bind (seq (bsg_remote_ptr_io_store c (IO_X_INDEX c) 0 ?K)
       (if x = 0 \<and> y = 0 then Ret ?K else if ?K \<noteq> cs0 then seq (bsg_fail c t) (Ret cs0) else Ret cs0)) f, m)"
    using load_list_run [of c t ?ps F m] by simp
  moreover have "runs c t (bind (seq (bsg_remote_ptr_io_store c (IO_X_INDEX c) 0 ?K)
       (if x = 0 \<and> y = 0 then Ret ?K else if ?K \<noteq> cs0 then seq (bsg_fail c t) (Ret cs0) else Ret cs0)) f, m) (f ?K, ?m')"
    unfolding bsg_remote_ptr_io_store_def using assms(6) by (auto intro!: runs_Act simp: eva_io [OF assms(1)])
  moreover have "first_words c d ?m'" using assms(3) by (simp add: first_words_def)
  ultimately show ?thesis using runs_trans by blast
qed

lemma check_tiles_run:
  assumes "io_fits c" and "unat d + 2048 \<le> 2 ^ 18" and "first_words c d m" and "\<forall>(y, x) \<in> set ts. y < 4 \<and> x < 4"
    and "ts = (0, 0) # ts' \<or> cs0 = (crc32_bit ^^ 32) 0xffffffff"
  shows "\<exists>m'. runs c t (seq (for_fold ts (check_tile c t d) cs0) p, m) (p, m')"
  using assms(3-5)
proof (induction ts arbitrary: m cs0 ts')
  case Nil
  then show ?case by (auto intro: exI [of _ m])
next
  case (Cons a ts)
  obtain y x where a: "a = (y, x)" by (cases a)
  let ?rest = "\<lambda>v. seq (for_fold ts (check_tile c t d) v) p"
  have xy: "x < 4" "y < 4" "x = 0 \<and> y = 0 \<or> cs0 = (crc32_bit ^^ 32) 0xffffffff" using Cons.prems a by auto
  obtain m' where m': "runs c t (bind (check_tile c t d (y, x) cs0) ?rest, m) (?rest ((crc32_bit ^^ 32) 0xffffffff), m')"
      "first_words c d m'"
    using check_tile_run [OF assms(1,2) Cons.prems(1) xy, of t ?rest] by blast
  moreover have "\<forall>(y, x) \<in> set ts. y < 4 \<and> x < 4" using Cons.prems(2) by simp
  then obtain m'' where "runs c t (?rest ((crc32_bit ^^ 32) 0xffffffff), m') (p, m'')"
    using Cons.IH [OF m'(2)] by blast
  ultimately have "runs c t (bind (check_tile c t d (y, x) cs0) ?rest, m) (p, m'')" using runs_trans by blast
  then show ?case unfolding a for_fold.simps bind_assoc by blast
qed

text \<open>
  the remote-load test reports success as soon as the first word of every tile's vector is
  right; the other 31 words of each vector are not looked at, so that errors in them go unnoticed.
\<close>

lemma load_crc_passes:
  assumes "io_fits c" and "unat d + 2048 \<le> 2 ^ 18" and "first_words c d m"
  shows "passes c (0, 0) (load_crc_main c (0, 0) d) m"
proof -
  let ?ts = "concat (map (\<lambda>y. map (Pair y) [0..<4 :: nat]) [0..<4 :: nat])"
  have "?ts = (0, 0) # tl ?ts" by (simp add: upt_rec)
  then obtain m' where "runs c (0, 0) (seq (for_fold ?ts (check_tile c (0, 0) d) 0)
      (seq (bsg_finish c (0, 0)) spin_forever), m) (seq (bsg_finish c (0, 0)) spin_forever, m')"
    using check_tiles_run [OF assms, of ?ts "tl ?ts" 0 "(0, 0)"] by auto
  moreover have "load_crc_main c (0, 0) d = seq (for_fold ?ts (check_tile c (0, 0) d) 0)
      (seq (bsg_finish c (0, 0)) spin_forever)"
    by (simp add: load_crc_main_def load_crc_proc0_def bsg_x_y_to_id_def del: upt_Suc)
  ultimately show ?thesis using passes_finish [OF assms(1)] passes_runs by simp
qed

text \<open>A group of four by four tiles, and a memory in which every word but the first of each vector is wrong.\<close>

definition crc_cfg :: cfg where
  "crc_cfg = small_cfg\<lparr>bsg_tiles_X := 4, bsg_tiles_Y := 4\<rparr>"

definition first_words_only :: machine where
  "first_words_only = \<lparr>mem = (\<lambda>p. case p of Dram a \<Rightarrow> 0
     | Endpoint x y a \<Rightarrow> if a AND 127 < 3 then 0 else if a AND 127 = 3 then ucast (x + y * 4) else 0x55), io = []\<rparr>"

lemma load_crc_passes_witness: "passes crc_cfg (0, 0) (load_crc_main crc_cfg (0, 0) 0) first_words_only"
proof (rule load_crc_passes)
  have four: "x < 4 \<longleftrightarrow> x = 0 \<or> x = 1 \<or> x = 2 \<or> x = 3" for x :: nat by auto
  show "first_words crc_cfg 0 first_words_only"
    unfolding first_words_def four
    by (intro allI impI; elim disjE; hypsubst;
      simp add: rd_def load32_def data_addr_def VEC_LEN_def tile_npa_def cord_x_def cord_y_def XY_ID_def crc_cfg_def
        small_cfg_def first_words_only_def off_io_def)
qed (simp_all add: io_fits_def crc_cfg_def small_cfg_def)

end
