(* ===== verification/Quicksort_Test.thy ===== *)
theory Quicksort_Test
  imports Programs Barrier
begin

text \<open>
  \<open>spmd/quicksort/main.c\<close> and \<open>spmd/quicksort_by4/main.c\<close>: every tile sorts its own copy of the data
  between two barriers and checks the result. An \<open>int\<close> array is a list of words compared as signed
  numbers; a call on a part of the array is given by its offset and length.
\<close>

section \<open>The program\<close>

text \<open>\<open>data\<close>, in four pieces of sixteen source lines.\<close>

definition qs_data_0 :: "u32 list" where
  "qs_data_0 = [
   78113, 17198, 14782, 16082, 9277, 85314, 16469, 30084,
   52569, 37570, 38166, 67932, 58458, 53102, 75867, 96332,
   842, 70077, 62479, 39741, 89951, 35239, 66788, 82916,
   37515, 2778, 57651, 22652, 18587, 70651, 70152, 25686,
   30002, 89551, 15633, 87965, 88199, 76903, 64265, 84150,
   39286, 46186, 39684, 45319, 79187, 24765, 87722, 28434,
   22963, 29593, 45248, 58904, 74658, 85106, 69356, 81062,
   95151, 14849, 71309, 91866, 27618, 92831, 70993, 82279,
   69459, 49125, 65084, 56782, 13365, 52947, 29800, 36505,
   44389, 15180, 7282, 8842, 28547, 16757, 88223, 55053,
   78651, 11918, 48023, 56872, 65456, 79328, 22877, 77421,
   66976, 95917, 76287, 63778, 42452, 34856, 96273, 66728,
   27939, 82898, 23122, 33035, 40497, 99457, 10580, 96097,
   77039, 18125, 48743, 81845, 19005, 67238, 273, 33233,
   65641, 68438, 74165, 46283, 7831, 43678, 75323, 23181,
   97566, 89398, 10363, 71153, 48189, 99549, 43076, 64207]"

definition qs_data_1 :: "u32 list" where
  "qs_data_1 = [
   21768, 17813, 95298, 30769, 5252, 40953, 44843, 28675,
   86053, 65200, 23326, 12098, 49032, 10877, 42054, 78334,
   24958, 17408, 15892, 46539, 77529, 53855, 37170, 66949,
   62694, 84726, 37608, 97063, 1273, 86878, 56877, 58631,
   74808, 81716, 85051, 77593, 27137, 2514, 12958, 18107,
   69421, 48515, 93339, 79173, 43744, 50788, 81895, 50167,
   96780, 83471, 10890, 76593, 10634, 60349, 71441, 71063,
   78443, 1260, 5639, 98513, 45697, 58424, 93919, 99756,
   75990, 10075, 27239, 9225, 63233, 66448, 41648, 93934,
   49807, 2790, 91247, 9263, 26127, 53064, 52455, 37274,
   91995, 74436, 32544, 44229, 60084, 11431, 26025, 23566,
   72647, 94843, 16033, 73780, 81815, 37831, 74525, 22679,
   79412, 53942, 40179, 7432, 28444, 70789, 70390, 20765,
   73822, 86329, 55946, 89120, 22523, 64467, 41163, 85592,
   39180, 47204, 67812, 4571, 2676, 87981, 66139, 2665,
   92952, 11268, 53841, 67890, 82685, 80028, 10386, 3746]"

definition qs_data_2 :: "u32 list" where
  "qs_data_2 = [
   49908, 99359, 19322, 34847, 90853, 47484, 18332, 22639,
   85879, 12173, 2334, 86230, 16508, 65385, 27103, 84099,
   49230, 31059, 39969, 43756, 48062, 10913, 65686, 67907,
   81631, 77511, 25472, 1774, 66557, 81673, 10316, 28922,
   59837, 36893, 32022, 2347, 61472, 60362, 1486, 92313,
   166, 75476, 44272, 73677, 67973, 62160, 78252, 93786,
   4101, 69739, 70710, 30313, 16160, 73656, 89928, 5320,
   40175, 59055, 76473, 62995, 41856, 39906, 31200, 30741,
   14244, 3906, 17403, 39717, 19464, 30302, 13311, 80040,
   57594, 57083, 96702, 66238, 87907, 18196, 28452, 47996,
   22544, 35808, 27085, 96186, 19619, 68531, 86956, 64498,
   57085, 80610, 46467, 67389, 69225, 26929, 8870, 88386,
   56471, 3062, 74096, 55261, 35798, 8064, 12270, 98332,
   23145, 10384, 5833, 84471, 92980, 80123, 36850, 2998,
   31652, 98284, 16159, 91214, 36948, 3682, 46988, 66781,
   19136, 54314, 56777, 34878, 61933, 84906, 56563, 82918]"

definition qs_data_3 :: "u32 list" where
  "qs_data_3 = [
   52065, 47415, 29220, 71075, 39498, 4093, 30113, 43433,
   45136, 67869, 21036, 5986, 88867, 20127, 41613, 98885,
   3178, 61677, 3532, 44181, 75810, 63667, 77713, 28523,
   9235, 22837, 64513, 14721, 94931, 25626, 79552, 8319,
   19069, 71807, 43160, 68601, 29562, 86803, 23963, 1486,
   41701, 97240, 17101, 17868, 44303, 39841, 69142, 4737,
   18463, 77554, 36792, 18540, 59552, 34264, 10589, 49596,
   36977, 82673, 23666, 45733, 73210, 70394, 51701, 2359,
   76012, 98294, 40357, 47529, 25404, 80404, 6820, 77154,
   21928, 20807, 69809, 12057, 99611, 63614, 10286, 29264,
   48843, 89979, 49130, 47837, 91327, 7789, 34371, 99153,
   77359, 31108, 94256, 60328, 24695, 151, 70513, 26519,
   15626, 63708, 47553, 38241, 24488, 82810, 76909, 78966,
   66993, 18830, 35834, 62145, 67260, 4879, 31055, 16615,
   16954, 33938, 49585, 77979, 28119, 82896, 27965, 40909,
   3767, 33851, 67335, 86309, 92744, 53379, 21082, 18900]"

definition qs_data :: "u32 list" where
  "qs_data = qs_data_0 @ qs_data_1 @ qs_data_2 @ qs_data_3"

definition NUM_DATA :: nat where "NUM_DATA = 512"
definition QS_ANSWER :: u32 where "QS_ANSWER = 25247145"

text \<open>
  The partition loop over \<open>temp = lst[1], \<dots>, lst[n-1]\<close>: the fill positions \<open>front\<close> and \<open>back\<close> and
  the scratch array \<open>local_lst\<close>.
\<close>

definition partition_step :: "u32 \<Rightarrow> u32 \<Rightarrow> nat \<times> int \<times> u32 list \<Rightarrow> nat \<times> int \<times> u32 list" where
  "partition_step center temp = (\<lambda>(front, back, local_lst).
     if sle center temp then (front, back - 1, local_lst[nat back := temp])
     else (front + 1, back, local_lst[front := temp]))"

definition partition_loop :: "u32 list \<Rightarrow> nat \<Rightarrow> nat \<Rightarrow> u32 list \<Rightarrow> nat \<times> int \<times> u32 list" where
  "partition_loop lst off n local_lst =
     fold (\<lambda>i. partition_step (lst ! off) (lst ! (off + i))) [1..<n] (0, int n - 1, local_lst)"

text \<open>\<open>for (i = 0; i < n; i++) lst[i] = local_lst[i]\<close>\<close>

definition copy_back :: "u32 list \<Rightarrow> nat \<Rightarrow> nat \<Rightarrow> u32 list \<Rightarrow> u32 list" where
  "copy_back lst off n local_lst = fold (\<lambda>i l. l[off + i := local_lst ! i]) [0..<n] lst"

datatype qs_error = Qs_Fail

text \<open>The call \<open>bsg_fail()\<close> is an error: it does not return.\<close>

function quicksort :: "u32 list \<Rightarrow> nat \<Rightarrow> nat \<Rightarrow> u32 list \<Rightarrow> qs_error + u32 list \<times> u32 list" where
  "quicksort lst off n local_lst =
     (if n = 1 then Inr (lst, local_lst) else
      let (front, back, local_lst) = partition_loop lst off n local_lst in
      if back = int front then
        let local_lst = local_lst[nat back := lst ! off];
            lst = copy_back lst off n local_lst in
        case (if front \<noteq> 0 then quicksort lst off front local_lst else Inr (lst, local_lst)) of
          Inl e \<Rightarrow> Inl e
        | Inr (lst, local_lst) \<Rightarrow>
            if back \<noteq> int n - 1 then quicksort lst (off + nat back + 1) (n - 1 - nat back) local_lst
            else Inr (lst, local_lst)
      else Inl Qs_Fail)"
  by auto

lemma partition_front:
  "fst (fold (\<lambda>i. partition_step c (f i)) xs (a, b, l)) \<le> a + length xs"
proof (induction xs arbitrary: a b l)
  case (Cons x xs)
  show ?case
    using Cons [of a "b - 1" "l[nat b := f x]"] Cons [of "a + 1" b "l[a := f x]"]
    by (auto simp: partition_step_def)
qed simp

termination quicksort
proof (relation "measure (\<lambda>(lst, off, n, local_lst). n)", goal_cases)
  case (2 lst off n loc x front y bk l1 l2 l3)
  have "front = fst (partition_loop lst off n loc)" using 2(2,3) by (metis fst_conv)
  then have "front \<le> n - 1"
    using partition_front [of "lst ! off" "\<lambda>i. lst ! (off + i)" "[1..<n]" 0 "int n - 1" loc]
    by (simp add: partition_loop_def)
  moreover have "front = 0" if "n = 0" using calculation that by simp
  ultimately show ?case using 2 by auto
next
  case (3 lst off n loc x front y bk l1 l2 l3 r l4 l5)
  then show ?case by (cases "n = 0") (auto simp: partition_loop_def)
qed simp

declare quicksort.simps [simp del]

section \<open>Partition\<close>

lemma partition_layout:
  assumes "length ts < length mid"
  shows "\<exists>mid'. length mid' = length mid - length ts \<and>
    fold (partition_step c) ts (length L, int (length L + length mid) - 1, L @ mid @ H @ T)
    = (length L + length (filter (\<lambda>x. \<not> sle c x) ts),
       int (length L + length mid) - 1 - int (length (filter (sle c) ts)),
       (L @ filter (\<lambda>x. \<not> sle c x) ts) @ mid' @ (rev (filter (sle c) ts) @ H) @ T)"
  using assms
proof (induction ts arbitrary: L mid H)
  case Nil
  then show ?case by (intro exI [of _ mid]) simp
next
  case (Cons x ts)
  show ?case
  proof (cases "sle c x")
    case True
    obtain m z where m: "mid = m @ [z]" using Cons.prems by (cases mid rule: rev_cases) auto
    have "(L @ mid @ H @ T)[nat (int (length L + length mid) - 1) := x] = L @ m @ (x # H) @ T"
      by (simp add: m nat_add_distrib list_update_append)
    then have "partition_step c x (length L, int (length L + length mid) - 1, L @ mid @ H @ T)
      = (length L, int (length L + length m) - 1, L @ m @ (x # H) @ T)"
      using True by (simp add: partition_step_def m)
    then show ?thesis using Cons.IH [of m L "x # H"] Cons.prems True by (auto simp: m)
  next
    case False
    obtain z m where m: "mid = z # m" using Cons.prems by (cases mid) auto
    have "partition_step c x (length L, int (length L + length mid) - 1, L @ mid @ H @ T)
      = (length (L @ [x]), int (length (L @ [x]) + length m) - 1, (L @ [x]) @ m @ H @ T)"
      using False by (simp add: partition_step_def m)
    then show ?thesis using Cons.IH [of m "L @ [x]" H] Cons.prems False by (auto simp: m)
  qed
qed

lemma partition_result:
  assumes "0 < n" and "off + n \<le> length lst" and "n \<le> length loc"
  defines "ts \<equiv> take (n - 1) (drop (off + 1) lst)" and "c \<equiv> lst ! off"
  defines "lows \<equiv> filter (\<lambda>x. \<not> sle c x) ts" and "highs \<equiv> filter (sle c) ts"
  shows "\<exists>z. partition_loop lst off n loc = (length lows, int (length lows), lows @ [z] @ rev highs @ drop n loc)
    \<and> length lows + length highs = n - 1"
proof -
  have ts: "map (\<lambda>i. lst ! (off + i)) [1..<n] = ts"
    using assms(1,2) by (intro nth_equalityI) (auto simp: ts_def)
  have len: "length ts = n - 1" using assms(1,2) by (simp add: ts_def)
  have lh: "length lows + length highs = n - 1"
    unfolding lows_def highs_def using sum_length_filter_compl [of "sle c" ts] len by simp
  have "partition_loop lst off n loc = fold (partition_step c) ts (0, int n - 1, loc)"
    unfolding partition_loop_def c_def ts [symmetric] fold_map by (simp add: o_def)
  moreover have "length (take n loc) = n" using assms(3) by simp
  then obtain mid where "length mid = 1"
    "fold (partition_step c) ts (0, int n - 1, loc) = (length lows, int n - 1 - int (length highs), lows @ mid @ rev highs @ drop n loc)"
  using partition_layout [of ts "take n loc" c "[]" "[]" "drop n loc"] assms(1) len
    by (auto simp del: length_take simp: lows_def highs_def)
  moreover have "int n - 1 - int (length highs) = int (length lows)" using lh assms(1) by linarith
  ultimately show ?thesis using lh by (cases mid) auto
qed

lemma copy_back_take:
  assumes "off + n \<le> length lst" and "n \<le> length loc"
  shows "copy_back lst off n loc = take off lst @ take n loc @ drop (off + n) lst"
  using assms
proof (induction n)
  case (Suc n)
  have "copy_back lst off (Suc n) loc = (take off lst @ take n loc @ drop (off + n) lst)[off + n := loc ! n]"
    using Suc by (simp add: copy_back_def)
  also have "\<dots> = take off lst @ take n loc @ (drop (off + n) lst)[0 := loc ! n]"
    using Suc.prems by (simp add: list_update_append)
  also have "(drop (off + n) lst)[0 := loc ! n] = loc ! n # drop (off + Suc n) lst"
    using Suc.prems by (simp add: Cons_nth_drop_Suc [symmetric])
  finally show ?case using Suc.prems by (simp add: take_Suc_conv_app_nth)
qed (simp add: copy_back_def)

section \<open>Sorting\<close>

abbreviation sorts :: "u32 list \<Rightarrow> u32 list \<Rightarrow> bool" where
  "sorts xs ys \<equiv> mset ys = mset xs \<and> sorted (map sint ys)"

lemma sorts_partition:
  assumes "sorts (filter (\<lambda>x. \<not> sle c x) ts) ls" and "sorts (rev (filter (sle c) ts)) hs"
  shows "sorts (c # ts) (ls @ [c] @ hs)"
proof -
  have s: "set ls = set (filter (\<lambda>x. \<not> sle c x) ts)" "set hs = set (filter (sle c) ts)"
    using assms by (auto dest!: arg_cong [of "mset _" _ set_mset])
  have "\<forall>x \<in> set ls. sint x \<le> sint c" "\<forall>x \<in> set hs. sint c \<le> sint x"
    unfolding s by (auto simp: sle_def)
  then have "sorted (map sint (ls @ [c] @ hs))" using assms by (force simp: sorted_append)
  moreover have "mset (ls @ [c] @ hs) = mset (c # ts)"
    using assms multiset_partition [of "mset ts" "sle c"] by (simp add: ac_simps)
  ultimately show ?thesis by blast
qed

lemma quicksort_sorts:
  assumes "0 < n" and "off + n \<le> length lst" and "n \<le> length loc"
  shows "\<exists>ys loc'. quicksort lst off n loc = Inr (take off lst @ ys @ drop (off + n) lst, loc')
    \<and> sorts (take n (drop off lst)) ys \<and> length loc' = length loc"
  using assms
proof (induction n arbitrary: lst off loc rule: less_induct)
  case (less n)
  define pre where "pre = take off lst"
  define post where "post = drop (off + n) lst"
  define c where "c = lst ! off"
  define ts where "ts = take (n - 1) (drop (off + 1) lst)"
  define lows where "lows = filter (\<lambda>x. \<not> sle c x) ts"
  define highs where "highs = filter (sle c) ts"
  have cts: "take n (drop off lst) = c # ts"
    using less.prems by (cases n) (auto simp: Cons_nth_drop_Suc [symmetric] c_def ts_def)
  have pre: "length pre = off" using less.prems by (simp add: pre_def)
  show ?case
  proof (cases "n = 1")
    case True
    then have "quicksort lst off n loc = Inr (pre @ [c] @ post, loc)"
      using less.prems id_take_nth_drop [of off lst] by (simp add: quicksort.simps [of lst] pre_def post_def c_def)
    moreover have "take n (drop off lst) = [c]" using True cts by (simp add: ts_def)
    ultimately show ?thesis unfolding pre_def [symmetric] post_def [symmetric] by (intro exI [of _ "[c]"] exI [of _ loc]) auto
  next
    case False
    obtain z where p: "partition_loop lst off n loc
        = (length lows, int (length lows), lows @ [z] @ rev highs @ drop n loc)"
      and len: "length lows + length highs = n - 1"
      using partition_result [OF less.prems] unfolding lows_def highs_def ts_def c_def by blast
    define loc0 where "loc0 = (lows @ [c] @ rev highs) @ drop n loc"
    define lst1 where "lst1 = pre @ lows @ [c] @ rev highs @ post"
    have "n = length (lows @ [c] @ rev highs)" using len less.prems(1) by simp
    moreover have "take n (xs @ ys) = xs" if "n = length xs" for xs ys :: "u32 list" using that by simp
    ultimately have "take n loc0 = lows @ [c] @ rev highs" unfolding loc0_def by blast
    moreover have ll: "length loc0 = length loc" using len less.prems by (simp add: loc0_def)
    ultimately have cb: "copy_back lst off n loc0 = lst1"
      using copy_back_take [of off n lst loc0] less.prems by (simp add: lst1_def pre_def post_def)
    have lu: "(lows @ [z] @ rev highs @ drop n loc)[length lows := c] = loc0" by (simp add: loc0_def)
    have l1: "length lst1 = length lst" "length post = length lst - (off + n)" "off + n \<le> length lst"
      using less.prems len pre by (simp_all add: lst1_def post_def)
    obtain ls loc1 where 1: "(if length lows \<noteq> 0 then quicksort lst1 off (length lows) loc0 else Inr (lst1, loc0))
        = Inr (pre @ ls @ [c] @ rev highs @ post, loc1)" "sorts lows ls" "length loc1 = length loc"
    proof (cases "lows = []")
      case True
      then show ?thesis using that [of "[]" loc0] ll by (simp add: lst1_def)
    next
      case False
      have "take off lst1 = pre" "drop (off + length lows) lst1 = [c] @ rev highs @ post"
        "take (length lows) (drop off lst1) = lows" using pre by (simp_all add: lst1_def)
      moreover have "length lows < n" "0 < length lows" "off + length lows \<le> length lst1" "length lows \<le> length loc0"
        using False len less.prems ll l1 by auto
      ultimately obtain ls loc1 where "quicksort lst1 off (length lows) loc0 = Inr (pre @ ls @ [c] @ rev highs @ post, loc1)"
        "sorts lows ls" "length loc1 = length loc0" using less.IH [of "length lows" off lst1 loc0] by auto
      then show ?thesis using that False ll by simp
    qed
    define lst2 where "lst2 = pre @ ls @ [c] @ rev highs @ post"
    have ls: "length ls = length lows" using 1(2) by (metis size_mset)
    obtain hs loc2 where 2: "(if int (length lows) \<noteq> int n - 1
        then quicksort lst2 (off + length lows + 1) (n - 1 - length lows) loc1
        else Inr (lst2, loc1)) = Inr (pre @ ls @ [c] @ hs @ post, loc2)"
        "sorts (rev highs) hs" "length loc2 = length loc"
    proof (cases "highs = []")
      case True
      then show ?thesis using that [of "[]" loc1] 1 len less.prems(1) by (simp add: lst2_def)
    next
      case False
      let ?o = "off + length lows + 1"
      have hp: "0 < length highs" using False by simp
      have "take ?o lst2 = pre @ ls @ [c]" "drop (?o + length highs) lst2 = post"
        "take (length highs) (drop ?o lst2) = rev highs" using pre ls by (simp_all add: lst2_def)
      moreover have "int (length lows) \<noteq> int n - 1" using hp len less.prems(1) by linarith
      then have n: "n - 1 - length lows = length highs" "int (length lows) \<noteq> int n - 1" "length highs < n"
        "0 < length highs" "?o + length highs \<le> length lst2" "length highs \<le> length loc1"
        using hp len less.prems 1(3) l1 pre ls by (auto simp: lst2_def)
      moreover note n
      ultimately obtain hs loc2 where "quicksort lst2 ?o (length highs) loc1 = Inr ((pre @ ls @ [c]) @ hs @ post, loc2)"
        "sorts (rev highs) hs" "length loc2 = length loc1" using less.IH [of "length highs" ?o lst2 loc1] by auto
      then show ?thesis using that n(1,2) 1(3) by simp
    qed
    have "quicksort lst off n loc = Inr (pre @ (ls @ [c] @ hs) @ post, loc2)"
      unfolding quicksort.simps [of lst] p Let_def prod.case c_def [symmetric] nat_int lu cb 1(1) lst2_def [symmetric]
      using False 2(1) by simp
    moreover have "sorts (c # ts) (ls @ [c] @ hs)"
      using sorts_partition [where c = c and ts = ts and ls = ls and hs = hs] 1(2) 2(2) unfolding lows_def highs_def by blast
    ultimately show ?thesis using 2(3) unfolding cts pre_def [symmetric] post_def [symmetric] by blast
  qed
qed

section \<open>The programs\<close>

text \<open>
  Between the barriers: the copy of \<open>data\<close>, the call, and the check of order and sum. The arrays are
  private to the tile.
\<close>

definition qs_copy :: "u32 list \<Rightarrow> u32 list" where
  "qs_copy src = fold (\<lambda>i copy. copy[i := src ! i]) [0..<length src] (replicate (length src) 0)"

definition qs_sum :: "u32 list \<Rightarrow> u32" where
  "qs_sum lst = fold (\<lambda>i s. s + lst ! (i + 1)) [0..<length lst - 1] (lst ! 0)"

definition qs_check :: "cfg \<Rightarrow> tile \<Rightarrow> u32 \<Rightarrow> u32 list \<Rightarrow> proc" where
  "qs_check c t answer lst =
     seq (for_each [0..<length lst - 1] (\<lambda>i. if slt (lst ! (i + 1)) (lst ! i) then bsg_fail c t else Ret 0))
       (if qs_sum lst = answer then Ret 0
        else seq (do_printf c (''sum: %d, expected %d, [FAILED]'' @ [CHR 0x0A]) [Word (qs_sum lst), Word answer])
          (bsg_fail c t))"

definition qs_work :: "cfg \<Rightarrow> tile \<Rightarrow> u32 \<Rightarrow> u32 list \<Rightarrow> proc" where
  "qs_work c t answer src =
     (case quicksort (qs_copy src) 0 (length src) (replicate (length src) 0) of
        Inl Qs_Fail \<Rightarrow> bsg_fail c t
      | Inr (lst, local_lst) \<Rightarrow> qs_check c t answer lst)"

definition qs_main :: "cfg \<Rightarrow> tile \<Rightarrow> u32 \<Rightarrow> proc" where
  "qs_main c t tile0_barrier =
     seq (bsg_barrier_wait t tile0_barrier 0 0)
       (seq (qs_work c t QS_ANSWER qs_data)
         (seq (bsg_barrier_wait t tile0_barrier 0 0)
           (seq (if t = (0, 0) then bsg_finish c t else Ret 0) spin_forever)))"

text \<open>\<open>quicksort_by4\<close>: the same program on the first 128 elements.\<close>

definition NUM_DATA_by4 :: nat where "NUM_DATA_by4 = 128"
definition QS_ANSWER_by4 :: u32 where "QS_ANSWER_by4 = 6750377"

definition qs_data_by4 :: "u32 list" where
  "qs_data_by4 = [
   78113, 17198, 14782, 16082, 9277, 85314, 16469, 30084,
   52569, 37570, 38166, 67932, 58458, 53102, 75867, 96332,
   842, 70077, 62479, 39741, 89951, 35239, 66788, 82916,
   37515, 2778, 57651, 22652, 18587, 70651, 70152, 25686,
   30002, 89551, 15633, 87965, 88199, 76903, 64265, 84150,
   39286, 46186, 39684, 45319, 79187, 24765, 87722, 28434,
   22963, 29593, 45248, 58904, 74658, 85106, 69356, 81062,
   95151, 14849, 71309, 91866, 27618, 92831, 70993, 82279,
   69459, 49125, 65084, 56782, 13365, 52947, 29800, 36505,
   44389, 15180, 7282, 8842, 28547, 16757, 88223, 55053,
   78651, 11918, 48023, 56872, 65456, 79328, 22877, 77421,
   66976, 95917, 76287, 63778, 42452, 34856, 96273, 66728,
   27939, 82898, 23122, 33035, 40497, 99457, 10580, 96097,
   77039, 18125, 48743, 81845, 19005, 67238, 273, 33233,
   65641, 68438, 74165, 46283, 7831, 43678, 75323, 23181,
   97566, 89398, 10363, 71153, 48189, 99549, 43076, 64207]"

definition qs_main_by4 :: "cfg \<Rightarrow> tile \<Rightarrow> u32 \<Rightarrow> proc" where
  "qs_main_by4 c t tile0_barrier =
     seq (bsg_barrier_wait t tile0_barrier 0 0)
       (seq (qs_work c t QS_ANSWER_by4 qs_data_by4)
         (seq (bsg_barrier_wait t tile0_barrier 0 0)
           (seq (if t = (0, 0) then bsg_finish c t else Ret 0) spin_forever)))"

section \<open>What the programs check\<close>

lemma qs_copy_id: "qs_copy src = src"
proof -
  have "fold (\<lambda>i copy. copy[i := src ! i]) [0..<n] dst = take n src @ drop n dst"
    if "n \<le> length src" "length dst = length src" for n dst
    using copy_back_take [of 0 n dst src] that by (simp add: copy_back_def)
  then show ?thesis by (simp add: qs_copy_def)
qed

lemma qs_sum_list: "lst \<noteq> [] \<Longrightarrow> qs_sum lst = sum_list lst"
proof -
  assume "lst \<noteq> []"
  have "fold (\<lambda>i s. s + xs ! (i + 1)) [0..<n] (xs ! 0) = sum_list (take (n + 1) xs)" if "n < length xs" for n and xs :: "u32 list"
    using that by (induction n) (auto simp: take_Suc_conv_app_nth)
  from this [of "length lst - 1" lst] show ?thesis using \<open>lst \<noteq> []\<close> by (simp add: qs_sum_def)
qed

lemma for_each_Ret: "(\<And>x. x \<in> set xs \<Longrightarrow> f x = Ret 0) \<Longrightarrow> for_each xs f = Ret 0"
  by (induction xs) auto

lemma qs_work_returns:
  assumes "src \<noteq> []"
  shows "\<exists>ys loc. quicksort (qs_copy src) 0 (length src) (replicate (length src) 0) = Inr (ys, loc)
    \<and> mset ys = mset src \<and> sorted (map sint ys)
    \<and> (qs_work c t answer src = Ret 0 \<longleftrightarrow> sum_list src = answer)"
proof -
  obtain ys loc where q: "quicksort (qs_copy src) 0 (length src) (replicate (length src) 0) = Inr (ys, loc)"
    and ys: "mset ys = mset src" "sorted (map sint ys)"
    using quicksort_sorts [of "length src" 0 src "replicate (length src) 0"] assms by (auto simp: qs_copy_id)
  have "slt (ys ! (i + 1)) (ys ! i) = False" if "i < length ys - 1" for i
    using sorted_nth_mono [OF ys(2), of i "i + 1"] that by (auto simp: slt_def less_diff_conv)
  then have "for_each [0..<length ys - 1] (\<lambda>i. if slt (ys ! (i + 1)) (ys ! i) then bsg_fail c t else Ret 0) = Ret 0"
    by (intro for_each_Ret) simp
  moreover have "ys \<noteq> []" using ys(1) assms by auto
  then have "qs_sum ys = sum_list src" using ys(1) by (simp add: qs_sum_list sum_mset_sum_list [symmetric])
  moreover have "seq p (bsg_fail c t) \<noteq> Ret 0" for p by (induction p) (auto simp: bsg_fail_def)
  ultimately have "qs_work c t answer src = Ret 0 \<longleftrightarrow> sum_list src = answer"
    by (auto simp: qs_work_def q qs_check_def)
  then show ?thesis using q ys by blast
qed

text \<open>
  C27: on any non-empty data the routine sorts, and the work between the barriers returns without a
  failure report exactly when the sum of the data is the expected one.
\<close>

lemma qs_work_correct:
  assumes "src \<noteq> []"
  shows "\<exists>ys loc. quicksort (qs_copy src) 0 (length src) (replicate (length src) 0) = Inr (ys, loc)
    \<and> mset ys = mset src \<and> sorted (map sint ys)
    \<and> (qs_work c t answer src = Ret 0 \<longleftrightarrow> sum_list src = answer)"
  using qs_work_returns [OF assms] .

lemma qs_work_correct_witness:
  "\<exists>ys loc. quicksort (qs_copy [3, - 1, 2]) 0 3 (replicate 3 0) = Inr (ys, loc)
    \<and> mset ys = mset [3, - 1, 2] \<and> sorted (map sint ys) \<and> qs_work small_cfg (0, 0) 4 [3, - 1, 2] = Ret 0"
  using qs_work_correct [of "[3, - 1, 2]" small_cfg "(0, 0)" 4] by (simp add: numeral_3_eq_3)

text \<open>The data of both programs passes: no tile reports a failure between the barriers.\<close>

lemma qs_data_pass: "qs_work c t QS_ANSWER qs_data = Ret 0 \<and> qs_work c t QS_ANSWER_by4 qs_data_by4 = Ret 0"
proof -
  have "sum_list qs_data = QS_ANSWER" "sum_list qs_data_by4 = QS_ANSWER_by4" "qs_data \<noteq> []" "qs_data_by4 \<noteq> []"
    by (simp_all add: qs_data_def qs_data_0_def qs_data_1_def qs_data_2_def qs_data_3_def QS_ANSWER_def
        qs_data_by4_def QS_ANSWER_by4_def)
  then show ?thesis
    using qs_work_returns [of qs_data c t QS_ANSWER] qs_work_returns [of qs_data_by4 c t QS_ANSWER_by4] by blast
qed

end
