(* ===== verification/HW_Barrier.thy ===== *)
theory HW_Barrier
  imports Manycore
begin

text \<open>
  \<open>bsg_hw_barrier_config_init.h\<close>: the configuration words of the hardware barrier network. Each tile
  sends its barrier signal in one direction and merges the signals of the directions in its input
  mask. The words describe one tree: masks and directions agree, and from every tile the signal
  reaches the root at the centre of the group.
\<close>

section \<open>The configuration words\<close>

text \<open>The directions of the network, with the codes of the source.\<close>

datatype dir = P | W | E | N | S | RW | RE | Root

primrec dir_code :: "dir \<Rightarrow> nat" where
  "dir_code P = 0" | "dir_code W = 1" | "dir_code E = 2" | "dir_code N = 3" | "dir_code S = 4"
| "dir_code RW = 5" | "dir_code RE = 6" | "dir_code Root = 7"

definition OUTDIR_OFFSET :: nat where "OUTDIR_OFFSET = 16"

definition config_outdir :: "int \<Rightarrow> int \<Rightarrow> int \<Rightarrow> int \<Rightarrow> int \<Rightarrow> dir" where
  "config_outdir rf tx ty x y =
     (let center_x = tx div 2; center_y = ty div 2 in
      if x \<le> center_x - rf then RE
      else if x < center_x \<and> x > center_x - rf then E
      else if x = center_x then (if y < center_y then S else if y = center_y then Root else N)
      else if x > center_x \<and> x < center_x + rf then W
      else RW)"

definition config_input :: "int \<Rightarrow> int \<Rightarrow> int \<Rightarrow> int \<Rightarrow> int \<Rightarrow> dir \<Rightarrow> bool" where
  "config_input rf tx ty x y d =
     (let center_x = tx div 2; center_y = ty div 2 in
      case d of
        P \<Rightarrow> True
      | W \<Rightarrow> center_x - x < rf - 1 \<and> x \<le> center_x \<and> x > 0
      | RW \<Rightarrow> x - rf \<ge> 0 \<and> x \<le> center_x
      | E \<Rightarrow> x - center_x < rf - 1 \<and> x \<ge> center_x \<and> x < tx - 1
      | RE \<Rightarrow> x + rf < tx \<and> x \<ge> center_x
      | N \<Rightarrow> x = center_x \<and> y > 0 \<and> y \<le> center_y
      | S \<Rightarrow> x = center_x \<and> y < ty - 1 \<and> y \<ge> center_y
      | Root \<Rightarrow> False)"

text \<open>\<open>val |= (1 << d)\<close> under the condition of direction \<open>d\<close>.\<close>

definition or_input :: "int \<Rightarrow> int \<Rightarrow> int \<Rightarrow> int \<Rightarrow> int \<Rightarrow> dir \<Rightarrow> u32 \<Rightarrow> u32" where
  "or_input rf tx ty x y d val = (if config_input rf tx ty x y d then val OR push_bit (dir_code d) 1 else val)"

definition config_val :: "int \<Rightarrow> int \<Rightarrow> int \<Rightarrow> int \<Rightarrow> int \<Rightarrow> u32" where
  "config_val rf tx ty x y =
     fold (or_input rf tx ty x y) [W, RW, E, RE, N, S]
       (1 OR push_bit OUTDIR_OFFSET (of_nat (dir_code (config_outdir rf tx ty x y))))"

text \<open>\<open>rf\<close> is \<open>BARRIER_RUCHE_FACTOR_X\<close>, defined by the build.\<close>

definition bsg_hw_barrier_config_init :: "int \<Rightarrow> u32 list \<Rightarrow> int \<Rightarrow> int \<Rightarrow> u32 list" where
  "bsg_hw_barrier_config_init rf arr tx ty =
     fold (\<lambda>x. fold (\<lambda>y arr. arr[nat (x + y * tx) := config_val rf tx ty x y]) [0..ty - 1]) [0..tx - 1] arr"

section \<open>The fields of a word\<close>

definition opposite :: "dir \<Rightarrow> dir" where
  "opposite d = (case d of W \<Rightarrow> E | E \<Rightarrow> W | N \<Rightarrow> S | S \<Rightarrow> N | RW \<Rightarrow> RE | RE \<Rightarrow> RW | _ \<Rightarrow> d)"

text \<open>The tile that a signal sent in direction \<open>d\<close> arrives at.\<close>

definition hop :: "int \<Rightarrow> dir \<Rightarrow> int \<times> int \<Rightarrow> int \<times> int" where
  "hop rf d = (\<lambda>(x, y). case d of W \<Rightarrow> (x - 1, y) | E \<Rightarrow> (x + 1, y) | N \<Rightarrow> (x, y - 1) | S \<Rightarrow> (x, y + 1)
     | RW \<Rightarrow> (x - rf, y) | RE \<Rightarrow> (x + rf, y) | _ \<Rightarrow> (x, y))"

lemma dir_code_lt: "dir_code d < 8"
  by (cases d) simp_all

lemma dir_code_inj: "dir_code d = dir_code e \<longleftrightarrow> d = e"
  by (cases d; cases e) simp_all

lemma bit_or_input:
  "bit (or_input rf tx ty x y d val) n \<longleftrightarrow> bit val n \<or> config_input rf tx ty x y d \<and> n = dir_code d"
  using dir_code_lt [of d] by (auto simp: or_input_def bit_simps)

lemma bit_config_val:
  "bit (config_val rf tx ty x y) n \<longleftrightarrow>
     n < 32 \<and> 16 \<le> n \<and> bit (of_nat (dir_code (config_outdir rf tx ty x y)) :: u32) (n - 16)
     \<or> (\<exists>d. config_input rf tx ty x y d \<and> n = dir_code d)"
proof -
  have "(\<exists>d. config_input rf tx ty x y d \<and> n = dir_code d) \<longleftrightarrow> n = 0
      \<or> (\<exists>d \<in> {W, RW, E, RE, N, S}. config_input rf tx ty x y d \<and> n = dir_code d)"
  proof -
    have "d \<in> {W, RW, E, RE, N, S} \<or> d = P \<or> d = Root" for d by (cases d) auto
    moreover have "config_input rf tx ty x y P" "\<not> config_input rf tx ty x y Root"
      by (simp_all add: config_input_def)
    ultimately show ?thesis by (metis dir_code.simps(1))
  qed
  then show ?thesis
    unfolding config_val_def OUTDIR_OFFSET_def by (auto simp: bit_or_input bit_simps)
qed

lemma config_val_fields:
  "drop_bit 16 (config_val rf tx ty x y) = of_nat (dir_code (config_outdir rf tx ty x y))"
  "bit (config_val rf tx ty x y) (dir_code d) \<longleftrightarrow> config_input rf tx ty x y d"
proof -
  let ?v = "of_nat (dir_code (config_outdir rf tx ty x y)) :: u32"
  have "unat ?v < 2 ^ 3" using dir_code_lt [of "config_outdir rf tx ty x y"] by (simp add: unat_of_nat)
  then have f: "n < 3" if "bit ?v n" for n
    using bit_field_False [of ?v 3 n] that by fastforce
  have l: "dir_code q < 16" for q using dir_code_lt [of q] by simp
  show "drop_bit 16 (config_val rf tx ty x y) = ?v"
  proof (rule bit_word_eqI)
    fix n
    have "16 + n \<noteq> dir_code q" for q using l [of q] by simp
    then show "bit (drop_bit 16 (config_val rf tx ty x y)) n = bit ?v n"
      using f [of n] by (auto simp: bit_drop_bit_eq bit_config_val)
  qed
  show "bit (config_val rf tx ty x y) (dir_code d) \<longleftrightarrow> config_input rf tx ty x y d"
    using l [of d] by (auto simp: bit_config_val dir_code_inj)
qed

section \<open>The tree\<close>

text \<open>The number of tiles between a tile and the centre, the rank of the hops.\<close>

definition centre_dist :: "int \<Rightarrow> int \<Rightarrow> int \<Rightarrow> int \<Rightarrow> nat" where
  "centre_dist tx ty x y = nat \<bar>x - tx div 2\<bar> + nat \<bar>y - ty div 2\<bar>"

lemma config_out_in:
  assumes "1 \<le> rf" and "0 \<le> x" and "x < tx" and "0 \<le> y" and "y < ty"
    and "config_outdir rf tx ty x y \<noteq> Root" and "hop rf (config_outdir rf tx ty x y) (x, y) = (x', y')"
  shows "0 \<le> x' \<and> x' < tx \<and> 0 \<le> y' \<and> y' < ty \<and> config_input rf tx ty x' y' (opposite (config_outdir rf tx ty x y))
    \<and> centre_dist tx ty x' y' < centre_dist tx ty x y"
proof -
  define cx where "cx = tx div 2"
  define cy where "cy = ty div 2"
  have c: "0 \<le> cx" "cx < tx" "0 \<le> cy" "cy < ty" using assms(2-5) by (auto simp: cx_def cy_def)
  note d = config_outdir_def [of rf tx ty, folded cx_def cy_def, unfolded Let_def]
  note i = config_input_def [of rf tx ty, folded cx_def cy_def, unfolded Let_def]
  note n = centre_dist_def [of tx ty, folded cx_def cy_def]
  consider "x \<le> cx - rf" | "x < cx" "x > cx - rf" | "x = cx" "y < cy" | "x = cx" "y > cy"
    | "x > cx" "x < cx + rf" | "x \<ge> cx + rf"
    using assms(6) unfolding d by (auto split: if_splits)
  then show ?thesis
    by cases (use assms(1-5,7) c in \<open>auto simp: d i n hop_def opposite_def\<close>)
qed

lemma config_in_out:
  assumes "1 \<le> rf" and "0 \<le> x" and "x < tx" and "0 \<le> y" and "y < ty"
    and "config_input rf tx ty x y d" and "d \<noteq> P" and "hop rf d (x, y) = (x', y')"
  shows "0 \<le> x' \<and> x' < tx \<and> 0 \<le> y' \<and> y' < ty \<and> config_outdir rf tx ty x' y' = opposite d"
  using assms by (cases d) (auto simp: config_outdir_def hop_def opposite_def config_input_def Let_def)

lemma config_root:
  assumes "1 \<le> rf"
  shows "config_outdir rf tx ty x y = Root \<longleftrightarrow> x = tx div 2 \<and> y = ty div 2"
  using assms by (auto simp: config_outdir_def Let_def)

section \<open>The array\<close>

lemma fold_nested: "fold (\<lambda>x. fold (f x) ys) xs s = fold (\<lambda>(x, y). f x y) (List.product xs ys) s"
proof -
  have "fold (\<lambda>(x, y). f x y) (map (Pair x) ys) s = fold (f x) ys s" for x s
    by (induction ys arbitrary: s) auto
  then show ?thesis by (induction xs arbitrary: s) auto
qed

lemma length_fold_update: "length (fold (\<lambda>q a. a[g q := h q]) qs a) = length a"
  by (induction qs arbitrary: a) auto

lemma nth_fold_update_other: "k \<notin> g ` set qs \<Longrightarrow> fold (\<lambda>q a. a[g q := h q]) qs a ! k = a ! k"
  by (induction qs arbitrary: a) auto

lemma nth_fold_update:
  assumes "inj_on g (set qs)" and "\<forall>q \<in> set qs. g q < length a" and "q \<in> set qs"
  shows "fold (\<lambda>q a. a[g q := h q]) qs a ! g q = h q"
  using assms
proof (induction qs arbitrary: a)
  case (Cons r qs)
  show ?case
  proof (cases "q \<in> set qs")
    case True
    then show ?thesis using Cons.IH [of "a[g r := h r]"] Cons.prems by (auto simp: inj_on_insert)
  next
    case False
    then have "q = r" "g r \<notin> g ` set qs" using Cons.prems by (auto simp: inj_on_def)
    then show ?thesis using Cons.prems by (simp add: nth_fold_update_other)
  qed
qed simp

lemma tile_index_inj:
  assumes "0 \<le> x" and "x < (tx :: int)" and "0 \<le> y" and "0 \<le> x'" and "x' < tx" and "0 \<le> y'"
    and "nat (x + y * tx) = nat (x' + y' * tx)"
  shows "x = x' \<and> y = y'"
proof -
  have "0 \<le> x + y * tx" "0 \<le> x' + y' * tx" using assms by simp_all
  then have e: "x + y * tx = x' + y' * tx" using assms(7) by linarith
  have "x = (x + y * tx) mod tx" "x' = (x' + y' * tx) mod tx" using assms by simp_all
  then have "x = x'" using e by simp
  then show ?thesis using e assms by simp
qed

lemma config_array:
  assumes "0 \<le> x" and "x < tx" and "0 \<le> y" and "y < ty" and "nat (tx * ty) \<le> length arr"
  shows "bsg_hw_barrier_config_init rf arr tx ty ! nat (x + y * tx) = config_val rf tx ty x y"
proof -
  let ?ps = "List.product [0..tx - 1] [0..ty - 1]" and ?g = "\<lambda>(x, y). nat (x + y * tx)"
    and ?h = "\<lambda>(x, y). config_val rf tx ty x y"
  have e: "bsg_hw_barrier_config_init rf arr tx ty = fold (\<lambda>q a. a[?g q := ?h q]) ?ps arr"
    unfolding bsg_hw_barrier_config_init_def fold_nested by (simp add: case_prod_unfold)
  have lt: "u + v * tx < tx * ty" if "u < tx" "v < ty" "0 \<le> v" "0 \<le> u" for u v
  proof -
    have "u + v * tx < tx + v * tx" using that by simp
    also have "\<dots> = tx * (v + 1)" by (simp add: algebra_simps)
    also have "\<dots> \<le> tx * ty" using that by (intro mult_left_mono) auto
    finally show ?thesis .
  qed
  have "inj_on ?g (set ?ps)"
    by (rule inj_onI) (auto dest: tile_index_inj)
  moreover have "\<forall>q \<in> set ?ps. ?g q < length arr"
  proof
    fix q
    assume "q \<in> set ?ps"
    then obtain u v where q: "q = (u, v)" "0 \<le> u" "u < tx" "0 \<le> v" "v < ty" by auto
    show "?g q < length arr" using lt [OF q(3,5,4,2)] assms(5) q by (simp add: nat_less_iff nat_le_iff)
  qed
  moreover have "(x, y) \<in> set ?ps" using assms by auto
  ultimately show ?thesis
    using nth_fold_update [of ?g ?ps arr "(x, y)" ?h] by (simp add: e)
qed

text \<open>The direction that a configuration word names, and the next tile on the way of the signal.\<close>

definition word_dir :: "u32 \<Rightarrow> dir" where
  "word_dir w = [P, W, E, N, S, RW, RE, Root] ! unat (drop_bit 16 w)"

definition follow :: "u32 list \<Rightarrow> int \<Rightarrow> int \<Rightarrow> int \<times> int \<Rightarrow> int \<times> int" where
  "follow arr rf tx = (\<lambda>(x, y). hop rf (word_dir (arr ! nat (x + y * tx))) (x, y))"

lemma word_dir_config [simp]: "word_dir (config_val rf tx ty x y) = config_outdir rf tx ty x y"
  by (cases "config_outdir rf tx ty x y") (simp_all add: word_dir_def config_val_fields)

lemma follow_root:
  assumes "1 \<le> rf" and "nat (tx * ty) \<le> length arr" and "0 \<le> x" and "x < tx" and "0 \<le> y" and "y < ty"
  shows "\<exists>n. (follow (bsg_hw_barrier_config_init rf arr tx ty) rf tx ^^ n) (x, y) = (tx div 2, ty div 2)"
  using assms(3-)
proof (induction "centre_dist tx ty x y" arbitrary: x y rule: less_induct)
  case less
  show ?case
  proof (cases "config_outdir rf tx ty x y = Root")
    case True
    then show ?thesis using config_root [OF assms(1)] by (intro exI [of _ 0]) auto
  next
    case False
    obtain x' y' where h: "hop rf (config_outdir rf tx ty x y) (x, y) = (x', y')" by force
    note o = config_out_in [OF assms(1) less.prems False h]
    have f: "follow (bsg_hw_barrier_config_init rf arr tx ty) rf tx (x, y) = (x', y')"
      using config_array [OF less.prems assms(2), of rf] h by (simp add: follow_def)
    obtain n where "(follow (bsg_hw_barrier_config_init rf arr tx ty) rf tx ^^ n) (x', y') = (tx div 2, ty div 2)"
      using less.hyps [of x' y'] o by auto
    then show ?thesis
      by (intro exI [of _ "Suc n"]) (simp add: funpow_Suc_right f del: funpow.simps)
  qed
qed

text \<open>
  C28: the configuration array describes one tree. The word of every tile but the centre names a
  direction whose next tile exists and listens in the opposite direction; every direction a tile
  listens to leads to a tile that exists and sends in the opposite direction; and from every tile
  the signal reaches the centre, the root, in finitely many hops.
\<close>

theorem hw_config_tree:
  assumes "1 \<le> rf" and "0 \<le> x" and "x < tx" and "0 \<le> y" and "y < ty" and "nat (tx * ty) \<le> length arr"
  defines "a \<equiv> bsg_hw_barrier_config_init rf arr tx ty"
  shows "(word_dir (a ! nat (x + y * tx)) = Root \<longleftrightarrow> (x, y) = (tx div 2, ty div 2))
    \<and> ((x, y) \<noteq> (tx div 2, ty div 2) \<longrightarrow> (\<exists>d x' y'. d = word_dir (a ! nat (x + y * tx)) \<and> hop rf d (x, y) = (x', y')
        \<and> 0 \<le> x' \<and> x' < tx \<and> 0 \<le> y' \<and> y' < ty \<and> bit (a ! nat (x' + y' * tx)) (dir_code (opposite d))))
    \<and> (\<forall>d. d \<noteq> P \<and> bit (a ! nat (x + y * tx)) (dir_code d) \<longrightarrow> (\<exists>x' y'. hop rf d (x, y) = (x', y')
        \<and> 0 \<le> x' \<and> x' < tx \<and> 0 \<le> y' \<and> y' < ty \<and> word_dir (a ! nat (x' + y' * tx)) = opposite d))
    \<and> (\<exists>n. (follow a rf tx ^^ n) (x, y) = (tx div 2, ty div 2))"
proof (intro conjI)
  have w: "a ! nat (u + v * tx) = config_val rf tx ty u v" if "0 \<le> u" "u < tx" "0 \<le> v" "v < ty" for u v
    unfolding a_def by (rule config_array [OF that assms(6)])
  note w0 = w [OF assms(2-5)]
  show r: "word_dir (a ! nat (x + y * tx)) = Root \<longleftrightarrow> (x, y) = (tx div 2, ty div 2)"
    using config_root [OF assms(1)] by (simp add: w0)
  show "(x, y) \<noteq> (tx div 2, ty div 2) \<longrightarrow> (\<exists>d x' y'. d = word_dir (a ! nat (x + y * tx)) \<and> hop rf d (x, y) = (x', y')
      \<and> 0 \<le> x' \<and> x' < tx \<and> 0 \<le> y' \<and> y' < ty \<and> bit (a ! nat (x' + y' * tx)) (dir_code (opposite d)))"
  proof
    assume "(x, y) \<noteq> (tx div 2, ty div 2)"
    then have n: "config_outdir rf tx ty x y \<noteq> Root" using config_root [OF assms(1)] by auto
    obtain x' y' where h: "hop rf (config_outdir rf tx ty x y) (x, y) = (x', y')" by force
    have i: "0 \<le> x'" "x' < tx" "0 \<le> y'" "y' < ty" "config_input rf tx ty x' y' (opposite (config_outdir rf tx ty x y))"
      using config_out_in [OF assms(1-5) n h] by simp_all
    then have "bit (a ! nat (x' + y' * tx)) (dir_code (opposite (config_outdir rf tx ty x y)))"
      by (simp add: w config_val_fields)
    then show "\<exists>d x' y'. d = word_dir (a ! nat (x + y * tx)) \<and> hop rf d (x, y) = (x', y')
      \<and> 0 \<le> x' \<and> x' < tx \<and> 0 \<le> y' \<and> y' < ty \<and> bit (a ! nat (x' + y' * tx)) (dir_code (opposite d))"
      using h i(1-4) w0 by (intro exI [of _ "config_outdir rf tx ty x y"] exI [of _ x'] exI [of _ y']) simp
  qed
  show "\<forall>d. d \<noteq> P \<and> bit (a ! nat (x + y * tx)) (dir_code d) \<longrightarrow> (\<exists>x' y'. hop rf d (x, y) = (x', y')
      \<and> 0 \<le> x' \<and> x' < tx \<and> 0 \<le> y' \<and> y' < ty \<and> word_dir (a ! nat (x' + y' * tx)) = opposite d)"
  proof (intro allI impI, elim conjE)
    fix d
    assume d: "d \<noteq> P" "bit (a ! nat (x + y * tx)) (dir_code d)"
    obtain x' y' where h: "hop rf d (x, y) = (x', y')" by force
    have "config_input rf tx ty x y d" using d(2) by (simp add: w0 config_val_fields)
    from config_in_out [OF assms(1-5) this d(1) h]
    show "\<exists>x' y'. hop rf d (x, y) = (x', y')
      \<and> 0 \<le> x' \<and> x' < tx \<and> 0 \<le> y' \<and> y' < ty \<and> word_dir (a ! nat (x' + y' * tx)) = opposite d"
      using h by (intro exI [of _ x'] exI [of _ y']) (auto simp: w)
  qed
  show "\<exists>n. (follow a rf tx ^^ n) (x, y) = (tx div 2, ty div 2)"
    unfolding a_def by (rule follow_root [OF assms(1,6,2-5)])
qed

text \<open>The sixteen by eight group of the test programs, with ruche factor 3, at its corner.\<close>

lemma hw_config_tree_witness:
  "\<exists>n. (follow (bsg_hw_barrier_config_init 3 (replicate 128 0) 16 8) 3 16 ^^ n) (0, 0) = (8, 4)"
  using hw_config_tree [of 3 0 16 0 8 "replicate 128 0"] by simp

end
