(* ===== verification/Tile_Group_Barrier_Cpp.thy ===== *)
theory Tile_Group_Barrier_Cpp
  imports Tile_Group_Barrier
begin

text \<open>
  \<open>bsg_tile_group_barrier.hpp\<close>, \<open>bsg_mutex.hpp\<close> and \<open>bsg_manycore.hpp\<close>: the barrier as C++ class
  templates. It differs from the C header in the layout of the objects, in the order in which the
  flags are cleared, and in that \<open>reset\<close> also clears the alert word. It is another instance of the
  tree of handshakes.
\<close>

section \<open>Pointers and waiting\<close>

definition bsg_tile_group_remote_pointer :: "u32 \<Rightarrow> u32 \<Rightarrow> u32 \<Rightarrow> u32" where
  "bsg_tile_group_remote_pointer x y local_addr =
     push_bit REMOTE_PREFIX_SHIFT 1 OR push_bit REMOTE_Y_CORD_SHIFT (take_bit 8 y)
       OR push_bit REMOTE_X_CORD_SHIFT (take_bit 8 x) OR local_addr"

definition bsg_wait_local :: "u32 \<Rightarrow> u32 \<Rightarrow> proc" where
  "bsg_wait_local dst val =
     Loop (bind (bsg_lr dst) (\<lambda>tmp. if tmp = val then Ret val else bsg_lr_aq dst)) (\<lambda>tmp. tmp = val) (\<lambda>_. Ret val)"

text \<open>The values of \<open>for (i = 0; i < dim; i++)\<close> over a template parameter.\<close>

definition dim_range :: "nat \<Rightarrow> u32 list" where
  "dim_range dim = map of_nat [0..<dim]"

definition poll_range_hpp :: "u32 \<Rightarrow> nat \<Rightarrow> proc" where
  "poll_range_hpp p dim = Loop (poll_scan (map (\<lambda>i. p + i) (dim_range dim)) 0) (\<lambda>i. \<not> slt i (of_nat dim)) (\<lambda>_. Ret 0)"

section \<open>The row class\<close>

text \<open>An object at address \<open>p\<close>: \<open>_local_alert\<close> at offset 0, \<open>_done_list\<close> at offset 4.\<close>

definition done_list :: "u32 \<Rightarrow> u32 \<Rightarrow> u32" where "done_list p i = p + 4 + i"

definition row_reset :: "nat \<Rightarrow> u32 \<Rightarrow> proc" where
  "row_reset xdim p = seq (for_each (dim_range xdim) (\<lambda>i. Act (Store8 (done_list p i) 0) Ret)) (Act (Store32 p 0) Ret)"

definition row_sync :: "tile \<Rightarrow> u32 \<Rightarrow> u32 \<Rightarrow> proc" where
  "row_sync t p center_x_cord =
     Act (Store8 (bsg_tile_group_remote_pointer center_x_cord (snd t) (done_list p (fst t))) 1) Ret"

definition row_alert :: "nat \<Rightarrow> tile \<Rightarrow> u32 \<Rightarrow> proc" where
  "row_alert xdim t p = for_each (dim_range xdim) (\<lambda>x. Act (Store32 (bsg_tile_group_remote_pointer x (snd t) p) 1) Ret)"

definition row_wait_on_sync :: "nat \<Rightarrow> u32 \<Rightarrow> proc" where
  "row_wait_on_sync xdim p = poll_range_hpp (done_list p 0) xdim"

definition row_wait_on_alert :: "u32 \<Rightarrow> proc" where
  "row_wait_on_alert p = seq (bsg_wait_local p 1) (Act (Store32 p 0) Ret)"

section \<open>The column class\<close>

definition col_reset :: "nat \<Rightarrow> u32 \<Rightarrow> proc" where
  "col_reset ydim p = seq (for_each (dim_range ydim) (\<lambda>i. Act (Store8 (done_list p i) 0) Ret)) (Act (Store32 p 0) Ret)"

definition col_sync :: "tile \<Rightarrow> u32 \<Rightarrow> u32 \<Rightarrow> u32 \<Rightarrow> proc" where
  "col_sync t p center_x_cord center_y_cord =
     Act (Store8 (bsg_tile_group_remote_pointer center_x_cord center_y_cord (done_list p (snd t))) 1) Ret"

definition col_alert :: "nat \<Rightarrow> tile \<Rightarrow> u32 \<Rightarrow> proc" where
  "col_alert ydim t p = for_each (dim_range ydim) (\<lambda>y. Act (Store32 (bsg_tile_group_remote_pointer (fst t) y p) 1) Ret)"

definition col_wait_on_sync :: "nat \<Rightarrow> u32 \<Rightarrow> proc" where
  "col_wait_on_sync ydim p = poll_range_hpp (done_list p 0) ydim"

definition col_wait_on_alert :: "u32 \<Rightarrow> proc" where
  "col_wait_on_alert p = seq (bsg_wait_local p 1) (Act (Store32 p 0) Ret)"

section \<open>The barrier class\<close>

text \<open>The row object is at the start of the barrier object, the column object follows it.\<close>

record bsg_barrier_hpp =
  x_dim :: nat
  y_dim :: nat
  r_barrier :: u32

definition c_barrier :: "bsg_barrier_hpp \<Rightarrow> u32" where
  "c_barrier b = r_barrier b + of_nat (4 * ((x_dim b + 7) div 4))"

definition center_x_cord :: "bsg_barrier_hpp \<Rightarrow> u32" where
  "center_x_cord b = take_bit 8 (of_nat ((x_dim b - 1) div 2))"

definition center_y_cord :: "bsg_barrier_hpp \<Rightarrow> u32" where
  "center_y_cord b = take_bit 8 (of_nat ((y_dim b - 1) div 2))"

definition barrier_reset :: "bsg_barrier_hpp \<Rightarrow> proc" where
  "barrier_reset b = seq (row_reset (x_dim b) (r_barrier b)) (col_reset (y_dim b) (c_barrier b))"

definition barrier_sync :: "bsg_barrier_hpp \<Rightarrow> tile \<Rightarrow> proc" where
  "barrier_sync b t =
     (if y_dim b = 1 \<and> x_dim b = 1 then Ret 0
      else seq (row_sync t (r_barrier b) (center_x_cord b))
        (seq (if fst t = center_x_cord b
           then seq (row_wait_on_sync (x_dim b) (r_barrier b)) (col_sync t (c_barrier b) (center_x_cord b) (center_y_cord b))
           else Ret 0)
        (seq (if fst t = center_x_cord b \<and> snd t = center_y_cord b
           then seq (col_wait_on_sync (y_dim b) (c_barrier b)) (seq (col_reset (y_dim b) (c_barrier b)) (col_alert (y_dim b) t (c_barrier b)))
           else Ret 0)
        (seq (if fst t = center_x_cord b
           then seq (col_wait_on_alert (c_barrier b)) (seq (row_reset (x_dim b) (r_barrier b)) (row_alert (x_dim b) t (r_barrier b)))
           else Ret 0)
          (row_wait_on_alert (r_barrier b))))))"

section \<open>The code is the sequence of tree operations\<close>

definition hpp_barrier :: "cfg \<Rightarrow> nat \<Rightarrow> bsg_barrier_hpp" where
  "hpp_barrier c b = \<lparr>x_dim = unat (bsg_tiles_X c), y_dim = unat (bsg_tiles_Y c), r_barrier = of_nat b\<rparr>"

definition hpp_code :: "cfg \<Rightarrow> nat \<Rightarrow> nat \<Rightarrow> nat \<Rightarrow> tile \<Rightarrow> proc" where
  "hpp_code c b ph r t = seq (Act (Store32 (of_nat ph) (of_nat (Suc r))) Ret) (barrier_sync (hpp_barrier c b) t)"

definition hpp_col :: "cfg \<Rightarrow> nat \<Rightarrow> nat" where
  "hpp_col c b = b + 4 * ((unat (bsg_tiles_X c) + 7) div 4)"

definition hpp_addr :: "cfg \<Rightarrow> nat \<Rightarrow> nat \<Rightarrow> tree_addr" where
  "hpp_addr c b ph = \<lparr>rdone = b + 4, ralert = b, cdone = hpp_col c b + 4, calert = hpp_col c b, own = ph\<rparr>"

definition hpp_layout :: "cfg \<Rightarrow> nat \<Rightarrow> nat \<Rightarrow> bool" where
  "hpp_layout c b ph \<longleftrightarrow> group_fits c \<and> \<not> (unat (bsg_tiles_X c) = 1 \<and> unat (bsg_tiles_Y c) = 1)
     \<and> (let len = hpp_col c b + 4 + unat (bsg_tiles_Y c) - b in
        b + len \<le> 2 ^ 18 \<and> ph + 4 \<le> 2 ^ 18 \<and> intervals_apart [(b, len), (ph, 4)])"

lemma hpp_tree_ok: "hpp_layout c b ph \<Longrightarrow> tree_ok c (hpp_addr c b ph)"
proof -
  assume l: "hpp_layout c b ph"
  define X where "X = unat (bsg_tiles_X c)"
  define Y where "Y = unat (bsg_tiles_Y c)"
  have d: "X + 4 \<le> 4 * ((X + 7) div 4)" by presburger
  show ?thesis
    using l d unfolding hpp_layout_def tree_ok_def hpp_addr_def hpp_col_def intervals_apart_def Let_def X_def [symmetric] Y_def [symmetric]
    by auto
qed

lemma remote_pointer_small:
  assumes "unat x < 64" and "unat y < 64"
  shows "bsg_tile_group_remote_pointer x y p = bsg_remote_ptr x y p"
proof -
  have "take_bit 8 x = x" "take_bit 8 y = y" using assms by (simp_all add: take_bit_unat_lt)
  then show ?thesis by (simp add: bsg_tile_group_remote_pointer_def bsg_remote_ptr_def)
qed

lemma wait_local_int: "seq (bsg_wait_local a 1) p = wait_then a 1 p"
  by (auto simp: bsg_wait_local_def wait_then_def bsg_lr_def bsg_lr_aq_def fun_eq_iff)

lemma dim_group:
  assumes "group_fits c"
  shows "dim_range (unat (bsg_tiles_X c)) = group_xs c" "dim_range (unat (bsg_tiles_Y c)) = group_ys c"
  using assms by (simp_all add: dim_range_def group_xs_def group_ys_def cord_range_all group_fits_def)

lemma hpp_code_ops:
  assumes l: "hpp_layout c b ph" and t: "in_group c t"
  shows "seq (hpp_code c b ph r t) p
    = seq (for_each (tree_ops True c t) (hcode (tree_links True c (hpp_addr c b ph)) r)) p"
proof -
  let ?X = "bsg_tiles_X c" and ?Y = "bsg_tiles_Y c" and ?L = "tree_links True c (hpp_addr c b ph)" and ?B = "hpp_barrier c b"
  have g: "group_fits c" using l by (simp add: hpp_layout_def)
  have X: "unat ?X \<le> 64" "unat ?Y \<le> 32" using group_fits_nat [OF g] by auto
  have tx: "unat (fst t) < unat ?X" "unat (snd t) < unat ?Y" using t by (auto simp: in_group_def word_less_nat_alt)
  have cx: "unat (centre_x c) < 64" "unat (centre_y c) < 64"
    using centre_less [OF g] X by (auto simp: word_less_nat_alt)
  have "take_bit 8 (centre_x c) = centre_x c" "take_bit 8 (centre_y c) = centre_y c"
    using cx by (simp_all add: take_bit_unat_lt)
  then have cen: "center_x_cord ?B = centre_x c" "center_y_cord ?B = centre_y c"
    by (simp_all add: center_x_cord_def center_y_cord_def hpp_barrier_def centre_x_def centre_y_def)
  define RD where "RD = (of_nat (b + 4) :: u32)"
  define CD where "CD = (of_nat (hpp_col c b + 4) :: u32)"
  define RA where "RA = (of_nat b :: u32)"
  define CA where "CA = (of_nat (hpp_col c b) :: u32)"
  note defs = RD_def CD_def RA_def CA_def
  have B: "x_dim ?B = unat ?X" "y_dim ?B = unat ?Y" "r_barrier ?B = RA" "c_barrier ?B = CA"
    by (simp_all add: hpp_barrier_def c_barrier_def defs hpp_col_def)
  have dl: "done_list RA i = RD + i" "done_list CA i = CD + i" for i
    by (simp_all add: done_list_def defs ac_simps)
  have L: "dask ?L (RowE (x, y)) = bsg_remote_ptr (centre_x c) y (RD + x)"
    "dask ?L (ColE y) = bsg_remote_ptr (centre_x c) (centre_y c) (CD + y)"
    "dloc ?L (RowE (x, y)) = RD + x" "dloc ?L (ColE y) = CD + y"
    "agrant ?L (RowE (x, y)) = bsg_remote_ptr x y RA"
    "agrant ?L (ColE y) = bsg_remote_ptr (centre_x c) y CA"
    "aloc ?L (RowE u) = RA" "aloc ?L (ColE y) = CA" "phase ?L = of_nat ph" for x y u
    by (simp_all add: tree_links_def hpp_addr_def defs)
  have rem: "bsg_tile_group_remote_pointer (centre_x c) (snd t) p = bsg_remote_ptr (centre_x c) (snd t) p"
    "bsg_tile_group_remote_pointer (centre_x c) (centre_y c) p = bsg_remote_ptr (centre_x c) (centre_y c) p"
    "x \<in> set (group_xs c) \<Longrightarrow> bsg_tile_group_remote_pointer x (snd t) p = bsg_remote_ptr x (snd t) p"
    "y \<in> set (group_ys c) \<Longrightarrow> bsg_tile_group_remote_pointer (centre_x c) y p = bsg_remote_ptr (centre_x c) y p" for p x y
    using cx tx X by (auto intro!: remote_pointer_small simp: set_group_xs [OF g] set_group_ys [OF g] word_less_nat_alt)
  have st: "stop ?L es = (\<lambda>i. \<not> slt i (of_nat (length es)))" for es by (simp add: tree_links_def)
  have poll: "row_wait_on_sync (unat ?X) RA = hcode ?L r (Gather (row_edges c (snd t)))"
    "col_wait_on_sync (unat ?Y) CA = hcode ?L r (Gather (col_edges c))"
    by (simp_all add: row_wait_on_sync_def col_wait_on_sync_def poll_range_hpp_def dim_group [OF g] st length_edges [OF g] dl)
      (simp_all add: row_edges_def col_edges_def comp_def L)
  have resets: "for_each (group_xs c) (\<lambda>i. Act (Store8 (RD + i) 0) Ret) = for_each (map Drop (row_edges c (snd t))) (hcode ?L r)"
    "for_each (group_ys c) (\<lambda>i. Act (Store8 (CD + i) 0) Ret) = for_each (map Drop (col_edges c)) (hcode ?L r)"
    by (simp_all add: for_each_map row_edges_def col_edges_def L)
  have alerts: "row_alert (unat ?X) t RA = for_each (map Grant (row_edges c (snd t))) (hcode ?L r)"
    "fst t = centre_x c \<Longrightarrow> col_alert (unat ?Y) t CA = for_each (map Grant (col_edges c)) (hcode ?L r)"
    using rem(3,4)
    by (auto simp: row_alert_def col_alert_def dim_group [OF g] for_each_map row_edges_def col_edges_def L intro!: for_each_cong)
  have p1: "seq (Act (Store32 (of_nat ph) (of_nat (Suc r))) Ret) (seq (row_sync t RA (centre_x c)) q)
      = seq (for_each (part1 t) (hcode ?L r)) q" for q
    using L(1) [of "fst t" "snd t"] by (simp add: row_sync_def part1_def rem dl L(9))
  have p2: "seq (if fst t = centre_x c then seq (row_wait_on_sync (unat ?X) RA) (col_sync t CA (centre_x c) (centre_y c)) else Ret 0) q
      = seq (for_each (part2 c t) (hcode ?L r)) q" for q
    by (simp add: col_sync_def part2_def poll rem dl L del: hcode.simps(3))
  have p3: "seq (if fst t = centre_x c \<and> snd t = centre_y c
        then seq (col_wait_on_sync (unat ?Y) CA) (seq (col_reset (unat ?Y) CA) (col_alert (unat ?Y) t CA)) else Ret 0) q
      = seq (for_each (part3 True c t) (hcode ?L r)) q" for q
    by (simp add: col_reset_def part3_def poll resets alerts dim_group [OF g] dl for_each_append L del: hcode.simps(3))
  have p4: "seq (if fst t = centre_x c
        then seq (col_wait_on_alert CA) (seq (row_reset (unat ?X) RA) (row_alert (unat ?X) t RA)) else Ret 0) q
      = seq (for_each (part4 True c t) (hcode ?L r)) q" for q
    by (simp add: col_wait_on_alert_def row_reset_def part4_def resets alerts dim_group [OF g] dl for_each_append L wait_local_int wait_then_int)
  have p5: "seq (row_wait_on_alert RA) q = seq (for_each (part5 t) (hcode ?L r)) q" for q
    by (simp add: row_wait_on_alert_def part5_def L wait_local_int wait_then_int)
  have n: "\<not> (y_dim ?B = 1 \<and> x_dim ?B = 1)" using l unfolding hpp_layout_def B by blast
  have bs: "barrier_sync ?B t = seq (row_sync t RA (centre_x c))
        (seq (if fst t = centre_x c then seq (row_wait_on_sync (unat ?X) RA) (col_sync t CA (centre_x c) (centre_y c)) else Ret 0)
        (seq (if fst t = centre_x c \<and> snd t = centre_y c
           then seq (col_wait_on_sync (unat ?Y) CA) (seq (col_reset (unat ?Y) CA) (col_alert (unat ?Y) t CA)) else Ret 0)
        (seq (if fst t = centre_x c
           then seq (col_wait_on_alert CA) (seq (row_reset (unat ?X) RA) (row_alert (unat ?X) t RA)) else Ret 0)
          (row_wait_on_alert RA))))"
    unfolding barrier_sync_def if_not_P [OF n] unfolding cen B ..
  show ?thesis
    by (simp only: hpp_code_def bs bind_assoc tree_ops_def for_each_append p1 p2 p3 p4 p5)
qed

section \<open>Correctness\<close>

lemma hpp_tree: "hpp_layout c b ph \<Longrightarrow> tree_barrier c (hpp_addr c b ph) True (hpp_code c b ph)"
  by (simp add: tree_barrier_def hpp_tree_ok hpp_code_ops)

lemma small_hpp_layout: "hpp_layout small_cfg 64 32"
  by (simp add: hpp_layout_def hpp_col_def intervals_apart_def small_cfg_def group_fits_def)

interpretation small_hpp: tree_barrier small_cfg n "hpp_addr small_cfg 64 32" True "hpp_code small_cfg 64 32" for n
  by (rule hpp_tree [OF small_hpp_layout])

text \<open>
  C31: the C++ barrier of a group of more than one tile is as safe as the C one: when a tile has
  come to round \<open>r\<close>, every tile has entered the rounds before it.
\<close>

theorem hpp_barrier_safety:
  assumes "hpp_layout c b ph" and "tree_zero_mem c (hpp_addr c b ph) m0" and "n < 2 ^ 32"
    and "reachable c (\<lambda>t. for_each [0..<n] (\<lambda>r. hpp_code c b ph r t), m0) s"
    and "in_group c t" and "has_left (of_nat ph) n (fst s t) r" and "in_group c u"
  shows "r \<le> unat (rd (snd s) (tile_npa c u (of_nat ph)))"
  using tree_barrier.nobody_early [OF hpp_tree [OF assms(1)], of m0 n s t r u] assms(2-) by (simp add: hpp_addr_def)

text \<open>C32: from every reachable state of the repeated C++ barrier all tiles can still complete all rounds.\<close>

theorem hpp_barrier_no_deadlock:
  assumes "hpp_layout c b ph" and "tree_zero_mem c (hpp_addr c b ph) m0"
    and "reachable c (\<lambda>t. for_each [0..<n] (\<lambda>r. hpp_code c b ph r t), m0) s"
  shows "\<exists>s'. reachable c s s' \<and> finished c s'"
  by (rule tree_barrier.everybody_can_leave [OF hpp_tree [OF assms(1)] assms(2,3)])

text \<open>A state in which tile \<open>(1, 0)\<close> has left three rounds.\<close>

lemma hpp_barrier_safety_witness:
  "\<exists>s. reachable small_cfg (\<lambda>t. for_each [0..<3] (\<lambda>r. hpp_code small_cfg 64 32 r t), zero_machine) s
    \<and> (\<forall>u. in_group small_cfg u \<longrightarrow> 3 \<le> unat (rd (snd s) (tile_npa small_cfg u 32)))"
proof -
  obtain s where s: "reachable small_cfg (\<lambda>t. for_each [0..<3] (\<lambda>r. hpp_code small_cfg 64 32 r t), zero_machine) s" "finished small_cfg s"
    using tree_barrier.everybody_can_leave [OF hpp_tree [OF small_hpp_layout] tree_zero_machine reach_start] by blast
  have g: "in_group small_cfg (1, 0)" by (simp add: in_group_def small_cfg_def)
  then have h: "has_left (of_nat 32) 3 (fst s (1, 0)) 3" using s(2) by (simp add: has_left_def finished_def)
  show ?thesis using hpp_barrier_safety [OF small_hpp_layout tree_zero_machine _ s(1) g h] s(1) by auto
qed

lemma hpp_barrier_no_deadlock_witness:
  "\<exists>s. reachable small_cfg (\<lambda>t. for_each [0..<3] (\<lambda>r. hpp_code small_cfg 64 32 r t), zero_machine) s \<and> finished small_cfg s"
  using hpp_barrier_no_deadlock [OF small_hpp_layout tree_zero_machine reach_start] .

end
