(* ===== verification/Pointer_Data.thy ===== *)
theory Pointer_Data
  imports Manycore
begin

text \<open>
  The two linked lists that the pointer-chasing network tests compile into the binary, and what the
  tests rely on: each is one cycle through all of its nodes. The certificate is a numbering of the
  nodes along the cycle, stored in a binary trie over the low bits of the index or address; that the
  successor of every node has the next number is then a linear check, evaluated by rewriting.
\<close>

section \<open>\<open>network_test_pointer_chasing\<close>\<close>

text \<open>The array \<open>data\<close>: element \<open>i\<close> is the index of the element after \<open>i\<close>.\<close>

definition chase_data :: "int list" where
  "chase_data = [
   778, 129, 296, 99, 779, 958, 914, 773, 7, 174, 523, 208, 697, 581, 634, 303, 434, 16, 713, 148, 74, 889, 374, 55, 192, 797, 194, 1009, 430, 291, 907, 717,
   172, 860, 98, 766, 283, 883, 909, 613, 163, 37, 873, 623, 638, 373, 384, 173, 247, 401, 9, 799, 870, 186, 205, 118, 768, 995, 243, 165, 814, 177, 964, 130,
   263, 695, 963, 491, 183, 187, 524, 837, 230, 803, 693, 723, 735, 104, 17, 69, 902, 396, 698, 494, 109, 522, 349, 679, 56, 829, 193, 798, 1021, 571, 96, 114,
   946, 726, 304, 452, 830, 722, 1010, 372, 912, 246, 887, 159, 50, 876, 77, 219, 233, 557, 672, 286, 1016, 411, 633, 222, 544, 314, 882, 767, 195, 917, 596, 164,
   911, 151, 716, 270, 869, 944, 940, 669, 549, 423, 921, 298, 663, 707, 319, 78, 474, 761, 254, 750, 12, 886, 480, 379, 572, 724, 775, 107, 478, 84, 631, 719,
   60, 15, 600, 935, 583, 899, 701, 533, 157, 950, 284, 375, 28, 180, 848, 806, 632, 20, 450, 841, 67, 447, 619, 772, 991, 58, 142, 144, 346, 738, 548, 997,
   495, 320, 489, 166, 603, 179, 403, 916, 650, 800, 400, 259, 101, 388, 743, 108, 451, 531, 110, 546, 538, 539, 30, 888, 426, 733, 579, 266, 731, 14, 690, 281,
   2, 128, 200, 787, 694, 974, 753, 202, 94, 1005, 1, 714, 801, 290, 550, 331, 892, 265, 354, 595, 1006, 943, 261, 580, 120, 239, 836, 575, 704, 827, 745, 386,
   627, 874, 317, 503, 242, 333, 345, 680, 661, 40, 473, 589, 594, 885, 578, 467, 545, 851, 700, 730, 338, 718, 87, 307, 214, 518, 4, 410, 465, 10, 994, 515,
   640, 471, 670, 282, 106, 353, 853, 496, 795, 709, 835, 485, 897, 454, 569, 859, 146, 169, 985, 115, 930, 526, 124, 990, 207, 905, 979, 926, 13, 414, 933, 702,
   691, 103, 674, 288, 705, 736, 241, 951, 637, 327, 275, 609, 182, 689, 699, 237, 201, 389, 184, 76, 3, 425, 381, 953, 810, 420, 132, 399, 998, 391, 732, 438,
   765, 43, 316, 547, 352, 416, 441, 922, 5, 363, 390, 793, 82, 121, 213, 643, 85, 328, 271, 749, 746, 960, 507, 764, 927, 178, 554, 191, 687, 88, 675, 133,
   1019, 879, 802, 34, 591, 744, 90, 6, 429, 646, 645, 520, 823, 31, 747, 79, 469, 574, 238, 260, 272, 302, 368, 925, 455, 989, 404, 458, 629, 1022, 794, 468,
   1014, 492, 896, 819, 326, 666, 708, 138, 293, 366, 855, 542, 167, 312, 652, 809, 788, 134, 607, 978, 44, 506, 140, 644, 849, 443, 1002, 651, 817, 562, 551, 769,
   424, 552, 821, 362, 75, 662, 185, 334, 342, 536, 516, 38, 23, 786, 292, 831, 232, 466, 878, 83, 741, 63, 614, 906, 513, 969, 348, 32, 405, 325, 664, 313,
   982, 51, 1020, 739, 116, 59, 654, 517, 903, 528, 206, 428, 593, 755, 863, 822, 947, 582, 585, 329, 1012, 1015, 397, 590, 227, 70, 555, 789, 965, 460, 487, 11,
   323, 196, 1001, 783, 612, 586, 22, 408, 145, 890, 543, 223, 942, 453, 86, 949, 477, 866, 688, 355, 406, 93, 521, 339, 175, 52, 630, 152, 277, 1023, 790, 27,
   824, 269, 759, 683, 235, 904, 1003, 46, 336, 807, 611, 784, 588, 154, 240, 934, 295, 422, 980, 322, 617, 525, 1017, 19, 535, 901, 448, 948, 459, 676, 359, 407,
   681, 857, 734, 656, 412, 758, 725, 212, 123, 838, 48, 684, 653, 791, 868, 847, 53, 100, 190, 510, 975, 402, 481, 153, 988, 658, 939, 250, 751, 685, 932, 137,
   665, 351, 156, 508, 490, 464, 567, 340, 881, 842, 24, 61, 72, 245, 62, 311, 606, 226, 125, 502, 126, 677, 556, 197, 332, 720, 537, 211, 419, 601, 710, 210,
   559, 532, 392, 900, 514, 748, 781, 983, 476, 530, 446, 893, 721, 977, 343, 417, 923, 560, 584, 981, 752, 256, 344, 570, 161, 636, 264, 248, 147, 534, 616, 395,
   762, 385, 808, 774, 21, 780, 564, 36, 678, 936, 957, 95, 47, 309, 68, 387, 604, 987, 639, 463, 136, 540, 872, 382, 895, 792, 642, 621, 267, 815, 337, 973,
   117, 449, 968, 421, 216, 357, 919, 162, 692, 756, 509, 967, 39, 249, 962, 573, 160, 461, 199, 1018, 620, 828, 367, 220, 1013, 785, 341, 398, 335, 972, 377, 635,
   941, 577, 262, 565, 871, 244, 413, 648, 813, 938, 475, 42, 378, 659, 826, 880, 850, 655, 361, 920, 727, 209, 257, 92, 796, 867, 833, 221, 66, 1008, 189, 563,
   176, 289, 945, 484, 432, 360, 445, 456, 999, 811, 321, 493, 105, 884, 393, 924, 143, 812, 81, 706, 816, 278, 782, 599, 35, 294, 820, 57, 686, 956, 231, 394,
   804, 862, 908, 198, 488, 65, 376, 712, 970, 770, 910, 297, 894, 371, 846, 234, 80, 301, 71, 625, 844, 737, 504, 102, 597, 649, 498, 25, 273, 929, 236, 865,
   668, 45, 280, 155, 330, 856, 618, 168, 251, 347, 188, 435, 279, 760, 971, 149, 41, 805, 984, 33, 891, 861, 818, 113, 409, 1004, 418, 854, 364, 440, 500, 439,
   64, 541, 433, 350, 558, 771, 318, 315, 158, 839, 89, 119, 224, 127, 8, 915, 300, 203, 641, 171, 628, 624, 843, 479, 287, 610, 1011, 258, 742, 299, 511, 937,
   931, 499, 505, 776, 961, 976, 370, 728, 497, 356, 73, 587, 519, 864, 992, 986, 553, 97, 483, 111, 141, 442, 845, 358, 918, 457, 602, 757, 26, 431, 954, 626,
   566, 996, 512, 472, 268, 462, 622, 217, 1007, 527, 215, 660, 285, 955, 229, 673, 253, 49, 754, 993, 615, 667, 840, 501, 608, 576, 657, 218, 696, 592, 529, 858,
   18, 150, 54, 308, 852, 763, 777, 305, 605, 131, 729, 436, 415, 122, 877, 647, 427, 832, 913, 928, 274, 306, 959, 310, 369, 170, 324, 139, 29, 966, 834, 444,
   561, 682, 383, 365, 91, 482, 255, 486, 898, 671, 740, 825, 703, 204, 711, 598, 181, 1000, 228, 380, 276, 470, 252, 135, 437, 112, 715, 568, 952, 225, 875, 0]"

section \<open>\<open>network_test_pointer_chasing2\<close>\<close>

text \<open>The array \<open>data\<close> of nodes, written as the source does: pointer and key in turn, in 64 pieces of
  four source lines.\<close>

definition nodes_0 :: "int list" where
  "nodes_0 = [
   0x81001b68, -1, 0x81006e58, -1, 0x81004a80, -1, 0x81007998, -1, 0x810061e8, -1, 0x81006bf8, -1, 0x810032d0, -1, 0x81000868, -1, 0x81001d40, -1, 0x810007f0, -1, 0x81000cd8, -1, 0x81003c70, -1, 0x81005710, -1, 0x81002ce0, -1, 0x810065c8, -1, 0x810016d8, -1,
   0x81007cb0, -1, 0x81004d68, -1, 0x81004148, -1, 0x81005aa0, -1, 0x81002300, 35, 0x81002960, -1, 0x810061b8, -1, 0x81000920, -1, 0x810056b8, -1, 0x81002640, -1, 0x81002f10, -1, 0x81002048, -1, 0x810012f0, -1, 0x81004a08, -1, 0x81007118, -1, 0x81003700, 55,
   0x81000788, -1, 0x81001670, -1, 0x81003b98, -1, 0x81001620, -1, 0x81000068, -1, 0x81005d30, -1, 0x81005950, -1, 0x81004278, -1, 0x81003ac0, -1, 0x81004be0, -1, 0x81000ae0, -1, 0x81000dc8, -1, 0x810069d8, -1, 0x81004b70, -1, 0x81006778, -1, 0x810060d8, -1,
   0x81005820, -1, 0x81007d98, -1, 0x81007748, -1, 0x810063d8, -1, 0x81001f38, -1, 0x81004798, -1, 0x81002998, -1, 0x81002ca0, -1, 0x81003d80, -1, 0x810039b0, -1, 0x81003d50, -1, 0x81004eb8, -1, 0x810037e0, -1, 0x81000d40, -1, 0x81004fb8, -1, 0x81001680, -1]"

definition nodes_1 :: "int list" where
  "nodes_1 = [
   0x81006128, -1, 0x81001058, -1, 0x810002d8, -1, 0x810031d8, -1, 0x81006ce8, -1, 0x81007410, -1, 0x81001880, -1, 0x81001490, -1, 0x81004a48, -1, 0x810009a0, -1, 0x81004e10, -1, 0x810076a8, -1, 0x81000560, -1, 0x81006740, -1, 0x81002638, -1, 0x81005768, -1,
   0x81000b68, -1, 0x81006328, -1, 0x81000628, -1, 0x81006e08, -1, 0x81001118, -1, 0x810068d8, -1, 0x810058b0, -1, 0x81004da0, -1, 0x81002f90, -1, 0x810035a0, -1, 0x81006d70, -1, 0x81006090, -1, 0x81000818, -1, 0x810031a0, -1, 0x81005b78, -1, 0x81006e68, -1,
   0x81000f28, -1, 0x81003500, 53, 0x81007860, -1, 0x81006100, 97, 0x81000b70, -1, 0x81007128, -1, 0x81000f78, -1, 0x810045d8, -1, 0x81003908, -1, 0x81003a48, -1, 0x810064b0, -1, 0x81000c98, -1, 0x81006710, -1, 0x81005f38, -1, 0x81001308, -1, 0x81003488, -1,
   0x81005c90, -1, 0x81007dc0, -1, 0x810007e8, -1, 0x81007a28, -1, 0x81004dc8, -1, 0x81001f78, -1, 0x81002778, -1, 0x810027f0, -1, 0x81004168, -1, 0x81003468, -1, 0x81001558, -1, 0x81004280, -1, 0x81006f68, -1, 0x81004b38, -1, 0x81004058, -1, 0x81000468, -1]"

definition nodes_2 :: "int list" where
  "nodes_2 = [
   0x81002678, -1, 0x81001ba0, -1, 0x81001208, -1, 0x81003ed8, -1, 0x81005eb8, -1, 0x810039d0, -1, 0x81005c00, 92, 0x81003f38, -1, 0x81002cf8, -1, 0x81007560, -1, 0x81003718, -1, 0x81002088, -1, 0x81006df8, -1, 0x81001120, -1, 0x81000800, 8, 0x81002cc0, -1,
   0x81003398, -1, 0x810039f8, -1, 0x810045d0, -1, 0x81004128, -1, 0x81003c08, -1, 0x81002e10, -1, 0x81003368, -1, 0x810043b0, -1, 0x810037b0, -1, 0x81001970, -1, 0x81001808, -1, 0x81000998, -1, 0x81002208, -1, 0x81002b38, -1, 0x81002670, -1, 0x81004c40, -1,
   0x81003508, -1, 0x81003a40, -1, 0x81003f98, -1, 0x81001278, -1, 0x81004430, -1, 0x81005460, -1, 0x81004478, -1, 0x81005718, -1, 0x81003528, -1, 0x81007850, -1, 0x810055b0, -1, 0x81001488, -1, 0x81001690, -1, 0x81003ad0, -1, 0x81001710, -1, 0x81004bf0, -1,
   0x81006768, -1, 0x810067b0, -1, 0x81006440, -1, 0x81002b58, -1, 0x81005c88, -1, 0x810022d8, -1, 0x81006108, -1, 0x81002c60, -1, 0x81001818, -1, 0x81006aa8, -1, 0x81003bf0, -1, 0x81004248, -1, 0x81000768, -1, 0x81005268, -1, 0x81000280, -1, 0x81003710, -1]"

definition nodes_3 :: "int list" where
  "nodes_3 = [
   0x81001bd0, -1, 0x81006200, 98, 0x810011d8, -1, 0x810004f8, -1, 0x81004510, -1, 0x81001d20, -1, 0x81003c40, -1, 0x81001250, -1, 0x81002610, -1, 0x81003938, -1, 0x81002d18, -1, 0x810022f8, -1, 0x81005ee0, -1, 0x810034a8, -1, 0x810055e0, -1, 0x81001850, -1,
   0x81000af0, -1, 0x81001fb0, -1, 0x810013a8, -1, 0x81001268, -1, 0x81006b18, -1, 0x81001a28, -1, 0x810044b0, -1, 0x810008b0, -1, 0x81000c00, 12, 0x81007f00, 127, 0x810050f0, -1, 0x81002da8, -1, 0x810060a8, -1, 0x81000180, -1, 0x810016a8, -1, 0x81001d38, -1,
   0x81005720, -1, 0x81005b88, -1, 0x81000178, -1, 0x81003d98, -1, 0x81003650, -1, 0x81005308, -1, 0x81004e50, -1, 0x81007778, -1, 0x81001cc0, -1, 0x81005e60, -1, 0x810012b8, -1, 0x81003da0, -1, 0x81007660, -1, 0x81004a40, -1, 0x81004dc0, -1, 0x81006268, -1,
   0x81006178, -1, 0x81003920, -1, 0x810058d0, -1, 0x810051f0, -1, 0x81001300, 19, 0x810015e0, -1, 0x81002768, -1, 0x81000dd0, -1, 0x81000380, -1, 0x81004270, -1, 0x810019d0, -1, 0x81001c40, -1, 0x810052e0, -1, 0x810022c8, -1, 0x81004e48, -1, 0x81003640, -1]"

definition nodes_4 :: "int list" where
  "nodes_4 = [
   0x810030a0, -1, 0x81007248, -1, 0x81003378, -1, 0x81002ae8, -1, 0x81002ff8, -1, 0x81004290, -1, 0x81003540, -1, 0x81004770, -1, 0x81002ec8, -1, 0x81006f98, -1, 0x81004b40, -1, 0x81002dc0, -1, 0x81004e18, -1, 0x81003258, -1, 0x81003db8, -1, 0x81002098, -1,
   0x81000a30, -1, 0x81004240, -1, 0x81006678, -1, 0x81000118, -1, 0x810032e8, -1, 0x810028d0, -1, 0x81006ad0, -1, 0x810008e0, -1, 0x81001f28, -1, 0x81005540, -1, 0x81007530, -1, 0x81006ec8, -1, 0x810004d0, -1, 0x810047d8, -1, 0x810045e8, -1, 0x810032a0, -1,
   0x81005670, -1, 0x81006040, -1, 0x81005a98, -1, 0x810024b8, -1, 0x810016d0, -1, 0x81003608, -1, 0x81002918, -1, 0x810075e8, -1, 0x810044e8, -1, 0x810035f0, -1, 0x81005970, -1, 0x81007df0, -1, 0x81007da0, -1, 0x81005d20, -1, 0x81007078, -1, 0x81003208, -1,
   0x81001040, -1, 0x81001f60, -1, 0x810029e8, -1, 0x81000f20, -1, 0x81004b90, -1, 0x810076c0, -1, 0x81007440, -1, 0x81000310, -1, 0x81003c10, -1, 0x81004528, -1, 0x81002108, -1, 0x81005860, -1, 0x81001840, -1, 0x81002b90, -1, 0x810024b0, -1, 0x81002a68, -1]"

definition nodes_5 :: "int list" where
  "nodes_5 = [
   0x81004000, 64, 0x810038d8, -1, 0x81000f98, -1, 0x810013c8, -1, 0x81001b38, -1, 0x81000c30, -1, 0x81003d40, -1, 0x810067e0, -1, 0x81001f20, -1, 0x81005130, -1, 0x810074b0, -1, 0x810065f0, -1, 0x810010e0, -1, 0x810019e8, -1, 0x810021f8, -1, 0x81004348, -1,
   0x81006e70, -1, 0x810029c8, -1, 0x810065b8, -1, 0x81003858, -1, 0x81006618, -1, 0x81002c90, -1, 0x810022e0, -1, 0x81000350, -1, 0x81007ef0, -1, 0x810034f0, -1, 0x81000858, -1, 0x81007898, -1, 0x81002d68, -1, 0x81000038, -1, 0x81002b30, -1, 0x81007bc8, -1,
   0x810054e8, -1, 0x810029b8, -1, 0x81007ed0, -1, 0x81001b08, -1, 0x81005040, -1, 0x81001e80, -1, 0x81004df0, -1, 0x81006888, -1, 0x81001220, -1, 0x81004d90, -1, 0x81003490, -1, 0x810002c0, -1, 0x81000e70, -1, 0x81006f88, -1, 0x81000ff8, -1, 0x810037d0, -1,
   0x810020f8, -1, 0x81003548, -1, 0x81001678, -1, 0x810022e8, -1, 0x81002a00, 42, 0x810019a0, -1, 0x810041c8, -1, 0x810026e8, -1, 0x81000320, -1, 0x810006f0, -1, 0x810045e0, -1, 0x81004d50, -1, 0x81004a90, -1, 0x81006c88, -1, 0x81000a90, -1, 0x81007ad0, -1]"

definition nodes_6 :: "int list" where
  "nodes_6 = [
   0x81007fd0, -1, 0x81005b30, -1, 0x81003790, -1, 0x81007e48, -1, 0x81005650, -1, 0x81005050, -1, 0x81001470, -1, 0x810051a8, -1, 0x81006960, -1, 0x81001310, -1, 0x810006a0, -1, 0x81005508, -1, 0x810060e0, -1, 0x81003f70, -1, 0x81000020, -1, 0x81007d90, -1,
   0x810011b8, -1, 0x81003198, -1, 0x81000300, 3, 0x81001260, -1, 0x81000e60, -1, 0x810044b8, -1, 0x810021f0, -1, 0x81007600, 118, 0x81007558, -1, 0x81006270, -1, 0x81004140, -1, 0x81005b00, 91, 0x81005168, -1, 0x81007408, -1, 0x81004bf8, -1, 0x81000060, -1,
   0x81002680, -1, 0x81001570, -1, 0x81004968, -1, 0x81007ec0, -1, 0x81001ca0, -1, 0x81007ee8, -1, 0x81005d38, -1, 0x81002c18, -1, 0x81007db0, -1, 0x81004868, -1, 0x81002388, -1, 0x810017e8, -1, 0x81004390, -1, 0x81003370, -1, 0x810064d8, -1, 0x81002ba0, -1,
   0x810038a0, -1, 0x810005e0, -1, 0x81002c40, -1, 0x81007260, -1, 0x810033d8, -1, 0x81002de8, -1, 0x81006ca0, -1, 0x81006020, -1, 0x810023d8, -1, 0x81004bc8, -1, 0x81000200, 2, 0x810025c0, -1, 0x81000c68, -1, 0x81004668, -1, 0x81003ef8, -1, 0x81002b80, -1]"

definition nodes_7 :: "int list" where
  "nodes_7 = [
   0x810077a8, -1, 0x81002090, -1, 0x81007a20, -1, 0x81000590, -1, 0x81005380, -1, 0x81000d08, -1, 0x81003df0, -1, 0x81007b00, 123, 0x810074b8, -1, 0x810025b8, -1, 0x81004cd0, -1, 0x81000770, -1, 0x81004be8, -1, 0x81003b20, -1, 0x810004b0, -1, 0x81002790, -1,
   0x81001fc8, -1, 0x81005388, -1, 0x81005ed8, -1, 0x810045a8, -1, 0x81004330, -1, 0x81004c68, -1, 0x81004878, -1, 0x81000140, -1, 0x81001f40, -1, 0x81000ec0, -1, 0x81005530, -1, 0x810028f0, -1, 0x81002ad0, -1, 0x81002288, -1, 0x81003cf0, -1, 0x81004d60, -1,
   0x81003ff8, -1, 0x81004688, -1, 0x81007310, -1, 0x81005600, 86, 0x810074f0, -1, 0x81001238, -1, 0x81001b60, -1, 0x81003e58, -1, 0x81005eb0, -1, 0x81006420, -1, 0x81001148, -1, 0x81001ef0, -1, 0x81007808, -1, 0x81006718, -1, 0x81000a60, -1, 0x810054a0, -1,
   0x81005218, -1, 0x810049c0, -1, 0x810035c0, -1, 0x81004410, -1, 0x810037b8, -1, 0x810016a0, -1, 0x810008a0, -1, 0x810042c0, -1, 0x81002748, -1, 0x81002d40, -1, 0x81002958, -1, 0x81005e38, -1, 0x81007bb8, -1, 0x81001948, -1, 0x81007518, -1, 0x810066c8, -1]"

definition nodes_8 :: "int list" where
  "nodes_8 = [
   0x81001da0, -1, 0x81000688, -1, 0x810040c0, -1, 0x81003510, -1, 0x81004690, -1, 0x810048a0, -1, 0x81007d20, -1, 0x810078f0, -1, 0x81004070, -1, 0x810033d0, -1, 0x81001518, -1, 0x81000460, -1, 0x810059c8, -1, 0x810015c8, -1, 0x810034c8, -1, 0x81005d98, -1,
   0x81004340, -1, 0x81002948, -1, 0x81005610, -1, 0x81007e10, -1, 0x810014d0, -1, 0x81003ee0, -1, 0x81005ce0, -1, 0x81007170, -1, 0x81003fb8, -1, 0x81007000, 112, 0x81007fd8, -1, 0x81005fa8, -1, 0x81001938, -1, 0x81005420, -1, 0x81003698, -1, 0x810041d0, -1,
   0x81003bb0, -1, 0x81005638, -1, 0x81003db0, -1, 0x81004988, -1, 0x810019e0, -1, 0x810000c0, -1, 0x810034e8, -1, 0x810074f8, -1, 0x81007020, -1, 0x810026b0, -1, 0x810047a8, -1, 0x81004698, -1, 0x810064a8, -1, 0x81000f00, 15, 0x81002ae0, -1, 0x81004c78, -1,
   0x81002de0, -1, 0x81002490, -1, 0x81006a40, -1, 0x810070b8, -1, 0x810003f0, -1, 0x81005338, -1, 0x81003438, -1, 0x810068e8, -1, 0x81007458, -1, 0x810048f8, -1, 0x81000e10, -1, 0x810032c8, -1, 0x810043f0, -1, 0x81000e50, -1, 0x81004318, -1, 0x810025d0, -1]"

definition nodes_9 :: "int list" where
  "nodes_9 = [
   0x810015a0, -1, 0x81003f90, -1, 0x81006b08, -1, 0x810007d8, -1, 0x81002988, -1, 0x810012a8, -1, 0x81007b68, -1, 0x81006988, -1, 0x81007140, -1, 0x81005da8, -1, 0x810052a0, -1, 0x81004c98, -1, 0x81005b90, -1, 0x81004b28, -1, 0x810071b8, -1, 0x810079f0, -1,
   0x81005ef0, -1, 0x81006b28, -1, 0x81003b08, -1, 0x81000a40, -1, 0x81007ea8, -1, 0x81006d88, -1, 0x810036d0, -1, 0x810005d8, -1, 0x81007f78, -1, 0x81000740, -1, 0x81003780, -1, 0x81000e80, -1, 0x81007358, -1, 0x810046d0, -1, 0x81003f00, 63, 0x810025f0, -1,
   0x810030f8, -1, 0x81000ee8, -1, 0x81007470, -1, 0x810044f8, -1, 0x81004040, -1, 0x810046c0, -1, 0x81000ec8, -1, 0x81006aa0, -1, 0x810004c0, -1, 0x81004828, -1, 0x81001c58, -1, 0x81003c48, -1, 0x810007a0, -1, 0x81004d18, -1, 0x81007960, -1, 0x81005920, -1,
   0x81000d00, 13, 0x81003960, -1, 0x81002858, -1, 0x81003de8, -1, 0x81004910, -1, 0x810044c0, -1, 0x810028c0, -1, 0x81003450, -1, 0x81007048, -1, 0x81000c28, -1, 0x81002440, -1, 0x810040f8, -1, 0x81006858, -1, 0x810001e0, -1, 0x81003678, -1, 0x81000810, -1]"

definition nodes_10 :: "int list" where
  "nodes_10 = [
   0x81005800, 88, 0x81005aa8, -1, 0x81000c18, -1, 0x81005bf8, -1, 0x81004398, -1, 0x81002ba8, -1, 0x81003178, -1, 0x81004c28, -1, 0x81007678, -1, 0x81005448, -1, 0x810027b0, -1, 0x81002340, -1, 0x81001068, -1, 0x810078d0, -1, 0x81000370, -1, 0x81003aa8, -1,
   0x81001f88, -1, 0x810030b8, -1, 0x81000288, -1, 0x81007090, -1, 0x81004b08, -1, 0x81000508, -1, 0x81006370, -1, 0x81004d88, -1, 0x81001500, 21, 0x810050b0, -1, 0x81006dc8, -1, 0x810012f8, -1, 0x81007060, -1, 0x81006170, -1, 0x810051c0, -1, 0x81005e98, -1,
   0x81001be8, -1, 0x810002a8, -1, 0x81006b68, -1, 0x81005618, -1, 0x81004308, -1, 0x81002178, -1, 0x81001ff0, -1, 0x810075a8, -1, 0x81003108, -1, 0x81007088, -1, 0x81002788, -1, 0x81001088, -1, 0x81002528, -1, 0x81001ce0, -1, 0x81007710, -1, 0x81000ad0, -1,
   0x81004848, -1, 0x810020a8, -1, 0x81000580, -1, 0x81005b20, -1, 0x81002130, -1, 0x810023c8, -1, 0x81006208, -1, 0x81003638, -1, 0x81006d38, -1, 0x81001d08, -1, 0x81006e00, 110, 0x81004e58, -1, 0x81004b58, -1, 0x81002a58, -1, 0x810071f8, -1, 0x81006070, -1]"

definition nodes_11 :: "int list" where
  "nodes_11 = [
   0x81001c50, -1, 0x810069b0, -1, 0x81000188, -1, 0x81003778, -1, 0x81004008, -1, 0x81007f58, -1, 0x810033a8, -1, 0x81001d90, -1, 0x81002ff0, -1, 0x81007658, -1, 0x81003b48, -1, 0x81005930, -1, 0x81006670, -1, 0x81006460, -1, 0x810016c0, -1, 0x81007030, -1,
   0x81003498, -1, 0x81007f20, -1, 0x81004d20, -1, 0x81007f08, -1, 0x81000458, -1, 0x810026c0, -1, 0x81003a28, -1, 0x81004068, -1, 0x81001628, -1, 0x81003808, -1, 0x81003b68, -1, 0x81004b48, -1, 0x81004a68, -1, 0x81003940, -1, 0x81006c90, -1, 0x81007c18, -1,
   0x810047b8, -1, 0x81005ed0, -1, 0x810042e0, -1, 0x81000ab8, -1, 0x810043c8, -1, 0x81003e40, -1, 0x81001388, -1, 0x81002c10, -1, 0x81005fd8, -1, 0x81006598, -1, 0x81003f08, -1, 0x81006ed0, -1, 0x81006a90, -1, 0x81005438, -1, 0x81003ac8, -1, 0x81001618, -1,
   0x810009b0, -1, 0x81002458, -1, 0x810046e8, -1, 0x81002848, -1, 0x81001810, -1, 0x81004dd8, -1, 0x81003e28, -1, 0x810043e0, -1, 0x810014a0, -1, 0x81003768, -1, 0x81007780, -1, 0x81004060, -1, 0x81006368, -1, 0x81005190, -1, 0x81000ab0, -1, 0x81002470, -1]"

definition nodes_12 :: "int list" where
  "nodes_12 = [
   0x81003c60, -1, 0x81005098, -1, 0x81005fd0, -1, 0x81000b50, -1, 0x810000f8, -1, 0x81002100, 33, 0x810067d8, -1, 0x81000bc0, -1, 0x81000980, -1, 0x81005730, -1, 0x81006a80, -1, 0x81007a18, -1, 0x810018f8, -1, 0x81005e40, -1, 0x810004f0, -1, 0x810077b0, -1,
   0x81004aa0, -1, 0x81004da8, -1, 0x81003470, -1, 0x81003838, -1, 0x810015f8, -1, 0x81007f48, -1, 0x81006608, -1, 0x81002290, -1, 0x81007bd0, -1, 0x81002738, -1, 0x81003a38, -1, 0x81005858, -1, 0x81007398, -1, 0x81007520, -1, 0x810041d8, -1, 0x810056d0, -1,
   0x81000640, -1, 0x81002f18, -1, 0x81006db8, -1, 0x81002a88, -1, 0x81003598, -1, 0x81005a10, -1, 0x81001568, -1, 0x81000e30, -1, 0x81000bc8, -1, 0x81007680, -1, 0x81003d30, -1, 0x81006de0, -1, 0x81001dc0, -1, 0x810059a0, -1, 0x81000c78, -1, 0x810065b0, -1,
   0x810055c8, -1, 0x81006800, 104, 0x81003080, -1, 0x81006320, -1, 0x810031b8, -1, 0x81003b58, -1, 0x810071d0, -1, 0x81006ac0, -1, 0x81005910, -1, 0x810018c0, -1, 0x81006478, -1, 0x81000400, 4, 0x810063c0, -1, 0x81001000, 16, 0x81007e20, -1, 0x81002f78, -1]"

definition nodes_13 :: "int list" where
  "nodes_13 = [
   0x81007148, -1, 0x81002f30, -1, 0x81006240, -1, 0x81002510, -1, 0x81003948, -1, 0x81007eb8, -1, 0x81001ac8, -1, 0x81002200, 34, 0x810035d8, -1, 0x810023c0, -1, 0x810077c8, -1, 0x81006570, -1, 0x81006910, -1, 0x81002bb8, -1, 0x81002578, -1, 0x810033b8, -1,
   0x81004ce8, -1, 0x81007c58, -1, 0x810071e0, -1, 0x81005640, -1, 0x81006578, -1, 0x810037d8, -1, 0x81003de0, -1, 0x810031b0, -1, 0x81007cf0, -1, 0x81000d90, -1, 0x81005d70, -1, 0x81003880, -1, 0x810029e0, -1, 0x81001c30, -1, 0x81006150, -1, 0x81004970, -1,
   0x81005d48, -1, 0x81002aa8, -1, 0x81003230, -1, 0x81001750, -1, 0x81000cc0, -1, 0x81007bb0, -1, 0x810044a0, -1, 0x81005538, -1, 0x81003218, -1, 0x81007b40, -1, 0x810018b8, -1, 0x81007508, -1, 0x81006548, -1, 0x81006d98, -1, 0x81001210, -1, 0x81007908, -1,
   0x810051e0, -1, 0x81007ae8, -1, 0x81000f60, -1, 0x81001010, -1, 0x81005ff0, -1, 0x810002b0, -1, 0x81007fc0, -1, 0x81007a68, -1, 0x81003fb0, -1, 0x81000720, -1, 0x81000268, -1, 0x81001a08, -1, 0x81006980, -1, 0x81002080, -1, 0x81002c08, -1, 0x810018a8, -1]"

definition nodes_14 :: "int list" where
  "nodes_14 = [
   0x810004c8, -1, 0x81007648, -1, 0x81006bb0, -1, 0x810008e8, -1, 0x81007608, -1, 0x810007b8, -1, 0x81006dd0, -1, 0x81003d08, -1, 0x81004ce0, -1, 0x810032b0, -1, 0x81004b88, -1, 0x81007ad8, -1, 0x81005a00, 90, 0x81004f90, -1, 0x81001398, -1, 0x81001478, -1,
   0x810058d8, -1, 0x81003f58, -1, 0x81003b50, -1, 0x81003578, -1, 0x81004d08, -1, 0x81006ec0, -1, 0x81005320, -1, 0x81007640, -1, 0x81002d90, -1, 0x810024e0, -1, 0x81004808, -1, 0x81004888, -1, 0x81006010, -1, 0x81001f48, -1, 0x81006a70, -1, 0x81006a08, -1,
   0x81004d10, -1, 0x810002b8, -1, 0x81004138, -1, 0x81007ea0, -1, 0x810061d8, -1, 0x81005a28, -1, 0x81006fb8, -1, 0x81004328, -1, 0x81001248, -1, 0x81002b78, -1, 0x81003670, -1, 0x81007d88, -1, 0x810068c0, -1, 0x810045a0, -1, 0x81002c98, -1, 0x81004b68, -1,
   0x81003348, -1, 0x81007c98, -1, 0x81002e08, -1, 0x810052b8, -1, 0x81007250, -1, 0x81001788, -1, 0x81007420, -1, 0x81002588, -1, 0x81002eb8, -1, 0x810072b0, -1, 0x81006df0, -1, 0x810061c8, -1, 0x810061e0, -1, 0x81006920, -1, 0x81002028, -1, 0x81007688, -1]"

definition nodes_15 :: "int list" where
  "nodes_15 = [
   0x81004f60, -1, 0x81001080, -1, 0x81001418, -1, 0x810037a0, -1, 0x81007588, -1, 0x81007f40, -1, 0x81000130, -1, 0x81002438, -1, 0x81003f88, -1, 0x81003e70, -1, 0x81001d00, 29, 0x81006fd8, -1, 0x81004a78, -1, 0x810012a0, -1, 0x810058b8, -1, 0x81007ef8, -1,
   0x810047b0, -1, 0x81006a58, -1, 0x810024d0, -1, 0x810049a0, -1, 0x81005fb8, -1, 0x810057b0, -1, 0x81000028, -1, 0x810033b0, -1, 0x81007e18, -1, 0x81006c58, -1, 0x81001820, -1, 0x81002420, -1, 0x810043f8, -1, 0x81006640, -1, 0x810064b8, -1, 0x810005e8, -1,
   0x81007c80, -1, 0x81000a78, -1, 0x81002570, -1, 0x81006d08, -1, 0x81002a18, -1, 0x81002008, -1, 0x81003130, -1, 0x81000600, 6, 0x81004300, 67, 0x81005520, -1, 0x810039d8, -1, 0x81006d60, -1, 0x81000578, -1, 0x810051d8, -1, 0x81005178, -1, 0x81000990, -1,
   0x810010e8, -1, 0x81005090, -1, 0x81004918, -1, 0x81000710, -1, 0x810036b0, -1, 0x81002950, -1, 0x81001588, -1, 0x810036f8, -1, 0x81005088, -1, 0x81003690, -1, 0x81000748, -1, 0x810053e8, -1, 0x81001eb0, -1, 0x81002d20, -1, 0x81003058, -1, 0x81006720, -1]"

definition nodes_16 :: "int list" where
  "nodes_16 = [
   0x810002d0, -1, 0x81004570, -1, 0x81004940, -1, 0x810073a0, -1, 0x81005850, -1, 0x81003158, -1, 0x81003308, -1, 0x810040d8, -1, 0x81007ee0, -1, 0x81002ec0, -1, 0x81006498, -1, 0x81006f38, -1, 0x810001e8, -1, 0x81005cc0, -1, 0x81006770, -1, 0x81003148, -1,
   0x81005230, -1, 0x81006250, -1, 0x81003970, -1, 0x810033f8, -1, 0x81004200, 66, 0x81005e28, -1, 0x81003c50, -1, 0x81005510, -1, 0x81007390, -1, 0x81001db0, -1, 0x81005080, -1, 0x810051b8, -1, 0x81006728, -1, 0x81001fa0, -1, 0x81001600, 22, 0x81004750, -1,
   0x81005958, -1, 0x81002168, -1, 0x81003570, -1, 0x810054b0, -1, 0x81000bb0, -1, 0x81000808, -1, 0x81002eb0, -1, 0x81004618, -1, 0x810055d8, -1, 0x81003600, 54, 0x81002350, -1, 0x810003c0, -1, 0x81001b58, -1, 0x81005de0, -1, 0x81006a50, -1, 0x81007308, -1,
   0x81001108, -1, 0x810023d0, -1, 0x81000260, -1, 0x81007fc8, -1, 0x81005e90, -1, 0x81006948, -1, 0x81003088, -1, 0x81006e80, -1, 0x81003cd8, -1, 0x81001af0, -1, 0x810000b8, -1, 0x81007ec8, -1, 0x81001858, -1, 0x81006030, -1, 0x81000e68, -1, 0x810004d8, -1]"

definition nodes_17 :: "int list" where
  "nodes_17 = [
   0x81002038, -1, 0x81004e70, -1, 0x81000b60, -1, 0x81005020, -1, 0x81004488, -1, 0x81001070, -1, 0x81003f60, -1, 0x810003d8, -1, 0x81007290, -1, 0x81005738, -1, 0x81004800, 72, 0x81005f40, -1, 0x810001c8, -1, 0x81001610, -1, 0x81002620, -1, 0x810022c0, -1,
   0x810065c0, -1, 0x810008f8, -1, 0x810044d0, -1, 0x81004ab8, -1, 0x81000d68, -1, 0x81007ce0, -1, 0x81003568, -1, 0x81002428, -1, 0x81001648, -1, 0x81006c60, -1, 0x81001130, -1, 0x810013e0, -1, 0x81002d08, -1, 0x810047d0, -1, 0x810057c8, -1, 0x81005dd8, -1,
   0x81002030, -1, 0x81007858, -1, 0x81005a20, -1, 0x81007328, -1, 0x810012e8, -1, 0x81006cf0, -1, 0x81005478, -1, 0x81000f68, -1, 0x81004188, -1, 0x81004450, -1, 0x81000f30, -1, 0x81006a78, -1, 0x81006dc0, -1, 0x81000b18, -1, 0x81003828, -1, 0x81004e40, -1,
   0x81004460, -1, 0x81001bf0, -1, 0x81007f70, -1, 0x810019c0, -1, 0x81003330, -1, 0x810021a0, -1, 0x81006c38, -1, 0x81007b98, -1, 0x81005af0, -1, 0x81006cc0, -1, 0x81003be0, -1, 0x81000ce0, -1, 0x81007548, -1, 0x81006a38, -1, 0x810054b8, -1, 0x81003070, -1]"

definition nodes_18 :: "int list" where
  "nodes_18 = [
   0x81007720, -1, 0x81006850, -1, 0x81004b00, 75, 0x810064c8, -1, 0x81000198, -1, 0x81000da0, -1, 0x810052d0, -1, 0x81007d80, -1, 0x81001658, -1, 0x81004b18, -1, 0x81007f90, -1, 0x810001d0, -1, 0x81005be8, -1, 0x81006098, -1, 0x81003800, 56, 0x81002500, 37,
   0x81006978, -1, 0x81001288, -1, 0x81005ba0, -1, 0x81005350, -1, 0x81005940, -1, 0x81006e90, -1, 0x81003990, -1, 0x81006cd8, -1, 0x81006a48, -1, 0x81006470, -1, 0x81005be0, -1, 0x81002360, -1, 0x81006338, -1, 0x81007a98, -1, 0x810053b0, -1, 0x810001c0, -1,
   0x81003048, -1, 0x81005140, -1, 0x810073a8, -1, 0x81004498, -1, 0x81004f88, -1, 0x81003418, -1, 0x810038d0, -1, 0x810009c0, -1, 0x81002730, -1, 0x81000750, -1, 0x81001f08, -1, 0x810048b0, -1, 0x81005cd0, -1, 0x810068e0, -1, 0x81006180, -1, 0x81000638, -1,
   0x81003ec8, -1, 0x810055c0, -1, 0x81000760, -1, 0x81007490, -1, 0x81003ae8, -1, 0x81002228, -1, 0x81007a08, -1, 0x81001650, -1, 0x81002478, -1, 0x81001d80, -1, 0x810003a0, -1, 0x81000cf8, -1, 0x81000318, -1, 0x81002398, -1, 0x81006340, -1, 0x81005c08, -1]"

definition nodes_19 :: "int list" where
  "nodes_19 = [
   0x81001380, -1, 0x810026b8, -1, 0x81005340, -1, 0x81007208, -1, 0x81004130, -1, 0x81000298, -1, 0x81005ea0, -1, 0x81002a50, -1, 0x81007bd8, -1, 0x81000f38, -1, 0x81007158, -1, 0x81003980, -1, 0x81001cd0, -1, 0x81006bc8, -1, 0x81004590, -1, 0x81000828, -1,
   0x810021a8, -1, 0x81001e40, -1, 0x81006938, -1, 0x81002230, -1, 0x81006408, -1, 0x81006928, -1, 0x810065e8, -1, 0x81001a00, 26, 0x81007cd8, -1, 0x810028f8, -1, 0x81003358, -1, 0x81007768, -1, 0x81006d80, -1, 0x81004e08, -1, 0x810000e0, -1, 0x81000098, -1,
   0x81000f58, -1, 0x81001fe8, -1, 0x810079b0, -1, 0x810013f0, -1, 0x81004f68, -1, 0x810047e8, -1, 0x81002190, -1, 0x810060b8, -1, 0x81005ab0, -1, 0x81001fd8, -1, 0x81001030, -1, 0x81000eb8, -1, 0x810036b8, -1, 0x81003150, -1, 0x81006568, -1, 0x81001170, -1,
   0x81001f70, -1, 0x81003a70, -1, 0x81007c00, 124, 0x81006600, 102, 0x810011f0, -1, 0x810062a8, -1, 0x810029f0, -1, 0x81000058, -1, 0x810040e8, -1, 0x81004358, -1, 0x81000620, -1, 0x81006da0, -1, 0x81002138, -1, 0x810040f0, -1, 0x81005110, -1, 0x81000338, -1]"

definition nodes_20 :: "int list" where
  "nodes_20 = [
   0x810006e0, -1, 0x810078c8, -1, 0x81002dd8, -1, 0x810066f0, -1, 0x810074d8, -1, 0x810019a8, -1, 0x81004788, -1, 0x81004258, -1, 0x81005300, 83, 0x81004238, -1, 0x810008c8, -1, 0x81002808, -1, 0x81002430, -1, 0x81004628, -1, 0x810022f0, -1, 0x81001660, -1,
   0x81002ee0, -1, 0x81004780, -1, 0x81007758, -1, 0x810015d0, -1, 0x81001c98, -1, 0x810003a8, -1, 0x81006e10, -1, 0x81002dc8, -1, 0x81007e50, -1, 0x810027d0, -1, 0x810000a8, -1, 0x81001d60, -1, 0x810056a8, -1, 0x810001a8, -1, 0x810060e8, -1, 0x81002cb8, -1,
   0x81006058, -1, 0x81007cd0, -1, 0x810046f0, -1, 0x810060f0, -1, 0x81002928, -1, 0x810034d0, -1, 0x81001798, -1, 0x81007510, -1, 0x81003dd0, -1, 0x81005210, -1, 0x810023a8, -1, 0x810055e8, -1, 0x81003890, -1, 0x81003840, -1, 0x81000fc0, -1, 0x81005c48, -1,
   0x81000110, -1, 0x810017d8, -1, 0x81001480, -1, 0x81006fe8, -1, 0x81002d50, -1, 0x810012d0, -1, 0x81002fa0, -1, 0x810036c8, -1, 0x81000358, -1, 0x81002310, -1, 0x810009d8, -1, 0x81007b50, -1, 0x81002e48, -1, 0x81007dd0, -1, 0x81007e80, -1, 0x81001e08, -1]"

definition nodes_21 :: "int list" where
  "nodes_21 = [
   0x81000428, -1, 0x810061a0, -1, 0x81003248, -1, 0x81003bc0, -1, 0x81004c60, -1, 0x81006820, -1, 0x81003390, -1, 0x81004bb0, -1, 0x81002280, -1, 0x81001b90, -1, 0x81002fa8, -1, 0x81003170, -1, 0x81002f80, -1, 0x81007f98, -1, 0x810058c8, -1, 0x81005ec0, -1,
   0x81001cc8, -1, 0x81000bf8, -1, 0x81002800, 40, 0x81007c90, -1, 0x81005358, -1, 0x81001ee0, -1, 0x81005120, -1, 0x81005a50, -1, 0x81005ff8, -1, 0x81002e28, -1, 0x81001270, -1, 0x81004338, -1, 0x81004cf8, -1, 0x81001cf0, -1, 0x81004500, 69, 0x81006558, -1,
   0x81003e48, -1, 0x81001868, -1, 0x810056c0, -1, 0x81004f18, -1, 0x81007af8, -1, 0x810030a8, -1, 0x81004228, -1, 0x81001a58, -1, 0x81001fe0, -1, 0x81006500, 101, 0x810008c0, -1, 0x81003b40, -1, 0x810044d8, -1, 0x81001530, -1, 0x81004c08, -1, 0x81004648, -1,
   0x810056a0, -1, 0x81003560, -1, 0x81006398, -1, 0x81001a68, -1, 0x81007cc8, -1, 0x81005408, -1, 0x81004748, -1, 0x81003410, -1, 0x81001cf8, -1, 0x81006160, -1, 0x81007430, -1, 0x81007d00, 125, 0x81007270, -1, 0x81001520, -1, 0x81003110, -1, 0x81001e60, -1]"

definition nodes_22 :: "int list" where
  "nodes_22 = [
   0x810016f8, -1, 0x81000658, -1, 0x81004118, -1, 0x810005a8, -1, 0x81006680, -1, 0x81006d30, -1, 0x81002e70, -1, 0x81004080, -1, 0x810074a0, -1, 0x810039c0, -1, 0x81007178, -1, 0x81003ee8, -1, 0x81007100, 113, 0x810010a8, -1, 0x81002780, -1, 0x81007068, -1,
   0x81000930, -1, 0x81005060, -1, 0x81004368, -1, 0x81002ed0, -1, 0x81002b08, -1, 0x810063e8, -1, 0x81000e20, -1, 0x81003a50, -1, 0x81005dd0, -1, 0x81000fe0, -1, 0x810071d8, -1, 0x81004ef0, -1, 0x810062e0, -1, 0x81000160, -1, 0x81004418, -1, 0x810021c0, -1,
   0x810014c8, -1, 0x810058f8, -1, 0x81001b10, -1, 0x810079d0, -1, 0x81005a48, -1, 0x81003078, -1, 0x81000340, -1, 0x810016c8, -1, 0x81002f00, 47, 0x81005108, -1, 0x81005550, -1, 0x81005e78, -1, 0x810003f8, -1, 0x810062e8, -1, 0x81004ed8, -1, 0x81001910, -1,
   0x810018b0, -1, 0x81007050, -1, 0x81002c68, -1, 0x810038f8, -1, 0x81001df8, -1, 0x81005bd8, -1, 0x81005180, -1, 0x81004158, -1, 0x81007b20, -1, 0x81003280, -1, 0x81003ba8, -1, 0x81004a70, -1, 0x81001878, -1, 0x81005e80, -1, 0x81007318, -1, 0x81006188, -1]"

definition nodes_23 :: "int list" where
  "nodes_23 = [
   0x810028e0, -1, 0x81007418, -1, 0x81000c20, -1, 0x81006ef0, -1, 0x81007848, -1, 0x810048c0, -1, 0x810038b0, -1, 0x81007c10, -1, 0x81003f18, -1, 0x81003f28, -1, 0x81002910, -1, 0x810032e0, -1, 0x810070f8, -1, 0x81006f58, -1, 0x81004458, -1, 0x81007258, -1,
   0x81001640, -1, 0x81002bc8, -1, 0x81000b20, -1, 0x81002838, -1, 0x810067b8, -1, 0x810062a0, -1, 0x810017c0, -1, 0x810050f8, -1, 0x81006e50, -1, 0x81004178, -1, 0x81002930, -1, 0x81006068, -1, 0x81007830, -1, 0x81005978, -1, 0x81004b78, -1, 0x81001b00, 27,
   0x81007198, -1, 0x810050d8, -1, 0x81000480, -1, 0x81002710, -1, 0x81003b38, -1, 0x810050c8, -1, 0x81005d28, -1, 0x81001d30, -1, 0x81005d90, -1, 0x81005fc0, -1, 0x81005c80, -1, 0x81004190, -1, 0x81007278, -1, 0x81005e48, -1, 0x810053f8, -1, 0x81003400, 52,
   0x81001020, -1, 0x81000f18, -1, 0x81004ea0, -1, 0x81003988, -1, 0x81001d48, -1, 0x81000e38, -1, 0x81005310, -1, 0x81003d18, -1, 0x81003910, -1, 0x81006d78, -1, 0x81006458, -1, 0x81001b48, -1, 0x81006950, -1, 0x810016b0, -1, 0x81006bc0, -1, 0x810033c0, -1]"

definition nodes_24 :: "int list" where
  "nodes_24 = [
   0x81001ce8, -1, 0x810017d0, -1, 0x81004af8, -1, 0x81000910, -1, 0x81005798, -1, 0x810026f0, -1, 0x81000b88, -1, 0x81001d88, -1, 0x810057b8, -1, 0x81000b38, -1, 0x810045f0, -1, 0x81007870, -1, 0x810041a8, -1, 0x81003168, -1, 0x810059f0, -1, 0x810066a8, -1,
   0x81005288, -1, 0x81005390, -1, 0x81006078, -1, 0x81002880, -1, 0x810051e8, -1, 0x810070f0, -1, 0x81003a10, -1, 0x81005ee8, -1, 0x81000408, -1, 0x81006738, -1, 0x81007168, -1, 0x810073d8, -1, 0x81004de0, -1, 0x81001830, -1, 0x81000af8, -1, 0x81005b70, -1,
   0x81004370, -1, 0x81005598, -1, 0x81001280, -1, 0x81005e10, -1, 0x81002798, -1, 0x81002600, 38, 0x81002758, -1, 0x810063b8, -1, 0x81001180, -1, 0x81006fc0, -1, 0x810017f8, -1, 0x81007878, -1, 0x81000e58, -1, 0x81001ab8, -1, 0x810035f8, -1, 0x81000e48, -1,
   0x81001a60, -1, 0x81002368, -1, 0x81003b88, -1, 0x810047a0, -1, 0x810077b8, -1, 0x81001160, -1, 0x81001178, -1, 0x81006580, -1, 0x81005330, -1, 0x81005458, -1, 0x81004bb8, -1, 0x810059c0, -1, 0x81000090, -1, 0x81003558, -1, 0x81002f70, -1, 0x81003770, -1]"

definition nodes_25 :: "int list" where
  "nodes_25 = [
   0x81001ba8, -1, 0x81004198, -1, 0x81000be8, -1, 0x81005708, -1, 0x81001988, -1, 0x81000df0, -1, 0x810024c8, -1, 0x81006028, -1, 0x81000ef8, -1, 0x81006f28, -1, 0x810010a0, -1, 0x81005608, -1, 0x81000f48, -1, 0x81004ca0, -1, 0x81000b00, 11, 0x810013e8, -1,
   0x81002920, -1, 0x810072f0, -1, 0x81000490, -1, 0x81005270, -1, 0x81007218, -1, 0x810066d0, -1, 0x810037a8, -1, 0x81001768, -1, 0x810078e0, -1, 0x81000e98, -1, 0x81000328, -1, 0x81005b80, -1, 0x810059d0, -1, 0x81000ca0, -1, 0x81003d48, -1, 0x81000d88, -1,
   0x81005828, -1, 0x81006de8, -1, 0x81007bc0, -1, 0x81001e98, -1, 0x81006148, -1, 0x81007500, 117, 0x810042e8, -1, 0x810021d8, -1, 0x81005898, -1, 0x81007cb8, -1, 0x81007ca8, -1, 0x81001720, -1, 0x81004908, -1, 0x81001098, -1, 0x81003118, -1, 0x81002608, -1,
   0x810070d8, -1, 0x81004b98, -1, 0x81002cd0, -1, 0x81003f30, -1, 0x81002a08, -1, 0x81006050, -1, 0x81001438, -1, 0x81007be0, -1, 0x810025d8, -1, 0x810029a8, -1, 0x810044e0, -1, 0x81001978, -1, 0x810052c0, -1, 0x810017f0, -1, 0x81000fb8, -1, 0x81003ce0, -1]"

definition nodes_26 :: "int list" where
  "nodes_26 = [
   0x81001c88, -1, 0x810061c0, -1, 0x810014e0, -1, 0x81004448, -1, 0x81003748, -1, 0x810003e0, -1, 0x81003fe8, -1, 0x81002708, -1, 0x810067a8, -1, 0x81005278, -1, 0x81000b58, -1, 0x81001368, -1, 0x81003a80, -1, 0x81003618, -1, 0x81004f28, -1, 0x81000d50, -1,
   0x81003a00, 58, 0x81000678, -1, 0x81003ba0, -1, 0x81007d78, -1, 0x81001e38, -1, 0x81001a50, -1, 0x810043b8, -1, 0x810014b0, -1, 0x810076d8, -1, 0x81001d58, -1, 0x81001908, -1, 0x81004678, -1, 0x81006660, -1, 0x81003be8, -1, 0x81006930, -1, 0x81006210, -1,
   0x81000618, -1, 0x810061d0, -1, 0x810079e8, -1, 0x81000f08, -1, 0x81005030, -1, 0x81002070, -1, 0x810054a8, -1, 0x81000588, -1, 0x81000b80, -1, 0x81002d78, -1, 0x81005c10, -1, 0x81002380, -1, 0x81004e00, 78, 0x81005bb8, -1, 0x81004ae8, -1, 0x81006c98, -1,
   0x81000ca8, -1, 0x81000478, -1, 0x81000d80, -1, 0x810057e8, -1, 0x81007bf0, -1, 0x81006490, -1, 0x810031e0, -1, 0x81006628, -1, 0x81005918, -1, 0x81003b90, -1, 0x810067c0, -1, 0x81000d20, -1, 0x81007b88, -1, 0x81004760, -1, 0x810020c0, -1, 0x81001870, -1]"

definition nodes_27 :: "int list" where
  "nodes_27 = [
   0x81000308, -1, 0x81006590, -1, 0x81007fb8, -1, 0x81000de8, -1, 0x81004bd0, -1, 0x81007e00, 126, 0x81007a40, -1, 0x81002320, -1, 0x81007af0, -1, 0x81005688, -1, 0x81007ac8, -1, 0x81006d90, -1, 0x810014e8, -1, 0x81000050, -1, 0x81006c48, -1, 0x81003f10, -1,
   0x81003010, -1, 0x810073b0, -1, 0x81003220, -1, 0x81001aa0, -1, 0x81005c38, -1, 0x81006428, -1, 0x810027d8, -1, 0x81002648, -1, 0x81000a70, -1, 0x81002cc8, -1, 0x810007c0, -1, 0x810006d0, -1, 0x810057e0, -1, 0x810064f0, -1, 0x810055f0, -1, 0x81000b98, -1,
   0x81005f18, -1, 0x81003d10, -1, 0x81003ab0, -1, 0x810017b8, -1, 0x81007230, -1, 0x810005c0, -1, 0x81003310, -1, 0x81006120, -1, 0x81005200, 82, 0x81002238, -1, 0x810009e0, -1, 0x81007d70, -1, 0x81002260, -1, 0x81002068, -1, 0x81006c00, 108, 0x81002908, -1,
   0x81002ca8, -1, 0x81004010, -1, 0x810056f8, -1, 0x810015b8, -1, 0x81004a58, -1, 0x81002e90, -1, 0x81004cd8, -1, 0x81000780, -1, 0x81007eb0, -1, 0x81000360, -1, 0x81004230, -1, 0x81001920, -1, 0x81001050, -1, 0x81005df0, -1, 0x81000ff0, -1, 0x810060c0, -1]"

definition nodes_28 :: "int list" where
  "nodes_28 = [
   0x81003d60, -1, 0x81007a88, -1, 0x81003630, -1, 0x810061f0, -1, 0x81003bb8, -1, 0x81004700, 71, 0x810048e8, -1, 0x81003d78, -1, 0x810034c0, -1, 0x81003e30, -1, 0x81001fd0, -1, 0x81002b28, -1, 0x810003b8, -1, 0x81006f30, -1, 0x810009a8, -1, 0x81004b10, -1,
   0x810055d0, -1, 0x81001e88, -1, 0x81005a18, -1, 0x81006698, -1, 0x81000680, -1, 0x810069e0, -1, 0x81001218, -1, 0x81003380, -1, 0x810039b8, -1, 0x81001e50, -1, 0x81000a00, 10, 0x81000ae8, -1, 0x81000630, -1, 0x810011d0, -1, 0x81006a60, -1, 0x81000610, -1,
   0x81005ea8, -1, 0x81000e40, -1, 0x81004768, -1, 0x81005a58, -1, 0x81002298, -1, 0x81004d38, -1, 0x81005f78, -1, 0x810045b8, -1, 0x81005170, -1, 0x81007280, -1, 0x81005d78, -1, 0x81002e30, -1, 0x810072d0, -1, 0x81002c80, -1, 0x81004ef8, -1, 0x810018a0, -1,
   0x810072c8, -1, 0x81003138, -1, 0x81005cf8, -1, 0x81002c28, -1, 0x81004c38, -1, 0x81007c50, -1, 0x81007288, -1, 0x81005ce8, -1, 0x81007480, -1, 0x810047f8, -1, 0x81003a78, -1, 0x81006508, -1, 0x81002688, -1, 0x810014f8, -1, 0x810052b0, -1, 0x81007840, -1]"

definition nodes_29 :: "int list" where
  "nodes_29 = [
   0x810060c8, -1, 0x81002e20, -1, 0x81004810, -1, 0x810013f8, -1, 0x81001aa8, -1, 0x81005a08, -1, 0x810009c8, -1, 0x81002bb0, -1, 0x81005e18, -1, 0x810029b0, -1, 0x810062b8, -1, 0x81004038, -1, 0x81006f20, -1, 0x81007d18, -1, 0x81000cb8, -1, 0x81007220, -1,
   0x81006ea0, -1, 0x81000790, -1, 0x81003c78, -1, 0x81007e30, -1, 0x81006f80, -1, 0x81000538, -1, 0x81007a90, -1, 0x81004778, -1, 0x81007b58, -1, 0x810047c8, -1, 0x81004d58, -1, 0x81005848, -1, 0x810050e0, -1, 0x81002f60, -1, 0x81000d10, -1, 0x81002590, -1,
   0x81007190, -1, 0x81003c18, -1, 0x81007070, -1, 0x81001468, -1, 0x810042f8, -1, 0x81005b28, -1, 0x81007188, -1, 0x810059f8, -1, 0x81001ed0, -1, 0x810011c0, -1, 0x810033f0, -1, 0x81000f90, -1, 0x81003050, -1, 0x81004928, -1, 0x81004950, -1, 0x81002d60, -1,
   0x81000c80, -1, 0x810079c8, -1, 0x810024f8, -1, 0x81002c38, -1, 0x81003518, -1, 0x81000450, -1, 0x81006ce0, -1, 0x81004958, -1, 0x81004730, -1, 0x810069f8, -1, 0x81006300, 99, 0x81004af0, -1, 0x81004d98, -1, 0x810062d0, -1, 0x810065a8, -1, 0x81002b48, -1]"

definition nodes_30 :: "int list" where
  "nodes_30 = [
   0x810027c0, -1, 0x81002270, -1, 0x81001ee8, -1, 0x81007120, -1, 0x81007598, -1, 0x81007098, -1, 0x81003a18, -1, 0x810075c0, -1, 0x81000018, -1, 0x810010d8, -1, 0x81002618, -1, 0x81005418, -1, 0x81006158, -1, 0x81006d00, 109, 0x81004ec0, -1, 0x81000c70, -1,
   0x81001890, -1, 0x810068b0, -1, 0x81004538, -1, 0x81006a68, -1, 0x81002538, -1, 0x81003e80, -1, 0x81000df8, -1, 0x81001638, -1, 0x810010c0, -1, 0x81000b08, -1, 0x81000d30, -1, 0x81005fa0, -1, 0x81002be8, -1, 0x81000048, -1, 0x81006f08, -1, 0x81000968, -1,
   0x810026a0, -1, 0x81007de0, -1, 0x81005628, -1, 0x81007c48, -1, 0x81007d40, -1, 0x81007108, -1, 0x81007e40, -1, 0x81002410, -1, 0x81000a20, -1, 0x81007638, -1, 0x81000ba8, -1, 0x810028c8, -1, 0x810075e0, -1, 0x81002f08, -1, 0x81004c58, -1, 0x81004310, -1,
   0x81004de8, -1, 0x810051d0, -1, 0x81004f98, -1, 0x81001258, -1, 0x81002120, -1, 0x81003228, -1, 0x81002740, -1, 0x810061a8, -1, 0x81006998, -1, 0x81005258, -1, 0x81007aa0, -1, 0x810038c8, -1, 0x81002598, -1, 0x81000bf0, -1, 0x81003590, -1, 0x810046a8, -1]"

definition nodes_31 :: "int list" where
  "nodes_31 = [
   0x81004c10, -1, 0x81004e60, -1, 0x81003338, -1, 0x81001df0, -1, 0x81001ad8, -1, 0x81002f50, -1, 0x81000568, -1, 0x810051a0, -1, 0x81002210, -1, 0x81000de0, -1, 0x81000008, -1, 0x810053f0, -1, 0x810049a8, -1, 0x810047c0, -1, 0x81004288, -1, 0x81004388, -1,
   0x81001968, -1, 0x81005000, 80, 0x81003d28, -1, 0x81004e78, -1, 0x81004208, -1, 0x81001060, -1, 0x810024a0, -1, 0x81002cf0, -1, 0x81004d80, -1, 0x810079b8, -1, 0x81005660, -1, 0x810053b8, -1, 0x81003e00, 62, 0x81007a60, -1, 0x81002718, -1, 0x81003350, -1,
   0x81000598, -1, 0x810070e0, -1, 0x81000e08, -1, 0x810051f8, -1, 0x81004c30, -1, 0x810019b0, -1, 0x81003648, -1, 0x81004820, -1, 0x81005ec8, -1, 0x810026d8, -1, 0x81004ab0, -1, 0x81005f70, -1, 0x810004e8, -1, 0x81005dc8, -1, 0x81001918, -1, 0x81007238, -1,
   0x81001758, -1, 0x81003cf8, -1, 0x81000520, -1, 0x81003128, -1, 0x810000f0, -1, 0x81001990, -1, 0x810069a8, -1, 0x81006298, -1, 0x81003120, -1, 0x81001190, -1, 0x81007180, -1, 0x81001b80, -1, 0x81003798, -1, 0x81005038, -1, 0x810062c0, -1, 0x81005a80, -1]"

definition nodes_32 :: "int list" where
  "nodes_32 = [
   0x81006898, -1, 0x81003bd0, -1, 0x810040b8, -1, 0x81004480, -1, 0x810008a8, -1, 0x81007d28, -1, 0x81000570, -1, 0x81002750, -1, 0x81000bd8, -1, 0x81002c48, -1, 0x81005d68, -1, 0x81007130, -1, 0x81006ca8, -1, 0x81000668, -1, 0x81001298, -1, 0x810000c8, -1,
   0x81006330, -1, 0x81002aa0, -1, 0x81006fa0, -1, 0x81004bc0, -1, 0x81003a30, -1, 0x81001168, -1, 0x81001328, -1, 0x810053a0, -1, 0x81004758, -1, 0x81001538, -1, 0x81000230, -1, 0x810060b0, -1, 0x81006918, -1, 0x810070a0, -1, 0x81006c20, -1, 0x81003680, -1,
   0x81006288, -1, 0x81003340, -1, 0x81002548, -1, 0x810066d8, -1, 0x81001848, -1, 0x81002558, -1, 0x81006b78, -1, 0x81006cb0, -1, 0x81003b18, -1, 0x810007b0, -1, 0x81006958, -1, 0x81007be8, -1, 0x81007c70, -1, 0x81004c20, -1, 0x810027e0, -1, 0x810056f0, -1,
   0x810025b0, -1, 0x810078b8, -1, 0x810067c8, -1, 0x810029d8, -1, 0x81000870, -1, 0x81007e68, -1, 0x81000158, -1, 0x81003788, -1, 0x81002b20, -1, 0x81000550, -1, 0x810002a0, -1, 0x81006378, -1, 0x81005750, -1, 0x81002978, -1, 0x81002e80, -1, 0x81000840, -1]"

definition nodes_33 :: "int list" where
  "nodes_33 = [
   0x81005e00, 94, 0x81002f38, -1, 0x81004438, -1, 0x81002c30, -1, 0x810063c8, -1, 0x81000f88, -1, 0x81006168, -1, 0x81002148, -1, 0x81006e60, -1, 0x81006538, -1, 0x81007dc8, -1, 0x810031f0, -1, 0x81005bc8, -1, 0x81003da8, -1, 0x81003ae0, -1, 0x81005f68, -1,
   0x81001c80, -1, 0x81002ef0, -1, 0x81002b68, -1, 0x81005cf0, -1, 0x81004e88, -1, 0x810063f0, -1, 0x81001dd8, -1, 0x81006c18, -1, 0x81003af8, -1, 0x81000128, -1, 0x81001338, -1, 0x81006e28, -1, 0x81004400, 68, 0x81006bb8, -1, 0x810070e8, -1, 0x81006dd8, -1,
   0x810068a8, -1, 0x81007890, -1, 0x81001ae0, -1, 0x81001508, -1, 0x810017b0, -1, 0x81007730, -1, 0x81005070, -1, 0x81004548, -1, 0x81003dc0, -1, 0x81003e10, -1, 0x81001708, -1, 0x81002560, -1, 0x81002e00, 46, 0x81007d58, -1, 0x81003eb8, -1, 0x81006d48, -1,
   0x81007cc0, -1, 0x810045f8, -1, 0x81006bd0, -1, 0x81007c60, -1, 0x81002450, -1, 0x81004a98, -1, 0x810010b8, -1, 0x81004ad8, -1, 0x810039c8, -1, 0x81005d58, -1, 0x81007ae0, -1, 0x81006638, -1, 0x81001de0, -1, 0x810011b0, -1, 0x810006e8, -1, 0x810063b0, -1]"

definition nodes_34 :: "int list" where
  "nodes_34 = [
   0x81005d10, -1, 0x81002a80, -1, 0x81001dd0, -1, 0x810025f8, -1, 0x81005bc0, -1, 0x810041f0, -1, 0x81001698, -1, 0x81002a10, -1, 0x81003d20, -1, 0x81006308, -1, 0x81003538, -1, 0x81004a20, -1, 0x810073e0, -1, 0x81003c30, -1, 0x810023b0, -1, 0x81006e38, -1,
   0x810065a0, -1, 0x81002050, -1, 0x81007e88, -1, 0x81001e68, -1, 0x81001b40, -1, 0x81003d38, -1, 0x81004db8, -1, 0x81006488, -1, 0x81002078, -1, 0x81002a60, -1, 0x81007750, -1, 0x81003520, -1, 0x810040e0, -1, 0x81001e20, -1, 0x810069b8, -1, 0x81005058, -1,
   0x81003448, -1, 0x81006a20, -1, 0x81001110, -1, 0x81005ab8, -1, 0x81001998, -1, 0x81006018, -1, 0x81005b68, -1, 0x81002378, -1, 0x810039f0, -1, 0x81007590, -1, 0x81006790, -1, 0x81002f88, -1, 0x81003848, -1, 0x810067e8, -1, 0x81004938, -1, 0x810002f0, -1,
   0x81005c58, -1, 0x81002980, -1, 0x810018d0, -1, 0x81005298, -1, 0x81006b60, -1, 0x81004d48, -1, 0x81002d48, -1, 0x81003ff0, -1, 0x81004ac0, -1, 0x81006f90, -1, 0x810038c0, -1, 0x81006f60, -1, 0x81005238, -1, 0x81003b78, -1, 0x81004ff8, -1, 0x81002348, -1]"

definition nodes_35 :: "int list" where
  "nodes_35 = [
   0x81003968, -1, 0x81007610, -1, 0x810018c8, -1, 0x81007540, -1, 0x81002fd0, -1, 0x810073e8, -1, 0x81007de8, -1, 0x81003260, -1, 0x81003458, -1, 0x81007528, -1, 0x81003c80, -1, 0x810039a8, -1, 0x81002df8, -1, 0x810006f8, -1, 0x81007a10, -1, 0x81007940, -1,
   0x81001008, -1, 0x81000470, -1, 0x81006cf8, -1, 0x81001e70, -1, 0x810072a0, -1, 0x81007930, -1, 0x81004c18, -1, 0x810057c0, -1, 0x81006f78, -1, 0x81007160, -1, 0x81005158, -1, 0x81005748, -1, 0x81003068, -1, 0x81005df8, -1, 0x810042a8, -1, 0x81005c20, -1,
   0x810076d0, -1, 0x81007818, -1, 0x81004180, -1, 0x81005368, -1, 0x81006810, -1, 0x81006ae8, -1, 0x810073c0, -1, 0x81004568, -1, 0x81004c70, -1, 0x81003090, -1, 0x810031c8, -1, 0x81006f40, -1, 0x810041a0, -1, 0x81002040, -1, 0x81004fa0, -1, 0x81001d28, -1,
   0x810053e0, -1, 0x81007228, -1, 0x81000ac0, -1, 0x81005990, -1, 0x81001ff8, -1, 0x81000108, -1, 0x810016f0, -1, 0x81001c18, -1, 0x81006e40, -1, 0x810024a8, -1, 0x810023f8, -1, 0x810052f0, -1, 0x81007d60, -1, 0x81001360, -1, 0x81003328, -1, 0x81004998, -1]"

definition nodes_36 :: "int list" where
  "nodes_36 = [
   0x810033e8, -1, 0x810002c8, -1, 0x81006a00, 106, 0x81001a18, -1, 0x81004d28, -1, 0x810035e8, -1, 0x81003460, -1, 0x81001eb8, -1, 0x810043d0, -1, 0x81000b10, -1, 0x81000d70, -1, 0x81005a38, -1, 0x81006290, -1, 0x810008f0, -1, 0x810074a8, -1, 0x81001c10, -1,
   0x81006780, -1, 0x81007b08, -1, 0x81003d88, -1, 0x81003760, -1, 0x810028a0, -1, 0x81001bb8, -1, 0x81001930, -1, 0x81007ac0, -1, 0x81001f98, -1, 0x81005568, -1, 0x81006000, 96, 0x81007ca0, -1, 0x81005558, -1, 0x81000b90, -1, 0x81002d10, -1, 0x81001ca8, -1,
   0x81000db8, -1, 0x81004978, -1, 0x81004930, -1, 0x81000ed8, -1, 0x81000758, -1, 0x81005100, 81, 0x81002150, -1, 0x810066b8, -1, 0x81004050, -1, 0x810066b0, -1, 0x81007ba8, -1, 0x81002bd8, -1, 0x810017c8, -1, 0x81000940, -1, 0x810034f8, -1, 0x810071a8, -1,
   0x81007880, -1, 0x81005b18, -1, 0x81003b60, -1, 0x81004fc8, -1, 0x81005648, -1, 0x81001e00, 30, 0x81001780, -1, 0x81006708, -1, 0x81001b28, -1, 0x81003ea0, -1, 0x810074e8, -1, 0x81000a98, -1, 0x81002ac8, -1, 0x81002ce8, -1, 0x81000b30, -1, 0x81003628, -1]"

definition nodes_37 :: "int list" where
  "nodes_37 = [
   0x81005c70, -1, 0x810049b0, -1, 0x81000e90, -1, 0x810066f8, -1, 0x81000b40, -1, 0x81004090, -1, 0x81000418, -1, 0x81007b70, -1, 0x81003140, -1, 0x81002a30, -1, 0x81003888, -1, 0x81004cf0, -1, 0x81004e90, -1, 0x81004ba8, -1, 0x81004108, -1, 0x81002a90, -1,
   0x810041b0, -1, 0x81005428, -1, 0x81003388, -1, 0x810024f0, -1, 0x81003550, -1, 0x81001f00, 31, 0x81007498, -1, 0x810034e0, -1, 0x810077f0, -1, 0x81000a48, -1, 0x810047e0, -1, 0x810045c8, -1, 0x81004b50, -1, 0x810006c0, -1, 0x81000898, -1, 0x81001838, -1,
   0x810065d0, -1, 0x81000120, -1, 0x81004580, -1, 0x81007798, -1, 0x81000fd8, -1, 0x81003bd8, -1, 0x81005ac8, -1, 0x81000820, -1, 0x810022a8, -1, 0x81007e90, -1, 0x81004b20, -1, 0x81002328, -1, 0x81006890, -1, 0x81003ed0, -1, 0x81000540, -1, 0x81006390, -1,
   0x81006658, -1, 0x81005208, -1, 0x81004d40, -1, 0x81007fa0, -1, 0x81000708, -1, 0x81005a68, -1, 0x81003ea8, -1, 0x81000a88, -1, 0x81007058, -1, 0x81006c70, -1, 0x81000500, 5, 0x810025a8, -1, 0x81002248, -1, 0x810077e0, -1, 0x81002cd8, -1, 0x81003c38, -1]"

definition nodes_38 :: "int list" where
  "nodes_38 = [
   0x81001d70, -1, 0x81006ba8, -1, 0x810066e8, -1, 0x81007690, -1, 0x81002ee8, -1, 0x81006da8, -1, 0x81005ca8, -1, 0x81001548, -1, 0x81004048, -1, 0x810068f8, -1, 0x810048d8, -1, 0x81001b78, -1, 0x81007d08, -1, 0x81000558, -1, 0x810030c8, -1, 0x810073c8, -1,
   0x810047f0, -1, 0x81007080, -1, 0x81004840, -1, 0x81002c78, -1, 0x81007f38, -1, 0x81002c70, -1, 0x81007760, -1, 0x810038f0, -1, 0x810008b8, -1, 0x810011e0, -1, 0x81003868, -1, 0x810050a8, -1, 0x81006ba0, -1, 0x81001748, -1, 0x81000170, -1, 0x810015c0, -1,
   0x81002d98, -1, 0x81006a10, -1, 0x81004880, -1, 0x81004dd0, -1, 0x81002250, -1, 0x81005010, -1, 0x81004608, -1, 0x810005d0, -1, 0x81001f58, -1, 0x81006d20, -1, 0x81004408, -1, 0x81003e50, -1, 0x81002408, -1, 0x81004738, -1, 0x81003e08, -1, 0x81005148, -1,
   0x81005570, -1, 0x81006870, -1, 0x81005838, -1, 0x81003d00, 61, 0x81006008, -1, 0x81004490, -1, 0x81005e20, -1, 0x81000c08, -1, 0x81003e20, -1, 0x810003e8, -1, 0x81007fe8, -1, 0x81006828, -1, 0x81007df8, -1, 0x81001898, -1, 0x81003098, -1, 0x810030e0, -1]"

definition nodes_39 :: "int list" where
  "nodes_39 = [
   0x81006350, -1, 0x810032f0, -1, 0x81002628, -1, 0x81002be0, -1, 0x81005c40, -1, 0x810017e0, -1, 0x810018f0, -1, 0x81000d38, -1, 0x81000fe8, -1, 0x81005af8, -1, 0x81002ed8, -1, 0x810075b0, -1, 0x81003b28, -1, 0x810057a8, -1, 0x81001608, -1, 0x81002390, -1,
   0x81005ef8, -1, 0x81001ae8, -1, 0x81002198, -1, 0x81000c10, -1, 0x81006e30, -1, 0x81006af8, -1, 0x81000fb0, -1, 0x81007948, -1, 0x810014f0, -1, 0x81004f70, -1, 0x81001bb0, -1, 0x810026c8, -1, 0x810040b0, -1, 0x810042b0, -1, 0x81005ac0, -1, 0x81005d08, -1,
   0x81005f08, -1, 0x810064f8, -1, 0x81007550, -1, 0x81000860, -1, 0x81006788, -1, 0x810026f8, -1, 0x810042b8, -1, 0x81007378, -1, 0x81000fc8, -1, 0x810003b0, -1, 0x810027a8, -1, 0x81002370, -1, 0x81001718, -1, 0x81001430, -1, 0x81005590, -1, 0x81004078, -1,
   0x81001b30, -1, 0x81003d68, -1, 0x81002180, -1, 0x81004c90, -1, 0x81004fb0, -1, 0x81001510, -1, 0x81006840, -1, 0x810023e8, -1, 0x810032f8, -1, 0x81004320, -1, 0x81003c28, -1, 0x81000b48, -1, 0x810031d0, -1, 0x81000ef0, -1, 0x81007fa8, -1, 0x810025a0, -1]"

definition nodes_40 :: "int list" where
  "nodes_40 = [
   0x81000900, 9, 0x81004470, -1, 0x81002010, -1, 0x81001cb8, -1, 0x810002e0, -1, 0x81000238, -1, 0x81006650, -1, 0x81003c90, -1, 0x810025c8, -1, 0x81001de8, -1, 0x81002170, -1, 0x81004e98, -1, 0x81005430, -1, 0x81005008, -1, 0x81005578, -1, 0x81003ca0, -1,
   0x81005808, -1, 0x81005250, -1, 0x81000ea0, -1, 0x810052d8, -1, 0x81005500, 85, 0x81004708, -1, 0x81003f80, -1, 0x810042a0, -1, 0x81007b80, -1, 0x81005980, -1, 0x81002518, -1, 0x810063d0, -1, 0x810020b0, -1, 0x81004f08, -1, 0x81005870, -1, 0x81002da0, -1,
   0x81005398, -1, 0x81003180, -1, 0x81004cc0, -1, 0x81002af0, -1, 0x810020a0, -1, 0x81006ad8, -1, 0x810039a0, -1, 0x81002000, 32, 0x81001f50, -1, 0x81001700, 23, 0x81005bf0, -1, 0x81001e58, -1, 0x81002b00, 43, 0x81006b70, -1, 0x81007740, -1, 0x81006ff0, -1,
   0x81000368, -1, 0x810030b0, -1, 0x81001c78, -1, 0x810077d8, -1, 0x81007918, -1, 0x81003008, -1, 0x81002a48, -1, 0x81003af0, -1, 0x81000d78, -1, 0x81004110, -1, 0x81000010, -1, 0x81005698, -1, 0x81000ed0, -1, 0x81005778, -1, 0x81001340, -1, 0x81002118, -1]"

definition nodes_41 :: "int list" where
  "nodes_41 = [
   0x81003288, -1, 0x81001a40, -1, 0x810009b8, -1, 0x81002f20, -1, 0x810035b0, -1, 0x81007888, -1, 0x81003708, -1, 0x81005318, -1, 0x81001590, -1, 0x81002668, -1, 0x81005e68, -1, 0x81006c80, -1, 0x81007670, -1, 0x81003200, 50, 0x810015f0, -1, 0x810022b8, -1,
   0x81004ad0, -1, 0x81000f70, -1, 0x81000c90, -1, 0x810052a8, -1, 0x81007f60, -1, 0x81003028, -1, 0x81001158, -1, 0x81007f10, -1, 0x810048b8, -1, 0x81003100, 49, 0x81004d70, -1, 0x810046c8, -1, 0x81007348, -1, 0x81004e30, -1, 0x81005fb0, -1, 0x81000db0, -1,
   0x810045c0, -1, 0x81002338, -1, 0x810041f8, -1, 0x81006f50, -1, 0x81003bc8, -1, 0x81001a78, -1, 0x81001668, -1, 0x81006630, -1, 0x81004cc8, -1, 0x81004380, -1, 0x81007b78, -1, 0x810070d0, -1, 0x810054e0, -1, 0x81007630, -1, 0x81005a78, -1, 0x810058e8, -1,
   0x81005f80, -1, 0x81001900, 25, 0x81004790, -1, 0x81004170, -1, 0x81001240, -1, 0x810078f8, -1, 0x81003658, -1, 0x81004018, -1, 0x81005360, -1, 0x81002970, -1, 0x81007a58, -1, 0x81001688, -1, 0x81004680, -1, 0x81001ed8, -1, 0x81002ea8, -1, 0x810076f0, -1]"

definition nodes_42 :: "int list" where
  "nodes_42 = [
   0x81007f50, -1, 0x81007f30, -1, 0x81002460, -1, 0x81001c00, 28, 0x81001370, -1, 0x81007400, 116, 0x810045b0, -1, 0x810018d8, -1, 0x81006b80, -1, 0x810053d8, -1, 0x81000dc0, -1, 0x81001bf8, -1, 0x81000080, -1, 0x81007ab0, -1, 0x81003c58, -1, 0x81007d50, -1,
   0x81002990, -1, 0x81006b40, -1, 0x810018e0, -1, 0x81006ff8, -1, 0x81006450, -1, 0x81005c60, -1, 0x81003958, -1, 0x810049e8, -1, 0x81000f10, -1, 0x81002870, -1, 0x81000548, -1, 0x810005f8, -1, 0x81004e68, -1, 0x81006278, -1, 0x81002330, -1, 0x81000168, -1,
   0x81006cb8, -1, 0x81007368, -1, 0x81006528, -1, 0x81002d58, -1, 0x810016b8, -1, 0x81005280, -1, 0x81001b98, -1, 0x810039e0, -1, 0x81002bd0, -1, 0x81006d28, -1, 0x81006878, -1, 0x810023a0, -1, 0x810036d8, -1, 0x810049e0, -1, 0x81006248, -1, 0x81006fe0, -1,
   0x810054d8, -1, 0x81004350, -1, 0x810046b8, -1, 0x81002e50, -1, 0x81005810, -1, 0x81007910, -1, 0x81002110, -1, 0x81000fa0, -1, 0x810017a8, -1, 0x810046d8, -1, 0x81001528, -1, 0x81007f68, -1, 0x81002e38, -1, 0x81006510, -1, 0x81006868, -1, 0x810004a0, -1]"

definition nodes_43 :: "int list" where
  "nodes_43 = [
   0x81001bc8, -1, 0x810027a0, -1, 0x810067a0, -1, 0x810028e8, -1, 0x81004f38, -1, 0x81002e98, -1, 0x810060a0, -1, 0x81004b80, -1, 0x810038e8, -1, 0x81002448, -1, 0x81004f78, -1, 0x81000218, -1, 0x81005b40, -1, 0x81006430, -1, 0x81006380, -1, 0x81007c30, -1,
   0x810046b0, -1, 0x81001790, -1, 0x810030e8, -1, 0x81005328, -1, 0x81000378, -1, 0x81000528, -1, 0x81000190, -1, 0x81003e38, -1, 0x810030f0, -1, 0x81002018, -1, 0x81005c78, -1, 0x81000f40, -1, 0x81007b30, -1, 0x81007980, -1, 0x81000608, -1, 0x810054d0, -1,
   0x810075c8, -1, 0x81000928, -1, 0x81007838, -1, 0x81005938, -1, 0x81002698, -1, 0x81003fc8, -1, 0x810071c0, -1, 0x81002f40, -1, 0x810065f8, -1, 0x81007338, -1, 0x81002c88, -1, 0x81005528, -1, 0x810076a0, -1, 0x81002890, -1, 0x81005760, -1, 0x810034a0, -1,
   0x81004720, -1, 0x81001458, -1, 0x81005228, -1, 0x81003000, 48, 0x81000c88, -1, 0x81007e60, -1, 0x81003a68, -1, 0x81003250, -1, 0x810056c8, -1, 0x81005e50, -1, 0x81003a20, -1, 0x81001888, -1, 0x81003ec0, -1, 0x81005f30, -1, 0x81005b60, -1, 0x81006048, -1]"

definition nodes_44 :: "int list" where
  "nodes_44 = [
   0x81000440, -1, 0x81004890, -1, 0x81003a60, -1, 0x81007aa8, -1, 0x810076b8, -1, 0x81000a50, -1, 0x81002770, -1, 0x81002f98, -1, 0x81003270, -1, 0x81000fa8, -1, 0x810042f0, -1, 0x81004098, -1, 0x81001e30, -1, 0x81005818, -1, 0x810028d8, -1, 0x81005b98, -1,
   0x81001928, -1, 0x810035a8, -1, 0x81007330, -1, 0x81006b50, -1, 0x810066e0, -1, 0x81003758, -1, 0x81002158, -1, 0x81006560, -1, 0x810035b8, -1, 0x81007038, -1, 0x81007dd8, -1, 0x81005de8, -1, 0x810049f0, -1, 0x81002508, -1, 0x81005ae0, -1, 0x810010f0, -1,
   0x810051b0, -1, 0x810001f8, -1, 0x81002278, -1, 0x81002660, -1, 0x81004100, 65, 0x81002a40, -1, 0x81006238, -1, 0x810033a0, -1, 0x81001760, -1, 0x81005758, -1, 0x81005c18, -1, 0x810037f8, -1, 0x810022b0, -1, 0x810049c8, -1, 0x810012b0, -1, 0x81006038, -1,
   0x81005d50, -1, 0x810043d8, -1, 0x810033e0, -1, 0x81004728, -1, 0x81003430, -1, 0x81002728, -1, 0x81000088, -1, 0x81000150, -1, 0x810078e8, -1, 0x810005c8, -1, 0x810018e8, -1, 0x810019d8, -1, 0x81004f50, -1, 0x81005770, -1, 0x810041b8, -1, 0x81002020, -1]"

definition nodes_45 :: "int list" where
  "nodes_45 = [
   0x810015a8, -1, 0x810049d0, -1, 0x810027f8, -1, 0x810020d8, -1, 0x81007db8, -1, 0x81004a60, -1, 0x81001b20, -1, 0x810030c0, -1, 0x81006b98, -1, 0x81002db0, -1, 0x81002fb8, -1, 0x81007110, -1, 0x810061f8, -1, 0x81001d18, -1, 0x81007c78, -1, 0x81005348, -1,
   0x810032b8, -1, 0x81000da8, -1, 0x81006260, -1, 0x81001550, -1, 0x81005e08, -1, 0x81001c28, -1, 0x81000958, -1, 0x810057f8, -1, 0x81000270, -1, 0x810020e0, -1, 0x810000a0, -1, 0x81002058, -1, 0x81003588, -1, 0x81001410, -1, 0x81007618, -1, 0x81007900, 121,
   0x810040c8, -1, 0x81004e28, -1, 0x810019f8, -1, 0x810052f8, -1, 0x81002630, -1, 0x81002140, -1, 0x81002d80, -1, 0x810014b8, -1, 0x810028a8, -1, 0x81004a50, -1, 0x81007f28, -1, 0x810044f0, -1, 0x810007f8, -1, 0x81000430, -1, 0x81003fd0, -1, 0x81007268, -1,
   0x81005e30, -1, 0x81002488, -1, 0x810051c8, -1, 0x81000448, -1, 0x81004a18, -1, 0x810021c8, -1, 0x81006b38, -1, 0x810031c0, -1, 0x81000ba0, -1, 0x81002ad8, -1, 0x81001200, 18, 0x81004f00, 79, 0x810046e0, -1, 0x81005138, -1, 0x810000d0, -1, 0x81007ba0, -1]"

definition nodes_46 :: "int list" where
  "nodes_46 = [
   0x81001f80, -1, 0x81000390, -1, 0x81000978, -1, 0x81004a88, -1, 0x810028b0, -1, 0x81006480, -1, 0x81005d60, -1, 0x81003f20, -1, 0x81007460, -1, 0x81007138, -1, 0x81002530, -1, 0x81007210, -1, 0x810003c8, -1, 0x81004638, -1, 0x810054c8, -1, 0x810057d8, -1,
   0x810078a0, -1, 0x81001290, -1, 0x81000410, -1, 0x810013d0, -1, 0x81000a58, -1, 0x81002580, -1, 0x81007c68, -1, 0x81000290, -1, 0x810036e8, -1, 0x81001400, 20, 0x81005878, -1, 0x81004948, -1, 0x810031e8, -1, 0x81006b58, -1, 0x81007ab8, -1, 0x81003fe0, -1,
   0x81002418, -1, 0x81005f60, -1, 0x810027e8, -1, 0x810072d8, -1, 0x810058a8, -1, 0x81002468, -1, 0x81003440, -1, 0x810070a8, -1, 0x81005fe8, -1, 0x81000a38, -1, 0x81006970, -1, 0x81006750, -1, 0x81000420, -1, 0x810059e0, -1, 0x81001960, -1, 0x81002f48, -1,
   0x81005a30, -1, 0x81007790, -1, 0x810038e0, -1, 0x81005028, -1, 0x81000c40, -1, 0x810040d0, -1, 0x81006940, -1, 0x81006140, -1, 0x81002308, -1, 0x810069c8, -1, 0x810079a8, -1, 0x81000718, -1, 0x81005890, -1, 0x810055a8, -1, 0x81006310, -1, 0x81001d68, -1]"

definition nodes_47 :: "int list" where
  "nodes_47 = [
   0x810059a8, -1, 0x81006588, -1, 0x81003188, -1, 0x81001ab0, -1, 0x81004508, -1, 0x810005a0, -1, 0x810000e8, -1, 0x810063f8, -1, 0x810020c8, -1, 0x81004420, -1, 0x81005d88, -1, 0x810058e0, -1, 0x81004aa8, -1, 0x81003040, -1, 0x81002e58, -1, 0x81001ea8, -1,
   0x81000dd8, -1, 0x810007c8, -1, 0x81006808, -1, 0x81004f30, -1, 0x81007320, -1, 0x81004020, -1, 0x81005f10, -1, 0x81005548, -1, 0x810069c0, -1, 0x81004268, -1, 0x810063a0, -1, 0x810068b8, -1, 0x81006bd8, -1, 0x81001c60, -1, 0x810011a0, -1, 0x81001b88, -1,
   0x81002888, -1, 0x81006e18, -1, 0x81005260, -1, 0x810034b8, -1, 0x81006e98, -1, 0x81003300, 51, 0x81007990, -1, 0x81005048, -1, 0x81007538, -1, 0x81005900, 89, 0x810067d0, -1, 0x81002b40, -1, 0x81000938, -1, 0x810009f8, -1, 0x81000ac8, -1, 0x81002e68, -1,
   0x810050c0, -1, 0x81002b50, -1, 0x810005f0, -1, 0x81004360, -1, 0x81003918, -1, 0x810028b8, -1, 0x81006ed8, -1, 0x810013d8, -1, 0x810013a0, -1, 0x810014d8, -1, 0x810015d8, -1, 0x81000348, -1, 0x810070c0, -1, 0x81005ad8, -1, 0x810024d8, -1, 0x81003f68, -1]"

definition nodes_48 :: "int list" where
  "nodes_48 = [
   0x81003870, -1, 0x81005400, 84, 0x81007b38, -1, 0x81005c68, -1, 0x81006d40, -1, 0x81004530, -1, 0x81003320, -1, 0x81001390, -1, 0x81004600, 70, 0x81003c20, -1, 0x81003a98, -1, 0x81004ae0, -1, 0x81004830, -1, 0x81001c90, -1, 0x81006f18, -1, 0x81007d48, -1,
   0x81002ab8, -1, 0x81005198, -1, 0x81004818, -1, 0x81007820, -1, 0x81000d58, -1, 0x81006d68, -1, 0x810048e0, -1, 0x81004630, -1, 0x810065d8, -1, 0x81004428, -1, 0x81006a30, -1, 0x81007b60, -1, 0x81006c78, -1, 0x81001bc0, -1, 0x810025e0, -1, 0x81005620, -1,
   0x81001cb0, -1, 0x81006c40, -1, 0x81003cb0, -1, 0x81001378, -1, 0x81002818, -1, 0x810023e0, -1, 0x81007da8, -1, 0x810021b8, -1, 0x810034b0, -1, 0x81001a88, -1, 0x81001448, -1, 0x81007478, -1, 0x81007a38, -1, 0x81004e38, -1, 0x81006908, -1, 0x81005220, -1,
   0x81007668, -1, 0x81007e70, -1, 0x81001e28, -1, 0x810006b0, -1, 0x810029f8, -1, 0x810064d0, -1, 0x81005580, -1, 0x81001330, -1, 0x810030d8, -1, 0x81003898, -1, 0x81006830, -1, 0x81006880, -1, 0x81003740, -1, 0x810061b0, -1, 0x81006760, -1, 0x810059b8, -1]"

definition nodes_49 :: "int list" where
  "nodes_49 = [
   0x81002c00, 44, 0x81005f00, 95, 0x81002520, -1, 0x81005118, -1, 0x81006690, -1, 0x810040a0, -1, 0x81005db8, -1, 0x81004660, -1, 0x81004e20, -1, 0x81005410, -1, 0x810053a8, -1, 0x81002db8, -1, 0x810021b0, -1, 0x81005968, -1, 0x81007c38, -1, 0x81002d28, -1,
   0x81007e78, -1, 0x81006360, -1, 0x81001198, -1, 0x81005450, -1, 0x81000948, -1, 0x81003a58, -1, 0x81005560, -1, 0x81001d50, -1, 0x81005378, -1, 0x81003d70, -1, 0x81007938, -1, 0x81007150, -1, 0x81004718, -1, 0x81002a28, -1, 0x810014c0, -1, 0x81002af8, -1,
   0x81007450, -1, 0x81006818, -1, 0x81006838, -1, 0x81006968, -1, 0x81002c50, -1, 0x81006798, -1, 0x81004088, -1, 0x81005db0, -1, 0x81004b30, -1, 0x81002fb0, -1, 0x810039e8, -1, 0x810072a8, -1, 0x81000918, -1, 0x81004ba0, -1, 0x810054f0, -1, 0x81003928, -1,
   0x810076c8, -1, 0x810073f0, -1, 0x81002e40, -1, 0x81004378, -1, 0x81005ca0, -1, 0x81001f30, -1, 0x81003978, -1, 0x81003b30, -1, 0x81003360, -1, 0x81007f80, -1, 0x81001150, -1, 0x81005468, -1, 0x810016e8, -1, 0x81006130, -1, 0x81006198, -1, 0x81001e48, -1]"

definition nodes_50 :: "int list" where
  "nodes_50 = [
   0x81007988, -1, 0x81004578, -1, 0x81001940, -1, 0x810036a8, -1, 0x81000c38, -1, 0x81006388, -1, 0x81004558, -1, 0x81000b78, -1, 0x81006b30, -1, 0x810056b0, -1, 0x81006060, -1, 0x810013b0, -1, 0x81003730, -1, 0x81003738, -1, 0x810071e8, -1, 0x81003030, -1,
   0x81000850, -1, 0x81007580, -1, 0x81004658, -1, 0x81004fc0, -1, 0x810077a0, -1, 0x810077e8, -1, 0x81004598, -1, 0x81003dd8, -1, 0x81005a60, -1, 0x81003b70, -1, 0x81006358, -1, 0x81003720, -1, 0x81007920, -1, 0x81004a10, -1, 0x81007ed8, -1, 0x81007650, -1,
   0x81006230, -1, 0x81004fd0, -1, 0x810022a0, -1, 0x810064c0, -1, 0x81003df8, -1, 0x81006f00, 111, 0x81005150, -1, 0x81006620, -1, 0x81004900, 73, 0x81002e88, -1, 0x81007a48, -1, 0x810019f0, -1, 0x81004710, -1, 0x81005cc8, -1, 0x81000b28, -1, 0x81005da0, -1,
   0x81005240, -1, 0x81006748, -1, 0x81005d80, -1, 0x81004860, -1, 0x81006eb0, -1, 0x81005cb0, -1, 0x81004f80, -1, 0x81007568, -1, 0x81000278, -1, 0x81001dc8, -1, 0x81005960, -1, 0x81007928, -1, 0x81005e70, -1, 0x81004850, -1, 0x810009e8, -1, 0x810073f8, -1]"

definition nodes_51 :: "int list" where
  "nodes_51 = [
   0x81004ee8, -1, 0x810057d0, -1, 0x81006758, -1, 0x81000878, -1, 0x81006190, -1, 0x810075a0, -1, 0x810029c0, -1, 0x81003318, -1, 0x81002e18, -1, 0x810029a0, -1, 0x81007b48, -1, 0x81004ed0, -1, 0x81004e80, -1, 0x81000330, -1, 0x810057f0, -1, 0x81006518, -1,
   0x810008d0, -1, 0x81006118, -1, 0x81005a90, -1, 0x81006c30, -1, 0x81000bb8, -1, 0x810064e8, -1, 0x81000a18, -1, 0x810066a0, -1, 0x810023f0, -1, 0x81000890, -1, 0x81006be8, -1, 0x81002b98, -1, 0x810036e0, -1, 0x81005998, -1, 0x81007738, -1, 0x81005068, -1,
   0x81006468, -1, 0x810013b8, -1, 0x810049b8, -1, 0x81002690, -1, 0x810011a8, -1, 0x810062f0, -1, 0x810004b8, -1, 0x810016e0, -1, 0x81001230, -1, 0x81002830, -1, 0x81005fc8, -1, 0x81003b00, 59, 0x81006700, 103, 0x810004e0, -1, 0x810015e8, -1, 0x81007628, -1,
   0x81004160, -1, 0x81005128, -1, 0x81003830, -1, 0x810048a8, -1, 0x81001e10, -1, 0x81002188, -1, 0x81006ee0, -1, 0x81007c08, -1, 0x81007b18, -1, 0x81007700, 119, 0x81002bf8, -1, 0x81002860, -1, 0x81004ff0, -1, 0x81000030, -1, 0x81004c00, 76, 0x81000738, -1]"

definition nodes_52 :: "int list" where
  "nodes_52 = [
   0x81002b18, -1, 0x81005928, -1, 0x810073b8, -1, 0x81000e88, -1, 0x81005840, -1, 0x810069d0, -1, 0x81000220, -1, 0x81000070, -1, 0x81006848, -1, 0x81006400, 100, 0x81005b50, -1, 0x810064a0, -1, 0x81007810, -1, 0x81003298, -1, 0x81001c68, -1, 0x81005ba8, -1,
   0x81001e90, -1, 0x81005b08, -1, 0x81005c98, -1, 0x81006088, -1, 0x81007200, 114, 0x810041e8, -1, 0x81003428, -1, 0x81003cd0, -1, 0x81003668, -1, 0x810074c0, -1, 0x81004468, -1, 0x81006db0, -1, 0x81003ca8, -1, 0x81004210, -1, 0x81004d00, 77, 0x81001e78, -1,
   0x81005f20, -1, 0x81004150, -1, 0x81006860, -1, 0x810042d8, -1, 0x810056e0, -1, 0x81003860, -1, 0x810006c8, -1, 0x81002218, -1, 0x81007b90, -1, 0x81007d30, -1, 0x81002f58, -1, 0x810010f8, -1, 0x81004fa8, -1, 0x81000e00, 14, 0x81001ec0, -1, 0x810053c0, -1,
   0x81001460, -1, 0x81005b38, -1, 0x81004ee0, -1, 0x81003e60, -1, 0x81007800, 120, 0x810069a0, -1, 0x810055f8, -1, 0x81007e08, -1, 0x81005cd8, -1, 0x810027c8, -1, 0x81003fa0, -1, 0x81006410, -1, 0x81000cc8, -1, 0x810064e0, -1, 0x81003060, -1, 0x810032a8, -1]"

definition nodes_53 :: "int list" where
  "nodes_53 = [
   0x810069e8, -1, 0x81005cb8, -1, 0x81002720, -1, 0x810065e0, -1, 0x81000c58, -1, 0x81004740, -1, 0x81006b20, -1, 0x81002c20, -1, 0x810012d8, -1, 0x81005790, -1, 0x810038b8, -1, 0x81002bc0, -1, 0x81004f10, -1, 0x81003c00, 60, 0x81004f40, -1, 0x81001598, -1,
   0x81007010, -1, 0x81001db8, -1, 0x81004ca8, -1, 0x81005658, -1, 0x810059e8, -1, 0x81007978, -1, 0x81005830, -1, 0x81001d10, -1, 0x81003f48, -1, 0x81001cd8, -1, 0x81004f58, -1, 0x810071c8, -1, 0x81002240, -1, 0x81006f10, -1, 0x81000e18, -1, 0x810056e8, -1,
   0x81007428, -1, 0x810026a8, -1, 0x81004d78, -1, 0x810077f8, -1, 0x810037c0, -1, 0x81001100, 17, 0x81001860, -1, 0x81007350, -1, 0x81002d70, -1, 0x81004560, -1, 0x81000700, 7, 0x810063e0, -1, 0x810002f8, -1, 0x81003530, -1, 0x81001c08, -1, 0x81000498, -1,
   0x810036f0, -1, 0x81000148, -1, 0x810005b0, -1, 0x81000ad8, -1, 0x81000798, -1, 0x810006a8, -1, 0x81006d58, -1, 0x81001348, -1, 0x81005700, 87, 0x81000c60, -1, 0x810038a8, -1, 0x81004eb0, -1, 0x81002fc8, -1, 0x81000a28, -1, 0x81004a30, -1, 0x81000250, -1]"

definition nodes_54 :: "int list" where
  "nodes_54 = [
   0x81007018, -1, 0x81002fe0, -1, 0x81002b70, -1, 0x810079c0, -1, 0x81004960, -1, 0x810030d0, -1, 0x81007cf8, -1, 0x81007a80, -1, 0x81006668, -1, 0x81002fd8, -1, 0x81001450, -1, 0x810021e8, -1, 0x81007040, -1, 0x81007340, -1, 0x810004a8, -1, 0x81003bf8, -1,
   0x81003e18, -1, 0x81007c40, -1, 0x81004ec8, -1, 0x81003c98, -1, 0x81002060, -1, 0x810024e8, -1, 0x81002820, -1, 0x81004250, -1, 0x81007ce8, -1, 0x81007c28, -1, 0x810066c0, -1, 0x81000210, -1, 0x81001090, -1, 0x81004990, -1, 0x810041c0, -1, 0x810071a0, -1,
   0x81000888, -1, 0x81002df0, -1, 0x810036a0, -1, 0x81003e90, -1, 0x81000650, -1, 0x81004c48, -1, 0x81000398, -1, 0x81003878, -1, 0x810001b8, -1, 0x81001a38, -1, 0x81002498, -1, 0x810070b0, -1, 0x81007718, -1, 0x810014a8, -1, 0x81007620, -1, 0x81003850, -1,
   0x81006b88, -1, 0x810074e0, -1, 0x810032d8, -1, 0x81004898, -1, 0x81006348, -1, 0x810025e8, -1, 0x81004030, -1, 0x81006af0, -1, 0x81006a98, -1, 0x81003c68, -1, 0x81001018, -1, 0x81006e48, -1, 0x81005370, -1, 0x81002f28, -1, 0x81001af8, -1, 0x81003210, -1]"

definition nodes_55 :: "int list" where
  "nodes_55 = [
   0x81006d50, -1, 0x81002d38, -1, 0x81005480, -1, 0x810070c8, -1, 0x81007a50, -1, 0x810005b8, -1, 0x81005668, -1, 0x81003268, -1, 0x81002a20, -1, 0x81000a08, -1, 0x81005888, -1, 0x810031f8, -1, 0x81006fa8, -1, 0x81000838, -1, 0x81007f18, -1, 0x81003408, -1,
   0x81005780, -1, 0x810000d8, -1, 0x81002b60, -1, 0x81005f48, -1, 0x81005bb0, -1, 0x81003e88, -1, 0x81004c80, -1, 0x810011e8, -1, 0x81003660, -1, 0x810072e8, -1, 0x81001580, -1, 0x81003dc8, -1, 0x810052c8, -1, 0x81003f40, -1, 0x81000be0, -1, 0x810034d8, -1,
   0x81005a40, -1, 0x810043e8, -1, 0x810057a0, -1, 0x81006bf0, -1, 0x81001a10, -1, 0x81000d48, -1, 0x81001828, -1, 0x810029d0, -1, 0x81001a70, -1, 0x810076e0, -1, 0x81005908, -1, 0x810072f8, -1, 0x81007728, -1, 0x81004b60, -1, 0x81004518, -1, 0x810041e0, -1,
   0x810059d8, -1, 0x81005290, -1, 0x81003278, -1, 0x81000880, -1, 0x81002938, -1, 0x81004fe8, -1, 0x81006318, -1, 0x81005488, -1, 0x81003750, -1, 0x81002a70, -1, 0x81006110, -1, 0x810026e0, -1, 0x810050b8, -1, 0x81003cb8, -1, 0x81001800, 24, 0x810049d8, -1]"

definition nodes_56 :: "int list" where
  "nodes_56 = [
   0x81004cb0, -1, 0x810001f0, -1, 0x81003a88, -1, 0x81005078, -1, 0x81002760, -1, 0x81003020, -1, 0x81006c08, -1, 0x81002f68, -1, 0x81003fa8, -1, 0x81001f10, -1, 0x81002e78, -1, 0x810012c0, -1, 0x810043a8, -1, 0x81005f28, -1, 0x81006d18, -1, 0x81002968, -1,
   0x81000fd0, -1, 0x81007e38, -1, 0x81000908, -1, 0x81006228, -1, 0x81004fd8, -1, 0x81000ce8, -1, 0x810068f0, -1, 0x81000cf0, -1, 0x81000a68, -1, 0x81005880, -1, 0x810075f0, -1, 0x81003420, -1, 0x81006438, -1, 0x81000438, -1, 0x81004a00, 74, 0x81007300, 115,
   0x81006c68, -1, 0x81000240, -1, 0x810068d0, -1, 0x81005ae8, -1, 0x81002a98, -1, 0x81000cd0, -1, 0x810012e0, -1, 0x81001630, -1, 0x810054c0, -1, 0x81005490, -1, 0x810007e0, -1, 0x81000d18, -1, 0x81002e60, -1, 0x810079a0, -1, 0x81005680, -1, 0x810060f8, -1,
   0x810062d8, -1, 0x81005498, -1, 0x81005c30, -1, 0x81006448, -1, 0x81006b90, -1, 0x81004120, -1, 0x81007950, -1, 0x81002358, -1, 0x810000b0, -1, 0x810021d0, -1, 0x81004028, -1, 0x81004fe0, -1, 0x81001e18, -1, 0x81006ee8, -1, 0x81001740, -1, 0x81000970, -1]"

definition nodes_57 :: "int list" where
  "nodes_57 = [
   0x81000c50, -1, 0x81003610, -1, 0x81003190, -1, 0x81000ea8, -1, 0x810067f0, -1, 0x81001fc0, -1, 0x81002658, -1, 0x810076b0, -1, 0x81004640, -1, 0x81007770, -1, 0x81003a08, -1, 0x81007008, -1, 0x81005fe0, -1, 0x81005f58, -1, 0x81005188, -1, 0x81007698, -1,
   0x81006b00, 107, 0x81003ce8, -1, 0x81002ac0, -1, 0x81004f20, -1, 0x810010d0, -1, 0x81002fc0, -1, 0x81001b18, -1, 0x81003998, -1, 0x81007578, -1, 0x810055a0, -1, 0x81006ab0, -1, 0x81006b48, -1, 0x81000488, -1, 0x810071f0, -1, 0x81000bd0, -1, 0x81001c38, -1,
   0x81004550, -1, 0x81005b48, -1, 0x81007298, -1, 0x81003e98, -1, 0x81000648, -1, 0x810007a8, -1, 0x81005a88, -1, 0x81001ec8, -1, 0x81007ff8, -1, 0x81002868, -1, 0x81004218, -1, 0x810015b0, -1, 0x81007d10, -1, 0x810046f8, -1, 0x81002b10, -1, 0x81006d10, -1,
   0x81001d98, -1, 0x81002810, -1, 0x81006218, -1, 0x81007370, -1, 0x810019c8, -1, 0x81000138, -1, 0x81000848, -1, 0x81007e58, -1, 0x81002ea0, -1, 0x81001778, -1, 0x810043c0, -1, 0x81005c50, -1, 0x810027b8, -1, 0x81001318, -1, 0x810048c8, -1, 0x81001078, -1]"

definition nodes_58 :: "int list" where
  "nodes_58 = [
   0x81003f50, -1, 0x81003cc8, -1, 0x81000778, -1, 0x810074d0, -1, 0x81007fb0, -1, 0x810078d8, -1, 0x810003d0, -1, 0x81000670, -1, 0x81006eb8, -1, 0x81007a70, -1, 0x810020d0, -1, 0x81000c48, -1, 0x81001498, -1, 0x81006220, -1, 0x810059b0, -1, 0x81005160, -1,
   0x810020f0, -1, 0x81003a90, -1, 0x81001188, -1, 0x810073d0, -1, 0x81000388, -1, 0x810079d8, -1, 0x81004520, -1, 0x81004bd8, -1, 0x810002e8, -1, 0x81004c50, -1, 0x810076e8, -1, 0x81003e78, -1, 0x81001f68, -1, 0x810075d0, -1, 0x81005630, -1, 0x810068a0, -1,
   0x81002a78, -1, 0x810068c8, -1, 0x810036c0, -1, 0x81006e88, -1, 0x81005868, -1, 0x810062b0, -1, 0x81000eb0, -1, 0x81003ad8, -1, 0x810054f8, -1, 0x81005470, -1, 0x81001560, -1, 0x81001428, -1, 0x81001028, -1, 0x810013c0, -1, 0x810006b8, -1, 0x81000aa0, -1,
   0x81004220, -1, 0x810050d0, -1, 0x81007788, -1, 0x81006fd0, -1, 0x81006e78, -1, 0x810044c8, -1, 0x81000078, -1, 0x81000208, -1, 0x81003160, -1, 0x81000d60, -1, 0x81001980, -1, 0x81001a90, -1, 0x810035c8, -1, 0x810020b8, -1, 0x81004440, -1, 0x81005518, -1]"

definition nodes_59 :: "int list" where
  "nodes_59 = [
   0x81000f50, -1, 0x81001b50, -1, 0x81007448, -1, 0x810079f8, -1, 0x81005dc0, -1, 0x810035e0, -1, 0x81003e68, -1, 0x81005b10, -1, 0x81004f48, -1, 0x81006ea8, -1, 0x810020e8, -1, 0x81004650, -1, 0x81003820, -1, 0x81005678, -1, 0x81007828, -1, 0x81003480, -1,
   0x81001bd8, -1, 0x81004838, -1, 0x81004260, -1, 0x81003aa0, -1, 0x81001ef8, -1, 0x81003fc0, -1, 0x81004a38, -1, 0x810035d0, -1, 0x81005f90, -1, 0x81005bd0, -1, 0x81007360, -1, 0x810037f0, -1, 0x81007b10, -1, 0x810049f8, -1, 0x81001728, -1, 0x81007468, -1,
   0x810074c8, -1, 0x810032c0, -1, 0x81007d38, -1, 0x810075f8, -1, 0x81006540, -1, 0x81001a30, -1, 0x81003d58, -1, 0x81002878, -1, 0x810037e8, -1, 0x81003620, -1, 0x81000690, -1, 0x81002160, -1, 0x81006688, -1, 0x81000698, -1, 0x81002268, -1, 0x810076f8, -1,
   0x81001730, -1, 0x81006c10, -1, 0x81000d98, -1, 0x81005690, -1, 0x810042c8, -1, 0x81006ab8, -1, 0x810053d0, -1, 0x81006990, -1, 0x810062c8, -1, 0x81001320, -1, 0x81003d90, -1, 0x810008d8, -1, 0x810078c0, -1, 0x810062f8, -1, 0x81000830, -1, 0x81007488, -1]"

definition nodes_60 :: "int list" where
  "nodes_60 = [
   0x81001b70, -1, 0x81002898, -1, 0x81000cb0, -1, 0x81001d78, -1, 0x81002940, -1, 0x81002fe8, -1, 0x810063a8, -1, 0x81006ac8, -1, 0x81006fc8, -1, 0x810006d8, -1, 0x81006550, -1, 0x81002700, 39, 0x81004610, -1, 0x810017a0, -1, 0x81001fb8, -1, 0x81007388, -1,
   0x81006280, -1, 0x81004670, -1, 0x81002cb0, -1, 0x81006ef8, -1, 0x81005b58, -1, 0x81007028, -1, 0x81003b10, -1, 0x81001128, -1, 0x810031a8, -1, 0x81001358, -1, 0x81001578, -1, 0x81002128, -1, 0x81003810, -1, 0x81005728, -1, 0x81007438, -1, 0x810042d0, -1,
   0x81000258, -1, 0x81003018, -1, 0x810019b8, -1, 0x81006fb0, -1, 0x81003900, 57, 0x81007e28, -1, 0x81001f90, -1, 0x810050e8, -1, 0x81003688, -1, 0x810009d0, -1, 0x81005740, -1, 0x810056d8, -1, 0x81005d40, -1, 0x81000aa8, -1, 0x810009f0, -1, 0x81005248, -1,
   0x810033c8, -1, 0x81005ad0, -1, 0x81004980, -1, 0x81006ae0, -1, 0x81007b28, -1, 0x81001950, -1, 0x81003240, -1, 0x81001ea0, -1, 0x81002d00, 45, 0x810077c0, -1, 0x810058a0, -1, 0x81001ad0, -1, 0x810040a8, -1, 0x81002900, 41, 0x81001350, -1, 0x81000a10, -1]"

definition nodes_61 :: "int list" where
  "nodes_61 = [
   0x81003238, -1, 0x81007958, -1, 0x81004920, -1, 0x81001a20, -1, 0x81006b10, -1, 0x81001958, -1, 0x81001540, -1, 0x81002840, -1, 0x81001a98, -1, 0x81000660, -1, 0x81004588, -1, 0x81000988, -1, 0x81001048, -1, 0x810072c0, -1, 0x81002568, -1, 0x81005c28, -1,
   0x810037c8, -1, 0x81001fa8, -1, 0x81002540, -1, 0x810050a0, -1, 0x81007a30, -1, 0x81001c20, -1, 0x81002a38, -1, 0x81001140, -1, 0x81003ef0, -1, 0x81000228, -1, 0x81007240, -1, 0x81003930, -1, 0x81000100, 1, 0x81000518, -1, 0x810075b8, -1, 0x81000ee0, -1,
   0x81003290, -1, 0x810072e0, -1, 0x810048d0, -1, 0x81000e78, -1, 0x81005e58, -1, 0x81006a18, -1, 0x81004540, -1, 0x81003cc0, -1, 0x810001a0, -1, 0x81002400, 36, 0x81000950, -1, 0x81000728, -1, 0x81007a00, 122, 0x81000a80, -1, 0x81004ea8, -1, 0x810048f0, -1,
   0x810011f8, -1, 0x81007bf8, -1, 0x81006648, -1, 0x81006730, -1, 0x81005f50, -1, 0x810078b0, -1, 0x810011c8, -1, 0x81006be0, -1, 0x81006080, -1, 0x81006cd0, -1, 0x81006f48, -1, 0x81006a88, -1, 0x81007d68, -1, 0x810078a8, -1, 0x81004298, -1, 0x81006138, -1]"

definition nodes_62 :: "int list" where
  "nodes_62 = [
   0x81002b88, -1, 0x81003b80, -1, 0x81002480, -1, 0x81001c48, -1, 0x81002318, -1, 0x81001be0, -1, 0x810069f0, -1, 0x81006418, -1, 0x81003c88, -1, 0x81004ac8, -1, 0x810058f0, -1, 0x81006900, 105, 0x810044a8, -1, 0x81002650, -1, 0x81006258, -1, 0x81007f88, -1,
   0x81003818, -1, 0x810046a0, -1, 0x81002258, -1, 0x81005f98, -1, 0x81000730, -1, 0x810007d0, -1, 0x81000530, -1, 0x81004a28, -1, 0x81002dd0, -1, 0x81002bf0, -1, 0x81005440, -1, 0x81002220, -1, 0x81006cc8, -1, 0x810043a0, -1, 0x81007968, -1, 0x81007c20, -1,
   0x81001c70, -1, 0x81005d00, 93, 0x810052e8, -1, 0x81000d28, -1, 0x810012c8, -1, 0x81007970, -1, 0x81004870, -1, 0x81005018, -1, 0x81004d30, -1, 0x81000040, -1, 0x81006610, -1, 0x81006a28, -1, 0x81003038, -1, 0x81002850, -1, 0x81003478, -1, 0x81002c58, -1,
   0x81002d88, -1, 0x81001a48, -1, 0x81004df8, -1, 0x81001da8, -1, 0x81001738, -1, 0x810023b8, -1, 0x810071b0, -1, 0x81005948, -1, 0x810010b0, -1, 0x81003950, -1, 0x81006c28, -1, 0x81007570, -1, 0x81006e20, -1, 0x81005d18, -1, 0x81007a78, -1, 0x81006f70, -1]"

definition nodes_63 :: "int list" where
  "nodes_63 = [
   0x81007fe0, -1, 0x81001420, -1, 0x81000f80, -1, 0x81001138, -1, 0x810022d0, -1, 0x81001a80, -1, 0x810075d8, -1, 0x81002ab0, -1, 0x810067f8, -1, 0x81003f78, -1, 0x81003728, -1, 0x810060d0, -1, 0x810001d8, -1, 0x81001ac0, -1, 0x81007e98, -1, 0x81007380, -1,
   0x81005588, -1, 0x810077d0, -1, 0x81004620, -1, 0x810001b0, -1, 0x81002ef8, -1, 0x81005f88, -1, 0x81007868, -1, 0x81001038, -1, 0x81003ab8, -1, 0x81001f18, -1, 0x81002550, -1, 0x810024c0, -1, 0x810058c0, -1, 0x81001770, -1, 0x810010c8, -1, 0x81005988, -1,
   0x81004c88, -1, 0x810021e0, -1, 0x81005e88, -1, 0x810053c8, -1, 0x810079e0, -1, 0x81000e28, -1, 0x81005788, -1, 0x81004db0, -1, 0x81007c88, -1, 0x810026d0, -1, 0x81001228, -1, 0x81002828, -1, 0x81004858, -1, 0x81007ff0, -1, 0x81003580, -1, 0x81003eb0, -1,
   0x81005a70, -1, 0x810072b8, -1, 0x81006530, -1, 0x81000510, -1, 0x81006c50, -1, 0x81003fd8, -1, 0x81002d30, -1, 0x81007708, -1, 0x81004cb8, -1, 0x81000248, -1, 0x81001408, -1, 0x81006520, -1, 0x81000960, -1, 0x81001440, -1, 0x810055b8, -1, 0x81000000, 0]"

definition nodes :: "int list" where
  "nodes = nodes_0 @ nodes_1 @ nodes_2 @ nodes_3 @ nodes_4 @ nodes_5 @ nodes_6 @ nodes_7 @ nodes_8 @ nodes_9 @ nodes_10 @ nodes_11 @ nodes_12 @ nodes_13 @ nodes_14 @ nodes_15 @ nodes_16 @ nodes_17 @ nodes_18 @ nodes_19 @ nodes_20 @ nodes_21 @ nodes_22 @ nodes_23 @ nodes_24 @ nodes_25 @ nodes_26 @ nodes_27 @ nodes_28 @ nodes_29 @ nodes_30 @ nodes_31 @ nodes_32 @ nodes_33 @ nodes_34 @ nodes_35 @ nodes_36 @ nodes_37 @ nodes_38 @ nodes_39 @ nodes_40 @ nodes_41 @ nodes_42 @ nodes_43 @ nodes_44 @ nodes_45 @ nodes_46 @ nodes_47 @ nodes_48 @ nodes_49 @ nodes_50 @ nodes_51 @ nodes_52 @ nodes_53 @ nodes_54 @ nodes_55 @ nodes_56 @ nodes_57 @ nodes_58 @ nodes_59 @ nodes_60 @ nodes_61 @ nodes_62 @ nodes_63"

section \<open>Numberings of the nodes\<close>

datatype trie = Lf int | Nd trie trie

fun look :: "trie \<Rightarrow> int \<Rightarrow> int" where
  "look (Lf v) a = v"
| "look (Nd l r) a = (if even a then look l (a div 2) else look r (a div 2))"

definition chase_pos_0 :: trie where
  "chase_pos_0 =
   Nd (Nd (Nd (Nd (Nd (Nd (Lf 0) (Lf 766)) (Nd (Lf 918) (Lf 154))) (Nd (Nd (Lf 614) (Lf 769)) (Nd (Lf 600) (Lf
   192)))) (Nd (Nd (Nd (Lf 214) (Lf 362)) (Nd (Lf 1017) (Lf 102))) (Nd (Nd (Lf 112) (Lf 542)) (Nd (Lf 933) (Lf
   874))))) (Nd (Nd (Nd (Nd (Lf 7) (Lf 804)) (Nd (Lf 768) (Lf 623))) (Nd (Nd (Lf 336) (Lf 869)) (Nd (Lf 539)
   (Lf 901)))) (Nd (Nd (Nd (Lf 435) (Lf 588)) (Nd (Lf 395) (Lf 213))) (Nd (Nd (Lf 891) (Lf 854)) (Nd (Lf 187)
   (Lf 138)))))) (Nd (Nd (Nd (Nd (Nd (Lf 236) (Lf 851)) (Nd (Lf 316) (Lf 232))) (Nd (Nd (Lf 33) (Lf 859)) (Nd
   (Lf 425) (Lf 727)))) (Nd (Nd (Nd (Lf 681) (Lf 267)) (Nd (Lf 621) (Lf 755))) (Nd (Nd (Lf 1011) (Lf 335)) (Nd
   (Lf 432) (Lf 557))))) (Nd (Nd (Nd (Nd (Lf 494) (Lf 260)) (Nd (Lf 837) (Lf 680))) (Nd (Nd (Lf 155) (Lf 814))
   (Nd (Lf 678) (Lf 790)))) (Nd (Nd (Nd (Lf 904) (Lf 320)) (Nd (Lf 77) (Lf 817))) (Nd (Nd (Lf 713) (Lf 989))
   (Nd (Lf 262) (Lf 397))))))"

definition chase_pos_1 :: trie where
  "chase_pos_1 =
   Nd (Nd (Nd (Nd (Nd (Nd (Lf 579) (Lf 195)) (Nd (Lf 415) (Lf 400))) (Nd (Nd (Lf 580) (Lf 74)) (Nd (Lf 50) (Lf
   819)))) (Nd (Nd (Nd (Lf 447) (Lf 67)) (Nd (Lf 2) (Lf 871))) (Nd (Nd (Lf 1016) (Lf 618)) (Nd (Lf 619) (Lf
   185))))) (Nd (Nd (Nd (Nd (Lf 741) (Lf 317)) (Nd (Lf 401) (Lf 474))) (Nd (Nd (Lf 522) (Lf 49)) (Nd (Lf 468)
   (Lf 419)))) (Nd (Nd (Nd (Lf 180) (Lf 927)) (Nd (Lf 936) (Lf 1021))) (Nd (Nd (Lf 613) (Lf 66)) (Nd (Lf 367)
   (Lf 264)))))) (Nd (Nd (Nd (Nd (Nd (Lf 235) (Lf 294)) (Nd (Lf 739) (Lf 1006))) (Nd (Nd (Lf 696) (Lf 259))
   (Nd (Lf 982) (Lf 179)))) (Nd (Nd (Nd (Lf 15) (Lf 470)) (Nd (Lf 273) (Lf 445))) (Nd (Nd (Lf 862) (Lf 12))
   (Nd (Lf 285) (Lf 101))))) (Nd (Nd (Nd (Nd (Lf 981) (Lf 139)) (Nd (Lf 969) (Lf 483))) (Nd (Nd (Lf 161) (Lf
   505)) (Nd (Lf 296) (Lf 980)))) (Nd (Nd (Nd (Lf 145) (Lf 593)) (Nd (Lf 992) (Lf 706))) (Nd (Nd (Lf 645) (Lf
   466)) (Nd (Lf 735) (Lf 82))))))"

definition chase_pos_2 :: trie where
  "chase_pos_2 =
   Nd (Nd (Nd (Nd (Nd (Nd (Lf 892) (Lf 691)) (Nd (Lf 777) (Lf 979))) (Nd (Nd (Lf 428) (Lf 746)) (Nd (Lf 38)
   (Lf 84)))) (Nd (Nd (Nd (Lf 762) (Lf 60)) (Nd (Lf 1001) (Lf 941))) (Nd (Nd (Lf 849) (Lf 118)) (Nd (Lf 64)
   (Lf 168))))) (Nd (Nd (Nd (Nd (Lf 835) (Lf 609)) (Nd (Lf 703) (Lf 39))) (Nd (Nd (Lf 659) (Lf 1002)) (Nd (Lf
   191) (Lf 765)))) (Nd (Nd (Nd (Lf 836) (Lf 518)) (Nd (Lf 410) (Lf 295))) (Nd (Nd (Lf 594) (Lf 640)) (Nd (Lf
   585) (Lf 787)))))) (Nd (Nd (Nd (Nd (Nd (Lf 875) (Lf 813)) (Nd (Lf 455) (Lf 14))) (Nd (Nd (Lf 838) (Lf 996))
   (Nd (Lf 807) (Lf 128)))) (Nd (Nd (Nd (Lf 744) (Lf 324)) (Nd (Lf 479) (Lf 990))) (Nd (Nd (Lf 723) (Lf 909))
   (Nd (Lf 286) (Lf 178))))) (Nd (Nd (Nd (Nd (Lf 752) (Lf 453)) (Nd (Lf 281) (Lf 527))) (Nd (Nd (Lf 63) (Lf
   721)) (Nd (Lf 237) (Lf 436)))) (Nd (Nd (Nd (Lf 868) (Lf 249)) (Nd (Lf 683) (Lf 73))) (Nd (Nd (Lf 409) (Lf
   437)) (Nd (Lf 107) (Lf 19))))))"

definition chase_pos_3 :: trie where
  "chase_pos_3 =
   Nd (Nd (Nd (Nd (Nd (Nd (Lf 961) (Lf 845)) (Nd (Lf 708) (Lf 225))) (Nd (Nd (Lf 58) (Lf 183)) (Nd (Lf 834)
   (Lf 355)))) (Nd (Nd (Nd (Lf 951) (Lf 858)) (Nd (Lf 767) (Lf 509))) (Nd (Nd (Lf 574) (Lf 913)) (Nd (Lf 1012)
   (Lf 763))))) (Nd (Nd (Nd (Nd (Lf 637) (Lf 865)) (Nd (Lf 663) (Lf 405))) (Nd (Nd (Lf 648) (Lf 450)) (Nd (Lf
   591) (Lf 193)))) (Nd (Nd (Nd (Lf 962) (Lf 375)) (Nd (Lf 864) (Lf 698))) (Nd (Nd (Lf 116) (Lf 130)) (Nd (Lf
   129) (Lf 896)))))) (Nd (Nd (Nd (Nd (Nd (Lf 632) (Lf 863)) (Nd (Lf 201) (Lf 117))) (Nd (Nd (Lf 104) (Lf
   279)) (Nd (Lf 407) (Lf 52)))) (Nd (Nd (Nd (Lf 686) (Lf 489)) (Nd (Lf 604) (Lf 740))) (Nd (Nd (Lf 608) (Lf
   965)) (Nd (Lf 685) (Lf 900))))) (Nd (Nd (Nd (Nd (Lf 368) (Lf 1000)) (Nd (Lf 784) (Lf 592))) (Nd (Nd (Lf 26)
   (Lf 1018)) (Nd (Lf 177) (Lf 263)))) (Nd (Nd (Nd (Lf 785) (Lf 919)) (Nd (Lf 277) (Lf 758))) (Nd (Nd (Lf 488)
   (Lf 668)) (Nd (Lf 820) (Lf 831))))))"

definition chase_pos_4 :: trie where
  "chase_pos_4 =
   Nd (Nd (Nd (Nd (Nd (Nd (Lf 665) (Lf 546)) (Nd (Lf 408) (Lf 677))) (Nd (Nd (Lf 223) (Lf 690)) (Nd (Lf 171)
   (Lf 184)))) (Nd (Nd (Nd (Lf 675) (Lf 496)) (Nd (Lf 617) (Lf 199))) (Nd (Nd (Lf 196) (Lf 141)) (Nd (Lf 963)
   (Lf 774))))) (Nd (Nd (Nd (Nd (Lf 312) (Lf 326)) (Nd (Lf 388) (Lf 624))) (Nd (Nd (Lf 93) (Lf 515)) (Nd (Lf
   643) (Lf 322)))) (Nd (Nd (Nd (Lf 471) (Lf 547)) (Nd (Lf 394) (Lf 711))) (Nd (Nd (Lf 20) (Lf 254)) (Nd (Lf
   226) (Lf 420)))))) (Nd (Nd (Nd (Nd (Nd (Lf 162) (Lf 75)) (Nd (Lf 478) (Lf 679))) (Nd (Nd (Lf 633) (Lf 988))
   (Nd (Lf 315) (Lf 911)))) (Nd (Nd (Nd (Lf 888) (Lf 568)) (Nd (Lf 960) (Lf 775))) (Nd (Nd (Lf 95) (Lf 462))
   (Nd (Lf 654) (Lf 454))))) (Nd (Nd (Nd (Nd (Lf 383) (Lf 218)) (Nd (Lf 764) (Lf 781))) (Nd (Nd (Lf 950) (Lf
   731)) (Nd (Lf 341) (Lf 958)))) (Nd (Nd (Nd (Lf 227) (Lf 566)) (Nd (Lf 4) (Lf 565))) (Nd (Nd (Lf 656) (Lf
   877)) (Nd (Lf 476) (Lf 477))))))"

definition chase_pos_5 :: trie where
  "chase_pos_5 =
   Nd (Nd (Nd (Nd (Nd (Nd (Lf 292) (Lf 492)) (Nd (Lf 503) (Lf 290))) (Nd (Nd (Lf 789) (Lf 371)) (Nd (Lf 274)
   (Lf 556)))) (Nd (Nd (Nd (Lf 31) (Lf 413)) (Nd (Lf 853) (Lf 529))) (Nd (Nd (Lf 25) (Lf 537)) (Nd (Lf 133)
   (Lf 377))))) (Nd (Nd (Nd (Nd (Lf 757) (Lf 733)) (Nd (Lf 935) (Lf 446))) (Nd (Nd (Lf 354) (Lf 499)) (Nd (Lf
   914) (Lf 386)))) (Nd (Nd (Nd (Lf 908) (Lf 431)) (Nd (Lf 538) (Lf 224))) (Nd (Nd (Lf 89) (Lf 655)) (Nd (Lf
   352) (Lf 584)))))) (Nd (Nd (Nd (Nd (Nd (Lf 516) (Lf 955)) (Nd (Lf 166) (Lf 308))) (Nd (Nd (Lf 174) (Lf
   917)) (Nd (Lf 553) (Lf 251)))) (Nd (Nd (Nd (Lf 78) (Lf 806)) (Nd (Lf 203) (Lf 442))) (Nd (Nd (Lf 206) (Lf
   737)) (Nd (Lf 426) (Lf 280))))) (Nd (Nd (Nd (Nd (Lf 268) (Lf 131)) (Nd (Lf 122) (Lf 65))) (Nd (Nd (Lf 398)
   (Lf 164)) (Nd (Lf 229) (Lf 800)))) (Nd (Nd (Nd (Lf 543) (Lf 498)) (Nd (Lf 873) (Lf 319))) (Nd (Nd (Lf 47)
   (Lf 861)) (Nd (Lf 824) (Lf 628))))))"

definition chase_pos_6 :: trie where
  "chase_pos_6 =
   Nd (Nd (Nd (Nd (Nd (Nd (Lf 127) (Lf 304)) (Nd (Lf 641) (Lf 451))) (Nd (Nd (Lf 297) (Lf 563)) (Nd (Lf 1014)
   (Lf 682)))) (Nd (Nd (Nd (Lf 86) (Lf 736)) (Nd (Lf 644) (Lf 109))) (Nd (Nd (Lf 406) (Lf 344)) (Nd (Lf 485)
   (Lf 533))))) (Nd (Nd (Nd (Nd (Lf 211) (Lf 809)) (Nd (Lf 441) (Lf 246))) (Nd (Nd (Lf 575) (Lf 217)) (Nd (Lf
   140) (Lf 771)))) (Nd (Nd (Nd (Lf 18) (Lf 630)) (Nd (Lf 346) (Lf 384))) (Nd (Nd (Lf 465) (Lf 715)) (Nd (Lf
   358) (Lf 36)))))) (Nd (Nd (Nd (Nd (Nd (Lf 305) (Lf 828)) (Nd (Lf 309) (Lf 560))) (Nd (Nd (Lf 186) (Lf 134))
   (Nd (Lf 76) (Lf 670)))) (Nd (Nd (Nd (Lf 124) (Lf 366)) (Nd (Lf 150) (Lf 526))) (Nd (Nd (Lf 943) (Lf 181))
   (Nd (Lf 629) (Lf 188))))) (Nd (Nd (Nd (Nd (Lf 169) (Lf 902)) (Nd (Lf 572) (Lf 114))) (Nd (Nd (Lf 158) (Lf
   21)) (Nd (Lf 929) (Lf 971)))) (Nd (Nd (Nd (Lf 333) (Lf 97)) (Nd (Lf 306) (Lf 175))) (Nd (Nd (Lf 502) (Lf
   414)) (Nd (Lf 920) (Lf 540))))))"

definition chase_pos_7 :: trie where
  "chase_pos_7 =
   Nd (Nd (Nd (Nd (Nd (Nd (Lf 289) (Lf 41)) (Nd (Lf 215) (Lf 148))) (Nd (Nd (Lf 826) (Lf 570)) (Nd (Lf 126)
   (Lf 626)))) (Nd (Nd (Nd (Lf 528) (Lf 94)) (Nd (Lf 822) (Lf 885))) (Nd (Nd (Lf 910) (Lf 658)) (Nd (Lf 43)
   (Lf 968))))) (Nd (Nd (Nd (Nd (Lf 430) (Lf 598)) (Nd (Lf 261) (Lf 729))) (Nd (Nd (Lf 954) (Lf 311)) (Nd (Lf
   240) (Lf 649)))) (Nd (Nd (Nd (Lf 3) (Lf 959)) (Nd (Lf 984) (Lf 255))) (Nd (Nd (Lf 423) (Lf 550)) (Nd (Lf
   491) (Lf 357)))))) (Nd (Nd (Nd (Nd (Nd (Lf 331) (Lf 603)) (Nd (Lf 783) (Lf 459))) (Nd (Nd (Lf 581) (Lf
   931)) (Nd (Lf 975) (Lf 345)))) (Nd (Nd (Nd (Lf 310) (Lf 460)) (Nd (Lf 360) (Lf 144))) (Nd (Nd (Lf 842) (Lf
   878)) (Nd (Lf 402) (Lf 571))))) (Nd (Nd (Nd (Nd (Lf 332) (Lf 631)) (Nd (Lf 939) (Lf 17))) (Nd (Nd (Lf 676)
   (Lf 448)) (Nd (Lf 689) (Lf 823)))) (Nd (Nd (Nd (Lf 719) (Lf 24)) (Nd (Lf 760) (Lf 390))) (Nd (Nd (Lf 495)
   (Lf 610)) (Nd (Lf 709) (Lf 825))))))"

definition chase_pos_8 :: trie where
  "chase_pos_8 =
   Nd (Nd (Nd (Nd (Nd (Nd (Lf 288) (Lf 695)) (Nd (Lf 916) (Lf 356))) (Nd (Nd (Lf 732) (Lf 551)) (Nd (Lf 747)
   (Lf 734)))) (Nd (Nd (Nd (Lf 464) (Lf 997)) (Nd (Lf 993) (Lf 972))) (Nd (Nd (Lf 595) (Lf 730)) (Nd (Lf 149)
   (Lf 119))))) (Nd (Nd (Nd (Nd (Lf 647) (Lf 620)) (Nd (Lf 893) (Lf 1003))) (Nd (Nd (Lf 886) (Lf 216)) (Nd (Lf
   934) (Lf 364)))) (Nd (Nd (Nd (Lf 726) (Lf 705)) (Nd (Lf 291) (Lf 22))) (Nd (Nd (Lf 433) (Lf 275)) (Nd (Lf
   625) (Lf 83)))))) (Nd (Nd (Nd (Nd (Nd (Lf 111) (Lf 244)) (Nd (Lf 942) (Lf 636))) (Nd (Nd (Lf 208) (Lf 521))
   (Nd (Lf 42) (Lf 669)))) (Nd (Nd (Nd (Lf 152) (Lf 660)) (Nd (Lf 135) (Lf 530))) (Nd (Nd (Lf 142) (Lf 627))
   (Nd (Lf 194) (Lf 991))))) (Nd (Nd (Nd (Nd (Lf 153) (Lf 602)) (Nd (Lf 749) (Lf 805))) (Nd (Nd (Lf 480) (Lf
   796)) (Nd (Lf 444) (Lf 587)))) (Nd (Nd (Nd (Lf 803) (Lf 156)) (Nd (Lf 247) (Lf 843))) (Nd (Nd (Lf 802) (Lf
   672)) (Nd (Lf 115) (Lf 228))))))"

definition chase_pos_9 :: trie where
  "chase_pos_9 =
   Nd (Nd (Nd (Nd (Nd (Nd (Lf 753) (Lf 829)) (Nd (Lf 646) (Lf 534))) (Nd (Nd (Lf 239) (Lf 812)) (Nd (Lf 562)
   (Lf 393)))) (Nd (Nd (Nd (Lf 404) (Lf 108)) (Nd (Lf 821) (Lf 27))) (Nd (Nd (Lf 622) (Lf 876)) (Nd (Lf 243)
   (Lf 57))))) (Nd (Nd (Nd (Nd (Lf 756) (Lf 728)) (Nd (Lf 536) (Lf 978))) (Nd (Nd (Lf 970) (Lf 363)) (Nd (Lf
   204) (Lf 798)))) (Nd (Nd (Nd (Lf 501) (Lf 219)) (Nd (Lf 438) (Lf 884))) (Nd (Nd (Lf 905) (Lf 840)) (Nd (Lf
   850) (Lf 692)))))) (Nd (Nd (Nd (Nd (Nd (Lf 793) (Lf 382)) (Nd (Lf 303) (Lf 440))) (Nd (Nd (Lf 461) (Lf
   589)) (Nd (Lf 531) (Lf 242)))) (Nd (Nd (Nd (Lf 417) (Lf 995)) (Nd (Lf 642) (Lf 68))) (Nd (Nd (Lf 650) (Lf
   1005)) (Nd (Lf 56) (Lf 282))))) (Nd (Nd (Nd (Nd (Lf 895) (Lf 555)) (Nd (Lf 392) (Lf 811))) (Nd (Nd (Lf 486)
   (Lf 635)) (Nd (Lf 347) (Lf 361)))) (Nd (Nd (Nd (Lf 898) (Lf 334)) (Nd (Lf 62) (Lf 517))) (Nd (Nd (Lf 924)
   (Lf 697)) (Nd (Lf 85) (Lf 903))))))"

definition chase_pos_10 :: trie where
  "chase_pos_10 =
   Nd (Nd (Nd (Nd (Nd (Nd (Lf 300) (Lf 79)) (Nd (Lf 55) (Lf 1))) (Nd (Nd (Lf 241) (Lf 596)) (Nd (Lf 370) (Lf
   403)))) (Nd (Nd (Nd (Lf 163) (Lf 493)) (Nd (Lf 200) (Lf 220))) (Nd (Nd (Lf 424) (Lf 328)) (Nd (Lf 545) (Lf
   1004))))) (Nd (Nd (Nd (Nd (Lf 883) (Lf 374)) (Nd (Lf 508) (Lf 136))) (Nd (Nd (Lf 283) (Lf 265)) (Nd (Lf
   143) (Lf 841)))) (Nd (Nd (Nd (Lf 389) (Lf 110)) (Nd (Lf 1013) (Lf 416))) (Nd (Nd (Lf 578) (Lf 5)) (Nd (Lf
   548) (Lf 253)))))) (Nd (Nd (Nd (Nd (Nd (Lf 848) (Lf 96)) (Nd (Lf 664) (Lf 780))) (Nd (Nd (Lf 147) (Lf 915))
   (Nd (Lf 314) (Lf 985)))) (Nd (Nd (Nd (Lf 1015) (Lf 986)) (Nd (Lf 222) (Lf 190))) (Nd (Nd (Lf 857) (Lf 202))
   (Nd (Lf 34) (Lf 616))))) (Nd (Nd (Nd (Nd (Lf 487) (Lf 932)) (Nd (Lf 899) (Lf 106))) (Nd (Nd (Lf 269) (Lf
   745)) (Nd (Lf 252) (Lf 258)))) (Nd (Nd (Nd (Lf 72) (Lf 381)) (Nd (Lf 373) (Lf 830))) (Nd (Nd (Lf 198) (Lf
   870)) (Nd (Lf 230) (Lf 966))))))"

definition chase_pos_11 :: trie where
  "chase_pos_11 =
   Nd (Nd (Nd (Nd (Nd (Nd (Lf 1010) (Lf 301)) (Nd (Lf 457) (Lf 666))) (Nd (Nd (Lf 507) (Lf 349)) (Nd (Lf 694)
   (Lf 945)))) (Nd (Nd (Nd (Lf 964) (Lf 946)) (Nd (Lf 926) (Lf 176))) (Nd (Nd (Lf 707) (Lf 967)) (Nd (Lf 210)
   (Lf 340))))) (Nd (Nd (Nd (Nd (Lf 937) (Lf 231)) (Nd (Lf 351) (Lf 535))) (Nd (Nd (Lf 759) (Lf 866)) (Nd (Lf
   558) (Lf 987)))) (Nd (Nd (Nd (Lf 511) (Lf 159)) (Nd (Lf 439) (Lf 718))) (Nd (Nd (Lf 327) (Lf 882)) (Nd (Lf
   952) (Lf 810)))))) (Nd (Nd (Nd (Nd (Nd (Lf 81) (Lf 207)) (Nd (Lf 313) (Lf 894))) (Nd (Nd (Lf 510) (Lf 801))
   (Nd (Lf 544) (Lf 860)))) (Nd (Nd (Nd (Lf 421) (Lf 197)) (Nd (Lf 28) (Lf 525))) (Nd (Nd (Lf 54) (Lf 880))
   (Nd (Lf 6) (Lf 506))))) (Nd (Nd (Nd (Nd (Lf 353) (Lf 957)) (Nd (Lf 256) (Lf 792))) (Nd (Nd (Lf 32) (Lf 45))
   (Nd (Lf 348) (Lf 856)))) (Nd (Nd (Nd (Lf 998) (Lf 607)) (Nd (Lf 582) (Lf 776))) (Nd (Nd (Lf 973) (Lf 378))
   (Nd (Lf 307) (Lf 601))))))"

definition chase_pos_12 :: trie where
  "chase_pos_12 =
   Nd (Nd (Nd (Nd (Nd (Nd (Lf 634) (Lf 87)) (Nd (Lf 323) (Lf 500))) (Nd (Nd (Lf 930) (Lf 11)) (Nd (Lf 16) (Lf
   40)))) (Nd (Nd (Nd (Lf 605) (Lf 99)) (Nd (Lf 157) (Lf 782))) (Nd (Nd (Lf 907) (Lf 429)) (Nd (Lf 330) (Lf
   652))))) (Nd (Nd (Nd (Nd (Lf 342) (Lf 98)) (Nd (Lf 818) (Lf 1007))) (Nd (Nd (Lf 8) (Lf 947)) (Nd (Lf 953)
   (Lf 298)))) (Nd (Nd (Nd (Lf 751) (Lf 463)) (Nd (Lf 743) (Lf 890))) (Nd (Nd (Lf 473) (Lf 372)) (Nd (Lf 469)
   (Lf 69)))))) (Nd (Nd (Nd (Nd (Nd (Lf 9) (Lf 165)) (Nd (Lf 284) (Lf 673))) (Nd (Nd (Lf 519) (Lf 103)) (Nd
   (Lf 497) (Lf 847)))) (Nd (Nd (Nd (Lf 611) (Lf 815)) (Nd (Lf 35) (Lf 742))) (Nd (Nd (Lf 879) (Lf 700)) (Nd
   (Lf 552) (Lf 661))))) (Nd (Nd (Nd (Nd (Lf 337) (Lf 209)) (Nd (Lf 411) (Lf 738))) (Nd (Nd (Lf 221) (Lf 456))
   (Nd (Lf 482) (Lf 795)))) (Nd (Nd (Nd (Lf 573) (Lf 590)) (Nd (Lf 832) (Lf 714))) (Nd (Nd (Lf 541) (Lf 761))
   (Nd (Lf 376) (Lf 586))))))"

definition chase_pos_13 :: trie where
  "chase_pos_13 =
   Nd (Nd (Nd (Nd (Nd (Nd (Lf 412) (Lf 132)) (Nd (Lf 318) (Lf 564))) (Nd (Nd (Lf 912) (Lf 100)) (Nd (Lf 921)
   (Lf 212)))) (Nd (Nd (Nd (Lf 725) (Lf 458)) (Nd (Lf 504) (Lf 671))) (Nd (Nd (Lf 170) (Lf 923)) (Nd (Lf 13)
   (Lf 71))))) (Nd (Nd (Nd (Nd (Lf 872) (Lf 146)) (Nd (Lf 484) (Lf 276))) (Nd (Nd (Lf 949) (Lf 121)) (Nd (Lf
   748) (Lf 855)))) (Nd (Nd (Nd (Lf 889) (Lf 46)) (Nd (Lf 897) (Lf 91))) (Nd (Nd (Lf 702) (Lf 278)) (Nd (Lf
   667) (Lf 906)))))) (Nd (Nd (Nd (Nd (Nd (Lf 662) (Lf 1022)) (Nd (Lf 299) (Lf 794))) (Nd (Nd (Lf 887) (Lf
   827)) (Nd (Lf 716) (Lf 976)))) (Nd (Nd (Nd (Lf 956) (Lf 120)) (Nd (Lf 125) (Lf 443))) (Nd (Nd (Lf 379) (Lf
   651)) (Nd (Lf 852) (Lf 532))))) (Nd (Nd (Nd (Nd (Lf 160) (Lf 514)) (Nd (Lf 778) (Lf 418))) (Nd (Nd (Lf 639)
   (Lf 576)) (Nd (Lf 452) (Lf 266)))) (Nd (Nd (Nd (Lf 250) (Lf 994)) (Nd (Lf 151) (Lf 350))) (Nd (Nd (Lf 791)
   (Lf 396)) (Nd (Lf 329) (Lf 612))))))"

definition chase_pos_14 :: trie where
  "chase_pos_14 =
   Nd (Nd (Nd (Nd (Nd (Nd (Lf 380) (Lf 123)) (Nd (Lf 59) (Lf 561))) (Nd (Nd (Lf 270) (Lf 359)) (Nd (Lf 881)
   (Lf 137)))) (Nd (Nd (Nd (Lf 234) (Lf 710)) (Nd (Lf 44) (Lf 339))) (Nd (Nd (Lf 549) (Lf 167)) (Nd (Lf 387)
   (Lf 90))))) (Nd (Nd (Nd (Nd (Lf 599) (Lf 712)) (Nd (Lf 554) (Lf 338))) (Nd (Nd (Lf 754) (Lf 674)) (Nd (Lf
   10) (Lf 88)))) (Nd (Nd (Nd (Lf 724) (Lf 772)) (Nd (Lf 205) (Lf 287))) (Nd (Nd (Lf 808) (Lf 105)) (Nd (Lf
   687) (Lf 657)))))) (Nd (Nd (Nd (Nd (Nd (Lf 944) (Lf 559)) (Nd (Lf 786) (Lf 422))) (Nd (Nd (Lf 23) (Lf 704))
   (Nd (Lf 779) (Lf 257)))) (Nd (Nd (Nd (Lf 434) (Lf 321)) (Nd (Lf 699) (Lf 475))) (Nd (Nd (Lf 720) (Lf 61))
   (Nd (Lf 520) (Lf 940))))) (Nd (Nd (Nd (Nd (Lf 773) (Lf 983)) (Nd (Lf 385) (Lf 472))) (Nd (Nd (Lf 325) (Lf
   272)) (Nd (Lf 597) (Lf 293)))) (Nd (Nd (Nd (Lf 567) (Lf 343)) (Nd (Lf 449) (Lf 1008))) (Nd (Nd (Lf 839) (Lf
   638)) (Nd (Lf 490) (Lf 717))))))"

definition chase_pos_15 :: trie where
  "chase_pos_15 =
   Nd (Nd (Nd (Nd (Nd (Nd (Lf 523) (Lf 799)) (Nd (Lf 684) (Lf 846))) (Nd (Nd (Lf 233) (Lf 467)) (Nd (Lf 29)
   (Lf 615)))) (Nd (Nd (Nd (Lf 30) (Lf 172)) (Nd (Lf 701) (Lf 173))) (Nd (Nd (Lf 750) (Lf 513)) (Nd (Lf 1019)
   (Lf 569))))) (Nd (Nd (Nd (Nd (Lf 948) (Lf 770)) (Nd (Lf 524) (Lf 577))) (Nd (Nd (Lf 245) (Lf 833)) (Nd (Lf
   977) (Lf 48)))) (Nd (Nd (Nd (Lf 53) (Lf 938)) (Nd (Lf 182) (Lf 51))) (Nd (Nd (Lf 925) (Lf 816)) (Nd (Lf
   113) (Lf 365)))))) (Nd (Nd (Nd (Nd (Nd (Lf 922) (Lf 80)) (Nd (Lf 844) (Lf 369))) (Nd (Nd (Lf 512) (Lf 693))
   (Nd (Lf 653) (Lf 248)))) (Nd (Nd (Nd (Lf 867) (Lf 238)) (Nd (Lf 928) (Lf 688))) (Nd (Nd (Lf 302) (Lf 606))
   (Nd (Lf 391) (Lf 481))))) (Nd (Nd (Nd (Nd (Lf 427) (Lf 974)) (Nd (Lf 271) (Lf 1020))) (Nd (Nd (Lf 583) (Lf
   70)) (Nd (Lf 399) (Lf 189)))) (Nd (Nd (Nd (Lf 92) (Lf 722)) (Nd (Lf 788) (Lf 797))) (Nd (Nd (Lf 37) (Lf
   999)) (Nd (Lf 1009) (Lf 1023))))))"

definition node_pos_0 :: trie where
  "node_pos_0 =
   Nd (Nd (Nd (Nd (Nd (Nd (Nd (Nd (Lf 0) (Lf 2388)) (Nd (Lf 1353) (Lf 3938))) (Nd (Nd (Lf 1904) (Lf 1002)) (Nd
   (Lf 1381) (Lf 3535)))) (Nd (Nd (Nd (Lf 1300) (Lf 2209)) (Nd (Lf 3049) (Lf 2764))) (Nd (Nd (Lf 1444) (Lf
   92)) (Nd (Lf 1793) (Lf 2621))))) (Nd (Nd (Nd (Nd (Lf 840) (Lf 301)) (Nd (Lf 442) (Lf 2165))) (Nd (Nd (Lf
   91) (Lf 2267)) (Nd (Lf 2821) (Lf 1528)))) (Nd (Nd (Nd (Lf 333) (Lf 715)) (Nd (Lf 1662) (Lf 2314))) (Nd (Nd
   (Lf 347) (Lf 1508)) (Nd (Lf 1867) (Lf 3996)))))) (Nd (Nd (Nd (Nd (Nd (Lf 340) (Lf 1584)) (Nd (Lf 2349) (Lf
   1661))) (Nd (Nd (Lf 1008) (Lf 4067)) (Nd (Lf 2001) (Lf 2183)))) (Nd (Nd (Nd (Lf 2387) (Lf 1889)) (Nd (Lf
   709) (Lf 2775))) (Nd (Nd (Lf 110) (Lf 2133)) (Nd (Lf 1468) (Lf 1502))))) (Nd (Nd (Nd (Nd (Lf 3122) (Lf
   2100)) (Nd (Lf 3564) (Lf 20))) (Nd (Nd (Lf 735) (Lf 3089)) (Nd (Lf 724) (Lf 2074)))) (Nd (Nd (Nd (Lf 570)
   (Lf 3999)) (Nd (Lf 1067) (Lf 3699))) (Nd (Nd (Lf 1709) (Lf 1585)) (Nd (Lf 2570) (Lf 3384))))))) (Nd (Nd (Nd
   (Nd (Nd (Nd (Lf 3751) (Lf 3542)) (Nd (Lf 3420) (Lf 2108))) (Nd (Nd (Lf 3033) (Lf 879)) (Nd (Lf 588) (Lf
   4092)))) (Nd (Nd (Nd (Lf 1003) (Lf 445)) (Nd (Lf 1110) (Lf 3687))) (Nd (Nd (Lf 3980) (Lf 3691)) (Nd (Lf
   2779) (Lf 14))))) (Nd (Nd (Nd (Nd (Lf 820) (Lf 529)) (Nd (Lf 3019) (Lf 3159))) (Nd (Nd (Lf 2513) (Lf 2461))
   (Nd (Lf 726) (Lf 2866)))) (Nd (Nd (Nd (Lf 3566) (Lf 1328)) (Nd (Lf 4008) (Lf 3622))) (Nd (Nd (Lf 1367) (Lf
   1028)) (Nd (Lf 213) (Lf 2678)))))) (Nd (Nd (Nd (Nd (Nd (Lf 3949) (Lf 1236)) (Nd (Lf 2169) (Lf 2907))) (Nd
   (Nd (Lf 1591) (Lf 2482)) (Nd (Lf 3243) (Lf 2642)))) (Nd (Nd (Nd (Lf 3293) (Lf 1554)) (Nd (Lf 1449) (Lf
   943))) (Nd (Nd (Lf 2717) (Lf 2419)) (Nd (Lf 1740) (Lf 165))))) (Nd (Nd (Nd (Nd (Lf 3909) (Lf 386)) (Nd (Lf
   1360) (Lf 3330))) (Nd (Nd (Lf 3885) (Lf 1476)) (Nd (Lf 1729) (Lf 2656)))) (Nd (Nd (Nd (Lf 1420) (Lf 1913))
   (Nd (Lf 812) (Lf 3199))) (Nd (Nd (Lf 3325) (Lf 1960)) (Nd (Lf 1722) (Lf 2829)))))))) (Nd (Nd (Nd (Nd (Nd
   (Nd (Nd (Lf 1072) (Lf 3783)) (Nd (Lf 2515) (Lf 1567))) (Nd (Nd (Lf 1703) (Lf 2910)) (Nd (Lf 602) (Lf
   2831)))) (Nd (Nd (Nd (Lf 3212) (Lf 1369)) (Nd (Lf 784) (Lf 3463))) (Nd (Nd (Lf 914) (Lf 1917)) (Nd (Lf
   3445) (Lf 3852))))) (Nd (Nd (Nd (Nd (Lf 2146) (Lf 2860)) (Nd (Lf 2995) (Lf 2251))) (Nd (Nd (Lf 1093) (Lf
   1091)) (Nd (Lf 1467) (Lf 733)))) (Nd (Nd (Nd (Lf 1203) (Lf 2863)) (Nd (Lf 2102) (Lf 3895))) (Nd (Nd (Lf
   2887) (Lf 1542)) (Nd (Lf 3598) (Lf 3326)))))) (Nd (Nd (Nd (Nd (Nd (Lf 3944) (Lf 2886)) (Nd (Lf 243) (Lf
   3853))) (Nd (Nd (Lf 1950) (Lf 1058)) (Nd (Lf 2022) (Lf 942)))) (Nd (Nd (Nd (Lf 3128) (Lf 2916)) (Nd (Lf
   1396) (Lf 373))) (Nd (Nd (Lf 3427) (Lf 1422)) (Nd (Lf 2442) (Lf 3071))))) (Nd (Nd (Nd (Nd (Lf 613) (Lf
   1964)) (Nd (Lf 3567) (Lf 1318))) (Nd (Nd (Lf 4077) (Lf 2970)) (Nd (Lf 3269) (Lf 3813)))) (Nd (Nd (Nd (Lf
   2759) (Lf 3758)) (Nd (Lf 1472) (Lf 1262))) (Nd (Nd (Lf 3919) (Lf 3015)) (Nd (Lf 3801) (Lf 2334))))))) (Nd
   (Nd (Nd (Nd (Nd (Nd (Lf 3988) (Lf 3656)) (Nd (Lf 3959) (Lf 2690))) (Nd (Nd (Lf 147) (Lf 3639)) (Nd (Lf 271)
   (Lf 1595)))) (Nd (Nd (Nd (Lf 1189) (Lf 3851)) (Nd (Lf 3779) (Lf 2259))) (Nd (Nd (Lf 3674) (Lf 2175)) (Nd
   (Lf 2085) (Lf 2954))))) (Nd (Nd (Nd (Nd (Lf 965) (Lf 2055)) (Nd (Lf 3262) (Lf 962))) (Nd (Nd (Lf 4014) (Lf
   2195)) (Nd (Lf 4034) (Lf 4038)))) (Nd (Nd (Nd (Lf 611) (Lf 1346)) (Nd (Lf 3839) (Lf 1830))) (Nd (Nd (Lf
   1672) (Lf 547)) (Nd (Lf 1800) (Lf 1307)))))) (Nd (Nd (Nd (Nd (Nd (Lf 928) (Lf 4056)) (Nd (Lf 1936) (Lf
   1005))) (Nd (Nd (Lf 3565) (Lf 674)) (Nd (Lf 2880) (Lf 3855)))) (Nd (Nd (Nd (Lf 2488) (Lf 3962)) (Nd (Lf
   367) (Lf 3481))) (Nd (Nd (Lf 2724) (Lf 3405)) (Nd (Lf 1202) (Lf 677))))) (Nd (Nd (Nd (Nd (Lf 1781) (Lf
   1962)) (Nd (Lf 1440) (Lf 1370))) (Nd (Nd (Lf 3410) (Lf 1263)) (Nd (Lf 2958) (Lf 81)))) (Nd (Nd (Nd (Lf
   2536) (Lf 538)) (Nd (Lf 2425) (Lf 837))) (Nd (Nd (Lf 1509) (Lf 675)) (Nd (Lf 4011) (Lf 4041))))))))"

definition node_pos_1 :: trie where
  "node_pos_1 =
   Nd (Nd (Nd (Nd (Nd (Nd (Nd (Nd (Lf 2310) (Lf 2905)) (Nd (Lf 2807) (Lf 2266))) (Nd (Nd (Lf 1965) (Lf 3067))
   (Nd (Lf 79) (Lf 1312)))) (Nd (Nd (Nd (Lf 947) (Lf 505)) (Nd (Lf 2014) (Lf 240))) (Nd (Nd (Lf 2635) (Lf
   2911)) (Nd (Lf 233) (Lf 3696))))) (Nd (Nd (Nd (Nd (Lf 2742) (Lf 1395)) (Nd (Lf 2033) (Lf 215))) (Nd (Nd (Lf
   335) (Lf 554)) (Nd (Lf 2380) (Lf 3309)))) (Nd (Nd (Nd (Lf 3837) (Lf 2983)) (Nd (Lf 3232) (Lf 2650))) (Nd
   (Nd (Lf 998) (Lf 594)) (Nd (Lf 974) (Lf 1201)))))) (Nd (Nd (Nd (Nd (Nd (Lf 3346) (Lf 3101)) (Nd (Lf 968)
   (Lf 1959))) (Nd (Nd (Lf 931) (Lf 738)) (Nd (Lf 919) (Lf 3867)))) (Nd (Nd (Nd (Lf 283) (Lf 3408)) (Nd (Lf
   1699) (Lf 3457))) (Nd (Nd (Lf 3815) (Lf 3670)) (Nd (Lf 1907) (Lf 3658))))) (Nd (Nd (Nd (Nd (Lf 1660) (Lf
   3794)) (Nd (Lf 108) (Lf 3841))) (Nd (Nd (Lf 970) (Lf 289)) (Nd (Lf 545) (Lf 1174)))) (Nd (Nd (Nd (Lf 3188)
   (Lf 2814)) (Nd (Lf 3378) (Lf 230))) (Nd (Nd (Lf 1702) (Lf 3605)) (Nd (Lf 1770) (Lf 1547))))))) (Nd (Nd (Nd
   (Nd (Nd (Nd (Lf 492) (Lf 3905)) (Nd (Lf 3007) (Lf 2432))) (Nd (Nd (Lf 3960) (Lf 270)) (Nd (Lf 3826) (Lf
   1040)))) (Nd (Nd (Nd (Lf 2098) (Lf 1223)) (Nd (Lf 3478) (Lf 628))) (Nd (Nd (Lf 2026) (Lf 4075)) (Nd (Lf
   460) (Lf 2066))))) (Nd (Nd (Nd (Nd (Lf 3054) (Lf 1082)) (Nd (Lf 58) (Lf 62))) (Nd (Nd (Lf 293) (Lf 1085))
   (Nd (Lf 821) (Lf 251)))) (Nd (Nd (Nd (Lf 2038) (Lf 743)) (Nd (Lf 2214) (Lf 4027))) (Nd (Nd (Lf 2263) (Lf
   3192)) (Nd (Lf 3774) (Lf 1027)))))) (Nd (Nd (Nd (Nd (Nd (Lf 725) (Lf 670)) (Nd (Lf 1358) (Lf 3976))) (Nd
   (Nd (Lf 2120) (Lf 796)) (Nd (Lf 2171) (Lf 3449)))) (Nd (Nd (Nd (Lf 3311) (Lf 1014)) (Nd (Lf 451) (Lf
   2624))) (Nd (Nd (Lf 2844) (Lf 3023)) (Nd (Lf 1974) (Lf 695))))) (Nd (Nd (Nd (Nd (Lf 3028) (Lf 1144)) (Nd
   (Lf 3634) (Lf 3076))) (Nd (Nd (Lf 2337) (Lf 543)) (Nd (Lf 2517) (Lf 3870)))) (Nd (Nd (Nd (Lf 1297) (Lf
   1644)) (Nd (Lf 487) (Lf 3630))) (Nd (Nd (Lf 4019) (Lf 1914)) (Nd (Lf 188) (Lf 936)))))))) (Nd (Nd (Nd (Nd
   (Nd (Nd (Nd (Lf 759) (Lf 3785)) (Nd (Lf 1987) (Lf 2390))) (Nd (Nd (Lf 2288) (Lf 3612)) (Nd (Lf 3529) (Lf
   1579)))) (Nd (Nd (Nd (Lf 3623) (Lf 694)) (Nd (Lf 1961) (Lf 3022))) (Nd (Nd (Lf 3740) (Lf 3503)) (Nd (Lf
   3452) (Lf 318))))) (Nd (Nd (Nd (Nd (Lf 697) (Lf 137)) (Nd (Lf 3030) (Lf 4037))) (Nd (Nd (Lf 2129) (Lf
   3105)) (Nd (Lf 370) (Lf 2188)))) (Nd (Nd (Nd (Lf 2578) (Lf 2830)) (Nd (Lf 265) (Lf 3352))) (Nd (Nd (Lf
   2822) (Lf 1972)) (Nd (Lf 3354) (Lf 2603)))))) (Nd (Nd (Nd (Nd (Nd (Lf 654) (Lf 1120)) (Nd (Lf 2122) (Lf
   3543))) (Nd (Nd (Lf 3031) (Lf 603)) (Nd (Lf 4068) (Lf 8)))) (Nd (Nd (Nd (Lf 1050) (Lf 1526)) (Nd (Lf 1455)
   (Lf 2931))) (Nd (Nd (Lf 3685) (Lf 3012)) (Nd (Lf 375) (Lf 234))))) (Nd (Nd (Nd (Nd (Lf 1966) (Lf 1298)) (Nd
   (Lf 3219) (Lf 3538))) (Nd (Nd (Lf 1415) (Lf 2150)) (Nd (Lf 3208) (Lf 3582)))) (Nd (Nd (Nd (Lf 3978) (Lf
   1103)) (Nd (Lf 2477) (Lf 3498))) (Nd (Nd (Lf 3453) (Lf 3859)) (Nd (Lf 1001) (Lf 3743))))))) (Nd (Nd (Nd (Nd
   (Nd (Nd (Lf 952) (Lf 559)) (Nd (Lf 209) (Lf 3369))) (Nd (Nd (Lf 3061) (Lf 2771)) (Nd (Lf 2841) (Lf 1880))))
   (Nd (Nd (Nd (Lf 153) (Lf 635)) (Nd (Lf 2454) (Lf 3952))) (Nd (Nd (Lf 2763) (Lf 1752)) (Nd (Lf 1876) (Lf
   2166))))) (Nd (Nd (Nd (Nd (Lf 584) (Lf 3778)) (Nd (Lf 2933) (Lf 3606))) (Nd (Nd (Lf 1968) (Lf 2335)) (Nd
   (Lf 3511) (Lf 2796)))) (Nd (Nd (Nd (Lf 142) (Lf 3955)) (Nd (Lf 1308) (Lf 2271))) (Nd (Nd (Lf 1063) (Lf
   1896)) (Nd (Lf 2913) (Lf 469)))))) (Nd (Nd (Nd (Nd (Nd (Lf 1930) (Lf 579)) (Nd (Lf 3230) (Lf 1489))) (Nd
   (Nd (Lf 83) (Lf 3979)) (Nd (Lf 2327) (Lf 3901)))) (Nd (Nd (Nd (Lf 3725) (Lf 737)) (Nd (Lf 3997) (Lf 1831)))
   (Nd (Nd (Lf 3760) (Lf 3029)) (Nd (Lf 2059) (Lf 1258))))) (Nd (Nd (Nd (Nd (Lf 3752) (Lf 3609)) (Nd (Lf 2071)
   (Lf 869))) (Nd (Nd (Lf 955) (Lf 556)) (Nd (Lf 858) (Lf 2980)))) (Nd (Nd (Nd (Lf 617) (Lf 485)) (Nd (Lf
   3087) (Lf 3946))) (Nd (Nd (Lf 1094) (Lf 2803)) (Nd (Lf 3221) (Lf 4044))))))))"

definition node_pos_2 :: trie where
  "node_pos_2 =
   Nd (Nd (Nd (Nd (Nd (Nd (Nd (Nd (Lf 2915) (Lf 859)) (Nd (Lf 2550) (Lf 986))) (Nd (Nd (Lf 2729) (Lf 2549))
   (Nd (Lf 3270) (Lf 374)))) (Nd (Nd (Nd (Lf 106) (Lf 2774)) (Nd (Lf 3902) (Lf 1265))) (Nd (Nd (Lf 1275) (Lf
   2088)) (Nd (Lf 3873) (Lf 275))))) (Nd (Nd (Nd (Nd (Lf 930) (Lf 477)) (Nd (Lf 1553) (Lf 129))) (Nd (Nd (Lf
   2943) (Lf 1349)) (Nd (Lf 3395) (Lf 3095)))) (Nd (Nd (Nd (Lf 1608) (Lf 2571)) (Nd (Lf 3389) (Lf 2981))) (Nd
   (Nd (Lf 1323) (Lf 917)) (Nd (Lf 2320) (Lf 2994)))))) (Nd (Nd (Nd (Nd (Nd (Lf 3548) (Lf 1206)) (Nd (Lf 2529)
   (Lf 483))) (Nd (Nd (Lf 2623) (Lf 2290)) (Nd (Lf 3350) (Lf 2057)))) (Nd (Nd (Nd (Lf 475) (Lf 3300)) (Nd (Lf
   1208) (Lf 744))) (Nd (Nd (Lf 2091) (Lf 1919)) (Nd (Lf 2773) (Lf 320))))) (Nd (Nd (Nd (Nd (Lf 1331) (Lf
   2294)) (Nd (Lf 3982) (Lf 1738))) (Nd (Nd (Lf 951) (Lf 3037)) (Nd (Lf 3868) (Lf 3795)))) (Nd (Nd (Nd (Lf
   3880) (Lf 227)) (Nd (Lf 2923) (Lf 1090))) (Nd (Nd (Lf 3039) (Lf 2840)) (Nd (Lf 4022) (Lf 2535))))))) (Nd
   (Nd (Nd (Nd (Nd (Nd (Lf 3780) (Lf 2592)) (Nd (Lf 329) (Lf 364))) (Nd (Nd (Lf 2243) (Lf 2630)) (Nd (Lf 1949)
   (Lf 100)))) (Nd (Nd (Nd (Lf 2068) (Lf 2470)) (Nd (Lf 3829) (Lf 273))) (Nd (Nd (Lf 3728) (Lf 3592)) (Nd (Lf
   2371) (Lf 2891))))) (Nd (Nd (Nd (Nd (Lf 3561) (Lf 2242)) (Nd (Lf 3553) (Lf 2835))) (Nd (Nd (Lf 2224) (Lf
   3197)) (Nd (Lf 1108) (Lf 1679)))) (Nd (Nd (Nd (Lf 2791) (Lf 1368)) (Nd (Lf 3705) (Lf 3256))) (Nd (Nd (Lf
   573) (Lf 302)) (Nd (Lf 2518) (Lf 389)))))) (Nd (Nd (Nd (Nd (Nd (Lf 2292) (Lf 1805)) (Nd (Lf 1052) (Lf
   180))) (Nd (Nd (Lf 756) (Lf 1654)) (Nd (Lf 1565) (Lf 866)))) (Nd (Nd (Nd (Lf 4016) (Lf 2054)) (Nd (Lf 116)
   (Lf 3882))) (Nd (Nd (Lf 3706) (Lf 2818)) (Nd (Lf 1035) (Lf 3936))))) (Nd (Nd (Nd (Nd (Lf 1498) (Lf 3655))
   (Nd (Lf 2028) (Lf 3074))) (Nd (Nd (Lf 299) (Lf 690)) (Nd (Lf 2198) (Lf 2040)))) (Nd (Nd (Nd (Lf 865) (Lf
   3970)) (Nd (Lf 2145) (Lf 2576))) (Nd (Nd (Lf 2688) (Lf 3663)) (Nd (Lf 3187) (Lf 3858)))))))) (Nd (Nd (Nd
   (Nd (Nd (Nd (Nd (Lf 1786) (Lf 1676)) (Nd (Lf 3189) (Lf 3550))) (Nd (Nd (Lf 3036) (Lf 1095)) (Nd (Lf 905)
   (Lf 2097)))) (Nd (Nd (Nd (Lf 3278) (Lf 2912)) (Nd (Lf 247) (Lf 3360))) (Nd (Nd (Lf 3599) (Lf 3010)) (Nd (Lf
   2786) (Lf 671))))) (Nd (Nd (Nd (Nd (Lf 167) (Lf 3742)) (Nd (Lf 3062) (Lf 3505))) (Nd (Nd (Lf 653) (Lf 112))
   (Nd (Lf 1294) (Lf 3060)))) (Nd (Nd (Nd (Lf 3948) (Lf 3747)) (Nd (Lf 2702) (Lf 3922))) (Nd (Nd (Lf 2665) (Lf
   929)) (Nd (Lf 3807) (Lf 1978)))))) (Nd (Nd (Nd (Nd (Nd (Lf 3459) (Lf 843)) (Nd (Lf 1177) (Lf 3432))) (Nd
   (Nd (Lf 1973) (Lf 3947)) (Nd (Lf 166) (Lf 1845)))) (Nd (Nd (Nd (Lf 2683) (Lf 2326)) (Nd (Lf 3048) (Lf
   1437))) (Nd (Nd (Lf 1248) (Lf 3526)) (Nd (Lf 2189) (Lf 2200))))) (Nd (Nd (Nd (Nd (Lf 1180) (Lf 2427)) (Nd
   (Lf 800) (Lf 3525))) (Nd (Nd (Lf 2206) (Lf 1762)) (Nd (Lf 2761) (Lf 2973)))) (Nd (Nd (Nd (Lf 3301) (Lf
   411)) (Nd (Lf 1668) (Lf 435))) (Nd (Nd (Lf 3464) (Lf 239)) (Nd (Lf 1038) (Lf 1283))))))) (Nd (Nd (Nd (Nd
   (Nd (Nd (Lf 816) (Lf 2654)) (Nd (Lf 2203) (Lf 2600))) (Nd (Nd (Lf 2756) (Lf 1691)) (Nd (Lf 2058) (Lf
   1741)))) (Nd (Nd (Nd (Lf 1154) (Lf 826)) (Nd (Lf 1092) (Lf 257))) (Nd (Nd (Lf 601) (Lf 3178)) (Nd (Lf 1817)
   (Lf 3850))))) (Nd (Nd (Nd (Nd (Lf 3732) (Lf 900)) (Nd (Lf 2671) (Lf 546))) (Nd (Nd (Lf 964) (Lf 3925)) (Nd
   (Lf 610) (Lf 2979)))) (Nd (Nd (Nd (Lf 1927) (Lf 1873)) (Nd (Lf 2566) (Lf 3403))) (Nd (Nd (Lf 3377) (Lf
   1837)) (Nd (Lf 3745) (Lf 351)))))) (Nd (Nd (Nd (Nd (Nd (Lf 595) (Lf 1479)) (Nd (Lf 4032) (Lf 1123))) (Nd
   (Nd (Lf 2012) (Lf 3530)) (Nd (Lf 1044) (Lf 525)))) (Nd (Nd (Nd (Lf 2647) (Lf 416)) (Nd (Lf 2344) (Lf
   2430))) (Nd (Nd (Lf 3694) (Lf 2590)) (Nd (Lf 1797) (Lf 1402))))) (Nd (Nd (Nd (Nd (Lf 376) (Lf 3531)) (Nd
   (Lf 3995) (Lf 2644))) (Nd (Nd (Lf 2151) (Lf 316)) (Nd (Lf 1609) (Lf 1897)))) (Nd (Nd (Nd (Lf 500) (Lf
   3958)) (Nd (Lf 3081) (Lf 3167))) (Nd (Nd (Lf 2612) (Lf 3942)) (Nd (Lf 932) (Lf 2140))))))))"

definition node_pos_3 :: trie where
  "node_pos_3 =
   Nd (Nd (Nd (Nd (Nd (Nd (Nd (Nd (Lf 1841) (Lf 2859)) (Nd (Lf 3929) (Lf 71))) (Nd (Nd (Lf 1107) (Lf 2042))
   (Nd (Lf 2067) (Lf 2315)))) (Nd (Nd (Nd (Lf 805) (Lf 3551)) (Nd (Lf 3334) (Lf 3977))) (Nd (Nd (Lf 1292) (Lf
   1171)) (Nd (Lf 3327) (Lf 1145))))) (Nd (Nd (Nd (Nd (Lf 2856) (Lf 592)) (Nd (Lf 1029) (Lf 1486))) (Nd (Nd
   (Lf 3040) (Lf 346)) (Nd (Lf 3974) (Lf 3379)))) (Nd (Nd (Nd (Lf 2944) (Lf 2972)) (Nd (Lf 197) (Lf 4006)))
   (Nd (Nd (Lf 3887) (Lf 1525)) (Nd (Lf 1975) (Lf 1664)))))) (Nd (Nd (Nd (Nd (Nd (Lf 2750) (Lf 2447)) (Nd (Lf
   802) (Lf 526))) (Nd (Nd (Lf 1132) (Lf 2537)) (Nd (Lf 542) (Lf 2125)))) (Nd (Nd (Nd (Lf 2873) (Lf 3064)) (Nd
   (Lf 1195) (Lf 1162))) (Nd (Nd (Lf 3552) (Lf 2787)) (Nd (Lf 104) (Lf 939))))) (Nd (Nd (Nd (Nd (Lf 727) (Lf
   884)) (Nd (Lf 3866) (Lf 663))) (Nd (Nd (Lf 3476) (Lf 3174)) (Nd (Lf 2231) (Lf 473)))) (Nd (Nd (Nd (Lf 3731)
   (Lf 2768)) (Nd (Lf 2323) (Lf 1915))) (Nd (Nd (Lf 1250) (Lf 3056)) (Nd (Lf 3896) (Lf 2179))))))) (Nd (Nd (Nd
   (Nd (Nd (Nd (Lf 2903) (Lf 3390)) (Nd (Lf 1127) (Lf 3539))) (Nd (Nd (Lf 634) (Lf 527)) (Nd (Lf 2839) (Lf
   2941)))) (Nd (Nd (Nd (Lf 3545) (Lf 2613)) (Nd (Lf 2104) (Lf 4087))) (Nd (Nd (Lf 1454) (Lf 502)) (Nd (Lf 98)
   (Lf 566))))) (Nd (Nd (Nd (Nd (Lf 3762) (Lf 357)) (Nd (Lf 2798) (Lf 3280))) (Nd (Nd (Lf 3173) (Lf 422)) (Nd
   (Lf 1296) (Lf 3497)))) (Nd (Nd (Nd (Lf 404) (Lf 1462)) (Nd (Lf 1339) (Lf 1037))) (Nd (Nd (Lf 2714) (Lf
   2300)) (Nd (Lf 1571) (Lf 428)))))) (Nd (Nd (Nd (Nd (Nd (Lf 2107) (Lf 292)) (Nd (Lf 30) (Lf 568))) (Nd (Nd
   (Lf 1604) (Lf 4073)) (Nd (Lf 1755) (Lf 4029)))) (Nd (Nd (Nd (Lf 2843) (Lf 1760)) (Nd (Lf 2765) (Lf 2186)))
   (Nd (Nd (Lf 186) (Lf 636)) (Nd (Lf 770) (Lf 3993))))) (Nd (Nd (Nd (Nd (Lf 3236) (Lf 1019)) (Nd (Lf 3184)
   (Lf 799))) (Nd (Nd (Lf 1711) (Lf 1696)) (Nd (Lf 4061) (Lf 420)))) (Nd (Nd (Nd (Lf 3088) (Lf 2766)) (Nd (Lf
   2027) (Lf 2853))) (Nd (Nd (Lf 4026) (Lf 1730)) (Nd (Lf 1125) (Lf 3130)))))))) (Nd (Nd (Nd (Nd (Nd (Nd (Nd
   (Lf 3603) (Lf 1428)) (Nd (Lf 665) (Lf 3819))) (Nd (Nd (Lf 2534) (Lf 2636)) (Nd (Lf 783) (Lf 65)))) (Nd (Nd
   (Nd (Lf 2902) (Lf 3)) (Nd (Lf 3697) (Lf 2389))) (Nd (Nd (Lf 1802) (Lf 3907)) (Nd (Lf 25) (Lf 3203))))) (Nd
   (Nd (Nd (Nd (Lf 979) (Lf 2799)) (Nd (Lf 3701) (Lf 139))) (Nd (Nd (Lf 2096) (Lf 1881)) (Nd (Lf 4078) (Lf
   1531)))) (Nd (Nd (Nd (Lf 2588) (Lf 3239)) (Nd (Lf 717) (Lf 1864))) (Nd (Nd (Lf 1862) (Lf 3361)) (Nd (Lf
   1865) (Lf 1064)))))) (Nd (Nd (Nd (Nd (Nd (Lf 229) (Lf 509)) (Nd (Lf 3754) (Lf 991))) (Nd (Nd (Lf 1192) (Lf
   1716)) (Nd (Lf 3485) (Lf 867)))) (Nd (Nd (Nd (Lf 1884) (Lf 3399)) (Nd (Lf 1977) (Lf 2748))) (Nd (Nd (Lf
   3876) (Lf 2069)) (Nd (Lf 1245) (Lf 2459))))) (Nd (Nd (Nd (Nd (Lf 2897) (Lf 3651)) (Nd (Lf 3911) (Lf 26)))
   (Nd (Nd (Lf 935) (Lf 2275)) (Nd (Lf 2217) (Lf 835)))) (Nd (Nd (Nd (Lf 1334) (Lf 1607)) (Nd (Lf 2520) (Lf
   3689))) (Nd (Nd (Lf 1756) (Lf 4003)) (Nd (Lf 4030) (Lf 3371))))))) (Nd (Nd (Nd (Nd (Nd (Nd (Lf 3139) (Lf
   920)) (Nd (Lf 412) (Lf 3833))) (Nd (Nd (Lf 3433) (Lf 2391)) (Nd (Lf 2579) (Lf 813)))) (Nd (Nd (Nd (Lf 1684)
   (Lf 1536)) (Nd (Lf 3373) (Lf 1706))) (Nd (Nd (Lf 3248) (Lf 2573)) (Nd (Lf 4046) (Lf 1842))))) (Nd (Nd (Nd
   (Nd (Lf 1723) (Lf 1715)) (Nd (Lf 3059) (Lf 3430))) (Nd (Nd (Lf 46) (Lf 3827)) (Nd (Lf 3847) (Lf 362)))) (Nd
   (Nd (Nd (Lf 1898) (Lf 212)) (Nd (Lf 1329) (Lf 2))) (Nd (Nd (Lf 3856) (Lf 650)) (Nd (Lf 3237) (Lf 953))))))
   (Nd (Nd (Nd (Nd (Nd (Lf 4049) (Lf 1549)) (Nd (Lf 3590) (Lf 2345))) (Nd (Nd (Lf 2680) (Lf 880)) (Nd (Lf
   2147) (Lf 114)))) (Nd (Nd (Nd (Lf 851) (Lf 2328)) (Nd (Lf 3392) (Lf 3201))) (Nd (Nd (Lf 2728) (Lf 1856))
   (Nd (Lf 3781) (Lf 2964))))) (Nd (Nd (Nd (Nd (Lf 1137) (Lf 3177)) (Nd (Lf 19) (Lf 656))) (Nd (Nd (Lf 720)
   (Lf 1380)) (Nd (Lf 1820) (Lf 1761)))) (Nd (Nd (Nd (Lf 476) (Lf 3746)) (Nd (Lf 1875) (Lf 3211))) (Nd (Nd (Lf
   1497) (Lf 1065)) (Nd (Lf 3562) (Lf 3560))))))))"

definition node_pos_4 :: trie where
  "node_pos_4 =
   Nd (Nd (Nd (Nd (Nd (Nd (Nd (Nd (Lf 2192) (Lf 2781)) (Nd (Lf 2541) (Lf 447))) (Nd (Nd (Lf 2426) (Lf 803))
   (Nd (Lf 1379) (Lf 513)))) (Nd (Nd (Nd (Lf 684) (Lf 2547)) (Nd (Lf 576) (Lf 3290))) (Nd (Nd (Lf 1727) (Lf
   3989)) (Nd (Lf 2674) (Lf 3820))))) (Nd (Nd (Nd (Nd (Lf 1744) (Lf 706)) (Nd (Lf 3138) (Lf 76))) (Nd (Nd (Lf
   1548) (Lf 1511)) (Nd (Lf 2882) (Lf 456)))) (Nd (Nd (Nd (Lf 2924) (Lf 2008)) (Nd (Lf 1317) (Lf 305))) (Nd
   (Nd (Lf 1173) (Lf 1088)) (Nd (Lf 361) (Lf 29)))))) (Nd (Nd (Nd (Nd (Nd (Lf 824) (Lf 4039)) (Nd (Lf 136) (Lf
   3524))) (Nd (Nd (Lf 2453) (Lf 1783)) (Nd (Lf 2762) (Lf 713)))) (Nd (Nd (Nd (Lf 3215) (Lf 2451)) (Nd (Lf
   1025) (Lf 1083))) (Nd (Nd (Lf 940) (Lf 1053)) (Nd (Lf 3843) (Lf 3881))))) (Nd (Nd (Nd (Nd (Lf 2241) (Lf
   1284)) (Nd (Lf 976) (Lf 2599))) (Nd (Nd (Lf 2904) (Lf 3253)) (Nd (Lf 818) (Lf 1356)))) (Nd (Nd (Nd (Lf 673)
   (Lf 2093)) (Nd (Lf 1908) (Lf 3776))) (Nd (Nd (Lf 2795) (Lf 1081)) (Nd (Lf 3443) (Lf 1636))))))) (Nd (Nd (Nd
   (Nd (Nd (Nd (Lf 1015) (Lf 1226)) (Nd (Lf 324) (Lf 3333))) (Nd (Nd (Lf 1219) (Lf 1582)) (Nd (Lf 18) (Lf
   1976)))) (Nd (Nd (Nd (Lf 875) (Lf 321)) (Nd (Lf 2023) (Lf 3644))) (Nd (Nd (Lf 3846) (Lf 3541)) (Nd (Lf
   3753) (Lf 2778))))) (Nd (Nd (Nd (Nd (Lf 933) (Lf 3247)) (Nd (Lf 484) (Lf 2608))) (Nd (Nd (Lf 669) (Lf
   1384)) (Nd (Lf 438) (Lf 1169)))) (Nd (Nd (Nd (Lf 741) (Lf 2207)) (Nd (Lf 3636) (Lf 1337))) (Nd (Nd (Lf
   3461) (Lf 3224)) (Nd (Lf 3791) (Lf 2562)))))) (Nd (Nd (Nd (Nd (Nd (Lf 3274) (Lf 1538)) (Nd (Lf 1823) (Lf
   3249))) (Nd (Nd (Lf 1391) (Lf 2110)) (Nd (Lf 3683) (Lf 50)))) (Nd (Nd (Nd (Lf 1669) (Lf 1114)) (Nd (Lf 38)
   (Lf 1270))) (Nd (Nd (Lf 549) (Lf 47)) (Nd (Lf 279) (Lf 777))))) (Nd (Nd (Nd (Nd (Lf 3091) (Lf 1264)) (Nd
   (Lf 745) (Lf 2582))) (Nd (Nd (Lf 2498) (Lf 3910)) (Nd (Lf 2082) (Lf 443)))) (Nd (Nd (Nd (Lf 1685) (Lf 868))
   (Nd (Lf 2538) (Lf 2090))) (Nd (Nd (Lf 1194) (Lf 3688)) (Nd (Lf 3259) (Lf 1416)))))))) (Nd (Nd (Nd (Nd (Nd
   (Nd (Nd (Lf 2168) (Lf 67)) (Nd (Lf 1583) (Lf 1688))) (Nd (Nd (Lf 3618) (Lf 2460)) (Nd (Lf 1301) (Lf
   1870)))) (Nd (Nd (Nd (Lf 1621) (Lf 1860)) (Nd (Lf 1861) (Lf 2182))) (Nd (Nd (Lf 2850) (Lf 1341)) (Nd (Lf
   612) (Lf 1543))))) (Nd (Nd (Nd (Nd (Lf 973) (Lf 540)) (Nd (Lf 1434) (Lf 202))) (Nd (Nd (Lf 1013) (Lf 2437))
   (Nd (Lf 1304) (Lf 1929)))) (Nd (Nd (Nd (Lf 1623) (Lf 1078)) (Nd (Lf 450) (Lf 639))) (Nd (Nd (Lf 742) (Lf
   2340)) (Nd (Lf 2317) (Lf 2660)))))) (Nd (Nd (Nd (Nd (Nd (Lf 633) (Lf 1102)) (Nd (Lf 2836) (Lf 521))) (Nd
   (Nd (Lf 2801) (Lf 2737)) (Nd (Lf 2124) (Lf 2605)))) (Nd (Nd (Nd (Lf 662) (Lf 915)) (Nd (Lf 3786) (Lf
   1993))) (Nd (Nd (Lf 2218) (Lf 3604)) (Nd (Lf 836) (Lf 3823))))) (Nd (Nd (Nd (Nd (Lf 2185) (Lf 2604)) (Nd
   (Lf 214) (Lf 2811))) (Nd (Nd (Lf 1985) (Lf 368)) (Nd (Lf 3257) (Lf 1997)))) (Nd (Nd (Nd (Lf 1096) (Lf
   3082)) (Nd (Lf 1199) (Lf 2443))) (Nd (Nd (Lf 3265) (Lf 49)) (Nd (Lf 3100) (Lf 2715))))))) (Nd (Nd (Nd (Nd
   (Nd (Nd (Lf 3120) (Lf 2363)) (Nd (Lf 238) (Lf 1700))) (Nd (Nd (Lf 1952) (Lf 565)) (Nd (Lf 255) (Lf 2429))))
   (Nd (Nd (Nd (Lf 415) (Lf 1757)) (Nd (Lf 1404) (Lf 2620))) (Nd (Nd (Lf 960) (Lf 3803)) (Nd (Lf 1576) (Lf
   1160))))) (Nd (Nd (Nd (Nd (Lf 1971) (Lf 2155)) (Nd (Lf 831) (Lf 2861))) (Nd (Nd (Lf 1009) (Lf 2087)) (Nd
   (Lf 507) (Lf 2378)))) (Nd (Nd (Nd (Lf 534) (Lf 2265)) (Nd (Lf 3580) (Lf 1651))) (Nd (Nd (Lf 1905) (Lf
   2220)) (Nd (Lf 323) (Lf 3387)))))) (Nd (Nd (Nd (Nd (Nd (Lf 680) (Lf 2138)) (Nd (Lf 2355) (Lf 2339))) (Nd
   (Nd (Lf 2469) (Lf 861)) (Nd (Lf 1698) (Lf 3930)))) (Nd (Nd (Nd (Lf 708) (Lf 3027)) (Nd (Lf 1946) (Lf
   1136))) (Nd (Nd (Lf 2743) (Lf 3063)) (Nd (Lf 1295) (Lf 3042))))) (Nd (Nd (Nd (Nd (Lf 1590) (Lf 2580)) (Nd
   (Lf 290) (Lf 3038))) (Nd (Nd (Lf 1274) (Lf 2577)) (Nd (Lf 1251) (Lf 203)))) (Nd (Nd (Nd (Lf 1779) (Lf
   2161)) (Nd (Lf 2402) (Lf 1677))) (Nd (Nd (Lf 1648) (Lf 97)) (Nd (Lf 2939) (Lf 2329))))))))"

definition node_pos_5 :: trie where
  "node_pos_5 =
   Nd (Nd (Nd (Nd (Nd (Nd (Nd (Nd (Lf 224) (Lf 1812)) (Nd (Lf 3898) (Lf 1504))) (Nd (Nd (Lf 1859) (Lf 651))
   (Nd (Lf 1718) (Lf 1378)))) (Nd (Nd (Nd (Lf 842) (Lf 2360)) (Nd (Lf 497) (Lf 2937))) (Nd (Nd (Lf 3419) (Lf
   3244)) (Nd (Lf 385) (Lf 3666))))) (Nd (Nd (Nd (Nd (Lf 710) (Lf 1470)) (Nd (Lf 533) (Lf 1488))) (Nd (Nd (Lf
   552) (Lf 1527)) (Nd (Lf 3356) (Lf 944)))) (Nd (Nd (Nd (Lf 2875) (Lf 3587)) (Nd (Lf 4047) (Lf 1157))) (Nd
   (Nd (Lf 337) (Lf 2250)) (Nd (Lf 64) (Lf 2257)))))) (Nd (Nd (Nd (Nd (Nd (Lf 3094) (Lf 616)) (Nd (Lf 465) (Lf
   66))) (Nd (Nd (Lf 2269) (Lf 317)) (Nd (Lf 3716) (Lf 3610)))) (Nd (Nd (Nd (Lf 2116) (Lf 1675)) (Nd (Lf 3289)
   (Lf 2705))) (Nd (Nd (Lf 2986) (Lf 409)) (Nd (Lf 3669) (Lf 4050))))) (Nd (Nd (Nd (Nd (Lf 3460) (Lf 1602))
   (Nd (Lf 228) (Lf 2377))) (Nd (Nd (Lf 495) (Lf 2519)) (Nd (Lf 3383) (Lf 1256)))) (Nd (Nd (Nd (Lf 2037) (Lf
   3024)) (Nd (Lf 1495) (Lf 4089))) (Nd (Nd (Lf 2601) (Lf 1970)) (Nd (Lf 1540) (Lf 3426))))))) (Nd (Nd (Nd (Nd
   (Nd (Nd (Lf 205) (Lf 980)) (Nd (Lf 946) (Lf 341))) (Nd (Nd (Lf 561) (Lf 870)) (Nd (Lf 3563) (Lf 767)))) (Nd
   (Nd (Nd (Lf 544) (Lf 878)) (Nd (Lf 2024) (Lf 2626))) (Nd (Nd (Lf 1918) (Lf 241)) (Nd (Lf 395) (Lf 3425)))))
   (Nd (Nd (Nd (Nd (Lf 1070) (Lf 70)) (Nd (Lf 3973) (Lf 3198))) (Nd (Nd (Lf 3447) (Lf 1057)) (Nd (Lf 890) (Lf
   2406)))) (Nd (Nd (Nd (Lf 429) (Lf 2548)) (Nd (Lf 3296) (Lf 1747))) (Nd (Nd (Lf 408) (Lf 3817)) (Nd (Lf
   1039) (Lf 1813)))))) (Nd (Nd (Nd (Nd (Nd (Lf 766) (Lf 2236)) (Nd (Lf 35) (Lf 655))) (Nd (Nd (Lf 260) (Lf
   2276)) (Nd (Lf 2865) (Lf 31)))) (Nd (Nd (Nd (Lf 3918) (Lf 2899)) (Nd (Lf 1886) (Lf 3032))) (Nd (Nd (Lf 619)
   (Lf 1773)) (Nd (Lf 1772) (Lf 1161))))) (Nd (Nd (Nd (Nd (Lf 795) (Lf 2574)) (Nd (Lf 1587) (Lf 2510))) (Nd
   (Nd (Lf 2527) (Lf 2754)) (Nd (Lf 1290) (Lf 1924)))) (Nd (Nd (Nd (Lf 3950) (Lf 3601)) (Nd (Lf 2173) (Lf
   1210))) (Nd (Nd (Lf 2806) (Lf 3242)) (Nd (Lf 1809) (Lf 2036)))))))) (Nd (Nd (Nd (Nd (Nd (Nd (Nd (Lf 2784)
   (Lf 1418)) (Nd (Lf 1969) (Lf 3051))) (Nd (Nd (Lf 2568) (Lf 1143)) (Nd (Lf 1887) (Lf 3307)))) (Nd (Nd (Nd
   (Lf 2782) (Lf 657)) (Nd (Lf 1151) (Lf 1237))) (Nd (Nd (Lf 2494) (Lf 3225)) (Nd (Lf 1481) (Lf 1377))))) (Nd
   (Nd (Nd (Nd (Lf 2922) (Lf 1551)) (Nd (Lf 434) (Lf 1630))) (Nd (Nd (Lf 3053) (Lf 2227)) (Nd (Lf 1388) (Lf
   3572)))) (Nd (Nd (Nd (Lf 4035) (Lf 1438)) (Nd (Lf 2959) (Lf 2457))) (Nd (Nd (Lf 623) (Lf 3261)) (Nd (Lf
   3800) (Lf 3720)))))) (Nd (Nd (Nd (Nd (Nd (Lf 294) (Lf 3831)) (Nd (Lf 2254) (Lf 2557))) (Nd (Nd (Lf 2270)
   (Lf 1717)) (Nd (Lf 2113) (Lf 2369)))) (Nd (Nd (Nd (Lf 2701) (Lf 3324)) (Nd (Lf 2845) (Lf 3149))) (Nd (Nd
   (Lf 3844) (Lf 336)) (Nd (Lf 1694) (Lf 1172))))) (Nd (Nd (Nd (Nd (Lf 2985) (Lf 2610)) (Nd (Lf 2625) (Lf
   3298))) (Nd (Nd (Lf 133) (Lf 1069)) (Nd (Lf 1487) (Lf 16)))) (Nd (Nd (Nd (Lf 2126) (Lf 2951)) (Nd (Lf 520)
   (Lf 1000))) (Nd (Nd (Lf 425) (Lf 2780)) (Nd (Lf 3145) (Lf 2802))))))) (Nd (Nd (Nd (Nd (Nd (Nd (Lf 3176) (Lf
   2696)) (Nd (Lf 3568) (Lf 2366))) (Nd (Nd (Lf 2583) (Lf 78)) (Nd (Lf 1628) (Lf 1225)))) (Nd (Nd (Nd (Lf
   3940) (Lf 1708)) (Nd (Lf 2956) (Lf 2619))) (Nd (Nd (Lf 498) (Lf 1586)) (Nd (Lf 3507) (Lf 3515))))) (Nd (Nd
   (Nd (Nd (Lf 198) (Lf 1335)) (Nd (Lf 464) (Lf 399))) (Nd (Nd (Lf 2134) (Lf 2890)) (Nd (Lf 3504) (Lf 2422))))
   (Nd (Nd (Nd (Lf 3013) (Lf 3741)) (Nd (Lf 1911) (Lf 3588))) (Nd (Nd (Lf 954) (Lf 911)) (Nd (Lf 3715) (Lf
   2962)))))) (Nd (Nd (Nd (Nd (Nd (Lf 1152) (Lf 3398)) (Nd (Lf 237) (Lf 787))) (Nd (Nd (Lf 1181) (Lf 1989))
   (Nd (Lf 1243) (Lf 3554)))) (Nd (Nd (Nd (Lf 959) (Lf 2712)) (Nd (Lf 553) (Lf 2984))) (Nd (Nd (Lf 2002) (Lf
   1408)) (Nd (Lf 4059) (Lf 1033))))) (Nd (Nd (Nd (Nd (Lf 32) (Lf 491)) (Nd (Lf 2556) (Lf 208))) (Nd (Nd (Lf
   2935) (Lf 3001)) (Nd (Lf 1667) (Lf 571)))) (Nd (Nd (Nd (Lf 1984) (Lf 2223)) (Nd (Lf 163) (Lf 3626))) (Nd
   (Nd (Lf 235) (Lf 2019)) (Nd (Lf 600) (Lf 2722))))))))"

definition node_pos_6 :: trie where
  "node_pos_6 =
   Nd (Nd (Nd (Nd (Nd (Nd (Nd (Nd (Lf 764) (Lf 297)) (Nd (Lf 2170) (Lf 3682))) (Nd (Nd (Lf 2561) (Lf 439)) (Nd
   (Lf 3724) (Lf 2649)))) (Nd (Nd (Nd (Lf 2486) (Lf 2440)) (Nd (Lf 3608) (Lf 823))) (Nd (Nd (Lf 1764) (Lf 87))
   (Nd (Lf 2645) (Lf 786))))) (Nd (Nd (Nd (Nd (Lf 1507) (Lf 934)) (Nd (Lf 1767) (Lf 3085))) (Nd (Nd (Lf 747)
   (Lf 267)) (Nd (Lf 3804) (Lf 2285)))) (Nd (Nd (Nd (Lf 2117) (Lf 3260)) (Nd (Lf 2448) (Lf 27))) (Nd (Nd (Lf
   1105) (Lf 1742)) (Nd (Lf 103) (Lf 2693)))))) (Nd (Nd (Nd (Nd (Nd (Lf 913) (Lf 193)) (Nd (Lf 3912) (Lf
   3160))) (Nd (Nd (Lf 3126) (Lf 2516)) (Nd (Lf 3707) (Lf 2083)))) (Nd (Nd (Nd (Lf 3213) (Lf 2855)) (Nd (Lf
   1043) (Lf 1269))) (Nd (Nd (Lf 1925) (Lf 548)) (Nd (Lf 68) (Lf 3824))))) (Nd (Nd (Nd (Nd (Lf 1839) (Lf
   2298)) (Nd (Lf 48) (Lf 2585))) (Nd (Nd (Lf 1242) (Lf 1687)) (Nd (Lf 3874) (Lf 1021)))) (Nd (Nd (Nd (Lf 608)
   (Lf 391)) (Nd (Lf 1130) (Lf 3083))) (Nd (Nd (Lf 1522) (Lf 3406)) (Nd (Lf 2305) (Lf 1246))))))) (Nd (Nd (Nd
   (Nd (Nd (Nd (Lf 1523) (Lf 977)) (Nd (Lf 1010) (Lf 2961))) (Nd (Nd (Lf 1638) (Lf 1575)) (Nd (Lf 789) (Lf
   1955)))) (Nd (Nd (Nd (Lf 2103) (Lf 2471)) (Nd (Lf 719) (Lf 2827))) (Nd (Nd (Lf 983) (Lf 3365)) (Nd (Lf
   3768) (Lf 2611))))) (Nd (Nd (Nd (Nd (Lf 1074) (Lf 1505)) (Nd (Lf 2385) (Lf 2141))) (Nd (Nd (Lf 845) (Lf
   2727)) (Nd (Lf 2226) (Lf 1320)))) (Nd (Nd (Nd (Lf 3305) (Lf 3793)) (Nd (Lf 458) (Lf 4048))) (Nd (Nd (Lf
   3103) (Lf 206)) (Nd (Lf 3517) (Lf 3570)))))) (Nd (Nd (Nd (Nd (Nd (Lf 2435) (Lf 1097)) (Nd (Lf 1735) (Lf
   3784))) (Nd (Nd (Lf 1232) (Lf 1561)) (Nd (Lf 2356) (Lf 3011)))) (Nd (Nd (Nd (Lf 781) (Lf 2507)) (Nd (Lf
   615) (Lf 3734))) (Nd (Nd (Lf 539) (Lf 3838)) (Nd (Lf 1879) (Lf 3646))))) (Nd (Nd (Nd (Nd (Lf 2661) (Lf
   1197)) (Nd (Lf 2202) (Lf 2965))) (Nd (Nd (Lf 82) (Lf 1228)) (Nd (Lf 1564) (Lf 2237)))) (Nd (Nd (Nd (Lf
   2474) (Lf 4004)) (Nd (Lf 3816) (Lf 3418))) (Nd (Nd (Lf 788) (Lf 3849)) (Nd (Lf 2148) (Lf 555)))))))) (Nd
   (Nd (Nd (Nd (Nd (Nd (Nd (Lf 1230) (Lf 259)) (Nd (Lf 3864) (Lf 2352))) (Nd (Nd (Lf 1932) (Lf 4010)) (Nd (Lf
   2772) (Lf 1326)))) (Nd (Nd (Nd (Lf 381) (Lf 982)) (Nd (Lf 1089) (Lf 3355))) (Nd (Nd (Lf 3840) (Lf 2004))
   (Nd (Lf 1131) (Lf 1034))))) (Nd (Nd (Nd (Nd (Lf 2532) (Lf 3835)) (Nd (Lf 1816) (Lf 1714))) (Nd (Nd (Lf
   1732) (Lf 1128)) (Nd (Lf 3163) (Lf 3246)))) (Nd (Nd (Nd (Lf 276) (Lf 3536)) (Nd (Lf 672) (Lf 575))) (Nd (Nd
   (Lf 2109) (Lf 400)) (Nd (Lf 365) (Lf 1073)))))) (Nd (Nd (Nd (Nd (Nd (Lf 2003) (Lf 22)) (Nd (Lf 1557) (Lf
   2407))) (Nd (Nd (Lf 925) (Lf 3649)) (Nd (Lf 1666) (Lf 185)))) (Nd (Nd (Nd (Lf 2212) (Lf 1530)) (Nd (Lf
   1581) (Lf 86))) (Nd (Nd (Lf 3057) (Lf 2246)) (Nd (Lf 2199) (Lf 3142))))) (Nd (Nd (Nd (Nd (Lf 3834) (Lf
   2971)) (Nd (Lf 2077) (Lf 2872))) (Nd (Nd (Lf 3668) (Lf 815)) (Nd (Lf 1649) (Lf 2948)))) (Nd (Nd (Nd (Lf
   1321) (Lf 1619)) (Nd (Lf 1011) (Lf 2862))) (Nd (Nd (Lf 223) (Lf 3662)) (Nd (Lf 1433) (Lf 1272))))))) (Nd
   (Nd (Nd (Nd (Nd (Nd (Lf 3372) (Lf 2917)) (Nd (Lf 3528) (Lf 2194))) (Nd (Nd (Lf 3632) (Lf 3692)) (Nd (Lf
   3471) (Lf 644)))) (Nd (Nd (Nd (Lf 3411) (Lf 3409)) (Nd (Lf 2401) (Lf 971))) (Nd (Nd (Lf 1810) (Lf 758)) (Nd
   (Lf 7) (Lf 2029))))) (Nd (Nd (Nd (Nd (Lf 2431) (Lf 268)) (Nd (Lf 3657) (Lf 537))) (Nd (Nd (Lf 1958) (Lf
   328)) (Nd (Lf 1784) (Lf 1279)))) (Nd (Nd (Nd (Lf 638) (Lf 1080)) (Nd (Lf 3638) (Lf 296))) (Nd (Nd (Lf 455)
   (Lf 1400)) (Nd (Lf 2244) (Lf 643)))))) (Nd (Nd (Nd (Nd (Nd (Lf 2046) (Lf 2967)) (Nd (Lf 3069) (Lf 2848)))
   (Nd (Nd (Lf 1287) (Lf 3401)) (Nd (Lf 3585) (Lf 3209)))) (Nd (Nd (Nd (Lf 325) (Lf 3144)) (Nd (Lf 903) (Lf
   1324))) (Nd (Nd (Lf 3965) (Lf 2444)) (Nd (Lf 3034) (Lf 620))))) (Nd (Nd (Nd (Nd (Lf 1788) (Lf 3920)) (Nd
   (Lf 2332) (Lf 585))) (Nd (Nd (Lf 1539) (Lf 426)) (Nd (Lf 1141) (Lf 150)))) (Nd (Nd (Nd (Lf 1620) (Lf 2162))
   (Nd (Lf 1653) (Lf 567))) (Nd (Nd (Lf 1967) (Lf 3891)) (Nd (Lf 2618) (Lf 457))))))))"

definition node_pos_7 :: trie where
  "node_pos_7 =
   Nd (Nd (Nd (Nd (Nd (Nd (Nd (Nd (Lf 286) (Lf 2559)) (Nd (Lf 2350) (Lf 2011))) (Nd (Nd (Lf 2988) (Lf 3806))
   (Nd (Lf 1062) (Lf 703)))) (Nd (Nd (Nd (Lf 2159) (Lf 3583)) (Nd (Lf 2521) (Lf 181))) (Nd (Nd (Lf 3272) (Lf
   1874)) (Nd (Lf 1803) (Lf 691))))) (Nd (Nd (Nd (Nd (Lf 2545) (Lf 1207)) (Nd (Lf 1306) (Lf 190))) (Nd (Nd (Lf
   3586) (Lf 1425)) (Nd (Lf 3633) (Lf 2990)))) (Nd (Nd (Nd (Lf 77) (Lf 1577)) (Nd (Lf 3782) (Lf 3070))) (Nd
   (Nd (Lf 3773) (Lf 3258)) (Nd (Lf 3437) (Lf 1485)))))) (Nd (Nd (Nd (Nd (Nd (Lf 652) (Lf 722)) (Nd (Lf 2884)
   (Lf 3366))) (Nd (Nd (Lf 3951) (Lf 4072)) (Nd (Lf 1503) (Lf 2947)))) (Nd (Nd (Nd (Lf 2719) (Lf 2949)) (Nd
   (Lf 3143) (Lf 1316))) (Nd (Nd (Lf 2348) (Lf 2740)) (Nd (Lf 902) (Lf 2480))))) (Nd (Nd (Nd (Nd (Lf 2735) (Lf
   73)) (Nd (Lf 161) (Lf 1754))) (Nd (Nd (Lf 3376) (Lf 3961)) (Nd (Lf 1822) (Lf 2817)))) (Nd (Nd (Nd (Lf 164)
   (Lf 195)) (Nd (Lf 2993) (Lf 1076))) (Nd (Nd (Lf 1305) (Lf 1116)) (Nd (Lf 564) (Lf 1580))))))) (Nd (Nd (Nd
   (Nd (Nd (Nd (Lf 3555) (Lf 574)) (Nd (Lf 883) (Lf 1260))) (Nd (Nd (Lf 2180) (Lf 1352)) (Nd (Lf 1877) (Lf
   1241)))) (Nd (Nd (Nd (Lf 3194) (Lf 2809)) (Nd (Lf 1678) (Lf 801))) (Nd (Nd (Lf 607) (Lf 1697)) (Nd (Lf 52)
   (Lf 1642))))) (Nd (Nd (Nd (Nd (Lf 1695) (Lf 3808)) (Nd (Lf 2318) (Lf 2598))) (Nd (Nd (Lf 2421) (Lf 3217))
   (Nd (Lf 583) (Lf 1981)))) (Nd (Nd (Nd (Lf 196) (Lf 396)) (Nd (Lf 231) (Lf 2052))) (Nd (Nd (Lf 2235) (Lf
   3306)) (Nd (Lf 1552) (Lf 2041)))))) (Nd (Nd (Nd (Nd (Nd (Lf 1921) (Lf 2977)) (Nd (Lf 797) (Lf 1399))) (Nd
   (Nd (Lf 1992) (Lf 2584)) (Nd (Lf 4023) (Lf 3678)))) (Nd (Nd (Nd (Lf 3021) (Lf 683)) (Nd (Lf 3915) (Lf
   2445))) (Nd (Nd (Lf 3216) (Lf 3953)) (Nd (Lf 2539) (Lf 987))))) (Nd (Nd (Nd (Nd (Lf 3520) (Lf 761)) (Nd (Lf
   2296) (Lf 2709))) (Nd (Nd (Lf 3388) (Lf 1835)) (Nd (Lf 3332) (Lf 3336)))) (Nd (Nd (Nd (Lf 517) (Lf 3254))
   (Nd (Lf 3102) (Lf 1518))) (Nd (Nd (Lf 3121) (Lf 3641)) (Nd (Lf 2546) (Lf 1079)))))))) (Nd (Nd (Nd (Nd (Nd
   (Nd (Nd (Lf 874) (Lf 860)) (Nd (Lf 3196) (Lf 2297))) (Nd (Nd (Lf 2968) (Lf 1101)) (Nd (Lf 2130) (Lf
   3434)))) (Nd (Nd (Nd (Lf 2632) (Lf 3181)) (Nd (Lf 2020) (Lf 3303))) (Nd (Nd (Lf 1176) (Lf 3653)) (Nd (Lf
   2879) (Lf 560))))) (Nd (Nd (Nd (Nd (Lf 2966) (Lf 4036)) (Nd (Lf 3546) (Lf 1363))) (Nd (Nd (Lf 3954) (Lf
   124)) (Nd (Lf 1731) (Lf 462)))) (Nd (Nd (Nd (Lf 2073) (Lf 3967)) (Nd (Lf 3111) (Lf 2462))) (Nd (Nd (Lf
   2043) (Lf 3458)) (Nd (Lf 3375) (Lf 1674)))))) (Nd (Nd (Nd (Nd (Nd (Lf 2264) (Lf 4005)) (Nd (Lf 532) (Lf
   3113))) (Nd (Nd (Lf 2595) (Lf 3857)) (Nd (Lf 1423) (Lf 4045)))) (Nd (Nd (Nd (Lf 1712) (Lf 3755)) (Nd (Lf
   1568) (Lf 572))) (Nd (Nd (Lf 3470) (Lf 358)) (Nd (Lf 406) (Lf 511))))) (Nd (Nd (Nd (Nd (Lf 380) (Lf 3926))
   (Nd (Lf 109) (Lf 2810))) (Nd (Nd (Lf 1385) (Lf 563)) (Nd (Lf 515) (Lf 3990)))) (Nd (Nd (Nd (Lf 791) (Lf
   3004)) (Nd (Lf 3578) (Lf 3413))) (Nd (Nd (Lf 3584) (Lf 1745)) (Nd (Lf 590) (Lf 2987))))))) (Nd (Nd (Nd (Nd
   (Nd (Nd (Lf 449) (Lf 857)) (Nd (Lf 1261) (Lf 1231))) (Nd (Nd (Lf 1204) (Lf 2789)) (Nd (Lf 961) (Lf 43))))
   (Nd (Nd (Nd (Lf 2291) (Lf 3075)) (Nd (Lf 3312) (Lf 1546))) (Nd (Nd (Lf 2892) (Lf 3284)) (Nd (Lf 170) (Lf
   3264))))) (Nd (Nd (Nd (Nd (Lf 4090) (Lf 53)) (Nd (Lf 750) (Lf 2684))) (Nd (Nd (Lf 1821) (Lf 1778)) (Nd (Lf
   2376) (Lf 3345)))) (Nd (Nd (Nd (Lf 446) (Lf 3836)) (Nd (Lf 1374) (Lf 3729))) (Nd (Nd (Lf 2932) (Lf 3161))
   (Nd (Lf 2365) (Lf 1054)))))) (Nd (Nd (Nd (Nd (Nd (Lf 2628) (Lf 3164)) (Nd (Lf 2963) (Lf 1878))) (Nd (Nd (Lf
   3077) (Lf 2858)) (Nd (Lf 2278) (Lf 1266)))) (Nd (Nd (Nd (Lf 2812) (Lf 1049)) (Nd (Lf 3394) (Lf 2358))) (Nd
   (Nd (Lf 658) (Lf 1559)) (Nd (Lf 2675) (Lf 3316))))) (Nd (Nd (Nd (Nd (Lf 338) (Lf 3886)) (Nd (Lf 1939) (Lf
   1200))) (Nd (Nd (Lf 4062) (Lf 3616)) (Nd (Lf 1780) (Lf 256)))) (Nd (Nd (Nd (Lf 2668) (Lf 1314)) (Nd (Lf
   1570) (Lf 3104))) (Nd (Nd (Lf 849) (Lf 3266)) (Nd (Lf 990) (Lf 3869))))))))"

definition node_pos_8 :: trie where
  "node_pos_8 =
   Nd (Nd (Nd (Nd (Nd (Nd (Nd (Nd (Lf 908) (Lf 1392)) (Nd (Lf 2373) (Lf 2099))) (Nd (Nd (Lf 1190) (Lf 1670))
   (Nd (Lf 3615) (Lf 599)))) (Nd (Nd (Nd (Lf 1656) (Lf 3748)) (Nd (Lf 2481) (Lf 2163))) (Nd (Nd (Lf 1188) (Lf
   3291)) (Nd (Lf 3492) (Lf 699))))) (Nd (Nd (Nd (Nd (Lf 93) (Lf 3790)) (Nd (Lf 3363) (Lf 3733))) (Nd (Nd (Lf
   1465) (Lf 3480)) (Nd (Lf 207) (Lf 3412)))) (Nd (Nd (Nd (Lf 2221) (Lf 729)) (Nd (Lf 1928) (Lf 2433))) (Nd
   (Nd (Lf 1134) (Lf 2094)) (Nd (Lf 1840) (Lf 3353)))))) (Nd (Nd (Nd (Nd (Nd (Lf 1041) (Lf 3624)) (Nd (Lf
   1844) (Lf 2092))) (Nd (Nd (Lf 862) (Lf 963)) (Nd (Lf 2030) (Lf 1458)))) (Nd (Nd (Nd (Lf 1193) (Lf 145)) (Nd
   (Lf 242) (Lf 2757))) (Nd (Nd (Lf 739) (Lf 3200)) (Nd (Lf 3055) (Lf 3875))))) (Nd (Nd (Nd (Nd (Lf 3981) (Lf
   1459)) (Nd (Lf 2929) (Lf 2322))) (Nd (Nd (Lf 1473) (Lf 3877)) (Nd (Lf 3343) (Lf 2044)))) (Nd (Nd (Nd (Lf
   461) (Lf 3810)) (Nd (Lf 1124) (Lf 1024))) (Nd (Nd (Lf 3220) (Lf 453)) (Nd (Lf 2528) (Lf 3518))))))) (Nd (Nd
   (Nd (Nd (Nd (Nd (Lf 792) (Lf 769)) (Nd (Lf 1774) (Lf 3162))) (Nd (Nd (Lf 512) (Lf 59)) (Nd (Lf 146) (Lf
   863)))) (Nd (Nd (Nd (Lf 2793) (Lf 2551)) (Nd (Lf 3821) (Lf 1401))) (Nd (Nd (Lf 130) (Lf 1435)) (Nd (Lf 175)
   (Lf 3207))))) (Nd (Nd (Nd (Nd (Lf 889) (Lf 3647)) (Nd (Lf 2201) (Lf 444))) (Nd (Nd (Lf 3825) (Lf 2283)) (Nd
   (Lf 2487) (Lf 885)))) (Nd (Nd (Nd (Lf 642) (Lf 417)) (Nd (Lf 811) (Lf 448))) (Nd (Nd (Lf 909) (Lf 1514))
   (Nd (Lf 3214) (Lf 3792)))))) (Nd (Nd (Nd (Nd (Nd (Lf 459) (Lf 1704)) (Nd (Lf 558) (Lf 2506))) (Nd (Nd (Lf
   1139) (Lf 3983)) (Nd (Lf 3906) (Lf 4094)))) (Nd (Nd (Nd (Lf 2452) (Lf 2253)) (Nd (Lf 221) (Lf 3106))) (Nd
   (Nd (Lf 541) (Lf 1150)) (Nd (Lf 1725) (Lf 3119))))) (Nd (Nd (Nd (Nd (Lf 2564) (Lf 2706)) (Nd (Lf 2245) (Lf
   3125))) (Nd (Nd (Lf 2397) (Lf 646)) (Nd (Lf 4066) (Lf 177)))) (Nd (Nd (Nd (Lf 3661) (Lf 809)) (Nd (Lf 1836)
   (Lf 2732))) (Nd (Nd (Lf 1235) (Lf 1980)) (Nd (Lf 3712) (Lf 2602)))))))) (Nd (Nd (Nd (Nd (Nd (Nd (Nd (Lf
   562) (Lf 2730)) (Nd (Lf 524) (Lf 3423))) (Nd (Nd (Lf 989) (Lf 676)) (Nd (Lf 2741) (Lf 1901)))) (Nd (Nd (Nd
   (Lf 2805) (Lf 1496)) (Nd (Lf 1288) (Lf 2415))) (Nd (Nd (Lf 3932) (Lf 2375)) (Nd (Lf 169) (Lf 1627))))) (Nd
   (Nd (Nd (Nd (Lf 1140) (Lf 1182)) (Nd (Lf 314) (Lf 3281))) (Nd (Nd (Lf 2512) (Lf 864)) (Nd (Lf 3493) (Lf
   253)))) (Nd (Nd (Nd (Lf 550) (Lf 2631)) (Nd (Lf 3513) (Lf 2136))) (Nd (Nd (Lf 2565) (Lf 310)) (Nd (Lf 988)
   (Lf 4057)))))) (Nd (Nd (Nd (Nd (Nd (Lf 3080) (Lf 2669)) (Nd (Lf 3594) (Lf 55))) (Nd (Nd (Lf 1431) (Lf
   3180)) (Nd (Lf 3871) (Lf 660)))) (Nd (Nd (Nd (Lf 3532) (Lf 2484)) (Nd (Lf 1846) (Lf 2893))) (Nd (Nd (Lf
   2698) (Lf 159)) (Nd (Lf 793) (Lf 3182))))) (Nd (Nd (Nd (Nd (Lf 332) (Lf 261)) (Nd (Lf 134) (Lf 122))) (Nd
   (Nd (Lf 494) (Lf 117)) (Nd (Lf 1680) (Lf 3941)))) (Nd (Nd (Nd (Lf 1234) (Lf 1942)) (Nd (Lf 3501) (Lf 624)))
   (Nd (Nd (Lf 2178) (Lf 2868)) (Nd (Lf 1345) (Lf 405))))))) (Nd (Nd (Nd (Nd (Nd (Nd (Lf 1799) (Lf 37)) (Nd
   (Lf 95) (Lf 2381))) (Nd (Nd (Lf 753) (Lf 1944)) (Nd (Lf 1560) (Lf 1229)))) (Nd (Nd (Nd (Lf 2319) (Lf 618))
   (Nd (Lf 2586) (Lf 2869))) (Nd (Nd (Lf 3591) (Lf 2752)) (Nd (Lf 732) (Lf 4007))))) (Nd (Nd (Nd (Nd (Lf 1291)
   (Lf 2483)) (Nd (Lf 3017) (Lf 244))) (Nd (Nd (Lf 2051) (Lf 2934)) (Nd (Lf 501) (Lf 3438)))) (Nd (Nd (Nd (Lf
   993) (Lf 3442)) (Nd (Lf 776) (Lf 2747))) (Nd (Nd (Lf 3577) (Lf 1357)) (Nd (Lf 1705) (Lf 1931)))))) (Nd (Nd
   (Nd (Nd (Nd (Lf 2006) (Lf 1533)) (Nd (Lf 471) (Lf 1221))) (Nd (Nd (Lf 2686) (Lf 2997)) (Nd (Lf 686) (Lf
   1198)))) (Nd (Nd (Nd (Lf 3273) (Lf 1429)) (Nd (Lf 3455) (Lf 1475))) (Nd (Nd (Lf 2617) (Lf 707)) (Nd (Lf
   1196) (Lf 1566))))) (Nd (Nd (Nd (Nd (Lf 927) (Lf 1023)) (Nd (Lf 1868) (Lf 3992))) (Nd (Nd (Lf 1012) (Lf
   3927)) (Nd (Lf 1271) (Lf 2061)))) (Nd (Nd (Nd (Lf 3133) (Lf 140)) (Nd (Lf 2370) (Lf 1185))) (Nd (Nd (Lf
   3611) (Lf 2468)) (Nd (Lf 17) (Lf 3966))))))))"

definition node_pos_9 :: trie where
  "node_pos_9 =
   Nd (Nd (Nd (Nd (Nd (Nd (Nd (Nd (Lf 10) (Lf 730)) (Nd (Lf 3500) (Lf 360))) (Nd (Nd (Lf 4083) (Lf 3642)) (Nd
   (Lf 3020) (Lf 2687)))) (Nd (Nd (Nd (Lf 3210) (Lf 4015)) (Nd (Lf 721) (Lf 2164))) (Nd (Nd (Lf 1227) (Lf
   1983)) (Nd (Lf 2304) (Lf 1909))))) (Nd (Nd (Nd (Nd (Lf 1857) (Lf 3975)) (Nd (Lf 1759) (Lf 814))) (Nd (Nd
   (Lf 1412) (Lf 1413)) (Nd (Lf 530) (Lf 3796)))) (Nd (Nd (Nd (Lf 755) (Lf 1748)) (Nd (Lf 731) (Lf 3116))) (Nd
   (Nd (Lf 1665) (Lf 1240)) (Nd (Lf 2017) (Lf 1572)))))) (Nd (Nd (Nd (Nd (Nd (Lf 414) (Lf 2597)) (Nd (Lf 1834)
   (Lf 1348))) (Nd (Nd (Lf 910) (Lf 3151)) (Nd (Lf 1209) (Lf 948)))) (Nd (Nd (Nd (Lf 1574) (Lf 1042)) (Nd (Lf
   3693) (Lf 315))) (Nd (Nd (Lf 470) (Lf 3637)) (Nd (Lf 2400) (Lf 1615))))) (Nd (Nd (Nd (Nd (Lf 51) (Lf 2405))
   (Nd (Lf 516) (Lf 1403))) (Nd (Nd (Lf 3595) (Lf 1758)) (Nd (Lf 2149) (Lf 999)))) (Nd (Nd (Nd (Lf 749) (Lf
   12)) (Nd (Lf 1808) (Lf 282))) (Nd (Nd (Lf 1118) (Lf 705)) (Nd (Lf 1450) (Lf 2945))))))) (Nd (Nd (Nd (Nd (Nd
   (Nd (Lf 1832) (Lf 1787)) (Nd (Lf 723) (Lf 3684))) (Nd (Nd (Lf 2076) (Lf 3884)) (Nd (Lf 1184) (Lf 111))))
   (Nd (Nd (Nd (Lf 522) (Lf 2871)) (Nd (Lf 2289) (Lf 3569))) (Nd (Nd (Lf 3812) (Lf 1055)) (Nd (Lf 941) (Lf
   3005))))) (Nd (Nd (Nd (Nd (Lf 1612) (Lf 2978)) (Nd (Lf 2593) (Lf 2476))) (Nd (Nd (Lf 1578) (Lf 1746)) (Nd
   (Lf 3726) (Lf 343)))) (Nd (Nd (Nd (Lf 1211) (Lf 1336)) (Nd (Lf 269) (Lf 2347))) (Nd (Nd (Lf 2403) (Lf
   2718)) (Nd (Lf 2816) (Lf 907)))))) (Nd (Nd (Nd (Nd (Nd (Lf 2399) (Lf 4021)) (Nd (Lf 581) (Lf 1652))) (Nd
   (Nd (Lf 2359) (Lf 4055)) (Nd (Lf 1673) (Lf 1600)))) (Nd (Nd (Nd (Lf 1872) (Lf 1282)) (Nd (Lf 3158) (Lf
   2302))) (Nd (Nd (Lf 3118) (Lf 3450)) (Nd (Lf 752) (Lf 441))))) (Nd (Nd (Nd (Nd (Lf 3322) (Lf 904)) (Nd (Lf
   3134) (Lf 3607))) (Nd (Nd (Lf 3429) (Lf 3677)) (Nd (Lf 2883) (Lf 817)))) (Nd (Nd (Nd (Lf 75) (Lf 2045)) (Nd
   (Lf 2467) (Lf 3934))) (Nd (Nd (Lf 1383) (Lf 3690)) (Nd (Lf 2894) (Lf 2495)))))))) (Nd (Nd (Nd (Nd (Nd (Nd
   (Nd (Lf 2928) (Lf 2420)) (Nd (Lf 454) (Lf 1469))) (Nd (Nd (Lf 3534) (Lf 2174)) (Nd (Lf 2708) (Lf 1916))))
   (Nd (Nd (Nd (Lf 2282) (Lf 1491)) (Nd (Lf 2239) (Lf 252))) (Nd (Nd (Lf 2295) (Lf 702)) (Nd (Lf 1365) (Lf
   2015))))) (Nd (Nd (Nd (Nd (Lf 348) (Lf 2423)) (Nd (Lf 3708) (Lf 1030))) (Nd (Nd (Lf 4009) (Lf 1891)) (Nd
   (Lf 467) (Lf 2657)))) (Nd (Nd (Nd (Lf 1483) (Lf 3984)) (Nd (Lf 3314) (Lf 2256))) (Nd (Nd (Lf 1397) (Lf 90))
   (Nd (Lf 3310) (Lf 1947)))))) (Nd (Nd (Nd (Nd (Nd (Lf 506) (Lf 204)) (Nd (Lf 597) (Lf 2062))) (Nd (Nd (Lf
   2563) (Lf 587)) (Nd (Lf 1333) (Lf 2086)))) (Nd (Nd (Nd (Lf 2825) (Lf 1573)) (Nd (Lf 1494) (Lf 692))) (Nd
   (Nd (Lf 1926) (Lf 2508)) (Nd (Lf 432) (Lf 3093))))) (Nd (Nd (Nd (Nd (Lf 2828) (Lf 2638)) (Nd (Lf 3109) (Lf
   3277))) (Nd (Nd (Lf 232) (Lf 3928)) (Nd (Lf 3313) (Lf 1006)))) (Nd (Nd (Nd (Lf 1233) (Lf 3923)) (Nd (Lf
   1657) (Lf 2394))) (Nd (Nd (Lf 3679) (Lf 3713)) (Nd (Lf 3263) (Lf 4025))))))) (Nd (Nd (Nd (Nd (Nd (Nd (Lf 6)
   (Lf 326)) (Nd (Lf 1409) (Lf 24))) (Nd (Nd (Lf 621) (Lf 2591)) (Nd (Lf 2491) (Lf 872)))) (Nd (Nd (Nd (Lf 69)
   (Lf 3099)) (Nd (Lf 1051) (Lf 1850))) (Nd (Nd (Lf 3931) (Lf 3147)) (Nd (Lf 1534) (Lf 2060))))) (Nd (Nd (Nd
   (Nd (Lf 3148) (Lf 3166)) (Nd (Lf 1671) (Lf 183))) (Nd (Nd (Lf 2262) (Lf 3675)) (Nd (Lf 1796) (Lf 1477))))
   (Nd (Nd (Nd (Lf 2919) (Lf 681)) (Nd (Lf 2021) (Lf 3620))) (Nd (Nd (Lf 184) (Lf 1849)) (Nd (Lf 3893) (Lf
   2464)))))) (Nd (Nd (Nd (Nd (Nd (Lf 2229) (Lf 2499)) (Nd (Lf 2135) (Lf 4040))) (Nd (Nd (Lf 2874) (Lf 3131))
   (Nd (Lf 2955) (Lf 3474)))) (Nd (Nd (Nd (Lf 131) (Lf 2920)) (Nd (Lf 2478) (Lf 3153))) (Nd (Nd (Lf 3090) (Lf
   2975)) (Nd (Lf 2111) (Lf 120))))) (Nd (Nd (Nd (Nd (Lf 3860) (Lf 433)) (Nd (Lf 1851) (Lf 2655))) (Nd (Nd (Lf
   307) (Lf 1894)) (Nd (Lf 3072) (Lf 1390)))) (Nd (Nd (Nd (Lf 810) (Lf 1537)) (Nd (Lf 3318) (Lf 700))) (Nd (Nd
   (Lf 2760) (Lf 2502)) (Nd (Lf 2755) (Lf 413))))))))"

definition node_pos_10 :: trie where
  "node_pos_10 =
   Nd (Nd (Nd (Nd (Nd (Nd (Nd (Nd (Lf 2417) (Lf 2552)) (Nd (Lf 138) (Lf 1244))) (Nd (Nd (Lf 3172) (Lf 2876))
   (Nd (Lf 828) (Lf 1309)))) (Nd (Nd (Nd (Lf 2252) (Lf 2079)) (Nd (Lf 2281) (Lf 2034))) (Nd (Nd (Lf 372) (Lf
   2542)) (Nd (Lf 3320) (Lf 1613))))) (Nd (Nd (Nd (Nd (Lf 4060) (Lf 582)) (Nd (Lf 2139) (Lf 2438))) (Nd (Nd
   (Lf 2331) (Lf 992)) (Nd (Lf 3078) (Lf 2908)))) (Nd (Nd (Nd (Lf 2184) (Lf 2658)) (Nd (Lf 3250) (Lf 2330)))
   (Nd (Nd (Lf 736) (Lf 2384)) (Nd (Lf 3865) (Lf 3508)))))) (Nd (Nd (Nd (Nd (Nd (Lf 226) (Lf 2463)) (Nd (Lf
   2208) (Lf 1988))) (Nd (Nd (Lf 2736) (Lf 3613)) (Nd (Lf 3617) (Lf 1906)))) (Nd (Nd (Nd (Lf 3245) (Lf 3451))
   (Nd (Lf 162) (Lf 2878))) (Nd (Nd (Lf 1389) (Lf 1569)) (Nd (Lf 3112) (Lf 3777))))) (Nd (Nd (Nd (Nd (Lf 1338)
   (Lf 3597)) (Nd (Lf 402) (Lf 440))) (Nd (Nd (Lf 751) (Lf 2925)) (Nd (Lf 3092) (Lf 1646)))) (Nd (Nd (Nd (Lf
   3415) (Lf 2662)) (Nd (Lf 3828) (Lf 3502))) (Nd (Nd (Lf 1366) (Lf 1895)) (Nd (Lf 2309) (Lf 1289))))))) (Nd
   (Nd (Nd (Nd (Nd (Nd (Lf 3285) (Lf 629)) (Nd (Lf 2472) (Lf 1411))) (Nd (Nd (Lf 490) (Lf 2142)) (Nd (Lf 1790)
   (Lf 1597)))) (Nd (Nd (Nd (Lf 923) (Lf 1032)) (Nd (Lf 236) (Lf 2652))) (Nd (Nd (Lf 3516) (Lf 1524)) (Nd (Lf
   2465) (Lf 645))))) (Nd (Nd (Nd (Nd (Lf 327) (Lf 2643)) (Nd (Lf 4018) (Lf 1614))) (Nd (Nd (Lf 2070) (Lf
   1406)) (Nd (Lf 916) (Lf 3971)))) (Nd (Nd (Nd (Lf 3229) (Lf 1394)) (Nd (Lf 1405) (Lf 3700))) (Nd (Nd (Lf
   3114) (Lf 2176)) (Nd (Lf 958) (Lf 1737)))))) (Nd (Nd (Nd (Nd (Nd (Lf 1713) (Lf 2336)) (Nd (Lf 2473) (Lf
   4000))) (Nd (Nd (Lf 3765) (Lf 3702)) (Nd (Lf 3719) (Lf 2446)))) (Nd (Nd (Nd (Lf 1293) (Lf 1113)) (Nd (Lf
   2804) (Lf 3908))) (Nd (Nd (Lf 1175) (Lf 2035)) (Nd (Lf 2666) (Lf 922))))) (Nd (Nd (Nd (Nd (Lf 2594) (Lf
   2490)) (Nd (Lf 2560) (Lf 2501))) (Nd (Nd (Lf 187) (Lf 264)) (Nd (Lf 1186) (Lf 1179)))) (Nd (Nd (Nd (Lf
   2075) (Lf 2555)) (Nd (Lf 1541) (Lf 4074))) (Nd (Nd (Lf 60) (Lf 3043)) (Nd (Lf 1529) (Lf 2268)))))))) (Nd
   (Nd (Nd (Nd (Nd (Nd (Nd (Lf 2144) (Lf 912)) (Nd (Lf 2909) (Lf 1268))) (Nd (Nd (Lf 2606) (Lf 2797)) (Nd (Lf
   1158) (Lf 3788)))) (Nd (Nd (Nd (Lf 1319) (Lf 3937)) (Nd (Lf 2783) (Lf 101))) (Nd (Nd (Lf 901) (Lf 377)) (Nd
   (Lf 2386) (Lf 772))))) (Nd (Nd (Nd (Nd (Lf 2634) (Lf 1178)) (Nd (Lf 3465) (Lf 2367))) (Nd (Nd (Lf 3619) (Lf
   1611)) (Nd (Lf 2025) (Lf 3380)))) (Nd (Nd (Nd (Lf 768) (Lf 3416)) (Nd (Lf 1045) (Lf 121))) (Nd (Nd (Lf 504)
   (Lf 1854)) (Nd (Lf 3304) (Lf 3479)))))) (Nd (Nd (Nd (Nd (Nd (Lf 1354) (Lf 1991)) (Nd (Lf 1637) (Lf 1641)))
   (Nd (Nd (Lf 2957) (Lf 1768)) (Nd (Lf 765) (Lf 85)))) (Nd (Nd (Nd (Lf 774) (Lf 1059)) (Nd (Lf 41) (Lf 382)))
   (Nd (Nd (Lf 3574) (Lf 2167)) (Nd (Lf 2307) (Lf 1457))))) (Nd (Nd (Nd (Nd (Lf 2410) (Lf 1825)) (Nd (Lf 2496)
   (Lf 2114))) (Nd (Nd (Lf 876) (Lf 3737)) (Nd (Lf 926) (Lf 387)))) (Nd (Nd (Nd (Lf 2726) (Lf 3964)) (Nd (Lf
   718) (Lf 4013))) (Nd (Nd (Lf 1726) (Lf 2338)) (Nd (Lf 1148) (Lf 4017))))))) (Nd (Nd (Nd (Nd (Nd (Nd (Lf
   957) (Lf 632)) (Nd (Lf 873) (Lf 822))) (Nd (Nd (Lf 3879) (Lf 2914)) (Nd (Lf 1048) (Lf 1811)))) (Nd (Nd (Nd
   (Lf 3006) (Lf 3671)) (Nd (Lf 1519) (Lf 2938))) (Nd (Nd (Lf 3722) (Lf 1167)) (Nd (Lf 711) (Lf 1340))))) (Nd
   (Nd (Nd (Nd (Lf 397) (Lf 168)) (Nd (Lf 679) (Lf 1555))) (Nd (Nd (Lf 3698) (Lf 3446)) (Nd (Lf 3991) (Lf
   3673)))) (Nd (Nd (Nd (Lf 339) (Lf 1463)) (Nd (Lf 4058) (Lf 1106))) (Nd (Nd (Lf 478) (Lf 3514)) (Nd (Lf
   3822) (Lf 1156)))))) (Nd (Nd (Nd (Nd (Nd (Lf 2286) (Lf 3749)) (Nd (Lf 210) (Lf 489))) (Nd (Nd (Lf 3362) (Lf
   151)) (Nd (Lf 4084) (Lf 1532)))) (Nd (Nd (Nd (Lf 4070) (Lf 819)) (Nd (Lf 2284) (Lf 1480))) (Nd (Nd (Lf
   3123) (Lf 1007)) (Nd (Lf 2906) (Lf 3933))))) (Nd (Nd (Nd (Nd (Lf 3721) (Lf 853)) (Nd (Lf 2240) (Lf 3044)))
   (Nd (Nd (Lf 80) (Lf 3842)) (Nd (Lf 192) (Lf 3744)))) (Nd (Nd (Nd (Lf 2832) (Lf 63)) (Nd (Lf 1285) (Lf
   363))) (Nd (Nd (Lf 3321) (Lf 1276)) (Nd (Lf 1594) (Lf 334))))))))"

definition node_pos_11 :: trie where
  "node_pos_11 =
   Nd (Nd (Nd (Nd (Nd (Nd (Nd (Nd (Lf 1940) (Lf 1954)) (Nd (Lf 1517) (Lf 1111))) (Nd (Nd (Lf 3347) (Lf 1606))
   (Nd (Lf 847) (Lf 1430)))) (Nd (Nd (Nd (Lf 775) (Lf 2739)) (Nd (Lf 2013) (Lf 201))) (Nd (Nd (Lf 938) (Lf
   1427)) (Nd (Lf 1885) (Lf 1359))))) (Nd (Nd (Nd (Nd (Lf 1986) (Lf 2450)) (Nd (Lf 956) (Lf 1286))) (Nd (Nd
   (Lf 557) (Lf 2492)) (Nd (Lf 1460) (Lf 754)))) (Nd (Nd (Nd (Lf 1084) (Lf 2064)) (Nd (Lf 4080) (Lf 3680)))
   (Nd (Nd (Lf 3766) (Lf 2056)) (Nd (Lf 345) (Lf 3686)))))) (Nd (Nd (Nd (Nd (Nd (Lf 15) (Lf 2522)) (Nd (Lf
   1979) (Lf 1373))) (Nd (Nd (Lf 3238) (Lf 3894)) (Nd (Lf 288) (Lf 1311)))) (Nd (Nd (Nd (Lf 2341) (Lf 1252))
   (Nd (Lf 894) (Lf 3454))) (Nd (Nd (Lf 3916) (Lf 99)) (Nd (Lf 2558) (Lf 152))))) (Nd (Nd (Nd (Nd (Lf 3233)
   (Lf 3506)) (Nd (Lf 2084) (Lf 3963))) (Nd (Nd (Lf 3364) (Lf 2749)) (Nd (Lf 3402) (Lf 3596)))) (Nd (Nd (Nd
   (Lf 3440) (Lf 1278)) (Nd (Lf 1165) (Lf 2311))) (Nd (Nd (Lf 1827) (Lf 778)) (Nd (Lf 518) (Lf 1267))))))) (Nd
   (Nd (Nd (Nd (Nd (Nd (Lf 2918) (Lf 1375)) (Nd (Lf 2005) (Lf 1446))) (Nd (Nd (Lf 3650) (Lf 1826)) (Nd (Lf
   3899) (Lf 403)))) (Nd (Nd (Nd (Lf 2247) (Lf 2676)) (Nd (Lf 2833) (Lf 630))) (Nd (Nd (Lf 4051) (Lf 3421))
   (Nd (Lf 1129) (Lf 3659))))) (Nd (Nd (Nd (Nd (Lf 2128) (Lf 3086)) (Nd (Lf 981) (Lf 1634))) (Nd (Nd (Lf 2287)
   (Lf 2354)) (Nd (Lf 1935) (Lf 551)))) (Nd (Nd (Nd (Lf 1689) (Lf 2308)) (Nd (Lf 423) (Lf 1325))) (Nd (Nd (Lf
   468) (Lf 2500)) (Nd (Lf 2238) (Lf 2704)))))) (Nd (Nd (Nd (Nd (Nd (Lf 2587) (Lf 1852)) (Nd (Lf 44) (Lf
   2368))) (Nd (Nd (Lf 2016) (Lf 3787)) (Nd (Lf 2497) (Lf 1957)))) (Nd (Nd (Nd (Lf 3079) (Lf 34)) (Nd (Lf
   1724) (Lf 172))) (Nd (Nd (Lf 250) (Lf 1544)) (Nd (Lf 499) (Lf 794))))) (Nd (Nd (Nd (Nd (Lf 322) (Lf 2731))
   (Nd (Lf 790) (Lf 1739))) (Nd (Nd (Lf 4012) (Lf 1056)) (Nd (Lf 3226) (Lf 248)))) (Nd (Nd (Nd (Lf 1361) (Lf
   383)) (Nd (Lf 2653) (Lf 3771))) (Nd (Nd (Lf 418) (Lf 220)) (Nd (Lf 2823) (Lf 496)))))))) (Nd (Nd (Nd (Nd
   (Nd (Nd (Nd (Lf 3499) (Lf 2351)) (Nd (Lf 2788) (Lf 1500))) (Nd (Nd (Lf 2018) (Lf 488)) (Nd (Lf 2382) (Lf
   2881)))) (Nd (Nd (Nd (Lf 2393) (Lf 2659)) (Nd (Lf 2413) (Lf 295))) (Nd (Nd (Lf 1426) (Lf 2888)) (Nd (Lf
   284) (Lf 945))))) (Nd (Nd (Nd (Nd (Lf 1683) (Lf 437)) (Nd (Lf 2745) (Lf 2081))) (Nd (Nd (Lf 2503) (Lf
   2196)) (Nd (Lf 3205) (Lf 577)))) (Nd (Nd (Nd (Lf 2418) (Lf 1142)) (Nd (Lf 157) (Lf 3547))) (Nd (Nd (Lf 693)
   (Lf 2870)) (Nd (Lf 96) (Lf 135)))))) (Nd (Nd (Nd (Nd (Nd (Lf 3549) (Lf 4088)) (Nd (Lf 199) (Lf 1596))) (Nd
   (Nd (Lf 2758) (Lf 2637)) (Nd (Lf 3404) (Lf 2301)))) (Nd (Nd (Nd (Lf 3202) (Lf 3165)) (Nd (Lf 2976) (Lf
   871))) (Nd (Nd (Lf 3444) (Lf 1516)) (Nd (Lf 1982) (Lf 3767))))) (Nd (Nd (Nd (Nd (Lf 1910) (Lf 3676)) (Nd
   (Lf 2895) (Lf 3391))) (Nd (Nd (Lf 1281) (Lf 3660)) (Nd (Lf 2409) (Lf 3494)))) (Nd (Nd (Nd (Lf 2614) (Lf
   3108)) (Nd (Lf 2663) (Lf 3892))) (Nd (Nd (Lf 3137) (Lf 3302)) (Nd (Lf 2857) (Lf 313))))))) (Nd (Nd (Nd (Nd
   (Nd (Nd (Lf 3003) (Lf 393)) (Nd (Lf 4024) (Lf 3462))) (Nd (Nd (Lf 1332) (Lf 2274)) (Nd (Lf 2751) (Lf
   1046)))) (Nd (Nd (Nd (Lf 1520) (Lf 1883)) (Nd (Lf 921) (Lf 128))) (Nd (Nd (Lf 839) (Lf 838)) (Nd (Lf 61)
   (Lf 3573))))) (Nd (Nd (Nd (Nd (Lf 2596) (Lf 1922)) (Nd (Lf 687) (Lf 3424))) (Nd (Nd (Lf 1277) (Lf 1775))
   (Nd (Lf 740) (Lf 1247)))) (Nd (Nd (Nd (Lf 3016) (Lf 2936)) (Nd (Lf 3903) (Lf 281))) (Nd (Nd (Lf 23) (Lf
   3235)) (Nd (Lf 1364) (Lf 378)))))) (Nd (Nd (Nd (Nd (Nd (Lf 2885) (Lf 1753)) (Nd (Lf 994) (Lf 3140))) (Nd
   (Nd (Lf 3267) (Lf 1414)) (Nd (Lf 535) (Lf 2383)))) (Nd (Nd (Nd (Lf 1393) (Lf 463)) (Nd (Lf 2677) (Lf
   1618))) (Nd (Nd (Lf 3814) (Lf 1912)) (Nd (Lf 2900) (Lf 2930))))) (Nd (Nd (Nd (Nd (Lf 1133) (Lf 3889)) (Nd
   (Lf 1650) (Lf 1765))) (Nd (Nd (Lf 2455) (Lf 3739)) (Nd (Lf 3845) (Lf 2392)))) (Nd (Nd (Nd (Lf 1115) (Lf
   1871)) (Nd (Lf 3117) (Lf 1828))) (Nd (Nd (Lf 3135) (Lf 2398)) (Nd (Lf 2723) (Lf 2607))))))))"

definition node_pos_12 :: trie where
  "node_pos_12 =
   Nd (Nd (Nd (Nd (Nd (Nd (Nd (Nd (Lf 689) (Lf 2456)) (Nd (Lf 640) (Lf 2439))) (Nd (Nd (Lf 3146) (Lf 266)) (Nd
   (Lf 2695) (Lf 3397)))) (Nd (Nd (Nd (Lf 2767) (Lf 3431)) (Nd (Lf 1766) (Lf 274))) (Nd (Nd (Lf 3735) (Lf
   1521)) (Nd (Lf 2627) (Lf 2293))))) (Nd (Nd (Nd (Nd (Lf 3348) (Lf 1937)) (Nd (Lf 1350) (Lf 1563))) (Nd (Nd
   (Lf 2260) (Lf 1071)) (Nd (Lf 2441) (Lf 2095)))) (Nd (Nd (Nd (Lf 3154) (Lf 1026)) (Nd (Lf 4091) (Lf 598)))
   (Nd (Nd (Lf 2132) (Lf 2228)) (Nd (Lf 1445) (Lf 1550)))))) (Nd (Nd (Nd (Nd (Nd (Lf 2204) (Lf 2974)) (Nd (Lf
   5) (Lf 3527))) (Nd (Nd (Lf 2589) (Lf 3664)) (Nd (Lf 74) (Lf 1899)))) (Nd (Nd (Nd (Lf 605) (Lf 410)) (Nd (Lf
   2424) (Lf 3969))) (Nd (Nd (Lf 272) (Lf 3282)) (Nd (Lf 2089) (Lf 4082))))) (Nd (Nd (Nd (Nd (Lf 1616) (Lf
   3367)) (Nd (Lf 503) (Lf 3757))) (Nd (Nd (Lf 3338) (Lf 1149)) (Nd (Lf 625) (Lf 2673)))) (Nd (Nd (Nd (Lf
   1624) (Lf 1771)) (Nd (Lf 2640) (Lf 3625))) (Nd (Nd (Lf 3046) (Lf 3323)) (Nd (Lf 1707) (Lf 3002))))))) (Nd
   (Nd (Nd (Nd (Nd (Nd (Lf 127) (Lf 1371)) (Nd (Lf 249) (Lf 2479))) (Nd (Nd (Lf 1629) (Lf 1448)) (Nd (Lf 3439)
   (Lf 2639)))) (Nd (Nd (Nd (Lf 3386) (Lf 306)) (Nd (Lf 2785) (Lf 2222))) (Nd (Nd (Lf 3576) (Lf 1556)) (Nd (Lf
   84) (Lf 1513))))) (Nd (Nd (Nd (Nd (Lf 2205) (Lf 2303)) (Nd (Lf 1853) (Lf 3654))) (Nd (Nd (Lf 3972) (Lf
   2408)) (Nd (Lf 3998) (Lf 1858)))) (Nd (Nd (Nd (Lf 1478) (Lf 2032)) (Nd (Lf 1216) (Lf 419))) (Nd (Nd (Lf
   2414) (Lf 1743)) (Nd (Lf 1794) (Lf 1061)))))) (Nd (Nd (Nd (Nd (Nd (Lf 3073) (Lf 1066)) (Nd (Lf 2746) (Lf
   3544))) (Nd (Nd (Lf 1589) (Lf 2998)) (Nd (Lf 1222) (Lf 388)))) (Nd (Nd (Nd (Lf 2530) (Lf 3359)) (Nd (Lf
   436) (Lf 2156))) (Nd (Nd (Lf 2475) (Lf 3341)) (Nd (Lf 827) (Lf 1501))))) (Nd (Nd (Nd (Nd (Lf 2672) (Lf
   2362)) (Nd (Lf 514) (Lf 3329))) (Nd (Nd (Lf 1436) (Lf 1996)) (Nd (Lf 4) (Lf 3537)))) (Nd (Nd (Nd (Lf 3695)
   (Lf 1710)) (Nd (Lf 833) (Lf 1923))) (Nd (Nd (Lf 154) (Lf 3193)) (Nd (Lf 3913) (Lf 2738)))))))) (Nd (Nd (Nd
   (Nd (Nd (Nd (Nd (Lf 1720) (Lf 4086)) (Nd (Lf 2509) (Lf 3155))) (Nd (Nd (Lf 606) (Lf 3863)) (Nd (Lf 353) (Lf
   189)))) (Nd (Nd (Nd (Lf 2633) (Lf 2353)) (Nd (Lf 1068) (Lf 3799))) (Nd (Nd (Lf 113) (Lf 779)) (Nd (Lf 1838)
   (Lf 3872))))) (Nd (Nd (Nd (Nd (Lf 967) (Lf 4085)) (Nd (Lf 1398) (Lf 2777))) (Nd (Nd (Lf 3396) (Lf 2999))
   (Nd (Lf 3756) (Lf 2272)))) (Nd (Nd (Nd (Lf 995) (Lf 1135)) (Nd (Lf 1017) (Lf 3035))) (Nd (Nd (Lf 985) (Lf
   1933)) (Nd (Lf 667) (Lf 2255)))))) (Nd (Nd (Nd (Nd (Nd (Lf 804) (Lf 300)) (Nd (Lf 2213) (Lf 1018))) (Nd (Nd
   (Lf 1956) (Lf 1599)) (Nd (Lf 1166) (Lf 696)))) (Nd (Nd (Nd (Lf 3286) (Lf 1112)) (Nd (Lf 2049) (Lf 1843)))
   (Nd (Nd (Lf 1806) (Lf 3510)) (Nd (Lf 3862) (Lf 3750))))) (Nd (Nd (Nd (Nd (Lf 3050) (Lf 3467)) (Nd (Lf 1829)
   (Lf 1342))) (Nd (Nd (Lf 2710) (Lf 3645)) (Nd (Lf 1343) (Lf 3935)))) (Nd (Nd (Nd (Lf 40) (Lf 258)) (Nd (Lf
   785) (Lf 586))) (Nd (Nd (Lf 2846) (Lf 1617)) (Nd (Lf 2569) (Lf 2374))))))) (Nd (Nd (Nd (Nd (Nd (Nd (Lf
   3170) (Lf 263)) (Nd (Lf 937) (Lf 4065))) (Nd (Nd (Lf 3985) (Lf 2725)) (Nd (Lf 1785) (Lf 1249)))) (Nd (Nd
   (Nd (Lf 1187) (Lf 1493)) (Nd (Lf 1807) (Lf 1482))) (Nd (Nd (Lf 1220) (Lf 2554)) (Nd (Lf 3218) (Lf 1417)))))
   (Nd (Nd (Nd (Nd (Lf 143) (Lf 4071)) (Nd (Lf 2106) (Lf 1163))) (Nd (Nd (Lf 33) (Lf 2992)) (Nd (Lf 1257) (Lf
   1795)))) (Nd (Nd (Nd (Lf 1451) (Lf 354)) (Nd (Lf 148) (Lf 4052))) (Nd (Nd (Lf 4064) (Lf 3009)) (Nd (Lf
   3058) (Lf 3775)))))) (Nd (Nd (Nd (Nd (Nd (Lf 3357) (Lf 4063)) (Nd (Lf 342) (Lf 173))) (Nd (Nd (Lf 200) (Lf
   1963)) (Nd (Lf 3179) (Lf 1938)))) (Nd (Nd (Nd (Lf 2325) (Lf 1833)) (Nd (Lf 2769) (Lf 3317))) (Nd (Nd (Lf
   2258) (Lf 3466)) (Nd (Lf 211) (Lf 2279))))) (Nd (Nd (Nd (Nd (Lf 1598) (Lf 1060)) (Nd (Lf 882) (Lf 2720)))
   (Nd (Nd (Lf 3025) (Lf 1344)) (Nd (Lf 3171) (Lf 1626)))) (Nd (Nd (Nd (Lf 3315) (Lf 1047)) (Nd (Lf 2651) (Lf
   1100))) (Nd (Nd (Lf 222) (Lf 1900)) (Nd (Lf 1819) (Lf 3385))))))))"

definition node_pos_13 :: trie where
  "node_pos_13 =
   Nd (Nd (Nd (Nd (Nd (Nd (Nd (Nd (Lf 1016) (Lf 1386)) (Nd (Lf 309) (Lf 2664))) (Nd (Nd (Lf 2261) (Lf 3066))
   (Nd (Lf 3468) (Lf 3241)))) (Nd (Nd (Nd (Lf 287) (Lf 1212)) (Nd (Lf 1601) (Lf 3484))) (Nd (Nd (Lf 452) (Lf
   1170)) (Nd (Lf 3417) (Lf 1273))))) (Nd (Nd (Nd (Nd (Lf 1218) (Lf 102)) (Nd (Lf 3818) (Lf 3331))) (Nd (Nd
   (Lf 771) (Lf 3141)) (Nd (Lf 2230) (Lf 3523)))) (Nd (Nd (Nd (Lf 1452) (Lf 2127)) (Nd (Lf 2567) (Lf 4093)))
   (Nd (Nd (Lf 3957) (Lf 72)) (Nd (Lf 3621) (Lf 401)))))) (Nd (Nd (Nd (Nd (Nd (Lf 3124) (Lf 3714)) (Nd (Lf
   950) (Lf 3097))) (Nd (Nd (Lf 2898) (Lf 2000)) (Nd (Lf 1077) (Lf 219)))) (Nd (Nd (Nd (Lf 1902) (Lf 2711))
   (Nd (Lf 3559) (Lf 1866))) (Nd (Nd (Lf 3393) (Lf 2713)) (Nd (Lf 427) (Lf 659))))) (Nd (Nd (Nd (Nd (Lf 1387)
   (Lf 2233)) (Nd (Lf 3152) (Lf 2434))) (Nd (Nd (Lf 1562) (Lf 3084)) (Nd (Lf 2416) (Lf 2691)))) (Nd (Nd (Nd
   (Lf 278) (Lf 3000)) (Nd (Lf 3770) (Lf 2158))) (Nd (Nd (Lf 2800) (Lf 3614)) (Nd (Lf 1022) (Lf 2697)))))))
   (Nd (Nd (Nd (Nd (Nd (Nd (Lf 887) (Lf 2007)) (Nd (Lf 3008) (Lf 194))) (Nd (Nd (Lf 1419) (Lf 996)) (Nd (Lf
   3469) (Lf 1159)))) (Nd (Nd (Nd (Lf 3223) (Lf 2792)) (Nd (Lf 3491) (Lf 569))) (Nd (Nd (Lf 3802) (Lf 3098))
   (Nd (Lf 2101) (Lf 2700))))) (Nd (Nd (Nd (Nd (Lf 2306) (Lf 762)) (Nd (Lf 3798) (Lf 89))) (Nd (Nd (Lf 984)
   (Lf 1492)) (Nd (Lf 1558) (Lf 2685)))) (Nd (Nd (Nd (Lf 2837) (Lf 760)) (Nd (Lf 3287) (Lf 3052))) (Nd (Nd (Lf
   2154) (Lf 2553)) (Nd (Lf 486) (Lf 2280)))))) (Nd (Nd (Nd (Nd (Nd (Lf 3640) (Lf 2703)) (Nd (Lf 2842) (Lf
   3026))) (Nd (Nd (Lf 1461) (Lf 1020)) (Nd (Lf 2533) (Lf 1086)))) (Nd (Nd (Nd (Lf 3945) (Lf 1147)) (Nd (Lf
   844) (Lf 2225))) (Nd (Nd (Lf 1) (Lf 1506)) (Nd (Lf 877) (Lf 3127))))) (Nd (Nd (Nd (Nd (Lf 144) (Lf 2372))
   (Nd (Lf 1789) (Lf 966))) (Nd (Nd (Lf 1424) (Lf 246)) (Nd (Lf 308) (Lf 2896)))) (Nd (Nd (Nd (Lf 798) (Lf
   746)) (Nd (Lf 704) (Lf 3358))) (Nd (Nd (Lf 2273) (Lf 3557)) (Nd (Lf 1848) (Lf 1776)))))))) (Nd (Nd (Nd (Nd
   (Nd (Nd (Nd (Lf 3407) (Lf 1869)) (Nd (Lf 1647) (Lf 2616))) (Nd (Nd (Lf 1510) (Lf 1643)) (Nd (Lf 1763) (Lf
   2544)))) (Nd (Nd (Nd (Lf 3888) (Lf 2646)) (Nd (Lf 3175) (Lf 1205))) (Nd (Nd (Lf 1168) (Lf 57)) (Nd (Lf
   3878) (Lf 2753))))) (Nd (Nd (Nd (Nd (Lf 3914) (Lf 2794)) (Nd (Lf 2458) (Lf 3299))) (Nd (Nd (Lf 626) (Lf
   3294)) (Nd (Lf 1639) (Lf 3672)))) (Nd (Nd (Nd (Lf 3308) (Lf 3428)) (Nd (Lf 126) (Lf 825))) (Nd (Nd (Lf
   1382) (Lf 171)) (Nd (Lf 9) (Lf 2137)))))) (Nd (Nd (Nd (Nd (Nd (Lf 254) (Lf 2357)) (Nd (Lf 852) (Lf 3288)))
   (Nd (Nd (Lf 1824) (Lf 390)) (Nd (Lf 1622) (Lf 2395)))) (Nd (Nd (Nd (Lf 285) (Lf 331)) (Nd (Lf 806) (Lf
   2575))) (Nd (Nd (Lf 1104) (Lf 2942)) (Nd (Lf 832) (Lf 3761))))) (Nd (Nd (Nd (Nd (Lf 3987) (Lf 2152)) (Nd
   (Lf 2813) (Lf 2572))) (Nd (Nd (Lf 174) (Lf 2953)) (Nd (Lf 311) (Lf 3381)))) (Nd (Nd (Nd (Lf 2121) (Lf 21))
   (Nd (Lf 2009) (Lf 3711))) (Nd (Nd (Lf 2321) (Lf 2131)) (Nd (Lf 4081) (Lf 430))))))) (Nd (Nd (Nd (Nd (Nd (Nd
   (Lf 641) (Lf 1238)) (Nd (Lf 3681) (Lf 2193))) (Nd (Nd (Lf 3414) (Lf 1302)) (Nd (Lf 1934) (Lf 3710)))) (Nd
   (Nd (Nd (Lf 2343) (Lf 125)) (Nd (Lf 1155) (Lf 2776))) (Nd (Nd (Lf 1903) (Lf 1994)) (Nd (Lf 4001) (Lf
   1109))))) (Nd (Nd (Nd (Nd (Lf 1999) (Lf 1214)) (Nd (Lf 3589) (Lf 2078))) (Nd (Nd (Lf 893) (Lf 2834)) (Nd
   (Lf 2361) (Lf 3195)))) (Nd (Nd (Nd (Lf 2232) (Lf 1801)) (Nd (Lf 3014) (Lf 2172))) (Nd (Nd (Lf 3643) (Lf
   2889)) (Nd (Lf 2681) (Lf 2299)))))) (Nd (Nd (Nd (Nd (Nd (Lf 682) (Lf 3631)) (Nd (Lf 1315) (Lf 2960))) (Nd
   (Nd (Lf 3169) (Lf 3136)) (Nd (Lf 2210) (Lf 1603)))) (Nd (Nd (Nd (Lf 3351) (Lf 1625)) (Nd (Lf 668) (Lf
   2115))) (Nd (Nd (Lf 2514) (Lf 1351)) (Nd (Lf 1640) (Lf 1376))))) (Nd (Nd (Nd (Nd (Lf 596) (Lf 1588)) (Nd
   (Lf 303) (Lf 763))) (Nd (Nd (Lf 1690) (Lf 3848)) (Nd (Lf 178) (Lf 1631)))) (Nd (Nd (Nd (Lf 3811) (Lf 3627))
   (Nd (Lf 3667) (Lf 3374))) (Nd (Nd (Lf 3635) (Lf 1515)) (Nd (Lf 3805) (Lf 1464))))))))"

definition node_pos_14 :: trie where
  "node_pos_14 =
   Nd (Nd (Nd (Nd (Nd (Nd (Nd (Nd (Lf 182) (Lf 1191)) (Nd (Lf 891) (Lf 2852))) (Nd (Nd (Lf 466) (Lf 1098)) (Nd
   (Lf 855) (Lf 1036)))) (Nd (Nd (Nd (Lf 2364) (Lf 3571)) (Nd (Lf 1892) (Lf 3956))) (Nd (Nd (Lf 897) (Lf
   2412)) (Nd (Lf 3939) (Lf 848))))) (Nd (Nd (Nd (Nd (Lf 1299) (Lf 3068)) (Nd (Lf 1792) (Lf 3709))) (Nd (Nd
   (Lf 2118) (Lf 344)) (Nd (Lf 3600) (Lf 757)))) (Nd (Nd (Nd (Lf 2191) (Lf 2707)) (Nd (Lf 1439) (Lf 2921)))
   (Nd (Nd (Lf 2679) (Lf 1890)) (Nd (Lf 1941) (Lf 1372)))))) (Nd (Nd (Nd (Nd (Nd (Lf 160) (Lf 3861)) (Nd (Lf
   975) (Lf 1484))) (Nd (Nd (Lf 42) (Lf 3486)) (Nd (Lf 3292) (Lf 2770)))) (Nd (Nd (Nd (Lf 1681) (Lf 3904)) (Nd
   (Lf 701) (Lf 808))) (Nd (Nd (Lf 2733) (Lf 4042)) (Nd (Lf 2072) (Lf 3797))))) (Nd (Nd (Nd (Nd (Lf 2991) (Lf
   319)) (Nd (Lf 899) (Lf 3339))) (Nd (Nd (Lf 493) (Lf 1004)) (Nd (Lf 3115) (Lf 3665)))) (Nd (Nd (Nd (Lf 2531)
   (Lf 969)) (Nd (Lf 2449) (Lf 3129))) (Nd (Nd (Lf 3652) (Lf 1164)) (Nd (Lf 1119) (Lf 3370))))))) (Nd (Nd (Nd
   (Nd (Nd (Nd (Lf 1254) (Lf 881)) (Nd (Lf 2877) (Lf 627))) (Nd (Nd (Lf 2048) (Lf 176)) (Nd (Lf 895) (Lf
   2969)))) (Nd (Nd (Nd (Lf 3489) (Lf 481)) (Nd (Lf 3132) (Lf 2177))) (Nd (Nd (Lf 349) (Lf 924)) (Nd (Lf 3190)
   (Lf 1814))))) (Nd (Nd (Nd (Nd (Lf 298) (Lf 2808)) (Nd (Lf 2689) (Lf 3917))) (Nd (Nd (Lf 2039) (Lf 1347))
   (Nd (Lf 330) (Lf 379)))) (Nd (Nd (Nd (Lf 2080) (Lf 1769)) (Nd (Lf 3107) (Lf 1355))) (Nd (Nd (Lf 716) (Lf
   3575)) (Nd (Lf 2063) (Lf 3227)))))) (Nd (Nd (Nd (Nd (Nd (Lf 2119) (Lf 589)) (Nd (Lf 384) (Lf 1733))) (Nd
   (Nd (Lf 1512) (Lf 4053)) (Nd (Lf 2838) (Lf 115)))) (Nd (Nd (Nd (Lf 3275) (Lf 888)) (Nd (Lf 2982) (Lf 997)))
   (Nd (Nd (Lf 2622) (Lf 1593)) (Nd (Lf 1031) (Lf 2950))))) (Nd (Nd (Nd (Nd (Lf 3441) (Lf 2160)) (Nd (Lf 88)
   (Lf 892))) (Nd (Nd (Lf 431) (Lf 1995)) (Nd (Lf 2313) (Lf 949)))) (Nd (Nd (Nd (Lf 604) (Lf 3924)) (Nd (Lf
   2524) (Lf 356))) (Nd (Nd (Lf 1441) (Lf 2824)) (Nd (Lf 1453) (Lf 4033)))))))) (Nd (Nd (Nd (Nd (Nd (Nd (Nd
   (Lf 2940) (Lf 304)) (Nd (Lf 734) (Lf 2105))) (Nd (Nd (Lf 2216) (Lf 2411)) (Nd (Lf 118) (Lf 1888)))) (Nd (Nd
   (Nd (Lf 1213) (Lf 3704)) (Nd (Lf 2615) (Lf 1327))) (Nd (Nd (Lf 392) (Lf 3509)) (Nd (Lf 3968) (Lf 2989)))))
   (Nd (Nd (Nd (Nd (Lf 898) (Lf 1545)) (Nd (Lf 3400) (Lf 312))) (Nd (Nd (Lf 1943) (Lf 1734)) (Nd (Lf 2826) (Lf
   1686)))) (Nd (Nd (Nd (Lf 3435) (Lf 1253)) (Nd (Lf 591) (Lf 36))) (Nd (Nd (Lf 807) (Lf 510)) (Nd (Lf 3629)
   (Lf 2699)))))) (Nd (Nd (Nd (Nd (Nd (Lf 217) (Lf 2543)) (Nd (Lf 1893) (Lf 2511))) (Nd (Nd (Lf 1721) (Lf
   3890)) (Nd (Lf 2815) (Lf 4069)))) (Nd (Nd (Nd (Lf 614) (Lf 2901)) (Nd (Lf 528) (Lf 3730))) (Nd (Nd (Lf
   1410) (Lf 472)) (Nd (Lf 2790) (Lf 3344))))) (Nd (Nd (Nd (Nd (Lf 132) (Lf 3830)) (Nd (Lf 1719) (Lf 3335)))
   (Nd (Nd (Lf 3921) (Lf 1659)) (Nd (Lf 3482) (Lf 2526)))) (Nd (Nd (Nd (Lf 3628) (Lf 158)) (Nd (Lf 1121) (Lf
   2324))) (Nd (Nd (Lf 1362) (Lf 1951)) (Nd (Lf 3183) (Lf 3533))))))) (Nd (Nd (Nd (Nd (Nd (Nd (Lf 1313) (Lf
   1471)) (Nd (Lf 277) (Lf 3328))) (Nd (Nd (Lf 291) (Lf 1138)) (Nd (Lf 2523) (Lf 2396)))) (Nd (Nd (Nd (Lf
   1815) (Lf 780)) (Nd (Lf 2333) (Lf 2694))) (Nd (Nd (Lf 1635) (Lf 856)) (Nd (Lf 3648) (Lf 3764))))) (Nd (Nd
   (Nd (Nd (Lf 3943) (Lf 829)) (Nd (Lf 2505) (Lf 2342))) (Nd (Nd (Lf 3487) (Lf 3483)) (Nd (Lf 523) (Lf
   3789)))) (Nd (Nd (Nd (Lf 3717) (Lf 782)) (Nd (Lf 4028) (Lf 479))) (Nd (Nd (Lf 3897) (Lf 179)) (Nd (Lf 609)
   (Lf 2248)))))) (Nd (Nd (Nd (Nd (Nd (Lf 1953) (Lf 3986)) (Nd (Lf 123) (Lf 3832))) (Nd (Nd (Lf 3185) (Lf
   519)) (Nd (Lf 2667) (Lf 1490)))) (Nd (Nd (Nd (Lf 2682) (Lf 156)) (Nd (Lf 1948) (Lf 2854))) (Nd (Nd (Lf
   3231) (Lf 2143)) (Nd (Lf 398) (Lf 508))))) (Nd (Nd (Nd (Nd (Lf 11) (Lf 2864)) (Nd (Lf 2629) (Lf 714))) (Nd
   (Nd (Lf 2211) (Lf 3340)) (Nd (Lf 3495) (Lf 2485)))) (Nd (Nd (Nd (Lf 3496) (Lf 2721)) (Nd (Lf 1474) (Lf
   1443))) (Nd (Nd (Lf 846) (Lf 2744)) (Nd (Lf 54) (Lf 1777))))))))"

definition node_pos_15 :: trie where
  "node_pos_15 =
   Nd (Nd (Nd (Nd (Nd (Nd (Nd (Nd (Lf 1280) (Lf 2927)) (Nd (Lf 1183) (Lf 906))) (Nd (Nd (Lf 649) (Lf 2316))
   (Nd (Lf 3297) (Lf 3490)))) (Nd (Nd (Nd (Lf 664) (Lf 1322)) (Nd (Lf 3337) (Lf 1407))) (Nd (Nd (Lf 149) (Lf
   1855)) (Nd (Lf 2053) (Lf 3900))))) (Nd (Nd (Nd (Nd (Lf 3512) (Lf 1075)) (Nd (Lf 3018) (Lf 3723))) (Nd (Nd
   (Lf 1693) (Lf 1736)) (Nd (Lf 3228) (Lf 1447)))) (Nd (Nd (Nd (Lf 350) (Lf 3473)) (Nd (Lf 3240) (Lf 3156)))
   (Nd (Nd (Lf 1692) (Lf 3738)) (Nd (Lf 2190) (Lf 4043)))))) (Nd (Nd (Nd (Nd (Nd (Lf 245) (Lf 3556)) (Nd (Lf
   3593) (Lf 3295))) (Nd (Nd (Lf 3763) (Lf 531)) (Nd (Lf 3168) (Lf 834)))) (Nd (Nd (Nd (Lf 4020) (Lf 3047))
   (Nd (Lf 2867) (Lf 45))) (Nd (Nd (Lf 2277) (Lf 4054)) (Nd (Lf 712) (Lf 2249))))) (Nd (Nd (Nd (Nd (Lf 371)
   (Lf 3206)) (Nd (Lf 841) (Lf 3279))) (Nd (Nd (Lf 2648) (Lf 2692)) (Nd (Lf 3186) (Lf 1466)))) (Nd (Nd (Nd (Lf
   3994) (Lf 4031)) (Nd (Lf 1310) (Lf 2379))) (Nd (Nd (Lf 1750) (Lf 424)) (Nd (Lf 578) (Lf 3854))))))) (Nd (Nd
   (Nd (Nd (Nd (Nd (Lf 1499) (Lf 1658)) (Nd (Lf 3448) (Lf 1782))) (Nd (Nd (Lf 3472) (Lf 1442)) (Nd (Lf 748)
   (Lf 3251)))) (Nd (Nd (Nd (Lf 918) (Lf 1224)) (Nd (Lf 1239) (Lf 2996))) (Nd (Nd (Lf 536) (Lf 2010)) (Nd (Lf
   2849) (Lf 3150))))) (Nd (Nd (Nd (Nd (Lf 155) (Lf 216)) (Nd (Lf 2734) (Lf 2219))) (Nd (Nd (Lf 773) (Lf
   1099)) (Nd (Lf 1863) (Lf 661)))) (Nd (Nd (Nd (Lf 1945) (Lf 3883)) (Nd (Lf 3727) (Lf 3319))) (Nd (Nd (Lf
   1146) (Lf 2466)) (Nd (Lf 1804) (Lf 4079)))))) (Nd (Nd (Nd (Nd (Nd (Lf 369) (Lf 2346)) (Nd (Lf 3809) (Lf
   394))) (Nd (Nd (Lf 3540) (Lf 56)) (Nd (Lf 107) (Lf 3255)))) (Nd (Nd (Nd (Lf 191) (Lf 1122)) (Nd (Lf 2404)
   (Lf 978))) (Nd (Nd (Lf 2065) (Lf 218)) (Nd (Lf 1215) (Lf 3703))))) (Nd (Nd (Nd (Nd (Lf 3096) (Lf 407)) (Nd
   (Lf 2047) (Lf 1255))) (Nd (Nd (Lf 3475) (Lf 1303)) (Nd (Lf 3477) (Lf 3521)))) (Nd (Nd (Nd (Lf 2436) (Lf
   2926)) (Nd (Lf 2820) (Lf 262))) (Nd (Nd (Lf 1153) (Lf 3769)) (Nd (Lf 2946) (Lf 1432)))))))) (Nd (Nd (Nd (Nd
   (Nd (Nd (Nd (Lf 1728) (Lf 3268)) (Nd (Lf 2489) (Lf 3252))) (Nd (Nd (Lf 631) (Lf 3579)) (Nd (Lf 1592) (Lf
   2641)))) (Nd (Nd (Nd (Lf 2123) (Lf 622)) (Nd (Lf 3110) (Lf 1749))) (Nd (Nd (Lf 3736) (Lf 2215)) (Nd (Lf
   1330) (Lf 1990))))) (Nd (Nd (Nd (Nd (Lf 728) (Lf 1605)) (Nd (Lf 1798) (Lf 1645))) (Nd (Nd (Lf 4002) (Lf
   886)) (Nd (Lf 482) (Lf 2181)))) (Nd (Nd (Nd (Lf 688) (Lf 2050)) (Nd (Lf 94) (Lf 2428))) (Nd (Nd (Lf 3456)
   (Lf 1818)) (Nd (Lf 3222) (Lf 28)))))) (Nd (Nd (Nd (Nd (Nd (Lf 2157) (Lf 280)) (Nd (Lf 3234) (Lf 1632))) (Nd
   (Nd (Lf 2504) (Lf 637)) (Nd (Lf 141) (Lf 3772)))) (Nd (Nd (Nd (Lf 119) (Lf 3271)) (Nd (Lf 1633) (Lf 2952)))
   (Nd (Nd (Lf 480) (Lf 13)) (Nd (Lf 2670) (Lf 39))))) (Nd (Nd (Nd (Nd (Lf 2234) (Lf 1087)) (Nd (Lf 3602) (Lf
   3065))) (Nd (Nd (Lf 1663) (Lf 1610)) (Nd (Lf 850) (Lf 3522)))) (Nd (Nd (Nd (Lf 2031) (Lf 3191)) (Nd (Lf
   2716) (Lf 3204))) (Nd (Nd (Lf 1998) (Lf 3759)) (Nd (Lf 3718) (Lf 1751))))))) (Nd (Nd (Nd (Nd (Nd (Nd (Lf
   4076) (Lf 1655)) (Nd (Lf 1682) (Lf 3283))) (Nd (Nd (Lf 678) (Lf 1126)) (Nd (Lf 2312) (Lf 3488)))) (Nd (Nd
   (Nd (Lf 3558) (Lf 3382)) (Nd (Lf 1701) (Lf 2112))) (Nd (Nd (Lf 2819) (Lf 2540)) (Nd (Lf 698) (Lf 474)))))
   (Nd (Nd (Nd (Nd (Lf 2197) (Lf 580)) (Nd (Lf 593) (Lf 647))) (Nd (Nd (Lf 2851) (Lf 972)) (Nd (Lf 896) (Lf
   421)))) (Nd (Nd (Nd (Lf 366) (Lf 352)) (Nd (Lf 3368) (Lf 3349))) (Nd (Nd (Lf 3581) (Lf 2153)) (Nd (Lf 2609)
   (Lf 355)))))) (Nd (Nd (Nd (Nd (Nd (Lf 1217) (Lf 2847)) (Nd (Lf 854) (Lf 1117))) (Nd (Nd (Lf 105) (Lf 2525))
   (Nd (Lf 666) (Lf 648)))) (Nd (Nd (Nd (Lf 1456) (Lf 3436)) (Nd (Lf 3045) (Lf 225))) (Nd (Nd (Lf 2493) (Lf
   3041)) (Nd (Lf 3157) (Lf 1259))))) (Nd (Nd (Nd (Nd (Lf 3342) (Lf 1535)) (Nd (Lf 1920) (Lf 3519))) (Nd (Nd
   (Lf 1791) (Lf 359)) (Nd (Lf 3422) (Lf 2187)))) (Nd (Nd (Nd (Lf 3276) (Lf 830)) (Nd (Lf 685) (Lf 1882))) (Nd
   (Nd (Lf 2581) (Lf 1847)) (Nd (Lf 1421) (Lf 4095))))))))"

definition chase_pos :: trie where
  "chase_pos = Nd (Nd (Nd (Nd chase_pos_0 chase_pos_8) (Nd chase_pos_4 chase_pos_12)) (Nd (Nd chase_pos_2 chase_pos_10) (Nd chase_pos_6 chase_pos_14))) (Nd (Nd (Nd chase_pos_1 chase_pos_9) (Nd chase_pos_5 chase_pos_13)) (Nd (Nd chase_pos_3 chase_pos_11) (Nd chase_pos_7 chase_pos_15)))"

definition node_pos :: trie where
  "node_pos = Nd (Nd (Nd (Nd node_pos_0 node_pos_8) (Nd node_pos_4 node_pos_12)) (Nd (Nd node_pos_2 node_pos_10) (Nd node_pos_6 node_pos_14))) (Nd (Nd (Nd node_pos_1 node_pos_9) (Nd node_pos_5 node_pos_13)) (Nd (Nd node_pos_3 node_pos_11) (Nd node_pos_7 node_pos_15)))"

lemma look_weak: "a = b \<Longrightarrow> look t a = look t b"
  by simp

lemma look_numeral:
  "look (Nd l r) 0 = look l 0"
  "look (Nd l r) 1 = look r 0"
  "look (Nd l r) (numeral num.One) = look r 0"
  "look (Nd l r) (numeral (num.Bit0 n)) = look l (numeral n)"
  "look (Nd l r) (numeral (num.Bit1 n)) = look r (numeral n)"
  by simp_all

text \<open>The check of one piece of the list that starts at index \<open>i\<close>: the element after \<open>i\<close> has the next number.\<close>

fun chk1 :: "int list \<Rightarrow> int \<Rightarrow> bool" where
  "chk1 [] i = True"
| "chk1 (x # xs) i \<longleftrightarrow> 0 \<le> x \<and> x < 1024 \<and> look chase_pos x = (if look chase_pos i = 1023 then 0 else look chase_pos i + 1)
     \<and> chk1 xs (i + 1)"

definition slot :: "int \<Rightarrow> int" where "slot a = a div 8"

definition aligned :: "int \<Rightarrow> bool" where "aligned a \<longleftrightarrow> a mod 8 = 0"

lemma eight_times: "x + x + (x + x) + (x + x + (x + x)) = x * (8 :: int)"
  by simp

lemma numeral_8: "(numeral (num.Bit0 (num.Bit0 (num.Bit0 n))) :: int) = numeral n * 8"
  unfolding numeral_Bit0 [of "num.Bit0 (num.Bit0 n)"] numeral_Bit0 [of "num.Bit0 n"] numeral_Bit0 [of n] by (rule eight_times)

lemma slot_numeral: "slot (numeral (num.Bit0 (num.Bit0 (num.Bit0 n)))) = numeral n"
  unfolding slot_def numeral_8 [of n] by (rule nonzero_mult_div_cancel_right) simp

lemma aligned_numeral: "aligned (numeral (num.Bit0 (num.Bit0 (num.Bit0 n))))"
  unfolding aligned_def numeral_8 [of n] by (rule mod_mult_self2_is_0)

fun chk2 :: "int list \<Rightarrow> int \<Rightarrow> bool" where
  "chk2 (x # k # xs) a \<longleftrightarrow> 0x81000000 \<le> x \<and> x < 0x81008000 \<and> aligned x
     \<and> look node_pos (slot x) = (if look node_pos (slot a) = 4095 then 0 else look node_pos (slot a) + 1)
     \<and> chk2 xs (a + 8)"
| "chk2 _ a = True"

lemma chk1_weak: "a = b \<Longrightarrow> chk1 xs a = chk1 xs b"
  by simp

lemma chk2_weak: "a = b \<Longrightarrow> chk2 xs a = chk2 xs b"
  by simp


lemmas look_chase_pos =
  fun_cong [OF arg_cong [where f = look, OF chase_pos_def]]
  fun_cong [OF arg_cong [where f = look, OF chase_pos_0_def]]
  fun_cong [OF arg_cong [where f = look, OF chase_pos_1_def]]
  fun_cong [OF arg_cong [where f = look, OF chase_pos_2_def]]
  fun_cong [OF arg_cong [where f = look, OF chase_pos_3_def]]
  fun_cong [OF arg_cong [where f = look, OF chase_pos_4_def]]
  fun_cong [OF arg_cong [where f = look, OF chase_pos_5_def]]
  fun_cong [OF arg_cong [where f = look, OF chase_pos_6_def]]
  fun_cong [OF arg_cong [where f = look, OF chase_pos_7_def]]
  fun_cong [OF arg_cong [where f = look, OF chase_pos_8_def]]
  fun_cong [OF arg_cong [where f = look, OF chase_pos_9_def]]
  fun_cong [OF arg_cong [where f = look, OF chase_pos_10_def]]
  fun_cong [OF arg_cong [where f = look, OF chase_pos_11_def]]
  fun_cong [OF arg_cong [where f = look, OF chase_pos_12_def]]
  fun_cong [OF arg_cong [where f = look, OF chase_pos_13_def]]
  fun_cong [OF arg_cong [where f = look, OF chase_pos_14_def]]
  fun_cong [OF arg_cong [where f = look, OF chase_pos_15_def]]

lemmas look_node_pos =
  fun_cong [OF arg_cong [where f = look, OF node_pos_def]]
  fun_cong [OF arg_cong [where f = look, OF node_pos_0_def]]
  fun_cong [OF arg_cong [where f = look, OF node_pos_1_def]]
  fun_cong [OF arg_cong [where f = look, OF node_pos_2_def]]
  fun_cong [OF arg_cong [where f = look, OF node_pos_3_def]]
  fun_cong [OF arg_cong [where f = look, OF node_pos_4_def]]
  fun_cong [OF arg_cong [where f = look, OF node_pos_5_def]]
  fun_cong [OF arg_cong [where f = look, OF node_pos_6_def]]
  fun_cong [OF arg_cong [where f = look, OF node_pos_7_def]]
  fun_cong [OF arg_cong [where f = look, OF node_pos_8_def]]
  fun_cong [OF arg_cong [where f = look, OF node_pos_9_def]]
  fun_cong [OF arg_cong [where f = look, OF node_pos_10_def]]
  fun_cong [OF arg_cong [where f = look, OF node_pos_11_def]]
  fun_cong [OF arg_cong [where f = look, OF node_pos_12_def]]
  fun_cong [OF arg_cong [where f = look, OF node_pos_13_def]]
  fun_cong [OF arg_cong [where f = look, OF node_pos_14_def]]
  fun_cong [OF arg_cong [where f = look, OF node_pos_15_def]]


lemma chase_chk: "chk1 chase_data 0"
  unfolding chase_data_def
  by (simp add: look_numeral look_chase_pos del: look.simps(2) cong: look_weak chk1_weak)

lemma nodes_chk_0: "chk2 nodes_0 0x81000000" "length nodes_0 = 128"
  unfolding nodes_0_def
  by (simp_all add: slot_numeral aligned_numeral look_numeral look_node_pos del: look.simps(2) cong: look_weak chk2_weak)

lemma nodes_chk_1: "chk2 nodes_1 0x81000200" "length nodes_1 = 128"
  unfolding nodes_1_def
  by (simp_all add: slot_numeral aligned_numeral look_numeral look_node_pos del: look.simps(2) cong: look_weak chk2_weak)

lemma nodes_chk_2: "chk2 nodes_2 0x81000400" "length nodes_2 = 128"
  unfolding nodes_2_def
  by (simp_all add: slot_numeral aligned_numeral look_numeral look_node_pos del: look.simps(2) cong: look_weak chk2_weak)

lemma nodes_chk_3: "chk2 nodes_3 0x81000600" "length nodes_3 = 128"
  unfolding nodes_3_def
  by (simp_all add: slot_numeral aligned_numeral look_numeral look_node_pos del: look.simps(2) cong: look_weak chk2_weak)

lemma nodes_chk_4: "chk2 nodes_4 0x81000800" "length nodes_4 = 128"
  unfolding nodes_4_def
  by (simp_all add: slot_numeral aligned_numeral look_numeral look_node_pos del: look.simps(2) cong: look_weak chk2_weak)

lemma nodes_chk_5: "chk2 nodes_5 0x81000a00" "length nodes_5 = 128"
  unfolding nodes_5_def
  by (simp_all add: slot_numeral aligned_numeral look_numeral look_node_pos del: look.simps(2) cong: look_weak chk2_weak)

lemma nodes_chk_6: "chk2 nodes_6 0x81000c00" "length nodes_6 = 128"
  unfolding nodes_6_def
  by (simp_all add: slot_numeral aligned_numeral look_numeral look_node_pos del: look.simps(2) cong: look_weak chk2_weak)

lemma nodes_chk_7: "chk2 nodes_7 0x81000e00" "length nodes_7 = 128"
  unfolding nodes_7_def
  by (simp_all add: slot_numeral aligned_numeral look_numeral look_node_pos del: look.simps(2) cong: look_weak chk2_weak)

lemma nodes_chk_8: "chk2 nodes_8 0x81001000" "length nodes_8 = 128"
  unfolding nodes_8_def
  by (simp_all add: slot_numeral aligned_numeral look_numeral look_node_pos del: look.simps(2) cong: look_weak chk2_weak)

lemma nodes_chk_9: "chk2 nodes_9 0x81001200" "length nodes_9 = 128"
  unfolding nodes_9_def
  by (simp_all add: slot_numeral aligned_numeral look_numeral look_node_pos del: look.simps(2) cong: look_weak chk2_weak)

lemma nodes_chk_10: "chk2 nodes_10 0x81001400" "length nodes_10 = 128"
  unfolding nodes_10_def
  by (simp_all add: slot_numeral aligned_numeral look_numeral look_node_pos del: look.simps(2) cong: look_weak chk2_weak)

lemma nodes_chk_11: "chk2 nodes_11 0x81001600" "length nodes_11 = 128"
  unfolding nodes_11_def
  by (simp_all add: slot_numeral aligned_numeral look_numeral look_node_pos del: look.simps(2) cong: look_weak chk2_weak)

lemma nodes_chk_12: "chk2 nodes_12 0x81001800" "length nodes_12 = 128"
  unfolding nodes_12_def
  by (simp_all add: slot_numeral aligned_numeral look_numeral look_node_pos del: look.simps(2) cong: look_weak chk2_weak)

lemma nodes_chk_13: "chk2 nodes_13 0x81001a00" "length nodes_13 = 128"
  unfolding nodes_13_def
  by (simp_all add: slot_numeral aligned_numeral look_numeral look_node_pos del: look.simps(2) cong: look_weak chk2_weak)

lemma nodes_chk_14: "chk2 nodes_14 0x81001c00" "length nodes_14 = 128"
  unfolding nodes_14_def
  by (simp_all add: slot_numeral aligned_numeral look_numeral look_node_pos del: look.simps(2) cong: look_weak chk2_weak)

lemma nodes_chk_15: "chk2 nodes_15 0x81001e00" "length nodes_15 = 128"
  unfolding nodes_15_def
  by (simp_all add: slot_numeral aligned_numeral look_numeral look_node_pos del: look.simps(2) cong: look_weak chk2_weak)

lemma nodes_chk_16: "chk2 nodes_16 0x81002000" "length nodes_16 = 128"
  unfolding nodes_16_def
  by (simp_all add: slot_numeral aligned_numeral look_numeral look_node_pos del: look.simps(2) cong: look_weak chk2_weak)

lemma nodes_chk_17: "chk2 nodes_17 0x81002200" "length nodes_17 = 128"
  unfolding nodes_17_def
  by (simp_all add: slot_numeral aligned_numeral look_numeral look_node_pos del: look.simps(2) cong: look_weak chk2_weak)

lemma nodes_chk_18: "chk2 nodes_18 0x81002400" "length nodes_18 = 128"
  unfolding nodes_18_def
  by (simp_all add: slot_numeral aligned_numeral look_numeral look_node_pos del: look.simps(2) cong: look_weak chk2_weak)

lemma nodes_chk_19: "chk2 nodes_19 0x81002600" "length nodes_19 = 128"
  unfolding nodes_19_def
  by (simp_all add: slot_numeral aligned_numeral look_numeral look_node_pos del: look.simps(2) cong: look_weak chk2_weak)

lemma nodes_chk_20: "chk2 nodes_20 0x81002800" "length nodes_20 = 128"
  unfolding nodes_20_def
  by (simp_all add: slot_numeral aligned_numeral look_numeral look_node_pos del: look.simps(2) cong: look_weak chk2_weak)

lemma nodes_chk_21: "chk2 nodes_21 0x81002a00" "length nodes_21 = 128"
  unfolding nodes_21_def
  by (simp_all add: slot_numeral aligned_numeral look_numeral look_node_pos del: look.simps(2) cong: look_weak chk2_weak)

lemma nodes_chk_22: "chk2 nodes_22 0x81002c00" "length nodes_22 = 128"
  unfolding nodes_22_def
  by (simp_all add: slot_numeral aligned_numeral look_numeral look_node_pos del: look.simps(2) cong: look_weak chk2_weak)

lemma nodes_chk_23: "chk2 nodes_23 0x81002e00" "length nodes_23 = 128"
  unfolding nodes_23_def
  by (simp_all add: slot_numeral aligned_numeral look_numeral look_node_pos del: look.simps(2) cong: look_weak chk2_weak)

lemma nodes_chk_24: "chk2 nodes_24 0x81003000" "length nodes_24 = 128"
  unfolding nodes_24_def
  by (simp_all add: slot_numeral aligned_numeral look_numeral look_node_pos del: look.simps(2) cong: look_weak chk2_weak)

lemma nodes_chk_25: "chk2 nodes_25 0x81003200" "length nodes_25 = 128"
  unfolding nodes_25_def
  by (simp_all add: slot_numeral aligned_numeral look_numeral look_node_pos del: look.simps(2) cong: look_weak chk2_weak)

lemma nodes_chk_26: "chk2 nodes_26 0x81003400" "length nodes_26 = 128"
  unfolding nodes_26_def
  by (simp_all add: slot_numeral aligned_numeral look_numeral look_node_pos del: look.simps(2) cong: look_weak chk2_weak)

lemma nodes_chk_27: "chk2 nodes_27 0x81003600" "length nodes_27 = 128"
  unfolding nodes_27_def
  by (simp_all add: slot_numeral aligned_numeral look_numeral look_node_pos del: look.simps(2) cong: look_weak chk2_weak)

lemma nodes_chk_28: "chk2 nodes_28 0x81003800" "length nodes_28 = 128"
  unfolding nodes_28_def
  by (simp_all add: slot_numeral aligned_numeral look_numeral look_node_pos del: look.simps(2) cong: look_weak chk2_weak)

lemma nodes_chk_29: "chk2 nodes_29 0x81003a00" "length nodes_29 = 128"
  unfolding nodes_29_def
  by (simp_all add: slot_numeral aligned_numeral look_numeral look_node_pos del: look.simps(2) cong: look_weak chk2_weak)

lemma nodes_chk_30: "chk2 nodes_30 0x81003c00" "length nodes_30 = 128"
  unfolding nodes_30_def
  by (simp_all add: slot_numeral aligned_numeral look_numeral look_node_pos del: look.simps(2) cong: look_weak chk2_weak)

lemma nodes_chk_31: "chk2 nodes_31 0x81003e00" "length nodes_31 = 128"
  unfolding nodes_31_def
  by (simp_all add: slot_numeral aligned_numeral look_numeral look_node_pos del: look.simps(2) cong: look_weak chk2_weak)

lemma nodes_chk_32: "chk2 nodes_32 0x81004000" "length nodes_32 = 128"
  unfolding nodes_32_def
  by (simp_all add: slot_numeral aligned_numeral look_numeral look_node_pos del: look.simps(2) cong: look_weak chk2_weak)

lemma nodes_chk_33: "chk2 nodes_33 0x81004200" "length nodes_33 = 128"
  unfolding nodes_33_def
  by (simp_all add: slot_numeral aligned_numeral look_numeral look_node_pos del: look.simps(2) cong: look_weak chk2_weak)

lemma nodes_chk_34: "chk2 nodes_34 0x81004400" "length nodes_34 = 128"
  unfolding nodes_34_def
  by (simp_all add: slot_numeral aligned_numeral look_numeral look_node_pos del: look.simps(2) cong: look_weak chk2_weak)

lemma nodes_chk_35: "chk2 nodes_35 0x81004600" "length nodes_35 = 128"
  unfolding nodes_35_def
  by (simp_all add: slot_numeral aligned_numeral look_numeral look_node_pos del: look.simps(2) cong: look_weak chk2_weak)

lemma nodes_chk_36: "chk2 nodes_36 0x81004800" "length nodes_36 = 128"
  unfolding nodes_36_def
  by (simp_all add: slot_numeral aligned_numeral look_numeral look_node_pos del: look.simps(2) cong: look_weak chk2_weak)

lemma nodes_chk_37: "chk2 nodes_37 0x81004a00" "length nodes_37 = 128"
  unfolding nodes_37_def
  by (simp_all add: slot_numeral aligned_numeral look_numeral look_node_pos del: look.simps(2) cong: look_weak chk2_weak)

lemma nodes_chk_38: "chk2 nodes_38 0x81004c00" "length nodes_38 = 128"
  unfolding nodes_38_def
  by (simp_all add: slot_numeral aligned_numeral look_numeral look_node_pos del: look.simps(2) cong: look_weak chk2_weak)

lemma nodes_chk_39: "chk2 nodes_39 0x81004e00" "length nodes_39 = 128"
  unfolding nodes_39_def
  by (simp_all add: slot_numeral aligned_numeral look_numeral look_node_pos del: look.simps(2) cong: look_weak chk2_weak)

lemma nodes_chk_40: "chk2 nodes_40 0x81005000" "length nodes_40 = 128"
  unfolding nodes_40_def
  by (simp_all add: slot_numeral aligned_numeral look_numeral look_node_pos del: look.simps(2) cong: look_weak chk2_weak)

lemma nodes_chk_41: "chk2 nodes_41 0x81005200" "length nodes_41 = 128"
  unfolding nodes_41_def
  by (simp_all add: slot_numeral aligned_numeral look_numeral look_node_pos del: look.simps(2) cong: look_weak chk2_weak)

lemma nodes_chk_42: "chk2 nodes_42 0x81005400" "length nodes_42 = 128"
  unfolding nodes_42_def
  by (simp_all add: slot_numeral aligned_numeral look_numeral look_node_pos del: look.simps(2) cong: look_weak chk2_weak)

lemma nodes_chk_43: "chk2 nodes_43 0x81005600" "length nodes_43 = 128"
  unfolding nodes_43_def
  by (simp_all add: slot_numeral aligned_numeral look_numeral look_node_pos del: look.simps(2) cong: look_weak chk2_weak)

lemma nodes_chk_44: "chk2 nodes_44 0x81005800" "length nodes_44 = 128"
  unfolding nodes_44_def
  by (simp_all add: slot_numeral aligned_numeral look_numeral look_node_pos del: look.simps(2) cong: look_weak chk2_weak)

lemma nodes_chk_45: "chk2 nodes_45 0x81005a00" "length nodes_45 = 128"
  unfolding nodes_45_def
  by (simp_all add: slot_numeral aligned_numeral look_numeral look_node_pos del: look.simps(2) cong: look_weak chk2_weak)

lemma nodes_chk_46: "chk2 nodes_46 0x81005c00" "length nodes_46 = 128"
  unfolding nodes_46_def
  by (simp_all add: slot_numeral aligned_numeral look_numeral look_node_pos del: look.simps(2) cong: look_weak chk2_weak)

lemma nodes_chk_47: "chk2 nodes_47 0x81005e00" "length nodes_47 = 128"
  unfolding nodes_47_def
  by (simp_all add: slot_numeral aligned_numeral look_numeral look_node_pos del: look.simps(2) cong: look_weak chk2_weak)

lemma nodes_chk_48: "chk2 nodes_48 0x81006000" "length nodes_48 = 128"
  unfolding nodes_48_def
  by (simp_all add: slot_numeral aligned_numeral look_numeral look_node_pos del: look.simps(2) cong: look_weak chk2_weak)

lemma nodes_chk_49: "chk2 nodes_49 0x81006200" "length nodes_49 = 128"
  unfolding nodes_49_def
  by (simp_all add: slot_numeral aligned_numeral look_numeral look_node_pos del: look.simps(2) cong: look_weak chk2_weak)

lemma nodes_chk_50: "chk2 nodes_50 0x81006400" "length nodes_50 = 128"
  unfolding nodes_50_def
  by (simp_all add: slot_numeral aligned_numeral look_numeral look_node_pos del: look.simps(2) cong: look_weak chk2_weak)

lemma nodes_chk_51: "chk2 nodes_51 0x81006600" "length nodes_51 = 128"
  unfolding nodes_51_def
  by (simp_all add: slot_numeral aligned_numeral look_numeral look_node_pos del: look.simps(2) cong: look_weak chk2_weak)

lemma nodes_chk_52: "chk2 nodes_52 0x81006800" "length nodes_52 = 128"
  unfolding nodes_52_def
  by (simp_all add: slot_numeral aligned_numeral look_numeral look_node_pos del: look.simps(2) cong: look_weak chk2_weak)

lemma nodes_chk_53: "chk2 nodes_53 0x81006a00" "length nodes_53 = 128"
  unfolding nodes_53_def
  by (simp_all add: slot_numeral aligned_numeral look_numeral look_node_pos del: look.simps(2) cong: look_weak chk2_weak)

lemma nodes_chk_54: "chk2 nodes_54 0x81006c00" "length nodes_54 = 128"
  unfolding nodes_54_def
  by (simp_all add: slot_numeral aligned_numeral look_numeral look_node_pos del: look.simps(2) cong: look_weak chk2_weak)

lemma nodes_chk_55: "chk2 nodes_55 0x81006e00" "length nodes_55 = 128"
  unfolding nodes_55_def
  by (simp_all add: slot_numeral aligned_numeral look_numeral look_node_pos del: look.simps(2) cong: look_weak chk2_weak)

lemma nodes_chk_56: "chk2 nodes_56 0x81007000" "length nodes_56 = 128"
  unfolding nodes_56_def
  by (simp_all add: slot_numeral aligned_numeral look_numeral look_node_pos del: look.simps(2) cong: look_weak chk2_weak)

lemma nodes_chk_57: "chk2 nodes_57 0x81007200" "length nodes_57 = 128"
  unfolding nodes_57_def
  by (simp_all add: slot_numeral aligned_numeral look_numeral look_node_pos del: look.simps(2) cong: look_weak chk2_weak)

lemma nodes_chk_58: "chk2 nodes_58 0x81007400" "length nodes_58 = 128"
  unfolding nodes_58_def
  by (simp_all add: slot_numeral aligned_numeral look_numeral look_node_pos del: look.simps(2) cong: look_weak chk2_weak)

lemma nodes_chk_59: "chk2 nodes_59 0x81007600" "length nodes_59 = 128"
  unfolding nodes_59_def
  by (simp_all add: slot_numeral aligned_numeral look_numeral look_node_pos del: look.simps(2) cong: look_weak chk2_weak)

lemma nodes_chk_60: "chk2 nodes_60 0x81007800" "length nodes_60 = 128"
  unfolding nodes_60_def
  by (simp_all add: slot_numeral aligned_numeral look_numeral look_node_pos del: look.simps(2) cong: look_weak chk2_weak)

lemma nodes_chk_61: "chk2 nodes_61 0x81007a00" "length nodes_61 = 128"
  unfolding nodes_61_def
  by (simp_all add: slot_numeral aligned_numeral look_numeral look_node_pos del: look.simps(2) cong: look_weak chk2_weak)

lemma nodes_chk_62: "chk2 nodes_62 0x81007c00" "length nodes_62 = 128"
  unfolding nodes_62_def
  by (simp_all add: slot_numeral aligned_numeral look_numeral look_node_pos del: look.simps(2) cong: look_weak chk2_weak)

lemma nodes_chk_63: "chk2 nodes_63 0x81007e00" "length nodes_63 = 128"
  unfolding nodes_63_def
  by (simp_all add: slot_numeral aligned_numeral look_numeral look_node_pos del: look.simps(2) cong: look_weak chk2_weak)

text \<open>The pieces together.\<close>

lemma chk2_append: "even (length xs) \<Longrightarrow> chk2 (xs @ ys) a \<longleftrightarrow> chk2 xs a \<and> chk2 ys (a + 4 * int (length xs))"
  by (induction xs a rule: chk2.induct) (auto simp: algebra_simps)

lemmas node_chks = nodes_chk_0 nodes_chk_1 nodes_chk_2 nodes_chk_3 nodes_chk_4 nodes_chk_5 nodes_chk_6 nodes_chk_7
  nodes_chk_8 nodes_chk_9 nodes_chk_10 nodes_chk_11 nodes_chk_12 nodes_chk_13 nodes_chk_14 nodes_chk_15
  nodes_chk_16 nodes_chk_17 nodes_chk_18 nodes_chk_19 nodes_chk_20 nodes_chk_21 nodes_chk_22 nodes_chk_23
  nodes_chk_24 nodes_chk_25 nodes_chk_26 nodes_chk_27 nodes_chk_28 nodes_chk_29 nodes_chk_30 nodes_chk_31
  nodes_chk_32 nodes_chk_33 nodes_chk_34 nodes_chk_35 nodes_chk_36 nodes_chk_37 nodes_chk_38 nodes_chk_39
  nodes_chk_40 nodes_chk_41 nodes_chk_42 nodes_chk_43 nodes_chk_44 nodes_chk_45 nodes_chk_46 nodes_chk_47
  nodes_chk_48 nodes_chk_49 nodes_chk_50 nodes_chk_51 nodes_chk_52 nodes_chk_53 nodes_chk_54 nodes_chk_55
  nodes_chk_56 nodes_chk_57 nodes_chk_58 nodes_chk_59 nodes_chk_60 nodes_chk_61 nodes_chk_62 nodes_chk_63
 

lemma nodes_chk: "chk2 nodes 0x81000000" "length nodes = 8192"
  unfolding nodes_def by (simp_all add: chk2_append node_chks)

lemma nodes_start: "look node_pos (slot 0x81000000) = 0"
  by (simp add: slot_numeral look_numeral look_node_pos del: look.simps(2) cong: look_weak)

lemma chase_length: "length chase_data = 1024"
  by (simp add: chase_data_def)

lemma chase_start: "look chase_pos 0 = 0"
  by (simp add: look_numeral look_chase_pos del: look.simps(2) cong: look_weak)

section \<open>Elements\<close>

lemma chk1_nth:
  assumes "chk1 xs a" and "i < length xs"
  shows "0 \<le> xs ! i \<and> xs ! i < 1024
    \<and> look chase_pos (xs ! i) = (if look chase_pos (a + int i) = 1023 then 0 else look chase_pos (a + int i) + 1)"
  using assms
proof (induction xs a arbitrary: i rule: chk1.induct)
  case (2 x xs a)
  then show ?case by (cases i) (auto simp: algebra_simps)
qed auto

lemma chk2_nth:
  assumes "chk2 xs a" and "2 * i + 1 < length xs"
  shows "0x81000000 \<le> xs ! (2 * i) \<and> xs ! (2 * i) < 0x81008000 \<and> aligned (xs ! (2 * i))
    \<and> look node_pos (slot (xs ! (2 * i)))
      = (if look node_pos (slot (a + 8 * int i)) = 4095 then 0 else look node_pos (slot (a + 8 * int i)) + 1)"
  using assms
proof (induction xs a arbitrary: i rule: chk2.induct)
  case (1 x k xs a)
  then show ?case by (cases i) (auto simp: algebra_simps)
qed auto

text \<open>The keys other than \<open>-1\<close>: every tile number below 128 is one of them.\<close>

fun keys_in :: "int list \<Rightarrow> int list" where
  "keys_in (x # k # xs) = (if k = -1 then keys_in xs else k # keys_in xs)"
| "keys_in _ = []"

lemma keys_in_append: "even (length xs) \<Longrightarrow> keys_in (xs @ ys) = keys_in xs @ keys_in ys"
  by (induction xs rule: keys_in.induct) auto

lemma keys_in_nth: "even (length xs) \<Longrightarrow> k \<in> set (keys_in xs) \<Longrightarrow> \<exists>i. 2 * i + 1 < length xs \<and> xs ! (2 * i + 1) = k"
proof (induction xs rule: keys_in.induct)
  case (1 x k' xs)
  show ?case
  proof (cases "k = k'")
    case True
    then show ?thesis by (intro exI [of _ 0]) simp
  next
    case False
    then obtain i where "2 * i + 1 < length xs" "xs ! (2 * i + 1) = k" using 1 by (auto split: if_splits)
    then show ?thesis by (intro exI [of _ "Suc i"]) simp
  qed
qed auto

lemma keys_weak: "keys_in xs = keys_in xs"
  by (rule refl)

lemmas keys_in_unfold = arg_cong [where f = keys_in, OF nodes_0_def] arg_cong [where f = keys_in, OF nodes_1_def] arg_cong [where f = keys_in, OF nodes_2_def] arg_cong [where f = keys_in, OF nodes_3_def] arg_cong [where f = keys_in, OF nodes_4_def] arg_cong [where f = keys_in, OF nodes_5_def] arg_cong [where f = keys_in, OF nodes_6_def] arg_cong [where f = keys_in, OF nodes_7_def]
    arg_cong [where f = keys_in, OF nodes_8_def] arg_cong [where f = keys_in, OF nodes_9_def] arg_cong [where f = keys_in, OF nodes_10_def] arg_cong [where f = keys_in, OF nodes_11_def] arg_cong [where f = keys_in, OF nodes_12_def] arg_cong [where f = keys_in, OF nodes_13_def] arg_cong [where f = keys_in, OF nodes_14_def] arg_cong [where f = keys_in, OF nodes_15_def]
    arg_cong [where f = keys_in, OF nodes_16_def] arg_cong [where f = keys_in, OF nodes_17_def] arg_cong [where f = keys_in, OF nodes_18_def] arg_cong [where f = keys_in, OF nodes_19_def] arg_cong [where f = keys_in, OF nodes_20_def] arg_cong [where f = keys_in, OF nodes_21_def] arg_cong [where f = keys_in, OF nodes_22_def] arg_cong [where f = keys_in, OF nodes_23_def]
    arg_cong [where f = keys_in, OF nodes_24_def] arg_cong [where f = keys_in, OF nodes_25_def] arg_cong [where f = keys_in, OF nodes_26_def] arg_cong [where f = keys_in, OF nodes_27_def] arg_cong [where f = keys_in, OF nodes_28_def] arg_cong [where f = keys_in, OF nodes_29_def] arg_cong [where f = keys_in, OF nodes_30_def] arg_cong [where f = keys_in, OF nodes_31_def]
    arg_cong [where f = keys_in, OF nodes_32_def] arg_cong [where f = keys_in, OF nodes_33_def] arg_cong [where f = keys_in, OF nodes_34_def] arg_cong [where f = keys_in, OF nodes_35_def] arg_cong [where f = keys_in, OF nodes_36_def] arg_cong [where f = keys_in, OF nodes_37_def] arg_cong [where f = keys_in, OF nodes_38_def] arg_cong [where f = keys_in, OF nodes_39_def]
    arg_cong [where f = keys_in, OF nodes_40_def] arg_cong [where f = keys_in, OF nodes_41_def] arg_cong [where f = keys_in, OF nodes_42_def] arg_cong [where f = keys_in, OF nodes_43_def] arg_cong [where f = keys_in, OF nodes_44_def] arg_cong [where f = keys_in, OF nodes_45_def] arg_cong [where f = keys_in, OF nodes_46_def] arg_cong [where f = keys_in, OF nodes_47_def]
    arg_cong [where f = keys_in, OF nodes_48_def] arg_cong [where f = keys_in, OF nodes_49_def] arg_cong [where f = keys_in, OF nodes_50_def] arg_cong [where f = keys_in, OF nodes_51_def] arg_cong [where f = keys_in, OF nodes_52_def] arg_cong [where f = keys_in, OF nodes_53_def] arg_cong [where f = keys_in, OF nodes_54_def] arg_cong [where f = keys_in, OF nodes_55_def]
    arg_cong [where f = keys_in, OF nodes_56_def] arg_cong [where f = keys_in, OF nodes_57_def] arg_cong [where f = keys_in, OF nodes_58_def] arg_cong [where f = keys_in, OF nodes_59_def] arg_cong [where f = keys_in, OF nodes_60_def] arg_cong [where f = keys_in, OF nodes_61_def] arg_cong [where f = keys_in, OF nodes_62_def] arg_cong [where f = keys_in, OF nodes_63_def]
   

lemma keys_in_nodes:
  "keys_in nodes = [
    35, 55, 53, 97, 92, 8, 98, 12, 127, 19, 64, 42, 3, 118, 91, 2, 123, 86, 112, 15, 63, 13, 88, 21, 110,
    33, 104, 4, 16, 34, 90, 29, 6, 67, 66, 22, 54, 72, 75, 56, 37, 26, 124, 102, 83, 40, 69, 101, 125,
    113, 47, 27, 52, 38, 11, 117, 58, 78, 126, 82, 108, 71, 10, 99, 109, 80, 62, 94, 68, 46, 106, 96, 81,
    30, 31, 5, 61, 9, 85, 32, 23, 43, 50, 49, 25, 28, 116, 48, 65, 121, 18, 79, 20, 51, 89, 84, 70, 44,
    95, 111, 73, 59, 103, 119, 76, 100, 114, 77, 14, 120, 60, 17, 7, 87, 24, 74, 115, 107, 39, 57, 45,
    41, 1, 36, 122, 105, 93, 0]"
  unfolding nodes_def
  by (simp add: keys_in_append node_chks keys_in_unfold cong: keys_weak)

lemma all_keys: "\<forall>k \<in> set [0..127]. k \<in> set (keys_in nodes)"
  unfolding keys_in_nodes by (simp add: upto_rec1)

end

