(* ===== verification/Pointer_Chasing.thy ===== *)
theory Pointer_Chasing
  imports Pointer_Data Programs Tile_Group_Barrier
begin

text \<open>
  The programs \<open>spmd/network_test_pointer_chasing\<close> and \<open>spmd/network_test_pointer_chasing2\<close>. Every tile follows
  a linked list in DRAM that no tile writes; the loops have no counter, so that they return at all rests on the
  shape of the list. A read outside the array, or a loop that does not end, is \<open>None\<close>.
\<close>

section \<open>Lists that are one cycle\<close>

lemma one_cycle:
  fixes f :: "nat \<Rightarrow> nat" and P :: "nat \<Rightarrow> int"
  assumes f: "\<And>i. i < N \<Longrightarrow> f i < N" and P: "\<And>i. i < N \<Longrightarrow> P (f i) = (if P i = int N - 1 then 0 else P i + 1)"
    and N: "0 < N" and P0: "P 0 = 0"
  shows "k < N \<Longrightarrow> P ((f ^^ k) 0) = int k"
    and "(f ^^ k) 0 < N"
    and "bij_betw (\<lambda>k. (f ^^ k) 0) {..<N} {..<N}"
    and "(f ^^ N) 0 = 0"
proof -
  show c: "(f ^^ k) 0 < N" for k using N f by (induction k) auto
  show n: "P ((f ^^ k) 0) = int k" if "k < N" for k
    using that by (induction k) (auto simp: P0 P c)
  have inj: "inj_on (\<lambda>k. (f ^^ k) 0) {..<N}" by (rule inj_onI) (metis lessThan_iff n of_nat_eq_iff)
  have sub: "(\<lambda>k. (f ^^ k) 0) ` {..<N} \<subseteq> {..<N}" using c by auto
  show b: "bij_betw (\<lambda>k. (f ^^ k) 0) {..<N} {..<N}"
    unfolding bij_betw_def using inj card_subset_eq [OF finite_lessThan sub] card_image [OF inj] by simp
  have "P (f ((f ^^ (N - 1)) 0)) = 0" using P [OF c, of "N - 1"] n [of "N - 1"] N by simp
  moreover have "f ((f ^^ (N - 1)) 0) = (f ^^ N) 0" using N by (cases N) auto
  ultimately have z: "P ((f ^^ N) 0) = 0" by simp
  obtain j where j: "j < N" "(f ^^ N) 0 = (f ^^ j) 0" using b c [of N] unfolding bij_betw_def by (metis (mono_tags, lifting) imageE lessThan_iff)
  then show "(f ^^ N) 0 = 0" using n [of j] z by simp
qed

lemma cycle_reach:
  assumes b: "bij_betw (\<lambda>k. (f ^^ k) 0) {..<N} {..<N}" and z: "(f ^^ N) 0 = (0 :: nat)" and "i < N" "j < N"
  shows "\<exists>k. (f ^^ k) i = j"
proof -
  from b assms(3,4) obtain a e where a: "a < N" "i = (f ^^ a) 0" and e: "j = (f ^^ e) 0"
    unfolding bij_betw_def by (metis (mono_tags, lifting) imageE lessThan_iff)
  have "(f ^^ (e + (N - a))) i = (f ^^ e) ((f ^^ (N - a + a)) 0)" by (simp only: a funpow_add comp_apply)
  then have "(f ^^ (e + (N - a))) i = j" using a e z by simp
  then show ?thesis ..
qed

section \<open>\<open>network_test_pointer_chasing\<close>\<close>

text \<open>\<open>data[i]\<close>\<close>

definition data_at :: "u32 \<Rightarrow> u32 option" where
  "data_at i = (if unat i < 1024 then Some (word_of_int (chase_data ! unat i)) else None)"

text \<open>The loop, with \<open>count\<close> and \<open>sum\<close>.\<close>

partial_function (option) chase_loop :: "u32 \<Rightarrow> u32 \<Rightarrow> u32 \<Rightarrow> (u32 \<times> u32) option" where
  "chase_loop curr_idx cnt tot =
     (if curr_idx = 0 then Some (cnt, tot)
      else Option.bind (data_at curr_idx) (\<lambda>i. chase_loop i (cnt + 1) (tot + i)))"

definition chase :: "(u32 \<times> u32) option" where
  "chase = Option.bind (data_at 0) (\<lambda>i. chase_loop i 1 i)"

definition chase_N :: u32 where "chase_N = 1024"

text \<open>\<open>main\<close>; \<open>row\<close> and \<open>col\<close> are the places of \<open>r_barrier\<close> and \<open>c_barrier\<close>.\<close>

definition chase_main :: "cfg \<Rightarrow> u32 \<Rightarrow> u32 \<Rightarrow> tile \<Rightarrow> proc" where
  "chase_main c row col t =
     (let (r_barrier, c_barrier) = INIT_TILE_GROUP_BARRIER row col 0 (bsg_tiles_X c - 1) 0 (bsg_tiles_Y c - 1);
          bsg_id = bsg_x_y_to_id c (fst t) (snd t) in
      seq (if bsg_id = 0 then bsg_print_stat c 0 else Ret 0)
        (case chase of
           None \<Rightarrow> spin_forever
         | Some (cnt, tot) \<Rightarrow>
             seq (if cnt \<noteq> chase_N then bsg_fail c t else Ret 0)
               (seq (if tot \<noteq> 523776 then bsg_fail c t else Ret 0)
                 (seq (bsg_tile_group_barrier (unat (bsg_tiles_X c)) (unat (bsg_tiles_Y c)) t r_barrier c_barrier)
                   (if bsg_id = 0 then seq (bsg_print_stat c 1) (bsg_finish c t) else spin_forever)))))"

abbreviation succ1 :: "nat \<Rightarrow> nat" where "succ1 i \<equiv> nat (chase_data ! i)"

lemma succ1_step:
  assumes "i < 1024"
  shows "succ1 i < 1024" "data_at (of_nat i) = Some (of_nat (succ1 i))"
    "look chase_pos (int (succ1 i)) = (if look chase_pos (int i) = int 1024 - 1 then 0 else look chase_pos (int i) + 1)"
  using chk1_nth [OF chase_chk, of i] assms by (auto simp: chase_length data_at_def unat_of_nat_lt)

lemmas cycle1 = one_cycle [of 1024 succ1 "\<lambda>i. look chase_pos (int i)", OF succ1_step(1,3)]

lemma chase_loop_run:
  assumes "(succ1 ^^ k) i = 0" and "\<And>j. j < k \<Longrightarrow> (succ1 ^^ j) i \<noteq> 0 \<and> (succ1 ^^ j) i < 1024"
  shows "chase_loop (of_nat i) cnt tot
    = Some (cnt + of_nat k, tot + (\<Sum>j<k. of_nat ((succ1 ^^ Suc j) i)))"
  using assms
proof (induction k arbitrary: i cnt tot)
  case 0
  then show ?case by (simp add: chase_loop.simps)
next
  case (Suc k)
  have i: "i < 1024" "i \<noteq> 0" using Suc.prems(2) [of 0] by auto
  have "chase_loop (of_nat (succ1 i)) (cnt + 1) (tot + of_nat (succ1 i))
    = Some (cnt + 1 + of_nat k, tot + of_nat (succ1 i) + (\<Sum>j<k. of_nat ((succ1 ^^ Suc j) (succ1 i))))"
  proof (rule Suc.IH)
    show "(succ1 ^^ k) (succ1 i) = 0" using Suc.prems(1) by (simp add: funpow_Suc_right del: funpow.simps)
    show "(succ1 ^^ j) (succ1 i) \<noteq> 0 \<and> (succ1 ^^ j) (succ1 i) < 1024" if "j < k" for j
      using Suc.prems(2) [of "Suc j"] that by (simp add: funpow_Suc_right del: funpow.simps)
  qed
  moreover have "(\<Sum>j<Suc k. of_nat ((succ1 ^^ Suc j) i)) = of_nat (succ1 i) + (\<Sum>j<k. (of_nat ((succ1 ^^ Suc j) (succ1 i)) :: u32))"
    unfolding sum.lessThan_Suc_shift by (simp add: funpow_Suc_right del: funpow.simps(2))
  moreover have "\<not> 4294967296 dvd i" using i by (auto dest: dvd_imp_le)
  ultimately show ?case using i by (subst chase_loop.simps) (simp add: succ1_step(2) word_of_nat_eq_0_iff)
qed

lemma sum_to_1024: "(\<Sum>i = 0..<1024. i) = (523776 :: nat)"
  using gauss_sum_nat [of 1023] by (simp add: atLeast0AtMost lessThan_Suc_atMost [symmetric] atLeast0LessThan)

text \<open>Every tile of the pointer-chasing test goes through the whole list: it counts 1024 elements, their sum is
  523776, it never reads outside the array, and so never reports a failure.\<close>

theorem chase_visits_all:
  "chase = Some (1024, 523776) \<and> chase_main c row col t =
     (let (r_barrier, c_barrier) = INIT_TILE_GROUP_BARRIER row col 0 (bsg_tiles_X c - 1) 0 (bsg_tiles_Y c - 1);
          bsg_id = bsg_x_y_to_id c (fst t) (snd t) in
      seq (if bsg_id = 0 then bsg_print_stat c 0 else Ret 0)
        (seq (bsg_tile_group_barrier (unat (bsg_tiles_X c)) (unat (bsg_tiles_Y c)) t r_barrier c_barrier)
          (if bsg_id = 0 then seq (bsg_print_stat c 1) (bsg_finish c t) else spin_forever)))"
proof -
  let ?f = "\<lambda>k. (succ1 ^^ k) 0"
  have shift: "(succ1 ^^ j) (succ1 0) = ?f (Suc j)" for j by (simp add: funpow_Suc_right del: funpow.simps)
  have number: "look chase_pos (int (?f k)) = int k" if "k < 1024" for k
    using cycle1(1) [of k] chase_start that by simp
  have closed: "?f k < 1024" for k using cycle1(2) chase_start by simp
  have bij: "bij_betw ?f {..<1024} {..<1024}" and z: "?f 1024 = 0"
    using cycle1(3,4) chase_start by simp_all
  have nz: "?f (Suc j) \<noteq> 0" if "j < 1023" for j
  proof
    assume "?f (Suc j) = 0"
    then show False using number [of "Suc j"] chase_start that by (simp only:) simp
  qed
  have "chase = chase_loop (of_nat (succ1 0)) 1 (of_nat (succ1 0))"
    unfolding chase_def using succ1_step(2) [of 0] by simp
  also have "\<dots> = Some (1 + of_nat 1023, of_nat (succ1 0) + (\<Sum>j<1023. of_nat ((succ1 ^^ Suc j) (succ1 0))))"
    using z nz closed by (intro chase_loop_run) (auto simp: shift simp del: funpow.simps)
  also have "of_nat (succ1 0) + (\<Sum>j<1023. of_nat ((succ1 ^^ Suc j) (succ1 0))) = (of_nat (\<Sum>j<Suc 1023. ?f (Suc j)) :: u32)"
    unfolding shift sum.lessThan_Suc_shift by (simp del: funpow.simps) simp
  also have "(\<Sum>j<Suc 1023. ?f (Suc j)) = (\<Sum>j<Suc 1024. ?f j)"
    unfolding sum.lessThan_Suc_shift [of _ 1024] by simp
  also have "\<dots> = (\<Sum>j<1024. ?f j)"
    unfolding sum.lessThan_Suc using z by simp
  also have "\<dots> = (\<Sum>i = 0..<1024. i)"
    using sum.reindex_bij_betw [OF bij, of "\<lambda>i. i"] by (simp add: atLeast0LessThan)
  finally have e: "chase = Some (1024, 523776)" by (simp add: sum_to_1024)
  show ?thesis unfolding chase_main_def e by (simp add: chase_N_def Let_def split: prod.split)
qed

section \<open>\<open>network_test_pointer_chasing2\<close>\<close>

text \<open>A node at an address of the array, which starts the DRAM section: its pointer and its key.\<close>

definition node_addr :: "nat \<Rightarrow> u32" where
  "node_addr i = 0x81000000 + 8 * of_nat i"

definition node_at :: "u32 \<Rightarrow> (u32 \<times> u32) option" where
  "node_at p = (let i = unat (p - 0x81000000) div 8 in
     if i < 4096 \<and> p = node_addr i
     then Some (word_of_int (nodes ! (2 * i)), word_of_int (nodes ! (2 * i + 1))) else None)"

definition chase2_N :: u32 where "chase2_N = 4096"

definition NUM_TILES :: "cfg \<Rightarrow> u32" where "NUM_TILES c = bsg_tiles_X c * bsg_tiles_Y c"

text \<open>The \<open>do\<close> loop; it returns the final \<open>ptr\<close>.\<close>

partial_function (option) pointer_chase_loop :: "u32 \<Rightarrow> u32 \<Rightarrow> u32 option" where
  "pointer_chase_loop my_id p =
     Option.bind (node_at p) (\<lambda>(nxt, key1).
       Option.bind (node_at nxt) (\<lambda>(nxt', key2).
         if key1 \<noteq> my_id \<and> key2 \<noteq> my_id then pointer_chase_loop my_id nxt' else Some nxt'))"

definition pointer_chase :: "cfg \<Rightarrow> u32 \<Rightarrow> u32 option" where
  "pointer_chase c my_id =
     pointer_chase_loop my_id (0x81000000 + 8 * c_rem (my_id * c_div chase2_N (NUM_TILES c)) chase2_N)"

definition chase2_main :: "cfg \<Rightarrow> u32 \<Rightarrow> u32 \<Rightarrow> tile \<Rightarrow> proc" where
  "chase2_main c row col t =
     (let (r_barrier, c_barrier) = INIT_TILE_GROUP_BARRIER row col 0 (bsg_tiles_X c - 1) 0 (bsg_tiles_Y c - 1);
          bsg_id = bsg_x_y_to_id c (fst t) (snd t) in
      seq (if bsg_id = 0 then bsg_print_stat c 0 else Ret 0)
        (case pointer_chase c bsg_id of
           None \<Rightarrow> spin_forever
         | Some _ \<Rightarrow>
             seq (bsg_tile_group_barrier (unat (bsg_tiles_X c)) (unat (bsg_tiles_Y c)) t r_barrier c_barrier)
               (if bsg_id = 0 then seq (bsg_print_stat c 1) (bsg_finish c t) else spin_forever)))"

definition succ2 :: "nat \<Rightarrow> nat" where
  "succ2 i = nat ((nodes ! (2 * i) - 0x81000000) div 8)"

lemma unat_8: "i < 4096 \<Longrightarrow> unat (8 * of_nat i :: u32) = 8 * i"
  using unat_of_nat_lt [of "8 * i"] by simp

lemma node_at_addr: "i < 4096 \<Longrightarrow>
    node_at (node_addr i) = Some (word_of_int (nodes ! (2 * i)), word_of_int (nodes ! (2 * i + 1)))"
  by (simp add: node_at_def node_addr_def unat_8)

lemma succ2_step:
  assumes "i < 4096"
  shows "succ2 i < 4096" and "word_of_int (nodes ! (2 * i)) = node_addr (succ2 i)"
    and "look node_pos (slot (0x81000000 + 8 * int (succ2 i)))
      = (if look node_pos (slot (0x81000000 + 8 * int i)) = int 4096 - 1 then 0
         else look node_pos (slot (0x81000000 + 8 * int i)) + 1)"
proof -
  let ?x = "nodes ! (2 * i)"
  have x: "0x81000000 \<le> ?x \<and> ?x < 0x81008000 \<and> aligned ?x
    \<and> look node_pos (slot ?x) = (if look node_pos (slot (0x81000000 + 8 * int i)) = 4095 then 0
         else look node_pos (slot (0x81000000 + 8 * int i)) + 1)"
    using chk2_nth [OF nodes_chk(1), of i] assms by (simp add: nodes_chk(2))
  have "(?x - 0x81000000) mod 8 = 0" using x unfolding aligned_def by (simp add: mod_diff_eq [symmetric])
  then have "8 * ((?x - 0x81000000) div 8) = ?x - 0x81000000" by (simp add: mod_0_imp_dvd)
  moreover have "int (succ2 i) = (?x - 0x81000000) div 8" unfolding succ2_def using x by simp
  ultimately have e: "?x = 0x81000000 + 8 * int (succ2 i)" by linarith
  show "succ2 i < 4096" using x e by linarith
  show "word_of_int ?x = node_addr (succ2 i)" unfolding e node_addr_def by simp
  show "look node_pos (slot (0x81000000 + 8 * int (succ2 i)))
      = (if look node_pos (slot (0x81000000 + 8 * int i)) = int 4096 - 1 then 0
         else look node_pos (slot (0x81000000 + 8 * int i)) + 1)"
    using x unfolding e by simp
qed

lemmas cycle2 = one_cycle [of 4096 succ2 "\<lambda>i. look node_pos (slot (0x81000000 + 8 * int i))", OF succ2_step(1,3)]

lemma pointer_chase_loop_returns:
  assumes "i < 4096" and "nodes ! (2 * (succ2 ^^ k) i + 1) = int n"
  shows "\<exists>j < 4096. pointer_chase_loop (of_nat n) (node_addr i) = Some (node_addr j)"
  using assms
proof (induction k arbitrary: i rule: less_induct)
  case (less k)
  note i = less.prems(1) succ2_step(1) [OF less.prems(1)]
  let ?key = "\<lambda>i. word_of_int (nodes ! (2 * i + 1)) :: u32"
  have unf: "pointer_chase_loop (of_nat n) (node_addr i) =
    (if ?key i \<noteq> of_nat n \<and> ?key (succ2 i) \<noteq> of_nat n
     then pointer_chase_loop (of_nat n) (node_addr (succ2 (succ2 i))) else Some (node_addr (succ2 (succ2 i))))"
    using i by (subst pointer_chase_loop.simps) (simp add: node_at_addr succ2_step(2))
  show ?case
  proof (cases "?key i \<noteq> of_nat n \<and> ?key (succ2 i) \<noteq> of_nat n")
    case True
    have "k \<noteq> 0" "k \<noteq> 1" using True less.prems(2) by (auto intro: ccontr)
    then obtain k' where k: "k = Suc (Suc k')" by (metis One_nat_def not0_implies_Suc)
    have "\<exists>j < 4096. pointer_chase_loop (of_nat n) (node_addr (succ2 (succ2 i))) = Some (node_addr j)"
      using less.prems(2) i by (intro less.IH [of k']) (auto simp: k funpow_Suc_right succ2_step(1) simp del: funpow.simps)
    then show ?thesis using True unf by simp
  next
    case False
    then show ?thesis using unf i succ2_step(1) by auto
  qed
qed

lemma key_reached:
  assumes "i < 4096" and "n < 128"
  shows "\<exists>k. nodes ! (2 * (succ2 ^^ k) i + 1) = int n"
proof -
  have "int n \<in> set [0..127]" unfolding set_upto using assms(2) by simp
  then have "int n \<in> set (keys_in nodes)" by (rule bspec [OF all_keys])
  moreover have "even (length nodes)" by (simp add: nodes_chk(2))
  ultimately obtain j where "2 * j + 1 < length nodes" and key: "nodes ! (2 * j + 1) = int n"
    using keys_in_nth by blast
  then have "j < 4096" by (simp add: nodes_chk(2))
  then obtain k where "(succ2 ^^ k) i = j" using cycle_reach [of succ2 4096 i j] cycle2(3,4) nodes_start assms(1) by auto
  then show ?thesis using key by blast
qed

text \<open>C34: In the second test the loop, which has no counter, ends for every tile of a group of at most 128 tiles,
  whether or not their number is a power of two, and all pointers that it follows point into the array.\<close>

theorem pointer_chase_returns:
  assumes "unat (bsg_tiles_X c) * unat (bsg_tiles_Y c) \<le> 128" and "0 < unat (bsg_tiles_X c) * unat (bsg_tiles_Y c)"
    and "my_id < 128"
  shows "\<exists>j < 4096. pointer_chase c (of_nat my_id) = Some (node_addr j)"
proof -
  let ?n = "unat (bsg_tiles_X c) * unat (bsg_tiles_Y c)"
  note n = assms(1,2)
  have "unat (NUM_TILES c) = ?n" unfolding NUM_TILES_def using n by (subst unat_mult_lem [THEN iffD1]) auto
  then have q: "c_div chase2_N (NUM_TILES c) = of_nat (4096 div ?n)"
    using n by (intro word_unat_eq_iff [THEN iffD2]) (simp add: unat_c_div chase2_N_def unat_of_nat_lt le_less_trans [OF div_le_dividend])
  have "my_id * (4096 div ?n) \<le> 128 * 4096" using assms(3) by (intro mult_le_mono) (simp_all add: div_le_dividend)
  then have "unat (of_nat my_id * of_nat (4096 div ?n) :: u32) = my_id * (4096 div ?n)"
    by (simp add: unat_of_nat_lt flip: of_nat_mult)
  then have "unat (c_rem (of_nat my_id * c_div chase2_N (NUM_TILES c)) chase2_N) < 4096"
    unfolding q using \<open>my_id * (4096 div ?n) \<le> 128 * 4096\<close> by (simp add: unat_c_rem chase2_N_def)
  then obtain i where "i < 4096" "c_rem (of_nat my_id * c_div chase2_N (NUM_TILES c)) chase2_N = of_nat i"
    using that [of "unat (c_rem (of_nat my_id * c_div chase2_N (NUM_TILES c)) chase2_N)"] by simp
  then show ?thesis unfolding pointer_chase_def
    using key_reached [of i my_id] pointer_chase_loop_returns [of i _ my_id] assms(3) by (auto simp: node_addr_def)
qed

lemma pointer_chase_returns_witness:
  "\<exists>j < 4096. pointer_chase small_cfg (of_nat 3) = Some (node_addr j)"
  by (rule pointer_chase_returns) (simp_all add: small_cfg_def)

end
