(* ===== verification/Locked_Update.thy ===== *)
theory Locked_Update
  imports Mutex Barrier
begin

text \<open>
  A pattern of two test programs: every tile performs a list of batches, each a list of additions to shared
  bins, with a spin lock taken around every batch. Whatever the interleaving, no addition is lost. The code of
  \<open>spmd/vcache_atomic_histogram\<close> is one batch per tile, that of \<open>spmd/vcache_atomic_histogram2\<close> one batch
  per element of the data.
\<close>

section \<open>The code pattern\<close>

type_synonym batch = "(nat \<times> nat) list"

abbreviation bin_ptr :: "u32 \<Rightarrow> nat \<Rightarrow> u32" where
  "bin_ptr hist i \<equiv> hist + 4 * of_nat i"

definition add_to_bin :: "u32 \<Rightarrow> nat \<times> nat \<Rightarrow> proc" where
  "add_to_bin hist = (\<lambda>(i, n). Act (Load32 (bin_ptr hist i)) (\<lambda>v. Act (Store32 (bin_ptr hist i) (v + of_nat n)) Ret))"

definition acquire_zero :: "u32 \<Rightarrow> (u32 \<Rightarrow> proc) \<Rightarrow> proc" where
  "acquire_zero lock k = Loop (bsg_amoswap_aq lock 1) (\<lambda>lock_val. lock_val = 0) k"

definition locked_batch :: "u32 \<Rightarrow> u32 \<Rightarrow> batch \<Rightarrow> proc" where
  "locked_batch lock hist b = acquire_zero lock (\<lambda>_. seq (for_each b (add_to_bin hist)) (bsg_amoswap_rl lock 0))"

definition locked_batches :: "u32 \<Rightarrow> u32 \<Rightarrow> batch list \<Rightarrow> proc" where
  "locked_batches lock hist bs = for_each bs (locked_batch lock hist)"

section \<open>Control states\<close>

datatype lu_state = Say u32 "batch list" | Next "batch list" | Try batch "batch list"
  | Batch batch "batch list" | Add u32 "nat \<times> nat" batch "batch list"

fun lu_prog :: "cfg \<Rightarrow> u32 \<Rightarrow> u32 \<Rightarrow> lu_state \<Rightarrow> proc" where
  "lu_prog c lock hist (Say w bs) = seq (bsg_print_int c w) (locked_batches lock hist bs)"
| "lu_prog c lock hist (Next bs) = locked_batches lock hist bs"
| "lu_prog c lock hist (Try b bs) = Act (AmoSwap lock 1) (\<lambda>v. if v = 0
     then seq (for_each b (add_to_bin hist)) (Act (AmoSwap lock 0) (\<lambda>_. locked_batches lock hist bs))
     else locked_batches lock hist (b # bs))"
| "lu_prog c lock hist (Batch b bs) =
     seq (for_each b (add_to_bin hist)) (Act (AmoSwap lock 0) (\<lambda>_. locked_batches lock hist bs))"
| "lu_prog c lock hist (Add v a b bs) = Act (Store32 (bin_ptr hist (fst a)) (v + of_nat (snd a)))
     (\<lambda>_. seq (for_each b (add_to_bin hist)) (Act (AmoSwap lock 0) (\<lambda>_. locked_batches lock hist bs)))"

datatype lu_cell = Lock | Bin nat

fun lu_next :: "cfg \<Rightarrow> (lu_cell \<Rightarrow> npa) \<Rightarrow> lu_state \<Rightarrow> machine \<Rightarrow> lu_state \<times> machine" where
  "lu_next c loc (Say w bs) m = (Next bs, put32 c (Endpoint (IO_X_INDEX c) (IO_Y_INDEX c) 0xEAE0) w m)"
| "lu_next c loc (Next []) m = (Next [], m)"
| "lu_next c loc (Next (b # bs)) m = (Try b bs, m)"
| "lu_next c loc (Try b bs) m = (if rd m (loc Lock) = 0 then Batch b bs else Next (b # bs), put32 c (loc Lock) 1 m)"
| "lu_next c loc (Batch [] bs) m = (Next bs, put32 c (loc Lock) 0 m)"
| "lu_next c loc (Batch (a # b) bs) m = (Add (rd m (loc (Bin (fst a)))) a b bs, m)"
| "lu_next c loc (Add v a b bs) m = (Batch b bs, put32 c (loc (Bin (fst a))) (v + of_nat (snd a)) m)"

fun has_lock :: "lu_state \<Rightarrow> bool" where
  "has_lock (Say w bs) = False"
| "has_lock (Next bs) = False"
| "has_lock (Try b bs) = False"
| "has_lock (Batch b bs) = True"
| "has_lock (Add v a b bs) = True"

text \<open>What a batch adds to bin \<open>i\<close>, and what a tile still has to add.\<close>

definition amount :: "nat \<Rightarrow> batch \<Rightarrow> nat" where
  "amount i b = sum_list (map (\<lambda>(j, n). if j = i then n else 0) b)"

fun todo :: "lu_state \<Rightarrow> batch" where
  "todo (Say w bs) = concat bs"
| "todo (Next bs) = concat bs"
| "todo (Try b bs) = b @ concat bs"
| "todo (Batch b bs) = b @ concat bs"
| "todo (Add v a b bs) = a # b @ concat bs"

lemma amount_simps [simp]: "amount i [] = 0" "amount i (a # b) = (if fst a = i then snd a else 0) + amount i b"
  "amount i (b @ b') = amount i b + amount i b'"
  by (simp_all add: amount_def case_prod_unfold)

definition lock_set :: "cfg \<Rightarrow> (tile \<Rightarrow> lu_state) \<Rightarrow> tile set" where
  "lock_set c qs = {t. in_group c t \<and> has_lock (qs t)}"

definition open_amount :: "cfg \<Rightarrow> nat \<Rightarrow> (tile \<Rightarrow> lu_state) \<Rightarrow> nat" where
  "open_amount c i qs = (\<Sum>t \<in> group_tiles c. amount i (todo (qs t)))"

definition lu_layout :: "cfg \<Rightarrow> u32 \<Rightarrow> u32 \<Rightarrow> nat \<Rightarrow> (lu_cell \<Rightarrow> npa) \<Rightarrow> bool" where
  "lu_layout c lock hist k loc \<longleftrightarrow> io_fits c
     \<and> (\<forall>t. in_group c t \<longrightarrow> eva_to_npa c t lock = loc Lock \<and> (\<forall>i < k. eva_to_npa c t (bin_ptr hist i) = loc (Bin i)))
     \<and> disjoint_cells loc (insert Lock (Bin ` {..<k})) \<and> off_io c (loc Lock) \<and> (\<forall>i < k. off_io c (loc (Bin i)))"

definition lu_inv :: "cfg \<Rightarrow> u32 \<Rightarrow> u32 \<Rightarrow> nat \<Rightarrow> (lu_cell \<Rightarrow> npa) \<Rightarrow> (nat \<Rightarrow> u32) \<Rightarrow> (tile \<Rightarrow> lu_state) \<Rightarrow> machine \<Rightarrow> bool" where
  "lu_inv c lock hist k loc tot qs m \<longleftrightarrow>
     lu_layout c lock hist k loc
     \<and> (rd m (loc Lock) = 0 \<and> lock_set c qs = {} \<or> rd m (loc Lock) = 1 \<and> (\<exists>h. lock_set c qs = {h}))
     \<and> (\<forall>t. in_group c t \<longrightarrow> (\<forall>(j, n) \<in> set (todo (qs t)). j < k))
     \<and> (\<forall>t \<in> lock_set c qs. \<forall>v a b bs. qs t = Add v a b bs \<longrightarrow> rd m (loc (Bin (fst a))) = v)
     \<and> (\<forall>i < k. rd m (loc (Bin i)) + of_nat (open_amount c i qs) = tot i)"

lemma open_amount_upd:
  "in_group c t \<Longrightarrow> open_amount c i (qs(t := q)) + amount i (todo (qs t)) = open_amount c i qs + amount i (todo q)"
  unfolding open_amount_def using sum_fun_upd [of "group_tiles c" t "\<lambda>q. amount i (todo q)" qs q]
  by (simp add: group_tiles_def)

lemma lock_set_upd:
  "in_group c t \<Longrightarrow> lock_set c (qs(t := q)) = (if has_lock q then insert t (lock_set c qs) else lock_set c qs - {t})"
  by (auto simp: lock_set_def)

lemma lu_code_step:
  assumes "in_group c t" and L: "lu_layout c lock hist k loc" and "\<forall>(j, n) \<in> set (todo q). j < k"
  shows "pstep c t (lu_prog c lock hist q, m) = (lu_prog c lock hist (fst (lu_next c loc q m)), snd (lu_next c loc q m))"
proof -
  have e: "eva_to_npa c t lock = loc Lock" and b: "\<And>i. i < k \<Longrightarrow> eva_to_npa c t (bin_ptr hist i) = loc (Bin i)" and "io_fits c"
    using assms by (simp_all add: lu_layout_def)
  note ld = locked_batches_def locked_batch_def acquire_zero_def bsg_amoswap_aq_def bsg_amoswap_rl_def
  show ?thesis
  proof (cases q)
    case (Say w bs)
    then show ?thesis using eva_io [OF \<open>io_fits c\<close>] by (simp add: bsg_print_int_def)
  next
    case (Next bs)
    then show ?thesis by (cases bs) (auto simp: fun_eq_iff ld)
  next
    case (Try b bs)
    then show ?thesis by (simp add: e Let_def rd_def)
  next
    case (Batch b' bs)
    then show ?thesis using assms(3) b by (cases b') (auto simp: e Let_def rd_def add_to_bin_def split: prod.splits)
  next
    case (Add v a b' bs)
    then show ?thesis using assms(3) b [of "fst a"] by (simp add: case_prod_unfold)
  qed
qed

section \<open>The invariant\<close>

lemma lu_cells:
  assumes "lu_layout c lock hist k loc"
  shows "i < k \<Longrightarrow> rd (put32 c (loc Lock) v m) (loc (Bin i)) = rd m (loc (Bin i))"
    and "i < k \<Longrightarrow> rd (put32 c (loc (Bin i)) v m) (loc Lock) = rd m (loc Lock)"
    and "i < k \<Longrightarrow> j < k \<Longrightarrow> rd (put32 c (loc (Bin i)) v m) (loc (Bin j)) = (if j = i then v else rd m (loc (Bin j)))"
    and "rd (put32 c (Endpoint x (IO_Y_INDEX c) a) v m) (loc Lock) = rd m (loc Lock)"
    and "i < k \<Longrightarrow> rd (put32 c (Endpoint x (IO_Y_INDEX c) a) v m) (loc (Bin i)) = rd m (loc (Bin i))"
proof -
  have d: "disjoint_cells loc (insert Lock (Bin ` {..<k}))" and o: "off_io c (loc Lock)" "\<And>i. i < k \<Longrightarrow> off_io c (loc (Bin i))"
    using assms by (auto simp: lu_layout_def)
  note r = rd_put_cell [OF d]
  show "i < k \<Longrightarrow> rd (put32 c (loc Lock) v m) (loc (Bin i)) = rd m (loc (Bin i))" using r [of Lock "Bin i"] by auto
  show "i < k \<Longrightarrow> rd (put32 c (loc (Bin i)) v m) (loc Lock) = rd m (loc Lock)" using r [of "Bin i" Lock] by auto
  show "i < k \<Longrightarrow> j < k \<Longrightarrow> rd (put32 c (loc (Bin i)) v m) (loc (Bin j)) = (if j = i then v else rd m (loc (Bin j)))"
    using r [of "Bin i" "Bin j"] by auto
  show "rd (put32 c (Endpoint x (IO_Y_INDEX c) a) v m) (loc Lock) = rd m (loc Lock)" using o by simp
  show "i < k \<Longrightarrow> rd (put32 c (Endpoint x (IO_Y_INDEX c) a) v m) (loc (Bin i)) = rd m (loc (Bin i))" using o by simp
qed

lemma lu_inv_step:
  assumes t: "in_group c t" and I: "lu_inv c lock hist k loc tot qs m" and n: "lu_next c loc (qs t) m = (q', m')"
  shows "lu_inv c lock hist k loc tot (qs(t := q')) m'"
proof -
  have L: "lu_layout c lock hist k loc" using I by (simp add: lu_inv_def)
  note cells = lu_cells [OF L]
  note w = open_amount_upd [OF t, of _ qs q'] and cs = lock_set_upd [OF t, of qs q']
  have ct: "t \<in> lock_set c qs \<longleftrightarrow> has_lock (qs t)" using t by (simp add: lock_set_def)
  have bound: "j < k" if "in_group c u" "(j, x) \<in> set (todo (qs u))" for u j x
    using I that unfolding lu_inv_def by blast
  have keep: "lu_inv c lock hist k loc tot (qs(t := q')) m'"
    if "\<And>i. amount i (todo q') = amount i (todo (qs t))" "set (todo q') \<subseteq> set (todo (qs t))" "\<And>i. i < k \<Longrightarrow> rd m' (loc (Bin i)) = rd m (loc (Bin i))"
      "rd m' (loc Lock) = 0 \<and> lock_set c (qs(t := q')) = {} \<or> rd m' (loc Lock) = 1 \<and> (\<exists>h. lock_set c (qs(t := q')) = {h})"
      "\<And>v a b bs. q' = Add v a b bs \<Longrightarrow> rd m (loc (Bin (fst a))) = v"
  proof -
    have "open_amount c i (qs(t := q')) = open_amount c i qs" for i using w [of i] that(1) by simp
    moreover have "j < k" if "in_group c u" "(j, x) \<in> set (todo ((qs(t := q')) u))" for u j x
      using bound [OF that(1), of j x] bound [OF t, of j x] that(2) \<open>set (todo q') \<subseteq> set (todo (qs t))\<close>
      by (cases "u = t") (simp_all add: subset_iff)
    moreover have "rd m' (loc (Bin (fst a))) = v" if "u \<in> lock_set c (qs(t := q'))" "(qs(t := q')) u = Add v a b bs" for u v a b bs
    proof -
      have "fst a < k" using calculation(2) [of u "fst a" "snd a"] that by (auto simp: lock_set_def split: if_splits)
      moreover have "rd m (loc (Bin (fst a))) = v"
        using that I \<open>\<And>v a b bs. q' = Add v a b bs \<Longrightarrow> rd m (loc (Bin (fst a))) = v\<close>
        by (cases "u = t") (auto simp: lu_inv_def lock_set_def)
      ultimately show ?thesis using \<open>\<And>i. i < k \<Longrightarrow> rd m' (loc (Bin i)) = rd m (loc (Bin i))\<close> by simp
    qed
    ultimately show ?thesis using I that(3,4) unfolding lu_inv_def by (auto simp del: fun_upd_apply)
  qed
  show ?thesis
  proof (cases "qs t")
    case (Say u bs)
    then show ?thesis using n ct cs I cells by (intro keep) (auto simp: lu_inv_def)
  next
    case (Next bs)
    then show ?thesis using n ct cs I by (cases bs; intro keep) (auto simp: lu_inv_def)
  next
    case (Try b bs)
    then show ?thesis using n ct cs I cells by (intro keep) (auto simp: lu_inv_def split: if_splits)
  next
    case (Batch b bs)
    then show ?thesis using n ct cs I cells by (cases b; intro keep) (auto simp: lu_inv_def)
  next
    case (Add v a b bs)
    then have q: "q' = Batch b bs" "m' = put32 c (loc (Bin (fst a))) (v + of_nat (snd a)) m" using n by auto
    have a: "fst a < k" using bound [OF t, of "fst a" "snd a"] Add by auto
    have m: "t \<in> lock_set c qs" using ct Add by simp
    then have "lock_set c qs = {t}" and h4: "rd m (loc Lock) = 1" using I unfolding lu_inv_def by auto
    then have h1: "lock_set c (qs(t := q')) = {t}" using cs q(1) by simp
    have h3: "rd m (loc (Bin (fst a))) = v" using I m Add unfolding lu_inv_def by blast
    have "rd m' (loc (Bin i)) + of_nat (open_amount c i (qs(t := q'))) = tot i" if "i < k" for i
    proof -
      have "open_amount c i qs = open_amount c i (qs(t := q')) + (if fst a = i then snd a else 0)"
        using w [of i] Add q by simp
      moreover have "rd m (loc (Bin i)) + of_nat (open_amount c i qs) = tot i" using I that by (simp add: lu_inv_def)
      ultimately show ?thesis using cells(3) [OF a that] h3 q(2) by (auto simp: ac_simps)
    qed
    moreover have "rd m' (loc Lock) = 1" using cells(2) [OF a] h4 q(2) by simp
    moreover have "j < k" if "in_group c u" "(j, x) \<in> set (todo ((qs(t := q')) u))" for u j x
      using bound [OF that(1), of j x] bound [OF t, of j x] that(2) Add q by (cases "u = t") simp_all
    then have "\<forall>u. in_group c u \<longrightarrow> (\<forall>(j, n) \<in> set (todo ((qs(t := q')) u)). j < k)" by blast
    ultimately show ?thesis using L h1 q(1) unfolding lu_inv_def by (simp del: todo.simps split_paired_All)
  qed
qed

interpretation lu: control_points c "\<lambda>t. lu_prog c lock hist" "\<lambda>t. lu_next c loc" "lu_inv c lock hist k loc tot"
  for c lock hist k loc tot
proof unfold_locales
  fix t qs m
  assume "in_group c t" "lu_inv c lock hist k loc tot qs m"
  then show "pstep c t (lu_prog c lock hist (qs t), m)
    = (lu_prog c lock hist (fst (lu_next c loc (qs t) m)), snd (lu_next c loc (qs t) m))"
    by (intro lu_code_step) (auto simp: lu_inv_def)
qed (rule lu_inv_step)

section \<open>Totals and progress\<close>

text \<open>The program of a tile at its start: an optional print, then its batches.\<close>

definition lu_start :: "u32 option \<Rightarrow> batch list \<Rightarrow> lu_state" where
  "lu_start w bs = (case w of None \<Rightarrow> Next bs | Some w \<Rightarrow> Say w bs)"

lemma todo_start [simp]: "todo (lu_start w bs) = concat bs" "\<not> has_lock (lu_start w bs)"
  by (simp_all add: lu_start_def split: option.split)

lemma lu_inv_start:
  assumes "lu_layout c lock hist k loc" and "rd m0 (loc Lock) = 0"
    and "\<forall>t. in_group c t \<longrightarrow> (\<forall>(j, n) \<in> set (concat (bs t)). j < k)"
  shows "lu_inv c lock hist k loc (\<lambda>i. rd m0 (loc (Bin i)) + of_nat (\<Sum>t \<in> group_tiles c. amount i (concat (bs t))))
    (\<lambda>t. lu_start (w t) (bs t)) m0"
  using assms by (auto simp: lu_inv_def lock_set_def open_amount_def)

lemma lu_prog_Ret: "lu_prog c lock hist q = Ret r \<Longrightarrow> q = Next []"
proof (cases q)
  case (Next bs)
  then show "lu_prog c lock hist q = Ret r \<Longrightarrow> q = Next []"
    by (cases bs) (auto simp: locked_batches_def locked_batch_def acquire_zero_def)
next
  case (Batch b bs)
  then show "lu_prog c lock hist q = Ret r \<Longrightarrow> q = Next []"
    by (cases b) (auto simp: add_to_bin_def split: prod.splits)
qed (auto simp: bsg_print_int_def)

lemma lu_totals:
  assumes "lu_layout c lock hist k loc" and "rd m0 (loc Lock) = 0"
    and "\<forall>t. in_group c t \<longrightarrow> (\<forall>(j, n) \<in> set (concat (bs t)). j < k)"
    and "reachable c (\<lambda>t. lu_prog c lock hist (lu_start (w t) (bs t)), m0) s" and "finished c s" and "i < k"
  shows "rd (snd s) (loc (Bin i)) = rd m0 (loc (Bin i)) + of_nat (\<Sum>t \<in> group_tiles c. amount i (concat (bs t)))"
proof -
  obtain qs where p: "fst s = (\<lambda>t. lu_prog c lock hist (qs t))" and I: "lu_inv c lock hist k loc
      (\<lambda>i. rd m0 (loc (Bin i)) + of_nat (\<Sum>t \<in> group_tiles c. amount i (concat (bs t)))) qs (snd s)"
    using lu.reachable_inv [OF assms(4) lu_inv_start [OF assms(1-3)]] by blast
  then have "qs t = Next []" if "in_group c t" for t
    using assms(5) that unfolding finished_def by (metis lu_prog_Ret)
  then have "open_amount c i qs = 0" by (simp add: open_amount_def group_tiles_def)
  moreover have "rd (snd s) (loc (Bin i)) + of_nat (open_amount c i qs)
    = rd m0 (loc (Bin i)) + of_nat (\<Sum>t \<in> group_tiles c. amount i (concat (bs t)))"
    using I assms(6) unfolding lu_inv_def by blast
  ultimately show ?thesis by simp
qed

fun lu_rank :: "lu_state \<Rightarrow> nat" where
  "lu_rank (Say w bs) = 4 * length bs + 2 * length (concat bs) + 1"
| "lu_rank (Next bs) = 4 * length bs + 2 * length (concat bs)"
| "lu_rank (Try b bs) = 4 * length bs + 2 * length (b @ concat bs) + 3"
| "lu_rank (Batch b bs) = 4 * length bs + 2 * length (b @ concat bs) + 2"
| "lu_rank (Add v a b bs) = 4 * length bs + 2 * length (b @ concat bs) + 3"

lemma lu_rank_step:
  "q \<noteq> Next [] \<Longrightarrow> has_lock q \<or> rd m (loc Lock) = 0 \<Longrightarrow> lu_rank (fst (lu_next c loc q m)) < lu_rank q"
  by (cases "(c, loc, q, m)" rule: lu_next.cases) auto

lemma lu_can_finish:
  assumes "lu_inv c lock hist k loc tot qs m"
  shows "\<exists>s'. reachable c (\<lambda>t. lu_prog c lock hist (qs t), m) s' \<and> finished c s'"
proof -
  have "\<exists>qs' m'. reachable c (\<lambda>t. lu_prog c lock hist (qs t), m) (\<lambda>t. lu_prog c lock hist (qs' t), m')
    \<and> lu_inv c lock hist k loc tot qs' m' \<and> (\<forall>t. in_group c t \<longrightarrow> qs' t = Next [])"
  proof (rule lu.can_reach [OF assms, where rank = "\<lambda>qs. \<Sum>t \<in> group_tiles c. lu_rank (qs t)"])
    fix qs m
    assume I: "lu_inv c lock hist k loc tot qs m" and "\<not> (\<forall>t. in_group c t \<longrightarrow> qs t = Next [])"
    then obtain t0 where t0: "in_group c t0" "qs t0 \<noteq> Next []" by blast
    obtain t where t: "in_group c t" "qs t \<noteq> Next []" "has_lock (qs t) \<or> rd m (loc Lock) = 0"
    proof (cases "lock_set c qs = {}")
      case True
      then show ?thesis using I t0 that unfolding lu_inv_def by blast
    next
      case False
      then obtain t where "in_group c t" "has_lock (qs t)" unfolding lock_set_def by blast
      then show ?thesis by (intro that [of t]) auto
    qed
    let ?q = "fst (lu_next c loc (qs t) m)"
    have "(\<Sum>u \<in> group_tiles c. lu_rank ((qs(t := ?q)) u)) < (\<Sum>u \<in> group_tiles c. lu_rank (qs u))"
      using sum_fun_upd [of "group_tiles c" t lu_rank qs ?q] lu_rank_step [of "qs t" m loc c] t
      by (simp add: group_tiles_def del: fun_upd_apply)
    then show "\<exists>t. in_group c t \<and> (\<Sum>u \<in> group_tiles c. lu_rank ((qs(t := fst (lu_next c loc (qs t) m))) u))
        < (\<Sum>u \<in> group_tiles c. lu_rank (qs u))"
      using t(1) by blast
  qed
  then obtain qs' m' where r: "reachable c (\<lambda>t. lu_prog c lock hist (qs t), m) (\<lambda>t. lu_prog c lock hist (qs' t), m')"
    and "\<forall>t. in_group c t \<longrightarrow> qs' t = Next []" by blast
  then have "finished c (\<lambda>t. lu_prog c lock hist (qs' t), m')" by (auto simp: finished_def locked_batches_def)
  then show ?thesis using r by blast
qed

lemma lu_no_deadlock:
  assumes "lu_layout c lock hist k loc" and "rd m0 (loc Lock) = 0"
    and "\<forall>t. in_group c t \<longrightarrow> (\<forall>(j, n) \<in> set (concat (bs t)). j < k)"
    and "reachable c (\<lambda>t. lu_prog c lock hist (lu_start (w t) (bs t)), m0) s"
  shows "\<exists>s'. reachable c s s' \<and> finished c s'"
proof -
  obtain qs tot where "fst s = (\<lambda>t. lu_prog c lock hist (qs t))" "lu_inv c lock hist k loc tot qs (snd s)"
    using lu.reachable_inv [OF assms(4) lu_inv_start [OF assms(1-3)]] by blast
  then show ?thesis using lu_can_finish [of c lock hist k loc tot qs "snd s"] by (cases s) simp
qed

section \<open>Bins in DRAM\<close>

lemma dram_ptr_plus:
  assumes "unat a + unat b < 2 ^ 31"
  shows "bsg_dram_ptr a + b = bsg_dram_ptr (a + b)"
proof -
  have p: "bsg_dram_ptr x = push_bit 31 1 + x" if "unat x < 2 ^ 31" for x
  proof -
    have "push_bit 31 1 + x = push_bit 31 1 OR x"
    proof (rule disjunctive_add)
      show "\<not> bit (push_bit 31 1 :: u32) n \<or> \<not> bit x n" for n
        using bit_field_False [OF that, of n] unfolding bit_push_bit_iff bit_1_iff by auto
    qed
    then show ?thesis by (simp add: bsg_dram_ptr_def arch_simps)
  qed
  have "unat (a + b) < 2 ^ 31" "unat a < 2 ^ 31" using assms unat_plus_le [of a b] by linarith+
  then show ?thesis by (simp add: p)
qed

definition dram_cell :: "nat \<Rightarrow> nat \<Rightarrow> lu_cell \<Rightarrow> npa" where
  "dram_cell l h = (\<lambda>Lock \<Rightarrow> Dram (of_nat l) | Bin i \<Rightarrow> Dram (of_nat (h + 4 * i)))"

text \<open>The lock and \<open>k\<close> bins of one word at the offsets \<open>l\<close> and \<open>h\<close> of the DRAM segment, apart from each other.\<close>

lemma dram_lu_layout:
  assumes "io_fits c" and "l + 4 \<le> h \<or> h + 4 * k \<le> l" and "l + 4 \<le> 2 ^ 31" and "h + 4 * k \<le> 2 ^ 31"
  shows "lu_layout c (bsg_dram_ptr (of_nat l)) (bsg_dram_ptr (of_nat h)) k (dram_cell l h)"
proof -
  have p: "bin_ptr (bsg_dram_ptr (of_nat h)) i = bsg_dram_ptr (of_nat (h + 4 * i))" if "i < k" for i
  proof -
    have "unat (4 * of_nat i :: u32) = 4 * i" "unat (of_nat h :: u32) = h"
      using that assms(4) unat_of_nat_lt [of "4 * i"] by (simp_all add: unat_of_nat_lt)
    then show ?thesis using that assms(4) dram_ptr_plus [of "of_nat h" "4 * of_nat i"] by simp
  qed
  have e: "eva_to_npa c t (bsg_dram_ptr (of_nat n)) = Dram (of_nat n)" if "n < 2 ^ 31" for t n
    using that by (intro eva_dram) (simp add: unat_of_nat_lt)
  have d: "span4 (Dram (of_nat a)) \<inter> span4 (Dram (of_nat b)) = {}"
    if "a + 4 \<le> b \<or> b + 4 \<le> a" "a + 4 \<le> 2 ^ 31" "b + 4 \<le> 2 ^ 31" for a b
    using sep4_of_nat [of a b] that by (auto simp: span4_def sep4_def)
  have "disjoint_cells (dram_cell l h) (insert Lock (Bin ` {..<k}))"
    unfolding disjoint_cells_def
  proof (intro ballI impI)
    fix x y
    assume xy: "x \<in> insert Lock (Bin ` {..<k})" "y \<in> insert Lock (Bin ` {..<k})" "x \<noteq> y"
    let ?o = "\<lambda>Lock \<Rightarrow> l | Bin i \<Rightarrow> h + 4 * i"
    have "?o x + 4 \<le> ?o y \<or> ?o y + 4 \<le> ?o x" "?o x + 4 \<le> 2 ^ 31" "?o y + 4 \<le> 2 ^ 31"
      using xy assms(2-4) by (auto split: lu_cell.splits)
    then show "span4 (dram_cell l h x) \<inter> span4 (dram_cell l h y) = {}"
      using d [of "?o x" "?o y"] by (cases x; cases y) (simp_all add: dram_cell_def)
  qed
  moreover have "eva_to_npa c t (bin_ptr (bsg_dram_ptr (of_nat h)) i) = dram_cell l h (Bin i)" if "i < k" for t i
    unfolding p [OF that] using e [of "h + 4 * i" t] that assms(4) by (simp add: dram_cell_def del: of_nat_add of_nat_mult)
  moreover have "eva_to_npa c t (bsg_dram_ptr (of_nat l)) = dram_cell l h Lock" for t
    using e [of l t] assms(3) by (simp add: dram_cell_def)
  ultimately show ?thesis using assms(1) unfolding lu_layout_def by (simp add: dram_cell_def off_io_def)
qed

end
