(* ===== verification/Program_Checks.thy ===== *)
theory Program_Checks
  imports Programs
begin

text \<open>Loops that the test programs share: fill words of memory, and compare words with what they should be.\<close>

definition check_word :: "cfg \<Rightarrow> tile \<Rightarrow> u32 \<Rightarrow> u32 \<Rightarrow> proc" where
  "check_word c t p e = Act (Load32 p) (\<lambda>v. if v \<noteq> e then bsg_fail c t else Ret 0)"

lemma check_word_run:
  assumes "rd m (eva_to_npa c t p) = e"
  shows "runs c t (seq (check_word c t p e) q, m) (q, m)"
  unfolding check_word_def by (rule runs_step) (use assms in \<open>simp add: rd_def\<close>)

lemma runs_for_each:
  assumes "\<And>x m q. x \<in> set xs \<Longrightarrow> P m \<Longrightarrow> \<exists>m'. runs c t (seq (f x) q, m) (q, m') \<and> P m'" and "P m"
  shows "\<exists>m'. runs c t (seq (for_each xs f) q, m) (q, m') \<and> P m'"
  using assms
proof (induction xs arbitrary: m)
  case Nil
  then show ?case by (auto intro: exI [of _ m])
next
  case (Cons x xs)
  obtain m1 where m1: "runs c t (seq (f x) (seq (for_each xs f) q), m) (seq (for_each xs f) q, m1)" "P m1"
    using Cons.prems(1) [of x m "seq (for_each xs f) q"] Cons.prems(2) by auto
  obtain m2 where "runs c t (seq (for_each xs f) q, m1) (q, m2)" "P m2"
    using Cons.IH [of m1] Cons.prems(1) m1(2) by (meson list.set_intros(2))
  then show ?case using runs_trans [OF m1(1)] by (intro exI [of _ m2]) simp
qed

lemma check_words_run:
  assumes "\<And>x. x \<in> set xs \<Longrightarrow> rd m (eva_to_npa c t (p x)) = e x"
  shows "runs c t (seq (for_each xs (\<lambda>x. check_word c t (p x) (e x))) q, m) (q, m)"
proof -
  have "\<exists>m'. runs c t (seq (for_each xs (\<lambda>x. check_word c t (p x) (e x))) q, m) (q, m') \<and> m' = m"
    using assms by (intro runs_for_each) (auto intro: check_word_run)
  then show ?thesis by simp
qed

text \<open>A program that finds a wrong word fails, whatever comes after.\<close>

lemma check_word_fails:
  assumes "io_fits c" and "rd m (eva_to_npa c t p) \<noteq> e"
  shows "fails c t (seq (check_word c t p e) q) m"
proof -
  have "runs c t (seq (check_word c t p e) q, m) (seq (bsg_fail c t) q, m)"
    unfolding check_word_def by (rule runs_step) (use assms(2) in \<open>simp add: rd_def\<close>)
  then show ?thesis using fails_runs fails_fail [OF assms(1)] by blast
qed

text \<open>Stores to a family of disjoint words.\<close>

definition put_words :: "cfg \<Rightarrow> tile \<Rightarrow> ('a \<Rightarrow> u32) \<Rightarrow> ('a \<Rightarrow> u32) \<Rightarrow> 'a list \<Rightarrow> machine \<Rightarrow> machine" where
  "put_words c t p v xs m = fold (\<lambda>x. put32 c (eva_to_npa c t (p x)) (v x)) xs m"

lemma store_words_run:
  "runs c t (seq (for_each xs (\<lambda>x. Act (Store32 (p x) (v x)) Ret)) q, m) (q, put_words c t p v xs m)"
proof (induction xs arbitrary: m)
  case (Cons x xs)
  have "runs c t (Act (Store32 (p x) (v x)) (\<lambda>_. seq (for_each xs (\<lambda>x. Act (Store32 (p x) (v x)) Ret)) q), m)
    (q, put_words c t p v (x # xs) m)"
    using Cons [of "put32 c (eva_to_npa c t (p x)) (v x) m"] by (intro runs_Act) (simp add: put_words_def)
  then show ?case by simp
qed (simp add: put_words_def)

definition words_apart :: "cfg \<Rightarrow> tile \<Rightarrow> ('a \<Rightarrow> u32) \<Rightarrow> 'a set \<Rightarrow> bool" where
  "words_apart c t p A \<longleftrightarrow> disjoint_cells (\<lambda>x. eva_to_npa c t (p x)) A"

lemma rd_put_words:
  assumes "words_apart c t p A" and "set xs \<subseteq> A" and "y \<in> A" and "distinct xs"
  shows "rd (put_words c t p v xs m) (eva_to_npa c t (p y)) = (if y \<in> set xs then v y else rd m (eva_to_npa c t (p y)))"
  using assms(2,4)
proof (induction xs arbitrary: m)
  case (Cons x xs)
  let ?m = "put32 c (eva_to_npa c t (p x)) (v x) m"
  have "rd ?m (eva_to_npa c t (p y)) = (if y = x then v x else rd m (eva_to_npa c t (p y)))"
    using rd_put_cell [of "\<lambda>x. eva_to_npa c t (p x)" A x y] assms(1,3) Cons.prems by (simp add: words_apart_def)
  then show ?case using Cons.IH [of ?m] Cons.prems by (auto simp: put_words_def)
qed (simp add: put_words_def)

text \<open>The words of an array in DRAM are apart.\<close>

lemma dram_words_apart:
  assumes "\<And>i. i \<in> A \<Longrightarrow> p i = bsg_dram_ptr (of_nat (a i)) \<and> a i + 4 \<le> 2 ^ 31"
    and "\<And>i j. i \<in> A \<Longrightarrow> j \<in> A \<Longrightarrow> i \<noteq> j \<Longrightarrow> a i + 4 \<le> a j \<or> a j + 4 \<le> a i"
  shows "words_apart c t p A"
  unfolding words_apart_def disjoint_cells_def
proof (intro ballI impI)
  fix x y
  assume xy: "x \<in> A" "y \<in> A" "x \<noteq> y"
  have e: "eva_to_npa c t (p i) = Dram (of_nat (a i))" if "i \<in> A" for i
    using assms(1) [OF that] by (simp add: eva_dram unat_of_nat_lt)
  have d: "sep4 (of_nat (a x)) (of_nat (a y))"
    using assms(1) [OF xy(1)] assms(1) [OF xy(2)] by (intro sep4_of_nat [OF assms(2) [OF xy]]) auto
  show "span4 (eva_to_npa c t (p x)) \<inter> span4 (eva_to_npa c t (p y)) = {}"
    unfolding e [OF xy(1)] e [OF xy(2)] using d by (auto simp: span4_def sep4_def)
qed

end
