(* ===== verification/Histogram.thy ===== *)
theory Histogram
  imports Histogram_Data Locked_Update Program_Checks Tile_Group_Barrier
begin

text \<open>
  The programs \<open>spmd/vcache_atomic_histogram\<close> and \<open>spmd/vcache_atomic_histogram2\<close>: the tiles count the elements
  of an array in DRAM in 32 shared bins. In the first, a tile counts its part of the array in local bins and adds
  them to the shared ones in one critical section; in the second, it takes the lock for every element.
\<close>

section \<open>The programs\<close>

definition hist_N :: u32 where "hist_N = 1024"

definition hist_work :: "cfg \<Rightarrow> u32" where
  "hist_work c = c_div hist_N (bsg_tiles_X c * bsg_tiles_Y c)"

definition hist_start :: "cfg \<Rightarrow> tile \<Rightarrow> u32" where
  "hist_start c t = bsg_x_y_to_id c (fst t) (snd t) * hist_work c"

definition local_histogram :: "cfg \<Rightarrow> tile \<Rightarrow> nat list" where
  "local_histogram c t =
     fold (\<lambda>i h. let local_data = hist_data ! unat (hist_start c t + of_nat i) in h[local_data := h ! local_data + 1])
       [0..<unat (hist_work c)] (replicate 32 0)"

text \<open>The local counting loop between two attempts on the lock only takes time.\<close>

definition do_histogram_work :: "cfg \<Rightarrow> tile \<Rightarrow> u32 \<Rightarrow> u32 \<Rightarrow> proc" where
  "do_histogram_work c t lock hist =
     seq (bsg_print_int c (hist_start c t))
       (acquire_zero lock (\<lambda>_.
         seq (for_each [0..<32] (\<lambda>i.
             if local_histogram c t ! i \<noteq> 0 then add_to_bin hist (i, local_histogram c t ! i) else Ret 0))
           (seq (bsg_amoswap_rl lock 0) (Ret 0))))"

definition do_histogram_work2 :: "cfg \<Rightarrow> tile \<Rightarrow> u32 \<Rightarrow> u32 \<Rightarrow> proc" where
  "do_histogram_work2 c t lock hist =
     for_each [0..<unat (hist_work c)] (\<lambda>i.
       let local_data = hist_data2 ! unat (hist_start c t + of_nat i) in
       acquire_zero lock (\<lambda>_. seq (add_to_bin hist (local_data, 1)) (bsg_amoswap_rl lock 0)))"

definition hist_validate :: "cfg \<Rightarrow> tile \<Rightarrow> u32 \<Rightarrow> proc" where
  "hist_validate c t hist =
     seq (for_each [0..<32] (\<lambda>i. check_word c t (bin_ptr hist i) (of_nat (hist_expected ! i))))
       (bsg_finish c t)"

text \<open>The two copies of \<open>validate\<close> are the same.\<close>

definition hist_validate2 :: "cfg \<Rightarrow> tile \<Rightarrow> u32 \<Rightarrow> proc" where
  "hist_validate2 c t hist = hist_validate c t hist"

text \<open>\<open>main\<close>, given the work and the check.\<close>

definition hist_main :: "proc \<Rightarrow> proc \<Rightarrow> cfg \<Rightarrow> tile \<Rightarrow> u32 \<Rightarrow> u32 \<Rightarrow> proc" where
  "hist_main work validate c t row col =
     (let (r_barrier, c_barrier) = INIT_TILE_GROUP_BARRIER row col 0 (bsg_tiles_X c - 1) 0 (bsg_tiles_Y c - 1) in
      seq work
        (seq (bsg_tile_group_barrier (unat (bsg_tiles_X c)) (unat (bsg_tiles_Y c)) t r_barrier c_barrier)
          (seq (if bsg_x_y_to_id c (fst t) (snd t) = 0 then validate else Ret 0) spin_forever)))"

definition histogram_main :: "cfg \<Rightarrow> tile \<Rightarrow> u32 \<Rightarrow> u32 \<Rightarrow> u32 \<Rightarrow> u32 \<Rightarrow> proc" where
  "histogram_main c t lock hist row col = hist_main (do_histogram_work c t lock hist) (hist_validate c t hist) c t row col"

definition histogram2_main :: "cfg \<Rightarrow> tile \<Rightarrow> u32 \<Rightarrow> u32 \<Rightarrow> u32 \<Rightarrow> u32 \<Rightarrow> proc" where
  "histogram2_main c t lock hist row col = hist_main (do_histogram_work2 c t lock hist) (hist_validate2 c t hist) c t row col"

section \<open>The parts of the array\<close>

lemma tile_ids:
  assumes "group_fits c"
  shows "bij_betw (\<lambda>t. unat (bsg_x_y_to_id c (fst t) (snd t))) (group_tiles c) {..<unat (bsg_tiles_X c) * unat (bsg_tiles_Y c)}"
proof -
  let ?f = "\<lambda>t. unat (bsg_x_y_to_id c (fst t) (snd t))" and ?n = "unat (bsg_tiles_X c) * unat (bsg_tiles_Y c)"
  note g = group_fits_nat [OF assms]
  have "?n \<le> 64 * 32" by (rule mult_le_mono [OF g(2,4)])
  then have n: "unat (bsg_num_tiles c) = ?n" by (simp add: bsg_num_tiles_def unat_word_ariths)
  have inj: "inj_on ?f (group_tiles c)"
  proof (rule inj_onI)
    fix t u
    assume "t \<in> group_tiles c" "u \<in> group_tiles c" "?f t = ?f u"
    then show "t = u"
      using tile_id_roundtrip [OF assms, of "fst t" "snd t"] tile_id_roundtrip [OF assms, of "fst u" "snd u"]
      by (metis group_tiles_def mem_Collect_eq prod.collapse word_unat_eq_iff)
  qed
  have "?f ` group_tiles c \<subseteq> {..<?n}"
  proof
    fix k
    assume "k \<in> ?f ` group_tiles c"
    then obtain t where "in_group c (fst t, snd t)" "k = ?f t" by (auto simp: group_tiles_def)
    then show "k \<in> {..<?n}" using tile_id_roundtrip [OF assms, of "fst t" "snd t"] n by (simp add: word_less_nat_alt)
  qed
  then have "?f ` group_tiles c = {..<?n}"
    using card_image [OF inj] card_group(1) [OF assms] by (intro card_subset_eq) auto
  then show ?thesis using inj by (simp add: bij_betw_def)
qed

lemma count_parts: "(\<Sum>k<n. count_list (take w (drop (k * w) xs)) x) = count_list (take (n * w) xs) x"
proof (induction n)
  case (Suc n)
  have "take (Suc n * w) xs = take (n * w) xs @ take w (drop (n * w) xs)"
    using take_add [of "n * w" w xs] by (simp add: add.commute)
  then show ?case using Suc by simp
qed simp

definition hist_part :: "cfg \<Rightarrow> tile \<Rightarrow> nat list" where
  "hist_part c t = (let w = 1024 div (unat (bsg_tiles_X c) * unat (bsg_tiles_Y c)) in
     take w (drop (unat (bsg_x_y_to_id c (fst t) (snd t)) * w) hist_data))"

lemma parts_total:
  assumes "group_fits c" and "unat (bsg_tiles_X c) * unat (bsg_tiles_Y c) dvd 1024"
  shows "(\<Sum>t \<in> group_tiles c. count_list (hist_part c t) i) = count_list hist_data i"
proof -
  let ?n = "unat (bsg_tiles_X c) * unat (bsg_tiles_Y c)" and ?w = "1024 div (unat (bsg_tiles_X c) * unat (bsg_tiles_Y c))"
  have "(\<Sum>t \<in> group_tiles c. count_list (hist_part c t) i) = (\<Sum>k<?n. count_list (take ?w (drop (k * ?w) hist_data)) i)"
    unfolding hist_part_def Let_def
    by (rule sum.reindex_bij_betw [OF tile_ids [OF assms(1)], of "\<lambda>k. count_list (take ?w (drop (k * ?w) hist_data)) i"])
  also have "\<dots> = count_list (take (?n * ?w) hist_data) i" by (rule count_parts)
  also have "?n * ?w = 1024" using assms(2) by (rule dvd_mult_div_cancel)
  finally show ?thesis by (simp add: hist_length)
qed

lemma unat_hist_work:
  assumes "group_fits c"
  shows "unat (hist_work c) = 1024 div (unat (bsg_tiles_X c) * unat (bsg_tiles_Y c))"
proof -
  note g = group_fits_nat [OF assms]
  have "unat (bsg_tiles_X c) * unat (bsg_tiles_Y c) \<le> 64 * 32" by (rule mult_le_mono [OF g(2,4)])
  then have "unat (bsg_tiles_X c * bsg_tiles_Y c) = unat (bsg_tiles_X c) * unat (bsg_tiles_Y c)"
    by (simp add: unat_word_ariths)
  then show ?thesis
    using g \<open>unat (bsg_tiles_X c) * unat (bsg_tiles_Y c) \<le> 64 * 32\<close>
    unfolding hist_work_def by (simp add: unat_c_div hist_N_def)
qed

lemma part_index:
  assumes "group_fits c" and "in_group c t" and "i < unat (hist_work c)"
  shows "hist_data ! unat (hist_start c t + of_nat i) = hist_part c t ! i"
    and "length (hist_part c t) = unat (hist_work c)"
proof -
  let ?n = "unat (bsg_tiles_X c) * unat (bsg_tiles_Y c)" and ?id = "unat (bsg_x_y_to_id c (fst t) (snd t))"
  let ?w = "1024 div ?n"
  have w: "unat (hist_work c) = ?w" by (rule unat_hist_work [OF assms(1)])
  have id: "?id < ?n" using tile_ids [OF assms(1)] assms(2) unfolding bij_betw_def by (auto simp: group_tiles_def)
  then have "Suc ?id * ?w \<le> ?n * ?w" by (intro mult_le_mono) auto
  also have "\<dots> \<le> 1024" by (simp add: times_div_less_eq_dividend)
  finally have le: "?id * ?w + ?w \<le> 1024" by simp
  have "unat (hist_start c t) = ?id * ?w" unfolding hist_start_def using le w by (simp add: unat_word_ariths)
  then have "unat (hist_start c t + of_nat i) = ?id * ?w + i"
    using le assms(3) w by (simp add: unat_word_ariths unat_of_nat)
  then show "hist_data ! unat (hist_start c t + of_nat i) = hist_part c t ! i"
    using le assms(3) w by (simp add: hist_part_def Let_def hist_length)
  show "length (hist_part c t) = unat (hist_work c)" using le w by (simp add: hist_part_def Let_def hist_length)
qed

section \<open>The programs are locked batches\<close>

lemma fold_bump_update:
  assumes "\<forall>d \<in> set ds. d < length h"
  shows "fold (\<lambda>d h. h[d := h ! d + 1]) ds h = fold bump ds h"
  using assms by (induction ds arbitrary: h) (auto simp: bump_update)

lemma part_bins: "d \<in> set (hist_part c t) \<Longrightarrow> d < 32"
  using hist_data_bins unfolding hist_part_def Let_def list_all_iff by (auto dest: in_set_takeD in_set_dropD)

lemma local_histogram_part:
  assumes "group_fits c" and "in_group c t" and "i < 32"
  shows "local_histogram c t ! i = count_list (hist_part c t) i"
proof -
  have part: "map (\<lambda>i. hist_data ! unat (hist_start c t + of_nat i)) [0..<unat (hist_work c)] = hist_part c t"
    using part_index [OF assms(1,2)] part_index(2) [OF assms(1,2), of 0]
    by (cases "unat (hist_work c) = 0") (auto intro!: nth_equalityI simp: hist_part_def unat_hist_work [OF assms(1)])
  have "local_histogram c t = fold (\<lambda>d h. h[d := h ! d + 1]) (hist_part c t) (replicate 32 0)"
    unfolding local_histogram_def Let_def part [symmetric] fold_map by (simp add: comp_def)
  also have "\<dots> = fold bump (hist_part c t) (replicate 32 0)"
    using part_bins by (intro fold_bump_update) auto
  finally show ?thesis using nth_fold_bump [of i "replicate 32 0" "hist_part c t"] assms(3) by simp
qed

definition hist_batch :: "cfg \<Rightarrow> tile \<Rightarrow> batch" where
  "hist_batch c t = map (\<lambda>i. (i, local_histogram c t ! i)) (filter (\<lambda>i. local_histogram c t ! i \<noteq> 0) [0..<32])"

lemma for_each_filter: "for_each (filter P xs) f = for_each xs (\<lambda>x. if P x then f x else Ret 0)"
  by (induction xs) auto

lemma work_batches: "do_histogram_work c t lock hist = lu_prog c lock hist (lu_start (Some (hist_start c t)) [hist_batch c t])"
  by (simp add: do_histogram_work_def lu_start_def locked_batches_def locked_batch_def acquire_zero_def
      hist_batch_def for_each_map for_each_filter)

definition hist_batches2 :: "cfg \<Rightarrow> tile \<Rightarrow> batch list" where
  "hist_batches2 c t = map (\<lambda>i. [(hist_data ! unat (hist_start c t + of_nat i), 1)]) [0..<unat (hist_work c)]"

lemma work2_batches: "do_histogram_work2 c t lock hist = lu_prog c lock hist (lu_start None (hist_batches2 c t))"
  by (simp add: do_histogram_work2_def lu_start_def locked_batches_def locked_batch_def acquire_zero_def
      hist_batches2_def for_each_map hist_data2 Let_def)

lemma amount_map:
  "distinct xs \<Longrightarrow> amount i (map (\<lambda>j. (j, f j)) (filter (\<lambda>j. f j \<noteq> 0) xs)) = (if i \<in> set xs then f i else 0)"
  by (induction xs) auto

lemma batch_amount:
  assumes "group_fits c" and "in_group c t" and "i < 32"
  shows "amount i (concat [hist_batch c t]) = count_list (hist_part c t) i"
  using assms amount_map [of "[0..<32]" i "\<lambda>j. local_histogram c t ! j"] local_histogram_part [OF assms]
  by (simp add: hist_batch_def)

lemma batches2_part:
  assumes "group_fits c" and "in_group c t"
  shows "hist_batches2 c t = map (\<lambda>d. [(d, 1)]) (hist_part c t)"
  using part_index [OF assms] part_index(2) [OF assms, of 0] unfolding hist_batches2_def
  by (cases "unat (hist_work c) = 0") (auto intro!: nth_equalityI simp: hist_part_def unat_hist_work [OF assms(1)])

lemma batches2_amount:
  assumes "group_fits c" and "in_group c t"
  shows "amount i (concat (hist_batches2 c t)) = count_list (hist_part c t) i"
proof -
  have "amount i (concat (map (\<lambda>d. [(d, 1)]) ds)) = count_list ds i" for ds by (induction ds) auto
  then show ?thesis unfolding batches2_part [OF assms] .
qed

section \<open>Results\<close>

definition hist_memory :: "cfg \<Rightarrow> nat \<Rightarrow> nat \<Rightarrow> machine \<Rightarrow> bool" where
  "hist_memory c l h m \<longleftrightarrow> group_fits c \<and> io_fits c \<and> unat (bsg_tiles_X c) * unat (bsg_tiles_Y c) dvd 1024
     \<and> (l + 4 \<le> h \<or> h + 128 \<le> l) \<and> l + 4 \<le> 2 ^ 31 \<and> h + 128 \<le> 2 ^ 31
     \<and> rd m (Dram (of_nat l)) = 0 \<and> (\<forall>i < 32. rd m (Dram (of_nat (h + 4 * i))) = 0)"

abbreviation at_dram :: "nat \<Rightarrow> u32" where "at_dram a \<equiv> bsg_dram_ptr (of_nat a)"

lemma hist_result:
  assumes "hist_memory c l h m0"
    and bs: "\<And>t. in_group c t \<Longrightarrow> (\<forall>(j, n) \<in> set (concat (bs t)). j < 32)
        \<and> (\<forall>i < 32. amount i (concat (bs t)) = count_list (hist_part c t) i)"
    and r: "reachable c (\<lambda>t. lu_prog c (at_dram l) (at_dram h) (lu_start (w t) (bs t)), m0) s"
  shows "(\<exists>s'. reachable c s s' \<and> finished c s') \<and>
    (finished c s \<longrightarrow> passes c (0, 0) (seq (hist_validate c (0, 0) (at_dram h)) p) (snd s))"
proof (intro conjI impI)
  have L: "lu_layout c (at_dram l) (at_dram h) 32 (dram_cell l h)"
    using assms(1) by (intro dram_lu_layout) (auto simp: hist_memory_def)
  have m0: "rd m0 (dram_cell l h Lock) = 0" using assms(1) by (simp add: hist_memory_def dram_cell_def)
  have b: "\<forall>t. in_group c t \<longrightarrow> (\<forall>(j, n) \<in> set (concat (bs t)). j < 32)" using bs by blast
  show "\<exists>s'. reachable c s s' \<and> finished c s'" by (rule lu_no_deadlock [OF L m0 b r])
  assume f: "finished c s"
  have g: "group_fits c" "unat (bsg_tiles_X c) * unat (bsg_tiles_Y c) dvd 1024" "io_fits c"
    using assms(1) by (simp_all add: hist_memory_def)
  have "rd (snd s) (dram_cell l h (Bin i)) = of_nat (hist_expected ! i)" if "i < 32" for i
  proof -
    have "(\<Sum>t \<in> group_tiles c. amount i (concat (bs t))) = (\<Sum>t \<in> group_tiles c. count_list (hist_part c t) i)"
      using bs that by (intro sum.cong) (auto simp: group_tiles_def)
    also have "\<dots> = hist_expected ! i" using parts_total [OF g(1,2)] count_hist_data [OF that] by simp
    finally show ?thesis
      using lu_totals [OF L m0 b r f that] assms(1) that by (simp add: hist_memory_def dram_cell_def)
  qed
  moreover have "in_group c (0, 0)" using g(1) by (simp add: in_group_def group_fits_def)
  ultimately have "runs c (0, 0) (seq (for_each [0..<32] (\<lambda>i. check_word c (0, 0) (bin_ptr (at_dram h) i) (of_nat (hist_expected ! i))))
      (seq (bsg_finish c (0, 0)) p), snd s) (seq (bsg_finish c (0, 0)) p, snd s)"
    using L by (intro check_words_run) (simp add: lu_layout_def)
  then show "passes c (0, 0) (seq (hist_validate c (0, 0) (at_dram h)) p) (snd s)"
    using passes_runs passes_finish [OF g(3)] unfolding hist_validate_def bind_assoc by blast
qed

text \<open>C35: In every interleaving of \<open>vcache_atomic_histogram\<close>, on any group whose number of tiles divides 1024, the
  tiles can finish their work, and once they all have, \<open>validate\<close> on tile (0,0) finds every count and reports
  success.\<close>

theorem histogram_correct:
  assumes "hist_memory c l h m0"
    and "reachable c (\<lambda>t. do_histogram_work c t (at_dram l) (at_dram h), m0) s"
  shows "(\<exists>s'. reachable c s s' \<and> finished c s') \<and>
    (finished c s \<longrightarrow> passes c (0, 0) (seq (hist_validate c (0, 0) (at_dram h)) p) (snd s))"
proof (rule hist_result [OF assms(1) _ assms(2) [unfolded work_batches]])
  fix t
  assume "in_group c t"
  then show "(\<forall>(j, n) \<in> set (concat [hist_batch c t]). j < 32)
      \<and> (\<forall>i < 32. amount i (concat [hist_batch c t]) = count_list (hist_part c t) i)"
    using assms(1) batch_amount by (auto simp: hist_memory_def hist_batch_def simp del: concat.simps)
qed

text \<open>So they do in \<open>vcache_atomic_histogram2\<close>, where the lock protects every single increment.\<close>

theorem histogram2_correct:
  assumes "hist_memory c l h m0"
    and "reachable c (\<lambda>t. do_histogram_work2 c t (at_dram l) (at_dram h), m0) s"
  shows "(\<exists>s'. reachable c s s' \<and> finished c s') \<and>
    (finished c s \<longrightarrow> passes c (0, 0) (seq (hist_validate2 c (0, 0) (at_dram h)) p) (snd s))"
unfolding hist_validate2_def
proof (rule hist_result [OF assms(1) _ assms(2) [unfolded work2_batches]])
  fix t
  assume "in_group c t"
  then show "(\<forall>(j, n) \<in> set (concat (hist_batches2 c t)). j < 32)
      \<and> (\<forall>i < 32. amount i (concat (hist_batches2 c t)) = count_list (hist_part c t) i)"
    using assms(1) batches2_amount part_bins by (auto simp: hist_memory_def batches2_part)
qed

section \<open>Instances\<close>

lemma hist_memory_small: "hist_memory small_cfg 0 4 zero_machine"
  by (simp add: hist_memory_def io_fits_def small_cfg_def group_fits_def)

lemma histogram_correct_witness:
  "\<exists>s. reachable small_cfg (\<lambda>t. do_histogram_work small_cfg t (at_dram 0) (at_dram 4), zero_machine) s
    \<and> finished small_cfg s \<and> passes small_cfg (0, 0) (seq (hist_validate small_cfg (0, 0) (at_dram 4)) spin_forever) (snd s)"
proof -
  let ?ps = "\<lambda>t. do_histogram_work small_cfg t (at_dram 0) (at_dram 4)"
  obtain s where s: "reachable small_cfg (?ps, zero_machine) s" "finished small_cfg s"
    using histogram_correct [OF hist_memory_small reach_start] by blast
  then show ?thesis using histogram_correct [OF hist_memory_small s(1)] by blast
qed

lemma histogram2_correct_witness:
  "\<exists>s. reachable small_cfg (\<lambda>t. do_histogram_work2 small_cfg t (at_dram 0) (at_dram 4), zero_machine) s
    \<and> finished small_cfg s \<and> passes small_cfg (0, 0) (seq (hist_validate2 small_cfg (0, 0) (at_dram 4)) spin_forever) (snd s)"
proof -
  let ?ps = "\<lambda>t. do_histogram_work2 small_cfg t (at_dram 0) (at_dram 4)"
  obtain s where s: "reachable small_cfg (?ps, zero_machine) s" "finished small_cfg s"
    using histogram2_correct [OF hist_memory_small reach_start] by blast
  then show ?thesis using histogram2_correct [OF hist_memory_small s(1)] by blast
qed

end
