(* ===== verification/Chained_Protocol.thy ===== *)
theory Chained_Protocol
  imports Prelude
begin

text \<open>
  The protocol of \<open>spmd/bsg_chained_core\<close> without memory: the tags that travel along the chain of tiles, the points a
  tile's program can be at, what one step of a tile does, and the invariant of a link, that is a tile and its successor.
  A link is a buffer of two blocks; \<open>valid_num\<close> tells the successor which block holds which round, \<open>ready_num\<close> tells
  the tile which round it may write next.
\<close>

section \<open>The data that passes through the cores\<close>

record chained_tag =
  tag_value :: u8
  tag_rounds :: u8
  tag_cores :: u16

definition tag_of_data :: "u32 \<Rightarrow> chained_tag" where
  "tag_of_data w = \<lparr>tag_value = ucast w, tag_rounds = ucast (drop_bit 8 w), tag_cores = ucast (drop_bit 16 w)\<rparr>"

definition data_of_tag :: "chained_tag \<Rightarrow> u32" where
  "data_of_tag g = ucast (tag_value g) OR push_bit 8 (ucast (tag_rounds g)) OR push_bit 16 (ucast (tag_cores g))"

lemma tag_of_data_of_tag: "tag_of_data (data_of_tag g) = g"
proof -
  have "ucast (data_of_tag g) = tag_value g" "ucast (drop_bit 8 (data_of_tag g)) = tag_rounds g"
    "ucast (drop_bit 16 (data_of_tag g)) = tag_cores g"
    by (rule bit_word_eqI; auto simp: data_of_tag_def bit_simps dest: bit_imp_le_length)+
  then show ?thesis by (simp add: tag_of_data_def)
qed

text \<open>What \<open>tag_pass_proc\<close> does to a word: \<open>cores += id\<close>, \<open>rounds = rounds\<close>.\<close>

definition tag_update :: "u32 \<Rightarrow> u32 \<Rightarrow> u32 \<Rightarrow> u32" where
  "tag_update tid rounds w =
     (let tmp = tag_of_data w in data_of_tag (tmp\<lparr>tag_cores := tag_cores tmp + ucast tid, tag_rounds := ucast rounds\<rparr>))"

text \<open>The word that reaches tile \<open>k\<close> of the chain in round \<open>x\<close> at index \<open>i\<close>: the numbers of the tiles before it are
  added up.\<close>

definition chain_value :: "nat \<Rightarrow> nat \<Rightarrow> nat \<Rightarrow> u32" where
  "chain_value k x i = data_of_tag \<lparr>tag_value = of_nat i, tag_rounds = (if k = 0 then 0 else of_nat x), tag_cores = of_nat (\<Sum>j<k. j)\<rparr>"

lemma ucast_of_nat_short: "ucast (of_nat n :: u32) = (of_nat n :: u8)" "ucast (of_nat n :: u32) = (of_nat n :: u16)"
  by (rule bit_word_eqI; auto simp: unsigned_of_nat bit_simps)+

lemma tag_update_chain: "tag_update (of_nat k) (of_nat x) (chain_value k x i) = chain_value (Suc k) x i"
  by (simp add: tag_update_def chain_value_def tag_of_data_of_tag Let_def ucast_of_nat_short add.commute del: unsigned_of_nat)

lemma chain_value_0: "i < 16 \<Longrightarrow> chain_value 0 x i = of_nat i"
proof -
  assume "i < 16"
  then have "take_bit 8 i = i" by (intro take_bit_nat_eq_self) simp
  then show ?thesis by (simp add: chain_value_def data_of_tag_def unsigned_of_nat)
qed

section \<open>Control states\<close>

text \<open>
  Where a tile is in its program. \<open>Fill\<close>: tile 0 fills its buffers; \<open>Ann\<close>: the two announcements to the
  predecessor; \<open>WaitV\<close>, \<open>TryV\<close>, \<open>AgainV\<close>: the wait for valid data of a round (before the loop test, before \<open>lr\<close>,
  before \<open>lr.aq\<close>); the same for the wait for a ready buffer; the loads and stores of a pair of words; the notice to the
  successor; the loads and stores of the output; the acknowledgement of a round.
\<close>

datatype cstate = Fill nat | Ann nat | WaitV nat | TryV nat | AgainV nat | WaitR nat | TryR nat | AgainR nat
  | LdA nat nat | LdB nat nat u32 | StA nat nat u32 u32 | StB nat nat u32 | Notify nat | PrL nat | PrS nat u32 | Ackn nat | Fin

text \<open>Round \<open>r\<close> uses block \<open>block r\<close> of the buffer: rounds are counted from 1.\<close>

definition block :: "nat \<Rightarrow> nat" where
  "block r = (r + 1) mod 2"

definition after_round :: "nat \<Rightarrow> nat \<Rightarrow> cstate" where
  "after_round k r = (if r = 16 then Fin else if k = 0 then WaitR (r + 1) else Ackn r)"

definition with_valid :: "nat \<Rightarrow> nat \<Rightarrow> nat \<Rightarrow> cstate" where
  "with_valid n k r = (if k \<noteq> n - 1 then WaitR r else if r = 15 then PrL 0 else after_round k r)"

text \<open>The effect of a step: a store to the cells of the successor, of the predecessor, of the tile itself, or to the
  host.\<close>

datatype effect = Nop | SetValid nat u32 | SetBuf nat nat u32 | SetReady nat u32 | FillBuf nat nat | Emit nat u32

text \<open>A step of tile \<open>k\<close> of \<open>n\<close>, which reads its own cells \<open>V\<close>, \<open>R\<close>, \<open>B\<close>.\<close>

fun cc_next :: "nat \<Rightarrow> nat \<Rightarrow> (nat \<Rightarrow> u32) \<Rightarrow> (nat \<Rightarrow> u32) \<Rightarrow> (nat \<Rightarrow> nat \<Rightarrow> u32) \<Rightarrow> cstate \<Rightarrow> cstate \<times> effect" where
  "cc_next n k V R B (Fill i) = (if i + 1 < 32 then Fill (i + 1) else WaitR 1, FillBuf (i mod 2) (i div 2))"
| "cc_next n k V R B (Ann i) = (if i = 0 then Ann 1 else WaitV 1, SetReady i (of_nat (i + 1)))"
| "cc_next n k V R B (WaitV r) = (TryV r, Nop)"
| "cc_next n k V R B (TryV r) = (if V (block r) = of_nat r then with_valid n k r else AgainV r, Nop)"
| "cc_next n k V R B (AgainV r) = (if V (block r) = of_nat r then with_valid n k r else WaitV r, Nop)"
| "cc_next n k V R B (WaitR r) = (TryR r, Nop)"
| "cc_next n k V R B (TryR r) = (if R (block r) = of_nat r then LdA r 0 else AgainR r, Nop)"
| "cc_next n k V R B (AgainR r) = (if R (block r) = of_nat r then LdA r 0 else WaitR r, Nop)"
| "cc_next n k V R B (LdA r i) = (LdB r i (B (block r) (2 * i)), Nop)"
| "cc_next n k V R B (LdB r i w) = (StA r i w (B (block r) (2 * i + 1)), Nop)"
| "cc_next n k V R B (StA r i w w') = (StB r i w', SetBuf (block r) (2 * i) (tag_update (of_nat k) (of_nat r) w))"
| "cc_next n k V R B (StB r i w') =
     (if i + 1 < 8 then LdA r (i + 1) else Notify r, SetBuf (block r) (2 * i + 1) (tag_update (of_nat k) (of_nat r) w'))"
| "cc_next n k V R B (Notify r) = (after_round k r, SetValid (block r) (of_nat r))"
| "cc_next n k V R B (PrL i) = (PrS i (B 0 i), Nop)"
| "cc_next n k V R B (PrS i w) = (if i + 1 < 16 then PrL (i + 1) else after_round k 15, Emit i w)"
| "cc_next n k V R B (Ackn r) = (WaitV (r + 1), SetReady (block r) (of_nat (r + 2)))"
| "cc_next n k V R B Fin = (Fin, Nop)"

section \<open>Rounds\<close>

primrec round_of :: "cstate \<Rightarrow> nat" where
  "round_of (Fill i) = 1" | "round_of (Ann i) = 1"
| "round_of (WaitV r) = r" | "round_of (TryV r) = r" | "round_of (AgainV r) = r"
| "round_of (WaitR r) = r" | "round_of (TryR r) = r" | "round_of (AgainR r) = r"
| "round_of (LdA r i) = r" | "round_of (LdB r i w) = r" | "round_of (StA r i w w') = r" | "round_of (StB r i w') = r"
| "round_of (Notify r) = r" | "round_of (PrL i) = 15" | "round_of (PrS i w) = 15" | "round_of (Ackn r) = r" | "round_of Fin = 17"

text \<open>The last round whose data the tile has begun to send, has sent, and has begun to receive; the last round that it
  has acknowledged to its predecessor, and whether it has announced itself.\<close>

fun started :: "cstate \<Rightarrow> nat" where
  "started (LdA r i) = r" | "started (LdB r i w) = r" | "started (StA r i w w') = r" | "started (StB r i w') = r"
| "started (Notify r) = r" | "started (Ackn r) = r" | "started q = round_of q - 1"

fun sent :: "cstate \<Rightarrow> nat" where
  "sent (Ackn r) = r" | "sent q = round_of q - 1"

fun entered :: "cstate \<Rightarrow> nat" where
  "entered (Fill i) = 0" | "entered (Ann i) = 0" | "entered (WaitV r) = r - 1" | "entered (TryV r) = r - 1"
| "entered (AgainV r) = r - 1" | "entered Fin = 16" | "entered q = round_of q"

definition acked :: "cstate \<Rightarrow> nat" where
  "acked q = min (round_of q - 1) 15"

fun announced :: "nat \<Rightarrow> cstate \<Rightarrow> bool" where
  "announced j (Fill i) = False" | "announced j (Ann i) = (j < i)" | "announced j q = True"

text \<open>How many words of the round in progress have been stored.\<close>

fun stored :: "cstate \<Rightarrow> nat" where
  "stored (LdA r i) = 2 * i" | "stored (LdB r i w) = 2 * i" | "stored (StA r i w w') = 2 * i" | "stored (StB r i w') = 2 * i + 1"
| "stored (Notify r) = 16" | "stored q = 0"

text \<open>The values of \<open>valid_num[j]\<close> and \<open>ready_num[j]\<close> after \<open>x\<close> rounds.\<close>

definition last_round :: "nat \<Rightarrow> nat \<Rightarrow> nat" where
  "last_round j x = (if block x = j then x else x - 1)"

definition ready_round :: "nat \<Rightarrow> nat \<Rightarrow> nat" where
  "ready_round j x = (if block (x + 1) = j then x + 1 else x + 2)"

section \<open>The invariant of a tile and of a link\<close>

definition local_ok :: "nat \<Rightarrow> nat \<Rightarrow> cstate \<Rightarrow> bool" where
  "local_ok n k q \<longleftrightarrow> (case q of
     Fill i \<Rightarrow> k = 0 \<and> i < 32
   | Ann i \<Rightarrow> k \<noteq> 0 \<and> i < 2
   | WaitV r \<Rightarrow> k \<noteq> 0 \<and> r \<in> {1..16} | TryV r \<Rightarrow> k \<noteq> 0 \<and> r \<in> {1..16} | AgainV r \<Rightarrow> k \<noteq> 0 \<and> r \<in> {1..16}
   | WaitR r \<Rightarrow> k \<noteq> n - 1 \<and> r \<in> {1..16} | TryR r \<Rightarrow> k \<noteq> n - 1 \<and> r \<in> {1..16} | AgainR r \<Rightarrow> k \<noteq> n - 1 \<and> r \<in> {1..16}
   | LdA r i \<Rightarrow> k \<noteq> n - 1 \<and> r \<in> {1..16} \<and> i < 8
   | LdB r i w \<Rightarrow> k \<noteq> n - 1 \<and> r \<in> {1..16} \<and> i < 8 \<and> w = chain_value k r (2 * i)
   | StA r i w w' \<Rightarrow> k \<noteq> n - 1 \<and> r \<in> {1..16} \<and> i < 8 \<and> w = chain_value k r (2 * i) \<and> w' = chain_value k r (2 * i + 1)
   | StB r i w' \<Rightarrow> k \<noteq> n - 1 \<and> r \<in> {1..16} \<and> i < 8 \<and> w' = chain_value k r (2 * i + 1)
   | Notify r \<Rightarrow> k \<noteq> n - 1 \<and> r \<in> {1..16}
   | PrL i \<Rightarrow> k = n - 1 \<and> k \<noteq> 0 \<and> i < 16 | PrS i w \<Rightarrow> k = n - 1 \<and> k \<noteq> 0 \<and> i < 16 \<and> w = chain_value k 15 i
   | Ackn r \<Rightarrow> k \<noteq> 0 \<and> r \<in> {1..15}
   | Fin \<Rightarrow> True)"

text \<open>Tile \<open>k\<close> at \<open>q\<close> with successor at \<open>q'\<close>: \<open>V\<close> and \<open>B\<close> are cells of the successor, \<open>R\<close> of tile \<open>k\<close>.\<close>

definition link_ok :: "nat \<Rightarrow> cstate \<Rightarrow> cstate \<Rightarrow> (nat \<Rightarrow> u32) \<Rightarrow> (nat \<Rightarrow> u32) \<Rightarrow> (nat \<Rightarrow> nat \<Rightarrow> u32) \<Rightarrow> bool" where
  "link_ok k q q' V R B \<longleftrightarrow>
     (\<forall>j < 2. V j = of_nat (last_round j (sent q)))
     \<and> (\<forall>j < 2. R j = (if announced j q' then of_nat (ready_round j (acked q')) else 0))
     \<and> started q \<le> round_of q' + 1 \<and> entered q' \<le> sent q
     \<and> (\<forall>x i. round_of q' \<le> x \<longrightarrow> x \<le> sent q \<longrightarrow> i < 16 \<longrightarrow> B (block x) i = chain_value (Suc k) x i)
     \<and> (\<forall>i < stored q. B (block (round_of q)) i = chain_value (Suc k) (round_of q) i)"

text \<open>The buffers of tile 0.\<close>

definition fill_ok :: "cstate \<Rightarrow> (nat \<Rightarrow> nat \<Rightarrow> u32) \<Rightarrow> bool" where
  "fill_ok q B \<longleftrightarrow> (\<forall>j < 2. \<forall>i < 16. B j i = (case q of Fill l \<Rightarrow> if 2 * i + j < l then of_nat i else 0 | _ \<Rightarrow> of_nat i))"

section \<open>Blocks of the buffer\<close>

lemma block_less: "block r < 2"
  by (simp add: block_def)

lemma block_Suc: "block (Suc r) = 1 - block r"
  by (auto simp: block_def) presburger+

lemma block_neq: "block x \<noteq> block (Suc x)"
  by (simp add: block_def) presburger

lemma of_nat_eq: "x < 100 \<Longrightarrow> y < 100 \<Longrightarrow> (of_nat x :: u32) = of_nat y \<longleftrightarrow> x = y"
  by (simp add: word_unat_eq_iff unat_of_nat_lt)

text \<open>The wait for valid data of round \<open>r\<close> ends only when the predecessor has sent it, and can end as long as the
  predecessor is at most one round ahead; similarly for the wait for the successor.\<close>

lemma last_round_eq: "last_round (block r) x = r \<Longrightarrow> r \<le> x"
  by (simp add: last_round_def split: if_splits)

lemma last_round_current: "r \<le> x \<Longrightarrow> x \<le> r + 1 \<Longrightarrow> last_round (block r) x = r"
  by (auto simp: last_round_def block_def le_Suc_eq) presburger+

lemma last_round_Suc: "last_round j (Suc x) = (if j = block (Suc x) then Suc x else if j < 2 then last_round j x else last_round j (Suc x))"
  by (auto simp: last_round_def block_def) presburger+

lemma ready_round_eq: "ready_round (block r) x = r \<Longrightarrow> r \<le> x + 2"
  by (simp add: ready_round_def split: if_splits)

lemma ready_round_current: "ready_round (block (Suc x)) x = Suc x"
  by (simp add: ready_round_def)

lemma ready_round_Suc: "j < 2 \<Longrightarrow> ready_round j (Suc x) = (if j = block (Suc x) then Suc x + 2 else ready_round j x)"
  by (auto simp: ready_round_def block_def) presburger+

lemma ready_round_0: "j < 2 \<Longrightarrow> ready_round j 0 = j + 1"
  by (auto simp: ready_round_def block_def less_Suc_eq numeral_2_eq_2)

section \<open>The steps keep the invariant\<close>

text \<open>The cells of a link after a step of the tile or of its successor.\<close>

fun link_V :: "effect \<Rightarrow> (nat \<Rightarrow> u32) \<Rightarrow> nat \<Rightarrow> u32" where
  "link_V (SetValid j w) V = V(j := w)" | "link_V e V = V"

fun link_B :: "effect \<Rightarrow> (nat \<Rightarrow> nat \<Rightarrow> u32) \<Rightarrow> nat \<Rightarrow> nat \<Rightarrow> u32" where
  "link_B (SetBuf j i w) B = B(j := (B j)(i := w))" | "link_B e B = B"

fun link_R :: "effect \<Rightarrow> (nat \<Rightarrow> u32) \<Rightarrow> nat \<Rightarrow> u32" where
  "link_R (SetReady j w) R = R(j := w)" | "link_R e R = R"

lemma with_valid_measures:
  assumes "r \<in> {1..16}" and "k \<noteq> 0"
  shows "round_of (with_valid n k r) = r \<or> with_valid n k r = Fin \<and> r = 16" 
    and "entered (with_valid n k r) = r" and "announced j (with_valid n k r)"
    and "acked (with_valid n k r) = r - 1"
  using assms by (auto simp: with_valid_def after_round_def acked_def)

lemma local_round: "local_ok n k q \<Longrightarrow> 1 \<le> round_of q"
  by (cases q) (simp_all add: local_ok_def)

lemma link_rightI:
  assumes "link_ok k q q' V R B" and "round_of q' \<le> round_of p" and "entered p \<le> sent q"
    and "\<And>j. j < 2 \<Longrightarrow> R' j = (if announced j p then of_nat (ready_round j (acked p)) else 0)"
  shows "link_ok k q p V R' B"
  using assms unfolding link_ok_def by (meson add_le_cancel_right le_trans)

lemma link_right_same:
  assumes "link_ok k q q' V R B" and "round_of p = round_of q'" and "entered p = entered q'" and "\<And>j. announced j p = announced j q'"
  shows "link_ok k q p V R B"
  using assms by (intro link_rightI [OF assms(1)]) (auto simp: link_ok_def acked_def)

lemma link_right:
  assumes L: "link_ok k q q' V R B" and ok: "local_ok n (Suc k) q'" and st: "cc_next n (Suc k) V R0 B q' = (p, e)"
    and s: "sent q \<le> 16"
  shows "link_ok k q p V (link_R e R) B"
proof -
  have R: "R j = (if announced j q' then of_nat (ready_round j (acked q')) else 0)" if "j < 2" for j
    using L that by (simp add: link_ok_def)
  have E: "entered q' \<le> sent q" using L by (simp add: link_ok_def)
  have V: "r \<le> sent q" if "V (block r) = of_nat r" "r \<le> 16" for r
  proof -
    have "V (block r) = of_nat (last_round (block r) (sent q))" using L block_less by (simp add: link_ok_def)
    moreover have "last_round (block r) (sent q) < 100" using s by (auto simp: last_round_def)
    ultimately show ?thesis using that of_nat_eq [of "last_round (block r) (sent q)" r] last_round_eq by simp
  qed
  have enter: "link_ok k q (with_valid n (Suc k) r) V R B"
    if "V (block r) = of_nat r" "r \<in> {1..16}" "round_of q' = r" "\<And>j. announced j q'" for r
    using with_valid_measures [OF that(2), where k = "Suc k" and n = n] V [OF that(1)] that(2-4) R
    by (intro link_rightI [OF L]) (auto simp: acked_def)
  show ?thesis
  proof (cases q')
    case (Ann i)
    then have i: "i = 0 \<or> i = 1" using ok by (auto simp: local_ok_def)
    then show ?thesis using st R E Ann
      by (intro link_rightI [OF L]) (auto simp: acked_def ready_round_0 less_Suc_eq numeral_2_eq_2)
  next
    case (Ackn r)
    then have r: "r \<in> {1..15}" and p: "p = WaitV (r + 1)" "e = SetReady (block r) (of_nat (r + 2))"
      using ok st by (auto simp: local_ok_def)
    have "ready_round j r = (if j = block r then r + 2 else ready_round j (r - 1))" if "j < 2" for j
      using ready_round_Suc [OF that, of "r - 1"] r by simp
    then show ?thesis using R E r unfolding p Ackn by (intro link_rightI [OF L]) (auto simp: Ackn acked_def)
  next
    case (TryV r)
    then show ?thesis using st ok enter [of r] by (auto simp: local_ok_def intro!: link_right_same [OF L] split: if_splits)
  next
    case (AgainV r)
    then show ?thesis using st ok enter [of r] by (auto simp: local_ok_def intro!: link_right_same [OF L] split: if_splits)
  next
    case (Notify r)
    then show ?thesis using st ok R E
      by (cases "r = 16"; intro link_rightI [OF L]) (auto simp: local_ok_def after_round_def acked_def)
  next
    case (PrS i w)
    then show ?thesis using st ok R E
      by (cases "i = 15"; intro link_rightI [OF L]) (auto simp: local_ok_def after_round_def acked_def)
  qed (use st ok in \<open>auto simp: local_ok_def intro!: link_right_same [OF L]\<close>)
qed

lemma link_leftI:
  assumes "link_ok k q q' V R B" and "started p \<le> round_of q' + 1" and "sent q \<le> sent p"
    and "\<And>j. j < 2 \<Longrightarrow> V' j = of_nat (last_round j (sent p))"
    and "\<And>x i. round_of q' \<le> x \<Longrightarrow> x \<le> sent p \<Longrightarrow> i < 16 \<Longrightarrow> B' (block x) i = chain_value (Suc k) x i"
    and "\<And>i. i < stored p \<Longrightarrow> B' (block (round_of p)) i = chain_value (Suc k) (round_of p) i"
  shows "link_ok k p q' V' R B'"
  using assms unfolding link_ok_def by simp

lemma link_left_same:
  assumes "link_ok k q q' V R B" and "started p = started q" and "sent p = sent q"
    and "stored p = 0 \<or> stored p = stored q \<and> round_of p = round_of q"
  shows "link_ok k p q' V R B"
  using assms by (intro link_leftI [OF assms(1)]) (auto simp: link_ok_def)

text \<open>A word of round \<open>r\<close> is stored to the block that the successor does not read.\<close>

lemma link_store:
  assumes L: "link_ok k q q' V R B" and q: "round_of q = r" "started q = r" "sent q = r - 1" "1 \<le> r" "stored q = i"
    and p: "round_of p = r" "started p = r" "sent p = r - 1" "stored p = Suc i"
  shows "link_ok k p q' V R (B(block r := (B (block r))(i := chain_value (Suc k) r i)))" (is "link_ok k p q' V R ?B")
proof (rule link_leftI [OF L])
  show "started p \<le> round_of q' + 1" "\<And>j. j < 2 \<Longrightarrow> V j = of_nat (last_round j (sent p))"
    using L q p by (simp_all add: link_ok_def)
  show "sent q \<le> sent p" using q p by simp
  show "?B (block x) l = chain_value (Suc k) x l" if "round_of q' \<le> x" "x \<le> sent p" "l < 16" for x l
  proof -
    have "r \<le> round_of q' + 1" using L q(2) by (simp add: link_ok_def)
    then have "r = Suc x" using that q p by linarith
    then have "block x \<noteq> block r" by (simp add: block_neq)
    then show ?thesis using L that q p by (simp add: link_ok_def)
  qed
  show "?B (block (round_of p)) l = chain_value (Suc k) (round_of p) l" if "l < stored p" for l
    using L that q p by (auto simp: link_ok_def less_Suc_eq)
qed

lemma link_notify:
  assumes L: "link_ok k (Notify r) q' V R B" and "1 \<le> r" and p: "sent p = r" "started p = r" "stored p = 0"
  shows "link_ok k p q' (V(block r := of_nat r)) R B"
proof (rule link_leftI [OF L])
  show "started p \<le> round_of q' + 1" "sent (Notify r) \<le> sent p" using L p by (simp_all add: link_ok_def)
  show "(V(block r := of_nat r)) j = of_nat (last_round j (sent p))" if "j < 2" for j
    using L that p last_round_Suc [of j "r - 1"] \<open>1 \<le> r\<close> by (simp add: link_ok_def)
  show "B (block x) i = chain_value (Suc k) x i" if "round_of q' \<le> x" "x \<le> sent p" "i < 16" for x i
    using L that p by (cases "x = r") (simp_all add: link_ok_def)
qed (use p in simp)

lemma link_left:
  assumes L: "link_ok k q q' V R B" and ok: "local_ok n k q" and k: "Suc k < n" and st: "cc_next n k V0 R B0 q = (p, e)"
    and q': "local_ok n (Suc k) q'"
  shows "link_ok k p q' (link_V e V) R (link_B e B)"
proof -
  have go: "link_ok k (LdA r 0) q' V R B" if "R (block r) = of_nat r" "1 \<le> r" "r \<le> 16" "sent q = r - 1" "started q = r - 1" for r
  proof -
    have a: "announced (block r) q' \<and> of_nat (ready_round (block r) (acked q')) = (of_nat r :: u32)"
      using L block_less [of r] that of_nat_eq [of r 0] by (simp add: link_ok_def split: if_splits)
    moreover have "acked q' \<le> 15" by (simp add: acked_def)
    ultimately have "r \<le> acked q' + 2"
      using of_nat_eq [of "ready_round (block r) (acked q')" r] ready_round_eq [of r "acked q'"] \<open>r \<le> 16\<close>
      by (auto simp: ready_round_def split: if_splits)
    then have "r \<le> round_of q' + 1" using local_round [OF q'] by (simp add: acked_def)
    then show ?thesis using L that by (intro link_leftI [OF L]) (auto simp: link_ok_def)
  qed
  show ?thesis
  proof (cases q)
    case (Fill i)
    have "link_ok k p q' V R B" by (rule link_left_same [OF L]) (use st Fill in \<open>auto split: if_splits\<close>)
    then show ?thesis using st Fill by auto
  next
    case (StA r i w w')
    have w: "tag_update (of_nat k) (of_nat r) w = chain_value (Suc k) r (2 * i)" and r: "1 \<le> r"
      using ok tag_update_chain by (auto simp: StA local_ok_def)
    show ?thesis using st w link_store [OF L, of r "2 * i" p] r by (auto simp: StA fun_upd_def)
  next
    case (StB r i w')
    have w: "tag_update (of_nat k) (of_nat r) w' = chain_value (Suc k) r (2 * i + 1)" and r: "1 \<le> r" "i < 8"
      using ok tag_update_chain [of k r "2 * i + 1"] by (auto simp: StB local_ok_def)
    show ?thesis using st w link_store [OF L, of r "2 * i + 1" p] r by (auto simp: StB fun_upd_def split: if_splits)
  next
    case (Notify r)
    then have r: "1 \<le> r" "r \<le> 16" using ok by (simp_all add: local_ok_def)
    have "sent p = r" "started p = r" "stored p = 0" using st r by (auto simp: Notify after_round_def)
    then show ?thesis using st link_notify [OF L [unfolded Notify] r(1)] by (auto simp: Notify)
  next
    case (TryR r)
    then show ?thesis using st ok go [of r] by (auto simp: local_ok_def intro!: link_left_same [OF L] split: if_splits)
  next
    case (AgainR r)
    then show ?thesis using st ok go [of r] by (auto simp: local_ok_def intro!: link_left_same [OF L] split: if_splits)
  qed (use st ok k in \<open>auto simp: local_ok_def with_valid_def intro!: link_left_same [OF L] split: if_splits\<close>)
qed

text \<open>The words that a tile loads from its own buffer.\<close>

lemma link_loads:
  assumes "link_ok k q q' V R B" and "round_of q' \<le> entered q'" and "i < 16"
  shows "B (block (round_of q')) i = chain_value (Suc k) (round_of q') i"
  using assms by (auto simp: link_ok_def)

lemma local_step:
  assumes ok: "local_ok n k q" and n: "2 \<le> n" "k < n" and st: "cc_next n k V R B q = (p, e)"
    and later: "\<And>i. k \<noteq> 0 \<Longrightarrow> i < 16 \<Longrightarrow> round_of q \<le> entered q \<Longrightarrow> B (block (round_of q)) i = chain_value k (round_of q) i"
    and first: "\<And>j i. k = 0 \<Longrightarrow> round_of q \<le> entered q \<Longrightarrow> j < 2 \<Longrightarrow> i < 16 \<Longrightarrow> B j i = of_nat i"
  shows "local_ok n k p"
proof -
  have ld: "B (block (round_of q)) i = chain_value k (round_of q) i" if "round_of q \<le> entered q" "i < 16" for i
    using later [OF _ that(2,1)] first [OF _ that(1) block_less that(2)] chain_value_0 [OF that(2)] by (cases "k = 0") simp_all
  show ?thesis
  proof (cases q)
    case (LdA r i)
    then show ?thesis using st ok ld [of "2 * i"] by (auto simp: local_ok_def)
  next
    case (LdB r i w)
    then show ?thesis using st ok ld [of "2 * i + 1"] by (auto simp: local_ok_def)
  next
    case (PrL i)
    then show ?thesis using st ok ld [of i] by (auto simp: local_ok_def block_def)
  next
    case (Ann i)
    then show ?thesis using st ok by (auto simp: local_ok_def)
  qed (use st ok n in \<open>auto simp: local_ok_def with_valid_def after_round_def split: if_splits\<close>)
qed

section \<open>The first buffer and the output\<close>

fun fill_B :: "effect \<Rightarrow> (nat \<Rightarrow> nat \<Rightarrow> u32) \<Rightarrow> nat \<Rightarrow> nat \<Rightarrow> u32" where
  "fill_B (FillBuf j i) B = B(j := (B j)(i := of_nat i))" | "fill_B e B = B"

lemma fill_step:
  assumes "fill_ok q B" and "cc_next n 0 V R B' q = (p, e)" and "local_ok n 0 q"
  shows "fill_ok p (fill_B e B)"
proof (cases q)
  case (Fill l)
  have jl: "2 * (l div 2) + l mod 2 = l" by simp
  have e: "e = FillBuf (l mod 2) (l div 2)" and l: "l < 32" using assms by (auto simp: Fill local_ok_def)
  have p: "(case p of Fill l' \<Rightarrow> if 2 * i + j < l' then of_nat i else 0 | _ \<Rightarrow> of_nat i) = (if 2 * i + j < Suc l then of_nat i else (0 :: u32))"
    if "j < 2" "i < 16" for i j
    using assms(2) that l unfolding Fill by (cases "l < 31") auto
  have "(fill_B e B) j i = (if 2 * i + j < Suc l then of_nat i else 0)" if ji: "j < 2" "i < 16" for j i
  proof (cases "2 * i + j = l")
    case True
    then have "l mod 2 = j" "l div 2 = i" using ji by auto
    then show ?thesis using True by (simp add: e)
  next
    case False
    then have "\<not> (j = l mod 2 \<and> i = l div 2)" using jl by auto
    then have "(fill_B e B) j i = B j i" by (auto simp: e)
    then show ?thesis using assms(1) ji False unfolding fill_ok_def Fill by (auto simp: less_Suc_eq)
  qed
  then show ?thesis using p unfolding fill_ok_def by simp
next
  case (Ann i)
  then show ?thesis using assms by (simp add: local_ok_def)
qed (use assms in \<open>auto simp: fill_ok_def local_ok_def with_valid_def after_round_def split: if_splits\<close>)

text \<open>How many words the last tile has put out.\<close>

fun emitted :: "cstate \<Rightarrow> nat" where
  "emitted (PrL i) = i" | "emitted (PrS i w) = i" | "emitted (Ackn r) = (if 15 \<le> r then 16 else 0)"
| "emitted q = (if 16 \<le> round_of q then 16 else 0)"

lemma emit_step:
  assumes "local_ok n (n - 1) q" and "cc_next n (n - 1) V R B q = (p, e)" and "2 \<le> n"
  shows "emitted p = (case e of Emit i w \<Rightarrow> Suc (emitted q) | _ \<Rightarrow> emitted q)"
    and "e = Emit i w \<Longrightarrow> i = emitted q \<and> w = chain_value (n - 1) 15 i \<and> i < 16"
proof -
  show "e = Emit i w \<Longrightarrow> i = emitted q \<and> w = chain_value (n - 1) 15 i \<and> i < 16"
    using assms by (cases q) (auto simp: local_ok_def split: if_splits)
  show "emitted p = (case e of Emit i w \<Rightarrow> Suc (emitted q) | _ \<Rightarrow> emitted q)"
  proof (cases q)
    case (Fill i)
    then show ?thesis using assms by (simp add: local_ok_def)
  qed (use assms in \<open>auto simp: local_ok_def with_valid_def after_round_def split: if_splits\<close>)
qed

lemma no_emit: "local_ok n k q \<Longrightarrow> cc_next n k V R B q = (p, e) \<Longrightarrow> k \<noteq> n - 1 \<Longrightarrow> e \<noteq> Emit i w"
  by (cases q) (auto simp: local_ok_def)

section \<open>Progress\<close>

text \<open>The steps that are left, at least.\<close>

fun cc_rank :: "cstate \<Rightarrow> nat" where
  "cc_rank (Fill i) = 20000 - i" | "cc_rank (Ann i) = 20000 - i"
| "cc_rank (WaitV r) = 1000 * (17 - r) + 109" | "cc_rank (TryV r) = 1000 * (17 - r) + 108" | "cc_rank (AgainV r) = 1000 * (17 - r) + 107"
| "cc_rank (WaitR r) = 1000 * (17 - r) + 106" | "cc_rank (TryR r) = 1000 * (17 - r) + 105" | "cc_rank (AgainR r) = 1000 * (17 - r) + 104"
| "cc_rank (LdA r i) = 1000 * (17 - r) + 100 - 4 * i" | "cc_rank (LdB r i w) = 1000 * (17 - r) + 99 - 4 * i"
| "cc_rank (StA r i w w') = 1000 * (17 - r) + 98 - 4 * i" | "cc_rank (StB r i w') = 1000 * (17 - r) + 97 - 4 * i"
| "cc_rank (Notify r) = 1000 * (17 - r) + 2" | "cc_rank (PrL i) = 2100 - 2 * i" | "cc_rank (PrS i w) = 2099 - 2 * i"
| "cc_rank (Ackn r) = 1000 * (17 - r) + 1" | "cc_rank Fin = 0"

definition may_step :: "(nat \<Rightarrow> u32) \<Rightarrow> (nat \<Rightarrow> u32) \<Rightarrow> cstate \<Rightarrow> bool" where
  "may_step V R q \<longleftrightarrow> (case q of
     TryV r \<Rightarrow> V (block r) = of_nat r | AgainV r \<Rightarrow> V (block r) = of_nat r
   | TryR r \<Rightarrow> R (block r) = of_nat r | AgainR r \<Rightarrow> R (block r) = of_nat r | Fin \<Rightarrow> False | _ \<Rightarrow> True)"

lemma rank_step:
  assumes "local_ok n k q" and "may_step V R q"
  shows "cc_rank (fst (cc_next n k V R B q)) < cc_rank q"
  using assms by (cases q) (auto simp: local_ok_def may_step_def with_valid_def after_round_def)

text \<open>The data is there for a tile whose predecessor is ahead, and the room for a tile whose successor is not behind.\<close>

lemma valid_there:
  assumes "link_ok k q q' V R B" and "q' \<in> {WaitV r, TryV r, AgainV r}" and "r < round_of q" and "1 \<le> r"
  shows "V (block r) = of_nat r"
proof -
  have "r \<le> sent q" using assms(3,4) by (cases q) auto
  moreover have "sent q \<le> started q" by (cases q) auto
  moreover have "started q \<le> r + 1" using assms(1,2) by (auto simp: link_ok_def)
  ultimately have "last_round (block r) (sent q) = r" by (intro last_round_current) auto
  then show ?thesis using assms(1) block_less by (simp add: link_ok_def)
qed

lemma ready_there:
  assumes "link_ok k q q' V R B" and "q \<in> {WaitR r, TryR r, AgainR r}" and "r \<le> round_of q'" and "1 \<le> r" "r \<le> 16"
    and "\<And>i. q' \<noteq> Ann i" and "\<And>i. q' \<noteq> Fill i"
  shows "R (block r) = of_nat r"
proof -
  have e: "entered q' \<le> r - 1" using assms(1,2) by (auto simp: link_ok_def)
  have a: "announced (block r) q'" using assms(6,7) by (cases q') auto
  have "round_of q' = r" using e assms(3-7) by (cases q') auto
  then have "acked q' = r - 1" using assms(5) by (simp add: acked_def)
  then have "R (block r) = of_nat (ready_round (block r) (r - 1))" using assms(1) a block_less by (simp add: link_ok_def)
  then show ?thesis using ready_round_current [of "r - 1"] assms(4) by simp
qed

end
