(* ===== verification/Isolation.thy ===== *)
theory Isolation
  imports Program_Checks Mutex
begin

text \<open>
  Tiles that do not share memory that changes. When every tile of the group touches a region of its own, and the host, and
  besides only loads from a region that no tile writes, then every interleaving does to each region what the tile does
  alone. So a program whose tiles work on their own part of an array need only be run on one tile.
\<close>

section \<open>Programs that stay in a region\<close>

fun op_addr :: "memop \<Rightarrow> u32 option" where
  "op_addr (Load8 a) = Some a"
| "op_addr (Load16 a) = Some a"
| "op_addr (Load32 a) = Some a"
| "op_addr (Lr a) = Some a"
| "op_addr (Lr_aq a) = Some a"
| "op_addr (Store8 a v) = Some a"
| "op_addr (Store16 a v) = Some a"
| "op_addr (Store32 a v) = Some a"
| "op_addr (AmoSwap a v) = Some a"
| "op_addr (AmoOr a v) = Some a"
| "op_addr (AmoAdd a v) = Some a"
| "op_addr Fence = None"

definition host_store :: "cfg \<Rightarrow> tile \<Rightarrow> memop \<Rightarrow> bool" where
  "host_store c t op \<longleftrightarrow> (\<exists>a v x e. op = Store32 a v \<and> eva_to_npa c t a = Endpoint x (IO_Y_INDEX c) e)"

fun is_load :: "memop \<Rightarrow> bool" where
  "is_load (Load8 a) = True" | "is_load (Load16 a) = True" | "is_load (Load32 a) = True"
| "is_load (Lr a) = True" | "is_load (Lr_aq a) = True" | "is_load op = False"

text \<open>\<open>R\<close> is the tile's own region, \<open>S\<close> the region that all tiles may load from.\<close>

definition own_op :: "cfg \<Rightarrow> tile \<Rightarrow> npa set \<Rightarrow> npa set \<Rightarrow> memop \<Rightarrow> bool" where
  "own_op c t S R op \<longleftrightarrow> host_store c t op \<or> (\<forall>a. op_addr op = Some a \<longrightarrow> span4 (eva_to_npa c t a) \<subseteq> R)
     \<or> is_load op \<and> (\<forall>a. op_addr op = Some a \<longrightarrow> span4 (eva_to_npa c t a) \<subseteq> S)"

primrec own_proc :: "cfg \<Rightarrow> tile \<Rightarrow> npa set \<Rightarrow> npa set \<Rightarrow> proc \<Rightarrow> bool" where
  "own_proc c t S R (Ret v) \<longleftrightarrow> True"
| "own_proc c t S R (Act a k) \<longleftrightarrow> own_op c t S R a \<and> (\<forall>v. own_proc c t S R (k v))"
| "own_proc c t S R (Loop b e k) \<longleftrightarrow> own_proc c t S R b \<and> (\<forall>v. own_proc c t S R (k v))"

lemma own_bind: "own_proc c t S R p \<Longrightarrow> (\<And>v. own_proc c t S R (f v)) \<Longrightarrow> own_proc c t S R (bind p f)"
  by (induction p) auto

lemma own_for_each: "(\<And>x. x \<in> set xs \<Longrightarrow> own_proc c t S R (f x)) \<Longrightarrow> own_proc c t S R (for_each xs f)"
  by (induction xs) (auto intro: own_bind)

lemma own_pstep: "own_proc c t S R p \<Longrightarrow> own_proc c t S R (fst (pstep c t (p, m)))"
  by (cases p) (auto intro!: own_bind)

section \<open>Locality of one step\<close>

definition same_on :: "npa set \<Rightarrow> machine \<Rightarrow> machine \<Rightarrow> bool" where
  "same_on R m m' \<longleftrightarrow> (\<forall>p \<in> R. mem m p = mem m' p)"

definition host_row :: "cfg \<Rightarrow> npa set" where
  "host_row c = {p. \<not> off_io c p}"

lemma span4_host: "eva_to_npa c t a = Endpoint x (IO_Y_INDEX c) e \<Longrightarrow> span4 (eva_to_npa c t a) \<subseteq> host_row c"
  by (auto simp: span4_def host_row_def off_io_def)

lemma store_outside:
  "q \<notin> span4 p \<Longrightarrow> store32 m p v q = m q" "q \<notin> span4 p \<Longrightarrow> store16 m p w q = m q" "q \<notin> span4 p \<Longrightarrow> store8 m p u q = m q"
  by (auto simp: store32_def store16_def store8_def span4_def)

lemma exec_outside:
  assumes "\<And>a. op_addr op = Some a \<Longrightarrow> q \<notin> span4 (eva_to_npa c t a)"
  shows "mem (snd (exec c t op m)) q = mem m q"
  using assms by (cases op) (auto simp: put32_def Let_def store_outside)

lemma load_same:
  assumes "same_on R m m'" and "span4 p \<subseteq> R"
  shows "load32 (mem m) p = load32 (mem m') p" "load16 (mem m) p = load16 (mem m') p" "load8 (mem m) p = load8 (mem m') p"
  using assms by (auto simp: same_on_def span4_def load32_def load16_def load8_def)

lemma store_same:
  assumes "same_on R m m'" and "q \<in> R"
  shows "store32 (mem m) p v q = store32 (mem m') p v q" "store16 (mem m) p w q = store16 (mem m') p w q"
    "store8 (mem m) p u q = store8 (mem m') p u q"
  using assms by (auto simp: same_on_def store32_def store16_def store8_def)

lemma exec_same:
  assumes "own_op c t S R op" and "same_on (R \<union> S) m m'"
  shows "fst (exec c t op m) = fst (exec c t op m')" and "same_on (R \<union> S) (snd (exec c t op m)) (snd (exec c t op m'))"
proof -
  have l: "load32 (mem m) (eva_to_npa c t a) = load32 (mem m') (eva_to_npa c t a)
      \<and> load16 (mem m) (eva_to_npa c t a) = load16 (mem m') (eva_to_npa c t a)
      \<and> load8 (mem m) (eva_to_npa c t a) = load8 (mem m') (eva_to_npa c t a)"
    if "op_addr op = Some a" "\<not> host_store c t op" for a
    using assms(1) that load_same [OF assms(2)] by (auto simp: own_op_def)
  show "fst (exec c t op m) = fst (exec c t op m')"
    using l by (cases op) (auto simp: Let_def host_store_def)
  show "same_on (R \<union> S) (snd (exec c t op m)) (snd (exec c t op m'))"
    unfolding same_on_def
  proof
    fix q
    assume q: "q \<in> R \<union> S"
    show "mem (snd (exec c t op m)) q = mem (snd (exec c t op m')) q"
      using store_same [OF assms(2) q] assms(2) q l
      by (cases op) (auto simp: Let_def put32_def same_on_def host_store_def)
  qed
qed

section \<open>Interleavings of isolated tiles\<close>

definition isolated :: "cfg \<Rightarrow> npa set \<Rightarrow> (tile \<Rightarrow> npa set) \<Rightarrow> (tile \<Rightarrow> proc) \<Rightarrow> bool" where
  "isolated c S R ps \<longleftrightarrow> (\<forall>t. in_group c t \<longrightarrow> own_proc c t S (R t) (ps t) \<and> R t \<inter> host_row c = {} \<and> S \<inter> R t = {})
     \<and> S \<inter> host_row c = {}
     \<and> (\<forall>t u. in_group c t \<longrightarrow> in_group c u \<longrightarrow> t \<noteq> u \<longrightarrow> R t \<inter> R u = {})"

definition alone :: "cfg \<Rightarrow> tile \<Rightarrow> proc \<Rightarrow> machine \<Rightarrow> nat \<Rightarrow> proc \<times> machine" where
  "alone c t p m k = (pstep c t ^^ k) (p, m)"

lemma own_alone: "own_proc c t S R p \<Longrightarrow> own_proc c t S R (fst (alone c t p m k))"
proof (induction k)
  case (Suc k)
  then show ?case using own_pstep [of c t S R "fst (alone c t p m k)" "snd (alone c t p m k)"] by (simp add: alone_def)
qed (simp add: alone_def)

lemma pstep_outside:
  assumes "own_proc c t S R p" and "q \<notin> R" and "q \<notin> host_row c"
  shows "mem (snd (pstep c t (p, m))) q = mem m q"
proof (cases p)
  case (Act a k)
  have "op_addr a = Some e \<Longrightarrow> q \<notin> span4 (eva_to_npa c t e)" if "\<not> is_load a" for e
    using assms that span4_host [of c t e] unfolding Act by (auto simp: own_op_def host_store_def)
  moreover have "snd (exec c t a m) = m" if "is_load a" using that by (cases a) auto
  ultimately show ?thesis using exec_outside [of a q c t m] unfolding Act by (cases "is_load a") simp_all
qed auto

lemma pstep_same:
  assumes "own_proc c t S R p" and "same_on (R \<union> S) m m'"
  shows "fst (pstep c t (p, m)) = fst (pstep c t (p, m')) \<and> same_on (R \<union> S) (snd (pstep c t (p, m))) (snd (pstep c t (p, m')))"
proof (cases p)
  case (Act a k)
  then have "own_op c t S R a" using assms(1) by simp
  then show ?thesis using exec_same [OF _ assms(2)] Act by simp
qed (use assms(2) in auto)

lemma isolation:
  assumes "isolated c S R ps" and "reachable c (ps, m0) s"
  shows "\<exists>k. \<forall>t. in_group c t \<longrightarrow> fst s t = fst (alone c t (ps t) m0 (k t))
    \<and> same_on (R t \<union> S) (snd s) (snd (alone c t (ps t) m0 (k t)))"
  using assms(2)
proof (induction rule: reachable.induct)
  case reach_start
  show ?case by (intro exI [of _ "\<lambda>_. 0"]) (simp add: alone_def same_on_def)
next
  case (reach_step s s')
  then obtain k where k: "\<And>t. in_group c t \<Longrightarrow> fst s t = fst (alone c t (ps t) m0 (k t))
      \<and> same_on (R t \<union> S) (snd s) (snd (alone c t (ps t) m0 (k t)))" by blast
  from reach_step.hyps(2) show ?case
  proof cases
    case (tile_step t qs m p' m')
    let ?a = "alone c t (ps t) m0 (k t)"
    have own: "own_proc c t S (R t) (qs t)" using own_alone k [OF tile_step(3)] assms(1) tile_step by (metis isolated_def fst_conv)
    have s1: "same_on (R t \<union> S) m (snd ?a)" "qs t = fst ?a" using k [OF tile_step(3)] tile_step(1) by auto
    have "alone c t (ps t) m0 (Suc (k t)) = pstep c t (qs t, snd ?a)" using s1(2) by (simp add: alone_def)
    then have t: "p' = fst (alone c t (ps t) m0 (Suc (k t))) \<and> same_on (R t \<union> S) m' (snd (alone c t (ps t) m0 (Suc (k t))))"
      using pstep_same [OF own s1(1)] tile_step(4) by (metis fst_conv snd_conv)
    have u: "same_on (R u \<union> S) m' (snd (alone c u (ps u) m0 (k u)))" if "in_group c u" "u \<noteq> t" for u
    proof -
      have "q \<notin> R t" "q \<notin> host_row c" if "q \<in> R u \<union> S" for q
        using that assms(1) tile_step(3) \<open>in_group c u\<close> \<open>u \<noteq> t\<close> unfolding isolated_def by blast+
      then have "mem m' q = mem m q" if "q \<in> R u \<union> S" for q
        using pstep_outside [OF own, of q m] that tile_step(4) by (metis snd_conv)
      then show ?thesis using k [OF that(1)] tile_step(1) by (simp add: same_on_def)
    qed
    show ?thesis
      using k t u tile_step(1,2) by (intro exI [of _ "k(t := Suc (k t))"]) auto
  qed
qed

text \<open>So when every tile alone returns, then from every reachable state all can return, and when they have, the
  region of each is what its own run makes of it.\<close>

lemma alone_stays: "alone c t p m k = (Ret v, m') \<Longrightarrow> k \<le> j \<Longrightarrow> alone c t p m j = (Ret v, m')"
proof (induction j)
  case (Suc j)
  show ?case
  proof (cases "k = Suc j")
    case False
    then have "alone c t p m j = (Ret v, m')" using Suc by simp
    then show ?thesis by (simp add: alone_def)
  qed (use Suc.prems in simp)
qed simp

lemma isolated_run_one:
  assumes "isolated c S R ps" and "reachable c (ps, m0) s" and "in_group c t"
    and "runs c t (ps t, m0) (Ret v, mt)"
  shows "\<exists>j. (\<exists>m'. (pstep c t ^^ j) (fst s t, snd s) = (Ret v, m'))"
proof -
  obtain k where k: "fst s t = fst (alone c t (ps t) m0 k)" "same_on (R t \<union> S) (snd s) (snd (alone c t (ps t) m0 k))"
    using isolation [OF assms(1,2)] assms(3) by blast
  have own: "own_proc c t S (R t) (ps t)" using assms(1,3) unfolding isolated_def by blast
  have run: "fst ((pstep c t ^^ j) (fst s t, snd s)) = fst (alone c t (ps t) m0 (k + j))
      \<and> same_on (R t \<union> S) (snd ((pstep c t ^^ j) (fst s t, snd s))) (snd (alone c t (ps t) m0 (k + j)))" for j
  proof (induction j)
    case (Suc j)
    let ?a = "alone c t (ps t) m0 (k + j)" and ?b = "(pstep c t ^^ j) (fst s t, snd s)"
    have "pstep c t ?b = pstep c t (fst ?a, snd ?b)" using Suc by (metis prod.collapse)
    moreover have "alone c t (ps t) m0 (k + Suc j) = pstep c t (fst ?a, snd ?a)" by (simp add: alone_def)
    moreover have "same_on (R t \<union> S) (snd ?b) (snd ?a)" using Suc by blast
    note pstep_same [OF own_alone [OF own] this]
    ultimately show ?case unfolding funpow.simps comp_apply by metis
  qed (use k in simp)
  obtain k' where "alone c t (ps t) m0 k' = (Ret v, mt)" using assms(4) unfolding runs_def alone_def by blast
  then have "alone c t (ps t) m0 (k + k') = (Ret v, mt)" by (rule alone_stays) simp
  then show ?thesis using run [of k'] by (metis prod.collapse fst_conv)
qed

lemma isolated_can_finish:
  assumes "isolated c S R ps" and "\<And>t. in_group c t \<Longrightarrow> runs c t (ps t, m0) (Ret (v t), mt t)"
    and "reachable c (ps, m0) s"
  shows "\<exists>s'. reachable c s s' \<and> finished c s'"
proof -
  have "\<exists>s'. reachable c s s' \<and> (\<forall>t \<in> A. in_group c t \<longrightarrow> fst s' t = Ret (v t))" if "finite A" for A
    using that
  proof (induction A rule: finite_induct)
    case empty
    show ?case by (blast intro: reachable.intros)
  next
    case (insert t A)
    then obtain s1 where s1: "reachable c s s1" "\<forall>t \<in> A. in_group c t \<longrightarrow> fst s1 t = Ret (v t)" by blast
    show ?case
    proof (cases "in_group c t")
      case True
      obtain j m' where j: "(pstep c t ^^ j) (fst s1 t, snd s1) = (Ret (v t), m')"
        using isolated_run_one [OF assms(1) reachable_trans [OF s1(1) assms(3)] True assms(2) [OF True]] by blast
      have "reachable c (fst s1, snd s1) ((fst s1)(t := Ret (v t)), m')"
        using reachable_tile_steps [OF True, of "fst s1" "snd s1" j] j by simp
      then have "reachable c s ((fst s1)(t := Ret (v t)), m')" using s1(1) reachable_trans by simp
      then show ?thesis using s1(2) by (intro exI [of _ "((fst s1)(t := Ret (v t)), m')"]) auto
    next
      case False
      then show ?thesis using s1 by (intro exI [of _ s1]) blast
    qed
  qed
  then obtain s' where "reachable c s s'" "\<forall>t \<in> group_tiles c. in_group c t \<longrightarrow> fst s' t = Ret (v t)"
    using finite_group_tiles by blast
  then show ?thesis unfolding finished_def group_tiles_def by blast
qed

lemma isolated_result:
  assumes "isolated c S R ps" and "runs c t (ps t, m0) (Ret v, mt)"
    and "reachable c (ps, m0) s" and "finished c s" and "in_group c t"
  shows "fst s t = Ret v \<and> same_on (R t) (snd s) mt"
proof -
  obtain k where k: "fst s t = fst (alone c t (ps t) m0 k)" "same_on (R t \<union> S) (snd s) (snd (alone c t (ps t) m0 k))"
    using isolation [OF assms(1,3)] assms(5) by blast
  obtain k' where k': "alone c t (ps t) m0 k' = (Ret v, mt)" using assms(2) unfolding runs_def alone_def by blast
  obtain r where "fst s t = Ret r" using assms(4,5) unfolding finished_def by blast
  then have "alone c t (ps t) m0 k = (Ret r, snd (alone c t (ps t) m0 k))" using k(1) by (metis prod.collapse)
  then have "alone c t (ps t) m0 (max k k') = (Ret r, snd (alone c t (ps t) m0 k))" by (rule alone_stays) simp
  moreover have "alone c t (ps t) m0 (max k k') = (Ret v, mt)" using k' by (rule alone_stays) simp
  ultimately show ?thesis using k \<open>fst s t = Ret r\<close> by (auto simp: same_on_def)
qed

text \<open>The shared region does not change.\<close>

lemma isolated_shared:
  assumes "isolated c S R ps" and "reachable c (ps, m0) s"
  shows "same_on S (snd s) m0"
  using assms(2)
proof (induction rule: reachable.induct)
  case reach_start
  show ?case by (simp add: same_on_def)
next
  case (reach_step s s')
  obtain k where k: "\<And>t. in_group c t \<Longrightarrow> fst s t = fst (alone c t (ps t) m0 (k t))" using isolation [OF assms(1) reach_step.hyps(1)] by blast
  from reach_step.hyps(2) show ?case
  proof cases
    case (tile_step t qs m p' m')
    have own: "own_proc c t S (R t) (qs t)" using own_alone k [OF tile_step(3)] assms(1) tile_step by (metis isolated_def fst_conv)
    have "q \<notin> R t \<and> q \<notin> host_row c" if "q \<in> S" for q using that assms(1) tile_step(3) unfolding isolated_def by blast
    then have "mem m' q = mem m q" if "q \<in> S" for q
      using pstep_outside [OF own, of q m] that tile_step(4) by (metis snd_conv)
    then show ?thesis using reach_step.IH tile_step(1,2) by (simp add: same_on_def)
  qed
qed

section \<open>Regions made of words\<close>

definition words_at :: "('a \<Rightarrow> npa) \<Rightarrow> 'a set \<Rightarrow> npa set" where
  "words_at loc A = (\<Union>x \<in> A. span4 (loc x))"

lemma words_at_disjoint:
  assumes "disjoint_cells loc V" and "A \<subseteq> V" and "B \<subseteq> V" and "A \<inter> B = {}"
  shows "words_at loc A \<inter> words_at loc B = {}"
proof -
  have "span4 (loc x) \<inter> span4 (loc y) = {}" if "x \<in> A" "y \<in> B" for x y
  proof -
    have "x \<in> V" "y \<in> V" "x \<noteq> y" using assms(2-4) that by auto
    then show ?thesis using assms(1) unfolding disjoint_cells_def by blast
  qed
  then show ?thesis unfolding words_at_def by fast
qed

lemma off_io_off [simp]: "off_io c (npa_off p k) = off_io c p"
  by (cases p) (simp_all add: off_io_def)

lemma words_at_host:
  assumes "\<And>x. x \<in> A \<Longrightarrow> off_io c (loc x)"
  shows "words_at loc A \<inter> host_row c = {}"
proof (rule equals0I)
  fix p
  assume p: "p \<in> words_at loc A \<inter> host_row c"
  then obtain x where x: "x \<in> A" "p \<in> span4 (loc x)" by (auto simp: words_at_def)
  have "off_io c (loc x)" by (rule assms [OF x(1)])
  then have "off_io c p" using x(2) by (auto simp: span4_def)
  then show False using p by (simp add: host_row_def)
qed

text \<open>Tiles whose programs stay in their own words of one family of words, and load from shared ones, are isolated.\<close>

lemma words_isolated_shared:
  assumes "disjoint_cells loc V" and "\<And>x. x \<in> V \<Longrightarrow> off_io c (loc x)"
    and "\<And>t. in_group c t \<Longrightarrow> A t \<subseteq> V" and "\<And>t u. in_group c t \<Longrightarrow> in_group c u \<Longrightarrow> t \<noteq> u \<Longrightarrow> A t \<inter> A u = {}"
    and "B \<subseteq> V" and "\<And>t. in_group c t \<Longrightarrow> A t \<inter> B = {}"
    and "\<And>t. in_group c t \<Longrightarrow> own_proc c t (words_at loc B) (words_at loc (A t)) (ps t)"
  shows "isolated c (words_at loc B) (\<lambda>t. words_at loc (A t)) ps"
  unfolding isolated_def
proof (intro conjI allI impI)
  show "words_at loc B \<inter> host_row c = {}" using assms(2,5) by (intro words_at_host) blast
  fix t
  assume t: "in_group c t"
  then show "own_proc c t (words_at loc B) (words_at loc (A t)) (ps t)" by (rule assms(7))
  show "words_at loc (A t) \<inter> host_row c = {}" using assms(2,3) t by (intro words_at_host) blast
  show "words_at loc B \<inter> words_at loc (A t) = {}"
    using words_at_disjoint [OF assms(1,5) assms(3) [OF t]] assms(6) [OF t] by blast
  fix u
  assume "in_group c u" "t \<noteq> u"
  then show "words_at loc (A t) \<inter> words_at loc (A u) = {}"
    using words_at_disjoint [OF assms(1)] assms(3,4) t by simp
qed

lemma words_isolated:
  assumes "disjoint_cells loc V" and "\<And>x. x \<in> V \<Longrightarrow> off_io c (loc x)"
    and "\<And>t. in_group c t \<Longrightarrow> A t \<subseteq> V" and "\<And>t u. in_group c t \<Longrightarrow> in_group c u \<Longrightarrow> t \<noteq> u \<Longrightarrow> A t \<inter> A u = {}"
    and "\<And>t. in_group c t \<Longrightarrow> own_proc c t {} (words_at loc (A t)) (ps t)"
  shows "isolated c {} (\<lambda>t. words_at loc (A t)) ps"
  using words_isolated_shared [where B = "{}" and A = A, OF assms(1-4)] assms(5) by (simp add: words_at_def)

lemma same_on_rd: "same_on (words_at loc A) m m' \<Longrightarrow> x \<in> A \<Longrightarrow> rd m (loc x) = rd m' (loc x)"
  using load_same(1) [of "words_at loc A" m m' "loc x"] unfolding rd_def words_at_def by blast

lemma own_store: "eva_to_npa c t p = loc x \<Longrightarrow> x \<in> A \<Longrightarrow> own_op c t S (words_at loc A) (Store32 p v)"
  by (auto simp: own_op_def words_at_def)

lemma own_load: "eva_to_npa c t p = loc x \<Longrightarrow> x \<in> A \<Longrightarrow> own_op c t S (words_at loc A) (Load32 p)"
  by (auto simp: own_op_def words_at_def)

lemma own_load_shared: "eva_to_npa c t p = loc x \<Longrightarrow> x \<in> B \<Longrightarrow> own_op c t (words_at loc B) R (Load32 p)"
  by (auto simp: own_op_def words_at_def)

text \<open>The result of isolated tiles, for programs that return.\<close>

lemma isolated_words_result:
  assumes "isolated c S (\<lambda>t. words_at loc (A t)) ps"
    and run: "\<And>t. in_group c t \<Longrightarrow> \<exists>m'. runs c t (ps t, m) (Ret 0, m') \<and> (\<forall>x \<in> A t. rd m' (loc x) = val t x)"
    and "reachable c (ps, m) s"
  shows "(\<exists>s'. reachable c s s' \<and> finished c s')
    \<and> (finished c s \<longrightarrow> (\<forall>t. in_group c t \<longrightarrow> (\<forall>x \<in> A t. rd (snd s) (loc x) = val t x)))"
proof (intro conjI impI allI ballI)
  have "\<forall>t. \<exists>m'. in_group c t \<longrightarrow> runs c t (ps t, m) (Ret 0, m') \<and> (\<forall>x \<in> A t. rd m' (loc x) = val t x)"
    using run by blast
  from choice [OF this] obtain mt where mt: "\<And>t. in_group c t \<Longrightarrow> runs c t (ps t, m) (Ret 0, mt t)"
      "\<And>t x. in_group c t \<Longrightarrow> x \<in> A t \<Longrightarrow> rd (mt t) (loc x) = val t x" by blast
  show "\<exists>s'. reachable c s s' \<and> finished c s'" by (rule isolated_can_finish [OF assms(1) mt(1) assms(3)])
  fix t x
  assume f: "finished c s" and t: "in_group c t" and x: "x \<in> A t"
  then have "same_on (words_at loc (A t)) (snd s) (mt t)" using isolated_result [OF assms(1) mt(1) [OF t] assms(3)] by blast
  then show "rd (snd s) (loc x) = val t x" using same_on_rd x mt(2) [OF t x] by metis
qed

end
