(* ===== verification/Credit_Test.thy ===== *)
theory Credit_Test
  imports Isolation Histogram
begin

text \<open>
  The programs \<open>spmd/test_credit_limit_csr\<close> and \<open>spmd/test_credit_limit_csr_multi\<close>. A tile stores a burst of 32
  words, reads them back and compares, once for every value of the credit limit: from 32 down to 2 and up again.
  The limit is the register 0xfc0 of the tile; it bounds the number of stores under way and has no
  effect on what the stores do. Its value at the start is a parameter, \<open>credit\<close>.
\<close>

section \<open>The programs\<close>

definition credit_N :: nat where "credit_N = 32"

definition credit_burst :: "u32 \<Rightarrow> u32 \<Rightarrow> proc" where
  "credit_burst data_ptr curr_data =
     for_each [0..<credit_N] (\<lambda>i. Act (Store32 (data_ptr + 4 * of_nat i) curr_data) Ret)"

definition credit_verify :: "cfg \<Rightarrow> tile \<Rightarrow> u32 \<Rightarrow> u32 \<Rightarrow> proc" where
  "credit_verify c t data_ptr curr_data =
     load_list (map (\<lambda>i. data_ptr + 4 * of_nat i) [0..<credit_N]) (\<lambda>read_buffer.
       for_each read_buffer (\<lambda>x. if x \<noteq> curr_data then bsg_fail c t else Ret 0))"

definition credit_round :: "cfg \<Rightarrow> tile \<Rightarrow> u32 \<Rightarrow> u32 \<Rightarrow> proc" where
  "credit_round c t data_ptr curr_data =
     seq (credit_burst data_ptr curr_data) (seq (credit_verify c t data_ptr curr_data) (bsg_print_time c t))"

text \<open>The two \<open>do\<close> loops, with the limit and the value to store.\<close>

function credit_down :: "(u32 \<Rightarrow> proc) \<Rightarrow> u32 \<Rightarrow> u32 \<Rightarrow> (u32 \<Rightarrow> u32 \<Rightarrow> proc) \<Rightarrow> proc" where
  "credit_down body curr_limit curr_data k =
     seq (body curr_data)
       (if curr_limit - 1 \<noteq> 1 then credit_down body (curr_limit - 1) (curr_data + 1) k
        else k (curr_limit - 1) (curr_data + 1))"
  by auto

lemma unat_pred: "(w :: u32) \<noteq> 0 \<Longrightarrow> unat (w - 1) < unat w"
  by (simp add: unat_minus_one unat_gt_0)

termination credit_down
proof (relation "measure (\<lambda>(body, l, d, k). unat (l - 2))", goal_cases)
  case (2 body l d k)
  then have "l - 2 \<noteq> 0" "l - 1 - 2 = l - 2 - 1" by (auto simp: algebra_simps)
  then show ?case using unat_pred [of "l - 2"] by simp
qed simp

function credit_up :: "(u32 \<Rightarrow> proc) \<Rightarrow> u32 \<Rightarrow> u32 \<Rightarrow> (u32 \<Rightarrow> u32 \<Rightarrow> proc) \<Rightarrow> proc" where
  "credit_up body curr_limit curr_data k =
     seq (body curr_data)
       (if curr_limit + 1 \<noteq> 32 then credit_up body (curr_limit + 1) (curr_data + 1) k
        else k (curr_limit + 1) (curr_data + 1))"
  by auto

termination credit_up
proof (relation "measure (\<lambda>(body, l, d, k). unat (31 - l))", goal_cases)
  case (2 body l d k)
  then have "31 - l \<noteq> 0" "31 - (l + 1) = 31 - l - 1" by (auto simp: algebra_simps)
  then show ?case using unat_pred [of "31 - l"] by simp
qed simp

declare credit_down.simps [simp del] credit_up.simps [simp del]

definition credit_main :: "cfg \<Rightarrow> tile \<Rightarrow> u32 \<Rightarrow> u32 \<Rightarrow> proc" where
  "credit_main c t data credit =
     seq (if credit \<noteq> 32 then bsg_fail c t else Ret 0)
       (seq (do_printf c (''current credit limit = %d'' @ [CHR 0x0A]) [Word credit])
         (credit_down (credit_round c t data) credit 1 (\<lambda>curr_limit curr_data.
           credit_up (credit_round c t data) curr_limit curr_data (\<lambda>_ _.
             seq (bsg_finish c t) spin_forever))))"

text \<open>The second program runs on all tiles, each on its own part of the array, with a barrier after every round.\<close>

definition credit_multi_work :: "cfg \<Rightarrow> tile \<Rightarrow> u32 \<Rightarrow> u32 \<Rightarrow> proc" where
  "credit_multi_work c t data_ptr curr_data =
     seq (credit_burst data_ptr curr_data)
       (seq (credit_verify c t data_ptr curr_data)
         (seq (if bsg_x_y_to_id c (fst t) (snd t) = 0 then bsg_print_time c t else Ret 0) bsg_fence))"

definition credit_multi_ptr :: "cfg \<Rightarrow> tile \<Rightarrow> u32 \<Rightarrow> u32" where
  "credit_multi_ptr c t data = data + 4 * (bsg_x_y_to_id c (fst t) (snd t) * of_nat credit_N)"

definition credit_multi_main :: "cfg \<Rightarrow> tile \<Rightarrow> u32 \<Rightarrow> u32 \<Rightarrow> u32 \<Rightarrow> u32 \<Rightarrow> proc" where
  "credit_multi_main c t data credit row col =
     (let (r_barrier, c_barrier) = INIT_TILE_GROUP_BARRIER row col 0 (bsg_tiles_X c - 1) 0 (bsg_tiles_Y c - 1);
          bsg_id = bsg_x_y_to_id c (fst t) (snd t);
          data_ptr = credit_multi_ptr c t data;
          print_time = (if bsg_id = 0 then bsg_print_time c t else Ret 0);
          body = (\<lambda>curr_data. seq (credit_multi_work c t data_ptr curr_data)
            (bsg_tile_group_barrier (unat (bsg_tiles_X c)) (unat (bsg_tiles_Y c)) t r_barrier c_barrier)) in
      seq (if credit \<noteq> 32 then bsg_fail c t else Ret 0)
        (seq print_time
          (credit_down body credit (1 + bsg_id * 100) (\<lambda>curr_limit curr_data.
            seq print_time
              (credit_up body curr_limit curr_data (\<lambda>_ _.
                seq (if bsg_id = 0 then bsg_finish c t else Ret 0) spin_forever))))))"

section \<open>One round\<close>

abbreviation dram :: "nat \<Rightarrow> u32" where "dram a \<equiv> bsg_dram_ptr (of_nat a)"

lemma for_each_skip: "for_each xs (\<lambda>_. Ret 0) = Ret 0"
  by (induction xs) auto

lemma credit_ptr:
  assumes "d + 128 \<le> 2 ^ 31" and "i < 32"
  shows "dram d + 4 * of_nat i = dram (d + 4 * i)" and "eva_to_npa c t (dram (d + 4 * i)) = Dram (of_nat (d + 4 * i))"
proof -
  have "unat (4 * of_nat i :: u32) = 4 * i" "unat (of_nat d :: u32) = d"
    using assms unat_of_nat_lt [of "4 * i"] by (simp_all add: unat_of_nat_lt)
  then show "dram d + 4 * of_nat i = dram (d + 4 * i)" using assms dram_ptr_plus [of "of_nat d" "4 * of_nat i"] by simp
  show "eva_to_npa c t (dram (d + 4 * i)) = Dram (of_nat (d + 4 * i))"
    using assms unat_of_nat_lt [of "d + 4 * i"] by (intro eva_dram) (simp del: of_nat_add of_nat_mult)
qed

lemma credit_apart:
  assumes "d + 128 \<le> 2 ^ 31"
  shows "words_apart c t (\<lambda>i. dram d + 4 * of_nat i) {..<32}"
  using assms by (intro dram_words_apart [where a = "\<lambda>i. d + 4 * i"]) (auto simp: credit_ptr)

lemma credit_verified_run:
  fixes c t v m
  assumes "d + 128 \<le> 2 ^ 31"
  defines "m' \<equiv> put_words c t (\<lambda>i. dram d + 4 * of_nat i) (\<lambda>_. v) [0..<32] m"
  shows "runs c t (seq (credit_burst (dram d) v) (seq (credit_verify c t (dram d) v) q), m) (q, m')"
    and "i < 32 \<Longrightarrow> rd m' (Dram (of_nat (d + 4 * i))) = v"
proof -
  have w: "rd m' (eva_to_npa c t (dram d + 4 * of_nat i)) = v" if "i < 32" for i
    using rd_put_words [OF credit_apart [OF assms(1)], of "[0..<32]" i] that by (simp add: m'_def atLeast0LessThan)
  show "i < 32 \<Longrightarrow> rd m' (Dram (of_nat (d + 4 * i))) = v" using w [of i] credit_ptr [OF assms(1)] by simp
  have 1: "runs c t (seq (credit_burst (dram d) v) (seq (credit_verify c t (dram d) v) q), m)
      (seq (credit_verify c t (dram d) v) q, m')"
    unfolding credit_burst_def m'_def credit_N_def by (rule store_words_run)
  let ?vs = "map (\<lambda>p. rd m' (eva_to_npa c t p)) (map (\<lambda>i. dram d + 4 * of_nat i) [0..<32])"
  have "runs c t (seq (credit_verify c t (dram d) v) q, m')
      (seq (for_each ?vs (\<lambda>x. if x \<noteq> v then bsg_fail c t else Ret 0)) q, m')"
    unfolding credit_verify_def credit_N_def bind_load_list by (rule load_list_run)
  moreover have "for_each ?vs (\<lambda>x. if x \<noteq> v then bsg_fail c t else Ret 0) = for_each ?vs (\<lambda>_. Ret 0)"
    using w by (intro for_each_cong) auto
  ultimately have "runs c t (seq (credit_verify c t (dram d) v) q, m') (q, m')"
    by (simp only: for_each_skip bind.simps)
  then show "runs c t (seq (credit_burst (dram d) v) (seq (credit_verify c t (dram d) v) q), m) (q, m')"
    using runs_trans [OF 1] by blast
qed

lemma print_time_run: "\<exists>m'. runs c t (seq (bsg_print_time c t) q, m) (q, m')"
  unfolding bsg_print_time_def bind.simps by (intro exI) (rule runs_Act, rule runs_refl)

lemma credit_round_run:
  assumes "d + 128 \<le> 2 ^ 31"
  shows "\<exists>m'. runs c t (seq (credit_round c t (dram d) v) q, m) (q, m')"
  unfolding credit_round_def bind_assoc
  using credit_verified_run(1) [OF assms] print_time_run runs_trans by meson

lemma credit_down_run:
  assumes "\<And>v m q. \<exists>m'. runs c t (seq (body v) q, m) (q, m')"
  shows "\<exists>v' m'. runs c t (credit_down body l v k, m) (k 1 v', m')"
  using assms
proof (induction body l v k arbitrary: m rule: credit_down.induct)
  case (1 body l v k)
  obtain m1 where m1: "runs c t (credit_down body l v k, m)
      (if l - 1 \<noteq> 1 then credit_down body (l - 1) (v + 1) k else k (l - 1) (v + 1), m1)"
    using 1(2) [of v] unfolding credit_down.simps [of body l v k] by blast
  show ?case
  proof (cases "l - 1 \<noteq> 1")
    case True
    then obtain v' m' where "runs c t (credit_down body (l - 1) (v + 1) k, m1) (k 1 v', m')" using 1 by blast
    then show ?thesis using runs_trans [OF m1] True by auto
  qed (use m1 in auto)
qed

lemma credit_up_run:
  assumes "\<And>v m q. \<exists>m'. runs c t (seq (body v) q, m) (q, m')"
  shows "\<exists>v' m'. runs c t (credit_up body l v k, m) (k 32 v', m')"
  using assms
proof (induction body l v k arbitrary: m rule: credit_up.induct)
  case (1 body l v k)
  obtain m1 where m1: "runs c t (credit_up body l v k, m)
      (if l + 1 \<noteq> 32 then credit_up body (l + 1) (v + 1) k else k (l + 1) (v + 1), m1)"
    using 1(2) [of v] unfolding credit_up.simps [of body l v k] by blast
  show ?case
  proof (cases "l + 1 \<noteq> 32")
    case True
    then obtain v' m' where "runs c t (credit_up body (l + 1) (v + 1) k, m1) (k 32 v', m')" using 1 by blast
    then show ?thesis using runs_trans [OF m1] True by auto
  qed (use m1 in auto)
qed

section \<open>Results\<close>

lemma credit_message:
  "ee_vsprintf (''current credit limit = %d'' @ [CHR 0x0A]) [Word 32] = Inr (''current credit limit = 32'' @ [CHR 0x0A])"
proof -
  have "decimal 32 = ''32''" by code_simp
  then have n: "number 32 10 (- 1) (- 1) SIGN = Some ''32''" by (simp add: number_decimal)
  have "fmt_directive (''d'' @ [CHR 0x0A]) [Word 32] = Inr (the (number 32 10 (- 1) (- 1) SIGN), [CHR 0x0A], [])"
    by (simp add: fmt_directive_def fmt_width_def fmt_precision_def fmt_qualifier_def fmt_convert_def fmt_integer_def peek_def is_digit_def)
  then show ?thesis by (simp add: n)
qed

text \<open>The test reports success from every memory when the limit starts at 32, and a failure otherwise.\<close>

theorem credit_main_reports:
  assumes "io_fits c" and "d + 128 \<le> 2 ^ 31" and "rd m (lock_npa c) = 0"
  shows "if credit = 32 then passes c t (credit_main c t (dram d) credit) m
    else fails c t (credit_main c t (dram d) credit) m"
proof (cases "credit = 32")
  case True
  obtain m1 where 1: "runs c t (credit_main c t (dram d) credit, m) (credit_down (credit_round c t (dram d)) credit 1
      (\<lambda>l v. credit_up (credit_round c t (dram d)) l v (\<lambda>_ _. seq (bsg_finish c t) spin_forever)), m1)"
    unfolding credit_main_def using True do_printf_run [OF assms(1,3) credit_message] by fastforce
  obtain v2 m2 where "runs c t (credit_down (credit_round c t (dram d)) credit 1
      (\<lambda>l v. credit_up (credit_round c t (dram d)) l v (\<lambda>_ _. seq (bsg_finish c t) spin_forever)), m1)
      (credit_up (credit_round c t (dram d)) 1 v2 (\<lambda>_ _. seq (bsg_finish c t) spin_forever), m2)"
    using credit_down_run [where body = "credit_round c t (dram d)", OF credit_round_run [OF assms(2)]] by blast
  moreover obtain m3 where "runs c t (credit_up (credit_round c t (dram d)) 1 v2 (\<lambda>_ _. seq (bsg_finish c t) spin_forever), m2)
      (seq (bsg_finish c t) spin_forever, m3)"
    using credit_up_run [where body = "credit_round c t (dram d)", OF credit_round_run [OF assms(2)]] by blast
  ultimately show ?thesis
    using True passes_runs [OF runs_trans [OF 1 runs_trans] passes_finish [OF assms(1)]] by simp
next
  case False
  then show ?thesis unfolding credit_main_def using fails_fail [OF assms(1)] by simp
qed

lemma credit_main_reports_witness:
  "passes small_cfg (0, 0) (credit_main small_cfg (0, 0) (dram 64) 32) zero_machine
   \<and> fails small_cfg (0, 0) (credit_main small_cfg (0, 0) (dram 64) 16) zero_machine"
  using credit_main_reports [of small_cfg 64 zero_machine 32 "(0, 0)"] credit_main_reports [of small_cfg 64 zero_machine 16 "(0, 0)"]
  by (simp add: io_fits_def small_cfg_def)

text \<open>The part of the array that tile \<open>t\<close> uses.\<close>

abbreviation id_of :: "cfg \<Rightarrow> tile \<Rightarrow> nat" where
  "id_of c t \<equiv> unat (bsg_x_y_to_id c (fst t) (snd t))"

definition credit_region :: "cfg \<Rightarrow> nat \<Rightarrow> tile \<Rightarrow> npa set" where
  "credit_region c d t = (\<Union>i<32. span4 (Dram (of_nat (d + 128 * id_of c t + 4 * i))))"

definition credit_layout :: "cfg \<Rightarrow> nat \<Rightarrow> bool" where
  "credit_layout c d \<longleftrightarrow> group_fits c \<and> io_fits c \<and> d + 128 * (unat (bsg_tiles_X c) * unat (bsg_tiles_Y c)) \<le> 2 ^ 31"

lemma credit_ids:
  assumes "credit_layout c d" and "in_group c t"
  shows "d + 128 * id_of c t + 128 \<le> 2 ^ 31" and "credit_multi_ptr c t (dram d) = dram (d + 128 * id_of c t)"
    and "in_group c u \<Longrightarrow> t \<noteq> u \<Longrightarrow> id_of c t \<noteq> id_of c u"
proof -
  let ?n = "unat (bsg_tiles_X c) * unat (bsg_tiles_Y c)"
  have g: "group_fits c" "d + 128 * ?n \<le> 2 ^ 31" using assms(1) by (simp_all add: credit_layout_def)
  note b = tile_ids [OF g(1)]
  have "id_of c t < ?n" using b assms(2) unfolding bij_betw_def by (auto simp: group_tiles_def)
  then show le: "d + 128 * id_of c t + 128 \<le> 2 ^ 31" using g(2) by simp
  have "unat (4 * (bsg_x_y_to_id c (fst t) (snd t) * of_nat credit_N)) = 128 * id_of c t" "unat (of_nat d :: u32) = d"
    using le by (simp_all add: unat_word_ariths credit_N_def unat_of_nat_lt)
  then have "dram d + 4 * (bsg_x_y_to_id c (fst t) (snd t) * of_nat credit_N) = bsg_dram_ptr (of_nat d + 4 * (bsg_x_y_to_id c (fst t) (snd t) * of_nat credit_N))"
    using le by (intro dram_ptr_plus) simp
  then show "credit_multi_ptr c t (dram d) = dram (d + 128 * id_of c t)"
    by (simp add: credit_multi_ptr_def credit_N_def)
  show "in_group c u \<Longrightarrow> t \<noteq> u \<Longrightarrow> id_of c t \<noteq> id_of c u"
    using bij_betw_imp_inj_on [OF b] assms(2) unfolding inj_on_def group_tiles_def by blast
qed

lemma own_load_list: "(\<And>p. p \<in> set ps \<Longrightarrow> own_op c t {} R (Load32 p)) \<Longrightarrow> (\<And>vs. own_proc c t {} R (k vs)) \<Longrightarrow> own_proc c t {} R (load_list ps k)"
  by (induction ps arbitrary: k) auto

lemma own_host: "io_fits c \<Longrightarrow> unat a < 2 ^ 16 \<Longrightarrow> own_op c t {} R (Store32 (bsg_remote_ptr_io c (IO_X_INDEX c) a) v)"
  using eva_io unfolding own_op_def host_store_def by blast

lemma own_credit_work:
  assumes "credit_layout c d" and "in_group c t"
  shows "own_proc c t {} (credit_region c d t) (credit_multi_work c t (credit_multi_ptr c t (dram d)) v)"
proof -
  have io: "io_fits c" using assms(1) by (simp add: credit_layout_def)
  note l = credit_ids [OF assms]
  have own: "own_op c t {} (credit_region c d t) op"
    if "i < 32" "op_addr op = Some (dram (d + 128 * id_of c t) + 4 * of_nat i)" for op i
    using credit_ptr [OF l(1) that(1)] that unfolding own_op_def credit_region_def by auto
  show ?thesis
    unfolding credit_multi_work_def credit_burst_def credit_verify_def credit_N_def l(2)
    by (intro own_bind own_for_each own_load_list)
      (auto simp: bsg_fail_def bsg_print_time_def bsg_fence_def own_op_def [of c t _ _ Fence] spin_forever_def intro!: own_host [OF io] intro: own)
qed

lemma credit_isolated:
  assumes "credit_layout c d"
  shows "isolated c {} (credit_region c d) (\<lambda>t. credit_multi_work c t (credit_multi_ptr c t (dram d)) (v t))"
  unfolding isolated_def
proof (intro conjI allI impI)
  fix t
  assume t: "in_group c t"
  then show "own_proc c t {} (credit_region c d t) (credit_multi_work c t (credit_multi_ptr c t (dram d)) (v t))"
    by (rule own_credit_work [OF assms])
  show "credit_region c d t \<inter> host_row c = {}" by (auto simp: credit_region_def host_row_def span4_def off_io_def)
  fix u
  assume u: "in_group c u" "t \<noteq> u"
  have "span4 (Dram (of_nat (d + 128 * id_of c t + 4 * i))) \<inter> span4 (Dram (of_nat (d + 128 * id_of c u + 4 * j))) = {}"
    if "i < 32" "j < 32" for i j
  proof -
    have "id_of c t < id_of c u \<or> id_of c u < id_of c t" using credit_ids(3) [OF assms t u] by linarith
    then have "sep4 (of_nat (d + 128 * id_of c t + 4 * i)) (of_nat (d + 128 * id_of c u + 4 * j))"
      using credit_ids(1) [OF assms t] credit_ids(1) [OF assms u(1)] that by (intro sep4_of_nat) auto
    then show ?thesis by (auto simp: span4_def sep4_def)
  qed
  then show "credit_region c d t \<inter> credit_region c d u = {}" unfolding credit_region_def by blast
qed simp_all

lemma credit_work_run:
  assumes "credit_layout c d" and "in_group c t"
  shows "\<exists>m'. runs c t (credit_multi_work c t (credit_multi_ptr c t (dram d)) v, m) (Ret 0, m')
    \<and> (\<forall>i < 32. rd m' (Dram (of_nat (d + 128 * id_of c t + 4 * i))) = v)"
proof -
  note l = credit_ids [OF assms]
  let ?d = "d + 128 * id_of c t"
  define m1 where "m1 = put_words c t (\<lambda>i. dram ?d + 4 * of_nat i) (\<lambda>_. v) [0..<32] m"
  have io: "io_fits c" using assms(1) by (simp add: credit_layout_def)
  let ?print = "if bsg_x_y_to_id c (fst t) (snd t) = 0 then bsg_print_time c t else Ret 0"
  have 1: "runs c t (credit_multi_work c t (credit_multi_ptr c t (dram d)) v, m) (seq ?print bsg_fence, m1)"
    unfolding credit_multi_work_def l(2) m1_def by (rule credit_verified_run(1) [OF l(1)])
  have w: "rd m1 (Dram (of_nat (?d + 4 * i))) = v" if "i < 32" for i
    unfolding m1_def by (rule credit_verified_run(2) [OF l(1) that])
  define m2 where "m2 = (if bsg_x_y_to_id c (fst t) (snd t) = 0
    then put32 c (Endpoint (IO_X_INDEX c) (IO_Y_INDEX c) 0xEAD4) (tile_word t) m1 else m1)"
  have "runs c t (seq ?print bsg_fence, m1) (bsg_fence, m2)"
  proof (cases "bsg_x_y_to_id c (fst t) (snd t) = 0")
    case True
    have "runs c t (Act (Store32 (bsg_remote_ptr_io c (IO_X_INDEX c) 0xEAD4) (tile_word t)) (\<lambda>_. bsg_fence), m1) (bsg_fence, m2)"
      by (rule runs_Act) (simp add: m2_def True eva_io [OF io])
    then show ?thesis using True by (simp add: bsg_print_time_def)
  qed (simp add: m2_def)
  moreover have "runs c t (bsg_fence, m2) (Ret 0, m2)" unfolding bsg_fence_def by (rule runs_Act) simp
  moreover have "rd m2 (Dram a) = rd m1 (Dram a)" for a by (simp add: m2_def off_io_def)
  ultimately show ?thesis using runs_trans [OF 1] runs_trans w by (intro exI [of _ m2]) blast
qed

text \<open>C36: When all tiles do a round of the second test at once, each with a value of its own, then in every
  interleaving none of them finds a wrong word, all can end the round, and then the words of each tile hold its value.\<close>

theorem credit_multi_round:
  assumes "credit_layout c d"
    and "reachable c (\<lambda>t. credit_multi_work c t (credit_multi_ptr c t (dram d)) (v t), m) s"
  shows "(\<exists>s'. reachable c s s' \<and> finished c s') \<and>
    (finished c s \<longrightarrow> (\<forall>t. in_group c t \<longrightarrow> (\<forall>i < 32. rd (snd s) (Dram (of_nat (d + 128 * id_of c t + 4 * i))) = v t)))"
proof (intro conjI impI allI)
  let ?p = "\<lambda>t. credit_multi_work c t (credit_multi_ptr c t (dram d)) (v t)"
  note I = credit_isolated [OF assms(1), of v]
  have "\<forall>t. \<exists>m'. in_group c t \<longrightarrow> runs c t (?p t, m) (Ret 0, m')
      \<and> (\<forall>i < 32. rd m' (Dram (of_nat (d + 128 * id_of c t + 4 * i))) = v t)"
    using credit_work_run [OF assms(1)] by blast
  from choice [OF this] obtain mt where mt: "\<And>t. in_group c t \<Longrightarrow> runs c t (?p t, m) (Ret 0, mt t)"
      "\<And>t i. in_group c t \<Longrightarrow> i < 32 \<Longrightarrow> rd (mt t) (Dram (of_nat (d + 128 * id_of c t + 4 * i))) = v t"
    by blast
  show "\<exists>s'. reachable c s s' \<and> finished c s'" by (rule isolated_can_finish [OF I mt(1) assms(2)])
  fix t i
  assume "finished c s" and t: "in_group c t" and i: "i < (32 :: nat)"
  then have "same_on (credit_region c d t) (snd s) (mt t)" using isolated_result [OF I mt(1) [OF t] assms(2)] by blast
  moreover have "span4 (Dram (of_nat (d + 128 * id_of c t + 4 * i))) \<subseteq> credit_region c d t"
    using i unfolding credit_region_def by blast
  ultimately show "rd (snd s) (Dram (of_nat (d + 128 * id_of c t + 4 * i))) = v t"
    using load_same(1) mt(2) [OF t i] unfolding rd_def by metis
qed

lemma credit_multi_round_witness:
  "\<exists>s. reachable small_cfg (\<lambda>t. credit_multi_work small_cfg t (credit_multi_ptr small_cfg t (dram 64)) (fst t + 5), zero_machine) s
    \<and> finished small_cfg s \<and> (\<forall>t. in_group small_cfg t \<longrightarrow>
      (\<forall>i < 32. rd (snd s) (Dram (of_nat (64 + 128 * id_of small_cfg t + 4 * i))) = fst t + 5))"
proof -
  let ?ps = "\<lambda>t. credit_multi_work small_cfg t (credit_multi_ptr small_cfg t (dram 64)) (fst t + 5)"
  have L: "credit_layout small_cfg 64"
    by (simp add: credit_layout_def io_fits_def small_cfg_def group_fits_def)
  note r = credit_multi_round [OF L, of "\<lambda>t. fst t + 5" zero_machine]
  obtain s where s: "reachable small_cfg (?ps, zero_machine) s" "finished small_cfg s"
    using r [OF reach_start] by blast
  then show ?thesis using conjunct2 [OF r [OF s(1)]] by blast
qed

end
