(* ===== verification/Memory_Tests.thy ===== *)
theory Memory_Tests
  imports Credit_Test
begin

text \<open>
  Programs that test the memory of one tile's pod: \<open>spmd/deprecated/memtest1\<close>, \<open>spmd/memtest9\<close>,
  \<open>spmd/memtest_fast\<close>, \<open>spmd/memtest2020\<close> and \<open>spmd/simple_memory_test\<close>. They store to addresses that fall
  into the same set of a cache, read the words back and compare. On a memory that keeps what is stored they report success,
  because the addresses of each are distinct words. \<open>memtest_fast\<close> does not call the start-up routine; there \<open>t\<close>
  stands for whatever the coordinate variables hold.
\<close>

section \<open>The code\<close>

text \<open>\<open>memtest1\<close>\<close>

definition memtest1_word :: "cfg \<Rightarrow> tile \<Rightarrow> nat \<Rightarrow> nat \<Rightarrow> proc" where
  "memtest1_word c t b i =
     (let addr = push_bit 2 (of_nat b) + push_bit 5 (of_nat i) in
      seq (bsg_dram_store addr addr)
        (bind (bsg_dram_load addr) (\<lambda>load_val. if load_val \<noteq> addr then bsg_fail c t else Ret 0)))"

definition memtest1_main :: "cfg \<Rightarrow> tile \<Rightarrow> proc" where
  "memtest1_main c t =
     seq (if fst t = 0 \<and> snd t = 0 then
            seq (for_each [0..<8] (\<lambda>b. for_each [0..<1024] (memtest1_word c t b))) (bsg_finish c t)
          else Ret 0) spin_forever"

text \<open>\<open>memtest9\<close>; the array \<open>dram_addr\<close> is local to the tile.\<close>

definition gen_dram_addr :: "u32 \<Rightarrow> u32 \<Rightarrow> u32 list" where
  "gen_dram_addr tag bank =
     map (\<lambda>b. push_bit 30 3 + push_bit 17 tag + push_bit 5 bank + push_bit 2 (of_nat b)) [0..<8]"

definition write_block :: "u32 \<Rightarrow> u32 \<Rightarrow> proc" where
  "write_block tag bank = for_each (gen_dram_addr tag bank) (\<lambda>a. bsg_dram_store a a)"

definition read_block :: "cfg \<Rightarrow> tile \<Rightarrow> u32 \<Rightarrow> u32 \<Rightarrow> proc" where
  "read_block c t tag bank = for_each (gen_dram_addr tag bank) (\<lambda>a.
     bind (bsg_dram_load a) (\<lambda>load_val. if load_val \<noteq> a then bsg_fail c t else Ret 0))"

definition memtest9_tags :: "cfg \<Rightarrow> tile \<Rightarrow> u32 \<Rightarrow> u32 \<Rightarrow> u32 \<Rightarrow> u32 \<Rightarrow> proc" where
  "memtest9_tags c t i a b d =
     seq (write_block a i) (seq (write_block b i) (seq (write_block d i)
       (seq (read_block c t a i) (seq (read_block c t b i) (read_block c t d i)))))"

definition memtest9_main :: "cfg \<Rightarrow> tile \<Rightarrow> proc" where
  "memtest9_main c t =
     seq (if fst t = 0 \<and> snd t = 0 then
       seq (bsg_print_stat c 0)
       (seq (for_each [0..<8] (\<lambda>i. if i mod 2 = 0 then memtest9_tags c t (of_nat i) 1 3 7 else memtest9_tags c t (of_nat i) 0 2 6))
       (seq (write_block 0 0) (seq (write_block 1 1) (seq (write_block 2 0) (seq (write_block 3 1)
       (seq (read_block c t 0 0) (seq (read_block c t 1 1) (seq (read_block c t 2 0) (seq (read_block c t 3 1)
       (seq (bsg_print_stat c 0xdead) (bsg_finish c t)))))))))))
     else Ret 0) spin_forever"

text \<open>\<open>memtest_fast\<close>: five words of each set, at the stride of the sets.\<close>

definition cache_ids :: "nat list" where
  "cache_ids = [0, 1, 14, 15, 16, 17, 30, 31]"

definition STRIDE :: nat where
  "STRIDE = 32 * 8 * 64"

definition fast_addrs :: "nat \<Rightarrow> nat list" where
  "fast_addrs cache_id = map (\<lambda>k. cache_id * 8 + k * STRIDE) [0..<5]"

definition fast_store :: "cfg \<Rightarrow> u32 \<Rightarrow> nat \<Rightarrow> proc" where
  "fast_store c dram_ptr x =
     seq (for_each (fast_addrs (cache_ids ! x)) (\<lambda>addr. Act (Store32 (dram_ptr + 4 * of_nat addr) (of_nat addr)) Ret))
       (bsg_print_int c (of_nat x))"

definition fast_load :: "cfg \<Rightarrow> tile \<Rightarrow> u32 \<Rightarrow> nat \<Rightarrow> proc" where
  "fast_load c t dram_ptr x =
     seq (load_list (map (\<lambda>addr. dram_ptr + 4 * of_nat addr) (fast_addrs (cache_ids ! x))) (\<lambda>load_data.
         for_each (zip load_data (fast_addrs (cache_ids ! x))) (\<lambda>(l, a). if l \<noteq> of_nat a then bsg_fail c t else Ret 0)))
       (bsg_print_int c (of_nat (8 + x)))"

definition memtest_fast_main :: "cfg \<Rightarrow> tile \<Rightarrow> u32 \<Rightarrow> proc" where
  "memtest_fast_main c t data =
     seq (for_each [0..<8] (fast_store c data))
       (seq (for_each [0..<8] (fast_load c t data)) (seq (bsg_finish c t) spin_forever))"

text \<open>\<open>memtest2020\<close>\<close>

definition get_stride :: "nat \<Rightarrow> u32" where
  "get_stride n = fold (\<lambda>_ stride. stride * 2) [0..<n] 1 - 1"

definition stride_round :: "cfg \<Rightarrow> tile \<Rightarrow> u32 \<Rightarrow> nat \<Rightarrow> proc" where
  "stride_round c t dram_ptr n =
     (let addr = (\<lambda>i. dram_ptr + 4 * (of_nat i * get_stride n)) in
      seq (for_each [0..<256] (\<lambda>i. Act (Store32 (addr i) (of_nat i)) Ret))
        (load_list (map addr [0..<256]) (\<lambda>load_val.
          for_each (zip load_val [0..<256]) (\<lambda>(l, i). if l \<noteq> of_nat i then bsg_fail c t else Ret 0))))"

definition memtest2020_main :: "cfg \<Rightarrow> tile \<Rightarrow> u32 \<Rightarrow> proc" where
  "memtest2020_main c t data =
     seq (for_each [0..<2] (\<lambda>k. for_each [1..<21] (stride_round c t data))) (seq (bsg_finish c t) spin_forever)"

text \<open>\<open>simple_memory_test\<close>\<close>

definition simple_main :: "cfg \<Rightarrow> tile \<Rightarrow> u32 \<Rightarrow> proc" where
  "simple_main c t data =
     seq (if bsg_x_y_to_id c (fst t) (snd t) = 0 then
         seq (for_each [0..<1024] (\<lambda>i. Act (Store32 (data + 4 * of_nat i) (of_nat i)) Ret))
           (bind (for_fold [0..<1024] (\<lambda>i s. Act (Load32 (data + 4 * of_nat i)) (\<lambda>v. Ret (s + v))) 0)
             (\<lambda>s. if s = 523776 then bsg_finish c t else bsg_fail c t))
       else Ret 0) spin_forever"

section \<open>Families of words\<close>

text \<open>The words of \<open>S\<close> hold what the family says; stores of other words of a family that is apart keep them.\<close>

definition holds :: "cfg \<Rightarrow> tile \<Rightarrow> ('a \<Rightarrow> u32) \<Rightarrow> ('a \<Rightarrow> u32) \<Rightarrow> 'a set \<Rightarrow> machine \<Rightarrow> bool" where
  "holds c t p v S m \<longleftrightarrow> (\<forall>x \<in> S. rd m (eva_to_npa c t (p x)) = v x)"

lemma holds_none: "holds c t p v {} m"
  by (simp add: holds_def)

lemma holds_store:
  assumes "words_apart c t p U" and "S \<subseteq> U" and "x \<in> U" and "holds c t p v S m"
  shows "holds c t p v (insert x S) (put32 c (eva_to_npa c t (p x)) (v x) m)"
  unfolding holds_def
proof
  fix y
  assume y: "y \<in> insert x S"
  show "rd (put32 c (eva_to_npa c t (p x)) (v x) m) (eva_to_npa c t (p y)) = v y"
    using rd_put_cell [of "\<lambda>x. eva_to_npa c t (p x)" U x y] assms y by (auto simp: words_apart_def holds_def)
qed

lemma holds_put_words:
  assumes "words_apart c t p U" and "S \<subseteq> U" and "set xs \<subseteq> U" and "holds c t p v S m"
  shows "holds c t p v (S \<union> set xs) (put_words c t p v xs m)"
  using assms(2-4)
proof (induction xs arbitrary: S m)
  case (Cons x xs)
  then show ?case
    using Cons.IH [of "insert x S" "put32 c (eva_to_npa c t (p x)) (v x) m"] holds_store [OF assms(1), of S x v m]
    by (simp add: put_words_def)
qed (simp add: put_words_def)

lemma store_family_run:
  assumes "words_apart c t p U" and "S \<subseteq> U" and "set xs \<subseteq> U" and "holds c t p v S m"
  shows "\<exists>m'. runs c t (seq (for_each xs (\<lambda>x. Act (Store32 (p x) (v x)) Ret)) q, m) (q, m') \<and> holds c t p v (S \<union> set xs) m'"
  using store_words_run holds_put_words [OF assms] by blast

lemma check_family_run:
  assumes "holds c t p v S m" and "set xs \<subseteq> S"
  shows "runs c t (seq (load_list (map p xs) (\<lambda>ls. for_each (zip ls xs) (\<lambda>(l, x). if l \<noteq> v x then bsg_fail c t else Ret 0))) q, m) (q, m)"
proof -
  let ?f = "\<lambda>(l, x). if l \<noteq> v x then bsg_fail c t else Ret 0"
  have e: "map (\<lambda>p. rd m (eva_to_npa c t p)) (map p xs) = map v xs" using assms by (auto simp: holds_def)
  have z: "zip (map v xs) xs = map (\<lambda>x. (v x, x)) xs" by (induction xs) auto
  show ?thesis
    using load_list_run [of c t "map p xs" "\<lambda>ls. seq (for_each (zip ls xs) ?f) q" m, unfolded e z for_each_map]
    by (simp add: bind_load_list for_each_skip)
qed

lemma sum_words_run:
  "runs c t (bind (for_fold xs (\<lambda>i s. Act (Load32 (p i)) (\<lambda>v. Ret (s + v))) s) f, m)
    (f (s + sum_list (map (\<lambda>i. rd m (eva_to_npa c t (p i))) xs)), m)"
proof (induction xs arbitrary: s)
  case (Cons x xs)
  show ?case unfolding for_fold.simps bind_assoc bind.simps
    by (rule runs_Act) (use Cons [of "s + rd m (eva_to_npa c t (p x))"] in \<open>simp add: rd_def add.assoc\<close>)
qed simp

text \<open>A report on the way does not touch DRAM.\<close>

lemma holds_put_host:
  assumes "holds c t p v S m" and "\<And>x. x \<in> S \<Longrightarrow> off_io c (eva_to_npa c t (p x))"
  shows "holds c t p v S (put32 c (Endpoint x (IO_Y_INDEX c) a) w m)"
  using assms by (simp add: holds_def)

section \<open>Words in DRAM\<close>

lemma eva_dram_word: "eva_to_npa c t (bsg_dram_ptr a) = Dram (take_bit 31 a)"
proof -
  have "take_bit 31 (push_bit 31 1 OR a) = take_bit 31 a"
    by (subst take_bit_or) (rule bit_word_eqI, auto simp: bit_simps)
  moreover have "bit (push_bit 31 1 OR a) 31" by (simp add: bit_simps)
  ultimately show ?thesis by (simp add: eva_to_npa_def bsg_dram_ptr_def arch_simps)
qed

lemma dram_index:
  assumes "d + unat w + 4 \<le> 2 ^ 31"
  shows "dram d + w = dram (d + unat w)" and "eva_to_npa c t (dram (d + unat w)) = Dram (of_nat (d + unat w))"
proof -
  have "unat (of_nat d :: u32) = d" using assms by (simp add: unat_of_nat_lt)
  then show "dram d + w = dram (d + unat w)" using assms dram_ptr_plus [of "of_nat d" w] by simp
  show "eva_to_npa c t (dram (d + unat w)) = Dram (of_nat (d + unat w))"
    using assms unat_of_nat_lt [of "d + unat w"] by (intro eva_dram) (simp del: of_nat_add)
qed

lemma array_index:
  assumes "d + 4 * n \<le> 2 ^ 31" and "i < n"
  shows "dram d + 4 * of_nat i = dram (d + 4 * i)"
proof -
  have "unat (4 * of_nat i :: u32) = 4 * i" using assms unat_of_nat_lt [of "4 * i"] by simp
  then show ?thesis using dram_index(1) [of d "4 * of_nat i"] assms by simp
qed

lemma array_apart:
  assumes "d + 4 * n \<le> 2 ^ 31"
  shows "words_apart c t (\<lambda>i. dram d + 4 * of_nat i) {..<n}"
proof (intro dram_words_apart [where a = "\<lambda>i. d + 4 * i"] conjI)
  show "d + 4 * i + 4 \<le> 2 ^ 31" if "i \<in> {..<n}" for i using assms that by simp
  show "dram d + 4 * of_nat i = dram (d + 4 * i)" if "i \<in> {..<n}" for i using array_index [OF assms] that by simp
qed auto

section \<open>The programs report success\<close>

lemma memtest1_passes:
  assumes "io_fits c"
  shows "passes c (0, 0) (memtest1_main c (0, 0)) m"
proof -
  have w: "\<exists>m'. runs c t (seq (memtest1_word c t b i) q, m) (q, m') \<and> True" for t b i q m
    unfolding memtest1_word_def bsg_dram_store_def bsg_dram_load_def Let_def bind.simps
    by (intro exI conjI, rule runs_Act, rule runs_Act) (auto simp: rd_def [symmetric] intro: runs_refl)
  have "\<exists>m'. runs c t (seq (for_each [0..<8] (\<lambda>b. for_each [0..<1024] (memtest1_word c t b))) q, m) (q, m') \<and> True" for t q m
    by (rule runs_for_each) (auto intro: runs_for_each [where P = "\<lambda>_. True", OF w, simplified])
  then show ?thesis
    using passes_runs [OF _ passes_finish [OF assms]] unfolding memtest1_main_def by (simp del: upt_Suc) blast
qed

lemma simple_passes:
  assumes "io_fits c" and "d + 4096 \<le> 2 ^ 31"
  shows "passes c (0, 0) (simple_main c (0, 0) (dram d)) m"
proof -
  have d: "d + 4 * 1024 \<le> 2 ^ 31" using assms(2) by simp
  let ?p = "\<lambda>i. dram d + 4 * of_nat i :: u32" and ?t = "(0, 0) :: tile"
  obtain m1 where m1: "\<And>q. runs c ?t (seq (for_each [0..<1024] (\<lambda>i. Act (Store32 (?p i) (of_nat i)) Ret)) q, m) (q, m1)"
    and h: "holds c ?t ?p of_nat {..<1024} m1"
    using store_words_run [of c ?t "[0..<1024]" ?p of_nat] holds_put_words [OF array_apart [OF d], of "{}" "[0..<1024]" c ?t of_nat m]
    by (auto simp: holds_def atLeast0LessThan)
  have "map (\<lambda>i. rd m1 (eva_to_npa c ?t (?p i))) [0..<1024] = map of_nat [0..<1024]"
    using h by (auto simp: holds_def)
  moreover have "sum_list (map of_nat [0..<1024]) = (523776 :: u32)"
  proof -
    have "sum_list [0..<n] * 2 = n * (n - 1)" for n by (induction n) (auto simp: algebra_simps diff_mult_distrib)
    from this [of 1024] have "sum_list [0..<1024] = 523776" by simp
    moreover have "sum_list (map of_nat xs) = (of_nat (sum_list xs) :: u32)" for xs by (induction xs) auto
    ultimately show ?thesis by (metis of_nat_numeral)
  qed
  ultimately have e: "sum_list (map (\<lambda>i. rd m1 (eva_to_npa c ?t (?p i))) [0..<1024]) = 523776" by (simp only:)
  have "runs c ?t (seq (for_each [0..<1024] (\<lambda>i. Act (Store32 (?p i) (of_nat i)) Ret))
      (bind (for_fold [0..<1024] (\<lambda>i s. Act (Load32 (?p i)) (\<lambda>v. Ret (s + v))) 0) k), m) (k 523776, m1)" for k
    using runs_trans [OF m1 sum_words_run [of c ?t "[0..<1024]" ?p 0]] unfolding e by simp
  from passes_runs [OF this] show ?thesis
    unfolding simple_main_def using passes_finish [OF assms(1)] by (simp add: bsg_x_y_to_id_def)
qed

text \<open>\<open>memtest9\<close>: the addresses are words with the top bit set.\<close>

abbreviation dram_words :: "u32 set" where
  "dram_words \<equiv> {a. 2 ^ 31 \<le> unat a \<and> unat a mod 4 = 0}"

lemma aligned_apart: "(k :: nat) mod 4 = 0 \<Longrightarrow> n mod 4 = 0 \<Longrightarrow> k \<noteq> n \<Longrightarrow> k + 4 \<le> n \<or> n + 4 \<le> k"
  by presburger

lemma dram_words_apart9: "words_apart c t bsg_dram_ptr dram_words"
  unfolding words_apart_def disjoint_cells_def
proof (intro ballI impI)
  fix x y
  assume xy: "x \<in> dram_words" "y \<in> dram_words" "x \<noteq> y"
  have u: "unat (take_bit 31 w) + 2 ^ 31 = unat w" if "w \<in> dram_words" for w :: u32
    using that unat_lt32 [of w] by (simp add: unsigned_take_bit_eq take_bit_eq_mod unat_mod le_mod_geq)
  have "unat x \<noteq> unat y" using xy(3) word_unat_eq_iff by blast
  then have "unat (take_bit 31 x) + 4 \<le> unat (take_bit 31 y) \<or> unat (take_bit 31 y) + 4 \<le> unat (take_bit 31 x)"
    using u [OF xy(1)] u [OF xy(2)] xy(1,2) aligned_apart [of "unat x" "unat y"] unfolding mem_Collect_eq by linarith
  then have "sep4 (take_bit 31 x) (take_bit 31 y)"
    using u [OF xy(1)] u [OF xy(2)] unat_lt32 [of x] unat_lt32 [of y] by (intro sep4_far) simp_all
  then show "span4 (eva_to_npa c t (bsg_dram_ptr x)) \<inter> span4 (eva_to_npa c t (bsg_dram_ptr y)) = {}"
    unfolding eva_dram_word by (auto simp: span4_def sep4_def)
qed

lemma gen_dram_addr_words:
  assumes "tg < 8" and "bk < 8"
  shows "set (gen_dram_addr (of_nat tg) (of_nat bk)) \<subseteq> dram_words"
proof
  fix a
  assume "a \<in> set (gen_dram_addr (of_nat tg) (of_nat bk))"
  then obtain b where b: "b < 8" "a = push_bit 30 3 + push_bit 17 (of_nat tg) + push_bit 5 (of_nat bk) + push_bit 2 (of_nat b)"
    by (auto simp: gen_dram_addr_def)
  have "a = of_nat (3221225472 + 131072 * tg + 32 * bk + 4 * b)" using b(2) by (simp add: push_bit_eq_mult algebra_simps)
  moreover have "unat (of_nat (3221225472 + 131072 * tg + 32 * bk + 4 * b) :: u32) = 3221225472 + 131072 * tg + 32 * bk + 4 * b"
    using assms b(1) by (intro unat_of_nat_lt) simp
  ultimately show "a \<in> dram_words" by (simp add: mod_add_eq)
qed

lemma gen_dram_addr_subset:
  assumes "unat tag < 8" and "unat bank < 8"
  shows "set (gen_dram_addr tag bank) \<subseteq> dram_words"
  using gen_dram_addr_words [OF assms] by simp

definition blocks_ok :: "(u32 \<times> u32) list \<Rightarrow> bool" where
  "blocks_ok bs \<longleftrightarrow> (\<forall>(tag, bank) \<in> set bs. unat tag < 8 \<and> unat bank < 8)"

lemma write_blocks_run:
  assumes "blocks_ok bs" and "S \<subseteq> dram_words" and "holds c t bsg_dram_ptr (\<lambda>a. a) S m"
  shows "\<exists>m'. runs c t (seq (for_each bs (\<lambda>(tag, bank). write_block tag bank)) q, m) (q, m')
    \<and> holds c t bsg_dram_ptr (\<lambda>a. a) (S \<union> (\<Union>(tag, bank) \<in> set bs. set (gen_dram_addr tag bank))) m'"
  using assms
proof (induction bs arbitrary: S m)
  case (Cons b bs)
  obtain tag bank where b: "b = (tag, bank)" by fastforce
  then have g: "set (gen_dram_addr tag bank) \<subseteq> dram_words"
    using Cons.prems(1) by (intro gen_dram_addr_subset) (auto simp: blocks_ok_def)
  let ?rest = "seq (for_each bs (\<lambda>(tag, bank). write_block tag bank)) q" and ?S = "S \<union> set (gen_dram_addr tag bank)"
  obtain m1 where m1: "runs c t (seq (write_block tag bank) ?rest, m) (?rest, m1)" "holds c t bsg_dram_ptr (\<lambda>a. a) ?S m1"
    using store_family_run [OF dram_words_apart9 Cons.prems(2) g Cons.prems(3)] unfolding write_block_def bsg_dram_store_def by blast
  moreover have "blocks_ok bs" "?S \<subseteq> dram_words" using Cons.prems g by (auto simp: blocks_ok_def)
  ultimately obtain m2 where "runs c t (?rest, m1) (q, m2)"
      "holds c t bsg_dram_ptr (\<lambda>a. a) (?S \<union> (\<Union>(tag, bank) \<in> set bs. set (gen_dram_addr tag bank))) m2"
    using Cons.IH [of ?S m1] by blast
  then show ?case using runs_trans [OF m1(1)] by (intro exI [of _ m2]) (simp add: b Un_assoc)
qed (auto intro: runs_refl)

lemma read_block_run:
  assumes "holds c t bsg_dram_ptr (\<lambda>a. a) S m" and "set (gen_dram_addr tag bank) \<subseteq> S"
  shows "runs c t (seq (read_block c t tag bank) q, m) (q, m)"
  using check_words_run [of "gen_dram_addr tag bank" m c t bsg_dram_ptr "\<lambda>a. a" q] assms
  by (auto simp: read_block_def bsg_dram_load_def check_word_def holds_def)

text \<open>Blocks that are written and then read back.\<close>

lemma blocks_run:
  assumes "blocks_ok bs"
  shows "\<exists>m'. runs c t (seq (for_each bs (\<lambda>(tag, bank). write_block tag bank))
    (seq (for_each bs (\<lambda>(tag, bank). read_block c t tag bank)) q), m) (q, m')"
proof -
  let ?S = "\<Union>(tag, bank) \<in> set bs. set (gen_dram_addr tag bank)"
  let ?r = "for_each bs (\<lambda>(tag, bank). read_block c t tag bank)"
  obtain m1 where m1: "runs c t (seq (for_each bs (\<lambda>(tag, bank). write_block tag bank)) (seq ?r q), m) (seq ?r q, m1)"
      "holds c t bsg_dram_ptr (\<lambda>a. a) ?S m1"
    using write_blocks_run [OF assms empty_subsetI, of c t m "seq ?r q"] holds_none unfolding Un_empty_left by blast
  have "set (gen_dram_addr tag bank) \<subseteq> ?S" if "(tag, bank) \<in> set bs" for tag bank using that by blast
  then have r: "runs c t (seq (read_block c t tag bank) q, m1) (q, m1)" if "(tag, bank) \<in> set bs" for tag bank q
    using read_block_run [OF m1(2)] that by blast
  have "\<exists>m'. runs c t (seq ?r q, m1) (q, m') \<and> m' = m1"
    by (rule runs_for_each) (use r in \<open>auto simp: split_paired_all\<close>)
  then have "runs c t (seq ?r q, m1) (q, m1)" by simp
  then show ?thesis by (intro exI) (rule runs_trans [OF m1(1)])
qed

lemma memtest9_tags_run:
  assumes "blocks_ok [(a, i), (b, i), (d, i)]"
  shows "\<exists>m'. runs c t (seq (memtest9_tags c t i a b d) q, m) (q, m')"
  using blocks_run [OF assms, of c t q m] by (simp add: memtest9_tags_def)

lemma print_run: "\<exists>m'. runs c t (Act (Store32 p v) (\<lambda>_. q), m) (q, m')"
  by (intro exI) (rule runs_Act, simp, rule runs_refl)

lemma memtest9_passes:
  assumes "io_fits c"
  shows "passes c (0, 0) (memtest9_main c (0, 0)) m"
proof -
  let ?t = "(0, 0) :: tile"
  have banks: "\<exists>m'. runs c ?t (seq (for_each [0..<8] (\<lambda>i. if i mod 2 = 0 then memtest9_tags c ?t (of_nat i) 1 3 7
      else memtest9_tags c ?t (of_nat i) 0 2 6)) q, m) (q, m') \<and> True" for q m
    by (rule runs_for_each) (auto intro!: memtest9_tags_run simp: blocks_ok_def unat_of_nat_lt)
  have last: "\<exists>m'. runs c ?t (seq (write_block 0 0) (seq (write_block 1 1) (seq (write_block 2 0) (seq (write_block 3 1)
       (seq (read_block c ?t 0 0) (seq (read_block c ?t 1 1) (seq (read_block c ?t 2 0) (seq (read_block c ?t 3 1) q))))))), m) (q, m')" for q m
    using blocks_run [of "[(0, 0), (1, 1), (2, 0), (3, 1)]" c ?t q m] by (simp add: blocks_ok_def)
  have p: "\<exists>m'. runs c t (seq (bsg_print_stat c v) q, m) (q, m')" for t v q m
    using print_run by (simp add: bsg_print_stat_def)
  obtain m' where "runs c ?t (memtest9_main c ?t, m) (seq (bsg_finish c ?t) spin_forever, m')"
    unfolding memtest9_main_def fst_conv snd_conv simp_thms if_True bind_assoc
    using p banks last runs_trans by meson
  then show ?thesis using passes_runs passes_finish [OF assms] by blast
qed

text \<open>\<open>memtest_fast\<close>: the forty words are apart, since the array index determines the address.\<close>

lemma fast_addrs_bound:
  assumes "x < 8"
  shows "set (fast_addrs (cache_ids ! x)) \<subseteq> {..<65785}"
proof -
  have "\<forall>id \<in> set cache_ids. id \<le> 31" by (simp add: cache_ids_def)
  moreover have "cache_ids ! x \<in> set cache_ids" using assms by (intro nth_mem) (simp add: cache_ids_def)
  ultimately have "cache_ids ! x \<le> 31" by blast
  then show ?thesis by (auto simp: fast_addrs_def STRIDE_def)
qed

lemma memtest_fast_passes:
  assumes "io_fits c" and "d + 263140 \<le> 2 ^ 31"
  shows "passes c t (memtest_fast_main c t (dram d)) m"
proof -
  have d: "d + 4 * 65785 \<le> 2 ^ 31" using assms(2) by simp
  let ?p = "\<lambda>i. dram d + 4 * of_nat i :: u32" and ?A = "\<lambda>x. set (fast_addrs (cache_ids ! x))"
  let ?h = "\<lambda>S. holds c t ?p of_nat S"
  have off: "off_io c (eva_to_npa c t (?p i))" if "i \<in> {..<65785}" for i
    using array_index [OF d, of i] that dram_index(2) [of d "4 * of_nat i"] d by (simp add: eva_dram_word off_io_def)
  have print: "\<exists>m'. runs c t (seq (bsg_print_int c v) q, m) (q, m') \<and> (\<forall>S \<subseteq> {..<65785}. ?h S m \<longrightarrow> ?h S m')" for v q m
    unfolding bsg_print_int_def bind.simps
    by (intro exI conjI, rule runs_Act, rule runs_refl)
      (auto simp: eva_io [OF assms(1)] subset_iff intro!: holds_put_host off)
  have store: "\<exists>m'. runs c t (seq (fast_store c (dram d) x) q, m) (q, m') \<and> ?h (S \<union> ?A x) m'"
    if x: "x < 8" and S: "S \<subseteq> {..<65785}" and h: "?h S m" for x S q m
  proof -
    note b = fast_addrs_bound [OF x]
    obtain m1 where m1: "runs c t (seq (fast_store c (dram d) x) q, m) (seq (bsg_print_int c (of_nat x)) q, m1)" "?h (S \<union> ?A x) m1"
      using store_family_run [OF array_apart [OF d] S b h] unfolding fast_store_def bind_assoc by blast
    then show ?thesis using print [of "of_nat x" q m1] b S runs_trans [OF m1(1)] by (meson Un_subset_iff)
  qed
  have stores: "\<exists>m'. runs c t (seq (for_each [0..<n] (fast_store c (dram d))) q, m) (q, m') \<and> ?h (\<Union>x<n. ?A x) m'"
    if "n \<le> 8" for n q m
    using that
  proof (induction n arbitrary: q)
    case 0
    show ?case by (auto simp: holds_def intro: runs_refl)
  next
    case (Suc n)
    obtain m1 where m1: "runs c t (seq (for_each [0..<n] (fast_store c (dram d))) (seq (fast_store c (dram d) n) q), m) (seq (fast_store c (dram d) n) q, m1)"
        "?h (\<Union>x<n. ?A x) m1"
      using Suc by (meson Suc_leD)
    have "(\<Union>x<n. ?A x) \<subseteq> {..<65785}" using Suc.prems by (intro UN_least fast_addrs_bound) simp
    then obtain m2 where m2: "runs c t (seq (fast_store c (dram d) n) q, m1) (q, m2)" "?h ((\<Union>x<n. ?A x) \<union> ?A n) m2"
      using store [of n _ m1 q] m1(2) Suc.prems by (meson Suc_le_lessD)
    have "runs c t (seq (for_each [0..<Suc n] (fast_store c (dram d))) q, m) (q, m2)"
      using runs_trans [OF m1(1) m2(1)] by (simp add: for_each_append)
    moreover have "(\<Union>x<n. ?A x) \<union> ?A n = (\<Union>x<Suc n. ?A x)" by (auto simp: lessThan_Suc)
    ultimately show ?case using m2(2) by metis
  qed
  let ?all = "\<Union>x<8. ?A x"
  have all: "?all \<subseteq> {..<65785}" by (intro UN_least fast_addrs_bound) simp
  obtain m1 where m1: "runs c t (memtest_fast_main c t (dram d), m)
      (seq (for_each [0..<8] (fast_load c t (dram d))) (seq (bsg_finish c t) spin_forever), m1)" "?h ?all m1"
    using stores [of 8] unfolding memtest_fast_main_def by blast
  have "\<exists>m'. runs c t (seq (for_each [0..<8] (fast_load c t (dram d))) q, m1) (q, m') \<and> ?h ?all m'" for q
  proof (rule runs_for_each)
    fix x m q
    assume x: "x \<in> set [0..<8]" and h: "?h ?all m"
    have "?A x \<subseteq> ?all" using x by auto
    then have "runs c t (seq (fast_load c t (dram d) x) q, m) (seq (bsg_print_int c (of_nat (8 + x))) q, m)"
      unfolding fast_load_def bind_assoc using check_family_run [OF h] by blast
    then show "\<exists>m'. runs c t (seq (fast_load c t (dram d) x) q, m) (q, m') \<and> ?h ?all m'"
      using print [of "of_nat (8 + x)" q m] all h runs_trans by meson
  qed (rule m1(2))
  then show ?thesis using passes_runs [OF runs_trans [OF m1(1)] passes_finish [OF assms(1)]] by blast
qed

text \<open>\<open>memtest2020\<close>\<close>

lemma get_stride_value: "n < 32 \<Longrightarrow> get_stride n = of_nat (2 ^ n - 1)"
proof -
  have "fold (\<lambda>_ stride. stride * 2) [0..<n] 1 = (2 ^ n :: u32)" by (induction n) (auto simp: mult.commute)
  then show ?thesis by (simp add: get_stride_def)
qed

lemma stride_round_run:
  assumes "1 \<le> n" and "n < 21" and "d + 1069546504 \<le> 2 ^ 31"
  shows "\<exists>m'. runs c t (seq (stride_round c t (dram d) n) q, m) (q, m')"
proof -
  let ?k = "2 ^ n - 1 :: nat" and ?p = "\<lambda>i. dram d + 4 * (of_nat i * get_stride n) :: u32"
  have k: "1 \<le> ?k" "?k \<le> 1048575"
    using power_increasing [of 1 n "2 :: nat"] power_increasing [of n 20 "2 :: nat"] assms(1,2) by simp_all
  have p: "?p i = dram (d + 4 * (i * ?k))" "d + 4 * (i * ?k) + 4 \<le> 2 ^ 31" if "i < 256" for i
  proof -
    have "i * ?k \<le> 255 * 1048575" using mult_le_mono [of i 255 ?k 1048575] k that by simp
    then have le: "4 * (i * ?k) + 4 \<le> 1069546504" by simp
    then show "d + 4 * (i * ?k) + 4 \<le> 2 ^ 31" using assms(3) by simp
    have "4 * (of_nat i * get_stride n) = (of_nat (4 * (i * ?k)) :: u32)"
      using get_stride_value [of n] assms(2) by (simp del: of_nat_diff)
    moreover have "unat (of_nat (4 * (i * ?k)) :: u32) = 4 * (i * ?k)" using le by (intro unat_of_nat_lt) simp
    ultimately show "?p i = dram (d + 4 * (i * ?k))"
      using dram_index(1) [of d "of_nat (4 * (i * ?k))"] le assms(3) by simp
  qed
  have apart: "words_apart c t ?p {..<256}"
  proof (intro dram_words_apart [where a = "\<lambda>i. d + 4 * (i * ?k)"] conjI)
    show "d + 4 * (i * ?k) + 4 \<le> d + 4 * (j * ?k) \<or> d + 4 * (j * ?k) + 4 \<le> d + 4 * (i * ?k)"
      if "i \<noteq> j" for i j
    proof -
      have "Suc i * ?k \<le> j * ?k \<or> Suc j * ?k \<le> i * ?k" using that mult_le_mono1 [of "Suc i" j ?k] mult_le_mono1 [of "Suc j" i ?k] by linarith
      then show ?thesis using k(1) by auto
    qed
  qed (use p in auto)
  define m1 where "m1 = put_words c t ?p of_nat [0..<256] m"
  have m1: "runs c t (seq (for_each [0..<256] (\<lambda>i. Act (Store32 (?p i) (of_nat i)) Ret)) q, m) (q, m1)" for q
    unfolding m1_def by (rule store_words_run)
  have h: "holds c t ?p of_nat {..<256} m1"
    using holds_put_words [OF apart empty_subsetI, of "[0..<256]" of_nat m] holds_none [of c t ?p of_nat m]
    by (simp add: m1_def atLeast0LessThan)
  show ?thesis
    unfolding stride_round_def Let_def bind_assoc
    using runs_trans [OF m1 check_family_run [OF h, of "[0..<256]" q]] by (intro exI [of _ m1]) (simp add: atLeast0LessThan)
qed

lemma memtest2020_passes:
  assumes "io_fits c" and "d + 1069546504 \<le> 2 ^ 31"
  shows "passes c t (memtest2020_main c t (dram d)) m"
proof -
  have r: "\<exists>m'. runs c t (seq (for_each [1..<21] (stride_round c t (dram d))) q, m) (q, m') \<and> True" for q m
    by (rule runs_for_each) (use stride_round_run [OF _ _ assms(2)] in auto)
  have "\<exists>m'. runs c t (seq (for_each [0..<2] (\<lambda>k. for_each [1..<21] (stride_round c t (dram d)))) q, m) (q, m') \<and> True" for q m
    by (rule runs_for_each) (use r in auto)
  then show ?thesis unfolding memtest2020_main_def using passes_runs [OF _ passes_finish [OF assms(1)]] by blast
qed

text \<open>C37: Every memory test reports success, whatever the memory holds at the start: the words that it stores
  before it reads them back are apart.\<close>

theorem memory_tests_pass:
  assumes "io_fits c" and "d + 1069546504 \<le> 2 ^ 31"
  shows "passes c (0, 0) (memtest1_main c (0, 0)) m \<and> passes c (0, 0) (memtest9_main c (0, 0)) m
    \<and> passes c t (memtest_fast_main c t (dram d)) m \<and> passes c t (memtest2020_main c t (dram d)) m
    \<and> passes c (0, 0) (simple_main c (0, 0) (dram d)) m"
  using memtest1_passes [OF assms(1)] memtest9_passes [OF assms(1)] memtest_fast_passes [OF assms(1)]
    memtest2020_passes [OF assms] simple_passes [OF assms(1)] assms(2) by simp

lemma memory_tests_pass_witness:
  "passes small_cfg (0, 0) (memtest9_main small_cfg (0, 0)) zero_machine
   \<and> passes small_cfg (1, 0) (memtest2020_main small_cfg (1, 0) (dram 64)) zero_machine"
  using memory_tests_pass [of small_cfg 64 zero_machine "(1, 0)"] by (simp add: io_fits_def small_cfg_def)

end
