(* ===== verification/Start_Up.thy ===== *)
theory Start_Up
  imports Mutex
begin

text \<open>
  The start-up protocol \<open>bsg_set_tile_x_y.c\<close>, which every program calls first. A tile does not know its coordinates;
  it can name tile (0,0) only. Every tile tells tile (0,0) that it is (0,0) and waits for its own coordinates; tile
  (0,0), the one that finds zeros, sends all tiles theirs. Then each tile fills in the rest of its variables.
  The theorems say that in every interleaving each tile that returns has its own coordinates, and that all
  return.
\<close>

section \<open>The code\<close>

text \<open>The per-tile variables that the routine sets; \<open>a g\<close> is the address of variable \<open>g\<close>, the same in all tiles.\<close>

datatype gvar = V_x | V_y | V_id | V_org_x | V_org_y | V_dim_x | V_dim_y | V_tg_x | V_tg_y | V_tg

definition wait_while_negative :: "u32 \<Rightarrow> proc" where
  "wait_while_negative p = Loop (Act (Load32 p) Ret) (\<lambda>v. \<not> slt v 0) (\<lambda>_. Ret 0)"

definition send_coordinates :: "cfg \<Rightarrow> (gvar \<Rightarrow> u32) \<Rightarrow> proc" where
  "send_coordinates c a =
     for_each [0..<unat (bsg_tiles_X c)] (\<lambda>x. for_each [0..<unat (bsg_tiles_Y c)] (\<lambda>y.
       seq (bsg_remote_store (of_nat x) (of_nat y) (a V_x) (of_nat x))
         (bsg_remote_store (of_nat x) (of_nat y) (a V_y) (of_nat y))))"

definition set_variables :: "cfg \<Rightarrow> (gvar \<Rightarrow> u32) \<Rightarrow> proc" where
  "set_variables c a =
     Act (Load32 (a V_x)) (\<lambda>x1. Act (Load32 (a V_y)) (\<lambda>y1. Act (Load32 (a V_x)) (\<lambda>x2. Act (Load32 (a V_y)) (\<lambda>y2.
     Act (Load32 (bsg_remote_ptr_control x1 y1 CSR_TGO_X)) (\<lambda>ox. Act (Store32 (a V_org_x) ox) (\<lambda>_.
     Act (Load32 (bsg_remote_ptr_control x2 y2 CSR_TGO_Y)) (\<lambda>oy. Act (Store32 (a V_org_y) oy) (\<lambda>_.
     Act (Load32 (a V_y)) (\<lambda>y. Act (Load32 (a V_x)) (\<lambda>x. Act (Store32 (a V_id) (y * bsg_tiles_X c + x)) (\<lambda>_.
     Act (Store32 (a V_dim_x) 1) (\<lambda>_. Act (Store32 (a V_dim_y) 1) (\<lambda>_.
     Act (Store32 (a V_tg_x) 0) (\<lambda>_. Act (Store32 (a V_tg_y) 0) (\<lambda>_. Act (Store32 (a V_tg) 0) Ret)))))))))))))))"

definition send_if_origin :: "cfg \<Rightarrow> (gvar \<Rightarrow> u32) \<Rightarrow> proc" where
  "send_if_origin c a =
     Act (Load32 (a V_x)) (\<lambda>x. if x = 0 then
       Act (Load32 (a V_y)) (\<lambda>y. if y = 0 then send_coordinates c a else Ret 0) else Ret 0)"

definition bsg_set_tile_x_y :: "cfg \<Rightarrow> (gvar \<Rightarrow> u32) \<Rightarrow> proc" where
  "bsg_set_tile_x_y c a =
     seq (bsg_remote_store 0 0 (a V_x) 0) (seq (bsg_remote_store 0 0 (a V_y) 0)
       (seq (wait_while_negative (a V_x)) (seq (wait_while_negative (a V_y))
         (seq (send_if_origin c a) (set_variables c a)))))"

section \<open>Cells\<close>

datatype bcell = Var gvar | Tgo_x | Tgo_y

definition boot_addr :: "(gvar \<Rightarrow> u32) \<Rightarrow> bcell \<Rightarrow> u32" where
  "boot_addr a = (\<lambda>Var g \<Rightarrow> a g | Tgo_x \<Rightarrow> CSR_BASE_ADDR + CSR_TGO_X | Tgo_y \<Rightarrow> CSR_BASE_ADDR + CSR_TGO_Y)"

definition boot_loc :: "cfg \<Rightarrow> (gvar \<Rightarrow> u32) \<Rightarrow> tile \<times> bcell \<Rightarrow> npa" where
  "boot_loc c a = (\<lambda>(t, e). tile_npa c t (boot_addr a e))"

definition boot_layout :: "cfg \<Rightarrow> (gvar \<Rightarrow> u32) \<Rightarrow> bool" where
  "boot_layout c a \<longleftrightarrow> group_fits c \<and> (\<forall>g. unat (a g) + 4 \<le> 2 ^ 17)
     \<and> (\<forall>g h. g \<noteq> h \<longrightarrow> unat (a g) + 4 \<le> unat (a h) \<or> unat (a h) + 4 \<le> unat (a g))"

abbreviation bval :: "cfg \<Rightarrow> (gvar \<Rightarrow> u32) \<Rightarrow> machine \<Rightarrow> tile \<Rightarrow> bcell \<Rightarrow> u32" where
  "bval c a m t e \<equiv> rd m (boot_loc c a (t, e))"

lemma boot_cells:
  assumes "boot_layout c a"
  shows "disjoint_cells (boot_loc c a) {x. in_group c (fst x)}"
proof (rule disjoint_tile_cells [where tile = fst and off = "\<lambda>x. unat (boot_addr a (snd x))"])
  show "group_fits c" using assms by (simp add: boot_layout_def)
  have b: "unat (boot_addr a e) + 4 \<le> 2 ^ 18" for e
  proof (cases e)
    case (Var g)
    have "unat (a g) \<le> 131068" using assms by (simp add: boot_layout_def)
    then show ?thesis by (simp add: Var boot_addr_def)
  qed (simp_all add: boot_addr_def arch_simps)
  show "in_group c (fst x) \<and> boot_loc c a x = tile_npa c (fst x) (of_nat (unat (boot_addr a (snd x))))
      \<and> unat (boot_addr a (snd x)) + 4 \<le> 2 ^ 32" if "x \<in> {x. in_group c (fst x)}" for x
    using that b [of "snd x"] by (auto simp: boot_loc_def split_beta)
  have v: "unat (a g) \<le> 131068" for g using assms by (simp add: boot_layout_def)
  have csr: "unat (boot_addr a e) = 131076 \<and> e = Tgo_x \<or> unat (boot_addr a e) = 131080 \<and> e = Tgo_y" if "\<forall>g. e \<noteq> Var g" for e
    using that by (cases e) (simp_all add: boot_addr_def arch_simps)
  have s: "unat (boot_addr a e) + 4 \<le> unat (boot_addr a f) \<or> unat (boot_addr a f) + 4 \<le> unat (boot_addr a e)"
    if ne: "e \<noteq> f" for e f
  proof (cases "(\<exists>g. e = Var g) \<and> (\<exists>h. f = Var h)")
    case True
    then obtain g h where "e = Var g" "f = Var h" "g \<noteq> h" using ne by blast
    then show ?thesis using assms by (simp add: boot_layout_def boot_addr_def)
  next
    case False
    have w: "(\<exists>g. e = Var g) \<Longrightarrow> unat (boot_addr a e) \<le> 131068" for e using v by (auto simp: boot_addr_def)
    show ?thesis
      using False ne csr [of e] csr [of f] w [of e] w [of f] by (cases "\<exists>g. e = Var g"; cases "\<exists>h. f = Var h") auto
  qed
  show "unat (boot_addr a (snd x)) + 4 \<le> unat (boot_addr a (snd y)) \<or> unat (boot_addr a (snd y)) + 4 \<le> unat (boot_addr a (snd x))"
    if "x \<in> {x. in_group c (fst x)}" "y \<in> {x. in_group c (fst x)}" "x \<noteq> y" "fst x = fst y" for x y
    using s [of "snd x" "snd y"] that by (metis prod.expand)
qed

lemma bval_put:
  assumes "boot_layout c a" and "in_group c t" and "in_group c u"
  shows "bval c a (put32 c (boot_loc c a (u, e)) v m) t f = (if (t, f) = (u, e) then v else bval c a m t f)"
  using rd_put_cell [OF boot_cells [OF assms(1)], of "(u, e)" "(t, f)"] assms(2,3) by simp

lemma boot_eva:
  assumes "boot_layout c a"
  shows "eva_to_npa c t (a g) = boot_loc c a (t, Var g)"
    and "in_group c u \<Longrightarrow> eva_to_npa c t (bsg_remote_ptr (fst u) (snd u) (a g)) = boot_loc c a (u, Var g)"
    and "in_group c u \<Longrightarrow> eva_to_npa c t (bsg_remote_ptr_control (fst u) (snd u) CSR_TGO_X) = boot_loc c a (u, Tgo_x)"
    and "in_group c u \<Longrightarrow> eva_to_npa c t (bsg_remote_ptr_control (fst u) (snd u) CSR_TGO_Y) = boot_loc c a (u, Tgo_y)"
proof -
  have g: "group_fits c" and b: "unat (a g) < 2 ^ 17"
    using assms unfolding boot_layout_def by (auto intro: less_le_trans [of _ "unat (a g) + 4"])
  have u: "unat (fst u) < 64 \<and> unat (snd u) < 32" if "in_group c u"
    using that g unfolding in_group_def group_fits_def word_less_nat_alt by linarith
  show "eva_to_npa c t (a g) = boot_loc c a (t, Var g)"
    using eva_local [of "a g" c t] b by (simp add: boot_loc_def boot_addr_def)
  show "eva_to_npa c t (bsg_remote_ptr (fst u) (snd u) (a g)) = boot_loc c a (u, Var g)" if "in_group c u"
    using eva_remote [of "fst u" "snd u" "a g"] u [OF that] b by (simp add: boot_loc_def boot_addr_def)
  show "eva_to_npa c t (bsg_remote_ptr_control (fst u) (snd u) CSR_TGO_X) = boot_loc c a (u, Tgo_x)"
    "eva_to_npa c t (bsg_remote_ptr_control (fst u) (snd u) CSR_TGO_Y) = boot_loc c a (u, Tgo_y)" if "in_group c u"
    using eva_remote [of "fst u" "snd u" "CSR_BASE_ADDR + CSR_TGO_X" c t] eva_remote [of "fst u" "snd u" "CSR_BASE_ADDR + CSR_TGO_Y" c t] u [OF that]
    by (simp_all add: boot_loc_def boot_addr_def bsg_remote_ptr_control_def arch_simps)
qed

section \<open>The rest of a tile that knows its coordinates\<close>

text \<open>The values that the routine leaves in the variables of tile \<open>t\<close>.\<close>

definition booted :: "cfg \<Rightarrow> tile \<Rightarrow> (bcell \<Rightarrow> u32) \<Rightarrow> bool" where
  "booted c t s \<longleftrightarrow> s (Var V_x) = fst t \<and> s (Var V_y) = snd t \<and> s (Var V_id) = bsg_x_y_to_id c (fst t) (snd t)
     \<and> s (Var V_org_x) = s Tgo_x \<and> s (Var V_org_y) = s Tgo_y \<and> s (Var V_dim_x) = 1 \<and> s (Var V_dim_y) = 1
     \<and> s (Var V_tg_x) = 0 \<and> s (Var V_tg_y) = 0 \<and> s (Var V_tg) = 0"

text \<open>
  \<open>good t p n s\<close>: with the values \<open>s\<close> in its cells, \<open>p\<close> reads only cells of tile \<open>t\<close>, writes only variables
  of \<open>t\<close> other than the coordinates, and returns within \<open>n\<close> steps with the values above.
\<close>

primrec good :: "cfg \<Rightarrow> (gvar \<Rightarrow> u32) \<Rightarrow> tile \<Rightarrow> proc \<Rightarrow> nat \<Rightarrow> (bcell \<Rightarrow> u32) \<Rightarrow> bool" where
  "good c a t (Ret v) n s \<longleftrightarrow> booted c t s"
| "good c a t (Act op k) n s \<longleftrightarrow> 0 < n \<and>
     ((\<exists>p e. op = Load32 p \<and> eva_to_npa c t p = boot_loc c a (t, e) \<and> good c a t (k (s e)) (n - 1) s)
      \<or> (\<exists>p v g. op = Store32 p v \<and> eva_to_npa c t p = boot_loc c a (t, Var g) \<and> g \<noteq> V_x \<and> g \<noteq> V_y
          \<and> good c a t (k 0) (n - 1) (s(Var g := v))))"
| "good c a t (Loop b e k) n s \<longleftrightarrow> False"

lemma good_load:
  "eva_to_npa c t p = boot_loc c a (t, e) \<Longrightarrow> good c a t (k (s e)) n s \<Longrightarrow> good c a t (Act (Load32 p) k) (Suc n) s"
  by auto

lemma good_store:
  "g \<noteq> V_x \<Longrightarrow> g \<noteq> V_y \<Longrightarrow> eva_to_npa c t p = boot_loc c a (t, Var g) \<Longrightarrow> good c a t (k 0) n (s(Var g := v)) \<Longrightarrow>
    good c a t (Act (Store32 p v) k) (Suc n) s"
  by auto

lemma good_set_variables:
  assumes "boot_layout c a" and "in_group c t" and "s (Var V_x) = fst t" and "s (Var V_y) = snd t"
  shows "good c a t (set_variables c a) 16 s"
proof -
  note e = boot_eva [OF assms(1)]
  note e' = e(3,4) [OF assms(2)]
  have n: "(16 :: nat) = Suc (Suc (Suc (Suc (Suc (Suc (Suc (Suc (Suc (Suc (Suc (Suc (Suc (Suc (Suc (Suc 0)))))))))))))))" by simp
  show ?thesis
    unfolding set_variables_def n
    by (rule good_load [OF e(1)], rule good_load [OF e(1)], rule good_load [OF e(1)], rule good_load [OF e(1)], unfold assms(3,4),
      rule good_load [OF e'(1)], rule good_store [OF _ _ e(1)], simp, simp,
      rule good_load [OF e'(2)], rule good_store [OF _ _ e(1)], simp, simp,
      rule good_load [OF e(1)], rule good_load [OF e(1)])
      (intro good_store [OF _ _ e(1)], simp_all add: booted_def assms(3,4) bsg_x_y_to_id_def)
qed

lemma good_step:
  assumes "boot_layout c a" and "in_group c t" and "good c a t p n (bval c a m t)"
  shows "good c a t (fst (pstep c t (p, m))) (n - 1) (bval c a (snd (pstep c t (p, m))) t)"
    and "in_group c u \<Longrightarrow> u \<noteq> t \<or> e \<in> {Var V_x, Var V_y, Tgo_x, Tgo_y} \<Longrightarrow>
      bval c a (snd (pstep c t (p, m))) u e = bval c a m u e"
    and "(\<exists>v. p = Ret v) \<or> 0 < n"
proof -
  note b = bval_put [OF assms(1)]
  have f: "bval c a (put32 c (boot_loc c a (t, Var g)) v m) t = (bval c a m t)(Var g := v)" for g v
    using b [OF assms(2,2)] by (auto simp: fun_eq_iff)
  show "good c a t (fst (pstep c t (p, m))) (n - 1) (bval c a (snd (pstep c t (p, m))) t)"
    using assms(3) by (cases p) (auto simp: f rd_def [symmetric])
  show "(\<exists>v. p = Ret v) \<or> 0 < n" using assms(3) by (cases p) auto
  show "bval c a (snd (pstep c t (p, m))) u e = bval c a m u e"
    if "in_group c u" "u \<noteq> t \<or> e \<in> {Var V_x, Var V_y, Tgo_x, Tgo_y}"
    using assms(3) that b [OF that(1) assms(2)] by (cases p) auto
qed

section \<open>Control states\<close>

datatype boot = St0 | St1 | WaitX | PollX | WaitY | PollY | TestX | TestY | Sets "(tile \<times> gvar) list" | Tail proc nat

abbreviation coord :: "gvar \<Rightarrow> tile \<Rightarrow> u32" where
  "coord g u \<equiv> if g = V_x then fst u else snd u"

definition coord_stores :: "cfg \<Rightarrow> (tile \<times> gvar) list" where
  "coord_stores c = concat (map (\<lambda>x. concat (map (\<lambda>y. [((of_nat x, of_nat y), V_x), ((of_nat x, of_nat y), V_y)])
     [0..<unat (bsg_tiles_Y c)])) [0..<unat (bsg_tiles_X c)])"

definition send_list :: "(gvar \<Rightarrow> u32) \<Rightarrow> (tile \<times> gvar) list \<Rightarrow> proc" where
  "send_list a L = for_each L (\<lambda>(u, g). bsg_remote_store (fst u) (snd u) (a g) (coord g u))"

lemma for_each_concat: "for_each (concat (map h xs)) f = for_each xs (\<lambda>x. for_each (h x) f)"
  by (induction xs) (auto simp: for_each_append)

lemma for_each_drop: "for_each xs (\<lambda>y. seq (f y) (seq (g y) (Ret 0))) = for_each xs (\<lambda>y. seq (f y) (g y))"
  by (induction xs) auto

lemma send_coordinates_list: "send_coordinates c a = send_list a (coord_stores c)"
  by (simp add: send_coordinates_def send_list_def coord_stores_def for_each_concat for_each_drop)

lemma word_below: "(\<exists>n < unat b. w = of_nat n) \<longleftrightarrow> (w :: u32) < b"
proof
  assume "\<exists>n < unat b. w = of_nat n"
  then show "w < b" using unat_lt32 [of b] by (auto simp: word_less_nat_alt unat_of_nat_lt)
next
  assume "w < b"
  then show "\<exists>n < unat b. w = of_nat n" by (intro exI [of _ "unat w"]) (simp add: word_less_nat_alt)
qed

lemma set_coord_stores: "(u, g) \<in> set (coord_stores c) \<longleftrightarrow> in_group c u \<and> (g = V_x \<or> g = V_y)"
proof -
  have "(u, g) \<in> set (coord_stores c) \<longleftrightarrow>
    (\<exists>n < unat (bsg_tiles_X c). fst u = of_nat n) \<and> (\<exists>n < unat (bsg_tiles_Y c). snd u = of_nat n) \<and> (g = V_x \<or> g = V_y)"
    by (cases u) (fastforce simp: coord_stores_def)
  then show ?thesis unfolding word_below in_group_def by blast
qed

abbreviation after_x :: "cfg \<Rightarrow> (gvar \<Rightarrow> u32) \<Rightarrow> proc" where
  "after_x c a \<equiv> seq (wait_while_negative (a V_y)) (seq (send_if_origin c a) (set_variables c a))"

fun boot_prog :: "cfg \<Rightarrow> (gvar \<Rightarrow> u32) \<Rightarrow> boot \<Rightarrow> proc" where
  "boot_prog c a St0 = bsg_set_tile_x_y c a"
| "boot_prog c a St1 = seq (bsg_remote_store 0 0 (a V_y) 0) (seq (wait_while_negative (a V_x)) (after_x c a))"
| "boot_prog c a WaitX = seq (wait_while_negative (a V_x)) (after_x c a)"
| "boot_prog c a PollX = Act (Load32 (a V_x)) (\<lambda>v. if \<not> slt v 0 then after_x c a else seq (wait_while_negative (a V_x)) (after_x c a))"
| "boot_prog c a WaitY = after_x c a"
| "boot_prog c a PollY = Act (Load32 (a V_y)) (\<lambda>v. if \<not> slt v 0 then seq (send_if_origin c a) (set_variables c a) else after_x c a)"
| "boot_prog c a TestX = seq (send_if_origin c a) (set_variables c a)"
| "boot_prog c a TestY = Act (Load32 (a V_y)) (\<lambda>y. if y = 0 then seq (send_coordinates c a) (set_variables c a) else set_variables c a)"
| "boot_prog c a (Sets L) = seq (send_list a L) (set_variables c a)"
| "boot_prog c a (Tail p n) = p"

abbreviation tail_state :: "cfg \<Rightarrow> (gvar \<Rightarrow> u32) \<Rightarrow> boot" where
  "tail_state c a \<equiv> Tail (set_variables c a) 16"

fun boot_next :: "cfg \<Rightarrow> (gvar \<Rightarrow> u32) \<Rightarrow> tile \<Rightarrow> boot \<Rightarrow> machine \<Rightarrow> boot \<times> machine" where
  "boot_next c a t St0 m = (St1, put32 c (boot_loc c a ((0, 0), Var V_x)) 0 m)"
| "boot_next c a t St1 m = (WaitX, put32 c (boot_loc c a ((0, 0), Var V_y)) 0 m)"
| "boot_next c a t WaitX m = (PollX, m)"
| "boot_next c a t PollX m = (if slt (bval c a m t (Var V_x)) 0 then WaitX else WaitY, m)"
| "boot_next c a t WaitY m = (PollY, m)"
| "boot_next c a t PollY m = (if slt (bval c a m t (Var V_y)) 0 then WaitY else TestX, m)"
| "boot_next c a t TestX m = (if bval c a m t (Var V_x) = 0 then TestY else tail_state c a, m)"
| "boot_next c a t TestY m = (if bval c a m t (Var V_y) = 0 then Sets (coord_stores c) else tail_state c a, m)"
| "boot_next c a t (Sets []) m = (Sets [], m)"
| "boot_next c a t (Sets ((u, g) # L)) m = (if L = [] then tail_state c a else Sets L, put32 c (boot_loc c a (u, Var g)) (coord g u) m)"
| "boot_next c a t (Tail p n) m = (Tail (fst (pstep c t (p, m))) (n - 1), snd (pstep c t (p, m)))"

section \<open>The invariant\<close>

definition boot_at :: "cfg \<Rightarrow> (gvar \<Rightarrow> u32) \<Rightarrow> tile \<Rightarrow> boot \<Rightarrow> machine \<Rightarrow> bool" where
  "boot_at c a t q m \<longleftrightarrow> (let X = bval c a m t (Var V_x); Y = bval c a m t (Var V_y); origin = (t = (0, 0));
       all_sent = (\<forall>u g. in_group c u \<longrightarrow> g = V_x \<or> g = V_y \<longrightarrow> bval c a m u (Var g) = coord g u) in
     case q of
       St0 \<Rightarrow> True
     | St1 \<Rightarrow> origin \<longrightarrow> X = 0
     | WaitX \<Rightarrow> origin \<longrightarrow> X = 0 \<and> Y = 0
     | PollX \<Rightarrow> origin \<longrightarrow> X = 0 \<and> Y = 0
     | WaitY \<Rightarrow> X = fst t \<and> (origin \<longrightarrow> Y = 0)
     | PollY \<Rightarrow> X = fst t \<and> (origin \<longrightarrow> Y = 0)
     | TestX \<Rightarrow> X = fst t \<and> Y = snd t
     | TestY \<Rightarrow> X = fst t \<and> Y = snd t \<and> fst t = 0
     | Sets L \<Rightarrow> origin \<and> X = 0 \<and> Y = 0 \<and> L \<noteq> [] \<and> set L \<subseteq> set (coord_stores c)
         \<and> (\<forall>(u, g) \<in> set (coord_stores c) - set L. bval c a m u (Var g) = coord g u)
     | Tail p n \<Rightarrow> X = fst t \<and> Y = snd t \<and> good c a t p n (bval c a m t) \<and> (origin \<longrightarrow> all_sent))"

definition boot_inv :: "cfg \<Rightarrow> (gvar \<Rightarrow> u32) \<Rightarrow> machine \<Rightarrow> (tile \<Rightarrow> boot) \<Rightarrow> machine \<Rightarrow> bool" where
  "boot_inv c a m0 qs m \<longleftrightarrow> boot_layout c a \<and> (\<forall>t. in_group c t \<longrightarrow>
     bval c a m t (Var V_x) \<in> {- 1, fst t} \<and> bval c a m t (Var V_y) \<in> {- 1, snd t}
     \<and> bval c a m t Tgo_x = bval c a m0 t Tgo_x \<and> bval c a m t Tgo_y = bval c a m0 t Tgo_y \<and> boot_at c a t (qs t) m)"

section \<open>The steps of the code\<close>

lemma origin_in_group: "boot_layout c a \<Longrightarrow> in_group c (0, 0)"
  by (simp add: boot_layout_def group_fits_def in_group_def)

lemma coord_nonneg: "boot_layout c a \<Longrightarrow> in_group c t \<Longrightarrow> \<not> slt (fst t) 0 \<and> \<not> slt (snd t) 0"
proof -
  assume "boot_layout c a" "in_group c t"
  then have "unat (fst t) < 2 ^ 31" "unat (snd t) < 2 ^ 31"
    unfolding boot_layout_def group_fits_def in_group_def word_less_nat_alt by auto
  then show ?thesis using uint_lt_unat by (simp add: slt_def sint_small)
qed

lemma boot_code_step:
  assumes t: "in_group c t" and I: "boot_inv c a m0 qs m"
  shows "pstep c t (boot_prog c a (qs t), m) = (boot_prog c a (fst (boot_next c a t (qs t) m)), snd (boot_next c a t (qs t) m))"
proof -
  have L: "boot_layout c a" using I by (simp add: boot_inv_def)
  note e = boot_eva(1) [OF L] and r = boot_eva(2) [OF L]
  note e0 = boot_eva(2) [OF L origin_in_group [OF L], simplified]
  have ld: "load32 (mem m) p = rd m p" for p by (simp add: rd_def)
  show ?thesis
  proof (cases "qs t")
    case St0
    then show ?thesis by (simp add: bsg_set_tile_x_y_def bsg_remote_store_def e0)
  next
    case (Sets S)
    have "boot_at c a t (qs t) m" using I t by (simp add: boot_inv_def)
    then obtain u g S' where S: "S = (u, g) # S'" "in_group c u"
      unfolding Sets boot_at_def Let_def by (cases S) (auto simp: set_coord_stores)
    then show ?thesis unfolding Sets by (simp add: send_list_def bsg_remote_store_def r)
  qed (simp_all add: bsg_remote_store_def wait_while_negative_def send_if_origin_def e0 e ld send_coordinates_list if_distrib [of "\<lambda>p. bind p _"] fun_eq_iff)
qed

section \<open>The invariant is kept\<close>

text \<open>What a step of tile \<open>t\<close> does to the others: at most, it sends coordinates.\<close>

definition sends :: "cfg \<Rightarrow> (gvar \<Rightarrow> u32) \<Rightarrow> tile \<Rightarrow> machine \<Rightarrow> machine \<Rightarrow> bool" where
  "sends c a t m m' \<longleftrightarrow> (\<forall>u e. in_group c u \<longrightarrow> bval c a m' u e = bval c a m u e
     \<or> (\<exists>g. e = Var g \<and> (g = V_x \<or> g = V_y) \<and> bval c a m' u e = coord g u)
     \<or> (u = t \<and> e \<notin> {Var V_x, Var V_y, Tgo_x, Tgo_y}))"

lemma sendsD:
  assumes "sends c a t m m'" and "in_group c u"
  shows "bval c a m' u (Var V_x) = bval c a m u (Var V_x) \<or> bval c a m' u (Var V_x) = fst u"
    and "bval c a m' u (Var V_y) = bval c a m u (Var V_y) \<or> bval c a m' u (Var V_y) = snd u"
    and "bval c a m' u Tgo_x = bval c a m u Tgo_x" and "bval c a m' u Tgo_y = bval c a m u Tgo_y"
    and "u \<noteq> t \<Longrightarrow> e \<noteq> Var V_x \<Longrightarrow> e \<noteq> Var V_y \<Longrightarrow> bval c a m' u e = bval c a m u e"
proof -
  note d = assms(1) [unfolded sends_def, rule_format, OF assms(2)]
  show "bval c a m' u (Var V_x) = bval c a m u (Var V_x) \<or> bval c a m' u (Var V_x) = fst u"
    "bval c a m' u (Var V_y) = bval c a m u (Var V_y) \<or> bval c a m' u (Var V_y) = snd u"
    using d [of "Var V_x"] d [of "Var V_y"] by auto
  show "bval c a m' u Tgo_x = bval c a m u Tgo_x" "bval c a m' u Tgo_y = bval c a m u Tgo_y"
    using d [of Tgo_x] d [of Tgo_y] by simp_all
  show "u \<noteq> t \<Longrightarrow> e \<noteq> Var V_x \<Longrightarrow> e \<noteq> Var V_y \<Longrightarrow> bval c a m' u e = bval c a m u e"
    using d [of e] by blast
qed

lemma boot_at_other:
  assumes "boot_at c a u q m" and "sends c a t m m'" and "in_group c u" and "u \<noteq> t"
  shows "boot_at c a u q m'"
proof -
  note d = sendsD [OF assms(2)]
  note du = d(1,2) [OF assms(3)]
  have keep: "bval c a m' w (Var g) = coord g w" if "bval c a m w (Var g) = coord g w" "in_group c w" "g = V_x \<or> g = V_y" for w g
    using d(1,2) [OF that(2)] that by auto
  show ?thesis
  proof (cases q)
    case (Tail p n)
    have x: "bval c a m u (Var V_x) = fst u" "bval c a m u (Var V_y) = snd u" using assms(1) unfolding Tail boot_at_def Let_def by auto
    then have "bval c a m' u e = bval c a m u e" for e
      using d(5) [OF assms(3,4), of e] du by (cases "e = Var V_x \<or> e = Var V_y") auto
    then have f: "bval c a m' u = bval c a m u" by (intro ext)
    have "good c a u p n (bval c a m u)" and sent: "u = (0, 0) \<longrightarrow>
        (\<forall>w g. in_group c w \<longrightarrow> g = V_x \<or> g = V_y \<longrightarrow> bval c a m w (Var g) = coord g w)"
      using assms(1) unfolding Tail boot_at_def Let_def boot.case by blast+
    then have "good c a u p n (bval c a m' u)" using f by metis
    moreover have "u = (0, 0) \<longrightarrow> (\<forall>w g. in_group c w \<longrightarrow> g = V_x \<or> g = V_y \<longrightarrow> bval c a m' w (Var g) = coord g w)"
      using sent keep by blast
    ultimately show ?thesis using x fun_cong [OF f] unfolding Tail boot_at_def Let_def boot.case by metis
  next
    case (Sets S)
    have "in_group c (fst x) \<and> (snd x = V_x \<or> snd x = V_y)" if "x \<in> set (coord_stores c)" for x
      using that set_coord_stores [of "fst x" "snd x" c] by simp
    then show ?thesis using assms(1) keep du unfolding Sets boot_at_def Let_def by (auto simp: split_beta)
  qed (use assms(1) du in \<open>auto simp: boot_at_def Let_def\<close>)
qed

lemma boot_inv_stepI:
  assumes "boot_inv c a m0 qs m" and "in_group c t" and "sends c a t m m'" and "boot_at c a t q' m'"
  shows "boot_inv c a m0 (qs(t := q')) m'"
proof -
  have "bval c a m' u (Var V_x) \<in> {- 1, fst u} \<and> bval c a m' u (Var V_y) \<in> {- 1, snd u}
     \<and> bval c a m' u Tgo_x = bval c a m0 u Tgo_x \<and> bval c a m' u Tgo_y = bval c a m0 u Tgo_y" if "in_group c u" for u
    using sendsD(1-4) [OF assms(3) that] assms(1) that unfolding boot_inv_def by auto
  moreover have "boot_at c a u ((qs(t := q')) u) m'" if "in_group c u" for u
    using boot_at_other [OF _ assms(3) that, of "qs u"] assms(1,4) that unfolding boot_inv_def by auto
  ultimately show ?thesis using assms(1) unfolding boot_inv_def by blast
qed

lemma sends_same [simp]: "sends c a t m m"
  by (simp add: sends_def)

lemma sends_coord:
  assumes "boot_layout c a" and "in_group c u" and "g = V_x \<or> g = V_y"
  shows "sends c a t m (put32 c (boot_loc c a (u, Var g)) (coord g u) m)"
  unfolding sends_def using bval_put [OF assms(1) _ assms(2)] assms(3) by auto

lemma boot_inv_step:
  assumes t: "in_group c t" and I: "boot_inv c a m0 qs m" and n: "boot_next c a t (qs t) m = (q', m')"
  shows "boot_inv c a m0 (qs(t := q')) m'"
proof -
  have L: "boot_layout c a" and at: "boot_at c a t (qs t) m" using I t by (simp_all add: boot_inv_def)
  have x: "bval c a m t (Var V_x) \<in> {- 1, fst t}" "bval c a m t (Var V_y) \<in> {- 1, snd t}" using I t by (simp_all add: boot_inv_def)
  have neg: "slt (- 1) 0" by (simp add: slt_def)
  note o = origin_in_group [OF L] and put = bval_put [OF L]
  have good: "good c a t (set_variables c a) 16 (bval c a m t)" if "bval c a m t (Var V_x) = fst t" "bval c a m t (Var V_y) = snd t" for m
    by (rule good_set_variables [of c a t "bval c a m t", OF L t that])
  show ?thesis
  proof (cases "qs t")
    case St0
    then have q: "q' = St1" "m' = put32 c (boot_loc c a ((0, 0), Var V_x)) 0 m" using n by auto
    show ?thesis
      using sends_coord [OF L o, of V_x t m] q put [OF t o]
      by (intro boot_inv_stepI [OF I t]) (simp_all add: boot_at_def Let_def)
  next
    case St1
    then have q: "q' = WaitX" "m' = put32 c (boot_loc c a ((0, 0), Var V_y)) 0 m" using n by auto
    show ?thesis
      using sends_coord [OF L o, of V_y t m] q put [OF t o] at St1
      by (intro boot_inv_stepI [OF I t]) (simp_all add: boot_at_def Let_def)
  next
    case (Sets S)
    have S0: "t = (0, 0)" "S \<noteq> []" "set S \<subseteq> set (coord_stores c)"
      "bval c a m t (Var V_x) = 0" "bval c a m t (Var V_y) = 0"
      and all: "\<forall>(u, g) \<in> set (coord_stores c) - set S. bval c a m u (Var g) = coord g u"
      using at unfolding Sets boot_at_def Let_def boot.case by blast+
    have S4: "bval c a m u (Var g) = coord g u" if "(u, g) \<in> set (coord_stores c) - set S" for u g
      using bspec [OF all that] by simp
    obtain u g S' where S: "S = (u, g) # S'" using S0(2) by (metis list.exhaust prod.collapse)
    have u: "in_group c u" "g = V_x \<or> g = V_y" using S0(3) S by (auto simp: set_coord_stores)
    have q: "q' = (if S' = [] then tail_state c a else Sets S')" "m' = put32 c (boot_loc c a (u, Var g)) (coord g u) m"
      using n unfolding Sets S by auto
    have own: "bval c a m' t (Var V_x) = 0" "bval c a m' t (Var V_y) = 0"
      using S0(1,4,5) put [OF t u(1)] u(2) unfolding q(2) by auto
    have sent: "bval c a m' w (Var h) = coord h w" if "(w, h) \<in> set (coord_stores c) - set S'" for w h
      using S4 [of w h] that put [OF _ u(1)] S unfolding q(2) by (auto simp: set_coord_stores)
    have "boot_at c a t q' m'"
    proof (cases "S' = []")
      case True
      then show ?thesis using own sent good [of m'] S0(1) q(1) by (simp add: boot_at_def Let_def set_coord_stores)
    next
      case False
      then show ?thesis using own sent S0(1,3) S q(1) by (auto simp: boot_at_def Let_def)
    qed
    then show ?thesis using sends_coord [OF L u] q(2) by (intro boot_inv_stepI [OF I t]) simp_all
  next
    case (Tail p k)
    have g: "good c a t p k (bval c a m t)" using at unfolding Tail boot_at_def Let_def by auto
    have q: "q' = Tail (fst (pstep c t (p, m))) (k - 1)" "m' = snd (pstep c t (p, m))" using n unfolding Tail by auto
    note s = good_step [OF L t g]
    have "sends c a t m m'" unfolding sends_def q(2) using s(2) by blast
    moreover have "boot_at c a t q' m'"
      using at s(1,2) t unfolding Tail q boot_at_def Let_def by auto
    ultimately show ?thesis by (rule boot_inv_stepI [OF I t])
  next
    case TestY
    have "coord_stores c \<noteq> []" using set_coord_stores [of "(0, 0)" V_x c] o by auto
    then show ?thesis using n at good [of m] TestY
      by (intro boot_inv_stepI [OF I t]) (auto simp: boot_at_def Let_def prod_eq_iff)
  next
    case WaitX
    then have q: "q' = PollX" "m' = m" using n by auto
    show ?thesis using at WaitX unfolding q by (intro boot_inv_stepI [OF I t]) (auto simp: boot_at_def Let_def)
  next
    case PollX
    then have q: "q' = (if slt (bval c a m t (Var V_x)) 0 then WaitX else WaitY)" "m' = m" using n by auto
    have "boot_at c a t q' m" using at PollX x(1) neg unfolding q by (auto simp: boot_at_def Let_def)
    then show ?thesis unfolding q(2) by (intro boot_inv_stepI [OF I t]) simp_all
  next
    case WaitY
    then have q: "q' = PollY" "m' = m" using n by auto
    show ?thesis using at WaitY unfolding q by (intro boot_inv_stepI [OF I t]) (auto simp: boot_at_def Let_def)
  next
    case PollY
    then have q: "q' = (if slt (bval c a m t (Var V_y)) 0 then WaitY else TestX)" "m' = m" using n by auto
    have "boot_at c a t q' m" using at PollY x(2) neg unfolding q by (auto simp: boot_at_def Let_def)
    then show ?thesis unfolding q(2) by (intro boot_inv_stepI [OF I t]) simp_all
  next
    case TestX
    then have q: "q' = (if bval c a m t (Var V_x) = 0 then TestY else tail_state c a)" "m' = m" using n by auto
    have "boot_at c a t q' m" using at TestX good [of m] unfolding q by (auto simp: boot_at_def Let_def)
    then show ?thesis unfolding q(2) by (intro boot_inv_stepI [OF I t]) simp_all
  qed
qed

interpretation boot: control_points c "\<lambda>t. boot_prog c a" "boot_next c a" "boot_inv c a m0"
  for c a m0
  by unfold_locales (rule boot_code_step, assumption+, rule boot_inv_step, assumption+)

section \<open>All tiles can finish\<close>

fun boot_rank :: "cfg \<Rightarrow> boot \<Rightarrow> nat" where
  "boot_rank c St0 = length (coord_stores c) + 30"
| "boot_rank c St1 = length (coord_stores c) + 29"
| "boot_rank c WaitX = length (coord_stores c) + 28"
| "boot_rank c PollX = length (coord_stores c) + 27"
| "boot_rank c WaitY = length (coord_stores c) + 26"
| "boot_rank c PollY = length (coord_stores c) + 25"
| "boot_rank c TestX = length (coord_stores c) + 24"
| "boot_rank c TestY = length (coord_stores c) + 23"
| "boot_rank c (Sets L) = length L + 20"
| "boot_rank c (Tail p n) = n"

definition boot_done :: "boot \<Rightarrow> bool" where
  "boot_done q \<longleftrightarrow> (\<exists>v n. q = Tail (Ret v) n)"

text \<open>A tile makes progress when it is the origin, or when the origin has sent the coordinates.\<close>

lemma boot_progress_tile:
  assumes I: "boot_inv c a m0 qs m" and t: "in_group c t" and nd: "\<not> boot_done (qs t)"
    and ok: "t = (0, 0) \<or> bval c a m t (Var V_x) = fst t \<and> bval c a m t (Var V_y) = snd t"
  shows "boot_rank c (fst (boot_next c a t (qs t) m)) < boot_rank c (qs t)"
proof -
  have L: "boot_layout c a" and at: "boot_at c a t (qs t) m" using I t by (simp_all add: boot_inv_def)
  note nn = coord_nonneg [OF L t]
  show ?thesis
  proof (cases "qs t")
    case PollX
    then show ?thesis using at ok nn by (auto simp: boot_at_def Let_def)
  next
    case PollY
    then show ?thesis using at ok nn by (auto simp: boot_at_def Let_def)
  next
    case (Sets S)
    then obtain u g S' where "S = (u, g) # S'" using at unfolding Sets boot_at_def Let_def by (cases S) auto
    then show ?thesis unfolding Sets by (cases S') auto
  next
    case (Tail p n)
    have "good c a t p n (bval c a m t)" using at unfolding Tail boot_at_def Let_def by auto
    then have "0 < n" using good_step(3) [OF L t, of p n m] nd unfolding Tail boot_done_def by auto
    then show ?thesis unfolding Tail by simp
  qed auto
qed

definition boot_rank_sum :: "cfg \<Rightarrow> (tile \<Rightarrow> boot) \<Rightarrow> nat" where
  "boot_rank_sum c qs = (\<Sum>t \<in> group_tiles c. boot_rank c (qs t))"

lemma boot_rank_sum_less:
  assumes "in_group c t" and "boot_rank c q < boot_rank c (qs t)"
  shows "boot_rank_sum c (qs(t := q)) < boot_rank_sum c qs"
  using sum_fun_upd [of "group_tiles c" t "boot_rank c" qs q] assms by (simp add: boot_rank_sum_def group_tiles_def)

lemma boot_progress:
  assumes I: "boot_inv c a m0 qs m" and nd: "\<not> (\<forall>t. in_group c t \<longrightarrow> boot_done (qs t))"
  shows "\<exists>t. in_group c t \<and> boot_rank_sum c (qs(t := fst (boot_next c a t (qs t) m))) < boot_rank_sum c qs"
proof (cases "boot_done (qs (0, 0))")
  case False
  have "in_group c (0, 0)" using I origin_in_group unfolding boot_inv_def by blast
  then show ?thesis using boot_progress_tile [OF I _ False] boot_rank_sum_less by blast
next
  case True
  have o: "in_group c (0, 0)" using I origin_in_group unfolding boot_inv_def by blast
  obtain t where t: "in_group c t" "\<not> boot_done (qs t)" using nd by blast
  have "boot_at c a (0, 0) (qs (0, 0)) m" using I o by (simp add: boot_inv_def)
  then have "bval c a m t (Var V_x) = fst t \<and> bval c a m t (Var V_y) = snd t"
    using True t(1) unfolding boot_done_def boot_at_def Let_def by fastforce
  then show ?thesis using boot_progress_tile [OF I t] boot_rank_sum_less [OF t(1)] t(1) by blast
qed

section \<open>Results\<close>

definition unset :: "cfg \<Rightarrow> (gvar \<Rightarrow> u32) \<Rightarrow> machine \<Rightarrow> bool" where
  "unset c a m \<longleftrightarrow> (\<forall>t. in_group c t \<longrightarrow> bval c a m t (Var V_x) = bsg_x' tile_vars_init \<and> bval c a m t (Var V_y) = bsg_y' tile_vars_init)"

lemma boot_inv_start: "boot_layout c a \<Longrightarrow> unset c a m0 \<Longrightarrow> boot_inv c a m0 (\<lambda>_. St0) m0"
  by (simp add: boot_inv_def boot_at_def unset_def tile_vars_init_def)

lemma boot_reachable:
  assumes "boot_layout c a" and "unset c a m0" and "reachable c (\<lambda>_. bsg_set_tile_x_y c a, m0) s"
  obtains qs where "fst s = (\<lambda>t. boot_prog c a (qs t))" and "boot_inv c a m0 qs (snd s)"
  using boot.reachable_inv [of c a "\<lambda>_. St0" m0 s m0] boot_inv_start [OF assms(1,2)] assms(3) by auto

lemma boot_prog_Ret: "boot_prog c a q = Ret v \<Longrightarrow> boot_at c a t q m \<Longrightarrow> \<exists>n. q = Tail (Ret v) n"
  by (cases q) (auto simp: bsg_set_tile_x_y_def bsg_remote_store_def wait_while_negative_def send_if_origin_def
      set_variables_def send_list_def boot_at_def Let_def neq_Nil_conv)

text \<open>C9: When a tile has returned from the start-up routine, in any interleaving of all tiles, its coordinates are its
  own, its number follows from them, and the other variables have the values of a single tile group. Before that,
  its coordinates are unset or right.\<close>

theorem boot_sets_variables:
  assumes "boot_layout c a" and "unset c a m0" and "reachable c (\<lambda>_. bsg_set_tile_x_y c a, m0) s" and "in_group c t"
  shows "bval c a (snd s) t (Var V_x) \<in> {- 1, fst t} \<and> bval c a (snd s) t (Var V_y) \<in> {- 1, snd t}
    \<and> (\<forall>v. fst s t = Ret v \<longrightarrow> booted c t (bval c a (snd s) t))
    \<and> bval c a (snd s) t Tgo_x = bval c a m0 t Tgo_x \<and> bval c a (snd s) t Tgo_y = bval c a m0 t Tgo_y"
proof -
  obtain qs where qs: "fst s = (\<lambda>t. boot_prog c a (qs t))" "boot_inv c a m0 qs (snd s)"
    using boot_reachable [OF assms(1-3)] .
  have at: "boot_at c a t (qs t) (snd s)" using qs(2) assms(4) by (simp add: boot_inv_def)
  have "booted c t (bval c a (snd s) t)" if r: "fst s t = Ret v" for v
  proof -
    obtain n where "qs t = Tail (Ret v) n" using boot_prog_Ret [OF _ at, of v] r qs(1) by auto
    then show ?thesis using at unfolding boot_at_def Let_def by auto
  qed
  then show ?thesis using qs(2) assms(4) unfolding boot_inv_def by blast
qed

text \<open>C10: The start-up protocol never blocks: from every reachable state all tiles can return.\<close>

theorem boot_no_deadlock:
  assumes "boot_layout c a" and "unset c a m0" and "reachable c (\<lambda>_. bsg_set_tile_x_y c a, m0) s"
  shows "\<exists>s'. reachable c s s' \<and> finished c s'"
proof -
  obtain qs where qs: "fst s = (\<lambda>t. boot_prog c a (qs t))" "boot_inv c a m0 qs (snd s)"
    using boot_reachable [OF assms] .
  obtain qs' m' where r: "reachable c (\<lambda>t. boot_prog c a (qs t), snd s) (\<lambda>t. boot_prog c a (qs' t), m')"
    and d: "\<forall>t. in_group c t \<longrightarrow> boot_done (qs' t)"
    using boot.can_reach [OF qs(2), where rank = "boot_rank_sum c" and goal = "\<lambda>qs. \<forall>t. in_group c t \<longrightarrow> boot_done (qs t)"]
      boot_progress by blast
  have "finished c (\<lambda>t. boot_prog c a (qs' t), m')" using d by (fastforce simp: finished_def boot_done_def)
  then show ?thesis using r qs(1) by (metis prod.collapse)
qed

text \<open>The variables at the addresses that follow each other from 0x100.\<close>

definition ex_vars :: "gvar \<Rightarrow> u32" where
  "ex_vars = (\<lambda>V_x \<Rightarrow> 0x100 | V_y \<Rightarrow> 0x104 | V_id \<Rightarrow> 0x108 | V_org_x \<Rightarrow> 0x10C | V_org_y \<Rightarrow> 0x110 | V_dim_x \<Rightarrow> 0x114
     | V_dim_y \<Rightarrow> 0x118 | V_tg_x \<Rightarrow> 0x11C | V_tg_y \<Rightarrow> 0x120 | V_tg \<Rightarrow> 0x124)"

definition ones_machine :: machine where
  "ones_machine = \<lparr>mem = (\<lambda>_. - 1), io = []\<rparr>"

lemma ex_boot: "boot_layout small_cfg ex_vars" "unset small_cfg ex_vars ones_machine"
proof -
  have "unat (ex_vars g) + 4 \<le> 2 ^ 17" for g by (cases g) (simp_all add: ex_vars_def)
  moreover have "unat (ex_vars g) + 4 \<le> unat (ex_vars h) \<or> unat (ex_vars h) + 4 \<le> unat (ex_vars g)" if "g \<noteq> h" for g h
    using that by (cases g; cases h) (simp_all add: ex_vars_def)
  ultimately show "boot_layout small_cfg ex_vars" by (simp add: boot_layout_def)
  have "rd ones_machine p = - 1" for p
    unfolding rd_def load32_def ones_machine_def select_convs by code_simp
  then show "unset small_cfg ex_vars ones_machine" by (simp add: unset_def tile_vars_init_def)
qed

lemma boot_no_deadlock_witness:
  "\<exists>s. reachable small_cfg (\<lambda>_. bsg_set_tile_x_y small_cfg ex_vars, ones_machine) s \<and> finished small_cfg s"
  using boot_no_deadlock [OF ex_boot reach_start] by blast

lemma boot_sets_variables_witness:
  "\<exists>s. reachable small_cfg (\<lambda>_. bsg_set_tile_x_y small_cfg ex_vars, ones_machine) s
     \<and> booted small_cfg (1, 0) (bval small_cfg ex_vars (snd s) (1, 0))"
proof -
  have g: "in_group small_cfg (1, 0)" by (simp add: in_group_def small_cfg_def)
  have I: "boot_inv small_cfg ex_vars ones_machine (\<lambda>_. St0) ones_machine" by (rule boot_inv_start [OF ex_boot])
  obtain qs' m' where r: "reachable small_cfg (\<lambda>_. bsg_set_tile_x_y small_cfg ex_vars, ones_machine) (\<lambda>t. boot_prog small_cfg ex_vars (qs' t), m')"
    and d: "\<forall>t. in_group small_cfg t \<longrightarrow> boot_done (qs' t)"
    using boot.can_reach [OF I, where rank = "boot_rank_sum small_cfg" and goal = "\<lambda>qs. \<forall>t. in_group small_cfg t \<longrightarrow> boot_done (qs t)"]
      boot_progress by fastforce
  then obtain v n where "qs' (1, 0) = Tail (Ret v) n" using g unfolding boot_done_def by blast
  then have "booted small_cfg (1, 0) (bval small_cfg ex_vars m' (1, 0))"
    using boot_sets_variables [OF ex_boot r g] by simp
  then show ?thesis using r by fastforce
qed

end
