(* ===== verification/Network_Data.thy ===== *)
theory Network_Data
  imports Prelude
begin

text \<open>The array of \<open>network_test_bandwidth\<close>, one definition for each of its rows of 32 words, and its sum.\<close>

definition bw_data_0 :: "u32 list" where
  "bw_data_0 = [778, 129, 296, 99, 779, 958, 914, 773, 7, 174, 523, 208, 697, 581, 634, 303, 434, 16, 713, 148, 74, 889, 374, 55, 192, 797, 194, 1009, 430, 291, 907, 717]"
definition bw_data_1 :: "u32 list" where
  "bw_data_1 = [172, 860, 98, 766, 283, 883, 909, 613, 163, 37, 873, 623, 638, 373, 384, 173, 247, 401, 9, 799, 870, 186, 205, 118, 768, 995, 243, 165, 814, 177, 964, 130]"
definition bw_data_2 :: "u32 list" where
  "bw_data_2 = [263, 695, 963, 491, 183, 187, 524, 837, 230, 803, 693, 723, 735, 104, 17, 69, 902, 396, 698, 494, 109, 522, 349, 679, 56, 829, 193, 798, 1021, 571, 96, 114]"
definition bw_data_3 :: "u32 list" where
  "bw_data_3 = [946, 726, 304, 452, 830, 722, 1010, 372, 912, 246, 887, 159, 50, 876, 77, 219, 233, 557, 672, 286, 1016, 411, 633, 222, 544, 314, 882, 767, 195, 917, 596, 164]"
definition bw_data_4 :: "u32 list" where
  "bw_data_4 = [911, 151, 716, 270, 869, 944, 940, 669, 549, 423, 921, 298, 663, 707, 319, 78, 474, 761, 254, 750, 12, 886, 480, 379, 572, 724, 775, 107, 478, 84, 631, 719]"
definition bw_data_5 :: "u32 list" where
  "bw_data_5 = [60, 15, 600, 935, 583, 899, 701, 533, 157, 950, 284, 375, 28, 180, 848, 806, 632, 20, 450, 841, 67, 447, 619, 772, 991, 58, 142, 144, 346, 738, 548, 997]"
definition bw_data_6 :: "u32 list" where
  "bw_data_6 = [495, 320, 489, 166, 603, 179, 403, 916, 650, 800, 400, 259, 101, 388, 743, 108, 451, 531, 110, 546, 538, 539, 30, 888, 426, 733, 579, 266, 731, 14, 690, 281]"
definition bw_data_7 :: "u32 list" where
  "bw_data_7 = [2, 128, 200, 787, 694, 974, 753, 202, 94, 1005, 1, 714, 801, 290, 550, 331, 892, 265, 354, 595, 1006, 943, 261, 580, 120, 239, 836, 575, 704, 827, 745, 386]"
definition bw_data_8 :: "u32 list" where
  "bw_data_8 = [627, 874, 317, 503, 242, 333, 345, 680, 661, 40, 473, 589, 594, 885, 578, 467, 545, 851, 700, 730, 338, 718, 87, 307, 214, 518, 4, 410, 465, 10, 994, 515]"
definition bw_data_9 :: "u32 list" where
  "bw_data_9 = [640, 471, 670, 282, 106, 353, 853, 496, 795, 709, 835, 485, 897, 454, 569, 859, 146, 169, 985, 115, 930, 526, 124, 990, 207, 905, 979, 926, 13, 414, 933, 702]"
definition bw_data_10 :: "u32 list" where
  "bw_data_10 = [691, 103, 674, 288, 705, 736, 241, 951, 637, 327, 275, 609, 182, 689, 699, 237, 201, 389, 184, 76, 3, 425, 381, 953, 810, 420, 132, 399, 998, 391, 732, 438]"
definition bw_data_11 :: "u32 list" where
  "bw_data_11 = [765, 43, 316, 547, 352, 416, 441, 922, 5, 363, 390, 793, 82, 121, 213, 643, 85, 328, 271, 749, 746, 960, 507, 764, 927, 178, 554, 191, 687, 88, 675, 133]"
definition bw_data_12 :: "u32 list" where
  "bw_data_12 = [1019, 879, 802, 34, 591, 744, 90, 6, 429, 646, 645, 520, 823, 31, 747, 79, 469, 574, 238, 260, 272, 302, 368, 925, 455, 989, 404, 458, 629, 1022, 794, 468]"
definition bw_data_13 :: "u32 list" where
  "bw_data_13 = [1014, 492, 896, 819, 326, 666, 708, 138, 293, 366, 855, 542, 167, 312, 652, 809, 788, 134, 607, 978, 44, 506, 140, 644, 849, 443, 1002, 651, 817, 562, 551, 769]"
definition bw_data_14 :: "u32 list" where
  "bw_data_14 = [424, 552, 821, 362, 75, 662, 185, 334, 342, 536, 516, 38, 23, 786, 292, 831, 232, 466, 878, 83, 741, 63, 614, 906, 513, 969, 348, 32, 405, 325, 664, 313]"
definition bw_data_15 :: "u32 list" where
  "bw_data_15 = [982, 51, 1020, 739, 116, 59, 654, 517, 903, 528, 206, 428, 593, 755, 863, 822, 947, 582, 585, 329, 1012, 1015, 397, 590, 227, 70, 555, 789, 965, 460, 487, 11]"
definition bw_data_16 :: "u32 list" where
  "bw_data_16 = [323, 196, 1001, 783, 612, 586, 22, 408, 145, 890, 543, 223, 942, 453, 86, 949, 477, 866, 688, 355, 406, 93, 521, 339, 175, 52, 630, 152, 277, 1023, 790, 27]"
definition bw_data_17 :: "u32 list" where
  "bw_data_17 = [824, 269, 759, 683, 235, 904, 1003, 46, 336, 807, 611, 784, 588, 154, 240, 934, 295, 422, 980, 322, 617, 525, 1017, 19, 535, 901, 448, 948, 459, 676, 359, 407]"
definition bw_data_18 :: "u32 list" where
  "bw_data_18 = [681, 857, 734, 656, 412, 758, 725, 212, 123, 838, 48, 684, 653, 791, 868, 847, 53, 100, 190, 510, 975, 402, 481, 153, 988, 658, 939, 250, 751, 685, 932, 137]"
definition bw_data_19 :: "u32 list" where
  "bw_data_19 = [665, 351, 156, 508, 490, 464, 567, 340, 881, 842, 24, 61, 72, 245, 62, 311, 606, 226, 125, 502, 126, 677, 556, 197, 332, 720, 537, 211, 419, 601, 710, 210]"
definition bw_data_20 :: "u32 list" where
  "bw_data_20 = [559, 532, 392, 900, 514, 748, 781, 983, 476, 530, 446, 893, 721, 977, 343, 417, 923, 560, 584, 981, 752, 256, 344, 570, 161, 636, 264, 248, 147, 534, 616, 395]"
definition bw_data_21 :: "u32 list" where
  "bw_data_21 = [762, 385, 808, 774, 21, 780, 564, 36, 678, 936, 957, 95, 47, 309, 68, 387, 604, 987, 639, 463, 136, 540, 872, 382, 895, 792, 642, 621, 267, 815, 337, 973]"
definition bw_data_22 :: "u32 list" where
  "bw_data_22 = [117, 449, 968, 421, 216, 357, 919, 162, 692, 756, 509, 967, 39, 249, 962, 573, 160, 461, 199, 1018, 620, 828, 367, 220, 1013, 785, 341, 398, 335, 972, 377, 635]"
definition bw_data_23 :: "u32 list" where
  "bw_data_23 = [941, 577, 262, 565, 871, 244, 413, 648, 813, 938, 475, 42, 378, 659, 826, 880, 850, 655, 361, 920, 727, 209, 257, 92, 796, 867, 833, 221, 66, 1008, 189, 563]"
definition bw_data_24 :: "u32 list" where
  "bw_data_24 = [176, 289, 945, 484, 432, 360, 445, 456, 999, 811, 321, 493, 105, 884, 393, 924, 143, 812, 81, 706, 816, 278, 782, 599, 35, 294, 820, 57, 686, 956, 231, 394]"
definition bw_data_25 :: "u32 list" where
  "bw_data_25 = [804, 862, 908, 198, 488, 65, 376, 712, 970, 770, 910, 297, 894, 371, 846, 234, 80, 301, 71, 625, 844, 737, 504, 102, 597, 649, 498, 25, 273, 929, 236, 865]"
definition bw_data_26 :: "u32 list" where
  "bw_data_26 = [668, 45, 280, 155, 330, 856, 618, 168, 251, 347, 188, 435, 279, 760, 971, 149, 41, 805, 984, 33, 891, 861, 818, 113, 409, 1004, 418, 854, 364, 440, 500, 439]"
definition bw_data_27 :: "u32 list" where
  "bw_data_27 = [64, 541, 433, 350, 558, 771, 318, 315, 158, 839, 89, 119, 224, 127, 8, 915, 300, 203, 641, 171, 628, 624, 843, 479, 287, 610, 1011, 258, 742, 299, 511, 937]"
definition bw_data_28 :: "u32 list" where
  "bw_data_28 = [931, 499, 505, 776, 961, 976, 370, 728, 497, 356, 73, 587, 519, 864, 992, 986, 553, 97, 483, 111, 141, 442, 845, 358, 918, 457, 602, 757, 26, 431, 954, 626]"
definition bw_data_29 :: "u32 list" where
  "bw_data_29 = [566, 996, 512, 472, 268, 462, 622, 217, 1007, 527, 215, 660, 285, 955, 229, 673, 253, 49, 754, 993, 615, 667, 840, 501, 608, 576, 657, 218, 696, 592, 529, 858]"
definition bw_data_30 :: "u32 list" where
  "bw_data_30 = [18, 150, 54, 308, 852, 763, 777, 305, 605, 131, 729, 436, 415, 122, 877, 647, 427, 832, 913, 928, 274, 306, 959, 310, 369, 170, 324, 139, 29, 966, 834, 444]"
definition bw_data_31 :: "u32 list" where
  "bw_data_31 = [561, 682, 383, 365, 91, 482, 255, 486, 898, 671, 740, 825, 703, 204, 711, 598, 181, 1000, 228, 380, 276, 470, 252, 135, 437, 112, 715, 568, 952, 225, 875, 0]"

definition bw_data :: "u32 list" where
  "bw_data = bw_data_0 @ bw_data_1 @ bw_data_2 @ bw_data_3 @ bw_data_4 @ bw_data_5 @ bw_data_6 @ bw_data_7 @ bw_data_8
     @ bw_data_9 @ bw_data_10 @ bw_data_11 @ bw_data_12 @ bw_data_13 @ bw_data_14 @ bw_data_15 @ bw_data_16
     @ bw_data_17 @ bw_data_18 @ bw_data_19 @ bw_data_20 @ bw_data_21 @ bw_data_22 @ bw_data_23 @ bw_data_24
     @ bw_data_25 @ bw_data_26 @ bw_data_27 @ bw_data_28 @ bw_data_29 @ bw_data_30 @ bw_data_31"

text \<open>What the proofs use of the rows: their lengths and sums.\<close>

lemma bw_rows:
  "length bw_data_0 = 32 \<and> sum_list bw_data_0 = 15093"
  "length bw_data_1 = 32 \<and> sum_list bw_data_1 = 14939"
  "length bw_data_2 = 32 \<and> sum_list bw_data_2 = 15344"
  "length bw_data_3 = 32 \<and> sum_list bw_data_3 = 17197"
  "length bw_data_4 = 32 \<and> sum_list bw_data_4 = 17514"
  "length bw_data_5 = 32 \<and> sum_list bw_data_5 = 15766"
  "length bw_data_6 = 32 \<and> sum_list bw_data_6 = 14373"
  "length bw_data_7 = 32 \<and> sum_list bw_data_7 = 16854"
  "length bw_data_8 = 32 \<and> sum_list bw_data_8 = 15614"
  "length bw_data_9 = 32 \<and> sum_list bw_data_9 = 18538"
  "length bw_data_10 = 32 \<and> sum_list bw_data_10 = 14976"
  "length bw_data_11 = 32 \<and> sum_list bw_data_11 = 14255"
  "length bw_data_12 = 32 \<and> sum_list bw_data_12 = 16712"
  "length bw_data_13 = 32 \<and> sum_list bw_data_13 = 18540"
  "length bw_data_14 = 32 \<and> sum_list bw_data_14 = 14331"
  "length bw_data_15 = 32 \<and> sum_list bw_data_15 = 18257"
  "length bw_data_16 = 32 \<and> sum_list bw_data_16 = 15033"
  "length bw_data_17 = 32 \<and> sum_list bw_data_17 = 18107"
  "length bw_data_18 = 32 \<and> sum_list bw_data_18 = 18091"
  "length bw_data_19 = 32 \<and> sum_list bw_data_19 = 12794"
  "length bw_data_20 = 32 \<and> sum_list bw_data_20 = 18183"
  "length bw_data_21 = 32 \<and> sum_list bw_data_21 = 17572"
  "length bw_data_22 = 32 \<and> sum_list bw_data_22 = 17085"
  "length bw_data_23 = 32 \<and> sum_list bw_data_23 = 18146"
  "length bw_data_24 = 32 \<and> sum_list bw_data_24 = 16207"
  "length bw_data_25 = 32 \<and> sum_list bw_data_25 = 17041"
  "length bw_data_26 = 32 \<and> sum_list bw_data_26 = 15474"
  "length bw_data_27 = 32 \<and> sum_list bw_data_27 = 14373"
  "length bw_data_28 = 32 \<and> sum_list bw_data_28 = 18421"
  "length bw_data_29 = 32 \<and> sum_list bw_data_29 = 18072"
  "length bw_data_30 = 32 \<and> sum_list bw_data_30 = 15413"
  "length bw_data_31 = 32 \<and> sum_list bw_data_31 = 15461"
  by (simp_all add: bw_data_0_def bw_data_1_def bw_data_2_def bw_data_3_def bw_data_4_def bw_data_5_def bw_data_6_def bw_data_7_def bw_data_8_def bw_data_9_def bw_data_10_def bw_data_11_def
      bw_data_12_def bw_data_13_def bw_data_14_def bw_data_15_def bw_data_16_def bw_data_17_def bw_data_18_def bw_data_19_def bw_data_20_def bw_data_21_def bw_data_22_def bw_data_23_def
      bw_data_24_def bw_data_25_def bw_data_26_def bw_data_27_def bw_data_28_def bw_data_29_def bw_data_30_def bw_data_31_def)

lemma bw_data_length: "length bw_data = 1024"
  by (simp add: bw_data_def bw_rows)

lemma bw_data_sum: "sum_list bw_data = 523776"
  by (simp add: bw_data_def bw_rows)

end
