(* ===== verification/Network_Tests.thy ===== *)
theory Network_Tests
  imports Memory_Tests Start_Up HW_Barrier Network_Data
begin

text \<open>
  Programs in which all tiles load the network at once: \<open>spmd/network_test_bandwidth\<close>,
  \<open>spmd/network_test_all_to_all\<close>, \<open>spmd/network_test_all_to_cache\<close> and \<open>spmd/memtest2022\<close>. Between two barriers
  the tiles write to words of their own, so the isolation theorem applies. The barriers of the second and the third
  program are the hardware barrier and the assembly routine \<open>bsg_barrier_amoadd\<close>; these are parameters.
\<close>

section \<open>The code\<close>

text \<open>The hardware barrier's instructions and the barrier in assembly.\<close>

record barrier_calls =
  barrier_amoadd :: proc
  csrw_barcfg :: "u32 \<Rightarrow> proc"
  barsend :: proc
  barrecv :: proc

definition join_hw :: "barrier_calls \<Rightarrow> proc" where
  "join_hw hw = seq bsg_fence (seq (barsend hw) (barrecv hw))"

text \<open>The stores of \<open>bsg_hw_barrier_config_init\<close> to the array in DRAM.\<close>

definition store_barrier_config :: "cfg \<Rightarrow> int \<Rightarrow> u32 \<Rightarrow> proc" where
  "store_barrier_config c rf barcfg =
     (let tx = uint (bsg_tiles_X c); ty = uint (bsg_tiles_Y c) in
      for_each [0..tx - 1] (\<lambda>x. for_each [0..ty - 1] (\<lambda>y.
        Act (Store32 (barcfg + 4 * word_of_int (x + y * tx)) (config_val rf tx ty x y)) Ret)))"

definition set_up_barrier :: "cfg \<Rightarrow> barrier_calls \<Rightarrow> int \<Rightarrow> tile \<Rightarrow> u32 \<Rightarrow> proc" where
  "set_up_barrier c hw rf t barcfg =
     (let bsg_id = bsg_x_y_to_id c (fst t) (snd t) in
      seq (if bsg_id = 0 then store_barrier_config c rf barcfg else Ret 0)
        (seq bsg_fence (seq (barrier_amoadd hw)
          (seq (Act (Load32 (barcfg + 4 * bsg_id)) (csrw_barcfg hw)) (join_hw hw)))))"

text \<open>\<open>network_test_all_to_cache\<close>\<close>

definition group_N :: "cfg \<Rightarrow> nat" where
  "group_N c = unat (bsg_tiles_X c) * unat (bsg_tiles_Y c)"

definition cache_write :: "cfg \<Rightarrow> tile \<Rightarrow> u32 \<Rightarrow> proc" where
  "cache_write c t data =
     for_each [0..<64] (\<lambda>i. let idx = of_nat (group_N c) * of_nat i + bsg_x_y_to_id c (fst t) (snd t) in
       Act (Store32 (data + 4 * idx) idx) Ret)"

definition cache_validate :: "cfg \<Rightarrow> tile \<Rightarrow> u32 \<Rightarrow> proc" where
  "cache_validate c t data = for_each [0..<64 * group_N c] (\<lambda>i. check_word c t (data + 4 * of_nat i) (of_nat i))"

definition all_to_cache_main :: "cfg \<Rightarrow> barrier_calls \<Rightarrow> int \<Rightarrow> tile \<Rightarrow> u32 \<Rightarrow> u32 \<Rightarrow> proc" where
  "all_to_cache_main c hw rf t barcfg data =
     seq (set_up_barrier c hw rf t barcfg)
       (seq (cache_write c t data)
         (seq (join_hw hw)
           (if bsg_x_y_to_id c (fst t) (snd t) = 0 then seq (cache_validate c t data) (bsg_finish c t) else spin_forever)))"

text \<open>\<open>network_test_all_to_all\<close>; \<open>data\<close> is the local address of the array, the same in all tiles.\<close>

definition all_write :: "cfg \<Rightarrow> tile \<Rightarrow> u32 \<Rightarrow> proc" where
  "all_write c t data =
     (let bsg_id = bsg_x_y_to_id c (fst t) (snd t) in
      for_each [0..<unat (bsg_tiles_X c)] (\<lambda>x. for_each [0..<unat (bsg_tiles_Y c)] (\<lambda>y.
        bsg_remote_store (of_nat x) (of_nat y) (data + 4 * bsg_id) bsg_id)))"

definition all_validate :: "cfg \<Rightarrow> tile \<Rightarrow> u32 \<Rightarrow> proc" where
  "all_validate c t data =
     for_each [0..<unat (bsg_x_y_to_id c (fst t) (snd t))] (\<lambda>i. check_word c t (data + 4 * of_nat i) (of_nat i))"

definition all_to_all_main :: "cfg \<Rightarrow> barrier_calls \<Rightarrow> int \<Rightarrow> tile \<Rightarrow> u32 \<Rightarrow> u32 \<Rightarrow> proc" where
  "all_to_all_main c hw rf t barcfg data =
     seq (set_up_barrier c hw rf t barcfg)
       (seq (all_write c t data)
         (seq (join_hw hw)
           (seq (all_validate c t data)
             (seq (join_hw hw)
               (if bsg_x_y_to_id c (fst t) (snd t) = 0 then bsg_finish c t else spin_forever)))))"

text \<open>\<open>memtest2022\<close>\<close>

definition m22_N :: nat where "m22_N = 3500"

definition m22_array :: "cfg \<Rightarrow> tile \<Rightarrow> u32 \<Rightarrow> u32" where
  "m22_array c t data = data + 4 * (bsg_x_y_to_id c (fst t) (snd t) * of_nat m22_N)"

definition m22_prefetch :: "u32 \<Rightarrow> proc" where
  "m22_prefetch myarray = for_each (map (\<lambda>k. 8 * k) [0..<438]) (\<lambda>j. Act (Load32 (myarray + 4 * of_nat j)) Ret)"

definition m22_write :: "cfg \<Rightarrow> tile \<Rightarrow> u32 \<Rightarrow> proc" where
  "m22_write c t myarray = for_each [0..<m22_N] (\<lambda>j. if j mod 7 = 0 \<or> j mod 13 = 0
     then Act (Store32 (myarray + 4 * of_nat j) (bsg_x_y_to_id c (fst t) (snd t) + of_nat j)) Ret else Ret 0)"

definition m22_validate :: "cfg \<Rightarrow> tile \<Rightarrow> u32 \<Rightarrow> proc" where
  "m22_validate c t myarray = for_each (map (\<lambda>k. 2 * k) [0..<1750]) (\<lambda>j.
     check_word c t (myarray + 4 * of_nat j)
       (if j mod 7 = 0 \<or> j mod 13 = 0 then bsg_x_y_to_id c (fst t) (snd t) + of_nat j else 0))"

definition memtest2022_work :: "cfg \<Rightarrow> tile \<Rightarrow> u32 \<Rightarrow> proc" where
  "memtest2022_work c t data =
     (let myarray = m22_array c t data in seq (m22_prefetch myarray) (seq (m22_write c t myarray) (m22_validate c t myarray)))"

definition memtest2022_main :: "cfg \<Rightarrow> tile \<Rightarrow> u32 \<Rightarrow> proc" where
  "memtest2022_main c t data = seq (memtest2022_work c t data) (seq (bsg_finish c t) spin_forever)"

text \<open>\<open>network_test_bandwidth\<close>\<close>

definition bw_load :: "cfg \<Rightarrow> tile \<Rightarrow> u32 \<Rightarrow> proc" where
  "bw_load c t data =
     (let curr_idx = bsg_x_y_to_id c (fst t) (snd t) * 8 in
      for_fold [0..<1024 div 8] (\<lambda>i sum.
        let idx = c_rem (curr_idx + 8 * of_nat i) 1024 in
        load_list (map (\<lambda>k. data + 4 * (idx + of_nat k)) [0..<8]) (\<lambda>d.
          Ret (sum + (d ! 0 + d ! 1 + d ! 2 + d ! 3 + d ! 4 + d ! 5 + d ! 6 + d ! 7)))) 0)"

text \<open>The program up to its barrier: the loads and the check of the sum.\<close>

definition bw_work :: "cfg \<Rightarrow> tile \<Rightarrow> u32 \<Rightarrow> proc" where
  "bw_work c t data = bind (bw_load c t data) (\<lambda>sum. if sum \<noteq> 523776 then bsg_fail c t else Ret 0)"

definition bandwidth_main :: "cfg \<Rightarrow> tile \<Rightarrow> u32 \<Rightarrow> u32 \<Rightarrow> u32 \<Rightarrow> proc" where
  "bandwidth_main c t data row col =
     (let (r_barrier, c_barrier) = INIT_TILE_GROUP_BARRIER row col 0 (bsg_tiles_X c - 1) 0 (bsg_tiles_Y c - 1) in
      seq (bw_work c t data)
        (seq (bsg_tile_group_barrier (unat (bsg_tiles_X c)) (unat (bsg_tiles_Y c)) t r_barrier c_barrier)
          (if bsg_x_y_to_id c (fst t) (snd t) = 0 then bsg_finish c t else spin_forever)))"

lemma for_each_seq_Ret: "seq (for_each xs f) (Ret 0) = for_each xs f"
  by (induction xs) auto


section \<open>All tiles to the caches\<close>

text \<open>The array of \<open>64 N\<close> words at the offset \<open>d\<close> of the DRAM segment; the words of a tile.\<close>

abbreviation cache_word :: "nat \<Rightarrow> nat \<Rightarrow> npa" where
  "cache_word d k \<equiv> Dram (of_nat (d + 4 * k))"

definition cache_words :: "cfg \<Rightarrow> tile \<Rightarrow> nat set" where
  "cache_words c t = (\<lambda>i. group_N c * i + id_of c t) ` {..<64}"

lemma id_less: "group_fits c \<Longrightarrow> in_group c t \<Longrightarrow> id_of c t < group_N c"
  using tile_ids [of c] unfolding bij_betw_def group_N_def by (auto simp: group_tiles_def)

lemma id_inj: "group_fits c \<Longrightarrow> in_group c t \<Longrightarrow> in_group c u \<Longrightarrow> id_of c t = id_of c u \<Longrightarrow> t = u"
  using bij_betw_imp_inj_on [OF tile_ids [of c]] unfolding inj_on_def group_tiles_def by blast

lemma id_surj: "group_fits c \<Longrightarrow> k < group_N c \<Longrightarrow> \<exists>t. in_group c t \<and> id_of c t = k"
  using tile_ids [of c] unfolding bij_betw_def group_N_def group_tiles_def by (metis (mono_tags, lifting) imageE lessThan_iff mem_Collect_eq)

lemma group_N_le: "group_fits c \<Longrightarrow> group_N c \<le> 2048"
  using mult_le_mono [of "unat (bsg_tiles_X c)" 64 "unat (bsg_tiles_Y c)" 32] by (simp add: group_N_def group_fits_def)

lemma array_eva: "d + 4 * n \<le> 2 ^ 31 \<Longrightarrow> i < n \<Longrightarrow> eva_to_npa c t (dram d + 4 * of_nat i) = Dram (of_nat (d + 4 * i))"
  using array_index [of d n i] eva_dram [of "of_nat (d + 4 * i)" c t] by (simp add: unat_of_nat_lt del: of_nat_add of_nat_mult)

lemma array_cells: "d + 4 * n \<le> 2 ^ 31 \<Longrightarrow> disjoint_cells (cache_word d) {..<n}"
  using array_apart [of d n undefined undefined] array_eva [of d n] unfolding words_apart_def disjoint_cells_def by simp

lemma cache_words_props:
  assumes "group_fits c" and "in_group c t"
  shows "cache_words c t \<subseteq> {..<64 * group_N c}" and "in_group c u \<Longrightarrow> t \<noteq> u \<Longrightarrow> cache_words c t \<inter> cache_words c u = {}"
proof -
  note i = id_less [OF assms]
  have "group_N c * k + id_of c t < 64 * group_N c" if "k < 64" for k
  proof -
    have "group_N c * k + id_of c t < group_N c * Suc k" using i by simp
    also have "\<dots> \<le> group_N c * 64" using that by (intro mult_le_mono2) simp
    finally show ?thesis by (simp add: mult.commute)
  qed
  then show "cache_words c t \<subseteq> {..<64 * group_N c}" by (auto simp: cache_words_def)
  show "cache_words c t \<inter> cache_words c u = {}" if u: "in_group c u" "t \<noteq> u"
  proof (rule equals0I)
    fix k
    assume "k \<in> cache_words c t \<inter> cache_words c u"
    then obtain i j where "k = group_N c * i + id_of c t" "k = group_N c * j + id_of c u" unfolding cache_words_def by blast
    then have "k mod group_N c = id_of c t" "k mod group_N c = id_of c u"
      using i id_less [OF assms(1) u(1)] by (metis mod_less mod_mult_self4)+
    then show False using id_inj [OF assms u(1)] u(2) by simp
  qed
qed

lemma cache_write_stores:
  assumes "group_fits c" and "in_group c t"
  shows "cache_write c t data = for_each [0..<64] (\<lambda>i. Act (Store32 (data + 4 * of_nat (group_N c * i + id_of c t)) (of_nat (group_N c * i + id_of c t))) Ret)"
  by (simp add: cache_write_def Let_def)

lemma cache_write_run:
  assumes "group_fits c" and "in_group c t" and "d + 256 * group_N c \<le> 2 ^ 31"
  shows "\<exists>m'. runs c t (cache_write c t (dram d), m) (Ret 0, m') \<and> (\<forall>k \<in> cache_words c t. rd m' (cache_word d k) = of_nat k)"
proof -
  let ?p = "\<lambda>k. dram d + 4 * of_nat k :: u32" and ?ks = "map (\<lambda>i. group_N c * i + id_of c t) [0..<64]"
  have d: "d + 4 * (64 * group_N c) \<le> 2 ^ 31" using assms(3) by simp
  have w: "set ?ks = cache_words c t" by (auto simp: cache_words_def)
  have "cache_write c t (dram d) = seq (for_each ?ks (\<lambda>k. Act (Store32 (?p k) (of_nat k)) Ret)) (Ret 0)"
    unfolding cache_write_stores [OF assms(1,2)] for_each_map by (simp add: for_each_seq_Ret)
  moreover obtain m' where "runs c t (seq (for_each ?ks (\<lambda>k. Act (Store32 (?p k) (of_nat k)) Ret)) (Ret 0), m) (Ret 0, m')"
      "holds c t ?p of_nat ({} \<union> set ?ks) m'"
    using store_family_run [OF array_apart [OF d] empty_subsetI _ holds_none, of ?ks] cache_words_props(1) [OF assms(1,2)]
    unfolding w by blast
  moreover have "eva_to_npa c t (?p k) = cache_word d k" if "k \<in> cache_words c t" for k
    using array_eva [OF d] cache_words_props(1) [OF assms(1,2)] that by blast
  ultimately show ?thesis unfolding holds_def w by (intro exI [of _ m']) auto
qed

lemma own_cache_write:
  assumes "group_fits c" and "in_group c t" and "d + 256 * group_N c \<le> 2 ^ 31"
  shows "own_proc c t {} (words_at (cache_word d) (cache_words c t)) (cache_write c t (dram d))"
proof -
  have d: "d + 4 * (64 * group_N c) \<le> 2 ^ 31" using assms(3) by simp
  have k: "group_N c * i + id_of c t \<in> cache_words c t" if "i < 64" for i using that by (auto simp: cache_words_def)
  have "own_op c t {} (words_at (cache_word d) (cache_words c t)) (Store32 (dram d + 4 * of_nat (group_N c * i + id_of c t)) v)" if "i < 64" for i v
    using array_eva [OF d] cache_words_props(1) [OF assms(1,2)] k [OF that] by (intro own_store) blast+
  then show ?thesis unfolding cache_write_stores [OF assms(1,2)] by (intro own_for_each) simp
qed

lemma passes_bsg_finish: "io_fits c \<Longrightarrow> passes c t (bsg_finish c t) m"
  unfolding passes_def bsg_finish_def
  by (rule exI, rule exI [of _ Ret], rule conjI, rule runs_Act, simp, rule runs_refl) (simp add: eva_io io_log_def)

text \<open>The words of all tiles, once written, pass the check of the origin.\<close>

lemma cache_validate_passes:
  assumes "io_fits c" and "d + 256 * group_N c \<le> 2 ^ 31" and "\<And>k. k < 64 * group_N c \<Longrightarrow> rd m (cache_word d k) = of_nat k"
  shows "passes c t (seq (cache_validate c t (dram d)) (bsg_finish c t)) m"
proof -
  have d: "d + 4 * (64 * group_N c) \<le> 2 ^ 31" using assms(2) by simp
  have "runs c t (seq (cache_validate c t (dram d)) (bsg_finish c t), m) (bsg_finish c t, m)"
    unfolding cache_validate_def by (rule check_words_run) (use array_eva [OF d] assms(3) in simp)
  then show ?thesis using passes_runs passes_bsg_finish [OF assms(1)] by blast
qed

lemma all_to_cache_correct:
  assumes g: "group_fits c" and io: "io_fits c" and d: "d + 256 * group_N c \<le> 2 ^ 31"
    and r: "reachable c (\<lambda>t. cache_write c t (dram d), m) s"
  shows "(\<exists>s'. reachable c s s' \<and> finished c s')
    \<and> (finished c s \<longrightarrow> passes c (0, 0) (seq (cache_validate c (0, 0) (dram d)) (bsg_finish c (0, 0))) (snd s))"
proof -
  have d': "d + 4 * (64 * group_N c) \<le> 2 ^ 31" using d by simp
  have I: "isolated c {} (\<lambda>t. words_at (cache_word d) (cache_words c t)) (\<lambda>t. cache_write c t (dram d))"
    by (rule words_isolated [OF array_cells [OF d']])
      (use cache_words_props [OF g] own_cache_write [OF g _ d] in \<open>simp_all add: off_io_def\<close>)
  note res = isolated_words_result [OF I cache_write_run [OF g _ d] r]
  show ?thesis
  proof (intro conjI impI)
    show "\<exists>s'. reachable c s s' \<and> finished c s'" using res by blast
    assume f: "finished c s"
    show "passes c (0, 0) (seq (cache_validate c (0, 0) (dram d)) (bsg_finish c (0, 0))) (snd s)"
    proof (rule cache_validate_passes [OF io d])
      fix k
      assume k: "k < 64 * group_N c"
      then have n: "0 < group_N c" by (cases "group_N c") auto
      obtain t where t: "in_group c t" "id_of c t = k mod group_N c"
        using id_surj [OF g, of "k mod group_N c"] n by auto
      have "k = group_N c * (k div group_N c) + id_of c t" "k div group_N c < 64"
        using k n t(2) by (simp_all add: less_mult_imp_div_less)
      then have "k \<in> cache_words c t" unfolding cache_words_def by blast
      then show "rd (snd s) (cache_word d k) = of_nat k" using res f t(1) by blast
    qed
  qed
qed

section \<open>All tiles to all tiles\<close>

text \<open>Word \<open>i\<close> of the array of tile \<open>u\<close>.\<close>

definition all_word :: "cfg \<Rightarrow> nat \<Rightarrow> tile \<times> nat \<Rightarrow> npa" where
  "all_word c a = (\<lambda>(u, i). tile_npa c u (of_nat (a + 4 * i)))"

definition all_layout :: "cfg \<Rightarrow> nat \<Rightarrow> bool" where
  "all_layout c a \<longleftrightarrow> group_fits c \<and> io_fits c \<and> a + 4 * group_N c \<le> 2 ^ 18
     \<and> (\<forall>t e. in_group c t \<longrightarrow> off_io c (tile_npa c t e))"

definition all_cells :: "cfg \<Rightarrow> (tile \<times> nat) set" where
  "all_cells c = {(u, i). in_group c u \<and> i < group_N c}"

definition all_own :: "cfg \<Rightarrow> tile \<Rightarrow> (tile \<times> nat) set" where
  "all_own c t = {(u, i). in_group c u \<and> i = id_of c t}"

lemma all_disjoint:
  assumes "all_layout c a"
  shows "disjoint_cells (all_word c a) (all_cells c)"
proof (rule disjoint_tile_cells [where tile = fst and off = "\<lambda>x. a + 4 * snd x"])
  show "group_fits c" using assms by (simp add: all_layout_def)
  have b: "a + 4 * group_N c \<le> 262144" using assms by (simp add: all_layout_def)
  show "in_group c (fst x) \<and> all_word c a x = tile_npa c (fst x) (of_nat (a + 4 * snd x)) \<and> a + 4 * snd x + 4 \<le> 2 ^ 32"
    if "x \<in> all_cells c" for x
    using that b by (auto simp: all_cells_def all_word_def)
  show "a + 4 * snd x + 4 \<le> a + 4 * snd y \<or> a + 4 * snd y + 4 \<le> a + 4 * snd x"
    if "x \<in> all_cells c" "y \<in> all_cells c" "x \<noteq> y" "fst x = fst y" for x y
  proof -
    have "snd x \<noteq> snd y" using that by (auto simp: prod_eq_iff)
    then show ?thesis by linarith
  qed
qed

lemma all_eva:
  assumes "all_layout c a" and "(u, i) \<in> all_cells c"
  shows "eva_to_npa c t (bsg_remote_ptr (fst u) (snd u) (of_nat a + 4 * of_nat i)) = all_word c a (u, i)"
    and "eva_to_npa c u (of_nat a + 4 * of_nat i) = all_word c a (u, i)"
proof -
  have g: "group_fits c" and u: "in_group c u" and b: "a + 4 * i < 2 ^ 18"
    using assms by (auto simp: all_layout_def all_cells_def)
  have x: "unat (fst u) < 64" "unat (snd u) < 32"
    using u g unfolding in_group_def group_fits_def word_less_nat_alt by linarith+
  have w: "of_nat a + 4 * of_nat i = (of_nat (a + 4 * i) :: u32)" "unat (of_nat (a + 4 * i) :: u32) < 2 ^ 18"
    using b unat_of_nat_lt [of "a + 4 * i"] by (simp, simp del: of_nat_add of_nat_mult)
  show "eva_to_npa c t (bsg_remote_ptr (fst u) (snd u) (of_nat a + 4 * of_nat i)) = all_word c a (u, i)"
    using eva_remote [OF x w(2)] unfolding w(1) by (simp add: all_word_def)
  show "eva_to_npa c u (of_nat a + 4 * of_nat i) = all_word c a (u, i)"
    using eva_local [of "of_nat (a + 4 * i)" c u] w(2) unfolding w(1) by (simp add: all_word_def)
qed

lemma for_each_product: "for_each xs (\<lambda>x. for_each ys (f x)) = for_each (List.product xs ys) (\<lambda>(x, y). f x y)"
  by (induction xs) (simp_all add: for_each_append for_each_map)

definition all_list :: "cfg \<Rightarrow> tile \<Rightarrow> (tile \<times> nat) list" where
  "all_list c t = map (\<lambda>(x, y). ((of_nat x, of_nat y), id_of c t)) (List.product [0..<unat (bsg_tiles_X c)] [0..<unat (bsg_tiles_Y c)])"

lemma set_all_list: "set (all_list c t) = all_own c t"
proof -
  have "(u, i) \<in> set (all_list c t) \<longleftrightarrow>
    (\<exists>n < unat (bsg_tiles_X c). fst u = of_nat n) \<and> (\<exists>n < unat (bsg_tiles_Y c). snd u = of_nat n) \<and> i = id_of c t" for u i
    by (cases u) (fastforce simp: all_list_def image_def)
  then show ?thesis unfolding word_below all_own_def in_group_def by auto
qed

lemma all_write_stores:
  "all_write c t (of_nat a) = for_each (all_list c t)
     (\<lambda>x. Act (Store32 (bsg_remote_ptr (fst (fst x)) (snd (fst x)) (of_nat a + 4 * of_nat (snd x))) (of_nat (snd x))) Ret)"
  unfolding all_write_def all_list_def for_each_product Let_def for_each_map bsg_remote_store_def
  by (intro for_each_cong) auto

lemma all_write_run:
  assumes L: "all_layout c a" and t: "in_group c t"
  shows "\<exists>m'. runs c t (all_write c t (of_nat a), m) (Ret 0, m') \<and> (\<forall>x \<in> all_own c t. rd m' (all_word c a x) = of_nat (snd x))"
proof -
  let ?p = "\<lambda>x. bsg_remote_ptr (fst (fst x)) (snd (fst x)) (of_nat a + 4 * of_nat (snd x))" and ?v = "\<lambda>x. of_nat (snd x) :: u32"
  have g: "group_fits c" using L by (simp add: all_layout_def)
  have e: "eva_to_npa c t (?p x) = all_word c a x" if "x \<in> all_cells c" for x
    using all_eva(1) [OF L, of "fst x" "snd x"] that by simp
  then have apart: "words_apart c t ?p (all_cells c)"
    using all_disjoint [OF L] unfolding words_apart_def disjoint_cells_def by simp
  have sub: "set (all_list c t) \<subseteq> all_cells c"
    using id_less [OF g t] unfolding set_all_list all_own_def all_cells_def by auto
  obtain m' where m': "runs c t (seq (for_each (all_list c t) (\<lambda>x. Act (Store32 (?p x) (?v x)) Ret)) (Ret 0), m) (Ret 0, m')"
      "holds c t ?p ?v ({} \<union> set (all_list c t)) m'"
    using store_family_run [OF apart empty_subsetI sub holds_none, where v = ?v and q = "Ret 0" and m = m] by blast
  have "rd m' (all_word c a x) = of_nat (snd x)" if "x \<in> all_own c t" for x
  proof -
    have "x \<in> all_cells c" using sub that by (auto simp: set_all_list)
    from e [OF this] show ?thesis using bspec [OF m'(2) [unfolded holds_def], of x] that by (simp add: set_all_list)
  qed
  then show ?thesis using m'(1) unfolding all_write_stores for_each_seq_Ret by blast
qed

lemma own_all_write:
  assumes "all_layout c a" and "in_group c t"
  shows "own_proc c t {} (words_at (all_word c a) (all_own c t)) (all_write c t (of_nat a))"
proof -
  have g: "group_fits c" using assms by (simp add: all_layout_def)
  have "own_op c t {} (words_at (all_word c a) (all_own c t))
      (Store32 (bsg_remote_ptr (fst (fst x)) (snd (fst x)) (of_nat a + 4 * of_nat (snd x))) v)" if "x \<in> all_own c t" for x v
    using all_eva(1) [OF assms(1), of "fst x" "snd x" t] that id_less [OF g assms(2)]
    by (intro own_store [of _ _ _ _ x]) (auto simp: all_own_def all_cells_def)
  then show ?thesis unfolding all_write_stores by (intro own_for_each) (simp add: set_all_list)
qed

lemma all_to_all_correct:
  assumes L: "all_layout c a" and r: "reachable c (\<lambda>t. all_write c t (of_nat a), m) s"
  shows "(\<exists>s'. reachable c s s' \<and> finished c s')
    \<and> (finished c s \<longrightarrow> (\<forall>u. in_group c u \<longrightarrow> (\<forall>i < group_N c. rd (snd s) (all_word c a (u, i)) = of_nat i)
        \<and> runs c u (seq (all_validate c u (of_nat a)) q, snd s) (q, snd s)))"
proof -
  have g: "group_fits c" using L by (simp add: all_layout_def)
  have "off_io c (all_word c a x)" if "x \<in> all_cells c" for x
    using L that by (auto simp: all_layout_def all_cells_def all_word_def)
  moreover have "all_own c t \<subseteq> all_cells c" if "in_group c t" for t
    using id_less [OF g that] by (auto simp: all_own_def all_cells_def)
  moreover have "all_own c t \<inter> all_own c u = {}" if "in_group c t" "in_group c u" "t \<noteq> u" for t u
    using id_inj [OF g that(1,2)] that(3) by (auto simp: all_own_def)
  ultimately have I: "isolated c {} (\<lambda>t. words_at (all_word c a) (all_own c t)) (\<lambda>t. all_write c t (of_nat a))"
    using own_all_write [OF L] by (intro words_isolated [OF all_disjoint [OF L]])
  note res = isolated_words_result [OF I all_write_run [OF L] r]
  have w: "rd (snd s) (all_word c a (u, i)) = of_nat i" if f: "finished c s" and u: "in_group c u" and i: "i < group_N c" for u i
  proof -
    obtain t where "in_group c t" "id_of c t = i" using id_surj [OF g i] by blast
    moreover have "(u, id_of c t) \<in> all_own c t" using u by (simp add: all_own_def)
    ultimately show ?thesis using res f by fastforce
  qed
  have "runs c u (seq (all_validate c u (of_nat a)) q, snd s) (q, snd s)" if f: "finished c s" and u: "in_group c u" for u
    unfolding all_validate_def
  proof (rule check_words_run)
    fix i
    assume "i \<in> set [0..<id_of c u]"
    then have "i < group_N c" using id_less [OF g u] by simp
    then show "rd (snd s) (eva_to_npa c u (of_nat a + 4 * of_nat i)) = of_nat i"
      using w [OF f u] all_eva(2) [OF L, of u i] u by (simp add: all_cells_def)
  qed
  then show ?thesis using res w by blast
qed

section \<open>Partly written blocks\<close>

definition m22_words :: "cfg \<Rightarrow> tile \<Rightarrow> nat set" where
  "m22_words c t = {id_of c t * 3500..<id_of c t * 3500 + 3500}"

definition m22_layout :: "cfg \<Rightarrow> nat \<Rightarrow> bool" where
  "m22_layout c d \<longleftrightarrow> group_fits c \<and> io_fits c \<and> d + 4 * (3500 * group_N c) \<le> 2 ^ 31"

lemma m22_index:
  assumes "m22_layout c d" and "in_group c t" and "j < 3500"
  shows "m22_array c t (dram d) + 4 * of_nat j = dram d + 4 * of_nat (id_of c t * 3500 + j)" and "id_of c t * 3500 + j \<in> m22_words c t"
    and "eva_to_npa c u (dram d + 4 * of_nat (id_of c t * 3500 + j)) = cache_word d (id_of c t * 3500 + j)"
proof -
  have g: "group_fits c" and d: "d + 4 * (3500 * group_N c) \<le> 2 ^ 31" using assms(1) by (simp_all add: m22_layout_def)
  show "m22_array c t (dram d) + 4 * of_nat j = dram d + 4 * of_nat (id_of c t * 3500 + j)"
    by (simp add: m22_array_def m22_N_def algebra_simps)
  show "id_of c t * 3500 + j \<in> m22_words c t" using assms(3) by (simp add: m22_words_def)
  have "id_of c t * 3500 + j < 3500 * group_N c"
  proof -
    have "id_of c t * 3500 + j < Suc (id_of c t) * 3500" using assms(3) by simp
    also have "\<dots> \<le> group_N c * 3500" using id_less [OF g assms(2)] by (intro mult_le_mono1) simp
    finally show ?thesis by (simp add: mult.commute)
  qed
  then show "eva_to_npa c u (dram d + 4 * of_nat (id_of c t * 3500 + j)) = cache_word d (id_of c t * 3500 + j)"
    by (rule array_eva [OF d])
qed

lemma m22_words_props:
  assumes "m22_layout c d" and "in_group c t"
  shows "m22_words c t \<subseteq> {..<3500 * group_N c}" and "in_group c u \<Longrightarrow> t \<noteq> u \<Longrightarrow> m22_words c t \<inter> m22_words c u = {}"
proof -
  have g: "group_fits c" using assms(1) by (simp add: m22_layout_def)
  have "id_of c t * 3500 + 3500 \<le> 3500 * group_N c"
    using mult_le_mono2 [of "Suc (id_of c t)" "group_N c" 3500] id_less [OF g assms(2)] by simp
  then show "m22_words c t \<subseteq> {..<3500 * group_N c}" by (auto simp: m22_words_def)
  show "m22_words c t \<inter> m22_words c u = {}" if u: "in_group c u" "t \<noteq> u"
  proof -
    have "id_of c t < id_of c u \<or> id_of c u < id_of c t" using id_inj [OF g assms(2) u(1)] u(2) by linarith
    then show ?thesis by (auto simp: m22_words_def)
  qed
qed

lemma own_m22:
  assumes "m22_layout c d" and "in_group c t"
  shows "own_proc c t {} (words_at (cache_word d) (m22_words c t)) (memtest2022_work c t (dram d))"
proof -
  let ?R = "words_at (cache_word d) (m22_words c t)"
  have io: "io_fits c" using assms(1) by (simp add: m22_layout_def)
  have own: "own_op c t {} ?R (Store32 (m22_array c t (dram d) + 4 * of_nat j) v)" "own_op c t {} ?R (Load32 (m22_array c t (dram d) + 4 * of_nat j))"
    if "j < 3500" for j v
    unfolding m22_index(1) [OF assms that] using m22_index(2,3) [OF assms that] by (blast intro: own_store own_load)+
  let ?a = "m22_array c t (dram d)"
  have "own_proc c t {} ?R (m22_prefetch ?a)" unfolding m22_prefetch_def
  proof (rule own_for_each)
    fix j
    assume "j \<in> set (map (\<lambda>k. 8 * k) [0..<438])"
    then have "j < 3500" by auto
    then show "own_proc c t {} ?R (Act (Load32 (?a + 4 * of_nat j)) Ret)" using own(2) by simp
  qed
  moreover have "own_proc c t {} ?R (m22_write c t ?a)" unfolding m22_write_def m22_N_def
  proof (rule own_for_each)
    fix j
    assume "j \<in> set [0..<3500]"
    then have o: "own_op c t {} ?R (Store32 (?a + 4 * of_nat j) v)" for v using own(1) by simp
    then show "own_proc c t {} ?R (if j mod 7 = 0 \<or> j mod 13 = 0 then Act (Store32 (?a + 4 * of_nat j)
        (bsg_x_y_to_id c (fst t) (snd t) + of_nat j)) Ret else Ret 0)" using o by simp
  qed
  moreover have "own_proc c t {} ?R (m22_validate c t ?a)" unfolding m22_validate_def
  proof (rule own_for_each)
    fix j
    assume "j \<in> set (map (\<lambda>k. 2 * k) [0..<1750])"
    then have "j < 3500" by auto
    then show "own_proc c t {} ?R (check_word c t (?a + 4 * of_nat j) e)" for e
      using own(2) [of j] own_host [OF io] unfolding check_word_def bsg_fail_def spin_forever_def by simp
  qed
  ultimately show ?thesis unfolding memtest2022_work_def Let_def by (intro own_bind)
qed

text \<open>What the word \<open>k\<close> of the part of tile \<open>t\<close> holds in the end, from zero.\<close>

definition m22_value :: "cfg \<Rightarrow> tile \<Rightarrow> nat \<Rightarrow> u32" where
  "m22_value c t k = (let j = k - id_of c t * 3500 in
     if j mod 7 = 0 \<or> j mod 13 = 0 then bsg_x_y_to_id c (fst t) (snd t) + of_nat j else 0)"

lemma for_each_if: "for_each xs (\<lambda>x. if chosen x then f x else Ret 0) = for_each (filter chosen xs) f"
  by (induction xs) auto

lemma loads_run: "runs c t (seq (for_each xs (\<lambda>x. Act (Load32 (p x)) Ret)) q, m) (q, m)"
proof (induction xs)
  case (Cons x xs)
  then show ?case by (auto intro!: runs_Act)
qed simp

lemma m22_run:
  assumes L: "m22_layout c d" and t: "in_group c t" and z: "\<And>k. k < 3500 * group_N c \<Longrightarrow> rd m (cache_word d k) = 0"
  shows "\<exists>m'. runs c t (memtest2022_work c t (dram d), m) (Ret 0, m')
    \<and> (\<forall>k \<in> m22_words c t. rd m' (cache_word d k) = m22_value c t k)"
proof -
  let ?a = "m22_array c t (dram d)" and ?chosen = "\<lambda>j. j mod 7 = 0 \<or> j mod 13 = (0 :: nat)" and ?id = "bsg_x_y_to_id c (fst t) (snd t)"
  let ?p = "\<lambda>j. ?a + 4 * of_nat j" and ?v = "\<lambda>j. ?id + of_nat j" and ?k = "\<lambda>j. id_of c t * 3500 + j"
  have d: "d + 4 * (3500 * group_N c) \<le> 2 ^ 31" using L by (simp add: m22_layout_def)
  have e: "eva_to_npa c t (?p j) = cache_word d (?k j)" "?k j < 3500 * group_N c" if "j < 3500" for j
  proof -
    show "eva_to_npa c t (?p j) = cache_word d (?k j)" unfolding m22_index(1) [OF L t that] by (rule m22_index(3) [OF L t that])
    show "?k j < 3500 * group_N c" using m22_index(2) [OF L t that] m22_words_props(1) [OF L t] by blast
  qed
  have apart: "words_apart c t ?p {..<3500}"
    unfolding words_apart_def disjoint_cells_def
  proof (intro ballI impI)
    fix i j :: nat
    assume ij: "i \<in> {..<3500}" "j \<in> {..<3500}" "i \<noteq> j"
    then have "?k i \<in> {..<3500 * group_N c}" "?k j \<in> {..<3500 * group_N c}" "?k i \<noteq> ?k j" using e(2) by auto
    then show "span4 (eva_to_npa c t (?p i)) \<inter> span4 (eva_to_npa c t (?p j)) = {}"
      using array_cells [OF d] e(1) ij unfolding disjoint_cells_def by (metis lessThan_iff)
  qed
  define m1 where "m1 = put_words c t ?p ?v (filter ?chosen [0..<3500]) m"
  have v: "rd m1 (eva_to_npa c t (?p j)) = (if ?chosen j then ?v j else 0)" if "j < 3500" for j
  proof -
    have z0: "rd m (eva_to_npa c t (?p j)) = 0" unfolding e(1) [OF that] by (rule z [OF e(2) [OF that]])
    have "rd m1 (eva_to_npa c t (?p j)) = (if j \<in> set (filter ?chosen [0..<3500]) then ?v j else rd m (eva_to_npa c t (?p j)))"
      unfolding m1_def by (rule rd_put_words [OF apart]) (use that in auto)
    then show ?thesis using that by (simp only: z0 set_filter mem_Collect_eq set_upt atLeastLessThan_iff le0 simp_thms)
  qed
  have 1: "runs c t (memtest2022_work c t (dram d), m) (seq (m22_write c t ?a) (seq (m22_validate c t ?a) (Ret 0)), m)"
    unfolding memtest2022_work_def m22_prefetch_def Let_def bind_assoc
    using loads_run [of c t "map (\<lambda>k. 8 * k) [0..<438]" ?p "seq (m22_write c t ?a) (seq (m22_validate c t ?a) (Ret 0))" m]
    by (simp add: m22_validate_def for_each_seq_Ret)
  have 2: "runs c t (seq (m22_write c t ?a) (seq (m22_validate c t ?a) (Ret 0)), m) (seq (m22_validate c t ?a) (Ret 0), m1)"
    unfolding m22_write_def m22_N_def for_each_if m1_def by (rule store_words_run)
  have 3: "runs c t (seq (m22_validate c t ?a) (Ret 0), m1) (Ret 0, m1)"
    unfolding m22_validate_def
  proof (rule check_words_run)
    fix j :: nat
    assume "j \<in> set (map (\<lambda>k. 2 * k) [0..<1750])"
    then have "j < 3500" by auto
    then show "rd m1 (eva_to_npa c t (?p j)) = (if ?chosen j then ?v j else 0)" by (rule v)
  qed
  have "rd m1 (cache_word d k) = m22_value c t k" if "k \<in> m22_words c t" for k
  proof -
    have j: "k - id_of c t * 3500 < 3500" "?k (k - id_of c t * 3500) = k" using that by (auto simp: m22_words_def)
    then show ?thesis using v [OF j(1)] e(1) [OF j(1)] unfolding m22_value_def Let_def by (simp only: j(2))
  qed
  then show ?thesis using runs_trans [OF 1 runs_trans [OF 2 3]] by blast
qed

lemma memtest2022_correct:
  assumes L: "m22_layout c d" and z: "\<And>k. k < 3500 * group_N c \<Longrightarrow> rd m (cache_word d k) = 0"
    and r: "reachable c (\<lambda>t. memtest2022_work c t (dram d), m) s"
  shows "(\<exists>s'. reachable c s s' \<and> finished c s')
    \<and> (finished c s \<longrightarrow> (\<forall>t. in_group c t \<longrightarrow> (\<forall>k \<in> m22_words c t. rd (snd s) (cache_word d k) = m22_value c t k)))"
proof -
  have d: "d + 4 * (3500 * group_N c) \<le> 2 ^ 31" using L by (simp add: m22_layout_def)
  have I: "isolated c {} (\<lambda>t. words_at (cache_word d) (m22_words c t)) (\<lambda>t. memtest2022_work c t (dram d))"
    by (rule words_isolated [OF array_cells [OF d]]) (use m22_words_props [OF L] own_m22 [OF L] in \<open>simp_all add: off_io_def\<close>)
  show ?thesis by (rule isolated_words_result [OF I m22_run [OF L _ z] r])
qed

section \<open>The sum of the array\<close>

text \<open>The blocks of eight words, summed from any of them round the array.\<close>

lemma rotate_sum: "sum_list (map (\<lambda>i. f ((k + i) mod n)) [0..<n]) = sum_list (map f [0..<n])" for f :: "nat \<Rightarrow> u32"
proof -
  have "map (\<lambda>i. f ((k + i) mod n)) [0..<n] = rotate k (map f [0..<n])"
    by (rule nth_equalityI) (simp_all add: nth_rotate add.commute)
  moreover have "sum_list (rotate k xs) = sum_list xs" for xs :: "u32 list"
  proof (induction k)
    case (Suc k)
    then show ?case by (cases "rotate k xs") (simp_all add: add.commute)
  qed simp
  ultimately show ?thesis by simp
qed

lemma sum_blocks:
  "length xs = b * n \<Longrightarrow> sum_list (map (\<lambda>k. sum_list (map (\<lambda>j. xs ! (b * k + j)) [0..<b])) [0..<n]) = sum_list xs" for xs :: "u32 list"
proof (induction n arbitrary: xs)
  case (Suc n)
  have l: "length (take (b * n) xs) = b * n" "length (drop (b * n) xs) = b" using Suc.prems by simp_all
  have "map (\<lambda>j. xs ! (b * n + j)) [0..<b] = drop (b * n) xs" using l(2) Suc.prems by (intro nth_equalityI) simp_all
  moreover have "map (\<lambda>k. sum_list (map (\<lambda>j. xs ! (b * k + j)) [0..<b])) [0..<n]
      = map (\<lambda>k. sum_list (map (\<lambda>j. take (b * n) xs ! (b * k + j)) [0..<b])) [0..<n]"
  proof (intro map_cong refl arg_cong [of _ _ sum_list])
    fix k j
    assume "k \<in> set [0..<n]" "j \<in> set [0..<b]"
    then have "b * k + j < b * k + b" "b * k + b \<le> b * n" using mult_le_mono2 [of "Suc k" n b] by simp_all
    then show "xs ! (b * k + j) = take (b * n) xs ! (b * k + j)" by simp
  qed
  moreover have "sum_list (take (b * n) xs) + sum_list (drop (b * n) xs) = sum_list xs"
    by (simp add: sum_list_append [symmetric] del: sum_list_append)
  ultimately show ?case using Suc.IH [OF l(1)] by (simp del: map_eq_conv)
qed simp

lemma fold_loads_run:
  "runs c t (bind (for_fold xs (\<lambda>x s. load_list (ps x) (\<lambda>vs. Ret (s + h vs))) s) k, m)
     (k (s + sum_list (map (\<lambda>x. h (map (\<lambda>p. rd m (eva_to_npa c t p)) (ps x))) xs)), m)"
proof (induction xs arbitrary: s)
  case (Cons x xs)
  have "runs c t (bind (for_fold (x # xs) (\<lambda>x s. load_list (ps x) (\<lambda>vs. Ret (s + h vs))) s) k, m)
      (bind (for_fold xs (\<lambda>x s. load_list (ps x) (\<lambda>vs. Ret (s + h vs))) (s + h (map (\<lambda>p. rd m (eva_to_npa c t p)) (ps x)))) k, m)"
    unfolding for_fold.simps bind_load_list bind.simps by (rule load_list_run)
  from runs_trans [OF this Cons] show ?case by (simp only: list.map sum_list.Cons add.assoc)
qed simp

lemma sum_of_eight_let:
  "(let d = map f [0..<8] in d ! 0 + d ! 1 + d ! 2 + d ! 3 + d ! 4 + d ! 5 + d ! 6 + d ! 7) = sum_list (map f [0..<8])" for f :: "nat \<Rightarrow> u32"
  by (simp add: upt_rec add.assoc)

lemmas sum_of_eight = sum_of_eight_let [unfolded Let_def]

definition bw_layout :: "cfg \<Rightarrow> nat \<Rightarrow> bool" where
  "bw_layout c d \<longleftrightarrow> group_fits c \<and> d + 4096 \<le> 2 ^ 31"

lemma bw_index:
  assumes "group_fits c" and "in_group c t" and "i < 128"
  shows "c_rem (bsg_x_y_to_id c (fst t) (snd t) * 8 + 8 * of_nat i) 1024 = of_nat (8 * ((id_of c t + i) mod 128))"
proof -
  have b: "8 * (id_of c t + i) < 2 ^ 15" using id_less [OF assms(1,2)] group_N_le [OF assms(1)] assms(3) by simp
  have e: "bsg_x_y_to_id c (fst t) (snd t) * 8 + 8 * of_nat i = of_nat (8 * (id_of c t + i))" by simp
  have u: "unat (of_nat (8 * (id_of c t + i)) :: u32) = 8 * (id_of c t + i)"
    using b by (simp only: unat_of_nat) (simp add: take_bit_eq_mod)
  have "unat (c_rem (of_nat (8 * (id_of c t + i))) 1024 :: u32) = 8 * (id_of c t + i) mod 1024"
    using unat_c_rem [of "of_nat (8 * (id_of c t + i))" 1024] u b by simp
  then have "c_rem (of_nat (8 * (id_of c t + i))) 1024 = (of_nat (8 * (id_of c t + i) mod 1024) :: u32)"
    by (metis of_nat_unat ucast_id)
  also have "8 * (id_of c t + i) mod 1024 = 8 * ((id_of c t + i) mod 128)"
    using mult_mod_right [of 8 "id_of c t + i" 128] by simp
  finally show ?thesis unfolding e .
qed

lemma bw_load_run:
  assumes L: "bw_layout c d" and t: "in_group c t" and v: "\<And>i. i < 1024 \<Longrightarrow> rd m (cache_word d i) = bw_data ! i"
  shows "runs c t (bind (bw_load c t (dram d)) k, m) (k 523776, m)"
proof -
  have g: "group_fits c" and d: "d + 4 * 1024 \<le> 2 ^ 31" using L by (simp_all add: bw_layout_def)
  let ?idx = "\<lambda>i. c_rem (bsg_x_y_to_id c (fst t) (snd t) * 8 + 8 * of_nat i) 1024"
  let ?h = "\<lambda>d :: u32 list. d ! 0 + d ! 1 + d ! 2 + d ! 3 + d ! 4 + d ! 5 + d ! 6 + d ! 7"
  let ?vs = "\<lambda>i. map (\<lambda>p. rd m (eva_to_npa c t p)) (map (\<lambda>k. dram d + 4 * (?idx i + of_nat k)) [0..<8])"
  let ?b = "\<lambda>i. sum_list (map (\<lambda>j. bw_data ! (8 * i + j)) [0..<8])"
  have rd1: "rd m (eva_to_npa c t (dram d + 4 * (?idx i + of_nat k))) = bw_data ! (8 * ((id_of c t + i) mod 128) + k)"
    if "i < 128" "k < 8" for i k
  proof -
    have n: "8 * ((id_of c t + i) mod 128) + k < 1024" using that(2) mod_less_divisor [of 128 "id_of c t + i"] by linarith
    have "?idx i + of_nat k = of_nat (8 * ((id_of c t + i) mod 128) + k)" unfolding bw_index [OF g t that(1)] by simp
    then show ?thesis using array_eva [OF d n, of c t] v [OF n] by metis
  qed
  have h: "?h (?vs i) = ?b ((id_of c t + i) mod 128)" if "i < 128" for i
  proof -
    have "?vs i = map (\<lambda>j. bw_data ! (8 * ((id_of c t + i) mod 128) + j)) [0..<8]"
      unfolding map_map comp_def by (intro map_cong refl rd1 [OF that]) simp
    then show ?thesis by (simp only: sum_of_eight)
  qed
  have "sum_list (map (\<lambda>i. ?h (?vs i)) [0..<128]) = sum_list (map (\<lambda>i. ?b ((id_of c t + i) mod 128)) [0..<128])"
    by (intro arg_cong [of _ _ sum_list] map_cong refl h) simp
  also have "\<dots> = sum_list (map ?b [0..<128])" by (rule rotate_sum)
  also have "\<dots> = 523776" using sum_blocks [of bw_data 8 128] bw_data_length bw_data_sum by simp
  finally have S: "0 + sum_list (map (\<lambda>i. ?h (?vs i)) [0..<128]) = 523776" by (simp only: add_0)
  have "(1024 :: nat) div 8 = 128" by simp
  then show ?thesis
    using fold_loads_run [where ps = "\<lambda>i. map (\<lambda>k. dram d + 4 * (?idx i + of_nat k)) [0..<8]" and h = ?h and xs = "[0..<128]" and s = 0
      and c = c and t = t and k = k and m = m, unfolded S]
    unfolding bw_load_def Let_def by (simp only:)
qed

text \<open>The tiles only load from the array, so each finds in every interleaving what it finds alone.\<close>

lemma own_loads:
  assumes "\<And>p. p \<in> set ps \<Longrightarrow> own_op c t sh R (Load32 p)" and "\<And>vs. own_proc c t sh R (k vs)"
  shows "own_proc c t sh R (load_list ps k)"
  using assms by (induction ps arbitrary: k) auto

lemma own_for_fold:
  assumes "\<And>x s. x \<in> set xs \<Longrightarrow> own_proc c t sh R (f x s)"
  shows "own_proc c t sh R (for_fold xs f s)"
  using assms by (induction xs arbitrary: s) (auto intro: own_bind)

lemma own_bw_work:
  assumes g: "group_fits c" and io: "io_fits c" and d: "d + 4 * 1024 \<le> 2 ^ 31" and t: "in_group c t"
  shows "own_proc c t (words_at (cache_word d) {..<1024}) R (bw_work c t (dram d))"
proof -
  let ?S = "words_at (cache_word d) {..<1024}"
  let ?idx = "\<lambda>i. c_rem (bsg_x_y_to_id c (fst t) (snd t) * 8 + 8 * of_nat i) 1024"
  have l: "own_op c t ?S R (Load32 (dram d + 4 * (?idx i + of_nat k)))" if "i < 128" "k < 8" for i k
  proof -
    let ?n = "8 * ((id_of c t + i) mod 128) + k"
    have n: "?n < 1024" using that(2) mod_less_divisor [of 128 "id_of c t + i"] by linarith
    have "?idx i + of_nat k = of_nat ?n" unfolding bw_index [OF g t that(1)] by simp
    then have "eva_to_npa c t (dram d + 4 * (?idx i + of_nat k)) = cache_word d ?n" using array_eva [OF d n] by metis
    then show ?thesis unfolding own_op_def words_at_def using n by (fastforce simp del: of_nat_add of_nat_mult)
  qed
  have "own_proc c t ?S R (bw_load c t (dram d))"
    unfolding bw_load_def Let_def by (intro own_for_fold own_loads) (use l in auto)
  moreover have "own_op c t ?S R (Store32 (bsg_remote_ptr_io c (IO_X_INDEX c) a) v)" if "unat a < 2 ^ 16" for a v
    using eva_io [OF io that] unfolding own_op_def host_store_def by blast
  then have "own_proc c t ?S R (bsg_fail c t)" by (simp add: bsg_fail_def bsg_fail_x_def spin_forever_def)
  ultimately show ?thesis unfolding bw_work_def by (intro own_bind) auto
qed

lemma bandwidth_correct:
  assumes L: "\<forall>t. in_group c t \<longrightarrow> bw_layout c d" and io: "io_fits c" and r: "reachable c (\<lambda>t. bw_work c t (dram d), m) s"
    and v: "\<And>i. i < 1024 \<Longrightarrow> rd m (cache_word d i) = bw_data ! i"
  shows "\<exists>s'. reachable c s s' \<and> finished c s'"
proof (cases "\<exists>t. in_group c t")
  case True
  then have L: "bw_layout c d" using L by blast
  then have g: "group_fits c" and d: "d + 4 * 1024 \<le> 2 ^ 31" by (simp_all add: bw_layout_def)
  have "isolated c (words_at (cache_word d) {..<1024}) (\<lambda>t. words_at (cache_word d) {}) (\<lambda>t. bw_work c t (dram d))"
    by (rule words_isolated_shared [OF array_cells [OF d]]) (use own_bw_work [OF g io d] in \<open>simp_all add: off_io_def\<close>)
  moreover have "runs c t (bw_work c t (dram d), m) (Ret 0, m)" if "in_group c t" for t
    using bw_load_run [OF L that v, where k = "\<lambda>sum. if sum \<noteq> 523776 then bsg_fail c t else Ret 0"] unfolding bw_work_def by simp
  ultimately show ?thesis using isolated_can_finish [where v = "\<lambda>_. 0" and mt = "\<lambda>_. m"] r by blast
next
  case False
  then show ?thesis by (intro exI [of _ s]) (simp add: finished_def reach_start)
qed

section \<open>The property\<close>

text \<open>Nothing is left to the schedule: in each of the four programs every schedule can be completed, and the words that
  all tiles stored at once are then the ones that the checks expect.\<close>

lemma bw_layout_of_m22: "m22_layout c d \<Longrightarrow> in_group c t \<Longrightarrow> bw_layout c d"
  using id_less [of c t] by (cases "group_N c") (auto simp: m22_layout_def bw_layout_def)

text \<open>C25: All four network tests pass. In every schedule of the two tests that store through the network all tiles can
  finish, and then the check of the array in DRAM reports success and the check of every tile's own array goes through;
  in memtest2022 no tile fails, and a word that was not written is still zero; in the bandwidth test all tiles can
  finish, so none of them fails: each finds the sum that it expects, whatever block it starts at.\<close>

theorem network_tests_correct:
  assumes "all_layout c a" and "m22_layout c d"
  shows "(reachable c (\<lambda>t. cache_write c t (dram d), m) s \<longrightarrow>
      (\<exists>s'. reachable c s s' \<and> finished c s')
      \<and> (finished c s \<longrightarrow> passes c (0, 0) (seq (cache_validate c (0, 0) (dram d)) (bsg_finish c (0, 0))) (snd s)))
    \<and> (reachable c (\<lambda>t. all_write c t (of_nat a), m) s \<longrightarrow>
      (\<exists>s'. reachable c s s' \<and> finished c s')
      \<and> (finished c s \<longrightarrow> (\<forall>u. in_group c u \<longrightarrow> (\<forall>i < group_N c. rd (snd s) (all_word c a (u, i)) = of_nat i)
          \<and> runs c u (seq (all_validate c u (of_nat a)) q, snd s) (q, snd s))))
    \<and> (reachable c (\<lambda>t. memtest2022_work c t (dram d), m) s \<longrightarrow> (\<forall>k < 3500 * group_N c. rd m (cache_word d k) = 0) \<longrightarrow>
      (\<exists>s'. reachable c s s' \<and> finished c s')
      \<and> (finished c s \<longrightarrow> (\<forall>t. in_group c t \<longrightarrow> (\<forall>k \<in> m22_words c t. rd (snd s) (cache_word d k) = m22_value c t k))))
    \<and> (reachable c (\<lambda>t. bw_work c t (dram d), m) s \<longrightarrow> (\<forall>i < 1024. rd m (cache_word d i) = bw_data ! i) \<longrightarrow>
      (\<exists>s'. reachable c s s' \<and> finished c s'))"
proof -
  have "group_fits c" "io_fits c" "d + 256 * group_N c \<le> 2 ^ 31" using assms(2) by (simp_all add: m22_layout_def)
  note cache = all_to_cache_correct [OF this, of m s]
  have "\<forall>t. in_group c t \<longrightarrow> bw_layout c d" using bw_layout_of_m22 [OF assms(2)] by blast
  note bandwidth = bandwidth_correct [OF this \<open>io_fits c\<close>]
  show ?thesis
    using cache all_to_all_correct [OF assms(1)] memtest2022_correct [OF assms(2)] bandwidth by (intro conjI impI) blast+
qed

definition bw_machine :: machine where
  "bw_machine = put_words small_cfg (0, 0) (\<lambda>i. dram 64 + 4 * of_nat i) (\<lambda>i. bw_data ! i) [0..<1024] zero_machine"

lemma rd_bw_machine: "i < 1024 \<Longrightarrow> rd bw_machine (cache_word 64 i) = bw_data ! i"
proof -
  assume i: "i < 1024"
  have e: "eva_to_npa small_cfg (0, 0) (dram 64 + 4 * of_nat j) = cache_word 64 j" if "j < 1024" for j
    by (rule array_eva [of 64 1024]) (use that in simp_all)
  have n: "64 + 4 * 1024 \<le> (2 :: nat) ^ 31" by simp
  have "words_apart small_cfg (0, 0) (\<lambda>i. dram 64 + 4 * of_nat i) {..<1024}"
    using array_cells [of 64 1024] unfolding words_apart_def disjoint_cells_def by (metis e lessThan_iff n)
  from rd_put_words [OF this, of "[0..<1024]" i "\<lambda>i. bw_data ! i" zero_machine] show ?thesis
    unfolding bw_machine_def e [OF i] using i by (simp add: subset_iff)
qed

lemma network_tests_correct_witness:
  "(\<exists>s'. reachable small_cfg (\<lambda>t. cache_write small_cfg t (dram 64), bw_machine) s' \<and> finished small_cfg s')
   \<and> (\<exists>s'. reachable small_cfg (\<lambda>t. all_write small_cfg t 256, zero_machine) s' \<and> finished small_cfg s')
   \<and> (\<exists>s'. reachable small_cfg (\<lambda>t. memtest2022_work small_cfg t (dram 64), zero_machine) s' \<and> finished small_cfg s')
   \<and> (\<exists>s'. reachable small_cfg (\<lambda>t. bw_work small_cfg t (dram 64), bw_machine) s' \<and> finished small_cfg s')"
proof -
  have N: "group_N small_cfg = 4" by (simp add: group_N_def small_cfg_def)
  have "off_io small_cfg (tile_npa small_cfg t e)" if "in_group small_cfg t" for t e
    by (simp add: off_io_def tile_npa_def small_cfg_row)
  then have L: "all_layout small_cfg 256" "m22_layout small_cfg 64"
    by (simp_all add: all_layout_def m22_layout_def N io_fits_def) (simp_all add: small_cfg_def)
  note r = network_tests_correct [OF L]
  show ?thesis
    using r [of bw_machine "(\<lambda>t. cache_write small_cfg t (dram 64), bw_machine)"]
      r [of zero_machine "(\<lambda>t. all_write small_cfg t 256, zero_machine)"]
      r [of zero_machine "(\<lambda>t. memtest2022_work small_cfg t (dram 64), zero_machine)"]
      r [of bw_machine "(\<lambda>t. bw_work small_cfg t (dram 64), bw_machine)"] rd_bw_machine reach_start
    by simp
qed

end
