(* ===== verification/Chained_Cores.thy ===== *)
theory Chained_Cores
  imports Chained_Protocol Network_Tests Handshake
begin

text \<open>
  The program \<open>spmd/bsg_chained_core\<close>: the tiles form a chain in the order of their numbers; each waits for a block of
  words from its predecessor, tags the words and stores them in the buffer of its successor. For a group of any size
  with at least two tiles: in every interleaving the last tile puts out the words of round 15 with the right tags, and
  nothing else, and the program cannot deadlock.
\<close>

section \<open>The code\<close>

definition MAX_ROUND_NUM :: nat where "MAX_ROUND_NUM = 16"
definition BUF_LEN :: nat where "BUF_LEN = 16"

text \<open>The addresses of the global variables, the same in all tiles. \<open>round_num\<close> is used by its own tile only and is
  passed as a value.\<close>

record chained_vars =
  valid_num :: u32
  ready_num :: u32
  buffer :: u32
  local_buffer :: u32

datatype config_enum = eALL_ZERO_FUNCS | eALL_PASS_FUNCS | eONE_COPY_FUNCS | eALL_TAG_PASS_FUNCS

datatype proc_func = Pass_proc | Tag_pass_proc | Copy_proc

definition init_func_array :: "config_enum \<Rightarrow> nat \<Rightarrow> nat \<Rightarrow> proc_func option" where
  "init_func_array config num_tiles = (case config of
     eALL_PASS_FUNCS \<Rightarrow> (\<lambda>i. if i < num_tiles - 1 then Some Pass_proc else None)
   | eALL_TAG_PASS_FUNCS \<Rightarrow> (\<lambda>i. if i < num_tiles - 1 then Some Tag_pass_proc else None)
   | eONE_COPY_FUNCS \<Rightarrow> (\<lambda>i. if i < num_tiles - 1 then Some Pass_proc else None)(1 := Some Copy_proc)
   | eALL_ZERO_FUNCS \<Rightarrow> (\<lambda>_. None))"

definition pass_proc :: "u32 \<Rightarrow> u32 \<Rightarrow> nat \<Rightarrow> proc" where
  "pass_proc local_ptr remote_ptr num =
     seq (for_each (map (\<lambda>k. 2 * k) [0..<(num + 1) div 2]) (\<lambda>i.
         Act (Load32 (local_ptr + 4 * of_nat i)) (\<lambda>tmp0. Act (Load32 (local_ptr + 4 * of_nat (i + 1))) (\<lambda>tmp1.
         Act (Store32 (remote_ptr + 4 * of_nat i) tmp0) (\<lambda>_. Act (Store32 (remote_ptr + 4 * of_nat (i + 1)) tmp1) Ret)))))
       (if odd num
        then Act (Load32 (local_ptr + 4 * of_nat (num - 1))) (\<lambda>v. Act (Store32 (remote_ptr + 4 * of_nat (num - 1)) v) Ret)
        else Ret 0)"

definition tag_pass_proc :: "u32 \<Rightarrow> u32 \<Rightarrow> nat \<Rightarrow> u32 \<Rightarrow> u32 \<Rightarrow> proc" where
  "tag_pass_proc local_ptr remote_ptr num rounds tid =
     seq (for_each (map (\<lambda>k. 2 * k) [0..<(num + 1) div 2]) (\<lambda>i.
         Act (Load32 (local_ptr + 4 * of_nat i)) (\<lambda>tmp0. Act (Load32 (local_ptr + 4 * of_nat (i + 1))) (\<lambda>tmp1.
         Act (Store32 (remote_ptr + 4 * of_nat i) (tag_update tid rounds tmp0))
           (\<lambda>_. Act (Store32 (remote_ptr + 4 * of_nat (i + 1)) (tag_update tid rounds tmp1)) Ret)))))
       (if odd num
        then let p = local_ptr + 4 * of_nat (num - 1) in
          Act (Load16 (p + 2)) (\<lambda>cores. Act (Store16 (p + 2) (ucast (cores + tid))) (\<lambda>_. Act (Store8 (p + 1) (ucast rounds))
            (\<lambda>_. Act (Load32 p) (\<lambda>v. Act (Store32 (remote_ptr + 4 * of_nat (num - 1)) v) Ret))))
        else Ret 0)"

definition copy_proc :: "u32 \<Rightarrow> u32 \<Rightarrow> u32 \<Rightarrow> nat \<Rightarrow> proc" where
  "copy_proc local_buf local_ptr remote_ptr num =
     seq (for_each [0..<num] (\<lambda>i. Act (Load32 (local_ptr + 4 * of_nat i)) (\<lambda>v. Act (Store32 (local_buf + 4 * of_nat i) v) Ret)))
       (pass_proc local_ptr remote_ptr num)"

definition call_proc :: "chained_vars \<Rightarrow> proc_func option \<Rightarrow> u32 \<Rightarrow> u32 \<Rightarrow> nat \<Rightarrow> u32 \<Rightarrow> u32 \<Rightarrow> proc" where
  "call_proc g f local_ptr remote_ptr num rounds tid = (case f of
     None \<Rightarrow> Ret 0
   | Some Pass_proc \<Rightarrow> pass_proc local_ptr remote_ptr num
   | Some Tag_pass_proc \<Rightarrow> tag_pass_proc local_ptr remote_ptr num rounds tid
   | Some Copy_proc \<Rightarrow> copy_proc (local_buffer g) local_ptr remote_ptr num)"

definition spin_cond :: "u32 \<Rightarrow> u32 \<Rightarrow> proc" where
  "spin_cond ptr cond = Loop (bind (bsg_lr ptr) (\<lambda>tmp. if tmp = cond then Ret tmp else bsg_lr_aq ptr)) (\<lambda>tmp. tmp = cond) (\<lambda>_. Ret 0)"

definition print_buff :: "cfg \<Rightarrow> u32 \<Rightarrow> nat \<Rightarrow> proc" where
  "print_buff c pData len = for_each [0..<len] (\<lambda>i.
     Act (Load32 (pData + 4 * of_nat i)) (\<lambda>v. bsg_remote_ptr_io_store c (IO_X_INDEX c) (pData + 4 * of_nat i) v))"

text \<open>\<open>&buffer[j][i]\<close>, and the tiles before and after.\<close>

definition buf_addr :: "chained_vars \<Rightarrow> nat \<Rightarrow> nat \<Rightarrow> u32" where
  "buf_addr g j i = buffer g + 4 * of_nat (16 * j + i)"

definition next_tile :: "cfg \<Rightarrow> tile \<Rightarrow> tile" where
  "next_tile c t = (let tid = bsg_x_y_to_id c (fst t) (snd t) in (bsg_id_to_x c (tid + 1), bsg_id_to_y c (tid + 1)))"

definition prev_tile :: "cfg \<Rightarrow> tile \<Rightarrow> tile" where
  "prev_tile c t = (let tid = bsg_x_y_to_id c (fst t) (snd t) in (bsg_id_to_x c (tid - 1), bsg_id_to_y c (tid - 1)))"

text \<open>The body of the loop over the two blocks, with \<open>j\<close> and \<open>round_num\<close>; the delay loop does not touch memory.\<close>

definition chained_round :: "cfg \<Rightarrow> chained_vars \<Rightarrow> (nat \<Rightarrow> proc_func option) \<Rightarrow> tile \<Rightarrow> nat \<Rightarrow> nat \<Rightarrow> proc" where
  "chained_round c g func_array t j round_num =
     (let tid = bsg_x_y_to_id c (fst t) (snd t); nx = next_tile c t in
      seq (if tid \<noteq> 0 then spin_cond (valid_num g + 4 * of_nat j) (of_nat round_num) else Ret 0)
        (if tid \<noteq> bsg_num_tiles c - 1 then
           seq (spin_cond (ready_num g + 4 * of_nat j) (of_nat round_num))
             (seq (call_proc g (func_array (unat tid)) (buf_addr g j 0) (bsg_remote_ptr (fst nx) (snd nx) (buf_addr g j 0))
                BUF_LEN (of_nat round_num) tid)
               (bsg_remote_store (fst nx) (snd nx) (valid_num g + 4 * of_nat j) (of_nat round_num)))
         else if round_num = MAX_ROUND_NUM - 1 then print_buff c (buf_addr g j 0) BUF_LEN else Ret 0))"

function chained_loop :: "cfg \<Rightarrow> chained_vars \<Rightarrow> (nat \<Rightarrow> proc_func option) \<Rightarrow> tile \<Rightarrow> nat \<Rightarrow> nat \<Rightarrow> proc" where
  "chained_loop c g func_array t j round_num =
     seq (chained_round c g func_array t j round_num)
       (if MAX_ROUND_NUM < round_num + 1 then Ret 0
        else seq
          (if bsg_x_y_to_id c (fst t) (snd t) \<noteq> 0
           then let pv = prev_tile c t in bsg_remote_store (fst pv) (snd pv) (ready_num g + 4 * of_nat j) (of_nat (round_num + 2))
           else Ret 0)
          (chained_loop c g func_array t (if j = 0 then 1 else 0) (round_num + 1)))"
  by pat_completeness auto
termination by (relation "measure (\<lambda>(c, g, f, t, j, r). 17 - r)") (auto simp: MAX_ROUND_NUM_def)

declare chained_loop.simps [simp del]

definition chained_proc :: "cfg \<Rightarrow> chained_vars \<Rightarrow> (nat \<Rightarrow> proc_func option) \<Rightarrow> tile \<Rightarrow> proc" where
  "chained_proc c g func_array t =
     seq (if bsg_x_y_to_id c (fst t) (snd t) \<noteq> 0 then
            let pv = prev_tile c t in
            seq (bsg_remote_store (fst pv) (snd pv) (ready_num g) 1) (bsg_remote_store (fst pv) (snd pv) (ready_num g + 4) 2)
          else Ret 0)
       (chained_loop c g func_array t 0 1)"

definition chained_work :: "cfg \<Rightarrow> chained_vars \<Rightarrow> tile \<Rightarrow> proc" where
  "chained_work c g t =
     seq (if bsg_x_y_to_id c (fst t) (snd t) = 0 then
            for_each [0..<BUF_LEN] (\<lambda>i. seq (Act (Store8 (buf_addr g 0 i) (of_nat i)) Ret) (Act (Store8 (buf_addr g 1 i) (of_nat i)) Ret))
          else Ret 0)
       (chained_proc c g (init_func_array eALL_TAG_PASS_FUNCS (unat (bsg_num_tiles c))) t)"

definition chained_main :: "cfg \<Rightarrow> chained_vars \<Rightarrow> tile \<Rightarrow> proc" where
  "chained_main c g t =
     seq (chained_work c g t)
       (seq (if bsg_x_y_to_id c (fst t) (snd t) = bsg_num_tiles c - 1 then bsg_finish c t else Ret 0) spin_forever)"

section \<open>The chain of tiles\<close>

lemma num_tiles_N: "group_fits c \<Longrightarrow> unat (bsg_num_tiles c) = group_N c"
  using group_N_le [of c] by (simp add: bsg_num_tiles_def group_N_def unat_word_ariths)

lemma id_word: "bsg_x_y_to_id c (fst t) (snd t) = of_nat (id_of c t)"
  by simp

lemma tile_of_id:
  assumes "group_fits c" and "in_group c t" and "id_of c t = k"
  shows "(bsg_id_to_x c (of_nat k), bsg_id_to_y c (of_nat k)) = t"
  using tile_id_roundtrip [of c "fst t" "snd t"] assms by auto

lemma next_tile:
  assumes g: "group_fits c" and t: "in_group c t" and k: "Suc (id_of c t) < group_N c"
  shows "in_group c (next_tile c t)" and "id_of c (next_tile c t) = Suc (id_of c t)"
proof -
  obtain u where u: "in_group c u" "id_of c u = Suc (id_of c t)" using id_surj [OF g k] by blast
  have "bsg_x_y_to_id c (fst t) (snd t) + 1 = of_nat (Suc (id_of c t))" by simp
  then have "next_tile c t = u" using tile_of_id [OF g u] by (simp add: next_tile_def Let_def add.commute)
  then show "in_group c (next_tile c t)" "id_of c (next_tile c t) = Suc (id_of c t)" using u by simp_all
qed

lemma next_not_last:
  assumes "group_fits c" and "in_group c t" and "id_of c t \<noteq> group_N c - 1"
  shows "in_group c (next_tile c t)" and "id_of c (next_tile c t) = Suc (id_of c t)" and "next_tile c t \<noteq> t"
proof -
  have k: "Suc (id_of c t) < group_N c" using id_less [OF assms(1,2)] assms(3) by simp
  show "in_group c (next_tile c t)" "id_of c (next_tile c t) = Suc (id_of c t)" by (rule next_tile [OF assms(1,2) k])+
  then show "next_tile c t \<noteq> t" by auto
qed

lemma prev_tile:
  assumes g: "group_fits c" and t: "in_group c t" and k: "id_of c t \<noteq> 0"
  shows "in_group c (prev_tile c t)" and "Suc (id_of c (prev_tile c t)) = id_of c t" and "next_tile c (prev_tile c t) = t"
proof -
  have "id_of c t - 1 < group_N c" using id_less [OF g t] by simp
  then obtain u where u: "in_group c u" "id_of c u = id_of c t - 1" using id_surj [OF g] by blast
  have "bsg_x_y_to_id c (fst t) (snd t) - 1 = of_nat (id_of c t - 1)" using k by (simp add: of_nat_diff)
  then have p: "prev_tile c t = u" using tile_of_id [OF g u] by (simp add: prev_tile_def Let_def)
  then show i: "in_group c (prev_tile c t)" "Suc (id_of c (prev_tile c t)) = id_of c t" using u k by simp_all
  have "Suc (id_of c (prev_tile c t)) < group_N c" using i id_less [OF g t] by simp
  from next_tile [OF g i(1) this] show "next_tile c (prev_tile c t) = t" using id_inj [OF g _ t] i(2) by simp
qed

lemma prev_next_tile:
  assumes g: "group_fits c" and t: "in_group c t" and k: "Suc (id_of c t) < group_N c"
  shows "prev_tile c (next_tile c t) = t"
proof -
  note n = next_tile [OF assms]
  have "id_of c (next_tile c t) \<noteq> 0" using n(2) by simp
  from prev_tile [OF g n(1) this] show ?thesis using id_inj [OF g _ t] n(2) by simp
qed

section \<open>Cells\<close>

datatype ccell = Valid nat | Ready nat | Buf nat nat

primrec chain_addr :: "chained_vars \<Rightarrow> ccell \<Rightarrow> u32" where
  "chain_addr g (Valid j) = valid_num g + 4 * of_nat j"
| "chain_addr g (Ready j) = ready_num g + 4 * of_nat j"
| "chain_addr g (Buf j i) = buf_addr g j i"

definition chain_loc :: "cfg \<Rightarrow> chained_vars \<Rightarrow> tile \<times> ccell \<Rightarrow> npa" where
  "chain_loc c g = (\<lambda>(t, e). tile_npa c t (chain_addr g e))"

primrec is_cell :: "ccell \<Rightarrow> bool" where
  "is_cell (Valid j) \<longleftrightarrow> j < 2" | "is_cell (Ready j) \<longleftrightarrow> j < 2" | "is_cell (Buf j i) \<longleftrightarrow> j < 2 \<and> i < 16"

definition apart :: "nat \<Rightarrow> nat \<Rightarrow> nat \<Rightarrow> nat \<Rightarrow> bool" where
  "apart a l b l' \<longleftrightarrow> a + l \<le> b \<or> b + l' \<le> a"

definition chain_layout :: "cfg \<Rightarrow> chained_vars \<Rightarrow> bool" where
  "chain_layout c g \<longleftrightarrow> group_fits c \<and> io_fits c \<and> 2 \<le> group_N c \<and> (\<forall>t e. in_group c t \<longrightarrow> off_io c (tile_npa c t e))
     \<and> unat (valid_num g) + 8 \<le> 2 ^ 16 \<and> unat (ready_num g) + 8 \<le> 2 ^ 16 \<and> unat (buffer g) + 128 \<le> 2 ^ 16
     \<and> apart (unat (valid_num g)) 8 (unat (ready_num g)) 8 \<and> apart (unat (valid_num g)) 8 (unat (buffer g)) 128
     \<and> apart (unat (ready_num g)) 8 (unat (buffer g)) 128"

primrec chain_off :: "chained_vars \<Rightarrow> ccell \<Rightarrow> nat" where
  "chain_off g (Valid j) = unat (valid_num g) + 4 * j"
| "chain_off g (Ready j) = unat (ready_num g) + 4 * j"
| "chain_off g (Buf j i) = unat (buffer g) + 4 * (16 * j + i)"

lemma chain_addr_off: "chain_addr g e = of_nat (chain_off g e)"
  by (cases e) (simp_all add: buf_addr_def)

lemma chain_off_less: "chain_layout c g \<Longrightarrow> is_cell e \<Longrightarrow> chain_off g e + 4 \<le> 2 ^ 16"
  by (cases e) (auto simp: chain_layout_def)

lemma unat_chain_addr: "chain_layout c g \<Longrightarrow> is_cell e \<Longrightarrow> unat (chain_addr g e) = chain_off g e"
  using chain_off_less [of c g e] by (simp add: chain_addr_off unat_of_nat_lt)

lemma chain_cells:
  assumes "chain_layout c g"
  shows "disjoint_cells (chain_loc c g) {x. in_group c (fst x) \<and> is_cell (snd x)}"
proof (rule disjoint_tile_cells [where tile = fst and off = "\<lambda>x. chain_off g (snd x)"])
  show "group_fits c" using assms by (simp add: chain_layout_def)
  show "in_group c (fst x) \<and> chain_loc c g x = tile_npa c (fst x) (of_nat (chain_off g (snd x))) \<and> chain_off g (snd x) + 4 \<le> 2 ^ 32"
    if "x \<in> {x. in_group c (fst x) \<and> is_cell (snd x)}" for x
    using that chain_off_less [OF assms, of "snd x"] by (simp add: chain_loc_def chain_addr_off split_beta)
  have "chain_off g e + 4 \<le> chain_off g f \<or> chain_off g f + 4 \<le> chain_off g e" if "is_cell e" "is_cell f" "e \<noteq> f" for e f
  proof (cases "(\<exists>j i. e = Buf j i) \<and> (\<exists>j i. f = Buf j i)")
    case True
    then obtain j i j' i' where b: "e = Buf j i" "f = Buf j' i'" by blast
    then have "i < 16" "i' < 16" "j = j' \<longrightarrow> i \<noteq> i'" using that by auto
    then have "16 * j + i < 16 * j' + i' \<or> 16 * j' + i' < 16 * j + i"
      by (cases j j' rule: linorder_cases) auto
    then show ?thesis unfolding b by auto
  next
    case False
    then show ?thesis using assms that by (cases e; cases f) (auto simp: chain_layout_def apart_def)
  qed
  then show "chain_off g (snd x) + 4 \<le> chain_off g (snd y) \<or> chain_off g (snd y) + 4 \<le> chain_off g (snd x)"
    if "x \<in> {x. in_group c (fst x) \<and> is_cell (snd x)}" "y \<in> {x. in_group c (fst x) \<and> is_cell (snd x)}" "x \<noteq> y" "fst x = fst y" for x y
    using that by (auto simp: prod_eq_iff)
qed

abbreviation cval :: "cfg \<Rightarrow> chained_vars \<Rightarrow> machine \<Rightarrow> tile \<Rightarrow> ccell \<Rightarrow> u32" where
  "cval c g m t e \<equiv> rd m (chain_loc c g (t, e))"

lemma cval_put:
  assumes "chain_layout c g" and "in_group c t" "is_cell e" and "in_group c u" "is_cell f"
  shows "cval c g (put32 c (chain_loc c g (u, f)) v m) t e = (if (t, e) = (u, f) then v else cval c g m t e)"
  using rd_put_cell [OF chain_cells [OF assms(1)], of "(u, f)" "(t, e)"] assms(2-5) by simp

lemma chain_eva:
  assumes "chain_layout c g" and "is_cell e"
  shows "eva_to_npa c t (chain_addr g e) = chain_loc c g (t, e)"
    and "in_group c u \<Longrightarrow> eva_to_npa c t (bsg_remote_ptr (fst u) (snd u) (chain_addr g e)) = chain_loc c g (u, e)"
proof -
  have b: "unat (chain_addr g e) < 2 ^ 18" using unat_chain_addr [OF assms] chain_off_less [OF assms] by simp
  show "eva_to_npa c t (chain_addr g e) = chain_loc c g (t, e)"
    using eva_local [of "chain_addr g e" c t] b by (simp add: chain_loc_def)
  show "eva_to_npa c t (bsg_remote_ptr (fst u) (snd u) (chain_addr g e)) = chain_loc c g (u, e)" if "in_group c u"
    using eva_remote_group [of c "fst u" "snd u" "chain_addr g e" t] b that assms(1) by (simp add: chain_loc_def chain_layout_def)
qed

section \<open>The control states of the code\<close>

definition cc_fn :: "cfg \<Rightarrow> nat \<Rightarrow> proc_func option" where
  "cc_fn c = init_func_array eALL_TAG_PASS_FUNCS (unat (bsg_num_tiles c))"

abbreviation remote_cell :: "cfg \<Rightarrow> chained_vars \<Rightarrow> tile \<Rightarrow> ccell \<Rightarrow> u32" where
  "remote_cell c g u e \<equiv> bsg_remote_ptr (fst u) (snd u) (chain_addr g e)"

definition cc_update :: "cfg \<Rightarrow> tile \<Rightarrow> nat \<Rightarrow> u32 \<Rightarrow> u32" where
  "cc_update c t r = tag_update (bsg_x_y_to_id c (fst t) (snd t)) (of_nat r)"

abbreviation cc_store :: "cfg \<Rightarrow> chained_vars \<Rightarrow> tile \<Rightarrow> nat \<Rightarrow> nat \<Rightarrow> u32 \<Rightarrow> proc \<Rightarrow> proc" where
  "cc_store c g t r l w p \<equiv> Act (Store32 (remote_cell c g (next_tile c t) (Buf (block r) l)) (cc_update c t r w)) (\<lambda>_. p)"

definition cc_pair :: "cfg \<Rightarrow> chained_vars \<Rightarrow> tile \<Rightarrow> nat \<Rightarrow> nat \<Rightarrow> proc" where
  "cc_pair c g t r i = Act (Load32 (chain_addr g (Buf (block r) (2 * i)))) (\<lambda>w. Act (Load32 (chain_addr g (Buf (block r) (2 * i + 1)))) (\<lambda>w'.
     cc_store c g t r (2 * i) w
       (Act (Store32 (remote_cell c g (next_tile c t) (Buf (block r) (2 * i + 1))) (cc_update c t r w')) Ret)))"

definition cc_rest :: "cfg \<Rightarrow> chained_vars \<Rightarrow> tile \<Rightarrow> nat \<Rightarrow> proc" where
  "cc_rest c g t r = (if 16 \<le> r then Ret 0 else
     seq (if bsg_x_y_to_id c (fst t) (snd t) \<noteq> 0
          then Act (Store32 (remote_cell c g (prev_tile c t) (Ready (block r))) (of_nat (r + 2))) Ret else Ret 0)
       (chained_loop c g (cc_fn c) t (block (r + 1)) (r + 1)))"

definition cc_notify :: "cfg \<Rightarrow> chained_vars \<Rightarrow> tile \<Rightarrow> nat \<Rightarrow> proc" where
  "cc_notify c g t r = Act (Store32 (remote_cell c g (next_tile c t) (Valid (block r))) (of_nat r)) (\<lambda>_. cc_rest c g t r)"

definition cc_copy :: "cfg \<Rightarrow> chained_vars \<Rightarrow> tile \<Rightarrow> nat \<Rightarrow> nat \<Rightarrow> proc" where
  "cc_copy c g t r i = seq (for_each [i..<8] (cc_pair c g t r)) (cc_notify c g t r)"

definition cc_emit :: "cfg \<Rightarrow> chained_vars \<Rightarrow> nat \<Rightarrow> u32 \<Rightarrow> proc" where
  "cc_emit c g i w = bsg_remote_ptr_io_store c (IO_X_INDEX c) (chain_addr g (Buf 0 i)) w"

definition cc_print :: "cfg \<Rightarrow> chained_vars \<Rightarrow> tile \<Rightarrow> nat \<Rightarrow> proc" where
  "cc_print c g t i = seq (for_each [i..<16] (\<lambda>i. Act (Load32 (chain_addr g (Buf 0 i))) (cc_emit c g i))) (cc_rest c g t 15)"

definition cc_valid :: "cfg \<Rightarrow> chained_vars \<Rightarrow> tile \<Rightarrow> nat \<Rightarrow> proc" where
  "cc_valid c g t r =
     (if bsg_x_y_to_id c (fst t) (snd t) \<noteq> bsg_num_tiles c - 1
      then wait_then (chain_addr g (Ready (block r))) (of_nat r) (cc_copy c g t r 0)
      else if r = 15 then cc_print c g t 0 else cc_rest c g t r)"

lemma buf_shift: "buf_addr g j 0 + 4 * of_nat i = buf_addr g j i"
  by (simp add: buf_addr_def)

lemma remote_buf:
  assumes "chain_layout c g" and "j < 2" and "i < 16"
  shows "bsg_remote_ptr x y (buf_addr g j 0) + 4 * of_nat i = bsg_remote_ptr x y (buf_addr g j i)"
proof -
  have "unat (buf_addr g j 0) + 4 \<le> 2 ^ 16"
    using unat_chain_addr [OF assms(1), of "Buf j 0"] chain_off_less [OF assms(1), of "Buf j 0"] assms(2) by simp
  moreover have "unat (4 * of_nat i :: u32) = 4 * i"
  proof -
    have "4 * of_nat i = (of_nat (4 * i) :: u32)" by simp
    then show ?thesis using assms(3) unat_of_nat_lt [of "4 * i"] by (simp del: of_nat_mult)
  qed
  ultimately have "unat (buf_addr g j 0) + unat (4 * of_nat i :: u32) < 2 ^ 18" using assms(3) by simp
  from bsg_remote_ptr_offset [OF this] show ?thesis by (simp only: buf_shift)
qed

lemma tag_pass_copy:
  assumes "chain_layout c g" and nx: "nx = next_tile c t" and j: "j = block r"
  shows "seq (tag_pass_proc (buf_addr g j 0) (bsg_remote_ptr (fst nx) (snd nx) (buf_addr g j 0)) 16 (of_nat r) (bsg_x_y_to_id c (fst t) (snd t)))
      (Act (Store32 (bsg_remote_ptr (fst nx) (snd nx) (valid_num g + 4 * of_nat j)) (of_nat r)) (\<lambda>_. cc_rest c g t r)) = cc_copy c g t r 0"
proof -
  have b: "j < 2" using block_less j by simp
  have "for_each (map (\<lambda>k. 2 * k) [0..<8]) (\<lambda>i.
      Act (Load32 (buf_addr g j 0 + 4 * of_nat i)) (\<lambda>tmp0. Act (Load32 (buf_addr g j 0 + 4 * of_nat (i + 1))) (\<lambda>tmp1.
      Act (Store32 (bsg_remote_ptr (fst nx) (snd nx) (buf_addr g j 0) + 4 * of_nat i) (cc_update c t r tmp0))
        (\<lambda>_. Act (Store32 (bsg_remote_ptr (fst nx) (snd nx) (buf_addr g j 0) + 4 * of_nat (i + 1)) (cc_update c t r tmp1)) Ret))))
    = for_each [0..<8] (\<lambda>i. Act (Load32 (chain_addr g (Buf j (2 * i)))) (\<lambda>w. Act (Load32 (chain_addr g (Buf j (2 * i + 1)))) (\<lambda>w'.
     cc_store c g t r (2 * i) w (Act (Store32 (remote_cell c g nx (Buf j (2 * i + 1))) (cc_update c t r w')) Ret))))"
    unfolding for_each_map
  proof (rule for_each_cong)
    fix i :: nat
    assume "i \<in> set [0..<8]"
    then have "2 * i < 16" "2 * i + 1 < 16" by simp_all
    note r = remote_buf [OF assms(1) b this(1)] remote_buf [OF assms(1) b this(2)]
    show "Act (Load32 (buf_addr g j 0 + 4 * of_nat (2 * i))) (\<lambda>tmp0. Act (Load32 (buf_addr g j 0 + 4 * of_nat (2 * i + 1))) (\<lambda>tmp1.
      Act (Store32 (bsg_remote_ptr (fst nx) (snd nx) (buf_addr g j 0) + 4 * of_nat (2 * i)) (cc_update c t r tmp0))
        (\<lambda>_. Act (Store32 (bsg_remote_ptr (fst nx) (snd nx) (buf_addr g j 0) + 4 * of_nat (2 * i + 1)) (cc_update c t r tmp1)) Ret)))
      = Act (Load32 (chain_addr g (Buf j (2 * i)))) (\<lambda>w. Act (Load32 (chain_addr g (Buf j (2 * i + 1)))) (\<lambda>w'.
     cc_store c g t r (2 * i) w (Act (Store32 (remote_cell c g nx (Buf j (2 * i + 1))) (cc_update c t r w')) Ret)))"
      unfolding r buf_shift by (simp only: chain_addr.simps nx j)
  qed
  moreover have "(16 + 1) div 2 = (8 :: nat)" "\<not> odd (16 :: nat)" by simp_all
  ultimately show ?thesis
    unfolding tag_pass_proc_def cc_update_def [symmetric] cc_copy_def cc_notify_def
    by (simp only: bind_assoc if_False bind.simps) (simp add: cc_pair_def [abs_def] nx j)
qed

text \<open>The waits, as the control states name them.\<close>

lemma spin_then: "seq (spin_cond p k) q = wait_then p k q"
  by (simp add: spin_cond_def wait_then_def bsg_lr_def bsg_lr_aq_def if_distrib [of "\<lambda>x. bind x _"] cong: if_cong)

lemma chained_loop_block:
  assumes L: "chain_layout c g" and t: "in_group c t" and r: "r \<in> {1..16}"
  shows "chained_loop c g (cc_fn c) t (block r) r =
    (if bsg_x_y_to_id c (fst t) (snd t) \<noteq> 0 then wait_then (chain_addr g (Valid (block r))) (of_nat r) (cc_valid c g t r) else cc_valid c g t r)"
proof -
  let ?id = "bsg_x_y_to_id c (fst t) (snd t)" and ?n = "bsg_num_tiles c" and ?nx = "next_tile c t" and ?j = "block r"
  have g: "group_fits c" and N: "2 \<le> group_N c" using L by (simp_all add: chain_layout_def)
  have jn: "(if block r = 0 then 1 else 0) = block (r + 1)" by (auto simp: block_def) presburger+
  have rest: "(if MAX_ROUND_NUM < r + 1 then Ret 0 else seq
          (if ?id \<noteq> 0 then let pv = prev_tile c t in bsg_remote_store (fst pv) (snd pv) (ready_num g + 4 * of_nat ?j) (of_nat (r + 2)) else Ret 0)
          (chained_loop c g (cc_fn c) t (if block r = 0 then 1 else 0) (r + 1))) = cc_rest c g t r"
    unfolding jn by (simp add: cc_rest_def MAX_ROUND_NUM_def bsg_remote_store_def Let_def less_Suc_eq_le)
  have fn: "cc_fn c (unat ?id) = Some Tag_pass_proc" if "?id \<noteq> ?n - 1"
  proof -
    have "id_of c t < group_N c" "unat (?n - 1) = group_N c - 1"
      using id_less [OF g t] num_tiles_N [OF g] N by (simp_all add: unat_sub_if' word_le_nat_alt)
    moreover have "id_of c t \<noteq> unat (?n - 1)" using that by (simp add: word_unat_eq_iff)
    ultimately have "id_of c t < group_N c - 1" by simp
    then show ?thesis by (simp add: cc_fn_def init_func_array_def num_tiles_N [OF g])
  qed
  have valid: "seq (if ?id \<noteq> ?n - 1 then
           seq (spin_cond (ready_num g + 4 * of_nat ?j) (of_nat r))
             (seq (call_proc g (cc_fn c (unat ?id)) (buf_addr g ?j 0) (bsg_remote_ptr (fst ?nx) (snd ?nx) (buf_addr g ?j 0)) BUF_LEN (of_nat r) ?id)
               (bsg_remote_store (fst ?nx) (snd ?nx) (valid_num g + 4 * of_nat ?j) (of_nat r)))
         else if r = MAX_ROUND_NUM - 1 then print_buff c (buf_addr g ?j 0) BUF_LEN else Ret 0) (cc_rest c g t r) = cc_valid c g t r"
  proof (cases "?id = ?n - 1")
    case True
    have "block 15 = 0" by (simp add: block_def)
    then show ?thesis
      using True by (simp add: cc_valid_def MAX_ROUND_NUM_def BUF_LEN_def print_buff_def cc_print_def buf_shift cc_emit_def [abs_def])
  next
    case False
    then show ?thesis
      using tag_pass_copy [OF L refl refl, where t = t and r = r]
      by (simp add: cc_valid_def spin_then fn [OF False] call_proc_def BUF_LEN_def bsg_remote_store_def)
  qed
  have "chained_loop c g (cc_fn c) t ?j r = seq (chained_round c g (cc_fn c) t ?j r) (cc_rest c g t r)"
    by (subst chained_loop.simps) (simp only: rest)
  also have "\<dots> = seq (if ?id \<noteq> 0 then spin_cond (valid_num g + 4 * of_nat ?j) (of_nat r) else Ret 0) (cc_valid c g t r)"
    by (simp only: chained_round_def Let_def bind_assoc valid)
  finally show ?thesis by (simp add: spin_then)
qed

fun cc_prog :: "cfg \<Rightarrow> chained_vars \<Rightarrow> tile \<Rightarrow> cstate \<Rightarrow> proc" where
  "cc_prog c g t (Fill i) = seq (for_each [i..<32] (\<lambda>l. Act (Store8 (chain_addr g (Buf (l mod 2) (l div 2))) (of_nat (l div 2))) Ret))
     (chained_loop c g (cc_fn c) t 0 1)"
| "cc_prog c g t (Ann i) = (let pv = prev_tile c t; p = Act (Store32 (remote_cell c g pv (Ready 1)) 2) (\<lambda>_. chained_loop c g (cc_fn c) t 0 1) in
     if i = 0 then Act (Store32 (remote_cell c g pv (Ready 0)) 1) (\<lambda>_. p) else p)"
| "cc_prog c g t (WaitV r) = wait_then (chain_addr g (Valid (block r))) (of_nat r) (cc_valid c g t r)"
| "cc_prog c g t (TryV r) = (let a = chain_addr g (Valid (block r)); p = cc_valid c g t r in
     Act (Lr a) (\<lambda>v. if v = of_nat r then p else Act (Lr_aq a) (\<lambda>v. if v = of_nat r then p else wait_then a (of_nat r) p)))"
| "cc_prog c g t (AgainV r) = (let a = chain_addr g (Valid (block r)); p = cc_valid c g t r in
     Act (Lr_aq a) (\<lambda>v. if v = of_nat r then p else wait_then a (of_nat r) p))"
| "cc_prog c g t (WaitR r) = wait_then (chain_addr g (Ready (block r))) (of_nat r) (cc_copy c g t r 0)"
| "cc_prog c g t (TryR r) = (let a = chain_addr g (Ready (block r)); p = cc_copy c g t r 0 in
     Act (Lr a) (\<lambda>v. if v = of_nat r then p else Act (Lr_aq a) (\<lambda>v. if v = of_nat r then p else wait_then a (of_nat r) p)))"
| "cc_prog c g t (AgainR r) = (let a = chain_addr g (Ready (block r)); p = cc_copy c g t r 0 in
     Act (Lr_aq a) (\<lambda>v. if v = of_nat r then p else wait_then a (of_nat r) p))"
| "cc_prog c g t (LdA r i) = cc_copy c g t r i"
| "cc_prog c g t (LdB r i w) = Act (Load32 (chain_addr g (Buf (block r) (2 * i + 1)))) (\<lambda>w'.
     cc_store c g t r (2 * i) w (cc_store c g t r (2 * i + 1) w' (cc_copy c g t r (i + 1))))"
| "cc_prog c g t (StA r i w w') = cc_store c g t r (2 * i) w (cc_store c g t r (2 * i + 1) w' (cc_copy c g t r (i + 1)))"
| "cc_prog c g t (StB r i w') = cc_store c g t r (2 * i + 1) w' (cc_copy c g t r (i + 1))"
| "cc_prog c g t (Notify r) = cc_notify c g t r"
| "cc_prog c g t (PrL i) = cc_print c g t i"
| "cc_prog c g t (PrS i w) = seq (cc_emit c g i w) (cc_print c g t (i + 1))"
| "cc_prog c g t (Ackn r) = cc_rest c g t r"
| "cc_prog c g t Fin = Ret 0"

text \<open>The program that a tile starts with.\<close>

definition cc_start :: "cfg \<Rightarrow> tile \<Rightarrow> cstate" where
  "cc_start c t = (if id_of c t = 0 then Fill 0 else Ann 0)"

lemma cc_prog_start: "cc_prog c g t (cc_start c t) = chained_work c g t"
proof -
  have z: "bsg_x_y_to_id c (fst t) (snd t) = 0 \<longleftrightarrow> id_of c t = 0" by (simp add: word_unat_eq_iff)
  have "for_each [0..<2 * 16] (\<lambda>l. Act (Store8 (chain_addr g (Buf (l mod 2) (l div 2))) (of_nat (l div 2))) Ret)
    = for_each [0..<16] (\<lambda>i. seq (Act (Store8 (buf_addr g 0 i) (of_nat i)) Ret) (Act (Store8 (buf_addr g 1 i) (of_nat i)) Ret))"
    unfolding for_each_pairs by simp
  then show ?thesis
    by (auto simp: cc_start_def chained_work_def chained_proc_def cc_fn_def z BUF_LEN_def Let_def bsg_remote_store_def)
qed

section \<open>The steps of the code\<close>

fun cc_effect :: "cfg \<Rightarrow> chained_vars \<Rightarrow> tile \<Rightarrow> effect \<Rightarrow> machine \<Rightarrow> machine" where
  "cc_effect c g t Nop m = m"
| "cc_effect c g t (SetValid j w) m = put32 c (chain_loc c g (next_tile c t, Valid j)) w m"
| "cc_effect c g t (SetBuf j i w) m = put32 c (chain_loc c g (next_tile c t, Buf j i)) w m"
| "cc_effect c g t (SetReady j w) m = put32 c (chain_loc c g (prev_tile c t, Ready j)) w m"
| "cc_effect c g t (FillBuf j i) m = put8 c (chain_loc c g (t, Buf j i)) (of_nat i) m"
| "cc_effect c g t (Emit i w) m = put32 c (Endpoint (IO_X_INDEX c) (IO_Y_INDEX c) (chain_addr g (Buf 0 i))) w m"

abbreviation cc_move :: "cfg \<Rightarrow> chained_vars \<Rightarrow> tile \<Rightarrow> machine \<Rightarrow> cstate \<Rightarrow> cstate \<times> effect" where
  "cc_move c g t m q \<equiv> cc_next (group_N c) (id_of c t) (\<lambda>j. cval c g m t (Valid j)) (\<lambda>j. cval c g m t (Ready j)) (\<lambda>j i. cval c g m t (Buf j i)) q"

declare chain_addr.simps [simp del]

lemma is_last:
  assumes "chain_layout c g" and "in_group c t"
  shows "bsg_x_y_to_id c (fst t) (snd t) = bsg_num_tiles c - 1 \<longleftrightarrow> id_of c t = group_N c - 1"
proof -
  have "unat (bsg_num_tiles c - 1) = group_N c - 1"
    using assms num_tiles_N [of c] by (simp add: chain_layout_def unat_sub_if' word_le_nat_alt)
  then show ?thesis by (simp add: word_unat_eq_iff)
qed

lemma is_first: "bsg_x_y_to_id c (fst t) (snd t) = 0 \<longleftrightarrow> id_of c t = 0"
  by (simp add: word_unat_eq_iff)

text \<open>The control states that follow a round, and the test of the last tile.\<close>

lemma prog_after_round:
  assumes L: "chain_layout c g" and t: "in_group c t" and r: "r \<in> {1..16}"
  shows "cc_prog c g t (after_round (id_of c t) r) = cc_rest c g t r"
proof (cases "r = 16 \<or> id_of c t \<noteq> 0")
  case True
  then show ?thesis by (auto simp: after_round_def cc_rest_def)
next
  case False
  have n: "id_of c t \<noteq> group_N c - 1" using L False by (simp add: chain_layout_def)
  have "r + 1 \<in> {1..16}" using r False by auto
  from chained_loop_block [OF L t this] show ?thesis
    using False r n is_last [OF L t] is_first [of c t] by (simp add: after_round_def cc_rest_def cc_valid_def)
qed

lemma prog_with_valid:
  assumes L: "chain_layout c g" and t: "in_group c t" and r: "r \<in> {1..16}"
  shows "cc_prog c g t (with_valid (group_N c) (id_of c t) r) = cc_valid c g t r"
proof (cases "id_of c t = group_N c - 1 \<and> r \<noteq> 15")
  case True
  then have "with_valid (group_N c) (id_of c t) r = after_round (id_of c t) r" by (simp add: with_valid_def)
  then show ?thesis using prog_after_round [OF L t r] is_last [OF L t] True by (simp add: cc_valid_def)
next
  case False
  then show ?thesis using is_last [OF L t] by (auto simp: with_valid_def cc_valid_def)
qed

lemma prog_copy_end: "cc_copy c g t r 8 = cc_notify c g t r"
  by (simp add: cc_copy_def)

lemma prog_print_end: "chain_layout c g \<Longrightarrow> in_group c t \<Longrightarrow> cc_print c g t 16 = cc_prog c g t (after_round (id_of c t) 15)"
  by (simp add: cc_print_def prog_after_round)

lemma first_round:
  assumes L: "chain_layout c g" and t: "in_group c t"
  shows "chained_loop c g (cc_fn c) t 0 1 = cc_prog c g t (if id_of c t = 0 then WaitR 1 else WaitV 1)"
proof -
  have "block 1 = 0" by (simp add: block_def)
  then have l: "chained_loop c g (cc_fn c) t 0 1 = (if id_of c t \<noteq> 0 then cc_prog c g t (WaitV 1) else cc_valid c g t 1)"
    using chained_loop_block [OF L t, of 1] is_first [of c t] by simp
  show ?thesis
  proof (cases "id_of c t = 0")
    case True
    then have "id_of c t \<noteq> group_N c - 1" using L by (simp add: chain_layout_def)
    then show ?thesis using True l is_last [OF L t] by (simp add: cc_valid_def)
  qed (use l in simp)
qed

lemma next_round:
  assumes L: "chain_layout c g" and t: "in_group c t" and "id_of c t \<noteq> 0" and "r \<in> {1..15}"
  shows "chained_loop c g (cc_fn c) t (block (r + 1)) (r + 1) = cc_prog c g t (WaitV (r + 1))"
  using chained_loop_block [OF L t, of "r + 1"] assms(3,4) is_first [of c t] by simp

lemma pair_less: "i < 8 \<Longrightarrow> 2 * i < 16 \<and> 2 * i + 1 < (16 :: nat)"
  by simp

lemma cc_code_step:
  assumes L: "chain_layout c g" and t: "in_group c t" and ok: "local_ok (group_N c) (id_of c t) q"
  shows "pstep c t (cc_prog c g t q, m) = (cc_prog c g t (fst (cc_move c g t m q)), cc_effect c g t (snd (cc_move c g t m q)) m)"
proof -
  have g: "group_fits c" and io: "io_fits c" using L by (simp_all add: chain_layout_def)
  note e = chain_eva(1) [OF L] and r = chain_eva(2) [OF L]
  have ld: "load32 (mem m) p = rd m p" for p by (simp add: rd_def)
  have upd: "cc_update c t r = tag_update (of_nat (id_of c t)) (of_nat r)" for r by (simp add: cc_update_def)
  have nx: "in_group c (next_tile c t)" if "id_of c t \<noteq> group_N c - 1"
    by (rule next_not_last(1) [OF g t that])
  have pv: "in_group c (prev_tile c t)" if "id_of c t \<noteq> 0" by (rule prev_tile(1) [OF g t that])
  have emit: "eva_to_npa c t (bsg_remote_ptr_io c (IO_X_INDEX c) (chain_addr g (Buf 0 i)))
      = Endpoint (IO_X_INDEX c) (IO_Y_INDEX c) (chain_addr g (Buf 0 i))" if "i < 16" for i
    using eva_io [OF io] unat_chain_addr [OF L, of "Buf 0 i"] chain_off_less [OF L, of "Buf 0 i"] that by simp
  show ?thesis
  proof (cases q)
    case (Fill i)
    then have i: "i < 32" "id_of c t = 0" using ok by (simp_all add: local_ok_def)
    then have "is_cell (Buf (i mod 2) (i div 2))" by auto
    then show ?thesis using i first_round [OF L t] by (cases "i = 31") (simp_all add: Fill upt_conv_Cons e put8_def Let_def del: is_cell.simps)
  next
    case (Ann i)
    then have i: "i < 2" "id_of c t \<noteq> 0" using ok by (simp_all add: local_ok_def)
    then have "i = 0 \<or> i = 1" by auto
    then show ?thesis using first_round [OF L t] r [OF _ pv [OF i(2)], of "Ready 0"] r [OF _ pv [OF i(2)], of "Ready 1"] i(2)
      by (elim disjE) (simp_all add: Ann Let_def)
  next
    case (WaitV r)
    then show ?thesis by (simp add: wait_then_step Let_def)
  next
    case (TryV r)
    then show ?thesis using ok block_less [of r] prog_with_valid [OF L t, of r] by (auto simp: ld Let_def local_ok_def e)
  next
    case (AgainV r)
    then show ?thesis using ok block_less [of r] prog_with_valid [OF L t, of r] by (auto simp: ld Let_def local_ok_def e)
  next
    case (WaitR r)
    then show ?thesis by (simp add: wait_then_step Let_def)
  next
    case (TryR r)
    then show ?thesis using block_less [of r] by (auto simp: ld Let_def e)
  next
    case (AgainR r)
    then show ?thesis using block_less [of r] by (auto simp: ld Let_def e)
  next
    case (LdA k i)
    then have "i < 8" using ok by (simp add: local_ok_def)
    then show ?thesis using pair_less [of i] block_less [of k]
      by (simp add: LdA cc_copy_def upt_conv_Cons cc_pair_def ld e)
  next
    case (LdB k i w)
    then have "i < 8" using ok by (simp add: local_ok_def)
    then show ?thesis using pair_less [of i] block_less [of k] by (simp add: LdB ld e)
  next
    case (StA k i w w')
    then have "i < 8" "id_of c t \<noteq> group_N c - 1" using ok by (simp_all add: local_ok_def)
    then show ?thesis using pair_less [of i] block_less [of k] nx by (simp add: StA r upd)
  next
    case (StB k i w')
    then have "i < 8" "id_of c t \<noteq> group_N c - 1" using ok by (simp_all add: local_ok_def)
    then show ?thesis using pair_less [of i] block_less [of k] nx
      by (cases "i = 7") (simp_all add: StB r upd prog_copy_end)
  next
    case (Notify k)
    then have "id_of c t \<noteq> group_N c - 1" "k \<in> {1..16}" using ok by (simp_all add: local_ok_def)
    then show ?thesis using block_less [of k] nx prog_after_round [OF L t, of k] by (simp add: Notify cc_notify_def r)
  next
    case (PrL i)
    then have "i < 16" using ok by (simp add: local_ok_def)
    then show ?thesis by (simp add: PrL cc_print_def upt_conv_Cons ld e)
  next
    case (PrS i w)
    then have "i < 16" using ok by (simp add: local_ok_def)
    then show ?thesis using prog_print_end [OF L t] emit [of i]
      by (cases "i = 15") (simp_all add: PrS cc_emit_def bsg_remote_ptr_io_store_def)
  next
    case (Ackn k)
    then have "id_of c t \<noteq> 0" "k \<in> {1..15}" using ok by (simp_all add: local_ok_def)
    then show ?thesis using block_less [of k] next_round [OF L t, of k] pv is_first [of c t] by (simp add: Ackn cc_rest_def r)
  next
    case Fin
    then show ?thesis by simp
  qed
qed

section \<open>The invariant\<close>

definition effect_ok :: "nat \<Rightarrow> nat \<Rightarrow> effect \<Rightarrow> bool" where
  "effect_ok n k e \<longleftrightarrow> (case e of
     SetValid j w \<Rightarrow> k \<noteq> n - 1 \<and> j < 2 | SetBuf j i w \<Rightarrow> k \<noteq> n - 1 \<and> j < 2 \<and> i < 16 | SetReady j w \<Rightarrow> k \<noteq> 0 \<and> j < 2
   | FillBuf j i \<Rightarrow> k = 0 \<and> j < 2 \<and> i < 16 | _ \<Rightarrow> True)"

lemma effect_step: "local_ok n k q \<Longrightarrow> cc_next n k V R B q = (p, e) \<Longrightarrow> effect_ok n k e"
  using block_less by (cases q) (auto simp: local_ok_def effect_ok_def)

definition link_at :: "cfg \<Rightarrow> chained_vars \<Rightarrow> (tile \<Rightarrow> cstate) \<Rightarrow> machine \<Rightarrow> tile \<Rightarrow> bool" where
  "link_at c g qs m t \<longleftrightarrow> (let u = next_tile c t in
     link_ok (id_of c t) (qs t) (qs u) (\<lambda>j. cval c g m u (Valid j)) (\<lambda>j. cval c g m t (Ready j)) (\<lambda>j i. cval c g m u (Buf j i)))"

text \<open>What the host receives: the block of round 15, from the last tile.\<close>

definition chain_output :: "cfg \<Rightarrow> chained_vars \<Rightarrow> (u32 \<times> u32 \<times> u32) list" where
  "chain_output c g = map (\<lambda>i. (IO_X_INDEX c, buf_addr g 0 i, chain_value (group_N c - 1) 15 i)) [0..<16]"

definition cc_inv :: "cfg \<Rightarrow> chained_vars \<Rightarrow> machine \<Rightarrow> (tile \<Rightarrow> cstate) \<Rightarrow> machine \<Rightarrow> bool" where
  "cc_inv c g m0 qs m \<longleftrightarrow> chain_layout c g
     \<and> (\<forall>t. in_group c t \<longrightarrow> local_ok (group_N c) (id_of c t) (qs t))
     \<and> (\<forall>t. in_group c t \<longrightarrow> Suc (id_of c t) < group_N c \<longrightarrow> link_at c g qs m t)
     \<and> (\<forall>t. in_group c t \<longrightarrow> id_of c t = 0 \<longrightarrow> fill_ok (qs t) (\<lambda>j i. cval c g m t (Buf j i)))
     \<and> (\<forall>t. in_group c t \<longrightarrow> id_of c t = group_N c - 1 \<longrightarrow> io m = io m0 @ take (emitted (qs t)) (chain_output c g))"

text \<open>The cells after a step.\<close>

lemma cval_fill:
  assumes L: "chain_layout c g" and t: "in_group c t" "is_cell e" and u: "in_group c u" "is_cell (Buf j i)"
  shows "cval c g (put8 c (chain_loc c g (u, Buf j i)) v m) t e =
    (if (t, e) = (u, Buf j i) then (cval c g m t e AND NOT (mask 8)) OR ucast v else cval c g m t e)"
proof (cases "(t, e) = (u, Buf j i)")
  case True
  have "load32 (store8 M p v) p = (load32 M p AND NOT (mask 8)) OR ucast v" for M p
  proof (rule bit_word_eqI)
    fix n :: nat
    assume n: "n < LENGTH(32)"
    have v: "\<not> bit v n" if "8 \<le> n" using that bit_imp_le_length [of v n] by auto
    show "bit (load32 (store8 M p v) p) n = bit ((load32 M p AND NOT (mask 8)) OR ucast v) n"
      using n v by (cases "n < 8") (auto simp: load32_def store8_def npa_off_neq bit_simps dest: bit_imp_le_length)
  qed
  then show ?thesis using True by (simp add: rd_def put8_def)
next
  case False
  have "chain_loc c g (u, Buf j i) \<notin> span4 (chain_loc c g (t, e))"
    using chain_cells [OF L] t u False unfolding disjoint_cells_def span4_def by fastforce
  then show ?thesis unfolding if_not_P [OF False] by (rule rd_put8)
qed

lemma chain_off_io: "chain_layout c g \<Longrightarrow> in_group c u \<Longrightarrow> off_io c (chain_loc c g (u, x))"
  unfolding chain_layout_def chain_loc_def by (simp only: prod.case)

lemma cell_after:
  assumes L: "chain_layout c g" and t: "in_group c t" and ok: "effect_ok (group_N c) (id_of c t) e" and u: "in_group c u" "is_cell x"
  shows "cval c g (cc_effect c g t e m) u x = (case e of
      SetValid j w \<Rightarrow> if u = next_tile c t \<and> x = Valid j then w else cval c g m u x
    | SetBuf j i w \<Rightarrow> if u = next_tile c t \<and> x = Buf j i then w else cval c g m u x
    | SetReady j w \<Rightarrow> if u = prev_tile c t \<and> x = Ready j then w else cval c g m u x
    | FillBuf j i \<Rightarrow> if u = t \<and> x = Buf j i then (cval c g m u x AND NOT (mask 8)) OR ucast (of_nat i :: u8) else cval c g m u x
    | _ \<Rightarrow> cval c g m u x)"
proof -
  have g: "group_fits c" using L by (simp add: chain_layout_def)
  have nx: "in_group c (next_tile c t)" if "id_of c t \<noteq> group_N c - 1" by (rule next_not_last(1) [OF g t that])
  have pv: "in_group c (prev_tile c t)" if "id_of c t \<noteq> 0" by (rule prev_tile(1) [OF g t that])
  note put = cval_put [OF L u]
  show ?thesis
  proof (cases e)
    case (Emit i w)
    have "off_io c (chain_loc c g (u, x))" by (rule chain_off_io [OF L u(1)])
    then show ?thesis by (simp add: Emit)
  next
    case (FillBuf j i)
    then show ?thesis using ok t cval_fill [OF L u t] by (simp add: effect_ok_def)
  qed (use ok put nx pv in \<open>simp_all add: effect_ok_def\<close>)
qed

lemma io_after:
  assumes L: "chain_layout c g" and t: "in_group c t" and ok: "effect_ok (group_N c) (id_of c t) e"
  shows "io (cc_effect c g t e m) = io m @ (case e of Emit i w \<Rightarrow> [(IO_X_INDEX c, buf_addr g 0 i, w)] | _ \<Rightarrow> [])"
proof -
  have g: "group_fits c" using L by (simp add: chain_layout_def)
  have nx: "in_group c (next_tile c t)" if "id_of c t \<noteq> group_N c - 1" by (rule next_not_last(1) [OF g t that])
  have pv: "in_group c (prev_tile c t)" if "id_of c t \<noteq> 0" by (rule prev_tile(1) [OF g t that])
  have off: "off_io c (chain_loc c g (u, x))" if "in_group c u" for u x by (rule chain_off_io [OF L that])
  show ?thesis
  proof (cases e)
    case (Emit i w)
    then show ?thesis by (simp add: io_log_def chain_addr.simps)
  qed (use ok off [OF nx] off [OF pv] off [OF t] in \<open>simp_all add: effect_ok_def put8_def\<close>)
qed

lemma link_cong:
  assumes "link_ok k q q' V R B" and "stored q \<le> 16"
    and "\<And>j. j < 2 \<Longrightarrow> V' j = V j" and "\<And>j. j < 2 \<Longrightarrow> R' j = R j" and "\<And>j i. j < 2 \<Longrightarrow> i < 16 \<Longrightarrow> B' j i = B j i"
  shows "link_ok k q q' V' R' B'"
proof -
  have "B' (block x) i = B (block x) i" if "i < 16" for x i using assms(5) block_less that by blast
  moreover have "i < 16" if "i < stored q" for i using assms(2) that by simp
  ultimately show ?thesis using assms(1,3,4) unfolding link_ok_def by simp
qed

lemma local_bounds: "local_ok n k q \<Longrightarrow> stored q \<le> 16 \<and> sent q \<le> 16"
  by (cases q) (auto simp: local_ok_def)

lemma fill_cong: "fill_ok q B \<Longrightarrow> (\<And>j i. j < 2 \<Longrightarrow> i < 16 \<Longrightarrow> B' j i = B j i) \<Longrightarrow> fill_ok q B'"
  by (simp add: fill_ok_def)

lemma cc_invD:
  assumes "cc_inv c g m0 qs m"
  shows "chain_layout c g" and "group_fits c" and "2 \<le> group_N c"
    and "in_group c t \<Longrightarrow> local_ok (group_N c) (id_of c t) (qs t)"
    and "in_group c t \<Longrightarrow> Suc (id_of c t) < group_N c \<Longrightarrow> link_at c g qs m t"
    and "in_group c t \<Longrightarrow> id_of c t = 0 \<Longrightarrow> fill_ok (qs t) (\<lambda>j i. cval c g m t (Buf j i))"
    and "in_group c t \<Longrightarrow> id_of c t = group_N c - 1 \<Longrightarrow> io m = io m0 @ take (emitted (qs t)) (chain_output c g)"
  using assms unfolding cc_inv_def by (blast, simp add: chain_layout_def, simp add: chain_layout_def, blast+)

text \<open>The tile that moves: its own state and the links to both sides.\<close>

lemma move_local:
  assumes I: "cc_inv c g m0 qs m" and t: "in_group c t" and st: "cc_move c g t m (qs t) = (p, e)"
  shows "local_ok (group_N c) (id_of c t) p"
proof (rule local_step [OF cc_invD(4) [OF I t] cc_invD(3) [OF I] id_less [OF cc_invD(2) [OF I] t] st])
  show "cval c g m t (Buf (block (round_of (qs t))) i) = chain_value (id_of c t) (round_of (qs t)) i"
    if k: "id_of c t \<noteq> 0" and i: "i < 16" "round_of (qs t) \<le> entered (qs t)" for i
  proof -
    note pv = prev_tile [OF cc_invD(2) [OF I] t k]
    have "Suc (id_of c (prev_tile c t)) < group_N c" using pv(2) id_less [OF cc_invD(2) [OF I] t] by simp
    from cc_invD(5) [OF I pv(1) this] have "link_ok (id_of c (prev_tile c t)) (qs (prev_tile c t)) (qs t) (\<lambda>j. cval c g m t (Valid j))
        (\<lambda>j. cval c g m (prev_tile c t) (Ready j)) (\<lambda>j i. cval c g m t (Buf j i))"
      unfolding link_at_def Let_def pv(3) .
    from link_loads [OF this i(2,1)] show ?thesis unfolding pv(2) .
  qed
  show "cval c g m t (Buf j i) = of_nat i" if "id_of c t = 0" "round_of (qs t) \<le> entered (qs t)" "j < 2" "i < 16" for j i
    using cc_invD(6) [OF I t that(1)] that(2-4) by (cases "qs t") (auto simp: fill_ok_def)
qed

lemma move_next:
  assumes I: "cc_inv c g m0 qs m" and t: "in_group c t" and st: "cc_move c g t m (qs t) = (p, e)" and k: "Suc (id_of c t) < group_N c"
  shows "link_at c g (qs(t := p)) (cc_effect c g t e m) t"
proof -
  note D = cc_invD [OF I] and n = next_tile [OF cc_invD(2) [OF I] t k]
  let ?u = "next_tile c t"
  have ne: "?u \<noteq> t" "prev_tile c t \<noteq> t \<or> id_of c t = 0" using n(2) prev_tile(2) [OF D(2) t] by (metis n_not_Suc_n)+
  have ok: "effect_ok (group_N c) (id_of c t) e" by (rule effect_step [OF D(4) [OF t] st])
  note after = cell_after [OF D(1) t ok]
  have "link_ok (id_of c t) p (qs ?u) (link_V e (\<lambda>j. cval c g m ?u (Valid j))) (\<lambda>j. cval c g m t (Ready j))
     (link_B e (\<lambda>j i. cval c g m ?u (Buf j i)))"
    using link_left [OF _ D(4) [OF t] k st] D(5) [OF t k] D(4) [OF n(1)] n(2) unfolding link_at_def Let_def by metis
  moreover have "cval c g (cc_effect c g t e m) ?u (Valid j) = link_V e (\<lambda>j. cval c g m ?u (Valid j)) j" if "j < 2" for j
    using after [OF n(1), of "Valid j"] that by (cases e) auto
  moreover have "cval c g (cc_effect c g t e m) ?u (Buf j i) = link_B e (\<lambda>j i. cval c g m ?u (Buf j i)) j i" if "j < 2" "i < 16" for j i
    using after [OF n(1), of "Buf j i"] that ne(1) by (cases e) auto
  moreover have "cval c g (cc_effect c g t e m) t (Ready j) = cval c g m t (Ready j)" if "j < 2" for j
    using after [OF t, of "Ready j"] that ne ok by (cases e) (auto simp: effect_ok_def)
  ultimately show ?thesis
    using link_cong local_bounds [OF move_local [OF I t st]] ne(1) unfolding link_at_def Let_def by simp
qed

lemma move_prev:
  assumes I: "cc_inv c g m0 qs m" and t: "in_group c t" and st: "cc_move c g t m (qs t) = (p, e)" and k: "id_of c t \<noteq> 0"
  shows "link_at c g (qs(t := p)) (cc_effect c g t e m) (prev_tile c t)"
proof -
  note D = cc_invD [OF I] and n = prev_tile [OF cc_invD(2) [OF I] t k]
  let ?s = "prev_tile c t"
  have ks: "Suc (id_of c ?s) < group_N c" using n(2) id_less [OF D(2) t] by simp
  have ne: "?s \<noteq> t" "next_tile c t \<noteq> t \<or> id_of c t = group_N c - 1"
    using n(2) next_not_last(3) [OF D(2) t] by (metis n_not_Suc_n, blast)
  have ok: "effect_ok (group_N c) (id_of c t) e" by (rule effect_step [OF D(4) [OF t] st])
  note after = cell_after [OF D(1) t ok]
  have "link_ok (id_of c ?s) (qs ?s) p (\<lambda>j. cval c g m t (Valid j)) (link_R e (\<lambda>j. cval c g m ?s (Ready j))) (\<lambda>j i. cval c g m t (Buf j i))"
    using link_right [of "id_of c ?s" "qs ?s" "qs t"] D(5) [OF n(1) ks] D(4) [OF t] st local_bounds [OF D(4) [OF n(1)]] n(2,3)
    unfolding link_at_def Let_def by metis
  moreover have "cval c g (cc_effect c g t e m) t (Valid j) = cval c g m t (Valid j)" if "j < 2" for j
    using after [OF t, of "Valid j"] that ne ok by (cases e) (auto simp: effect_ok_def)
  moreover have "cval c g (cc_effect c g t e m) t (Buf j i) = cval c g m t (Buf j i)" if "j < 2" "i < 16" for j i
    using after [OF t, of "Buf j i"] that ne ok k by (cases e) (auto simp: effect_ok_def)
  moreover have "cval c g (cc_effect c g t e m) ?s (Ready j) = link_R e (\<lambda>j. cval c g m ?s (Ready j)) j" if "j < 2" for j
    using after [OF n(1), of "Ready j"] that by (cases e) auto
  ultimately show ?thesis
    using link_cong local_bounds [OF D(4) [OF n(1)]] ne(1) n(3) unfolding link_at_def Let_def by simp
qed

lemma move_other:
  assumes I: "cc_inv c g m0 qs m" and t: "in_group c t" and st: "cc_move c g t m (qs t) = (p, e)"
    and s: "in_group c s" "Suc (id_of c s) < group_N c" and ne: "s \<noteq> t" "next_tile c s \<noteq> t"
  shows "link_at c g (qs(t := p)) (cc_effect c g t e m) s"
proof -
  note D = cc_invD [OF I] and n = next_tile [OF cc_invD(2) [OF I] s]
  let ?u = "next_tile c s"
  have ok: "effect_ok (group_N c) (id_of c t) e" by (rule effect_step [OF D(4) [OF t] st])
  note after = cell_after [OF D(1) t ok]
  have nx: "next_tile c t \<noteq> ?u" if "id_of c t \<noteq> group_N c - 1"
    using that ne(1) prev_next_tile [OF D(2) t] prev_next_tile [OF D(2) s] id_less [OF D(2) t] by (metis Suc_lessI diff_Suc_1)
  have pv: "prev_tile c t \<noteq> s" if "id_of c t \<noteq> 0" using prev_tile(3) [OF D(2) t that] ne(2) by blast
  have "cval c g (cc_effect c g t e m) ?u (Valid j) = cval c g m ?u (Valid j)" if "j < 2" for j
    using after [OF n(1), of "Valid j"] that nx ok by (cases e) (auto simp: effect_ok_def)
  moreover have "cval c g (cc_effect c g t e m) ?u (Buf j i) = cval c g m ?u (Buf j i)" if "j < 2" "i < 16" for j i
    using after [OF n(1), of "Buf j i"] that nx ne ok by (cases e) (auto simp: effect_ok_def)
  moreover have "cval c g (cc_effect c g t e m) s (Ready j) = cval c g m s (Ready j)" if "j < 2" for j
    using after [OF s(1), of "Ready j"] that pv ok by (cases e) (auto simp: effect_ok_def)
  ultimately show ?thesis
    using link_cong [OF _ conjunct1 [OF local_bounds [OF D(4) [OF s(1)]]]] D(5) [OF s] ne unfolding link_at_def Let_def by simp
qed

lemma cc_inv_step:
  assumes t: "in_group c t" and I: "cc_inv c g m0 qs m" and st: "cc_move c g t m (qs t) = (p, e)"
  shows "cc_inv c g m0 (qs(t := p)) (cc_effect c g t e m)"
proof -
  let ?qs = "qs(t := p)" and ?m = "cc_effect c g t e m"
  note D = cc_invD [OF I]
  have ok: "effect_ok (group_N c) (id_of c t) e" by (rule effect_step [OF D(4) [OF t] st])
  have loc: "local_ok (group_N c) (id_of c s) (?qs s)" if "in_group c s" for s
    using move_local [OF I t st] D(4) [OF that] by simp
  have link: "link_at c g ?qs ?m s" if s: "in_group c s" "Suc (id_of c s) < group_N c" for s
  proof -
    consider "s = t" | "s \<noteq> t" "next_tile c s = t" | "s \<noteq> t" "next_tile c s \<noteq> t" by blast
    then show ?thesis
    proof cases
      case 1
      then show ?thesis using move_next [OF I t st] s by simp
    next
      case 2
      then have "id_of c t \<noteq> 0" "prev_tile c t = s" using next_tile(2) [OF D(2) s] prev_next_tile [OF D(2) s] by auto
      then show ?thesis using move_prev [OF I t st] by simp
    next
      case 3
      then show ?thesis by (rule move_other [OF I t st s])
    qed
  qed
  have fill: "fill_ok (?qs s) (\<lambda>j i. cval c g ?m s (Buf j i))" if s: "in_group c s" "id_of c s = 0" for s
  proof (cases "s = t")
    case True
    have F: "fill_ok (qs t) (\<lambda>j i. cval c g m t (Buf j i))" using D(6) [OF t] s True by simp
    have "fill_ok p (fill_B e (\<lambda>j i. cval c g m t (Buf j i)))"
      using fill_step [OF F] st D(4) [OF t] s True by simp
    moreover have "cval c g ?m t (Buf j i) = fill_B e (\<lambda>j i. cval c g m t (Buf j i)) j i" if ji: "j < 2" "i < 16" for j i
    proof (cases e)
      case (FillBuf l k)
      have "qs t = Fill (2 * k + l)" "l < 2" "k < 16" using st ok unfolding FillBuf by (cases "qs t"; auto simp: effect_ok_def)+
      then have "cval c g m t (Buf l k) = 0" using F by (auto simp: fill_ok_def)
      moreover have "(of_nat k :: u32) = ucast (of_nat k :: u8)" using chain_value_0 [OF \<open>k < 16\<close>]
        by (simp add: chain_value_def data_of_tag_def)
      ultimately show ?thesis using cell_after [OF D(1) t ok t, of "Buf j i" m] ji by (auto simp: FillBuf)
    next
      case (SetBuf l k w)
      then have "next_tile c t \<noteq> t" using ok next_not_last(3) [OF D(2) t] by (simp add: effect_ok_def)
      then show ?thesis using cell_after [OF D(1) t ok t, of "Buf j i" m] ji by (auto simp: SetBuf)
    qed (use cell_after [OF D(1) t ok t, of "Buf j i" m] ji in auto)
    ultimately show ?thesis using fill_cong True by simp
  next
    case False
    have nx: "next_tile c t \<noteq> s" if "id_of c t \<noteq> group_N c - 1"
      using next_not_last(2) [OF D(2) t that] s(2) by auto
    have "cval c g ?m s (Buf j i) = cval c g m s (Buf j i)" if "j < 2" "i < 16" for j i
      using cell_after [OF D(1) t ok s(1), of "Buf j i" m] that nx False ok by (cases e) (auto simp: effect_ok_def)
    then show ?thesis using fill_cong [OF D(6) [OF s]] False by simp
  qed
  have out: "io ?m = io m0 @ take (emitted (?qs s)) (chain_output c g)" if s: "in_group c s" "id_of c s = group_N c - 1" for s
  proof (cases "s = t")
    case True
    note E = emit_step [OF _ _ D(3), of "qs t", folded s(2)]
    note a = io_after [OF D(1) t ok, of m]
    show ?thesis
    proof (cases e)
      case (Emit i w)
      then have i: "i = emitted (qs t)" "w = chain_value (group_N c - 1) 15 i" "i < 16" "emitted p = Suc i"
        using E D(4) [OF t] st True s(2) by simp_all
      have "take (Suc i) (chain_output c g) = take i (chain_output c g) @ [(IO_X_INDEX c, buf_addr g 0 i, w)]"
        using i by (simp add: take_Suc_conv_app_nth chain_output_def)
      then show ?thesis using a D(7) [OF s] i True by (simp add: Emit)
    qed (use E D(4) [OF t] D(7) [OF s] st True s(2) a in simp_all)
  next
    case False
    then have "id_of c t \<noteq> group_N c - 1" using id_inj [OF D(2) s(1) t] s(2) by auto
    then have "io ?m = io m" using io_after [OF D(1) t ok, of m] no_emit [OF D(4) [OF t] st] by (cases e) auto
    then show ?thesis using D(7) [OF s] False by simp
  qed
  show ?thesis using D(1) loc link fill out unfolding cc_inv_def by blast
qed

interpretation chain: control_points c "cc_prog c g" "\<lambda>t q m. (fst (cc_move c g t m q), cc_effect c g t (snd (cc_move c g t m q)) m)" "cc_inv c g m0"
  for c g m0
proof (unfold_locales, goal_cases)
  case (1 t qs m)
  then show ?case using cc_code_step [OF cc_invD(1) [OF 1(2)] 1(1) cc_invD(4) [OF 1(2,1)]] by simp
next
  case (2 t qs m q' m')
  then show ?case using cc_inv_step [OF 2(1,2), of "fst (cc_move c g t m (qs t))" "snd (cc_move c g t m (qs t))"] by auto
qed

section \<open>All tiles can finish\<close>

abbreviation can_move :: "cfg \<Rightarrow> chained_vars \<Rightarrow> (tile \<Rightarrow> cstate) \<Rightarrow> machine \<Rightarrow> tile \<Rightarrow> bool" where
  "can_move c g qs m t \<equiv> may_step (\<lambda>j. cval c g m t (Valid j)) (\<lambda>j. cval c g m t (Ready j)) (qs t)"

text \<open>Among the tiles that are least advanced, the first one can move, or its successor has not announced itself.\<close>

lemma least_can_move:
  assumes I: "cc_inv c g m0 qs m" and t: "in_group c t" "qs t \<noteq> Fin"
    and least: "\<And>u. in_group c u \<Longrightarrow> qs u \<noteq> Fin \<Longrightarrow> round_of (qs t) \<le> round_of (qs u)"
    and first: "\<And>u. in_group c u \<Longrightarrow> qs u \<noteq> Fin \<Longrightarrow> round_of (qs u) = round_of (qs t) \<Longrightarrow> id_of c t \<le> id_of c u"
  shows "\<exists>u. in_group c u \<and> can_move c g qs m u"
proof -
  note D = cc_invD [OF I]
  have ok: "local_ok (group_N c) (id_of c t) (qs t)" by (rule D(4) [OF t(1)])
  consider (valid) r where "qs t \<in> {WaitV r, TryV r, AgainV r}" | (ready) r where "qs t \<in> {WaitR r, TryR r, AgainR r}"
    | (other) "\<forall>r. qs t \<notin> {WaitV r, TryV r, AgainV r, WaitR r, TryR r, AgainR r}" by blast
  then show ?thesis
  proof cases
    case valid
    then have k: "id_of c t \<noteq> 0" and r: "1 \<le> r" "r \<le> 16" "round_of (qs t) = r" using ok by (auto simp: local_ok_def)
    note pv = prev_tile [OF D(2) t(1) k]
    have "Suc (id_of c (prev_tile c t)) < group_N c" using pv(2) id_less [OF D(2) t(1)] by simp
    from D(5) [OF pv(1) this] have L: "link_ok (id_of c (prev_tile c t)) (qs (prev_tile c t)) (qs t) (\<lambda>j. cval c g m t (Valid j))
        (\<lambda>j. cval c g m (prev_tile c t) (Ready j)) (\<lambda>j i. cval c g m t (Buf j i))"
      unfolding link_at_def Let_def pv(3) .
    have "r < round_of (qs (prev_tile c t))"
    proof (cases "qs (prev_tile c t) = Fin")
      case False
      then show ?thesis using least [OF pv(1)] first [OF pv(1)] pv(2) r(3) by fastforce
    qed (use r in simp)
    from valid_there [OF L valid this r(1)] show ?thesis using valid t(1) by (intro exI [of _ t]) (auto simp: may_step_def)
  next
    case ready
    then have k: "id_of c t \<noteq> group_N c - 1" and r: "1 \<le> r" "r \<le> 16" "round_of (qs t) = r" using ok by (auto simp: local_ok_def)
    let ?u = "next_tile c t"
    note u = next_not_last [OF D(2) t(1) k]
    have ku: "Suc (id_of c t) < group_N c" using k id_less [OF D(2) t(1)] by simp
    have L: "link_ok (id_of c t) (qs t) (qs ?u) (\<lambda>j. cval c g m ?u (Valid j)) (\<lambda>j. cval c g m t (Ready j)) (\<lambda>j i. cval c g m ?u (Buf j i))"
      using D(5) [OF t(1) ku] unfolding link_at_def Let_def .
    show ?thesis
    proof (cases "\<exists>i. qs ?u = Ann i")
      case True
      then show ?thesis using u(1) by (intro exI [of _ ?u]) (auto simp: may_step_def)
    next
      case False
      have "qs ?u \<noteq> Fill i" for i using D(4) [OF u(1)] u(2) by (auto simp: local_ok_def)
      moreover have "r \<le> round_of (qs ?u)" using least [OF u(1)] r by (cases "qs ?u = Fin") auto
      ultimately show ?thesis using ready_there [OF L ready _ r(1,2)] False ready t(1)
        by (intro exI [of _ t]) (auto simp: may_step_def)
    qed
  next
    case other
    then show ?thesis using t by (intro exI [of _ t]) (cases "qs t"; auto simp: may_step_def)
  qed
qed

lemma some_can_move:
  assumes I: "cc_inv c g m0 qs m" and "\<not> (\<forall>t. in_group c t \<longrightarrow> qs t = Fin)"
  shows "\<exists>t. in_group c t \<and> can_move c g qs m t"
proof -
  let ?on = "\<lambda>t. in_group c t \<and> qs t \<noteq> Fin"
  obtain t0 where "?on t0" using assms(2) by blast
  then obtain t1 where t1: "?on t1" "\<And>u. ?on u \<Longrightarrow> round_of (qs t1) \<le> round_of (qs u)"
    using ex_has_least_nat [of ?on t0 "\<lambda>t. round_of (qs t)"] by blast
  let ?low = "\<lambda>t. ?on t \<and> round_of (qs t) = round_of (qs t1)"
  obtain t where t: "?low t" "\<And>u. ?low u \<Longrightarrow> id_of c t \<le> id_of c u"
    using ex_has_least_nat [of ?low t1 "\<lambda>t. id_of c t"] t1(1) by blast
  show ?thesis
  proof (rule least_can_move [OF I, of t])
    show "in_group c t" "qs t \<noteq> Fin" using t(1) by blast+
    show "round_of (qs t) \<le> round_of (qs u)" if "in_group c u" "qs u \<noteq> Fin" for u using t1(2) [of u] t(1) that by simp
    show "id_of c t \<le> id_of c u" if "in_group c u" "qs u \<noteq> Fin" "round_of (qs u) = round_of (qs t)" for u
      using t(2) [of u] t(1) that by simp
  qed
qed

definition cc_rank_sum :: "cfg \<Rightarrow> (tile \<Rightarrow> cstate) \<Rightarrow> nat" where
  "cc_rank_sum c qs = (\<Sum>t \<in> group_tiles c. cc_rank (qs t))"

lemma cc_progress:
  assumes I: "cc_inv c g m0 qs m" and "\<not> (\<forall>t. in_group c t \<longrightarrow> qs t = Fin)"
  shows "\<exists>t. in_group c t \<and> cc_rank_sum c (qs(t := fst (cc_move c g t m (qs t)))) < cc_rank_sum c qs"
proof -
  obtain t where t: "in_group c t" "can_move c g qs m t" using some_can_move [OF assms] by blast
  have "cc_rank (fst (cc_move c g t m (qs t))) < cc_rank (qs t)" by (rule rank_step [OF cc_invD(4) [OF I t(1)] t(2)])
  then have "cc_rank_sum c (qs(t := fst (cc_move c g t m (qs t)))) < cc_rank_sum c qs"
    using sum_fun_upd [of "group_tiles c" t cc_rank qs "fst (cc_move c g t m (qs t))"] t(1) by (simp add: cc_rank_sum_def group_tiles_def)
  then show ?thesis using t(1) by blast
qed

section \<open>Results\<close>

definition chain_zero :: "cfg \<Rightarrow> chained_vars \<Rightarrow> machine \<Rightarrow> bool" where
  "chain_zero c g m \<longleftrightarrow> (\<forall>t. in_group c t \<longrightarrow> (\<forall>x. is_cell x \<longrightarrow> cval c g m t x = 0))"

lemma cc_inv_start:
  assumes L: "chain_layout c g" and z: "chain_zero c g m0"
  shows "cc_inv c g m0 (cc_start c) m0"
proof -
  have g: "group_fits c" and N: "2 \<le> group_N c" using L by (simp_all add: chain_layout_def)
  have z': "cval c g m0 u x = 0" if "in_group c u" "is_cell x" for u x using z that unfolding chain_zero_def by blast
  have "local_ok (group_N c) (id_of c t) (cc_start c t)" for t by (simp add: cc_start_def local_ok_def)
  moreover have "link_at c g (cc_start c) m0 t" if t: "in_group c t" "Suc (id_of c t) < group_N c" for t
  proof -
    note n = next_tile [OF g t]
    have "cc_start c (next_tile c t) = Ann 0" using n(2) by (simp add: cc_start_def)
    moreover have "started (cc_start c t) = 0" "sent (cc_start c t) = 0" "stored (cc_start c t) = 0" by (simp_all add: cc_start_def)
    moreover have "last_round j 0 = 0" for j by (simp add: last_round_def)
    ultimately show ?thesis using z' [OF t(1)] z' [OF n(1)] unfolding link_at_def link_ok_def Let_def by simp
  qed
  moreover have "fill_ok (cc_start c t) (\<lambda>j i. cval c g m0 t (Buf j i))" if "in_group c t" "id_of c t = 0" for t
    using that z' by (simp add: fill_ok_def cc_start_def)
  moreover have "io m0 = io m0 @ take (emitted (cc_start c t)) (chain_output c g)" for t by (simp add: cc_start_def)
  ultimately show ?thesis unfolding cc_inv_def using L by blast
qed

lemma chain_reachable:
  assumes "chain_layout c g" and "chain_zero c g m0" and "reachable c (\<lambda>t. chained_work c g t, m0) s"
  obtains qs where "fst s = (\<lambda>t. cc_prog c g t (qs t))" and "cc_inv c g m0 qs (snd s)"
  using chain.reachable_inv [of c g "cc_start c" m0 s m0] cc_inv_start [OF assms(1,2)] assms(3)
  unfolding cc_prog_start by blast

lemma prog_Ret: "cc_prog c g t q = Ret v \<Longrightarrow> local_ok n k q \<Longrightarrow> id_of c t = k \<Longrightarrow> q = Fin"
  by (cases q) (auto simp: local_ok_def wait_then_def cc_copy_def cc_pair_def upt_conv_Cons cc_notify_def cc_print_def cc_emit_def
      bsg_remote_ptr_io_store_def cc_rest_def is_first Let_def split: if_splits)

lemma chain_can_finish:
  assumes "cc_inv c g m0 qs m"
  shows "\<exists>s'. reachable c (\<lambda>t. cc_prog c g t (qs t), m) s' \<and> finished c s'"
proof -
  obtain qs' m' where r: "reachable c (\<lambda>t. cc_prog c g t (qs t), m) (\<lambda>t. cc_prog c g t (qs' t), m')"
    and d: "\<forall>t. in_group c t \<longrightarrow> qs' t = Fin"
    using chain.can_reach [OF assms, where rank = "cc_rank_sum c" and goal = "\<lambda>qs. \<forall>t. in_group c t \<longrightarrow> qs t = Fin"] cc_progress by force
  have "finished c (\<lambda>t. cc_prog c g t (qs' t), m')" using d by (simp add: finished_def)
  then show ?thesis using r by blast
qed

text \<open>C5: In every interleaving of the chain of tiles, the host receives a prefix of the block of round 15 with the tags
  that all tiles before the last have put on it, and nothing else; when all tiles have finished it has received all of it.\<close>

theorem chained_output_correct:
  assumes "chain_layout c g" and "chain_zero c g m0" and "reachable c (\<lambda>t. chained_work c g t, m0) s"
  shows "\<exists>n \<le> 16. io (snd s) = io m0 @ take n (chain_output c g) \<and> (finished c s \<longrightarrow> n = 16)"
proof -
  obtain qs where qs: "fst s = (\<lambda>t. cc_prog c g t (qs t))" "cc_inv c g m0 qs (snd s)" using chain_reachable [OF assms] .
  note D = cc_invD [OF qs(2)]
  obtain t where t: "in_group c t" "id_of c t = group_N c - 1" using id_surj [OF D(2), of "group_N c - 1"] D(3) by fastforce
  have "emitted (qs t) \<le> 16" using D(4) [OF t(1)] by (cases "qs t") (auto simp: local_ok_def)
  moreover have "emitted (qs t) = 16" if "finished c s"
    using that t(1) prog_Ret [OF _ D(4) [OF t(1)] refl] qs(1) unfolding finished_def by fastforce
  ultimately show ?thesis using D(7) [OF t] by blast
qed

text \<open>C33: The chain never blocks: from every reachable state all tiles can finish all 16 rounds.\<close>

theorem chained_no_deadlock:
  assumes "chain_layout c g" and "chain_zero c g m0" and "reachable c (\<lambda>t. chained_work c g t, m0) s"
  shows "\<exists>s'. reachable c s s' \<and> finished c s'"
proof -
  obtain qs where qs: "fst s = (\<lambda>t. cc_prog c g t (qs t))" "cc_inv c g m0 qs (snd s)" using chain_reachable [OF assms] .
  then show ?thesis using chain_can_finish [OF qs(2)] by (metis prod.collapse)
qed

definition ex_chain :: chained_vars where
  "ex_chain = \<lparr>valid_num = 0x100, ready_num = 0x108, buffer = 0x200, local_buffer = 0x300\<rparr>"

lemma ex_chain_layout: "chain_layout small_cfg ex_chain" "chain_zero small_cfg ex_chain zero_machine"
proof -
  have "off_io small_cfg (tile_npa small_cfg t e)" for t e by (simp add: off_io_def tile_npa_def small_cfg_row)
  moreover have "group_N small_cfg = 4" "io_fits small_cfg" by (simp_all add: group_N_def io_fits_def small_cfg_def)
  ultimately show "chain_layout small_cfg ex_chain" by (simp add: chain_layout_def ex_chain_def apart_def)
  show "chain_zero small_cfg ex_chain zero_machine" by (simp add: chain_zero_def)
qed

lemma chained_output_correct_witness:
  "\<exists>s. reachable small_cfg (\<lambda>t. chained_work small_cfg ex_chain t, zero_machine) s \<and> io (snd s) = chain_output small_cfg ex_chain"
proof -
  obtain s where s: "reachable small_cfg (\<lambda>t. chained_work small_cfg ex_chain t, zero_machine) s" "finished small_cfg s"
    using chain_can_finish [OF cc_inv_start [OF ex_chain_layout]] unfolding cc_prog_start by blast
  have "length (chain_output small_cfg ex_chain) = 16" by (simp add: chain_output_def)
  then have "io (snd s) = chain_output small_cfg ex_chain"
    using chained_output_correct [OF ex_chain_layout s(1)] s(2) by (auto simp: zero_machine_def)
  then show ?thesis using s(1) by blast
qed

lemma chained_no_deadlock_witness:
  "\<exists>s. reachable small_cfg (\<lambda>t. chained_work small_cfg ex_chain t, zero_machine) s \<and> finished small_cfg s"
  using chained_no_deadlock [OF ex_chain_layout reach_start] by blast

end
