(* ===== verification/Striped.thy ===== *)
theory Striped
  imports Manycore
begin

text \<open>
  Classes that deal data out over the scratchpads of a tile group: the strider of \<open>bsg_group_strider.hpp\<close>, a
  pointer that walks over the tiles by arithmetic on the coordinate fields, and the striped array of
  \<open>bsg_striped_array.hpp\<close>.
\<close>

section \<open>\<open>bsg_tile_group_strider\<close>\<close>

text \<open>The template arguments.\<close>

record strider =
  TG_X :: nat
  S_X :: nat
  TG_Y :: nat
  S_Y :: nat

text \<open>\<open>(unsigned int)(log2(n))\<close>\<close>

fun log2u :: "nat \<Rightarrow> nat" where
  "log2u n = (if n \<le> 1 then 0 else Suc (log2u (n div 2)))"

declare log2u.simps [simp del]

definition MAKE_MASK :: "nat \<Rightarrow> u32" where
  "MAKE_MASK width = push_bit width 1 - 1"

definition GROUP_X_COORD_SHIFT :: nat where "GROUP_X_COORD_SHIFT = REMOTE_EPA_WIDTH"
definition GROUP_Y_COORD_SHIFT :: nat where "GROUP_Y_COORD_SHIFT = GROUP_X_COORD_SHIFT + REMOTE_X_CORD_WIDTH"
definition GROUP_PREFIX_SHIFT :: nat where "GROUP_PREFIX_SHIFT = GROUP_Y_COORD_SHIFT + REMOTE_Y_CORD_WIDTH"

definition Y_STRIDE :: u32 where "Y_STRIDE = push_bit GROUP_Y_COORD_SHIFT 1"
definition X_STRIDE :: u32 where "X_STRIDE = push_bit GROUP_X_COORD_SHIFT 1"

definition Y_MASK :: "strider \<Rightarrow> u32" where
  "Y_MASK s = NOT (push_bit (log2u (TG_Y s) + GROUP_Y_COORD_SHIFT) (MAKE_MASK (REMOTE_Y_CORD_WIDTH - log2u (TG_Y s))))"

definition X_MASK :: "strider \<Rightarrow> u32" where
  "X_MASK s = NOT (push_bit (log2u (TG_X s) + GROUP_X_COORD_SHIFT) (MAKE_MASK (REMOTE_X_CORD_WIDTH - log2u (TG_X s))))"

text \<open>The constructor and the step.\<close>

definition strider_init :: "u32 \<Rightarrow> u32 \<Rightarrow> u32 \<Rightarrow> u32" where
  "strider_init p x_off y_off =
     push_bit GROUP_PREFIX_SHIFT 1 OR push_bit GROUP_Y_COORD_SHIFT y_off OR push_bit GROUP_X_COORD_SHIFT x_off OR p"

definition strider_stride :: "strider \<Rightarrow> u32 \<Rightarrow> u32" where
  "strider_stride s ptr =
     (if S_X s = 0 then (ptr + Y_STRIDE) AND Y_MASK s
      else if S_Y s = 0 then (ptr + X_STRIDE) AND X_MASK s
      else ((((ptr + X_STRIDE) AND X_MASK s) + Y_STRIDE) AND Y_MASK s))"

lemmas strider_shifts = GROUP_X_COORD_SHIFT_def GROUP_Y_COORD_SHIFT_def GROUP_PREFIX_SHIFT_def

lemma log2u_power: "log2u (2 ^ k) = k"
  by (induction k) (auto simp: log2u.simps)

lemma remote_ptr_sum:
  assumes "unat x < 64" and "unat y < 32" and "unat a < 2 ^ 18"
  shows "bsg_remote_ptr x y a = push_bit 29 1 + push_bit 24 y + push_bit 18 x + a"
proof -
  have fx: "n < 6" if "bit x n" for n using bit_field_False [of x 6 n] that assms(1) by fastforce
  have fy: "n < 5" if "bit y n" for n using bit_field_False [of y 5 n] that assms(2) by fastforce
  have fa: "n < 18" if "bit a n" for n using bit_field_False [OF assms(3), of n] that by fastforce
  have 1: "push_bit 29 1 + push_bit 24 y = push_bit 29 1 OR push_bit 24 y"
  proof (rule disjunctive_add)
    show "\<not> bit (push_bit 29 (1 :: u32)) n \<or> \<not> bit (push_bit 24 y) n" for n
      unfolding bit_push_bit_iff bit_1_iff using fy [of "n - 24"] by auto
  qed
  have 2: "(push_bit 29 1 OR push_bit 24 y) + push_bit 18 x = push_bit 29 1 OR push_bit 24 y OR push_bit 18 x"
  proof (subst disjunctive_add)
    show "\<not> bit (push_bit 29 1 OR push_bit 24 y) n \<or> \<not> bit (push_bit 18 x) n" for n
      unfolding bit_or_iff bit_push_bit_iff bit_1_iff using fy [of "n - 24"] fx [of "n - 18"] by auto
  qed (simp add: or.assoc)
  have 3: "(push_bit 29 1 OR push_bit 24 y OR push_bit 18 x) + a = push_bit 29 1 OR push_bit 24 y OR push_bit 18 x OR a"
  proof (subst disjunctive_add)
    show "\<not> bit (push_bit 29 1 OR push_bit 24 y OR push_bit 18 x) n \<or> \<not> bit a n" for n
      unfolding bit_or_iff bit_push_bit_iff bit_1_iff using fy [of "n - 24"] fx [of "n - 18"] fa [of n] by auto
  qed (simp add: or.assoc)
  show ?thesis unfolding bsg_remote_ptr_shape 1 2 3 by (simp add: or.assoc)
qed

lemma stride_x:
  assumes "unat x + 1 < 64" and "unat y < 32" and "unat a < 2 ^ 18"
  shows "bsg_remote_ptr x y a + X_STRIDE = bsg_remote_ptr (x + 1) y a"
proof -
  have "unat (x + 1) < 64" "unat x < 64" using assms(1) by (simp_all add: unat_word_ariths)
  then show ?thesis
    using assms(2,3) by (simp add: remote_ptr_sum X_STRIDE_def strider_shifts arch_simps push_bit_add algebra_simps)
qed

lemma stride_y:
  assumes "unat x < 64" and "unat y + 1 < 32" and "unat a < 2 ^ 18"
  shows "bsg_remote_ptr x y a + Y_STRIDE = bsg_remote_ptr x (y + 1) a"
proof -
  have "unat (y + 1) < 32" "unat y < 32" using assms(2) by (simp_all add: unat_word_ariths)
  then show ?thesis
    using assms(1,3) by (simp add: remote_ptr_sum Y_STRIDE_def strider_shifts arch_simps push_bit_add algebra_simps)
qed

lemma MAKE_MASK: "MAKE_MASK k = mask k"
  by (simp add: MAKE_MASK_def mask_eq_exp_minus_1 push_bit_eq_mult)

lemma mask_x:
  assumes "TG_X s = 2 ^ k" and "k < 6" and "unat x < 64" "unat y < 32" "unat a < 2 ^ 18"
  shows "bsg_remote_ptr x y a AND X_MASK s = bsg_remote_ptr (take_bit k x) y a"
proof (rule bit_word_eqI)
  fix n :: nat
  assume n: "n < LENGTH(32)"
  have fx: "n < 6" if "bit x n" for n using bit_field_False [of x 6 n] that assms(3) by fastforce
  have fy: "n < 5" if "bit y n" for n using bit_field_False [of y 5 n] that assms(4) by fastforce
  have fa: "n < 18" if "bit a n" for n using bit_field_False [OF assms(5), of n] that by fastforce
  have m: "bit (X_MASK s) n \<longleftrightarrow> \<not> (k + 18 \<le> n \<and> n < 24)"
    using n assms(2) unfolding X_MASK_def assms(1) log2u_power MAKE_MASK
    by (auto simp: bit_simps strider_shifts arch_simps)
  show "bit (bsg_remote_ptr x y a AND X_MASK s) n \<longleftrightarrow> bit (bsg_remote_ptr (take_bit k x) y a) n"
    unfolding bit_and_iff m bsg_remote_ptr_shape bit_eva bit_take_bit_iff
    using fx [of "n - 18"] fy [of "n - 24"] fa [of n] assms(2) by auto
qed

lemma mask_y:
  assumes "TG_Y s = 2 ^ k" and "k < 5" and "unat x < 64" "unat y < 32" "unat a < 2 ^ 18"
  shows "bsg_remote_ptr x y a AND Y_MASK s = bsg_remote_ptr x (take_bit k y) a"
proof (rule bit_word_eqI)
  fix n :: nat
  assume n: "n < LENGTH(32)"
  have fx: "n < 6" if "bit x n" for n using bit_field_False [of x 6 n] that assms(3) by fastforce
  have fy: "n < 5" if "bit y n" for n using bit_field_False [of y 5 n] that assms(4) by fastforce
  have fa: "n < 18" if "bit a n" for n using bit_field_False [OF assms(5), of n] that by fastforce
  have m: "bit (Y_MASK s) n \<longleftrightarrow> \<not> (k + 24 \<le> n \<and> n < 29)"
    using n assms(2) unfolding Y_MASK_def assms(1) log2u_power MAKE_MASK
    by (auto simp: bit_simps strider_shifts arch_simps)
  show "bit (bsg_remote_ptr x y a AND Y_MASK s) n \<longleftrightarrow> bit (bsg_remote_ptr x (take_bit k y) a) n"
    unfolding bit_and_iff m bsg_remote_ptr_shape bit_eva bit_take_bit_iff
    using fx [of "n - 18"] fy [of "n - 24"] fa [of n] assms(2) by auto
qed

definition strider_x :: "strider \<Rightarrow> nat \<Rightarrow> nat \<Rightarrow> nat" where
  "strider_x s x n = (if S_X s = 0 then x else (x + n) mod TG_X s)"

definition strider_y :: "strider \<Rightarrow> nat \<Rightarrow> nat \<Rightarrow> nat" where
  "strider_y s y n = (if S_X s \<noteq> 0 \<and> S_Y s = 0 then y else (y + n) mod TG_Y s)"

lemma take_bit_next:
  assumes "n < 2 ^ k" and "k < 7"
  shows "take_bit k (of_nat n + 1 :: u32) = of_nat ((n + 1) mod 2 ^ k)"
proof -
  have "(2 :: nat) ^ k \<le> 2 ^ 6" by (rule power_increasing) (use assms(2) in auto)
  then have "n + 1 \<le> 64" using assms(1) by simp
  then have "unat (of_nat n + 1 :: u32) = n + 1" by (simp add: unat_word_ariths unat_of_nat_lt)
  then have "unat (take_bit k (of_nat n + 1 :: u32)) = (n + 1) mod 2 ^ k"
    unfolding unsigned_take_bit_eq by (simp add: take_bit_eq_mod)
  moreover have "unat (of_nat ((n + 1) mod 2 ^ k) :: u32) = (n + 1) mod 2 ^ k"
  proof (rule unat_of_nat_lt)
    have "(n + 1) mod 2 ^ k \<le> n + 1" by (rule mod_less_eq_dividend)
    also have "\<dots> < 2 ^ 32" using \<open>n + 1 \<le> 64\<close> by simp
    finally show "(n + 1) mod 2 ^ k < 2 ^ 32" .
  qed
  ultimately show ?thesis by (simp add: word_unat_eq_iff)
qed

text \<open>A strider over a group whose dimensions are powers of two below 64 and 32 visits, step by step, the
  tiles of the row, the column or the diagonal, wraps around at the edge of the group, and always points at the same
  local address. (It moves by one tile, whatever the positive stride arguments.)\<close>

theorem strider_walk:
  assumes "TG_X s = 2 ^ i" "i < 6" and "TG_Y s = 2 ^ j" "j < 5" and "x < TG_X s" "y < TG_Y s" and "unat p < 2 ^ 18"
  shows "(strider_stride s ^^ n) (strider_init p (of_nat x) (of_nat y))
    = bsg_remote_ptr (of_nat (strider_x s x n)) (of_nat (strider_y s y n)) p"
proof (induction n)
  case 0
  then show ?case using assms(5,6)
    by (simp add: strider_init_def strider_x_def strider_y_def strider_shifts bsg_remote_ptr_shape arch_simps)
next
  case (Suc n)
  let ?x = "strider_x s x n" and ?y = "strider_y s y n"
  have X: "?x < 2 ^ i" and Y: "?y < 2 ^ j" using assms(1,3,5,6) by (simp_all add: strider_x_def strider_y_def)
  have "(2 :: nat) ^ i \<le> 2 ^ 5" "(2 :: nat) ^ j \<le> 2 ^ 4" by (rule power_increasing; use assms(2,4) in simp)+
  then have b: "unat (of_nat ?x :: u32) + 1 < 64" "unat (of_nat ?y :: u32) + 1 < 32"
    using X Y by (simp_all add: unat_of_nat_lt)
  have b1: "unat (of_nat ?x + 1 :: u32) < 64" "unat (of_nat ?y + 1 :: u32) < 32" using b by (simp_all add: unat_word_ariths)
  let ?x' = "of_nat ((?x + 1) mod 2 ^ i) :: u32" and ?y' = "of_nat ((?y + 1) mod 2 ^ j) :: u32"
  have sx: "(bsg_remote_ptr (of_nat ?x) v p + X_STRIDE) AND X_MASK s = bsg_remote_ptr ?x' v p" if "unat v < 32" for v
    using stride_x [OF b(1) that assms(7)] mask_x [OF assms(1,2) b1(1) that assms(7)] take_bit_next [OF X] assms(2) by simp
  have sy: "(bsg_remote_ptr u (of_nat ?y) p + Y_STRIDE) AND Y_MASK s = bsg_remote_ptr u ?y' p" if "unat u < 64" for u
    using stride_y [OF that b(2) assms(7)] mask_y [OF assms(3,4) that b1(2) assms(7)] take_bit_next [OF Y] assms(4) by simp
  have "(?x + 1) mod 2 ^ i < 2 ^ i" by simp
  also have "\<dots> < 64" using \<open>(2 :: nat) ^ i \<le> 2 ^ 5\<close> by simp
  finally have "(?x + 1) mod 2 ^ i < 64" .
  then have x': "unat ?x' < 64" by (simp add: unat_of_nat_lt)
  have n: "strider_x s x (Suc n) = (if S_X s = 0 then ?x else (?x + 1) mod 2 ^ i)"
    "strider_y s y (Suc n) = (if S_X s \<noteq> 0 \<and> S_Y s = 0 then ?y else (?y + 1) mod 2 ^ j)"
    by (simp_all add: strider_x_def strider_y_def assms(1,3) mod_Suc_eq)
  have "unat (of_nat ?x :: u32) < 64" "unat (of_nat ?y :: u32) < 32" using b by simp_all
  then have "strider_stride s (bsg_remote_ptr (of_nat ?x) (of_nat ?y) p)
    = bsg_remote_ptr (of_nat (strider_x s x (Suc n))) (of_nat (strider_y s y (Suc n))) p"
    unfolding n using sx [of "of_nat ?y"] sy [of "of_nat ?x"] sy [OF x'] by (simp add: strider_stride_def)
  then show ?case using Suc by simp
qed

lemma strider_walk_witness:
  "(strider_stride \<lparr>TG_X = 4, S_X = 1, TG_Y = 4, S_Y = 0\<rparr> ^^ 3) (strider_init 16 2 1) = bsg_remote_ptr 1 1 16"
  using strider_walk [of "\<lparr>TG_X = 4, S_X = 1, TG_Y = 4, S_Y = 0\<rparr>" 2 2 2 1 16 3]
  by (simp add: strider_x_def strider_y_def)

text \<open>In a group of 64 columns the mask is empty, and the carry out of the column field moves the pointer to the next row.\<close>

lemma strider_full_width:
  "strider_stride \<lparr>TG_X = 64, S_X = 1, TG_Y = 4, S_Y = 0\<rparr> (strider_init 16 63 0) = bsg_remote_ptr 0 1 16"
proof -
  have "log2u 64 = 6" using log2u_power [of 6] by simp
  then show ?thesis
    by (simp add: strider_stride_def strider_init_def X_STRIDE_def X_MASK_def MAKE_MASK_def strider_shifts arch_simps bsg_remote_ptr_shape)
qed

section \<open>\<open>TileGroupStripedArray\<close>\<close>

text \<open>The template arguments, with the size of an element in bytes. The member functions work on \<open>size_t\<close>, but
  for indices below \<open>SIZE\<close> no value exceeds \<open>SIZE\<close>, so that they are written on naturals.\<close>

record striped =
  elem_bytes :: nat
  SIZE :: nat
  TG_DIM_X :: nat
  TG_DIM_Y :: nat
  STRIPE_SIZE :: nat

definition TILES :: "striped \<Rightarrow> nat" where "TILES a = TG_DIM_X a * TG_DIM_Y a"
definition STRIPES :: "striped \<Rightarrow> nat" where "STRIPES a = SIZE a div STRIPE_SIZE a + SIZE a mod STRIPE_SIZE a"

definition STRIPES_PER_TILE :: "striped \<Rightarrow> nat" where
  "STRIPES_PER_TILE a = STRIPES a div TILES a + (if STRIPES a mod TILES a = 0 then 0 else 1)"

definition ELEMENTS_PER_TILE :: "striped \<Rightarrow> nat" where "ELEMENTS_PER_TILE a = STRIPES_PER_TILE a * STRIPE_SIZE a"

definition sa_stripe :: "striped \<Rightarrow> nat \<Rightarrow> nat" where "sa_stripe a i = i div STRIPE_SIZE a"
definition sa_word_in_stripe :: "striped \<Rightarrow> nat \<Rightarrow> nat" where "sa_word_in_stripe a i = i mod STRIPE_SIZE a"
definition sa_tile :: "striped \<Rightarrow> nat \<Rightarrow> nat" where "sa_tile a stripe = stripe mod TILES a"
definition sa_stripe_in_tile :: "striped \<Rightarrow> nat \<Rightarrow> nat" where "sa_stripe_in_tile a stripe = stripe div TILES a"

text \<open>The index into \<open>_data\<close>, and \<open>_address\<close>; \<open>data\<close> is where \<open>_data\<close> is in every tile.\<close>

definition sa_slot :: "striped \<Rightarrow> nat \<Rightarrow> nat" where
  "sa_slot a i = sa_stripe_in_tile a (sa_stripe a i) * STRIPE_SIZE a + sa_word_in_stripe a i"

definition sa_address :: "cfg \<Rightarrow> striped \<Rightarrow> u32 \<Rightarrow> nat \<Rightarrow> u32" where
  "sa_address c a data i =
     (let stripe = sa_stripe a i; tile = sa_tile a stripe in
      bsg_remote_ptr (bsg_id_to_x c (of_nat tile)) (bsg_id_to_y c (of_nat tile))
        (data + of_nat (elem_bytes a) * of_nat (sa_slot a i)))"

text \<open>Element access; the accesses of the volatile variant are the same.\<close>

definition sa_get :: "cfg \<Rightarrow> striped \<Rightarrow> u32 \<Rightarrow> nat \<Rightarrow> proc" where
  "sa_get c a data i = Act (Load32 (sa_address c a data i)) Ret"

definition sa_set :: "cfg \<Rightarrow> striped \<Rightarrow> u32 \<Rightarrow> nat \<Rightarrow> u32 \<Rightarrow> proc" where
  "sa_set c a data i v = Act (Store32 (sa_address c a data i) v) Ret"

definition sa_at_local :: "striped \<Rightarrow> u32 \<Rightarrow> nat \<Rightarrow> proc" where
  "sa_at_local a data i = Act (Load32 (data + of_nat (elem_bytes a) * of_nat i)) Ret"

definition sa_set_local :: "striped \<Rightarrow> u32 \<Rightarrow> nat \<Rightarrow> u32 \<Rightarrow> proc" where
  "sa_set_local a data i v = Act (Store32 (data + of_nat (elem_bytes a) * of_nat i) v) Ret"

lemma stripe_bound:
  assumes "0 < STRIPE_SIZE a" and "i < SIZE a"
  shows "sa_stripe a i < STRIPES a"
proof -
  have "i div STRIPE_SIZE a \<le> SIZE a div STRIPE_SIZE a" using assms by (intro div_le_mono) simp
  moreover have "i div STRIPE_SIZE a < SIZE a div STRIPE_SIZE a" if "SIZE a mod STRIPE_SIZE a = 0"
  proof (rule less_mult_imp_div_less)
    show "i < SIZE a div STRIPE_SIZE a * STRIPE_SIZE a" using that assms(2) by (metis add.right_neutral div_mult_mod_eq)
  qed
  ultimately show ?thesis unfolding sa_stripe_def STRIPES_def by (cases "SIZE a mod STRIPE_SIZE a = 0") auto
qed

lemma slot_bound:
  assumes "0 < STRIPE_SIZE a" and "0 < TILES a" and "i < SIZE a"
  shows "sa_slot a i < ELEMENTS_PER_TILE a"
proof -
  let ?q = "sa_stripe a i div TILES a"
  have "?q < STRIPES_PER_TILE a"
  proof (cases "STRIPES a mod TILES a = 0")
    case True
    then show ?thesis using stripe_bound [OF assms(1,3)] assms(2)
      by (auto simp: STRIPES_PER_TILE_def mult.commute intro!: less_mult_imp_div_less)
  next
    case False
    have "?q \<le> STRIPES a div TILES a" using stripe_bound [OF assms(1,3)] by (intro div_le_mono) simp
    then show ?thesis using False by (simp add: STRIPES_PER_TILE_def)
  qed
  then have "Suc ?q * STRIPE_SIZE a \<le> ELEMENTS_PER_TILE a" unfolding ELEMENTS_PER_TILE_def by (intro mult_le_mono) auto
  moreover have "sa_word_in_stripe a i < STRIPE_SIZE a" using assms(1) by (simp add: sa_word_in_stripe_def)
  ultimately show ?thesis by (simp add: sa_slot_def sa_stripe_in_tile_def)
qed

lemma striped_slot_inj:
  assumes "0 < STRIPE_SIZE a" and "sa_tile a (sa_stripe a i) = sa_tile a (sa_stripe a j)" and "sa_slot a i = sa_slot a j"
  shows "i = j"
proof -
  let ?S = "STRIPE_SIZE a"
  have "sa_slot a k div ?S = sa_stripe a k div TILES a" "sa_slot a k mod ?S = k mod ?S" for k
    using assms(1) by (simp_all add: sa_slot_def sa_word_in_stripe_def sa_stripe_in_tile_def)
  then have "sa_stripe a i div TILES a = sa_stripe a j div TILES a" "i mod ?S = j mod ?S" using assms(3) by metis+
  then show ?thesis using assms(2) unfolding sa_tile_def sa_stripe_def by (metis div_mult_mod_eq)
qed

lemma id_to_xy:
  assumes "group_fits c" and "k < unat (bsg_tiles_X c) * unat (bsg_tiles_Y c)"
  shows "unat (bsg_id_to_x c (of_nat k)) = k mod unat (bsg_tiles_X c)"
    and "unat (bsg_id_to_y c (of_nat k)) = k div unat (bsg_tiles_X c)"
    and "in_group c (bsg_id_to_x c (of_nat k), bsg_id_to_y c (of_nat k))"
proof -
  note g = group_fits_nat [OF assms(1)]
  have "k < 2048" using assms(2) mult_le_mono [OF g(2,4)] by simp
  then have u: "unat (of_nat k :: u32) = k" by (simp add: unat_of_nat_lt)
  show x: "unat (bsg_id_to_x c (of_nat k)) = k mod unat (bsg_tiles_X c)"
    and y: "unat (bsg_id_to_y c (of_nat k)) = k div unat (bsg_tiles_X c)"
    using g u \<open>k < 2048\<close> by (simp_all add: bsg_id_to_x_def bsg_id_to_y_def unat_c_rem unat_c_div)
  show "in_group c (bsg_id_to_x c (of_nat k), bsg_id_to_y c (of_nat k))"
    using g assms(2) by (simp add: in_group_def word_less_nat_alt x y less_mult_imp_div_less mult.commute)
qed

definition sa_fits :: "cfg \<Rightarrow> striped \<Rightarrow> nat \<Rightarrow> bool" where
  "sa_fits c a d \<longleftrightarrow> group_fits c \<and> TG_DIM_X a = unat (bsg_tiles_X c) \<and> TG_DIM_Y a = unat (bsg_tiles_Y c)
     \<and> 0 < STRIPE_SIZE a \<and> elem_bytes a = 4 \<and> d + 4 * ELEMENTS_PER_TILE a \<le> 2 ^ 18"

text \<open>C38: An element of a striped array of words, whatever its size and stripe size, is in the part of the array that its
  tile declares; a value that any tile stores there is read back by every tile, and no other element changes.\<close>

theorem striped_store_load:
  assumes "sa_fits c a d" and "i < SIZE a" and "j < SIZE a"
  shows "sa_slot a i < ELEMENTS_PER_TILE a \<and>
    (\<exists>m'. eval 2 c t (sa_set c a (of_nat d) i v) m = Some (0, m') \<and>
      eval 2 c u (sa_get c a (of_nat d) j) m' = Some (if j = i then v else rd m (eva_to_npa c u (sa_address c a (of_nat d) j)), m'))"
proof -
  have f: "group_fits c" "0 < STRIPE_SIZE a" "elem_bytes a = 4" "d + 4 * ELEMENTS_PER_TILE a \<le> 2 ^ 18"
    and T: "TILES a = unat (bsg_tiles_X c) * unat (bsg_tiles_Y c)"
    using assms(1) by (simp_all add: sa_fits_def TILES_def)
  have pos: "0 < TILES a" using T group_fits_nat [OF f(1)] by simp
  let ?t = "\<lambda>i. sa_tile a (sa_stripe a i)" and ?a = "\<lambda>i. d + 4 * sa_slot a i"
  let ?xy = "\<lambda>i. (bsg_id_to_x c (of_nat (?t i)), bsg_id_to_y c (of_nat (?t i)))"
  have tl: "?t k < unat (bsg_tiles_X c) * unat (bsg_tiles_Y c)" for k using pos T by (simp add: sa_tile_def)
  have b: "?a k + 4 \<le> 2 ^ 18" if "k < SIZE a" for k using slot_bound [OF f(2) pos that] f(4) by simp
  have e: "eva_to_npa c t (sa_address c a (of_nat d) k) = tile_npa c (?xy k) (of_nat (?a k))" if "k < SIZE a" for k t
    using eva_remote_group [OF f(1) id_to_xy(3) [OF f(1) tl], of "of_nat (?a k)" t k] b [OF that] unat_of_nat_lt [of "?a k"]
    by (simp add: sa_address_def Let_def f(3))
  have d: "span4 (tile_npa c (?xy i) (of_nat (?a i))) \<inter> span4 (tile_npa c (?xy j) (of_nat (?a j))) = {}" if "i \<noteq> j"
  proof (rule span4_tile_disjoint [OF f(1) id_to_xy(3) [OF f(1) tl] id_to_xy(3) [OF f(1) tl]])
    have "?t i \<noteq> ?t j \<or> sa_slot a i \<noteq> sa_slot a j" using striped_slot_inj [OF f(2)] that by blast
    moreover have "?xy i \<noteq> ?xy j" if "?t i \<noteq> ?t j"
      using that id_to_xy(1,2) [OF f(1) tl] by (metis Pair_inject div_mult_mod_eq)
    moreover have "sep4 (of_nat (?a i)) (of_nat (?a j))" if "sa_slot a i \<noteq> sa_slot a j"
      using that b [OF assms(2)] b [OF assms(3)] by (intro sep4_of_nat) auto
    ultimately show "?xy i \<noteq> ?xy j \<or> sep4 (of_nat (?a i)) (of_nat (?a j))" by blast
  qed
  show ?thesis
    using slot_bound [OF f(2) pos assms(2)] d e assms(2,3)
    by (auto simp: sa_set_def sa_get_def numeral_2_eq_2 Int_commute simp flip: rd_def)
qed

definition ex_striped :: striped where
  "ex_striped = \<lparr>elem_bytes = 4, SIZE = 10, TG_DIM_X = 2, TG_DIM_Y = 2, STRIPE_SIZE = 2\<rparr>"

lemma striped_store_load_witness:
  "\<exists>m'. eval 2 small_cfg (0, 0) (sa_set small_cfg ex_striped 64 5 7) zero_machine = Some (0, m') \<and>
    eval 2 small_cfg (1, 1) (sa_get small_cfg ex_striped 64 5) m' = Some (7, m')"
proof -
  have "sa_fits small_cfg ex_striped 64"
    by (simp add: sa_fits_def ex_striped_def small_cfg_def group_fits_def ELEMENTS_PER_TILE_def STRIPES_PER_TILE_def STRIPES_def TILES_def)
  from striped_store_load [OF this, of 5 5 "(0, 0)" 7 zero_machine "(1, 1)"] show ?thesis by (simp add: ex_striped_def)
qed

end
