(* ===== verification/Tilegroup.thy ===== *)
theory Tilegroup
  imports Striped
begin

text \<open>
  \<open>bsg_tilegroup.h\<close>, the run-time functions that the LLVM pass calls for accesses to striped data. The header uses
  macros of an older \<open>bsg_manycore_arch.h\<close> that the repository no longer defines; they are the fields of \<open>tg_env\<close>,
  with the group size and the start of the striped section, which the build and the linker provide. The functions divide by
  the element size, which C leaves undefined for 0 (also when \<open>len\<close> is 0 in the block functions, which pass it as the
  size); the division of words gives 0 there, and only the loops are then meaningful.
\<close>

section \<open>Pointers\<close>

record tg_env =
  REMOTE_EPA_PREFIX :: u32
  REMOTE_EPA_MASK_SHIFTS :: nat
  X_CORD_SHIFTS :: nat
  Y_CORD_SHIFTS :: nat
  bsg_group_size :: u32
  striped_data_start :: u32

definition local_addr_of :: "tg_env \<Rightarrow> u32 \<Rightarrow> u32 \<Rightarrow> u32" where
  "local_addr_of e ptr elem_size =
     (let index = (ptr - striped_data_start e) div elem_size in
      striped_data_start e + (index div bsg_group_size e) * elem_size)"

definition load_extern_array :: "tg_env \<Rightarrow> u32 \<Rightarrow> u32 \<Rightarrow> u32 \<Rightarrow> u32 \<Rightarrow> u32 \<Rightarrow> proc" where
  "load_extern_array e bsg_id dest_ptr src_ptr num_elems elem_size =
     (let dest = local_addr_of e dest_ptr elem_size; src_ptr = src_ptr + 4 * bsg_id in
      for_each [0..<unat (num_elems * (elem_size div 4))] (\<lambda>i.
        Act (Load32 (src_ptr + 4 * (of_nat i * bsg_group_size e))) (\<lambda>v. Act (Store32 (dest + 4 * of_nat i) v) Ret)))"

definition get_ptr_val :: "cfg \<Rightarrow> tg_env \<Rightarrow> u32 \<Rightarrow> u32 \<Rightarrow> u32 \<Rightarrow> u32" where
  "get_ptr_val c e arr_ptr elem_size local_offset =
     (let index = (arr_ptr - striped_data_start e) div elem_size;
          local_addr = local_addr_of e arr_ptr elem_size + local_offset;
          core_id = index mod bsg_group_size e;
          tile_x = core_id div bsg_tiles_X c;
          tile_y = core_id mod bsg_tiles_X c in
      push_bit (REMOTE_EPA_MASK_SHIFTS e) (REMOTE_EPA_PREFIX e) OR push_bit (X_CORD_SHIFTS e) tile_x
        OR push_bit (Y_CORD_SHIFTS e) tile_y OR local_addr)"

section \<open>Accesses\<close>

text \<open>A \<open>float\<close> is stored and loaded as its word.\<close>

definition extern_store_float :: "cfg \<Rightarrow> tg_env \<Rightarrow> u32 \<Rightarrow> u32 \<Rightarrow> u32 \<Rightarrow> u32 \<Rightarrow> proc" where
  "extern_store_float c e arr_ptr elem_size offset val = Act (Store32 (get_ptr_val c e arr_ptr elem_size offset) val) Ret"

definition extern_store_int :: "cfg \<Rightarrow> tg_env \<Rightarrow> u32 \<Rightarrow> u32 \<Rightarrow> u32 \<Rightarrow> u32 \<Rightarrow> proc" where
  "extern_store_int c e arr_ptr elem_size offset val = Act (Store32 (get_ptr_val c e arr_ptr elem_size offset) val) Ret"

definition extern_store_short :: "cfg \<Rightarrow> tg_env \<Rightarrow> u32 \<Rightarrow> u32 \<Rightarrow> u32 \<Rightarrow> u16 \<Rightarrow> proc" where
  "extern_store_short c e arr_ptr elem_size offset val = Act (Store16 (get_ptr_val c e arr_ptr elem_size offset) val) Ret"

definition extern_store_char :: "cfg \<Rightarrow> tg_env \<Rightarrow> u32 \<Rightarrow> u32 \<Rightarrow> u32 \<Rightarrow> u8 \<Rightarrow> proc" where
  "extern_store_char c e arr_ptr elem_size offset val = Act (Store8 (get_ptr_val c e arr_ptr elem_size offset) val) Ret"

text \<open>A \<open>volatile\<close> load and a plain one are the same access; \<open>short\<close> is sign-extended, \<open>char\<close> is unsigned on the target.\<close>

definition extern_load_float :: "cfg \<Rightarrow> tg_env \<Rightarrow> u32 \<Rightarrow> u32 \<Rightarrow> u32 \<Rightarrow> u32 \<Rightarrow> proc" where
  "extern_load_float c e arr_ptr elem_size offset is_vol =
     (let ptr = get_ptr_val c e arr_ptr elem_size offset in
      if is_vol \<noteq> 0 then Act (Load32 ptr) Ret else Act (Load32 ptr) Ret)"

definition extern_load_int :: "cfg \<Rightarrow> tg_env \<Rightarrow> u32 \<Rightarrow> u32 \<Rightarrow> u32 \<Rightarrow> u32 \<Rightarrow> proc" where
  "extern_load_int c e arr_ptr elem_size offset is_vol =
     (let ptr = get_ptr_val c e arr_ptr elem_size offset in
      if is_vol \<noteq> 0 then Act (Load32 ptr) Ret else Act (Load32 ptr) Ret)"

definition extern_load_short :: "cfg \<Rightarrow> tg_env \<Rightarrow> u32 \<Rightarrow> u32 \<Rightarrow> u32 \<Rightarrow> u32 \<Rightarrow> proc" where
  "extern_load_short c e arr_ptr elem_size offset is_vol =
     (let ptr = get_ptr_val c e arr_ptr elem_size offset; ret = (\<lambda>v. Ret (scast (ucast v :: u16))) in
      if is_vol \<noteq> 0 then Act (Load16 ptr) ret else Act (Load16 ptr) ret)"

definition extern_load_char :: "cfg \<Rightarrow> tg_env \<Rightarrow> u32 \<Rightarrow> u32 \<Rightarrow> u32 \<Rightarrow> u32 \<Rightarrow> proc" where
  "extern_load_char c e arr_ptr elem_size offset is_vol =
     (let ptr = get_ptr_val c e arr_ptr elem_size offset in
      if is_vol \<noteq> 0 then Act (Load8 ptr) Ret else Act (Load8 ptr) Ret)"

section \<open>Blocks\<close>

text \<open>The loops \<open>while (len) \<dots> len -= sizeof(int)\<close>: the accesses that they make, in order; \<open>None\<close> when the loop does
  not end.\<close>

partial_function (option) copy_loop :: "u32 \<Rightarrow> u32 \<Rightarrow> u32 \<Rightarrow> (u32 \<times> u32) list option" where
  "copy_loop dst src len = (if len = 0 then Some []
     else Option.bind (copy_loop (dst + 4) (src + 4) (len - 4)) (\<lambda>r. Some ((dst, src) # r)))"

partial_function (option) set_loop :: "u32 \<Rightarrow> u32 \<Rightarrow> u32 list option" where
  "set_loop dst len = (if len = 0 then Some []
     else Option.bind (set_loop (dst + 1) (len - 4)) (\<lambda>r. Some (dst # r)))"

definition run_copy :: "(u32 \<times> u32) list option \<Rightarrow> proc option" where
  "run_copy = map_option (\<lambda>moves. for_each moves (\<lambda>(d, s). Act (Load32 s) (\<lambda>v. Act (Store32 d v) Ret)))"

definition extern_load_memcpy :: "cfg \<Rightarrow> tg_env \<Rightarrow> u32 \<Rightarrow> u32 \<Rightarrow> u32 \<Rightarrow> proc option" where
  "extern_load_memcpy c e dest src len = run_copy (copy_loop dest (get_ptr_val c e src len 0) len)"

definition extern_store_memcpy :: "cfg \<Rightarrow> tg_env \<Rightarrow> u32 \<Rightarrow> u32 \<Rightarrow> u32 \<Rightarrow> proc option" where
  "extern_store_memcpy c e dest src len = run_copy (copy_loop (get_ptr_val c e dest len 0) src len)"

definition extern_memset :: "cfg \<Rightarrow> tg_env \<Rightarrow> u32 \<Rightarrow> u8 \<Rightarrow> u32 \<Rightarrow> proc option" where
  "extern_memset c e dest val len =
     map_option (\<lambda>ds. for_each ds (\<lambda>d. Act (Store8 d val) Ret)) (set_loop (get_ptr_val c e dest len 0) len)"

lemma unat_minus_4:
  assumes "(len :: u32) \<noteq> 0" and "4 dvd unat len"
  shows "unat (len - 4) = unat len - 4" and "4 \<le> unat len"
proof -
  have "unat len \<noteq> 0" using assms(1) by (simp add: unat_eq_0)
  then show "4 \<le> unat len" using assms(2) by (auto dest: dvd_imp_le)
  then show "unat (len - 4) = unat len - 4" by (subst unat_sub) (simp_all add: word_le_nat_alt)
qed

lemma dvd_minus_4: "4 dvd unat (len - 4 :: u32) \<longleftrightarrow> 4 dvd unat len"
  unfolding unat_sub_if_size by (simp add: word_size) presburger

lemma minus_4_steps: "(len :: u32) \<noteq> 0 \<Longrightarrow> 4 dvd unat len \<Longrightarrow> unat len div 4 = Suc (unat (len - 4) div 4)"
  using unat_minus_4 [of len] by simp

lemma upt_step: "map f [0..<Suc n] = f 0 # map (\<lambda>i. f (Suc i)) [0..<n]"
  by (simp add: upt_conv_Cons map_Suc_upt [symmetric] comp_def del: upt_Suc)

lemma set_loop_ends:
  assumes "4 dvd unat len"
  shows "set_loop dst len = Some (map (\<lambda>i. dst + of_nat i) [0..<unat len div 4])"
  using assms
proof (induction "unat len" arbitrary: dst len rule: less_induct)
  case less
  show ?case
  proof (cases "len = 0")
    case False
    have "set_loop (dst + 1) (len - 4) = Some (map (\<lambda>i. dst + 1 + of_nat i) [0..<unat (len - 4) div 4])"
      using less unat_minus_4 [OF False less.prems] dvd_minus_4 by (intro less.hyps) auto
    then show ?thesis
      unfolding minus_4_steps [OF False less.prems] upt_step
      by (subst set_loop.simps) (simp add: False algebra_simps)
  qed (simp add: set_loop.simps)
qed

lemma copy_loop_ends:
  assumes "4 dvd unat len"
  shows "copy_loop dst src len = Some (map (\<lambda>i. (dst + 4 * of_nat i, src + 4 * of_nat i)) [0..<unat len div 4])"
  using assms
proof (induction "unat len" arbitrary: dst src len rule: less_induct)
  case less
  show ?case
  proof (cases "len = 0")
    case False
    have "copy_loop (dst + 4) (src + 4) (len - 4)
        = Some (map (\<lambda>i. (dst + 4 + 4 * of_nat i, src + 4 + 4 * of_nat i)) [0..<unat (len - 4) div 4])"
      using less unat_minus_4 [OF False less.prems] dvd_minus_4 by (intro less.hyps) auto
    then show ?thesis
      unfolding minus_4_steps [OF False less.prems] upt_step
      by (subst copy_loop.simps) (simp add: False algebra_simps)
  qed (simp add: copy_loop.simps)
qed

lemma set_loop_multiple:
  assumes "set_loop dst len = Some r"
  shows "4 dvd unat len"
proof (rule set_loop.raw_induct [OF _ assms], goal_cases)
  case (1 f dst len r)
  then show ?case using dvd_minus_4 [of len] by (auto split: if_splits bind_splits)
qed
lemma copy_loop_multiple:
  assumes "copy_loop dst src len = Some r"
  shows "4 dvd unat len"
proof (rule copy_loop.raw_induct [OF _ assms], goal_cases)
  case (1 f dst src len r)
  then show ?case using dvd_minus_4 [of len] by (auto split: if_splits bind_splits)
qed
text \<open>C39: The block functions end exactly when the length is a multiple of four. Then \<open>extern_load_memcpy\<close> and
  \<open>extern_store_memcpy\<close> copy every word, but \<open>extern_memset\<close>, which also subtracts \<open>sizeof(int)\<close>
  for every byte it writes, sets the first quarter of the block only.\<close>

theorem extern_block_loops:
  "copy_loop dst src len = (if unat len mod 4 = 0
     then Some (map (\<lambda>i. (dst + 4 * of_nat i, src + 4 * of_nat i)) [0..<unat len div 4]) else None)
   \<and> set_loop dst len = (if unat len mod 4 = 0 then Some (map (\<lambda>i. dst + of_nat i) [0..<unat len div 4]) else None)"
  using copy_loop_ends [of len dst src] set_loop_ends [of len dst] copy_loop_multiple [of dst src len] set_loop_multiple [of dst len]
  unfolding dvd_eq_mod_eq_0 by (cases "copy_loop dst src len"; cases "set_loop dst len") auto

end
