(* ===== verification/Payload_Codec.thy ===== *)
theory Payload_Codec
  imports Prelude
begin

text \<open>
  The codec of belief-propagation messages, \<open>gbp_message_payload_codec.hpp\<close>, and its use on the five-word
  messages of the network, \<open>decode_semantic_payload\<close> of \<open>gbp_event_correlation.hpp\<close>. A message holds the vector
  \<open>eta\<close> and the upper triangle of the matrix \<open>lam\<close>, cut into segments. A \<open>float\<close> is its bit pattern: the codec only
  copies it and asks whether it is finite. The theorems say that encoding and decoding are inverse, and when decoding reads
  outside the payload.
\<close>

section \<open>Data\<close>

datatype Direction = kFactorToVar | kVarToFactor

record Segment =
  segment_idx :: u32
  segment_count :: u32
  segment_payload_words :: u32
  seg_words :: "u32 list"

record EncodedPayload =
  e_schema_version :: u32
  e_bank :: u32
  e_slot :: u32
  e_direction :: Direction
  e_dim :: u32
  e_eta_len :: u32
  e_lam_len :: u32
  e_segments :: "Segment list"

record DecodedPayload =
  d_schema_version :: u32
  d_bank :: u32
  d_slot :: u32
  d_direction :: Direction
  d_dim :: u32
  d_eta :: "u32 list"
  d_lam :: "u32 list"

text \<open>
  \<open>Ok\<close> is the return value true with the outputs, \<open>Fail\<close> is false with the error text, and \<open>Overrun\<close> stands for a
  vector that is read outside its bounds, whose behaviour the language does not define.
\<close>

datatype 'a outcome = Ok 'a | Fail string | Overrun

fun and_then :: "'a outcome \<Rightarrow> ('a \<Rightarrow> 'b outcome) \<Rightarrow> 'b outcome" where
  "and_then (Ok x) f = f x"
| "and_then (Fail e) f = Fail e"
| "and_then Overrun f = Overrun"

definition require :: "bool \<Rightarrow> string \<Rightarrow> unit outcome" where
  "require b err = (if b then Ok () else Fail err)"

section \<open>Checks of the header\<close>

definition kPhase1SchemaVersion :: u32 where "kPhase1SchemaVersion = 1"
definition kMessageBankLo :: u32 where "kMessageBankLo = 4"
definition kMessageBankHi :: u32 where "kMessageBankHi = 7"
definition kMessageSlotCount :: u32 where "kMessageSlotCount = kMessageBankHi - kMessageBankLo + 1"

definition expected_lam_len :: "u32 \<Rightarrow> u32" where
  "expected_lam_len dim = (dim * (dim + 1)) div 2"

definition direction_for_slot :: "u32 \<Rightarrow> Direction" where
  "direction_for_slot slot = (if slot AND 1 = 0 then kFactorToVar else kVarToFactor)"

definition validate_schema :: "u32 \<Rightarrow> unit outcome" where
  "validate_schema schema_version = require (\<not> schema_version \<noteq> kPhase1SchemaVersion) ''bad_version''"

definition validate_bank_slot :: "u32 \<Rightarrow> u32 \<Rightarrow> unit outcome" where
  "validate_bank_slot bank slot =
     require (\<not> (bank < kMessageBankLo \<or> bank > kMessageBankHi \<or> slot \<ge> kMessageSlotCount \<or> bank \<noteq> kMessageBankLo + slot))
       ''bad_bank_slot''"

definition validate_direction :: "Direction \<Rightarrow> u32 \<Rightarrow> unit outcome" where
  "validate_direction direction slot = require (\<not> direction \<noteq> direction_for_slot slot) ''direction_mismatch''"

definition validate_shape :: "u32 \<Rightarrow> u32 \<Rightarrow> u32 \<Rightarrow> unit outcome" where
  "validate_shape dim eta_len lam_len =
     (if dim = 0 then Fail ''invalid_dim''
      else if eta_len \<noteq> dim \<or> lam_len \<noteq> expected_lam_len dim then Fail ''length_mismatch''
      else Ok ())"

section \<open>The payload\<close>

text \<open>The loop over the segments, with the declared number of words and the words taken so far.\<close>

fun extract_from :: "u32 \<Rightarrow> u32 \<Rightarrow> u32 \<Rightarrow> Segment list \<Rightarrow> u32 \<Rightarrow> u32 list \<Rightarrow> (u32 \<times> u32 list) outcome" where
  "extract_from segs required idx [] declared out = Ok (declared, out)"
| "extract_from segs required idx (s # rest) declared out =
     (if segment_count s \<noteq> segs \<or> segment_idx s \<noteq> idx then Fail ''segment_header_mismatch''
      else if length (seg_words s) < unat (segment_payload_words s) then Fail ''segment_word_underflow''
      else let remaining = required - of_nat (length out);
               take_words = min (segment_payload_words s) remaining in
        extract_from segs required (idx + 1) rest (declared + segment_payload_words s)
          (out @ map (\<lambda>i. seg_words s ! i) [0..<unat take_words]))"

definition extract_payload_words :: "EncodedPayload \<Rightarrow> u32 \<Rightarrow> u32 list outcome" where
  "extract_payload_words payload required_words =
     (if e_segments payload = [] then Fail ''missing_segments''
      else let n = of_nat (length (e_segments payload)) in
        and_then (extract_from n required_words 0 (take (unat n) (e_segments payload)) 0 []) (\<lambda>(declared, out).
          if declared \<noteq> required_words then Fail ''payload_length_mismatch''
          else if length out \<noteq> unat required_words then Fail ''payload_underflow''
          else Ok out))"

definition fp32_finite :: "u32 \<Rightarrow> bool" where
  "fp32_finite w \<longleftrightarrow> take_bit 8 (drop_bit 23 w) \<noteq> 255"

fun validate_from :: "u32 list \<Rightarrow> bool \<Rightarrow> unit outcome" where
  "validate_from [] all_zero = (if all_zero then Fail ''invalid_zero_payload'' else Ok ())"
| "validate_from (w # ws) all_zero =
     (if \<not> fp32_finite w then Fail ''invalid_fp32_payload''
      else validate_from ws (if w \<noteq> 0 then False else all_zero))"

definition validate_payload_words :: "u32 list \<Rightarrow> unit outcome" where
  "validate_payload_words payload_words = validate_from payload_words True"

text \<open>\<open>n\<close> reads of the vector from index \<open>i\<close> on, the index an \<open>unsigned\<close> that may wrap.\<close>

fun read_words :: "u32 list \<Rightarrow> u32 \<Rightarrow> nat \<Rightarrow> u32 list outcome" where
  "read_words ws i 0 = Ok []"
| "read_words ws i (Suc n) =
     (if unat i < length ws then and_then (read_words ws (i + 1) n) (\<lambda>r. Ok (ws ! unat i # r)) else Overrun)"

section \<open>Decoding and encoding\<close>

text \<open>
  The outputs are the decoded message and the number of words consumed. \<open>given\<close> says that the output pointer
  is not null.
\<close>

definition decode :: "bool \<Rightarrow> EncodedPayload \<Rightarrow> (DecodedPayload \<times> nat) outcome" where
  "decode given e =
     (if \<not> given then Fail ''decode_null_output'' else
      and_then (validate_schema (e_schema_version e)) (\<lambda>_.
      and_then (validate_bank_slot (e_bank e) (e_slot e)) (\<lambda>_.
      and_then (validate_direction (e_direction e) (e_slot e)) (\<lambda>_.
      and_then (validate_shape (e_dim e) (e_eta_len e) (e_lam_len e)) (\<lambda>_.
      let total_payload_words = e_eta_len e + e_lam_len e in
      and_then (extract_payload_words e total_payload_words) (\<lambda>payload_words.
      and_then (validate_payload_words payload_words) (\<lambda>_.
      and_then (read_words payload_words 0 (unat (e_eta_len e))) (\<lambda>eta.
      and_then (read_words payload_words (e_eta_len e) (unat (e_lam_len e))) (\<lambda>lam.
        Ok (\<lparr>d_schema_version = e_schema_version e, d_bank = e_bank e, d_slot = e_slot e,
             d_direction = direction_for_slot (e_slot e), d_dim = e_dim e, d_eta = eta, d_lam = lam\<rparr>,
           unat total_payload_words))))))))))"

definition encode :: "bool \<Rightarrow> DecodedPayload \<Rightarrow> EncodedPayload outcome" where
  "encode given d =
     (if \<not> given then Fail ''encode_null_output'' else
      and_then (validate_schema (d_schema_version d)) (\<lambda>_.
      and_then (validate_bank_slot (d_bank d) (d_slot d)) (\<lambda>_.
      and_then (validate_direction (d_direction d) (d_slot d)) (\<lambda>_.
      let eta_len = of_nat (length (d_eta d)); lam_len = of_nat (length (d_lam d)) in
      and_then (validate_shape (d_dim d) eta_len lam_len) (\<lambda>_.
      and_then (require (list_all fp32_finite (d_eta d)) ''invalid_fp32_payload'') (\<lambda>_.
      and_then (require (list_all fp32_finite (d_lam d)) ''invalid_fp32_payload'') (\<lambda>_.
      let words = d_eta d @ d_lam d in
      and_then (validate_payload_words words) (\<lambda>_.
        Ok \<lparr>e_schema_version = d_schema_version d, e_bank = d_bank d, e_slot = d_slot d, e_direction = d_direction d,
            e_dim = d_dim d, e_eta_len = eta_len, e_lam_len = lam_len,
            e_segments = [\<lparr>segment_idx = 0, segment_count = 1, segment_payload_words = of_nat (length words), seg_words = words\<rparr>]\<rparr>))))))))"

section \<open>The five words of a network message\<close>

record SemanticPayloadEvidence =
  s_bank :: u32
  s_slot :: u32
  s_row :: u32
  s_payload_words :: "u32 list"
  s_eta :: "u32 list"
  s_lam :: "u32 list"

definition decode_semantic_payload :: "u32 \<Rightarrow> u32 \<Rightarrow> u32 list \<Rightarrow> SemanticPayloadEvidence outcome" where
  "decode_semantic_payload bank row payload_words =
     (if bank < kMessageBankLo \<or> bank > kMessageBankHi then Fail ''bad_bank_slot'' else
      let slot = bank - kMessageBankLo;
          encoded = \<lparr>e_schema_version = kPhase1SchemaVersion, e_bank = bank, e_slot = slot,
            e_direction = direction_for_slot slot, e_dim = 2, e_eta_len = 2, e_lam_len = 3,
            e_segments = [\<lparr>segment_idx = 0, segment_count = 1, segment_payload_words = 5, seg_words = payload_words\<rparr>]\<rparr> in
      and_then (decode True encoded) (\<lambda>(decoded, words_consumed).
        if length (d_eta decoded) \<noteq> 2 \<or> length (d_lam decoded) \<noteq> 3 \<or> words_consumed \<noteq> 5
        then Fail ''semantic_payload_shape_mismatch''
        else Ok \<lparr>s_bank = bank, s_slot = slot, s_row = row, s_payload_words = payload_words,
          s_eta = d_eta decoded, s_lam = d_lam decoded\<rparr>))"

section \<open>The pieces\<close>

lemma and_then_Ok: "and_then x f = Ok y \<longleftrightarrow> (\<exists>v. x = Ok v \<and> f v = Ok y)"
  by (cases x) auto

lemma and_then_Overrun: "and_then x f = Overrun \<longleftrightarrow> x = Overrun \<or> (\<exists>v. x = Ok v \<and> f v = Overrun)"
  by (cases x) auto

lemma require_simps [simp]: "require b err = Ok u \<longleftrightarrow> b" "require b err \<noteq> Overrun"
  by (auto simp: require_def)

lemma validate_never [simp]:
  "validate_schema v \<noteq> Overrun" "validate_bank_slot b s \<noteq> Overrun" "validate_direction d s \<noteq> Overrun" "validate_shape a b' c \<noteq> Overrun"
  by (simp_all add: validate_schema_def validate_bank_slot_def validate_direction_def validate_shape_def)

lemma validate_payload:
  "validate_payload_words ws = Ok u \<longleftrightarrow> list_all fp32_finite ws \<and> (\<exists>w \<in> set ws. w \<noteq> 0)" "validate_payload_words ws \<noteq> Overrun"
proof -
  have "validate_from ws z = Ok u \<longleftrightarrow> list_all fp32_finite ws \<and> (\<not> z \<or> (\<exists>w \<in> set ws. w \<noteq> 0))" for z
    by (induction ws arbitrary: z) auto
  then show "validate_payload_words ws = Ok u \<longleftrightarrow> list_all fp32_finite ws \<and> (\<exists>w \<in> set ws. w \<noteq> 0)"
    by (simp add: validate_payload_words_def)
  have "validate_from ws z \<noteq> Overrun" for z by (induction ws arbitrary: z) auto
  then show "validate_payload_words ws \<noteq> Overrun" by (simp add: validate_payload_words_def)
qed

lemma extract_never [simp]: "extract_payload_words e n \<noteq> Overrun"
proof -
  have "extract_from c r i ss d out \<noteq> Overrun" for c r i ss d out
    by (induction ss arbitrary: i d out) (auto simp: Let_def)
  then show ?thesis by (auto simp: extract_payload_words_def Let_def and_then_Overrun split: if_splits)
qed

lemma extract_length: "extract_payload_words e n = Ok ws \<Longrightarrow> length ws = unat n"
  by (auto simp: extract_payload_words_def Let_def and_then_Ok split: if_splits)

lemma unat_Suc32: "unat (i :: u32) + 1 < 2 ^ 32 \<Longrightarrow> unat (i + 1) = unat i + 1"
  by (simp add: unat_word_ariths)

text \<open>Reading a stretch of the vector that does not wrap around.\<close>

lemma read_words_value:
  assumes "unat i + n \<le> length ws" and "unat i + n < 2 ^ 32"
  shows "read_words ws i n = Ok (take n (drop (unat i) ws))"
  using assms
proof (induction n arbitrary: i)
  case (Suc n)
  then show ?case by (simp add: unat_Suc32 Cons_nth_drop_Suc [symmetric])
qed simp

lemma read_words_overrun: "length ws < unat i + n \<Longrightarrow> 0 < n \<Longrightarrow> length ws < 2 ^ 32 - 1 \<Longrightarrow> read_words ws i n = Overrun"
proof (induction n arbitrary: i)
  case (Suc n)
  show ?case
  proof (cases "unat i < length ws \<and> 0 < n")
    case True
    then show ?thesis using Suc by (simp add: unat_Suc32)
  next
    case False
    then show ?thesis using Suc.prems by auto
  qed
qed simp

text \<open>Header checks that a message passes.\<close>

definition header_ok :: "EncodedPayload \<Rightarrow> bool" where
  "header_ok e \<longleftrightarrow> e_schema_version e = 1 \<and> 4 \<le> e_bank e \<and> e_bank e \<le> 7 \<and> e_slot e < 4 \<and> e_bank e = 4 + e_slot e
     \<and> e_direction e = direction_for_slot (e_slot e) \<and> e_dim e \<noteq> 0 \<and> e_eta_len e = e_dim e
     \<and> e_lam_len e = expected_lam_len (e_dim e)"

lemma header_ok_segments [simp]: "header_ok (e\<lparr>e_segments := x\<rparr>) \<longleftrightarrow> header_ok e"
  by (simp add: header_ok_def)

lemma header_ok:
  "header_ok e \<longleftrightarrow> validate_schema (e_schema_version e) = Ok () \<and> validate_bank_slot (e_bank e) (e_slot e) = Ok ()
     \<and> validate_direction (e_direction e) (e_slot e) = Ok () \<and> validate_shape (e_dim e) (e_eta_len e) (e_lam_len e) = Ok ()"
  by (auto simp: header_ok_def validate_schema_def validate_bank_slot_def validate_direction_def validate_shape_def
      kPhase1SchemaVersion_def kMessageBankLo_def kMessageBankHi_def kMessageSlotCount_def)

definition decoded_of :: "EncodedPayload \<Rightarrow> u32 list \<Rightarrow> u32 list \<Rightarrow> DecodedPayload" where
  "decoded_of e eta lam = \<lparr>d_schema_version = e_schema_version e, d_bank = e_bank e, d_slot = e_slot e,
     d_direction = direction_for_slot (e_slot e), d_dim = e_dim e, d_eta = eta, d_lam = lam\<rparr>"

lemma decode_cases:
  assumes "header_ok e" and "extract_payload_words e (e_eta_len e + e_lam_len e) = Ok ws" and "validate_payload_words ws = Ok ()"
  shows "decode True e = (if unat (e_eta_len e) + unat (e_lam_len e) < 2 ^ 32
    then Ok (decoded_of e (take (unat (e_eta_len e)) ws) (drop (unat (e_eta_len e)) ws), unat (e_eta_len e) + unat (e_lam_len e))
    else Overrun)"
proof -
  let ?a = "e_eta_len e" and ?b = "e_lam_len e"
  have len: "length ws = unat (?a + ?b)" by (rule extract_length [OF assms(2)])
  have d: "decode True e = and_then (read_words ws 0 (unat ?a)) (\<lambda>eta. and_then (read_words ws ?a (unat ?b))
      (\<lambda>lam. Ok (decoded_of e eta lam, unat (?a + ?b))))"
    using assms by (simp add: decode_def header_ok Let_def decoded_of_def)
  show ?thesis
  proof (cases "unat ?a + unat ?b < 2 ^ 32")
    case True
    then have l: "length ws = unat ?a + unat ?b" using len by (simp add: unat_word_ariths)
    then show ?thesis
      using True read_words_value [of 0 "unat ?a" ws] read_words_value [of ?a "unat ?b" ws] len d by simp
  next
    case False
    have w: "unat (?a + ?b) = unat ?a + unat ?b - 2 ^ 32"
      using False unat_lt32 [of ?a] unat_lt32 [of ?b] by (simp add: unat_word_ariths mod_if)
    have "length ws < unat ?a" using len w unat_lt32 [of ?a] unat_lt32 [of ?b] False by simp
    then have "read_words ws 0 (unat ?a) = Overrun" using unat_lt32 [of ?a] by (intro read_words_overrun) simp_all
    then show ?thesis using d False by simp
  qed
qed

lemma decode_reaches:
  assumes ne: "\<And>err. decode given e \<noteq> Fail err"
  obtains ws where "given" "header_ok e" "extract_payload_words e (e_eta_len e + e_lam_len e) = Ok ws" "validate_payload_words ws = Ok ()"
proof -
  have g: "given" using ne [of "''decode_null_output''"] by (cases given) (auto simp: decode_def)
  then have *: "\<nexists>err. decode True e = Fail err" using ne by auto
  have "validate_schema (e_schema_version e) = Ok ()"
    using * by (cases "validate_schema (e_schema_version e)") (auto simp: decode_def)
  moreover from this have "validate_bank_slot (e_bank e) (e_slot e) = Ok ()"
    using * by (cases "validate_bank_slot (e_bank e) (e_slot e)") (auto simp: decode_def)
  moreover from calculation have "validate_direction (e_direction e) (e_slot e) = Ok ()"
    using * by (cases "validate_direction (e_direction e) (e_slot e)") (auto simp: decode_def)
  moreover from calculation have "validate_shape (e_dim e) (e_eta_len e) (e_lam_len e) = Ok ()"
    using * by (cases "validate_shape (e_dim e) (e_eta_len e) (e_lam_len e)") (auto simp: decode_def)
  moreover from calculation obtain ws where ws: "extract_payload_words e (e_eta_len e + e_lam_len e) = Ok ws"
    using * by (cases "extract_payload_words e (e_eta_len e + e_lam_len e)") (auto simp: decode_def Let_def)
  moreover from calculation have "validate_payload_words ws = Ok ()"
    using * validate_payload(2) [of ws] by (cases "validate_payload_words ws") (auto simp: decode_def Let_def)
  ultimately show ?thesis using that g by (auto simp: header_ok)
qed

section \<open>Encoding and decoding are inverse\<close>

definition one_segment :: "u32 list \<Rightarrow> Segment" where
  "one_segment ws = \<lparr>segment_idx = 0, segment_count = 1, segment_payload_words = of_nat (length ws), seg_words = ws\<rparr>"

lemma extract_one_segment:
  assumes "length ws < 2 ^ 32" and "e_segments e = [one_segment ws]"
  shows "extract_payload_words e (of_nat (length ws)) = Ok ws"
  using assms by (simp add: extract_payload_words_def one_segment_def unat_of_nat_lt map_nth)

lemma encode_Ok:
  "encode given d = Ok e \<longleftrightarrow> given \<and> header_ok e \<and> list_all fp32_finite (d_eta d @ d_lam d) \<and> (\<exists>w \<in> set (d_eta d @ d_lam d). w \<noteq> 0)
     \<and> e = \<lparr>e_schema_version = d_schema_version d, e_bank = d_bank d, e_slot = d_slot d, e_direction = d_direction d,
         e_dim = d_dim d, e_eta_len = of_nat (length (d_eta d)), e_lam_len = of_nat (length (d_lam d)),
         e_segments = [one_segment (d_eta d @ d_lam d)]\<rparr>"
  by (cases given) (auto simp: encode_def and_then_Ok Let_def header_ok validate_payload one_segment_def)

lemma decode_after_encode:
  assumes "encode given d = Ok e" and "length (d_eta d) + length (d_lam d) < 2 ^ 32"
  shows "decode True e = Ok (d, length (d_eta d) + length (d_lam d))"
proof -
  let ?ws = "d_eta d @ d_lam d"
  have h: "header_ok e" and f: "validate_payload_words ?ws = Ok ()"
    and e: "e = \<lparr>e_schema_version = d_schema_version d, e_bank = d_bank d, e_slot = d_slot d, e_direction = d_direction d,
         e_dim = d_dim d, e_eta_len = of_nat (length (d_eta d)), e_lam_len = of_nat (length (d_lam d)), e_segments = [one_segment ?ws]\<rparr>"
    using assms(1) by (auto simp: encode_Ok validate_payload)
  have u: "unat (e_eta_len e) = length (d_eta d)" "unat (e_lam_len e) = length (d_lam d)"
    using assms(2) by (simp_all add: e unat_of_nat_lt)
  have x: "extract_payload_words e (e_eta_len e + e_lam_len e) = Ok ?ws"
    using extract_one_segment [of ?ws e] assms(2) by (simp add: e)
  have "decoded_of e (d_eta d) (d_lam d) = d" using h by (simp add: decoded_of_def e header_ok_def)
  then show ?thesis using decode_cases [OF h x f] u assms(2) by simp
qed

lemma encode_after_decode:
  assumes "decode given e = Ok (d, n)"
  shows "encode True d = Ok (e\<lparr>e_segments := [one_segment (d_eta d @ d_lam d)]\<rparr>) \<and> n = length (d_eta d @ d_lam d)"
proof -
  obtain ws where g: "given" and h: "header_ok e" and x: "extract_payload_words e (e_eta_len e + e_lam_len e) = Ok ws"
      and v: "validate_payload_words ws = Ok ()"
    using decode_reaches [of given e] assms by auto
  let ?a = "e_eta_len e" and ?b = "e_lam_len e"
  have r: "unat ?a + unat ?b < 2 ^ 32" "d = decoded_of e (take (unat ?a) ws) (drop (unat ?a) ws)" "n = unat ?a + unat ?b"
    using decode_cases [OF h x v] assms g by (simp_all split: if_splits)
  have len: "length ws = unat ?a + unat ?b" using extract_length [OF x] r(1) by (simp add: unat_word_ariths)
  have l: "length (d_eta d) = unat ?a" "length (d_lam d) = unat ?b" "d_eta d @ d_lam d = ws"
    using len by (simp_all add: r(2) decoded_of_def)
  have "e\<lparr>e_segments := [one_segment ws]\<rparr> = \<lparr>e_schema_version = d_schema_version d, e_bank = d_bank d, e_slot = d_slot d,
      e_direction = d_direction d, e_dim = d_dim d, e_eta_len = of_nat (length (d_eta d)), e_lam_len = of_nat (length (d_lam d)),
      e_segments = [one_segment ws]\<rparr>"
    using h unfolding l(1,2) by (simp add: r(2) decoded_of_def header_ok_def)
  moreover have "header_ok (e\<lparr>e_segments := [one_segment ws]\<rparr>)" using h by simp
  ultimately show ?thesis using v l len r(3) by (simp add: encode_Ok validate_payload)
qed

text \<open>C11: A message that can be encoded is what decoding its encoding gives, and all its words are consumed. The other
  way round, a message that was decoded is encoded again to the same header with its payload in one segment.\<close>

theorem codec_roundtrip:
  assumes "length (d_eta d) + length (d_lam d) < 2 ^ 32"
  shows "(encode True d = Ok e \<longrightarrow> decode True e = Ok (d, length (d_eta d) + length (d_lam d)))
    \<and> (decode True e = Ok (d, n) \<longrightarrow> encode True d = Ok (e\<lparr>e_segments := [one_segment (d_eta d @ d_lam d)]\<rparr>)
        \<and> n = length (d_eta d @ d_lam d))"
  using decode_after_encode [OF _ assms] encode_after_decode by blast

definition ex_message :: DecodedPayload where
  "ex_message = \<lparr>d_schema_version = 1, d_bank = 5, d_slot = 1, d_direction = kVarToFactor, d_dim = 1, d_eta = [0x3F800000], d_lam = [0]\<rparr>"

lemma codec_roundtrip_witness:
  "\<exists>e. encode True ex_message = Ok e \<and> decode True e = Ok (ex_message, 2)"
proof -
  have "\<exists>e. encode True ex_message = Ok e"
    by (simp add: encode_Ok ex_message_def header_ok_def direction_for_slot_def expected_lam_len_def fp32_finite_def take_bit_eq_mod drop_bit_eq_div)
  then obtain e where e: "encode True ex_message = Ok e" by blast
  moreover have "length (d_eta ex_message) + length (d_lam ex_message) = 2" by (simp add: ex_message_def)
  ultimately show ?thesis using codec_roundtrip [of ex_message e 2] by (metis numeral_less_iff one_less_numeral_iff power_one_right power_strict_increasing_iff semiring_norm(76))
qed

section \<open>Reads outside the payload\<close>

lemma decode_overrun:
  "decode True e = Overrun \<longleftrightarrow> header_ok e \<and> 2 ^ 32 \<le> unat (e_eta_len e) + unat (e_lam_len e)
     \<and> (\<exists>ws. extract_payload_words e (e_eta_len e + e_lam_len e) = Ok ws \<and> validate_payload_words ws = Ok ())"
  (is "?l \<longleftrightarrow> ?r")
proof
  assume l: ?l
  obtain ws where w: "header_ok e" "extract_payload_words e (e_eta_len e + e_lam_len e) = Ok ws" "validate_payload_words ws = Ok ()"
    using decode_reaches [of True e] l by auto
  then show ?r using decode_cases [OF w] l by (auto split: if_splits)
next
  assume ?r
  then obtain ws where "header_ok e" "extract_payload_words e (e_eta_len e + e_lam_len e) = Ok ws" "validate_payload_words ws = Ok ()"
    and "\<not> unat (e_eta_len e) + unat (e_lam_len e) < 2 ^ 32" by auto
  then show ?l using decode_cases by simp
qed

lemma lam_len_small:
  assumes "unat dim < 2 ^ 16"
  shows "unat (expected_lam_len dim) = unat dim * (unat dim + 1) div 2"
proof -
  have "unat dim * (unat dim + 1) \<le> 65535 * 65536" using mult_le_mono [of "unat dim" 65535 "unat dim + 1" 65536] assms by simp
  moreover have "unat (dim + 1) = unat dim + 1" using assms by (intro unat_Suc32) simp
  ultimately have "unat (dim * (dim + 1)) = unat dim * (unat dim + 1)" by (simp add: unat_word_ariths)
  then show ?thesis by (simp add: expected_lam_len_def unat_div)
qed

text \<open>A message with two words of payload whose header passes all checks, since the sum of its lengths wraps to 2.\<close>

definition wrap_message :: EncodedPayload where
  "wrap_message = \<lparr>e_schema_version = 1, e_bank = 4, e_slot = 0, e_direction = kFactorToVar, e_dim = 0xFFFFFFFC,
     e_eta_len = 0xFFFFFFFC, e_lam_len = 6, e_segments = [one_segment [0x3F800000, 0x3F800000]]\<rparr>"

text \<open>C12: For dimensions below 65536, far above those in use, decoding never reads outside the payload. For larger ones it
  may: the total length is computed in 32 bits, and the message above, with two words of payload, is accepted and read beyond
  its end.\<close>

theorem decode_bounds:
  "(unat (e_dim e) < 2 ^ 16 \<longrightarrow> decode True e \<noteq> Overrun) \<and> decode True wrap_message = Overrun"
proof
  show "unat (e_dim e) < 2 ^ 16 \<longrightarrow> decode True e \<noteq> Overrun"
  proof (intro impI notI)
    assume d: "unat (e_dim e) < 2 ^ 16" and "decode True e = Overrun"
    then have o: "header_ok e" "2 ^ 32 \<le> unat (e_eta_len e) + unat (e_lam_len e)" by (simp_all add: decode_overrun)
    have "unat (e_lam_len e) \<le> 65535 * 65536 div 2"
      using o(1) lam_len_small [OF d] mult_le_mono [of "unat (e_dim e)" 65535 "unat (e_dim e) + 1" 65536] d
      unfolding header_ok_def by (auto intro: div_le_mono)
    then show False using o d unfolding header_ok_def by simp
  qed
  let ?ws = "[0x3F800000, 0x3F800000 :: u32]"
  have t: "e_eta_len wrap_message + e_lam_len wrap_message = of_nat (length ?ws)"
    by (simp add: wrap_message_def)
  have "extract_payload_words wrap_message (of_nat (length ?ws)) = Ok ?ws"
    by (rule extract_one_segment) (simp_all add: wrap_message_def)
  moreover have "validate_payload_words ?ws = Ok ()"
    by (simp add: validate_payload fp32_finite_def take_bit_eq_mod drop_bit_eq_div)
  moreover have "header_ok wrap_message"
    by (simp add: header_ok_def wrap_message_def direction_for_slot_def expected_lam_len_def)
  moreover have "2 ^ 32 \<le> unat (e_eta_len wrap_message) + unat (e_lam_len wrap_message)" by (simp add: wrap_message_def)
  ultimately show "decode True wrap_message = Overrun" unfolding decode_overrun t by blast
qed

lemma decode_bounds_witness: "unat (e_dim (wrap_message\<lparr>e_dim := 2\<rparr>)) < 2 ^ 16 \<and> decode True (wrap_message\<lparr>e_dim := 2\<rparr>) \<noteq> Overrun"
  using decode_bounds [of "wrap_message\<lparr>e_dim := 2\<rparr>"] by simp

section \<open>The five words of a network message\<close>

lemma semantic_payload:
  assumes "length ws = 5"
  shows "decode_semantic_payload bank row ws = Ok ev \<longleftrightarrow>
    4 \<le> bank \<and> bank \<le> 7 \<and> list_all fp32_finite ws \<and> (\<exists>w \<in> set ws. w \<noteq> 0)
    \<and> ev = \<lparr>s_bank = bank, s_slot = bank - 4, s_row = row, s_payload_words = ws, s_eta = take 2 ws, s_lam = drop 2 ws\<rparr>"
proof (cases "4 \<le> bank \<and> bank \<le> 7")
  case True
  define e where "e = \<lparr>e_schema_version = 1, e_bank = bank, e_slot = bank - 4, e_direction = direction_for_slot (bank - 4), e_dim = 2,
    e_eta_len = 2, e_lam_len = 3, e_segments = [one_segment ws]\<rparr>"
  have "bank - 4 < 4"
    using True by (auto simp: word_less_nat_alt word_le_nat_alt unat_sub)
  then have h: "header_ok e" using True by (simp add: header_ok_def e_def expected_lam_len_def)
  have x: "extract_payload_words e (e_eta_len e + e_lam_len e) = Ok ws"
    using extract_one_segment [of ws e] assms by (simp add: e_def)
  have nb: "\<not> bank < 4" "\<not> 7 < bank" using True by auto
  have s: "decode_semantic_payload bank row ws = and_then (decode True e) (\<lambda>(decoded, words_consumed).
        if length (d_eta decoded) \<noteq> 2 \<or> length (d_lam decoded) \<noteq> 3 \<or> words_consumed \<noteq> 5
        then Fail ''semantic_payload_shape_mismatch''
        else Ok \<lparr>s_bank = bank, s_slot = bank - 4, s_row = row, s_payload_words = ws, s_eta = d_eta decoded, s_lam = d_lam decoded\<rparr>)"
    using nb assms by (simp add: decode_semantic_payload_def kMessageBankLo_def kMessageBankHi_def kPhase1SchemaVersion_def Let_def e_def one_segment_def)
  show ?thesis
  proof (cases "validate_payload_words ws = Ok ()")
    case ok: True
    then show ?thesis using True decode_cases [OF h x ok] assms
      by (auto simp: s validate_payload e_def decoded_of_def)
  next
    case False
    have "decode True e \<noteq> Ok y" for y
    proof
      assume "decode True e = Ok y"
      then show False using decode_reaches [of True e] x False by fastforce
    qed
    then show ?thesis using False by (auto simp: s and_then_Ok validate_payload)
  qed
qed (auto simp: decode_semantic_payload_def kMessageBankLo_def kMessageBankHi_def)

end
