(* ===== verification/Guarded.thy ===== *)
theory Guarded
  imports Isolation
begin

text \<open>
  Words that a program never changes. A guard gives the values of some words of memory. A program keeps the guard when,
  whatever else it loads, no store of it touches a guarded word; the values its loads take from guarded words are known. If
  every program of the group keeps the guard, the words keep their values in every interleaving, and what the programs can
  return is known.
\<close>

definition guarded :: "(npa \<Rightarrow> u32 option) \<Rightarrow> machine \<Rightarrow> bool" where
  "guarded G m \<longleftrightarrow> (\<forall>p w. G p = Some w \<longrightarrow> rd m p = w)"

definition keeps_op :: "cfg \<Rightarrow> tile \<Rightarrow> (npa \<Rightarrow> u32 option) \<Rightarrow> memop \<Rightarrow> bool" where
  "keeps_op c t G op \<longleftrightarrow> is_load op \<or> (\<forall>a p. op_addr op = Some a \<longrightarrow> p \<in> dom G \<longrightarrow> span4 (eva_to_npa c t a) \<inter> span4 p = {})"

fun word_load :: "memop \<Rightarrow> u32 option" where
  "word_load (Load32 a) = Some a" | "word_load (Lr a) = Some a" | "word_load (Lr_aq a) = Some a" | "word_load op = None"

definition may_give :: "cfg \<Rightarrow> tile \<Rightarrow> (npa \<Rightarrow> u32 option) \<Rightarrow> memop \<Rightarrow> u32 \<Rightarrow> bool" where
  "may_give c t G op v \<longleftrightarrow> (\<forall>a w. word_load op = Some a \<longrightarrow> G (eva_to_npa c t a) = Some w \<longrightarrow> v = w)"

text \<open>\<open>p\<close> keeps the guard, and what it returns satisfies \<open>post\<close>.\<close>

primrec keeps :: "cfg \<Rightarrow> tile \<Rightarrow> (npa \<Rightarrow> u32 option) \<Rightarrow> proc \<Rightarrow> (u32 \<Rightarrow> bool) \<Rightarrow> bool" where
  "keeps c t G (Ret v) post = post v"
| "keeps c t G (Act a k) post = (keeps_op c t G a \<and> (\<forall>v. may_give c t G a v \<longrightarrow> keeps c t G (k v) post))"
| "keeps c t G (Loop b e k) post = keeps c t G b (\<lambda>v. e v \<longrightarrow> keeps c t G (k v) post)"

lemma keeps_mono: "keeps c t G p post \<Longrightarrow> (\<And>v. post v \<Longrightarrow> post' v) \<Longrightarrow> keeps c t G p post'"
proof (induction p arbitrary: post post')
  case (Loop b e k)
  show ?case unfolding keeps.simps
  proof (rule Loop.IH(1))
    show "keeps c t G b (\<lambda>v. e v \<longrightarrow> keeps c t G (k v) post)" by (rule Loop.prems(1) [unfolded keeps.simps])
    show "e v \<longrightarrow> keeps c t G (k v) post'" if "e v \<longrightarrow> keeps c t G (k v) post" for v
      using that Loop.IH(2) [OF rangeI] Loop.prems(2) by blast
  qed
qed auto

lemma keeps_bind: "keeps c t G (bind p f) post = keeps c t G p (\<lambda>v. keeps c t G (f v) post)"
  by (induction p arbitrary: post) auto

lemma keeps_for_each:
  "(\<And>x. x \<in> set xs \<Longrightarrow> keeps c t G (f x) (\<lambda>_. True)) \<Longrightarrow> keeps c t G (for_each xs f) (\<lambda>_. True)"
proof (induction xs)
  case (Cons x xs)
  have "keeps c t G (f x) (\<lambda>_. True)" "keeps c t G (for_each xs f) (\<lambda>_. True)" using Cons by simp_all
  then have "keeps c t G (f x) (\<lambda>_. keeps c t G (for_each xs f) (\<lambda>_. True))" by (simp only:)
  then show ?case by (simp add: keeps_bind)
qed simp

lemma exec_load: "word_load op = Some a \<Longrightarrow> exec c t op m = (rd m (eva_to_npa c t a), m)"
  by (cases op) (auto simp: rd_def)

lemma keeps_op_guarded:
  assumes "keeps_op c t G op" and "guarded G m"
  shows "guarded G (snd (exec c t op m))" and "may_give c t G op (fst (exec c t op m))"
proof -
  show "may_give c t G op (fst (exec c t op m))"
    using assms(2) by (auto simp: may_give_def guarded_def exec_load)
  show "guarded G (snd (exec c t op m))"
  proof (cases "is_load op")
    case True
    then have "snd (exec c t op m) = m" by (cases op) auto
    then show ?thesis using assms(2) by simp
  next
    case False
    have "rd (snd (exec c t op m)) p = w" if "G p = Some w" for p w
    proof -
      have "mem (snd (exec c t op m)) q = mem m q" if "q \<in> span4 p" for q
        using assms(1) False that \<open>G p = Some w\<close> by (intro exec_outside) (auto simp: keeps_op_def)
      then have "rd (snd (exec c t op m)) p = rd m p" by (simp add: rd_def load32_def span4_def)
      then show ?thesis using assms(2) that by (simp add: guarded_def)
    qed
    then show ?thesis by (simp add: guarded_def)
  qed
qed

lemma keeps_pstep:
  assumes "keeps c t G p post" and "guarded G m"
  shows "keeps c t G (fst (pstep c t (p, m))) post \<and> guarded G (snd (pstep c t (p, m)))"
proof (cases p)
  case (Act a k)
  then show ?thesis using assms keeps_op_guarded [of c t G a m] by simp
next
  case (Loop b e k)
  have "keeps c t G b (\<lambda>v. keeps c t G (if e v then k v else Loop b e k) post)"
    by (rule keeps_mono [where post = "\<lambda>v. e v \<longrightarrow> keeps c t G (k v) post"]) (use assms(1) Loop in auto)
  then show ?thesis using assms(2) Loop by (simp add: keeps_bind)
qed (use assms in auto)

lemma keeps_reachable:
  assumes "reachable c (ps, m0) s" and "\<And>t. in_group c t \<Longrightarrow> keeps c t G (ps t) (post t)" and "guarded G m0"
  shows "(\<forall>t. in_group c t \<longrightarrow> keeps c t G (fst s t) (post t)) \<and> guarded G (snd s)"
  using assms(1)
proof (induction rule: reachable.induct)
  case reach_start
  show ?case using assms(2,3) by simp
next
  case (reach_step s s')
  from reach_step.hyps(2) show ?case
  proof cases
    case (tile_step t qs m p' m')
    then have "keeps c t G (qs t) (post t)" "guarded G m" using reach_step.IH by (metis fst_conv, metis snd_conv)
    from keeps_pstep [OF this] show ?thesis using reach_step.IH tile_step by auto
  qed
qed

end
