(* ===== verification/Barrier_Chief.thy ===== *)
theory Barrier_Chief
  imports Barrier Guarded
begin

text \<open>
  The barrier of \<open>bsg_barrier.h\<close> with a chief other than tile \<open>(0, 0)\<close>. The chief passes the already remote address
  \<open>&p_remote_barrier->_local_alert\<close> to \<open>bsg_remote_store\<close>, which ors the coordinates of the destination into it: the alert for
  tile \<open>(i, j)\<close> is stored at tile \<open>(i OR x, j OR y)\<close>, where \<open>(x, y)\<close> is the chief. A tile that is not of this form
  never gets an alert.
\<close>

lemma or_bounded:
  fixes i x :: u32
  assumes "unat i < 2 ^ n" and "unat x < 2 ^ n" and "n < 32"
  shows "unat (i OR x) < 2 ^ n"
proof -
  have e: "take_bit n (i OR x) = i OR x" using assms by (simp add: take_bit_or take_bit_unat_lt)
  have "unat (take_bit n (i OR x)) < 2 ^ n" unfolding unsigned_take_bit_eq by (rule take_bit_nat_less_exp)
  then show ?thesis unfolding e .
qed

lemma mod_add_cancel: "(a + k) mod n = (b + k) mod n \<longleftrightarrow> a mod n = b mod n" for a b k n :: nat
proof -
  have "int (a + k) - int (b + k) = int a - int b" by simp
  then show ?thesis by (metis mod_eq_dvd_iff of_nat_eq_iff of_nat_mod)
qed

lemma subcord_or:
  fixes p i x u orig n :: u32
  assumes "push_bit w p OR take_bit w ((i OR x) + orig) = push_bit w p OR take_bit w (u + orig)"
    and "i < n" and "x < n" and "u < n" and "unat orig + unat n \<le> 2 ^ w" and "w < 32" and "unat n \<le> 64"
  shows "i OR x = u"
proof -
  have lt: "unat i < 2 ^ w" "unat x < 2 ^ w" "unat u < 2 ^ w" using assms(2-5) by (simp_all add: word_less_nat_alt)
  have o: "unat (i OR x) < 2 ^ w" using or_bounded [OF lt(1,2) assms(6)] .
  have o6: "unat (i OR x) < 2 ^ 6" using assms(2,3,7) by (intro or_bounded) (simp_all add: word_less_nat_alt)
  have w31: "(2::nat) ^ w \<le> 2 ^ 31" using assms(6) by (intro power_increasing) auto
  have "take_bit w (push_bit w p OR take_bit w ((i OR x) + orig)) = take_bit w (push_bit w p OR take_bit w (u + orig))"
    using assms(1) by simp
  then have t: "take_bit w ((i OR x) + orig) = take_bit w (u + orig)" by (simp add: take_bit_or take_bit_push_bit)
  have "unat ((i OR x) + orig) = unat (i OR x) + unat orig" "unat (u + orig) = unat u + unat orig"
    using o6 lt(3) assms(5) w31 by (simp_all add: unat_word_ariths)
  then have "(unat (i OR x) + unat orig) mod 2 ^ w = (unat u + unat orig) mod 2 ^ w"
    using arg_cong [OF t, of unat] unfolding unsigned_take_bit_eq by (simp only: take_bit_eq_mod)
  then have "unat (i OR x) mod 2 ^ w = unat u mod 2 ^ w"
    by (simp only: mod_add_cancel)
  then show ?thesis using o lt(3) by (simp add: word_unat_eq_iff)
qed

lemma remote_of_remote: "bsg_remote_ptr i j (bsg_remote_ptr x y a) = bsg_remote_ptr (i OR x) (j OR y) a"
  by (simp add: bsg_remote_ptr_shape push_bit_or ac_simps or.left_commute or.assoc bit_eq_iff bit_simps)

section \<open>The words that do not change\<close>

text \<open>
  The alert word of a tile \<open>u\<close>, and the chief's word with the corners of the group. The group, the chief \<open>ch\<close> and the barrier
  object at \<open>b\<close>.
\<close>

definition chief_layout :: "cfg \<Rightarrow> u32 \<Rightarrow> tile \<Rightarrow> bool" where
  "chief_layout c b ch \<longleftrightarrow> group_fits c \<and> in_group c ch \<and> unat b + 16 \<le> 2 ^ 18"

definition chief_guard :: "cfg \<Rightarrow> u32 \<Rightarrow> tile \<Rightarrow> tile \<Rightarrow> npa \<Rightarrow> u32 option" where
  "chief_guard c b ch u = [tile_npa c u (b + 12) \<mapsto> 0, tile_npa c ch (b + 8) \<mapsto> bar_coords c]"

text \<open>No alert goes to \<open>u\<close>.\<close>

definition never_alerted :: "tile \<Rightarrow> tile \<Rightarrow> bool" where
  "never_alerted ch u \<longleftrightarrow> fst u OR fst ch \<noteq> fst u \<or> snd u OR snd ch \<noteq> snd u"

lemma chief_offsets:
  assumes "chief_layout c b ch"
  shows "unat b < 2 ^ 18" "unat (b + 4) = unat b + 4" "unat (b + 8) = unat b + 8" "unat (b + 12) = unat b + 12"
    and "bsg_remote_ptr x y b + 4 = bsg_remote_ptr x y (b + 4)" "bsg_remote_ptr x y b + 8 = bsg_remote_ptr x y (b + 8)"
    and "bsg_remote_ptr x y b + 12 = bsg_remote_ptr x y (b + 12)"
  using assms by (auto simp: chief_layout_def unat_word_ariths intro!: bsg_remote_ptr_offset)

lemma sep4_tiles: "sep4 a a' \<Longrightarrow> span4 (tile_npa c t a) \<inter> span4 (tile_npa c t' a') = {}"
  by (auto simp: span4_def sep4_def tile_npa_def)

lemma chief_seps:
  assumes "chief_layout c b ch"
  shows "sep4 b (b + 12)" "sep4 b (b + 8)" "sep4 (b + 4) (b + 12)" "sep4 (b + 4) (b + 8)" "sep4 (b + 12) (b + 8)" "sep4 (b + 8) (b + 12)"
  by (rule sep4_far; use chief_offsets [OF assms] assms in \<open>simp add: chief_layout_def\<close>)+

lemma chief_words_differ: "chief_layout c b ch \<Longrightarrow> tile_npa c ch (b + 8) \<noteq> tile_npa c u (b + 12)"
  by (simp add: tile_npa_def)

lemma alert_apart:
  assumes L: "chief_layout c b ch" and u: "in_group c u" and v: "in_group c v" and N: "never_alerted ch u"
  shows "span4 (tile_npa c (fst v OR fst ch, snd v OR snd ch) (b + 12)) \<inter> span4 (tile_npa c u (b + 12)) = {}"
proof -
  have g: "group_fits c" and ch: "in_group c ch" using L by (simp_all add: chief_layout_def)
  have "cord_x c (fst v OR fst ch) \<noteq> cord_x c (fst u) \<or> cord_y c (snd v OR snd ch) \<noteq> cord_y c (snd u)"
  proof (rule ccontr)
    assume "\<not> ?thesis"
    then have e: "cord_x c (fst v OR fst ch) = cord_x c (fst u)" "cord_y c (snd v OR snd ch) = cord_y c (snd u)" by simp_all
    have "fst v OR fst ch = fst u"
      by (rule subcord_or [OF e(1) [unfolded cord_x_def], of "bsg_tiles_X c"]) (use g ch u v in \<open>simp_all add: in_group_def group_fits_def\<close>)
    moreover have "snd v OR snd ch = snd u"
      by (rule subcord_or [OF e(2) [unfolded cord_y_def], of "bsg_tiles_Y c"]) (use g ch u v in \<open>simp_all add: in_group_def group_fits_def\<close>)
    ultimately have "fst u OR fst ch = fst u" "snd u OR snd ch = snd u" by (metis or.right_idem)+
    then show False using N by (simp add: never_alerted_def)
  qed
  then show ?thesis by (auto simp: span4_def tile_npa_def)
qed

text \<open>Where the accesses of \<open>bsg_barrier_wait\<close> go.\<close>

lemma chief_eva:
  assumes L: "chief_layout c b ch" and t: "in_group c t"
  shows "eva_to_npa c t (bsg_remote_ptr (fst ch) (snd ch) b) = tile_npa c ch b"
    "eva_to_npa c t (bsg_remote_ptr (fst ch) (snd ch) b + 4) = tile_npa c ch (b + 4)"
    "eva_to_npa c t (bsg_remote_ptr (fst ch) (snd ch) b + 8) = tile_npa c ch (b + 8)"
    "eva_to_npa c t (bsg_local_ptr (bsg_remote_ptr (fst ch) (snd ch) b + 12)) = tile_npa c t (b + 12)"
    "eva_to_npa c t (bsg_remote_ptr (fst ch) (snd ch) (bsg_remote_ptr (fst ch) (snd ch) b + 4)) = tile_npa c ch (b + 4)"
    "in_group c v \<Longrightarrow> eva_to_npa c t (bsg_remote_ptr (fst v) (snd v) (bsg_remote_ptr (fst ch) (snd ch) b + 12))
      = tile_npa c (fst v OR fst ch, snd v OR snd ch) (b + 12)"
proof -
  have g: "group_fits c" "in_group c ch" using L by (simp_all add: chief_layout_def)
  note o = chief_offsets [OF L]
  have lt: "unat (b + 4) < 2 ^ 18" "unat (b + 8) < 2 ^ 18" "unat (b + 12) < 2 ^ 18"
    using o L unfolding chief_layout_def by linarith+
  note e = eva_remote_group [OF g(1), of "fst ch" "snd ch"]
  show "eva_to_npa c t (bsg_remote_ptr (fst ch) (snd ch) b) = tile_npa c ch b"
    "eva_to_npa c t (bsg_remote_ptr (fst ch) (snd ch) b + 4) = tile_npa c ch (b + 4)"
    "eva_to_npa c t (bsg_remote_ptr (fst ch) (snd ch) b + 8) = tile_npa c ch (b + 8)"
    "eva_to_npa c t (bsg_remote_ptr (fst ch) (snd ch) (bsg_remote_ptr (fst ch) (snd ch) b + 4)) = tile_npa c ch (b + 4)"
    using e g(2) o lt by (simp_all add: remote_of_remote)
  show "eva_to_npa c t (bsg_local_ptr (bsg_remote_ptr (fst ch) (snd ch) b + 12)) = tile_npa c t (b + 12)"
    using o lt bsg_local_ptr_remote eva_local [of "b + 12" c t] by simp
  assume v: "in_group c v"
  have "unat (fst v OR fst ch) < 2 ^ 6" "unat (snd v OR snd ch) < 2 ^ 5"
    using v g by (intro or_bounded; simp add: in_group_def group_fits_def word_less_nat_alt)+
  then show "eva_to_npa c t (bsg_remote_ptr (fst v) (snd v) (bsg_remote_ptr (fst ch) (snd ch) b + 12))
      = tile_npa c (fst v OR fst ch, snd v OR snd ch) (b + 12)"
    using eva_remote [of "fst v OR fst ch" "snd v OR snd ch" "b + 12" c t] lt by (simp add: o(7) remote_of_remote)
qed

section \<open>The tile never leaves\<close>

lemma keeps_seq: "keeps c t G p (\<lambda>_. True) \<Longrightarrow> (\<And>v. keeps c t G (f v) post) \<Longrightarrow> keeps c t G (bind p f) post"
  unfolding keeps_bind by (erule keeps_mono)

lemma barrier_keeps:
  assumes L: "chief_layout c b ch" and t: "in_group c t" and u: "in_group c u" and N: "never_alerted ch u"
  shows "keeps c t (chief_guard c b ch u) (bsg_barrier_wait t b (fst ch) (snd ch)) (\<lambda>_. t \<noteq> u)"
proof -
  let ?G = "chief_guard c b ch u" and ?p = "bsg_remote_ptr (fst ch) (snd ch) b"
  note e = chief_eva [OF L t] and seps = chief_seps [OF L]
  have g: "group_fits c" and ch: "in_group c ch" using L by (simp_all add: chief_layout_def)
  have dom: "dom ?G = {tile_npa c u (b + 12), tile_npa c ch (b + 8)}" by (auto simp: chief_guard_def)
  have off: "keeps_op c t ?G op" if "op_addr op = Some a" "eva_to_npa c t a = tile_npa c v k" "k = b \<or> k = b + 4" for op a v k
    using that seps by (auto simp: keeps_op_def dom intro!: sep4_tiles)
  have coords: "may_give c t ?G (Load32 (?p + 8)) w \<longleftrightarrow> w = bar_coords c" for w
    using chief_words_differ [OF L, of u] by (simp add: may_give_def chief_guard_def e)
  have ne: "u \<noteq> ch" using N by (auto simp: never_alerted_def)
  have lock: "keeps c t ?G (bsg_mutex_lock ?p) (\<lambda>_. True)" "keeps c t ?G (bsg_mutex_unlock ?p) (\<lambda>_. True)"
    by (auto simp: bsg_mutex_lock_def bsg_mutex_try_lock_def bsg_mutex_unlock_def e intro!: off)
  have inc: "keeps c t ?G (bsg_atomic_inc ?p (?p + 4)) (\<lambda>_. True)"
    unfolding bsg_atomic_inc_def by (rule keeps_seq [OF lock(1)]) (auto simp: e lock(2) intro!: off)
  have wait: "keeps c t ?G (bsg_wait_local_int a k) (\<lambda>_. True)" for a k
    by (simp add: bsg_wait_local_int_def bsg_lr_def bsg_lr_aq_def keeps_bind keeps_op_def)
  have alert: "keeps_op c t ?G (Store32 (bsg_remote_ptr (fst v) (snd v) (?p + 12)) 1)" if "in_group c v" for v
    using alert_apart [OF L u that N] seps(5) by (auto simp: keeps_op_def dom e(6) [OF that] intro!: sep4_tiles)
  have alerts: "keeps c t ?G (for_each (bar_tiles (bar_coords c)) (\<lambda>v. bsg_remote_store (fst v) (snd v) (?p + 12) alert_signaled)) (\<lambda>_. True)"
    by (rule keeps_for_each)
      (use alert bar_tiles_group(1) [OF g] in \<open>auto simp: bsg_remote_store_def alert_signaled_def group_tiles_def\<close>)
  have reset: "keeps c t ?G (bsg_remote_store (fst ch) (snd ch) (?p + 4) 0) (\<lambda>_. True)"
    by (auto simp: bsg_remote_store_def e intro!: off)
  show ?thesis
  proof (cases "t = ch")
    case True
    have locked: "keeps c t ?G (Act (Load32 (?p + 8)) (\<lambda>w.
        seq (for_each (bar_tiles w) (\<lambda>v. bsg_remote_store (fst v) (snd v) (?p + 12) alert_signaled))
          (seq (bsg_remote_store (fst ch) (snd ch) (?p + 4) 0) (bsg_mutex_unlock ?p)))) (\<lambda>_. True)"
      using keeps_seq [OF alerts keeps_seq [OF reset lock(2)]] by (simp add: coords keeps_op_def)
    have "keeps c t ?G (Act (Load32 (?p + 8)) (\<lambda>w. seq (bsg_wait_local_int (bsg_local_ptr (?p + 4)) (bar_num_threads w))
        (seq (bsg_mutex_lock ?p) (Act (Load32 (?p + 8)) (\<lambda>w.
          seq (for_each (bar_tiles w) (\<lambda>v. bsg_remote_store (fst v) (snd v) (?p + 12) alert_signaled))
            (seq (bsg_remote_store (fst ch) (snd ch) (?p + 4) 0) (bsg_mutex_unlock ?p))))))) (\<lambda>_. True)"
      using keeps_seq [OF wait keeps_seq [OF lock(1) locked]] by (simp add: keeps_op_def)
    from keeps_seq [OF inc this] show ?thesis using True ne by (simp add: bsg_barrier_wait_def Let_def)
  next
    case False
    then have m: "\<not> (fst t = fst ch \<and> snd t = snd ch)" by (simp add: prod_eq_iff)
    have "keeps c t ?G (seq (bsg_wait_local_int (bsg_local_ptr (?p + 12)) alert_signaled)
        (Act (Store32 (bsg_local_ptr (?p + 12)) alert_init) (\<lambda>_. Ret 0))) (\<lambda>_. t \<noteq> u)"
    proof (cases "t = u")
      case True
      have "may_give c t ?G (Lr (bsg_local_ptr (?p + 12))) w \<longleftrightarrow> w = 0" "may_give c t ?G (Lr_aq (bsg_local_ptr (?p + 12))) w \<longleftrightarrow> w = 0" for w
        using chief_words_differ [OF L, of t] by (auto simp: may_give_def chief_guard_def e True [symmetric])
      then show ?thesis
        by (simp add: bsg_wait_local_int_def bsg_lr_def bsg_lr_aq_def keeps_bind keeps_op_def alert_signaled_def)
    next
      case False
      have "span4 (tile_npa c t (b + 12)) \<inter> span4 (tile_npa c u (b + 12)) = {}"
        by (rule span4_tile_disjoint [OF g t u]) (use False in simp)
      then have "keeps_op c t ?G (Store32 (bsg_local_ptr (?p + 12)) alert_init)"
        using seps(5) by (auto simp: keeps_op_def dom e intro!: sep4_tiles)
      then show ?thesis using False by (intro keeps_seq [OF wait]) simp
    qed
    from keeps_seq [OF inc this] show ?thesis unfolding bsg_barrier_wait_def Let_def if_not_P [OF m] .
  qed
qed

text \<open>
  C23: with a chief \<open>ch\<close> other than \<open>(0, 0)\<close>, a tile \<open>u\<close> whose coordinates do not contain the bits of the chief's never gets
  an alert: in every interleaving of one call of \<open>bsg_barrier_wait\<close> on every tile of the group, \<open>u\<close> has not returned
  from it. So it waits for ever, and tile \<open>(0, 0)\<close> is always such a tile.
\<close>

theorem wrong_chief_blocks:
  assumes "chief_layout c b ch" and "ch \<noteq> (0, 0)" and "in_group c u" and "u = (0, 0) \<or> never_alerted ch u"
    and "rd m0 (tile_npa c ch (b + 8)) = bar_coords c" and "rd m0 (tile_npa c u (b + 12)) = alert_init"
    and "reachable c (\<lambda>t. bsg_barrier_wait t b (fst ch) (snd ch), m0) s"
  shows "(\<forall>v. fst s u \<noteq> Ret v) \<and> rd (snd s) (tile_npa c u (b + 12)) = alert_init"
proof -
  let ?G = "chief_guard c b ch u"
  have N: "never_alerted ch u" using assms(2,4) by (auto simp: never_alerted_def prod_eq_iff)
  have "guarded ?G m0" using assms(5,6) by (auto simp: guarded_def chief_guard_def alert_init_def)
  from keeps_reachable [OF assms(7) barrier_keeps [OF assms(1) _ assms(3) N] this]
  have k: "keeps c u ?G (fst s u) (\<lambda>_. u \<noteq> u)" "guarded ?G (snd s)" using assms(3) by blast+
  have "fst s u \<noteq> Ret v" for v using k(1) by auto
  moreover have "?G (tile_npa c u (b + 12)) = Some 0" using chief_words_differ [OF assms(1), of u] by (simp add: chief_guard_def)
  ultimately show ?thesis using k(2) by (simp add: guarded_def alert_init_def)
qed

section \<open>An instance\<close>

text \<open>
  A two by two group with the chief \<open>(1, 0)\<close>: the other tiles join, then the chief counts four, sends its alerts and
  returns, but tile \<open>(0, 0)\<close> still waits.
\<close>

lemma join_run:
  assumes "eva_to_npa c t p = a" and "eva_to_npa c t q = d" and "rd m a = 0" and "span4 a \<inter> span4 d = {}"
  shows "runs c t (seq (bsg_atomic_inc p q) r, m) (r, put32 c a 0 (put32 c d (rd m d + 1) (put32 c a 1 m)))"
proof -
  have "span4 d \<inter> span4 a = {}" using assms(4) by (simp add: Int_commute)
  then have "eval 6 c t (bsg_atomic_inc p q) m = Some (0, put32 c a 0 (put32 c d (rd m d + 1) (put32 c a 1 m)))"
    using assms by (simp add: numeral_eq_Suc bsg_atomic_inc_def bsg_mutex_lock_def bsg_mutex_try_lock_def bsg_mutex_unlock_def
        bsg_mutex_lock_fail_def flip: rd_def)
  from runs_bind [OF this, of "\<lambda>_. r"] show ?thesis by simp
qed

lemma small_chief: "chief_layout small_cfg 64 (1, 0)"
  by (simp add: chief_layout_def in_group_def small_cfg_def group_fits_def)

text \<open>A tile joins: the lock is free again, one more has joined, the other words are unchanged.\<close>

definition chief_words :: "nat \<Rightarrow> machine \<Rightarrow> bool" where
  "chief_words k m \<longleftrightarrow> rd m (tile_npa small_cfg (1, 0) 64) = 0 \<and> rd m (tile_npa small_cfg (1, 0) 68) = of_nat k
     \<and> rd m (tile_npa small_cfg (1, 0) 72) = bar_coords small_cfg"

lemma small_seps:
  "span4 (tile_npa small_cfg (1, 0) 64) \<inter> span4 (tile_npa small_cfg (1, 0) 68) = {}"
  "span4 (tile_npa small_cfg (1, 0) 68) \<inter> span4 (tile_npa small_cfg (1, 0) 64) = {}"
  "span4 (tile_npa small_cfg (1, 0) 72) \<inter> span4 (tile_npa small_cfg (1, 0) 64) = {}"
  "span4 (tile_npa small_cfg (1, 0) 72) \<inter> span4 (tile_npa small_cfg (1, 0) 68) = {}"
  by (rule sep4_tiles, simp add: sep4_def)+

lemma small_join:
  assumes "in_group small_cfg t" and "chief_words k m"
  shows "\<exists>m'. runs small_cfg t (seq (bsg_atomic_inc (bsg_remote_ptr 1 0 64) (bsg_remote_ptr 1 0 64 + 4)) r, m) (r, m') \<and> chief_words (Suc k) m'"
  using join_run [OF chief_eva(1,2) [OF small_chief assms(1)], of m r] assms(2) small_seps
  by (intro exI conjI, simp add: chief_words_def, simp add: chief_words_def add.commute)

lemma small_member:
  assumes "in_group small_cfg t" and "t \<noteq> (1, 0)" and "chief_words k m"
  shows "\<exists>p m'. runs small_cfg t (bsg_barrier_wait t 64 1 0, m) (p, m') \<and> chief_words (Suc k) m'"
proof -
  have "\<not> (fst t = 1 \<and> snd t = 0)" using assms(2) by (simp add: prod_eq_iff)
  then show ?thesis using small_join [OF assms(1,3)] by (simp add: bsg_barrier_wait_def Let_def) blast
qed

lemma small_chief_leaves:
  assumes "chief_words 3 m"
  shows "\<exists>m'. runs small_cfg (1, 0) (bsg_barrier_wait (1, 0) 64 1 0, m) (Ret 0, m')"
proof -
  have t: "in_group small_cfg (1, 0)" by (simp add: in_group_def small_cfg_def)
  note e = chief_eva [OF small_chief t, simplified]
  have n: "bar_num_threads (bar_coords small_cfg) = 4" "bar_tiles (bar_coords small_cfg) = [(0, 0), (0, 1), (1, 0), (1, 1)]"
    by code_simp+
  let ?p = "bsg_remote_ptr 1 0 64"
  let ?rest = "Act (Load32 (?p + 8)) (\<lambda>w. seq (bsg_wait_local_int (bsg_local_ptr (?p + 4)) (bar_num_threads w))
      (seq (bsg_mutex_lock ?p) (Act (Load32 (?p + 8)) (\<lambda>w.
        seq (for_each (bar_tiles w) (\<lambda>v. bsg_remote_store (fst v) (snd v) (?p + 12) alert_signaled))
          (seq (bsg_remote_store 1 0 (?p + 4) 0) (bsg_mutex_unlock ?p))))))"
  obtain m1 where m1: "runs small_cfg (1, 0) (seq (bsg_atomic_inc ?p (?p + 4)) ?rest, m) (?rest, m1)" "chief_words 4 m1"
    using small_join [OF t assms, of ?rest] by auto
  have l: "eva_to_npa small_cfg (1, 0) (bsg_local_ptr (?p + 4)) = tile_npa small_cfg (1, 0) 68"
    using chief_offsets(5) [OF small_chief, of 1 0] bsg_local_ptr_remote [of 68 1 0] eva_local [of 68 small_cfg "(1, 0)"] by simp
  have "\<exists>m'. eval 30 small_cfg (1, 0) ?rest m1 = Some (0, m')"
    using m1(2) by (simp add: numeral_eq_Suc bsg_wait_local_int_def bsg_lr_def bsg_mutex_lock_def bsg_mutex_try_lock_def
        bsg_mutex_lock_fail_def bsg_mutex_unlock_def bsg_remote_store_def chief_words_def e l n small_seps flip: rd_def)
  then obtain m' where "runs small_cfg (1, 0) (?rest, m1) (Ret 0, m')" using runs_bind [of 30 small_cfg "(1, 0)" ?rest m1 0 _ Ret] by auto
  from runs_trans [OF m1(1) this] show ?thesis by (auto simp: bsg_barrier_wait_def Let_def)
qed

text \<open>All of them, one after the other.\<close>

lemma small_chief_state:
  obtains s where "reachable small_cfg (\<lambda>t. bsg_barrier_wait t 64 1 0, small_barrier) s" "fst s (1, 0) = Ret 0"
proof -
  let ?ps = "\<lambda>t. bsg_barrier_wait t 64 1 0"
  have g: "in_group small_cfg (x, y)" if "x < 2" "y < 2" for x y using that by (simp add: in_group_def small_cfg_def)
  have w: "rd small_barrier (tile_npa small_cfg (1, 0) (64 + 4 * of_nat k)) = BSG_BARRIER_INIT 0 1 0 1 ! k" if "k < 4" for k
    using small_bar_start that g [of 1 0] unfolding bar_start_def by (simp add: small_cfg_def)
  have w0: "chief_words 0 small_barrier"
    using w [of 0] w [of 1] w [of 2] by (simp add: chief_words_def BSG_BARRIER_INIT_def bar_coords_def small_cfg_def)
  obtain p1 m1 where 1: "runs small_cfg (0, 0) (?ps (0, 0), small_barrier) (p1, m1)" "chief_words 1 m1"
    using small_member [OF g [of 0 0] _ w0] by auto
  obtain p2 m2 where 2: "runs small_cfg (0, 1) (?ps (0, 1), m1) (p2, m2)" "chief_words 2 m2"
    using small_member [OF g [of 0 1] _ 1(2)] by (auto simp: numeral_2_eq_2)
  obtain p3 m3 where 3: "runs small_cfg (1, 1) (?ps (1, 1), m2) (p3, m3)" "chief_words 3 m3"
    using small_member [OF g [of 1 1] _ 2(2)] by (auto simp: numeral_3_eq_3 numeral_2_eq_2)
  obtain m4 where 4: "runs small_cfg (1, 0) (?ps (1, 0), m3) (Ret 0, m4)" using small_chief_leaves [OF 3(2)] by blast
  let ?p1 = "?ps((0, 0) := p1)" and ?p2 = "?ps((0, 0) := p1, (0, 1) := p2)" and ?p3 = "?ps((0, 0) := p1, (0, 1) := p2, (1, 1) := p3)"
  have "reachable small_cfg (?ps, small_barrier) (?p1, m1)" by (rule runs_reachable [OF g [of 0 0]]) (use 1(1) in simp_all)
  moreover have "reachable small_cfg (?p1, m1) (?p2, m2)" by (rule runs_reachable [OF g [of 0 1]]) (use 2(1) in simp_all)
  moreover have "reachable small_cfg (?p2, m2) (?p3, m3)" by (rule runs_reachable [OF g [of 1 1]]) (use 3(1) in simp_all)
  moreover have "reachable small_cfg (?p3, m3) (?p3((1, 0) := Ret 0), m4)" by (rule runs_reachable [OF g [of 1 0]]) (use 4 in simp_all)
  ultimately have "reachable small_cfg (?ps, small_barrier) (?p3((1, 0) := Ret 0), m4)" using reachable_trans by blast
  then show ?thesis by (rule that) simp
qed

lemma wrong_chief_blocks_witness:
  "\<exists>s. reachable small_cfg (\<lambda>t. bsg_barrier_wait t 64 1 0, small_barrier) s
    \<and> fst s (1, 0) = Ret 0 \<and> (\<forall>v. fst s (0, 0) \<noteq> Ret v)"
proof -
  obtain s where s: "reachable small_cfg (\<lambda>t. bsg_barrier_wait t 64 1 0, small_barrier) s" "fst s (1, 0) = Ret 0"
    by (rule small_chief_state)
  have g: "in_group small_cfg (0, 0)" "in_group small_cfg (1, 0)" by (simp_all add: in_group_def small_cfg_def)
  have w: "rd small_barrier (tile_npa small_cfg t (64 + 4 * of_nat k))
      = BSG_BARRIER_INIT 0 (bsg_tiles_X small_cfg - 1) 0 (bsg_tiles_Y small_cfg - 1) ! k" if "k < 4" "in_group small_cfg t" for k t
    using small_bar_start that unfolding bar_start_def by blast
  have "\<forall>v. fst s (0, 0) \<noteq> Ret v"
    using wrong_chief_blocks [OF small_chief _ g(1), of small_barrier s] w [of 2 "(1, 0)"] w [of 3 "(0, 0)"] g s(1)
    by (simp add: bar_coords_def BSG_BARRIER_INIT_def)
  then show ?thesis using s by blast
qed

end
