(* ===== verification/Phases.thy ===== *)
theory Phases
  imports Network_Tests
begin

text \<open>
  Programs whose tiles work between barriers. A phase is what every tile does between two barriers; no tile begins a
  phase before all have ended the one before, which is what the safety theorems of the barriers say. In a phase the
  tiles store to words of their own and load from words that nobody stores to in this phase, so a phase does to the memory
  what the tiles do alone.
\<close>

section \<open>Sequences of phases\<close>

inductive phased :: "cfg \<Rightarrow> (tile \<Rightarrow> proc) list \<Rightarrow> machine \<Rightarrow> machine \<Rightarrow> bool" for c where
  phased_Nil: "phased c [] m m"
| phased_Cons: "reachable c (p, m) s \<Longrightarrow> finished c s \<Longrightarrow> phased c ps (snd s) m' \<Longrightarrow> phased c (p # ps) m m'"

inductive_cases phased_NilE: "phased c [] m m'"
inductive_cases phased_ConsE: "phased c (p # ps) m m'"

lemma phased_append: "phased c (ps @ qs) m m' \<longleftrightarrow> (\<exists>m1. phased c ps m m1 \<and> phased c qs m1 m')"
proof (induction ps arbitrary: m)
  case Nil
  then show ?case by (auto intro: phased_Nil elim: phased_NilE)
next
  case (Cons p ps)
  show ?case unfolding append_Cons
  proof
    assume "phased c (p # ps @ qs) m m'"
    then obtain s where s: "reachable c (p, m) s" "finished c s" "phased c (ps @ qs) (snd s) m'" by (rule phased_ConsE)
    then show "\<exists>m1. phased c (p # ps) m m1 \<and> phased c qs m1 m'" using Cons by (blast intro: phased_Cons)
  next
    assume "\<exists>m1. phased c (p # ps) m m1 \<and> phased c qs m1 m'"
    then obtain m1 where "phased c (p # ps) m m1" "phased c qs m1 m'" by blast
    then show "phased c (p # ps @ qs) m m'" using Cons by (auto elim!: phased_ConsE intro: phased_Cons)
  qed
qed

text \<open>A phase \<open>p\<close> leads from \<open>pre\<close> to \<open>post\<close> when, in every schedule, it can be completed, and then \<open>post\<close> holds.\<close>

definition phase_spec :: "cfg \<Rightarrow> (machine \<Rightarrow> bool) \<Rightarrow> (tile \<Rightarrow> proc) \<Rightarrow> (machine \<Rightarrow> bool) \<Rightarrow> bool" where
  "phase_spec c pre p post \<longleftrightarrow> (\<forall>m s. pre m \<longrightarrow> reachable c (p, m) s \<longrightarrow>
     (\<exists>s'. reachable c s s' \<and> finished c s') \<and> (finished c s \<longrightarrow> post (snd s)))"

definition phases_spec :: "cfg \<Rightarrow> (machine \<Rightarrow> bool) \<Rightarrow> (tile \<Rightarrow> proc) list \<Rightarrow> (machine \<Rightarrow> bool) \<Rightarrow> bool" where
  "phases_spec c pre ps post \<longleftrightarrow> (\<forall>m. pre m \<longrightarrow> (\<exists>m'. phased c ps m m') \<and> (\<forall>m'. phased c ps m m' \<longrightarrow> post m'))"

lemma phases_Nil: "phases_spec c pre [] pre"
  by (auto simp: phases_spec_def intro: phased_Nil elim: phased_NilE)

lemma phases_one:
  assumes "phase_spec c pre p post"
  shows "phases_spec c pre [p] post"
  unfolding phases_spec_def
proof (intro allI impI conjI)
  fix m
  assume m: "pre m"
  obtain s where "reachable c (p, m) s" "finished c s" using assms m unfolding phase_spec_def by (blast intro: reach_start)
  then show "\<exists>m'. phased c [p] m m'" by (blast intro: phased_Cons phased_Nil)
  fix m'
  assume "phased c [p] m m'"
  then obtain s where "reachable c (p, m) s" "finished c s" "m' = snd s" by (auto elim!: phased_ConsE elim: phased_NilE)
  then show "post m'" using assms m unfolding phase_spec_def by blast
qed

lemma phases_append:
  "phases_spec c pre ps mid \<Longrightarrow> phases_spec c mid qs post \<Longrightarrow> phases_spec c pre (ps @ qs) post"
  unfolding phases_spec_def phased_append by blast

lemma phases_repeat:
  assumes "\<And>k. k < n \<Longrightarrow> phases_spec c (J k) (ps k) (J (Suc k))"
  shows "phases_spec c (J 0) (concat (map ps [0..<n])) (J n)"
  using assms
proof (induction n)
  case 0
  show ?case using phases_Nil by simp
next
  case (Suc n)
  then show ?case using phases_append [of c "J 0" "concat (map ps [0..<n])" "J n" "ps n" "J (Suc n)"] by simp
qed

section \<open>A phase that computes words\<close>

text \<open>Each item \<open>x\<close> of a tile's list loads the words \<open>src x\<close> and stores to \<open>dst x\<close> what \<open>h x\<close> makes of them.\<close>

definition compute :: "('x \<Rightarrow> u32 list) \<Rightarrow> ('x \<Rightarrow> u32) \<Rightarrow> ('x \<Rightarrow> u32 list \<Rightarrow> u32) \<Rightarrow> 'x list \<Rightarrow> proc" where
  "compute ps q h xs = for_each xs (\<lambda>x. load_list (ps x) (\<lambda>vs. Act (Store32 (q x) (h x vs)) Ret))"

lemma compute_run:
  assumes "disjoint_cells loc V" and "distinct (map dst xs)"
    and "\<And>x. x \<in> set xs \<Longrightarrow> eva_to_npa c t (q x) = loc (dst x) \<and> dst x \<in> V"
    and "\<And>x. x \<in> set xs \<Longrightarrow> map (eva_to_npa c t) (ps x) = map loc (src x) \<and> set (src x) \<subseteq> V - dst ` (set xs - {x})"
  shows "\<exists>m'. runs c t (seq (compute ps q h xs) r, m) (r, m')
    \<and> (\<forall>x \<in> set xs. rd m' (loc (dst x)) = h x (map (\<lambda>y. rd m (loc y)) (src x)))
    \<and> (\<forall>y \<in> V - dst ` set xs. rd m' (loc y) = rd m (loc y))"
  using assms(2-4)
proof (induction xs arbitrary: m)
  case Nil
  then show ?case by (auto simp: compute_def intro: exI [of _ m])
next
  case (Cons x xs)
  let ?v = "h x (map (\<lambda>y. rd m (loc y)) (src x))"
  let ?m = "put32 c (loc (dst x)) ?v m"
  have d: "dst x \<in> V" "eva_to_npa c t (q x) = loc (dst x)" using Cons.prems(2) by simp_all
  have e: "map (\<lambda>p. rd m (eva_to_npa c t p)) (ps x) = map (\<lambda>y. rd m (loc y)) (src x)"
  proof -
    have "map (eva_to_npa c t) (ps x) = map loc (src x)" using Cons.prems(3) by simp
    then have "map (rd m) (map (eva_to_npa c t) (ps x)) = map (rd m) (map loc (src x))" by simp
    then show ?thesis by (simp add: comp_def)
  qed
  have new: "dst y \<noteq> dst x" if "y \<in> set xs" for y using Cons.prems(1) that by (metis distinct.simps(2) imageI list.map(2) set_map)
  have src: "set (src y) \<subseteq> V - dst ` (set xs - {y})" "dst x \<notin> set (src y)" if "y \<in> set xs" for y
  proof -
    have "x \<noteq> y" using Cons.prems(1) that by auto
    then show "set (src y) \<subseteq> V - dst ` (set xs - {y})" "dst x \<notin> set (src y)" using Cons.prems(3) [of y] that by auto
  qed
  have other: "rd ?m (loc y) = rd m (loc y)" if "y \<in> V" "y \<noteq> dst x" for y
    using rd_put_cell [OF assms(1) d(1) that(1)] that(2) by simp
  obtain m' where m': "runs c t (seq (compute ps q h xs) r, ?m) (r, m')"
      "\<forall>x \<in> set xs. rd m' (loc (dst x)) = h x (map (\<lambda>y. rd ?m (loc y)) (src x))"
      "\<forall>y \<in> V - dst ` set xs. rd m' (loc y) = rd ?m (loc y)"
  proof -
    have "map (eva_to_npa c t) (ps y) = map loc (src y) \<and> set (src y) \<subseteq> V - dst ` (set xs - {y})" if "y \<in> set xs" for y
      using Cons.prems(3) [of y] src(1) [OF that] that by simp
    then show ?thesis using Cons.IH [of ?m] Cons.prems(1,2) that by auto
  qed
  have "runs c t (seq (compute ps q h (x # xs)) r, m) (seq (Act (Store32 (q x) ?v) Ret) (seq (compute ps q h xs) r), m)"
    using load_list_run [of c t "ps x" "\<lambda>vs. seq (Act (Store32 (q x) (h x vs)) Ret) (seq (compute ps q h xs) r)" m]
    unfolding compute_def e by (simp add: bind_load_list)
  moreover have "runs c t (seq (Act (Store32 (q x) ?v) Ret) (seq (compute ps q h xs) r), m) (seq (compute ps q h xs) r, ?m)"
    by (simp add: d(2) runs_Act)
  ultimately have run: "runs c t (seq (compute ps q h (x # xs)) r, m) (r, m')" using runs_trans m'(1) by blast
  have "rd m' (loc (dst y)) = h y (map (\<lambda>z. rd m (loc z)) (src y))" if y: "y \<in> set (x # xs)" for y
  proof (cases "y = x")
    case True
    have "dst x \<in> V - dst ` set xs" using d(1) new by (metis Diff_iff imageE)
    then show ?thesis using m'(3) True by simp
  next
    case False
    then have ys: "y \<in> set xs" using y by simp
    have "map (\<lambda>z. rd ?m (loc z)) (src y) = map (\<lambda>z. rd m (loc z)) (src y)"
    proof (rule map_cong [OF refl])
      fix z
      assume "z \<in> set (src y)"
      then have "z \<in> V" "z \<noteq> dst x" using src [OF ys] by auto
      then show "rd ?m (loc z) = rd m (loc z)" by (rule other)
    qed
    then show ?thesis using bspec [OF m'(2) ys] by (simp only:)
  qed
  moreover have "rd m' (loc y) = rd m (loc y)" if "y \<in> V - dst ` set (x # xs)" for y
    using m'(3) other that by simp
  ultimately show ?case using run by blast
qed

lemma compute_append: "compute ps q h (xs @ ys) = seq (compute ps q h xs) (compute ps q h ys)"
  by (simp add: compute_def for_each_append)

text \<open>All tiles compute at once. A word is stored by one item of one tile; an item loads words that nobody stores, or its
  own.\<close>

definition computes :: "cfg \<Rightarrow> ('l \<Rightarrow> npa) \<Rightarrow> 'l set \<Rightarrow> (tile \<Rightarrow> 'x list) \<Rightarrow> ('x \<Rightarrow> u32 list) \<Rightarrow> ('x \<Rightarrow> 'l list) \<Rightarrow> ('x \<Rightarrow> u32) \<Rightarrow> ('x \<Rightarrow> 'l) \<Rightarrow> bool" where
  "computes c loc V xs ps src q dst \<longleftrightarrow>
     disjoint_cells loc V \<and> (\<forall>y \<in> V. off_io c (loc y))
     \<and> (\<forall>t. in_group c t \<longrightarrow> distinct (map dst (xs t)))
     \<and> (\<forall>t u. in_group c t \<longrightarrow> in_group c u \<longrightarrow> t \<noteq> u \<longrightarrow> dst ` set (xs t) \<inter> dst ` set (xs u) = {})
     \<and> (\<forall>t. in_group c t \<longrightarrow> (\<forall>x \<in> set (xs t). eva_to_npa c t (q x) = loc (dst x) \<and> dst x \<in> V
         \<and> map (eva_to_npa c t) (ps x) = map loc (src x)
         \<and> set (src x) \<subseteq> V - (\<Union>u \<in> group_tiles c. dst ` set (xs u)) \<union> {dst x}))"

lemma computes_phase:
  assumes C: "computes c loc V xs ps src q dst" and r: "reachable c (\<lambda>t. compute ps q h (xs t), m) s"
  shows "(\<exists>s'. reachable c s s' \<and> finished c s')
    \<and> (finished c s \<longrightarrow> (\<forall>t x. in_group c t \<longrightarrow> x \<in> set (xs t) \<longrightarrow> rd (snd s) (loc (dst x)) = h x (map (\<lambda>y. rd m (loc y)) (src x)))
        \<and> (\<forall>y \<in> V - (\<Union>u \<in> group_tiles c. dst ` set (xs u)). rd (snd s) (loc y) = rd m (loc y)))"
proof -
  let ?W = "\<Union>u \<in> group_tiles c. dst ` set (xs u)" and ?A = "\<lambda>t. dst ` set (xs t)" and ?p = "\<lambda>t. compute ps q h (xs t)"
  note c5 = C [unfolded computes_def]
  note V = c5 [THEN conjunct1] bspec [OF c5 [THEN conjunct2, THEN conjunct1]]
  note dist = c5 [THEN conjunct2, THEN conjunct2, THEN conjunct1, rule_format]
  note apart = c5 [THEN conjunct2, THEN conjunct2, THEN conjunct2, THEN conjunct1, rule_format]
  note all = c5 [THEN conjunct2, THEN conjunct2, THEN conjunct2, THEN conjunct2, rule_format]
  note D = all [THEN conjunct1] all [THEN conjunct2, THEN conjunct1] all [THEN conjunct2, THEN conjunct2, THEN conjunct1]
    all [THEN conjunct2, THEN conjunct2, THEN conjunct2]
  have own: "own_proc c t (words_at loc (V - ?W)) (words_at loc (?A t)) (?p t)" if t: "in_group c t" for t
    unfolding compute_def
  proof (rule own_for_each, rule own_loads)
    fix x p
    assume x: "x \<in> set (xs t)" and p: "p \<in> set (ps x)"
    have "eva_to_npa c t p \<in> loc ` set (src x)" using D(3) [OF t x] p by (metis image_eqI set_map)
    then obtain y where y: "eva_to_npa c t p = loc y" "y \<in> set (src x)" by blast
    show "own_op c t (words_at loc (V - ?W)) (words_at loc (?A t)) (Load32 p)"
    proof (cases "y = dst x")
      case True
      then show ?thesis using own_load [where loc = loc and x = y, OF y(1)] x by blast
    next
      case False
      then show ?thesis using own_load_shared [where loc = loc and x = y, OF y(1)] y(2) D(4) [OF t x] by blast
    qed
  next
    fix x vs
    assume x: "x \<in> set (xs t)"
    show "own_proc c t (words_at loc (V - ?W)) (words_at loc (?A t)) (Act (Store32 (q x) (h x vs)) Ret)"
      using own_store [where loc = loc and x = "dst x" and A = "?A t", OF D(1) [OF t x]] x by simp
  qed
  have I: "isolated c (words_at loc (V - ?W)) (\<lambda>t. words_at loc (?A t)) ?p"
  proof (rule words_isolated_shared [OF V])
    show "?A t \<subseteq> V" if "in_group c t" for t using D(2) [OF that] by blast
    show "?A t \<inter> (V - ?W) = {}" if "in_group c t" for t using that by (auto simp: group_tiles_def)
  qed (use apart own in blast)+
  let ?val = "\<lambda>t y. let x = (THE x. x \<in> set (xs t) \<and> dst x = y) in h x (map (\<lambda>y. rd m (loc y)) (src x))"
  have val: "?val t (dst x) = h x (map (\<lambda>y. rd m (loc y)) (src x))" if "in_group c t" "x \<in> set (xs t)" for t x
  proof -
    have "(THE x'. x' \<in> set (xs t) \<and> dst x' = dst x) = x"
      using dist [OF that(1)] that(2) by (intro the_equality) (auto simp: distinct_map inj_on_def)
    then show ?thesis by simp
  qed
  have run: "\<exists>m'. runs c t (?p t, m) (Ret 0, m') \<and> (\<forall>y \<in> ?A t. rd m' (loc y) = ?val t y)" if t: "in_group c t" for t
  proof -
    have addr: "eva_to_npa c t (q x) = loc (dst x) \<and> dst x \<in> V" if "x \<in> set (xs t)" for x using D(1,2) [OF t that] by simp
    have srcs: "map (eva_to_npa c t) (ps x) = map loc (src x) \<and> set (src x) \<subseteq> V - dst ` (set (xs t) - {x})" if x: "x \<in> set (xs t)" for x
    proof -
      have "dst x \<notin> dst ` (set (xs t) - {x})" using dist [OF t] x by (auto simp: distinct_map inj_on_def)
      moreover have "dst ` (set (xs t) - {x}) \<subseteq> ?W" using t by (auto simp: group_tiles_def)
      ultimately have "V - ?W \<union> {dst x} \<subseteq> V - dst ` (set (xs t) - {x})"
        using D(2) [OF t x] by (intro Un_least Diff_mono subset_refl) simp_all
      then show ?thesis by (intro conjI D(3) [OF t x] subset_trans [OF D(4) [OF t x]])
    qed
    have "\<exists>m'. runs c t (seq (?p t) (Ret 0), m) (Ret 0, m')
        \<and> (\<forall>x \<in> set (xs t). rd m' (loc (dst x)) = h x (map (\<lambda>y. rd m (loc y)) (src x)))
        \<and> (\<forall>y \<in> V - dst ` set (xs t). rd m' (loc y) = rd m (loc y))"
      by (rule compute_run [OF V(1) dist [OF t]]) (use addr srcs in blast)+
    then obtain m' where m': "runs c t (seq (?p t) (Ret 0), m) (Ret 0, m')"
        "\<forall>x \<in> set (xs t). rd m' (loc (dst x)) = h x (map (\<lambda>y. rd m (loc y)) (src x))"
      by blast
    have "rd m' (loc y) = ?val t y" if y: "y \<in> ?A t" for y
    proof -
      obtain x where x: "x \<in> set (xs t)" "y = dst x" using y by blast
      show ?thesis unfolding x(2) val [OF t x(1)] by (rule bspec [OF m'(2) x(1)])
    qed
    then show ?thesis using m'(1) unfolding compute_def for_each_seq_Ret by blast
  qed
  note res = isolated_words_result [OF I run r]
  have "rd (snd s) (loc (dst x)) = h x (map (\<lambda>y. rd m (loc y)) (src x))"
    if f: "finished c s" and t: "in_group c t" and x: "x \<in> set (xs t)" for t x
    unfolding val [OF t x, symmetric] by (rule bspec [OF mp [OF spec [OF mp [OF conjunct2 [OF res] f]] t] imageI [OF x]])
  moreover have "rd (snd s) (loc y) = rd m (loc y)" if "y \<in> V - ?W" for y
    using same_on_rd [OF isolated_shared [OF I r] that] by simp
  ultimately show ?thesis using conjunct1 [OF res] by simp
qed

text \<open>The rule for a phase of a program: \<open>J\<close> is known before it, \<open>K\<close> after it.\<close>

lemma computes_spec:
  assumes "computes c loc V xs ps src q dst" and "\<And>t. p t = compute ps q h (xs t)"
    and "\<And>m m'. J m \<Longrightarrow> (\<And>t x. in_group c t \<Longrightarrow> x \<in> set (xs t) \<Longrightarrow> rd m' (loc (dst x)) = h x (map (\<lambda>y. rd m (loc y)) (src x)))
      \<Longrightarrow> (\<And>y. y \<in> V \<Longrightarrow> (\<And>t x. in_group c t \<Longrightarrow> x \<in> set (xs t) \<Longrightarrow> y \<noteq> dst x) \<Longrightarrow> rd m' (loc y) = rd m (loc y)) \<Longrightarrow> K m'"
  shows "phase_spec c J p K"
  unfolding phase_spec_def
proof (intro allI impI)
  fix m s
  assume J: "J m" and r: "reachable c (p, m) s"
  have "p = (\<lambda>t. compute ps q h (xs t))" using assms(2) by blast
  note res = computes_phase [OF assms(1) r [unfolded this]]
  have "K (snd s)" if f: "finished c s"
  proof (rule assms(3) [OF J])
    show "rd (snd s) (loc (dst x)) = h x (map (\<lambda>y. rd m (loc y)) (src x))" if "in_group c t" "x \<in> set (xs t)" for t x
      using res f that by blast
    show "rd (snd s) (loc y) = rd m (loc y)" if "y \<in> V" "\<And>t x. in_group c t \<Longrightarrow> x \<in> set (xs t) \<Longrightarrow> y \<noteq> dst x" for y
    proof -
      have "y \<in> V - (\<Union>u \<in> group_tiles c. dst ` set (xs u))" using that by (auto simp: group_tiles_def)
      then show ?thesis using res f by blast
    qed
  qed
  then show "(\<exists>s'. reachable c s s' \<and> finished c s') \<and> (finished c s \<longrightarrow> K (snd s))" using conjunct1 [OF res] by blast
qed

section \<open>Programs with barriers\<close>

text \<open>A program that runs its phases with a barrier after each.\<close>

primrec synced :: "proc \<Rightarrow> (tile \<Rightarrow> proc) list \<Rightarrow> tile \<Rightarrow> proc" where
  "synced sync [] t = Ret 0"
| "synced sync (p # ps) t = seq (p t) (seq sync (synced sync ps t))"

lemma synced_append: "synced sync (ps @ qs) t = seq (synced sync ps t) (synced sync qs t)"
  by (induction ps) auto

lemma synced_concat: "synced sync (concat (map ps xs)) t = for_each xs (\<lambda>x. synced sync (ps x) t)"
  by (induction xs) (simp_all add: synced_append)

section \<open>Loops with a step\<close>

text \<open>The values of \<open>for (int i = a; i < b; i += s)\<close> for a positive step.\<close>

function strides :: "int \<Rightarrow> int \<Rightarrow> int \<Rightarrow> int list" where
  "strides i b s = (if i < b \<and> 0 < s then i # strides (i + s) b s else [])"
  by pat_completeness auto

termination strides
  by (relation "measure (\<lambda>(i, b, s). nat (b - i))") auto

declare strides.simps [simp del]

definition for_stride :: "u32 \<Rightarrow> u32 \<Rightarrow> u32 \<Rightarrow> u32 list" where
  "for_stride i b s = map word_of_int (strides (sint i) (sint b) (sint s))"

lemma set_strides: "0 < s \<Longrightarrow> x \<in> set (strides i b s) \<longleftrightarrow> i \<le> x \<and> x < b \<and> s dvd x - i"
proof (induction i b s rule: strides.induct)
  case (1 i b s)
  show ?case
  proof (cases "i < b")
    case True
    have "x - i = (x - (i + s)) + s" by simp
    then have "s dvd x - i \<longleftrightarrow> s dvd x - (i + s)" by (metis dvd_add_triv_right_iff)
    moreover have "x = i \<or> i + s \<le> x" if "i \<le> x" "s dvd x - i"
      using zdvd_imp_le [OF that(2)] that(1) by linarith
    ultimately show ?thesis using True 1 by (subst strides.simps) auto
  next
    case False
    then show ?thesis by (subst strides.simps) auto
  qed
qed

lemma distinct_strides: "distinct (strides i b s)"
proof (induction i b s rule: strides.induct)
  case (1 i b s)
  then show ?case using set_strides [of s i "i + s" b] by (subst strides.simps) auto
qed

lemma set_strides_bounds: "set (strides i b s) \<subseteq> {i..<b}"
proof (cases "0 < s")
  case False
  then show ?thesis by (subst strides.simps) simp
qed (auto simp: set_strides)

lemma distinct_for_stride: "distinct (for_stride i b s)"
proof -
  have "inj_on (word_of_int :: int \<Rightarrow> u32) {sint i..<sint b}"
  proof (rule inj_onI)
    fix x y
    assume "x \<in> {sint i..<sint b}" "y \<in> {sint i..<sint b}" and e: "(word_of_int x :: u32) = word_of_int y"
    then have "- (2 ^ 31) \<le> x" "x < 2 ^ 31" "- (2 ^ 31) \<le> y" "y < 2 ^ 31"
      using sint_greater_eq [of i] sint_lt [of b] by auto
    then show "x = y" using sint_of_int_small [of x] sint_of_int_small [of y] unfolding e by simp
  qed
  then have "inj_on (word_of_int :: int \<Rightarrow> u32) (set (strides (sint i) (sint b) (sint s)))"
    by (rule inj_on_subset) (rule set_strides_bounds)
  then show ?thesis by (simp add: for_stride_def distinct_map distinct_strides)
qed

lemma sint_eq_unat: "unat w < 2 ^ 31 \<Longrightarrow> sint w = int (unat w)" for w :: u32
  using sint_small [OF uint_lt_unat, of w] by simp

lemma sint_nonneg: "0 \<le> sint w \<Longrightarrow> unat w < 2 ^ 31" for w :: u32
proof -
  assume "0 \<le> sint w"
  then have w: "w = of_nat (nat (sint w))" by simp
  have n: "nat (sint w) < 2 ^ 31" using sint_lt [of w] by simp
  then have "unat (of_nat (nat (sint w)) :: u32) = nat (sint w)" by (intro unat_of_nat_lt) simp
  then show ?thesis using n unfolding w [symmetric] by (simp only:)
qed

lemma mem_for_stride: "x \<in> set (for_stride i b s) \<longleftrightarrow> sint x \<in> set (strides (sint i) (sint b) (sint s))"
proof
  assume "x \<in> set (for_stride i b s)"
  then obtain y where y: "y \<in> set (strides (sint i) (sint b) (sint s))" "x = word_of_int y" unfolding for_stride_def by auto
  then have "sint i \<le> y" "y < sint b" using set_strides_bounds [of "sint i" "sint b" "sint s"] by auto
  moreover have "- (2 ^ 31) \<le> sint i" "sint b < 2 ^ 31" using sint_greater_eq [of i] sint_lt [of b] by simp_all
  ultimately have "sint x = y" unfolding y(2) by (intro sint_of_int_small) linarith+
  then show "sint x \<in> set (strides (sint i) (sint b) (sint s))" using y(1) by simp
next
  assume "sint x \<in> set (strides (sint i) (sint b) (sint s))"
  then have "word_of_int (sint x) \<in> set (for_stride i b s)" unfolding for_stride_def set_map by (rule imageI)
  then show "x \<in> set (for_stride i b s)" by simp
qed

lemma set_for_stride:
  assumes "unat i < 2 ^ 31" and "unat b < 2 ^ 31" and "0 < unat s" and "unat s < 2 ^ 31"
  shows "x \<in> set (for_stride i b s) \<longleftrightarrow> unat i \<le> unat x \<and> unat x < unat b \<and> unat x mod unat s = unat i mod unat s"
proof (cases "unat x < 2 ^ 31")
  case True
  have "int (unat s) dvd int (unat x) - int (unat i) \<longleftrightarrow> unat x mod unat s = unat i mod unat s"
    by (metis mod_eq_dvd_iff of_nat_eq_iff of_nat_mod)
  moreover have s: "0 < int (unat s)" by (rule of_nat_0_less_iff [THEN iffD2, OF assms(3)])
  ultimately show ?thesis unfolding mem_for_stride sint_eq_unat [OF True] sint_eq_unat [OF assms(1)] sint_eq_unat [OF assms(2)]
      sint_eq_unat [OF assms(4)] set_strides [OF s] of_nat_le_iff of_nat_less_iff by (simp only:)
next
  case False
  then have "\<not> 0 \<le> sint x" using sint_nonneg by blast
  moreover have "0 \<le> sint i" unfolding sint_eq_unat [OF assms(1)] by simp
  ultimately have "x \<notin> set (for_stride i b s)"
    using set_strides_bounds [of "sint i" "sint b" "sint s"] unfolding mem_for_stride by auto
  then show ?thesis using False assms(2) by simp
qed

section \<open>All words of the DRAM segment and of the tiles\<close>

text \<open>Word \<open>k\<close> of the DRAM segment, and word \<open>k\<close> of the data memory of a tile.\<close>

datatype word_cell = Dram_word nat | Tile_word tile nat

fun cell_npa :: "cfg \<Rightarrow> word_cell \<Rightarrow> npa" where
  "cell_npa c (Dram_word k) = Dram (of_nat (4 * k))"
| "cell_npa c (Tile_word t k) = tile_npa c t (of_nat (4 * k))"

definition word_cells :: "cfg \<Rightarrow> word_cell set" where
  "word_cells c = {y. case y of Dram_word k \<Rightarrow> k < 2 ^ 29 | Tile_word t k \<Rightarrow> in_group c t \<and> k < 2 ^ 16}"

definition kernel_env :: "cfg \<Rightarrow> bool" where
  "kernel_env c \<longleftrightarrow> group_fits c \<and> (\<forall>t e. in_group c t \<longrightarrow> off_io c (tile_npa c t e))"

lemma word_cells_simps [simp]:
  "Dram_word k \<in> word_cells c \<longleftrightarrow> k < 2 ^ 29" "Tile_word t k \<in> word_cells c \<longleftrightarrow> in_group c t \<and> k < 2 ^ 16"
  by (simp_all add: word_cells_def)

lemma word_cells_disjoint:
  assumes "kernel_env c"
  shows "disjoint_cells (cell_npa c) (word_cells c)"
proof -
  have g: "group_fits c" using assms by (simp add: kernel_env_def)
  let ?T = "{y. case y of Dram_word k \<Rightarrow> False | Tile_word t k \<Rightarrow> in_group c t \<and> k < 2 ^ 16}"
  have T: "disjoint_cells (cell_npa c) ?T"
    by (rule disjoint_tile_cells [OF g, where tile = "\<lambda>x. case x of Tile_word t k \<Rightarrow> t" and off = "\<lambda>x. case x of Tile_word t k \<Rightarrow> 4 * k"])
      (auto split: word_cell.splits)
  have D: "disjoint_cells (cell_npa c) (Dram_word ` {..<2 ^ 29})"
    using array_cells [of 0 "2 ^ 29"] by (auto simp: disjoint_cells_def)
  have X: "span4 (cell_npa c (Dram_word i)) \<inter> span4 (cell_npa c (Tile_word t k)) = {}" for i t k
    by (auto simp: span4_def tile_npa_def)
  show ?thesis unfolding disjoint_cells_def
  proof (intro ballI impI)
    fix a b
    assume ab: "a \<in> word_cells c" "b \<in> word_cells c" "a \<noteq> b"
    show "span4 (cell_npa c a) \<inter> span4 (cell_npa c b) = {}"
    proof (cases a; cases b)
      fix i j assume "a = Dram_word i" "b = Dram_word j"
      then show ?thesis using ab D unfolding disjoint_cells_def by simp
    next
      fix i t k assume "a = Dram_word i" "b = Tile_word t k"
      then show ?thesis using X by simp
    next
      fix i t k assume "a = Tile_word t k" "b = Dram_word i"
      then show ?thesis using X [of i t k] by (simp add: Int_commute)
    next
      fix t k u i assume "a = Tile_word t k" "b = Tile_word u i"
      then have "a \<in> ?T" "b \<in> ?T" using ab by simp_all
      then show ?thesis using ab(3) T unfolding disjoint_cells_def by blast
    qed
  qed
qed

lemma word_cells_off_io: "kernel_env c \<Longrightarrow> y \<in> word_cells c \<Longrightarrow> off_io c (cell_npa c y)"
  by (cases y) (auto simp: kernel_env_def off_io_def)

text \<open>Element \<open>i\<close> of an array at word \<open>a\<close> of the DRAM, and of a tile-group shared array at word \<open>l\<close> of each tile.\<close>

abbreviation dram_array :: "nat \<Rightarrow> u32" where
  "dram_array a \<equiv> dram (4 * a)"

abbreviation tile_array :: "nat \<Rightarrow> u32" where
  "tile_array l \<equiv> of_nat (4 * l)"

definition shared_cell :: "cfg \<Rightarrow> nat \<Rightarrow> nat \<Rightarrow> word_cell" where
  "shared_cell c l i = Tile_word (fst (shared_slot c i)) (l + snd (shared_slot c i))"

text \<open>The words each tile sets aside for a shared array of \<open>n\<close> elements.\<close>

definition shared_part :: "cfg \<Rightarrow> nat \<Rightarrow> nat" where
  "shared_part c n = (n + group_N c - 1) div group_N c"

lemma dram_array_eva: "a + n \<le> 2 ^ 29 \<Longrightarrow> i < n \<Longrightarrow> eva_to_npa c t (dram_array a + 4 * of_nat i) = cell_npa c (Dram_word (a + i))"
  using array_eva [of "4 * a" n i c t] by simp

lemma group_N_pos: "group_fits c \<Longrightarrow> 0 < group_N c"
  using group_fits_nat [of c] by (simp add: group_N_def)

lemma slot_in_part:
  assumes "group_fits c" and "i < n"
  shows "snd (shared_slot c i) < shared_part c n"
proof -
  have N: "0 < group_N c" by (rule group_N_pos [OF assms(1)])
  have "Suc (i div group_N c) = (i + group_N c) div group_N c" using div_add_self2 [of "group_N c" i] N by linarith
  also have "\<dots> \<le> shared_part c n" unfolding shared_part_def using assms(2) by (intro div_le_mono) simp
  finally show ?thesis by (simp add: shared_slot_def Let_def group_N_def)
qed

lemma shared_cell_inj: "group_fits c \<Longrightarrow> shared_cell c l i = shared_cell c l j \<longleftrightarrow> i = j"
  using shared_slot_inj [of c i j] by (auto simp: shared_cell_def prod_eq_iff)

lemma shared_cell_apart:
  assumes "group_fits c" and "i < n" and "j < k" and "l + shared_part c n \<le> l' \<or> l' + shared_part c k \<le> l"
  shows "shared_cell c l i \<noteq> shared_cell c l' j"
  using slot_in_part [OF assms(1,2)] slot_in_part [OF assms(1,3)] assms(4) by (auto simp: shared_cell_def)

lemma shared_cell_in: "group_fits c \<Longrightarrow> i < n \<Longrightarrow> l + shared_part c n \<le> 2 ^ 16 \<Longrightarrow> shared_cell c l i \<in> word_cells c"
  using slot_in_part [of c i n] shared_slot_in_group [of c i] by (simp add: shared_cell_def)

lemma shared_cell_eva:
  assumes "group_fits c" and "i < n" and "n \<le> 2 ^ 31" and "l + shared_part c n \<le> 2 ^ 16"
  shows "eva_to_npa c t (bsg_tile_group_shared_ptr c 4 (tile_array l) (of_nat i)) = cell_npa c (shared_cell c l i)"
proof -
  have "l + snd (shared_slot c i) < 2 ^ 16" using slot_in_part [OF assms(1,2)] assms(4) by simp
  moreover from this have "unat (tile_array l) = 4 * l" by (intro unat_of_nat_lt) simp
  ultimately have "shared_fits c (tile_array l) i" using assms(2,3) by (simp add: shared_fits_def del: of_nat_mult)
  from shared_ptr_word [OF assms(1) this] show ?thesis by (simp add: shared_cell_def)
qed

lemma shared_cell_not_dram [simp]: "shared_cell c l i \<noteq> Dram_word k" "Dram_word k \<noteq> shared_cell c l i"
  by (simp_all add: shared_cell_def)

section \<open>Work dealt out to the tiles\<close>

text \<open>The items of \<open>X\<close> are dealt out: each is in the list of one tile, once.\<close>

definition dealt :: "cfg \<Rightarrow> (tile \<Rightarrow> 'x list) \<Rightarrow> 'x set \<Rightarrow> bool" where
  "dealt c xs X \<longleftrightarrow> (\<forall>t. in_group c t \<longrightarrow> distinct (xs t) \<and> set (xs t) \<subseteq> X)
     \<and> (\<forall>t u x. in_group c t \<longrightarrow> in_group c u \<longrightarrow> x \<in> set (xs t) \<longrightarrow> x \<in> set (xs u) \<longrightarrow> t = u)
     \<and> (\<forall>x \<in> X. \<exists>t. in_group c t \<and> x \<in> set (xs t))"

abbreviation cell_val :: "cfg \<Rightarrow> machine \<Rightarrow> word_cell \<Rightarrow> u32" where
  "cell_val c m y \<equiv> rd m (cell_npa c y)"

lemma dealt_spec:
  assumes env: "kernel_env c" and xs: "dealt c xs X" and p: "\<And>t. p t = compute ps q h (xs t)" and inj: "inj_on dst X"
    and q: "\<And>t x. x \<in> X \<Longrightarrow> in_group c t \<Longrightarrow> eva_to_npa c t (q x) = cell_npa c (dst x) \<and> dst x \<in> word_cells c"
    and ps: "\<And>t x. x \<in> X \<Longrightarrow> in_group c t \<Longrightarrow> map (eva_to_npa c t) (ps x) = map (cell_npa c) (src x) \<and> set (src x) \<subseteq> word_cells c"
    and own: "\<And>x x'. x \<in> X \<Longrightarrow> x' \<in> X \<Longrightarrow> dst x' \<in> set (src x) \<Longrightarrow> x' = x"
    and K: "\<And>m m'. J m \<Longrightarrow> (\<And>x. x \<in> X \<Longrightarrow> cell_val c m' (dst x) = h x (map (cell_val c m) (src x)))
      \<Longrightarrow> (\<And>y. y \<in> word_cells c \<Longrightarrow> y \<notin> dst ` X \<Longrightarrow> cell_val c m' y = cell_val c m y) \<Longrightarrow> K m'"
  shows "phase_spec c J p K"
proof (rule computes_spec [where V = "word_cells c" and loc = "cell_npa c", OF _ p])
  have sub: "set (xs t) \<subseteq> X" "distinct (xs t)" if "in_group c t" for t using xs that unfolding dealt_def by blast+
  have W: "(\<Union>u \<in> group_tiles c. dst ` set (xs u)) \<subseteq> dst ` X" using sub(1) by (auto simp: group_tiles_def)
  show "computes c (cell_npa c) (word_cells c) xs ps src q dst"
    unfolding computes_def
  proof (intro conjI ballI allI impI)
    show "disjoint_cells (cell_npa c) (word_cells c)" by (rule word_cells_disjoint [OF env])
    show "off_io c (cell_npa c y)" if "y \<in> word_cells c" for y using word_cells_off_io [OF env that] .
    show "distinct (map dst (xs t))" if "in_group c t" for t
      using sub [OF that] inj by (auto simp: distinct_map intro: inj_on_subset)
    show "dst ` set (xs t) \<inter> dst ` set (xs u) = {}" if "in_group c t" "in_group c u" "t \<noteq> u" for t u
    proof -
      have "set (xs t) \<inter> set (xs u) = {}" using xs that unfolding dealt_def by blast
      then show ?thesis using inj_on_image_Int [OF inj sub(1) [OF that(1)] sub(1) [OF that(2)]] by simp
    qed
    fix t x
    assume t: "in_group c t" and x: "x \<in> set (xs t)"
    then have X: "x \<in> X" using sub(1) by blast
    show "eva_to_npa c t (q x) = cell_npa c (dst x)" "dst x \<in> word_cells c" using q [OF X t] by simp_all
    show "map (eva_to_npa c t) (ps x) = map (cell_npa c) (src x)" using ps [OF X t] by simp
    show "set (src x) \<subseteq> word_cells c - (\<Union>u \<in> group_tiles c. dst ` set (xs u)) \<union> {dst x}"
    proof
      fix y
      assume y: "y \<in> set (src x)"
      have "y = dst x" if "y \<in> dst ` X" using that own [OF X] y by blast
      then show "y \<in> word_cells c - (\<Union>u \<in> group_tiles c. dst ` set (xs u)) \<union> {dst x}" using ps [OF X t] y W by blast
    qed
  qed
next
  fix m m'
  assume J: "J m"
    and new: "\<And>t x. in_group c t \<Longrightarrow> x \<in> set (xs t) \<Longrightarrow> rd m' (cell_npa c (dst x)) = h x (map (\<lambda>y. rd m (cell_npa c y)) (src x))"
    and old: "\<And>y. y \<in> word_cells c \<Longrightarrow> (\<And>t x. in_group c t \<Longrightarrow> x \<in> set (xs t) \<Longrightarrow> y \<noteq> dst x) \<Longrightarrow> rd m' (cell_npa c y) = rd m (cell_npa c y)"
  show "K m'"
  proof (rule K [OF J])
    show "cell_val c m' (dst x) = h x (map (cell_val c m) (src x))" if x: "x \<in> X" for x
    proof -
      obtain t where "in_group c t" "x \<in> set (xs t)" using xs x unfolding dealt_def by blast
      then show ?thesis by (rule new)
    qed
    show "cell_val c m' y = cell_val c m y" if "y \<in> word_cells c" "y \<notin> dst ` X" for y
    proof (rule old [OF that(1)])
      show "y \<noteq> dst x" if "in_group c t" "x \<in> set (xs t)" for t x
        using \<open>y \<notin> dst ` X\<close> that xs unfolding dealt_def by blast
    qed
  qed
qed

text \<open>The words below \<open>n\<close>, and those from \<open>a\<close> on.\<close>

definition words_from :: "nat \<Rightarrow> nat \<Rightarrow> u32 set" where
  "words_from a n = {w. a \<le> unat w \<and> unat w < a + n}"

abbreviation words_below :: "nat \<Rightarrow> u32 set" where
  "words_below n \<equiv> words_from 0 n"

lemma mod_shift: "(s + d) mod step = (s + r) mod step \<longleftrightarrow> d mod step = r mod step" for s d r step :: nat
proof -
  have "int (s + d) - int (s + r) = int d - int r" by simp
  then show ?thesis by (metis mod_eq_dvd_iff of_nat_eq_iff of_nat_mod)
qed

lemma stride_part:
  assumes "a + n \<le> 2 ^ 30" and "unat r < unat step" and "unat step \<le> 2 ^ 11"
  shows "x \<in> set (for_stride (of_nat a + r) (of_nat a + of_nat n) step)
    \<longleftrightarrow> x \<in> words_from a n \<and> (unat x - a) mod unat step = unat r"
proof -
  have u: "unat (of_nat a + of_nat n :: u32) = a + n" "unat (of_nat a + r) = a + unat r"
    using assms unat_of_nat_lt [of "a + n"] unat_of_nat_lt [of "a + unat r"] by simp_all
  have "unat (of_nat a + r) < 2 ^ 31" "unat (of_nat a + of_nat n :: u32) < 2 ^ 31" "0 < unat step" "unat step < 2 ^ 31"
    using assms u by simp_all
  note mem = set_for_stride [OF this, of x, unfolded u]
  show ?thesis
  proof (cases "a \<le> unat x")
    case True
    then obtain d where d: "unat x = a + d" using le_Suc_ex by blast
    have "d mod unat step \<le> d" by (rule mod_less_eq_dividend)
    then have "d mod unat step = unat r \<Longrightarrow> unat r \<le> d" by simp
    then show ?thesis using assms(2) unfolding mem words_from_def mem_Collect_eq d mod_shift by auto
  next
    case False
    then show ?thesis unfolding mem words_from_def by simp
  qed
qed

lemma dealt_blocks:
  assumes g: "group_fits c" and "a + n \<le> 2 ^ 30" and "b + k \<le> 2 ^ 30"
  shows "dealt c (\<lambda>t. List.product (for_stride (of_nat a + snd t) (of_nat a + of_nat n) (bsg_tiles_Y c))
      (for_stride (of_nat b + fst t) (of_nat b + of_nat k) (bsg_tiles_X c))) (words_from a n \<times> words_from b k)"
  unfolding dealt_def
proof (intro conjI allI impI ballI)
  have size: "unat (bsg_tiles_Y c) \<le> 2 ^ 11" "unat (bsg_tiles_X c) \<le> 2 ^ 11" using group_fits_nat [OF g] by simp_all
  have r: "unat (snd t) < unat (bsg_tiles_Y c)" "unat (fst t) < unat (bsg_tiles_X c)" if "in_group c t" for t
    using that by (simp_all add: in_group_def word_less_nat_alt)
  note parts = stride_part [OF assms(2) r(1) size(1)] stride_part [OF assms(3) r(2) size(2)]
  fix t
  assume t: "in_group c t"
  show "distinct (List.product (for_stride (of_nat a + snd t) (of_nat a + of_nat n) (bsg_tiles_Y c))
      (for_stride (of_nat b + fst t) (of_nat b + of_nat k) (bsg_tiles_X c)))" by (simp add: distinct_product distinct_for_stride)
  show "set (List.product (for_stride (of_nat a + snd t) (of_nat a + of_nat n) (bsg_tiles_Y c))
      (for_stride (of_nat b + fst t) (of_nat b + of_nat k) (bsg_tiles_X c))) \<subseteq> words_from a n \<times> words_from b k"
    by (auto simp: parts [OF t])
  fix u x
  assume u: "in_group c u" and "x \<in> set (List.product (for_stride (of_nat a + snd t) (of_nat a + of_nat n) (bsg_tiles_Y c))
      (for_stride (of_nat b + fst t) (of_nat b + of_nat k) (bsg_tiles_X c)))"
    "x \<in> set (List.product (for_stride (of_nat a + snd u) (of_nat a + of_nat n) (bsg_tiles_Y c))
      (for_stride (of_nat b + fst u) (of_nat b + of_nat k) (bsg_tiles_X c)))"
  then have "unat (snd t) = unat (snd u)" "unat (fst t) = unat (fst u)" by (auto simp: parts [OF t] parts [OF u])
  then show "t = u" by (simp add: prod_eq_iff word_unat_eq_iff)
next
  have size: "unat (bsg_tiles_Y c) \<le> 2 ^ 11" "unat (bsg_tiles_X c) \<le> 2 ^ 11" using group_fits_nat [OF g] by simp_all
  fix z
  assume z: "z \<in> words_from a n \<times> words_from b k"
  have lt: "(unat (fst z) - a) mod unat (bsg_tiles_Y c) < unat (bsg_tiles_Y c)" "(unat (snd z) - b) mod unat (bsg_tiles_X c) < unat (bsg_tiles_X c)"
    using group_fits_nat [OF g] by simp_all
  let ?t = "(of_nat ((unat (snd z) - b) mod unat (bsg_tiles_X c)), of_nat ((unat (fst z) - a) mod unat (bsg_tiles_Y c))) :: tile"
  have u: "unat (fst ?t) = (unat (snd z) - b) mod unat (bsg_tiles_X c)" "unat (snd ?t) = (unat (fst z) - a) mod unat (bsg_tiles_Y c)"
    using lt size by (simp_all add: unat_of_nat_lt)
  have r: "unat (snd ?t) < unat (bsg_tiles_Y c)" "unat (fst ?t) < unat (bsg_tiles_X c)" using lt unfolding u by simp_all
  have "in_group c ?t" using r unfolding in_group_def word_less_nat_alt by simp
  moreover have "fst z \<in> set (for_stride (of_nat a + snd ?t) (of_nat a + of_nat n) (bsg_tiles_Y c))"
    "snd z \<in> set (for_stride (of_nat b + fst ?t) (of_nat b + of_nat k) (bsg_tiles_X c))"
    using z u unfolding stride_part [OF assms(2) r(1) size(1)] stride_part [OF assms(3) r(2) size(2)] by auto
  ultimately show "\<exists>t. in_group c t \<and> z \<in> set (List.product (for_stride (of_nat a + snd t) (of_nat a + of_nat n) (bsg_tiles_Y c))
      (for_stride (of_nat b + fst t) (of_nat b + of_nat k) (bsg_tiles_X c)))"
    by (intro exI [of _ ?t]) (cases z, simp)
qed

end
