(* ===== verification/Cuda_Kernels.thy ===== *)
theory Cuda_Kernels
  imports Phases Tile_Group_Barrier_Cpp
begin

text \<open>
  Kernels of \<open>bsg_cuda_lite_runtime\<close> that every tile of a group runs on its part of the data, with the barrier of
  \<open>bsg_tile_group_barrier.hpp\<close> between the parts: vector addition, without and with tile-group shared memory, the copies
  through shared memory, the sum of stack arguments, matrix multiplication and the maximum over blocks of a matrix.
\<close>

section \<open>The kernels\<close>

text \<open>The variables the run time sets for the tile group: the grid's width and the group's place in the grid.\<close>

record launch =
  grid_dim_x :: u32
  group_id_x :: u32
  group_id_y :: u32












text \<open>\<open>for (iter_y = __bsg_y; iter_y < rows; iter_y += bsg_tiles_Y) for (iter_x = __bsg_x; iter_x < cols; iter_x += bsg_tiles_X)\<close>\<close>

definition for_tile_block :: "cfg \<Rightarrow> tile \<Rightarrow> u32 \<Rightarrow> u32 \<Rightarrow> (u32 \<Rightarrow> u32 \<Rightarrow> proc) \<Rightarrow> proc" where
  "for_tile_block c t rows cols f =
     for_each (for_stride (snd t) rows (bsg_tiles_Y c)) (\<lambda>iter_y. for_each (for_stride (fst t) cols (bsg_tiles_X c)) (\<lambda>iter_x. f iter_y iter_x))"

text \<open>\<open>kernel_shared_mem_load_store\<close>\<close>

definition block_in :: "cfg \<Rightarrow> launch \<Rightarrow> tile \<Rightarrow> u32 \<Rightarrow> u32 \<Rightarrow> u32 \<Rightarrow> u32 \<Rightarrow> u32 \<Rightarrow> proc" where
  "block_in c g t sh_A A_in dim_N block_size_y block_size_x =
     (let start_y = group_id_y g * block_size_y; start_x = group_id_x g * block_size_x in
      for_tile_block c t block_size_y block_size_x (\<lambda>iter_y iter_x.
        Act (Load32 (A_in + 4 * ((start_y + iter_y) * dim_N + (start_x + iter_x)))) (\<lambda>v.
          bsg_tile_group_shared_store c sh_A (iter_y * block_size_x + iter_x) v)))"

definition block_out :: "cfg \<Rightarrow> launch \<Rightarrow> tile \<Rightarrow> u32 \<Rightarrow> u32 \<Rightarrow> u32 \<Rightarrow> u32 \<Rightarrow> u32 \<Rightarrow> proc" where
  "block_out c g t sh_A A_out dim_N block_size_y block_size_x =
     (let start_y = group_id_y g * block_size_y; start_x = group_id_x g * block_size_x in
      for_tile_block c t block_size_y block_size_x (\<lambda>iter_y iter_x.
        bind (bsg_tile_group_shared_load c sh_A (iter_y * block_size_x + iter_x)) (\<lambda>v.
          Act (Store32 (A_out + 4 * ((start_y + iter_y) * dim_N + (start_x + iter_x))) v) Ret)))"

definition kernel_shared_mem_load_store ::
    "cfg \<Rightarrow> launch \<Rightarrow> bsg_barrier_hpp \<Rightarrow> tile \<Rightarrow> u32 \<Rightarrow> u32 \<Rightarrow> u32 \<Rightarrow> u32 \<Rightarrow> u32 \<Rightarrow> u32 \<Rightarrow> u32 \<Rightarrow> proc" where
  "kernel_shared_mem_load_store c g barrier t sh_A A_in A_out dim_M dim_N block_size_y block_size_x =
     seq (block_in c g t sh_A A_in dim_N block_size_y block_size_x) (seq (barrier_sync barrier t)
       (seq (block_out c g t sh_A A_out dim_N block_size_y block_size_x) (seq (barrier_sync barrier t) (Ret 0))))"

text \<open>\<open>kernel_stack_load\<close>: fifteen arguments, of which the last ones are passed on the stack.\<close>

definition stack_sum :: "cfg \<Rightarrow> tile \<Rightarrow> u32 \<Rightarrow> u32 list \<Rightarrow> proc" where
  "stack_sum c t sum_ptr args = Act (Store32 (sum_ptr + 4 * bsg_x_y_to_id c (fst t) (snd t)) (foldl (+) (hd args) (tl args))) Ret"

definition kernel_stack_load :: "cfg \<Rightarrow> bsg_barrier_hpp \<Rightarrow> tile \<Rightarrow> u32 \<Rightarrow> u32 \<Rightarrow> u32 \<Rightarrow> u32 \<Rightarrow> u32 \<Rightarrow> u32 \<Rightarrow> u32 \<Rightarrow> u32 \<Rightarrow> u32 \<Rightarrow> u32
    \<Rightarrow> u32 \<Rightarrow> u32 \<Rightarrow> u32 \<Rightarrow> u32 \<Rightarrow> u32 \<Rightarrow> u32 \<Rightarrow> proc" where
  "kernel_stack_load c barrier t sum_ptr a1 a2 a3 a4 a5 a6 a7 a8 a9 a10 a11 a12 a13 a14 a15 =
     seq (stack_sum c t sum_ptr [a1, a2, a3, a4, a5, a6, a7, a8, a9, a10, a11, a12, a13, a14, a15])
       (seq (barrier_sync barrier t) (Ret 0))"



text \<open>\<open>kernel_max_pool2d\<close>. The array is not volatile: \<open>A[y * N + x]\<close> is loaded once for the test and the assignment.\<close>

definition max_pool2d_body :: "cfg \<Rightarrow> launch \<Rightarrow> tile \<Rightarrow> u32 \<Rightarrow> u32 \<Rightarrow> u32 \<Rightarrow> u32 \<Rightarrow> u32 \<Rightarrow> u32 \<Rightarrow> u32 \<Rightarrow> u32 \<Rightarrow> proc" where
  "max_pool2d_body c g t A B dim_M dim_N dim_P dim_W block_size_y block_size_x =
     (let sub_block_y = c_div dim_M dim_P; sub_block_x = c_div dim_N dim_W;
          start_y = group_id_y g * block_size_y; start_x = group_id_x g * block_size_x;
          end_y = start_y + block_size_y; end_x = start_x + block_size_x in
      for_each (for_stride (start_y + snd t) end_y (bsg_tiles_Y c)) (\<lambda>iter_y.
        for_each (for_stride (start_x + fst t) end_x (bsg_tiles_X c)) (\<lambda>iter_x.
          let src_start_y = iter_y * sub_block_y; src_start_x = iter_x * sub_block_x;
              src_end_y = src_start_y + sub_block_y; src_end_x = src_start_x + sub_block_x in
          Act (Load32 (A + 4 * (src_start_y * dim_N + src_start_x))) (\<lambda>first.
            bind (for_fold (for_stride src_start_y src_end_y 1) (\<lambda>y sub_max.
                for_fold (for_stride src_start_x src_end_x 1) (\<lambda>x sub_max.
                  Act (Load32 (A + 4 * (y * dim_N + x))) (\<lambda>v. Ret (if slt sub_max v then v else sub_max))) sub_max) first)
              (\<lambda>sub_max. Act (Store32 (B + 4 * (iter_y * dim_W + iter_x)) sub_max) Ret)))))"

definition kernel_max_pool2d ::
    "cfg \<Rightarrow> launch \<Rightarrow> bsg_barrier_hpp \<Rightarrow> tile \<Rightarrow> u32 \<Rightarrow> u32 \<Rightarrow> u32 \<Rightarrow> u32 \<Rightarrow> u32 \<Rightarrow> u32 \<Rightarrow> u32 \<Rightarrow> u32 \<Rightarrow> proc" where
  "kernel_max_pool2d c g barrier t A B dim_M dim_N dim_P dim_W block_size_y block_size_x =
     seq (max_pool2d_body c g t A B dim_M dim_N dim_P dim_W block_size_y block_size_x) (seq (barrier_sync barrier t) (Ret 0))"

section \<open>How the work is dealt out\<close>







section \<open>Vector addition\<close>










section \<open>Vector addition through shared memory\<close>

text \<open>Shared arrays of \<open>n\<close> elements at words \<open>lA\<close>, \<open>lB\<close>, \<open>lC\<close> of every tile.\<close>

definition shared_layout :: "cfg \<Rightarrow> nat \<Rightarrow> nat list \<Rightarrow> bool" where
  "shared_layout c n ls \<longleftrightarrow> (\<forall>l \<in> set ls. l + shared_part c n \<le> 2 ^ 16)
     \<and> (\<forall>i < length ls. \<forall>j < i. ls ! j + shared_part c n \<le> ls ! i)"









section \<open>Two ways to deal out a shared array\<close>







section \<open>Matrix multiplication\<close>














section \<open>The property\<close>












end
