(* ===== verification/Spec2Isabelle.thy ===== *)
theory Spec2Isabelle
  imports MCS_Mutex Token_Queue_Test Crc Quicksort_Test HW_Barrier Tile_Group_Barrier_Cpp Pointer_Chasing
    Histogram Chained_Cores Tilegroup Start_Up Payload_Codec Barrier_Chief Cuda_Kernels
begin

text \<open>
  The software of the BSG manycore: the C and C++ library that every tile links
  (\<open>software/bsg_manycore_lib\<close>) and the programs that test the network, the caches and the library
  (\<open>software/spmd\<close>), for the RV32 target with 32-bit \<open>int\<close> and pointers. The hardware description in the
  repository is what these programs run on; the development models it by the execution model below.

  \<^bold>\<open>How the parts interact.\<close> Every tile of a group runs the same program. A tile reaches its own scratchpad, the
  scratchpads of the other tiles, the victim caches and the host through one 32-bit address space; the pointer macros of
  \<open>bsg_manycore_arch.h\<close> build addresses, the hardware translates them to a node of the network and an address
  there. On these pointers the library builds locks, barriers and queues, and the programs build on those.

  \<^bold>\<open>Execution model.\<close>
  \<^item> \<open>Prelude\<close>: the integer types, C's truncating division and shifts on words, generic lemmas on words and lists.
  \<^item> \<open>Arch\<close>: the pointer macros and address fields (\<open>bsg_manycore_arch.h\<close>, \<open>bsg_manycore_asm.h\<close>), and
    \<open>translate\<close>, the translation of endpoint virtual addresses.
  \<^item> \<open>Machine\<close>: the memory, a map from physical byte addresses to bytes together with the list of packets that the
    host received; the operations of a tile (loads, stores, atomics with the width of the instruction); and programs,
    terms of \<open>proc\<close>, which are a result or an operation with a continuation for its answer. A \<open>proc\<close> is the
    translation of a C function that touches memory: \<open>eval\<close> runs it alone, and \<open>sys_step\<close> lets any tile of a
    group do its next operation, so a schedule is any interleaving of the memory operations. Accesses are
    sequentially consistent: fences have no effect in the model, and the programs' use of them is not checked.
  \<^item> \<open>Programs\<close>, \<open>Program_Checks\<close>: programs of one tile up to the report to the host, and the loops that fill and
    compare memory. A program ends in \<open>bsg_finish\<close> or \<open>bsg_fail\<close>, both of which spin for ever after their
    store, as the macros do; \<open>passes\<close> and \<open>fails\<close> are the predicates for reaching that state.

  \<^bold>\<open>The library.\<close>
  \<^item> \<open>Manycore\<close>: \<open>bsg_manycore.h\<close>, \<open>bsg_manycore_atomic.h\<close>, \<open>bsg_tile_config_vars.*\<close>. A store to a remote or
    shared pointer is seen at the same place through the other pointer macros, and at no other.
  \<^item> \<open>Start_Up\<close>: \<open>bsg_set_tile_x_y.c\<close>, run by every program first. In every interleaving each tile gets its own
    coordinates, and all tiles return.
  \<^item> \<open>Mutex\<close>: \<open>bsg_mutex.h\<close>. For any number of tiles and calls: mutual exclusion, no lost increment, no deadlock.
  \<^item> \<open>MCS_Queue\<close>, \<open>MCS_Mutex\<close>: \<open>bsg_mcs_mutex.hpp\<close>, the queue lock without compare-and-swap, and its test.
    \<open>MCS_Queue\<close> is the abstract queue, a step relation with an invariant on chains of tiles; \<open>MCS_Mutex\<close> shows
    that every memory operation of the code is a step of it or leaves it alone.
  \<^item> \<open>Token_Queue\<close>: \<open>bsg_token_queue.h\<close>, both counter widths. The abstract specification is a FIFO; sender and
    receiver never touch the same word at the same time; they cannot deadlock.
  \<^item> \<open>Barrier\<close>: \<open>bsg_barrier.h\<close>; \<open>Handshake\<close>, \<open>Tree_Barrier\<close>, \<open>Tile_Group_Barrier\<close>,
    \<open>Tile_Group_Barrier_Cpp\<close>: \<open>bsg_tile_group_barrier.h\<close> and \<open>.hpp\<close>. No tile leaves a round before every
    tile has entered it, and all rounds can be completed. \<open>Handshake\<close> proves this for an arbitrary graph of
    two-way handshakes, \<open>Tree_Barrier\<close> for the tree of rows and centre column, and the two implementations are shown to
    run these operations. The theorems about \<open>bsg_barrier.h\<close> are for the chief \<open>(0, 0)\<close>, the only one that the
    programs use; \<open>Barrier_Chief\<close> shows that with any other chief tile \<open>(0, 0)\<close> never returns.
  \<^item> \<open>HW_Barrier\<close>: \<open>bsg_hw_barrier_config_init.h\<close>. The configuration words of all tiles describe one tree.
  \<^item> \<open>Printf\<close>: \<open>bsg_printf.c\<close> without floating point. The digits of a number denote it, fields have their width,
    and messages of several tiles are not mixed. \<open>bsg_printf\<close> formats into a buffer of 256 bytes; a call whose text does
    not fit, or whose arguments do not fit the format, is an error of the model, since C defines no behaviour for it.
  \<^item> \<open>Striped\<close>: \<open>bsg_group_strider.hpp\<close>, \<open>bsg_striped_array.hpp\<close>. \<open>Tilegroup\<close>: \<open>bsg_tilegroup.h\<close>, whose block
    loops are characterised; the pointers it builds use macros that the repository does not define, so nothing is proved of them.

  \<^bold>\<open>The programs.\<close> \<open>Token_Queue_Test\<close>, \<open>Crc_Data\<close> and \<open>Crc\<close> (\<open>crc32\<close>, \<open>remote_load_crc\<close>),
  \<open>Quicksort_Test\<close> (\<open>quicksort\<close>, \<open>quicksort_by4\<close>), \<open>Pointer_Data\<close> and \<open>Pointer_Chasing\<close>
  (\<open>network_test_pointer_chasing\<close>, \<open>network_test_pointer_chasing2\<close>), \<open>Histogram_Data\<close>, \<open>Locked_Update\<close> and
  \<open>Histogram\<close> (\<open>vcache_atomic_histogram\<close>, \<open>vcache_atomic_histogram2\<close>), \<open>Credit_Test\<close>
  (\<open>test_credit_limit_csr\<close> and its multi-tile variant), \<open>Memory_Tests\<close> (\<open>memtest1\<close>, \<open>memtest9\<close>,
  \<open>memtest_fast\<close>, \<open>memtest2020\<close>, \<open>simple_memory_test\<close>), \<open>Network_Data\<close> and \<open>Network_Tests\<close>
  (\<open>network_test_all_to_cache\<close>, \<open>network_test_all_to_all\<close>, \<open>network_test_bandwidth\<close>, \<open>memtest2022\<close>; their barriers are
  parameters, the phases between two barriers are proved in every interleaving), \<open>Chained_Protocol\<close> and
  \<open>Chained_Cores\<close> (\<open>bsg_chained_core\<close>, a pipeline of all tiles: \<open>Chained_Protocol\<close> is the protocol of a link with two
  blocks and its invariant, without memory; \<open>Chained_Cores\<close> shows that the code runs it). The data of these programs are literals of the model, and the
  theorems say what the programs report on them.

  \<^bold>\<open>Kernels.\<close> \<open>Cuda_Kernels\<close>: seven integer kernels of \<open>spmd/bsg_cuda_lite_runtime\<close>, of which vector addition (also through
  tile-group shared memory), matrix multiplication and the test of shared memory are proved to compute what they should.
  \<open>Phases\<close> is the method: a kernel is a sequence of phases with a barrier after each, no tile begins a phase before all
  have ended the one before (the safety of the barrier), and in a phase the tiles store to words of their own and load words
  that nobody stores, so that \<open>Isolation\<close> gives its result in every interleaving.

  \<^bold>\<open>Messages of the belief-propagation engine.\<close> \<open>Payload_Codec\<close>: \<open>gbp_message_payload_codec.hpp\<close> and the decoder
  that uses it in \<open>gbp_event_correlation.hpp\<close>, both in \<open>nocbp_verilator/tests/common\<close>. Encoding and decoding are inverse; the
  lengths that make decoding read outside the payload are characterised.

  \<^bold>\<open>How concurrency is proved.\<close> A client describes the states of a tile's program by a datatype and the shared memory by
  a record of cells; the locale \<open>control_points\<close> in \<open>Machine\<close> relates the operations of the program to the steps
  of this smaller system once, so that an invariant of the small system holds in every interleaving of the program.
  Each use is an interpretation on the model's own code: the lock, the token queue, the barrier, the printer, the
  locked updates, the start-up protocol and the chain of tiles. \<open>Isolation\<close> covers the opposite case, tiles that touch disjoint memory, for which every interleaving
  ends as the tiles alone. \<open>Guarded\<close> is for what never happens: a program logic for words that no tile changes but in
  given ways, whatever the other tiles do.

  \<^bold>\<open>Loops and termination.\<close> A counted loop is a recursion on what is left of it. A loop that waits for another tile
  is a \<open>proc\<close> that polls; the liveness theorems say that from every reachable state some schedule finishes all tiles, so
  no state is a deadlock; they do not assume or claim a fair scheduler. A loop whose end depends on data is a
  \<open>partial_function\<close> with \<open>None\<close> for not returning, and that it returns is proved. \<open>runs\<close> and \<open>eval\<close> of a
  terminating program need no fuel.

  \<^bold>\<open>Conventions.\<close> The global variables \<open>bsg_x\<close> and \<open>bsg_y\<close> are passed as the tile; they are what
  \<open>bsg_set_tile_x_y\<close> leaves there (\<open>Start_Up\<close>). \<open>bsg_tiles_X\<close> and \<open>bsg_tiles_Y\<close> are parameters. Addresses of objects that the
  linker places are parameters with the hypothesis that the objects do not overlap. Stack variables and structs that
  no other tile reads are values of the model, not memory.

  \<^bold>\<open>Not modelled.\<close>
  \<^item> The hardware: the SystemVerilog of the network and of the GBP processing element, and its Verilator test benches
    (\<open>nocbp_verilator\<close>), which drive generated simulation classes.
  \<^item> Floating point: \<open>bsg_printf.c\<close> with \<open>HAS_FLOAT\<close> and the programs that compute with \<open>float\<close>.
  \<^item> Start-up code, interrupt handlers and tests in assembly; control registers except where a C function writes them.
  \<^item> The LLVM pass (its behaviour is that of LLVM's API), the Python tools, and third-party code such as CoreMark.
  \<^item> The kernel loader of the cuda-lite run time and the host programs, which are not in the repository; the other kernels
    compute with \<open>float\<close>, repeat the modelled ones, or only exercise the host.
  \<^item> Timing, weak memory ordering, and the network's capacity.
\<close>

end
